(* ===== verification/Prelude.thy ===== *)
theory Prelude
  imports Main "HOL-Library.Word"
begin

text \<open>
  Shared vocabulary of the development: the types that stand for the Rust
  standard types, the result type and its sequencing operator (Rust's \<open>?\<close>),
  the string operations of the standard library that several components call,
  and the collections of lemmas the component proofs draw on.

  A Rust \<open>String\<close> is a HOL \<^typ>\<open>string\<close>; one HOL character stands for one
  Unicode scalar value, and every character the engine compares against is ASCII.
  A \<open>Result<T, E>\<close> is \<open>'e + 'a\<close> with the error on the left.
\<close>

named_theorems engine_defs \<open>definitions unfolded when a component is evaluated\<close>
named_theorems engine_inv \<open>preservation lemmas of the component invariants\<close>

type_synonym u8 = "8 word"
type_synonym u16 = "16 word"
type_synonym u32 = "32 word"
type_synonym u128 = "128 word"
type_synonym f64 = "64 word"

section \<open>Results\<close>

fun rbind :: "'e + 'a \<Rightarrow> ('a \<Rightarrow> 'e + 'b) \<Rightarrow> 'e + 'b" where
  "rbind (Inl e) f = Inl e"
| "rbind (Inr x) f = f x"

fun ok_or :: "'e \<Rightarrow> 'a option \<Rightarrow> 'e + 'a" where
  "ok_or e None = Inl e"
| "ok_or e (Some x) = Inr x"

section \<open>String operations of the Rust standard library\<close>

definition to_ascii_lower :: "char \<Rightarrow> char" where
  "to_ascii_lower c =
     (if 65 \<le> (of_char c :: nat) \<and> (of_char c :: nat) \<le> 90
      then char_of ((of_char c :: nat) + 32) else c)"

definition to_ascii_lowercase :: "string \<Rightarrow> string" where
  "to_ascii_lowercase s = map to_ascii_lower s"

definition is_ascii_digit :: "char \<Rightarrow> bool" where
  "is_ascii_digit c \<longleftrightarrow> 48 \<le> (of_char c :: nat) \<and> (of_char c :: nat) \<le> 57"

definition digit_val :: "char \<Rightarrow> nat" where
  "digit_val c = of_char c - 48"

definition is_whitespace :: "char \<Rightarrow> bool" where
  "is_whitespace c \<longleftrightarrow> (let n = (of_char c :: nat) in (9 \<le> n \<and> n \<le> 13) \<or> n = 32 \<or> n = 133 \<or> n = 160)"

definition str_trim :: "string \<Rightarrow> string" where
  "str_trim s = rev (dropWhile is_whitespace (rev (dropWhile is_whitespace s)))"

fun str_find :: "(char \<Rightarrow> bool) \<Rightarrow> string \<Rightarrow> nat option" where
  "str_find P [] = None"
| "str_find P (c # s) = (if P c then Some 0 else map_option Suc (str_find P s))"

fun str_starts_with :: "string \<Rightarrow> string \<Rightarrow> bool" where
  "str_starts_with [] s = True"
| "str_starts_with (p # ps) [] = False"
| "str_starts_with (p # ps) (c # s) = (p = c \<and> str_starts_with ps s)"

fun str_find_sub :: "string \<Rightarrow> string \<Rightarrow> nat option" where
  "str_find_sub pat [] = (if pat = [] then Some 0 else None)"
| "str_find_sub pat (c # s) =
     (if str_starts_with pat (c # s) then Some 0 else map_option Suc (str_find_sub pat s))"

text \<open>\<open>show_nat\<close> is the decimal rendering of an unsigned integer by \<open>format!\<close>.\<close>

fun show_nat :: "nat \<Rightarrow> string" where
  "show_nat n =
     (if n < 10 then [char_of (48 + n)] else show_nat (n div 10) @ [char_of (48 + n mod 10)])"

declare show_nat.simps [simp del]

section \<open>Lemmas shared by the components\<close>

lemma rbind_Inr_iff [simp]: "rbind m f = Inr y \<longleftrightarrow> (\<exists>x. m = Inr x \<and> f x = Inr y)"
  by (cases m) auto

lemma rbind_Inl_iff: "rbind m f = Inl e \<longleftrightarrow> m = Inl e \<or> (\<exists>x. m = Inr x \<and> f x = Inl e)"
  by (cases m) auto

lemma rbind_cong [fundef_cong]:
  "m = m' \<Longrightarrow> (\<And>x. m' = Inr x \<Longrightarrow> f x = f' x) \<Longrightarrow> rbind m f = rbind m' f'"
  by (cases m') auto

lemma rbind_assoc: "rbind (rbind m f) g = rbind m (\<lambda>x. rbind (f x) g)"
  by (cases m) auto

lemma str_find_Some_iff:
  "str_find P s = Some i \<longleftrightarrow> i < length s \<and> P (s ! i) \<and> (\<forall>j < i. \<not> P (s ! j))"
proof (induction s arbitrary: i)
  case Nil
  then show ?case by simp
next
  case (Cons c s)
  show ?case
    by (cases i) (auto simp: Cons.IH less_Suc_eq_0_disj)
qed

lemma str_find_None_iff: "str_find P s = None \<longleftrightarrow> (\<forall>c \<in> set s. \<not> P c)"
  by (induction s) auto

lemma str_find_takeWhile:
  "str_find P s = Some i \<Longrightarrow> take i s = takeWhile (\<lambda>c. \<not> P c) s"
proof (induction s arbitrary: i)
  case (Cons c s)
  then show ?case by (cases "P c") auto
qed simp

lemma show_nat_lt_10: "n < 10 \<Longrightarrow> show_nat n = [char_of (48 + n)]"
  by (simp add: show_nat.simps)

lemma show_nat_ge_10: "10 \<le> n \<Longrightarrow> show_nat n = show_nat (n div 10) @ [char_of (48 + n mod 10)]"
  by (subst show_nat.simps) simp

lemma show_nat_digits: "\<forall>c \<in> set (show_nat n). is_ascii_digit c"
proof (induction n rule: show_nat.induct)
  case (1 n)
  then show ?case by (subst show_nat.simps) (auto simp: is_ascii_digit_def)
qed

lemma show_nat_not_Nil [simp]: "show_nat n \<noteq> []"
  by (subst show_nat.simps) simp

lemma str_find_append:
  "\<forall>c \<in> set xs. \<not> P c \<Longrightarrow> str_find P (xs @ ys) = map_option (\<lambda>i. length xs + i) (str_find P ys)"
  by (induction xs) (cases "str_find P ys"; auto)+

lemma str_trim_id:
  assumes "s \<noteq> []" "\<not> is_whitespace (hd s)" "\<not> is_whitespace (last s)"
  shows "str_trim s = s"
proof -
  have "dropWhile is_whitespace s = s" using assms by (cases s) auto
  moreover have "dropWhile is_whitespace (rev s) = rev s"
    using assms by (cases s rule: rev_cases) auto
  ultimately show ?thesis by (simp add: str_trim_def)
qed

end
