(* ===== verification/Sql_Like.thy ===== *)
theory Sql_Like
  imports Prelude
begin

text \<open>
  The in-memory SQL \<open>LIKE\<close> matcher of \<open>flowable-engine-common/src/like.rs\<close>, to
  which every \<open>*Like\<close> query of the engines delegates. The code keeps two rolling
  rows of a dynamic-programming table; the model keeps the same two rows and
  updates them by index in the same order. The specification is the inductive
  relation \<open>like\<close>, which says what a pattern means; \<open>sql_like_matches_iff\<close>
  shows the table computes exactly that relation below the length cap.
\<close>

section \<open>The matcher\<close>

definition MAX_SQL_LIKE_LEN :: nat where
  "MAX_SQL_LIKE_LEN = 512"

definition like_row :: "string \<Rightarrow> char \<Rightarrow> bool list \<Rightarrow> bool list \<Rightarrow> bool list" where
  "like_row value p prev cur0 =
     (let m = length value;
          cur = cur0[0 := (p = CHR ''%'' \<and> prev ! 0)]
      in if p = CHR ''%'' then
           fold (\<lambda>j cur. cur[j := (prev ! j \<or> cur ! (j - 1))]) [1..<Suc m] cur
         else if p = CHR ''_'' then
           fold (\<lambda>j cur. cur[j := prev ! (j - 1)]) [1..<Suc m] cur
         else
           fold (\<lambda>j cur. cur[j := (prev ! (j - 1) \<and> value ! (j - 1) = p)]) [1..<Suc m] cur)"

fun like_rows :: "string \<Rightarrow> string \<Rightarrow> bool list \<Rightarrow> bool list \<Rightarrow> bool list" where
  "like_rows value [] prev cur = prev"
| "like_rows value (p # ps) prev cur = like_rows value ps (like_row value p prev cur) prev"

definition sql_like_matches :: "string \<Rightarrow> string \<Rightarrow> bool" where
  "sql_like_matches pattern value =
     (if MAX_SQL_LIKE_LEN < length value \<or> MAX_SQL_LIKE_LEN < length pattern then False
      else let m = length value;
               prev = (replicate (m + 1) False)[0 := True];
               cur = replicate (m + 1) False
           in like_rows value pattern prev cur ! m)"

section \<open>What a pattern means\<close>

inductive like :: "string \<Rightarrow> string \<Rightarrow> bool" where
  like_nil: "like [] []"
| like_any: "like p v \<Longrightarrow> like (CHR ''%'' # p) (w @ v)"
| like_one: "like p v \<Longrightarrow> like (CHR ''_'' # p) (c # v)"
| like_lit: "c \<noteq> CHR ''%'' \<Longrightarrow> c \<noteq> CHR ''_'' \<Longrightarrow> like p v \<Longrightarrow> like (c # p) (c # v)"

inductive_simps like_Nil_iff: "like [] v"
inductive_simps like_Cons_iff: "like (c # p) v"

lemma like_append_iff:
  "like (p @ q) v \<longleftrightarrow> (\<exists>v1 v2. v = v1 @ v2 \<and> like p v1 \<and> like q v2)"
proof (induction p arbitrary: v)
  case Nil
  then show ?case by (simp add: like_Nil_iff)
next
  case (Cons c p)
  show ?case
    unfolding append_Cons like_Cons_iff Cons.IH
    by (auto; metis append_assoc append_Cons)
qed

lemma like_snoc_iff:
  "like (p @ [c]) v \<longleftrightarrow>
     (if c = CHR ''%'' then \<exists>k \<le> length v. like p (take k v)
      else v \<noteq> [] \<and> like p (butlast v) \<and> (c = CHR ''_'' \<or> c = last v))"
proof (cases "c = CHR ''%''")
  case True
  have "like (p @ [c]) v \<longleftrightarrow> (\<exists>v1 v2. v = v1 @ v2 \<and> like p v1)"
    using True by (simp add: like_append_iff like_Cons_iff like_Nil_iff)
  also have "\<dots> \<longleftrightarrow> (\<exists>k \<le> length v. like p (take k v))"
    by (metis append_eq_conv_conj append_take_drop_id le_add1 length_append)
  finally show ?thesis using True by simp
next
  case False
  have "like (p @ [c]) v \<longleftrightarrow> (\<exists>v1 d. v = v1 @ [d] \<and> like p v1 \<and> (c = CHR ''_'' \<or> c = d))"
    using False by (auto simp: like_append_iff like_Cons_iff like_Nil_iff)
  then show ?thesis
    using False by (auto intro: append_butlast_last_id [symmetric])
qed

section \<open>The rows of the table\<close>

lemma fold_upd_indep:
  assumes "\<And>j xs. g j xs = g' j" and "n \<le> length cur"
  shows "length (fold (\<lambda>j xs. xs[j := g j xs]) [1..<n] cur) = length cur
    \<and> (\<forall>i < length cur. fold (\<lambda>j xs. xs[j := g j xs]) [1..<n] cur ! i =
         (if 1 \<le> i \<and> i < n then g' i else cur ! i))"
  using assms(2)
proof (induction n)
  case 0
  then show ?case by simp
next
  case (Suc n)
  then show ?case
    by (cases "1 \<le> n") (auto simp: assms(1) nth_list_update less_Suc_eq)
qed

lemma fold_upd_percent:
  assumes "n \<le> length cur" "length cur \<le> length prev" "0 < length cur"
    and "cur ! 0 = prev ! 0"
  shows "length (fold (\<lambda>j xs. xs[j := (prev ! j \<or> xs ! (j - 1))]) [1..<n] cur) = length cur
    \<and> (\<forall>i < length cur. fold (\<lambda>j xs. xs[j := (prev ! j \<or> xs ! (j - 1))]) [1..<n] cur ! i =
         (if i < n then \<exists>k \<le> i. prev ! k else cur ! i)) \<or> n = 0"
  using assms(1)
proof (induction n)
  case 0
  then show ?case by simp
next
  case (Suc n)
  show ?case
  proof (cases "n = 0")
    case True
    then show ?thesis using assms by (auto simp: less_Suc_eq)
  next
    case False
    let ?r = "fold (\<lambda>j xs. xs[j := (prev ! j \<or> xs ! (j - 1))]) [1..<n] cur"
    from Suc False have len: "length ?r = length cur"
      and nth: "\<And>i. i < length cur \<Longrightarrow> ?r ! i = (if i < n then \<exists>k \<le> i. prev ! k else cur ! i)"
      by auto
    have step: "fold (\<lambda>j xs. xs[j := (prev ! j \<or> xs ! (j - 1))]) [1..<Suc n] cur
        = ?r[n := (prev ! n \<or> ?r ! (n - 1))]"
      using False by simp
    have "?r ! (n - 1) = (\<exists>k \<le> n - 1. prev ! k)"
      using nth [of "n - 1"] False Suc.prems by simp
    then have new: "(prev ! n \<or> ?r ! (n - 1)) = (\<exists>k \<le> n. prev ! k)"
      using False by (cases n) (auto simp: le_Suc_eq)
    show ?thesis
      unfolding step new using len nth Suc.prems by (auto simp: nth_list_update less_Suc_eq)
  qed
qed

definition row_of :: "string \<Rightarrow> string \<Rightarrow> bool list \<Rightarrow> bool" where
  "row_of value p row \<longleftrightarrow> length row = length value + 1
     \<and> (\<forall>j \<le> length value. row ! j = like p (take j value))"

lemma like_row_correct:
  assumes prev: "row_of value ps prev" and cur: "length cur0 = length value + 1"
  shows "row_of value (ps @ [p]) (like_row value p prev cur0)"
proof -
  let ?m = "length value"
  have lp: "length prev = ?m + 1" and np: "\<And>j. j \<le> ?m \<Longrightarrow> prev ! j = like ps (take j value)"
    using prev by (auto simp: row_of_def)
  have bl: "butlast (take j value) = take (j - 1) value" if "j \<le> ?m" for j
    using that by (simp add: butlast_take)
  have la: "last (take j value) = value ! (j - 1)" if "1 \<le> j" "j \<le> ?m" for j
    using that by (subst last_conv_nth) (auto simp: min_def)
  let ?c = "cur0[0 := (p = CHR ''%'' \<and> prev ! 0)]"
  consider (any) "p = CHR ''%''" | (one) "p = CHR ''_''"
    | (lit) "p \<noteq> CHR ''%''" "p \<noteq> CHR ''_''" by blast
  then show ?thesis
  proof cases
    case any
    have row: "like_row value p prev cur0 =
        fold (\<lambda>j xs. xs[j := (prev ! j \<or> xs ! (j - 1))]) [1..<Suc ?m] ?c"
      using any by (simp add: like_row_def Let_def)
    have "?c ! 0 = prev ! 0" using any cur by (simp add: nth_list_update)
    with fold_upd_percent [of "Suc ?m" ?c prev] cur lp
    have "length (like_row value p prev cur0) = ?m + 1"
      and "\<And>i. i \<le> ?m \<Longrightarrow> like_row value p prev cur0 ! i = (\<exists>k \<le> i. prev ! k)"
      unfolding row by auto
    then show ?thesis
      using any by (auto simp: row_of_def like_snoc_iff np min_def)
  next
    case one
    have row: "like_row value p prev cur0 =
        fold (\<lambda>j xs. xs[j := prev ! (j - 1)]) [1..<Suc ?m] ?c"
      using one by (simp add: like_row_def Let_def)
    have res: "length (like_row value p prev cur0) = ?m + 1"
      "\<And>i. i \<le> ?m \<Longrightarrow> like_row value p prev cur0 ! i = (if 1 \<le> i then prev ! (i - 1) else False)"
      unfolding row using fold_upd_indep [of "\<lambda>j xs. prev ! (j - 1)" "\<lambda>j. prev ! (j - 1)" "Suc ?m" ?c] cur one
      by (auto simp: nth_list_update)
    then show ?thesis
      using one by (auto simp: row_of_def like_snoc_iff np bl)
  next
    case lit
    have row: "like_row value p prev cur0 =
        fold (\<lambda>j xs. xs[j := (prev ! (j - 1) \<and> value ! (j - 1) = p)]) [1..<Suc ?m] ?c"
      using lit by (simp add: like_row_def Let_def)
    have res: "length (like_row value p prev cur0) = ?m + 1"
      "\<And>i. i \<le> ?m \<Longrightarrow> like_row value p prev cur0 ! i =
         (if 1 \<le> i then prev ! (i - 1) \<and> value ! (i - 1) = p else False)"
      unfolding row using lit cur
        fold_upd_indep [of "\<lambda>j xs. prev ! (j - 1) \<and> value ! (j - 1) = p"
          "\<lambda>j. prev ! (j - 1) \<and> value ! (j - 1) = p" "Suc ?m" ?c]
      by (auto simp: nth_list_update)
    then show ?thesis
      using lit by (auto simp: row_of_def like_snoc_iff np bl la)
  qed
qed

lemma like_rows_correct:
  assumes "row_of value ps prev" "length cur = length value + 1"
  shows "row_of value (ps @ qs) (like_rows value qs prev cur)"
  using assms
proof (induction qs arbitrary: ps prev cur)
  case Nil
  then show ?case by simp
next
  case (Cons q qs)
  from Cons.prems have "row_of value (ps @ [q]) (like_row value q prev cur)"
    by (rule like_row_correct)
  moreover have "length prev = length value + 1"
    using Cons.prems(1) by (simp add: row_of_def)
  ultimately show ?case
    using Cons.IH [of "ps @ [q]"] by simp
qed

lemma row_of_init: "row_of value [] ((replicate (length value + 1) False)[0 := True])"
  by (auto simp: row_of_def like_Nil_iff nth_list_update simp del: replicate.simps replicate_Suc)

section \<open>Properties\<close>

text \<open>
  C31. The rolling-row table decides exactly the declarative meaning of the pattern, for
  every pattern and value within the 512-character cap; over the cap the answer is no.
\<close>

theorem sql_like_matches_iff:
  "sql_like_matches pattern value \<longleftrightarrow>
     length value \<le> MAX_SQL_LIKE_LEN \<and> length pattern \<le> MAX_SQL_LIKE_LEN \<and> like pattern value"
proof -
  have "row_of value ([] @ pattern)
      (like_rows value pattern ((replicate (length value + 1) False)[0 := True])
        (replicate (length value + 1) False))"
    by (rule like_rows_correct [OF row_of_init]) simp
  then show ?thesis
    by (auto simp: sql_like_matches_def Let_def row_of_def)
qed

end
