(* ===== verification/Rate_Limiter.thy ===== *)
theory Rate_Limiter
  imports Prelude
begin

text \<open>
  The authentication rate limiter of \<open>flowable-engine/src/service/rate_limit.rs\<close>.
  An \<open>Instant\<close> is a \<^typ>\<open>nat\<close> counted from the earliest representable instant, so
  \<open>checked_sub\<close> fails exactly when the window reaches before it; a \<open>Duration\<close> is a
  \<^typ>\<open>nat\<close> in the same unit (milliseconds). The clock reading \<open>now\<close> of each call is an
  argument and the mutex-protected state is passed explicitly, so a run of the limiter
  is a sequence of applications.
\<close>

section \<open>State\<close>

record rate_limit_config =
  max_failures :: nat
  window :: nat
  block_duration :: nat

definition default_rate_limit_config :: rate_limit_config where
  "default_rate_limit_config =
     \<lparr>max_failures = 10, window = 60 * 1000, block_duration = 300 * 1000\<rparr>"

record entry =
  failures :: "nat list"
  blocked_until :: "nat option"

type_synonym rate_limit_state = "string \<rightharpoonup> entry"

definition new_rate_limiter :: rate_limit_state where
  "new_rate_limiter = Map.empty"

definition entry_or_insert :: "rate_limit_state \<Rightarrow> string \<Rightarrow> entry" where
  "entry_or_insert st key =
     (case st key of None \<Rightarrow> \<lparr>failures = [], blocked_until = None\<rparr> | Some e \<Rightarrow> e)"

section \<open>Operations\<close>

definition checked_sub :: "nat \<Rightarrow> nat \<Rightarrow> nat option" where
  "checked_sub t d = (if d \<le> t then Some (t - d) else None)"

text \<open>Steps 2 and 3 of \<open>check\<close>: drop the failures outside the window, then compare.\<close>

definition check_threshold :: "rate_limit_config \<Rightarrow> nat \<Rightarrow> entry \<Rightarrow> (nat + unit) \<times> entry" where
  "check_threshold cfg now e =
     (let window_start = (case checked_sub now (window cfg) of Some t \<Rightarrow> t | None \<Rightarrow> now);
          e' = e\<lparr>failures := filter (\<lambda>t. window_start < t) (failures e)\<rparr>
      in if max_failures cfg \<le> length (failures e')
         then (Inl (block_duration cfg), e'\<lparr>blocked_until := Some (now + block_duration cfg)\<rparr>)
         else (Inr (), e'))"

definition check :: "rate_limit_config \<Rightarrow> nat \<Rightarrow> string \<Rightarrow> rate_limit_state
    \<Rightarrow> (nat + unit) \<times> rate_limit_state" where
  "check cfg now key st =
     (let e = entry_or_insert st key;
          (r, e') = (case blocked_until e of
             Some bu \<Rightarrow>
               if now < bu then (Inl (bu - now), e)
               else check_threshold cfg now (e\<lparr>blocked_until := None, failures := []\<rparr>)
           | None \<Rightarrow> check_threshold cfg now e)
      in (r, st(key \<mapsto> e')))"

definition record_failure :: "rate_limit_config \<Rightarrow> nat \<Rightarrow> string \<Rightarrow> rate_limit_state \<Rightarrow> rate_limit_state" where
  "record_failure cfg now key st =
     (let e = entry_or_insert st key;
          e' = e\<lparr>failures := failures e @ [now]\<rparr>;
          e'' = (if max_failures cfg \<le> length (failures e')
                 then e'\<lparr>blocked_until := Some (now + block_duration cfg)\<rparr> else e')
      in st(key \<mapsto> e''))"

definition reset :: "string \<Rightarrow> rate_limit_state \<Rightarrow> rate_limit_state" where
  "reset key st = st(key := None)"

text \<open>
  A history of the limiter: the order in which the mutex serves the calls of concurrent requests. The check of an
  attempt and the record of its failure are separate calls, with calls of other requests in between.
\<close>

datatype limiter_call = Check string nat | Record_failure string nat | Reset string

primrec serve :: "rate_limit_config \<Rightarrow> limiter_call \<Rightarrow> rate_limit_state \<Rightarrow> rate_limit_state" where
  "serve cfg (Check key now) st = snd (check cfg now key st)"
| "serve cfg (Record_failure key now) st = record_failure cfg now key st"
| "serve cfg (Reset key) st = reset key st"

text \<open>The failures a history records for a key, and the checks of the key that it admits.\<close>

primrec records_failure :: "string \<Rightarrow> limiter_call \<Rightarrow> bool" where
  "records_failure key (Check k t) = False"
| "records_failure key (Record_failure k t) = (k = key)"
| "records_failure key (Reset k) = False"

definition failures_recorded :: "string \<Rightarrow> limiter_call list \<Rightarrow> nat" where
  "failures_recorded key calls = length (filter (records_failure key) calls)"

primrec admits :: "rate_limit_config \<Rightarrow> string \<Rightarrow> limiter_call \<Rightarrow> rate_limit_state \<Rightarrow> bool" where
  "admits cfg key (Check k now) st = (k = key \<and> fst (check cfg now key st) = Inr ())"
| "admits cfg key (Record_failure k now) st = False"
| "admits cfg key (Reset k) st = False"

fun admitted :: "rate_limit_config \<Rightarrow> string \<Rightarrow> limiter_call list \<Rightarrow> rate_limit_state \<Rightarrow> nat" where
  "admitted cfg key [] st = 0"
| "admitted cfg key (c # calls) st = (if admits cfg key c st then 1 else 0) + admitted cfg key calls (serve cfg c st)"

text \<open>
  The calls of one key in a burst: they lie in a span shorter than the window and than the block duration,
  and the key is not reset. Calls of other keys are unrestricted.
\<close>

primrec in_burst :: "rate_limit_config \<Rightarrow> string \<Rightarrow> nat \<Rightarrow> limiter_call \<Rightarrow> bool" where
  "in_burst cfg key t0 (Check k t) = (k = key \<longrightarrow> t0 \<le> t \<and> t < t0 + window cfg \<and> t < t0 + block_duration cfg)"
| "in_burst cfg key t0 (Record_failure k t) = (k = key \<longrightarrow> t0 \<le> t \<and> t < t0 + window cfg \<and> t < t0 + block_duration cfg)"
| "in_burst cfg key t0 (Reset k) = (k \<noteq> key)"

section \<open>Lemmas\<close>

lemmas limiter_defs = check_def record_failure_def reset_def entry_or_insert_def
  check_threshold_def checked_sub_def Let_def

lemma check_other: "key' \<noteq> key \<Longrightarrow> snd (check cfg now key st) key' = st key'"
  by (auto simp: limiter_defs split: option.splits prod.splits)

lemma record_failure_other: "key' \<noteq> key \<Longrightarrow> record_failure cfg now key st key' = st key'"
  by (simp add: limiter_defs)

lemma reset_other: "key' \<noteq> key \<Longrightarrow> reset key st key' = st key'"
  by (simp add: reset_def)

lemma check_cong_key:
  "st key = st' key \<Longrightarrow> fst (check cfg now key st) = fst (check cfg now key st')"
  by (auto simp: limiter_defs split: option.splits prod.splits)

text \<open>
  The invariant of a burst of failing attempts that started at \<open>t0\<close>: every recorded
  failure is inside the burst, the counter is below the threshold unless the key is
  blocked past the end of the burst.
\<close>

definition burst_inv :: "rate_limit_config \<Rightarrow> nat \<Rightarrow> entry \<Rightarrow> bool" where
  "burst_inv cfg t0 e \<longleftrightarrow>
     (\<forall>t \<in> set (failures e). t0 \<le> t)
     \<and> (case blocked_until e of
          None \<Rightarrow> length (failures e) < max_failures cfg
        | Some bu \<Rightarrow> t0 + block_duration cfg \<le> bu \<and> max_failures cfg \<le> length (failures e))"

lemma burst_check:
  assumes inv: "burst_inv cfg t0 (entry_or_insert st key)"
    and time: "t0 \<le> t" "t < t0 + window cfg" "t < t0 + block_duration cfg" "window cfg \<le> t0"
  shows "snd (check cfg t key st) key = Some (entry_or_insert st key)"
    and "fst (check cfg t key st) = Inr () \<longleftrightarrow> length (failures (entry_or_insert st key)) < max_failures cfg"
proof -
  let ?e = "entry_or_insert st key"
  have keep: "filter (\<lambda>u. t - window cfg < u) (failures ?e) = failures ?e"
    using inv time by (auto simp: burst_inv_def intro!: filter_True)
  show "snd (check cfg t key st) key = Some ?e"
    and "fst (check cfg t key st) = Inr () \<longleftrightarrow> length (failures ?e) < max_failures cfg"
    using inv time keep
    by (auto simp: check_def check_threshold_def checked_sub_def Let_def burst_inv_def split: option.splits)
qed

lemma serve_burst:
  assumes "burst_inv cfg t0 (entry_or_insert st key)" "in_burst cfg key t0 c" "window cfg \<le> t0"
  shows "burst_inv cfg t0 (entry_or_insert (serve cfg c st) key)
    \<and> length (failures (entry_or_insert (serve cfg c st) key))
        = length (failures (entry_or_insert st key)) + (if records_failure key c then 1 else 0)"
proof (cases c)
  case (Check k t)
  show ?thesis
  proof (cases "k = key")
    case True
    with Check assms have "entry_or_insert (serve cfg c st) key = entry_or_insert st key"
      by (simp add: burst_check(1) [OF assms(1)] entry_or_insert_def)
    with assms Check True show ?thesis by simp
  next
    case False
    with Check assms(1) show ?thesis by (simp add: entry_or_insert_def check_other)
  qed
next
  case (Record_failure k t)
  with assms show ?thesis
    by (cases "k = key")
       (auto simp: record_failure_def Let_def entry_or_insert_def burst_inv_def split: option.splits)
next
  case (Reset k)
  with assms show ?thesis by (simp add: reset_def entry_or_insert_def)
qed

lemma serve_all_burst:
  assumes "burst_inv cfg t0 (entry_or_insert st key)" "\<forall>c \<in> set calls. in_burst cfg key t0 c" "window cfg \<le> t0"
  shows "burst_inv cfg t0 (entry_or_insert (fold (serve cfg) calls st) key)
    \<and> length (failures (entry_or_insert (fold (serve cfg) calls st) key))
        = length (failures (entry_or_insert st key)) + failures_recorded key calls"
  using assms
proof (induction calls arbitrary: st)
  case (Cons c calls)
  with serve_burst [of cfg t0 st key c] Cons.IH [of "serve cfg c st"] show ?case
    by (simp add: failures_recorded_def)
qed (simp add: failures_recorded_def)

lemma new_limiter_burst:
  "0 < max_failures cfg \<Longrightarrow> burst_inv cfg t0 (entry_or_insert new_rate_limiter key)"
  "failures (entry_or_insert new_rate_limiter key) = []"
  by (simp_all add: burst_inv_def entry_or_insert_def new_rate_limiter_def)

lemma admitted_append:
  "admitted cfg key (xs @ ys) st = admitted cfg key xs st + admitted cfg key ys (fold (serve cfg) xs st)"
  by (induction xs arbitrary: st) simp_all

lemma burst_check_admitted:
  assumes "0 < max_failures cfg" "window cfg \<le> t0" "\<forall>c \<in> set calls. in_burst cfg key t0 c"
    and "t0 \<le> t" "t < t0 + window cfg" "t < t0 + block_duration cfg"
  shows "fst (check cfg t key (fold (serve cfg) calls new_rate_limiter)) = Inr ()
    \<longleftrightarrow> failures_recorded key calls < max_failures cfg"
proof -
  let ?st = "fold (serve cfg) calls new_rate_limiter"
  have "burst_inv cfg t0 (entry_or_insert ?st key)"
    and len: "length (failures (entry_or_insert ?st key)) = failures_recorded key calls"
    using serve_all_burst [OF new_limiter_burst(1) [OF assms(1)] assms(3,2)] by (simp_all add: new_limiter_burst(2))
  from burst_check(2) [OF this(1) assms(4-6,2)] len show ?thesis by simp
qed

section \<open>Properties\<close>

text \<open>
  C32. The threshold is exact on every interleaving: after any history of calls that starts with a fresh limiter,
  in which the calls of the key lie in a span shorter than the window and the block duration and the key is not
  reset, a further check of the key in that span is admitted exactly when the history records fewer than
  \<open>max_failures\<close> failures of the key, whatever checks and failures of this and of other keys lie in between.
\<close>

theorem burst_check_exact:
  assumes "0 < max_failures cfg" "window cfg \<le> t0" "\<forall>c \<in> set calls. in_burst cfg key t0 c"
    and "t0 \<le> t" "t < t0 + window cfg" "t < t0 + block_duration cfg"
  shows "fst (check cfg t key (fold (serve cfg) calls new_rate_limiter)) = Inr ()
    \<longleftrightarrow> failures_recorded key calls < max_failures cfg"
  by (rule burst_check_admitted [OF assms])

theorem burst_check_exact_witness:
  "fst (check \<lparr>max_failures = 2, window = 100, block_duration = 500\<rparr> 1030 ''ip''
      (fold (serve \<lparr>max_failures = 2, window = 100, block_duration = 500\<rparr>)
        [Check ''ip'' 1000, Check ''ip'' 1001, Check ''ip'' 1002, Record_failure ''ip'' 1010, Reset ''x'',
         Record_failure ''ip'' 1011] new_rate_limiter)) \<noteq> Inr ()
   \<and> fst (check \<lparr>max_failures = 2, window = 100, block_duration = 500\<rparr> 1030 ''ip''
      (fold (serve \<lparr>max_failures = 2, window = 100, block_duration = 500\<rparr>)
        [Check ''ip'' 1000, Check ''ip'' 1001, Record_failure ''ip'' 1010] new_rate_limiter)) = Inr ()"
  using burst_check_exact [of "\<lparr>max_failures = 2, window = 100, block_duration = 500\<rparr>" 1000
      "[Check ''ip'' 1000, Check ''ip'' 1001, Check ''ip'' 1002, Record_failure ''ip'' 1010, Reset ''x'',
        Record_failure ''ip'' 1011]" "''ip''" 1030]
    burst_check_exact [of "\<lparr>max_failures = 2, window = 100, block_duration = 500\<rparr>" 1000
      "[Check ''ip'' 1000, Check ''ip'' 1001, Record_failure ''ip'' 1010]" "''ip''" 1030]
  by (simp add: failures_recorded_def)

text \<open>
  C33. Brute-force bound under concurrency: if, at every point of such a history, at most \<open>k\<close> attempts of the key
  have been admitted without their failure being recorded yet, then fewer than \<open>max_failures + k\<close> attempts of the
  key are admitted in all.
\<close>

theorem concurrent_attempts_bound:
  assumes "0 < max_failures cfg" "window cfg \<le> t0" "\<forall>c \<in> set calls. in_burst cfg key t0 c"
    and "\<forall>n \<le> length calls. admitted cfg key (take n calls) new_rate_limiter \<le> failures_recorded key (take n calls) + k"
  shows "admitted cfg key calls new_rate_limiter < max_failures cfg + k"
  using assms(3,4)
proof (induction calls rule: rev_induct)
  case (snoc c calls)
  let ?st = "fold (serve cfg) calls new_rate_limiter"
  show ?case
  proof (cases "admits cfg key c ?st")
    case True
    then obtain t where c: "c = Check key t" "fst (check cfg t key ?st) = Inr ()" by (cases c) auto
    with snoc.prems(1) have "failures_recorded key calls < max_failures cfg"
      using burst_check_admitted [OF assms(1,2), of calls key t] by simp
    moreover have "admitted cfg key (calls @ [c]) new_rate_limiter \<le> failures_recorded key (calls @ [c]) + k"
      using snoc.prems(2) [rule_format, of "Suc (length calls)"] by simp
    ultimately show ?thesis using c(1) by (simp add: failures_recorded_def)
  next
    case False
    have "admitted cfg key (take n calls) new_rate_limiter \<le> failures_recorded key (take n calls) + k"
      if "n \<le> length calls" for n
      using snoc.prems(2) [rule_format, of n] that by simp
    with snoc have "admitted cfg key calls new_rate_limiter < max_failures cfg + k" by simp
    with False show ?thesis by (simp add: admitted_append)
  qed
qed (use assms(1) in simp)

theorem concurrent_attempts_bound_witness:
  "admitted \<lparr>max_failures = 2, window = 100, block_duration = 500\<rparr> ''ip''
     [Check ''ip'' 1000, Check ''ip'' 1001, Record_failure ''ip'' 1002, Check ''ip'' 1003, Record_failure ''ip'' 1010,
      Check ''ip'' 1020] new_rate_limiter < 4"
proof -
  let ?cfg = "\<lparr>max_failures = 2, window = 100, block_duration = 500\<rparr>"
  let ?calls = "[Check ''ip'' 1000, Check ''ip'' 1001, Record_failure ''ip'' 1002, Check ''ip'' 1003,
    Record_failure ''ip'' 1010, Check ''ip'' 1020]"
  have "\<forall>n \<in> set [0..<Suc (length ?calls)].
      admitted ?cfg ''ip'' (take n ?calls) new_rate_limiter \<le> failures_recorded ''ip'' (take n ?calls) + 2"
    by code_simp
  then have flight: "\<forall>n \<le> length ?calls.
      admitted ?cfg ''ip'' (take n ?calls) new_rate_limiter \<le> failures_recorded ''ip'' (take n ?calls) + 2"
    by (metis atLeastLessThan_iff le_imp_less_Suc less_eq_nat.simps(1) set_upt)
  from concurrent_attempts_bound [OF _ _ _ this, of 1000] show ?thesis by simp
qed

text \<open>
  A key blocked until \<open>bu\<close> is refused at every earlier instant with the exact
  remaining time, and the refusal leaves the limiter as it was; from \<open>bu\<close> on it is
  admitted again with a clean slate.
\<close>

theorem blocked_key_check:
  assumes "st key = Some e" "blocked_until e = Some bu" "0 < max_failures cfg"
  shows "check cfg now key st =
     (if now < bu then (Inl (bu - now), st)
      else (Inr (), st(key \<mapsto> \<lparr>failures = [], blocked_until = None\<rparr>)))"
  using assms by (cases e) (auto simp: limiter_defs map_upd_triv)

theorem blocked_key_check_witness:
  "check default_rate_limit_config 50 ''k'' [''k'' \<mapsto> \<lparr>failures = [1], blocked_until = Some 90\<rparr>]
     = (Inl 40, [''k'' \<mapsto> \<lparr>failures = [1], blocked_until = Some 90\<rparr>])"
  using blocked_key_check [of "[''k'' \<mapsto> \<lparr>failures = [1], blocked_until = Some 90\<rparr>]" "''k''"
      "\<lparr>failures = [1], blocked_until = Some 90\<rparr>" 90 default_rate_limit_config 50]
  by (simp add: default_rate_limit_config_def)

text \<open>
  Keys are isolated: checking, recording a failure for or resetting one key never
  changes the answer another key gets.
\<close>

theorem keys_isolated:
  assumes "key' \<noteq> key"
  shows "fst (check cfg now key' (snd (check cfg t key st))) = fst (check cfg now key' st)
    \<and> fst (check cfg now key' (record_failure cfg t key st)) = fst (check cfg now key' st)
    \<and> fst (check cfg now key' (reset key st)) = fst (check cfg now key' st)"
  using assms
  by (simp add: check_cong_key [OF check_other] check_cong_key [OF record_failure_other]
      check_cong_key [OF reset_other])

theorem keys_isolated_witness:
  "''b'' \<noteq> ''a'' \<and> fst (check default_rate_limit_config 5 ''b''
      (record_failure default_rate_limit_config 4 ''a'' new_rate_limiter))
    = fst (check default_rate_limit_config 5 ''b'' new_rate_limiter)"
  using keys_isolated [of "''b''" "''a''" default_rate_limit_config 5 4 new_rate_limiter] by simp

end
