(* ===== verification/Ssrf_Guard.thy ===== *)
theory Ssrf_Guard
  imports Prelude
begin

text \<open>
  The outbound URL guard of \<open>flowable-http-service/src/ssrf_guard.rs\<close>, which decides
  whether an HTTP task may contact a URL. The first section models what the guard uses of
  \<open>std::net\<close>: addresses as octets or segments and the address parser behind
  \<open>parse::<IpAddr>()\<close>, a parser being a function from the remaining input to the value and
  the input left, with \<open>None\<close> leaving the position unchanged. The resolver behind
  \<open>to_socket_addrs\<close> is the parameter \<open>resolve\<close>. Error messages are kept as the
  constructor that names the message and the values formatted into it.
\<close>

unbundle bit_operations_syntax

section \<open>Addresses of the standard library\<close>

datatype ipv4_addr = Ipv4Addr u8 u8 u8 u8

datatype ipv6_addr = Ipv6Addr "u16 list"

datatype ip_addr = V4 ipv4_addr | V6 ipv6_addr

fun octets :: "ipv4_addr \<Rightarrow> u8 list" where
  "octets (Ipv4Addr a b c d) = [a, b, c, d]"

fun segments :: "ipv6_addr \<Rightarrow> u16 list" where
  "segments (Ipv6Addr ss) = ss"

definition ipv4_is_loopback :: "ipv4_addr \<Rightarrow> bool" where
  "ipv4_is_loopback ip \<longleftrightarrow> octets ip ! 0 = 127"

definition ipv4_is_link_local :: "ipv4_addr \<Rightarrow> bool" where
  "ipv4_is_link_local ip \<longleftrightarrow> octets ip ! 0 = 169 \<and> octets ip ! 1 = 254"

definition ipv4_is_private :: "ipv4_addr \<Rightarrow> bool" where
  "ipv4_is_private ip \<longleftrightarrow>
     octets ip ! 0 = 10
     \<or> octets ip ! 0 = 172 \<and> 16 \<le> octets ip ! 1 \<and> octets ip ! 1 \<le> 31
     \<or> octets ip ! 0 = 192 \<and> octets ip ! 1 = 168"

definition to_ipv4_mapped :: "ipv6_addr \<Rightarrow> ipv4_addr option" where
  "to_ipv4_mapped ip =
     (if length (segments ip) = 8 \<and> take 6 (segments ip) = [0, 0, 0, 0, 0, 0xffff]
      then let g = segments ip ! 6; h = segments ip ! 7
           in Some (Ipv4Addr (ucast (drop_bit 8 g)) (ucast g) (ucast (drop_bit 8 h)) (ucast h))
      else None)"

definition to_digit :: "nat \<Rightarrow> char \<Rightarrow> nat option" where
  "to_digit radix c =
     (let n = (of_char c :: nat);
          d = (if 48 \<le> n \<and> n \<le> 57 then n - 48
               else if 97 \<le> n \<and> n \<le> 122 then n - 87
               else if 65 \<le> n \<and> n \<le> 90 then n - 55 else radix)
      in if d < radix then Some d else None)"

text \<open>
  \<open>read_digits radix max result count\<close> is the loop of \<open>read_number\<close>: it fails on more than
  \<open>max\<close> digits and otherwise returns the value, the digit count and the rest.
\<close>

fun read_digits :: "nat \<Rightarrow> nat \<Rightarrow> nat \<Rightarrow> nat \<Rightarrow> string \<Rightarrow> (nat \<times> nat \<times> string) option" where
  "read_digits radix mx result count [] = Some (result, count, [])"
| "read_digits radix mx result count (c # s) =
     (case to_digit radix c of
        None \<Rightarrow> Some (result, count, c # s)
      | Some d \<Rightarrow> if mx < Suc count then None
                  else read_digits radix mx (result * radix + d) (Suc count) s)"

definition read_number :: "nat \<Rightarrow> nat \<Rightarrow> bool \<Rightarrow> nat \<Rightarrow> string \<Rightarrow> (nat \<times> string) option" where
  "read_number radix mx allow_zero_prefix bound s =
     (case read_digits radix mx 0 0 s of
        None \<Rightarrow> None
      | Some (result, count, rest) \<Rightarrow>
          if count = 0 then None
          else if \<not> allow_zero_prefix \<and> take 1 s = ''0'' \<and> 1 < count then None
          else if result < bound then Some (result, rest) else None)"

fun read_given_char :: "char \<Rightarrow> string \<Rightarrow> string option" where
  "read_given_char c [] = None"
| "read_given_char c (x # s) = (if x = c then Some s else None)"

definition read_separator :: "char \<Rightarrow> nat \<Rightarrow> (string \<Rightarrow> ('a \<times> string) option) \<Rightarrow> string \<Rightarrow> ('a \<times> string) option" where
  "read_separator sep i p s =
     (if i = 0 then p s else case read_given_char sep s of None \<Rightarrow> None | Some s' \<Rightarrow> p s')"

fun read_octets :: "nat list \<Rightarrow> string \<Rightarrow> (u8 list \<times> string) option" where
  "read_octets [] s = Some ([], s)"
| "read_octets (i # is) s =
     (case read_separator CHR ''.'' i (read_number 10 3 False 256) s of
        None \<Rightarrow> None
      | Some (n, s') \<Rightarrow> map_option (\<lambda>(ns, r). (of_nat n # ns, r)) (read_octets is s'))"

definition read_ipv4_addr :: "string \<Rightarrow> (ipv4_addr \<times> string) option" where
  "read_ipv4_addr s =
     map_option (\<lambda>(os, r). (Ipv4Addr (os ! 0) (os ! 1) (os ! 2) (os ! 3), r)) (read_octets [0, 1, 2, 3] s)"

text \<open>
  \<open>read_groups limit i k\<close> reads at most \<open>k\<close> more groups starting with number \<open>i\<close>; it
  returns the groups read, whether they end in an embedded IPv4 address, and the rest.
\<close>

fun read_groups :: "nat \<Rightarrow> nat \<Rightarrow> nat \<Rightarrow> string \<Rightarrow> u16 list \<times> bool \<times> string" where
  "read_groups limit i 0 s = ([], False, s)"
| "read_groups limit i (Suc k) s =
     (case (if i < limit - 1 then read_separator CHR '':'' i read_ipv4_addr s else None) of
        Some (Ipv4Addr a b c d, r) \<Rightarrow>
          ([push_bit 8 (ucast a) OR ucast b, push_bit 8 (ucast c) OR ucast d], True, r)
      | None \<Rightarrow>
          (case read_separator CHR '':'' i (read_number 16 4 True 65536) s of
             None \<Rightarrow> ([], False, s)
           | Some (g, r) \<Rightarrow>
               (case read_groups limit (Suc i) k r of
                  (gs, v4, r') \<Rightarrow> (of_nat g # gs, v4, r'))))"

definition read_ipv6_addr :: "string \<Rightarrow> (ipv6_addr \<times> string) option" where
  "read_ipv6_addr s =
     (case read_groups 8 0 8 s of
        (head, head_ipv4, r) \<Rightarrow>
          if length head = 8 then Some (Ipv6Addr head, r)
          else if head_ipv4 then None
          else case Option.bind (read_given_char CHR '':'' r) (read_given_char CHR '':'') of
                 None \<Rightarrow> None
               | Some r' \<Rightarrow>
                   let limit = 8 - (length head + 1) in
                   (case read_groups limit 0 limit r' of
                      (tail, _, r'') \<Rightarrow>
                        Some (Ipv6Addr (head @ replicate (8 - length head - length tail) 0 @ tail), r'')))"

definition parse_ip_addr :: "string \<Rightarrow> ip_addr option" where
  "parse_ip_addr s =
     (case (case read_ipv4_addr s of
              Some (ip, r) \<Rightarrow> Some (V4 ip, r)
            | None \<Rightarrow> map_option (\<lambda>(ip, r). (V6 ip, r)) (read_ipv6_addr s)) of
        Some (ip, []) \<Rightarrow> Some ip
      | _ \<Rightarrow> None)"

text \<open>\<open>parse::<u16>()\<close>: an optional plus sign, at least one digit, no overflow.\<close>

definition parse_u16 :: "string \<Rightarrow> u16 option" where
  "parse_u16 s =
     (let ds = (case s of [] \<Rightarrow> [] | c # r \<Rightarrow> if c = CHR ''+'' then r else s)
      in if ds = [] \<or> \<not> list_all is_ascii_digit ds then None
         else let n = foldl (\<lambda>a c. a * 10 + digit_val c) 0 ds
              in if n < 65536 then Some (of_nat n) else None)"

section \<open>The guard\<close>

record outbound_url_guard_config =
  allow_private_networks :: bool
  allowed_private_hosts :: "string list"

definition default_guard_config :: outbound_url_guard_config where
  "default_guard_config = \<lparr>allow_private_networks = False, allowed_private_hosts = []\<rparr>"

datatype url_message =
    UrlEmpty
  | SchemeNotAllowed string
  | MissingScheme
  | SchemeEmpty
  | MissingHost
  | InvalidIpv6Host
  | InvalidPort string
  | InvalidIpv6Authority
  | EmptyPort
  | NotResolved string string
  | NoAddresses string
  | BlockedAddress ip_addr

record outbound_url_guard_error =
  message :: url_message
  safe_target :: "string option"

record parsed_url =
  scheme :: string
  host :: string
  port :: "u16 option"

definition format_safe_target :: "parsed_url \<Rightarrow> string" where
  "format_safe_target p =
     (case port p of
        Some pt \<Rightarrow>
          if CHR '':'' \<in> set (host p) \<and> \<not> str_starts_with ''['' (host p)
          then scheme p @ ''://['' @ host p @ '']:'' @ show_nat (unat pt)
          else scheme p @ ''://'' @ host p @ '':'' @ show_nat (unat pt)
      | None \<Rightarrow>
          if CHR '':'' \<in> set (host p) \<and> \<not> str_starts_with ''['' (host p)
          then scheme p @ ''://['' @ host p @ '']''
          else scheme p @ ''://'' @ host p)"

definition scheme_of :: "string \<Rightarrow> string option" where
  "scheme_of url =
     (case str_find_sub ''://'' url of
        None \<Rightarrow> None
      | Some scheme_sep \<Rightarrow>
          let sch = to_ascii_lowercase (take scheme_sep url)
          in if sch = [] then None else Some sch)"

text \<open>\<open>rsplit_once(':')\<close>.\<close>

definition rsplit_once_colon :: "string \<Rightarrow> (string \<times> string) option" where
  "rsplit_once_colon s =
     (case str_find (\<lambda>c. c = CHR '':'') (rev s) of
        None \<Rightarrow> None
      | Some i \<Rightarrow> Some (take (length s - 1 - i) s, drop (length s - i) s))"

definition split_host_port :: "string \<Rightarrow> url_message + (string \<times> u16 option)" where
  "split_host_port authority =
     (if str_starts_with ''['' authority then
        (case str_find (\<lambda>c. c = CHR '']'') authority of
           None \<Rightarrow> Inl InvalidIpv6Host
         | Some e \<Rightarrow>
             let h = drop 1 (take e authority); aft = drop (e + 1) authority in
             (case aft of
                [] \<Rightarrow> Inr (h, None)
              | c # port_str \<Rightarrow>
                  if c = CHR '':'' then
                    (case parse_u16 port_str of
                       None \<Rightarrow> Inl (InvalidPort port_str)
                     | Some p \<Rightarrow> Inr (h, Some p))
                  else Inl InvalidIpv6Authority))
      else
        (case rsplit_once_colon authority of
           None \<Rightarrow> Inr (authority, None)
         | Some (h, port_str) \<Rightarrow>
             if CHR '':'' \<in> set h then Inr (authority, None)
             else if port_str = [] then Inl EmptyPort
             else if list_all is_ascii_digit port_str then
               (case parse_u16 port_str of
                  None \<Rightarrow> Inl (InvalidPort port_str)
                | Some p \<Rightarrow> Inr (h, Some p))
             else Inr (authority, None)))"

definition parse_http_url :: "string \<Rightarrow> url_message + parsed_url" where
  "parse_http_url url =
     rbind (ok_or MissingScheme (str_find_sub ''://'' url)) (\<lambda>scheme_sep.
     let sch = to_ascii_lowercase (take scheme_sep url) in
     if sch = [] then Inl SchemeEmpty else
     let rest = drop (scheme_sep + 3) url in
     if rest = [] then Inl MissingHost else
     let authority0 = (case str_find (\<lambda>c. c = CHR ''@'') rest of
                         Some idx \<Rightarrow> drop (idx + 1) rest | None \<Rightarrow> rest);
         authority_end = (case str_find (\<lambda>c. c \<in> {CHR ''/'', CHR ''?'', CHR ''#''}) authority0 of
                            Some e \<Rightarrow> e | None \<Rightarrow> length authority0);
         authority = take authority_end authority0 in
     if authority = [] then Inl MissingHost else
     rbind (split_host_port authority) (\<lambda>(h, p).
     if h = [] then Inl MissingHost
     else Inr \<lparr>scheme = sch, host = to_ascii_lowercase h, port = p\<rparr>))"

definition safe_url_for_error :: "string \<Rightarrow> string option" where
  "safe_url_for_error url =
     (case parse_http_url (str_trim url) of Inl _ \<Rightarrow> None | Inr p \<Rightarrow> Some (format_safe_target p))"

definition safe_url_display :: "string \<Rightarrow> string" where
  "safe_url_display url = (case safe_url_for_error url of None \<Rightarrow> ''<invalid-url>'' | Some t \<Rightarrow> t)"

definition trim_brackets :: "string \<Rightarrow> string" where
  "trim_brackets s =
     rev (dropWhile (\<lambda>c. c = CHR ''['' \<or> c = CHR '']'')
       (rev (dropWhile (\<lambda>c. c = CHR ''['' \<or> c = CHR '']'') s)))"

definition host_is_allowlisted :: "string \<Rightarrow> outbound_url_guard_config \<Rightarrow> bool" where
  "host_is_allowlisted h config =
     list_ex (\<lambda>allowed. to_ascii_lowercase allowed = to_ascii_lowercase (trim_brackets h))
       (allowed_private_hosts config)"

definition is_blocked_ipv4 :: "ipv4_addr \<Rightarrow> bool" where
  "is_blocked_ipv4 ip =
     (if octets ip ! 0 = 0 then True
      else if ipv4_is_loopback ip then True
      else if ipv4_is_link_local ip then True
      else if ipv4_is_private ip then True
      else False)"

definition is_ipv6_link_local :: "ipv6_addr \<Rightarrow> bool" where
  "is_ipv6_link_local ip \<longleftrightarrow> (segments ip ! 0) AND 0xffc0 = 0xfe80"

definition is_ipv6_unique_local :: "ipv6_addr \<Rightarrow> bool" where
  "is_ipv6_unique_local ip \<longleftrightarrow> (segments ip ! 0) AND 0xfe00 = 0xfc00"

definition is_blocked_ipv6 :: "ipv6_addr \<Rightarrow> bool" where
  "is_blocked_ipv6 ip =
     (case to_ipv4_mapped ip of
        Some v4 \<Rightarrow> is_blocked_ipv4 v4
      | None \<Rightarrow>
          if segments ip = [0, 0, 0, 0, 0, 0, 0, 0] then True
          else if segments ip = [0, 0, 0, 0, 0, 0, 0, 1] then True
          else if is_ipv6_link_local ip then True
          else if is_ipv6_unique_local ip then True
          else False)"

fun is_blocked_ip :: "ip_addr \<Rightarrow> bool" where
  "is_blocked_ip (V4 v4) = is_blocked_ipv4 v4"
| "is_blocked_ip (V6 v6) = is_blocked_ipv6 v6"

definition blocked_ip_error :: "parsed_url \<Rightarrow> ip_addr \<Rightarrow> outbound_url_guard_error" where
  "blocked_ip_error p ip = \<lparr>message = BlockedAddress ip, safe_target = Some (format_safe_target p)\<rparr>"

fun check_addrs :: "parsed_url \<Rightarrow> ip_addr list \<Rightarrow> outbound_url_guard_error + unit" where
  "check_addrs p [] = Inr ()"
| "check_addrs p (ip # ips) = (if is_blocked_ip ip then Inl (blocked_ip_error p ip) else check_addrs p ips)"

definition validate_outbound_url :: "(string \<Rightarrow> u16 \<Rightarrow> string + ip_addr list) \<Rightarrow> string
    \<Rightarrow> outbound_url_guard_config \<Rightarrow> outbound_url_guard_error + unit" where
  "validate_outbound_url resolve url config =
     (let trimmed = str_trim url in
      if trimmed = [] then Inl \<lparr>message = UrlEmpty, safe_target = None\<rparr>
      else if (case scheme_of trimmed of None \<Rightarrow> False | Some sch \<Rightarrow> sch \<noteq> ''http'' \<and> sch \<noteq> ''https'') then
        Inl \<lparr>message = SchemeNotAllowed (the (scheme_of trimmed)),
             safe_target = Some (the (scheme_of trimmed) @ ''://'')\<rparr>
      else case parse_http_url trimmed of
        Inl msg \<Rightarrow> Inl \<lparr>message = msg, safe_target = safe_url_for_error trimmed\<rparr>
      | Inr parsed \<Rightarrow>
          let target = Some (format_safe_target parsed) in
          if host_is_allowlisted (host parsed) config then Inr ()
          else if allow_private_networks config then Inr ()
          else case parse_ip_addr (host parsed) of
            Some ip \<Rightarrow> if is_blocked_ip ip then Inl (blocked_ip_error parsed ip) else Inr ()
          | None \<Rightarrow>
              let pt = (case port parsed of Some p \<Rightarrow> p
                        | None \<Rightarrow> if scheme parsed = ''https'' then 443 else 80) in
              (case resolve (host parsed) pt of
                 Inl err \<Rightarrow> Inl \<lparr>message = NotResolved (host parsed) err, safe_target = target\<rparr>
               | Inr addrs \<Rightarrow>
                   if addrs = [] then Inl \<lparr>message = NoAddresses (host parsed), safe_target = target\<rparr>
                   else check_addrs parsed addrs))"

section \<open>Specification of the blocked ranges\<close>

text \<open>
  Addresses as numbers and networks in CIDR form: \<open>in_net w (net, len) x\<close> says that the
  \<open>w\<close>-bit address \<open>x\<close> agrees with \<open>net\<close> on its first \<open>len\<close> bits. \<open>show_ipv4\<close> is the
  dotted decimal rendering.
\<close>

definition in_net :: "nat \<Rightarrow> nat \<times> nat \<Rightarrow> nat \<Rightarrow> bool" where
  "in_net w = (\<lambda>(net, len) x. x div 2 ^ (w - len) = net div 2 ^ (w - len))"

fun ipv4_value :: "ipv4_addr \<Rightarrow> nat" where
  "ipv4_value (Ipv4Addr a b c d) = ((unat a * 256 + unat b) * 256 + unat c) * 256 + unat d"

fun ipv6_value :: "ipv6_addr \<Rightarrow> nat" where
  "ipv6_value (Ipv6Addr ss) = foldl (\<lambda>v s. v * 65536 + unat s) 0 ss"

definition blocked_ipv4_nets :: "(nat \<times> nat) list" where
  "blocked_ipv4_nets = [(0, 8), (127 * 2 ^ 24, 8), (169 * 2 ^ 24 + 254 * 2 ^ 16, 16),
     (10 * 2 ^ 24, 8), (172 * 2 ^ 24 + 16 * 2 ^ 16, 12), (192 * 2 ^ 24 + 168 * 2 ^ 16, 16)]"

definition blocked_ipv6_nets :: "(nat \<times> nat) list" where
  "blocked_ipv6_nets = [(0, 128), (1, 128), (0xfe80 * 2 ^ 112, 10), (0xfc00 * 2 ^ 112, 7)]"

fun show_ipv4 :: "ipv4_addr \<Rightarrow> string" where
  "show_ipv4 (Ipv4Addr a b c d) =
     show_nat (unat a) @ ''.'' @ show_nat (unat b) @ ''.'' @ show_nat (unat c) @ ''.'' @ show_nat (unat d)"

definition is_host_char :: "char \<Rightarrow> bool" where
  "is_host_char c \<longleftrightarrow> is_ascii_digit c \<or> c = CHR ''.''"

section \<open>The blocked ranges\<close>

lemma octet_bound: "unat (a :: u8) < 256"
  using unsigned_less [of a, where ?'a = nat] by simp

lemma segment_bound: "unat (s :: u16) < 65536"
  using unsigned_less [of s, where ?'a = nat] by simp

lemma mixed_radix_eq_iff:
  fixes x y m n k :: nat
  assumes "y < k" "n < k"
  shows "x * k + y = m * k + n \<longleftrightarrow> x = m \<and> y = n"
proof
  assume eq: "x * k + y = m * k + n"
  from arg_cong [OF eq, of "\<lambda>z. z div k"] arg_cong [OF eq, of "\<lambda>z. z mod k"] assms
  show "x = m \<and> y = n" by simp
qed simp

lemma blocked_ipv4_nets_lemma:
  "is_blocked_ipv4 ip \<longleftrightarrow> (\<exists>n \<in> set blocked_ipv4_nets. in_net 32 n (ipv4_value ip))"
proof (cases ip)
  case (Ipv4Addr a b c d)
  have *: "unat a < 256" "unat b < 256" "unat c < 256" "unat d < 256" by (rule octet_bound)+
  have 1: "ipv4_value ip div 2 ^ 24 = unat a" using * Ipv4Addr by simp
  have 2: "ipv4_value ip div 2 ^ 16 = unat a * 256 + unat b" using * Ipv4Addr by simp
  have 3: "ipv4_value ip div 2 ^ 20 = unat a * 16 + unat b div 16" using * Ipv4Addr by simp
  have blk: "is_blocked_ipv4 ip \<longleftrightarrow> unat a = 0 \<or> unat a = 127 \<or> unat a = 169 \<and> unat b = 254
     \<or> unat a = 10 \<or> unat a = 172 \<and> 16 \<le> unat b \<and> unat b \<le> 31 \<or> unat a = 192 \<and> unat b = 168"
    unfolding Ipv4Addr is_blocked_ipv4_def ipv4_is_loopback_def ipv4_is_link_local_def ipv4_is_private_def
    by (simp add: word_unat_eq_iff word_le_nat_alt)
  have nets: "(\<exists>n \<in> set blocked_ipv4_nets. in_net 32 n x) \<longleftrightarrow>
     x div 2^24 = 0 \<or> x div 2^24 = 127 \<or> x div 2^16 = 169 * 256 + 254 \<or> x div 2^24 = 10
     \<or> x div 2^20 = 172 * 16 + 1 \<or> x div 2^16 = 192 * 256 + 168" for x :: nat
    by (simp add: blocked_ipv4_nets_def in_net_def)
  have 4: "unat b div 16 = 1 \<longleftrightarrow> 16 \<le> unat b \<and> unat b \<le> 31" by arith
  have 5: "unat b div 16 < 16" using * by simp
  have 6: "unat a * 256 + unat b = m * 256 + n \<longleftrightarrow> unat a = m \<and> unat b = n" if "n < 256" for m n
    using * that by (simp add: mixed_radix_eq_iff)
  have 7: "unat a * 16 + unat b div 16 = 172 * 16 + 1 \<longleftrightarrow> unat a = 172 \<and> unat b div 16 = 1"
    using 5 by (intro mixed_radix_eq_iff) auto
  show ?thesis unfolding blk nets 1 2 3 7 6 [of 254 169, simplified] 6 [of 168 192, simplified] 4
    using 6 [of 254 169] 6 [of 168 192] by auto
qed

lemma unat_and_not_mask:
  fixes s :: "'a::len word"
  shows "unat (s AND NOT (mask n)) = unat s div 2 ^ n * 2 ^ n"
proof -
  have "s AND NOT (mask n) = push_bit n (drop_bit n s)"
    by (rule bit_word_eqI) (auto simp: bit_simps)
  then have "unat (s AND NOT (mask n)) = take_bit LENGTH('a) (push_bit n (drop_bit n (unat s)))"
    by (simp only: unsigned_push_bit_eq unat_drop_bit_eq)
  moreover have "unat s div 2 ^ n * 2 ^ n < 2 ^ LENGTH('a)"
    by (rule le_less_trans [OF _ unsigned_less [of s]]) simp
  ultimately show ?thesis
    by (simp add: take_bit_eq_mod push_bit_eq_mult drop_bit_eq_div)
qed

lemma and_high_mask:
  fixes s :: u16
  shows "s AND 0xffc0 = 0xfe80 \<longleftrightarrow> unat s div 64 = 0xfe80 div 64"
    and "s AND 0xfe00 = 0xfc00 \<longleftrightarrow> unat s div 512 = 0xfc00 div 512"
proof -
  have m: "(0xffc0 :: u16) = NOT (mask 6)" "(0xfe00 :: u16) = NOT (mask 9)"
    by (simp_all add: mask_eq_exp_minus_1)
  have u: "unat (s AND 0xffc0) = unat s div 64 * 64" "unat (s AND 0xfe00) = unat s div 512 * 512"
    unfolding m unat_and_not_mask by simp_all
  show "s AND 0xffc0 = 0xfe80 \<longleftrightarrow> unat s div 64 = 0xfe80 div 64"
    unfolding word_unat_eq_iff u by simp
  show "s AND 0xfe00 = 0xfc00 \<longleftrightarrow> unat s div 512 = 0xfc00 div 512"
    unfolding word_unat_eq_iff u by simp
qed

lemma be_value_append:
  "foldl (\<lambda>v s. v * 65536 + unat s) a ys
     = a * 65536 ^ length ys + foldl (\<lambda>v s. v * 65536 + unat s) 0 (ys :: u16 list)"
proof (induction ys arbitrary: a)
  case (Cons y ys)
  show ?case
    using Cons.IH [of "a * 65536 + unat y"] Cons.IH [of "unat y"] by (simp add: algebra_simps)
qed simp

lemma be_value_bound: "foldl (\<lambda>v s. v * 65536 + unat s) 0 (ys :: u16 list) < 65536 ^ length ys"
proof (induction ys)
  case (Cons y ys)
  have "unat y * 65536 ^ length ys + foldl (\<lambda>v s. v * 65536 + unat s) 0 ys < Suc (unat y) * 65536 ^ length ys"
    using Cons.IH by simp
  also have "\<dots> \<le> 65536 * 65536 ^ length ys"
    using segment_bound [of y] by (intro mult_right_mono) simp_all
  finally show ?case using be_value_append [of "unat y" ys] by simp
qed simp

lemma be_value_div:
  assumes "length ys = n"
  shows "foldl (\<lambda>v s. v * 65536 + unat s) 0 (xs @ ys) div 65536 ^ n
     = foldl (\<lambda>v s. v * 65536 + unat s) 0 (xs :: u16 list)"
    and "foldl (\<lambda>v s. v * 65536 + unat s) 0 (xs @ ys) mod 65536 ^ n
     = foldl (\<lambda>v s. v * 65536 + unat s) 0 ys"
  using be_value_bound [of ys] assms
  by (simp_all add: be_value_append [of "foldl _ 0 xs"])

lemma be_value_inj:
  assumes "length xs = length (ys :: u16 list)"
    and "foldl (\<lambda>v s. v * 65536 + unat s) 0 xs = foldl (\<lambda>v s. v * 65536 + unat s) 0 ys"
  shows "xs = ys"
  using assms
proof (induction xs ys rule: rev_induct2)
  case (4 x xs y ys)
  then show ?case
    using mixed_radix_eq_iff [of "unat x" 65536 "unat y"] by (simp add: segment_bound word_unat_eq_iff)
qed simp_all

lemma unat_two_bytes:
  "unat (ucast (drop_bit 8 g) :: u8) * 256 + unat (ucast g :: u8) = unat (g :: u16)"
proof -
  have "unat (ucast (drop_bit 8 g) :: u8) = unat g div 256"
    using segment_bound [of g]
    by (simp add: unsigned_ucast_eq take_bit_eq_mod drop_bit_eq_div unat_div less_mult_imp_div_less)
  moreover have "unat (ucast g :: u8) = unat g mod 256"
    by (simp add: unsigned_ucast_eq take_bit_eq_mod)
  ultimately show ?thesis by (simp add: div_mult_mod_eq)
qed

lemma to_ipv4_mapped_iff:
  assumes len: "length ss = 8"
  shows "to_ipv4_mapped (Ipv6Addr ss) = None \<longleftrightarrow> \<not> in_net 128 (0xffff * 2 ^ 32, 96) (ipv6_value (Ipv6Addr ss))"
    and "to_ipv4_mapped (Ipv6Addr ss) = Some ip \<Longrightarrow> ipv4_value ip = ipv6_value (Ipv6Addr ss) mod 2 ^ 32"
proof -
  have split: "ss = take 6 ss @ drop 6 ss" and l2: "length (drop 6 ss) = 2" using len by simp_all
  have "ipv6_value (Ipv6Addr ss) div 65536 ^ 2 = foldl (\<lambda>v s. v * 65536 + unat s) 0 (take 6 ss)"
    using be_value_div(1) [OF l2, of "take 6 ss"] by (simp del: power_numeral)
  moreover have "foldl (\<lambda>v s. v * 65536 + unat s) 0 (take 6 ss) = 65535
      \<longleftrightarrow> take 6 ss = [0, 0, 0, 0, 0, 0xffff]"
    using be_value_inj [of "take 6 ss" "[0, 0, 0, 0, 0, 0xffff]"] len by auto
  ultimately show "to_ipv4_mapped (Ipv6Addr ss) = None
      \<longleftrightarrow> \<not> in_net 128 (0xffff * 2 ^ 32, 96) (ipv6_value (Ipv6Addr ss))"
    using len by (simp add: to_ipv4_mapped_def in_net_def Let_def)
  assume some: "to_ipv4_mapped (Ipv6Addr ss) = Some ip"
  have "drop 6 ss = [ss ! 6, ss ! 7]"
    using len by (auto simp: list_eq_iff_nth_eq dest!: less_2_cases)
  moreover have "ipv6_value (Ipv6Addr ss) mod 65536 ^ 2 = foldl (\<lambda>v s. v * 65536 + unat s) 0 (drop 6 ss)"
    using be_value_div(2) [OF l2, of "take 6 ss"] by (simp only: append_take_drop_id ipv6_value.simps)
  ultimately have "ipv6_value (Ipv6Addr ss) mod 65536 ^ 2 = unat (ss ! 6) * 65536 + unat (ss ! 7)"
    by (simp only: foldl.simps mult_zero_left add_0)
  then show "ipv4_value ip = ipv6_value (Ipv6Addr ss) mod 2 ^ 32"
    using some unat_two_bytes [of "ss ! 6"] unat_two_bytes [of "ss ! 7"]
    by (auto simp: to_ipv4_mapped_def Let_def algebra_simps split: if_splits)
qed

text \<open>
  The IPv6 test blocks exactly the unspecified and loopback addresses, \<open>fe80::/10\<close> and
  \<open>fc00::/7\<close>, and judges an IPv4-mapped address (\<open>::ffff:0:0/96\<close>) by its IPv4 part.
\<close>

theorem is_blocked_ipv6_iff_nets:
  assumes len: "length ss = 8"
  shows "is_blocked_ipv6 (Ipv6Addr ss) \<longleftrightarrow>
    (if in_net 128 (0xffff * 2 ^ 32, 96) (ipv6_value (Ipv6Addr ss))
     then \<exists>n \<in> set blocked_ipv4_nets. in_net 32 n (ipv6_value (Ipv6Addr ss) mod 2 ^ 32)
     else \<exists>n \<in> set blocked_ipv6_nets. in_net 128 n (ipv6_value (Ipv6Addr ss)))"
proof (cases "to_ipv4_mapped (Ipv6Addr ss)")
  case (Some v4)
  then show ?thesis
    using to_ipv4_mapped_iff [OF len] by (simp add: is_blocked_ipv6_def blocked_ipv4_nets_lemma del: ipv6_value.simps)
next
  case None
  let ?v = "foldl (\<lambda>v s. v * 65536 + unat s) 0 ss"
  obtain s0 rest where ss: "ss = s0 # rest" and l7: "length rest = 7" using len by (cases ss) auto
  have hi: "?v div 65536 ^ 7 = unat s0"
    using be_value_div(1) [OF l7, of "[s0]"] ss by simp
  have "?v div 2 ^ 118 = ?v div 65536 ^ 7 div 64" "?v div 2 ^ 121 = ?v div 65536 ^ 7 div 512"
    unfolding div_mult2_eq [symmetric] by simp_all
  then have d: "?v div 2 ^ 118 = unat s0 div 64" "?v div 2 ^ 121 = unat s0 div 512"
    by (simp_all only: hi)
  have z: "?v = 0 \<longleftrightarrow> ss = [0, 0, 0, 0, 0, 0, 0, 0]" "?v = 1 \<longleftrightarrow> ss = [0, 0, 0, 0, 0, 0, 0, 1]"
    using be_value_inj [of ss "[0, 0, 0, 0, 0, 0, 0, 0]"] be_value_inj [of ss "[0, 0, 0, 0, 0, 0, 0, 1]"] len by auto
  have nets: "(\<exists>n \<in> set blocked_ipv6_nets. in_net 128 n v) \<longleftrightarrow> v = 0 \<or> v = 1
      \<or> v div 2 ^ 118 = 0xfe80 div 64 \<or> v div 2 ^ 121 = 0xfc00 div 512" for v
    by (simp add: blocked_ipv6_nets_def in_net_def)
  have "is_blocked_ipv6 (Ipv6Addr ss) \<longleftrightarrow> ss = [0, 0, 0, 0, 0, 0, 0, 0] \<or> ss = [0, 0, 0, 0, 0, 0, 0, 1]
      \<or> unat s0 div 64 = 0xfe80 div 64 \<or> unat s0 div 512 = 0xfc00 div 512"
    using None unfolding is_blocked_ipv6_def is_ipv6_link_local_def is_ipv6_unique_local_def ss segments.simps
      nth_Cons_0 and_high_mask by simp
  with None to_ipv4_mapped_iff(1) [OF len] show ?thesis
    unfolding nets ipv6_value.simps d z by simp
qed

theorem is_blocked_ipv6_iff_nets_witness:
  "is_blocked_ipv6 (Ipv6Addr [0xfe80, 0, 0, 0, 0, 0, 0, 1]) \<and> \<not> is_blocked_ipv6 (Ipv6Addr [0x2606, 0, 0, 0, 0, 0, 0, 1])"
  using is_blocked_ipv6_iff_nets [of "[0xfe80, 0, 0, 0, 0, 0, 0, 1]"]
    is_blocked_ipv6_iff_nets [of "[0x2606, 0, 0, 0, 0, 0, 0, 1]"]
  by (simp add: in_net_def blocked_ipv6_nets_def)

text \<open>
  C34. The IPv4 test blocks exactly the six networks \<open>0.0.0.0/8\<close>, \<open>127.0.0.0/8\<close>,
  \<open>169.254.0.0/16\<close>, \<open>10.0.0.0/8\<close>, \<open>172.16.0.0/12\<close> and \<open>192.168.0.0/16\<close>.
\<close>

theorem is_blocked_ipv4_iff_nets:
  "is_blocked_ipv4 ip \<longleftrightarrow> (\<exists>n \<in> set blocked_ipv4_nets. in_net 32 n (ipv4_value ip))"
  by (rule blocked_ipv4_nets_lemma)

section \<open>Parsing and validation\<close>

lemma parse_http_url_scheme:
  assumes "parse_http_url url = Inr p"
  shows "scheme_of url = Some (scheme p)"
proof -
  from assms obtain i where i: "str_find_sub ''://'' url = Some i"
    by (cases "str_find_sub ''://'' url") (auto simp: parse_http_url_def)
  with assms show ?thesis
    by (auto simp: parse_http_url_def scheme_of_def Let_def split: if_splits)
qed

lemma check_addrs_ok_iff: "check_addrs p ips = Inr () \<longleftrightarrow> (\<forall>ip \<in> set ips. \<not> is_blocked_ip ip)"
  by (induction ips) auto

lemma read_number_no_digit: "to_digit radix c = None \<Longrightarrow> read_number radix mx z b (c # s) = None"
  by (simp add: read_number_def)

lemma to_digit_10_16: "to_digit 16 c = None \<Longrightarrow> to_digit 10 c = None"
  by (auto simp: to_digit_def Let_def split: if_splits)

lemma read_ipv4_addr_no_digit: "to_digit 10 c = None \<Longrightarrow> read_ipv4_addr (c # s) = None"
  by (simp add: read_ipv4_addr_def read_separator_def read_number_no_digit)

lemma read_groups_no_digit: "to_digit 16 c = None \<Longrightarrow> read_groups limit 0 k (c # s) = ([], False, c # s)"
  by (cases k) (simp_all add: read_separator_def read_number_no_digit read_ipv4_addr_no_digit to_digit_10_16)

lemma parse_ip_addr_name:
  assumes "to_digit 16 c = None" "c \<noteq> CHR '':''"
  shows "parse_ip_addr (c # s) = None"
  using assms read_groups_no_digit [OF assms(1), of 8 8 s]
  by (simp add: parse_ip_addr_def read_ipv4_addr_no_digit to_digit_10_16 read_ipv6_addr_def)

text \<open>
  The guard accepts a URL exactly when it parses with scheme http or https and its host is
  allowlisted, or private networks are allowed, or it is an address literal outside the
  blocked ranges, or it is a name that resolves to at least one address and to none that is
  blocked.
\<close>

theorem validate_outbound_url_ok_iff:
  "validate_outbound_url resolve url config = Inr () \<longleftrightarrow>
    (\<exists>p. parse_http_url (str_trim url) = Inr p \<and> scheme p \<in> {''http'', ''https''}
      \<and> (host_is_allowlisted (host p) config \<or> allow_private_networks config
         \<or> (case parse_ip_addr (host p) of
              Some ip \<Rightarrow> \<not> is_blocked_ip ip
            | None \<Rightarrow> \<exists>ips. resolve (host p)
                  (case port p of Some n \<Rightarrow> n | None \<Rightarrow> if scheme p = ''https'' then 443 else 80) = Inr ips
                \<and> ips \<noteq> [] \<and> (\<forall>ip \<in> set ips. \<not> is_blocked_ip ip))))"
proof (cases "parse_http_url (str_trim url)")
  case (Inl e)
  then show ?thesis by (simp add: validate_outbound_url_def Let_def)
next
  case (Inr p)
  have "str_trim url \<noteq> []" using Inr by (auto simp: parse_http_url_def)
  with Inr parse_http_url_scheme [OF Inr] show ?thesis
    by (cases "parse_ip_addr (host p)"; cases "resolve (host p)
          (case port p of Some n \<Rightarrow> n | None \<Rightarrow> if scheme p = ''https'' then 443 else 80)")
       (auto simp: validate_outbound_url_def Let_def check_addrs_ok_iff)
qed

theorem validate_outbound_url_ok_iff_witness:
  "validate_outbound_url (\<lambda>h p. Inr [V4 (Ipv4Addr 1 1 1 1)]) ''https://www.flowable.org/x'' default_guard_config = Inr ()"
proof -
  let ?p = "\<lparr>scheme = ''https'', host = ''www.flowable.org'', port = None\<rparr>"
  have "\<not> is_blocked_ip (V4 (Ipv4Addr 1 1 1 1))"
    by (simp add: is_blocked_ipv4_def ipv4_is_loopback_def ipv4_is_link_local_def ipv4_is_private_def)
  moreover have "parse_http_url (str_trim ''https://www.flowable.org/x'') = Inr ?p"
    by (simp add: parse_http_url_def str_trim_def is_whitespace_def split_host_port_def rsplit_once_colon_def
        to_ascii_lowercase_def to_ascii_lower_def)
  moreover have "parse_ip_addr ''www.flowable.org'' = None"
    by (rule parse_ip_addr_name) (simp_all add: to_digit_def)
  ultimately show ?thesis by (subst validate_outbound_url_ok_iff, intro exI [of _ ?p]) simp
qed

lemma to_digit_char_of: "d < 10 \<Longrightarrow> to_digit 10 (char_of (48 + d)) = Some d"
  by (simp add: to_digit_def)

lemma show_nat_octet_cases:
  assumes "n < 256"
  obtains d where "n = d" "d < 10" "show_nat n = [char_of (48 + d)]"
  | d e where "n = d * 10 + e" "0 < d" "d < 10" "e < 10" "show_nat n = [char_of (48 + d), char_of (48 + e)]"
  | d e f where "n = (d * 10 + e) * 10 + f" "0 < d" "d < 10" "e < 10" "f < 10"
      "show_nat n = [char_of (48 + d), char_of (48 + e), char_of (48 + f)]"
proof -
  consider "n < 10" | "10 \<le> n" "n < 100" | "100 \<le> n" by linarith
  then show thesis
  proof cases
    case 1
    with that(1) show ?thesis by (simp add: show_nat_lt_10)
  next
    case 2
    then have "n = n div 10 * 10 + n mod 10" "0 < n div 10" "n div 10 < 10" "n mod 10 < 10" by auto
    moreover from this 2 have "show_nat n = [char_of (48 + n div 10), char_of (48 + n mod 10)]"
      by (simp add: show_nat_ge_10 show_nat_lt_10)
    ultimately show ?thesis by (rule that(2))
  next
    case 3
    let ?d = "n div 10 div 10" and ?e = "n div 10 mod 10" and ?f = "n mod 10"
    have "n = (?d * 10 + ?e) * 10 + ?f" by (simp only: div_mult_mod_eq)
    moreover have "0 < ?d" "?d < 10" "?e < 10" "?f < 10" using 3 assms by simp_all
    moreover have "show_nat n = [char_of (48 + ?d), char_of (48 + ?e), char_of (48 + ?f)]"
      using 3 assms by (simp add: show_nat_ge_10 show_nat_lt_10)
    ultimately show ?thesis by (rule that(3))
  qed
qed

lemma char_of_digit_nonzero:
  assumes "0 < d" "d < (10::nat)"
  shows "char_of (48 + d) \<noteq> CHR ''0''"
proof
  assume "char_of (48 + d) = CHR ''0''"
  then have "of_char (char_of (48 + d)) = (of_char CHR ''0'' :: nat)" by simp
  with assms show False by simp
qed

lemma read_number_show_nat:
  assumes "n < 256" "case rest of [] \<Rightarrow> True | c # _ \<Rightarrow> to_digit 10 c = None"
  shows "read_number 10 3 False 256 (show_nat n @ rest) = Some (n, rest)"
proof -
  have stop: "read_digits 10 3 r k rest = Some (r, k, rest)" for r k
    using assms(2) by (cases rest) auto
  from assms(1) show ?thesis
    by (cases rule: show_nat_octet_cases)
      (use assms(1) in \<open>simp_all add: read_number_def to_digit_char_of stop char_of_digit_nonzero\<close>)
qed

lemma read_octet_dot:
  "read_number 10 3 False 256 (show_nat (unat (a :: u8)) @ CHR ''.'' # r) = Some (unat a, CHR ''.'' # r)"
  by (rule read_number_show_nat) (simp_all add: octet_bound to_digit_def)

lemma read_octet_end:
  "read_number 10 3 False 256 (show_nat (unat (a :: u8))) = Some (unat a, [])"
  using read_number_show_nat [of "unat a" "[]"] by (simp add: octet_bound)

lemma parse_ip_addr_show_ipv4: "parse_ip_addr (show_ipv4 ip) = Some (V4 ip)"
  by (cases ip) (simp add: parse_ip_addr_def read_ipv4_addr_def read_separator_def
      read_octet_dot read_octet_end)

lemma show_ipv4_chars: "c \<in> set (show_ipv4 ip) \<Longrightarrow> is_host_char c"
  using show_nat_digits by (cases ip) (auto simp: is_host_char_def)

lemma show_ipv4_not_Nil [simp]: "show_ipv4 ip \<noteq> []"
  by (cases ip) simp

lemma host_char_facts:
  assumes "is_host_char c"
  shows "to_ascii_lower c = c" "\<not> is_whitespace c" "c \<noteq> CHR ''@''" "c \<noteq> CHR '':''" "c \<noteq> CHR ''[''"
    "c \<notin> {CHR ''/'', CHR ''?'', CHR ''#''}"
  using assms by (auto simp: is_host_char_def is_ascii_digit_def to_ascii_lower_def is_whitespace_def Let_def)

lemma split_host_port_plain:
  assumes "\<forall>c \<in> set h. is_host_char c"
  shows "split_host_port h = Inr (h, None)"
proof -
  have "\<not> str_starts_with ''['' h"
    using assms host_char_facts(5) by (cases h) auto
  moreover have "str_find (\<lambda>c. c = CHR '':'') (rev h) = None"
    using assms host_char_facts(4) by (auto simp: str_find_None_iff)
  ultimately show ?thesis by (simp add: split_host_port_def rsplit_once_colon_def)
qed

lemma parse_http_url_plain:
  assumes sch: "sch \<in> {''http'', ''https''}" and h: "\<forall>c \<in> set h. is_host_char c" "h \<noteq> []"
    and path: "path = [] \<or> hd path \<in> {CHR ''/'', CHR ''?'', CHR ''#''}"
    and auth: "(case str_find (\<lambda>c. c = CHR ''@'') rest of
      Some idx \<Rightarrow> drop (idx + 1) rest | None \<Rightarrow> rest) = h @ path"
  shows "parse_http_url (sch @ ''://'' @ rest) = Inr \<lparr>scheme = sch, host = h, port = None\<rparr>"
proof -
  have low: "to_ascii_lowercase h = h"
    unfolding to_ascii_lowercase_def using h(1) host_char_facts(1) by (intro map_idI) auto
  have cut: "take (case str_find (\<lambda>c. c \<in> {CHR ''/'', CHR ''?'', CHR ''#''}) (h @ path) of
      Some e \<Rightarrow> e | None \<Rightarrow> length (h @ path)) (h @ path) = h"
  proof (cases path)
    case Nil
    then show ?thesis using h host_char_facts(6) by (subst str_find_append) auto
  next
    case (Cons c p)
    with path have "str_find (\<lambda>c. c \<in> {CHR ''/'', CHR ''?'', CHR ''#''}) path = Some 0" by auto
    then show ?thesis using h host_char_facts(6) by (subst str_find_append) auto
  qed
  have sep: "str_find_sub ''://'' (sch @ ''://'' @ rest) = Some (length sch)"
      "to_ascii_lowercase sch = sch" "sch \<noteq> []"
    using sch by (auto simp: to_ascii_lowercase_def to_ascii_lower_def)
  have "rest \<noteq> []" using auth h(2) by (cases rest) auto
  moreover have "drop (length sch + 3) (sch @ ''://'' @ rest) = rest"
    "take (length sch) (sch @ ''://'' @ rest) = sch" by simp_all
  ultimately show ?thesis
    unfolding parse_http_url_def Let_def sep(1) ok_or.simps rbind.simps
    using sep(2,3) h(2) by (simp only: auth cut split_host_port_plain [OF h(1)] low rbind.simps prod.case if_False)
qed

lemma validate_plain:
  assumes sch: "sch \<in> {''http'', ''https''}"
    and parse: "parse_http_url (sch @ ''://'' @ rest) = Inr \<lparr>scheme = sch, host = show_ipv4 ip, port = None\<rparr>"
    and trim: "rest \<noteq> []" "\<not> is_whitespace (last rest)"
  shows "validate_outbound_url resolve (sch @ ''://'' @ rest) default_guard_config =
    (if is_blocked_ipv4 ip
     then Inl \<lparr>message = BlockedAddress (V4 ip), safe_target = Some (sch @ ''://'' @ show_ipv4 ip)\<rparr>
     else Inr ())"
proof -
  have "str_trim (sch @ ''://'' @ rest) = sch @ ''://'' @ rest"
    using sch trim by (intro str_trim_id) (auto simp: is_whitespace_def)
  moreover have "scheme_of (sch @ ''://'' @ rest) = Some sch"
    using sch by (auto simp: scheme_of_def to_ascii_lowercase_def to_ascii_lower_def)
  moreover have "\<not> host_is_allowlisted x default_guard_config" for x
    by (simp add: host_is_allowlisted_def default_guard_config_def)
  moreover have "CHR '':'' \<notin> set (show_ipv4 ip)"
    using show_ipv4_chars host_char_facts(4) by blast
  ultimately show ?thesis
    using sch parse
    by (auto simp: validate_outbound_url_def Let_def parse_ip_addr_show_ipv4 blocked_ip_error_def
        format_safe_target_def default_guard_config_def)
qed

text \<open>
  A dotted-decimal IPv4 literal is judged by its octets: with the default configuration,
  a URL whose host is such a literal and whose path has no \<open>@\<close> is rejected exactly when
  the address is in a blocked range, whatever the resolver answers, and the error shows only
  scheme and host.
\<close>

theorem blocked_literal_rejected:
  assumes "sch \<in> {''http'', ''https''}"
    and "path = [] \<or> hd path \<in> {CHR ''/'', CHR ''?'', CHR ''#''} \<and> \<not> is_whitespace (last path)"
    and "CHR ''@'' \<notin> set path"
  shows "validate_outbound_url resolve (sch @ ''://'' @ show_ipv4 ip @ path) default_guard_config =
    (if is_blocked_ipv4 ip
     then Inl \<lparr>message = BlockedAddress (V4 ip), safe_target = Some (sch @ ''://'' @ show_ipv4 ip)\<rparr>
     else Inr ())"
proof (rule validate_plain [OF assms(1)])
  have "str_find (\<lambda>c. c = CHR ''@'') (show_ipv4 ip @ path) = None"
    using assms(3) show_ipv4_chars host_char_facts(3) by (auto simp: str_find_None_iff)
  then show "parse_http_url (sch @ ''://'' @ show_ipv4 ip @ path)
      = Inr \<lparr>scheme = sch, host = show_ipv4 ip, port = None\<rparr>"
    using assms by (intro parse_http_url_plain) (auto intro: show_ipv4_chars)
  show "\<not> is_whitespace (last (show_ipv4 ip @ path))"
    using assms(2) show_ipv4_chars [of "last (show_ipv4 ip)" ip] host_char_facts(2) by (auto simp: last_append)
qed simp

theorem blocked_literal_rejected_witness:
  "is_blocked_ipv4 (Ipv4Addr 169 254 169 254) \<and>
   validate_outbound_url (\<lambda>h p. Inr []) (''http'' @ ''://'' @ show_ipv4 (Ipv4Addr 169 254 169 254) @ ''/latest/meta-data'')
     default_guard_config
   = Inl \<lparr>message = BlockedAddress (V4 (Ipv4Addr 169 254 169 254)),
          safe_target = Some (''http'' @ ''://'' @ show_ipv4 (Ipv4Addr 169 254 169 254))\<rparr>"
proof -
  have blk: "is_blocked_ipv4 (Ipv4Addr 169 254 169 254)"
    by (simp add: is_blocked_ipv4_def ipv4_is_loopback_def ipv4_is_link_local_def)
  have "\<not> is_whitespace (last ''/latest/meta-data'')" by code_simp
  with blk show ?thesis
    using blocked_literal_rejected [of "''http''" "''/latest/meta-data''" "\<lambda>h p. Inr []" "Ipv4Addr 169 254 169 254"]
    by simp
qed

text \<open>
  C35. The guard drops everything up to the first \<open>@\<close> of the URL, also when that \<open>@\<close> lies
  in the path: for every address, blocked or not, the URL \<open>http://<address>/@8.8.8.8\<close> is
  accepted under the default configuration, although a client connects to \<open><address>\<close>.
\<close>

theorem userinfo_in_path_bypasses_guard:
  "validate_outbound_url resolve (''http://'' @ show_ipv4 ip @ ''/@8.8.8.8'') default_guard_config = Inr ()"
proof -
  let ?pub = "Ipv4Addr 8 8 8 8"
  have pub: "show_ipv4 ?pub = ''8.8.8.8''" by code_simp
  have "validate_outbound_url resolve (''http'' @ ''://'' @ show_ipv4 ip @ ''/@8.8.8.8'') default_guard_config
      = (if is_blocked_ipv4 ?pub then Inl \<lparr>message = BlockedAddress (V4 ?pub),
           safe_target = Some (''http'' @ ''://'' @ show_ipv4 ?pub)\<rparr> else Inr ())"
  proof (rule validate_plain)
    have "str_find (\<lambda>c. c = CHR ''@'') (show_ipv4 ip @ ''/@8.8.8.8'') = Some (length (show_ipv4 ip) + 1)"
      using show_ipv4_chars host_char_facts(3) by (subst str_find_append) auto
    then have "(case str_find (\<lambda>c. c = CHR ''@'') (show_ipv4 ip @ ''/@8.8.8.8'') of
        Some idx \<Rightarrow> drop (idx + 1) (show_ipv4 ip @ ''/@8.8.8.8'') | None \<Rightarrow> show_ipv4 ip @ ''/@8.8.8.8'')
        = show_ipv4 ?pub @ []" unfolding pub by simp
    then show "parse_http_url (''http'' @ ''://'' @ show_ipv4 ip @ ''/@8.8.8.8'')
        = Inr \<lparr>scheme = ''http'', host = show_ipv4 ?pub, port = None\<rparr>"
      by (rule parse_http_url_plain [rotated -1]) (simp, blast intro: show_ipv4_chars, rule show_ipv4_not_Nil, simp)
  qed (simp_all add: is_whitespace_def)
  then show ?thesis
    by (simp add: is_blocked_ipv4_def ipv4_is_loopback_def ipv4_is_link_local_def ipv4_is_private_def)
qed

end
