(* ===== verification/Job_Store.thy ===== *)
theory Job_Store
  imports Prelude
begin

text \<open>
  The job table of \<open>flowable-engine/src/persistence/runtime_store.rs\<close> and the operations of the
  async executor on it: creating, acquiring, releasing, resetting and completing jobs.
  A row has typed columns, on which the SQL conditions are evaluated, and a payload, the
  serialised job that a query returns; the model keeps both, because the code updates them
  separately. The table is the list of rows in storage order: \<open>ORDER BY\<close> is a stable sort
  of it, so every resolution of ties is covered by some storage order. A \<open>Vec\<close> of column
  conditions of \<open>cas_update\<close> is a predicate on the columns; \<open>column = value\<close> and
  \<open>column IS NULL\<close> are equality with \<open>Some value\<close> and \<open>None\<close>.
  An \<open>i64\<close> is an \<^typ>\<open>int\<close> with saturation and overflow panics written out, a \<open>usize\<close> a \<^typ>\<open>nat\<close>.
  Process instances and executions, which the job operations only read, are parameters.
  The database answering with an error is not modelled. \<open>cas_update\<close> and the insertion bind a text that reads as
  an \<open>i64\<close> as an integer, which a text column stores and compares in canonical form (\<open>007\<close> as \<open>7\<close>) or which the
  database refuses; the model keeps the text, so it speaks of lock owners, states and messages that are not
  non-canonical integers.
\<close>

section \<open>Integers and order\<close>

definition i64_max :: int where "i64_max = 2 ^ 63 - 1"
definition i64_min :: int where "i64_min = - (2 ^ 63)"
definition usize_max :: nat where "usize_max = 2 ^ 64 - 1"

definition saturating_add :: "int \<Rightarrow> int \<Rightarrow> int" where
  "saturating_add a b = max i64_min (min i64_max (a + b))"

text \<open>The plain \<open>+\<close>: the release profile keeps overflow checks, so it panics (\<^const>\<open>None\<close>) out of range.\<close>

definition checked_add :: "int \<Rightarrow> int \<Rightarrow> int option" where
  "checked_add a b = (if i64_min \<le> a + b \<and> a + b \<le> i64_max then Some (a + b) else None)"

definition saturating_mul :: "nat \<Rightarrow> nat \<Rightarrow> nat" where
  "saturating_mul a b = min usize_max (a * b)"

fun str_le :: "string \<Rightarrow> string \<Rightarrow> bool" where
  "str_le [] t = True"
| "str_le (c # s) [] = False"
| "str_le (c # s) (d # t) =
     ((of_char c :: nat) < of_char d \<or> c = d \<and> str_le s t)"

fun opt_le :: "int option \<Rightarrow> int option \<Rightarrow> bool" where
  "opt_le None y = True"
| "opt_le (Some a) None = False"
| "opt_le (Some a) (Some b) = (a \<le> b)"

text \<open>The stable sort behind \<open>sort_by\<close> and \<open>ORDER BY\<close>.\<close>

fun insert_by :: "('a \<Rightarrow> 'a \<Rightarrow> bool) \<Rightarrow> 'a \<Rightarrow> 'a list \<Rightarrow> 'a list" where
  "insert_by le x [] = [x]"
| "insert_by le x (y # ys) = (if le x y then x # y # ys else y # insert_by le x ys)"

definition sort_rows :: "('a \<Rightarrow> 'a \<Rightarrow> bool) \<Rightarrow> 'a list \<Rightarrow> 'a list" where
  "sort_rows le xs = foldr (insert_by le) xs []"

section \<open>Jobs, rows and the table\<close>

record runtime_timer_job_state =
  job_timer_job_id :: string
  job_process_instance_id :: string
  job_execution_id :: string
  job_activity_id :: string
  job_job_state :: "string option"
  job_is_boundary :: bool
  job_attached_activity_id :: "string option"
  job_cancel_activity :: bool
  job_time_duration :: "string option"
  job_time_date :: "string option"
  job_time_cycle :: "string option"
  job_end_date :: "string option"
  job_calendar_name :: "string option"
  job_due_time :: "int option"
  job_lock_owner :: "string option"
  job_lock_time :: "int option"
  job_lock_expiration_time :: "int option"
  job_retries :: "int option"
  job_error_message :: "string option"
  job_error_details :: "string option"
  job_category :: "string option"
  job_create_time :: "int option"
  job_correlation_id :: "string option"
  job_handler_type :: "string option"
  job_tenant_id :: "string option"
  job_process_definition_id :: "string option"
  job_element_name :: "string option"
  job_job_handler_configuration :: "string option"
  job_advanced_job_handler_configuration :: "string option"
  job_custom_values :: "string option"
  job_scope_type :: "string option"
  job_scope_id :: "string option"
  job_sub_scope_id :: "string option"
  job_scope_definition_id :: "string option"
  job_exclusive :: bool

definition default_job :: runtime_timer_job_state where
  "default_job =
     \<lparr>job_timer_job_id = [],
      job_process_instance_id = [],
      job_execution_id = [],
      job_activity_id = [],
      job_job_state = None,
      job_is_boundary = False,
      job_attached_activity_id = None,
      job_cancel_activity = False,
      job_time_duration = None,
      job_time_date = None,
      job_time_cycle = None,
      job_end_date = None,
      job_calendar_name = None,
      job_due_time = None,
      job_lock_owner = None,
      job_lock_time = None,
      job_lock_expiration_time = None,
      job_retries = None,
      job_error_message = None,
      job_error_details = None,
      job_category = None,
      job_create_time = None,
      job_correlation_id = None,
      job_handler_type = None,
      job_tenant_id = None,
      job_process_definition_id = None,
      job_element_name = None,
      job_job_handler_configuration = None,
      job_advanced_job_handler_configuration = None,
      job_custom_values = None,
      job_scope_type = None,
      job_scope_id = None,
      job_sub_scope_id = None,
      job_scope_definition_id = None,
      job_exclusive = True\<rparr>"

datatype runtime_job_type = JobTimer | JobHistory | JobExternalWorker | JobOther string

fun job_type_as_str :: "runtime_job_type \<Rightarrow> string" where
  "job_type_as_str JobTimer = ''timer''"
| "job_type_as_str JobHistory = ''history''"
| "job_type_as_str JobExternalWorker = ''externalWorker''"
| "job_type_as_str (JobOther v) = v"

definition job_type_from_persisted :: "string \<Rightarrow> runtime_job_type" where
  "job_type_from_persisted v =
     (if v = ''timer'' then JobTimer
      else if v = ''history'' then JobHistory
      else if v = ''externalWorker'' \<or> v = ''external-worker'' then JobExternalWorker
      else JobOther v)"

datatype expired_job_class = ExpiredAsync | ExpiredTimer | ExpiredHistory

definition expired_job_class_ALL :: "expired_job_class list" where
  "expired_job_class_ALL = [ExpiredAsync, ExpiredTimer, ExpiredHistory]"

fun class_job_states :: "expired_job_class \<Rightarrow> string list" where
  "class_job_states ExpiredAsync = [''executable'', ''async'', ''async-after'']"
| "class_job_states ExpiredTimer = [''timer'']"
| "class_job_states ExpiredHistory = [''history'']"

datatype acquisition_write_policy = Optimistic | SerializedByGlobalLock

record reset_outcome =
  scanned :: nat
  reset_count :: nat
  conflicts :: nat

record job_columns =
  col_process_instance_id :: "string option"
  col_execution_id :: "string option"
  col_activity_id :: "string option"
  col_lock_owner :: "string option"
  col_lock_time :: "int option"
  col_lock_expiration_time :: "int option"
  col_retries :: "int option"
  col_error_message :: "string option"
  col_error_details :: "string option"
  col_due_time :: "int option"
  col_job_state :: "string option"
  col_job_type :: "string option"
  col_create_time :: "int option"
  col_correlation_id :: "string option"
  col_handler_type :: "string option"
  col_tenant_id :: "string option"
  col_process_definition_id :: "string option"
  col_element_name :: "string option"
  col_category :: "string option"
  col_scope_id :: "string option"
  col_sub_scope_id :: "string option"
  col_scope_type :: "string option"
  col_scope_definition_id :: "string option"

record job_row =
  row_id :: string
  row_cols :: job_columns
  row_data :: runtime_timer_job_state

type_synonym job_table = "job_row list"

text \<open>What the job operations read of a process instance and of an execution.\<close>

record instance_view =
  instance_tenant_id :: "string option"
  instance_process_definition_id :: string
  instance_is_suspended :: bool

record execution_view =
  execution_tenant_id :: "string option"
  execution_process_definition_id :: "string option"
  execution_activity_id :: "string option"
  execution_activity_name :: "string option"

section \<open>Session operations\<close>

definition cas_update :: "string \<Rightarrow> runtime_timer_job_state \<Rightarrow> (job_columns \<Rightarrow> job_columns)
    \<Rightarrow> (job_columns \<Rightarrow> bool) \<Rightarrow> job_table \<Rightarrow> nat \<times> job_table" where
  "cas_update i data set_extras conds t =
     (let hit = (\<lambda>r. row_id r = i \<and> conds (row_cols r))
      in (length (filter hit t),
          map (\<lambda>r. if hit r then r\<lparr>row_data := data, row_cols := set_extras (row_cols r)\<rparr> else r) t))"

definition take_opt :: "nat option \<Rightarrow> 'a list \<Rightarrow> 'a list" where
  "take_opt n xs = (case n of None \<Rightarrow> xs | Some k \<Rightarrow> take k xs)"

definition find_with_filters :: "(job_columns \<Rightarrow> bool) \<Rightarrow> (job_row \<Rightarrow> job_row \<Rightarrow> bool) \<Rightarrow> nat option
    \<Rightarrow> job_table \<Rightarrow> runtime_timer_job_state list" where
  "find_with_filters filters order_by limit t =
     map row_data (take_opt limit (sort_rows order_by (filter (\<lambda>r. filters (row_cols r)) t)))"

definition find_row :: "string \<Rightarrow> job_table \<Rightarrow> job_row option" where
  "find_row i t = find (\<lambda>r. row_id r = i) t"

definition order_by_due_time :: "job_row \<Rightarrow> job_row \<Rightarrow> bool" where
  "order_by_due_time a b = opt_le (col_due_time (row_cols a)) (col_due_time (row_cols b))"

definition order_by_id :: "job_row \<Rightarrow> job_row \<Rightarrow> bool" where
  "order_by_id a b = str_le (row_id a) (row_id b)"

text \<open>
  \<open>bulk_update_json_and_columns_by_ids\<close>: every named row gets its own payload and the shared
  columns; the result is the number of rows updated.
\<close>

definition bulk_update :: "runtime_timer_job_state list \<Rightarrow> (job_columns \<Rightarrow> job_columns) \<Rightarrow> job_table
    \<Rightarrow> nat \<times> job_table" where
  "bulk_update jobs set_extras t =
     (let payload = (\<lambda>r. find (\<lambda>j. job_timer_job_id j = row_id r) jobs)
      in (length (filter (\<lambda>r. payload r \<noteq> None) t),
          map (\<lambda>r. case payload r of
                 Some j \<Rightarrow> r\<lparr>row_data := j, row_cols := set_extras (row_cols r)\<rparr>
               | None \<Rightarrow> r) t))"

fun upsert_row :: "job_row \<Rightarrow> job_table \<Rightarrow> job_table" where
  "upsert_row r [] = [r]"
| "upsert_row r (x # t) = (if row_id x = row_id r then r # t else x # upsert_row r t)"

section \<open>Creating jobs\<close>

definition opt_or :: "'a option \<Rightarrow> 'a option \<Rightarrow> 'a option" where
  "opt_or x y = (case x of None \<Rightarrow> y | Some _ \<Rightarrow> x)"

definition stamp_new_job_metadata :: "string \<Rightarrow> runtime_timer_job_state \<Rightarrow> int \<Rightarrow> string \<Rightarrow> string option
    \<Rightarrow> string option \<Rightarrow> string option \<Rightarrow> runtime_timer_job_state" where
  "stamp_new_job_metadata new_uuid job now_ms handler tenant definition_id element =
     job\<lparr>job_create_time := opt_or (job_create_time job) (Some now_ms),
         job_correlation_id := opt_or (job_correlation_id job) (Some new_uuid),
         job_handler_type := opt_or (job_handler_type job) (Some handler),
         job_tenant_id := opt_or (job_tenant_id job) tenant,
         job_process_definition_id := opt_or (job_process_definition_id job) definition_id,
         job_element_name := opt_or (job_element_name job) element\<rparr>"

definition copy_job_query_metadata :: "runtime_timer_job_state \<Rightarrow> runtime_timer_job_state
    \<Rightarrow> runtime_timer_job_state" where
  "copy_job_query_metadata from to_job =
     to_job\<lparr>job_category := opt_or (job_category to_job) (job_category from),
        job_correlation_id := opt_or (job_correlation_id to_job) (job_correlation_id from),
        job_handler_type := opt_or (job_handler_type to_job) (job_handler_type from),
        job_tenant_id := opt_or (job_tenant_id to_job) (job_tenant_id from),
        job_process_definition_id := opt_or (job_process_definition_id to_job) (job_process_definition_id from),
        job_element_name := opt_or (job_element_name to_job) (job_element_name from),
        job_scope_type := opt_or (job_scope_type to_job) (job_scope_type from),
        job_scope_id := opt_or (job_scope_id to_job) (job_scope_id from),
        job_sub_scope_id := opt_or (job_sub_scope_id to_job) (job_sub_scope_id from),
        job_scope_definition_id := opt_or (job_scope_definition_id to_job) (job_scope_definition_id from),
        job_create_time := opt_or (job_create_time to_job) (job_create_time from),
        job_job_handler_configuration :=
          opt_or (job_job_handler_configuration to_job) (job_job_handler_configuration from),
        job_advanced_job_handler_configuration :=
          opt_or (job_advanced_job_handler_configuration to_job) (job_advanced_job_handler_configuration from),
        job_custom_values := opt_or (job_custom_values to_job) (job_custom_values from)\<rparr>"

definition ASYNC_CONTINUATION_MARKER :: string where
  "ASYNC_CONTINUATION_MARKER = ''__flowable_async_continuation''"

definition ASYNC_AFTER_MARKER :: string where
  "ASYNC_AFTER_MARKER = ''__flowable_async_after''"

definition infer_handler_type :: "runtime_timer_job_state \<Rightarrow> string" where
  "infer_handler_type job =
     (if job_time_duration job = Some ASYNC_CONTINUATION_MARKER then ''async-continuation''
      else if job_time_duration job = Some ASYNC_AFTER_MARKER then ''async-after''
      else case job_job_state job of
             None \<Rightarrow> ''timer''
           | Some s \<Rightarrow>
               if s = ''async'' then ''async''
               else if s = ''async-after'' then ''async-after''
               else if s = ''history'' then ''history''
               else if s = ''suspended'' then ''suspended''
               else if s = ''deadletter'' then ''deadletter''
               else ''timer'')"

text \<open>The typed columns written with a job.\<close>

definition columns_of :: "runtime_timer_job_state \<Rightarrow> string option \<Rightarrow> job_columns" where
  "columns_of j ty =
     \<lparr>col_process_instance_id = Some (job_process_instance_id j),
      col_execution_id = Some (job_execution_id j),
      col_activity_id = Some (job_activity_id j),
      col_lock_owner = job_lock_owner j,
      col_lock_time = job_lock_time j,
      col_lock_expiration_time = job_lock_expiration_time j,
      col_retries = job_retries j,
      col_error_message = job_error_message j,
      col_error_details = job_error_details j,
      col_due_time = job_due_time j,
      col_job_state = job_job_state j,
      col_job_type = ty,
      col_create_time = job_create_time j,
      col_correlation_id = job_correlation_id j,
      col_handler_type = job_handler_type j,
      col_tenant_id = job_tenant_id j,
      col_process_definition_id = job_process_definition_id j,
      col_element_name = job_element_name j,
      col_category = job_category j,
      col_scope_id = job_scope_id j,
      col_sub_scope_id = job_sub_scope_id j,
      col_scope_type = job_scope_type j,
      col_scope_definition_id = job_scope_definition_id j\<rparr>"

definition find_timer_job_type :: "string \<Rightarrow> job_table \<Rightarrow> runtime_job_type option" where
  "find_timer_job_type i t =
     (case find_row i t of
        None \<Rightarrow> None
      | Some r \<Rightarrow> map_option job_type_from_persisted (col_job_type (row_cols r)))"

definition find_timer_job_state :: "string \<Rightarrow> job_table \<Rightarrow> runtime_timer_job_state option" where
  "find_timer_job_state i t = map_option row_data (find_row i t)"

text \<open>The denormalised tenant and definition, from the execution and then from the instance.\<close>

definition denormalize_job :: "(string \<rightharpoonup> execution_view) \<Rightarrow> (string \<rightharpoonup> instance_view)
    \<Rightarrow> runtime_timer_job_state \<Rightarrow> runtime_timer_job_state" where
  "denormalize_job executions instances state =
     (if job_tenant_id state = None \<or> job_process_definition_id state = None then
        let s1 = (case executions (job_execution_id state) of
                    None \<Rightarrow> state
                  | Some ex \<Rightarrow>
                      state\<lparr>job_tenant_id := opt_or (job_tenant_id state) (execution_tenant_id ex),
                            job_process_definition_id :=
                              opt_or (job_process_definition_id state) (execution_process_definition_id ex),
                            job_element_name :=
                              (if job_element_name state = None
                                  \<and> execution_activity_id ex = Some (job_activity_id state)
                               then execution_activity_name ex else job_element_name state)\<rparr>)
        in if (job_tenant_id s1 = None \<or> job_process_definition_id s1 = None)
              \<and> job_process_instance_id s1 \<noteq> [] then
             (case instances (job_process_instance_id s1) of
                None \<Rightarrow> s1
              | Some pi \<Rightarrow>
                  s1\<lparr>job_tenant_id := opt_or (job_tenant_id s1) (instance_tenant_id pi),
                     job_process_definition_id :=
                       opt_or (job_process_definition_id s1) (Some (instance_process_definition_id pi))\<rparr>)
           else s1
      else state)"

definition insert_timer_job_state_with_type :: "(string \<rightharpoonup> execution_view) \<Rightarrow> (string \<rightharpoonup> instance_view)
    \<Rightarrow> string \<Rightarrow> int \<Rightarrow> runtime_timer_job_state \<Rightarrow> runtime_job_type option \<Rightarrow> job_table \<Rightarrow> job_table" where
  "insert_timer_job_state_with_type executions instances new_uuid now_ms state job_type t =
     (let s1 = (case find_timer_job_state (job_timer_job_id state) t of
                  None \<Rightarrow> state
                | Some existing \<Rightarrow> copy_job_query_metadata existing state);
          s2 = s1\<lparr>job_create_time := opt_or (job_create_time s1) (Some now_ms),
                  job_correlation_id := opt_or (job_correlation_id s1) (Some new_uuid),
                  job_handler_type := opt_or (job_handler_type s1) (Some (infer_handler_type s1))\<rparr>;
          s3 = denormalize_job executions instances s2
      in upsert_row \<lparr>row_id = job_timer_job_id s3,
           row_cols = columns_of s3 (map_option job_type_as_str job_type), row_data = s3\<rparr> t)"

definition insert_timer_job_state :: "(string \<rightharpoonup> execution_view) \<Rightarrow> (string \<rightharpoonup> instance_view)
    \<Rightarrow> string \<Rightarrow> int \<Rightarrow> runtime_timer_job_state \<Rightarrow> job_table \<Rightarrow> job_table" where
  "insert_timer_job_state executions instances new_uuid now_ms state t =
     insert_timer_job_state_with_type executions instances new_uuid now_ms state
       (find_timer_job_type (job_timer_job_id state) t) t"

definition delete_timer_job_state :: "string \<Rightarrow> job_table \<Rightarrow> job_table" where
  "delete_timer_job_state i t = filter (\<lambda>r. row_id r \<noteq> i) t"

definition delete_timer_job_states_by_execution_id :: "string \<Rightarrow> job_table \<Rightarrow> job_table" where
  "delete_timer_job_states_by_execution_id e t = filter (\<lambda>r. col_execution_id (row_cols r) \<noteq> Some e) t"

section \<open>Filters\<close>

definition nonempty_filter :: "string list option \<Rightarrow> bool" where
  "nonempty_filter f = (case f of None \<Rightarrow> False | Some l \<Rightarrow> l \<noteq> [])"

definition job_matches_tenant_filter :: "(string \<rightharpoonup> instance_view) \<Rightarrow> runtime_timer_job_state
    \<Rightarrow> string list option \<Rightarrow> bool" where
  "job_matches_tenant_filter instances job tenant_filter =
     (case tenant_filter of
        None \<Rightarrow> True
      | Some flt \<Rightarrow>
          if flt = [] then True
          else let process_tenant =
                     (case instances (job_process_instance_id job) of
                        None \<Rightarrow> []
                      | Some pi \<Rightarrow> (case instance_tenant_id pi of None \<Rightarrow> [] | Some x \<Rightarrow> x))
               in list_ex (\<lambda>x. x = process_tenant) flt)"

definition retain_tenant :: "(string \<rightharpoonup> instance_view) \<Rightarrow> string list option
    \<Rightarrow> runtime_timer_job_state list \<Rightarrow> runtime_timer_job_state list" where
  "retain_tenant instances tenant_filter js =
     (if nonempty_filter tenant_filter
      then filter (\<lambda>j. job_matches_tenant_filter instances j tenant_filter) js else js)"

definition job_in_categories :: "string list option \<Rightarrow> runtime_timer_job_state \<Rightarrow> bool" where
  "job_in_categories category_filter j =
     (case job_category j of
        None \<Rightarrow> False
      | Some cat \<Rightarrow> (case category_filter of None \<Rightarrow> False | Some f \<Rightarrow> cat \<in> set f))"

definition retain_category :: "string list option \<Rightarrow> runtime_timer_job_state list
    \<Rightarrow> runtime_timer_job_state list" where
  "retain_category category_filter js =
     (if nonempty_filter category_filter then filter (job_in_categories category_filter) js else js)"

definition by_due_then_id :: "runtime_timer_job_state \<Rightarrow> runtime_timer_job_state \<Rightarrow> bool" where
  "by_due_then_id a b =
     (opt_le (job_due_time a) (job_due_time b) \<and> job_due_time a \<noteq> job_due_time b
      \<or> job_due_time a = job_due_time b \<and> str_le (job_timer_job_id a) (job_timer_job_id b))"

definition by_id :: "runtime_timer_job_state \<Rightarrow> runtime_timer_job_state \<Rightarrow> bool" where
  "by_id a b = str_le (job_timer_job_id a) (job_timer_job_id b)"

definition due_filters :: "string list \<Rightarrow> int \<Rightarrow> job_columns \<Rightarrow> bool" where
  "due_filters job_states now c =
     ((case col_due_time c of None \<Rightarrow> False | Some d \<Rightarrow> d \<le> now)
      \<and> (case col_job_state c of None \<Rightarrow> False | Some s \<Rightarrow> s \<in> set job_states)
      \<and> (case col_retries c of None \<Rightarrow> False | Some n \<Rightarrow> 0 < n))"

section \<open>Acquisition\<close>

definition lock_job :: "string \<Rightarrow> int \<Rightarrow> int \<Rightarrow> runtime_timer_job_state \<Rightarrow> runtime_timer_job_state" where
  "lock_job owner now lock_duration_ms j =
     j\<lparr>job_lock_owner := Some owner, job_lock_time := Some now,
       job_lock_expiration_time := Some (saturating_add now lock_duration_ms)\<rparr>"

text \<open>One round of the optimistic write loop: lock the candidate where nobody has locked it since.\<close>

definition acquire_one :: "string \<Rightarrow> int \<Rightarrow> int \<Rightarrow> runtime_timer_job_state \<Rightarrow> job_table \<Rightarrow> nat \<times> job_table" where
  "acquire_one owner now lock_duration_ms j t =
     (let j' = lock_job owner now lock_duration_ms j
      in cas_update (job_timer_job_id j) j'
           (\<lambda>c. c\<lparr>col_lock_owner := Some owner, col_lock_time := Some now,
                 col_lock_expiration_time := job_lock_expiration_time j',
                 col_due_time := job_due_time j', col_job_state := job_job_state j'\<rparr>)
           (\<lambda>c. col_lock_owner c = job_lock_owner j
                \<and> (case job_lock_time j of None \<Rightarrow> True | Some old \<Rightarrow> col_lock_time c = Some old)) t)"

fun acquire_loop :: "string \<Rightarrow> int \<Rightarrow> int \<Rightarrow> runtime_timer_job_state list \<Rightarrow> job_table
    \<Rightarrow> runtime_timer_job_state list \<times> nat \<times> job_table" where
  "acquire_loop owner now dur [] t = ([], 0, t)"
| "acquire_loop owner now dur (j # js) t =
     (case acquire_one owner now dur j t of
        (affected, t1) \<Rightarrow>
          (case acquire_loop owner now dur js t1 of
             (acquired, n, t2) \<Rightarrow>
               if 0 < affected then (lock_job owner now dur j # acquired, n, t2)
               else (acquired, Suc n, t2)))"

definition acquisition_candidates :: "(string \<rightharpoonup> instance_view) \<Rightarrow> string list \<Rightarrow> int \<Rightarrow> nat
    \<Rightarrow> string list option \<Rightarrow> string list option \<Rightarrow> string list option \<Rightarrow> job_table
    \<Rightarrow> runtime_timer_job_state list" where
  "acquisition_candidates instances job_states now max_jobs selected_job_ids tenant_filter category_filter t =
     (let has_tenant_filter = nonempty_filter tenant_filter;
          has_category_filter = nonempty_filter category_filter;
          buffer_multiplier = (if has_tenant_filter \<or> has_category_filter then 4 else 2);
          buffer_size = max (saturating_mul max_jobs buffer_multiplier) max_jobs;
          query_limit = (if selected_job_ids = None then Some buffer_size else None);
          c0 = find_with_filters (due_filters job_states now) order_by_due_time query_limit t;
          c1 = (case selected_job_ids of
                  None \<Rightarrow> c0
                | Some ids \<Rightarrow> filter (\<lambda>j. job_timer_job_id j \<in> set ids) c0);
          c2 = filter (\<lambda>j. job_lock_owner j = None) c1;
          c3 = retain_tenant instances tenant_filter c2;
          c4 = retain_category category_filter c3
      in take max_jobs (sort_rows by_due_then_id c4))"

datatype acquire_error = SelectedButUpdated nat nat

definition acquire_due_timer_jobs_by_states :: "(string \<rightharpoonup> instance_view) \<Rightarrow> string list \<Rightarrow> string \<Rightarrow> int
    \<Rightarrow> int \<Rightarrow> nat \<Rightarrow> string list option \<Rightarrow> string list option \<Rightarrow> string list option
    \<Rightarrow> acquisition_write_policy \<Rightarrow> job_table
    \<Rightarrow> (acquire_error + (runtime_timer_job_state list \<times> nat \<times> nat)) \<times> job_table" where
  "acquire_due_timer_jobs_by_states instances job_states owner now dur max_jobs selected_job_ids
     tenant_filter category_filter write_policy t =
     (let candidates = acquisition_candidates instances job_states now max_jobs selected_job_ids
                         tenant_filter category_filter t
      in case write_policy of
           SerializedByGlobalLock \<Rightarrow>
             (let locked = map (lock_job owner now dur) candidates;
                  (affected, t') = bulk_update locked
                    (\<lambda>c. c\<lparr>col_lock_owner := Some owner, col_lock_time := Some now,
                          col_lock_expiration_time := Some (saturating_add now dur)\<rparr>) t
              in if affected \<noteq> length locked then (Inl (SelectedButUpdated (length locked) affected), t')
                 else (Inr (locked, 0, 0), t'))
         | Optimistic \<Rightarrow>
             (case acquire_loop owner now dur candidates t of
                (acquired, n, t') \<Rightarrow> (Inr (acquired, 0, n), t')))"

definition acquire_due_scheduled_timer_jobs_filtered where
  "acquire_due_scheduled_timer_jobs_filtered instances owner now dur max_jobs tenant_filter category_filter t =
     acquire_due_timer_jobs_by_states instances [''timer''] owner now dur max_jobs None
       tenant_filter category_filter Optimistic t"

definition acquire_selected_scheduled_timer_jobs_filtered where
  "acquire_selected_scheduled_timer_jobs_filtered instances owner now dur ids tenant_filter category_filter t =
     acquire_due_timer_jobs_by_states instances [''timer''] owner now dur (length ids) (Some ids)
       tenant_filter category_filter Optimistic t"

definition acquire_selected_scheduled_timer_jobs_global_filtered where
  "acquire_selected_scheduled_timer_jobs_global_filtered instances owner now dur ids tenant_filter category_filter t =
     acquire_due_timer_jobs_by_states instances [''timer''] owner now dur (length ids) (Some ids)
       tenant_filter category_filter SerializedByGlobalLock t"

definition acquire_due_async_timer_jobs_filtered where
  "acquire_due_async_timer_jobs_filtered instances owner now dur max_jobs tenant_filter category_filter t =
     acquire_due_timer_jobs_by_states instances [''executable'', ''async'', ''async-after''] owner now dur max_jobs
       None tenant_filter category_filter Optimistic t"

definition acquire_due_async_timer_jobs_global_filtered where
  "acquire_due_async_timer_jobs_global_filtered instances owner now dur max_jobs tenant_filter category_filter t =
     acquire_due_timer_jobs_by_states instances [''executable'', ''async'', ''async-after''] owner now dur max_jobs
       None tenant_filter category_filter SerializedByGlobalLock t"

definition acquire_due_history_jobs where
  "acquire_due_history_jobs instances owner now dur max_jobs t =
     acquire_due_timer_jobs_by_states instances [''history''] owner now dur max_jobs None None None Optimistic t"

definition try_acquire_due_timer_jobs_filtered :: "(string \<rightharpoonup> instance_view) \<Rightarrow> string \<Rightarrow> int \<Rightarrow> int
    \<Rightarrow> string list option \<Rightarrow> string list option \<Rightarrow> job_table
    \<Rightarrow> (runtime_timer_job_state list \<times> nat \<times> nat) \<times> job_table" where
  "try_acquire_due_timer_jobs_filtered instances owner now lock_timeout_ms tenant_filter category_filter t =
     (let max_jobs = 100;
          has_category_filter = nonempty_filter category_filter;
          buffer_size = (if has_category_filter then max_jobs * 12 else max_jobs * 4);
          c0 = find_with_filters (due_filters [''executable'', ''timer'', ''async'', ''async-after''] now)
                 order_by_due_time (Some buffer_size) t;
          c1 = filter (\<lambda>j. job_lock_owner j = None) c0;
          c2 = retain_tenant instances tenant_filter c1;
          c3 = retain_category category_filter c2;
          candidates = take max_jobs (sort_rows by_due_then_id c3)
      in case acquire_loop owner now lock_timeout_ms candidates t of
           (acquired, n, t') \<Rightarrow> ((acquired, 0, n), t'))"

definition find_due_scheduled_timer_job_candidates_filtered :: "(string \<rightharpoonup> instance_view) \<Rightarrow> int
    \<Rightarrow> string list option \<Rightarrow> string list option \<Rightarrow> job_table \<Rightarrow> runtime_timer_job_state list" where
  "find_due_scheduled_timer_job_candidates_filtered instances now tenant_filter category_filter t =
     (let c0 = find_with_filters (due_filters [''timer''] now) order_by_due_time None t;
          c1 = filter (\<lambda>j. job_lock_owner j = None) c0;
          c2 = retain_tenant instances tenant_filter c1;
          c3 = retain_category category_filter c2
      in sort_rows by_due_then_id c3)"

section \<open>Resetting and releasing locks\<close>

definition unlock_job :: "runtime_timer_job_state \<Rightarrow> runtime_timer_job_state" where
  "unlock_job j = j\<lparr>job_lock_owner := None, job_lock_time := None, job_lock_expiration_time := None\<rparr>"

definition unlock_columns :: "job_columns \<Rightarrow> job_columns" where
  "unlock_columns c = c\<lparr>col_lock_owner := None, col_lock_time := None, col_lock_expiration_time := None\<rparr>"

definition find_expired_job_lock_candidates :: "(string \<rightharpoonup> instance_view) \<Rightarrow> int \<Rightarrow> expired_job_class \<Rightarrow> nat
    \<Rightarrow> string list option \<Rightarrow> string list option \<Rightarrow> job_table \<Rightarrow> runtime_timer_job_state list" where
  "find_expired_job_lock_candidates instances now job_class page_size tenant_filter category_filter t =
     (let apply_tenant = nonempty_filter tenant_filter;
          apply_category = (job_class \<in> {ExpiredAsync, ExpiredTimer} \<and> nonempty_filter category_filter);
          select_limit = (if apply_tenant \<or> apply_category
                          then max (saturating_mul page_size 8) page_size else page_size);
          c0 = find_with_filters
                 (\<lambda>c. (case col_lock_expiration_time c of None \<Rightarrow> False | Some e \<Rightarrow> e < now)
                      \<and> (case col_job_state c of None \<Rightarrow> False | Some s \<Rightarrow> s \<in> set (class_job_states job_class)))
                 order_by_id (Some select_limit) t;
          c1 = (if apply_tenant then filter (\<lambda>j. job_matches_tenant_filter instances j tenant_filter) c0 else c0);
          c2 = (if apply_category then filter (job_in_categories category_filter) c1 else c1)
      in take page_size (sort_rows by_id c2))"

definition reset_one :: "runtime_timer_job_state \<Rightarrow> job_table \<Rightarrow> nat \<times> job_table" where
  "reset_one j t =
     cas_update (job_timer_job_id j) (unlock_job j) unlock_columns
       (\<lambda>c. col_lock_owner c = job_lock_owner j \<and> col_lock_time c = job_lock_time j
            \<and> col_lock_expiration_time c = job_lock_expiration_time j \<and> col_job_state c = job_job_state j) t"

fun reset_loop :: "runtime_timer_job_state list \<Rightarrow> reset_outcome \<Rightarrow> job_table \<Rightarrow> reset_outcome \<times> job_table" where
  "reset_loop [] outcome t = (outcome, t)"
| "reset_loop (j # js) outcome t =
     (case reset_one j t of
        (affected, t') \<Rightarrow>
          reset_loop js
            (if 0 < affected then outcome\<lparr>reset_count := reset_count outcome + 1\<rparr>
             else outcome\<lparr>conflicts := conflicts outcome + 1\<rparr>) t')"

definition compare_and_reset_expired_job_locks :: "runtime_timer_job_state list \<Rightarrow> job_table
    \<Rightarrow> reset_outcome \<times> job_table" where
  "compare_and_reset_expired_job_locks candidates t =
     reset_loop candidates \<lparr>scanned = length candidates, reset_count = 0, conflicts = 0\<rparr> t"

definition reset_expired_job_locks_batch :: "(string \<rightharpoonup> instance_view) \<Rightarrow> int \<Rightarrow> expired_job_class \<Rightarrow> nat
    \<Rightarrow> string list option \<Rightarrow> string list option \<Rightarrow> job_table \<Rightarrow> reset_outcome \<times> job_table" where
  "reset_expired_job_locks_batch instances now job_class page_size tenant_filter category_filter t =
     compare_and_reset_expired_job_locks
       (find_expired_job_lock_candidates instances now job_class page_size tenant_filter category_filter t) t"

definition reset_expired_timer_job_locks :: "(string \<rightharpoonup> instance_view) \<Rightarrow> int \<Rightarrow> nat \<Rightarrow> job_table
    \<Rightarrow> nat \<times> job_table" where
  "reset_expired_timer_job_locks instances now page_size t =
     fold (\<lambda>job_class (reset_total, t).
             case reset_expired_job_locks_batch instances now job_class page_size None None t of
               (outcome, t') \<Rightarrow> (reset_total + reset_count outcome, t'))
       expired_job_class_ALL (0, t)"

definition release_timer_job_lock :: "string \<Rightarrow> string \<Rightarrow> job_table \<Rightarrow> bool \<times> job_table" where
  "release_timer_job_lock i expected_owner t =
     (case find_timer_job_state i t of
        None \<Rightarrow> (False, t)
      | Some job \<Rightarrow>
          if job_lock_owner job \<noteq> Some expected_owner then (False, t)
          else case cas_update i (unlock_job job) unlock_columns
                      (\<lambda>c. col_lock_owner c = Some expected_owner) t of
                 (affected, t') \<Rightarrow> (0 < affected, t'))"

fun unlock_loop :: "string \<Rightarrow> runtime_timer_job_state list \<Rightarrow> job_table \<Rightarrow> nat \<times> job_table" where
  "unlock_loop expected_owner [] t = (0, t)"
| "unlock_loop expected_owner (j # js) t =
     (case cas_update (job_timer_job_id j) (unlock_job j) unlock_columns
             (\<lambda>c. col_lock_owner c = Some expected_owner \<and> col_lock_time c = job_lock_time j
                  \<and> col_lock_expiration_time c = job_lock_expiration_time j
                  \<and> col_job_state c = job_job_state j) t of
        (affected, t1) \<Rightarrow>
          (case unlock_loop expected_owner js t1 of
             (n, t2) \<Rightarrow> (if 0 < affected then Suc n else n, t2)))"

definition unlock_owned_executable_jobs :: "(string \<rightharpoonup> instance_view) \<Rightarrow> string \<Rightarrow> string list option
    \<Rightarrow> job_table \<Rightarrow> nat \<times> job_table" where
  "unlock_owned_executable_jobs instances expected_owner tenant_filter t =
     (let c0 = find_with_filters
                 (\<lambda>c. col_lock_owner c = Some expected_owner
                      \<and> (case col_job_state c of None \<Rightarrow> False
                         | Some s \<Rightarrow> s \<in> {''executable'', ''async'', ''async-after''}))
                 order_by_id None t;
          c1 = (if nonempty_filter tenant_filter
                then filter (\<lambda>j. case instances (job_process_instance_id j) of
                                   None \<Rightarrow> False
                                 | Some pi \<Rightarrow>
                                     (case instance_tenant_id pi of None \<Rightarrow> [] | Some x \<Rightarrow> x)
                                       \<in> set (case tenant_filter of None \<Rightarrow> [] | Some f \<Rightarrow> f)) c0
                else c0)
      in unlock_loop expected_owner (sort_rows by_id c1) t)"

section \<open>External workers\<close>

definition is_process_definition_schedule_timer :: "runtime_timer_job_state \<Rightarrow> bool" where
  "is_process_definition_schedule_timer j =
     (job_activity_id j \<in> {''process-definition-suspend'', ''process-definition-activate''})"

definition external_worker_parent_allows_visibility :: "(string \<rightharpoonup> instance_view)
    \<Rightarrow> runtime_timer_job_state \<Rightarrow> bool" where
  "external_worker_parent_allows_visibility instances j =
     (if job_process_instance_id j = [] then True
      else \<not> (case instances (job_process_instance_id j) of None \<Rightarrow> False | Some pi \<Rightarrow> instance_is_suspended pi))"

definition is_active_external_worker_job :: "(string \<rightharpoonup> instance_view) \<Rightarrow> runtime_timer_job_state
    \<Rightarrow> job_table \<Rightarrow> bool" where
  "is_active_external_worker_job instances j t =
     (if find_timer_job_type (job_timer_job_id j) t \<noteq> Some JobExternalWorker then False
      else if job_job_state j \<noteq> Some ''timer'' then False
      else external_worker_parent_allows_visibility instances j)"

definition is_fetchable_external_worker_candidate :: "(string \<rightharpoonup> instance_view) \<Rightarrow> runtime_timer_job_state
    \<Rightarrow> job_table \<Rightarrow> bool" where
  "is_fetchable_external_worker_candidate instances j t =
     (if job_job_state j \<notin> {None, Some ''timer''} then False
      else if is_process_definition_schedule_timer j then False
      else if \<not> external_worker_parent_allows_visibility instances j then False
      else case find_timer_job_type (job_timer_job_id j) t of
             Some JobExternalWorker \<Rightarrow> True
           | None \<Rightarrow> True
           | Some _ \<Rightarrow> False)"

definition external_candidate :: "(string \<rightharpoonup> instance_view) \<Rightarrow> int \<Rightarrow> string option \<Rightarrow> job_table
    \<Rightarrow> runtime_timer_job_state \<Rightarrow> bool" where
  "external_candidate instances now topic t j =
     ((case job_due_time j of None \<Rightarrow> False | Some d \<Rightarrow> d \<le> now)
      \<and> (case job_retries j of None \<Rightarrow> False | Some n \<Rightarrow> 0 < n)
      \<and> (job_lock_owner j = None
         \<or> (case job_lock_expiration_time j of None \<Rightarrow> False | Some e \<Rightarrow> e \<le> now))
      \<and> is_fetchable_external_worker_candidate instances j t
      \<and> (case topic of None \<Rightarrow> True | Some tp \<Rightarrow> job_job_handler_configuration j = Some tp))"

definition lock_external :: "string \<Rightarrow> int \<Rightarrow> int \<Rightarrow> runtime_timer_job_state \<Rightarrow> runtime_timer_job_state" where
  "lock_external owner now expires j =
     j\<lparr>job_lock_owner := Some owner, job_lock_time := Some now,
       job_lock_expiration_time := Some expires,
       job_retries := opt_or (job_retries j) (Some 1)\<rparr>"

definition fetch_one :: "string \<Rightarrow> int \<Rightarrow> int \<Rightarrow> runtime_timer_job_state \<Rightarrow> job_table \<Rightarrow> nat \<times> job_table" where
  "fetch_one owner now expires j t =
     (let j' = lock_external owner now expires j;
          set_extras = (\<lambda>c. c\<lparr>col_lock_owner := Some owner, col_lock_time := Some now,
            col_lock_expiration_time := job_lock_expiration_time j', col_retries := job_retries j',
            col_error_message := job_error_message j', col_error_details := job_error_details j',
            col_due_time := job_due_time j', col_job_state := job_job_state j',
            col_job_type := Some (job_type_as_str JobExternalWorker)\<rparr>)
      in case (job_lock_owner j, job_lock_expiration_time j) of
           (Some old_owner, Some old_exp) \<Rightarrow>
             cas_update (job_timer_job_id j) j' set_extras
               (\<lambda>c. col_lock_owner c = Some old_owner \<and> col_lock_expiration_time c = Some old_exp) t
         | _ \<Rightarrow> cas_update (job_timer_job_id j) j' set_extras (\<lambda>c. col_lock_owner c = None) t)"

text \<open>\<open>now + lock_duration_ms\<close> is computed for each candidate before its update; \<^const>\<open>None\<close> is the panic on overflow.\<close>

fun fetch_loop :: "string \<Rightarrow> int \<Rightarrow> int \<Rightarrow> runtime_timer_job_state list \<Rightarrow> job_table
    \<Rightarrow> (runtime_timer_job_state list \<times> job_table) option" where
  "fetch_loop owner now dur [] t = Some ([], t)"
| "fetch_loop owner now dur (j # js) t =
     (case checked_add now dur of
        None \<Rightarrow> None
      | Some expires \<Rightarrow>
          (case fetch_one owner now expires j t of
             (affected, t1) \<Rightarrow>
               (case fetch_loop owner now dur js t1 of
                  None \<Rightarrow> None
                | Some (locked, t2) \<Rightarrow>
                    Some (if 0 < affected then lock_external owner now expires j # locked else locked, t2))))"

definition fetch_and_lock_external_worker_timer_jobs :: "(string \<rightharpoonup> instance_view) \<Rightarrow> string \<Rightarrow> int \<Rightarrow> nat
    \<Rightarrow> int \<Rightarrow> string option \<Rightarrow> job_table \<Rightarrow> (runtime_timer_job_state list \<times> job_table) option" where
  "fetch_and_lock_external_worker_timer_jobs instances owner now max_jobs dur topic t =
     (let candidates = filter (external_candidate instances now topic t) (map row_data t)
      in fetch_loop owner now dur (take max_jobs (sort_rows by_due_then_id candidates)) t)"

definition replace_timer_job_state_if_lock_matches :: "runtime_timer_job_state \<Rightarrow> string \<Rightarrow> int option
    \<Rightarrow> job_table \<Rightarrow> bool \<times> job_table" where
  "replace_timer_job_state_if_lock_matches state expected_owner expected_expiration t =
     (case cas_update (job_timer_job_id state) state
             (\<lambda>c. c\<lparr>col_process_instance_id := Some (job_process_instance_id state),
                   col_execution_id := Some (job_execution_id state),
                   col_lock_owner := job_lock_owner state, col_lock_time := job_lock_time state,
                   col_lock_expiration_time := job_lock_expiration_time state,
                   col_retries := job_retries state, col_error_message := job_error_message state,
                   col_error_details := job_error_details state, col_due_time := job_due_time state,
                   col_job_state := job_job_state state\<rparr>)
             (\<lambda>c. col_lock_owner c = Some expected_owner
                  \<and> col_lock_expiration_time c = expected_expiration) t of
        (affected, t') \<Rightarrow> (0 < affected, t'))"

definition replace_timer_job_state_if_locked :: "runtime_timer_job_state \<Rightarrow> string \<Rightarrow> int \<Rightarrow> job_table
    \<Rightarrow> bool \<times> job_table" where
  "replace_timer_job_state_if_locked state expected_owner expected_expiration t =
     replace_timer_job_state_if_lock_matches state expected_owner (Some expected_expiration) t"

section \<open>The reset cycle\<close>

record reset_expired_jobs_config =
  reset_interval_ms :: nat
  page_size :: nat
  job_classes :: "expired_job_class list"
  tenant_ids :: "string list"
  enabled_job_categories :: "string list"

definition default_reset_config :: reset_expired_jobs_config where
  "default_reset_config =
     \<lparr>reset_interval_ms = 60000, page_size = 3, job_classes = expired_job_class_ALL,
      tenant_ids = [], enabled_job_categories = []\<rparr>"

text \<open>
  \<open>reset_cycle_with\<close>: drain each class until a page scans nothing. The batch operation is an
  argument, as in the source; it maps the table to its outcome and the new table.
\<close>

partial_function (option) drain_class :: "('s \<Rightarrow> reset_outcome \<times> 's) \<Rightarrow> nat \<Rightarrow> 's \<Rightarrow> (nat \<times> 's) option" where
  "drain_class reset_batch reset_total t =
     (if scanned (fst (reset_batch t)) = 0
      then Some (reset_total + reset_count (fst (reset_batch t)), snd (reset_batch t))
      else drain_class reset_batch (reset_total + reset_count (fst (reset_batch t))) (snd (reset_batch t)))"

fun drain_classes :: "(expired_job_class \<Rightarrow> nat \<Rightarrow> 's \<Rightarrow> reset_outcome \<times> 's) \<Rightarrow> nat
    \<Rightarrow> expired_job_class list \<Rightarrow> nat \<Rightarrow> 's \<Rightarrow> (nat \<times> 's) option" where
  "drain_classes reset_batch ps [] reset_total t = Some (reset_total, t)"
| "drain_classes reset_batch ps (c # cs) reset_total t =
     (case drain_class (reset_batch c ps) reset_total t of
        None \<Rightarrow> None
      | Some (reset_total', t') \<Rightarrow> drain_classes reset_batch ps cs reset_total' t')"

definition reset_cycle_with :: "reset_expired_jobs_config
    \<Rightarrow> (expired_job_class \<Rightarrow> nat \<Rightarrow> 's \<Rightarrow> reset_outcome \<times> 's) \<Rightarrow> 's \<Rightarrow> (nat \<times> 's) option" where
  "reset_cycle_with config reset_batch t = drain_classes reset_batch (page_size config) (job_classes config) 0 t"

end
