(* ===== verification/Lease.thy ===== *)
theory Lease
  imports Prelude
begin

text \<open>
  The contract of a lease table, the interface shared by the job table, the process-instance
  locks and the named engine locks: an attempt to take a lease succeeds only when nobody holds
  it, makes the taker its holder, and changes nothing else. The client side is proved once:
  in any interleaving of attempts no lease is granted twice.
\<close>

text \<open>
  \<open>run_attempts grab qs t\<close> performs the attempts \<open>qs\<close> in order and collects the granted ones.
\<close>

fun run_attempts :: "('q \<Rightarrow> 't \<Rightarrow> bool \<times> 't) \<Rightarrow> 'q list \<Rightarrow> 't \<Rightarrow> 'q list \<times> 't" where
  "run_attempts grab [] t = ([], t)"
| "run_attempts grab (q # qs) t =
     (case grab q t of
        (ok, t1) \<Rightarrow> (case run_attempts grab qs t1 of
           (granted, t2) \<Rightarrow> (if ok then q # granted else granted, t2)))"

locale lease_table =
  fixes inv :: "'t \<Rightarrow> bool"
    and holder :: "'t \<Rightarrow> string \<Rightarrow> string option"
    and valid :: "'q \<Rightarrow> bool"
    and key :: "'q \<Rightarrow> string"
    and taker :: "'q \<Rightarrow> string"
    and grab :: "'q \<Rightarrow> 't \<Rightarrow> bool \<times> 't"
  assumes grab_inv: "inv t \<Longrightarrow> valid q \<Longrightarrow> inv (snd (grab q t))"
    and grab_free: "inv t \<Longrightarrow> valid q \<Longrightarrow> fst (grab q t) \<Longrightarrow> holder t (key q) = None"
    and grab_holds: "inv t \<Longrightarrow> valid q \<Longrightarrow> fst (grab q t) \<Longrightarrow> holder (snd (grab q t)) (key q) = Some (taker q)"
    and grab_frame: "inv t \<Longrightarrow> valid q \<Longrightarrow> \<not> (fst (grab q t) \<and> i = key q)
      \<Longrightarrow> holder (snd (grab q t)) i = holder t i"
begin

lemma held_stays_held:
  assumes "inv t" "\<forall>q \<in> set qs. valid q" "holder t i = Some w"
  shows "holder (snd (run_attempts grab qs t)) i = Some w
    \<and> (\<forall>q \<in> set (fst (run_attempts grab qs t)). key q \<noteq> i)"
  using assms
proof (induction qs arbitrary: t)
  case (Cons q qs)
  obtain ok t1 where g: "grab q t = (ok, t1)" by fastforce
  have ne: "\<not> (ok \<and> i = key q)" using grab_free [of t q] Cons.prems g by auto
  with Cons.prems g have "inv t1" "holder t1 i = Some w"
    using grab_inv [of t q] grab_frame [of t q i] by auto
  with Cons.IH [of t1] Cons.prems ne g show ?case by (auto split: prod.splits)
qed simp

lemma granted_exclusive:
  assumes "inv t" "\<forall>q \<in> set qs. valid q"
  shows "distinct (map key (fst (run_attempts grab qs t)))
    \<and> (\<forall>q \<in> set (fst (run_attempts grab qs t)).
         holder t (key q) = None \<and> holder (snd (run_attempts grab qs t)) (key q) = Some (taker q))"
  using assms
proof (induction qs arbitrary: t)
  case (Cons q qs)
  obtain ok t1 where g: "grab q t = (ok, t1)" by fastforce
  from Cons.prems g have inv1: "inv t1" using grab_inv [of t q] by auto
  note IH = Cons.IH [OF inv1]
  show ?case
  proof (cases ok)
    case False
    with Cons.prems g have "holder t1 i = holder t i" for i using grab_frame [of t q i] by auto
    with IH Cons.prems g False show ?thesis by (auto split: prod.splits)
  next
    case True
    with Cons.prems g have free: "holder t (key q) = None" and held: "holder t1 (key q) = Some (taker q)"
      using grab_free [of t q] grab_holds [of t q] by auto
    have same: "holder t1 i = holder t i" if "i \<noteq> key q" for i
      using grab_frame [of t q i] Cons.prems g that by auto
    from held_stays_held [OF inv1 _ held, of qs] Cons.prems
    have "holder (snd (run_attempts grab qs t1)) (key q) = Some (taker q)"
      "\<forall>q' \<in> set (fst (run_attempts grab qs t1)). key q' \<noteq> key q" by auto
    with IH Cons.prems g True free same show ?thesis by (fastforce split: prod.splits)
  qed
qed simp

end

end
