(* ===== verification/Job_Locks.thy ===== *)
theory Job_Locks
  imports Job_Store Lease "HOL-Library.Multiset"
begin

text \<open>
  The job lock protocol over the job table of Job_Store: acquisition under both write policies, reset
  of expired leases, release, external-worker fetch, and replacement guarded by the lock.  A table is
  well formed (table_ok) when its ids are unique and every row's denormalised columns agree with its
  JSON payload; all lemmas below are about such tables.  On them every multi-row operation equals a
  single pass of update_rows over the rows it selects (acquire_exact, reset_batch_exact, fetch_exact,
  release_exact), which is what the properties rest on.  The compare-and-set acquisition of a single
  job interprets the locale lease_table.
\<close>

section \<open>Well-formed tables and the one-pass specification\<close>

definition row_ok :: "job_row \<Rightarrow> bool" where
  "row_ok r \<longleftrightarrow> row_id r = job_timer_job_id (row_data r)
     \<and> row_cols r = columns_of (row_data r) (col_job_type (row_cols r))"

definition table_ok :: "job_table \<Rightarrow> bool" where
  "table_ok t \<longleftrightarrow> distinct (map row_id t) \<and> (\<forall>r \<in> set t. row_ok r)"

definition update_rows :: "(job_row \<Rightarrow> job_row) \<Rightarrow> string set \<Rightarrow> job_table \<Rightarrow> job_table" where
  "update_rows f ids t = map (\<lambda>r. if row_id r \<in> ids then f r else r) t"

definition lock_row :: "string \<Rightarrow> int \<Rightarrow> int \<Rightarrow> job_row \<Rightarrow> job_row" where
  "lock_row owner now dur r =
     r\<lparr>row_data := lock_job owner now dur (row_data r),
       row_cols := (row_cols r)\<lparr>col_lock_owner := Some owner, col_lock_time := Some now,
         col_lock_expiration_time := Some (saturating_add now dur)\<rparr>\<rparr>"

definition unlock_row :: "job_row \<Rightarrow> job_row" where
  "unlock_row r = r\<lparr>row_data := unlock_job (row_data r), row_cols := unlock_columns (row_cols r)\<rparr>"

text \<open>The payloads of a set of rows of the table.\<close>

definition rows_of :: "job_table \<Rightarrow> runtime_timer_job_state list \<Rightarrow> bool" where
  "rows_of t js \<longleftrightarrow> distinct (map job_timer_job_id js) \<and> set js \<subseteq> row_data ` set t"

definition acquirable :: "(string \<rightharpoonup> instance_view) \<Rightarrow> string list \<Rightarrow> int \<Rightarrow> string list option
    \<Rightarrow> string list option \<Rightarrow> string list option \<Rightarrow> runtime_timer_job_state \<Rightarrow> bool" where
  "acquirable instances job_states now selected tenant_filter category_filter j \<longleftrightarrow>
     (\<exists>d. job_due_time j = Some d \<and> d \<le> now)
     \<and> (\<exists>s \<in> set job_states. job_job_state j = Some s)
     \<and> (\<exists>n > 0. job_retries j = Some n)
     \<and> job_lock_owner j = None
     \<and> (\<forall>ids. selected = Some ids \<longrightarrow> job_timer_job_id j \<in> set ids)
     \<and> job_matches_tenant_filter instances j tenant_filter
     \<and> (nonempty_filter category_filter \<longrightarrow> job_in_categories category_filter j)"

definition lease_expired :: "int \<Rightarrow> expired_job_class \<Rightarrow> job_columns \<Rightarrow> bool" where
  "lease_expired now cl c \<longleftrightarrow>
     (case col_lock_expiration_time c of None \<Rightarrow> False | Some e \<Rightarrow> e < now)
     \<and> (case col_job_state c of None \<Rightarrow> False | Some s \<Rightarrow> s \<in> set (class_job_states cl))"

definition expired_ids :: "int \<Rightarrow> expired_job_class \<Rightarrow> job_table \<Rightarrow> string set" where
  "expired_ids now cl t = row_id ` {r \<in> set t. lease_expired now cl (row_cols r)}"

definition expired_in :: "int \<Rightarrow> expired_job_class list \<Rightarrow> job_table \<Rightarrow> string set" where
  "expired_in now cls t = (\<Union>cl \<in> set cls. expired_ids now cl t)"

text \<open>The holder of a job is the owner in its lock column.\<close>

definition job_holder :: "job_table \<Rightarrow> string \<Rightarrow> string option" where
  "job_holder t i = (case find_row i t of None \<Rightarrow> None | Some r \<Rightarrow> col_lock_owner (row_cols r))"

text \<open>An attempt: the worker, its clock, the lease duration and the payload it read.\<close>

type_synonym acquire_attempt = "string \<times> int \<times> int \<times> runtime_timer_job_state"

definition attempt_acquire :: "acquire_attempt \<Rightarrow> job_table \<Rightarrow> bool \<times> job_table" where
  "attempt_acquire = (\<lambda>(owner, now, dur, j) t. case acquire_one owner now dur j t of (n, t') \<Rightarrow> (0 < n, t'))"

definition external_row :: "string \<Rightarrow> int \<Rightarrow> int \<Rightarrow> job_row \<Rightarrow> job_row" where
  "external_row owner now expires r =
     r\<lparr>row_data := lock_external owner now expires (row_data r),
       row_cols := (row_cols r)\<lparr>col_lock_owner := Some owner, col_lock_time := Some now,
         col_lock_expiration_time := Some expires,
         col_retries := opt_or (col_retries (row_cols r)) (Some 1),
         col_job_type := Some ''externalWorker''\<rparr>\<rparr>"

definition example_job :: "string \<Rightarrow> string option \<Rightarrow> int \<Rightarrow> string \<Rightarrow> runtime_timer_job_state" where
  "example_job i lock_owner due tenant_instance =
     default_job\<lparr>job_timer_job_id := i, job_process_instance_id := tenant_instance,
       job_job_state := Some ''timer'', job_due_time := Some due,
       job_lock_owner := lock_owner, job_lock_time := map_option (\<lambda>_. 0) lock_owner,
       job_lock_expiration_time := map_option (\<lambda>_. 5) lock_owner, job_retries := Some 3\<rparr>"

definition example_row :: "runtime_timer_job_state \<Rightarrow> job_row" where
  "example_row j = \<lparr>row_id = job_timer_job_id j, row_cols = columns_of j (Some ''timer''), row_data = j\<rparr>"

text \<open>Two running jobs and one that waits.\<close>

definition busy_table :: job_table where
  "busy_table = map example_row
     [example_job ''a'' (Some ''w'') 1 ''p'', example_job ''b'' (Some ''w'') 1 ''p'', example_job ''c'' None 2 ''p'']"

definition free_table :: job_table where
  "free_table = map example_row [example_job ''a'' None 1 ''p'', example_job ''b'' (Some ''w'') 1 ''p'']"

definition tenant_instances :: "string \<rightharpoonup> instance_view" where
  "tenant_instances =
     [''p'' \<mapsto> \<lparr>instance_tenant_id = Some ''first'', instance_process_definition_id = [], instance_is_suspended = False\<rparr>,
      ''q'' \<mapsto> \<lparr>instance_tenant_id = Some ''second'', instance_process_definition_id = [], instance_is_suspended = False\<rparr>]"

definition tenant_table :: job_table where
  "tenant_table = map (\<lambda>i. example_row (example_job i (Some ''w'') 1 ''p''))
       [''a'', ''b'', ''c'', ''d'', ''e'', ''f'', ''g'', ''h'']
     @ [example_row (example_job ''i'' (Some ''w'') 1 ''q'')]"

section \<open>Lemmas\<close>

lemma mset_insert_by: "mset (insert_by le x xs) = add_mset x (mset xs)"
  by (induction xs) auto

lemma mset_sort_rows: "mset (sort_rows le xs) = mset xs"
  unfolding sort_rows_def by (induction xs) (auto simp: mset_insert_by)

lemma set_sort_rows [simp]: "set (sort_rows le xs) = set xs"
  by (rule mset_eq_setD [OF mset_sort_rows])

lemma length_sort_rows [simp]: "length (sort_rows le xs) = length xs"
  by (rule mset_eq_length [OF mset_sort_rows])

lemma distinct_map_sort_rows [simp]: "distinct (map f (sort_rows le xs)) \<longleftrightarrow> distinct (map f xs)"
  by (rule mset_eq_imp_distinct_iff) (simp add: mset_map mset_sort_rows)

lemma cas_update_miss:
  assumes "\<And>r. r \<in> set t \<Longrightarrow> row_id r = i \<Longrightarrow> \<not> P (row_cols r)"
  shows "cas_update i d f P t = (0, t)"
proof -
  have "map (\<lambda>r. if row_id r = i \<and> P (row_cols r) then g r else r) t = t" for g
    by (rule map_idI) (use assms in auto)
  then show ?thesis using assms by (auto simp: cas_update_def filter_empty_conv)
qed

lemma length_filter_unique:
  assumes "distinct (map row_id t)" "r \<in> set t"
  shows "length (filter (\<lambda>x. row_id x = row_id r) t) = 1"
  using assms by (induction t) (auto simp: filter_empty_conv intro: rev_image_eqI)

lemma same_row: "distinct (map row_id t) \<Longrightarrow> r \<in> set t \<Longrightarrow> x \<in> set t \<Longrightarrow> row_id x = row_id r \<Longrightarrow> x = r"
  by (auto simp: distinct_map dest: inj_onD)

lemma cas_update_hit:
  assumes t: "distinct (map row_id t)" and r: "r \<in> set t" "row_id r = i" "P (row_cols r)"
  shows "cas_update i d f P t
    = (1, update_rows (\<lambda>x. x\<lparr>row_data := d, row_cols := f (row_cols x)\<rparr>) {i} t)"
proof -
  have eq: "(row_id x = i \<and> P (row_cols x)) = (row_id x = i)" if "x \<in> set t" for x
    using same_row [OF t r(1) that] r by auto
  have "filter (\<lambda>x. row_id x = i \<and> P (row_cols x)) t = filter (\<lambda>x. row_id x = i) t"
    using eq by (rule filter_cong [OF refl])
  moreover have "map (\<lambda>x. if row_id x = i \<and> P (row_cols x) then g x else x) t
      = map (\<lambda>x. if row_id x = i then g x else x) t" for g
    using eq by (intro map_cong refl) simp
  ultimately show ?thesis
    using length_filter_unique [OF t r(1)] r(2)
    unfolding cas_update_def update_rows_def Let_def by (simp only: singleton_iff)
qed

lemma columns_of_sel:
  assumes "c = columns_of j ty"
  shows "col_lock_owner c = job_lock_owner j" "col_lock_time c = job_lock_time j"
    "col_lock_expiration_time c = job_lock_expiration_time j" "col_due_time c = job_due_time j"
    "col_job_state c = job_job_state j" "col_retries c = job_retries j"
    "col_error_message c = job_error_message j" "col_error_details c = job_error_details j"
  using assms by (simp_all add: columns_of_def)

lemma row_okD:
  assumes "row_ok r"
  shows "row_id r = job_timer_job_id (row_data r)"
    "col_lock_owner (row_cols r) = job_lock_owner (row_data r)"
    "col_lock_time (row_cols r) = job_lock_time (row_data r)"
    "col_lock_expiration_time (row_cols r) = job_lock_expiration_time (row_data r)"
    "col_due_time (row_cols r) = job_due_time (row_data r)"
    "col_job_state (row_cols r) = job_job_state (row_data r)"
    "col_retries (row_cols r) = job_retries (row_data r)"
    "col_error_message (row_cols r) = job_error_message (row_data r)"
    "col_error_details (row_cols r) = job_error_details (row_data r)"
  by (simp add: assms [unfolded row_ok_def])
     (rule columns_of_sel [OF conjunct2 [OF assms [unfolded row_ok_def]]])+

lemma update_rows_cong:
  "(\<And>r. r \<in> set t \<Longrightarrow> row_id r \<in> A \<Longrightarrow> f r = g r) \<Longrightarrow> update_rows f A t = update_rows g A t"
  by (auto simp: update_rows_def)

lemma update_rows_ids [simp]:
  "(\<And>r. row_id (f r) = row_id r) \<Longrightarrow> map row_id (update_rows f A t) = map row_id t"
  by (auto simp: update_rows_def)

lemma update_rows_insert:
  assumes "\<And>r. row_id (f r) = row_id r" "i \<notin> A"
  shows "update_rows f A (update_rows f {i} t) = update_rows f (insert i A) t"
  using assms by (auto simp: update_rows_def)

lemma update_rows_empty [simp]: "update_rows f {} t = t"
  by (simp add: update_rows_def map_idI)

lemma lock_row_id [simp]: "row_id (lock_row owner now dur r) = row_id r"
  and unlock_row_id [simp]: "row_id (unlock_row r) = row_id r"
  by (simp_all add: lock_row_def unlock_row_def)

lemma row_ok_lock: "row_ok r \<Longrightarrow> row_ok (lock_row owner now dur r)"
  by (cases "row_cols r") (auto simp: row_ok_def lock_row_def lock_job_def columns_of_def)

lemma row_ok_unlock: "row_ok r \<Longrightarrow> row_ok (unlock_row r)"
  by (cases "row_cols r") (auto simp: row_ok_def unlock_row_def unlock_job_def unlock_columns_def columns_of_def)

lemma table_ok_update_rows:
  assumes "table_ok t" "\<And>r. row_id (f r) = row_id r" "\<And>r. row_ok r \<Longrightarrow> row_ok (f r)"
  shows "table_ok (update_rows f A t)"
proof -
  have "row_ok r" if "r \<in> set (update_rows f A t)" for r
    using that assms by (auto simp: table_ok_def update_rows_def)
  then show ?thesis using assms by (simp add: table_ok_def)
qed

lemma rows_of_ConsD:
  assumes "table_ok t" "rows_of t (j # js)"
  obtains r where "r \<in> set t" "row_data r = j" "row_id r = job_timer_job_id j" "row_ok r"
    "rows_of t js" "job_timer_job_id j \<notin> job_timer_job_id ` set js"
  using assms by (auto simp: rows_of_def table_ok_def row_ok_def)

lemma rows_of_update:
  assumes "table_ok t" "rows_of t js" "i \<notin> job_timer_job_id ` set js" "\<And>r. row_id (f r) = row_id r"
  shows "rows_of (update_rows f {i} t) js"
proof -
  have "j \<in> row_data ` set (update_rows f {i} t)" if "j \<in> set js" for j
  proof -
    from that assms(1,2) obtain r where r: "r \<in> set t" "row_data r = j" "row_id r = job_timer_job_id j"
      by (auto simp: rows_of_def table_ok_def row_ok_def)
    with assms(3) that have "row_id r \<noteq> i" by auto
    with r show ?thesis by (auto simp: update_rows_def intro!: rev_image_eqI [of r])
  qed
  then show ?thesis using assms(2) by (auto simp: rows_of_def)
qed

lemma columns_upd_same:
  "col_due_time c = d \<Longrightarrow> col_job_state c = s \<Longrightarrow>
     c\<lparr>col_lock_owner := a, col_lock_time := b, col_lock_expiration_time := e, col_due_time := d, col_job_state := s\<rparr>
     = c\<lparr>col_lock_owner := a, col_lock_time := b, col_lock_expiration_time := e\<rparr>"
  by (cases c) simp

lemma lock_job_id [simp]: "job_timer_job_id (lock_job owner now dur j) = job_timer_job_id j"
  and unlock_job_id [simp]: "job_timer_job_id (unlock_job j) = job_timer_job_id j"
  by (simp_all add: lock_job_def unlock_job_def)

lemma acquire_one_ok:
  assumes "table_ok t" "r \<in> set t" "job_lock_owner (row_data r) = None"
  shows "acquire_one owner now dur (row_data r) t = (1, update_rows (lock_row owner now dur) {row_id r} t)"
proof -
  from assms have ok: "distinct (map row_id t)" "row_ok r" by (auto simp: table_ok_def)
  have same: "x = r" if "x \<in> set t" "row_id x = row_id r" for x
    using same_row [OF ok(1) assms(2) that] .
  let ?j = "lock_job owner now dur (row_data r)"
  have "acquire_one owner now dur (row_data r) t
    = (1, update_rows (\<lambda>x. x\<lparr>row_data := ?j, row_cols :=
        (row_cols x)\<lparr>col_lock_owner := Some owner, col_lock_time := Some now,
          col_lock_expiration_time := job_lock_expiration_time ?j,
          col_due_time := job_due_time ?j, col_job_state := job_job_state ?j\<rparr>\<rparr>) {row_id r} t)"
    unfolding acquire_one_def Let_def row_okD(1) [OF ok(2), symmetric]
    by (rule cas_update_hit [OF ok(1) assms(2) refl])
       (use row_okD(2,3) [OF ok(2)] in \<open>auto split: option.splits\<close>)
  also have "\<dots> = (1, update_rows (lock_row owner now dur) {row_id r} t)"
    using row_okD(5,6) [OF ok(2)]
    by (intro arg_cong2 [where f = Pair] refl update_rows_cong)
       (auto dest!: same simp: lock_row_def lock_job_def columns_upd_same)
  finally show ?thesis .
qed

lemma acquire_loop_ok:
  assumes "table_ok t" "rows_of t js" "\<forall>j \<in> set js. job_lock_owner j = None"
  shows "acquire_loop owner now dur js t
    = (map (lock_job owner now dur) js, 0, update_rows (lock_row owner now dur) (job_timer_job_id ` set js) t)"
  using assms
proof (induction js arbitrary: t)
  case (Cons j js)
  from Cons.prems(1,2) obtain r where r: "r \<in> set t" "row_data r = j" "row_id r = job_timer_job_id j"
    "rows_of t js" "job_timer_job_id j \<notin> job_timer_job_id ` set js"
    by (rule rows_of_ConsD)
  let ?t1 = "update_rows (lock_row owner now dur) {job_timer_job_id j} t"
  have one: "acquire_one owner now dur j t = (1, ?t1)"
    using acquire_one_ok [OF Cons.prems(1) r(1)] r Cons.prems(3) by simp
  have "table_ok ?t1" "rows_of ?t1 js"
    using Cons.prems(1) r(4,5) by (auto intro!: table_ok_update_rows row_ok_lock rows_of_update)
  with Cons.IH [of ?t1] Cons.prems(3) one r(5) show ?case
    by (simp add: update_rows_insert)
qed simp

lemma rows_of_filter: "rows_of t js \<Longrightarrow> rows_of t (filter P js)"
  by (auto simp: rows_of_def distinct_map_filter)

lemma rows_of_take: "rows_of t js \<Longrightarrow> rows_of t (take n js)"
  by (auto simp: rows_of_def take_map [symmetric] dest: in_set_takeD)

lemma rows_of_sort: "rows_of t js \<Longrightarrow> rows_of t (sort_rows le js)"
  by (simp add: rows_of_def)

lemma set_find_with_filters:
  "j \<in> set (find_with_filters P ord lim t) \<Longrightarrow> \<exists>r \<in> set t. row_data r = j \<and> P (row_cols r)"
  by (auto simp: find_with_filters_def take_opt_def dest!: in_set_takeD split: option.splits)

lemma rows_of_find_with_filters:
  assumes "table_ok t"
  shows "rows_of t (find_with_filters P ord lim t)"
proof -
  let ?rs = "sort_rows ord (filter (\<lambda>r. P (row_cols r)) t)"
  have sub: "set ?rs \<subseteq> set t" by auto
  have "distinct (map row_id ?rs)"
    using assms by (simp add: table_ok_def distinct_map_filter)
  moreover have "map job_timer_job_id (map row_data rs) = map row_id rs" if "set rs \<subseteq> set t" for rs
    using that assms by (auto simp: table_ok_def row_ok_def)
  ultimately have "distinct (map job_timer_job_id (map row_data (take_opt lim ?rs)))"
    using sub by (cases lim) (auto simp: take_opt_def take_map [symmetric] simp del: map_map dest: in_set_takeD)
  moreover have "set (find_with_filters P ord lim t) \<subseteq> row_data ` set t"
    using set_find_with_filters by blast
  ultimately show ?thesis by (simp only: rows_of_def find_with_filters_def)
qed

lemmas rows_of_intros = rows_of_find_with_filters rows_of_filter rows_of_take rows_of_sort

lemma candidates_rows: "table_ok t \<Longrightarrow> rows_of t (acquisition_candidates ins sts now mx sel tf cf t)"
  unfolding acquisition_candidates_def retain_tenant_def retain_category_def Let_def
  by (auto intro!: rows_of_intros split: option.splits)

lemma candidates_acquirable:
  assumes "table_ok t" "j \<in> set (acquisition_candidates ins sts now mx sel tf cf t)"
  shows "acquirable ins sts now sel tf cf j"
proof -
  from assms(2) obtain lim where "j \<in> set (find_with_filters (due_filters sts now) order_by_due_time lim t)"
    and rest: "\<forall>ids. sel = Some ids \<longrightarrow> job_timer_job_id j \<in> set ids" "job_lock_owner j = None"
      "nonempty_filter tf \<longrightarrow> job_matches_tenant_filter ins j tf"
      "nonempty_filter cf \<longrightarrow> job_in_categories cf j"
    unfolding acquisition_candidates_def retain_tenant_def retain_category_def Let_def
    by (auto dest!: in_set_takeD split: option.splits if_splits)
  then obtain r where r: "r \<in> set t" "row_data r = j" "due_filters sts now (row_cols r)"
    by (auto dest: set_find_with_filters)
  with assms(1) have "row_ok r" by (auto simp: table_ok_def)
  note ok = row_okD [OF this]
  from r(3) have "(\<exists>d. job_due_time j = Some d \<and> d \<le> now) \<and> (\<exists>s \<in> set sts. job_job_state j = Some s)
      \<and> (\<exists>n > 0. job_retries j = Some n)"
    using ok(5-7) r(2) by (auto simp: due_filters_def split: option.splits)
  moreover have "job_matches_tenant_filter ins j tf"
    using rest(3) by (auto simp: nonempty_filter_def job_matches_tenant_filter_def split: option.splits)
  ultimately show ?thesis using rest by (simp add: acquirable_def)
qed

lemma candidates_length: "length (acquisition_candidates ins sts now mx sel tf cf t) \<le> mx"
  by (simp add: acquisition_candidates_def Let_def)

lemma bulk_update_ok:
  assumes t: "table_ok t" and js: "rows_of t js"
  shows "bulk_update (map (lock_job owner now dur) js)
      (\<lambda>c. c\<lparr>col_lock_owner := Some owner, col_lock_time := Some now,
          col_lock_expiration_time := Some (saturating_add now dur)\<rparr>) t
    = (length js, update_rows (lock_row owner now dur) (job_timer_job_id ` set js) t)"
proof -
  have row: "row_data r = j" if "r \<in> set t" "j \<in> set js" "job_timer_job_id j = row_id r" for r j
  proof -
    from that(2) js obtain r' where r': "r' \<in> set t" "row_data r' = j" by (auto simp: rows_of_def)
    with t that(3) have "row_id r' = row_id r" by (auto simp: table_ok_def row_ok_def)
    with same_row [OF _ that(1) r'(1)] t r'(2) show ?thesis by (simp add: table_ok_def)
  qed
  have payload: "find (\<lambda>j. job_timer_job_id j = row_id r) (map (lock_job owner now dur) js)
      = (if row_id r \<in> job_timer_job_id ` set js then Some (lock_job owner now dur (row_data r)) else None)"
    if "r \<in> set t" for r
  proof (cases "find (\<lambda>j. job_timer_job_id j = row_id r) (map (lock_job owner now dur) js)")
    case None
    then have "row_id r \<notin> job_timer_job_id ` set js" by (auto simp: find_None_iff lock_job_def)
    with None show ?thesis by simp
  next
    case (Some x)
    then obtain k where "k < length js" "x = lock_job owner now dur (js ! k)" "job_timer_job_id (js ! k) = row_id r"
      by (auto simp: find_Some_iff)
    moreover from this have "js ! k \<in> set js" by simp
    ultimately have "row_data r = js ! k" "row_id r \<in> job_timer_job_id ` set js"
      using row [OF that] by (metis, metis imageI)
    with Some \<open>x = _\<close> show ?thesis by simp
  qed
  have "row_id ` set (filter (\<lambda>r. row_id r \<in> job_timer_job_id ` set js) t) = job_timer_job_id ` set js"
    using t js by (force simp: rows_of_def table_ok_def row_ok_def)
  moreover have "distinct (map row_id (filter (\<lambda>r. row_id r \<in> job_timer_job_id ` set js) t))"
    using t by (simp add: table_ok_def distinct_map_filter)
  ultimately have "length (filter (\<lambda>r. row_id r \<in> job_timer_job_id ` set js) t) = length js"
    using js by (metis distinct_card length_map list.set_map rows_of_def)
  moreover have "filter (\<lambda>r. find (\<lambda>j. job_timer_job_id j = row_id r) (map (lock_job owner now dur) js) \<noteq> None) t
      = filter (\<lambda>r. row_id r \<in> job_timer_job_id ` set js) t"
    using payload by (intro filter_cong refl) simp
  ultimately show ?thesis
    using payload by (auto simp: bulk_update_def update_rows_def lock_row_def Let_def)
qed

lemma acquire_exact:
  assumes t: "table_ok t"
  shows "acquire_due_timer_jobs_by_states ins sts owner now dur mx sel tf cf policy t
    = (Inr (map (lock_job owner now dur) (acquisition_candidates ins sts now mx sel tf cf t), 0, 0),
       update_rows (lock_row owner now dur)
         (job_timer_job_id ` set (acquisition_candidates ins sts now mx sel tf cf t)) t)"
proof -
  note rows = candidates_rows [OF t, of ins sts now mx sel tf cf]
  have "\<forall>j \<in> set (acquisition_candidates ins sts now mx sel tf cf t). job_lock_owner j = None"
    using candidates_acquirable [OF t] by (auto simp: acquirable_def)
  then show ?thesis
    using acquire_loop_ok [OF t rows] bulk_update_ok [OF t rows]
    by (cases policy) (simp_all add: acquire_due_timer_jobs_by_states_def Let_def)
qed

lemma reset_one_ok:
  assumes "table_ok t" "r \<in> set t"
  shows "reset_one (row_data r) t = (1, update_rows unlock_row {row_id r} t)"
proof -
  from assms have ok: "distinct (map row_id t)" "row_ok r" by (auto simp: table_ok_def)
  have same: "x = r" if "x \<in> set t" "row_id x = row_id r" for x
    using same_row [OF ok(1) assms(2) that] .
  have "reset_one (row_data r) t
    = (1, update_rows (\<lambda>x. x\<lparr>row_data := unlock_job (row_data r), row_cols := unlock_columns (row_cols x)\<rparr>) {row_id r} t)"
    unfolding reset_one_def row_okD(1) [OF ok(2), symmetric]
    by (rule cas_update_hit [OF ok(1) assms(2) refl]) (simp add: row_okD(2-6) [OF ok(2)])
  also have "\<dots> = (1, update_rows unlock_row {row_id r} t)"
    by (intro arg_cong2 [where f = Pair] refl update_rows_cong) (auto dest!: same simp: unlock_row_def)
  finally show ?thesis .
qed

lemma reset_loop_ok:
  assumes "table_ok t" "rows_of t js"
  shows "reset_loop js out t
    = (out\<lparr>reset_count := reset_count out + length js\<rparr>, update_rows unlock_row (job_timer_job_id ` set js) t)"
  using assms
proof (induction js arbitrary: t out)
  case (Cons j js)
  from Cons.prems(1,2) obtain r where r: "r \<in> set t" "row_data r = j" "row_id r = job_timer_job_id j"
    "rows_of t js" "job_timer_job_id j \<notin> job_timer_job_id ` set js"
    by (rule rows_of_ConsD)
  let ?t1 = "update_rows unlock_row {job_timer_job_id j} t"
  have one: "reset_one j t = (1, ?t1)"
    using reset_one_ok [OF Cons.prems(1) r(1)] r by simp
  have "table_ok ?t1" "rows_of ?t1 js"
    using Cons.prems(1) r(4,5) by (auto intro!: table_ok_update_rows row_ok_unlock rows_of_update)
  with Cons.IH [of ?t1] one r(5) show ?case by (simp add: update_rows_insert)
qed simp

lemma expired_candidates_rows: "table_ok t \<Longrightarrow> rows_of t (find_expired_job_lock_candidates ins now cl ps tf cf t)"
  unfolding find_expired_job_lock_candidates_def Let_def by (auto intro!: rows_of_intros)

lemma expired_candidates_ids:
  assumes "table_ok t"
  shows "job_timer_job_id ` set (find_expired_job_lock_candidates ins now cl ps tf cf t) \<subseteq> expired_ids now cl t"
proof
  fix i
  assume "i \<in> job_timer_job_id ` set (find_expired_job_lock_candidates ins now cl ps tf cf t)"
  then obtain j where j: "i = job_timer_job_id j" "j \<in> set (find_expired_job_lock_candidates ins now cl ps tf cf t)" by blast
  from j(2) obtain lim where "j \<in> set (find_with_filters (lease_expired now cl) order_by_id lim t)"
    unfolding find_expired_job_lock_candidates_def Let_def lease_expired_def
    by (auto dest!: in_set_takeD split: if_splits)
  from set_find_with_filters [OF this] j(1) assms show "i \<in> expired_ids now cl t"
    by (auto simp: expired_ids_def table_ok_def row_ok_def intro!: image_eqI)
qed

lemma reset_batch_exact:
  assumes "table_ok t"
  shows "reset_expired_job_locks_batch ins now cl ps tf cf t =
    (let cs = find_expired_job_lock_candidates ins now cl ps tf cf t
     in (\<lparr>scanned = length cs, reset_count = length cs, conflicts = 0\<rparr>,
         update_rows unlock_row (job_timer_job_id ` set cs) t))"
  using reset_loop_ok [OF assms expired_candidates_rows [OF assms]]
  by (simp add: reset_expired_job_locks_batch_def compare_and_reset_expired_job_locks_def Let_def)

lemma unfiltered_candidates_length:
  assumes "\<not> nonempty_filter tf" "\<not> nonempty_filter cf"
  shows "length (find_expired_job_lock_candidates ins now cl ps tf cf t)
    = min ps (length (filter (\<lambda>r. lease_expired now cl (row_cols r)) t))"
  using assms by (simp add: find_expired_job_lock_candidates_def find_with_filters_def take_opt_def
      lease_expired_def Let_def)

lemma unlock_not_expired: "\<not> lease_expired now cl (row_cols (unlock_row r))"
  by (simp add: lease_expired_def unlock_row_def unlock_columns_def)

lemma expired_ids_unlock: "expired_ids now cl (update_rows unlock_row A t) = expired_ids now cl t - A"
  by (force simp: expired_ids_def update_rows_def unlock_not_expired image_iff split: if_splits)

lemma update_rows_union:
  assumes "\<And>r. row_id (f r) = row_id r" "\<And>r. f (f r) = f r"
  shows "update_rows f B (update_rows f A t) = update_rows f (A \<union> B) t"
  using assms by (auto simp: update_rows_def)

lemma unlock_row_idem: "unlock_row (unlock_row r) = unlock_row r"
  by (simp add: unlock_row_def unlock_job_def unlock_columns_def)

lemma card_expired_ids:
  assumes "table_ok t"
  shows "card (expired_ids now cl t) = length (filter (\<lambda>r. lease_expired now cl (row_cols r)) t)"
proof -
  have "distinct (map row_id (filter (\<lambda>r. lease_expired now cl (row_cols r)) t))"
    using assms by (simp add: table_ok_def distinct_map_filter)
  from distinct_card [OF this] show ?thesis by (simp add: expired_ids_def)
qed

lemma drain_class_clears:
  assumes "table_ok t" "0 < ps" "\<not> nonempty_filter tf" "\<not> nonempty_filter cf"
  shows "drain_class (reset_expired_job_locks_batch ins now cl ps tf cf) n t
    = Some (n + card (expired_ids now cl t), update_rows unlock_row (expired_ids now cl t) t)"
  using assms
proof (induction "card (expired_ids now cl t)" arbitrary: n t rule: less_induct)
  case less
  let ?cs = "find_expired_job_lock_candidates ins now cl ps tf cf t"
  let ?A = "job_timer_job_id ` set ?cs" and ?E = "expired_ids now cl t"
  let ?t1 = "update_rows unlock_row ?A t"
  have sub: "?A \<subseteq> ?E" by (rule expired_candidates_ids [OF less.prems(1)])
  have fin: "finite ?E" by (simp add: expired_ids_def)
  have len: "length ?cs = min ps (card ?E)"
    using unfiltered_candidates_length [OF less.prems(3,4)] card_expired_ids [OF less.prems(1)] by simp
  have cardA: "card ?A = length ?cs"
    using expired_candidates_rows [OF less.prems(1)] by (metis distinct_card length_map list.set_map rows_of_def)
  note batch = reset_batch_exact [OF less.prems(1), of ins now cl ps tf cf, unfolded Let_def]
  show ?case
  proof (cases "card ?E = 0")
    case True
    then have E: "?E = {}" using fin by simp
    from True len have cs: "?cs = []" by simp
    show ?thesis by (subst drain_class.simps) (simp add: batch cs E)
  next
    case False
    have ok1: "table_ok ?t1" using less.prems(1) by (intro table_ok_update_rows row_ok_unlock) simp_all
    have E1: "expired_ids now cl ?t1 = ?E - ?A" by (rule expired_ids_unlock)
    have c1: "card (?E - ?A) = card ?E - length ?cs"
      using cardA sub fin by (simp add: card_Diff_subset finite_subset)
    have pos: "length ?cs > 0" "length ?cs \<le> card ?E" using False len less.prems(2) by simp_all
    have "card (expired_ids now cl ?t1) < card ?E" unfolding E1 c1 using pos by linarith
    from less.hyps [OF this ok1 less.prems(2-4), of "n + length ?cs"]
    have "drain_class (reset_expired_job_locks_batch ins now cl ps tf cf) (n + length ?cs) ?t1
        = Some (n + length ?cs + (card ?E - length ?cs), update_rows unlock_row (?E - ?A) ?t1)"
      unfolding E1 c1 .
    moreover have "update_rows unlock_row (?E - ?A) ?t1 = update_rows unlock_row ?E t"
      using sub by (simp add: update_rows_union unlock_row_idem Un_absorb1)
    ultimately have "drain_class (reset_expired_job_locks_batch ins now cl ps tf cf) (n + length ?cs) ?t1
        = Some (n + card ?E, update_rows unlock_row ?E t)" using pos by simp
    then show ?thesis
      using pos(1) by (subst drain_class.simps) (simp add: batch)
  qed
qed

lemma drain_classes_clears:
  assumes "table_ok t" "0 < ps" "\<not> nonempty_filter tf" "\<not> nonempty_filter cf"
  shows "\<exists>m. drain_classes (\<lambda>cl ps. reset_expired_job_locks_batch ins now cl ps tf cf) ps cls n t
    = Some (m, update_rows unlock_row (expired_in now cls t) t)"
  using assms
proof (induction cls arbitrary: n t)
  case (Cons cl cls)
  let ?E = "expired_ids now cl t"
  let ?t1 = "update_rows unlock_row ?E t"
  have ok1: "table_ok ?t1" using Cons.prems(1) by (intro table_ok_update_rows row_ok_unlock) simp_all
  have "expired_in now cls ?t1 = expired_in now cls t - ?E"
    by (auto simp: expired_in_def expired_ids_unlock)
  then have "update_rows unlock_row (expired_in now cls ?t1) ?t1
      = update_rows unlock_row (expired_in now (cl # cls) t) t"
    by (simp add: update_rows_union unlock_row_idem expired_in_def)
  with Cons.IH [OF ok1 Cons.prems(2-4)] drain_class_clears [OF Cons.prems] show ?case by simp
qed (simp add: expired_in_def)

lemma find_row_unique:
  assumes "distinct (map row_id t)" "r \<in> set t"
  shows "find_row (row_id r) t = Some r"
  using assms by (induction t) (auto simp: find_row_def)

lemma find_row_Some: "find_row i t = Some r \<Longrightarrow> r \<in> set t \<and> row_id r = i"
  by (auto simp: find_row_def find_Some_iff)

lemma find_row_update:
  assumes "\<And>r. row_id (f r) = row_id r"
  shows "find_row i (update_rows f A t) = map_option (\<lambda>r. if i \<in> A then f r else r) (find_row i t)"
  using assms by (induction t) (auto simp: find_row_def update_rows_def)

lemma attempt_acquire_cases:
  assumes "distinct (map row_id t)" "job_lock_owner j = None"
  obtains "attempt_acquire (owner, now, dur, j) t = (False, t)"
  | r f where "r \<in> set t" "row_id r = job_timer_job_id j" "col_lock_owner (row_cols r) = None"
      "attempt_acquire (owner, now, dur, j) t = (True, update_rows f {job_timer_job_id j} t)"
      "\<And>x. row_id (f x) = row_id x" "\<And>x. col_lock_owner (row_cols (f x)) = Some owner"
proof -
  let ?P = "\<lambda>c. col_lock_owner c = job_lock_owner j
      \<and> (case job_lock_time j of None \<Rightarrow> True | Some old \<Rightarrow> col_lock_time c = Some old)"
  show thesis
  proof (cases "\<exists>r \<in> set t. row_id r = job_timer_job_id j \<and> ?P (row_cols r)")
    case False
    then have "attempt_acquire (owner, now, dur, j) t = (False, t)"
      by (subst attempt_acquire_def, subst prod.case, subst prod.case, subst prod.case,
          unfold acquire_one_def Let_def, subst cas_update_miss) auto
    then show thesis by (rule that(1))
  next
    case True
    then obtain r where r: "r \<in> set t" "row_id r = job_timer_job_id j" "?P (row_cols r)" by blast
    let ?f = "\<lambda>x. x\<lparr>row_data := lock_job owner now dur j,
        row_cols := (row_cols x)\<lparr>col_lock_owner := Some owner, col_lock_time := Some now,
          col_lock_expiration_time := job_lock_expiration_time (lock_job owner now dur j),
          col_due_time := job_due_time (lock_job owner now dur j),
          col_job_state := job_job_state (lock_job owner now dur j)\<rparr>\<rparr>"
    have "attempt_acquire (owner, now, dur, j) t = (True, update_rows ?f {job_timer_job_id j} t)"
      unfolding attempt_acquire_def prod.case acquire_one_def Let_def
      by (subst cas_update_hit [OF assms(1) r(1,2), where P = ?P, OF r(3)]) simp
    then show thesis by (rule that(2) [OF r(1,2), rotated]) (use r(3) assms(2) in simp_all)
  qed
qed

interpretation job_lease: lease_table "\<lambda>t. distinct (map row_id t)" job_holder
  "\<lambda>(owner, now, dur, j). job_lock_owner j = None" "\<lambda>(owner, now, dur, j). job_timer_job_id j" fst attempt_acquire
proof
  fix t :: job_table and i and q :: acquire_attempt
  obtain owner now dur j where q: "q = (owner, now, dur, j)" by (cases q)
  assume t: "distinct (map row_id t)" and "case q of (owner, now, dur, j) \<Rightarrow> job_lock_owner j = None"
  then have j: "job_lock_owner j = None" by (simp add: q)
  note elim = attempt_acquire_cases [OF t j, of owner now dur]
  show "distinct (map row_id (snd (attempt_acquire q t)))"
    unfolding q by (rule elim) (simp_all add: t)
  show "job_holder t (case q of (owner, now, dur, j) \<Rightarrow> job_timer_job_id j) = None" if "fst (attempt_acquire q t)"
    by (rule elim) (use that in \<open>auto simp: q job_holder_def dest: find_row_unique [OF t]\<close>)
  show "job_holder (snd (attempt_acquire q t)) (case q of (owner, now, dur, j) \<Rightarrow> job_timer_job_id j) = Some (fst q)"
    if "fst (attempt_acquire q t)"
    by (rule elim) (use that in \<open>auto simp: q job_holder_def find_row_update dest: find_row_unique [OF t]\<close>)
  show "job_holder (snd (attempt_acquire q t)) i = job_holder t i"
    if "\<not> (fst (attempt_acquire q t) \<and> i = (case q of (owner, now, dur, j) \<Rightarrow> job_timer_job_id j))"
    by (rule elim) (use that in \<open>auto simp: q job_holder_def find_row_update option.map_ident\<close>)
qed

lemma external_row_id [simp]: "row_id (external_row owner now dur r) = row_id r"
  by (simp add: external_row_def)

lemma lock_external_id [simp]: "job_timer_job_id (lock_external owner now dur j) = job_timer_job_id j"
  by (simp add: lock_external_def)

lemma row_ok_external: "row_ok r \<Longrightarrow> row_ok (external_row owner now dur r)"
  by (cases "row_cols r") (auto simp: row_ok_def external_row_def lock_external_def columns_of_def)

lemma row_unchanged_columns:
  "col_retries c = a \<Longrightarrow> col_error_message c = b \<Longrightarrow> col_error_details c = d \<Longrightarrow> col_due_time c = e
    \<Longrightarrow> col_job_state c = g \<Longrightarrow>
   c\<lparr>col_lock_owner := x, col_lock_time := y, col_lock_expiration_time := z, col_retries := opt_or a (Some 1),
     col_error_message := b, col_error_details := d, col_due_time := e, col_job_state := g, col_job_type := k\<rparr>
   = c\<lparr>col_lock_owner := x, col_lock_time := y, col_lock_expiration_time := z,
       col_retries := opt_or (col_retries c) (Some 1), col_job_type := k\<rparr>"
  by (cases c) simp

lemma fetch_one_ok:
  assumes "table_ok t" "r \<in> set t" "external_candidate ins now topic t0 (row_data r)"
  shows "fetch_one owner now dur (row_data r) t = (1, update_rows (external_row owner now dur) {row_id r} t)"
proof -
  from assms have ok: "distinct (map row_id t)" "row_ok r" by (auto simp: table_ok_def)
  have same: "x = r" if "x \<in> set t" "row_id x = row_id r" for x
    using same_row [OF ok(1) assms(2) that] .
  let ?j = "lock_external owner now dur (row_data r)"
  let ?f = "\<lambda>c. c\<lparr>col_lock_owner := Some owner, col_lock_time := Some now,
            col_lock_expiration_time := job_lock_expiration_time ?j, col_retries := job_retries ?j,
            col_error_message := job_error_message ?j, col_error_details := job_error_details ?j,
            col_due_time := job_due_time ?j, col_job_state := job_job_state ?j,
            col_job_type := Some (job_type_as_str JobExternalWorker)\<rparr>"
  obtain P where P: "fetch_one owner now dur (row_data r) t = cas_update (row_id r) ?j ?f P t" "P (row_cols r)"
  proof (cases "job_lock_owner (row_data r)")
    case None
    show thesis
      by (rule that [of "\<lambda>c. col_lock_owner c = None"])
         (simp_all add: fetch_one_def Let_def None row_okD(1,2) [OF ok(2)])
  next
    case (Some w)
    with assms(3) obtain e where e: "job_lock_expiration_time (row_data r) = Some e"
      by (auto simp: external_candidate_def split: option.splits)
    show thesis
      by (rule that [of "\<lambda>c. col_lock_owner c = Some w \<and> col_lock_expiration_time c = Some e"])
         (simp_all add: fetch_one_def Let_def Some e row_okD(1,2,4) [OF ok(2)])
  qed
  have "fetch_one owner now dur (row_data r) t
      = (1, update_rows (\<lambda>x. x\<lparr>row_data := ?j, row_cols := ?f (row_cols x)\<rparr>) {row_id r} t)"
    unfolding P(1) by (rule cas_update_hit [where P = P, OF ok(1) assms(2) refl P(2)])
  also have "\<dots> = (1, update_rows (external_row owner now dur) {row_id r} t)"
    using row_okD(5-9) [OF ok(2)]
    by (intro arg_cong2 [where f = Pair] refl update_rows_cong)
       (auto dest!: same simp: external_row_def lock_external_def row_unchanged_columns)
  finally show ?thesis .
qed

lemma fetch_loop_ok:
  assumes "table_ok t" "rows_of t js" "\<forall>j \<in> set js. external_candidate ins now topic t0 j"
    and expires: "checked_add now dur = Some e"
  shows "fetch_loop owner now dur js t
    = Some (map (lock_external owner now e) js, update_rows (external_row owner now e) (job_timer_job_id ` set js) t)"
  using assms(1-3)
proof (induction js arbitrary: t)
  case (Cons j js)
  from Cons.prems(1,2) obtain r where r: "r \<in> set t" "row_data r = j" "row_id r = job_timer_job_id j"
    "rows_of t js" "job_timer_job_id j \<notin> job_timer_job_id ` set js"
    by (rule rows_of_ConsD)
  let ?t1 = "update_rows (external_row owner now e) {job_timer_job_id j} t"
  have one: "fetch_one owner now e j t = (1, ?t1)"
    using fetch_one_ok [OF Cons.prems(1) r(1), of ins now topic t0] r Cons.prems(3) by simp
  have "table_ok ?t1" "rows_of ?t1 js"
    using Cons.prems(1) r(4,5) by (auto intro!: table_ok_update_rows row_ok_external rows_of_update)
  with Cons.IH [of ?t1] Cons.prems(3) one r(5) show ?case by (simp add: update_rows_insert expires)
qed simp

lemma rows_of_all: "table_ok t \<Longrightarrow> rows_of t (map row_data t)"
  by (auto simp: rows_of_def table_ok_def row_ok_def cong: map_cong)

lemma unlock_loop_ok:
  assumes "table_ok t" "rows_of t js" "\<forall>j \<in> set js. job_lock_owner j = Some w"
  shows "unlock_loop w js t = (length js, update_rows unlock_row (job_timer_job_id ` set js) t)"
  using assms
proof (induction js arbitrary: t)
  case (Cons j js)
  from Cons.prems(1,2) obtain r where r: "r \<in> set t" "row_data r = j" "row_id r = job_timer_job_id j"
    "rows_of t js" "job_timer_job_id j \<notin> job_timer_job_id ` set js"
    by (rule rows_of_ConsD)
  let ?t1 = "update_rows unlock_row {job_timer_job_id j} t"
  have "reset_one j t = (1, ?t1)"
    using reset_one_ok [OF Cons.prems(1) r(1)] r by simp
  then have one: "cas_update (job_timer_job_id j) (unlock_job j) unlock_columns
             (\<lambda>c. col_lock_owner c = Some w \<and> col_lock_time c = job_lock_time j
                  \<and> col_lock_expiration_time c = job_lock_expiration_time j
                  \<and> col_job_state c = job_job_state j) t = (1, ?t1)"
    using Cons.prems(3) by (simp add: reset_one_def)
  have "table_ok ?t1" "rows_of ?t1 js"
    using Cons.prems(1) r(4,5) by (auto intro!: table_ok_update_rows row_ok_unlock rows_of_update)
  with Cons.IH [of ?t1] Cons.prems(3) one r(5) show ?case by (simp add: update_rows_insert)
qed simp

lemma upsert_ids: "row_id ` set (upsert_row r t) = insert (row_id r) (row_id ` set t)"
  by (induction r t rule: upsert_row.induct) auto

lemma table_ok_upsert: "table_ok t \<Longrightarrow> row_ok r \<Longrightarrow> table_ok (upsert_row r t)"
proof (induction r t rule: upsert_row.induct)
  case (2 r x t)
  then show ?case using upsert_ids [of r t] by (auto simp: table_ok_def)
qed (simp add: table_ok_def)

lemma release_exact:
  assumes t: "table_ok t"
  shows "release_timer_job_lock i w t =
    (if job_holder t i = Some w then (True, update_rows unlock_row {i} t) else (False, t))"
proof (cases "find_row i t")
  case None
  then show ?thesis by (simp add: release_timer_job_lock_def find_timer_job_state_def job_holder_def)
next
  case (Some r)
  then have r: "r \<in> set t" "row_id r = i" using find_row_Some by auto
  with t have ok: "distinct (map row_id t)" "row_ok r" by (auto simp: table_ok_def)
  have same: "x = r" if "x \<in> set t" "row_id x = i" for x
    using same_row [OF ok(1) r(1) that(1)] that(2) r(2) by simp
  have "cas_update i (unlock_job (row_data r)) unlock_columns (\<lambda>c. col_lock_owner c = Some w) t
      = (1, update_rows unlock_row {i} t)" if "col_lock_owner (row_cols r) = Some w"
    using that by (subst cas_update_hit [OF ok(1) r])
      (auto intro!: update_rows_cong dest!: same simp: unlock_row_def)
  then show ?thesis
    using Some row_okD(2) [OF ok(2)]
    by (simp add: release_timer_job_lock_def find_timer_job_state_def job_holder_def)
qed

lemma example_row_ok: "row_ok (example_row j)"
  by (simp add: row_ok_def example_row_def columns_of_def)

lemma example_tables_ok: "table_ok busy_table" "table_ok free_table"
  by (simp_all add: table_ok_def busy_table_def free_table_def example_row_ok)
     (simp_all add: example_row_def example_job_def)

lemma example_cols [simp]:
  "col_due_time (row_cols (example_row j)) = job_due_time j"
  "col_job_state (row_cols (example_row j)) = job_job_state j"
  "col_retries (row_cols (example_row j)) = job_retries j"
  "col_lock_owner (row_cols (example_row j)) = job_lock_owner j"
  "col_lock_expiration_time (row_cols (example_row j)) = job_lock_expiration_time j"
  "row_data (example_row j) = j" "row_id (example_row j) = job_timer_job_id j"
  by (simp_all add: example_row_def columns_of_def)

lemma example_job_sel [simp]:
  "job_due_time (example_job i w d p) = Some d"
  "job_job_state (example_job i w d p) = Some ''timer''"
  "job_retries (example_job i w d p) = Some 3"
  "job_lock_owner (example_job i w d p) = w"
  "job_lock_expiration_time (example_job i w d p) = map_option (\<lambda>_. 5) w"
  "job_timer_job_id (example_job i w d p) = i"
  "job_process_instance_id (example_job i w d p) = p"
  "job_category (example_job i w d p) = None"
  by (simp_all add: example_job_def default_job_def)

lemma update_rows_other: "r \<in> set t \<Longrightarrow> row_id r \<notin> A \<Longrightarrow> r \<in> set (update_rows f A t)"
  by (auto simp: update_rows_def intro!: rev_image_eqI [of r])

lemma fetch_exact:
  assumes "table_ok t"
  shows "fetch_and_lock_external_worker_timer_jobs ins owner now mx dur topic t =
    (let js = take mx (sort_rows by_due_then_id (filter (external_candidate ins now topic t) (map row_data t)))
     in if js = [] then Some ([], t)
        else map_option (\<lambda>e. (map (lock_external owner now e) js,
               update_rows (external_row owner now e) (job_timer_job_id ` set js) t)) (checked_add now dur))"
proof -
  let ?js = "take mx (sort_rows by_due_then_id (filter (external_candidate ins now topic t) (map row_data t)))"
  have "rows_of t ?js"
    by (intro rows_of_take rows_of_sort rows_of_filter rows_of_all assms)
  moreover have "\<forall>j \<in> set ?js. external_candidate ins now topic t j"
    by (auto dest!: in_set_takeD)
  ultimately have loop: "fetch_loop owner now dur ?js t = Some (map (lock_external owner now e) ?js,
      update_rows (external_row owner now e) (job_timer_job_id ` set ?js) t)" if "checked_add now dur = Some e" for e
    using that by (rule fetch_loop_ok [OF assms])
  show ?thesis
  proof (cases "checked_add now dur")
    case None
    have "fetch_loop owner now dur js t = (if js = [] then Some ([], t) else None)" for js
      by (cases js) (simp_all add: None)
    then show ?thesis by (simp add: fetch_and_lock_external_worker_timer_jobs_def Let_def None)
  next
    case (Some e)
    show ?thesis
      unfolding fetch_and_lock_external_worker_timer_jobs_def Let_def loop [OF Some]
      by (auto simp: Some update_rows_def)
  qed
qed

lemma unlock_owned_keeps_ok:
  assumes "table_ok t"
  shows "table_ok (snd (unlock_owned_executable_jobs ins w tf t))"
proof -
  let ?P = "\<lambda>c. col_lock_owner c = Some w \<and> (case col_job_state c of None \<Rightarrow> False
      | Some s \<Rightarrow> s \<in> {''executable'', ''async'', ''async-after''})"
  have owned: "job_lock_owner j = Some w" if j: "j \<in> set (find_with_filters ?P order_by_id None t)" for j
  proof -
    from set_find_with_filters [OF j] obtain r where "r \<in> set t" "row_data r = j" "col_lock_owner (row_cols r) = Some w"
      by blast
    with assms row_okD(2) [of r] show ?thesis by (auto simp: table_ok_def)
  qed
  have loop: "table_ok (snd (unlock_loop w (sort_rows by_id js) t))"
    if "set js \<subseteq> set (find_with_filters ?P order_by_id None t)" "rows_of t js" for js
  proof -
    have "\<forall>j \<in> set (sort_rows by_id js). job_lock_owner j = Some w" using that(1) owned by auto
    from unlock_loop_ok [OF assms rows_of_sort [OF that(2)] this] show ?thesis
      by (simp add: table_ok_update_rows [OF assms] row_ok_unlock)
  qed
  note rows = rows_of_find_with_filters [OF assms, of ?P order_by_id None]
  show ?thesis
    unfolding unlock_owned_executable_jobs_def Let_def
    by (rule loop) (auto intro: rows rows_of_filter)
qed

lemma free_candidates:
  "acquisition_candidates Map.empty [''timer''] 10 5 None None None free_table = [example_job ''a'' None 1 ''p'']"
  by (simp add: acquisition_candidates_def find_with_filters_def take_opt_def sort_rows_def free_table_def
      due_filters_def order_by_due_time_def saturating_mul_def usize_max_def nonempty_filter_def
      retain_tenant_def retain_category_def Let_def by_due_then_id_def)

section \<open>Properties\<close>

text \<open>
  C2. Acquisition of due jobs on a well-formed table: both write policies lock exactly the rows the
  candidate query selects, return them in that order with the lease of the caller, report no
  recovered lock and no conflict, and leave every other row alone.
\<close>

theorem acquisition_exact:
  assumes "table_ok t"
  shows "acquire_due_timer_jobs_by_states ins sts owner now dur mx sel tf cf policy t
    = (Inr (map (lock_job owner now dur) (acquisition_candidates ins sts now mx sel tf cf t), 0, 0),
       update_rows (lock_row owner now dur)
         (job_timer_job_id ` set (acquisition_candidates ins sts now mx sel tf cf t)) t)"
  by (rule acquire_exact [OF assms])

theorem acquisition_exact_witness:
  "acquire_due_timer_jobs_by_states Map.empty [''timer''] ''me'' 10 100 5 None None None Optimistic free_table
    = (Inr ([lock_job ''me'' 10 100 (example_job ''a'' None 1 ''p'')], 0, 0),
       update_rows (lock_row ''me'' 10 100) {''a''} free_table)"
  using acquisition_exact [OF example_tables_ok(2)] by (simp add: free_candidates)

text \<open>
  At most max_jobs distinct jobs are acquired.  Each was in the table, due, in one of the
  requested states, with retries left, unlocked, and passed the selection, tenant and category
  filters; afterwards its lock column names the caller.
\<close>

theorem acquired_jobs_acquirable:
  assumes "table_ok t"
    and "acquire_due_timer_jobs_by_states ins sts owner now dur mx sel tf cf policy t = (Inr (acq, rec, con), t')"
  shows "length acq \<le> mx \<and> distinct (map job_timer_job_id acq)
    \<and> (\<forall>a \<in> set acq. job_holder t' (job_timer_job_id a) = Some owner
        \<and> (\<exists>j. find_timer_job_state (job_timer_job_id a) t = Some j \<and> a = lock_job owner now dur j
             \<and> acquirable ins sts now sel tf cf j))"
proof -
  let ?cs = "acquisition_candidates ins sts now mx sel tf cf t"
  from assms(2) acquire_exact [OF assms(1), of ins sts owner now dur mx sel tf cf policy]
  have acq: "acq = map (lock_job owner now dur) ?cs"
    and t': "t' = update_rows (lock_row owner now dur) (job_timer_job_id ` set ?cs) t" by simp_all
  note rows = candidates_rows [OF assms(1), of ins sts now mx sel tf cf]
  have "job_holder t' (job_timer_job_id j) = Some owner \<and> find_timer_job_state (job_timer_job_id j) t = Some j"
    if j: "j \<in> set ?cs" for j
  proof -
    from j rows obtain r where r: "r \<in> set t" "row_data r = j" by (auto simp: rows_of_def)
    with assms(1) have "find_row (job_timer_job_id j) t = Some r"
      using find_row_unique [of t r] by (auto simp: table_ok_def row_ok_def)
    with r j show ?thesis
      unfolding t' by (auto simp: job_holder_def find_row_update find_timer_job_state_def lock_row_def)
  qed
  then show ?thesis
    using candidates_length [of ins sts now mx sel tf cf t] rows candidates_acquirable [OF assms(1)]
    unfolding acq by (auto simp: rows_of_def comp_def)
qed

theorem acquired_jobs_acquirable_witness:
  "job_holder (snd (acquire_due_timer_jobs_by_states Map.empty [''timer''] ''me'' 10 100 5 None None None Optimistic
     free_table)) ''a'' = Some ''me''"
  using acquired_jobs_acquirable [OF example_tables_ok(2)
      acquire_exact [OF example_tables_ok(2), of Map.empty "[''timer'']" "''me''" 10 100 5 None None None Optimistic]]
  by (simp add: acquire_exact [OF example_tables_ok(2)] free_candidates)

text \<open>
  C1. Workers race for jobs with payloads they read earlier, when the jobs were free.  Whatever the
  order of their compare-and-set updates, no job is granted twice, every granted job was free in the
  first table, and its lock column names the winner in the last one.
\<close>

theorem no_job_granted_twice:
  assumes "distinct (map row_id t)" "\<forall>(owner, now, dur, j) \<in> set attempts. job_lock_owner j = None"
  shows "distinct (map (\<lambda>(owner, now, dur, j). job_timer_job_id j) (fst (run_attempts attempt_acquire attempts t)))
    \<and> (\<forall>(owner, now, dur, j) \<in> set (fst (run_attempts attempt_acquire attempts t)).
         job_holder t (job_timer_job_id j) = None
         \<and> job_holder (snd (run_attempts attempt_acquire attempts t)) (job_timer_job_id j) = Some owner)"
proof -
  have "\<forall>q \<in> set attempts. case q of (owner, now, dur, j) \<Rightarrow> job_lock_owner j = None" using assms(2) by auto
  note granted = job_lease.granted_exclusive [OF assms(1) this]
  show ?thesis
  proof (intro conjI ballI)
    show "distinct (map (\<lambda>(owner, now, dur, j). job_timer_job_id j) (fst (run_attempts attempt_acquire attempts t)))"
      using granted by blast
    fix q assume q: "q \<in> set (fst (run_attempts attempt_acquire attempts t))"
    obtain owner now dur j where qs: "q = (owner, now, dur, j)" by (cases q)
    from granted q have "job_holder t (case q of (owner, now, dur, j) \<Rightarrow> job_timer_job_id j) = None
        \<and> job_holder (snd (run_attempts attempt_acquire attempts t))
             (case q of (owner, now, dur, j) \<Rightarrow> job_timer_job_id j) = Some (fst q)" by blast
    then show "case q of (owner, now, dur, j) \<Rightarrow> job_holder t (job_timer_job_id j) = None
        \<and> job_holder (snd (run_attempts attempt_acquire attempts t)) (job_timer_job_id j) = Some owner"
      unfolding qs by simp
  qed
qed

theorem no_job_granted_twice_witness:
  "distinct (map (\<lambda>(owner, now, dur, j). job_timer_job_id j) (fst (run_attempts attempt_acquire
     [(''w1'', 10, 60, example_job ''a'' None 1 ''p''), (''w2'', 10, 60, example_job ''a'' None 1 ''p'')] free_table)))"
  using no_job_granted_twice [of free_table
      "[(''w1'', 10, 60, example_job ''a'' None 1 ''p''), (''w2'', 10, 60, example_job ''a'' None 1 ''p'')]"]
    example_tables_ok(2)
  by (simp add: table_ok_def)

text \<open>
  C3. A reset cycle without tenant or category filter ends, and on return exactly the leases that
  had expired in one of the configured job classes are cleared.
\<close>

theorem reset_cycle_clears_expired:
  assumes "table_ok t" "0 < page_size config" "tenant_ids config = []" "enabled_job_categories config = []"
  shows "\<exists>n. reset_cycle_with config
      (\<lambda>cl ps. reset_expired_job_locks_batch ins now cl ps (Some (tenant_ids config)) (Some (enabled_job_categories config))) t
    = Some (n, update_rows unlock_row (expired_in now (job_classes config) t) t)"
  using drain_classes_clears [OF assms(1,2), of "Some []" "Some []"] assms(3,4)
  by (simp add: reset_cycle_with_def nonempty_filter_def)

theorem reset_cycle_clears_expired_witness:
  "\<exists>n. reset_cycle_with default_reset_config
      (\<lambda>cl ps. reset_expired_job_locks_batch Map.empty 20 cl ps
         (Some (tenant_ids default_reset_config)) (Some (enabled_job_categories default_reset_config))) busy_table
    = Some (n, update_rows unlock_row (expired_in 20 (job_classes default_reset_config) busy_table) busy_table)"
  by (rule reset_cycle_clears_expired [OF example_tables_ok(1)]) (simp_all add: default_reset_config_def)

text \<open>
  A reset batch never touches a row whose lease has not expired.
\<close>

theorem reset_keeps_live_leases:
  assumes "table_ok t" "r \<in> set t" "\<not> lease_expired now cl (row_cols r)"
  shows "r \<in> set (snd (reset_expired_job_locks_batch ins now cl ps tf cf t))"
proof -
  have "row_id r \<notin> expired_ids now cl t"
  proof
    assume "row_id r \<in> expired_ids now cl t"
    then obtain x where x: "x \<in> set t" "row_id x = row_id r" "lease_expired now cl (row_cols x)"
      by (auto simp: expired_ids_def)
    moreover have "x = r"
      using assms(1) same_row [OF _ assms(2) x(1,2)] by (simp add: table_ok_def)
    ultimately show False using assms(3) by simp
  qed
  with expired_candidates_ids [OF assms(1)]
  have "row_id r \<notin> job_timer_job_id ` set (find_expired_job_lock_candidates ins now cl ps tf cf t)" by blast
  then have "r \<in> set (update_rows unlock_row
      (job_timer_job_id ` set (find_expired_job_lock_candidates ins now cl ps tf cf t)) t)"
    by (rule update_rows_other [OF assms(2)])
  then show ?thesis by (simp only: reset_batch_exact [OF assms(1)] Let_def snd_conv)
qed

theorem reset_keeps_live_leases_witness:
  "example_row (example_job ''b'' (Some ''w'') 1 ''p'')
     \<in> set (snd (reset_expired_job_locks_batch Map.empty 5 ExpiredTimer 3 None None free_table))"
  by (rule reset_keeps_live_leases [OF example_tables_ok(2)])
     (simp_all add: free_table_def lease_expired_def)

text \<open>
  Releasing a job lock succeeds exactly when the caller holds it, and then clears that lock
  only.
\<close>

theorem release_only_by_owner:
  assumes "table_ok t"
  shows "release_timer_job_lock i w t =
    (if job_holder t i = Some w then (True, update_rows unlock_row {i} t) else (False, t))"
  by (rule release_exact [OF assms])

theorem release_only_by_owner_witness:
  "release_timer_job_lock ''b'' ''intruder'' free_table = (False, free_table)"
  using release_only_by_owner [OF example_tables_ok(2), of "''b''" "''intruder''"]
  by (simp add: job_holder_def find_row_def free_table_def)

text \<open>
  Replacing a job state under a lock is refused, without any write, when the row is gone, is
  owned by someone else, or carries another expiration time than the caller saw.
\<close>

theorem stale_replace_refused:
  assumes "\<forall>r \<in> set t. row_id r = job_timer_job_id state
      \<longrightarrow> col_lock_owner (row_cols r) \<noteq> Some w \<or> col_lock_expiration_time (row_cols r) \<noteq> e"
  shows "replace_timer_job_state_if_lock_matches state w e t = (False, t)"
  unfolding replace_timer_job_state_if_lock_matches_def
  by (subst cas_update_miss) (use assms in auto)

theorem stale_replace_refused_witness:
  "replace_timer_job_state_if_lock_matches (example_job ''b'' None 1 ''p'') ''w'' (Some 4) free_table = (False, free_table)"
  by (rule stale_replace_refused) (simp add: free_table_def)

text \<open>
  Acquisition, reset, release, unlocking of owned jobs, external fetch (when it does not panic), insertion and
  deletion, but not the replacement of a state under a lock, which replaces the payload but not every column, keep unique ids and the agreement of the columns with the payload.
\<close>

theorem job_operations_keep_table_ok:
  assumes "table_ok t"
  shows "table_ok (snd (acquire_due_timer_jobs_by_states ins sts owner now dur mx sel tf cf policy t))
    \<and> table_ok (snd (reset_expired_job_locks_batch ins now cl ps tf cf t))
    \<and> table_ok (snd (release_timer_job_lock i w t))
    \<and> table_ok (snd (unlock_owned_executable_jobs ins w tf t))
    \<and> pred_option (\<lambda>(_, t'). table_ok t') (fetch_and_lock_external_worker_timer_jobs ins owner now mx dur topic t)
    \<and> table_ok (insert_timer_job_state exs ins uuid now job t)
    \<and> table_ok (delete_timer_job_state i t)"
proof (intro conjI)
  note upd = table_ok_update_rows [OF assms]
  show "table_ok (snd (acquire_due_timer_jobs_by_states ins sts owner now dur mx sel tf cf policy t))"
    by (simp add: acquire_exact [OF assms] upd row_ok_lock)
  show "table_ok (snd (reset_expired_job_locks_batch ins now cl ps tf cf t))"
    by (simp add: reset_batch_exact [OF assms] Let_def upd row_ok_unlock)
  show "table_ok (snd (release_timer_job_lock i w t))"
    by (simp add: release_exact [OF assms] assms upd row_ok_unlock)
  show "table_ok (snd (unlock_owned_executable_jobs ins w tf t))"
    by (rule unlock_owned_keeps_ok [OF assms])
  show "pred_option (\<lambda>(_, t'). table_ok t') (fetch_and_lock_external_worker_timer_jobs ins owner now mx dur topic t)"
    by (cases "checked_add now dur") (simp_all add: fetch_exact [OF assms] Let_def upd row_ok_external assms)
  show "table_ok (insert_timer_job_state exs ins uuid now job t)"
    by (simp add: insert_timer_job_state_def insert_timer_job_state_with_type_def Let_def)
       (rule table_ok_upsert [OF assms], simp add: row_ok_def columns_of_def)
  show "table_ok (delete_timer_job_state i t)"
    using assms by (auto simp: table_ok_def delete_timer_job_state_def distinct_map_filter)
qed

theorem job_operations_keep_table_ok_witness:
  "pred_option (\<lambda>(_, t'). table_ok t') (fetch_and_lock_external_worker_timer_jobs Map.empty ''w'' 10 5 60 None free_table)"
  using job_operations_keep_table_ok [OF example_tables_ok(2)] by blast

text \<open>
  The row limit of the acquisition query is applied before locked rows are discarded: with two
  running jobs due earlier than a waiting one, a request for one job returns none.
\<close>

theorem locked_jobs_starve_waiting_job:
  "acquire_due_timer_jobs_by_states Map.empty [''timer''] owner 10 dur 1 None None None policy busy_table
     = (Inr ([], 0, 0), busy_table)
   \<and> (\<exists>j \<in> row_data ` set busy_table. acquirable Map.empty [''timer''] 10 None None None j)"
proof
  have "acquisition_candidates Map.empty [''timer''] 10 1 None None None busy_table = []"
    by (simp add: acquisition_candidates_def find_with_filters_def take_opt_def sort_rows_def busy_table_def
        due_filters_def order_by_due_time_def saturating_mul_def usize_max_def nonempty_filter_def
        retain_tenant_def retain_category_def Let_def)
  then show "acquire_due_timer_jobs_by_states Map.empty [''timer''] owner 10 dur 1 None None None policy busy_table
     = (Inr ([], 0, 0), busy_table)"
    by (simp add: acquire_exact [OF example_tables_ok(1)])
  show "\<exists>j \<in> row_data ` set busy_table. acquirable Map.empty [''timer''] 10 None None None j"
    by (simp add: busy_table_def acquirable_def job_matches_tenant_filter_def nonempty_filter_def)
qed

text \<open>
  The row limit of the expired-lock query is applied before the tenant filter: eight expired
  jobs of one tenant hide the expired job of another, so a page for that other tenant scans zero
  rows.
\<close>

theorem filtered_reset_misses_tenant:
  "find_expired_job_lock_candidates tenant_instances 10 ExpiredTimer 1 (Some [''second'']) None tenant_table = []
   \<and> (\<exists>r \<in> set tenant_table. lease_expired 10 ExpiredTimer (row_cols r)
        \<and> job_matches_tenant_filter tenant_instances (row_data r) (Some [''second'']))"
proof
  have expired: "filter (\<lambda>r. lease_expired 10 ExpiredTimer (row_cols r)) tenant_table = tenant_table"
    by (simp add: tenant_table_def lease_expired_def)
  have sorted: "sort_rows order_by_id tenant_table = tenant_table"
    by (simp add: tenant_table_def sort_rows_def order_by_id_def)
  have limit: "max (saturating_mul (Suc 0) 8) (Suc 0) = (8::nat)" by (simp add: saturating_mul_def usize_max_def)
  have c0: "find_with_filters (lease_expired 10 ExpiredTimer) order_by_id (Some 8) tenant_table
      = map (\<lambda>i. example_job i (Some ''w'') 1 ''p'') [''a'', ''b'', ''c'', ''d'', ''e'', ''f'', ''g'', ''h'']"
    unfolding find_with_filters_def expired sorted by (simp add: take_opt_def tenant_table_def)
  have other: "\<not> job_matches_tenant_filter tenant_instances (example_job i (Some ''w'') 1 ''p'') (Some [''second''])" for i
    by (simp add: job_matches_tenant_filter_def tenant_instances_def)
  have "nonempty_filter (Some [''second''])" "\<not> nonempty_filter None" by (simp_all add: nonempty_filter_def)
  then show "find_expired_job_lock_candidates tenant_instances 10 ExpiredTimer 1 (Some [''second'']) None tenant_table = []"
    unfolding find_expired_job_lock_candidates_def Let_def
    by (simp add: limit c0 [unfolded lease_expired_def] other sort_rows_def)
  show "\<exists>r \<in> set tenant_table. lease_expired 10 ExpiredTimer (row_cols r)
        \<and> job_matches_tenant_filter tenant_instances (row_data r) (Some [''second''])"
    by (rule bexI [of _ "example_row (example_job ''i'' (Some ''w'') 1 ''q'')"])
       (simp_all add: tenant_table_def lease_expired_def job_matches_tenant_filter_def tenant_instances_def)
qed

end
