(* ===== verification/Json_Value.thy ===== *)
theory Json_Value
  imports Prelude
begin

text \<open>
  \<open>serde_json::Value\<close> as the engines use it: the variants of the enum, with a number stored as an
  unsigned integer, a negative integer or a float, and an object as its entries in the order of the
  map. An \<open>IndexMap\<close> is an association list in insertion order.
\<close>

type_synonym 'a index_map = "(string \<times> 'a) list"

datatype json_number = PosInt "64 word" | NegInt "64 word" | JsonFloat f64

datatype json =
    JsonNull
  | JsonBool bool
  | JsonNumber json_number
  | JsonString string
  | JsonArray "json list"
  | JsonObject "(string \<times> json) list"

end
