(* ===== verification/Bpmn_Model.thy ===== *)
theory Bpmn_Model
  imports Json_Value
begin

text \<open>
  The BPMN object model of \<open>flowable-bpmn-model/src/model.rs\<close>: one type per struct and enum
  of that file, in dependency order. A struct is a record whose fields carry the struct's
  name as a prefix; the structs that contain themselves through a collection
  (\<open>BaseElement\<close> and \<open>ExtensionElement\<close>, the subprocess kinds and
  \<open>FlowElementEnum\<close>, \<open>Process\<close> and \<open>Lane\<close>) are mutually recursive datatypes with the same
  selectors. An \<open>IndexMap\<close> is an association list in insertion order, a floating-point
  coordinate is its 64-bit pattern, and \<open>serde_json::Value\<close> is the datatype \<open>json\<close> of \<open>Json_Value\<close>.
  \<open>default_X\<close> is the value of \<open>X::default()\<close>.
\<close>

section \<open>Library types\<close>

type_synonym i32 = "32 word"

section \<open>Structs and enums\<close>

record extension_attribute =
  extension_attribute_name :: "string option"
  extension_attribute_value :: "string option"
  extension_attribute_namespace_prefix :: "string option"
  extension_attribute_namespace :: "string option"

datatype base_element = MkBaseElement
      (base_element_id: "string option")
      (base_element_xml_row_number: i32)
      (base_element_xml_column_number: i32)
      (base_element_extension_elements: "extension_element list index_map")
      (base_element_attributes: "extension_attribute list index_map")
and extension_element = MkExtensionElement
      (extension_element_base_element: base_element)
      (extension_element_name: "string option")
      (extension_element_namespace_prefix: "string option")
      (extension_element_namespace: "string option")
      (extension_element_element_text: "string option")
      (extension_element_child_elements: "extension_element list index_map")

record field_extension =
  field_extension_base_element :: base_element
  field_extension_field_name :: "string option"
  field_extension_string_value :: "string option"
  field_extension_expression :: "string option"

record flowable_listener =
  flowable_listener_base_element :: base_element
  flowable_listener_event :: "string option"
  flowable_listener_implementation_type :: "string option"
  flowable_listener_implementation :: "string option"
  flowable_listener_on_transaction :: "string option"
  flowable_listener_custom_properties_resolver_implementation_type :: "string option"
  flowable_listener_custom_properties_resolver_implementation :: "string option"
  flowable_listener_field_extensions :: "field_extension list"

record flow_element =
  flow_element_base_element :: base_element
  flow_element_name :: "string option"
  flow_element_documentation :: "string option"
  flow_element_execution_listeners :: "flowable_listener list"

record graphic_info =
  graphic_info_x :: f64
  graphic_info_y :: f64
  graphic_info_height :: f64
  graphic_info_width :: f64
  graphic_info_xml_row_number :: i32
  graphic_info_xml_column_number :: i32
  graphic_info_rotation :: f64
  graphic_info_expanded :: "bool option"

record sequence_flow =
  sequence_flow_flow_element :: flow_element
  sequence_flow_condition_expression :: "string option"
  sequence_flow_condition_language :: "string option"
  sequence_flow_source_ref :: "string option"
  sequence_flow_target_ref :: "string option"
  sequence_flow_skip_expression :: "string option"
  sequence_flow_waypoints :: "graphic_info list"

record flow_node =
  flow_node_flow_element :: flow_element
  flow_node_asynchronous :: bool
  flow_node_asynchronous_leave :: bool
  flow_node_not_exclusive :: bool
  flow_node_asynchronous_leave_not_exclusive :: bool
  flow_node_exclusive :: bool
  flow_node_asynchronous_leave_exclusive :: bool
  flow_node_incoming_flows :: "sequence_flow list"
  flow_node_outgoing_flows :: "sequence_flow list"

record collection_handler =
  collection_handler_base_element :: base_element
  collection_handler_implementation_type :: "string option"
  collection_handler_implementation :: "string option"

record variable_aggregation_definition_variable =
  variable_aggregation_definition_variable_source :: "string option"
  variable_aggregation_definition_variable_source_expression :: "string option"
  variable_aggregation_definition_variable_target :: "string option"
  variable_aggregation_definition_variable_target_expression :: "string option"

record variable_aggregation_definition =
  variable_aggregation_definition_target :: "string option"
  variable_aggregation_definition_target_expression :: "string option"
  variable_aggregation_definition_implementation_type :: "string option"
  variable_aggregation_definition_implementation :: "string option"
  variable_aggregation_definition_create_overview_variable :: bool
  variable_aggregation_definition_store_as_transient_variable :: bool
  variable_aggregation_definition_definitions :: "variable_aggregation_definition_variable list"

record variable_aggregation_definitions =
  variable_aggregation_definitions_aggregations :: "variable_aggregation_definition list"
  variable_aggregation_definitions_overview_aggregations :: "variable_aggregation_definition list"

record multi_instance_loop_characteristics =
  multi_instance_loop_characteristics_base_element :: base_element
  multi_instance_loop_characteristics_input_data_item :: "string option"
  multi_instance_loop_characteristics_collection_string :: "string option"
  multi_instance_loop_characteristics_handler :: "collection_handler option"
  multi_instance_loop_characteristics_loop_cardinality :: "string option"
  multi_instance_loop_characteristics_completion_condition :: "string option"
  multi_instance_loop_characteristics_element_variable :: "string option"
  multi_instance_loop_characteristics_element_index_variable :: "string option"
  multi_instance_loop_characteristics_sequential :: bool
  multi_instance_loop_characteristics_aggregations :: "variable_aggregation_definitions option"
  multi_instance_loop_characteristics_no_wait_states_async_leave :: bool

record assignment =
  assignment_base_element :: base_element
  assignment_from :: "string option"
  assignment_to :: "string option"

record data_association =
  data_association_base_element :: base_element
  data_association_source_ref :: "string option"
  data_association_target_ref :: "string option"
  data_association_transformation :: "string option"
  data_association_assignments :: "assignment list"

record map_exception_entry =
  map_exception_entry_class_name :: "string option"
  map_exception_entry_error_code :: "string option"
  map_exception_entry_and_children :: bool
  map_exception_entry_root_cause :: "string option"

record timer_event_definition =
  timer_event_definition_base_element :: base_element
  timer_event_definition_time_date :: "string option"
  timer_event_definition_time_duration :: "string option"
  timer_event_definition_time_cycle :: "string option"
  timer_event_definition_end_date :: "string option"
  timer_event_definition_calendar_name :: "string option"

record error_event_definition =
  error_event_definition_base_element :: base_element
  error_event_definition_error_code :: "string option"
  error_event_definition_error_ref :: "string option"
  error_event_definition_error_variable_name :: "string option"
  error_event_definition_error_variable_local_scope :: bool
  error_event_definition_error_variable_transient :: bool

record message_event_definition =
  message_event_definition_base_element :: base_element
  message_event_definition_message_ref :: "string option"
  message_event_definition_message_expression :: "string option"

record signal_event_definition =
  signal_event_definition_base_element :: base_element
  signal_event_definition_signal_ref :: "string option"
  signal_event_definition_signal_expression :: "string option"

record cancel_event_definition =
  cancel_event_definition_base_element :: base_element

record compensate_event_definition =
  compensate_event_definition_base_element :: base_element
  compensate_event_definition_activity_ref :: "string option"
  compensate_event_definition_wait_for_completion :: bool

record conditional_event_definition =
  conditional_event_definition_base_element :: base_element
  conditional_event_definition_condition_expression :: "string option"

record link_event_definition =
  link_event_definition_base_element :: base_element
  link_event_definition_name :: "string option"
  link_event_definition_target :: "string option"
  link_event_definition_source :: "string list"

record escalation_event_definition =
  escalation_event_definition_base_element :: base_element
  escalation_event_definition_escalation_ref :: "string option"
  escalation_event_definition_escalation_code :: "string option"

record variable_listener_event_definition =
  variable_listener_event_definition_base_element :: base_element
  variable_listener_event_definition_variable_name :: "string option"
  variable_listener_event_definition_variable_change_type :: "string option"

record terminate_event_definition =
  terminate_event_definition_base_element :: base_element
  terminate_event_definition_terminate_all :: bool
  terminate_event_definition_terminate_multi_instance :: bool

datatype event_definition_enum =
    TimerEventDefinition timer_event_definition
  | ErrorEventDefinition error_event_definition
  | MessageEventDefinition message_event_definition
  | SignalEventDefinition signal_event_definition
  | CancelEventDefinition cancel_event_definition
  | CompensateEventDefinition compensate_event_definition
  | ConditionalEventDefinition conditional_event_definition
  | LinkEventDefinition link_event_definition
  | EscalationEventDefinition escalation_event_definition
  | VariableListenerEventDefinition variable_listener_event_definition
  | TerminateEventDefinition terminate_event_definition

record event =
  event_flow_node :: flow_node
  event_event_definitions :: "event_definition_enum list"

record io_parameter =
  io_parameter_base_element :: base_element
  io_parameter_source :: "string option"
  io_parameter_source_expression :: "string option"
  io_parameter_target :: "string option"
  io_parameter_target_expression :: "string option"
  io_parameter_transient :: bool

record boundary_event =
  boundary_event_event :: event
  boundary_event_attached_to_ref_id :: "string option"
  boundary_event_cancel_activity :: bool
  boundary_event_in_parameters :: "io_parameter list"
  boundary_event_out_parameters :: "io_parameter list"

record activity =
  activity_flow_node :: flow_node
  activity_failed_job_retry_time_cycle_value :: "string option"
  activity_default_flow :: "string option"
  activity_is_for_compensation :: bool
  activity_for_compensation :: bool
  activity_loop_characteristics :: "multi_instance_loop_characteristics option"
  activity_data_input_associations :: "data_association list"
  activity_data_output_associations :: "data_association list"
  activity_map_exceptions :: "map_exception_entry list"
  activity_boundary_events :: "boundary_event list"
  activity_field_extensions :: "field_extension list"

record item_definition =
  item_definition_base_element :: base_element
  item_definition_structure_ref :: "string option"
  item_definition_item_kind :: "string option"
  item_definition_is_collection :: bool

record valued_data_object =
  valued_data_object_base_element :: base_element
  valued_data_object_name :: "string option"
  valued_data_object_documentation :: "string option"
  valued_data_object_execution_listeners :: "flowable_listener list"
  valued_data_object_item_subject_ref :: item_definition
  valued_data_object_value :: "json option"
  valued_data_object_data_type :: "string option"
  valued_data_object_data_object_ref :: "string option"

record task =
  task_activity :: activity

record form_value =
  form_value_base_element :: base_element
  form_value_name :: "string option"

record form_property =
  form_property_base_element :: base_element
  form_property_name :: "string option"
  form_property_expression :: "string option"
  form_property_variable :: "string option"
  form_property_property_type :: "string option"
  form_property_default_expression :: "string option"
  form_property_date_pattern :: "string option"
  form_property_readable :: bool
  form_property_writeable :: bool
  form_property_required :: bool
  form_property_form_values :: "form_value list"

record user_task =
  user_task_task :: task
  user_task_assignee :: "string option"
  user_task_owner :: "string option"
  user_task_priority :: "string option"
  user_task_form_key :: "string option"
  user_task_category :: "string option"
  user_task_extension_id :: "string option"
  user_task_same_deployment :: bool
  user_task_validate_form_fields :: "string option"
  user_task_skip_expression :: "string option"
  user_task_task_id_variable_name :: "string option"
  user_task_task_completer_variable_name :: "string option"
  user_task_extended :: bool
  user_task_due_date :: "string option"
  user_task_business_calendar_name :: "string option"
  user_task_candidate_users :: "string list"
  user_task_candidate_groups :: "string list"
  user_task_form_properties :: "form_property list"
  user_task_task_listeners :: "flowable_listener list"

record http_handler_script_info =
  http_handler_script_info_language :: "string option"
  http_handler_script_info_script :: "string option"
  http_handler_script_info_result_variable :: "string option"

record http_handler_definition =
  http_handler_definition_implementation :: "string option"
  http_handler_definition_implementation_type :: "string option"
  http_handler_definition_field_extensions :: "field_extension list"
  http_handler_definition_script_info :: "http_handler_script_info option"

record service_task =
  service_task_task :: task
  service_task_implementation :: "string option"
  service_task_implementation_type :: "string option"
  service_task_form_key :: "string option"
  service_task_validate_form_fields :: "string option"
  service_task_result_variable_name :: "string option"
  service_task_parallel_in_same_transaction :: "bool option"
  service_task_task_type :: "string option"
  service_task_topic :: "string option"
  service_task_do_not_include_variables :: bool
  service_task_event_type :: "string option"
  service_task_trigger_event_type :: "string option"
  service_task_send_synchronously :: bool
  service_task_extension_id :: "string option"
  service_task_skip_expression :: "string option"
  service_task_use_local_scope_for_result_variable :: bool
  service_task_triggerable :: bool
  service_task_extended :: bool
  service_task_store_result_variable_as_transient :: bool
  service_task_in_parameters :: "io_parameter list"
  service_task_out_parameters :: "io_parameter list"
  service_task_event_in_parameters :: "io_parameter list"
  service_task_event_out_parameters :: "io_parameter list"
  service_task_http_request_handler :: "http_handler_definition option"
  service_task_http_response_handler :: "http_handler_definition option"

record case_service_task =
  case_service_task_service_task :: service_task
  case_service_task_case_definition_key :: "string option"
  case_service_task_case_instance_name :: "string option"
  case_service_task_same_deployment :: bool
  case_service_task_business_key :: "string option"
  case_service_task_inherit_business_key :: bool
  case_service_task_fallback_to_default_tenant :: bool
  case_service_task_case_instance_id_variable_name :: "string option"

record send_task =
  send_task_service_task :: service_task
  send_task_operation_ref :: "string option"

record script_task =
  script_task_task :: task
  script_task_script_format :: "string option"
  script_task_script :: "string option"
  script_task_result_variable :: "string option"
  script_task_skip_expression :: "string option"
  script_task_auto_store_variables :: bool
  script_task_do_not_include_variables :: bool
  script_task_in_parameters :: "io_parameter list"
  script_task_out_parameters :: "io_parameter list"

record manual_task =
  manual_task_task :: task

record receive_task =
  receive_task_task :: task
  receive_task_message_ref :: "string option"
  receive_task_skip_expression :: "string option"

record business_rule_task =
  business_rule_task_task :: task
  business_rule_task_decision_ref :: "string option"
  business_rule_task_result_variable_name :: "string option"
  business_rule_task_exclude :: bool
  business_rule_task_rule_names :: "string list"
  business_rule_task_input_variables :: "string list"
  business_rule_task_class_name :: "string option"

record start_event =
  start_event_event :: event
  start_event_initiator :: "string option"
  start_event_form_key :: "string option"
  start_event_same_deployment :: bool
  start_event_interrupting :: bool
  start_event_form_properties :: "form_property list"

record end_event =
  end_event_event :: event

record gateway =
  gateway_flow_node :: flow_node
  gateway_default_flow :: "string option"

record exclusive_gateway =
  exclusive_gateway_gateway :: gateway

record parallel_gateway =
  parallel_gateway_gateway :: gateway

record inclusive_gateway =
  inclusive_gateway_gateway :: gateway

record event_based_gateway =
  event_based_gateway_gateway :: gateway
  event_based_gateway_instantiate :: "bool option"
  event_based_gateway_event_gateway_type :: "string option"

record complex_gateway =
  complex_gateway_gateway :: gateway
  complex_gateway_activation_condition :: "string option"

record intermediate_catch_event =
  intermediate_catch_event_event :: event

record intermediate_throw_event =
  intermediate_throw_event_event :: event

record call_activity =
  call_activity_activity :: activity
  call_activity_called_element :: "string option"
  call_activity_called_element_type :: "string option"
  call_activity_called_element_binding :: "string option"
  call_activity_inherit_variables :: bool
  call_activity_use_local_scope_for_out_parameters :: bool
  call_activity_complete_async :: bool
  call_activity_fallback_to_default_tenant :: "bool option"
  call_activity_inherit_business_key :: bool
  call_activity_same_deployment :: bool
  call_activity_business_key :: "string option"
  call_activity_process_instance_name :: "string option"
  call_activity_process_instance_id_variable_name :: "string option"
  call_activity_in_parameters :: "io_parameter list"
  call_activity_out_parameters :: "io_parameter list"

record association =
  association_base_element :: base_element
  association_source_ref :: "string option"
  association_target_ref :: "string option"
  association_association_direction :: "string option"

record text_annotation =
  text_annotation_base_element :: base_element
  text_annotation_text :: "string option"
  text_annotation_text_format :: "string option"

record group_artifact =
  group_artifact_base_element :: base_element
  group_artifact_category_value_ref :: "string option"

datatype artifact_enum =
    Association association
  | TextAnnotation text_annotation
  | Group group_artifact

datatype flow_element_enum =
      FeSequenceFlow sequence_flow
    | FeTask task
    | FeUserTask user_task
    | FeServiceTask service_task
    | FeCaseServiceTask case_service_task
    | FeSendTask send_task
    | FeScriptTask script_task
    | FeManualTask manual_task
    | FeReceiveTask receive_task
    | FeBusinessRuleTask business_rule_task
    | FeStartEvent start_event
    | FeEndEvent end_event
    | FeExclusiveGateway exclusive_gateway
    | FeParallelGateway parallel_gateway
    | FeInclusiveGateway inclusive_gateway
    | FeEventBasedGateway event_based_gateway
    | FeComplexGateway complex_gateway
    | FeIntermediateCatchEvent intermediate_catch_event
    | FeIntermediateThrowEvent intermediate_throw_event
    | FeSubProcess sub_process
    | FeTransaction transaction
    | FeEventSubProcess event_sub_process
    | FeAdhocSubProcess adhoc_sub_process
    | FeCallActivity call_activity
    | FeValuedDataObject valued_data_object
    | FeBoundaryEvent boundary_event
and sub_process = MkSubProcess
      (sub_process_activity: activity)
      (sub_process_flow_elements: "flow_element_enum list")
      (sub_process_flow_element_map: "flow_element_enum index_map")
      (sub_process_artifacts: "artifact_enum list")
      (sub_process_artifact_map: "artifact_enum index_map")
      (sub_process_data_objects: "valued_data_object list")
      (sub_process_triggered_by_event: bool)
and transaction = MkTransaction
      (transaction_sub_process: sub_process)
and event_sub_process = MkEventSubProcess
      (event_sub_process_sub_process: sub_process)
and adhoc_sub_process = MkAdhocSubProcess
      (adhoc_sub_process_sub_process: sub_process)
      (adhoc_sub_process_completion_condition: "string option")
      (adhoc_sub_process_ordering: "string option")
      (adhoc_sub_process_cancel_remaining_instances: bool)

datatype process = MkProcess
      (process_base_element: base_element)
      (process_name: "string option")
      (process_executable: bool)
      (process_documentation: "string option")
      (process_io_specification: "string option")
      (process_execution_listeners: "flowable_listener list")
      (process_lanes: "lane list")
      (process_data_objects: "valued_data_object list")
      (process_candidate_starter_users: "string list")
      (process_candidate_starter_groups: "string list")
      (process_event_listeners: "string list")
      (process_enable_eager_execution_tree_fetching: bool)
      (process_flow_elements: "flow_element_enum list")
      (process_flow_element_map: "flow_element_enum index_map")
      (process_artifacts: "artifact_enum list")
      (process_artifact_map: "artifact_enum index_map")
      (process_associations: "association list")
and lane = MkLane
      (lane_base_element: base_element)
      (lane_name: "string option")
      (lane_parent_process: "process option")
      (lane_flow_references: "string list")

record bpmn_di_edge =
  bpmn_di_edge_id :: "string option"
  bpmn_di_edge_waypoints :: "graphic_info list"
  bpmn_di_edge_source_docker_info :: "graphic_info option"
  bpmn_di_edge_target_docker_info :: "graphic_info option"

record signal =
  signal_base_element :: base_element
  signal_name :: "string option"
  signal_scope :: "string option"

record pool =
  pool_base_element :: base_element
  pool_name :: "string option"
  pool_process_ref :: "string option"
  pool_executable :: bool

record import_def =
  import_def_base_element :: base_element
  import_def_import_type :: "string option"
  import_def_location :: "string option"
  import_def_namespace :: "string option"

record interface =
  interface_base_element :: base_element
  interface_name :: "string option"
  interface_implementation_ref :: "string option"

record resource =
  resource_base_element :: base_element
  resource_name :: "string option"

record message =
  message_base_element :: base_element
  message_name :: "string option"
  message_item_ref :: "string option"

record data_store =
  data_store_base_element :: base_element
  data_store_name :: "string option"
  data_store_data_state :: "string option"
  data_store_item_subject_ref :: "string option"

record message_flow =
  message_flow_base_element :: base_element
  message_flow_name :: "string option"
  message_flow_source_ref :: "string option"
  message_flow_target_ref :: "string option"
  message_flow_message_ref :: "string option"

record escalation =
  escalation_base_element :: base_element
  escalation_name :: "string option"
  escalation_escalation_code :: "string option"

record bpmn_model =
  bpmn_model_definitions_attributes :: "extension_attribute list index_map"
  bpmn_model_processes :: "process list"
  bpmn_model_location_map :: "graphic_info index_map"
  bpmn_model_label_location_map :: "graphic_info index_map"
  bpmn_model_flow_location_map :: "graphic_info list index_map"
  bpmn_model_edge_map :: "bpmn_di_edge index_map"
  bpmn_model_signals :: "signal list"
  bpmn_model_pools :: "pool list"
  bpmn_model_imports :: "import_def list"
  bpmn_model_interfaces :: "interface list"
  bpmn_model_global_artifacts :: "artifact_enum list"
  bpmn_model_resources :: "resource list"
  bpmn_model_target_namespace :: "string option"
  bpmn_model_source_system_id :: "string option"
  bpmn_model_user_task_form_types :: "string list option"
  bpmn_model_start_event_form_types :: "string list option"
  bpmn_model_exporter :: "string option"
  bpmn_model_exporter_version :: "string option"
  bpmn_model_messages :: "message list"
  bpmn_model_errors :: "string \<rightharpoonup> string"
  bpmn_model_namespaces :: "string index_map"
  bpmn_model_data_stores :: "data_store index_map"
  bpmn_model_message_flows :: "message_flow index_map"
  bpmn_model_escalations :: "escalation list"
  bpmn_model_item_definitions :: "item_definition index_map"
  bpmn_model_main_process :: "process option"

datatype sub_process_enum =
    SpeSubProcess sub_process
  | SpeTransaction transaction
  | SpeEventSubProcess event_sub_process
  | SpeAdhocSubProcess adhoc_sub_process

section \<open>Defaults\<close>

definition default_base_element :: base_element where
  "default_base_element =
     MkBaseElement None 0 0 [] []"

definition default_flow_element :: flow_element where
  "default_flow_element =
     \<lparr>flow_element_base_element = default_base_element,
      flow_element_name = None,
      flow_element_documentation = None,
      flow_element_execution_listeners = []\<rparr>"

definition default_flow_node :: flow_node where
  "default_flow_node =
     \<lparr>flow_node_flow_element = default_flow_element,
      flow_node_asynchronous = False,
      flow_node_asynchronous_leave = False,
      flow_node_not_exclusive = False,
      flow_node_asynchronous_leave_not_exclusive = False,
      flow_node_exclusive = False,
      flow_node_asynchronous_leave_exclusive = False,
      flow_node_incoming_flows = [],
      flow_node_outgoing_flows = []\<rparr>"

definition default_sequence_flow :: sequence_flow where
  "default_sequence_flow =
     \<lparr>sequence_flow_flow_element = default_flow_element,
      sequence_flow_condition_expression = None,
      sequence_flow_condition_language = None,
      sequence_flow_source_ref = None,
      sequence_flow_target_ref = None,
      sequence_flow_skip_expression = None,
      sequence_flow_waypoints = []\<rparr>"

definition default_activity :: activity where
  "default_activity =
     \<lparr>activity_flow_node = default_flow_node,
      activity_failed_job_retry_time_cycle_value = None,
      activity_default_flow = None,
      activity_is_for_compensation = False,
      activity_for_compensation = False,
      activity_loop_characteristics = None,
      activity_data_input_associations = [],
      activity_data_output_associations = [],
      activity_map_exceptions = [],
      activity_boundary_events = [],
      activity_field_extensions = []\<rparr>"

definition default_event :: event where
  "default_event =
     \<lparr>event_flow_node = default_flow_node,
      event_event_definitions = []\<rparr>"

definition default_gateway :: gateway where
  "default_gateway =
     \<lparr>gateway_flow_node = default_flow_node,
      gateway_default_flow = None\<rparr>"

definition default_task :: task where
  "default_task =
     \<lparr>task_activity = default_activity\<rparr>"

definition default_sub_process :: sub_process where
  "default_sub_process =
     MkSubProcess default_activity [] [] [] [] [] False"

definition default_form_property :: form_property where
  "default_form_property =
     \<lparr>form_property_base_element = default_base_element,
      form_property_name = None,
      form_property_expression = None,
      form_property_variable = None,
      form_property_property_type = None,
      form_property_default_expression = None,
      form_property_date_pattern = None,
      form_property_readable = True,
      form_property_writeable = True,
      form_property_required = False,
      form_property_form_values = []\<rparr>"

definition default_compensate_event_definition :: compensate_event_definition where
  "default_compensate_event_definition =
     \<lparr>compensate_event_definition_base_element = default_base_element,
      compensate_event_definition_activity_ref = None,
      compensate_event_definition_wait_for_completion = True\<rparr>"

definition default_pool :: pool where
  "default_pool =
     \<lparr>pool_base_element = default_base_element,
      pool_name = None,
      pool_process_ref = None,
      pool_executable = True\<rparr>"

definition default_process :: process where
  "default_process =
     MkProcess default_base_element None True None None [] [] [] [] [] [] False [] [] [] [] []"

definition default_bpmn_model :: bpmn_model where
  "default_bpmn_model =
     \<lparr>bpmn_model_definitions_attributes = [], bpmn_model_processes = [],
      bpmn_model_location_map = [], bpmn_model_label_location_map = [],
      bpmn_model_flow_location_map = [], bpmn_model_edge_map = [], bpmn_model_signals = [],
      bpmn_model_pools = [], bpmn_model_imports = [], bpmn_model_interfaces = [],
      bpmn_model_global_artifacts = [], bpmn_model_resources = [], bpmn_model_target_namespace = None,
      bpmn_model_source_system_id = None, bpmn_model_user_task_form_types = None,
      bpmn_model_start_event_form_types = None, bpmn_model_exporter = None,
      bpmn_model_exporter_version = None, bpmn_model_messages = [], bpmn_model_errors = Map.empty,
      bpmn_model_namespaces = [], bpmn_model_data_stores = [], bpmn_model_message_flows = [],
      bpmn_model_escalations = [], bpmn_model_item_definitions = [],
      bpmn_model_main_process = None\<rparr>"

definition default_adhoc_sub_process :: adhoc_sub_process where
  "default_adhoc_sub_process =
     MkAdhocSubProcess default_sub_process None None True"

definition default_boundary_event :: boundary_event where
  "default_boundary_event =
     \<lparr>boundary_event_event = default_event,
      boundary_event_attached_to_ref_id = None,
      boundary_event_cancel_activity = True,
      boundary_event_in_parameters = [],
      boundary_event_out_parameters = []\<rparr>"

definition default_user_task :: user_task where
  "default_user_task =
     \<lparr>user_task_task = default_task,
      user_task_assignee = None,
      user_task_owner = None,
      user_task_priority = None,
      user_task_form_key = None,
      user_task_category = None,
      user_task_extension_id = None,
      user_task_same_deployment = True,
      user_task_validate_form_fields = None,
      user_task_skip_expression = None,
      user_task_task_id_variable_name = None,
      user_task_task_completer_variable_name = None,
      user_task_extended = False,
      user_task_due_date = None,
      user_task_business_calendar_name = None,
      user_task_candidate_users = [],
      user_task_candidate_groups = [],
      user_task_form_properties = [],
      user_task_task_listeners = []\<rparr>"

definition default_start_event :: start_event where
  "default_start_event =
     \<lparr>start_event_event = default_event,
      start_event_initiator = None,
      start_event_form_key = None,
      start_event_same_deployment = True,
      start_event_interrupting = True,
      start_event_form_properties = []\<rparr>"

definition default_service_task :: service_task where
  "default_service_task =
     \<lparr>service_task_task = default_task,
      service_task_implementation = None,
      service_task_implementation_type = None,
      service_task_form_key = None,
      service_task_validate_form_fields = None,
      service_task_result_variable_name = None,
      service_task_parallel_in_same_transaction = None,
      service_task_task_type = None,
      service_task_topic = None,
      service_task_do_not_include_variables = False,
      service_task_event_type = None,
      service_task_trigger_event_type = None,
      service_task_send_synchronously = False,
      service_task_extension_id = None,
      service_task_skip_expression = None,
      service_task_use_local_scope_for_result_variable = False,
      service_task_triggerable = False,
      service_task_extended = False,
      service_task_store_result_variable_as_transient = False,
      service_task_in_parameters = [],
      service_task_out_parameters = [],
      service_task_event_in_parameters = [],
      service_task_event_out_parameters = [],
      service_task_http_request_handler = None,
      service_task_http_response_handler = None\<rparr>"

definition default_send_task :: send_task where
  "default_send_task =
     \<lparr>send_task_service_task = default_service_task,
      send_task_operation_ref = None\<rparr>"

section \<open>Methods\<close>

fun sub_process_enum_sub_process :: "sub_process_enum \<Rightarrow> sub_process" where
  "sub_process_enum_sub_process (SpeSubProcess s) = s"
| "sub_process_enum_sub_process (SpeTransaction t) = transaction_sub_process t"
| "sub_process_enum_sub_process (SpeEventSubProcess e) = event_sub_process_sub_process e"
| "sub_process_enum_sub_process (SpeAdhocSubProcess a) = adhoc_sub_process_sub_process a"

definition ensure_case_type :: "case_service_task \<Rightarrow> case_service_task" where
  "ensure_case_type t =
     t\<lparr>case_service_task_service_task :=
        (case_service_task_service_task t)\<lparr>service_task_task_type := Some ''case''\<rparr>\<rparr>"

definition case_service_task_in_parameters :: "case_service_task \<Rightarrow> io_parameter list" where
  "case_service_task_in_parameters t = service_task_in_parameters (case_service_task_service_task t)"

definition case_service_task_out_parameters :: "case_service_task \<Rightarrow> io_parameter list" where
  "case_service_task_out_parameters t = service_task_out_parameters (case_service_task_service_task t)"

definition case_service_task_activity_id :: "case_service_task \<Rightarrow> string option" where
  "case_service_task_activity_id t =
     base_element_id (flow_element_base_element (flow_node_flow_element (activity_flow_node
       (task_activity (service_task_task (case_service_task_service_task t))))))"

end
