(* ===== verification/Flow_Elements.thy ===== *)
theory Flow_Elements
  imports Bpmn_Model
begin

text \<open>
  The accessors the engine uses to read a flow element:
  \<open>flowable-engine/src/agenda/continue_process_operation.rs\<close> (identity, lookup, asynchronous
  continuation flags) and \<open>flowable-engine/src/agenda/take_outgoing_sequence_flows_operation.rs\<close>
  (outgoing flows, default flow). Each is a case distinction with exactly the variants the
  source lists and the same fallback. An \<open>IndexMap\<close> lookup is \<open>map_of\<close>.
\<close>

section \<open>Identity and lookup\<close>

definition flow_element_id :: "flow_element_enum \<Rightarrow> string option" where
  "flow_element_id element =
     (case element of
        FeSequenceFlow flow_flow \<Rightarrow> base_element_id (flow_element_base_element (sequence_flow_flow_element flow_flow))
      | FeTask task \<Rightarrow> base_element_id (flow_element_base_element (flow_node_flow_element (activity_flow_node (task_activity task))))
      | FeUserTask task \<Rightarrow> base_element_id (flow_element_base_element (flow_node_flow_element (activity_flow_node (task_activity (user_task_task task)))))
      | FeServiceTask task \<Rightarrow> base_element_id (flow_element_base_element (flow_node_flow_element (activity_flow_node (task_activity (service_task_task task)))))
      | FeCaseServiceTask task \<Rightarrow> base_element_id (flow_element_base_element (flow_node_flow_element (activity_flow_node (task_activity (service_task_task (case_service_task_service_task task))))))
      | FeSendTask task \<Rightarrow> base_element_id (flow_element_base_element (flow_node_flow_element (activity_flow_node (task_activity (service_task_task (send_task_service_task task))))))
      | FeScriptTask task \<Rightarrow> base_element_id (flow_element_base_element (flow_node_flow_element (activity_flow_node (task_activity (script_task_task task)))))
      | FeManualTask task \<Rightarrow> base_element_id (flow_element_base_element (flow_node_flow_element (activity_flow_node (task_activity (manual_task_task task)))))
      | FeReceiveTask task \<Rightarrow> base_element_id (flow_element_base_element (flow_node_flow_element (activity_flow_node (task_activity (receive_task_task task)))))
      | FeBusinessRuleTask task \<Rightarrow> base_element_id (flow_element_base_element (flow_node_flow_element (activity_flow_node (task_activity (business_rule_task_task task)))))
      | FeStartEvent event \<Rightarrow> base_element_id (flow_element_base_element (flow_node_flow_element (event_flow_node (start_event_event event))))
      | FeEndEvent event \<Rightarrow> base_element_id (flow_element_base_element (flow_node_flow_element (event_flow_node (end_event_event event))))
      | FeExclusiveGateway gateway \<Rightarrow> base_element_id (flow_element_base_element (flow_node_flow_element (gateway_flow_node (exclusive_gateway_gateway gateway))))
      | FeParallelGateway gateway \<Rightarrow> base_element_id (flow_element_base_element (flow_node_flow_element (gateway_flow_node (parallel_gateway_gateway gateway))))
      | FeInclusiveGateway gateway \<Rightarrow> base_element_id (flow_element_base_element (flow_node_flow_element (gateway_flow_node (inclusive_gateway_gateway gateway))))
      | FeEventBasedGateway gateway \<Rightarrow> base_element_id (flow_element_base_element (flow_node_flow_element (gateway_flow_node (event_based_gateway_gateway gateway))))
      | FeComplexGateway gateway \<Rightarrow> base_element_id (flow_element_base_element (flow_node_flow_element (gateway_flow_node (complex_gateway_gateway gateway))))
      | FeIntermediateCatchEvent event \<Rightarrow> base_element_id (flow_element_base_element (flow_node_flow_element (event_flow_node (intermediate_catch_event_event event))))
      | FeIntermediateThrowEvent event \<Rightarrow> base_element_id (flow_element_base_element (flow_node_flow_element (event_flow_node (intermediate_throw_event_event event))))
      | FeSubProcess sub_process \<Rightarrow> base_element_id (flow_element_base_element (flow_node_flow_element (activity_flow_node (sub_process_activity sub_process))))
      | FeTransaction transaction \<Rightarrow> base_element_id (flow_element_base_element (flow_node_flow_element (activity_flow_node (sub_process_activity (transaction_sub_process transaction)))))
      | FeEventSubProcess event_sub_process \<Rightarrow> base_element_id (flow_element_base_element (flow_node_flow_element (activity_flow_node (sub_process_activity (event_sub_process_sub_process event_sub_process)))))
      | FeAdhocSubProcess sub_process \<Rightarrow> base_element_id (flow_element_base_element (flow_node_flow_element (activity_flow_node (sub_process_activity (adhoc_sub_process_sub_process sub_process)))))
      | FeCallActivity call_activity \<Rightarrow> base_element_id (flow_element_base_element (flow_node_flow_element (activity_flow_node (call_activity_activity call_activity))))
      | FeBoundaryEvent boundary_event \<Rightarrow> base_element_id (flow_element_base_element (flow_node_flow_element (event_flow_node (boundary_event_event boundary_event))))
      | FeValuedDataObject data_object \<Rightarrow> base_element_id (valued_data_object_base_element data_object))"

definition flow_element_type :: "flow_element_enum \<Rightarrow> string" where
  "flow_element_type element =
     (case element of
        FeSequenceFlow _ \<Rightarrow> ''SequenceFlow''
      | FeTask _ \<Rightarrow> ''Task''
      | FeUserTask _ \<Rightarrow> ''UserTask''
      | FeServiceTask _ \<Rightarrow> ''ServiceTask''
      | FeCaseServiceTask _ \<Rightarrow> ''CaseServiceTask''
      | FeSendTask _ \<Rightarrow> ''SendTask''
      | FeScriptTask _ \<Rightarrow> ''ScriptTask''
      | FeManualTask _ \<Rightarrow> ''ManualTask''
      | FeReceiveTask _ \<Rightarrow> ''ReceiveTask''
      | FeBusinessRuleTask _ \<Rightarrow> ''BusinessRuleTask''
      | FeStartEvent _ \<Rightarrow> ''StartEvent''
      | FeEndEvent _ \<Rightarrow> ''EndEvent''
      | FeExclusiveGateway _ \<Rightarrow> ''ExclusiveGateway''
      | FeParallelGateway _ \<Rightarrow> ''ParallelGateway''
      | FeInclusiveGateway _ \<Rightarrow> ''InclusiveGateway''
      | FeEventBasedGateway _ \<Rightarrow> ''EventBasedGateway''
      | FeComplexGateway _ \<Rightarrow> ''ComplexGateway''
      | FeIntermediateCatchEvent _ \<Rightarrow> ''IntermediateCatchEvent''
      | FeIntermediateThrowEvent _ \<Rightarrow> ''IntermediateThrowEvent''
      | FeSubProcess _ \<Rightarrow> ''SubProcess''
      | FeTransaction _ \<Rightarrow> ''Transaction''
      | FeEventSubProcess _ \<Rightarrow> ''EventSubProcess''
      | FeAdhocSubProcess _ \<Rightarrow> ''AdhocSubProcess''
      | FeCallActivity _ \<Rightarrow> ''CallActivity''
      | FeBoundaryEvent _ \<Rightarrow> ''BoundaryEvent''
      | FeValuedDataObject _ \<Rightarrow> ''ValuedDataObject'')"

definition find_flow_element :: "process \<Rightarrow> string \<Rightarrow> flow_element_enum option" where
  "find_flow_element p activity_id =
     (case map_of (process_flow_element_map p) activity_id of
        Some e \<Rightarrow> Some e
      | None \<Rightarrow> find (\<lambda>e. flow_element_id e = Some activity_id) (process_flow_elements p))"

definition is_process_level_start_event :: "process \<Rightarrow> string \<Rightarrow> bool" where
  "is_process_level_start_event p activity_id =
     list_ex (\<lambda>e. (case e of FeStartEvent _ \<Rightarrow> True | _ \<Rightarrow> False) \<and> flow_element_id e = Some activity_id)
       (process_flow_elements p)"

section \<open>Asynchronous continuation\<close>

definition is_async_before :: "flow_element_enum \<Rightarrow> bool" where
  "is_async_before element =
     (case element of
        FeTask task \<Rightarrow> flow_node_asynchronous (activity_flow_node (task_activity task))
      | FeUserTask task \<Rightarrow> flow_node_asynchronous (activity_flow_node (task_activity (user_task_task task)))
      | FeServiceTask task \<Rightarrow> flow_node_asynchronous (activity_flow_node (task_activity (service_task_task task)))
      | FeCaseServiceTask task \<Rightarrow> flow_node_asynchronous (activity_flow_node (task_activity (service_task_task (case_service_task_service_task task))))
      | FeScriptTask task \<Rightarrow> flow_node_asynchronous (activity_flow_node (task_activity (script_task_task task)))
      | FeManualTask task \<Rightarrow> flow_node_asynchronous (activity_flow_node (task_activity (manual_task_task task)))
      | FeReceiveTask task \<Rightarrow> flow_node_asynchronous (activity_flow_node (task_activity (receive_task_task task)))
      | FeBusinessRuleTask task \<Rightarrow> flow_node_asynchronous (activity_flow_node (task_activity (business_rule_task_task task)))
      | FeCallActivity activity \<Rightarrow> flow_node_asynchronous (activity_flow_node (call_activity_activity activity))
      | FeSubProcess sub_process \<Rightarrow> flow_node_asynchronous (activity_flow_node (sub_process_activity sub_process))
      | FeTransaction transaction \<Rightarrow> flow_node_asynchronous (activity_flow_node (sub_process_activity (transaction_sub_process transaction)))
      | FeEventSubProcess sub_process \<Rightarrow> flow_node_asynchronous (activity_flow_node (sub_process_activity (event_sub_process_sub_process sub_process)))
      | FeAdhocSubProcess sub_process \<Rightarrow> flow_node_asynchronous (activity_flow_node (sub_process_activity (adhoc_sub_process_sub_process sub_process)))
      | _ \<Rightarrow> False)"

definition is_async_after :: "flow_element_enum \<Rightarrow> bool" where
  "is_async_after element =
     (case element of
        FeTask task \<Rightarrow> flow_node_asynchronous_leave (activity_flow_node (task_activity task))
      | FeUserTask task \<Rightarrow> flow_node_asynchronous_leave (activity_flow_node (task_activity (user_task_task task)))
      | FeServiceTask task \<Rightarrow> flow_node_asynchronous_leave (activity_flow_node (task_activity (service_task_task task)))
      | FeCaseServiceTask task \<Rightarrow> flow_node_asynchronous_leave (activity_flow_node (task_activity (service_task_task (case_service_task_service_task task))))
      | FeScriptTask task \<Rightarrow> flow_node_asynchronous_leave (activity_flow_node (task_activity (script_task_task task)))
      | FeManualTask task \<Rightarrow> flow_node_asynchronous_leave (activity_flow_node (task_activity (manual_task_task task)))
      | FeReceiveTask task \<Rightarrow> flow_node_asynchronous_leave (activity_flow_node (task_activity (receive_task_task task)))
      | FeBusinessRuleTask task \<Rightarrow> flow_node_asynchronous_leave (activity_flow_node (task_activity (business_rule_task_task task)))
      | FeCallActivity activity \<Rightarrow> flow_node_asynchronous_leave (activity_flow_node (call_activity_activity activity))
      | FeSubProcess sub_process \<Rightarrow> flow_node_asynchronous_leave (activity_flow_node (sub_process_activity sub_process))
      | FeTransaction transaction \<Rightarrow> flow_node_asynchronous_leave (activity_flow_node (sub_process_activity (transaction_sub_process transaction)))
      | FeEventSubProcess sub_process \<Rightarrow> flow_node_asynchronous_leave (activity_flow_node (sub_process_activity (event_sub_process_sub_process sub_process)))
      | FeAdhocSubProcess sub_process \<Rightarrow> flow_node_asynchronous_leave (activity_flow_node (sub_process_activity (adhoc_sub_process_sub_process sub_process)))
      | _ \<Rightarrow> False)"

definition is_exclusive :: "flow_element_enum \<Rightarrow> bool" where
  "is_exclusive element =
     (case element of
        FeTask task \<Rightarrow> flow_node_exclusive (activity_flow_node (task_activity task))
      | FeUserTask task \<Rightarrow> flow_node_exclusive (activity_flow_node (task_activity (user_task_task task)))
      | FeServiceTask task \<Rightarrow> flow_node_exclusive (activity_flow_node (task_activity (service_task_task task)))
      | FeCaseServiceTask task \<Rightarrow> flow_node_exclusive (activity_flow_node (task_activity (service_task_task (case_service_task_service_task task))))
      | FeScriptTask task \<Rightarrow> flow_node_exclusive (activity_flow_node (task_activity (script_task_task task)))
      | FeManualTask task \<Rightarrow> flow_node_exclusive (activity_flow_node (task_activity (manual_task_task task)))
      | FeReceiveTask task \<Rightarrow> flow_node_exclusive (activity_flow_node (task_activity (receive_task_task task)))
      | FeBusinessRuleTask task \<Rightarrow> flow_node_exclusive (activity_flow_node (task_activity (business_rule_task_task task)))
      | FeCallActivity activity \<Rightarrow> flow_node_exclusive (activity_flow_node (call_activity_activity activity))
      | FeSubProcess sub_process \<Rightarrow> flow_node_exclusive (activity_flow_node (sub_process_activity sub_process))
      | FeTransaction transaction \<Rightarrow> flow_node_exclusive (activity_flow_node (sub_process_activity (transaction_sub_process transaction)))
      | FeEventSubProcess sub_process \<Rightarrow> flow_node_exclusive (activity_flow_node (sub_process_activity (event_sub_process_sub_process sub_process)))
      | FeAdhocSubProcess sub_process \<Rightarrow> flow_node_exclusive (activity_flow_node (sub_process_activity (adhoc_sub_process_sub_process sub_process)))
      | _ \<Rightarrow> True)"

definition is_async_leave_exclusive :: "flow_element_enum \<Rightarrow> bool" where
  "is_async_leave_exclusive element =
     (case element of
        FeTask task \<Rightarrow> flow_node_asynchronous_leave_exclusive (activity_flow_node (task_activity task))
      | FeUserTask task \<Rightarrow> flow_node_asynchronous_leave_exclusive (activity_flow_node (task_activity (user_task_task task)))
      | FeServiceTask task \<Rightarrow> flow_node_asynchronous_leave_exclusive (activity_flow_node (task_activity (service_task_task task)))
      | FeCaseServiceTask task \<Rightarrow> flow_node_asynchronous_leave_exclusive (activity_flow_node (task_activity (service_task_task (case_service_task_service_task task))))
      | FeScriptTask task \<Rightarrow> flow_node_asynchronous_leave_exclusive (activity_flow_node (task_activity (script_task_task task)))
      | FeManualTask task \<Rightarrow> flow_node_asynchronous_leave_exclusive (activity_flow_node (task_activity (manual_task_task task)))
      | FeReceiveTask task \<Rightarrow> flow_node_asynchronous_leave_exclusive (activity_flow_node (task_activity (receive_task_task task)))
      | FeBusinessRuleTask task \<Rightarrow> flow_node_asynchronous_leave_exclusive (activity_flow_node (task_activity (business_rule_task_task task)))
      | FeCallActivity activity \<Rightarrow> flow_node_asynchronous_leave_exclusive (activity_flow_node (call_activity_activity activity))
      | FeSubProcess sub_process \<Rightarrow> flow_node_asynchronous_leave_exclusive (activity_flow_node (sub_process_activity sub_process))
      | FeTransaction transaction \<Rightarrow> flow_node_asynchronous_leave_exclusive (activity_flow_node (sub_process_activity (transaction_sub_process transaction)))
      | FeEventSubProcess sub_process \<Rightarrow> flow_node_asynchronous_leave_exclusive (activity_flow_node (sub_process_activity (event_sub_process_sub_process sub_process)))
      | FeAdhocSubProcess sub_process \<Rightarrow> flow_node_asynchronous_leave_exclusive (activity_flow_node (sub_process_activity (adhoc_sub_process_sub_process sub_process)))
      | _ \<Rightarrow> True)"

definition failed_job_retry_time_cycle_value :: "flow_element_enum \<Rightarrow> string option" where
  "failed_job_retry_time_cycle_value element =
     (case element of
        FeTask task \<Rightarrow> activity_failed_job_retry_time_cycle_value (task_activity task)
      | FeUserTask task \<Rightarrow> activity_failed_job_retry_time_cycle_value (task_activity (user_task_task task))
      | FeServiceTask task \<Rightarrow> activity_failed_job_retry_time_cycle_value (task_activity (service_task_task task))
      | FeCaseServiceTask task \<Rightarrow> activity_failed_job_retry_time_cycle_value (task_activity (service_task_task (case_service_task_service_task task)))
      | FeScriptTask task \<Rightarrow> activity_failed_job_retry_time_cycle_value (task_activity (script_task_task task))
      | FeManualTask task \<Rightarrow> activity_failed_job_retry_time_cycle_value (task_activity (manual_task_task task))
      | FeReceiveTask task \<Rightarrow> activity_failed_job_retry_time_cycle_value (task_activity (receive_task_task task))
      | FeBusinessRuleTask task \<Rightarrow> activity_failed_job_retry_time_cycle_value (task_activity (business_rule_task_task task))
      | FeCallActivity activity \<Rightarrow> activity_failed_job_retry_time_cycle_value (call_activity_activity activity)
      | FeSubProcess sub_process \<Rightarrow> activity_failed_job_retry_time_cycle_value (sub_process_activity sub_process)
      | FeTransaction transaction \<Rightarrow> activity_failed_job_retry_time_cycle_value (sub_process_activity (transaction_sub_process transaction))
      | FeEventSubProcess sub_process \<Rightarrow> activity_failed_job_retry_time_cycle_value (sub_process_activity (event_sub_process_sub_process sub_process))
      | FeAdhocSubProcess sub_process \<Rightarrow> activity_failed_job_retry_time_cycle_value (sub_process_activity (adhoc_sub_process_sub_process sub_process))
      | _ \<Rightarrow> None)"

section \<open>Outgoing flows\<close>

definition get_outgoing_flows :: "flow_element_enum \<Rightarrow> sequence_flow list option" where
  "get_outgoing_flows element =
     (case element of
        FeTask t \<Rightarrow> Some (flow_node_outgoing_flows (activity_flow_node (task_activity t)))
      | FeUserTask t \<Rightarrow> Some (flow_node_outgoing_flows (activity_flow_node (task_activity (user_task_task t))))
      | FeServiceTask t \<Rightarrow> Some (flow_node_outgoing_flows (activity_flow_node (task_activity (service_task_task t))))
      | FeCaseServiceTask t \<Rightarrow> Some (flow_node_outgoing_flows (activity_flow_node (task_activity (service_task_task (case_service_task_service_task t)))))
      | FeSendTask t \<Rightarrow> Some (flow_node_outgoing_flows (activity_flow_node (task_activity (service_task_task (send_task_service_task t)))))
      | FeScriptTask t \<Rightarrow> Some (flow_node_outgoing_flows (activity_flow_node (task_activity (script_task_task t))))
      | FeManualTask t \<Rightarrow> Some (flow_node_outgoing_flows (activity_flow_node (task_activity (manual_task_task t))))
      | FeReceiveTask t \<Rightarrow> Some (flow_node_outgoing_flows (activity_flow_node (task_activity (receive_task_task t))))
      | FeBusinessRuleTask t \<Rightarrow> Some (flow_node_outgoing_flows (activity_flow_node (task_activity (business_rule_task_task t))))
      | FeStartEvent e \<Rightarrow> Some (flow_node_outgoing_flows (event_flow_node (start_event_event e)))
      | FeEndEvent e \<Rightarrow> Some (flow_node_outgoing_flows (event_flow_node (end_event_event e)))
      | FeExclusiveGateway g \<Rightarrow> Some (flow_node_outgoing_flows (gateway_flow_node (exclusive_gateway_gateway g)))
      | FeParallelGateway g \<Rightarrow> Some (flow_node_outgoing_flows (gateway_flow_node (parallel_gateway_gateway g)))
      | FeInclusiveGateway g \<Rightarrow> Some (flow_node_outgoing_flows (gateway_flow_node (inclusive_gateway_gateway g)))
      | FeEventBasedGateway g \<Rightarrow> Some (flow_node_outgoing_flows (gateway_flow_node (event_based_gateway_gateway g)))
      | FeComplexGateway g \<Rightarrow> Some (flow_node_outgoing_flows (gateway_flow_node (complex_gateway_gateway g)))
      | FeIntermediateCatchEvent e \<Rightarrow> Some (flow_node_outgoing_flows (event_flow_node (intermediate_catch_event_event e)))
      | FeIntermediateThrowEvent e \<Rightarrow> Some (flow_node_outgoing_flows (event_flow_node (intermediate_throw_event_event e)))
      | FeSubProcess s \<Rightarrow> Some (flow_node_outgoing_flows (activity_flow_node (sub_process_activity s)))
      | FeTransaction s \<Rightarrow> Some (flow_node_outgoing_flows (activity_flow_node (sub_process_activity (transaction_sub_process s))))
      | FeEventSubProcess s \<Rightarrow> Some (flow_node_outgoing_flows (activity_flow_node (sub_process_activity (event_sub_process_sub_process s))))
      | FeAdhocSubProcess s \<Rightarrow> Some (flow_node_outgoing_flows (activity_flow_node (sub_process_activity (adhoc_sub_process_sub_process s))))
      | FeCallActivity a \<Rightarrow> Some (flow_node_outgoing_flows (activity_flow_node (call_activity_activity a)))
      | FeBoundaryEvent e \<Rightarrow> Some (flow_node_outgoing_flows (event_flow_node (boundary_event_event e)))
      | _ \<Rightarrow> None)"

definition get_gateway_default_flow_id :: "flow_element_enum \<Rightarrow> string option" where
  "get_gateway_default_flow_id element =
     (case element of
        FeExclusiveGateway g \<Rightarrow> gateway_default_flow (exclusive_gateway_gateway g)
      | FeParallelGateway g \<Rightarrow> gateway_default_flow (parallel_gateway_gateway g)
      | FeInclusiveGateway g \<Rightarrow> gateway_default_flow (inclusive_gateway_gateway g)
      | FeEventBasedGateway g \<Rightarrow> gateway_default_flow (event_based_gateway_gateway g)
      | FeComplexGateway g \<Rightarrow> gateway_default_flow (complex_gateway_gateway g)
      | _ \<Rightarrow> None)"

definition get_element_id :: "flow_element_enum \<Rightarrow> string option" where
  "get_element_id element =
     (case element of
        FeTask t \<Rightarrow> base_element_id (flow_element_base_element (flow_node_flow_element (activity_flow_node (task_activity t))))
      | FeUserTask t \<Rightarrow> base_element_id (flow_element_base_element (flow_node_flow_element (activity_flow_node (task_activity (user_task_task t)))))
      | FeServiceTask t \<Rightarrow> base_element_id (flow_element_base_element (flow_node_flow_element (activity_flow_node (task_activity (service_task_task t)))))
      | FeCaseServiceTask t \<Rightarrow> base_element_id (flow_element_base_element (flow_node_flow_element (activity_flow_node (task_activity (service_task_task (case_service_task_service_task t))))))
      | FeSendTask t \<Rightarrow> base_element_id (flow_element_base_element (flow_node_flow_element (activity_flow_node (task_activity (service_task_task (send_task_service_task t))))))
      | FeScriptTask t \<Rightarrow> base_element_id (flow_element_base_element (flow_node_flow_element (activity_flow_node (task_activity (script_task_task t)))))
      | FeManualTask t \<Rightarrow> base_element_id (flow_element_base_element (flow_node_flow_element (activity_flow_node (task_activity (manual_task_task t)))))
      | FeReceiveTask t \<Rightarrow> base_element_id (flow_element_base_element (flow_node_flow_element (activity_flow_node (task_activity (receive_task_task t)))))
      | FeBusinessRuleTask t \<Rightarrow> base_element_id (flow_element_base_element (flow_node_flow_element (activity_flow_node (task_activity (business_rule_task_task t)))))
      | FeStartEvent e \<Rightarrow> base_element_id (flow_element_base_element (flow_node_flow_element (event_flow_node (start_event_event e))))
      | FeEndEvent e \<Rightarrow> base_element_id (flow_element_base_element (flow_node_flow_element (event_flow_node (end_event_event e))))
      | FeExclusiveGateway g \<Rightarrow> base_element_id (flow_element_base_element (flow_node_flow_element (gateway_flow_node (exclusive_gateway_gateway g))))
      | FeParallelGateway g \<Rightarrow> base_element_id (flow_element_base_element (flow_node_flow_element (gateway_flow_node (parallel_gateway_gateway g))))
      | FeInclusiveGateway g \<Rightarrow> base_element_id (flow_element_base_element (flow_node_flow_element (gateway_flow_node (inclusive_gateway_gateway g))))
      | FeEventBasedGateway g \<Rightarrow> base_element_id (flow_element_base_element (flow_node_flow_element (gateway_flow_node (event_based_gateway_gateway g))))
      | FeComplexGateway g \<Rightarrow> base_element_id (flow_element_base_element (flow_node_flow_element (gateway_flow_node (complex_gateway_gateway g))))
      | FeIntermediateCatchEvent e \<Rightarrow> base_element_id (flow_element_base_element (flow_node_flow_element (event_flow_node (intermediate_catch_event_event e))))
      | FeIntermediateThrowEvent e \<Rightarrow> base_element_id (flow_element_base_element (flow_node_flow_element (event_flow_node (intermediate_throw_event_event e))))
      | FeSubProcess s \<Rightarrow> base_element_id (flow_element_base_element (flow_node_flow_element (activity_flow_node (sub_process_activity s))))
      | FeTransaction s \<Rightarrow> base_element_id (flow_element_base_element (flow_node_flow_element (activity_flow_node (sub_process_activity (transaction_sub_process s)))))
      | FeEventSubProcess s \<Rightarrow> base_element_id (flow_element_base_element (flow_node_flow_element (activity_flow_node (sub_process_activity (event_sub_process_sub_process s)))))
      | FeAdhocSubProcess s \<Rightarrow> base_element_id (flow_element_base_element (flow_node_flow_element (activity_flow_node (sub_process_activity (adhoc_sub_process_sub_process s)))))
      | FeCallActivity a \<Rightarrow> base_element_id (flow_element_base_element (flow_node_flow_element (activity_flow_node (call_activity_activity a))))
      | FeBoundaryEvent e \<Rightarrow> base_element_id (flow_element_base_element (flow_node_flow_element (event_flow_node (boundary_event_event e))))
      | FeSequenceFlow s \<Rightarrow> base_element_id (flow_element_base_element (sequence_flow_flow_element s))
      | FeValuedDataObject v \<Rightarrow> base_element_id (valued_data_object_base_element v))"

definition is_end_event :: "flow_element_enum option \<Rightarrow> bool" where
  "is_end_event e = (case e of Some (FeEndEvent _) \<Rightarrow> True | _ \<Rightarrow> False)"

section \<open>Properties\<close>

text \<open>
  The two identity accessors of the engine agree on every flow element, so an element
  found by its id in one operation is the element the other operation reads.
\<close>

theorem get_element_id_eq_flow_element_id: "get_element_id e = flow_element_id e"
  by (cases e) (simp_all add: get_element_id_def flow_element_id_def)

end
