(* ===== verification/Execution_Graph.thy ===== *)
theory Execution_Graph
  imports Flow_Elements
begin

text \<open>
  The process graph: the element map the converter builds
  (\<open>flowable-bpmn-converter/src/lib.rs\<close>, \<open>populate_element_map\<close>) and the reachability test of
  \<open>flowable-engine/src/bpmn/execution_graph_util.rs\<close> that decides whether a token can still
  arrive at a waiting inclusive join. The climbing loops of the source, which do not end
  when a container holds an element with its own id, are \<open>partial_function\<close>s in the option
  type; the depth-first search takes fuel and returns \<open>None\<close> when it runs out.
  The theory \<open>Reachability\<close> proves the loops and the search correct.
\<close>

section \<open>The element map of the converter\<close>

definition nested_flow_elements :: "flow_element_enum \<Rightarrow> flow_element_enum list option" where
  "nested_flow_elements element =
     (case element of
        FeSubProcess s \<Rightarrow> Some (sub_process_flow_elements s)
      | FeTransaction t \<Rightarrow> Some (sub_process_flow_elements (transaction_sub_process t))
      | FeEventSubProcess e \<Rightarrow> Some (sub_process_flow_elements (event_sub_process_sub_process e))
      | FeAdhocSubProcess a \<Rightarrow> Some (sub_process_flow_elements (adhoc_sub_process_sub_process a))
      | _ \<Rightarrow> None)"


lemma size_nested_flow_elements:
  "nested_flow_elements e = Some es \<Longrightarrow> size_list size es < size e"
proof (cases e)
  case (FeSubProcess s)
  assume "nested_flow_elements e = Some es"
  with FeSubProcess show ?thesis by (cases s) (simp add: nested_flow_elements_def)
next
  case (FeTransaction t)
  assume "nested_flow_elements e = Some es"
  with FeTransaction show ?thesis
    by (cases t, cases "transaction_sub_process t") (simp add: nested_flow_elements_def)
next
  case (FeEventSubProcess t)
  assume "nested_flow_elements e = Some es"
  with FeEventSubProcess show ?thesis
    by (cases t, cases "event_sub_process_sub_process t") (simp add: nested_flow_elements_def)
next
  case (FeAdhocSubProcess t)
  assume "nested_flow_elements e = Some es"
  with FeAdhocSubProcess show ?thesis
    by (cases t, cases "adhoc_sub_process_sub_process t") (simp add: nested_flow_elements_def)
qed (simp_all add: nested_flow_elements_def)

definition converter_element_id :: "flow_element_enum \<Rightarrow> string option" where
  "converter_element_id element =
     (case element of
        FeSequenceFlow e \<Rightarrow> base_element_id (flow_element_base_element (sequence_flow_flow_element e))
      | FeTask e \<Rightarrow> base_element_id (flow_element_base_element (flow_node_flow_element (activity_flow_node (task_activity e))))
      | FeUserTask e \<Rightarrow> base_element_id (flow_element_base_element (flow_node_flow_element (activity_flow_node (task_activity (user_task_task e)))))
      | FeServiceTask e \<Rightarrow> base_element_id (flow_element_base_element (flow_node_flow_element (activity_flow_node (task_activity (service_task_task e)))))
      | FeCaseServiceTask e \<Rightarrow> base_element_id (flow_element_base_element (flow_node_flow_element (activity_flow_node (task_activity (service_task_task (case_service_task_service_task e))))))
      | FeSendTask e \<Rightarrow> base_element_id (flow_element_base_element (flow_node_flow_element (activity_flow_node (task_activity (service_task_task (send_task_service_task e))))))
      | FeScriptTask e \<Rightarrow> base_element_id (flow_element_base_element (flow_node_flow_element (activity_flow_node (task_activity (script_task_task e)))))
      | FeManualTask e \<Rightarrow> base_element_id (flow_element_base_element (flow_node_flow_element (activity_flow_node (task_activity (manual_task_task e)))))
      | FeReceiveTask e \<Rightarrow> base_element_id (flow_element_base_element (flow_node_flow_element (activity_flow_node (task_activity (receive_task_task e)))))
      | FeBusinessRuleTask e \<Rightarrow> base_element_id (flow_element_base_element (flow_node_flow_element (activity_flow_node (task_activity (business_rule_task_task e)))))
      | FeStartEvent e \<Rightarrow> base_element_id (flow_element_base_element (flow_node_flow_element (event_flow_node (start_event_event e))))
      | FeEndEvent e \<Rightarrow> base_element_id (flow_element_base_element (flow_node_flow_element (event_flow_node (end_event_event e))))
      | FeExclusiveGateway e \<Rightarrow> base_element_id (flow_element_base_element (flow_node_flow_element (gateway_flow_node (exclusive_gateway_gateway e))))
      | FeParallelGateway e \<Rightarrow> base_element_id (flow_element_base_element (flow_node_flow_element (gateway_flow_node (parallel_gateway_gateway e))))
      | FeInclusiveGateway e \<Rightarrow> base_element_id (flow_element_base_element (flow_node_flow_element (gateway_flow_node (inclusive_gateway_gateway e))))
      | FeEventBasedGateway e \<Rightarrow> base_element_id (flow_element_base_element (flow_node_flow_element (gateway_flow_node (event_based_gateway_gateway e))))
      | FeComplexGateway e \<Rightarrow> base_element_id (flow_element_base_element (flow_node_flow_element (gateway_flow_node (complex_gateway_gateway e))))
      | FeIntermediateCatchEvent e \<Rightarrow> base_element_id (flow_element_base_element (flow_node_flow_element (event_flow_node (intermediate_catch_event_event e))))
      | FeIntermediateThrowEvent e \<Rightarrow> base_element_id (flow_element_base_element (flow_node_flow_element (event_flow_node (intermediate_throw_event_event e))))
      | FeBoundaryEvent e \<Rightarrow> base_element_id (flow_element_base_element (flow_node_flow_element (event_flow_node (boundary_event_event e))))
      | FeSubProcess e \<Rightarrow> base_element_id (flow_element_base_element (flow_node_flow_element (activity_flow_node (sub_process_activity e))))
      | FeTransaction e \<Rightarrow> base_element_id (flow_element_base_element (flow_node_flow_element (activity_flow_node (sub_process_activity (transaction_sub_process e)))))
      | FeEventSubProcess e \<Rightarrow> base_element_id (flow_element_base_element (flow_node_flow_element (activity_flow_node (sub_process_activity (event_sub_process_sub_process e)))))
      | FeAdhocSubProcess e \<Rightarrow> base_element_id (flow_element_base_element (flow_node_flow_element (activity_flow_node (sub_process_activity (adhoc_sub_process_sub_process e)))))
      | FeCallActivity e \<Rightarrow> base_element_id (flow_element_base_element (flow_node_flow_element (activity_flow_node (call_activity_activity e))))
      | FeValuedDataObject e \<Rightarrow> base_element_id (valued_data_object_base_element e))"

definition MAX_XML_NESTING_DEPTH :: nat where
  "MAX_XML_NESTING_DEPTH = 512"

text \<open>\<open>IndexMap::insert\<close>: a present key keeps its position, a new one is appended.\<close>

fun index_map_insert :: "string \<Rightarrow> 'a \<Rightarrow> 'a index_map \<Rightarrow> 'a index_map" where
  "index_map_insert k v [] = [(k, v)]"
| "index_map_insert k v ((k', v') # m) =
     (if k = k' then (k, v) # m else (k', v') # index_map_insert k v m)"

definition insert_element :: "flow_element_enum \<Rightarrow> flow_element_enum index_map \<Rightarrow> flow_element_enum index_map" where
  "insert_element e m = (case converter_element_id e of Some i \<Rightarrow> index_map_insert i e m | None \<Rightarrow> m)"

definition insert_data_object :: "valued_data_object \<Rightarrow> flow_element_enum index_map \<Rightarrow> flow_element_enum index_map" where
  "insert_data_object obj m =
     (case base_element_id (valued_data_object_base_element obj) of
        Some i \<Rightarrow> if map_of m i = None then index_map_insert i (FeValuedDataObject obj) m else m
      | None \<Rightarrow> m)"

function (sequential) populate_elements :: "nat \<Rightarrow> flow_element_enum list \<Rightarrow> flow_element_enum index_map
    \<Rightarrow> flow_element_enum index_map" where
  "populate_elements depth [] m = m"
| "populate_elements depth (e # es) m =
     (let m1 = insert_element e m;
          m2 = (case nested_flow_elements e of
                  Some children \<Rightarrow>
                    if MAX_XML_NESTING_DEPTH \<le> depth + 1 then m1
                    else populate_elements (depth + 1) children m1
                | None \<Rightarrow> m1)
      in populate_elements depth es m2)"
  by pat_completeness auto
termination
  by (relation "measure (\<lambda>(_, es, _). size_list size es)")
     (auto dest: size_nested_flow_elements)

definition populate_element_map :: "nat \<Rightarrow> flow_element_enum list \<Rightarrow> flow_element_enum index_map
    \<Rightarrow> valued_data_object list \<Rightarrow> flow_element_enum index_map" where
  "populate_element_map depth es m data_objects =
     (if MAX_XML_NESTING_DEPTH \<le> depth then m
      else fold insert_data_object data_objects (populate_elements depth es m))"

section \<open>Reachability\<close>

definition graph_outgoing_flows :: "flow_element_enum \<Rightarrow> sequence_flow list option" where
  "graph_outgoing_flows element =
     (case element of
        FeTask t \<Rightarrow> Some (flow_node_outgoing_flows (activity_flow_node (task_activity t)))
      | FeUserTask t \<Rightarrow> Some (flow_node_outgoing_flows (activity_flow_node (task_activity (user_task_task t))))
      | FeServiceTask t \<Rightarrow> Some (flow_node_outgoing_flows (activity_flow_node (task_activity (service_task_task t))))
      | FeCaseServiceTask t \<Rightarrow> Some (flow_node_outgoing_flows (activity_flow_node (task_activity (service_task_task (case_service_task_service_task t)))))
      | FeScriptTask t \<Rightarrow> Some (flow_node_outgoing_flows (activity_flow_node (task_activity (script_task_task t))))
      | FeManualTask t \<Rightarrow> Some (flow_node_outgoing_flows (activity_flow_node (task_activity (manual_task_task t))))
      | FeReceiveTask t \<Rightarrow> Some (flow_node_outgoing_flows (activity_flow_node (task_activity (receive_task_task t))))
      | FeBusinessRuleTask t \<Rightarrow> Some (flow_node_outgoing_flows (activity_flow_node (task_activity (business_rule_task_task t))))
      | FeStartEvent e \<Rightarrow> Some (flow_node_outgoing_flows (event_flow_node (start_event_event e)))
      | FeEndEvent e \<Rightarrow> Some (flow_node_outgoing_flows (event_flow_node (end_event_event e)))
      | FeExclusiveGateway g \<Rightarrow> Some (flow_node_outgoing_flows (gateway_flow_node (exclusive_gateway_gateway g)))
      | FeParallelGateway g \<Rightarrow> Some (flow_node_outgoing_flows (gateway_flow_node (parallel_gateway_gateway g)))
      | FeInclusiveGateway g \<Rightarrow> Some (flow_node_outgoing_flows (gateway_flow_node (inclusive_gateway_gateway g)))
      | FeEventBasedGateway g \<Rightarrow> Some (flow_node_outgoing_flows (gateway_flow_node (event_based_gateway_gateway g)))
      | FeIntermediateCatchEvent e \<Rightarrow> Some (flow_node_outgoing_flows (event_flow_node (intermediate_catch_event_event e)))
      | FeIntermediateThrowEvent e \<Rightarrow> Some (flow_node_outgoing_flows (event_flow_node (intermediate_throw_event_event e)))
      | FeSubProcess s \<Rightarrow> Some (flow_node_outgoing_flows (activity_flow_node (sub_process_activity s)))
      | FeTransaction s \<Rightarrow> Some (flow_node_outgoing_flows (activity_flow_node (sub_process_activity (transaction_sub_process s))))
      | FeEventSubProcess s \<Rightarrow> Some (flow_node_outgoing_flows (activity_flow_node (sub_process_activity (event_sub_process_sub_process s))))
      | FeAdhocSubProcess s \<Rightarrow> Some (flow_node_outgoing_flows (activity_flow_node (sub_process_activity (adhoc_sub_process_sub_process s))))
      | FeCallActivity a \<Rightarrow> Some (flow_node_outgoing_flows (activity_flow_node (call_activity_activity a)))
      | FeBoundaryEvent e \<Rightarrow> Some (flow_node_outgoing_flows (event_flow_node (boundary_event_event e)))
      | _ \<Rightarrow> None)"


definition is_flow_node :: "flow_element_enum \<Rightarrow> bool" where
  "is_flow_node e = (case e of FeSequenceFlow _ \<Rightarrow> False | FeValuedDataObject _ \<Rightarrow> False | _ \<Rightarrow> True)"

definition is_start_event :: "flow_element_enum \<Rightarrow> bool" where
  "is_start_event e = (case e of FeStartEvent _ \<Rightarrow> True | _ \<Rightarrow> False)"

definition is_event_sub_process :: "flow_element_enum \<Rightarrow> bool" where
  "is_event_sub_process e = (case e of FeEventSubProcess _ \<Rightarrow> True | _ \<Rightarrow> False)"

definition is_sub_process_container :: "flow_element_enum \<Rightarrow> bool" where
  "is_sub_process_container e =
     (case e of FeSubProcess _ \<Rightarrow> True | FeTransaction _ \<Rightarrow> True | FeEventSubProcess _ \<Rightarrow> True
      | FeAdhocSubProcess _ \<Rightarrow> True | _ \<Rightarrow> False)"

definition resolve_flow_node :: "process \<Rightarrow> string \<Rightarrow> flow_element_enum option" where
  "resolve_flow_node p element_id =
     (case find_flow_element p element_id of
        None \<Rightarrow> None
      | Some (FeSequenceFlow flow) \<Rightarrow>
          (case sequence_flow_target_ref flow of
             None \<Rightarrow> None
           | Some target_ref \<Rightarrow>
               (case find_flow_element p target_ref of
                  None \<Rightarrow> None
                | Some target \<Rightarrow> if is_flow_node target then Some target else None))
      | Some other \<Rightarrow> if is_flow_node other then Some other else None)"

function (sequential) find_parent_in_children :: "flow_element_enum \<Rightarrow> flow_element_enum list \<Rightarrow> string
    \<Rightarrow> flow_element_enum option" where
  "find_parent_in_children container [] element_id = None"
| "find_parent_in_children container (child # children) element_id =
     (if flow_element_id child = Some element_id then Some container
      else case (case nested_flow_elements child of
                   None \<Rightarrow> None
                 | Some grandchildren \<Rightarrow> find_parent_in_children child grandchildren element_id) of
             Some found \<Rightarrow> Some found
           | None \<Rightarrow> find_parent_in_children container children element_id)"
  by pat_completeness auto
termination
  by (relation "measure (\<lambda>(_, es, _). size_list size es)")
     (auto dest: size_nested_flow_elements)

definition find_parent_in_element :: "flow_element_enum \<Rightarrow> string \<Rightarrow> flow_element_enum option" where
  "find_parent_in_element container element_id =
     (case nested_flow_elements container of
        None \<Rightarrow> None
      | Some children \<Rightarrow> find_parent_in_children container children element_id)"

fun find_parent_in_list :: "flow_element_enum list \<Rightarrow> string \<Rightarrow> flow_element_enum option" where
  "find_parent_in_list [] element_id = None"
| "find_parent_in_list (e # es) element_id =
     (case find_parent_in_element e element_id of
        Some found \<Rightarrow> Some found
      | None \<Rightarrow> find_parent_in_list es element_id)"

definition find_parent_element_for_child :: "process \<Rightarrow> string \<Rightarrow> flow_element_enum option" where
  "find_parent_element_for_child p element_id = find_parent_in_list (process_flow_elements p) element_id"

partial_function (option) event_subprocess_loop :: "process \<Rightarrow> string \<Rightarrow> bool option" where
  "event_subprocess_loop p current_id =
     (case find_parent_element_for_child p current_id of
        None \<Rightarrow> Some False
      | Some parent \<Rightarrow>
          if is_event_sub_process parent then Some True
          else if is_sub_process_container parent then
            (case flow_element_id parent of
               Some i \<Rightarrow> event_subprocess_loop p i
             | None \<Rightarrow> Some False)
          else Some False)"

definition is_in_event_subprocess :: "process \<Rightarrow> flow_element_enum \<Rightarrow> bool option" where
  "is_in_event_subprocess p flow_node =
     (case flow_element_id flow_node of
        None \<Rightarrow> Some False
      | Some current_id \<Rightarrow> event_subprocess_loop p current_id)"

text \<open>
  The element from which the search continues: the source itself when it has outgoing
  flows, otherwise the container that holds it.
\<close>

definition has_no_outgoing :: "flow_element_enum \<Rightarrow> bool" where
  "has_no_outgoing e = (case graph_outgoing_flows e of None \<Rightarrow> True | Some flows \<Rightarrow> flows = [])"

definition climb_source :: "process \<Rightarrow> flow_element_enum \<Rightarrow> string \<Rightarrow> flow_element_enum option" where
  "climb_source p source source_id =
     (if has_no_outgoing source then
        (case find_parent_element_for_child p source_id of
           Some parent \<Rightarrow> if is_sub_process_container parent then Some parent else None
         | None \<Rightarrow> None)
      else Some source)"

text \<open>The guards of the loop over the outgoing flows: the flow node to search next, if any.\<close>

definition flow_candidate :: "process \<Rightarrow> sequence_flow \<Rightarrow> string set \<Rightarrow> flow_element_enum option" where
  "flow_candidate p f visited =
     (case sequence_flow_target_ref f of
        None \<Rightarrow> None
      | Some target_ref \<Rightarrow>
          (case find_flow_element p target_ref of
             None \<Rightarrow> None
           | Some x \<Rightarrow>
               if \<not> is_flow_node x then None
               else case flow_element_id x of
                      None \<Rightarrow> None
                    | Some i \<Rightarrow> if i \<in> visited then None else Some x))"

function (sequential) is_reachable_from :: "nat \<Rightarrow> process \<Rightarrow> flow_element_enum \<Rightarrow> flow_element_enum
    \<Rightarrow> string set \<Rightarrow> (bool \<times> string set) option"
  and reachable_over_flows :: "nat \<Rightarrow> process \<Rightarrow> sequence_flow list \<Rightarrow> flow_element_enum
    \<Rightarrow> string set \<Rightarrow> (bool \<times> string set) option" where
  "is_reachable_from 0 p source target visited = None"
| "is_reachable_from (Suc n) p source target visited =
     (case (if is_start_event source then is_in_event_subprocess p source else Some False) of
        None \<Rightarrow> None
      | Some True \<Rightarrow> Some (False, visited)
      | Some False \<Rightarrow>
          (case flow_element_id source of
             None \<Rightarrow> Some (False, visited)
           | Some source_id \<Rightarrow>
          (case flow_element_id target of
             None \<Rightarrow> Some (False, visited)
           | Some target_id \<Rightarrow>
               let visited1 = (if has_no_outgoing source then insert source_id visited else visited) in
               (case climb_source p source source_id of
                  None \<Rightarrow> Some (False, visited1)
                | Some source' \<Rightarrow>
                    (case flow_element_id source' of
                       None \<Rightarrow> Some (False, visited1)
                     | Some source_id' \<Rightarrow>
                         if source_id' = target_id then Some (True, visited1)
                         else if source_id' \<in> visited1 then Some (False, visited1)
                         else case graph_outgoing_flows source' of
                                None \<Rightarrow> Some (False, insert source_id' visited1)
                              | Some flows \<Rightarrow>
                                  reachable_over_flows n p flows target (insert source_id' visited1))))))"
| "reachable_over_flows n p [] target visited = Some (False, visited)"
| "reachable_over_flows n p (f # fs) target visited =
     (case flow_candidate p f visited of
        None \<Rightarrow> reachable_over_flows n p fs target visited
      | Some x \<Rightarrow>
          (case is_reachable_from n p x target visited of
             None \<Rightarrow> None
           | Some (True, visited') \<Rightarrow> Some (True, visited')
           | Some (False, visited') \<Rightarrow> reachable_over_flows n p fs target visited'))"
  by pat_completeness auto
termination
  by (relation "measures [case_sum (\<lambda>(n, _). n) (\<lambda>(n, _). n),
        case_sum (\<lambda>_. 0) (\<lambda>(_, _, fs, _). Suc (length fs))]") auto

definition is_reachable :: "nat \<Rightarrow> process \<Rightarrow> string \<Rightarrow> string \<Rightarrow> bool option" where
  "is_reachable fuel p source_element_id target_element_id =
     (case resolve_flow_node p source_element_id of
        None \<Rightarrow> Some False
      | Some source \<Rightarrow>
          (case resolve_flow_node p target_element_id of
             None \<Rightarrow> Some False
           | Some target \<Rightarrow> map_option fst (is_reachable_from fuel p source target {})))"

section \<open>Activity attributes of the graph\<close>

definition is_asynchronous_activity :: "flow_element_enum \<Rightarrow> bool" where
  "is_asynchronous_activity element =
     (case element of
        FeTask t \<Rightarrow> flow_node_asynchronous (activity_flow_node (task_activity t))
      | FeUserTask t \<Rightarrow> flow_node_asynchronous (activity_flow_node (task_activity (user_task_task t)))
      | FeServiceTask t \<Rightarrow> flow_node_asynchronous (activity_flow_node (task_activity (service_task_task t)))
      | FeCaseServiceTask t \<Rightarrow> flow_node_asynchronous (activity_flow_node (task_activity (service_task_task (case_service_task_service_task t))))
      | FeScriptTask t \<Rightarrow> flow_node_asynchronous (activity_flow_node (task_activity (script_task_task t)))
      | FeManualTask t \<Rightarrow> flow_node_asynchronous (activity_flow_node (task_activity (manual_task_task t)))
      | FeReceiveTask t \<Rightarrow> flow_node_asynchronous (activity_flow_node (task_activity (receive_task_task t)))
      | FeBusinessRuleTask t \<Rightarrow> flow_node_asynchronous (activity_flow_node (task_activity (business_rule_task_task t)))
      | FeCallActivity a \<Rightarrow> flow_node_asynchronous (activity_flow_node (call_activity_activity a))
      | FeSubProcess s \<Rightarrow> flow_node_asynchronous (activity_flow_node (sub_process_activity s))
      | FeTransaction t \<Rightarrow> flow_node_asynchronous (activity_flow_node (sub_process_activity (transaction_sub_process t)))
      | FeEventSubProcess e \<Rightarrow> flow_node_asynchronous (activity_flow_node (sub_process_activity (event_sub_process_sub_process e)))
      | FeAdhocSubProcess a \<Rightarrow> flow_node_asynchronous (activity_flow_node (sub_process_activity (adhoc_sub_process_sub_process a)))
      | FeStartEvent e \<Rightarrow> flow_node_asynchronous (event_flow_node (start_event_event e))
      | FeEndEvent e \<Rightarrow> flow_node_asynchronous (event_flow_node (end_event_event e))
      | FeExclusiveGateway g \<Rightarrow> flow_node_asynchronous (gateway_flow_node (exclusive_gateway_gateway g))
      | FeParallelGateway g \<Rightarrow> flow_node_asynchronous (gateway_flow_node (parallel_gateway_gateway g))
      | FeInclusiveGateway g \<Rightarrow> flow_node_asynchronous (gateway_flow_node (inclusive_gateway_gateway g))
      | FeEventBasedGateway g \<Rightarrow> flow_node_asynchronous (gateway_flow_node (event_based_gateway_gateway g))
      | FeIntermediateCatchEvent e \<Rightarrow> flow_node_asynchronous (event_flow_node (intermediate_catch_event_event e))
      | FeIntermediateThrowEvent e \<Rightarrow> flow_node_asynchronous (event_flow_node (intermediate_throw_event_event e))
      | FeBoundaryEvent e \<Rightarrow> flow_node_asynchronous (event_flow_node (boundary_event_event e))
      | _ \<Rightarrow> False)"

definition has_loop_characteristics :: "flow_element_enum \<Rightarrow> bool" where
  "has_loop_characteristics element =
     (case element of
        FeTask t \<Rightarrow> activity_loop_characteristics (task_activity t) \<noteq> None
      | FeUserTask t \<Rightarrow> activity_loop_characteristics (task_activity (user_task_task t)) \<noteq> None
      | FeServiceTask t \<Rightarrow> activity_loop_characteristics (task_activity (service_task_task t)) \<noteq> None
      | FeCaseServiceTask t \<Rightarrow> activity_loop_characteristics (task_activity (service_task_task (case_service_task_service_task t))) \<noteq> None
      | FeScriptTask t \<Rightarrow> activity_loop_characteristics (task_activity (script_task_task t)) \<noteq> None
      | FeManualTask t \<Rightarrow> activity_loop_characteristics (task_activity (manual_task_task t)) \<noteq> None
      | FeReceiveTask t \<Rightarrow> activity_loop_characteristics (task_activity (receive_task_task t)) \<noteq> None
      | FeBusinessRuleTask t \<Rightarrow> activity_loop_characteristics (task_activity (business_rule_task_task t)) \<noteq> None
      | FeCallActivity a \<Rightarrow> activity_loop_characteristics (call_activity_activity a) \<noteq> None
      | FeSubProcess s \<Rightarrow> activity_loop_characteristics (sub_process_activity s) \<noteq> None
      | FeTransaction t \<Rightarrow> activity_loop_characteristics (sub_process_activity (transaction_sub_process t)) \<noteq> None
      | FeEventSubProcess e \<Rightarrow> activity_loop_characteristics (sub_process_activity (event_sub_process_sub_process e)) \<noteq> None
      | FeAdhocSubProcess a \<Rightarrow> activity_loop_characteristics (sub_process_activity (adhoc_sub_process_sub_process a)) \<noteq> None
      | _ \<Rightarrow> False)"

partial_function (option) has_multi_instance_parent :: "process \<Rightarrow> string \<Rightarrow> bool option" where
  "has_multi_instance_parent p current_id =
     (case find_parent_element_for_child p current_id of
        None \<Rightarrow> Some False
      | Some parent \<Rightarrow>
          if has_loop_characteristics parent then Some True
          else if is_sub_process_container parent then
            (case flow_element_id parent of
               Some i \<Rightarrow> has_multi_instance_parent p i
             | None \<Rightarrow> Some False)
          else Some False)"

end
