(* ===== verification/Execution_Store.thy ===== *)
theory Execution_Store
  imports Execution_Graph
begin

text \<open>
  Executions (tokens) and their store: \<open>runtime/execution.rs\<close>, the execution table and the projected
  variable table of \<open>persistence/runtime_store.rs\<close>, the entity manager over it
  (\<open>persistence/execution_entity_manager.rs\<close>), the agenda (\<open>agenda/agenda.rs\<close>) and the variable scope
  chain (\<open>engine/variable_service.rs\<close>).
  A \<open>HashMap\<close> of variables is a map; the execution table is the list of its rows in storage order, so a
  traversal of \<open>snapshot_executions\<close> in any order is the traversal of some list.  The state of a command
  (\<open>CommandContext\<close> and the thread-local dirty sets of the store) is one record.  A fresh id
  (\<open>Uuid::new_v4\<close>) is the next value of a supply, an argument of the operations that draw one.
  The second copy of an execution in \<open>ACT_RU_EXECUTION\<close> and failing database calls are not modelled.
\<close>

section \<open>Executions\<close>

record execution =
  execution_id :: string
  execution_parent_id :: "string option"
  execution_super_execution_id :: "string option"
  execution_root_process_instance_id :: "string option"
  execution_process_instance_id :: "string option"
  execution_process_definition_id :: "string option"
  execution_process_definition_key :: "string option"
  execution_process_definition_name :: "string option"
  execution_process_definition_version :: "i32 option"
  execution_activity_id :: "string option"
  execution_activity_name :: "string option"
  execution_name :: "string option"
  execution_description :: "string option"
  execution_is_suspended :: bool
  execution_is_ended :: bool
  execution_is_active :: bool
  execution_is_concurrent :: bool
  execution_is_scope :: bool
  execution_is_multi_instance_root :: bool
  execution_tenant_id :: "string option"
  execution_reference_id :: "string option"
  execution_reference_type :: "string option"
  execution_variables :: "string \<rightharpoonup> json"
  execution_local_variables :: "string \<rightharpoonup> json"
  execution_transient_variables :: "string \<rightharpoonup> json"
  execution_non_interrupting_event_subprocess_path :: bool

definition default_execution :: execution where
  "default_execution =
     \<lparr>execution_id = [], execution_parent_id = None, execution_super_execution_id = None,
      execution_root_process_instance_id = None, execution_process_instance_id = None,
      execution_process_definition_id = None, execution_process_definition_key = None,
      execution_process_definition_name = None, execution_process_definition_version = None,
      execution_activity_id = None, execution_activity_name = None, execution_name = None,
      execution_description = None, execution_is_suspended = False, execution_is_ended = False,
      execution_is_active = False, execution_is_concurrent = False, execution_is_scope = False,
      execution_is_multi_instance_root = False, execution_tenant_id = None,
      execution_reference_id = None, execution_reference_type = None,
      execution_variables = Map.empty, execution_local_variables = Map.empty,
      execution_transient_variables = Map.empty,
      execution_non_interrupting_event_subprocess_path = False\<rparr>"

definition set_process_variable :: "string \<Rightarrow> json \<Rightarrow> execution \<Rightarrow> execution" where
  "set_process_variable n v e = e\<lparr>execution_variables := (execution_variables e)(n \<mapsto> v)\<rparr>"

definition set_process_variables :: "(string \<rightharpoonup> json) \<Rightarrow> execution \<Rightarrow> execution" where
  "set_process_variables vs e = e\<lparr>execution_variables := vs\<rparr>"

definition process_variable :: "execution \<Rightarrow> string \<Rightarrow> json option" where
  "process_variable e n =
     (case execution_transient_variables e n of
        Some v \<Rightarrow> Some v
      | None \<Rightarrow> (case execution_local_variables e n of
          Some v \<Rightarrow> Some v
        | None \<Rightarrow> execution_variables e n))"

definition persistent_process_variable :: "execution \<Rightarrow> string \<Rightarrow> json option" where
  "persistent_process_variable e n = execution_variables e n"

definition set_local_variable :: "string \<Rightarrow> json \<Rightarrow> execution \<Rightarrow> execution" where
  "set_local_variable n v e = e\<lparr>execution_local_variables := (execution_local_variables e)(n \<mapsto> v)\<rparr>"

definition set_transient_variable :: "string \<Rightarrow> json \<Rightarrow> execution \<Rightarrow> execution" where
  "set_transient_variable n v e =
     e\<lparr>execution_transient_variables := (execution_transient_variables e)(n \<mapsto> v)\<rparr>"

definition parallel_scope_id :: "execution \<Rightarrow> string" where
  "parallel_scope_id e = (case execution_parent_id e of Some p \<Rightarrow> p | None \<Rightarrow> execution_id e)"

definition is_process_instance_scope_execution :: "execution \<Rightarrow> bool" where
  "is_process_instance_scope_execution e \<longleftrightarrow>
     execution_parent_id e = None \<and> execution_process_instance_id e = Some (execution_id e)"

section \<open>The state of a command\<close>

text \<open>
  A planned operation.  \<open>plan_operation\<close> takes any boxed operation; the two kinds the token operations
  plan are constructors, any other one is \<open>OtherOperation\<close> with a tag and its execution.
\<close>

datatype agenda_operation =
    ContinueProcessOperation execution
  | TakeOutgoingSequenceFlowsOperation execution
  | OtherOperation string execution

record variable_row =
  variable_row_value :: json
  variable_row_execution_id :: string
  variable_row_process_instance_id :: string
  variable_row_name :: string

record command_state =
  cs_executions :: "execution list"
  cs_variables :: "string \<rightharpoonup> variable_row"
  cs_involved :: "string index_map"
  cs_transient_dirty :: "string list"
  cs_agenda :: "agenda_operation list"
  cs_uuids_drawn :: nat

definition plan_operation :: "agenda_operation \<Rightarrow> command_state \<Rightarrow> command_state" where
  "plan_operation operation s = s\<lparr>cs_agenda := cs_agenda s @ [operation]\<rparr>"

definition plan_continue_process_operation :: "execution \<Rightarrow> command_state \<Rightarrow> command_state" where
  "plan_continue_process_operation e = plan_operation (ContinueProcessOperation e)"

definition plan_take_outgoing_sequence_flows_operation :: "execution \<Rightarrow> command_state \<Rightarrow> command_state" where
  "plan_take_outgoing_sequence_flows_operation e = plan_operation (TakeOutgoingSequenceFlowsOperation e)"

definition pop_operation :: "command_state \<Rightarrow> (agenda_operation \<times> command_state) option" where
  "pop_operation s =
     (case cs_agenda s of [] \<Rightarrow> None | operation # rest \<Rightarrow> Some (operation, s\<lparr>cs_agenda := rest\<rparr>))"

definition clear_agenda :: "command_state \<Rightarrow> command_state" where
  "clear_agenda s = s\<lparr>cs_agenda := []\<rparr>"

definition new_uuid :: "(nat \<Rightarrow> string) \<Rightarrow> command_state \<Rightarrow> string \<times> command_state" where
  "new_uuid uuid s = (uuid (cs_uuids_drawn s), s\<lparr>cs_uuids_drawn := Suc (cs_uuids_drawn s)\<rparr>)"

section \<open>The execution store\<close>

definition mark_involved_process_instance :: "execution \<Rightarrow> command_state \<Rightarrow> command_state" where
  "mark_involved_process_instance e s =
     (case (execution_process_instance_id e, execution_process_definition_id e) of
        (Some pi_id, Some def_id) \<Rightarrow> s\<lparr>cs_involved := index_map_insert pi_id def_id (cs_involved s)\<rparr>
      | _ \<Rightarrow> s)"

definition mark_transient_dirty_execution :: "string \<Rightarrow> command_state \<Rightarrow> command_state" where
  "mark_transient_dirty_execution i s = s\<lparr>cs_transient_dirty := List.insert i (cs_transient_dirty s)\<rparr>"

definition take_involved_process_instances :: "command_state \<Rightarrow> string index_map \<times> command_state" where
  "take_involved_process_instances s = (cs_involved s, s\<lparr>cs_involved := []\<rparr>)"

definition take_transient_dirty_execution_ids :: "command_state \<Rightarrow> string list \<times> command_state" where
  "take_transient_dirty_execution_ids s = (cs_transient_dirty s, s\<lparr>cs_transient_dirty := []\<rparr>)"

definition variable_key :: "string \<Rightarrow> string \<Rightarrow> string" where
  "variable_key i n = i @ '':'' @ n"

definition delete_variables_by_execution_id :: "string \<Rightarrow> (string \<rightharpoonup> variable_row) \<Rightarrow> (string \<rightharpoonup> variable_row)" where
  "delete_variables_by_execution_id i t =
     (\<lambda>k. case t k of None \<Rightarrow> None | Some r \<Rightarrow> if variable_row_execution_id r = i then None else Some r)"

text \<open>The loop that writes one row per name of a map, under the key \<open>{execution id}:{name}\<close>.\<close>

definition project_variables :: "string \<Rightarrow> string \<Rightarrow> (string \<rightharpoonup> json) \<Rightarrow> (string \<rightharpoonup> variable_row)
    \<Rightarrow> (string \<rightharpoonup> variable_row)" where
  "project_variables i pi_id m t =
     (\<lambda>k. let n = drop (length i + 1) k in
        if k = variable_key i n then
          (case m n of
             Some v \<Rightarrow> Some \<lparr>variable_row_value = v, variable_row_execution_id = i,
                              variable_row_process_instance_id = pi_id, variable_row_name = n\<rparr>
           | None \<Rightarrow> t k)
        else t k)"

text \<open>\<open>insert_with_extra\<close> upserts: a row with the same id is replaced in place.\<close>

fun upsert_execution :: "execution \<Rightarrow> execution list \<Rightarrow> execution list" where
  "upsert_execution e [] = [e]"
| "upsert_execution e (x # xs) = (if execution_id x = execution_id e then e # xs else x # upsert_execution e xs)"

definition insert_execution :: "execution \<Rightarrow> command_state \<Rightarrow> command_state" where
  "insert_execution e s =
     (let pi_id = (case execution_process_instance_id e of Some i \<Rightarrow> i | None \<Rightarrow> []);
          s1 = mark_involved_process_instance e s;
          s2 = (if execution_transient_variables e = Map.empty then s1
                else mark_transient_dirty_execution (execution_id e) s1);
          t1 = delete_variables_by_execution_id (execution_id e) (cs_variables s2);
          t2 = project_variables (execution_id e) pi_id (execution_variables e) t1;
          t3 = project_variables (execution_id e) pi_id (execution_local_variables e) t2
      in s2\<lparr>cs_variables := t3, cs_executions := upsert_execution e (cs_executions s2)\<rparr>)"

definition update_execution :: "execution \<Rightarrow> command_state \<Rightarrow> command_state" where
  "update_execution e s = insert_execution e s"

definition find_execution :: "string \<Rightarrow> command_state \<Rightarrow> execution option" where
  "find_execution i s = find (\<lambda>e. execution_id e = i) (cs_executions s)"

definition delete_execution :: "string \<Rightarrow> command_state \<Rightarrow> command_state" where
  "delete_execution i s =
     (let s1 = (case find_execution i s of Some e \<Rightarrow> mark_involved_process_instance e s | None \<Rightarrow> s)
      in s1\<lparr>cs_variables := delete_variables_by_execution_id i (cs_variables s1),
            cs_executions := filter (\<lambda>e. execution_id e \<noteq> i) (cs_executions s1)\<rparr>)"

definition snapshot_executions :: "command_state \<Rightarrow> execution list" where
  "snapshot_executions s = cs_executions s"

definition rewrite_execution_json :: "execution \<Rightarrow> command_state \<Rightarrow> command_state" where
  "rewrite_execution_json e s = s\<lparr>cs_executions := upsert_execution e (cs_executions s)\<rparr>"

fun strip_ids :: "string list \<Rightarrow> command_state \<Rightarrow> command_state" where
  "strip_ids [] s = s"
| "strip_ids (i # ids) s =
     strip_ids ids (case find_execution i s of
        None \<Rightarrow> s
      | Some e \<Rightarrow> if execution_transient_variables e = Map.empty then s
                  else rewrite_execution_json (e\<lparr>execution_transient_variables := Map.empty\<rparr>) s)"

definition strip_transient_variables_before_commit :: "command_state \<Rightarrow> command_state" where
  "strip_transient_variables_before_commit s =
     (case take_transient_dirty_execution_ids s of (ids, s1) \<Rightarrow> strip_ids ids s1)"

definition find_child_executions_by_parent_execution_id :: "string \<Rightarrow> command_state \<Rightarrow> execution list" where
  "find_child_executions_by_parent_execution_id p s =
     filter (\<lambda>e. execution_parent_id e = Some p) (snapshot_executions s)"

definition find_executions_by_process_instance_id :: "string \<Rightarrow> command_state \<Rightarrow> execution list" where
  "find_executions_by_process_instance_id p s =
     filter (\<lambda>e. execution_process_instance_id e = Some p) (snapshot_executions s)"

definition find_executions_by_root_process_instance_id :: "string \<Rightarrow> command_state \<Rightarrow> execution list" where
  "find_executions_by_root_process_instance_id p s =
     filter (\<lambda>e. execution_root_process_instance_id e = Some p) (snapshot_executions s)"

section \<open>Variable scopes\<close>

text \<open>The value of a name along the parent chain; \<open>None\<close> is a chain that never ends.\<close>

partial_function (option) find_execution_variable :: "command_state \<Rightarrow> string \<Rightarrow> string
    \<Rightarrow> (string \<times> json) option option" where
  "find_execution_variable s i n =
     (case find_execution i s of
        None \<Rightarrow> Some None
      | Some e \<Rightarrow>
          (case process_variable e n of
             Some v \<Rightarrow> Some (Some (execution_id e, v))
           | None \<Rightarrow>
               (case execution_parent_id e of
                  None \<Rightarrow> Some None
                | Some p \<Rightarrow> find_execution_variable s p n)))"

text \<open>\<open>for (k, v) in m \{ all.entry(k).or_insert(v) \}\<close> keeps what \<open>all\<close> has and adds the rest of \<open>m\<close>.\<close>

definition or_insert_all :: "(string \<rightharpoonup> json) \<Rightarrow> (string \<rightharpoonup> json) \<Rightarrow> (string \<rightharpoonup> json)" where
  "or_insert_all m all_variables = m ++ all_variables"

partial_function (option) collect_loop :: "command_state \<Rightarrow> string \<Rightarrow> (string \<rightharpoonup> json) \<Rightarrow> (string \<rightharpoonup> json) option" where
  "collect_loop s i all_variables =
     (case find_execution i s of
        None \<Rightarrow> Some all_variables
      | Some e \<Rightarrow>
          (let all1 = or_insert_all (execution_transient_variables e) all_variables;
               all2 = or_insert_all (execution_local_variables e) all1;
               all3 = or_insert_all (execution_variables e) all2
           in case execution_parent_id e of
                None \<Rightarrow> Some all3
              | Some p \<Rightarrow> collect_loop s p all3))"

definition collect_execution_variables :: "command_state \<Rightarrow> string \<Rightarrow> (string \<rightharpoonup> json) option" where
  "collect_execution_variables s i = collect_loop s i Map.empty"

definition evaluation_execution :: "command_state \<Rightarrow> execution \<Rightarrow> execution option" where
  "evaluation_execution s e =
     (case (case execution_parent_id e of
              Some p \<Rightarrow> collect_execution_variables s p
            | None \<Rightarrow> Some Map.empty) of
        None \<Rightarrow> None
      | Some inherited \<Rightarrow>
          (let pi_id = (case execution_process_instance_id e of Some i \<Rightarrow> i | None \<Rightarrow> execution_id e);
               inherited1 = (case find_execution pi_id s of
                  None \<Rightarrow> inherited
                | Some root \<Rightarrow>
                    or_insert_all (execution_transient_variables root)
                      (or_insert_all (execution_local_variables root)
                        (or_insert_all (execution_variables root) inherited)))
           in Some (e\<lparr>execution_variables := or_insert_all inherited1 (execution_variables e)\<rparr>)))"

section \<open>The agenda loop\<close>

text \<open>
  \<open>while let Some(operation) = agenda.pop_operation()\<close> with \<open>operation.run\<close> as an argument, since an
  operation is a trait object; the first error ends the loop and the command, whose session is rolled back.
\<close>

partial_function (option) drain_agenda :: "(agenda_operation \<Rightarrow> command_state \<Rightarrow> 'e + command_state)
    \<Rightarrow> command_state \<Rightarrow> ('e + command_state) option" where
  "drain_agenda run s =
     (case pop_operation s of
        None \<Rightarrow> Some (Inr s)
      | Some (operation, s1) \<Rightarrow>
          (case run operation s1 of
             Inl e \<Rightarrow> Some (Inl e)
           | Inr s2 \<Rightarrow> drain_agenda run s2))"

end
