(* ===== verification/Sequence_Flows.thy ===== *)
theory Sequence_Flows
  imports Execution_Store
begin

text \<open>
  Which sequence flows a token takes: skip expressions (\<open>bpmn/skip_expression.rs\<close>), conditions
  (\<open>el/uel_expression_condition.rs\<close>) and the two selections of
  \<open>agenda/take_outgoing_sequence_flows_operation.rs\<close>, of all matching flows and of the first one at an
  exclusive gateway.  The expression language (\<open>SimpleExpression::get_value_strict\<close>) is an argument: it
  maps the expression text and the evaluation execution to an error message or an optional value.
  The formatted messages of \<open>FlowableError::ExecutionError\<close> are the constructors of \<open>flow_error\<close> with
  the values they show.
\<close>

type_synonym expression_value = "string \<Rightarrow> execution \<Rightarrow> string + json option"

datatype flow_error =
    SkipEnabledNotBoolean "string option" json
  | SkipNotBoolean string "string option" json
  | SkipUnresolved string "string option" string
  | SkipFailed string "string option" string
  | ConditionFailed "string option" string
  | ConditionNull "string option"
  | ConditionNotBoolean "string option" json
  | NoFlowSelected string string

section \<open>Skip expressions\<close>

definition ACTIVITI_SKIP_EXPRESSION_ENABLED :: string where
  "ACTIVITI_SKIP_EXPRESSION_ENABLED = ''_ACTIVITI_SKIP_EXPRESSION_ENABLED''"

definition FLOWABLE_SKIP_EXPRESSION_ENABLED :: string where
  "FLOWABLE_SKIP_EXPRESSION_ENABLED = ''_FLOWABLE_SKIP_EXPRESSION_ENABLED''"

definition is_skip_expression_enabled :: "string option \<Rightarrow> execution \<Rightarrow> flow_error + bool" where
  "is_skip_expression_enabled activity_id e =
     (case process_variable e ACTIVITI_SKIP_EXPRESSION_ENABLED of
        Some (JsonBool value) \<Rightarrow> Inr value
      | Some value \<Rightarrow> Inl (SkipEnabledNotBoolean activity_id value)
      | None \<Rightarrow>
          (case process_variable e FLOWABLE_SKIP_EXPRESSION_ENABLED of
             Some (JsonBool value) \<Rightarrow> Inr value
           | Some value \<Rightarrow> Inl (SkipEnabledNotBoolean activity_id value)
           | None \<Rightarrow> Inr False))"

definition should_skip_flow_element :: "expression_value \<Rightarrow> string option \<Rightarrow> string \<Rightarrow> string option
    \<Rightarrow> execution \<Rightarrow> flow_error + bool" where
  "should_skip_flow_element eval skip_expression element_type activity_id e =
     (case skip_expression of
        None \<Rightarrow> Inr False
      | Some expression \<Rightarrow>
          rbind (is_skip_expression_enabled activity_id e) (\<lambda>enabled.
            if \<not> enabled then Inr False
            else case eval expression e of
                   Inr (Some (JsonBool value)) \<Rightarrow> Inr value
                 | Inr (Some value) \<Rightarrow> Inl (SkipNotBoolean element_type activity_id value)
                 | Inr None \<Rightarrow> Inl (SkipUnresolved element_type activity_id expression)
                 | Inl error \<Rightarrow> Inl (SkipFailed element_type activity_id error)))"

definition should_skip_sequence_flow :: "expression_value \<Rightarrow> nat \<Rightarrow> string option \<Rightarrow> string option
    \<Rightarrow> execution \<Rightarrow> flow_error + bool" where
  "should_skip_sequence_flow eval outgoing_flow_count skip_expression flow_id e =
     (case skip_expression of
        None \<Rightarrow> Inr False
      | Some expression \<Rightarrow>
          rbind (is_skip_expression_enabled flow_id e) (\<lambda>enabled.
            if \<not> enabled then Inr False
            else if outgoing_flow_count = 1 then Inr True
            else should_skip_flow_element eval (Some expression) ''SequenceFlow'' flow_id e))"

section \<open>Conditions\<close>

definition evaluate_condition :: "expression_value \<Rightarrow> string \<Rightarrow> string option \<Rightarrow> execution \<Rightarrow> flow_error + bool" where
  "evaluate_condition eval expression element_id e =
     (case eval expression e of
        Inl error \<Rightarrow> Inl (ConditionFailed element_id error)
      | Inr (Some (JsonBool value)) \<Rightarrow> Inr value
      | Inr (Some JsonNull) \<Rightarrow> Inl (ConditionNull element_id)
      | Inr None \<Rightarrow> Inl (ConditionNull element_id)
      | Inr (Some value) \<Rightarrow> Inl (ConditionNotBoolean element_id value))"

definition sequence_flow_id :: "sequence_flow \<Rightarrow> string option" where
  "sequence_flow_id f = base_element_id (flow_element_base_element (sequence_flow_flow_element f))"

definition condition_met :: "expression_value \<Rightarrow> sequence_flow \<Rightarrow> execution \<Rightarrow> flow_error + bool" where
  "condition_met eval f e =
     (case sequence_flow_condition_expression f of
        None \<Rightarrow> Inr True
      | Some expression \<Rightarrow>
          evaluate_condition eval expression
            (Some (case sequence_flow_id f of Some i \<Rightarrow> i | None \<Rightarrow> [])) e)"

definition target_is_end_event :: "process \<Rightarrow> sequence_flow \<Rightarrow> bool" where
  "target_is_end_event p f =
     (case sequence_flow_target_ref f of
        None \<Rightarrow> False
      | Some target_ref \<Rightarrow> is_end_event (map_of (process_flow_element_map p) target_ref))"

section \<open>Selection\<close>

fun collect_flows_loop :: "expression_value \<Rightarrow> process \<Rightarrow> string option \<Rightarrow> nat \<Rightarrow> execution \<Rightarrow> sequence_flow list
    \<Rightarrow> (sequence_flow \<times> bool) list \<Rightarrow> sequence_flow option
    \<Rightarrow> flow_error + (sequence_flow \<times> bool) list \<times> sequence_flow option" where
  "collect_flows_loop eval p default_flow_id count e [] selected default_flow = Inr (selected, default_flow)"
| "collect_flows_loop eval p default_flow_id count e (f # flows) selected default_flow =
     rbind (should_skip_sequence_flow eval count (sequence_flow_skip_expression f) (sequence_flow_id f) e) (\<lambda>skip.
       if skip then
         collect_flows_loop eval p default_flow_id count e flows (selected @ [(f, target_is_end_event p f)]) default_flow
       else if default_flow_id \<noteq> None \<and> sequence_flow_id f = default_flow_id then
         collect_flows_loop eval p default_flow_id count e flows selected (Some f)
       else
         rbind (condition_met eval f e) (\<lambda>met.
           collect_flows_loop eval p default_flow_id count e flows
             (if met then selected @ [(f, target_is_end_event p f)] else selected) default_flow))"

definition collect_matching_outgoing_flows :: "expression_value \<Rightarrow> process \<Rightarrow> string option \<Rightarrow> sequence_flow list
    \<Rightarrow> execution \<Rightarrow> flow_error + (sequence_flow \<times> bool) list" where
  "collect_matching_outgoing_flows eval p default_flow_id flows e =
     rbind (collect_flows_loop eval p default_flow_id (length flows) e flows [] None) (\<lambda>(selected, default_flow).
       Inr (case default_flow of
              Some f \<Rightarrow> if selected = [] then [(f, target_is_end_event p f)] else selected
            | None \<Rightarrow> selected))"

fun exclusive_flows_loop :: "expression_value \<Rightarrow> string option \<Rightarrow> execution \<Rightarrow> sequence_flow list
    \<Rightarrow> sequence_flow option \<Rightarrow> flow_error + sequence_flow option" where
  "exclusive_flows_loop eval default_flow_id e [] default_flow = Inr default_flow"
| "exclusive_flows_loop eval default_flow_id e (f # flows) default_flow =
     (let is_default = (default_flow_id \<noteq> None \<and> sequence_flow_id f = default_flow_id);
          default1 = (if is_default then Some f else default_flow)
      in rbind (if sequence_flow_skip_expression f \<noteq> None
                then is_skip_expression_enabled (sequence_flow_id f) e else Inr False) (\<lambda>enabled.
           if enabled then
             rbind (should_skip_flow_element eval (sequence_flow_skip_expression f) ''SequenceFlow''
                      (sequence_flow_id f) e) (\<lambda>skip.
               if skip then Inr (Some f) else exclusive_flows_loop eval default_flow_id e flows default1)
           else if is_default then exclusive_flows_loop eval default_flow_id e flows default1
           else rbind (condition_met eval f e) (\<lambda>met.
             if met then Inr (Some f) else exclusive_flows_loop eval default_flow_id e flows default1)))"

definition select_exclusive_gateway_flow :: "expression_value \<Rightarrow> flow_element_enum \<Rightarrow> sequence_flow list
    \<Rightarrow> execution \<Rightarrow> flow_error + sequence_flow option" where
  "select_exclusive_gateway_flow eval element flows e =
     exclusive_flows_loop eval (get_gateway_default_flow_id element) e flows None"

text \<open>
  \<open>InclusiveGatewayAction\<close> and the choice of it in \<open>TakeOutgoingSequenceFlowsOperation::run\<close>; the
  execution is the one the conditions are evaluated on.
\<close>

datatype inclusive_gateway_action =
    ContinueFlows "(sequence_flow \<times> bool) list"
  | SplitFlows "(sequence_flow \<times> bool) list"

definition leaving_action :: "expression_value \<Rightarrow> process \<Rightarrow> flow_element_enum \<Rightarrow> sequence_flow list \<Rightarrow> string
    \<Rightarrow> execution \<Rightarrow> flow_error + inclusive_gateway_action" where
  "leaving_action eval p element flows activity_id e =
     (case element of
        FeExclusiveGateway _ \<Rightarrow>
          rbind (select_exclusive_gateway_flow eval element flows e) (\<lambda>selected.
            case selected of
              Some f \<Rightarrow> Inr (ContinueFlows [(f, target_is_end_event p f)])
            | None \<Rightarrow> Inl (NoFlowSelected activity_id (execution_id e)))
      | FeInclusiveGateway _ \<Rightarrow>
          rbind (collect_matching_outgoing_flows eval p (get_gateway_default_flow_id element) flows e)
            (\<lambda>selected. Inr (SplitFlows selected))
      | _ \<Rightarrow>
          rbind (collect_matching_outgoing_flows eval p (get_gateway_default_flow_id element) flows e)
            (\<lambda>selected. Inr (ContinueFlows selected)))"

section \<open>Specification of the selections\<close>

text \<open>
  What a flow contributes on its own: \<open>Some True\<close> taken, \<open>Some False\<close> not taken, \<open>None\<close> the default
  flow, held back until the others are known.
\<close>

definition flow_decision :: "expression_value \<Rightarrow> string option \<Rightarrow> nat \<Rightarrow> execution \<Rightarrow> sequence_flow
    \<Rightarrow> flow_error + bool option" where
  "flow_decision eval default_flow_id count e f =
     rbind (should_skip_sequence_flow eval count (sequence_flow_skip_expression f) (sequence_flow_id f) e) (\<lambda>skip.
       if skip then Inr (Some True)
       else if default_flow_id \<noteq> None \<and> sequence_flow_id f = default_flow_id then Inr None
       else rbind (condition_met eval f e) (\<lambda>met. Inr (Some met)))"

definition chosen_flows :: "expression_value \<Rightarrow> string option \<Rightarrow> execution \<Rightarrow> sequence_flow list \<Rightarrow> sequence_flow list" where
  "chosen_flows eval default_flow_id e flows =
     (let taken = filter (\<lambda>f. flow_decision eval default_flow_id (length flows) e f = Inr (Some True)) flows;
          held = filter (\<lambda>f. flow_decision eval default_flow_id (length flows) e f = Inr None) flows
      in if taken = [] \<and> held \<noteq> [] then [last held] else taken)"

text \<open>At an exclusive gateway a flow is taken or passed over.\<close>

definition exclusive_decision :: "expression_value \<Rightarrow> string option \<Rightarrow> execution \<Rightarrow> sequence_flow \<Rightarrow> flow_error + bool" where
  "exclusive_decision eval default_flow_id e f =
     rbind (if sequence_flow_skip_expression f \<noteq> None
            then is_skip_expression_enabled (sequence_flow_id f) e else Inr False) (\<lambda>enabled.
       if enabled then
         should_skip_flow_element eval (sequence_flow_skip_expression f) ''SequenceFlow'' (sequence_flow_id f) e
       else if default_flow_id \<noteq> None \<and> sequence_flow_id f = default_flow_id then Inr False
       else condition_met eval f e)"

definition declared_default :: "string option \<Rightarrow> sequence_flow list \<Rightarrow> sequence_flow option" where
  "declared_default default_flow_id flows =
     find (\<lambda>f. default_flow_id \<noteq> None \<and> sequence_flow_id f = default_flow_id) (rev flows)"

text \<open>A user task with a conditional flow and a flow that it declares as its default.\<close>

definition named_flow :: "string \<Rightarrow> string option \<Rightarrow> sequence_flow" where
  "named_flow i condition = default_sequence_flow
     \<lparr>sequence_flow_flow_element := default_flow_element\<lparr>flow_element_base_element := MkBaseElement (Some i) 0 0 [] []\<rparr>,
      sequence_flow_condition_expression := condition, sequence_flow_target_ref := Some i\<rparr>"

definition defaulting_task :: user_task where
  "defaulting_task = default_user_task\<lparr>user_task_task := default_task
     \<lparr>task_activity := default_activity\<lparr>activity_default_flow := Some ''otherwise''\<rparr>\<rparr>\<rparr>"

definition constant_value :: "json \<Rightarrow> expression_value" where
  "constant_value v = (\<lambda>_ _. Inr (Some v))"

section \<open>Lemmas\<close>

lemma collect_flows_step:
  "collect_flows_loop eval p di n e (f # flows) selected d =
     rbind (flow_decision eval di n e f) (\<lambda>dec.
       collect_flows_loop eval p di n e flows
         (if dec = Some True then selected @ [(f, target_is_end_event p f)] else selected)
         (if dec = None then Some f else d))"
proof (cases "should_skip_sequence_flow eval n (sequence_flow_skip_expression f) (sequence_flow_id f) e")
  case (Inl err)
  then show ?thesis by (simp only: collect_flows_loop.simps flow_decision_def rbind.simps)
next
  case (Inr skip)
  then show ?thesis
    by (cases "condition_met eval f e")
       (simp_all only: collect_flows_loop.simps flow_decision_def rbind.simps split: if_split, simp_all)
qed

lemma collect_flows_loop_exact:
  "collect_flows_loop eval p di n e flows selected d =
     (case find (\<lambda>f. isl (flow_decision eval di n e f)) flows of
        Some f \<Rightarrow> Inl (projl (flow_decision eval di n e f))
      | None \<Rightarrow>
          Inr (selected @ map (\<lambda>f. (f, target_is_end_event p f))
                 (filter (\<lambda>f. flow_decision eval di n e f = Inr (Some True)) flows),
               let held = filter (\<lambda>f. flow_decision eval di n e f = Inr None) flows
               in if held = [] then d else Some (last held)))"
proof (induction flows arbitrary: selected d)
  case (Cons f flows)
  consider err where "flow_decision eval di n e f = Inl err" | "flow_decision eval di n e f = Inr None"
    | b where "flow_decision eval di n e f = Inr (Some b)"
    by (cases "flow_decision eval di n e f") (metis option.exhaust)+
  then show ?case
    by cases (simp_all add: collect_flows_step Cons.IH Let_def split: option.split del: collect_flows_loop.simps)
qed simp

lemma exclusive_flows_step:
  "exclusive_flows_loop eval di e (f # flows) d =
     rbind (exclusive_decision eval di e f) (\<lambda>take.
       if take then Inr (Some f)
       else exclusive_flows_loop eval di e flows (if di \<noteq> None \<and> sequence_flow_id f = di then Some f else d))"
proof (cases "if sequence_flow_skip_expression f \<noteq> None then is_skip_expression_enabled (sequence_flow_id f) e else Inr False")
  case (Inl err)
  then show ?thesis by (simp only: exclusive_flows_loop.simps exclusive_decision_def Let_def rbind.simps)
next
  case (Inr enabled)
  then show ?thesis
    by (simp only: exclusive_flows_loop.simps exclusive_decision_def Let_def rbind.simps)
       (simp split: if_splits)
qed

lemma find_append:
  "find P (xs @ ys) = (case find P xs of None \<Rightarrow> find P ys | Some x \<Rightarrow> Some x)"
  by (induction xs) auto

lemma declared_default_Cons:
  "declared_default di (f # flows) =
     (case declared_default di flows of
        Some g \<Rightarrow> Some g
      | None \<Rightarrow> if di \<noteq> None \<and> sequence_flow_id f = di then Some f else None)"
  by (simp add: declared_default_def find_append split: option.splits)

lemma declared_default_in: "declared_default di flows = Some f \<Longrightarrow> f \<in> set flows"
proof (induction flows)
  case (Cons g flows)
  then show ?case by (auto simp: declared_default_Cons split: option.splits if_splits)
qed (simp add: declared_default_def)

lemma declared_default_or:
  "(case declared_default di (f # flows) of None \<Rightarrow> d | Some g \<Rightarrow> Some g) =
     (case declared_default di flows of
        None \<Rightarrow> if di \<noteq> None \<and> sequence_flow_id f = di then Some f else d
      | Some g \<Rightarrow> Some g)"
  unfolding declared_default_Cons by (cases "declared_default di flows") simp_all

lemma exclusive_flows_loop_exact:
  "exclusive_flows_loop eval di e flows d =
     (case dropWhile (\<lambda>f. exclusive_decision eval di e f = Inr False) flows of
        [] \<Rightarrow> Inr (case declared_default di flows of None \<Rightarrow> d | Some f \<Rightarrow> Some f)
      | f # _ \<Rightarrow> rbind (exclusive_decision eval di e f) (\<lambda>_. Inr (Some f)))"
proof (induction flows arbitrary: d)
  case (Cons f flows)
  consider err where "exclusive_decision eval di e f = Inl err"
    | "exclusive_decision eval di e f = Inr True" | "exclusive_decision eval di e f = Inr False"
    by (cases "exclusive_decision eval di e f") auto
  then show ?case
  proof cases
    case 3
    then have drop: "dropWhile (\<lambda>f. exclusive_decision eval di e f = Inr False) (f # flows)
        = dropWhile (\<lambda>f. exclusive_decision eval di e f = Inr False) flows" by simp
    show ?thesis
      unfolding exclusive_flows_step 3 rbind.simps if_False Cons.IH drop declared_default_or ..
  qed (simp_all add: exclusive_flows_step del: exclusive_flows_loop.simps)
qed (simp add: declared_default_def)

section \<open>Properties\<close>

text \<open>
  C36. Leaving over all matching flows: the first flow whose skip expression or condition cannot be
  evaluated fails the operation with its own error; otherwise the taken flows are, in their order, those
  skipped or whose condition holds, and the (last) default flow alone when there is none.
\<close>

theorem matching_flows_exact:
  "collect_matching_outgoing_flows eval p di flows e =
     (case find (\<lambda>f. isl (flow_decision eval di (length flows) e f)) flows of
        Some f \<Rightarrow> Inl (projl (flow_decision eval di (length flows) e f))
      | None \<Rightarrow> Inr (map (\<lambda>f. (f, target_is_end_event p f)) (chosen_flows eval di e flows)))"
  unfolding collect_matching_outgoing_flows_def collect_flows_loop_exact
  by (auto simp: chosen_flows_def Let_def split: option.split)

text \<open>
  An exclusive gateway takes the first flow that is not passed over, or fails with the error of
  that flow; only when all flows are passed over does it fall back to the flow declared as default.
\<close>

theorem exclusive_takes_first:
  "select_exclusive_gateway_flow eval element flows e =
     (case dropWhile (\<lambda>f. exclusive_decision eval (get_gateway_default_flow_id element) e f = Inr False) flows of
        [] \<Rightarrow> Inr (declared_default (get_gateway_default_flow_id element) flows)
      | f # _ \<Rightarrow> rbind (exclusive_decision eval (get_gateway_default_flow_id element) e f) (\<lambda>_. Inr (Some f)))"
proof -
  have "(case d of None \<Rightarrow> None | Some f \<Rightarrow> Some f) = d" for d :: "sequence_flow option"
    by (cases d) simp_all
  then show ?thesis by (simp only: select_exclusive_gateway_flow_def exclusive_flows_loop_exact)
qed

text \<open>
  A token never leaves an exclusive gateway over no flow or over two: whenever the gateway is left,
  it is over exactly one of its outgoing flows.
\<close>

theorem exclusive_leaves_over_one:
  assumes "leaving_action eval p (FeExclusiveGateway g) flows activity_id e = Inr action"
  shows "\<exists>f \<in> set flows. action = ContinueFlows [(f, target_is_end_event p f)]"
proof -
  let ?di = "get_gateway_default_flow_id (FeExclusiveGateway g)"
  from assms obtain f where f: "select_exclusive_gateway_flow eval (FeExclusiveGateway g) flows e = Inr (Some f)"
    "action = ContinueFlows [(f, target_is_end_event p f)]"
    by (auto simp: leaving_action_def split: option.splits)
  have "f \<in> set flows"
  proof (cases "dropWhile (\<lambda>f. exclusive_decision eval ?di e f = Inr False) flows")
    case Nil
    with f(1) have "declared_default ?di flows = Some f"
      by (simp add: select_exclusive_gateway_flow_def exclusive_flows_loop_exact option.case_eq_if split: if_splits)
    then show ?thesis by (rule declared_default_in)
  next
    case (Cons g' rest)
    with f(1) have "g' = f" by (auto simp: select_exclusive_gateway_flow_def exclusive_flows_loop_exact)
    moreover have "g' \<in> set flows" using Cons by (metis list.set_intros(1) set_dropWhileD)
    ultimately show ?thesis by simp
  qed
  with f(2) show ?thesis by blast
qed

theorem exclusive_leaves_over_one_witness:
  "\<exists>f \<in> {named_flow ''a'' (Some ''x''), named_flow ''b'' None}.
     leaving_action (constant_value (JsonBool False)) default_process
       (FeExclusiveGateway \<lparr>exclusive_gateway_gateway = default_gateway\<rparr>)
       [named_flow ''a'' (Some ''x''), named_flow ''b'' None] ''gw'' default_execution
     = Inr (ContinueFlows [(f, target_is_end_event default_process f)])"
proof -
  let ?flows = "[named_flow ''a'' (Some ''x''), named_flow ''b'' None]"
  have "leaving_action (constant_value (JsonBool False)) default_process
       (FeExclusiveGateway \<lparr>exclusive_gateway_gateway = default_gateway\<rparr>) ?flows ''gw'' default_execution
     = Inr (ContinueFlows [(named_flow ''b'' None, target_is_end_event default_process (named_flow ''b'' None))])"
    by (simp add: leaving_action_def select_exclusive_gateway_flow_def get_gateway_default_flow_id_def default_gateway_def
        condition_met_def evaluate_condition_def constant_value_def named_flow_def default_sequence_flow_def)
  from exclusive_leaves_over_one [OF this] this show ?thesis by simp
qed

text \<open>
  A default flow declared on an activity is not honoured: whenever a user task is left, its flow
  without condition and skip expression is taken, whether or not the task declares it as its default and
  another flow is taken as well.
\<close>

theorem activity_default_flow_ignored:
  assumes "leaving_action eval p (FeUserTask t) flows activity_id e = Inr (ContinueFlows selected)"
    and "activity_default_flow (task_activity (user_task_task t)) = sequence_flow_id f"
    and "f \<in> set flows" "sequence_flow_condition_expression f = None" "sequence_flow_skip_expression f = None"
  shows "(f, target_is_end_event p f) \<in> set selected"
proof -
  have no_default: "get_gateway_default_flow_id (FeUserTask t) = None" by (simp add: get_gateway_default_flow_id_def)
  have "flow_decision eval None (length flows) e f = Inr (Some True)"
    using assms(4,5) by (simp add: flow_decision_def should_skip_sequence_flow_def condition_met_def)
  then have "f \<in> set (chosen_flows eval None e flows)"
    using assms(3) by (auto simp: chosen_flows_def Let_def filter_empty_conv)
  moreover from assms(1) have "collect_matching_outgoing_flows eval p None flows e = Inr selected"
    by (auto simp: leaving_action_def no_default)
  then have "selected = map (\<lambda>f. (f, target_is_end_event p f)) (chosen_flows eval None e flows)"
    unfolding collect_matching_outgoing_flows_def collect_flows_loop_exact
    by (auto simp: chosen_flows_def Let_def split: option.splits if_splits)
  ultimately show ?thesis by auto
qed

theorem activity_default_flow_ignored_witness:
  "leaving_action (constant_value (JsonBool True)) default_process (FeUserTask defaulting_task)
       [named_flow ''approved'' (Some ''x''), named_flow ''otherwise'' None] ''review'' default_execution
     = Inr (ContinueFlows [(named_flow ''approved'' (Some ''x''), False), (named_flow ''otherwise'' None, False)])
   \<and> (named_flow ''otherwise'' None, False)
       \<in> set [(named_flow ''approved'' (Some ''x''), False), (named_flow ''otherwise'' None, False)]"
proof
  let ?flows = "[named_flow ''approved'' (Some ''x''), named_flow ''otherwise'' None]"
  let ?selected = "[(named_flow ''approved'' (Some ''x''), False), (named_flow ''otherwise'' None, False)]"
  have no_end: "\<not> target_is_end_event default_process (named_flow i c)" for i c
    by (simp add: target_is_end_event_def named_flow_def default_process_def is_end_event_def)
  have sel: "sequence_flow_skip_expression (named_flow i c) = None" "sequence_flow_id (named_flow i c) = Some i"
    "sequence_flow_condition_expression (named_flow i c) = c" for i c
    by (simp_all add: named_flow_def sequence_flow_id_def default_sequence_flow_def)
  show left: "leaving_action (constant_value (JsonBool True)) default_process (FeUserTask defaulting_task) ?flows
      ''review'' default_execution = Inr (ContinueFlows ?selected)"
    by (simp add: leaving_action_def get_gateway_default_flow_id_def collect_matching_outgoing_flows_def
        should_skip_sequence_flow_def condition_met_def evaluate_condition_def constant_value_def sel no_end)
  have "(named_flow ''otherwise'' None, target_is_end_event default_process (named_flow ''otherwise'' None)) \<in> set ?selected"
    by (rule activity_default_flow_ignored [OF left]) (simp_all add: sel defaulting_task_def)
  then show "(named_flow ''otherwise'' None, False) \<in> set ?selected" by (simp add: no_end)
qed

end
