(* ===== verification/Gateways.thy ===== *)
theory Gateways
  imports Sequence_Flows
begin

text \<open>
  Tokens at gateways and on sequence flows: the parallel, inclusive and exclusive gateway behaviours
  (\<open>bpmn/behavior/*_gateway_activity_behavior.rs\<close>), the re-evaluation of parked inclusive joins with the
  loop of \<open>interceptor/command_executor.rs\<close> that calls it, and the creation of the executions that leave
  a node (\<open>agenda/take_outgoing_sequence_flows_operation.rs\<close>).
  The deployed models are a map from definition ids (\<open>DeploymentManager::get_bpmn_model\<close>).  Walks over
  parent chains and the reachability search may not return, so the behaviours yield an option whose
  \<open>None\<close> is such a run; the search takes the bound on its depth as an argument.
\<close>

type_synonym models = "string \<rightharpoonup> bpmn_model"

definition main_process_of :: "models \<Rightarrow> string \<Rightarrow> process option" where
  "main_process_of models d = (case models d of None \<Rightarrow> None | Some m \<Rightarrow> bpmn_model_main_process m)"

section \<open>Parallel gateway\<close>

definition gateway_flows :: "flow_element_enum \<Rightarrow> (sequence_flow list \<times> sequence_flow list) option" where
  "gateway_flows element =
     (case element of
        FeParallelGateway g \<Rightarrow>
          Some (flow_node_incoming_flows (gateway_flow_node (parallel_gateway_gateway g)),
                flow_node_outgoing_flows (gateway_flow_node (parallel_gateway_gateway g)))
      | _ \<Rightarrow> None)"

definition is_waiting_token_at_parallel_gateway :: "execution \<Rightarrow> string \<Rightarrow> string \<Rightarrow> bool" where
  "is_waiting_token_at_parallel_gateway e gateway_id scope_id \<longleftrightarrow>
     execution_activity_id e = Some gateway_id \<and> parallel_scope_id e = scope_id"

definition preserved_scope :: "execution \<Rightarrow> execution" where
  "preserved_scope e = e\<lparr>execution_is_active := False, execution_is_scope := True, execution_activity_id := None\<rparr>"

definition delete_or_preserve_scope_execution :: "execution \<Rightarrow> command_state \<Rightarrow> command_state" where
  "delete_or_preserve_scope_execution e s =
     (if is_process_instance_scope_execution e then update_execution (preserved_scope e) s
      else delete_execution (execution_id e) s)"

partial_function (option) multi_instance_parent_loop :: "process \<Rightarrow> string option \<Rightarrow> command_state
    \<Rightarrow> execution option option" where
  "multi_instance_parent_loop p current_parent_id s =
     (case current_parent_id of
        None \<Rightarrow> Some None
      | Some parent_id \<Rightarrow>
          (case find_execution parent_id s of
             None \<Rightarrow> Some None
           | Some parent \<Rightarrow>
               if execution_is_multi_instance_root parent then Some (Some parent)
               else if (case execution_activity_id parent of
                          None \<Rightarrow> False
                        | Some a \<Rightarrow> (case find_flow_element p a of
                              None \<Rightarrow> False | Some element \<Rightarrow> has_loop_characteristics element))
               then Some (Some parent)
               else multi_instance_parent_loop p (execution_parent_id parent) s))"

definition find_multi_instance_parent_execution :: "process \<Rightarrow> execution \<Rightarrow> command_state
    \<Rightarrow> execution option option" where
  "find_multi_instance_parent_execution p e s = multi_instance_parent_loop p (execution_parent_id e) s"

partial_function (option) child_of_loop :: "string option \<Rightarrow> execution \<Rightarrow> execution list \<Rightarrow> bool option" where
  "child_of_loop current_parent_id mi by_id =
     (case current_parent_id of
        None \<Rightarrow> Some False
      | Some parent_id \<Rightarrow>
          if parent_id = execution_id mi then Some True
          else child_of_loop (case find (\<lambda>x. execution_id x = parent_id) by_id of
                 None \<Rightarrow> None | Some parent \<Rightarrow> execution_parent_id parent) mi by_id)"

definition is_child_of_multi_instance_execution :: "execution \<Rightarrow> execution \<Rightarrow> execution list \<Rightarrow> bool option" where
  "is_child_of_multi_instance_execution e mi by_id = child_of_loop (execution_parent_id e) mi by_id"

fun clean_joined_executions :: "execution list \<Rightarrow> execution \<Rightarrow> execution list \<Rightarrow> execution list option" where
  "clean_joined_executions [] mi by_id = Some []"
| "clean_joined_executions (e # es) mi by_id =
     (case is_child_of_multi_instance_execution e mi by_id of
        None \<Rightarrow> None
      | Some child \<Rightarrow> map_option (\<lambda>rest. if child then e # rest else rest) (clean_joined_executions es mi by_id))"

text \<open>A forked branch: an empty-scoped concurrent copy of the token at the target of the flow.\<close>

definition forked_child :: "process \<Rightarrow> string \<Rightarrow> execution \<Rightarrow> string \<Rightarrow> string \<Rightarrow> execution" where
  "forked_child p scope_id e i target_ref =
     e\<lparr>execution_id := i, execution_parent_id := Some scope_id, execution_activity_id := Some target_ref,
       execution_is_active := \<not> is_end_event (map_of (process_flow_element_map p) target_ref),
       execution_is_concurrent := True, execution_is_ended := False, execution_is_scope := False,
       execution_is_multi_instance_root := False, execution_variables := Map.empty,
       execution_local_variables := Map.empty, execution_transient_variables := Map.empty\<rparr>"

fun fork_loop :: "(nat \<Rightarrow> string) \<Rightarrow> process \<Rightarrow> string \<Rightarrow> execution \<Rightarrow> sequence_flow list \<Rightarrow> command_state \<Rightarrow> command_state" where
  "fork_loop uuid p scope_id e [] s = s"
| "fork_loop uuid p scope_id e (f # flows) s =
     (case sequence_flow_target_ref f of
        None \<Rightarrow> fork_loop uuid p scope_id e flows s
      | Some target_ref \<Rightarrow>
          (case new_uuid uuid s of (i, s1) \<Rightarrow>
             let child = forked_child p scope_id e i target_ref
             in fork_loop uuid p scope_id e flows
                  (plan_continue_process_operation child (insert_execution child s1))))"

definition joined_tokens :: "process \<Rightarrow> string \<Rightarrow> execution \<Rightarrow> command_state \<Rightarrow> execution list option" where
  "joined_tokens p activity_id e s =
     (let snapshot = snapshot_executions s;
          waiting = filter (\<lambda>c. execution_process_instance_id c = execution_process_instance_id e
              \<and> is_waiting_token_at_parallel_gateway c activity_id (parallel_scope_id e)) snapshot
      in case has_multi_instance_parent p activity_id of
           None \<Rightarrow> None
         | Some False \<Rightarrow> Some waiting
         | Some True \<Rightarrow>
             (case find_multi_instance_parent_execution p e s of
                None \<Rightarrow> None
              | Some None \<Rightarrow> Some waiting
              | Some (Some mi) \<Rightarrow> clean_joined_executions waiting mi snapshot))"

definition parallel_gateway_execute :: "(nat \<Rightarrow> string) \<Rightarrow> models \<Rightarrow> execution \<Rightarrow> command_state \<Rightarrow> command_state option" where
  "parallel_gateway_execute uuid models e s =
     (case execution_activity_id e of None \<Rightarrow> Some s | Some activity_id \<Rightarrow>
     (case execution_process_definition_id e of None \<Rightarrow> Some s | Some d \<Rightarrow>
     (case main_process_of models d of None \<Rightarrow> Some s | Some p \<Rightarrow>
     (case find_flow_element p activity_id of None \<Rightarrow> Some s | Some element \<Rightarrow>
     (case gateway_flows element of None \<Rightarrow> Some s | Some (incoming, outgoing) \<Rightarrow>
       let scope_id = parallel_scope_id e in
       if 1 < length incoming then
         let s1 = update_execution (e\<lparr>execution_is_active := False, execution_is_concurrent := True\<rparr>) s in
         (case joined_tokens p activity_id e s1 of
            None \<Rightarrow> None
          | Some tokens \<Rightarrow>
              if length tokens < length incoming then Some s1
              else
                let s2 = fold (\<lambda>c. delete_execution (execution_id c))
                           (filter (\<lambda>c. execution_id c \<noteq> execution_id e) tokens) s1
                in Some (fork_loop uuid p scope_id e outgoing (delete_or_preserve_scope_execution e s2)))
       else Some (fork_loop uuid p scope_id e outgoing (delete_or_preserve_scope_execution e s)))))))"

section \<open>Inclusive gateway\<close>

definition gateway_incoming_count :: "flow_element_enum \<Rightarrow> nat" where
  "gateway_incoming_count element =
     (case element of
        FeInclusiveGateway g \<Rightarrow> length (flow_node_incoming_flows (gateway_flow_node (inclusive_gateway_gateway g)))
      | _ \<Rightarrow> 0)"

fun one_execution_can_reach_gateway :: "nat \<Rightarrow> process \<Rightarrow> string \<Rightarrow> execution \<Rightarrow> execution list \<Rightarrow> bool option" where
  "one_execution_can_reach_gateway fuel p gateway_id join [] = Some False"
| "one_execution_can_reach_gateway fuel p gateway_id join (c # cs) =
     (if execution_process_instance_id c \<noteq> execution_process_instance_id join
      then one_execution_can_reach_gateway fuel p gateway_id join cs
      else case execution_activity_id c of
             None \<Rightarrow> one_execution_can_reach_gateway fuel p gateway_id join cs
           | Some a \<Rightarrow>
               if a \<noteq> gateway_id then
                 (case is_reachable fuel p a gateway_id of
                    None \<Rightarrow> None
                  | Some r \<Rightarrow>
                      if r \<and> execution_parent_id c = execution_parent_id join then Some True
                      else one_execution_can_reach_gateway fuel p gateway_id join cs)
               else if execution_is_active c
                 \<and> (execution_id c = execution_id join
                    \<or> (case find_flow_element p a of None \<Rightarrow> False | Some element \<Rightarrow> is_asynchronous_activity element))
               then Some True
               else one_execution_can_reach_gateway fuel p gateway_id join cs)"

definition waiting_at :: "string \<Rightarrow> execution \<Rightarrow> execution list \<Rightarrow> execution list" where
  "waiting_at activity_id e es =
     filter (\<lambda>c. execution_process_instance_id c = execution_process_instance_id e
       \<and> execution_activity_id c = Some activity_id \<and> parallel_scope_id c = parallel_scope_id e) es"

text \<open>Remove the waiting tokens, insert the merged execution and let it leave.\<close>

definition merge_tokens :: "(nat \<Rightarrow> string) \<Rightarrow> string \<Rightarrow> execution \<Rightarrow> execution list \<Rightarrow> command_state \<Rightarrow> command_state" where
  "merge_tokens uuid activity_id e tokens s =
     (let s1 = fold (\<lambda>c. delete_execution (execution_id c)) tokens s in
      case new_uuid uuid s1 of (i, s2) \<Rightarrow>
        let merged = e\<lparr>execution_id := i, execution_parent_id := Some (parallel_scope_id e),
              execution_activity_id := Some activity_id, execution_is_active := True,
              execution_is_concurrent := False, execution_is_ended := False\<rparr>
        in plan_take_outgoing_sequence_flows_operation merged (insert_execution merged s2))"

definition inclusive_gateway_execute :: "nat \<Rightarrow> (nat \<Rightarrow> string) \<Rightarrow> models \<Rightarrow> execution \<Rightarrow> command_state
    \<Rightarrow> command_state option" where
  "inclusive_gateway_execute fuel uuid models e s =
     (case execution_activity_id e of None \<Rightarrow> Some s | Some activity_id \<Rightarrow>
     (case execution_process_definition_id e of None \<Rightarrow> Some s | Some d \<Rightarrow>
     (case main_process_of models d of None \<Rightarrow> Some s | Some p \<Rightarrow>
     (case find_flow_element p activity_id of None \<Rightarrow> Some s | Some element \<Rightarrow>
       if 1 < gateway_incoming_count element then
         let waiting = e\<lparr>execution_is_active := False, execution_is_concurrent := True\<rparr>;
             s1 = update_execution waiting s;
             all_executions = snapshot_executions s1
         in case one_execution_can_reach_gateway fuel p activity_id waiting all_executions of
              None \<Rightarrow> None
            | Some True \<Rightarrow> Some s1
            | Some False \<Rightarrow> Some (merge_tokens uuid activity_id e (waiting_at activity_id e all_executions) s1)
       else Some (plan_take_outgoing_sequence_flows_operation e s)))))"

text \<open>
  \<open>collect_inclusive_join_ids\<close>: the containers it descends into are subprocesses, event subprocesses and
  ad-hoc subprocesses.
\<close>

definition join_container_elements :: "flow_element_enum \<Rightarrow> flow_element_enum list option" where
  "join_container_elements element =
     (case element of
        FeSubProcess sp \<Rightarrow> Some (sub_process_flow_elements sp)
      | FeEventSubProcess sp \<Rightarrow> Some (sub_process_flow_elements (event_sub_process_sub_process sp))
      | FeAdhocSubProcess sp \<Rightarrow> Some (sub_process_flow_elements (adhoc_sub_process_sub_process sp))
      | _ \<Rightarrow> None)"

lemma join_container_nested: "join_container_elements e = Some es \<Longrightarrow> nested_flow_elements e = Some es"
  by (cases e) (simp_all add: join_container_elements_def nested_flow_elements_def)

function (sequential) collect_inclusive_join_ids :: "flow_element_enum list \<Rightarrow> string list" where
  "collect_inclusive_join_ids [] = []"
| "collect_inclusive_join_ids (element # elements) =
     (case element of
        FeInclusiveGateway g \<Rightarrow>
          if 1 < length (flow_node_incoming_flows (gateway_flow_node (inclusive_gateway_gateway g)))
          then (case base_element_id (flow_element_base_element (flow_node_flow_element
                  (gateway_flow_node (inclusive_gateway_gateway g)))) of
                  Some i \<Rightarrow> [i] | None \<Rightarrow> [])
          else []
      | _ \<Rightarrow> (case join_container_elements element of
           Some children \<Rightarrow> collect_inclusive_join_ids children | None \<Rightarrow> []))
     @ collect_inclusive_join_ids elements"
  by pat_completeness auto
termination
  by (relation "measure (size_list size)")
     (auto dest!: join_container_nested dest: size_nested_flow_elements)

fun gated_instances :: "models \<Rightarrow> string index_map \<Rightarrow> (string \<times> process \<times> string list) list" where
  "gated_instances models [] = []"
| "gated_instances models ((pi_id, def_id) # involved) =
     (case main_process_of models def_id of
        None \<Rightarrow> gated_instances models involved
      | Some p \<Rightarrow>
          (let join_ids = collect_inclusive_join_ids (process_flow_elements p)
           in if join_ids = [] then gated_instances models involved
              else (pi_id, p, join_ids) # gated_instances models involved))"

type_synonym join_group = "string option \<times> string \<times> string"

text \<open>The scan of the executions of one instance; the state is the flag, the handled groups and the command.\<close>

fun inactive_joins_loop :: "nat \<Rightarrow> (nat \<Rightarrow> string) \<Rightarrow> string \<Rightarrow> process \<Rightarrow> string list \<Rightarrow> execution list
    \<Rightarrow> execution list \<Rightarrow> bool \<times> join_group list \<times> command_state \<Rightarrow> (bool \<times> join_group list \<times> command_state) option" where
  "inactive_joins_loop fuel uuid pi_id p join_ids all_executions [] st = Some st"
| "inactive_joins_loop fuel uuid pi_id p join_ids all_executions (w # ws) (activated, handled, s) =
     (if execution_process_instance_id w \<noteq> Some pi_id
        \<or> execution_is_active w \<or> \<not> execution_is_concurrent w \<or> execution_is_ended w
      then inactive_joins_loop fuel uuid pi_id p join_ids all_executions ws (activated, handled, s)
      else case execution_activity_id w of
        None \<Rightarrow> inactive_joins_loop fuel uuid pi_id p join_ids all_executions ws (activated, handled, s)
      | Some activity_id \<Rightarrow>
          if activity_id \<notin> set join_ids \<or> execution_process_definition_id w = None
            \<or> (execution_process_instance_id w, activity_id, parallel_scope_id w) \<in> set handled
          then inactive_joins_loop fuel uuid pi_id p join_ids all_executions ws (activated, handled, s)
          else
            let handled1 = handled @ [(execution_process_instance_id w, activity_id, parallel_scope_id w)] in
            (case one_execution_can_reach_gateway fuel p activity_id w all_executions of
               None \<Rightarrow> None
             | Some True \<Rightarrow>
                 inactive_joins_loop fuel uuid pi_id p join_ids all_executions ws (activated, handled1, s)
             | Some False \<Rightarrow>
                 inactive_joins_loop fuel uuid pi_id p join_ids all_executions ws
                   (True, handled1, merge_tokens uuid activity_id w (waiting_at activity_id w all_executions) s)))"

fun gated_joins_loop :: "nat \<Rightarrow> (nat \<Rightarrow> string) \<Rightarrow> execution list \<Rightarrow> (string \<times> process \<times> string list) list
    \<Rightarrow> bool \<times> join_group list \<times> command_state \<Rightarrow> (bool \<times> join_group list \<times> command_state) option" where
  "gated_joins_loop fuel uuid all_executions [] st = Some st"
| "gated_joins_loop fuel uuid all_executions ((pi_id, p, join_ids) # gated) st =
     (case inactive_joins_loop fuel uuid pi_id p join_ids all_executions all_executions st of
        None \<Rightarrow> None
      | Some st1 \<Rightarrow> gated_joins_loop fuel uuid all_executions gated st1)"

definition execute_inactive_inclusive_joins :: "nat \<Rightarrow> (nat \<Rightarrow> string) \<Rightarrow> models \<Rightarrow> command_state
    \<Rightarrow> (bool \<times> command_state) option" where
  "execute_inactive_inclusive_joins fuel uuid models s =
     (case take_involved_process_instances s of (involved, s1) \<Rightarrow>
        if involved = [] then Some (False, s1)
        else let gated = gated_instances models involved in
          if gated = [] then Some (False, s1)
          else map_option (\<lambda>(activated, _, s2). (activated, s2))
                 (gated_joins_loop fuel uuid (snapshot_executions s1) gated (False, [], s1)))"

section \<open>The agenda with inactive joins\<close>

text \<open>The agenda part of \<open>execute_terminal\<close>: drain, re-evaluate the parked joins, and again while one fired.\<close>

partial_function (option) run_agenda :: "(agenda_operation \<Rightarrow> command_state \<Rightarrow> 'e + command_state)
    \<Rightarrow> (command_state \<Rightarrow> (bool \<times> command_state) option) \<Rightarrow> command_state \<Rightarrow> ('e + command_state) option" where
  "run_agenda run joins s =
     (case drain_agenda run s of
        None \<Rightarrow> None
      | Some (Inl e) \<Rightarrow> Some (Inl e)
      | Some (Inr s1) \<Rightarrow>
          (case joins s1 of
             None \<Rightarrow> None
           | Some (activated, s2) \<Rightarrow> if activated then run_agenda run joins s2 else Some (Inr s2)))"

section \<open>Exclusive gateway\<close>

definition exclusive_gateway_execute :: "execution \<Rightarrow> command_state \<Rightarrow> command_state" where
  "exclusive_gateway_execute e s = plan_take_outgoing_sequence_flows_operation e s"

section \<open>Executions on outgoing flows\<close>

text \<open>
  \<open>execute_execution_listeners\<close> is an argument: it gets the execution, the command state, the listeners,
  the event name and the evaluation copy, and returns an error or the changed execution and state.
\<close>

type_synonym 'e listener_run =
  "execution \<Rightarrow> command_state \<Rightarrow> flowable_listener list \<Rightarrow> string \<Rightarrow> execution \<Rightarrow> 'e + execution \<times> command_state"

fun fire_events :: "'e listener_run \<Rightarrow> flowable_listener list \<Rightarrow> execution \<Rightarrow> string list \<Rightarrow> execution \<Rightarrow> command_state
    \<Rightarrow> 'e + execution \<times> command_state" where
  "fire_events listen listeners evaluation [] e s = Inr (e, s)"
| "fire_events listen listeners evaluation (event # events) e s =
     rbind (listen e s listeners event evaluation) (\<lambda>(e1, s1). fire_events listen listeners evaluation events e1 s1)"

definition fire_sequence_flow_listeners :: "'e listener_run \<Rightarrow> sequence_flow \<Rightarrow> string \<Rightarrow> execution \<Rightarrow> command_state
    \<Rightarrow> ('e + execution \<times> command_state) option" where
  "fire_sequence_flow_listeners listen f flow_id e s =
     (let listeners = flow_element_execution_listeners (sequence_flow_flow_element f) in
      if listeners = [] then Some (Inr (e, s))
      else case evaluation_execution s e of
             None \<Rightarrow> None
           | Some evaluation \<Rightarrow>
               Some (rbind (fire_events listen listeners evaluation [''start'', ''take'', ''end'']
                        (e\<lparr>execution_activity_id := Some flow_id\<rparr>) s)
                      (\<lambda>(e1, s1). Inr (e1\<lparr>execution_activity_id := execution_activity_id e\<rparr>, s1))))"

definition flow_label :: "sequence_flow \<Rightarrow> string" where
  "flow_label f = (case sequence_flow_id f of Some i \<Rightarrow> i | None \<Rightarrow> ''<unnamed>'')"

definition schedule_sequence_flow :: "'e listener_run \<Rightarrow> execution \<Rightarrow> sequence_flow \<Rightarrow> command_state
    \<Rightarrow> ('e + command_state) option" where
  "schedule_sequence_flow listen e f s =
     (case sequence_flow_target_ref f of
        None \<Rightarrow> Some (Inr s)
      | Some target_ref \<Rightarrow>
          map_option (\<lambda>r. rbind r (\<lambda>(e1, s1).
              let e2 = e1\<lparr>execution_activity_id := Some target_ref\<rparr>
              in Inr (plan_continue_process_operation e2 (update_execution e2 s1))))
            (fire_sequence_flow_listeners listen f (flow_label f) e s))"

definition child_on_flow :: "string \<Rightarrow> string \<Rightarrow> bool \<Rightarrow> execution \<Rightarrow> execution" where
  "child_on_flow i parent_id to_end_event e =
     e\<lparr>execution_id := i, execution_parent_id := Some parent_id,
       execution_is_active := \<not> to_end_event, execution_is_concurrent := True,
       execution_is_ended := False, execution_is_scope := False, execution_is_multi_instance_root := False,
       execution_variables := Map.empty, execution_local_variables := Map.empty,
       execution_transient_variables := Map.empty, execution_non_interrupting_event_subprocess_path := False\<rparr>"

definition insert_child_on_flow :: "(nat \<Rightarrow> string) \<Rightarrow> 'e listener_run \<Rightarrow> string \<Rightarrow> execution \<Rightarrow> sequence_flow
    \<Rightarrow> bool \<Rightarrow> command_state \<Rightarrow> ('e + command_state) option" where
  "insert_child_on_flow uuid listen parent_id e f to_end_event s =
     (case sequence_flow_target_ref f of
        None \<Rightarrow> Some (Inr s)
      | Some target_ref \<Rightarrow>
          (case new_uuid uuid s of (i, s0) \<Rightarrow>
             map_option (\<lambda>r. rbind r (\<lambda>(child, s1).
                 let child1 = child\<lparr>execution_activity_id := Some target_ref\<rparr>
                 in Inr (plan_continue_process_operation child1 (insert_execution child1 s1))))
               (fire_sequence_flow_listeners listen f (flow_label f)
                  (child_on_flow i parent_id to_end_event e) s0)))"

definition spawn_child_execution :: "(nat \<Rightarrow> string) \<Rightarrow> 'e listener_run \<Rightarrow> execution \<Rightarrow> sequence_flow \<Rightarrow> bool
    \<Rightarrow> command_state \<Rightarrow> ('e + command_state) option" where
  "spawn_child_execution uuid listen e = insert_child_on_flow uuid listen (execution_id e) e"

definition schedule_inclusive_gateway_child :: "(nat \<Rightarrow> string) \<Rightarrow> 'e listener_run \<Rightarrow> execution \<Rightarrow> sequence_flow
    \<Rightarrow> bool \<Rightarrow> command_state \<Rightarrow> ('e + command_state) option" where
  "schedule_inclusive_gateway_child uuid listen e = insert_child_on_flow uuid listen (parallel_scope_id e) e"

text \<open>A loop over the selected flows that stops at the first error.\<close>

fun for_flows :: "(sequence_flow \<Rightarrow> bool \<Rightarrow> command_state \<Rightarrow> ('e + command_state) option)
    \<Rightarrow> (sequence_flow \<times> bool) list \<Rightarrow> command_state \<Rightarrow> ('e + command_state) option" where
  "for_flows step [] s = Some (Inr s)"
| "for_flows step ((f, to_end_event) # flows) s =
     (case step f to_end_event s of
        None \<Rightarrow> None
      | Some (Inl e) \<Rightarrow> Some (Inl e)
      | Some (Inr s1) \<Rightarrow> for_flows step flows s1)"

text \<open>The split of an inclusive gateway.\<close>

definition split_inclusive :: "(nat \<Rightarrow> string) \<Rightarrow> 'e listener_run \<Rightarrow> execution \<Rightarrow> (sequence_flow \<times> bool) list
    \<Rightarrow> command_state \<Rightarrow> ('e + command_state) option" where
  "split_inclusive uuid listen e flows s =
     for_flows (schedule_inclusive_gateway_child uuid listen e) flows
       (if is_process_instance_scope_execution e then update_execution (preserved_scope e) s
        else delete_execution (execution_id e) s)"

text \<open>Leaving any other node over at least one flow: in place over one, with a child per flow over several.\<close>

definition leave_over_flows :: "(nat \<Rightarrow> string) \<Rightarrow> 'e listener_run \<Rightarrow> execution \<Rightarrow> (sequence_flow \<times> bool) list
    \<Rightarrow> command_state \<Rightarrow> ('e + command_state) option" where
  "leave_over_flows uuid listen e flows s =
     (if 1 < length flows then
        for_flows (spawn_child_execution uuid listen e) flows
          (if execution_is_scope e then update_execution (e\<lparr>execution_is_active := False\<rparr>) s
           else delete_execution (execution_id e) s)
      else for_flows (\<lambda>f _. schedule_sequence_flow listen e f) flows s)"

end
