(* ===== verification/Token_Store.thy ===== *)
theory Token_Store
  imports Execution_Store
begin

text \<open>
  Correctness of the execution store and of the variable scopes of Execution_Store: the laws of the table
  (locale \<open>token_table\<close>, interpreted for the store), the invariant that the projected variable table
  mirrors the executions, the tracking of transient variables up to the commit, and the agreement of the
  bulk variable merge with the walk up the parent chain.
\<close>

section \<open>Invariants and specifications\<close>

definition store_ok :: "command_state \<Rightarrow> bool" where
  "store_ok s \<longleftrightarrow> distinct (map execution_id (cs_executions s))"

definition persisted_variable :: "execution \<Rightarrow> string \<Rightarrow> json option" where
  "persisted_variable e n =
     (case execution_local_variables e n of Some v \<Rightarrow> Some v | None \<Rightarrow> execution_variables e n)"

definition projected_row :: "execution \<Rightarrow> string \<Rightarrow> json \<Rightarrow> variable_row" where
  "projected_row e n v =
     \<lparr>variable_row_value = v, variable_row_execution_id = execution_id e,
      variable_row_process_instance_id = (case execution_process_instance_id e of Some i \<Rightarrow> i | None \<Rightarrow> []),
      variable_row_name = n\<rparr>"

definition variables_mirror :: "command_state \<Rightarrow> bool" where
  "variables_mirror s \<longleftrightarrow>
     (\<forall>e \<in> set (cs_executions s). CHR '':'' \<notin> set (execution_id e)) \<and>
     (\<forall>e \<in> set (cs_executions s). \<forall>n.
        cs_variables s (variable_key (execution_id e) n) = map_option (projected_row e n) (persisted_variable e n)) \<and>
     (\<forall>k r. cs_variables s k = Some r \<longrightarrow>
        (\<exists>e \<in> set (cs_executions s). \<exists>n. k = variable_key (execution_id e) n))"

definition transients_tracked :: "command_state \<Rightarrow> bool" where
  "transients_tracked s \<longleftrightarrow>
     (\<forall>e \<in> set (cs_executions s). execution_transient_variables e \<noteq> Map.empty
        \<longrightarrow> execution_id e \<in> set (cs_transient_dirty s))"

text \<open>A parent chain that ends: at a missing row or at a row without parent.\<close>

inductive chain_ends :: "command_state \<Rightarrow> string \<Rightarrow> bool" for s where
  missing: "find_execution i s = None \<Longrightarrow> chain_ends s i"
| top: "find_execution i s = Some e \<Longrightarrow> execution_parent_id e = None \<Longrightarrow> chain_ends s i"
| up: "find_execution i s = Some e \<Longrightarrow> execution_parent_id e = Some p \<Longrightarrow> chain_ends s p \<Longrightarrow> chain_ends s i"

inductive_cases chain_endsE: "chain_ends s i"

definition scope_value :: "command_state \<Rightarrow> string option \<Rightarrow> string \<Rightarrow> json option" where
  "scope_value s p n =
     (case p of
        None \<Rightarrow> None
      | Some i \<Rightarrow> (case find_execution_variable s i n of Some (Some (_, v)) \<Rightarrow> Some v | _ \<Rightarrow> None))"

text \<open>
  The last resort of \<open>evaluation_execution\<close>: the maps of the process-instance row in the order in which it merges
  them, which is the reverse of the order of \<^const>\<open>process_variable\<close>.
\<close>

definition fallback_value :: "execution option \<Rightarrow> string \<Rightarrow> json option" where
  "fallback_value root n =
     (case root of None \<Rightarrow> None | Some r \<Rightarrow>
       (case execution_variables r n of Some v \<Rightarrow> Some v | None \<Rightarrow>
         (case execution_local_variables r n of Some v \<Rightarrow> Some v | None \<Rightarrow> execution_transient_variables r n)))"

text \<open>A process instance with one concurrent child, in a fresh command.\<close>

definition empty_state :: command_state where
  "empty_state = \<lparr>cs_executions = [], cs_variables = Map.empty, cs_involved = [], cs_transient_dirty = [],
     cs_agenda = [], cs_uuids_drawn = 0\<rparr>"

definition instance_row :: execution where
  "instance_row = default_execution\<lparr>execution_id := ''pi'', execution_process_instance_id := Some ''pi'',
     execution_variables := [''amount'' \<mapsto> JsonString ''ten'']\<rparr>"

definition child_row :: execution where
  "child_row = default_execution\<lparr>execution_id := ''c'', execution_parent_id := Some ''pi'',
     execution_process_instance_id := Some ''pi'', execution_transient_variables := [''resume'' \<mapsto> JsonBool True]\<rparr>"

definition two_rows :: command_state where
  "two_rows = insert_execution child_row (insert_execution instance_row empty_state)"

section \<open>The interface of the token table\<close>

locale token_table =
  fixes lookup :: "'s \<Rightarrow> string \<Rightarrow> 'e option" and put :: "'e \<Rightarrow> 's \<Rightarrow> 's" and remove :: "string \<Rightarrow> 's \<Rightarrow> 's"
    and key :: "'e \<Rightarrow> string" and parent :: "'e \<Rightarrow> string option"
  assumes lookup_put: "lookup (put e s) i = (if i = key e then Some e else lookup s i)"
    and lookup_remove: "lookup (remove j s) i = (if i = j then None else lookup s i)"
begin

lemma lookup_remove_all: "lookup (fold remove is s) i = (if i \<in> set is then None else lookup s i)"
  by (induction "is" arbitrary: s) (auto simp: lookup_remove)

lemma lookup_put_all:
  "key ` set es \<inter> {i} = {} \<Longrightarrow> lookup (fold put es s) i = lookup s i"
  by (induction es arbitrary: s) (auto simp: lookup_put)

text \<open>No row is left without its parent row when the removed rows have no child that stays.\<close>

lemma parents_after_remove:
  assumes "\<forall>i e p. lookup s i = Some e \<longrightarrow> parent e = Some p \<longrightarrow> lookup s p \<noteq> None"
    and "\<forall>i e p. lookup s i = Some e \<longrightarrow> i \<notin> set is \<longrightarrow> parent e = Some p \<longrightarrow> p \<notin> set is"
  shows "\<forall>i e p. lookup (fold remove is s) i = Some e \<longrightarrow> parent e = Some p \<longrightarrow> lookup (fold remove is s) p \<noteq> None"
proof (intro allI impI)
  fix i e p
  assume i: "lookup (fold remove is s) i = Some e" and p: "parent e = Some p"
  from i have "i \<notin> set is" "lookup s i = Some e" by (auto simp: lookup_remove_all split: if_splits)
  with assms p have "lookup s p \<noteq> None" "p \<notin> set is" by blast+
  then show "lookup (fold remove is s) p \<noteq> None" by (simp add: lookup_remove_all)
qed

lemma parents_after_put:
  assumes "\<forall>i e p. lookup s i = Some e \<longrightarrow> parent e = Some p \<longrightarrow> lookup s p \<noteq> None"
    and "\<forall>p. parent x = Some p \<longrightarrow> p = key x \<or> lookup s p \<noteq> None"
  shows "\<forall>i e p. lookup (put x s) i = Some e \<longrightarrow> parent e = Some p \<longrightarrow> lookup (put x s) p \<noteq> None"
  using assms by (auto simp: lookup_put split: if_splits)

end

section \<open>The store\<close>

lemma variable_key_inject:
  assumes "CHR '':'' \<notin> set i" "CHR '':'' \<notin> set j"
  shows "variable_key i n = variable_key j m \<longleftrightarrow> i = j \<and> n = m"
  using assms
proof (induction i arbitrary: j)
  case Nil
  then show ?case by (cases j) (auto simp: variable_key_def)
next
  case (Cons c i)
  then show ?case by (cases j) (auto simp: variable_key_def)
qed

lemma upsert_execution_ids: "execution_id ` set (upsert_execution e xs) = insert (execution_id e) (execution_id ` set xs)"
  by (induction e xs rule: upsert_execution.induct) auto

lemma distinct_upsert:
  "distinct (map execution_id xs) \<Longrightarrow> distinct (map execution_id (upsert_execution e xs))"
proof (induction e xs rule: upsert_execution.induct)
  case (2 e x xs)
  then show ?case using upsert_execution_ids [of e xs] by auto
qed simp

lemma set_upsert:
  assumes "distinct (map execution_id xs)"
  shows "set (upsert_execution e xs) = insert e {x \<in> set xs. execution_id x \<noteq> execution_id e}"
  using assms
proof (induction e xs rule: upsert_execution.induct)
  case (2 e x xs)
  then show ?case by (auto simp: image_iff)
qed simp

lemma find_upsert:
  "find (\<lambda>x. execution_id x = i) (upsert_execution e xs)
     = (if i = execution_id e then Some e else find (\<lambda>x. execution_id x = i) xs)"
  by (induction e xs rule: upsert_execution.induct) auto

lemma find_filter_id:
  "find (\<lambda>x. execution_id x = i) (filter (\<lambda>x. execution_id x \<noteq> j) xs)
     = (if i = j then None else find (\<lambda>x. execution_id x = i) xs)"
  by (induction xs) auto

lemma find_id_iff:
  assumes "distinct (map execution_id xs)"
  shows "find (\<lambda>x. execution_id x = i) xs = Some e \<longleftrightarrow> e \<in> set xs \<and> execution_id e = i"
  using assms by (induction xs) (auto simp: image_iff)

lemma mark_involved_sel [simp]:
  "cs_executions (mark_involved_process_instance e s) = cs_executions s"
  "cs_variables (mark_involved_process_instance e s) = cs_variables s"
  "cs_transient_dirty (mark_involved_process_instance e s) = cs_transient_dirty s"
  "cs_agenda (mark_involved_process_instance e s) = cs_agenda s"
  "cs_uuids_drawn (mark_involved_process_instance e s) = cs_uuids_drawn s"
  by (simp_all add: mark_involved_process_instance_def split: option.splits)

lemma insert_execution_sel [simp]:
  "cs_executions (insert_execution e s) = upsert_execution e (cs_executions s)"
  "cs_agenda (insert_execution e s) = cs_agenda s"
  "cs_uuids_drawn (insert_execution e s) = cs_uuids_drawn s"
  by (simp_all add: insert_execution_def mark_transient_dirty_execution_def Let_def)

lemma insert_execution_dirty:
  "set (cs_transient_dirty (insert_execution e s))
     = (if execution_transient_variables e = Map.empty then {} else {execution_id e}) \<union> set (cs_transient_dirty s)"
  by (simp add: insert_execution_def mark_transient_dirty_execution_def Let_def)

lemma delete_execution_sel [simp]:
  "cs_executions (delete_execution i s) = filter (\<lambda>e. execution_id e \<noteq> i) (cs_executions s)"
  "cs_agenda (delete_execution i s) = cs_agenda s"
  "cs_uuids_drawn (delete_execution i s) = cs_uuids_drawn s"
  "cs_transient_dirty (delete_execution i s) = cs_transient_dirty s"
  "cs_variables (delete_execution i s) = delete_variables_by_execution_id i (cs_variables s)"
  by (simp_all add: delete_execution_def Let_def split: option.splits)

lemma drop_variable_key [simp]: "drop (length i + 1) (variable_key i n) = n"
  by (simp add: variable_key_def)

lemma project_variables_own:
  "project_variables i p m t (variable_key i n)
     = (case m n of Some v \<Rightarrow> Some \<lparr>variable_row_value = v, variable_row_execution_id = i,
          variable_row_process_instance_id = p, variable_row_name = n\<rparr> | None \<Rightarrow> t (variable_key i n))"
  unfolding project_variables_def Let_def drop_variable_key by simp

lemma project_variables_other:
  "(\<And>n. k \<noteq> variable_key i n) \<Longrightarrow> project_variables i p m t k = t k"
  by (simp add: project_variables_def Let_def)

lemma insert_execution_variables:
  "cs_variables (insert_execution e s) =
     project_variables (execution_id e) (case execution_process_instance_id e of Some i \<Rightarrow> i | None \<Rightarrow> [])
       (execution_local_variables e)
       (project_variables (execution_id e) (case execution_process_instance_id e of Some i \<Rightarrow> i | None \<Rightarrow> [])
          (execution_variables e) (delete_variables_by_execution_id (execution_id e) (cs_variables s)))"
  by (simp add: insert_execution_def mark_transient_dirty_execution_def Let_def)

lemma find_execution_insert:
  "find_execution i (insert_execution e s) = (if i = execution_id e then Some e else find_execution i s)"
  by (simp add: find_execution_def find_upsert)

lemma find_execution_delete:
  "find_execution i (delete_execution j s) = (if i = j then None else find_execution i s)"
  by (simp add: find_execution_def find_filter_id)

lemma store_ok_insert: "store_ok s \<Longrightarrow> store_ok (insert_execution e s)"
  by (simp add: store_ok_def distinct_upsert)

lemma store_ok_delete: "store_ok s \<Longrightarrow> store_ok (delete_execution i s)"
  by (simp add: store_ok_def distinct_map_filter)

lemma project_variables_other_key:
  assumes "CHR '':'' \<notin> set i" "CHR '':'' \<notin> set j" "i \<noteq> j"
  shows "project_variables i p m t (variable_key j n) = t (variable_key j n)"
  by (rule project_variables_other) (use assms variable_key_inject in metis)

lemma mirrored_row:
  assumes "variables_mirror s" "x \<in> set (cs_executions s)"
  shows "cs_variables s (variable_key (execution_id x) n) = map_option (projected_row x n) (persisted_variable x n)"
  using assms by (simp add: variables_mirror_def)

lemma mirrored_row_owner:
  assumes "variables_mirror s" "x \<in> set (cs_executions s)" "cs_variables s (variable_key (execution_id x) n) = Some r"
  shows "variable_row_execution_id r = execution_id x"
  using assms(3) unfolding mirrored_row [OF assms(1,2)] by (auto simp: projected_row_def)

lemma insert_own_variables:
  assumes "variables_mirror s" "CHR '':'' \<notin> set (execution_id e)"
  shows "cs_variables (insert_execution e s) (variable_key (execution_id e) n)
    = map_option (projected_row e n) (persisted_variable e n)"
proof -
  have "delete_variables_by_execution_id (execution_id e) (cs_variables s) (variable_key (execution_id e) n) = None"
  proof (cases "cs_variables s (variable_key (execution_id e) n)")
    case (Some r)
    with assms(1) obtain x m where x: "x \<in> set (cs_executions s)"
      "variable_key (execution_id e) n = variable_key (execution_id x) m"
      unfolding variables_mirror_def by blast
    with assms have "execution_id x = execution_id e" "m = n"
      using variable_key_inject [of "execution_id e" "execution_id x" n m] by (auto simp: variables_mirror_def)
    with mirrored_row_owner [OF assms(1) x(1), of n r] Some show ?thesis
      by (simp add: delete_variables_by_execution_id_def)
  qed (simp add: delete_variables_by_execution_id_def)
  then show ?thesis
    by (auto simp: insert_execution_variables project_variables_own projected_row_def persisted_variable_def
        split: option.splits)
qed

lemma variables_mirror_insert:
  assumes "variables_mirror s" "store_ok s" "CHR '':'' \<notin> set (execution_id e)"
  shows "variables_mirror (insert_execution e s)"
proof -
  let ?s = "insert_execution e s"
  have rows: "set (cs_executions ?s) = insert e {x \<in> set (cs_executions s). execution_id x \<noteq> execution_id e}"
    using assms(2) by (simp add: set_upsert store_ok_def)
  have plain: "CHR '':'' \<notin> set (execution_id x)" if "x \<in> set (cs_executions s)" for x
    using assms(1) that by (auto simp: variables_mirror_def)
  have other: "cs_variables ?s (variable_key (execution_id x) n) = map_option (projected_row x n) (persisted_variable x n)"
    if x: "x \<in> set (cs_executions s)" "execution_id x \<noteq> execution_id e" for x n
  proof -
    have "cs_variables s (variable_key (execution_id x) n) = map_option (projected_row x n) (persisted_variable x n)"
      by (rule mirrored_row [OF assms(1) x(1)])
    with x(2) have "delete_variables_by_execution_id (execution_id e) (cs_variables s) (variable_key (execution_id x) n)
        = map_option (projected_row x n) (persisted_variable x n)"
      by (auto simp: delete_variables_by_execution_id_def projected_row_def split: option.splits)
    then show ?thesis
      using project_variables_other_key [OF assms(3) plain [OF x(1)]] x(2) by (simp add: insert_execution_variables)
  qed
  have key: "\<exists>x \<in> set (cs_executions ?s). \<exists>n. k = variable_key (execution_id x) n"
    if k: "cs_variables ?s k = Some r" for k r
  proof (cases "\<exists>n. k = variable_key (execution_id e) n")
    case False
    then have "cs_variables ?s k = delete_variables_by_execution_id (execution_id e) (cs_variables s) k"
      by (simp add: insert_execution_variables project_variables_other)
    with k have "cs_variables s k = Some r"
      by (auto simp: delete_variables_by_execution_id_def split: option.splits if_splits)
    with assms(1) obtain x n where x: "x \<in> set (cs_executions s)" "k = variable_key (execution_id x) n"
      unfolding variables_mirror_def by blast
    with False have "execution_id x \<noteq> execution_id e" by auto
    with x show ?thesis unfolding rows by blast
  next
    case True
    then show ?thesis unfolding rows by blast
  qed
  show ?thesis
    unfolding variables_mirror_def rows
    using insert_own_variables [OF assms(1,3)] other key [unfolded rows] plain assms(3) by auto
qed

lemma variables_mirror_delete:
  assumes "variables_mirror s" "store_ok s"
  shows "variables_mirror (delete_execution i s)"
proof -
  have kept: "delete_variables_by_execution_id i (cs_variables s) (variable_key (execution_id x) n)
      = map_option (projected_row x n) (persisted_variable x n)"
    if x: "x \<in> set (cs_executions s)" "execution_id x \<noteq> i" for x n
  proof -
    have "cs_variables s (variable_key (execution_id x) n) = map_option (projected_row x n) (persisted_variable x n)"
      by (rule mirrored_row [OF assms(1) x(1)])
    with x(2) show ?thesis
      by (auto simp: delete_variables_by_execution_id_def projected_row_def split: option.splits)
  qed
  have key: "\<exists>x \<in> set (cs_executions s). execution_id x \<noteq> i \<and> (\<exists>n. k = variable_key (execution_id x) n)"
    if "delete_variables_by_execution_id i (cs_variables s) k = Some r" for k r
  proof -
    from that have r: "cs_variables s k = Some r" "variable_row_execution_id r \<noteq> i"
      by (auto simp: delete_variables_by_execution_id_def split: option.splits if_splits)
    with assms(1) obtain x n where x: "x \<in> set (cs_executions s)" "k = variable_key (execution_id x) n"
      unfolding variables_mirror_def by blast
    with mirrored_row_owner [OF assms(1) x(1), of n r] r have "execution_id x \<noteq> i" by simp
    with x show ?thesis by blast
  qed
  have "\<forall>x \<in> set (cs_executions s). CHR '':'' \<notin> set (execution_id x)"
    using assms(1) by (simp add: variables_mirror_def)
  then show ?thesis
    unfolding variables_mirror_def delete_execution_sel set_filter
    using kept by (intro conjI ballI allI impI) (simp, simp, blast dest: key)
qed

lemma transients_tracked_insert:
  "transients_tracked s \<Longrightarrow> store_ok s \<Longrightarrow> transients_tracked (insert_execution e s)"
  by (auto simp: transients_tracked_def store_ok_def set_upsert insert_execution_dirty)

lemma transients_tracked_delete: "transients_tracked s \<Longrightarrow> transients_tracked (delete_execution i s)"
  by (auto simp: transients_tracked_def)

lemma upsert_in_place:
  assumes "distinct (map execution_id xs)" "e \<in> set xs" "execution_id x = execution_id e"
  shows "upsert_execution x xs = map (\<lambda>y. if execution_id y = execution_id e then x else y) xs"
  using assms
proof (induction xs)
  case (Cons y xs)
  show ?case
  proof (cases "execution_id y = execution_id e")
    case True
    then have "map (\<lambda>y. if execution_id y = execution_id e then x else y) xs = xs"
      using Cons.prems(1) by (intro map_idI) (auto simp: image_iff)
    with True Cons.prems(3) show ?thesis by simp
  qed (use Cons in auto)
qed simp

lemma strip_step:
  assumes "store_ok s"
  shows "cs_executions (case find_execution i s of
        None \<Rightarrow> s
      | Some e \<Rightarrow> if execution_transient_variables e = Map.empty then s
                  else rewrite_execution_json (e\<lparr>execution_transient_variables := Map.empty\<rparr>) s)
    = map (\<lambda>e. if execution_id e = i then e\<lparr>execution_transient_variables := Map.empty\<rparr> else e) (cs_executions s)"
proof -
  have d: "distinct (map execution_id (cs_executions s))" using assms by (simp add: store_ok_def)
  have same: "x = e" if "find_execution i s = Some e" "x \<in> set (cs_executions s)" "execution_id x = i" for x e
    using that find_id_iff [OF d] by (metis find_execution_def option.inject)
  show ?thesis
  proof (cases "find_execution i s")
    case None
    then have "\<forall>x \<in> set (cs_executions s). execution_id x \<noteq> i" by (auto simp: find_execution_def find_None_iff)
    with None show ?thesis by (simp cong: map_cong)
  next
    case (Some e)
    then have e: "e \<in> set (cs_executions s)" "execution_id e = i"
      using find_id_iff [OF d] by (auto simp: find_execution_def)
    show ?thesis
    proof (cases "execution_transient_variables e = Map.empty")
      case True
      then have "(if execution_id x = i then x\<lparr>execution_transient_variables := Map.empty\<rparr> else x) = x"
        if "x \<in> set (cs_executions s)" for x
        using same [OF Some that] by auto
      with Some True show ?thesis by (simp add: map_idI)
    next
      case False
      have "upsert_execution (e\<lparr>execution_transient_variables := Map.empty\<rparr>) (cs_executions s)
          = map (\<lambda>x. if execution_id x = i then x\<lparr>execution_transient_variables := Map.empty\<rparr> else x) (cs_executions s)"
        unfolding upsert_in_place [OF d e(1), of "e\<lparr>execution_transient_variables := Map.empty\<rparr>", simplified]
        using same [OF Some] e(2) by (intro map_cong refl) auto
      with Some False show ?thesis by (simp add: rewrite_execution_json_def)
    qed
  qed
qed

lemma strip_step_variables:
  "cs_variables (case find_execution i s of
        None \<Rightarrow> s
      | Some e \<Rightarrow> if execution_transient_variables e = Map.empty then s
                  else rewrite_execution_json (e\<lparr>execution_transient_variables := Map.empty\<rparr>) s) = cs_variables s"
  by (simp add: rewrite_execution_json_def split: option.splits)

lemma strip_ids_clears:
  assumes "store_ok s"
    "\<forall>e \<in> set (cs_executions s). execution_transient_variables e \<noteq> Map.empty \<longrightarrow> execution_id e \<in> set ids"
  shows "cs_executions (strip_ids ids s)
    = map (\<lambda>e. e\<lparr>execution_transient_variables := Map.empty\<rparr>) (cs_executions s)
    \<and> cs_variables (strip_ids ids s) = cs_variables s"
  using assms
proof (induction ids arbitrary: s)
  case Nil
  have "e\<lparr>execution_transient_variables := Map.empty\<rparr> = e" if "e \<in> set (cs_executions s)" for e
    using that Nil by auto
  then show ?case by (simp add: map_idI)
next
  case (Cons i ids)
  let ?s1 = "case find_execution i s of
        None \<Rightarrow> s
      | Some e \<Rightarrow> if execution_transient_variables e = Map.empty then s
                  else rewrite_execution_json (e\<lparr>execution_transient_variables := Map.empty\<rparr>) s"
  note rows = strip_step [OF Cons.prems(1), of i]
  have "map execution_id (cs_executions ?s1) = map execution_id (cs_executions s)"
    unfolding rows by simp
  then have "store_ok ?s1" using Cons.prems(1) by (simp add: store_ok_def)
  moreover have "\<forall>e \<in> set (cs_executions ?s1). execution_transient_variables e \<noteq> Map.empty \<longrightarrow> execution_id e \<in> set ids"
    unfolding rows using Cons.prems(2) by auto
  ultimately have "cs_executions (strip_ids ids ?s1)
      = map (\<lambda>e. e\<lparr>execution_transient_variables := Map.empty\<rparr>) (cs_executions ?s1)
      \<and> cs_variables (strip_ids ids ?s1) = cs_variables s"
    using Cons.IH [of ?s1] strip_step_variables [of s i] by simp
  moreover have "map (\<lambda>e. e\<lparr>execution_transient_variables := Map.empty\<rparr>) (cs_executions ?s1)
      = map (\<lambda>e. e\<lparr>execution_transient_variables := Map.empty\<rparr>) (cs_executions s)"
    unfolding rows by simp
  ultimately show ?case by (simp only: strip_ids.simps)
qed


lemma scope_value_step:
  assumes "find_execution i s = Some e"
  shows "scope_value s (Some i) n
    = (case process_variable e n of Some v \<Rightarrow> Some v | None \<Rightarrow> scope_value s (execution_parent_id e) n)"
  using assms
  by (simp add: scope_value_def find_execution_variable.simps [of s i] split: option.splits)

lemma scope_value_None [simp]: "scope_value s None n = None"
  by (simp add: scope_value_def)

lemma scope_value_missing: "find_execution i s = None \<Longrightarrow> scope_value s (Some i) n = None"
  by (simp add: scope_value_def find_execution_variable.simps [of s i])

lemma collect_step:
  "or_insert_all (execution_variables e)
     (or_insert_all (execution_local_variables e) (or_insert_all (execution_transient_variables e) m)) n
   = (case m n of Some v \<Rightarrow> Some v | None \<Rightarrow> process_variable e n)"
  by (auto simp: or_insert_all_def map_add_def process_variable_def split: option.splits)

lemma collect_loop_value:
  assumes "chain_ends s i"
  shows "\<exists>m'. collect_loop s i m = Some m'
    \<and> (\<forall>n. m' n = (case m n of Some v \<Rightarrow> Some v | None \<Rightarrow> scope_value s (Some i) n))"
  using assms
proof (induction arbitrary: m)
  case (missing i)
  then show ?case
    by (subst collect_loop.simps) (simp add: scope_value_missing option.case_eq_if)
next
  case (top i e)
  then show ?case
    by (subst collect_loop.simps)
       (auto simp: collect_step scope_value_step split: option.splits)
next
  case (up i e p)
  let ?m = "or_insert_all (execution_variables e)
     (or_insert_all (execution_local_variables e) (or_insert_all (execution_transient_variables e) m))"
  from up.IH [of ?m] obtain m' where m': "collect_loop s p ?m = Some m'"
    "\<And>n. m' n = (case ?m n of Some v \<Rightarrow> Some v | None \<Rightarrow> scope_value s (Some p) n)" by blast
  show ?case
    by (rule exI [of _ m'], subst collect_loop.simps)
       (use up m' in \<open>auto simp: collect_step scope_value_step Let_def split: option.splits\<close>)
qed

lemma collect_loop_ends:
  assumes "collect_loop s i m = Some m'"
  shows "chain_ends s i"
proof (rule collect_loop.raw_induct [where P = "\<lambda>s i m m'. chain_ends s i", OF _ assms])
  fix f :: "command_state \<Rightarrow> string \<Rightarrow> (string \<rightharpoonup> json) \<Rightarrow> (string \<rightharpoonup> json) option" and s i m m'
  assume IH: "\<And>s i m m'. f s i m = Some m' \<Longrightarrow> chain_ends s i"
    and body: "(case find_execution i s of None \<Rightarrow> Some m | Some e \<Rightarrow>
      (let all1 = or_insert_all (execution_transient_variables e) m;
           all2 = or_insert_all (execution_local_variables e) all1;
           all3 = or_insert_all (execution_variables e) all2
       in case execution_parent_id e of None \<Rightarrow> Some all3 | Some p \<Rightarrow> f s p all3)) = Some m'"
  show "chain_ends s i"
  proof (cases "find_execution i s")
    case None
    then show ?thesis by (rule chain_ends.missing)
  next
    case (Some e)
    show ?thesis
    proof (cases "execution_parent_id e")
      case None
      with Some show ?thesis by (rule chain_ends.top)
    next
      case p: (Some p)
      with body Some have "chain_ends s p" by (auto simp: Let_def dest: IH)
      with Some p show ?thesis by (rule chain_ends.up)
    qed
  qed
qed

lemma evaluation_execution_some:
  assumes "\<forall>p. execution_parent_id e = Some p \<longrightarrow> chain_ends s p"
  obtains e' where "evaluation_execution s e = Some e'"
    "\<And>n. process_variable e' n = (case process_variable e n of Some v \<Rightarrow> Some v | None \<Rightarrow>
       (case scope_value s (execution_parent_id e) n of Some v \<Rightarrow> Some v | None \<Rightarrow>
          fallback_value (find_execution
            (case execution_process_instance_id e of Some i \<Rightarrow> i | None \<Rightarrow> execution_id e) s) n))"
proof -
  let ?root = "find_execution (case execution_process_instance_id e of Some i \<Rightarrow> i | None \<Rightarrow> execution_id e) s"
  obtain m where m: "(case execution_parent_id e of Some p \<Rightarrow> collect_execution_variables s p | None \<Rightarrow> Some Map.empty) = Some m"
    "\<And>n. m n = scope_value s (execution_parent_id e) n"
  proof (cases "execution_parent_id e")
    case None
    then show ?thesis by (intro that [of Map.empty]) (simp_all add: scope_value_def)
  next
    case (Some p)
    with assms have "chain_ends s p" by simp
    from collect_loop_value [OF this, of Map.empty] obtain m where "collect_loop s p Map.empty = Some m"
      "\<forall>n. m n = scope_value s (Some p) n" by auto
    with Some show ?thesis by (intro that [of m]) (simp_all add: collect_execution_variables_def)
  qed
  show ?thesis
    by (rule that, unfold evaluation_execution_def m(1), simp add: Let_def)
       (auto simp: process_variable_def fallback_value_def or_insert_all_def map_add_def m(2) split: option.splits)
qed

interpretation executions: token_table "\<lambda>s i. find_execution i s" insert_execution delete_execution
  execution_id execution_parent_id
  by unfold_locales (simp_all add: find_execution_insert find_execution_delete)

lemma two_rows_ok: "store_ok two_rows" "variables_mirror two_rows" "transients_tracked two_rows"
proof -
  have e: "store_ok empty_state" "variables_mirror empty_state" "transients_tracked empty_state"
    by (simp_all add: empty_state_def store_ok_def variables_mirror_def transients_tracked_def)
  have "CHR '':'' \<notin> set (execution_id instance_row)" "CHR '':'' \<notin> set (execution_id child_row)"
    by (simp_all add: instance_row_def child_row_def)
  then show "store_ok two_rows" "variables_mirror two_rows" "transients_tracked two_rows"
    unfolding two_rows_def
    using e by (simp_all add: store_ok_insert variables_mirror_insert transients_tracked_insert)
qed

section \<open>Properties\<close>

text \<open>
  C8. The projected variable table mirrors the executions: after writing or deleting an execution it
  still holds exactly one row per name of every stored execution, with the local value where a local and
  a process variable share a name, and no row of any other execution.
\<close>

theorem writes_keep_variables_mirror:
  assumes "store_ok s" "variables_mirror s" "CHR '':'' \<notin> set (execution_id e)"
  shows "store_ok (insert_execution e s) \<and> variables_mirror (insert_execution e s)
    \<and> store_ok (delete_execution i s) \<and> variables_mirror (delete_execution i s)"
  using store_ok_insert [OF assms(1)] variables_mirror_insert [OF assms(2,1,3)]
    store_ok_delete [OF assms(1)] variables_mirror_delete [OF assms(2,1)] by simp

theorem writes_keep_variables_mirror_witness:
  "variables_mirror (insert_execution (instance_row\<lparr>execution_variables := Map.empty\<rparr>) two_rows)"
  using writes_keep_variables_mirror [OF two_rows_ok(1,2), of "instance_row\<lparr>execution_variables := Map.empty\<rparr>"]
  by (simp add: instance_row_def)

text \<open>
  C9. Transient variables never survive a command: every write keeps the executions that carry them in the
  dirty set, and stripping before the commit clears them on all executions and changes nothing else.
\<close>

theorem transients_never_committed:
  assumes "store_ok s" "transients_tracked s"
  shows "transients_tracked (insert_execution e s) \<and> transients_tracked (delete_execution i s)
    \<and> cs_executions (strip_transient_variables_before_commit s)
        = map (\<lambda>e. e\<lparr>execution_transient_variables := Map.empty\<rparr>) (cs_executions s)
    \<and> cs_variables (strip_transient_variables_before_commit s) = cs_variables s"
proof -
  let ?s = "s\<lparr>cs_transient_dirty := []\<rparr>"
  have "store_ok ?s" using assms(1) by (simp add: store_ok_def)
  moreover have "\<forall>e \<in> set (cs_executions ?s). execution_transient_variables e \<noteq> Map.empty
      \<longrightarrow> execution_id e \<in> set (cs_transient_dirty s)"
    using assms(2) by (simp add: transients_tracked_def)
  ultimately have "cs_executions (strip_ids (cs_transient_dirty s) ?s)
        = map (\<lambda>e. e\<lparr>execution_transient_variables := Map.empty\<rparr>) (cs_executions ?s)
      \<and> cs_variables (strip_ids (cs_transient_dirty s) ?s) = cs_variables ?s"
    by (rule strip_ids_clears)
  then show ?thesis
    using transients_tracked_insert [OF assms(2,1)] transients_tracked_delete [OF assms(2)]
    by (simp add: strip_transient_variables_before_commit_def take_transient_dirty_execution_ids_def)
qed

theorem transients_never_committed_witness:
  "map execution_transient_variables (cs_executions (strip_transient_variables_before_commit two_rows))
     = [Map.empty, Map.empty]"
  using transients_never_committed [OF two_rows_ok(1,3)]
  by (simp add: two_rows_def empty_state_def instance_row_def child_row_def)

text \<open>
  C10. Expression evaluation sees the variable scopes from the inside out: when the parent chain ends, the
  evaluation copy of an execution resolves every name to its own value (transient, then local, then persisted), else
  to the value the walk up the parent chain finds, else to a value of the process-instance row, in which here the
  persisted variables come first, then the local ones, then the transient ones.
\<close>

theorem evaluation_resolves_scopes:
  assumes "\<forall>p. execution_parent_id e = Some p \<longrightarrow> chain_ends s p"
  shows "\<exists>e'. evaluation_execution s e = Some e' \<and> (\<forall>n.
    process_variable e' n = (case process_variable e n of Some v \<Rightarrow> Some v | None \<Rightarrow>
       (case scope_value s (execution_parent_id e) n of Some v \<Rightarrow> Some v | None \<Rightarrow>
          fallback_value (find_execution
            (case execution_process_instance_id e of Some i \<Rightarrow> i | None \<Rightarrow> execution_id e) s) n)))"
  by (rule evaluation_execution_some [OF assms]) blast

theorem evaluation_resolves_scopes_witness:
  "\<exists>e'. evaluation_execution two_rows child_row = Some e'
     \<and> process_variable e' ''amount'' = Some (JsonString ''ten'') \<and> process_variable e' ''resume'' = Some (JsonBool True)"
proof -
  have pi: "find_execution ''pi'' two_rows = Some instance_row"
    by (simp add: two_rows_def find_execution_insert) (simp add: instance_row_def child_row_def)
  then have "chain_ends two_rows ''pi''"
    by (rule chain_ends.top) (simp add: instance_row_def default_execution_def)
  then have "\<forall>p. execution_parent_id child_row = Some p \<longrightarrow> chain_ends two_rows p"
    by (simp add: child_row_def)
  from evaluation_resolves_scopes [OF this] obtain e' where e': "evaluation_execution two_rows child_row = Some e'"
    "\<And>n. process_variable e' n = (case process_variable child_row n of Some v \<Rightarrow> Some v | None \<Rightarrow>
       (case scope_value two_rows (execution_parent_id child_row) n of Some v \<Rightarrow> Some v | None \<Rightarrow>
          fallback_value (find_execution (case execution_process_instance_id child_row of Some i \<Rightarrow> i
            | None \<Rightarrow> execution_id child_row) two_rows) n))" by blast
  then show ?thesis
    by (intro exI [of _ e'])
       (simp add: scope_value_step [OF pi] child_row_def instance_row_def default_execution_def process_variable_def)
qed

text \<open>
  Collecting the visible variables returns exactly when the parent chain ends; a cycle of parents is
  the only way it can run forever.
\<close>

theorem collect_returns_iff:
  "(\<exists>m. collect_execution_variables s i = Some m) \<longleftrightarrow> chain_ends s i"
  using collect_loop_value [of s i Map.empty] collect_loop_ends [of s i Map.empty]
  by (auto simp: collect_execution_variables_def)

end
