(* ===== verification/Reachability.thy ===== *)
theory Reachability
  imports Execution_Graph
begin

text \<open>
  Correctness of the process graph of \<open>Execution_Graph\<close>. \<open>reaches p t x\<close> is the declarative
  meaning of the search: from \<open>x\<close> a token continues at \<open>x\<close> itself, or at its container when
  \<open>x\<close> has no outgoing flow, and follows sequence flows until it arrives at \<open>t\<close>. The locale
  \<open>process_graph\<close> names what the search needs of the element map; \<open>wf_process\<close> is the
  condition on a process that provides it, and the converter establishes that condition on
  every process with unique ids.
\<close>

section \<open>Specification\<close>

definition dead_source :: "process \<Rightarrow> flow_element_enum \<Rightarrow> bool" where
  "dead_source p x \<longleftrightarrow> is_start_event x \<and> is_in_event_subprocess p x = Some True"

definition continues_at :: "process \<Rightarrow> flow_element_enum \<Rightarrow> flow_element_enum \<Rightarrow> bool" where
  "continues_at p x e \<longleftrightarrow>
     (if has_no_outgoing x
      then is_sub_process_container e
        \<and> (\<exists>i. flow_element_id x = Some i \<and> find_parent_element_for_child p i = Some e)
      else e = x \<and> flow_element_id x \<noteq> None)"

definition flow_leads_to :: "process \<Rightarrow> sequence_flow \<Rightarrow> flow_element_enum \<Rightarrow> bool" where
  "flow_leads_to p f y \<longleftrightarrow>
     (\<exists>r. sequence_flow_target_ref f = Some r \<and> find_flow_element p r = Some y \<and> is_flow_node y)"

definition follows :: "process \<Rightarrow> flow_element_enum \<Rightarrow> flow_element_enum \<Rightarrow> bool" where
  "follows p e y \<longleftrightarrow> (\<exists>flows. graph_outgoing_flows e = Some flows \<and> (\<exists>f \<in> set flows. flow_leads_to p f y))"

inductive reaches :: "process \<Rightarrow> string \<Rightarrow> flow_element_enum \<Rightarrow> bool" for p t where
  arrive: "\<not> dead_source p x \<Longrightarrow> continues_at p x e \<Longrightarrow> flow_element_id e = Some t \<Longrightarrow> reaches p t x"
| follow: "\<not> dead_source p x \<Longrightarrow> continues_at p x e \<Longrightarrow> follows p e y \<Longrightarrow> reaches p t y \<Longrightarrow> reaches p t x"


function (sequential) flatten :: "flow_element_enum list \<Rightarrow> flow_element_enum list" where
  "flatten [] = []"
| "flatten (e # es) =
     e # (case nested_flow_elements e of Some children \<Rightarrow> flatten children | None \<Rightarrow> []) @ flatten es"
  by pat_completeness auto
termination
  by (relation "measure (size_list size)") (auto dest: size_nested_flow_elements)

function (sequential) nesting_depth :: "flow_element_enum list \<Rightarrow> nat" where
  "nesting_depth [] = 1"
| "nesting_depth (e # es) =
     max (case nested_flow_elements e of Some children \<Rightarrow> Suc (nesting_depth children) | None \<Rightarrow> 1)
       (nesting_depth es)"
  by pat_completeness auto
termination
  by (relation "measure (size_list size)") (auto dest: size_nested_flow_elements)

definition all_elements :: "process \<Rightarrow> flow_element_enum list" where
  "all_elements p = flatten (process_flow_elements p)"

definition unique_ids :: "process \<Rightarrow> bool" where
  "unique_ids p \<longleftrightarrow> distinct (map flow_element_id (all_elements p)) \<and> None \<notin> set (map flow_element_id (all_elements p))"

definition wf_process :: "process \<Rightarrow> bool" where
  "wf_process p \<longleftrightarrow> unique_ids p
     \<and> (\<forall>e \<in> set (all_elements p). map_of (process_flow_element_map p) (the (flow_element_id e)) = Some e)
     \<and> (\<forall>(k, x) \<in> set (process_flow_element_map p). flow_element_id x = Some k)"


definition keyed_by_id :: "flow_element_enum index_map \<Rightarrow> bool" where
  "keyed_by_id m \<longleftrightarrow> (\<forall>(k, x) \<in> set m. flow_element_id x = Some k)"

section \<open>The interface of the search\<close>

text \<open>
  The map holds every element under its id, and a container found for a child is itself
  found by its id.
\<close>

locale process_graph =
  fixes wf :: "process \<Rightarrow> bool"
  assumes lookup_id: "wf p \<Longrightarrow> find_flow_element p i = Some x \<Longrightarrow> flow_element_id x = Some i"
    and parent_lookup: "wf p \<Longrightarrow> find_parent_element_for_child p i = Some e
      \<Longrightarrow> \<exists>j. flow_element_id e = Some j \<and> find_flow_element p j = Some e"
    and loop_ends: "wf p \<Longrightarrow> find_flow_element p i = Some x \<Longrightarrow> event_subprocess_loop p i \<noteq> None"
    and finite_ids: "wf p \<Longrightarrow> finite {i. find_flow_element p i \<noteq> None}"


text \<open>
  \<open>explored\<close> is what a finished, failed call guarantees of its source, \<open>closed\<close> the same for
  every visited id that a sequence flow can lead to.
\<close>

definition targeted :: "process \<Rightarrow> flow_element_enum \<Rightarrow> bool" where
  "targeted p z \<longleftrightarrow> (\<exists>e. follows p e z)"

definition visited_id :: "string set \<Rightarrow> flow_element_enum \<Rightarrow> bool" where
  "visited_id V e \<longleftrightarrow> (\<exists>i. flow_element_id e = Some i \<and> i \<in> V)"

definition explored :: "process \<Rightarrow> string \<Rightarrow> string set \<Rightarrow> flow_element_enum \<Rightarrow> bool" where
  "explored p t V x \<longleftrightarrow>
     (\<forall>e. continues_at p x e \<longrightarrow> flow_element_id e \<noteq> Some t \<and> visited_id V e)
     \<and> (\<not> has_no_outgoing x \<longrightarrow> (\<forall>y. follows p x y \<longrightarrow> dead_source p y \<or> visited_id V y))"

definition closed_id :: "process \<Rightarrow> string \<Rightarrow> string set \<Rightarrow> string \<Rightarrow> bool" where
  "closed_id p t V v \<longleftrightarrow>
     (\<forall>x. find_flow_element p v = Some x \<longrightarrow> (\<not> has_no_outgoing x \<or> targeted p x)
       \<longrightarrow> \<not> dead_source p x \<longrightarrow> explored p t V x)"

text \<open>
  The shape of the process on which the search is complete: a container that a sequence flow
  leads to and that is itself nested in another container has an outgoing flow.
\<close>

definition nested_containers_left :: "process \<Rightarrow> bool" where
  "nested_containers_left p \<longleftrightarrow>
     (\<forall>e. is_sub_process_container e \<longrightarrow> targeted p e \<longrightarrow> has_no_outgoing e \<longrightarrow> (\<nexists>e'. continues_at p e e'))"


text \<open>One call of the search, with the early exits separated.\<close>

inductive search_call :: "nat \<Rightarrow> process \<Rightarrow> flow_element_enum \<Rightarrow> string \<Rightarrow> flow_element_enum \<Rightarrow> string set
    \<Rightarrow> bool \<Rightarrow> string set \<Rightarrow> bool" for n p x t target V where
  call_dead: "dead_source p x \<Longrightarrow> search_call n p x t target V False V"
| call_stuck: "\<not> dead_source p x \<Longrightarrow> flow_element_id x = Some i \<Longrightarrow> \<nexists>e. continues_at p x e
    \<Longrightarrow> search_call n p x t target V False (insert i V)"
| call_hit: "\<not> dead_source p x \<Longrightarrow> continues_at p x e \<Longrightarrow> flow_element_id e = Some t
    \<Longrightarrow> search_call n p x t target V True V'"
| call_seen: "\<not> dead_source p x \<Longrightarrow> flow_element_id x = Some i \<Longrightarrow> continues_at p x e \<Longrightarrow> flow_element_id e = Some j \<Longrightarrow> j \<noteq> t
    \<Longrightarrow> V' = (if has_no_outgoing x then insert i V else V) \<Longrightarrow> j \<in> V'
    \<Longrightarrow> search_call n p x t target V False V'"
| call_explore: "\<not> dead_source p x \<Longrightarrow> flow_element_id x = Some i \<Longrightarrow> continues_at p x e \<Longrightarrow> flow_element_id e = Some j \<Longrightarrow> j \<noteq> t
    \<Longrightarrow> V1 = (if has_no_outgoing x then insert i V else V) \<Longrightarrow> j \<notin> V1
    \<Longrightarrow> reachable_over_flows n p (case graph_outgoing_flows e of None \<Rightarrow> [] | Some fs \<Rightarrow> fs) target (insert j V1) = Some (b, V')
    \<Longrightarrow> search_call n p x t target V b V'"

section \<open>The search\<close>

lemma continues_at_climb:
  "continues_at p x e \<longleftrightarrow> (\<exists>i. flow_element_id x = Some i \<and> climb_source p x i = Some e)"
  by (auto simp: continues_at_def climb_source_def split: option.splits)

lemma flow_candidate_Some_iff:
  "flow_candidate p f V = Some x \<longleftrightarrow> flow_leads_to p f x \<and> (\<exists>i. flow_element_id x = Some i \<and> i \<notin> V)"
  by (auto simp: flow_candidate_def flow_leads_to_def split: option.splits if_splits)

lemma flow_candidate_None:
  "flow_candidate p f V = None \<Longrightarrow> flow_leads_to p f y \<Longrightarrow> flow_element_id y = Some i \<Longrightarrow> i \<in> V"
  by (auto simp: flow_candidate_def flow_leads_to_def split: option.splits if_splits)

lemma search_callI:
  assumes res: "is_reachable_from (Suc n) p x target V = Some (b, V')"
    and t: "flow_element_id target = Some t" and i: "flow_element_id x = Some i"
    and cont: "\<And>e. continues_at p x e \<Longrightarrow> flow_element_id e \<noteq> None"
  shows "search_call n p x t target V b V'"
proof (cases "dead_source p x")
  case True
  then show ?thesis using res by (auto simp: dead_source_def intro: search_call.intros)
next
  case False
  let ?V1 = "if has_no_outgoing x then insert i V else V"
  from False res have start: "(if is_start_event x then is_in_event_subprocess p x else Some False) = Some False"
    by (auto simp: dead_source_def split: if_splits option.splits bool.splits)
  show ?thesis
  proof (cases "climb_source p x i")
    case None
    then have "has_no_outgoing x" by (auto simp: climb_source_def split: if_splits)
    with None res start t i have "b = False" "V' = insert i V" by auto
    with None i False show ?thesis by (auto simp: continues_at_climb intro: search_call.intros)
  next
    case (Some e)
    then have ce: "continues_at p x e" using i by (simp add: continues_at_climb)
    with cont obtain j where j: "flow_element_id e = Some j" by blast
    define V1 where "V1 = ?V1"
    have eq: "Some (b, V') = (if j = t then Some (True, V1) else if j \<in> V1 then Some (False, V1)
        else reachable_over_flows n p (case graph_outgoing_flows e of None \<Rightarrow> [] | Some fs \<Rightarrow> fs) target (insert j V1))"
      unfolding res [symmetric] V1_def using start t i Some j by (simp add: Let_def split: option.splits)
    consider (hit) "j = t" | (seen) "j \<noteq> t" "j \<in> V1" | (explore) "j \<noteq> t" "j \<notin> V1" by blast
    then show ?thesis
    proof cases
      case hit
      with eq j have b: "b = True" and e: "flow_element_id e = Some t" by simp_all
      show ?thesis unfolding b by (rule call_hit [OF False ce e])
    next
      case seen
      with eq have b: "b = False" "V' = V1" by simp_all
      show ?thesis unfolding b by (rule call_seen [OF False i ce j seen(1) V1_def seen(2)])
    next
      case explore
      with eq have "reachable_over_flows n p (case graph_outgoing_flows e of None \<Rightarrow> [] | Some fs \<Rightarrow> fs)
          target (insert j V1) = Some (b, V')" by simp
      then show ?thesis by (rule call_explore [OF False i ce j explore(1) V1_def explore(2)])
    qed
  qed
qed


lemma visited_id_mono: "visited_id V x \<Longrightarrow> V \<subseteq> W \<Longrightarrow> visited_id W x"
  unfolding visited_id_def by blast

lemma explored_mono: "explored p t V x \<Longrightarrow> V \<subseteq> W \<Longrightarrow> explored p t W x"
  unfolding explored_def visited_id_def by blast

lemma closed_id_mono: "closed_id p t V v \<Longrightarrow> V \<subseteq> W \<Longrightarrow> closed_id p t W v"
  unfolding closed_id_def by (blast intro: explored_mono)

lemma container_not_dead: "is_sub_process_container e \<Longrightarrow> \<not> dead_source p e"
  by (cases e) (simp_all add: is_sub_process_container_def dead_source_def is_start_event_def)

lemma continues_at_cases:
  assumes "continues_at p x e"
  obtains "\<not> has_no_outgoing x" "e = x"
  | i where "has_no_outgoing x" "flow_element_id x = Some i" "find_parent_element_for_child p i = Some e"
      "is_sub_process_container e"
  using assms by (auto simp: continues_at_climb climb_source_def split: if_splits option.splits)

lemma continues_at_self: "\<not> has_no_outgoing x \<Longrightarrow> flow_element_id x = Some i \<Longrightarrow> continues_at p x x"
  by (simp add: continues_at_climb climb_source_def)

lemma continues_at_unique: "continues_at p x e \<Longrightarrow> continues_at p x e' \<Longrightarrow> e' = e"
  by (auto simp: continues_at_climb)

lemma follows_outgoing: "follows p e y \<Longrightarrow> \<not> has_no_outgoing e"
  by (auto simp: follows_def has_no_outgoing_def)

lemma follows_flows:
  "follows p e y \<longleftrightarrow> (\<exists>f \<in> set (case graph_outgoing_flows e of None \<Rightarrow> [] | Some fs \<Rightarrow> fs). flow_leads_to p f y)"
  by (cases "graph_outgoing_flows e") (auto simp: follows_def)

context process_graph
begin

lemma leads_to_lookup:
  "wf p \<Longrightarrow> flow_leads_to p f y \<Longrightarrow> \<exists>i. flow_element_id y = Some i \<and> find_flow_element p i = Some y"
  unfolding flow_leads_to_def using lookup_id by blast

lemma continues_at_lookup:
  assumes "wf p" "continues_at p x e" "flow_element_id x = Some i" "find_flow_element p i = Some x"
  shows "\<exists>j. flow_element_id e = Some j \<and> find_flow_element p j = Some e"
  using assms(2) by (cases rule: continues_at_cases) (use assms parent_lookup in auto)

lemma search_call_wf:
  assumes "wf p" "flow_element_id target = Some t" "is_reachable_from (Suc n) p x target V = Some (b, V')"
    and "flow_element_id x = Some i" "find_flow_element p i = Some x"
  shows "search_call n p x t target V b V'"
  by (rule search_callI [OF assms(3,2,4)]) (use continues_at_lookup [OF assms(1) _ assms(4,5)] in force)

lemma search_flows_sound:
  assumes call: "\<And>x V V' f. is_reachable_from n p x target V = Some (True, V') \<Longrightarrow> flow_leads_to p f x
      \<Longrightarrow> reaches p t x"
    and "reachable_over_flows n p fs target V = Some (True, V')"
  shows "\<exists>f \<in> set fs. \<exists>y. flow_leads_to p f y \<and> reaches p t y"
  using assms(2)
proof (induction fs arbitrary: V)
  case (Cons f fs)
  show ?case
  proof (cases "flow_candidate p f V")
    case None
    with Cons show ?thesis by auto
  next
    case (Some x)
    then have x: "flow_leads_to p f x" by (auto simp: flow_candidate_Some_iff)
    with Cons.prems Some Cons.IH call show ?thesis
      by (fastforce split: option.splits prod.splits bool.splits)
  qed
qed simp

lemma search_sound:
  assumes wf: "wf p" and t: "flow_element_id target = Some t"
    and "is_reachable_from n p x target V = Some (True, V')"
    and "flow_element_id x = Some i" "find_flow_element p i = Some x"
  shows "reaches p t x"
  using assms(3-5)
proof (induction n arbitrary: x V V' i)
  case (Suc n)
  have "search_call n p x t target V True V'"
    by (rule search_call_wf [OF wf t Suc.prems])
  then show ?case
  proof cases
    case (call_explore i' e j V1)
    have "reaches p t y" if "is_reachable_from n p y target W = Some (True, W')" "flow_leads_to p f y" for y W W' f
      using Suc.IH that leads_to_lookup [OF wf that(2)] by blast
    then have "\<exists>f \<in> set (case graph_outgoing_flows e of None \<Rightarrow> [] | Some fs \<Rightarrow> fs). \<exists>y. flow_leads_to p f y \<and> reaches p t y"
      by (intro search_flows_sound [OF _ call_explore(8)])
    then have "\<exists>y. follows p e y \<and> reaches p t y" unfolding follows_flows by blast
    then show ?thesis using call_explore(1,3) by (blast intro: reaches.follow)
  qed (auto intro: reaches.arrive)
qed simp

lemma search_flows_complete:
  assumes wf: "wf p"
    and call: "\<And>x i V V'. is_reachable_from n p x target V = Some (False, V') \<Longrightarrow> flow_element_id x = Some i
      \<Longrightarrow> find_flow_element p i = Some x \<Longrightarrow> i \<notin> V
      \<Longrightarrow> V \<subseteq> V' \<and> (\<forall>v \<in> V' - V. closed_id p t V' v) \<and> (dead_source p x \<or> i \<in> V' \<and> explored p t V' x)"
    and "reachable_over_flows n p fs target V = Some (False, V')"
  shows "V \<subseteq> V' \<and> (\<forall>v \<in> V' - V. closed_id p t V' v)
    \<and> (\<forall>f \<in> set fs. \<forall>y. flow_leads_to p f y \<longrightarrow> dead_source p y \<or> visited_id V' y)"
  using assms(3)
proof (induction fs arbitrary: V)
  case (Cons f fs)
  show ?case
  proof (cases "flow_candidate p f V")
    case None
    have "visited_id V y" if "flow_leads_to p f y" for y
      using flow_candidate_None [OF None that] leads_to_lookup [OF wf that] by (auto simp: visited_id_def)
    moreover from None Cons.prems have "reachable_over_flows n p fs target V = Some (False, V')" by simp
    note r = Cons.IH [OF this]
    ultimately have "visited_id V' y" if "flow_leads_to p f y" for y
      using that visited_id_mono by blast
    with r show ?thesis by auto
  next
    case (Some x)
    then obtain i where x: "flow_leads_to p f x" "flow_element_id x = Some i" "i \<notin> V"
      by (auto simp: flow_candidate_Some_iff)
    with leads_to_lookup [OF wf] have look: "find_flow_element p i = Some x" by force
    from Cons.prems Some obtain W where W: "is_reachable_from n p x target V = Some (False, W)"
      "reachable_over_flows n p fs target W = Some (False, V')"
      by (auto split: option.splits bool.splits)
    note c = call [OF W(1) x(2) look x(3)] and r = Cons.IH [OF W(2)]
    have "y = x" if "flow_leads_to p f y" for y using that x(1) by (auto simp: flow_leads_to_def)
    then show ?thesis
      using c r x(2) closed_id_mono [of p t W _ V'] by (auto simp: visited_id_def; blast)
  qed
qed simp

lemma search_complete:
  assumes wf: "wf p" and shape: "nested_containers_left p" and t: "flow_element_id target = Some t"
    and "is_reachable_from n p x target V = Some (False, V')"
    and "flow_element_id x = Some i" "find_flow_element p i = Some x" "i \<notin> V"
  shows "V \<subseteq> V' \<and> (\<forall>v \<in> V' - V. closed_id p t V' v) \<and> (dead_source p x \<or> i \<in> V' \<and> explored p t V' x)"
  using assms(4-7)
proof (induction n arbitrary: x V V' i)
  case (Suc n)
  have self: "closed_id p t W i" if "explored p t W x" for W
    using that Suc.prems(3) by (auto simp: closed_id_def)
  have "search_call n p x t target V False V'"
    by (rule search_call_wf [OF wf t Suc.prems(1-3)])
  then show ?case
  proof cases
    case call_dead
    then show ?thesis by simp
  next
    case (call_stuck i')
    have "explored p t V' x"
      using call_stuck(3,4) continues_at_self by (auto simp: explored_def)
    then show ?thesis using call_stuck Suc.prems(2) self by auto
  next
    case (call_seen i' e j)
    have "has_no_outgoing x"
      using call_seen Suc.prems by (auto elim: continues_at_cases)
    then have "explored p t V' x"
      using call_seen by (auto simp: explored_def visited_id_def elim!: continues_at_cases)
    then show ?thesis using call_seen Suc.prems(2) self \<open>has_no_outgoing x\<close> by auto
  next
    case (call_explore i' e j V1)
    let ?fs = "case graph_outgoing_flows e of None \<Rightarrow> [] | Some fs \<Rightarrow> fs"
    have fl: "insert j V1 \<subseteq> V'" "\<forall>v \<in> V' - insert j V1. closed_id p t V' v"
      "\<forall>f \<in> set ?fs. \<forall>y. flow_leads_to p f y \<longrightarrow> dead_source p y \<or> visited_id V' y"
      using search_flows_complete [OF wf Suc.IH call_explore(8)] by blast+
    have e_follows: "dead_source p y \<or> visited_id V' y" if "follows p e y" for y
      using that fl(3) unfolding follows_flows by blast
    have e_visited: "flow_element_id e \<noteq> Some t" "visited_id V' e"
      using call_explore(4,5) fl(1) by (auto simp: visited_id_def)
    have x: "explored p t V' x"
      using continues_at_unique [OF call_explore(3)] e_visited e_follows continues_at_self [OF _ Suc.prems(2)]
      unfolding explored_def by blast
    have e: "closed_id p t V' j"
      unfolding closed_id_def
    proof (intro allI impI)
      fix y
      assume y: "find_flow_element p j = Some y" "\<not> has_no_outgoing y \<or> targeted p y"
      from continues_at_lookup [OF wf call_explore(3) Suc.prems(2,3)] y(1) call_explore(4) have [simp]: "y = e" by auto
      show "explored p t V' y"
      proof (cases "has_no_outgoing e")
        case False
        then show ?thesis
          using e_visited e_follows continues_at_unique [OF continues_at_self [OF False call_explore(4)]]
          unfolding explored_def by auto
      next
        case True
        then have "is_sub_process_container e" using call_explore(3) by (auto elim: continues_at_cases)
        with True y(2) shape show ?thesis by (auto simp: nested_containers_left_def explored_def)
      qed
    qed
    have "i \<in> V'"
    proof (cases "has_no_outgoing x")
      case False
      with call_explore(3) have "e = x" by (auto elim: continues_at_cases)
      with call_explore(4) fl(1) Suc.prems(2) show ?thesis by auto
    qed (use call_explore(2,6) Suc.prems(2) fl(1) in auto)
    then show ?thesis using x e self [OF x] fl(1,2) call_explore(2,6) Suc.prems(2) by (auto split: if_splits)
  qed simp
qed simp

lemma explored_not_reaches:
  assumes wf: "wf p" and closed: "\<forall>v \<in> V. closed_id p t V v"
    and "reaches p t x" "explored p t V x"
  shows False
  using assms(3,4)
proof (induction rule: reaches.induct)
  case (follow x e y)
  have via: False if "explored p t V z" "\<not> has_no_outgoing z" "follows p z y" for z
  proof -
    have "\<not> dead_source p y" using follow.hyps(4) by (auto elim: reaches.cases)
    with that have "visited_id V y" by (auto simp: explored_def)
    moreover have "targeted p y" using that(3) by (auto simp: targeted_def)
    moreover from that(3) leads_to_lookup [OF wf]
    obtain i where "flow_element_id y = Some i" "find_flow_element p i = Some y" by (auto simp: follows_def)
    ultimately have "explored p t V y"
      using closed \<open>\<not> dead_source p y\<close> by (auto simp: visited_id_def closed_id_def)
    then show False by (rule follow.IH)
  qed
  have out: "\<not> has_no_outgoing e" using follow.hyps(3) by (rule follows_outgoing)
  from follow.hyps(2) show ?case
  proof (cases rule: continues_at_cases)
    case 1
    then show ?thesis using via follow.prems follow.hyps(3) by blast
  next
    case (2 i)
    with parent_lookup [OF wf] obtain j where j: "flow_element_id e = Some j" "find_flow_element p j = Some e" by blast
    with follow.prems follow.hyps(2) have "j \<in> V" by (auto simp: explored_def visited_id_def)
    with closed j(2) out container_not_dead [OF 2(4)] have "explored p t V e" by (auto simp: closed_id_def)
    then show ?thesis using via out follow.hyps(3) by blast
  qed
qed (auto simp: explored_def)

lemma start_check_ends:
  assumes "wf p" "flow_element_id x = Some i" "find_flow_element p i = Some x"
  shows "\<exists>b. (if is_start_event x then is_in_event_subprocess p x else Some False) = Some b"
  using loop_ends [OF assms(1,3)] assms(2) by (auto simp: is_in_event_subprocess_def)

lemma search_flows_fuel:
  assumes wf: "wf p"
    and call: "\<And>x i V. flow_element_id x = Some i \<Longrightarrow> find_flow_element p i = Some x \<Longrightarrow> i \<notin> V
      \<Longrightarrow> card ({i. find_flow_element p i \<noteq> None} - V) \<le> n
      \<Longrightarrow> \<exists>r. is_reachable_from n p x target V = Some r \<and> V \<subseteq> snd r"
    and "card ({i. find_flow_element p i \<noteq> None} - V) \<le> n"
  shows "\<exists>r. reachable_over_flows n p fs target V = Some r \<and> V \<subseteq> snd r"
  using assms(3)
proof (induction fs arbitrary: V)
  case (Cons f fs)
  show ?case
  proof (cases "flow_candidate p f V")
    case None
    with Cons show ?thesis by simp
  next
    case (Some x)
    then obtain i where x: "flow_leads_to p f x" "flow_element_id x = Some i" "i \<notin> V"
      by (auto simp: flow_candidate_Some_iff)
    with leads_to_lookup [OF wf] have "find_flow_element p i = Some x" by force
    from call [OF x(2) this x(3) Cons.prems]
    obtain b W where W: "is_reachable_from n p x target V = Some (b, W)" "V \<subseteq> W" by auto
    have "card ({i. find_flow_element p i \<noteq> None} - W) \<le> n"
      using Cons.prems W(2) card_mono [OF finite_Diff [OF finite_ids [OF wf]], of "{i. find_flow_element p i \<noteq> None} - W" V]
      by fastforce
    from Cons.IH [OF this] W Some show ?thesis by (cases b) auto
  qed
qed simp

lemma search_fuel:
  assumes wf: "wf p"
    and "flow_element_id x = Some i" "find_flow_element p i = Some x" "i \<notin> V"
    and "card ({i. find_flow_element p i \<noteq> None} - V) \<le> n"
  shows "\<exists>r. is_reachable_from n p x target V = Some r \<and> V \<subseteq> snd r"
  using assms(2-)
proof (induction n arbitrary: x V i)
  case 0
  then show ?case using finite_ids [OF wf] by auto
next
  case (Suc n)
  let ?ids = "{i. find_flow_element p i \<noteq> None}"
  have less: "card (?ids - W) \<le> n" if "insert i V \<subseteq> W" for W
  proof -
    have "?ids - W \<subseteq> (?ids - V) - {i}" using that by auto
    then have "card (?ids - W) \<le> card ((?ids - V) - {i})"
      using finite_ids [OF wf] by (intro card_mono) auto
    also have "\<dots> = card (?ids - V) - 1"
      using Suc.prems(2,3) finite_ids [OF wf] by (intro card_Diff_singleton) auto
    finally show ?thesis using Suc.prems(4) by simp
  qed
  have flows: "\<exists>r. reachable_over_flows n p fs target W = Some r \<and> V \<subseteq> snd r"
    if "insert i V \<subseteq> W" for fs W
  proof -
    have "\<exists>r. reachable_over_flows n p fs target W = Some r \<and> W \<subseteq> snd r"
      by (rule search_flows_fuel [OF wf _ less [OF that]]) (rule Suc.IH, assumption+)
    then obtain r where "reachable_over_flows n p fs target W = Some r" "W \<subseteq> snd r" by blast
    with that show ?thesis by (intro exI [of _ r]) auto
  qed
  obtain c where c: "(if is_start_event x then is_in_event_subprocess p x else Some False) = Some c"
    using start_check_ends [OF wf Suc.prems(1,2)] by blast
  define V1 where "V1 = (if has_no_outgoing x then insert i V else V)"
  have sub: "V \<subseteq> V1" by (auto simp: V1_def)
  have step: "insert i V \<subseteq> insert j V1" if "climb_source p x i = Some e" "flow_element_id e = Some j" for e j
    using that Suc.prems(1) by (auto simp: V1_def climb_source_def split: if_splits)
  show ?case
  proof (cases "climb_source p x i")
    case None
    with c Suc.prems(1) sub show ?thesis
      by (cases c; cases "flow_element_id target") (auto simp: Let_def V1_def)
  next
    case (Some e)
    show ?thesis
    proof (cases "flow_element_id e")
      case None
      with Some c Suc.prems(1) sub show ?thesis
        by (cases c; cases "flow_element_id target") (auto simp: Let_def V1_def)
    next
      case (Some j)
      note st = step [OF \<open>climb_source p x i = Some e\<close> Some]
      have "V \<subseteq> insert j V1" using sub by blast
      with flows [OF st] Some \<open>climb_source p x i = Some e\<close> c Suc.prems(1) sub show ?thesis
        by (cases c; cases "flow_element_id target"; cases "graph_outgoing_flows e")
           (simp_all add: Let_def V1_def [symmetric] ex_bool_eq)
    qed
  qed
qed

lemma resolve_lookup:
  assumes "wf p" "resolve_flow_node p s = Some x"
  shows "\<exists>i. flow_element_id x = Some i \<and> find_flow_element p i = Some x"
  using assms lookup_id
  by (fastforce simp: resolve_flow_node_def split: option.splits flow_element_enum.splits if_splits)

lemma search_decides:
  assumes wf: "wf p" and shape: "nested_containers_left p"
    and fuel: "card {i. find_flow_element p i \<noteq> None} \<le> fuel"
    and x: "flow_element_id x = Some i" "find_flow_element p i = Some x"
    and t: "flow_element_id target = Some t"
  shows "map_option fst (is_reachable_from fuel p x target {}) = Some (reaches p t x)"
proof -
  have "\<exists>r. is_reachable_from fuel p x target {} = Some r \<and> {} \<subseteq> snd r"
    using fuel by (intro search_fuel [OF wf x]) simp_all
  then obtain b V where r: "is_reachable_from fuel p x target {} = Some (b, V)" by auto
  show ?thesis
  proof (cases b)
    case True
    with r search_sound [OF wf t _ x, of fuel "{}" V] show ?thesis by simp
  next
    case False
    with r search_complete [OF wf shape t _ x, of fuel "{}" V]
    have cl: "\<forall>v \<in> V. closed_id p t V v" "dead_source p x \<or> explored p t V x" by auto
    have "\<not> reaches p t x"
    proof
      assume re: "reaches p t x"
      then have "\<not> dead_source p x" by (auto elim: reaches.cases)
      with cl re explored_not_reaches [OF wf] show False by blast
    qed
    with False r show ?thesis by simp
  qed
qed

end

section \<open>Well-formed processes provide the interface\<close>

lemma flatten_self: "e \<in> set es \<Longrightarrow> e \<in> set (flatten es)"
  by (induction es) auto

lemma flatten_nested:
  "e \<in> set (flatten es) \<Longrightarrow> nested_flow_elements e = Some gs \<Longrightarrow> x \<in> set gs \<Longrightarrow> x \<in> set (flatten es)"
  by (induction es rule: flatten.induct) (auto split: option.splits intro: flatten_self)

lemma flatten_size: "e \<in> set (flatten es) \<Longrightarrow> size e \<le> size_list size es"
proof (induction es rule: flatten.induct)
  case (2 a es)
  then show ?case
    using size_nested_flow_elements [of a] by (cases "nested_flow_elements a") fastforce+
qed simp

lemma nested_size: "nested_flow_elements e = Some gs \<Longrightarrow> x \<in> set gs \<Longrightarrow> size x < size e"
  using size_nested_flow_elements [of e gs] by (auto dest: size_list_estimation' [of x gs _ size, OF _ order_refl])

lemma find_parent_in_children_Some:
  "find_parent_in_children c cs i = Some e \<Longrightarrow>
     e = c \<and> (\<exists>x \<in> set cs. flow_element_id x = Some i)
     \<or> e \<in> set (flatten cs) \<and> (\<exists>gs. nested_flow_elements e = Some gs \<and> (\<exists>x \<in> set gs. flow_element_id x = Some i))"
  by (induction c cs i rule: find_parent_in_children.induct)
     (fastforce split: if_splits option.splits)+

lemma find_parent_in_list_Some:
  "find_parent_in_list es i = Some e \<Longrightarrow>
     e \<in> set (flatten es) \<and> (\<exists>gs. nested_flow_elements e = Some gs \<and> (\<exists>x \<in> set gs. flow_element_id x = Some i))"
proof (induction es)
  case (Cons a es)
  then show ?case
    by (auto simp: find_parent_in_element_def split: option.splits dest!: find_parent_in_children_Some)
qed simp

lemma find_parent_Some:
  assumes "find_parent_element_for_child p i = Some e"
  obtains gs x where "e \<in> set (all_elements p)" "nested_flow_elements e = Some gs" "x \<in> set gs"
    "flow_element_id x = Some i" "x \<in> set (all_elements p)"
  using assms find_parent_in_list_Some [of "process_flow_elements p" i e] flatten_nested
  unfolding find_parent_element_for_child_def all_elements_def by blast

lemma unique_idsD:
  assumes "unique_ids p" "x \<in> set (all_elements p)" "y \<in> set (all_elements p)"
    "flow_element_id x = flow_element_id y"
  shows "x = y"
  using assms by (auto simp: unique_ids_def distinct_map dest: inj_onD)

text \<open>Climbing from child to container ends, because each container is larger.\<close>

lemma climb_induct:
  assumes uniq: "unique_ids p"
    and step: "\<And>j. (\<And>e k. find_parent_element_for_child p j = Some e \<Longrightarrow> flow_element_id e = Some k \<Longrightarrow> P k) \<Longrightarrow> P j"
  shows "P i"
proof -
  have "P j" if "e \<in> set (all_elements p)" "flow_element_id e = Some j" for e j
    using that
  proof (induction "size_list size (process_flow_elements p) - size e" arbitrary: e j rule: less_induct)
    case less
    show ?case
    proof (rule step)
      fix e' k
      assume e': "find_parent_element_for_child p j = Some e'" and k: "flow_element_id e' = Some k"
      from e' obtain gs x where gs: "e' \<in> set (all_elements p)" "nested_flow_elements e' = Some gs" "x \<in> set gs"
        "flow_element_id x = Some j" "x \<in> set (all_elements p)" by (rule find_parent_Some)
      with unique_idsD [OF uniq, of x e] less.prems have "x = e" by simp
      with gs have "size e < size e'" using nested_size by blast
      moreover have "size e' \<le> size_list size (process_flow_elements p)"
        using gs(1) flatten_size by (simp add: all_elements_def)
      ultimately show "P k" using less.hyps [of e' k] gs(1) k by simp
    qed
  qed
  note inside = this
  show ?thesis
  proof (rule step)
    fix e k
    assume "find_parent_element_for_child p i = Some e" and k: "flow_element_id e = Some k"
    then show "P k" by (elim find_parent_Some) (rule inside)
  qed
qed

lemma event_subprocess_loop_ends: "unique_ids p \<Longrightarrow> event_subprocess_loop p i \<noteq> None"
  by (erule climb_induct [where P = "\<lambda>i. event_subprocess_loop p i \<noteq> None"], subst event_subprocess_loop.simps)
     (auto split: option.splits)

lemma multi_instance_loop_ends: "unique_ids p \<Longrightarrow> has_multi_instance_parent p i \<noteq> None"
  by (erule climb_induct [where P = "\<lambda>i. has_multi_instance_parent p i \<noteq> None"], subst has_multi_instance_parent.simps)
     (auto split: option.splits)

lemma wf_process_lookup_id: "wf_process p \<Longrightarrow> find_flow_element p i = Some x \<Longrightarrow> flow_element_id x = Some i"
  by (auto simp: wf_process_def find_flow_element_def find_Some_iff split: option.splits dest!: map_of_SomeD)

lemma ids_in_map:
  assumes "wf_process p"
  shows "{i. find_flow_element p i \<noteq> None} \<subseteq> fst ` set (process_flow_element_map p)"
proof -
  have "i \<in> fst ` set (process_flow_element_map p)" if "e \<in> set (process_flow_elements p)" "flow_element_id e = Some i" for e i
  proof -
    have "map_of (process_flow_element_map p) i = Some e"
      using assms that flatten_self unfolding wf_process_def all_elements_def by fastforce
    then show ?thesis by (auto dest!: map_of_SomeD intro: rev_image_eqI)
  qed
  note top = this
  show ?thesis
  proof
    fix i
    assume "i \<in> {i. find_flow_element p i \<noteq> None}"
    then obtain x where x: "find_flow_element p i = Some x" by blast
    show "i \<in> fst ` set (process_flow_element_map p)"
    proof (cases "map_of (process_flow_element_map p) i")
      case None
      with x have "x \<in> set (process_flow_elements p)" "flow_element_id x = Some i"
        by (auto simp: find_flow_element_def find_Some_iff)
      then show ?thesis by (rule top)
    qed (auto dest!: map_of_SomeD intro: rev_image_eqI)
  qed
qed

interpretation bpmn_graph: process_graph wf_process
proof
  fix p i x e
  assume wf: "wf_process p"
  show "flow_element_id x = Some i" if "find_flow_element p i = Some x"
    using wf_process_lookup_id [OF wf that] .
  show "\<exists>j. flow_element_id e = Some j \<and> find_flow_element p j = Some e"
    if "find_parent_element_for_child p i = Some e"
    using that
  proof (rule find_parent_Some)
    assume e: "e \<in> set (all_elements p)"
    with wf obtain j where "flow_element_id e = Some j" by (force simp: wf_process_def unique_ids_def)
    moreover from this e wf have "map_of (process_flow_element_map p) j = Some e"
      by (fastforce simp: wf_process_def)
    ultimately show ?thesis by (simp add: find_flow_element_def)
  qed
  show "event_subprocess_loop p i \<noteq> None"
    using event_subprocess_loop_ends wf by (simp add: wf_process_def)
  show "finite {i. find_flow_element p i \<noteq> None}"
    using finite_subset [OF ids_in_map [OF wf]] by simp
qed


section \<open>The converter builds a well-formed map\<close>

lemma map_of_index_map_insert: "map_of (index_map_insert k v m) = (map_of m)(k \<mapsto> v)"
  by (induction k v m rule: index_map_insert.induct) auto

lemma set_index_map_insert: "set (index_map_insert k v m) \<subseteq> insert (k, v) (set m)"
  by (induction k v m rule: index_map_insert.induct) auto

lemma converter_element_id_eq: "converter_element_id e = flow_element_id e"
  by (cases e) (simp_all add: converter_element_id_def flow_element_id_def)

lemma keyed_insert_element: "keyed_by_id m \<Longrightarrow> keyed_by_id (insert_element e m)"
  using set_index_map_insert [of _ e m] by (fastforce simp: keyed_by_id_def insert_element_def converter_element_id_eq split: option.splits)

lemma keyed_insert_data_object: "keyed_by_id m \<Longrightarrow> keyed_by_id (insert_data_object obj m)"
  using set_index_map_insert [of _ "FeValuedDataObject obj" m]
  by (fastforce simp: keyed_by_id_def insert_data_object_def flow_element_id_def split: option.splits)

lemma keyed_fold_elements: "keyed_by_id m \<Longrightarrow> keyed_by_id (fold insert_element es m)"
  by (induction es arbitrary: m) (auto intro: keyed_insert_element)

lemma keyed_fold_data_objects: "keyed_by_id m \<Longrightarrow> keyed_by_id (fold insert_data_object obs m)"
  by (induction obs arbitrary: m) (auto intro: keyed_insert_data_object)

lemma nesting_depth_pos: "0 < nesting_depth es"
  by (induction es rule: nesting_depth.induct) auto

lemma populate_elements_flatten:
  "depth + nesting_depth es \<le> MAX_XML_NESTING_DEPTH \<Longrightarrow>
     populate_elements depth es m = fold insert_element (flatten es) m"
proof (induction depth es m rule: populate_elements.induct)
  case (2 depth e es m)
  show ?case
  proof (cases "nested_flow_elements e")
    case (Some children)
    moreover from this 2 have "\<not> MAX_XML_NESTING_DEPTH \<le> depth + 1"
      using nesting_depth_pos [of children] by simp
    ultimately show ?thesis using 2 by (simp add: Let_def)
  qed (use 2 in \<open>simp add: Let_def\<close>)
qed simp

lemma map_of_fold_insert_element:
  assumes "distinct (map flow_element_id es)" "e \<in> set es" "flow_element_id e = Some i"
  shows "map_of (fold insert_element es m) i = Some e"
  using assms
proof (induction es rule: rev_induct)
  case (snoc x es)
  then show ?case
    by (cases "flow_element_id x") (auto simp: insert_element_def converter_element_id_eq map_of_index_map_insert image_iff)
qed simp

lemma map_of_fold_insert_data_object:
  "map_of m i = Some e \<Longrightarrow> map_of (fold insert_data_object obs m) i = Some e"
  by (induction obs arbitrary: m)
     (auto simp: insert_data_object_def map_of_index_map_insert split: option.splits)


section \<open>An example process\<close>

definition example_node :: "string \<Rightarrow> sequence_flow list \<Rightarrow> flow_node" where
  "example_node i flows = default_flow_node
     \<lparr>flow_node_flow_element := default_flow_element
        \<lparr>flow_element_base_element := MkBaseElement (Some i) 0 0 [] []\<rparr>,
      flow_node_outgoing_flows := flows\<rparr>"

definition example_flow :: "string \<Rightarrow> string \<Rightarrow> sequence_flow" where
  "example_flow s t = default_sequence_flow
     \<lparr>sequence_flow_source_ref := Some s, sequence_flow_target_ref := Some t\<rparr>"

definition example_task :: "string \<Rightarrow> sequence_flow list \<Rightarrow> flow_element_enum" where
  "example_task i flows = FeTask \<lparr>task_activity = default_activity\<lparr>activity_flow_node := example_node i flows\<rparr>\<rparr>"

definition example_join :: "string \<Rightarrow> sequence_flow list \<Rightarrow> flow_element_enum" where
  "example_join i flows = FeInclusiveGateway
     \<lparr>inclusive_gateway_gateway = \<lparr>gateway_flow_node = example_node i flows, gateway_default_flow = None\<rparr>\<rparr>"

definition example_sub :: "string \<Rightarrow> sequence_flow list \<Rightarrow> flow_element_enum list \<Rightarrow> flow_element_enum" where
  "example_sub i flows es = FeSubProcess
     (MkSubProcess (default_activity\<lparr>activity_flow_node := example_node i flows\<rparr>) es [] [] [] [] False)"

definition example_elements :: "flow_element_enum list" where
  "example_elements =
     [example_sub ''sub'' [example_flow ''sub'' ''join''] [example_task ''inner'' []],
      example_join ''join'' [example_flow ''join'' ''after''],
      example_task ''after'' []]"

definition example_process :: process where
  "example_process = MkProcess default_base_element None True None None [] [] [] [] [] [] False
     example_elements (populate_element_map 0 example_elements [] []) [] [] []"

text \<open>A closed subprocess nested in another one, with a flow into it that crosses its border.\<close>

definition closed_elements :: "flow_element_enum list" where
  "closed_elements =
     [example_sub ''outer'' [example_flow ''outer'' ''join'']
        [example_task ''a'' [example_flow ''a'' ''x'', example_flow ''a'' ''inner''],
         example_sub ''inner'' [] [example_task ''x'' []]],
      example_join ''join'' [example_flow ''join'' ''after''],
      example_task ''after'' []]"

definition closed_process :: process where
  "closed_process = MkProcess default_base_element None True None None [] [] [] [] [] [] False
     closed_elements (populate_element_map 0 closed_elements [] []) [] [] []"

definition example_send :: "string \<Rightarrow> sequence_flow list \<Rightarrow> send_task" where
  "example_send i flows = default_send_task
     \<lparr>send_task_service_task := default_service_task
        \<lparr>service_task_task := \<lparr>task_activity = default_activity\<lparr>activity_flow_node := example_node i flows\<rparr>\<rparr>\<rparr>\<rparr>"

definition mail_elements :: "flow_element_enum list" where
  "mail_elements =
     [FeSendTask (example_send ''mail'' [example_flow ''mail'' ''join'']),
      example_join ''join'' [example_flow ''join'' ''after''],
      example_task ''after'' []]"

definition mail_process :: process where
  "mail_process = MkProcess default_base_element None True None None [] [] [] [] [] [] False
     mail_elements (populate_element_map 0 mail_elements [] []) [] [] []"

lemma example_id [simp]:
  "flow_element_id (example_task i fs) = Some i"
  "flow_element_id (example_join i fs) = Some i"
  "flow_element_id (example_sub i fs es) = Some i"
  by (simp_all add: flow_element_id_def example_task_def example_join_def example_sub_def example_node_def)

lemma example_nested [simp]:
  "nested_flow_elements (example_task i fs) = None"
  "nested_flow_elements (example_join i fs) = None"
  "nested_flow_elements (example_sub i fs es) = Some es"
  by (simp_all add: nested_flow_elements_def example_task_def example_join_def example_sub_def)

lemma example_outgoing [simp]:
  "graph_outgoing_flows (example_task i fs) = Some fs"
  "graph_outgoing_flows (example_join i fs) = Some fs"
  "graph_outgoing_flows (example_sub i fs es) = Some fs"
  by (simp_all add: graph_outgoing_flows_def example_task_def example_join_def example_sub_def example_node_def)

lemma example_container [simp]:
  "\<not> is_sub_process_container (example_task i fs)"
  "\<not> is_sub_process_container (example_join i fs)"
  "is_sub_process_container (example_sub i fs es)"
  by (simp_all add: is_sub_process_container_def example_task_def example_join_def example_sub_def)

lemma example_flow_target [simp]: "sequence_flow_target_ref (example_flow s t) = Some t"
  by (simp add: example_flow_def)

lemma example_process_sel [simp]:
  "process_flow_elements example_process = example_elements"
  "process_flow_element_map example_process = populate_element_map 0 example_elements [] []"
  "process_data_objects example_process = []"
  by (simp_all add: example_process_def)

lemma example_unique: "unique_ids example_process"
  by (simp add: unique_ids_def all_elements_def example_elements_def)

lemma example_map: "populate_element_map 0 example_elements [] []
    = [(''sub'', example_elements ! 0), (''inner'', example_task ''inner'' []),
       (''join'', example_elements ! 1), (''after'', example_elements ! 2)]"
  by (simp add: populate_element_map_def MAX_XML_NESTING_DEPTH_def example_elements_def insert_element_def converter_element_id_eq)

lemma example_wf: "wf_process example_process"
  by (simp add: wf_process_def example_unique example_map) (simp add: all_elements_def example_elements_def)

lemma closed_process_sel [simp]:
  "process_flow_elements closed_process = closed_elements"
  "process_flow_element_map closed_process = populate_element_map 0 closed_elements [] []"
  "process_data_objects closed_process = []"
  by (simp_all add: closed_process_def)

lemma closed_map: "populate_element_map 0 closed_elements [] []
    = [(''outer'', closed_elements ! 0),
       (''a'', example_task ''a'' [example_flow ''a'' ''x'', example_flow ''a'' ''inner'']),
       (''inner'', example_sub ''inner'' [] [example_task ''x'' []]), (''x'', example_task ''x'' []),
       (''join'', example_join ''join'' [example_flow ''join'' ''after'']), (''after'', example_task ''after'' [])]"
  by (simp add: populate_element_map_def MAX_XML_NESTING_DEPTH_def closed_elements_def insert_element_def converter_element_id_eq)

lemma closed_wf: "wf_process closed_process"
  by (simp add: wf_process_def unique_ids_def closed_map) (simp add: all_elements_def closed_elements_def)

lemma closed_parents:
  "find_parent_element_for_child closed_process ''x'' = Some (example_sub ''inner'' [] [example_task ''x'' []])"
  "find_parent_element_for_child closed_process ''inner'' = Some (closed_elements ! 0)"
  by (simp_all add: find_parent_element_for_child_def closed_elements_def find_parent_in_element_def)

lemma example_shape: "nested_containers_left example_process"
proof -
  have "e \<in> {example_elements ! 0, example_task ''inner'' [], example_elements ! 1, example_elements ! 2}"
    if "find_flow_element example_process r = Some e" for e r
    using that unfolding find_flow_element_def example_process_sel example_map
    by (auto simp: example_elements_def split: if_splits option.splits)
  then show ?thesis
    by (fastforce simp: nested_containers_left_def targeted_def follows_def flow_leads_to_def
        has_no_outgoing_def example_elements_def)
qed

lemma is_reachable_exact:
  assumes wf: "wf_process p" and "nested_containers_left p"
    and "length (process_flow_element_map p) \<le> fuel"
  shows "is_reachable fuel p s u = Some (\<exists>x y t. resolve_flow_node p s = Some x
     \<and> resolve_flow_node p u = Some y \<and> flow_element_id y = Some t \<and> reaches p t x)"
proof (cases "resolve_flow_node p s = None \<or> resolve_flow_node p u = None")
  case True
  then show ?thesis by (auto simp: is_reachable_def split: option.splits)
next
  case False
  then obtain x y where xy: "resolve_flow_node p s = Some x" "resolve_flow_node p u = Some y" by auto
  obtain i where i: "flow_element_id x = Some i" "find_flow_element p i = Some x"
    using bpmn_graph.resolve_lookup [OF wf xy(1)] by blast
  obtain t where t: "flow_element_id y = Some t"
    using bpmn_graph.resolve_lookup [OF wf xy(2)] by blast
  have "card {i. find_flow_element p i \<noteq> None} \<le> card (fst ` set (process_flow_element_map p))"
    by (intro card_mono ids_in_map [OF wf]) simp
  also have "\<dots> \<le> length (process_flow_element_map p)"
    by (metis card_length length_map set_map)
  finally have "map_option fst (is_reachable_from fuel p x y {}) = Some (reaches p t x)"
    using assms(3) by (intro bpmn_graph.search_decides [OF wf assms(2) _ i t]) simp
  then show ?thesis using xy t by (simp add: is_reachable_def)
qed

section \<open>Properties\<close>

text \<open>
  The element map the converter builds is well formed: when the ids of all elements,
  nested ones included, are present and distinct and the nesting stays below the cap, every
  element is found under its own id and every entry is filed under the id of its element.
\<close>

theorem populated_process_wf:
  assumes "process_flow_element_map p
      = populate_element_map 0 (process_flow_elements p) [] (process_data_objects p)"
    and "unique_ids p" "nesting_depth (process_flow_elements p) \<le> MAX_XML_NESTING_DEPTH"
  shows "wf_process p"
proof -
  let ?els = "flatten (process_flow_elements p)"
  have m: "process_flow_element_map p = fold insert_data_object (process_data_objects p) (fold insert_element ?els [])"
    using assms(1) populate_elements_flatten [of 0 "process_flow_elements p"] assms(3)
    by (simp add: populate_element_map_def MAX_XML_NESTING_DEPTH_def)
  have "keyed_by_id (process_flow_element_map p)"
    unfolding m by (intro keyed_fold_data_objects keyed_fold_elements) (simp add: keyed_by_id_def)
  moreover have "map_of (process_flow_element_map p) (the (flow_element_id e)) = Some e"
    if "e \<in> set (all_elements p)" for e
  proof -
    from that assms(2) obtain i where "flow_element_id e = Some i"
      by (force simp: unique_ids_def)
    with that assms(2) show ?thesis
      unfolding m by (auto simp: unique_ids_def all_elements_def intro!: map_of_fold_insert_data_object map_of_fold_insert_element)
  qed
  ultimately show ?thesis using assms(2) by (auto simp: wf_process_def keyed_by_id_def)
qed

theorem populated_process_wf_witness:
  "wf_process example_process"
  by (rule populated_process_wf) (simp_all add: example_unique, simp add: example_elements_def MAX_XML_NESTING_DEPTH_def)

text \<open>
  C4. The depth-first search decides reachability: on a well-formed process whose nested
  subprocesses have an outgoing flow wherever a flow leads to them, the search ends within
  as many nested calls as the map has entries, and answers true exactly when the relation
  \<open>reaches\<close> holds between the resolved source and target.
\<close>

theorem is_reachable_decides:
  assumes wf: "wf_process p" and "nested_containers_left p"
    and "length (process_flow_element_map p) \<le> fuel"
  shows "is_reachable fuel p s u = Some (\<exists>x y t. resolve_flow_node p s = Some x
     \<and> resolve_flow_node p u = Some y \<and> flow_element_id y = Some t \<and> reaches p t x)"
  by (rule is_reachable_exact [OF assms])

theorem is_reachable_decides_witness:
  "is_reachable 4 example_process ''inner'' ''join'' = Some (\<exists>x y t. resolve_flow_node example_process ''inner'' = Some x
     \<and> resolve_flow_node example_process ''join'' = Some y \<and> flow_element_id y = Some t \<and> reaches example_process t x)"
  by (rule is_reachable_decides [OF example_wf example_shape]) (simp add: example_map)

text \<open>
  Why the shape condition is needed: when a flow enters a nested subprocess without outgoing flow across its border,
  the search marks that subprocess as visited on the way out of its content, and then skips the flow that leads to
  the subprocess itself. Task \<open>a\<close> reaches the join, but the search denies it.
\<close>

theorem search_misses_closed_container:
  "wf_process closed_process \<and> is_reachable 6 closed_process ''a'' ''join'' = Some False
    \<and> (\<exists>x. resolve_flow_node closed_process ''a'' = Some x \<and> reaches closed_process ''join'' x)"
proof (intro conjI)
  let ?a = "example_task ''a'' [example_flow ''a'' ''x'', example_flow ''a'' ''inner'']"
  let ?join = "example_join ''join'' [example_flow ''join'' ''after'']"
  let ?inner = "example_sub ''inner'' [] [example_task ''x'' []]"
  have find: "find_flow_element closed_process ''a'' = Some ?a" "find_flow_element closed_process ''inner'' = Some ?inner"
    "find_flow_element closed_process ''x'' = Some (example_task ''x'' [])"
    "find_flow_element closed_process ''outer'' = Some (closed_elements ! 0)"
    "find_flow_element closed_process ''join'' = Some (example_join ''join'' [example_flow ''join'' ''after''])"
    by (simp_all add: find_flow_element_def closed_map)
  have node: "is_flow_node (example_task i fs)" "is_flow_node (example_sub i fs es)" "is_flow_node (example_join i fs)"
    "\<not> is_start_event (example_task i fs)" "\<not> is_start_event (example_sub i fs es)" "\<not> is_start_event (example_join i fs)" for i fs es
    by (simp_all add: is_flow_node_def is_start_event_def example_task_def example_sub_def example_join_def)
  show "wf_process closed_process" by (rule closed_wf)
  have resolve: "resolve_flow_node closed_process ''a'' = Some ?a"
    "resolve_flow_node closed_process ''join'' = Some (example_join ''join'' [example_flow ''join'' ''after''])"
    by (simp_all add: resolve_flow_node_def find) (simp_all add: example_task_def example_join_def is_flow_node_def)
  show "is_reachable 6 closed_process ''a'' ''join'' = Some False"
    by (simp add: is_reachable_def resolve node eval_nat_numeral has_no_outgoing_def climb_source_def Let_def
        flow_candidate_def find closed_parents)
  have outer: "follows closed_process (closed_elements ! 0) (example_join ''join'' [example_flow ''join'' ''after''])"
    by (simp add: follows_def flow_leads_to_def closed_elements_def find node)
  have dead: "\<not> dead_source closed_process ?a" "\<not> dead_source closed_process ?inner" "\<not> dead_source closed_process ?join"
    by (simp_all add: dead_source_def node)
  have at: "continues_at closed_process ?a ?a" "continues_at closed_process ?inner (closed_elements ! 0)"
    "continues_at closed_process ?join ?join"
    by (simp_all add: continues_at_def has_no_outgoing_def closed_parents) (simp add: closed_elements_def)
  have "reaches closed_process ''join'' ?join" by (rule reaches.arrive [OF dead(3) at(3)]) simp
  then have "reaches closed_process ''join'' ?inner" by (rule reaches.follow [OF dead(2) at(2) outer])
  moreover have "follows closed_process ?a ?inner" by (simp add: follows_def flow_leads_to_def find node)
  ultimately have "reaches closed_process ''join'' ?a" using reaches.follow [OF dead(1) at(1)] by blast
  with resolve show "\<exists>x. resolve_flow_node closed_process ''a'' = Some x \<and> reaches closed_process ''join'' x" by blast
qed

text \<open>
  The loops that climb from an element to its enclosing containers end on every process
  whose element ids are distinct.
\<close>

theorem climbing_loops_end:
  assumes "unique_ids p"
  shows "(\<exists>b. event_subprocess_loop p i = Some b) \<and> (\<exists>b. has_multi_instance_parent p i = Some b)"
  using event_subprocess_loop_ends [OF assms, of i] multi_instance_loop_ends [OF assms, of i] by auto

theorem climbing_loops_end_witness:
  "(\<exists>b. event_subprocess_loop example_process ''inner'' = Some b)
    \<and> (\<exists>b. has_multi_instance_parent example_process ''inner'' = Some b)"
  by (rule climbing_loops_end [OF example_unique])

text \<open>
  The graph's view of the outgoing flows is the engine's view except for send tasks and
  complex gateways, for which the graph reports no flow at all although the engine takes
  their flows.
\<close>

theorem graph_outgoing_flows_eq:
  "graph_outgoing_flows e =
     (case e of FeSendTask _ \<Rightarrow> None | FeComplexGateway _ \<Rightarrow> None | _ \<Rightarrow> get_outgoing_flows e)"
  by (cases e) (simp_all add: graph_outgoing_flows_def get_outgoing_flows_def)

text \<open>
  Consequence for joins: a send task (or complex gateway) outside every subprocess is
  reported as unable to reach any element, whatever flows leave it.
\<close>

theorem send_task_reaches_nothing:
  assumes "resolve_flow_node p s = Some (FeSendTask st)"
    and "flow_element_id (FeSendTask st) = Some i" "find_parent_element_for_child p i = None"
  shows "is_reachable (Suc n) p s u = Some False"
proof -
  have "has_no_outgoing (FeSendTask st)" by (simp add: has_no_outgoing_def graph_outgoing_flows_def)
  with assms(3) have "climb_source p (FeSendTask st) i = None" by (simp add: climb_source_def)
  with assms(1,2) show ?thesis
    by (auto simp: is_reachable_def is_start_event_def Let_def split: option.splits)
qed

theorem send_task_reaches_nothing_witness:
  "get_outgoing_flows (FeSendTask (example_send ''mail'' [example_flow ''mail'' ''join'']))
     = Some [example_flow ''mail'' ''join'']
   \<and> is_reachable 5 mail_process ''mail'' ''join'' = Some False"
proof
  show "get_outgoing_flows (FeSendTask (example_send ''mail'' [example_flow ''mail'' ''join'']))
     = Some [example_flow ''mail'' ''join'']"
    by (simp add: get_outgoing_flows_def example_send_def example_node_def)
  let ?mail = "example_send ''mail'' [example_flow ''mail'' ''join'']"
  have i: "flow_element_id (FeSendTask ?mail) = Some ''mail''"
    by (simp add: flow_element_id_def example_send_def example_node_def)
  have "find_parent_element_for_child mail_process ''mail'' = None"
    by (simp add: find_parent_element_for_child_def mail_process_def mail_elements_def
        find_parent_in_element_def nested_flow_elements_def example_join_def example_task_def)
  moreover have "resolve_flow_node mail_process ''mail'' = Some (FeSendTask ?mail)"
  proof -
    have "nested_flow_elements (FeSendTask ?mail) = None" by (simp add: nested_flow_elements_def)
    with i have "populate_element_map 0 mail_elements [] [] = [(''mail'', FeSendTask ?mail),
        (''join'', mail_elements ! 1), (''after'', mail_elements ! 2)]"
      by (simp add: populate_element_map_def MAX_XML_NESTING_DEPTH_def mail_elements_def insert_element_def
          converter_element_id_eq)
    then show ?thesis by (simp add: resolve_flow_node_def find_flow_element_def mail_process_def is_flow_node_def)
  qed
  ultimately show "is_reachable 5 mail_process ''mail'' ''join'' = Some False"
    using send_task_reaches_nothing [of mail_process "''mail''" ?mail "''mail''" 4 "''join''"] i by simp
qed

end
