(* ===== verification/Joins.thy ===== *)
theory Joins
  imports Gateways Token_Store Reachability
begin

text \<open>
  Correctness of joins, forks and splits (Gateways) over the laws of the token table (Token_Store) and the
  specification of reachability (Reachability): what a parallel gateway and an inclusive join do to the
  tokens and to the agenda, that no token loses its parent at a parallel gateway, when an inclusive join
  fires, and what the scan of the parked joins at the end of a command does; and three situations in which a parent row or a
  parked join is lost.
\<close>

section \<open>Specifications\<close>

definition flow_targets :: "sequence_flow list \<Rightarrow> string list" where
  "flow_targets flows = List.map_filter sequence_flow_target_ref flows"

text \<open>The branches a fork creates, in the order of the flows, with consecutive fresh ids.\<close>

fun forked_children :: "(nat \<Rightarrow> string) \<Rightarrow> process \<Rightarrow> string \<Rightarrow> execution \<Rightarrow> nat \<Rightarrow> string list \<Rightarrow> execution list" where
  "forked_children uuid p scope_id e n [] = []"
| "forked_children uuid p scope_id e n (t # ts) =
     forked_child p scope_id e (uuid n) t # forked_children uuid p scope_id e (Suc n) ts"

definition parked :: "execution \<Rightarrow> execution" where
  "parked e = e\<lparr>execution_is_active := False, execution_is_concurrent := True\<rparr>"

definition arrived_tokens :: "string \<Rightarrow> execution \<Rightarrow> command_state \<Rightarrow> execution list" where
  "arrived_tokens activity_id e s = waiting_at activity_id e (cs_executions (insert_execution (parked e) s))"

definition at_parallel_gateway :: "models \<Rightarrow> execution \<Rightarrow> process \<Rightarrow> string \<Rightarrow> sequence_flow list \<Rightarrow> sequence_flow list \<Rightarrow> bool" where
  "at_parallel_gateway models e p a incoming outgoing \<longleftrightarrow>
     execution_activity_id e = Some a \<and>
     (\<exists>d. execution_process_definition_id e = Some d \<and> main_process_of models d = Some p) \<and>
     (\<exists>element. find_flow_element p a = Some element \<and> gateway_flows element = Some (incoming, outgoing))"

text \<open>The row of an execution after the gateway has consumed it.\<close>

definition consumed_row :: "execution \<Rightarrow> execution option" where
  "consumed_row e = (if is_process_instance_scope_execution e then Some (preserved_scope e) else None)"

definition children_of_fork :: "(nat \<Rightarrow> string) \<Rightarrow> process \<Rightarrow> execution \<Rightarrow> sequence_flow list \<Rightarrow> command_state \<Rightarrow> execution list" where
  "children_of_fork uuid p e outgoing s =
     forked_children uuid p (parallel_scope_id e) e (cs_uuids_drawn s) (flow_targets outgoing)"

definition join_waits :: "string \<Rightarrow> execution \<Rightarrow> sequence_flow list \<Rightarrow> command_state \<Rightarrow> bool" where
  "join_waits a e incoming s \<longleftrightarrow> 1 < length incoming \<and> length (arrived_tokens a e s) < length incoming"

definition joined_ids :: "string \<Rightarrow> execution \<Rightarrow> sequence_flow list \<Rightarrow> command_state \<Rightarrow> string set" where
  "joined_ids a e incoming s = (if 1 < length incoming then execution_id ` set (arrived_tokens a e s) else {})"

definition parents_resolve :: "command_state \<Rightarrow> bool" where
  "parents_resolve s \<longleftrightarrow> (\<forall>i e p. find_execution i s = Some e \<longrightarrow> execution_parent_id e = Some p
     \<longrightarrow> find_execution p s \<noteq> None)"

text \<open>
  A token that can still arrive at an inclusive join, as the code decides it: it has the same parent, active or not,
  and is at another node from which the gateway is reachable, or it is an active token at the gateway itself and the
  gateway has asynchronous entry (whatever its parent) or the token is the joining one.
\<close>

definition reaches_gateway :: "process \<Rightarrow> string \<Rightarrow> string \<Rightarrow> bool" where
  "reaches_gateway p a gateway_id \<longleftrightarrow>
     (\<exists>x y t. resolve_flow_node p a = Some x \<and> resolve_flow_node p gateway_id = Some y
        \<and> flow_element_id y = Some t \<and> reaches p t x)"

definition can_still_arrive :: "process \<Rightarrow> string \<Rightarrow> execution \<Rightarrow> execution \<Rightarrow> bool" where
  "can_still_arrive p gateway_id e c \<longleftrightarrow>
     execution_process_instance_id c = execution_process_instance_id e
     \<and> (\<exists>a. execution_activity_id c = Some a
         \<and> (if a \<noteq> gateway_id then
              execution_parent_id c = execution_parent_id e \<and> reaches_gateway p a gateway_id
            else execution_is_active c
              \<and> (execution_id c = execution_id e
                 \<or> (\<exists>element. find_flow_element p a = Some element \<and> is_asynchronous_activity element))))"






definition merged_token :: "string \<Rightarrow> string \<Rightarrow> execution \<Rightarrow> execution" where
  "merged_token i a e = e\<lparr>execution_id := i, execution_parent_id := Some (parallel_scope_id e),
     execution_activity_id := Some a, execution_is_active := True, execution_is_concurrent := False,
     execution_is_ended := False\<rparr>"

definition at_inclusive_join :: "models \<Rightarrow> execution \<Rightarrow> process \<Rightarrow> string \<Rightarrow> bool" where
  "at_inclusive_join models e p a \<longleftrightarrow>
     execution_activity_id e = Some a \<and>
     (\<exists>d. execution_process_definition_id e = Some d \<and> main_process_of models d = Some p) \<and>
     (\<exists>element. find_flow_element p a = Some element \<and> 1 < gateway_incoming_count element)"

text \<open>Two tasks that lead to a join, and the tokens of an instance of that process.\<close>

definition incoming_pair :: "sequence_flow list" where
  "incoming_pair = [example_flow ''a'' ''join'', example_flow ''b'' ''join'']"

definition join_gateway :: gateway where
  "join_gateway = \<lparr>gateway_flow_node = (example_node ''join'' [example_flow ''join'' ''after''])
     \<lparr>flow_node_incoming_flows := incoming_pair\<rparr>, gateway_default_flow = None\<rparr>"

definition diamond_elements :: "flow_element_enum \<Rightarrow> flow_element_enum list" where
  "diamond_elements join = [example_task ''a'' [example_flow ''a'' ''join''],
     example_task ''b'' [example_flow ''b'' ''join''], join, example_task ''after'' []]"

definition diamond :: "flow_element_enum \<Rightarrow> process" where
  "diamond join = MkProcess default_base_element None True None None [] [] [] [] [] [] False
     (diamond_elements join) (populate_element_map 0 (diamond_elements join) [] []) [] [] []"

definition parallel_join :: flow_element_enum where
  "parallel_join = FeParallelGateway \<lparr>parallel_gateway_gateway = join_gateway\<rparr>"

definition inclusive_join :: flow_element_enum where
  "inclusive_join = FeInclusiveGateway \<lparr>inclusive_gateway_gateway = join_gateway\<rparr>"

definition deployed :: "process \<Rightarrow> models" where
  "deployed p = [''def'' \<mapsto> default_bpmn_model\<lparr>bpmn_model_main_process := Some p\<rparr>]"

definition token :: "string \<Rightarrow> string option \<Rightarrow> string option \<Rightarrow> execution" where
  "token i parent activity = default_execution\<lparr>execution_id := i, execution_parent_id := parent,
     execution_process_instance_id := Some ''pi'', execution_process_definition_id := Some ''def'',
     execution_activity_id := activity, execution_is_active := True\<rparr>"

definition tokens_state :: "execution list \<Rightarrow> command_state" where
  "tokens_state es = empty_state\<lparr>cs_executions := es\<rparr>"

text \<open>A token parked at the join of an involved instance, beside other tokens.\<close>

definition scan_state :: "execution list \<Rightarrow> command_state" where
  "scan_state es = (tokens_state (parked (token ''t'' (Some ''pi'') (Some ''join'')) # es))\<lparr>cs_involved := [(''pi'', ''def'')]\<rparr>"

definition example_uuid :: "nat \<Rightarrow> string" where
  "example_uuid n = CHR ''u'' # replicate n CHR ''x''"

text \<open>A process whose join lies inside a transaction.\<close>

definition transaction_process :: process where
  "transaction_process = MkProcess default_base_element None True None None [] [] [] [] [] [] False
     [FeTransaction (MkTransaction (MkSubProcess default_activity (diamond_elements inclusive_join) [] [] [] [] False))]
     [] [] [] []"

lemma flow_targets_simps [simp]:
  "flow_targets [] = []"
  "flow_targets (f # flows) = (case sequence_flow_target_ref f of None \<Rightarrow> flow_targets flows | Some t \<Rightarrow> t # flow_targets flows)"
  by (simp_all add: flow_targets_def map_filter_simps split: option.split)

lemma forked_child_id [simp]: "execution_id (forked_child p scope_id e i t) = i"
  and forked_child_parent [simp]: "execution_parent_id (forked_child p scope_id e i t) = Some scope_id"
  by (simp_all add: forked_child_def)

lemma forked_children_ids:
  "map execution_id (forked_children uuid p scope_id e n ts) = map uuid [n..<n + length ts]"
proof (induction ts arbitrary: n)
  case (Cons t ts)
  then show ?case by (simp add: upt_conv_Cons del: upt_Suc)
qed simp

lemma forked_children_parent: "c \<in> set (forked_children uuid p scope_id e n ts) \<Longrightarrow> execution_parent_id c = Some scope_id"
  by (induction ts arbitrary: n) auto

lemma plan_continue_sel [simp]:
  "cs_executions (plan_continue_process_operation e s) = cs_executions s"
  "cs_agenda (plan_continue_process_operation e s) = cs_agenda s @ [ContinueProcessOperation e]"
  "cs_uuids_drawn (plan_continue_process_operation e s) = cs_uuids_drawn s"
  "find_execution i (plan_continue_process_operation e s) = find_execution i s"
  by (simp_all add: plan_continue_process_operation_def plan_operation_def find_execution_def)

lemma plan_take_sel [simp]:
  "cs_executions (plan_take_outgoing_sequence_flows_operation e s) = cs_executions s"
  "cs_agenda (plan_take_outgoing_sequence_flows_operation e s) = cs_agenda s @ [TakeOutgoingSequenceFlowsOperation e]"
  "cs_uuids_drawn (plan_take_outgoing_sequence_flows_operation e s) = cs_uuids_drawn s"
  "find_execution i (plan_take_outgoing_sequence_flows_operation e s) = find_execution i s"
  by (simp_all add: plan_take_outgoing_sequence_flows_operation_def plan_operation_def find_execution_def)

lemma find_execution_uuids [simp]: "find_execution i (s\<lparr>cs_uuids_drawn := n\<rparr>) = find_execution i s"
  by (simp add: find_execution_def)

lemma fork_loop_exact:
  "cs_agenda (fork_loop uuid p scope_id e flows s)
     = cs_agenda s @ map ContinueProcessOperation (forked_children uuid p scope_id e (cs_uuids_drawn s) (flow_targets flows))"
  "find_execution i (fork_loop uuid p scope_id e flows s)
     = find_execution i (fold insert_execution (forked_children uuid p scope_id e (cs_uuids_drawn s) (flow_targets flows)) s)"
proof (induction flows arbitrary: s)
  case (Cons f flows)
  { case 1
    then show ?case using Cons.IH(1) by (auto simp: new_uuid_def Let_def split: option.split) }
  { case 2
    have eq: "find_execution i (fold insert_execution cs s) = find_execution i (fold insert_execution cs s')"
      if "\<And>i. find_execution i s = find_execution i s'" for cs s s'
      using that by (induction cs arbitrary: s s') (simp_all add: find_execution_insert)
    show ?case
    proof (cases "sequence_flow_target_ref f")
      case (Some t)
      show ?thesis
        using Cons.IH(2)
        by (simp add: Some new_uuid_def Let_def)
           (rule eq, simp add: find_execution_insert)
    qed (use Cons.IH(2) in simp) }
qed simp_all

lemma parked_sel [simp]:
  "execution_id (parked e) = execution_id e" "execution_parent_id (parked e) = execution_parent_id e"
  "execution_activity_id (parked e) = execution_activity_id e"
  "execution_process_instance_id (parked e) = execution_process_instance_id e"
  "parallel_scope_id (parked e) = parallel_scope_id e" "\<not> execution_is_active (parked e)"
  by (simp_all add: parked_def parallel_scope_id_def split: option.split)

lemma find_execution_remove_tokens:
  "find_execution i (fold (\<lambda>c. delete_execution (execution_id c)) tokens s)
     = (if i \<in> execution_id ` set tokens then None else find_execution i s)"
  using executions.lookup_remove_all [of i "map execution_id tokens" s] by (simp add: fold_map comp_def)

lemma remove_tokens_sel [simp]:
  "cs_agenda (fold (\<lambda>c. delete_execution (execution_id c)) tokens s) = cs_agenda s"
  "cs_uuids_drawn (fold (\<lambda>c. delete_execution (execution_id c)) tokens s) = cs_uuids_drawn s"
  by (induction tokens arbitrary: s) simp_all

lemma consume_sel [simp]:
  "cs_agenda (delete_or_preserve_scope_execution e s) = cs_agenda s"
  "cs_uuids_drawn (delete_or_preserve_scope_execution e s) = cs_uuids_drawn s"
  by (simp_all add: delete_or_preserve_scope_execution_def update_execution_def)

lemma find_execution_consume:
  "find_execution i (delete_or_preserve_scope_execution e s)
     = (if i = execution_id e then consumed_row e else find_execution i s)"
  by (simp add: delete_or_preserve_scope_execution_def update_execution_def consumed_row_def
      find_execution_insert find_execution_delete preserved_scope_def)

lemma find_execution_insert_all:
  assumes "distinct (map execution_id cs)"
  shows "find_execution i (fold insert_execution cs s)
    = (case find (\<lambda>c. execution_id c = i) cs of Some c \<Rightarrow> Some c | None \<Rightarrow> find_execution i s)"
  using assms
proof (induction cs arbitrary: s)
  case (Cons c cs)
  then have "find (\<lambda>x. execution_id x = execution_id c) cs = None" by (auto simp: find_None_iff image_iff)
  with Cons show ?case by (auto simp: find_execution_insert split: option.split)
qed simp

lemma children_distinct: "inj uuid \<Longrightarrow> distinct (map execution_id (children_of_fork uuid p e outgoing s))"
  using inj_on_subset [of uuid UNIV] by (simp add: children_of_fork_def forked_children_ids distinct_map)

lemma joined_tokens_plain:
  assumes "has_multi_instance_parent p a = Some False"
  shows "joined_tokens p a e (insert_execution (parked e) s) = Some (arrived_tokens a e s)"
  using assms by (simp add: joined_tokens_def arrived_tokens_def waiting_at_def snapshot_executions_def
      is_waiting_token_at_parallel_gateway_def Let_def)

lemma parallel_exact:
  assumes at: "at_parallel_gateway models e p a incoming outgoing"
    and plain: "has_multi_instance_parent p a = Some False" and fresh: "inj uuid"
  obtains s' where "parallel_gateway_execute uuid models e s = Some s'"
    "join_waits a e incoming s \<Longrightarrow> s' = insert_execution (parked e) s"
    "\<not> join_waits a e incoming s \<Longrightarrow>
       cs_agenda s' = cs_agenda s @ map ContinueProcessOperation (children_of_fork uuid p e outgoing s)"
    "\<And>i. \<not> join_waits a e incoming s \<Longrightarrow> find_execution i s' =
       (case find (\<lambda>c. execution_id c = i) (children_of_fork uuid p e outgoing s) of
          Some c \<Rightarrow> Some c
        | None \<Rightarrow> if i = execution_id e then consumed_row e
                  else if i \<in> joined_ids a e incoming s then None else find_execution i s)"
proof -
  from at obtain d element where e: "execution_activity_id e = Some a" "execution_process_definition_id e = Some d"
    "main_process_of models d = Some p" "find_flow_element p a = Some element"
    "gateway_flows element = Some (incoming, outgoing)"
    by (auto simp: at_parallel_gateway_def)
  let ?s1 = "insert_execution (parked e) s"
  let ?s2 = "if 1 < length incoming then fold (\<lambda>c. delete_execution (execution_id c))
               (filter (\<lambda>c. execution_id c \<noteq> execution_id e) (arrived_tokens a e s)) ?s1 else s"
  let ?s3 = "delete_or_preserve_scope_execution e ?s2"
  let ?cs = "children_of_fork uuid p e outgoing s"
  have run: "parallel_gateway_execute uuid models e s =
      Some (if join_waits a e incoming s then ?s1 else fork_loop uuid p (parallel_scope_id e) e outgoing ?s3)"
    using joined_tokens_plain [OF plain, of e s]
    by (auto simp: parallel_gateway_execute_def e Let_def update_execution_def parked_def [symmetric] join_waits_def)
  have drawn: "cs_uuids_drawn ?s3 = cs_uuids_drawn s" "cs_agenda ?s3 = cs_agenda s" by simp_all
  have look: "find_execution i ?s3 = (if i = execution_id e then consumed_row e
      else if i \<in> joined_ids a e incoming s then None else find_execution i s)" for i
    by (auto simp: find_execution_consume find_execution_remove_tokens find_execution_insert joined_ids_def)
  show thesis
  proof (rule that [OF run])
    show "cs_agenda (if join_waits a e incoming s then ?s1 else fork_loop uuid p (parallel_scope_id e) e outgoing ?s3)
        = cs_agenda s @ map ContinueProcessOperation ?cs" if "\<not> join_waits a e incoming s"
      using that fork_loop_exact(1) [of uuid p "parallel_scope_id e" e outgoing ?s3]
      by (simp add: drawn children_of_fork_def)
    show "find_execution i (if join_waits a e incoming s then ?s1 else fork_loop uuid p (parallel_scope_id e) e outgoing ?s3)
        = (case find (\<lambda>c. execution_id c = i) ?cs of Some c \<Rightarrow> Some c
           | None \<Rightarrow> if i = execution_id e then consumed_row e
                  else if i \<in> joined_ids a e incoming s then None else find_execution i s)"
      if "\<not> join_waits a e incoming s" for i
      using that find_execution_insert_all [OF children_distinct [OF fresh, of p e outgoing s], of i ?s3]
      unfolding look by (simp only: fork_loop_exact(2) drawn children_of_fork_def if_False)
  qed simp
qed

lemma parents_after_parallel:
  assumes at: "at_parallel_gateway models e p a incoming outgoing" "has_multi_instance_parent p a = Some False" "inj uuid"
    and ok: "parents_resolve s" "find_execution (execution_id e) s = Some e"
    and scope: "is_process_instance_scope_execution e
      \<or> (\<exists>q. execution_parent_id e = Some q \<and> q \<noteq> execution_id e \<and> q \<notin> joined_ids a e incoming s)"
    and leaves: "\<forall>i x q. find_execution i s = Some x \<longrightarrow> execution_parent_id x = Some q
      \<longrightarrow> q \<in> joined_ids a e incoming s \<union> {execution_id e}
      \<longrightarrow> i \<in> joined_ids a e incoming s \<or> is_process_instance_scope_execution e \<and> q = execution_id e"
    and run: "parallel_gateway_execute uuid models e s = Some s'"
  shows "parents_resolve s'"
proof (rule parallel_exact [OF at, of s])
  fix s'' assume "parallel_gateway_execute uuid models e s = Some s''"
  with run have eq: "s'' = s'" by simp
  let ?cs = "children_of_fork uuid p e outgoing s"
  assume waits: "join_waits a e incoming s \<Longrightarrow> s'' = insert_execution (parked e) s"
    and look: "\<And>i. \<not> join_waits a e incoming s \<Longrightarrow> find_execution i s'' =
       (case find (\<lambda>c. execution_id c = i) ?cs of Some c \<Rightarrow> Some c
        | None \<Rightarrow> if i = execution_id e then consumed_row e
                  else if i \<in> joined_ids a e incoming s then None else find_execution i s)"
  show ?thesis
  proof (cases "join_waits a e incoming s")
    case True
    have "\<forall>q. execution_parent_id (parked e) = Some q \<longrightarrow> q = execution_id (parked e) \<or> find_execution q s \<noteq> None"
      using ok by (auto simp: parents_resolve_def)
    from executions.parents_after_put [OF ok(1) [unfolded parents_resolve_def] this] waits [OF True] eq
    show ?thesis by (simp add: parents_resolve_def)
  next
    case False
    note look = look [OF False, unfolded eq]
    have stays: "find_execution q s' \<noteq> None"
      if "q = execution_id e \<and> is_process_instance_scope_execution e
        \<or> q \<noteq> execution_id e \<and> q \<notin> joined_ids a e incoming s \<and> find_execution q s \<noteq> None" for q
      using that unfolding look by (auto simp: consumed_row_def split: option.split)
    have scope_stays: "find_execution (parallel_scope_id e) s' \<noteq> None"
    proof (cases "is_process_instance_scope_execution e")
      case True
      then show ?thesis
        by (intro stays) (simp add: parallel_scope_id_def is_process_instance_scope_execution_def)
    next
      case False
      with scope obtain q where q: "execution_parent_id e = Some q" "q \<noteq> execution_id e" "q \<notin> joined_ids a e incoming s"
        by blast
      with ok have "find_execution q s \<noteq> None" unfolding parents_resolve_def by blast
      with q show ?thesis by (intro stays) (simp add: parallel_scope_id_def)
    qed
    show ?thesis
      unfolding parents_resolve_def
    proof (intro allI impI)
      fix i x q
      assume x: "find_execution i s' = Some x" and q: "execution_parent_id x = Some q"
      consider "x \<in> set ?cs" | "x = preserved_scope e" "is_process_instance_scope_execution e"
        | "find_execution i s = Some x" "i \<notin> joined_ids a e incoming s" "i \<noteq> execution_id e"
        using x unfolding look
        by (auto simp: consumed_row_def find_Some_iff split: option.splits if_splits)
      then show "find_execution q s' \<noteq> None"
      proof cases
        case 1
        then have "q = parallel_scope_id e" using q forked_children_parent by (force simp: children_of_fork_def)
        with scope_stays show ?thesis by simp
      next
        case 2
        with q show ?thesis by (simp add: preserved_scope_def is_process_instance_scope_execution_def)
      next
        case 3
        with ok(1) q have "find_execution q s \<noteq> None" unfolding parents_resolve_def by blast
        with leaves 3 q show ?thesis by (intro stays) blast
      qed
    qed
  qed
qed

lemma one_execution_can_reach_exact:
  assumes "wf_process p" "nested_containers_left p" "length (process_flow_element_map p) \<le> fuel"
  shows "one_execution_can_reach_gateway fuel p a e cs = Some (\<exists>c \<in> set cs. can_still_arrive p a e c)"
proof (induction cs)
  case (Cons c cs)
  have arrive: "is_reachable fuel p b a = Some (reaches_gateway p b a)" for b
    unfolding reaches_gateway_def by (rule is_reachable_exact [OF assms])
  consider "execution_process_instance_id c \<noteq> execution_process_instance_id e" | "execution_activity_id c = None"
    | b where "execution_process_instance_id c = execution_process_instance_id e" "execution_activity_id c = Some b"
    by blast
  then show ?case
  proof cases
    case 3
    then have "can_still_arrive p a e c = (if b \<noteq> a then reaches_gateway p b a \<and> execution_parent_id c = execution_parent_id e
        else execution_is_active c \<and> (execution_id c = execution_id e
          \<or> (case find_flow_element p b of None \<Rightarrow> False | Some element \<Rightarrow> is_asynchronous_activity element)))"
      by (auto simp: can_still_arrive_def split: option.split)
    with 3 show ?thesis
      by (cases "can_still_arrive p a e c"; cases "b = a") (auto simp: Cons.IH arrive)
  qed (simp_all add: Cons.IH can_still_arrive_def)
qed simp

lemma merge_tokens_exact:
  "cs_agenda (merge_tokens uuid a e tokens s)
     = cs_agenda s @ [TakeOutgoingSequenceFlowsOperation (merged_token (uuid (cs_uuids_drawn s)) a e)]"
  "find_execution i (merge_tokens uuid a e tokens s)
     = (if i = uuid (cs_uuids_drawn s) then Some (merged_token i a e)
        else if i \<in> execution_id ` set tokens then None else find_execution i s)"
  by (simp_all add: merge_tokens_def new_uuid_def Let_def merged_token_def find_execution_insert
      find_execution_remove_tokens)

lemma inclusive_exact:
  assumes "at_inclusive_join models e p a"
    and "wf_process p" "nested_containers_left p" "length (process_flow_element_map p) \<le> fuel"
  shows "inclusive_gateway_execute fuel uuid models e s = Some (
    if \<exists>c \<in> set (cs_executions (insert_execution (parked e) s)). can_still_arrive p a (parked e) c
    then insert_execution (parked e) s
    else merge_tokens uuid a e (arrived_tokens a e s) (insert_execution (parked e) s))"
proof -
  have "inclusive_gateway_execute fuel uuid models e s
    = (case one_execution_can_reach_gateway fuel p a (parked e) (cs_executions (insert_execution (parked e) s)) of
         None \<Rightarrow> None
       | Some True \<Rightarrow> Some (insert_execution (parked e) s)
       | Some False \<Rightarrow> Some (merge_tokens uuid a e (arrived_tokens a e s) (insert_execution (parked e) s)))"
    using assms(1) unfolding arrived_tokens_def
    by (auto simp: inclusive_gateway_execute_def at_inclusive_join_def update_execution_def
        parked_def [symmetric] snapshot_executions_def Let_def)
  then show ?thesis by (simp only: one_execution_can_reach_exact [OF assms(2-4)] option.case split: bool.split if_split) blast
qed

lemma drain_agenda_result:
  assumes "drain_agenda run s = Some (Inr s')"
  shows "cs_agenda s' = []"
proof -
  have "\<forall>s'. r = Inr s' \<longrightarrow> cs_agenda s' = []" if "drain_agenda run s = Some r" for r
  proof (rule drain_agenda.raw_induct [where P = "\<lambda>run s r. \<forall>s'. r = Inr s' \<longrightarrow> cs_agenda s' = []", OF _ that])
    fix f :: "(agenda_operation \<Rightarrow> command_state \<Rightarrow> 'a + command_state) \<Rightarrow> command_state \<Rightarrow> ('a + command_state) option"
      and run s r
    assume IH: "\<And>run s r. f run s = Some r \<Longrightarrow> \<forall>s'. r = Inr s' \<longrightarrow> cs_agenda s' = []"
      and body: "(case pop_operation s of None \<Rightarrow> Some (Inr s) | Some (operation, s1) \<Rightarrow>
          (case run operation s1 of Inl e \<Rightarrow> Some (Inl e) | Inr s2 \<Rightarrow> f run s2)) = Some r"
    show "\<forall>s'. r = Inr s' \<longrightarrow> cs_agenda s' = []"
      using body IH by (auto simp: pop_operation_def split: list.splits sum.splits)
  qed
  with assms show ?thesis by blast
qed

lemma run_agenda_result:
  assumes "run_agenda run joins s = Some (Inr s')"
  shows "\<exists>s1. cs_agenda s1 = [] \<and> joins s1 = Some (False, s')"
proof -
  have "\<forall>s'. r = Inr s' \<longrightarrow> (\<exists>s1. cs_agenda s1 = [] \<and> joins s1 = Some (False, s'))"
    if "run_agenda run joins s = Some r" for r
  proof (rule run_agenda.raw_induct [where P = "\<lambda>run joins s r. \<forall>s'. r = Inr s'
      \<longrightarrow> (\<exists>s1. cs_agenda s1 = [] \<and> joins s1 = Some (False, s'))", OF _ that])
    fix f :: "(agenda_operation \<Rightarrow> command_state \<Rightarrow> 'a + command_state)
        \<Rightarrow> (command_state \<Rightarrow> (bool \<times> command_state) option) \<Rightarrow> command_state \<Rightarrow> ('a + command_state) option"
      and run joins s r
    assume IH: "\<And>run joins s r. f run joins s = Some r
        \<Longrightarrow> \<forall>s'. r = Inr s' \<longrightarrow> (\<exists>s1. cs_agenda s1 = [] \<and> joins s1 = Some (False, s'))"
      and body: "(case drain_agenda run s of None \<Rightarrow> None | Some (Inl e) \<Rightarrow> Some (Inl e)
          | Some (Inr s1) \<Rightarrow> (case joins s1 of None \<Rightarrow> None
             | Some (activated, s2) \<Rightarrow> if activated then f run joins s2 else Some (Inr s2))) = Some r"
    show "\<forall>s'. r = Inr s' \<longrightarrow> (\<exists>s1. cs_agenda s1 = [] \<and> joins s1 = Some (False, s'))"
    proof (cases "drain_agenda run s")
      case (Some d)
      show ?thesis
      proof (cases d)
        case (Inr s1)
        with Some have empty: "cs_agenda s1 = []" by (auto intro: drain_agenda_result)
        with body IH show ?thesis by (auto simp: Some Inr split: option.splits if_splits)
      qed (use body in \<open>auto simp: Some\<close>)
    qed (use body in simp)
  qed
  with assms show ?thesis by blast
qed








lemma arrived_self: "execution_activity_id e = Some a \<Longrightarrow> parked e \<in> set (arrived_tokens a e s)"
proof -
  have "parked e \<in> set (upsert_execution (parked e) xs)" for xs
    by (induction xs) auto
  then show "execution_activity_id e = Some a \<Longrightarrow> ?thesis" by (simp add: arrived_tokens_def waiting_at_def)
qed

lemma arrived_self_id: "execution_activity_id e = Some a \<Longrightarrow> execution_id e \<in> execution_id ` set (arrived_tokens a e s)"
  using arrived_self [of e a s] by (metis imageI parked_sel(1))

lemma spawn_plain:
  assumes "sequence_flow_target_ref f = Some t" "flow_element_execution_listeners (sequence_flow_flow_element f) = []"
  shows "spawn_child_execution uuid listen e f to_end s =
    (let child = (child_on_flow (uuid (cs_uuids_drawn s)) (execution_id e) to_end e)\<lparr>execution_activity_id := Some t\<rparr>
     in Some (Inr (plan_continue_process_operation child
          (insert_execution child (s\<lparr>cs_uuids_drawn := Suc (cs_uuids_drawn s)\<rparr>)))))"
  using assms by (simp add: spawn_child_execution_def insert_child_on_flow_def new_uuid_def
      fire_sequence_flow_listeners_def Let_def)

lemma spawn_all_plain:
  assumes "\<forall>(f, to_end) \<in> set flows. sequence_flow_target_ref f \<noteq> None
      \<and> flow_element_execution_listeners (sequence_flow_flow_element f) = []"
  shows "\<exists>s' children. for_flows (spawn_child_execution uuid listen e) flows s = Some (Inr s')
    \<and> cs_agenda s' = cs_agenda s @ map ContinueProcessOperation children \<and> length children = length flows
    \<and> (\<forall>c \<in> set children. execution_parent_id c = Some (execution_id e))
    \<and> (\<forall>i. i \<notin> range uuid \<longrightarrow> find_execution i s' = find_execution i s)"
  using assms
proof (induction flows arbitrary: s)
  case (Cons ft flows)
  obtain f to_end where ft: "ft = (f, to_end)" by (cases ft)
  with Cons.prems obtain t where t: "sequence_flow_target_ref f = Some t"
    "flow_element_execution_listeners (sequence_flow_flow_element f) = []" by auto
  let ?c = "(child_on_flow (uuid (cs_uuids_drawn s)) (execution_id e) to_end e)\<lparr>execution_activity_id := Some t\<rparr>"
  let ?s = "plan_continue_process_operation ?c (insert_execution ?c (s\<lparr>cs_uuids_drawn := Suc (cs_uuids_drawn s)\<rparr>))"
  have step: "spawn_child_execution uuid listen e f to_end s = Some (Inr ?s)"
    using spawn_plain [OF t] by (simp add: Let_def)
  from Cons.IH [of ?s] Cons.prems obtain s' children where
    IH: "for_flows (spawn_child_execution uuid listen e) flows ?s = Some (Inr s')"
      "cs_agenda s' = cs_agenda ?s @ map ContinueProcessOperation children" "length children = length flows"
      "\<forall>c \<in> set children. execution_parent_id c = Some (execution_id e)"
      "\<forall>i. i \<notin> range uuid \<longrightarrow> find_execution i s' = find_execution i ?s" by auto
  have "execution_parent_id ?c = Some (execution_id e)" "execution_id ?c = uuid (cs_uuids_drawn s)"
    by (simp_all add: child_on_flow_def)
  with IH step show ?case
    by (intro exI [of _ s'] exI [of _ "?c # children"]) (auto simp: ft find_execution_insert)
qed auto

lemma example_uuid_inj: "inj example_uuid"
  by (rule injI) (metis example_uuid_def length_replicate list.inject)

lemma example_uuid_not: "''pi'' \<notin> range example_uuid" "''t'' \<notin> range example_uuid"
  by (auto simp: example_uuid_def)

lemma join_ids [simp]:
  "flow_element_id parallel_join = Some ''join''" "flow_element_id inclusive_join = Some ''join''"
  "nested_flow_elements parallel_join = None" "nested_flow_elements inclusive_join = None"
  by (simp_all add: parallel_join_def inclusive_join_def join_gateway_def flow_element_id_def nested_flow_elements_def
      example_node_def)

lemma diamond_sel:
  "process_flow_elements (diamond join) = diamond_elements join"
  "process_flow_element_map (diamond join) = populate_element_map 0 (diamond_elements join) [] []"
  "process_data_objects (diamond join) = []"
  by (simp_all add: diamond_def)

lemma diamond_map:
  assumes "flow_element_id join = Some ''join''" "nested_flow_elements join = None"
  shows "process_flow_element_map (diamond join) =
    [(''a'', example_task ''a'' [example_flow ''a'' ''join'']), (''b'', example_task ''b'' [example_flow ''b'' ''join'']),
     (''join'', join), (''after'', example_task ''after'' [])]"
  using assms
  by (simp add: diamond_sel populate_element_map_def MAX_XML_NESTING_DEPTH_def diamond_elements_def insert_element_def
      converter_element_id_eq)

lemma diamond_join:
  assumes "flow_element_id join = Some ''join''" "nested_flow_elements join = None"
  shows "find_flow_element (diamond join) ''join'' = Some join"
    "find_parent_element_for_child (diamond join) ''join'' = None" "unique_ids (diamond join)" "wf_process (diamond join)"
proof -
  note map = diamond_map [OF assms]
  show "find_flow_element (diamond join) ''join'' = Some join" by (simp add: find_flow_element_def map)
  show "find_parent_element_for_child (diamond join) ''join'' = None"
    using assms by (simp add: find_parent_element_for_child_def diamond_sel diamond_elements_def find_parent_in_element_def)
  have all: "all_elements (diamond join) = diamond_elements join"
    using assms by (simp add: all_elements_def diamond_sel diamond_elements_def)
  show ids: "unique_ids (diamond join)"
    using assms by (simp add: unique_ids_def all) (simp add: diamond_elements_def)
  show "wf_process (diamond join)"
    unfolding wf_process_def map all using ids assms by (simp add: diamond_elements_def)
qed

lemma diamond_not_multi:
  assumes "flow_element_id join = Some ''join''" "nested_flow_elements join = None"
  shows "has_multi_instance_parent (diamond join) ''join'' = Some False"
  by (subst has_multi_instance_parent.simps) (simp add: diamond_join(2) [OF assms])

lemma inclusive_diamond_shape: "nested_containers_left (diamond inclusive_join)"
proof -
  have "x \<in> set (diamond_elements inclusive_join)" if "find_flow_element (diamond inclusive_join) r = Some x" for x r
  proof (cases "map_of (process_flow_element_map (diamond inclusive_join)) r")
    case None
    with that show ?thesis
      by (auto simp: find_flow_element_def diamond_sel find_Some_iff dest: nth_mem)
  next
    case (Some y)
    with that have "map_of (process_flow_element_map (diamond inclusive_join)) r = Some x"
      by (simp add: find_flow_element_def)
    then show ?thesis
      unfolding diamond_map [OF join_ids(2,4)] by (auto simp: diamond_elements_def split: if_splits)
  qed
  moreover have "\<not> is_sub_process_container x" if "x \<in> set (diamond_elements inclusive_join)" for x
    using that by (auto simp: diamond_elements_def example_task_def inclusive_join_def is_sub_process_container_def)
  ultimately show ?thesis by (auto simp: nested_containers_left_def targeted_def follows_def flow_leads_to_def)
qed

lemma token_sel [simp]:
  "execution_id (token i par act) = i" "execution_parent_id (token i par act) = par"
  "execution_activity_id (token i par act) = act" "execution_process_instance_id (token i par act) = Some ''pi''"
  "execution_process_definition_id (token i par act) = Some ''def''" "execution_is_active (token i par act)"
  "execution_is_scope (token i par act) = False"
  by (simp_all add: token_def default_execution_def)

lemma deployed_main [simp]: "main_process_of (deployed p) ''def'' = Some p"
  by (simp add: main_process_of_def deployed_def)

lemma join_flows:
  "gateway_flows parallel_join = Some (incoming_pair, [example_flow ''join'' ''after''])"
  "gateway_incoming_count inclusive_join = 2"
  by (simp_all add: gateway_flows_def gateway_incoming_count_def parallel_join_def inclusive_join_def join_gateway_def
      example_node_def incoming_pair_def)

lemma join_not_async: "\<not> is_asynchronous_activity inclusive_join"
  by (simp add: is_asynchronous_activity_def inclusive_join_def join_gateway_def example_node_def default_flow_node_def)

lemma at_parallel_example:
  "at_parallel_gateway (deployed (diamond parallel_join)) (token i par (Some ''join'')) (diamond parallel_join) ''join''
     incoming_pair [example_flow ''join'' ''after'']"
  using diamond_join(1) [OF join_ids(1,3)] by (simp add: at_parallel_gateway_def join_flows)

lemma at_inclusive_example:
  "at_inclusive_join (deployed (diamond inclusive_join)) (token i par (Some ''join'')) (diamond inclusive_join) ''join''"
  using diamond_join(1) [OF join_ids(2,4)] by (simp add: at_inclusive_join_def join_flows)

lemma scan_state_sel [simp]:
  "cs_executions (scan_state es) = parked (token ''t'' (Some ''pi'') (Some ''join'')) # es"
  "cs_involved (scan_state es) = [(''pi'', ''def'')]"
  by (simp_all add: scan_state_def tokens_state_def)


lemma diamond_reaches: "reaches_gateway (diamond inclusive_join) ''a'' ''join''"
proof -
  have "is_reachable 4 (diamond inclusive_join) ''a'' ''join'' = Some True" by code_simp
  moreover have "length (process_flow_element_map (diamond inclusive_join)) \<le> 4" by (simp add: diamond_map)
  ultimately show ?thesis
    unfolding reaches_gateway_def
    using is_reachable_exact [OF diamond_join(4) [OF join_ids(2,4)] inclusive_diamond_shape] by simp
qed


section \<open>Properties\<close>



text \<open>
  Forks and joins of a parallel gateway leave no token without its parent: if every parent row exists, the
  token's scope is the kept process-instance row or a row that is not joined away, and no remaining token hangs
  under a joined one, then every parent row exists afterwards.
\<close>

theorem parallel_gateway_keeps_parents:
  assumes "at_parallel_gateway models e p a incoming outgoing" "has_multi_instance_parent p a = Some False" "inj uuid"
    and "parents_resolve s" "find_execution (execution_id e) s = Some e"
    and "is_process_instance_scope_execution e
      \<or> (\<exists>q. execution_parent_id e = Some q \<and> q \<noteq> execution_id e \<and> q \<notin> joined_ids a e incoming s)"
    and "\<forall>i x q. find_execution i s = Some x \<longrightarrow> execution_parent_id x = Some q
      \<longrightarrow> q \<in> joined_ids a e incoming s \<union> {execution_id e}
      \<longrightarrow> i \<in> joined_ids a e incoming s \<or> is_process_instance_scope_execution e \<and> q = execution_id e"
    and "parallel_gateway_execute uuid models e s = Some s'"
  shows "parents_resolve s'"
  by (rule parents_after_parallel [OF assms])

theorem parallel_gateway_keeps_parents_witness:
  "parents_resolve (the (parallel_gateway_execute example_uuid (deployed (diamond parallel_join))
     (token ''t2'' (Some ''pi'') (Some ''join''))
     (tokens_state [token ''pi'' None None, token ''t1'' (Some ''pi'') (Some ''join''), token ''t2'' (Some ''pi'') (Some ''join'')])))"
proof -
  let ?e = "token ''t2'' (Some ''pi'') (Some ''join'')"
  let ?s = "tokens_state [token ''pi'' None None, token ''t1'' (Some ''pi'') (Some ''join''), ?e]"
  note at = at_parallel_example [of "''t2''" "Some ''pi''"] diamond_not_multi [OF join_ids(1,3)] example_uuid_inj
  have rows: "find_execution i ?s = (if i = ''pi'' then Some (token ''pi'' None None)
      else if i = ''t1'' then Some (token ''t1'' (Some ''pi'') (Some ''join'')) else if i = ''t2'' then Some ?e else None)" for i
    by (simp add: find_execution_def tokens_state_def)
  have "joined_ids ''join'' ?e incoming_pair ?s = {''t1'', ''t2''}"
    by (auto simp: joined_ids_def arrived_tokens_def waiting_at_def tokens_state_def incoming_pair_def parallel_scope_id_def)
  note ids = this
  obtain s' where s': "parallel_gateway_execute example_uuid (deployed (diamond parallel_join)) ?e ?s = Some s'"
    by (rule parallel_exact [OF at, of ?s])
  have "parents_resolve s'"
    by (rule parallel_gateway_keeps_parents [OF at _ _ _ _ s'])
       (auto simp: parents_resolve_def rows ids split: if_splits)
  with s' show ?thesis by simp
qed

text \<open>
  C6. A token at an inclusive join of a well-formed process whose nested subprocesses have an outgoing flow wherever a
  flow leads to them: it waits exactly when some token of the instance can still arrive, that is, a token (active or
  not) with the same parent at another node from which the flows reach the gateway, or, when the gateway is
  asynchronous, an active token at the gateway, whatever its scope.  Otherwise all tokens that arrived in its scope are replaced by one merged
  token, which is planned to leave, and no other execution changes.
\<close>

theorem inclusive_join_exact:
  assumes "at_inclusive_join models e p a"
    and "wf_process p" "nested_containers_left p" "length (process_flow_element_map p) \<le> fuel"
  shows "\<exists>s'. inclusive_gateway_execute fuel uuid models e s = Some s' \<and>
    (if \<exists>c \<in> set (cs_executions (insert_execution (parked e) s)). can_still_arrive p a (parked e) c
     then s' = insert_execution (parked e) s
     else cs_agenda s' = cs_agenda s @ [TakeOutgoingSequenceFlowsOperation (merged_token (uuid (cs_uuids_drawn s)) a e)] \<and>
       (\<forall>i. find_execution i s' =
         (if i = uuid (cs_uuids_drawn s) then Some (merged_token i a e)
          else if i \<in> execution_id ` set (arrived_tokens a e s) then None else find_execution i s)))"
proof -
  let ?s1 = "insert_execution (parked e) s"
  let ?m = "merge_tokens uuid a e (arrived_tokens a e s) ?s1"
  have self: "execution_id e \<in> execution_id ` set (arrived_tokens a e s)"
    using assms(1) by (simp add: arrived_self_id at_inclusive_join_def)
  have "cs_agenda ?m = cs_agenda s @ [TakeOutgoingSequenceFlowsOperation (merged_token (uuid (cs_uuids_drawn s)) a e)]"
    by (simp add: merge_tokens_exact)
  moreover have "find_execution i ?m = (if i = uuid (cs_uuids_drawn s) then Some (merged_token i a e)
      else if i \<in> execution_id ` set (arrived_tokens a e s) then None else find_execution i s)" for i
    using self by (simp add: merge_tokens_exact find_execution_insert)
  ultimately show ?thesis unfolding inclusive_exact [OF assms] by simp
qed

theorem inclusive_join_exact_witness:
  "(\<exists>s'. inclusive_gateway_execute 4 example_uuid (deployed (diamond inclusive_join)) (token ''t'' (Some ''pi'') (Some ''join''))
      (tokens_state [token ''pi'' None None, token ''t'' (Some ''pi'') (Some ''join'')]) = Some s'
    \<and> cs_agenda s' = [TakeOutgoingSequenceFlowsOperation (merged_token ''u'' ''join'' (token ''t'' (Some ''pi'') (Some ''join'')))])
   \<and> inclusive_gateway_execute 4 example_uuid (deployed (diamond inclusive_join)) (token ''t'' (Some ''pi'') (Some ''join''))
      (tokens_state [token ''busy'' (Some ''pi'') (Some ''a'')])
    = Some (insert_execution (parked (token ''t'' (Some ''pi'') (Some ''join''))) (tokens_state [token ''busy'' (Some ''pi'') (Some ''a'')]))"
proof
  let ?e = "token ''t'' (Some ''pi'') (Some ''join'')"
  have len: "length (process_flow_element_map (diamond inclusive_join)) \<le> 4" by (simp add: diamond_map)
  note join = inclusive_join_exact [OF at_inclusive_example [of "''t''" "Some ''pi''"] diamond_join(4) [OF join_ids(2,4)]
      inclusive_diamond_shape len, of example_uuid]
  let ?s = "tokens_state [token ''pi'' None None, ?e]"
  have "\<not> (\<exists>c \<in> set (cs_executions (insert_execution (parked ?e) ?s)).
      can_still_arrive (diamond inclusive_join) ''join'' (parked ?e) c)"
    using join_not_async by (auto simp: can_still_arrive_def tokens_state_def)
  with join [of ?s]
  show "\<exists>s'. inclusive_gateway_execute 4 example_uuid (deployed (diamond inclusive_join)) ?e ?s = Some s'
      \<and> cs_agenda s' = [TakeOutgoingSequenceFlowsOperation (merged_token ''u'' ''join'' ?e)]"
    by (auto simp: tokens_state_def empty_state_def example_uuid_def)
  let ?s = "tokens_state [token ''busy'' (Some ''pi'') (Some ''a'')]"
  have "\<exists>c \<in> set (cs_executions (insert_execution (parked ?e) ?s)).
      can_still_arrive (diamond inclusive_join) ''join'' (parked ?e) c"
    using diamond_reaches by (auto simp: can_still_arrive_def tokens_state_def)
  with join [of ?s]
  show "inclusive_gateway_execute 4 example_uuid (deployed (diamond inclusive_join)) ?e ?s = Some (insert_execution (parked ?e) ?s)"
    by auto
qed



text \<open>
  An inclusive join deletes the process-instance row: when the token that completes the join is the row of the
  instance itself, the row is gone afterwards and the merged token names it as its parent.
\<close>

theorem inclusive_join_drops_instance_row:
  assumes "at_inclusive_join models e p a" "is_process_instance_scope_execution e" "execution_id e \<notin> range uuid"
    and "one_execution_can_reach_gateway fuel p a (parked e) (cs_executions (insert_execution (parked e) s)) = Some False"
  shows "\<exists>s' m. inclusive_gateway_execute fuel uuid models e s = Some s'
    \<and> find_execution (execution_id e) s' = None
    \<and> cs_agenda s' = cs_agenda s @ [TakeOutgoingSequenceFlowsOperation m] \<and> execution_parent_id m = Some (execution_id e)"
proof -
  let ?s1 = "insert_execution (parked e) s"
  let ?m = "merged_token (uuid (cs_uuids_drawn s)) a e"
  have run: "inclusive_gateway_execute fuel uuid models e s = Some (merge_tokens uuid a e (arrived_tokens a e s) ?s1)"
    using assms(1,4) unfolding arrived_tokens_def
    by (auto simp: inclusive_gateway_execute_def at_inclusive_join_def update_execution_def
        parked_def [symmetric] snapshot_executions_def Let_def)
  have "execution_id e \<in> execution_id ` set (arrived_tokens a e s)"
    using assms(1) by (simp add: arrived_self_id at_inclusive_join_def)
  moreover have "execution_id e \<noteq> uuid (cs_uuids_drawn s)" using assms(3) by blast
  ultimately have "find_execution (execution_id e) (merge_tokens uuid a e (arrived_tokens a e s) ?s1) = None"
    by (simp add: merge_tokens_exact)
  moreover have "execution_parent_id ?m = Some (execution_id e)"
    using assms(2) by (simp add: merged_token_def parallel_scope_id_def is_process_instance_scope_execution_def)
  ultimately show ?thesis using run by (auto simp: merge_tokens_exact)
qed

theorem inclusive_join_drops_instance_row_witness:
  "\<exists>s' m. inclusive_gateway_execute 4 example_uuid (deployed (diamond inclusive_join)) (token ''pi'' None (Some ''join''))
        (tokens_state [token ''pi'' None (Some ''join'')]) = Some s'
    \<and> find_execution ''pi'' s' = None
    \<and> cs_agenda s' = cs_agenda (tokens_state [token ''pi'' None (Some ''join'')]) @ [TakeOutgoingSequenceFlowsOperation m]
    \<and> execution_parent_id m = Some ''pi''"
  using inclusive_join_drops_instance_row [OF at_inclusive_example, of "''pi''" None example_uuid 4
      "tokens_state [token ''pi'' None (Some ''join'')]"]
  by (simp add: is_process_instance_scope_execution_def example_uuid_not tokens_state_def
      diamond_join(1) [OF join_ids(2,4)] join_not_async)

text \<open>
  A join inside a transaction is never re-evaluated: for a process all of whose top-level elements are
  transactions, the final scan activates nothing and writes nothing, whichever tokens are parked.
\<close>

theorem transaction_joins_not_rescanned:
  assumes "\<forall>d p. main_process_of models d = Some p \<longrightarrow> (\<forall>x \<in> set (process_flow_elements p). \<exists>t. x = FeTransaction t)"
  shows "execute_inactive_inclusive_joins fuel uuid models s = Some (False, s\<lparr>cs_involved := []\<rparr>)"
proof -
  have "collect_inclusive_join_ids xs = []" if "\<forall>x \<in> set xs. \<exists>t. x = FeTransaction t" for xs
    using that by (induction xs) (auto simp: join_container_elements_def)
  with assms have none: "collect_inclusive_join_ids (process_flow_elements p) = []" if "main_process_of models d = Some p" for d p
    using that by blast
  have "gated_instances models involved = []" for involved
  proof (induction involved)
    case (Cons x involved)
    then show ?case
      by (cases x; cases "main_process_of models (snd x)") (simp_all add: none Let_def)
  qed simp
  then show ?thesis by (simp add: execute_inactive_inclusive_joins_def take_involved_process_instances_def)
qed

theorem transaction_joins_not_rescanned_witness:
  "execute_inactive_inclusive_joins 4 example_uuid (deployed transaction_process)
       (tokens_state [(token ''t'' (Some ''pi'') (Some ''join''))\<lparr>execution_is_active := False, execution_is_concurrent := True\<rparr>]
         \<lparr>cs_involved := [(''pi'', ''def'')]\<rparr>)
     = Some (False, tokens_state [(token ''t'' (Some ''pi'') (Some ''join''))\<lparr>execution_is_active := False, execution_is_concurrent := True\<rparr>])"
proof -
  have "\<forall>d p. main_process_of (deployed transaction_process) d = Some p
      \<longrightarrow> (\<forall>x \<in> set (process_flow_elements p). \<exists>t. x = FeTransaction t)"
    by (auto simp: main_process_of_def deployed_def transaction_process_def split: if_splits)
  from transaction_joins_not_rescanned [OF this] show ?thesis by (simp add: tokens_state_def empty_state_def)
qed

text \<open>
  Leaving a node over several flows orphans the branches: when the token is not a scope, its row is deleted
  and every branch that is planned names the deleted row as its parent.
\<close>

theorem split_children_orphaned:
  assumes "1 < length flows" "\<not> execution_is_scope e" "execution_id e \<notin> range uuid"
    and "\<forall>(f, to_end) \<in> set flows. sequence_flow_target_ref f \<noteq> None
      \<and> flow_element_execution_listeners (sequence_flow_flow_element f) = []"
  shows "\<exists>s' children. leave_over_flows uuid listen e flows s = Some (Inr s')
    \<and> find_execution (execution_id e) s' = None
    \<and> cs_agenda s' = cs_agenda s @ map ContinueProcessOperation children \<and> length children = length flows
    \<and> (\<forall>c \<in> set children. execution_parent_id c = Some (execution_id e))"
  using spawn_all_plain [OF assms(4), of uuid listen e "delete_execution (execution_id e) s"] assms(1-3)
  by (auto simp: leave_over_flows_def find_execution_delete)

theorem split_children_orphaned_witness:
  "\<exists>s' children. leave_over_flows example_uuid (\<lambda>e s _ _ _. (Inr (e, s) :: string + execution \<times> command_state))
        (token ''t'' (Some ''pi'') (Some ''task'')) [(example_flow ''task'' ''a'', False), (example_flow ''task'' ''b'', False)]
        (tokens_state [token ''t'' (Some ''pi'') (Some ''task'')]) = Some (Inr s')
    \<and> find_execution ''t'' s' = None
    \<and> cs_agenda s' = cs_agenda (tokens_state [token ''t'' (Some ''pi'') (Some ''task'')]) @ map ContinueProcessOperation children
    \<and> length children = 2"
proof -
  let ?e = "token ''t'' (Some ''pi'') (Some ''task'')"
  let ?flows = "[(example_flow ''task'' ''a'', False), (example_flow ''task'' ''b'', False)]"
  have "\<forall>(f, to_end) \<in> set ?flows. sequence_flow_target_ref f \<noteq> None
      \<and> flow_element_execution_listeners (sequence_flow_flow_element f) = []"
    by (simp add: example_flow_def default_sequence_flow_def default_flow_element_def)
  from split_children_orphaned [OF _ _ _ this, of ?e example_uuid
      "\<lambda>e s _ _ _. (Inr (e, s) :: string + execution \<times> command_state)" "tokens_state [?e]"]
  show ?thesis by (auto simp: example_uuid_not numeral_2_eq_2)
qed

end
