(* ===== verification/Float64.thy ===== *)
theory Float64
  imports Complex_Main Prelude
begin

text \<open>
  Rust's \<open>f64\<close>: a 64-bit pattern in the binary64 format of IEEE 754, with the operations the decision
  engine uses. An operation on finite operands computes the exact rational result and rounds it to the
  nearest representable number, ties to the even significand; \<open>powf\<close>, whose precision Rust leaves
  open, is not defined here but is an argument of its users.
\<close>

section \<open>The format\<close>

definition f64_sign :: "f64 \<Rightarrow> bool" where
  "f64_sign w \<longleftrightarrow> 2 ^ 63 \<le> uint w"

definition f64_exponent :: "f64 \<Rightarrow> int" where
  "f64_exponent w = uint w div 2 ^ 52 mod 2 ^ 11"

definition f64_fraction :: "f64 \<Rightarrow> int" where
  "f64_fraction w = uint w mod 2 ^ 52"

definition f64_is_nan :: "f64 \<Rightarrow> bool" where
  "f64_is_nan w \<longleftrightarrow> f64_exponent w = 2047 \<and> f64_fraction w \<noteq> 0"

definition f64_is_infinite :: "f64 \<Rightarrow> bool" where
  "f64_is_infinite w \<longleftrightarrow> f64_exponent w = 2047 \<and> f64_fraction w = 0"

definition f64_is_finite :: "f64 \<Rightarrow> bool" where
  "f64_is_finite w \<longleftrightarrow> f64_exponent w \<noteq> 2047"

text \<open>Powers of two with any exponent.\<close>

definition pow2 :: "int \<Rightarrow> rat" where
  "pow2 k = (if 0 \<le> k then 2 ^ nat k else 1 / 2 ^ nat (- k))"

text \<open>The magnitude of a finite pattern and its signed value.\<close>

definition f64_magnitude :: "f64 \<Rightarrow> rat" where
  "f64_magnitude w =
     (if f64_exponent w = 0 then of_int (f64_fraction w) * pow2 (- 1074)
      else of_int (2 ^ 52 + f64_fraction w) * pow2 (f64_exponent w - 1075))"

definition f64_value :: "f64 \<Rightarrow> rat" where
  "f64_value w = (if f64_sign w then - f64_magnitude w else f64_magnitude w)"

definition f64_nan :: f64 where
  "f64_nan = word_of_int (2047 * 2 ^ 52 + 2 ^ 51)"

text \<open>The pattern with a sign and the 63 bits below it.\<close>

definition f64_pack :: "bool \<Rightarrow> int \<Rightarrow> f64" where
  "f64_pack s bits = word_of_int (bits + (if s then 2 ^ 63 else 0))"

definition f64_infinity :: "bool \<Rightarrow> f64" where
  "f64_infinity s = f64_pack s (2047 * 2 ^ 52)"

definition f64_zero :: "bool \<Rightarrow> f64" where
  "f64_zero s = f64_pack s 0"

section \<open>Rounding\<close>

function log2 :: "int \<Rightarrow> int" where
  "log2 n = (if n < 2 then 0 else 1 + log2 (n div 2))"
  by auto
termination
  by (relation "measure nat") auto

declare log2.simps [simp del]

text \<open>The exponent \<open>k\<close> with \<open>2 ^ k \<le> x < 2 ^ (k + 1)\<close>, for positive \<open>x\<close>.\<close>

definition binary_exponent :: "rat \<Rightarrow> int" where
  "binary_exponent x =
     (if 1 \<le> x then log2 \<lfloor>x\<rfloor>
      else let k = log2 \<lfloor>1 / x\<rfloor> in if x = pow2 (- k) then - k else - k - 1)"

definition round_half_even :: "rat \<Rightarrow> int" where
  "round_half_even x =
     (let f = \<lfloor>x\<rfloor>; r = x - of_int f
      in if r < 1 / 2 then f else if 1 / 2 < r then f + 1 else if even f then f else f + 1)"

definition f64_round :: "bool \<Rightarrow> rat \<Rightarrow> f64" where
  "f64_round zero_sign x =
     (if x = 0 then f64_zero zero_sign
      else
        (let a = \<bar>x\<bar>;
             q = max (binary_exponent a - 52) (- 1074);
             m = round_half_even (a / pow2 q);
             bits = (if m < 2 ^ 52 then m else (q + 1075) * 2 ^ 52 + (m - 2 ^ 52))
         in if 2047 * 2 ^ 52 \<le> bits then f64_infinity (x < 0) else f64_pack (x < 0) bits))"

section \<open>Operations\<close>

definition f64_neg :: "f64 \<Rightarrow> f64" where
  "f64_neg w = f64_pack (\<not> f64_sign w) (uint w mod 2 ^ 63)"

definition f64_abs :: "f64 \<Rightarrow> f64" where
  "f64_abs w = f64_pack False (uint w mod 2 ^ 63)"

definition f64_add :: "f64 \<Rightarrow> f64 \<Rightarrow> f64" where
  "f64_add a b =
     (if f64_is_nan a \<or> f64_is_nan b then f64_nan
      else if f64_is_infinite a then (if f64_is_infinite b \<and> f64_sign a \<noteq> f64_sign b then f64_nan else a)
      else if f64_is_infinite b then b
      else f64_round (f64_sign a \<and> f64_sign b) (f64_value a + f64_value b))"

definition f64_sub :: "f64 \<Rightarrow> f64 \<Rightarrow> f64" where
  "f64_sub a b = (if f64_is_nan b then f64_nan else f64_add a (f64_neg b))"

definition f64_mul :: "f64 \<Rightarrow> f64 \<Rightarrow> f64" where
  "f64_mul a b =
     (let s = (f64_sign a \<noteq> f64_sign b) in
      if f64_is_nan a \<or> f64_is_nan b then f64_nan
      else if f64_is_infinite a \<or> f64_is_infinite b then
        (if (f64_is_finite a \<and> f64_value a = 0) \<or> (f64_is_finite b \<and> f64_value b = 0) then f64_nan else f64_infinity s)
      else f64_round s (f64_value a * f64_value b))"

definition f64_div :: "f64 \<Rightarrow> f64 \<Rightarrow> f64" where
  "f64_div a b =
     (let s = (f64_sign a \<noteq> f64_sign b) in
      if f64_is_nan a \<or> f64_is_nan b then f64_nan
      else if f64_is_infinite a then (if f64_is_infinite b then f64_nan else f64_infinity s)
      else if f64_is_infinite b then f64_zero s
      else if f64_value b = 0 then (if f64_value a = 0 then f64_nan else f64_infinity s)
      else f64_round s (f64_value a / f64_value b))"

definition f64_floor :: "f64 \<Rightarrow> f64" where
  "f64_floor a = (if f64_is_finite a then f64_round (f64_sign a) (of_int \<lfloor>f64_value a\<rfloor>) else a)"

definition f64_ceil :: "f64 \<Rightarrow> f64" where
  "f64_ceil a = (if f64_is_finite a then f64_round (f64_sign a) (of_int \<lceil>f64_value a\<rceil>) else a)"

text \<open>The order: infinities outside all finite values, nothing comparable with a NaN.\<close>

definition f64_less :: "f64 \<Rightarrow> f64 \<Rightarrow> bool" where
  "f64_less a b \<longleftrightarrow> \<not> f64_is_nan a \<and> \<not> f64_is_nan b \<and>
     (if f64_is_infinite a then f64_sign a \<and> \<not> (f64_is_infinite b \<and> f64_sign b)
      else if f64_is_infinite b then \<not> f64_sign b
      else f64_value a < f64_value b)"

definition f64_eq :: "f64 \<Rightarrow> f64 \<Rightarrow> bool" where
  "f64_eq a b \<longleftrightarrow> \<not> f64_is_nan a \<and> \<not> f64_is_nan b \<and>
     (if f64_is_infinite a \<or> f64_is_infinite b then a = b else f64_value a = f64_value b)"

definition f64_le :: "f64 \<Rightarrow> f64 \<Rightarrow> bool" where
  "f64_le a b \<longleftrightarrow> f64_less a b \<or> f64_eq a b"

text \<open>\<open>i as f64\<close>, and \<open>f as i64\<close>, which truncates towards zero and saturates.\<close>

definition f64_of_int :: "int \<Rightarrow> f64" where
  "f64_of_int i = f64_round False (of_int i)"

definition trunc_rat :: "rat \<Rightarrow> int" where
  "trunc_rat x = (if 0 \<le> x then \<lfloor>x\<rfloor> else \<lceil>x\<rceil>)"

definition f64_to_i64 :: "f64 \<Rightarrow> int" where
  "f64_to_i64 a =
     (if f64_is_nan a then 0
      else if f64_is_infinite a then (if f64_sign a then - (2 ^ 63) else 2 ^ 63 - 1)
      else max (- (2 ^ 63)) (min (2 ^ 63 - 1) (trunc_rat (f64_value a))))"

text \<open>\<open>a.fract() == 0.0\<close>; the fractional part of an infinity is a NaN.\<close>

definition f64_is_integral :: "f64 \<Rightarrow> bool" where
  "f64_is_integral a \<longleftrightarrow> f64_is_finite a \<and> f64_value a = of_int (trunc_rat (f64_value a))"

section \<open>Exact rounding\<close>


lemma log2_bounds: "1 \<le> n \<Longrightarrow> 0 \<le> log2 n \<and> 2 ^ nat (log2 n) \<le> n \<and> n < 2 ^ (nat (log2 n) + 1)"
proof (induction n rule: log2.induct)
  case (1 n)
  show ?case
  proof (cases "n < 2")
    case True
    with 1 show ?thesis by (simp add: log2.simps)
  next
    case False
    then have ih: "0 \<le> log2 (n div 2)" "2 ^ nat (log2 (n div 2)) \<le> n div 2" "n div 2 < 2 ^ (nat (log2 (n div 2)) + 1)"
      using 1 by auto
    then have "nat (log2 n) = Suc (nat (log2 (n div 2)))" "0 \<le> log2 n"
      using False by (simp_all add: log2.simps [of n] nat_add_distrib)
    with ih show ?thesis by (simp; linarith)
  qed
qed

lemma pow2_nat [simp]: "pow2 (int n) = 2 ^ n"
  by (simp add: pow2_def)

lemma pow2_pos [simp]: "0 < pow2 k"
  by (simp add: pow2_def)

lemma pow2_nonzero [simp]: "pow2 k \<noteq> 0"
  by (simp add: pow2_def)

lemma pow2_add: "pow2 (j + k) = pow2 j * pow2 k"
proof -
  have eq: "pow2 i = 2 powi i" for i by (simp add: pow2_def power_int_def inverse_eq_divide power_one_over)
  show ?thesis by (simp add: eq power_int_add)
qed

lemma pow2_minus: "pow2 (- k) = 1 / pow2 k"
  by (simp add: pow2_def)

lemma round_half_even_int [simp]: "round_half_even (of_int i) = i"
  by (simp add: round_half_even_def)


lemma pow2_less_iff: "pow2 j < pow2 k \<longleftrightarrow> j < k"
proof -
  have eq: "pow2 i = 2 powi i" for i by (simp add: pow2_def power_int_def inverse_eq_divide power_one_over)
  have "j < k \<Longrightarrow> pow2 j < pow2 k" for j k unfolding eq by (rule power_int_strict_increasing) simp_all
  then show ?thesis by (metis linorder_less_linear order_less_irrefl order_less_trans)
qed

lemma floor_log2_bounds:
  assumes "1 \<le> x"
  shows "pow2 (log2 \<lfloor>x\<rfloor>) \<le> x" "x < pow2 (log2 \<lfloor>x\<rfloor> + 1)" "0 \<le> log2 \<lfloor>x\<rfloor>"
proof -
  let ?n = "\<lfloor>x\<rfloor>" let ?k = "log2 ?n"
  have n: "1 \<le> ?n" using assms by linarith
  have b: "0 \<le> ?k" "2 ^ nat ?k \<le> ?n" "?n < 2 ^ (nat ?k + 1)" using log2_bounds [OF n] by auto
  then show "0 \<le> ?k" by simp
  have "(of_int (2 ^ nat ?k) :: rat) \<le> of_int ?n" using b(2) by (simp only: of_int_le_iff)
  then have "(of_int (2 ^ nat ?k) :: rat) \<le> x" using of_int_floor_le [of x] by (rule order_trans)
  then show "pow2 ?k \<le> x" using b(1) by (simp add: pow2_def)
  have "x < of_int (?n + 1)" by linarith
  also have "\<dots> \<le> of_int (2 ^ (nat ?k + 1))" using b(3) by (simp only: of_int_le_iff)
  finally show "x < pow2 (?k + 1)" using b(1) by (simp add: pow2_def nat_add_distrib)
qed

lemma binary_exponent_bounds:
  assumes "0 < x"
  shows "pow2 (binary_exponent x) \<le> x \<and> x < pow2 (binary_exponent x + 1)"
proof (cases "1 \<le> x")
  case True
  then show ?thesis using floor_log2_bounds by (simp add: binary_exponent_def)
next
  case False
  let ?k = "log2 \<lfloor>1 / x\<rfloor>"
  have "1 \<le> 1 / x" using False assms by (simp add: field_simps)
  note b = floor_log2_bounds [OF this]
  have le: "x \<le> pow2 (- ?k)" using b(1) assms by (simp add: pow2_minus field_simps)
  have "pow2 (- ?k - 1) = 1 / pow2 (?k + 1)" using pow2_minus [of "?k + 1"] by simp
  also have "\<dots> < x" using b(2) assms pow2_pos [of "?k + 1"] by (simp add: field_simps)
  finally have gt: "pow2 (- ?k - 1) < x" .
  show ?thesis
  proof (cases "x = pow2 (- ?k)")
    case True
    moreover have "pow2 (- ?k) < pow2 (- ?k + 1)" by (simp add: pow2_less_iff)
    ultimately show ?thesis using False by (simp add: binary_exponent_def Let_def)
  next
    case neq: False
    then show ?thesis using le gt False by (simp add: binary_exponent_def Let_def)
  qed
qed

lemma binary_exponent_unique:
  assumes "pow2 k \<le> x" "x < pow2 (k + 1)"
  shows "binary_exponent x = k"
proof -
  have "0 < x" using assms(1) pow2_pos [of k] by linarith
  note b = binary_exponent_bounds [OF this]
  have "pow2 k < pow2 (binary_exponent x + 1)" "pow2 (binary_exponent x) < pow2 (k + 1)"
    using b assms by linarith+
  then show ?thesis by (simp add: pow2_less_iff)
qed


lemma f64_pack_fields:
  assumes "0 \<le> e" "e < 2048" "0 \<le> f" "f < 2 ^ 52"
  shows "f64_exponent (f64_pack s (e * 2 ^ 52 + f)) = e" "f64_fraction (f64_pack s (e * 2 ^ 52 + f)) = f"
    "f64_sign (f64_pack s (e * 2 ^ 52 + f)) = s"
proof -
  let ?x = "e * 2 ^ 52 + f" let ?y = "?x + (if s then 2 ^ 63 else 0)"
  have x: "0 \<le> ?x" "?x < 2 ^ 63" using assms by simp_all
  then have "0 \<le> ?y" "?y < 2 ^ 64" by (cases s; simp)+
  then have "uint (f64_pack s ?x) = ?y" unfolding f64_pack_def uint_word_of_int by simp
  moreover have y: "?y = f + 2 ^ 52 * (e + (if s then 2048 else 0))" by simp
  moreover have "?y div 2 ^ 52 = e + (if s then 2048 else 0)"
    unfolding y using assms(3,4) by (subst div_mult_self2) simp_all
  moreover have "?y mod 2 ^ 52 = f" unfolding y using assms(3,4) by (simp only: mod_mult_self2 mod_pos_pos_trivial)
  ultimately show "f64_exponent (f64_pack s ?x) = e" "f64_fraction (f64_pack s ?x) = f" "f64_sign (f64_pack s ?x) = s"
    using x assms(1,2) by (simp_all add: f64_exponent_def f64_fraction_def f64_sign_def)
qed

text \<open>A number with a 53-bit significand within the exponent range is rounded to itself.\<close>

lemma f64_round_exact:
  assumes "\<bar>x\<bar> = of_int m * pow2 q" "2 ^ 52 \<le> m" "m < 2 ^ 53" "- 1074 \<le> q" "q \<le> 971"
  shows "f64_round z x = f64_pack (x < 0) ((q + 1075) * 2 ^ 52 + (m - 2 ^ 52))"
proof -
  have "(of_int (2 ^ 52) :: rat) \<le> of_int m" "(of_int m :: rat) < of_int (2 ^ 53)"
    using assms(2,3) by (simp_all only: of_int_le_iff of_int_less_iff)
  then have "pow2 (52 + q) \<le> \<bar>x\<bar>" "\<bar>x\<bar> < pow2 (52 + q + 1)"
    using assms(1) pow2_add [of 52 q] pow2_add [of 53 q] pow2_nat [of 52] pow2_nat [of 53] pow2_pos [of q]
    by (simp_all add: add_ac)
  then have e: "binary_exponent \<bar>x\<bar> = 52 + q" by (rule binary_exponent_unique)
  have "0 < of_int m * pow2 q" using assms(2) by (intro mult_pos_pos) simp_all
  then have "x \<noteq> 0" using assms(1) by auto
  moreover have "\<bar>x\<bar> / pow2 q = of_int m" using assms(1) pow2_pos [of q] by (simp add: field_simps)
  ultimately show ?thesis using assms(2-5) e by (simp add: f64_round_def Let_def)
qed

lemma f64_value_round_exact:
  assumes "\<bar>x\<bar> = of_int m * pow2 q" "2 ^ 52 \<le> m" "m < 2 ^ 53" "- 1074 \<le> q" "q \<le> 971"
  shows "f64_value (f64_round z x) = x" "f64_is_finite (f64_round z x)"
proof -
  note fields = f64_pack_fields [of "q + 1075" "m - 2 ^ 52" "x < 0"]
  note r = f64_round_exact [OF assms]
  show "f64_is_finite (f64_round z x)" using fields assms(2-5) by (simp add: r f64_is_finite_def)
  have "f64_magnitude (f64_round z x) = of_int m * pow2 q" using fields assms(2-5) by (simp add: r f64_magnitude_def)
  with assms(1) fields assms(2-5) show "f64_value (f64_round z x) = x" by (simp add: f64_value_def r abs_if split: if_splits)
qed

lemma f64_zero_value [simp]: "f64_value (f64_zero s) = 0" "f64_is_finite (f64_zero s)"
  using f64_pack_fields [of 0 0 s] by (cases s; simp add: f64_zero_def f64_value_def f64_magnitude_def f64_is_finite_def)+

lemma int_normalised:
  assumes "1 \<le> n" "n \<le> 2 ^ 53"
  obtains m q where "(of_int n :: rat) = of_int m * pow2 q" "2 ^ 52 \<le> m" "m < (2::int) ^ 53" "- 52 \<le> q" "q \<le> 1"
proof (cases "n = 2 ^ 53")
  case True
  then show ?thesis using that [of "2 ^ 52" 1] by (simp add: pow2_def)
next
  case False
  let ?k = "nat (log2 n)"
  have b: "2 ^ ?k \<le> n" "n < 2 ^ (?k + 1)" "0 \<le> log2 n" using log2_bounds [OF assms(1)] by auto
  have "(2::int) ^ ?k < 2 ^ 53" using b(1) False assms(2) by linarith
  then have k: "?k \<le> 52" using power_strict_increasing_iff [of "2::int" ?k 53] by simp
  let ?m = "n * 2 ^ (52 - ?k)"
  have split: "(2::int) ^ 52 = 2 ^ ?k * 2 ^ (52 - ?k)" "(2::int) ^ 53 = 2 ^ (?k + 1) * 2 ^ (52 - ?k)"
    using k by (simp_all flip: power_add)
  have "(of_int n :: rat) = of_int ?m * pow2 (- int (52 - ?k))"
    by (simp only: pow2_minus pow2_nat) simp
  moreover have "2 ^ 52 \<le> ?m" using b(1) by (simp only: split mult_right_mono zero_le_power zero_le_numeral)
  moreover have "?m < 2 ^ 53" using b(2) by (simp only: split mult_strict_right_mono zero_less_power zero_less_numeral)
  ultimately show ?thesis by (rule that) simp_all
qed

lemma f64_of_int_exact:
  assumes "\<bar>i\<bar> \<le> 2 ^ 53"
  shows "f64_value (f64_of_int i) = of_int i" "f64_is_finite (f64_of_int i)"
proof -
  have "f64_value (f64_round z (of_int i)) = of_int i \<and> f64_is_finite (f64_round z (of_int i))" for z
  proof (cases "i = 0")
    case True
    then show ?thesis by (simp add: f64_round_def)
  next
    case False
    then have "1 \<le> \<bar>i\<bar>" by simp
    from int_normalised [OF this assms] obtain m q where n: "(of_int \<bar>i\<bar> :: rat) = of_int m * pow2 q"
      "2 ^ 52 \<le> m" "m < (2::int) ^ 53" "- 52 \<le> q" "q \<le> 1" .
    then show ?thesis using f64_value_round_exact [of "of_int i" m q z] by simp
  qed
  then show "f64_value (f64_of_int i) = of_int i" "f64_is_finite (f64_of_int i)" by (simp_all add: f64_of_int_def)
qed

section \<open>Exact arithmetic\<close>

lemma f64_le_finite: "f64_is_finite a \<Longrightarrow> f64_is_finite b \<Longrightarrow> f64_le a b \<longleftrightarrow> f64_value a \<le> f64_value b"
  by (auto simp: f64_le_def f64_less_def f64_eq_def f64_is_finite_def f64_is_nan_def f64_is_infinite_def)

lemma f64_value_exact:
  assumes "\<bar>x\<bar> = of_int m * pow2 q" "2 ^ 52 \<le> m" "m < 2 ^ 53" "0 \<le> q" "q \<le> 971"
  shows "f64_value (f64_round z x) = x \<and> f64_is_finite (f64_round z x)"
  using f64_value_round_exact [of x m q z] assms by simp

lemma lower_limit: "f64_value (f64_of_int (- (2 ^ 63))) = - (2 ^ 63)" "f64_is_finite (f64_of_int (- (2 ^ 63)))"
  using f64_value_exact [of "- (2 ^ 63)" "2 ^ 52" 11 False] by (simp_all add: f64_of_int_def pow2_def)

lemma upper_limit: "f64_value (f64_of_int (2 ^ 63 - 1)) = 2 ^ 63" "f64_is_finite (f64_of_int (2 ^ 63 - 1))"
proof -
  have "binary_exponent (9223372036854775807) = 62"
    by (rule binary_exponent_unique) (simp_all add: pow2_def)
  moreover have "\<lfloor>9223372036854775807 / 1024 :: rat\<rfloor> = 9007199254740991"
    by (simp add: floor_eq_iff)
  ultimately have "f64_of_int (2 ^ 63 - 1) = f64_pack False ((11 + 1075) * 2 ^ 52 + 0)"
    by (simp add: f64_of_int_def f64_round_def Let_def pow2_def round_half_even_def)
  moreover note f64_pack_fields [of "11 + 1075" 0 False]
  ultimately show "f64_value (f64_of_int (2 ^ 63 - 1)) = 2 ^ 63" "f64_is_finite (f64_of_int (2 ^ 63 - 1))"
    by (simp_all add: f64_value_def f64_magnitude_def f64_is_finite_def pow2_def)
qed

lemma f64_fields: "uint w mod 2 ^ 63 = f64_exponent w * 2 ^ 52 + f64_fraction w"
  using mod_mult2_eq' [of "uint w" "2 ^ 52" "2 ^ 11"] by (simp add: f64_exponent_def f64_fraction_def)

lemma f64_neg_value:
  assumes "f64_is_finite f"
  shows "f64_is_finite (f64_neg f)" "f64_value (f64_neg f) = - f64_value f"
proof -
  have "0 \<le> f64_exponent f" "f64_exponent f < 2048" "0 \<le> f64_fraction f" "f64_fraction f < 2 ^ 52"
    by (simp_all add: f64_exponent_def f64_fraction_def)
  then have fields: "f64_exponent (f64_neg f) = f64_exponent f" "f64_fraction (f64_neg f) = f64_fraction f"
    "f64_sign (f64_neg f) = (\<not> f64_sign f)"
    unfolding f64_neg_def f64_fields by (rule f64_pack_fields)+
  show "f64_is_finite (f64_neg f)" using assms fields by (simp add: f64_is_finite_def)
  show "f64_value (f64_neg f) = - f64_value f" using fields by (simp add: f64_value_def f64_magnitude_def)
qed

text \<open>Rounding a whole number of at most 53 bits is exact, whichever way it was computed.\<close>

lemma round_int_exact:
  assumes "\<bar>i\<bar> \<le> 2 ^ 53"
  shows "f64_value (f64_round z (of_int i)) = of_int i" "f64_is_finite (f64_round z (of_int i))"
  using f64_of_int_exact [OF assms] by (auto simp: f64_of_int_def f64_round_def)

lemma finite_not_special: "f64_is_finite f \<Longrightarrow> \<not> f64_is_nan f \<and> \<not> f64_is_infinite f"
  by (simp add: f64_is_finite_def f64_is_nan_def f64_is_infinite_def)

lemma f64_int_arithmetic:
  assumes "\<bar>i\<bar> \<le> 2 ^ 53" "\<bar>j\<bar> \<le> 2 ^ 53"
  shows "\<bar>i + j\<bar> \<le> 2 ^ 53 \<Longrightarrow> f64_is_finite (f64_add (f64_of_int i) (f64_of_int j)) \<and> f64_value (f64_add (f64_of_int i) (f64_of_int j)) = of_int (i + j)"
    "\<bar>i - j\<bar> \<le> 2 ^ 53 \<Longrightarrow> f64_is_finite (f64_sub (f64_of_int i) (f64_of_int j)) \<and> f64_value (f64_sub (f64_of_int i) (f64_of_int j)) = of_int (i - j)"
    "\<bar>i * j\<bar> \<le> 2 ^ 53 \<Longrightarrow> f64_is_finite (f64_mul (f64_of_int i) (f64_of_int j)) \<and> f64_value (f64_mul (f64_of_int i) (f64_of_int j)) = of_int (i * j)"
proof -
  note i = f64_of_int_exact [OF assms(1)] and j = f64_of_int_exact [OF assms(2)]
  note n = f64_neg_value [OF j(2)]
  note special = finite_not_special [OF i(2)] finite_not_special [OF j(2)] finite_not_special [OF n(1)]
  show "\<bar>i + j\<bar> \<le> 2 ^ 53 \<Longrightarrow> f64_is_finite (f64_add (f64_of_int i) (f64_of_int j)) \<and> f64_value (f64_add (f64_of_int i) (f64_of_int j)) = of_int (i + j)"
    using round_int_exact [of "i + j"] i j special by (simp add: f64_add_def)
  show "\<bar>i - j\<bar> \<le> 2 ^ 53 \<Longrightarrow> f64_is_finite (f64_sub (f64_of_int i) (f64_of_int j)) \<and> f64_value (f64_sub (f64_of_int i) (f64_of_int j)) = of_int (i - j)"
    using round_int_exact [of "i - j"] i j n special by (simp add: f64_sub_def f64_add_def)
  show "\<bar>i * j\<bar> \<le> 2 ^ 53 \<Longrightarrow> f64_is_finite (f64_mul (f64_of_int i) (f64_of_int j)) \<and> f64_value (f64_mul (f64_of_int i) (f64_of_int j)) = of_int (i * j)"
    using round_int_exact [of "i * j"] i j special by (simp add: f64_mul_def Let_def)
qed

end
