(* ===== verification/Rust_Text.thy ===== *)
theory Rust_Text
  imports Prelude
begin

text \<open>
  Operations of the Rust standard library on texts that the engines share, beyond those of \<open>Prelude\<close>: prefixes,
  suffixes, substrings and ASCII classes, with the lemmas on them.
\<close>

section \<open>The operations\<close>

definition strip_prefix_str :: "string \<Rightarrow> string \<Rightarrow> string option" where
  "strip_prefix_str pat s = (if str_starts_with pat s then Some (drop (length pat) s) else None)"

definition strip_suffix_str :: "string \<Rightarrow> string \<Rightarrow> string option" where
  "strip_suffix_str pat s =
     (if str_starts_with (rev pat) (rev s) then Some (take (length s - length pat) s) else None)"

definition str_trim_start :: "string \<Rightarrow> string" where
  "str_trim_start s = dropWhile is_whitespace s"

definition str_contains :: "string \<Rightarrow> string \<Rightarrow> bool" where
  "str_contains pat s \<longleftrightarrow> str_find_sub pat s \<noteq> None"

definition split_once :: "string \<Rightarrow> string \<Rightarrow> (string \<times> string) option" where
  "split_once pat s = map_option (\<lambda>i. (take i s, drop (i + length pat) s)) (str_find_sub pat s)"

definition is_ascii_alphabetic :: "char \<Rightarrow> bool" where
  "is_ascii_alphabetic c \<longleftrightarrow> (let n = (of_char c :: nat) in (65 \<le> n \<and> n \<le> 90) \<or> (97 \<le> n \<and> n \<le> 122))"

definition is_ascii_word :: "char \<Rightarrow> bool" where
  "is_ascii_word c \<longleftrightarrow> is_ascii_alphabetic c \<or> is_ascii_digit c \<or> c = CHR ''_''"

definition in_quotes :: "string \<Rightarrow> string" where
  "in_quotes s = [CHR 0x27] @ s @ [CHR 0x27]"

fun join_with :: "string \<Rightarrow> string list \<Rightarrow> string" where
  "join_with sep [] = []"
| "join_with sep [x] = x"
| "join_with sep (x # xs) = x @ sep @ join_with sep xs"

text \<open>The value of a text of digits, as the integer types read it before their range check.\<close>

definition decimal_value :: "string \<Rightarrow> int" where
  "decimal_value ds = foldl (\<lambda>v c. v * 10 + int (digit_val c)) 0 ds"

section \<open>Prefixes, suffixes and substrings\<close>

lemma str_starts_with_iff: "str_starts_with p s \<longleftrightarrow> (\<exists>r. s = p @ r)"
  by (induction p s rule: str_starts_with.induct) auto

lemma str_contains_Nil [simp]: "str_contains pat [] \<longleftrightarrow> pat = []"
  by (simp add: str_contains_def)

lemma str_contains_Cons: "str_contains pat (c # s) \<longleftrightarrow> str_starts_with pat (c # s) \<or> str_contains pat s"
  by (simp add: str_contains_def)

lemma str_contains_iff: "str_contains pat s \<longleftrightarrow> (\<exists>u v. s = u @ pat @ v)"
proof (induction s)
  case (Cons c s)
  show ?case
  proof
    assume "str_contains pat (c # s)"
    then show "\<exists>u v. c # s = u @ pat @ v"
      unfolding str_contains_Cons str_starts_with_iff Cons.IH by (metis append_Cons append_Nil)
  next
    assume "\<exists>u v. c # s = u @ pat @ v"
    then obtain u v where "c # s = u @ pat @ v" by blast
    then show "str_contains pat (c # s)"
      unfolding str_contains_Cons str_starts_with_iff Cons.IH by (cases u) auto
  qed
qed simp

lemma str_contains_sep:
  assumes "c \<notin> set pat" "pat \<noteq> []"
  shows "str_contains pat (a @ c # b) \<longleftrightarrow> str_contains pat a \<or> str_contains pat b"
proof
  assume "str_contains pat (a @ c # b)"
  then obtain u v where e: "a @ c # b = u @ pat @ v" unfolding str_contains_iff by blast
  then consider w where "a = u @ w" "w @ c # b = pat @ v" | w where "a @ w = u" "c # b = w @ pat @ v"
    by (auto simp: append_eq_append_conv2)
  then show "str_contains pat a \<or> str_contains pat b"
  proof cases
    case 1
    then obtain z where "w = pat @ z \<or> (w @ z = pat \<and> c # b = z @ v)"
      by (auto simp: append_eq_append_conv2)
    then show ?thesis using 1 assms by (cases z) (auto simp: str_contains_iff; metis append.right_neutral)+
  next
    case 2
    then show ?thesis using assms by (cases w; cases pat) (auto simp: str_contains_iff)
  qed
next
  assume "str_contains pat a \<or> str_contains pat b"
  then show "str_contains pat (a @ c # b)"
    unfolding str_contains_iff by (metis append.assoc append_Cons)
qed

lemma str_contains_not_in: "pat \<noteq> [] \<Longrightarrow> hd pat \<notin> set s \<Longrightarrow> \<not> str_contains pat s"
  by (cases pat) (auto simp: str_contains_iff)

lemma str_starts_with_hd: "s \<noteq> [] \<Longrightarrow> hd s \<noteq> c \<Longrightarrow> \<not> str_starts_with (c # cs) s"
  by (cases s) auto

lemma strip_suffix_simps [simp]:
  "strip_suffix_str [c] [] = None"
  "strip_suffix_str [c] [d] = (if c = d then Some [] else None)"
  by (simp_all add: strip_suffix_str_def)

lemma strip_suffix_snoc: "strip_suffix_str [c] (s @ [d]) = (if c = d then Some s else None)"
  by (simp add: strip_suffix_str_def)

lemma strip_suffix_append [simp]:
  assumes "s \<noteq> []"
  shows "strip_suffix_str [c] (a @ s) = map_option ((@) a) (strip_suffix_str [c] s)"
  using assms by (cases s rule: rev_cases) (simp_all add: strip_suffix_snoc flip: append_assoc)

lemma strip_suffix_Cons [simp]:
  "strip_suffix_str [c] (x # y # s) = map_option ((#) x) (strip_suffix_str [c] (y # s))"
  using strip_suffix_append [of "y # s" c "[x]"] by (simp del: strip_suffix_append add: fun_eq_iff cong: map_option_cong)

lemma strip_suffix_Cons_append [simp]:
  assumes "s \<noteq> []"
  shows "strip_suffix_str [c] (x # a @ s) = map_option (\<lambda>r. x # a @ r) (strip_suffix_str [c] s)"
  using strip_suffix_append [OF assms, of c "x # a"] by (simp del: strip_suffix_append cong: map_option_cong)

lemma split_once_dots:
  "\<not> str_contains ''..'' a \<Longrightarrow> a = [] \<or> last a \<noteq> CHR ''.'' \<Longrightarrow> split_once ''..'' (a @ CHR ''.'' # CHR ''.'' # b) = Some (a, b)"
proof -
  have "\<not> str_contains ''..'' a \<Longrightarrow> a = [] \<or> last a \<noteq> CHR ''.''
      \<Longrightarrow> str_find_sub ''..'' (a @ CHR ''.'' # CHR ''.'' # b) = Some (length a)"
  proof (induction a)
    case (Cons c a)
    then show ?case by (cases a) (auto simp: str_contains_Cons split: if_splits)
  qed simp
  then show "\<not> str_contains ''..'' a \<Longrightarrow> a = [] \<or> last a \<noteq> CHR ''.'' \<Longrightarrow> ?thesis"
    by (simp add: split_once_def)
qed

lemma length_str_trim: "length (str_trim s) \<le> length s"
proof -
  have "length (str_trim s) \<le> length (dropWhile is_whitespace s)"
    by (simp add: str_trim_def) (metis length_dropWhile_le length_rev)
  also have "\<dots> \<le> length s" by (rule length_dropWhile_le)
  finally show ?thesis .
qed

lemma strip_prefix_length: "strip_prefix_str p s = Some r \<Longrightarrow> length r + length p = length s"
proof -
  have "str_starts_with p s \<Longrightarrow> length p \<le> length s" for p s
    by (induction p s rule: str_starts_with.induct) auto
  then show "strip_prefix_str p s = Some r \<Longrightarrow> length r + length p = length s"
    by (auto simp: strip_prefix_str_def split: if_splits)
qed

end
