(* ===== verification/Json_Access.thy ===== *)
theory Json_Access
  imports Float64 Json_Value Rust_Text
begin

text \<open>
  The methods of \<open>serde_json::Value\<close> and \<open>Number\<close> that the decision and case engines call: accessors, conversions from
  numbers, the derived equality and insertion into an object.
\<close>

section \<open>Accessors\<close>

fun as_bool :: "json \<Rightarrow> bool option" where
  "as_bool (JsonBool b) = Some b"
| "as_bool _ = None"

fun as_array :: "json \<Rightarrow> json list option" where
  "as_array (JsonArray xs) = Some xs"
| "as_array _ = None"

fun as_str :: "json \<Rightarrow> string option" where
  "as_str (JsonString s) = Some s"
| "as_str _ = None"

fun as_f64 :: "json \<Rightarrow> f64 option" where
  "as_f64 (JsonNumber (PosInt n)) = Some (f64_of_int (uint n))"
| "as_f64 (JsonNumber (NegInt n)) = Some (f64_of_int (sint n))"
| "as_f64 (JsonNumber (JsonFloat f)) = Some f"
| "as_f64 _ = None"

fun json_get :: "string \<Rightarrow> json \<Rightarrow> json option" where
  "json_get k (JsonObject entries) = map_of entries k"
| "json_get k _ = None"

text \<open>Values built from numbers: a float that is not finite becomes null.\<close>

definition json_of_f64 :: "f64 \<Rightarrow> json" where
  "json_of_f64 f = (if f64_is_finite f then JsonNumber (JsonFloat f) else JsonNull)"

definition json_of_i64 :: "int \<Rightarrow> json" where
  "json_of_i64 i = JsonNumber (if i < 0 then NegInt (word_of_int i) else PosInt (word_of_int i))"

definition json_of_usize :: "nat \<Rightarrow> json" where
  "json_of_usize n = JsonNumber (PosInt (word_of_nat n))"

text \<open>The derived equality: numbers of different representation differ, floats compare as floats.\<close>

fun json_eq :: "json \<Rightarrow> json \<Rightarrow> bool"
and json_list_eq :: "json list \<Rightarrow> json list \<Rightarrow> bool"
and json_object_eq :: "(string \<times> json) list \<Rightarrow> (string \<times> json) list \<Rightarrow> bool" where
  "json_eq JsonNull JsonNull = True"
| "json_eq (JsonBool a) (JsonBool b) = (a = b)"
| "json_eq (JsonNumber (JsonFloat a)) (JsonNumber (JsonFloat b)) = f64_eq a b"
| "json_eq (JsonNumber (PosInt a)) (JsonNumber (PosInt b)) = (a = b)"
| "json_eq (JsonNumber (NegInt a)) (JsonNumber (NegInt b)) = (a = b)"
| "json_eq (JsonString a) (JsonString b) = (a = b)"
| "json_eq (JsonArray xs) (JsonArray ys) = json_list_eq xs ys"
| "json_eq (JsonObject xs) (JsonObject ys) = json_object_eq xs ys"
| "json_eq _ _ = False"
| "json_list_eq [] [] = True"
| "json_list_eq (x # xs) (y # ys) = (json_eq x y \<and> json_list_eq xs ys)"
| "json_list_eq _ _ = False"
| "json_object_eq [] [] = True"
| "json_object_eq ((k, x) # xs) ((l, y) # ys) = (k = l \<and> json_eq x y \<and> json_object_eq xs ys)"
| "json_object_eq _ _ = False"

text \<open>\<open>Vec::contains\<close>, and \<open>Map::insert\<close> on the entries in key order.\<close>

definition json_contains :: "json list \<Rightarrow> json \<Rightarrow> bool" where
  "json_contains xs v = list_ex (\<lambda>x. json_eq x v) xs"

fun string_less :: "string \<Rightarrow> string \<Rightarrow> bool" where
  "string_less [] [] = False"
| "string_less [] (d # t) = True"
| "string_less (c # s) [] = False"
| "string_less (c # s) (d # t) =
     ((of_char c :: nat) < of_char d \<or> (c = d \<and> string_less s t))"

fun object_insert :: "string \<Rightarrow> json \<Rightarrow> (string \<times> json) list \<Rightarrow> (string \<times> json) list" where
  "object_insert k v [] = [(k, v)]"
| "object_insert k v ((l, w) # entries) =
     (if k = l then (k, v) # entries
      else if string_less k l then (k, v) # (l, w) # entries
      else (l, w) # object_insert k v entries)"

section \<open>Numbers\<close>

fun is_number :: "json \<Rightarrow> bool" where
  "is_number (JsonNumber _) = True"
| "is_number _ = False"

fun number_as_i64 :: "json_number \<Rightarrow> int option" where
  "number_as_i64 (PosInt n) = (if uint n < 2 ^ 63 then Some (uint n) else None)"
| "number_as_i64 (NegInt n) = Some (sint n)"
| "number_as_i64 (JsonFloat _) = None"

fun number_as_u64 :: "json_number \<Rightarrow> int option" where
  "number_as_u64 (PosInt n) = Some (uint n)"
| "number_as_u64 _ = None"

text \<open>\<open>str::parse::<f64>\<close> of a text of digits and dots that begins with a digit.\<close>

definition parse_f64 :: "string \<Rightarrow> f64 option" where
  "parse_f64 s =
     (case dropWhile is_ascii_digit s of
        [] \<Rightarrow> Some (f64_round False (of_int (decimal_value s)))
      | c # fraction \<Rightarrow>
          if c = CHR ''.'' \<and> list_all is_ascii_digit fraction
          then Some (f64_round False (of_int (decimal_value (takeWhile is_ascii_digit s @ fraction)) / 10 ^ length fraction))
          else None)"

end
