(* ===== verification/Feel_Syntax.thy ===== *)
theory Feel_Syntax
  imports Json_Access
begin

text \<open>
  Tokens, syntax trees and the lexer of the FEEL expression language
  (\<open>flowable-dmn-engine/src/feel/token.rs\<close>, \<open>ast.rs\<close>, \<open>lexer.rs\<close>). A source text is a list of characters
  up to U+00FF; positions count bytes of its UTF-8 encoding, as \<open>char_indices\<close> does.
\<close>

text \<open>
  The errors of the engine, and \<open>DmnPanic\<close> for the outcome of a call that panics, which is no value of the source's
  \<open>DmnError\<close>.
\<close>

datatype dmn_error =
    DmnValidation string
  | DmnUnsupportedModel string string
  | DmnNotFound string
  | DmnExecution string
  | DmnStorage string
  | DmnPanic string

section \<open>Tokens and expressions\<close>

datatype token_kind =
    TNumber f64
  | TString string
  | TName string
  | TNull | TTrue | TFalse | TIf | TThen | TElse | TFor | TReturn | TSome | TEvery | TSatisfies | TIn
  | TAnd | TOr | TNot | TPlus | TMinus | TStar | TSlash | TPower | TEqual | TNotEqual
  | TLess | TLessEqual | TGreater | TGreaterEqual | TLParen | TRParen | TLBracket | TRBracket
  | TLBrace | TRBrace | TComma | TColon | TDot | TDotDot | TEof

record token =
  token_kind :: token_kind
  token_start :: nat
  token_end :: nat

datatype unary_op = Negate | Not

datatype binary_op =
    Add | Subtract | Multiply | Divide | Power | And | Or
  | Equal | NotEqual | Less | LessEqual | Greater | GreaterEqual | In

datatype expr =
    ENull
  | EBool bool
  | ENumber f64
  | EString string
  | EName string
  | EList "expr list"
  | EContext "(string \<times> expr) list"
  | ERange expr expr bool bool
  | EUnary unary_op expr
  | EBinary binary_op expr expr
  | EIf expr expr expr
  | EPath expr string
  | EFilter expr expr
  | ECall string "expr list"
  | EFor string expr expr
  | EQuantified bool string expr expr

section \<open>Character classes\<close>

definition char_len_utf8 :: "char \<Rightarrow> nat" where
  "char_len_utf8 c = (if (of_char c :: nat) < 128 then 1 else 2)"

definition str_len :: "string \<Rightarrow> nat" where
  "str_len s = sum_list (map char_len_utf8 s)"

text \<open>\<open>char::is_alphabetic\<close> and \<open>char::is_alphanumeric\<close> below U+0100.\<close>

definition is_alphabetic :: "char \<Rightarrow> bool" where
  "is_alphabetic c \<longleftrightarrow> (let n = (of_char c :: nat) in
     (65 \<le> n \<and> n \<le> 90) \<or> (97 \<le> n \<and> n \<le> 122) \<or> n = 170 \<or> n = 181 \<or> n = 186
     \<or> (192 \<le> n \<and> n \<noteq> 215 \<and> n \<noteq> 247))"

definition is_alphanumeric :: "char \<Rightarrow> bool" where
  "is_alphanumeric c \<longleftrightarrow> is_alphabetic c \<or> is_ascii_digit c
     \<or> (of_char c :: nat) \<in> {178, 179, 185, 188, 189, 190}"

definition is_name_start :: "char \<Rightarrow> bool" where
  "is_name_start c \<longleftrightarrow> c = CHR ''_'' \<or> is_alphabetic c"

definition is_name_continue :: "char \<Rightarrow> bool" where
  "is_name_continue c \<longleftrightarrow> c = CHR ''_'' \<or> c = CHR ''-'' \<or> is_alphanumeric c"

section \<open>The lexer\<close>

text \<open>
  The body of a string literal after its opening quote: the text and the unread rest. An escape names
  a line feed, carriage return or tab, or stands for the escaped character itself.
\<close>

definition unescape :: "char \<Rightarrow> char" where
  "unescape c = (if c = CHR ''n'' then CHR 0x0A else if c = CHR ''r'' then CHR 0x0D
     else if c = CHR ''t'' then CHR 0x09 else c)"

fun lex_string :: "nat \<Rightarrow> char \<Rightarrow> string \<Rightarrow> dmn_error + string \<times> string" where
  "lex_string start q [] = Inl (DmnValidation (''unterminated FEEL string at byte '' @ show_nat start))"
| "lex_string start q (c # s) =
     (if c = q then Inr ([], s)
      else if c = CHR 0x5C then
        (case s of
           [] \<Rightarrow> Inl (DmnValidation ''unterminated FEEL string escape'')
         | escaped # s' \<Rightarrow> rbind (lex_string start q s') (\<lambda>(v, r). Inr (unescape escaped # v, r)))
      else rbind (lex_string start q s) (\<lambda>(v, r). Inr (c # v, r)))"

text \<open>The digits and dots of a number after its first digit, up to a range operator.\<close>

fun number_span :: "string \<Rightarrow> string \<times> string" where
  "number_span [] = ([], [])"
| "number_span (c # s) =
     (if is_ascii_digit c \<or> c = CHR ''.'' then
        (if c = CHR ''.'' \<and> s \<noteq> [] \<and> hd s = CHR ''.'' then ([], c # s)
         else (case number_span s of (v, r) \<Rightarrow> (c # v, r)))
      else ([], c # s))"

definition keyword :: "string \<Rightarrow> token_kind" where
  "keyword word =
     (let w = to_ascii_lowercase word in
      if w = ''null'' then TNull else if w = ''true'' then TTrue else if w = ''false'' then TFalse
      else if w = ''if'' then TIf else if w = ''then'' then TThen else if w = ''else'' then TElse
      else if w = ''for'' then TFor else if w = ''return'' then TReturn else if w = ''some'' then TSome
      else if w = ''every'' then TEvery else if w = ''satisfies'' then TSatisfies else if w = ''in'' then TIn
      else if w = ''and'' then TAnd else if w = ''or'' then TOr else if w = ''not'' then TNot
      else TName word)"

text \<open>The punctuation that begins a text, with its length.\<close>

definition punctuation :: "char \<Rightarrow> string \<Rightarrow> (token_kind \<times> nat) option" where
  "punctuation c s =
     (if c = CHR ''('' then Some (TLParen, 1) else if c = CHR '')'' then Some (TRParen, 1)
      else if c = CHR ''['' then Some (TLBracket, 1) else if c = CHR '']'' then Some (TRBracket, 1)
      else if c = CHR ''{'' then Some (TLBrace, 1) else if c = CHR ''}'' then Some (TRBrace, 1)
      else if c = CHR '','' then Some (TComma, 1) else if c = CHR '':'' then Some (TColon, 1)
      else if c = CHR ''+'' then Some (TPlus, 1) else if c = CHR ''-'' then Some (TMinus, 1)
      else if c = CHR ''*'' then (if s \<noteq> [] \<and> hd s = CHR ''*'' then Some (TPower, 2) else Some (TStar, 1))
      else if c = CHR ''/'' then Some (TSlash, 1)
      else if c = CHR ''.'' then (if s \<noteq> [] \<and> hd s = CHR ''.'' then Some (TDotDot, 2) else Some (TDot, 1))
      else if c = CHR ''='' then Some (TEqual, 1)
      else if c = CHR ''!'' then (if s \<noteq> [] \<and> hd s = CHR ''='' then Some (TNotEqual, 2) else None)
      else if c = CHR ''<'' then (if s \<noteq> [] \<and> hd s = CHR ''='' then Some (TLessEqual, 2) else Some (TLess, 1))
      else if c = CHR ''>'' then (if s \<noteq> [] \<and> hd s = CHR ''='' then Some (TGreaterEqual, 2) else Some (TGreater, 1))
      else None)"

text \<open>One token at the beginning of a text that is neither empty nor led by white space.\<close>

definition lex_token :: "nat \<Rightarrow> char \<Rightarrow> string \<Rightarrow> dmn_error + token_kind \<times> string" where
  "lex_token start c s =
     (case punctuation c s of
        Some (k, n) \<Rightarrow> Inr (k, drop (n - 1) s)
      | None \<Rightarrow>
          if c = CHR 0x22 \<or> c = CHR 0x27 then
            rbind (lex_string start c s) (\<lambda>(v, r). Inr (TString v, r))
          else if is_ascii_digit c then
            (case number_span s of (ds, r) \<Rightarrow>
               (case parse_f64 (c # ds) of
                  Some v \<Rightarrow> Inr (TNumber v, r)
                | None \<Rightarrow> Inl (DmnValidation (''invalid FEEL number at byte '' @ show_nat start))))
          else if is_name_start c then
            Inr (keyword (c # takeWhile is_name_continue s), dropWhile is_name_continue s)
          else Inl (DmnValidation (''unexpected FEEL character '' @ [CHR 0x27, c, CHR 0x27] @ '' at byte '' @ show_nat start)))"

lemma lex_string_rest: "lex_string start q s = Inr (v, r) \<Longrightarrow> length r < length s"
proof (induction start q s arbitrary: v r rule: lex_string.induct)
  case (2 start q c s)
  then show ?case by (fastforce split: if_splits list.splits)
qed simp

lemma number_span_rest: "length (snd (number_span s)) \<le> length s"
  by (induction s) (auto split: prod.splits)

lemma lex_token_rest: "lex_token start c s = Inr (k, r) \<Longrightarrow> length r \<le> length s"
  using number_span_rest [of s]
  by (auto simp: lex_token_def length_dropWhile_le split: option.splits if_splits prod.splits dest!: lex_string_rest)

function (sequential) lex_loop :: "nat \<Rightarrow> string \<Rightarrow> dmn_error + token list" where
  "lex_loop start [] = Inr [\<lparr>token_kind = TEof, token_start = start, token_end = start\<rparr>]"
| "lex_loop start (c # s) =
     (if is_whitespace c then lex_loop (start + char_len_utf8 c) s
      else case lex_token start c s of
             Inl e \<Rightarrow> Inl e
           | Inr (k, r) \<Rightarrow>
               (let stop = start + str_len (take (length (c # s) - length r) (c # s))
                in rbind (lex_loop stop r) (\<lambda>ts. Inr (\<lparr>token_kind = k, token_start = start, token_end = stop\<rparr> # ts))))"
  by pat_completeness auto
termination
  by (relation "measure (\<lambda>(_, s). length s)") (auto simp: less_Suc_eq_le dest: lex_token_rest)

definition lex :: "string \<Rightarrow> dmn_error + token list" where
  "lex source = lex_loop 0 source"

end
