(* ===== verification/Feel_Parser.thy ===== *)
theory Feel_Parser
  imports Feel_Syntax
begin

text \<open>
  The recursive-descent parser of \<open>flowable-dmn-engine/src/feel/parser.rs\<close>, one definition per method over
  the token vector and the current position. All recursion of the grammar goes through \<open>expression\<close>:
  the methods below it get their callee \<open>self.expression()\<close> as the argument \<open>expr\<close>, and
  \<open>expression\<close> ties the knot. Loops and nesting take fuel, and \<open>None\<close> stands for its end; \<open>parse\<close> runs
  with more fuel than there are tokens, which is shown to be enough on every vector that ends with the
  end-of-file token.
\<close>

section \<open>Parser state\<close>

type_synonym 'a parsed = "(dmn_error + 'a \<times> nat) option"

fun pbind :: "'a parsed \<Rightarrow> ('a \<Rightarrow> nat \<Rightarrow> 'b parsed) \<Rightarrow> 'b parsed" where
  "pbind None f = None"
| "pbind (Some (Inl e)) f = Some (Inl e)"
| "pbind (Some (Inr (x, p))) f = f x p"

definition current :: "token list \<Rightarrow> nat \<Rightarrow> token_kind" where
  "current ts p = token_kind (ts ! p)"

definition previous :: "token list \<Rightarrow> nat \<Rightarrow> token_kind" where
  "previous ts p = token_kind (ts ! (p - 1))"

definition bump :: "token list \<Rightarrow> nat \<Rightarrow> nat" where
  "bump ts p = (if p + 1 < length ts then p + 1 else p)"

definition parse_error :: "token list \<Rightarrow> nat \<Rightarrow> string \<Rightarrow> 'a parsed" where
  "parse_error ts p message =
     Some (Inl (DmnValidation (message @ '' at byte '' @ show_nat (token_start (ts ! p)))))"

definition expect :: "token list \<Rightarrow> (token_kind \<Rightarrow> bool) \<Rightarrow> string \<Rightarrow> nat \<Rightarrow> unit parsed" where
  "expect ts predicate message p =
     (if predicate (current ts p) then Some (Inr ((), bump ts p)) else parse_error ts p message)"

text \<open>The messages \<open>expected '...'\<close> with the quotes of the source.\<close>

definition quoted_expectation :: "string \<Rightarrow> string" where
  "quoted_expectation word = ''expected '' @ [CHR 0x27] @ word @ [CHR 0x27]"

definition parse_name :: "token list \<Rightarrow> nat \<Rightarrow> string parsed" where
  "parse_name ts p =
     (case current ts p of TName name \<Rightarrow> Some (Inr (name, bump ts p)) | _ \<Rightarrow> parse_error ts p ''expected name'')"

section \<open>Binary operators\<close>

definition or_operator :: "token_kind \<Rightarrow> binary_op option" where
  "or_operator k = (case k of TOr \<Rightarrow> Some Or | _ \<Rightarrow> None)"

definition and_operator :: "token_kind \<Rightarrow> binary_op option" where
  "and_operator k = (case k of TAnd \<Rightarrow> Some And | _ \<Rightarrow> None)"

definition comparison_operator :: "token_kind \<Rightarrow> binary_op option" where
  "comparison_operator k =
     (case k of TEqual \<Rightarrow> Some Equal | TNotEqual \<Rightarrow> Some NotEqual | TLess \<Rightarrow> Some Less
      | TLessEqual \<Rightarrow> Some LessEqual | TGreater \<Rightarrow> Some Greater | TGreaterEqual \<Rightarrow> Some GreaterEqual
      | TIn \<Rightarrow> Some In | _ \<Rightarrow> None)"

definition additive_operator :: "token_kind \<Rightarrow> binary_op option" where
  "additive_operator k = (case k of TPlus \<Rightarrow> Some Add | TMinus \<Rightarrow> Some Subtract | _ \<Rightarrow> None)"

definition multiplicative_operator :: "token_kind \<Rightarrow> binary_op option" where
  "multiplicative_operator k = (case k of TStar \<Rightarrow> Some Multiply | TSlash \<Rightarrow> Some Divide | _ \<Rightarrow> None)"

definition power_operator :: "token_kind \<Rightarrow> binary_op option" where
  "power_operator k = (case k of TPower \<Rightarrow> Some Power | _ \<Rightarrow> None)"

fun binary_loop :: "nat \<Rightarrow> (nat \<Rightarrow> expr parsed) \<Rightarrow> (token_kind \<Rightarrow> binary_op option) \<Rightarrow> token list
    \<Rightarrow> expr \<Rightarrow> nat \<Rightarrow> expr parsed" where
  "binary_loop 0 operand operator ts left p = None"
| "binary_loop (Suc n) operand operator ts left p =
     (case operator (current ts p) of
        None \<Rightarrow> Some (Inr (left, p))
      | Some op \<Rightarrow> pbind (operand (bump ts p)) (\<lambda>right q.
          binary_loop n operand operator ts (EBinary op left right) q))"

definition binary :: "nat \<Rightarrow> (nat \<Rightarrow> expr parsed) \<Rightarrow> (token_kind \<Rightarrow> binary_op option) \<Rightarrow> token list
    \<Rightarrow> nat \<Rightarrow> expr parsed" where
  "binary n operand operator ts p = pbind (operand p) (\<lambda>left q. binary_loop n operand operator ts left q)"

section \<open>The grammar\<close>

type_synonym expr_parser = "nat \<Rightarrow> expr parsed"

text \<open>The argument loop of a call in \<open>primary\<close>.\<close>

primrec call_arguments :: "nat \<Rightarrow> expr_parser \<Rightarrow> token list \<Rightarrow> expr list \<Rightarrow> nat \<Rightarrow> expr list parsed" where
  "call_arguments 0 expr ts args p = None"
| "call_arguments (Suc n) expr ts args p =
     pbind (expr p) (\<lambda>e q.
       if current ts q = TComma then call_arguments n expr ts (args @ [e]) (bump ts q)
       else Some (Inr (args @ [e], q)))"

text \<open>The loop over the further items in \<open>list_or_range\<close>.\<close>

primrec list_items :: "nat \<Rightarrow> expr_parser \<Rightarrow> token list \<Rightarrow> expr list \<Rightarrow> nat \<Rightarrow> expr list parsed" where
  "list_items 0 expr ts values p = None"
| "list_items (Suc n) expr ts values p =
     (if current ts p = TComma then
        pbind (expr (bump ts p)) (\<lambda>e q. list_items n expr ts (values @ [e]) q)
      else Some (Inr (values, p)))"

definition list_or_range :: "nat \<Rightarrow> expr_parser \<Rightarrow> token list \<Rightarrow> nat \<Rightarrow> expr parsed" where
  "list_or_range n expr ts p =
     (let p0 = bump ts p in
      if current ts p0 = TRBracket then Some (Inr (EList [], bump ts p0))
      else
        pbind (expr p0) (\<lambda>first p1.
          if current ts p1 = TDotDot then
            pbind (expr (bump ts p1)) (\<lambda>stop p2.
            pbind (expect ts (\<lambda>k. k = TRBracket \<or> k = TRParen) ''expected range terminator'' p2) (\<lambda>_ p3.
              Some (Inr (ERange first stop True (current ts p2 = TRBracket), p3))))
          else
            pbind (list_items n expr ts [first] p1) (\<lambda>values p2.
            pbind (expect ts (\<lambda>k. k = TRBracket) (quoted_expectation '']'') p2) (\<lambda>_ p3.
              Some (Inr (EList values, p3))))))"

text \<open>The key and the loop over the entries in \<open>context\<close>.\<close>

definition context_key :: "token list \<Rightarrow> nat \<Rightarrow> string parsed" where
  "context_key ts p =
     (case current ts p of
        TName name \<Rightarrow> Some (Inr (name, bump ts p))
      | TString name \<Rightarrow> Some (Inr (name, bump ts p))
      | _ \<Rightarrow> parse_error ts p ''expected context key'')"

primrec context_entries :: "nat \<Rightarrow> expr_parser \<Rightarrow> token list \<Rightarrow> (string \<times> expr) list \<Rightarrow> nat
    \<Rightarrow> (string \<times> expr) list parsed" where
  "context_entries 0 expr ts entries p = None"
| "context_entries (Suc n) expr ts entries p =
     pbind (context_key ts p) (\<lambda>key p1.
     pbind (expect ts (\<lambda>k. k = TColon) (quoted_expectation '':'') p1) (\<lambda>_ p2.
     pbind (expr p2) (\<lambda>e q.
       if current ts q = TComma then context_entries n expr ts (entries @ [(key, e)]) (bump ts q)
       else Some (Inr (entries @ [(key, e)], q)))))"

definition parse_context :: "nat \<Rightarrow> expr_parser \<Rightarrow> token list \<Rightarrow> nat \<Rightarrow> expr parsed" where
  "parse_context n expr ts p =
     (let p0 = bump ts p in
      pbind (if current ts p0 = TRBrace then Some (Inr ([], p0)) else context_entries n expr ts [] p0) (\<lambda>entries p1.
      pbind (expect ts (\<lambda>k. k = TRBrace) (quoted_expectation ''}'') p1) (\<lambda>_ p2.
        Some (Inr (EContext entries, p2)))))"

text \<open>The arms of \<open>primary\<close> for a name, with or without arguments, and for an opening parenthesis.\<close>

definition name_or_call :: "nat \<Rightarrow> expr_parser \<Rightarrow> token list \<Rightarrow> string \<Rightarrow> nat \<Rightarrow> expr parsed" where
  "name_or_call n expr ts name p =
     (let p1 = bump ts p in
      if current ts p1 = TLParen then
        (let p2 = bump ts p1 in
         pbind (if current ts p2 = TRParen then Some (Inr ([], p2)) else call_arguments n expr ts [] p2) (\<lambda>args p3.
         pbind (expect ts (\<lambda>k. k = TRParen) (quoted_expectation '')'') p3) (\<lambda>_ p4.
           Some (Inr (ECall name args, p4)))))
      else Some (Inr (EName name, p1)))"

definition group_or_range :: "expr_parser \<Rightarrow> token list \<Rightarrow> nat \<Rightarrow> expr parsed" where
  "group_or_range expr ts p =
     pbind (expr (bump ts p)) (\<lambda>start p1.
       if current ts p1 = TDotDot then
         pbind (expr (bump ts p1)) (\<lambda>stop p2.
         pbind (expect ts (\<lambda>k. k = TRParen \<or> k = TRBracket) ''expected range terminator'' p2) (\<lambda>_ p3.
           Some (Inr (ERange start stop False (previous ts p3 = TRBracket), p3))))
       else
         pbind (expect ts (\<lambda>k. k = TRParen) (quoted_expectation '')'') p1) (\<lambda>_ p2. Some (Inr (start, p2))))"

definition primary :: "nat \<Rightarrow> expr_parser \<Rightarrow> token list \<Rightarrow> nat \<Rightarrow> expr parsed" where
  "primary n expr ts p =
     (case current ts p of
        TNull \<Rightarrow> Some (Inr (ENull, bump ts p))
      | TTrue \<Rightarrow> Some (Inr (EBool True, bump ts p))
      | TFalse \<Rightarrow> Some (Inr (EBool False, bump ts p))
      | TNumber v \<Rightarrow> Some (Inr (ENumber v, bump ts p))
      | TString v \<Rightarrow> Some (Inr (EString v, bump ts p))
      | TName name \<Rightarrow> name_or_call n expr ts name p
      | TLParen \<Rightarrow> group_or_range expr ts p
      | TLBracket \<Rightarrow> list_or_range n expr ts p
      | TLBrace \<Rightarrow> parse_context n expr ts p
      | _ \<Rightarrow> parse_error ts p ''expected FEEL expression'')"

primrec postfix_loop :: "nat \<Rightarrow> expr_parser \<Rightarrow> token list \<Rightarrow> expr \<Rightarrow> nat \<Rightarrow> expr parsed" where
  "postfix_loop 0 expr ts e p = None"
| "postfix_loop (Suc n) expr ts e p =
     (if current ts p = TDot then
        pbind (parse_name ts (bump ts p)) (\<lambda>key q. postfix_loop n expr ts (EPath e key) q)
      else if current ts p = TLBracket then
        pbind (expr (bump ts p)) (\<lambda>predicate p1.
        pbind (expect ts (\<lambda>k. k = TRBracket) (quoted_expectation '']'') p1) (\<lambda>_ p2.
          postfix_loop n expr ts (EFilter e predicate) p2))
      else Some (Inr (e, p)))"

definition postfix :: "nat \<Rightarrow> expr_parser \<Rightarrow> token list \<Rightarrow> nat \<Rightarrow> expr parsed" where
  "postfix n expr ts p = pbind (primary n expr ts p) (\<lambda>e q. postfix_loop n expr ts e q)"

text \<open>The recursion of \<open>unary\<close> on a chain of prefix operators, with its own fuel.\<close>

primrec parse_unary :: "nat \<Rightarrow> nat \<Rightarrow> expr_parser \<Rightarrow> token list \<Rightarrow> nat \<Rightarrow> expr parsed" where
  "parse_unary 0 n expr ts p = None"
| "parse_unary (Suc m) n expr ts p =
     (if current ts p = TMinus then
        pbind (parse_unary m n expr ts (bump ts p)) (\<lambda>e q. Some (Inr (EUnary Negate e, q)))
      else if current ts p = TNot then
        pbind (parse_unary m n expr ts (bump ts p)) (\<lambda>e q. Some (Inr (EUnary Not e, q)))
      else postfix n expr ts p)"

definition parse_power :: "nat \<Rightarrow> expr_parser \<Rightarrow> token list \<Rightarrow> nat \<Rightarrow> expr parsed" where
  "parse_power n expr ts p = binary n (parse_unary n n expr ts) power_operator ts p"

definition multiplicative :: "nat \<Rightarrow> expr_parser \<Rightarrow> token list \<Rightarrow> nat \<Rightarrow> expr parsed" where
  "multiplicative n expr ts p = binary n (parse_power n expr ts) multiplicative_operator ts p"

definition additive :: "nat \<Rightarrow> expr_parser \<Rightarrow> token list \<Rightarrow> nat \<Rightarrow> expr parsed" where
  "additive n expr ts p = binary n (multiplicative n expr ts) additive_operator ts p"

definition comparison :: "nat \<Rightarrow> expr_parser \<Rightarrow> token list \<Rightarrow> nat \<Rightarrow> expr parsed" where
  "comparison n expr ts p = binary n (additive n expr ts) comparison_operator ts p"

definition parse_and :: "nat \<Rightarrow> expr_parser \<Rightarrow> token list \<Rightarrow> nat \<Rightarrow> expr parsed" where
  "parse_and n expr ts p = binary n (comparison n expr ts) and_operator ts p"

definition parse_or :: "nat \<Rightarrow> expr_parser \<Rightarrow> token list \<Rightarrow> nat \<Rightarrow> expr parsed" where
  "parse_or n expr ts p = binary n (parse_and n expr ts) or_operator ts p"

definition if_expression :: "expr_parser \<Rightarrow> token list \<Rightarrow> nat \<Rightarrow> expr parsed" where
  "if_expression expr ts p =
     pbind (expr (bump ts p)) (\<lambda>condition p1.
     pbind (expect ts (\<lambda>k. k = TThen) (quoted_expectation ''then'') p1) (\<lambda>_ p2.
     pbind (expr p2) (\<lambda>then_expr p3.
     pbind (expect ts (\<lambda>k. k = TElse) (quoted_expectation ''else'') p3) (\<lambda>_ p4.
     pbind (expr p4) (\<lambda>else_expr p5.
       Some (Inr (EIf condition then_expr else_expr, p5)))))))"

definition for_expression :: "nat \<Rightarrow> expr_parser \<Rightarrow> token list \<Rightarrow> nat \<Rightarrow> expr parsed" where
  "for_expression n expr ts p =
     pbind (parse_name ts (bump ts p)) (\<lambda>variable p1.
     pbind (expect ts (\<lambda>k. k = TIn) (quoted_expectation ''in'') p1) (\<lambda>_ p2.
     pbind (parse_or n expr ts p2) (\<lambda>input p3.
     pbind (expect ts (\<lambda>k. k = TReturn) (quoted_expectation ''return'') p3) (\<lambda>_ p4.
     pbind (expr p4) (\<lambda>body p5.
       Some (Inr (EFor variable input body, p5)))))))"

definition quantified_expression :: "nat \<Rightarrow> expr_parser \<Rightarrow> token list \<Rightarrow> nat \<Rightarrow> expr parsed" where
  "quantified_expression n expr ts p =
     (let every = (current ts p = TEvery) in
     pbind (parse_name ts (bump ts p)) (\<lambda>variable p1.
     pbind (expect ts (\<lambda>k. k = TIn) (quoted_expectation ''in'') p1) (\<lambda>_ p2.
     pbind (parse_or n expr ts p2) (\<lambda>input p3.
     pbind (expect ts (\<lambda>k. k = TSatisfies) (quoted_expectation ''satisfies'') p3) (\<lambda>_ p4.
     pbind (expr p4) (\<lambda>predicate p5.
       Some (Inr (EQuantified every variable input predicate, p5))))))))"

primrec expression :: "nat \<Rightarrow> token list \<Rightarrow> nat \<Rightarrow> expr parsed" where
  "expression 0 ts p = None"
| "expression (Suc n) ts p =
     (case current ts p of
        TIf \<Rightarrow> if_expression (expression n ts) ts p
      | TFor \<Rightarrow> for_expression n (expression n ts) ts p
      | TSome \<Rightarrow> quantified_expression n (expression n ts) ts p
      | TEvery \<Rightarrow> quantified_expression n (expression n ts) ts p
      | _ \<Rightarrow> parse_or n (expression n ts) ts p)"

definition parse_fuel :: "token list \<Rightarrow> nat" where
  "parse_fuel ts = Suc (length ts)"

definition parse :: "token list \<Rightarrow> (dmn_error + expr) option" where
  "parse ts =
     (case expression (parse_fuel ts) ts 0 of
        None \<Rightarrow> None
      | Some (Inl e) \<Rightarrow> Some (Inl e)
      | Some (Inr (e, p)) \<Rightarrow>
          if current ts p = TEof then Some (Inr e)
          else Some (Inl (DmnValidation (''unexpected token after expression at byte ''
                 @ show_nat (token_start (ts ! p))))))"

end
