(* ===== verification/Feel_Roundtrip.thy ===== *)
theory Feel_Roundtrip
  imports Feel_Parser
begin

text \<open>
  Correctness of the FEEL parser: it returns on every token vector the lexer produces, and it inverts a
  printer that writes as few parentheses as the precedence levels allow.
\<close>

section \<open>The parser returns\<close>

text \<open>The parser step returned, and a result stands at position \<open>a\<close> or later, inside the vector.\<close>

definition lands :: "token list \<Rightarrow> nat \<Rightarrow> 'a parsed \<Rightarrow> bool" where
  "lands ts a r \<longleftrightarrow> r \<noteq> None \<and> (\<forall>x q. r = Some (Inr (x, q)) \<longrightarrow> a \<le> q \<and> q < length ts)"

lemma lands_error [simp]: "lands ts a (parse_error ts p m)" "lands ts a (Some (Inl e))"
  by (simp_all add: lands_def parse_error_def)

lemma lands_result [simp]: "lands ts a (Some (Inr (x, q))) \<longleftrightarrow> a \<le> q \<and> q < length ts"
  by (simp add: lands_def)

lemma lands_pbind:
  assumes "lands ts a m" "\<And>x q. a \<le> q \<Longrightarrow> q < length ts \<Longrightarrow> lands ts b (f x q)"
  shows "lands ts b (pbind m f)"
proof (cases m)
  case None
  with assms(1) show ?thesis by (simp add: lands_def)
next
  case (Some r)
  with assms show ?thesis by (cases r) (auto simp: lands_def)
qed

lemma lands_mono: "lands ts b r \<Longrightarrow> a \<le> b \<Longrightarrow> lands ts a r"
  by (fastforce simp: lands_def)

definition returns_from :: "token list \<Rightarrow> nat \<Rightarrow> (nat \<Rightarrow> 'a parsed) \<Rightarrow> bool" where
  "returns_from ts n f \<longleftrightarrow> (\<forall>p < length ts. length ts - p \<le> n \<longrightarrow> lands ts (Suc p) (f p))"

lemma returns_fromD: "returns_from ts n f \<Longrightarrow> p < length ts \<Longrightarrow> length ts - p \<le> n \<Longrightarrow> lands ts (Suc p) (f p)"
  by (simp add: returns_from_def)

text \<open>
  What the parser relies on from the lexer: a vector of tokens ends with the end-of-file token, so the
  current token exists and every other token can be stepped over.
\<close>

locale token_vectors =
  fixes good :: "token list \<Rightarrow> bool"
  assumes eof_last: "good ts \<Longrightarrow> ts \<noteq> [] \<and> token_kind (last ts) = TEof"
begin

lemma bump_step:
  assumes "good ts" "p < length ts" "current ts p \<noteq> TEof"
  shows "bump ts p = Suc p" "Suc p < length ts"
proof -
  have "p \<noteq> length ts - 1" using eof_last [OF assms(1)] assms(3) by (auto simp: current_def last_conv_nth)
  with assms(2) show "bump ts p = Suc p" "Suc p < length ts" by (auto simp: bump_def)
qed

lemma expect_lands:
  assumes "good ts" "p < length ts" "\<not> P TEof"
  shows "lands ts (Suc p) (expect ts P m p)"
proof (cases "P (current ts p)")
  case True
  then have "current ts p \<noteq> TEof" using assms(3) by auto
  with True bump_step [OF assms(1,2)] show ?thesis by (simp add: expect_def)
qed (simp add: expect_def)

lemma name_lands: "good ts \<Longrightarrow> p < length ts \<Longrightarrow> lands ts (Suc p) (parse_name ts p)"
  using bump_step [of ts p] by (cases "current ts p") (simp_all add: parse_name_def)

lemma key_lands: "good ts \<Longrightarrow> p < length ts \<Longrightarrow> lands ts (Suc p) (context_key ts p)"
  using bump_step [of ts p] by (cases "current ts p") (simp_all add: context_key_def)

lemma binary_loop_lands:
  assumes "good ts" "returns_from ts k operand" "operator TEof = None"
    and "p < length ts" "length ts - p \<le> n" "length ts - p \<le> k"
  shows "lands ts p (binary_loop n operand operator ts left p)"
  using assms(4-6)
proof (induction n arbitrary: left p)
  case (Suc n)
  show ?case
  proof (cases "operator (current ts p)")
    case None
    with Suc.prems show ?thesis by simp
  next
    case (Some op)
    then have "current ts p \<noteq> TEof" using assms(3) by auto
    note b = bump_step [OF assms(1) Suc.prems(1) this]
    have "lands ts p (pbind (operand (Suc p)) (\<lambda>x. binary_loop n operand operator ts (EBinary op left x)))"
    proof (rule lands_pbind)
      show "lands ts (Suc (Suc p)) (operand (Suc p))" using assms(2) b Suc.prems by (auto intro!: returns_fromD)
      show "lands ts p (binary_loop n operand operator ts (EBinary op left x) q)"
        if "Suc (Suc p) \<le> q" "q < length ts" for x q
        using that Suc.prems by (intro lands_mono [OF Suc.IH]) auto
    qed
    with Some b show ?thesis by simp
  qed
qed simp

lemma binary_returns:
  assumes "good ts" "returns_from ts n operand" "operator TEof = None"
  shows "returns_from ts n (binary n operand operator ts)"
  unfolding returns_from_def binary_def
proof (intro allI impI)
  fix p assume p: "p < length ts" "length ts - p \<le> n"
  show "lands ts (Suc p) (pbind (operand p) (binary_loop n operand operator ts))"
  proof (rule lands_pbind)
    show "lands ts (Suc p) (operand p)" using assms(2) p by (rule returns_fromD)
    show "lands ts (Suc p) (binary_loop n operand operator ts x q)" if "Suc p \<le> q" "q < length ts" for x q
      using that p by (intro lands_mono [OF binary_loop_lands [where operator = operator, OF assms]]) auto
  qed
qed

lemma call_arguments_lands:
  assumes "good ts" "returns_from ts k expr" "p < length ts" "length ts - p \<le> n" "length ts - p \<le> k"
  shows "lands ts (Suc p) (call_arguments n expr ts args p)"
  using assms(3-5)
proof (induction n arbitrary: args p)
  case (Suc n)
  have "lands ts (Suc p) (if current ts q = TComma then call_arguments n expr ts (args @ [e]) (bump ts q)
      else Some (Inr (args @ [e], q)))" if q: "Suc p \<le> q" "q < length ts" for e q
  proof (cases "current ts q = TComma")
    case True
    then have b: "bump ts q = Suc q" "Suc q < length ts" using bump_step [OF assms(1) q(2)] by simp_all
    then show ?thesis using True q Suc.prems by (auto intro!: lands_mono [OF Suc.IH])
  qed (use q in simp)
  then show ?case unfolding call_arguments.simps
    by (rule lands_pbind [OF returns_fromD [OF assms(2) Suc.prems(1,3)]])
qed simp

lemma list_items_lands:
  assumes "good ts" "returns_from ts k expr" "p < length ts" "length ts - p \<le> n" "length ts - p \<le> k"
  shows "lands ts p (list_items n expr ts values p)"
  using assms(3-5)
proof (induction n arbitrary: "values" p)
  case (Suc n)
  show ?case
  proof (cases "current ts p = TComma")
    case True
    then have b: "bump ts p = Suc p" "Suc p < length ts" using bump_step [OF assms(1) Suc.prems(1)] by simp_all
    have "lands ts p (list_items n expr ts (values @ [e]) q)" if "Suc (Suc p) \<le> q" "q < length ts" for e q
      using that Suc.prems by (intro lands_mono [OF Suc.IH]) auto
    then show ?thesis using True b Suc.prems assms(2)
      by (auto intro!: lands_pbind [where a = "Suc (Suc p)"] returns_fromD)
  qed (use Suc.prems in simp)
qed simp

lemma context_entries_lands:
  assumes "good ts" "returns_from ts k expr" "p < length ts" "length ts - p \<le> n" "length ts - p \<le> k"
  shows "lands ts (Suc p) (context_entries n expr ts entries p)"
  using assms(3-5)
proof (induction n arbitrary: entries p)
  case (Suc n)
  have last: "lands ts (Suc p) (if current ts q = TComma then context_entries n expr ts (entries @ [(key, e)]) (bump ts q)
      else Some (Inr (entries @ [(key, e)], q)))" if q: "Suc p \<le> q" "q < length ts" for key e q
  proof (cases "current ts q = TComma")
    case True
    then have b: "bump ts q = Suc q" "Suc q < length ts" using bump_step [OF assms(1) q(2)] by simp_all
    then show ?thesis using True q Suc.prems by (auto intro!: lands_mono [OF Suc.IH])
  qed (use q in simp)
  show ?case unfolding context_entries.simps
  proof (rule lands_pbind [OF key_lands [OF assms(1) Suc.prems(1)]], rule lands_pbind [OF expect_lands [OF assms(1)]])
    fix key p1 p2 and u :: unit assume "Suc p \<le> p1" "p1 < length ts" "Suc p1 \<le> p2" "p2 < length ts"
    then have "lands ts (Suc p2) (expr p2)" using Suc.prems by (intro returns_fromD [OF assms(2)]) auto
    then show "lands ts (Suc p) (pbind (expr p2) (\<lambda>e q. if current ts q = TComma
        then context_entries n expr ts (entries @ [(key, e)]) (bump ts q) else Some (Inr (entries @ [(key, e)], q))))"
      by (rule lands_pbind, intro last) (use \<open>Suc p \<le> p1\<close> \<open>Suc p1 \<le> p2\<close> in auto)
  qed simp_all
qed simp

lemma list_or_range_lands:
  assumes "good ts" "returns_from ts k expr" "p < length ts" "length ts - p \<le> n" "length ts - p \<le> Suc k"
    and "current ts p = TLBracket"
  shows "lands ts (Suc p) (list_or_range n expr ts p)"
proof -
  have b: "bump ts p = Suc p" "Suc p < length ts" using bump_step [OF assms(1,3)] assms(6) by simp_all
  have range: "lands ts (Suc p) (pbind (expr (bump ts p1)) (\<lambda>stop p2.
            pbind (expect ts (\<lambda>k. k = TRBracket \<or> k = TRParen) ''expected range terminator'' p2) (\<lambda>_ p3.
              Some (Inr (ERange first stop True (current ts p2 = TRBracket), p3)))))"
    if "Suc (Suc p) \<le> p1" "p1 < length ts" "current ts p1 = TDotDot" for first p1
  proof -
    have "bump ts p1 = Suc p1" "Suc p1 < length ts" using bump_step [OF assms(1) that(2)] that(3) by simp_all
    then have "lands ts (Suc (bump ts p1)) (expr (bump ts p1))"
      using that assms(5) by (intro returns_fromD [OF assms(2)]) auto
    then show ?thesis
      by (rule lands_pbind, intro lands_pbind [OF expect_lands [OF assms(1)]]) (use that \<open>bump ts p1 = Suc p1\<close> in auto)
  qed
  have items: "lands ts (Suc p) (pbind (list_items n expr ts [first] p1) (\<lambda>values p2.
            pbind (expect ts (\<lambda>k. k = TRBracket) (quoted_expectation '']'') p2) (\<lambda>_ p3.
              Some (Inr (EList values, p3)))))"
    if "Suc (Suc p) \<le> p1" "p1 < length ts" for first p1
    by (rule lands_pbind [OF list_items_lands [OF assms(1,2) that(2)]],
        use that assms(4,5) in simp, use that assms(4,5) in simp,
        intro lands_pbind [OF expect_lands [OF assms(1)]]) (use that in auto)
  have "lands ts (Suc p) (pbind (expr (Suc p)) (\<lambda>first p1. if current ts p1 = TDotDot
      then pbind (expr (bump ts p1)) (\<lambda>stop p2.
            pbind (expect ts (\<lambda>k. k = TRBracket \<or> k = TRParen) ''expected range terminator'' p2) (\<lambda>_ p3.
              Some (Inr (ERange first stop True (current ts p2 = TRBracket), p3))))
      else pbind (list_items n expr ts [first] p1) (\<lambda>values p2.
            pbind (expect ts (\<lambda>k. k = TRBracket) (quoted_expectation '']'') p2) (\<lambda>_ p3.
              Some (Inr (EList values, p3))))))"
    by (rule lands_pbind [OF returns_fromD [OF assms(2) b(2)]]) (use assms(5) range items in \<open>auto\<close>)
  moreover have "bump ts (Suc p) = Suc (Suc p) \<and> Suc (Suc p) < length ts" if "current ts (Suc p) = TRBracket"
    using bump_step [OF assms(1) b(2)] that by simp
  ultimately show ?thesis using b by (simp add: list_or_range_def Let_def)
qed

lemma parse_context_lands:
  assumes "good ts" "returns_from ts k expr" "p < length ts" "length ts - p \<le> n" "length ts - p \<le> Suc k"
    and "current ts p = TLBrace"
  shows "lands ts (Suc p) (parse_context n expr ts p)"
proof -
  have b: "bump ts p = Suc p" "Suc p < length ts" using bump_step [OF assms(1,3)] assms(6) by simp_all
  have "lands ts (Suc p) (if current ts (Suc p) = TRBrace then Some (Inr ([], Suc p)) else context_entries n expr ts [] (Suc p))"
    using b assms(4,5) lands_mono [OF context_entries_lands [OF assms(1,2) b(2)], of n "Suc p"] by simp
  then show ?thesis unfolding parse_context_def Let_def b(1)
    by (rule lands_pbind, intro lands_pbind [OF expect_lands [OF assms(1)]]) auto
qed

lemma name_or_call_lands:
  assumes "good ts" "returns_from ts k expr" "p < length ts" "length ts - p \<le> n" "length ts - p \<le> Suc k"
    and "current ts p = TName name"
  shows "lands ts (Suc p) (name_or_call n expr ts name p)"
proof -
  have b: "bump ts p = Suc p" "Suc p < length ts" using bump_step [OF assms(1,3)] assms(6) by simp_all
  show ?thesis
  proof (cases "current ts (Suc p) = TLParen")
    case True
    then have b2: "bump ts (Suc p) = Suc (Suc p)" "Suc (Suc p) < length ts" using bump_step [OF assms(1) b(2)] by simp_all
    have "lands ts (Suc p) (if current ts (Suc (Suc p)) = TRParen then Some (Inr ([], Suc (Suc p)))
        else call_arguments n expr ts [] (Suc (Suc p)))"
      using b2 assms(4,5) lands_mono [OF call_arguments_lands [OF assms(1,2) b2(2)], of n "Suc p"] by simp
    then have "lands ts (Suc p) (pbind (if current ts (Suc (Suc p)) = TRParen then Some (Inr ([], Suc (Suc p)))
        else call_arguments n expr ts [] (Suc (Suc p))) (\<lambda>args p3.
         pbind (expect ts (\<lambda>k. k = TRParen) (quoted_expectation '')'') p3) (\<lambda>_ p4.
           Some (Inr (ECall name args, p4)))))"
      by (rule lands_pbind, intro lands_pbind [OF expect_lands [OF assms(1)]]) auto
    with True b b2 show ?thesis by (simp add: name_or_call_def Let_def)
  qed (use b in \<open>simp add: name_or_call_def Let_def\<close>)
qed

lemma group_or_range_lands:
  assumes "good ts" "returns_from ts k expr" "p < length ts" "length ts - p \<le> Suc k" "current ts p = TLParen"
  shows "lands ts (Suc p) (group_or_range expr ts p)"
proof -
  have b: "bump ts p = Suc p" "Suc p < length ts" using bump_step [OF assms(1,3)] assms(5) by simp_all
  have range: "lands ts (Suc p) (pbind (expr (bump ts p1)) (\<lambda>stop p2.
         pbind (expect ts (\<lambda>k. k = TRParen \<or> k = TRBracket) ''expected range terminator'' p2) (\<lambda>_ p3.
           Some (Inr (ERange start stop False (previous ts p3 = TRBracket), p3)))))"
    if "Suc (Suc p) \<le> p1" "p1 < length ts" "current ts p1 = TDotDot" for start p1
  proof -
    have "bump ts p1 = Suc p1" "Suc p1 < length ts" using bump_step [OF assms(1) that(2)] that(3) by simp_all
    then have "lands ts (Suc (bump ts p1)) (expr (bump ts p1))"
      using that assms(4) by (intro returns_fromD [OF assms(2)]) auto
    then show ?thesis
      by (rule lands_pbind, intro lands_pbind [OF expect_lands [OF assms(1)]]) (use that \<open>bump ts p1 = Suc p1\<close> in auto)
  qed
  have group: "lands ts (Suc p) (pbind (expect ts (\<lambda>k. k = TRParen) (quoted_expectation '')'') p1) (\<lambda>_ p2. Some (Inr (start, p2))))"
    if "Suc (Suc p) \<le> p1" "p1 < length ts" for start p1
    by (rule lands_pbind [OF expect_lands [OF assms(1) that(2)]]) (use that in auto)
  show ?thesis unfolding group_or_range_def b(1)
    by (rule lands_pbind [OF returns_fromD [OF assms(2) b(2)]]) (use assms(4) range group in auto)
qed

lemma primary_returns:
  assumes "good ts" "returns_from ts (n - 1) expr"
  shows "returns_from ts n (primary n expr ts)"
  unfolding returns_from_def
proof (intro allI impI)
  fix p assume p: "p < length ts" "length ts - p \<le> n"
  then have p': "length ts - p \<le> Suc (n - 1)" by simp
  show "lands ts (Suc p) (primary n expr ts p)"
    using bump_step [OF assms(1) p(1)] list_or_range_lands [OF assms p p'] parse_context_lands [OF assms p p']
      name_or_call_lands [OF assms p p'] group_or_range_lands [OF assms p(1) p']
    by (simp add: primary_def split: token_kind.split)
qed

lemma postfix_loop_lands:
  assumes "good ts" "returns_from ts k expr" "p < length ts" "length ts - p \<le> n" "length ts - p \<le> Suc k"
  shows "lands ts p (postfix_loop n expr ts e p)"
  using assms(3-5)
proof (induction n arbitrary: e p)
  case (Suc n)
  have again: "lands ts p (postfix_loop n expr ts e' q)" if "Suc p \<le> q" "q < length ts" for e' q
    using that Suc.prems by (intro lands_mono [OF Suc.IH]) auto
  note b = bump_step [OF assms(1) Suc.prems(1)]
  have path: "lands ts p (pbind (parse_name ts (bump ts p)) (\<lambda>key q. postfix_loop n expr ts (EPath e key) q))"
    if "current ts p = TDot"
    using that b by (intro lands_pbind [OF name_lands [OF assms(1)]] again) auto
  have filter: "lands ts p (pbind (expr (bump ts p)) (\<lambda>predicate p1.
        pbind (expect ts (\<lambda>k. k = TRBracket) (quoted_expectation '']'') p1) (\<lambda>_ p2.
          postfix_loop n expr ts (EFilter e predicate) p2)))" if c: "current ts p = TLBracket"
  proof (rule lands_pbind)
    show "lands ts (Suc (bump ts p)) (expr (bump ts p))"
      using c b Suc.prems by (intro returns_fromD [OF assms(2)]) auto
    show "lands ts p (pbind (expect ts (\<lambda>k. k = TRBracket) (quoted_expectation '']'') p1) (\<lambda>_ p2.
          postfix_loop n expr ts (EFilter e predicate) p2))"
      if "Suc (bump ts p) \<le> p1" "p1 < length ts" for predicate p1
      using c that b by (intro lands_pbind [OF expect_lands [OF assms(1)]] again) auto
  qed
  show ?case using path filter Suc.prems by simp
qed simp

lemma postfix_returns:
  assumes "good ts" "returns_from ts (n - 1) expr"
  shows "returns_from ts n (postfix n expr ts)"
  unfolding returns_from_def postfix_def
proof (intro allI impI)
  fix p assume p: "p < length ts" "length ts - p \<le> n"
  show "lands ts (Suc p) (pbind (primary n expr ts p) (\<lambda>e q. postfix_loop n expr ts e q))"
    using p by (intro lands_pbind [OF returns_fromD [OF primary_returns [OF assms] p]]
        lands_mono [OF postfix_loop_lands [OF assms]]) auto
qed

lemma unary_lands:
  assumes "good ts" "returns_from ts (n - 1) expr" "p < length ts" "length ts - p \<le> n" "length ts - p \<le> m"
  shows "lands ts (Suc p) (parse_unary m n expr ts p)"
  using assms(3-5)
proof (induction m arbitrary: p)
  case (Suc m)
  note b = bump_step [OF assms(1) Suc.prems(1)]
  have prefix: "lands ts (Suc p) (pbind (parse_unary m n expr ts (bump ts p)) (\<lambda>e q. Some (Inr (EUnary op e, q))))"
    if "current ts p = TMinus \<or> current ts p = TNot" for op
  proof (rule lands_pbind)
    show "lands ts (Suc (bump ts p)) (parse_unary m n expr ts (bump ts p))"
      using that b Suc.prems by (intro Suc.IH) auto
  qed (use that b in auto)
  moreover have "lands ts (Suc p) (postfix n expr ts p)"
    by (rule returns_fromD [OF postfix_returns [OF assms(1,2)] Suc.prems(1,2)])
  ultimately show ?case by simp
qed simp

lemmas operators_stop = or_operator_def and_operator_def comparison_operator_def additive_operator_def
  multiplicative_operator_def power_operator_def

lemma or_returns:
  assumes "good ts" "returns_from ts (n - 1) expr"
  shows "returns_from ts n (parse_or n expr ts)"
proof -
  have unary: "returns_from ts n (parse_unary n n expr ts)"
    using unary_lands [OF assms] by (simp add: returns_from_def)
  have fold_def: "parse_power n expr ts = binary n (parse_unary n n expr ts) power_operator ts"
    "multiplicative n expr ts = binary n (parse_power n expr ts) multiplicative_operator ts"
    "additive n expr ts = binary n (multiplicative n expr ts) additive_operator ts"
    "comparison n expr ts = binary n (additive n expr ts) comparison_operator ts"
    "parse_and n expr ts = binary n (comparison n expr ts) and_operator ts"
    "parse_or n expr ts = binary n (parse_and n expr ts) or_operator ts"
    by (simp_all add: fun_eq_iff parse_power_def multiplicative_def additive_def comparison_def parse_and_def parse_or_def)
  show ?thesis unfolding fold_def
    by (intro binary_returns [OF assms(1)] unary) (simp_all add: operators_stop)
qed

lemma for_lands:
  assumes "good ts" "returns_from ts (n - 1) expr" "p < length ts" "length ts - p \<le> n" "current ts p \<noteq> TEof"
    and "\<not> P TEof"
  shows "lands ts (Suc p) (pbind (parse_name ts (bump ts p)) (\<lambda>variable p1.
     pbind (expect ts (\<lambda>k. k = TIn) m1 p1) (\<lambda>_ p2.
     pbind (parse_or n expr ts p2) (\<lambda>input p3.
     pbind (expect ts P m2 p3) (\<lambda>_ p4.
     pbind (expr p4) (\<lambda>printed p5. Some (Inr (f variable input printed, p5))))))))"
proof (rule lands_pbind)
  note b = bump_step [OF assms(1,3,5)]
  then show "lands ts (Suc (Suc p)) (parse_name ts (bump ts p))" using name_lands [OF assms(1)] by simp
  fix variable p1 assume p1: "Suc (Suc p) \<le> p1" "p1 < length ts"
  show "lands ts (Suc p) (pbind (expect ts (\<lambda>k. k = TIn) m1 p1) (\<lambda>_ p2.
     pbind (parse_or n expr ts p2) (\<lambda>input p3.
     pbind (expect ts P m2 p3) (\<lambda>_ p4.
     pbind (expr p4) (\<lambda>printed p5. Some (Inr (f variable input printed, p5)))))))"
    using p1 assms(4,6)
    by (intro lands_pbind [OF expect_lands [OF assms(1)]] lands_pbind [OF returns_fromD [OF or_returns [OF assms(1,2)]]]
        lands_pbind [OF returns_fromD [OF assms(2)]]) auto
qed

lemma for_expression_lands:
  assumes "good ts" "returns_from ts (n - 1) expr" "p < length ts" "length ts - p \<le> n" "current ts p \<noteq> TEof"
  shows "lands ts (Suc p) (for_expression n expr ts p)" "lands ts (Suc p) (quantified_expression n expr ts p)"
  unfolding for_expression_def quantified_expression_def Let_def by (rule for_lands [OF assms], simp)+

lemma if_lands:
  assumes "good ts" "returns_from ts (n - 1) expr" "p < length ts" "length ts - p \<le> n" "current ts p = TIf"
  shows "lands ts (Suc p) (if_expression expr ts p)"
  unfolding if_expression_def using bump_step [OF assms(1,3)] assms(3-5)
  by (intro lands_pbind [OF expect_lands [OF assms(1)]] lands_pbind [OF returns_fromD [OF assms(2)]]) auto

lemma expression_returns: "good ts \<Longrightarrow> returns_from ts n (expression (Suc n) ts)"
proof (induction n)
  case 0
  then show ?case by (simp add: returns_from_def)
next
  case (Suc n)
  let ?e = "expression (Suc n) ts"
  have expr: "returns_from ts (Suc n - 1) ?e" using Suc.IH [OF Suc.prems] by (simp only: diff_Suc_1)
  show ?case unfolding returns_from_def
  proof (intro allI impI)
    fix p assume p: "p < length ts" "length ts - p \<le> Suc n"
    show "lands ts (Suc p) (expression (Suc (Suc n)) ts p)"
      unfolding expression.simps(2) [of "Suc n"]
      using returns_fromD [OF or_returns [OF Suc.prems expr] p] if_lands [OF Suc.prems expr p]
        for_expression_lands [OF Suc.prems expr p]
      by (simp del: expression.simps split: token_kind.split)
  qed
qed

lemma parse_returns:
  assumes "good ts"
  obtains r where "parse ts = Some r"
proof -
  have "0 < length ts" using eof_last [OF assms] by simp
  then have "lands ts 1 (expression (parse_fuel ts) ts 0)"
    using returns_fromD [OF expression_returns [OF assms, of "length ts"], of 0] by (simp add: parse_fuel_def)
  then obtain x where "expression (parse_fuel ts) ts 0 = Some x" by (auto simp: lands_def)
  then show thesis using that by (cases x) (fastforce simp: parse_def split: prod.split)+
qed

end

lemma lex_loop_eof: "lex_loop start s = Inr ts \<Longrightarrow> ts \<noteq> [] \<and> token_kind (last ts) = TEof"
  by (induction start s arbitrary: ts rule: lex_loop.induct) (fastforce simp: Let_def split: if_splits sum.splits)+

interpretation lexer: token_vectors "\<lambda>ts. \<exists>source. lex source = Inr ts"
  by unfold_locales (auto simp: lex_def dest: lex_loop_eof)

section \<open>Printing\<close>

fun operator_token :: "binary_op \<Rightarrow> token_kind" where
  "operator_token Add = TPlus" | "operator_token Subtract = TMinus" | "operator_token Multiply = TStar"
| "operator_token Divide = TSlash" | "operator_token Power = TPower" | "operator_token And = TAnd"
| "operator_token Or = TOr" | "operator_token Equal = TEqual" | "operator_token NotEqual = TNotEqual"
| "operator_token Less = TLess" | "operator_token LessEqual = TLessEqual" | "operator_token Greater = TGreater"
| "operator_token GreaterEqual = TGreaterEqual" | "operator_token In = TIn"

fun precedence :: "binary_op \<Rightarrow> nat" where
  "precedence Or = 1" | "precedence And = 2" | "precedence Add = 4" | "precedence Subtract = 4"
| "precedence Multiply = 5" | "precedence Divide = 5" | "precedence Power = 6" | "precedence _ = 3"

fun natural_level :: "expr \<Rightarrow> nat" where
  "natural_level (EIf c t e) = 0" | "natural_level (EFor v i b) = 0" | "natural_level (EQuantified q v i p) = 0"
| "natural_level (EBinary op l r) = precedence op" | "natural_level (EUnary op e) = 7" | "natural_level _ = 8"

definition wrap :: "nat \<Rightarrow> expr \<Rightarrow> token_kind list \<Rightarrow> token_kind list" where
  "wrap l e ks = (if l \<le> natural_level e then ks else TLParen # ks @ [TRParen])"

fun separated :: "token_kind list list \<Rightarrow> token_kind list" where
  "separated [] = []"
| "separated (ks # kss) = ks @ concat (map ((#) TComma) kss)"

fun printed :: "expr \<Rightarrow> token_kind list" where
  "printed ENull = [TNull]"
| "printed (EBool b) = [if b then TTrue else TFalse]"
| "printed (ENumber v) = [TNumber v]"
| "printed (EString s) = [TString s]"
| "printed (EName n) = [TName n]"
| "printed (EList es) = TLBracket # separated (map printed es) @ [TRBracket]"
| "printed (EContext entries) =
     TLBrace # separated (map (\<lambda>(k, e). TString k # TColon # printed e) entries) @ [TRBrace]"
| "printed (ERange a b si ei) =
     (if si then TLBracket else TLParen) # printed a @ TDotDot # printed b @ [if ei then TRBracket else TRParen]"
| "printed (EUnary op e) = (if op = Negate then TMinus else TNot) # wrap 7 e (printed e)"
| "printed (EBinary op l r) =
     wrap (precedence op) l (printed l) @ operator_token op # wrap (Suc (precedence op)) r (printed r)"
| "printed (EIf c t e) = TIf # printed c @ TThen # printed t @ TElse # printed e"
| "printed (EPath t k) = wrap 8 t (printed t) @ [TDot, TName k]"
| "printed (EFilter t p) = wrap 8 t (printed t) @ TLBracket # printed p @ [TRBracket]"
| "printed (ECall f args) = TName f # TLParen # separated (map printed args) @ [TRParen]"
| "printed (EFor v i b) = TFor # TName v # TIn # wrap 1 i (printed i) @ TReturn # printed b"
| "printed (EQuantified q v i p) =
     (if q then TEvery else TSome) # TName v # TIn # wrap 1 i (printed i) @ TSatisfies # printed p"

definition unparse :: "expr \<Rightarrow> token_kind list" where
  "unparse e = printed e @ [TEof]"

definition tks :: "token list \<Rightarrow> nat \<Rightarrow> token_kind list" where
  "tks ts p = map token_kind (drop p ts)"

lemma tks_Cons:
  assumes "tks ts p = k # ks"
  shows "current ts p = k" "tks ts (Suc p) = ks" "ks \<noteq> [] \<Longrightarrow> bump ts p = Suc p" "previous ts (Suc p) = k"
proof -
  have p: "p < length ts" using assms by (cases "p < length ts") (auto simp: tks_def)
  then show "current ts p = k" "tks ts (Suc p) = ks" "previous ts (Suc p) = k"
    using assms by (auto simp: tks_def current_def previous_def simp flip: Cons_nth_drop_Suc)
  then show "ks \<noteq> [] \<Longrightarrow> bump ts p = Suc p" using p by (auto simp: tks_def bump_def)
qed

lemma tks_append: "tks ts p = ks @ rest \<Longrightarrow> tks ts (p + length ks) = rest"
proof (induction ks arbitrary: p)
  case (Cons k ks)
  then show ?case using tks_Cons(2) [of ts p k "ks @ rest"] Cons.IH [of "Suc p"] by simp
qed simp

text \<open>The operator of each binary level, and the method that parses it.\<close>

definition level_operator :: "nat \<Rightarrow> token_kind \<Rightarrow> binary_op option" where
  "level_operator l = (if l = 1 then or_operator else if l = 2 then and_operator else if l = 3 then comparison_operator
     else if l = 4 then additive_operator else if l = 5 then multiplicative_operator else power_operator)"

definition level :: "nat \<Rightarrow> nat \<Rightarrow> token list \<Rightarrow> nat \<Rightarrow> expr parsed" where
  "level l n ts = (let expr = expression n ts in
     if l = 0 then expression (Suc n) ts else if l = 1 then parse_or n expr ts else if l = 2 then parse_and n expr ts
     else if l = 3 then comparison n expr ts else if l = 4 then additive n expr ts else if l = 5 then multiplicative n expr ts
     else if l = 6 then parse_power n expr ts else if l = 7 then parse_unary n n expr ts else postfix n expr ts)"

lemma level_binary: "1 \<le> l \<Longrightarrow> l \<le> 6 \<Longrightarrow> level l n ts p = binary n (level (Suc l) n ts) (level_operator l) ts p"
  by (simp add: numeral_eq_Suc le_Suc_eq, elim disjE)
    (simp_all add: level_def level_operator_def Let_def parse_or_def parse_and_def comparison_def additive_def
      multiplicative_def parse_power_def fun_eq_iff eta_contract_eq)

definition stops :: "nat \<Rightarrow> token_kind \<Rightarrow> bool" where
  "stops l k \<longleftrightarrow> k \<notin> {TDot, TLBracket, TLParen} \<and> (\<forall>j \<in> {max l 1..6}. level_operator j k = None)"


definition parses :: "nat \<Rightarrow> expr \<Rightarrow> bool" where
  "parses l e \<longleftrightarrow> (\<forall>ts p n post. tks ts p = wrap l e (printed e) @ post \<longrightarrow> post \<noteq> [] \<longrightarrow> stops l (hd post)
     \<longrightarrow> length (tks ts p) \<le> n \<longrightarrow> level l n ts p = Some (Inr (e, p + length (wrap l e (printed e)))))"

definition reaches_loop :: "nat \<Rightarrow> expr \<Rightarrow> bool" where
  "reaches_loop l e \<longleftrightarrow> (\<forall>ts p n post. tks ts p = wrap l e (printed e) @ post \<longrightarrow> post \<noteq> [] \<longrightarrow> stops (Suc l) (hd post)
     \<longrightarrow> length (tks ts p) \<le> n \<longrightarrow> (\<exists>m \<ge> length post. level l n ts p
       = binary_loop m (level (Suc l) n ts) (level_operator l) ts e (p + length (wrap l e (printed e)))))"

definition reaches_postfix :: "expr \<Rightarrow> bool" where
  "reaches_postfix e \<longleftrightarrow> (\<forall>ts p n post. tks ts p = wrap 8 e (printed e) @ post \<longrightarrow> post \<noteq> [] \<longrightarrow> hd post \<noteq> TLParen
     \<longrightarrow> length (tks ts p) \<le> n \<longrightarrow> (\<exists>m \<ge> length post. postfix n (expression n ts) ts p
       = postfix_loop m (expression n ts) ts e (p + length (wrap 8 e (printed e)))))"

definition parses_unary :: "expr \<Rightarrow> bool" where
  "parses_unary e \<longleftrightarrow> (\<forall>ts p m n post. tks ts p = wrap 7 e (printed e) @ post \<longrightarrow> post \<noteq> [] \<longrightarrow> stops 7 (hd post)
     \<longrightarrow> length (tks ts p) \<le> m \<longrightarrow> length (tks ts p) \<le> n
     \<longrightarrow> parse_unary m n (expression n ts) ts p = Some (Inr (e, p + length (wrap 7 e (printed e)))))"

lemma stops_Suc: "stops l k \<Longrightarrow> stops (Suc l) k"
  by (auto simp: stops_def)

lemma parses_imp_reaches_loop:
  assumes "parses (Suc l) e" "1 \<le> l" "l \<le> 6" "l \<noteq> natural_level e"
  shows "reaches_loop l e"
proof -
  have w: "wrap l e (printed e) = wrap (Suc l) e (printed e)" using assms(4) by (simp add: wrap_def)
  show ?thesis unfolding reaches_loop_def w
  proof (intro allI impI)
    fix ts p n post
    assume a: "tks ts p = wrap (Suc l) e (printed e) @ post" "post \<noteq> []" "stops (Suc l) (hd post)" "length (tks ts p) \<le> n"
    then have "level (Suc l) n ts p = Some (Inr (e, p + length (wrap (Suc l) e (printed e))))"
      using assms(1) by (simp add: parses_def)
    moreover have "length post \<le> n" using a(1,4) by simp
    ultimately show "\<exists>m \<ge> length post. level l n ts p = binary_loop m (level (Suc l) n ts) (level_operator l) ts e
        (p + length (wrap (Suc l) e (printed e)))"
      by (intro exI [of _ n]) (simp add: level_binary [OF assms(2,3)] binary_def)
  qed
qed

lemma reaches_loop_imp_parses:
  assumes "reaches_loop l e" "1 \<le> l" "l \<le> 6"
  shows "parses l e"
  unfolding parses_def
proof (intro allI impI)
  fix ts p n post
  assume a: "tks ts p = wrap l e (printed e) @ post" "post \<noteq> []" "stops l (hd post)" "length (tks ts p) \<le> n"
  then obtain m where m: "length post \<le> m" "level l n ts p = binary_loop m (level (Suc l) n ts) (level_operator l) ts e
      (p + length (wrap l e (printed e)))"
    using assms(1) stops_Suc [OF a(3)] unfolding reaches_loop_def by blast
  from a(1) have "tks ts (p + length (wrap l e (printed e))) = hd post # tl post" using a(2) by (simp add: tks_append)
  then have "level_operator l (current ts (p + length (wrap l e (printed e)))) = None"
    using tks_Cons(1) a(3) assms(2,3) by (fastforce simp: stops_def)
  moreover obtain m' where "m = Suc m'" using m(1) a(2) by (cases m) auto
  ultimately show "level l n ts p = Some (Inr (e, p + length (wrap l e (printed e))))" using m(2) by simp
qed

lemma level_operator_token: "level_operator (precedence op) (operator_token op) = Some op"
  by (cases op) (simp_all add: level_operator_def or_operator_def and_operator_def comparison_operator_def
      additive_operator_def multiplicative_operator_def power_operator_def)

lemma stops_operator_token: "stops (Suc (precedence op)) (operator_token op)"
  by (cases op) (auto simp: stops_def level_operator_def or_operator_def and_operator_def comparison_operator_def
      additive_operator_def multiplicative_operator_def power_operator_def)

lemma precedence_range: "1 \<le> precedence op" "precedence op \<le> 6"
  by (cases op; simp)+

lemma reaches_loop_binary:
  assumes "reaches_loop (precedence op) a" "parses (Suc (precedence op)) b"
  shows "reaches_loop (precedence op) (EBinary op a b)"
  unfolding reaches_loop_def
proof (intro allI impI)
  let ?l = "precedence op" let ?w = "wrap ?l (EBinary op a b) (printed (EBinary op a b))"
  let ?wa = "wrap ?l a (printed a)" let ?wb = "wrap (Suc ?l) b (printed b)"
  fix ts p n post
  assume h: "tks ts p = ?w @ post" "post \<noteq> []" "stops (Suc ?l) (hd post)" "length (tks ts p) \<le> n"
  have t: "tks ts p = ?wa @ operator_token op # ?wb @ post" using h(1) by (simp add: wrap_def)
  obtain m where m: "Suc (length (?wb @ post)) \<le> m"
    "level ?l n ts p = binary_loop m (level (Suc ?l) n ts) (level_operator ?l) ts a (p + length ?wa)"
    using assms(1) t h(4) stops_operator_token unfolding reaches_loop_def by fastforce
  then obtain m' where m': "m = Suc m'" "length post \<le> m'" by (cases m) auto
  note c = tks_Cons [OF tks_append [OF t]]
  have b: "level (Suc ?l) n ts (Suc (p + length ?wa)) = Some (Inr (b, Suc (p + length ?wa) + length ?wb))"
    using assms(2) h(2-4) c(2) t unfolding parses_def by auto
  have "bump ts (p + length ?wa) = Suc (p + length ?wa)" using c(3) h(2) by simp
  then have "level ?l n ts p = binary_loop m' (level (Suc ?l) n ts) (level_operator ?l) ts (EBinary op a b) (p + length ?w)"
    using m(2) m'(1) c(1) b level_operator_token by (simp add: wrap_def add_ac)
  with m'(2) show "\<exists>m \<ge> length post. level ?l n ts p = binary_loop m (level (Suc ?l) n ts) (level_operator ?l) ts
      (EBinary op a b) (p + length ?w)" by blast
qed


lemma body_not_Nil [simp]: "printed e \<noteq> []"
  by (cases e) simp_all

lemma wrap_not_Nil [simp]: "wrap l e (printed e) \<noteq> []"
  by (simp add: wrap_def)

lemma hd_wrap: "hd (wrap l e (printed e)) = (if l \<le> natural_level e then hd (printed e) else TLParen)"
  by (simp add: wrap_def)

lemma first_token_both:
  "(1 \<le> natural_level e \<longrightarrow> hd (printed e) \<notin> {TIf, TFor, TSome, TEvery})
   \<and> (8 \<le> natural_level e \<longrightarrow> hd (printed e) \<notin> {TIf, TFor, TSome, TEvery, TMinus, TNot})"
proof (induction e)
  case (EBinary op l r)
  have "1 \<le> precedence op" "precedence op < 8" using precedence_range [of op] by auto
  then show ?case using EBinary.IH(1) by (auto simp: hd_wrap hd_append)
qed (auto simp: hd_wrap hd_append)

lemma first_token:
  "1 \<le> natural_level e \<Longrightarrow> hd (printed e) \<notin> {TIf, TFor, TSome, TEvery}"
  "8 \<le> natural_level e \<Longrightarrow> hd (printed e) \<notin> {TIf, TFor, TSome, TEvery, TMinus, TNot}"
  using first_token_both [of e] by simp_all

lemma parses_zero:
  assumes "parses 1 e" "1 \<le> natural_level e"
  shows "parses 0 e"
  unfolding parses_def
proof (intro allI impI)
  fix ts p n post
  assume h: "tks ts p = wrap 0 e (printed e) @ post" "post \<noteq> []" "stops 0 (hd post)" "length (tks ts p) \<le> n"
  have w: "wrap 0 e (printed e) = wrap 1 e (printed e)" using assms(2) by (simp add: wrap_def)
  have "tks ts p = hd (printed e) # tl (printed e) @ post" using h(1) by (simp add: wrap_def)
  then have "current ts p = hd (printed e)" by (rule tks_Cons(1))
  then have "level 0 n ts p = level 1 n ts p" using first_token(1) [OF assms(2)]
    by (auto simp: level_def Let_def split: token_kind.split)
  moreover have "stops 1 (hd post)" using stops_Suc [OF h(3)] by simp
  ultimately show "level 0 n ts p = Some (Inr (e, p + length (wrap 0 e (printed e))))"
    using assms(1) h w unfolding parses_def by simp
qed

lemma expression_parses:
  assumes "parses 0 e" "tks ts p = printed e @ post" "post \<noteq> []" "stops 0 (hd post)" "length (tks ts p) < n"
  shows "expression n ts p = Some (Inr (e, p + length (printed e)))"
proof -
  have "level 0 (n - 1) ts p = Some (Inr (e, p + length (wrap 0 e (printed e))))"
    using assms unfolding parses_def by (auto simp: wrap_def)
  moreover obtain n' where "n = Suc n'" using assms(5) by (cases n) auto
  ultimately show ?thesis by (simp add: level_def wrap_def Let_def)
qed

lemma parses_unary_imp_parses: "parses_unary e \<Longrightarrow> parses 7 e"
  unfolding parses_def parses_unary_def by (auto simp: level_def Let_def)

lemma postfix_imp_unary:
  assumes "parses 8 e" "natural_level e \<noteq> 7"
  shows "parses_unary e"
  unfolding parses_unary_def
proof (intro allI impI)
  fix ts p m n post
  assume h: "tks ts p = wrap 7 e (printed e) @ post" "post \<noteq> []" "stops 7 (hd post)" "length (tks ts p) \<le> m" "length (tks ts p) \<le> n"
  have w: "wrap 7 e (printed e) = wrap 8 e (printed e)" using assms(2) by (auto simp: wrap_def)
  have "current ts p = hd (wrap 8 e (printed e))"
    using h(1) w tks_Cons(1) [of ts p "hd (wrap 8 e (printed e))" "tl (wrap 8 e (printed e)) @ post"] by simp
  then have "current ts p \<noteq> TMinus" "current ts p \<noteq> TNot" using first_token(2) [of e] by (auto simp: hd_wrap split: if_splits)
  moreover obtain m' where "m = Suc m'" using h(1,2,4) by (cases m) auto
  ultimately have "parse_unary m n (expression n ts) ts p = level 8 n ts p" by (simp add: level_def Let_def)
  then show "parse_unary m n (expression n ts) ts p = Some (Inr (e, p + length (wrap 7 e (printed e))))"
    using assms(1) h w stops_Suc [of 7] unfolding parses_def by simp
qed

lemma unary_parses:
  assumes "parses_unary e"
  shows "parses_unary (EUnary op e)"
  unfolding parses_unary_def
proof (intro allI impI)
  fix ts p m n post
  assume h: "tks ts p = wrap 7 (EUnary op e) (printed (EUnary op e)) @ post" "post \<noteq> []" "stops 7 (hd post)"
    "length (tks ts p) \<le> m" "length (tks ts p) \<le> n"
  have t: "tks ts p = (if op = Negate then TMinus else TNot) # wrap 7 e (printed e) @ post" using h(1) by (simp add: wrap_def)
  note c = tks_Cons [OF t]
  obtain m' where m: "m = Suc m'" using h(4) t by (cases m) auto
  have "parse_unary m' n (expression n ts) ts (Suc p) = Some (Inr (e, Suc p + length (wrap 7 e (printed e))))"
    using assms c(2) h m t unfolding parses_unary_def by simp
  then show "parse_unary m n (expression n ts) ts p
      = Some (Inr (EUnary op e, p + length (wrap 7 (EUnary op e) (printed (EUnary op e)))))"
    using c(1,3) m by (cases op) (simp_all add: wrap_def)
qed

lemma reaches_postfix_imp_parses:
  assumes "reaches_postfix e"
  shows "parses 8 e"
  unfolding parses_def
proof (intro allI impI)
  fix ts p n post
  assume h: "tks ts p = wrap 8 e (printed e) @ post" "post \<noteq> []" "stops 8 (hd post)" "length (tks ts p) \<le> n"
  then obtain m where m: "length post \<le> m" "postfix n (expression n ts) ts p
      = postfix_loop m (expression n ts) ts e (p + length (wrap 8 e (printed e)))"
    using assms unfolding reaches_postfix_def stops_def by blast
  have "tks ts (p + length (wrap 8 e (printed e))) = hd post # tl post" using h(1,2) by (simp add: tks_append)
  then have "current ts (p + length (wrap 8 e (printed e))) \<notin> {TDot, TLBracket}"
    using tks_Cons(1) h(3) by (fastforce simp: stops_def)
  moreover obtain m' where "m = Suc m'" using m(1) h(2) by (cases m) auto
  ultimately show "level 8 n ts p = Some (Inr (e, p + length (wrap 8 e (printed e))))"
    using m(2) by (simp add: level_def Let_def)
qed

text \<open>A primary expression, and the printed forms that \<open>primary\<close> reads back on its own.\<close>

definition parses_primary :: "token_kind list \<Rightarrow> expr \<Rightarrow> bool" where
  "parses_primary ks e \<longleftrightarrow> (\<forall>ts p n post. tks ts p = ks @ post \<longrightarrow> post \<noteq> [] \<longrightarrow> hd post \<noteq> TLParen
     \<longrightarrow> length (tks ts p) \<le> n \<longrightarrow> primary n (expression n ts) ts p = Some (Inr (e, p + length ks)))"

lemma primary_imp_postfix:
  assumes "parses_primary (wrap 8 e (printed e)) e"
  shows "reaches_postfix e"
  unfolding reaches_postfix_def
proof (intro allI impI)
  fix ts p n post
  assume h: "tks ts p = wrap 8 e (printed e) @ post" "post \<noteq> []" "hd post \<noteq> TLParen" "length (tks ts p) \<le> n"
  then have "primary n (expression n ts) ts p = Some (Inr (e, p + length (wrap 8 e (printed e))))"
    using assms unfolding parses_primary_def by blast
  moreover have "length post \<le> n" using h(1,4) by simp
  ultimately show "\<exists>m \<ge> length post. postfix n (expression n ts) ts p
      = postfix_loop m (expression n ts) ts e (p + length (wrap 8 e (printed e)))"
    by (intro exI [of _ n]) (simp add: postfix_def)
qed

lemma path_reaches_postfix:
  assumes "reaches_postfix t"
  shows "reaches_postfix (EPath t k)"
  unfolding reaches_postfix_def
proof (intro allI impI)
  let ?w = "wrap 8 t (printed t)" let ?e = "EPath t k"
  fix ts p n post
  assume h: "tks ts p = wrap 8 ?e (printed ?e) @ post" "post \<noteq> []" "hd post \<noteq> TLParen" "length (tks ts p) \<le> n"
  have t: "tks ts p = ?w @ TDot # TName k # post" using h(1) by (simp add: wrap_def)
  then obtain m where m: "length (TDot # TName k # post) \<le> m" "postfix n (expression n ts) ts p
      = postfix_loop m (expression n ts) ts t (p + length ?w)"
    using assms h(4) unfolding reaches_postfix_def by fastforce
  note c = tks_Cons [OF tks_append [OF t]]
  note d = tks_Cons [OF c(2)]
  obtain m' where "m = Suc m'" "length post \<le> m'" using m(1) by (cases m) auto
  then show "\<exists>m \<ge> length post. postfix n (expression n ts) ts p
      = postfix_loop m (expression n ts) ts ?e (p + length (wrap 8 ?e (printed ?e)))"
    using m(2) c(1,3) d(1,3) h(2) by (intro exI [of _ m']) (simp add: parse_name_def wrap_def)
qed

lemma filter_reaches_postfix:
  assumes "reaches_postfix t" "parses 0 f"
  shows "reaches_postfix (EFilter t f)"
  unfolding reaches_postfix_def
proof (intro allI impI)
  let ?w = "wrap 8 t (printed t)" let ?e = "EFilter t f"
  fix ts p n post
  assume h: "tks ts p = wrap 8 ?e (printed ?e) @ post" "post \<noteq> []" "hd post \<noteq> TLParen" "length (tks ts p) \<le> n"
  have t: "tks ts p = ?w @ TLBracket # printed f @ TRBracket # post" using h(1) by (simp add: wrap_def)
  then obtain m where m: "length (TLBracket # printed f @ TRBracket # post) \<le> m" "postfix n (expression n ts) ts p
      = postfix_loop m (expression n ts) ts t (p + length ?w)"
    using assms(1) h(4) unfolding reaches_postfix_def by fastforce
  note c = tks_Cons [OF tks_append [OF t]]
  have stop: "stops 0 TRBracket" by (simp add: stops_def level_operator_def or_operator_def and_operator_def
      comparison_operator_def additive_operator_def multiplicative_operator_def power_operator_def)
  have f: "expression n ts (Suc (p + length ?w)) = Some (Inr (f, Suc (p + length ?w) + length (printed f)))"
    by (rule expression_parses [OF assms(2) c(2)]) (use stop h(4) t c(2) in auto)
  note d = tks_Cons [OF tks_append [OF c(2)]]
  obtain m' where "m = Suc m'" "length post \<le> m'" using m(1) by (cases m) auto
  then show "\<exists>m \<ge> length post. postfix n (expression n ts) ts p
      = postfix_loop m (expression n ts) ts ?e (p + length (wrap 8 ?e (printed ?e)))"
    using m(2) c(1,3) d(1,3) f h(2)
    by (intro exI [of _ m']) (simp add: expect_def wrap_def [of 8 ?e] add.commute add.left_commute)
qed


section \<open>Primary expressions\<close>

lemma stops_closing [simp]:
  "stops 0 TRParen" "stops 0 TRBracket" "stops 0 TRBrace" "stops 0 TComma" "stops 0 TDotDot" "stops 0 TThen" "stops 0 TElse"
  "stops 0 TEof" "stops 1 TReturn" "stops 1 TSatisfies"
  by (simp_all add: stops_def level_operator_def or_operator_def and_operator_def
      comparison_operator_def additive_operator_def multiplicative_operator_def power_operator_def)

lemma parses_primaryI:
  assumes "\<And>ts p n post. tks ts p = ks @ post \<Longrightarrow> post \<noteq> [] \<Longrightarrow> hd post \<noteq> TLParen \<Longrightarrow> length (tks ts p) \<le> n
    \<Longrightarrow> primary n (expression n ts) ts p = Some (Inr (e, p + length ks))"
  shows "parses_primary ks e"
  using assms by (simp add: parses_primary_def)

lemma atom_primary:
  "parses_primary [TNull] ENull" "parses_primary [if b then TTrue else TFalse] (EBool b)"
  "parses_primary [TNumber v] (ENumber v)" "parses_primary [TString s] (EString s)"
proof -
  have "parses_primary [k] e" if "\<And>ts p n expr. current ts p = k \<Longrightarrow> primary n expr ts p = Some (Inr (e, bump ts p))" for k e
    by (rule parses_primaryI) (use that tks_Cons in fastforce)
  then show "parses_primary [TNull] ENull" "parses_primary [if b then TTrue else TFalse] (EBool b)"
    "parses_primary [TNumber v] (ENumber v)" "parses_primary [TString s] (EString s)"
    by (auto simp: primary_def)
qed

lemma hd_body_open: "hd (printed e) \<notin> {TRParen, TRBracket, TRBrace}"
proof -
  have "operator_token op \<notin> {TRParen, TRBracket, TRBrace}" for op by (cases op) simp_all
  then show ?thesis by (induction e) (auto simp: hd_wrap hd_append)
qed

lemma current_body: "tks ts p = printed e @ post \<Longrightarrow> current ts p = hd (printed e)"
  by (rule tks_Cons(1) [of _ _ _ "tl (printed e) @ post"]) simp

lemma name_primary: "parses_primary [TName x] (EName x)"
proof (rule parses_primaryI)
  fix ts p n post assume h: "tks ts p = [TName x] @ post" "post \<noteq> []" "hd post \<noteq> TLParen" "length (tks ts p) \<le> n"
  then have "tks ts p = TName x # hd post # tl post" by simp
  note c = tks_Cons [OF this]
  from tks_Cons(1) [OF c(2)] c h(2,3) show "primary n (expression n ts) ts p = Some (Inr (EName x, p + length [TName x]))"
    by (simp add: primary_def name_or_call_def)
qed

lemma paren_primary:
  assumes "parses 0 e"
  shows "parses_primary (TLParen # printed e @ [TRParen]) e"
proof (rule parses_primaryI)
  fix ts p n post assume h: "tks ts p = (TLParen # printed e @ [TRParen]) @ post" "post \<noteq> []" "length (tks ts p) \<le> n"
  then have t: "tks ts p = TLParen # printed e @ TRParen # post" by simp
  note c = tks_Cons [OF t]
  note d = tks_Cons [OF tks_append [OF c(2)]]
  have "expression n ts (Suc p) = Some (Inr (e, Suc p + length (printed e)))"
    by (rule expression_parses [OF assms c(2)]) (use h(3) t c(2) in auto)
  with c d h(2) show "primary n (expression n ts) ts p = Some (Inr (e, p + length (TLParen # printed e @ [TRParen])))"
    by (simp add: primary_def group_or_range_def expect_def)
qed

lemma range_primary:
  assumes "parses 0 a" "parses 0 b"
  shows "parses_primary (printed (ERange a b si ei)) (ERange a b si ei)"
proof (rule parses_primaryI)
  let ?close = "if ei then TRBracket else TRParen"
  fix ts p n post assume h: "tks ts p = printed (ERange a b si ei) @ post" "post \<noteq> []" "length (tks ts p) \<le> n"
  then have t: "tks ts p = (if si then TLBracket else TLParen) # printed a @ TDotDot # printed b @ ?close # post" by simp
  note c = tks_Cons [OF t]
  note d = tks_Cons [OF tks_append [OF c(2)]]
  note f = tks_Cons [OF tks_append [OF d(2)]]
  have a: "expression n ts (Suc p) = Some (Inr (a, Suc p + length (printed a)))"
    by (rule expression_parses [OF assms(1) c(2)]) (use h(3) t c(2) in auto)
  have b: "expression n ts (Suc (Suc p + length (printed a))) = Some (Inr (b, Suc (Suc p + length (printed a)) + length (printed b)))"
    by (rule expression_parses [OF assms(2) d(2)]) (use h(3) t d(2) in auto)
  have "current ts (Suc p) \<noteq> TRBracket" using current_body [OF c(2)] hd_body_open [of a] by auto
  with a b c d f h(2) show "primary n (expression n ts) ts p = Some (Inr (ERange a b si ei, p + length (printed (ERange a b si ei))))"
    by (cases si; cases ei) (simp_all add: primary_def group_or_range_def list_or_range_def expect_def Let_def)
qed


lemma call_arguments_parse:
  assumes "\<forall>e \<in> set es. parses 0 e" "es \<noteq> []" "tks ts p = separated (map printed es) @ TRParen # post"
    and "length (tks ts p) < n" "length (tks ts p) < k"
  shows "call_arguments k (expression n ts) ts args p = Some (Inr (args @ es, p + length (separated (map printed es))))"
  using assms
proof (induction es arbitrary: args p k)
  case (Cons e es)
  let ?rest = "concat (map ((#) TComma) (map printed es)) @ TRParen # post"
  have t: "tks ts p = printed e @ ?rest" using Cons.prems(3) by simp
  note c = tks_append [OF t]
  have stop: "?rest \<noteq> []" "stops 0 (hd ?rest)" by (cases es; simp)+
  have e: "expression n ts p = Some (Inr (e, p + length (printed e)))"
    by (rule expression_parses [OF _ t stop Cons.prems(4)]) (use Cons.prems(1) in simp)
  obtain k' where k: "k = Suc k'" using Cons.prems(5) by (cases k) auto
  show ?case
  proof (cases es)
    case Nil
    with c have "current ts (p + length (printed e)) = TRParen" by (simp add: tks_Cons(1))
    with e k Nil show ?thesis by simp
  next
    case (Cons e' es')
    then have c': "tks ts (p + length (printed e)) = TComma # separated (map printed es) @ TRParen # post" using c by simp
    note d = tks_Cons [OF c']
    have "call_arguments k' (expression n ts) ts (args @ [e]) (Suc (p + length (printed e)))
        = Some (Inr ((args @ [e]) @ es, Suc (p + length (printed e)) + length (separated (map printed es))))"
      by (rule Cons.IH) (use Cons.prems Cons d(2) k t c' in auto)
    with e k d(1,3) Cons show ?thesis by simp
  qed
qed simp

lemma call_primary:
  assumes "\<forall>e \<in> set es. parses 0 e"
  shows "parses_primary (printed (ECall f es)) (ECall f es)"
proof (rule parses_primaryI)
  fix ts p n post assume h: "tks ts p = printed (ECall f es) @ post" "post \<noteq> []" "length (tks ts p) \<le> n"
  then have t: "tks ts p = TName f # TLParen # separated (map printed es) @ TRParen # post" by simp
  note c = tks_Cons [OF t]
  note d = tks_Cons [OF c(2)]
  note f = tks_Cons [OF tks_append [OF d(2)]]
  show "primary n (expression n ts) ts p = Some (Inr (ECall f es, p + length (printed (ECall f es))))"
  proof (cases es)
    case Nil
    with c d f h(2) show ?thesis by (simp add: primary_def name_or_call_def Let_def expect_def)
  next
    case (Cons e es')
    have "current ts (Suc (Suc p)) \<noteq> TRParen" using d(2) Cons hd_body_open [of e]
      by (auto simp: current_body [of ts _ e "concat (map ((#) TComma) (map printed es')) @ TRParen # post"])
    moreover have "call_arguments n (expression n ts) ts [] (Suc (Suc p)) = Some (Inr ([] @ es, Suc (Suc p) + length (separated (map printed es))))"
      by (rule call_arguments_parse [OF assms _ d(2)]) (use Cons h(3) t d(2) in auto)
    ultimately show ?thesis using c d f h(2) by (simp add: primary_def name_or_call_def Let_def expect_def)
  qed
qed

lemma list_items_parse:
  assumes "\<forall>e \<in> set es. parses 0 e" "tks ts p = concat (map ((#) TComma) (map printed es)) @ TRBracket # post"
    and "length (tks ts p) \<le> n" "length (tks ts p) \<le> k"
  shows "list_items k (expression n ts) ts values p
    = Some (Inr (values @ es, p + length (concat (map ((#) TComma) (map printed es)))))"
  using assms
proof (induction es arbitrary: "values" p k)
  case Nil
  then obtain k' where "k = Suc k'" by (cases k) auto
  with Nil show ?case by (simp add: tks_Cons(1))
next
  case (Cons e es)
  let ?rest = "concat (map ((#) TComma) (map printed es)) @ TRBracket # post"
  have t: "tks ts p = TComma # printed e @ ?rest" using Cons.prems(2) by simp
  note c = tks_Cons [OF t]
  have stop: "?rest \<noteq> []" "stops 0 (hd ?rest)" by (cases es; simp)+
  have e: "expression n ts (Suc p) = Some (Inr (e, Suc p + length (printed e)))"
    by (rule expression_parses [OF _ c(2) stop]) (use Cons.prems(1,3) t c(2) in auto)
  obtain k' where k: "k = Suc k'" using Cons.prems(4) t by (cases k) auto
  have "list_items k' (expression n ts) ts (values @ [e]) (Suc p + length (printed e))
      = Some (Inr ((values @ [e]) @ es, Suc p + length (printed e) + length (concat (map ((#) TComma) (map printed es)))))"
    by (rule Cons.IH) (use Cons.prems(1,3,4) tks_append [OF c(2)] k t in auto)
  with e k c(1,3) show ?case by simp
qed

lemma list_primary:
  assumes "\<forall>e \<in> set es. parses 0 e"
  shows "parses_primary (printed (EList es)) (EList es)"
proof (rule parses_primaryI)
  fix ts p n post assume h: "tks ts p = printed (EList es) @ post" "post \<noteq> []" "length (tks ts p) \<le> n"
  then have t: "tks ts p = TLBracket # separated (map printed es) @ TRBracket # post" by simp
  note c = tks_Cons [OF t]
  note f = tks_Cons [OF tks_append [OF c(2)]]
  show "primary n (expression n ts) ts p = Some (Inr (EList es, p + length (printed (EList es))))"
  proof (cases es)
    case Nil
    with c f h(2) show ?thesis by (simp add: primary_def list_or_range_def Let_def)
  next
    case (Cons e es')
    let ?rest = "concat (map ((#) TComma) (map printed es')) @ TRBracket # post"
    have c2: "tks ts (Suc p) = printed e @ ?rest" using c(2) Cons by simp
    have stop: "?rest \<noteq> []" "stops 0 (hd ?rest)" "hd ?rest \<noteq> TDotDot" by (cases es'; simp)+
    have e: "expression n ts (Suc p) = Some (Inr (e, Suc p + length (printed e)))"
      by (rule expression_parses [OF _ c2 stop(1,2)]) (use assms Cons h(3) t c(2) in auto)
    have dots: "current ts (Suc p + length (printed e)) \<noteq> TDotDot"
      using tks_Cons(1) [of ts _ "hd ?rest" "tl ?rest"] tks_append [OF c2] stop(1,3) by simp
    have "list_items n (expression n ts) ts [e] (Suc p + length (printed e))
        = Some (Inr ([e] @ es', Suc p + length (printed e) + length (concat (map ((#) TComma) (map printed es')))))"
      by (rule list_items_parse [OF _ tks_append [OF c2]]) (use assms Cons h(3) t tks_append [OF c2] in auto)
    moreover have "current ts (Suc p) \<noteq> TRBracket" using current_body [OF c2] hd_body_open [of e] by auto
    ultimately show ?thesis using c f h(2) e dots Cons
      by (simp add: primary_def list_or_range_def Let_def expect_def add.assoc)
  qed
qed


abbreviation entry_tokens :: "string \<times> expr \<Rightarrow> token_kind list" where
  "entry_tokens \<equiv> \<lambda>(k, e). TString k # TColon # printed e"

lemma context_entries_parse:
  assumes "\<forall>(x, e) \<in> set es. parses 0 e" "es \<noteq> []" "tks ts p = separated (map entry_tokens es) @ TRBrace # post"
    and "length (tks ts p) < n" "length (tks ts p) < k"
  shows "context_entries k (expression n ts) ts entries p
    = Some (Inr (entries @ es, p + length (separated (map entry_tokens es))))"
  using assms
proof (induction es arbitrary: entries p k)
  case (Cons entry es)
  obtain x e where entry: "entry = (x, e)" by fastforce
  let ?rest = "concat (map ((#) TComma) (map entry_tokens es)) @ TRBrace # post"
  have t: "tks ts p = TString x # TColon # printed e @ ?rest" using Cons.prems(3) entry by simp
  note a = tks_Cons [OF t]
  note b = tks_Cons [OF a(2)]
  note c = tks_append [OF b(2)]
  have stop: "?rest \<noteq> []" "stops 0 (hd ?rest)" by (cases es; simp)+
  have e: "expression n ts (Suc (Suc p)) = Some (Inr (e, Suc (Suc p) + length (printed e)))"
    by (rule expression_parses [OF _ b(2) stop]) (use Cons.prems(1,4) entry t b(2) in auto)
  obtain k' where k: "k = Suc k'" using Cons.prems(5) by (cases k) auto
  have key: "context_key ts p = Some (Inr (x, Suc p))" "expect ts (\<lambda>k. k = TColon) m (Suc p) = Some (Inr ((), Suc (Suc p)))" for m
    using a b stop by (simp_all add: context_key_def expect_def)
  show ?case
  proof (cases es)
    case Nil
    with c have "current ts (Suc (Suc p) + length (printed e)) = TRBrace" by (simp add: tks_Cons(1))
    with e k Nil entry key show ?thesis by simp
  next
    case (Cons e' es')
    then have c': "tks ts (Suc (Suc p) + length (printed e)) = TComma # separated (map entry_tokens es) @ TRBrace # post"
      using c by simp
    note d = tks_Cons [OF c']
    have "context_entries k' (expression n ts) ts (entries @ [(x, e)]) (Suc (Suc (Suc p) + length (printed e)))
        = Some (Inr ((entries @ [(x, e)]) @ es, Suc (Suc (Suc p) + length (printed e)) + length (separated (map entry_tokens es))))"
      by (rule Cons.IH) (use Cons.prems Cons d(2) k t c' in auto)
    with e k d(1,3) Cons entry key show ?thesis by simp
  qed
qed simp

lemma context_primary:
  assumes "\<forall>(x, e) \<in> set es. parses 0 e"
  shows "parses_primary (printed (EContext es)) (EContext es)"
proof (rule parses_primaryI)
  fix ts p n post assume h: "tks ts p = printed (EContext es) @ post" "post \<noteq> []" "length (tks ts p) \<le> n"
  then have t: "tks ts p = TLBrace # separated (map entry_tokens es) @ TRBrace # post" by simp
  note c = tks_Cons [OF t]
  note f = tks_Cons [OF tks_append [OF c(2)]]
  show "primary n (expression n ts) ts p = Some (Inr (EContext es, p + length (printed (EContext es))))"
  proof (cases es)
    case Nil
    with c f h(2) show ?thesis by (simp add: primary_def parse_context_def Let_def expect_def)
  next
    case (Cons e es')
    obtain x a where "e = (x, a)" by fastforce
    then have "current ts (Suc p) = TString x" using c(2) Cons by (simp add: tks_Cons(1))
    moreover have "context_entries n (expression n ts) ts [] (Suc p) = Some (Inr ([] @ es, Suc p + length (separated (map entry_tokens es))))"
      by (rule context_entries_parse [OF assms _ c(2)]) (use Cons h(3) t c(2) in auto)
    ultimately show ?thesis using c f h(2) by (simp add: primary_def parse_context_def Let_def expect_def)
  qed
qed

section \<open>The keyword forms\<close>

lemma parses_zeroI:
  assumes "natural_level e = 0" and "\<And>ts p n post. tks ts p = printed e @ post \<Longrightarrow> post \<noteq> [] \<Longrightarrow> stops 0 (hd post)
    \<Longrightarrow> length (tks ts p) \<le> n \<Longrightarrow> expression (Suc n) ts p = Some (Inr (e, p + length (printed e)))"
  shows "parses 0 e"
  unfolding parses_def using assms by (simp add: level_def wrap_def Let_def del: expression.simps)

lemma if_parses:
  assumes "parses 0 c" "parses 0 t" "parses 0 e"
  shows "parses 0 (EIf c t e)"
proof (rule parses_zeroI)
  fix ts p n post assume h: "tks ts p = printed (EIf c t e) @ post" "post \<noteq> []" "stops 0 (hd post)" "length (tks ts p) \<le> n"
  then have t: "tks ts p = TIf # printed c @ TThen # printed t @ TElse # printed e @ post" by simp
  note a = tks_Cons [OF t]
  note b = tks_Cons [OF tks_append [OF a(2)]]
  note d = tks_Cons [OF tks_append [OF b(2)]]
  have "expression n ts (Suc p) = Some (Inr (c, Suc p + length (printed c)))"
    by (rule expression_parses [OF assms(1) a(2)]) (use h(4) t a(2) in auto)
  moreover have "expression n ts (Suc (Suc p + length (printed c))) = Some (Inr (t, Suc (Suc p + length (printed c)) + length (printed t)))"
    by (rule expression_parses [OF assms(2) b(2)]) (use h(4) t b(2) in auto)
  moreover have "expression n ts (Suc (Suc (Suc p + length (printed c)) + length (printed t)))
      = Some (Inr (e, Suc (Suc (Suc p + length (printed c)) + length (printed t)) + length (printed e)))"
    by (rule expression_parses [OF assms(3) d(2) h(2,3)]) (use h(4) t d(2) in auto)
  ultimately show "expression (Suc n) ts p = Some (Inr (EIf c t e, p + length (printed (EIf c t e))))"
    using a(1,3) b(1,3) d(1,3) by (simp add: if_expression_def expect_def add.assoc)
qed simp

lemma loop_parses:
  assumes "parses 1 i" "parses 0 b" and h: "tks ts p = k # TName v # TIn # wrap 1 i (printed i) @ c # printed b @ post"
    "post \<noteq> []" "stops 0 (hd post)" "stops 1 c" "length (tks ts p) \<le> n"
  shows "pbind (parse_name ts (bump ts p)) (\<lambda>variable p1.
     pbind (expect ts (\<lambda>k. k = TIn) m1 p1) (\<lambda>_ p2.
     pbind (parse_or n (expression n ts) ts p2) (\<lambda>input p3.
     pbind (expect ts (\<lambda>k. k = c) m2 p3) (\<lambda>_ p4.
     pbind (expression n ts p4) (\<lambda>printed p5. Some (Inr (f variable input printed, p5)))))))
    = Some (Inr (f v i b, p + length (k # TName v # TIn # wrap 1 i (printed i) @ c # printed b)))"
proof -
  note a = tks_Cons [OF h(1)]
  note d = tks_Cons [OF a(2)]
  note e = tks_Cons [OF d(2)]
  note g = tks_Cons [OF tks_append [OF e(2)]]
  have "level 1 n ts (Suc (Suc (Suc p))) = Some (Inr (i, Suc (Suc (Suc p)) + length (wrap 1 i (printed i))))"
    using assms(1) e(2) h unfolding parses_def by simp
  then have "parse_or n (expression n ts) ts (Suc (Suc (Suc p)))
      = Some (Inr (i, Suc (Suc (Suc p)) + length (wrap 1 i (printed i))))" by (simp add: level_def Let_def)
  moreover have "expression n ts (Suc (Suc (Suc (Suc p)) + length (wrap 1 i (printed i))))
      = Some (Inr (b, Suc (Suc (Suc (Suc p)) + length (wrap 1 i (printed i))) + length (printed b)))"
    by (rule expression_parses [OF assms(2) g(2) h(2,3)]) (use h(1,5) g(2) in auto)
  ultimately show ?thesis
    using a(3) d(1,3) e(1,3) g(1,3) by (simp add: parse_name_def expect_def add.assoc)
qed

lemma for_parses:
  assumes "parses 1 i" "parses 0 b"
  shows "parses 0 (EFor v i b)"
proof (rule parses_zeroI)
  fix ts p n post assume h: "tks ts p = printed (EFor v i b) @ post" "post \<noteq> []" "stops 0 (hd post)" "length (tks ts p) \<le> n"
  then have t: "tks ts p = TFor # TName v # TIn # wrap 1 i (printed i) @ TReturn # printed b @ post" by simp
  show "expression (Suc n) ts p = Some (Inr (EFor v i b, p + length (printed (EFor v i b))))"
    using tks_Cons(1) [OF t] loop_parses [OF assms t h(2,3) stops_closing(9) h(4)] by (simp add: for_expression_def)
qed simp

lemma quantified_parses:
  assumes "parses 1 i" "parses 0 b"
  shows "parses 0 (EQuantified q v i b)"
proof (rule parses_zeroI)
  fix ts p n post
  assume h: "tks ts p = printed (EQuantified q v i b) @ post" "post \<noteq> []" "stops 0 (hd post)" "length (tks ts p) \<le> n"
  then have t: "tks ts p = (if q then TEvery else TSome) # TName v # TIn # wrap 1 i (printed i) @ TSatisfies # printed b @ post" by simp
  show "expression (Suc n) ts p = Some (Inr (EQuantified q v i b, p + length (printed (EQuantified q v i b))))"
    using tks_Cons(1) [OF t] loop_parses [OF assms t h(2,3) stops_closing(10) h(4)] by (cases q) (simp_all add: quantified_expression_def Let_def)
qed simp

section \<open>All levels\<close>

definition parses_all :: "expr \<Rightarrow> bool" where
  "parses_all e \<longleftrightarrow> (\<forall>l \<le> 8. parses l e) \<and> (\<forall>l. 1 \<le> l \<longrightarrow> l \<le> 6 \<longrightarrow> reaches_loop l e) \<and> parses_unary e \<and> reaches_postfix e"

text \<open>From one level down to the first level at which the printed form changes.\<close>

lemma parses_down:
  assumes "parses k e" "k \<le> 7" "l \<le> k" "1 \<le> l" "\<forall>j. l \<le> j \<longrightarrow> j < k \<longrightarrow> j \<noteq> natural_level e"
  shows "parses l e"
  using assms(3)
proof (induction rule: inc_induct)
  case base
  show ?case by (rule assms(1))
next
  case (step j)
  then have "reaches_loop j e" using assms(2,4,5) by (intro parses_imp_reaches_loop) auto
  then show ?case using step.hyps assms(2,4) by (intro reaches_loop_imp_parses) auto
qed

lemma parses_all_of_primary:
  assumes "reaches_postfix e" "8 \<le> natural_level e"
  shows "parses_all e"
proof -
  have p8: "parses 8 e" using assms(1) by (rule reaches_postfix_imp_parses)
  have u: "parses_unary e" using p8 assms(2) by (intro postfix_imp_unary) auto
  have low: "parses l e" if "1 \<le> l" "l \<le> 7" for l
    using that assms(2) by (intro parses_down [OF parses_unary_imp_parses [OF u]]) auto
  have zero: "parses 0 e" using low assms(2) by (intro parses_zero) auto
  have "parses l e" if "l \<le> 8" for l
    using that low [of l] zero p8 by (cases "l = 0 \<or> l = 8") auto
  then show ?thesis using u assms low by (auto simp: parses_all_def intro: parses_imp_reaches_loop)
qed

lemma parses_all_wrapped:
  assumes "parses 0 e" "natural_level e < 8"
    and "natural_level e = 7 \<Longrightarrow> parses_unary e"
    and "1 \<le> natural_level e \<Longrightarrow> natural_level e \<le> 6 \<Longrightarrow> reaches_loop (natural_level e) e"
  shows "parses_all e"
proof -
  have post: "reaches_postfix e" using paren_primary [OF assms(1)] assms(2)
    by (intro primary_imp_postfix) (simp add: wrap_def)
  have p8: "parses 8 e" using post by (rule reaches_postfix_imp_parses)
  have u: "parses_unary e" using assms(3) postfix_imp_unary [OF p8] by (cases "natural_level e = 7") auto
  have p7: "parses 7 e" using u by (rule parses_unary_imp_parses)
  have high: "parses l e" if "natural_level e < l" "l \<le> 7" for l
    using that by (intro parses_down [OF p7]) auto
  have natural: "parses (natural_level e) e"
    using p7 assms(1) reaches_loop_imp_parses [OF assms(4)] assms(2) by (cases "natural_level e = 0 \<or> natural_level e = 7") auto
  have low: "parses l e" if "l \<le> natural_level e" for l
    using that natural assms(1,2) by (cases "l = 0") (auto intro!: parses_down [OF natural])
  have all: "parses l e" if "l \<le> 8" for l
    using that high low p8 by (cases "l = 8"; cases "l \<le> natural_level e") auto
  have "reaches_loop l e" if "1 \<le> l" "l \<le> 6" for l
    using that assms(4) all [of "Suc l"] by (cases "l = natural_level e") (auto intro: parses_imp_reaches_loop)
  then show ?thesis using all u post by (simp add: parses_all_def)
qed


lemma parses_all: "parses_all e"
proof (induction e)
  case (EName x)
  show ?case by (rule parses_all_of_primary [OF primary_imp_postfix]) (simp_all add: wrap_def name_primary)
next
  case (EList es)
  then show ?case by (intro parses_all_of_primary [OF primary_imp_postfix])
      (simp_all add: wrap_def list_primary [simplified] parses_all_def)
next
  case (EContext es)
  then have "\<forall>(x, e) \<in> set es. parses 0 e" by (fastforce simp: parses_all_def)
  from context_primary [OF this] show ?case by (intro parses_all_of_primary [OF primary_imp_postfix]) (simp_all add: wrap_def)
next
  case (ERange a b si ei)
  then have "parses_primary (printed (ERange a b si ei)) (ERange a b si ei)" by (intro range_primary) (simp_all add: parses_all_def)
  then show ?case by (intro parses_all_of_primary [OF primary_imp_postfix]) (simp_all add: wrap_def)
next
  case (ECall f es)
  then have "parses_primary (printed (ECall f es)) (ECall f es)" by (intro call_primary) (simp add: parses_all_def)
  then show ?case by (intro parses_all_of_primary [OF primary_imp_postfix]) (simp_all add: wrap_def)
next
  case (EPath t k)
  then show ?case by (intro parses_all_of_primary path_reaches_postfix) (simp_all add: parses_all_def)
next
  case (EFilter t f)
  then show ?case by (intro parses_all_of_primary filter_reaches_postfix) (simp_all add: parses_all_def)
next
  case (EUnary op e)
  then have u: "parses_unary (EUnary op e)" by (intro unary_parses) (simp add: parses_all_def)
  have "parses 1 (EUnary op e)" by (rule parses_down [OF parses_unary_imp_parses [OF u]]) simp_all
  then show ?case using u by (intro parses_all_wrapped parses_zero) simp_all
next
  case (EBinary op a b)
  then have loop: "reaches_loop (precedence op) (EBinary op a b)"
    using precedence_range [of op] by (intro reaches_loop_binary) (simp_all add: parses_all_def)
  have "parses 1 (EBinary op a b)" using precedence_range [of op]
    by (intro parses_down [OF reaches_loop_imp_parses [OF loop]]) auto
  then show ?case using loop precedence_range [of op] by (intro parses_all_wrapped parses_zero) auto
next
  case (EIf c t e)
  then show ?case by (intro parses_all_wrapped if_parses) (simp_all add: parses_all_def)
next
  case (EFor v i b)
  then show ?case by (intro parses_all_wrapped for_parses) (simp_all add: parses_all_def)
next
  case (EQuantified q v i b)
  then show ?case by (intro parses_all_wrapped quantified_parses) (simp_all add: parses_all_def)
qed (rule parses_all_of_primary [OF primary_imp_postfix]; simp add: wrap_def atom_primary)+

text \<open>
  C11. Printing and parsing are inverse: the tokens of the minimally parenthesised form of any expression, in
  whatever positions they were found, parse back to exactly that expression. So precedence, left
  associativity and every construct of the language are as the printer states them, and no expression
  is out of the parser's reach.
\<close>

theorem parse_unparse:
  assumes "map token_kind ts = unparse e"
  shows "parse ts = Some (Inr e)"
proof -
  have t: "tks ts 0 = printed e @ [TEof]" using assms by (simp add: tks_def unparse_def)
  have "parses 0 e" using parses_all [of e] by (simp add: parses_all_def)
  moreover have "length ts = Suc (length (printed e))" using arg_cong [OF assms, of length] by (simp add: unparse_def)
  ultimately have "expression (Suc (length ts)) ts 0 = Some (Inr (e, length (printed e)))"
    using expression_parses [of e ts 0 "[TEof]" "Suc (length ts)"] t by (simp add: tks_def del: expression.simps)
  moreover have "current ts (length (printed e)) = TEof" using tks_append [OF t] by (simp add: tks_Cons(1))
  ultimately show ?thesis by (simp add: parse_def parse_fuel_def del: expression.simps)
qed

theorem parse_unparse_witness:
  "parse [\<lparr>token_kind = TLParen, token_start = 0, token_end = 1\<rparr>, \<lparr>token_kind = TName ''a'', token_start = 1, token_end = 2\<rparr>,
          \<lparr>token_kind = TPlus, token_start = 2, token_end = 3\<rparr>, \<lparr>token_kind = TName ''b'', token_start = 3, token_end = 4\<rparr>,
          \<lparr>token_kind = TRParen, token_start = 4, token_end = 5\<rparr>, \<lparr>token_kind = TStar, token_start = 5, token_end = 6\<rparr>,
          \<lparr>token_kind = TName ''c'', token_start = 6, token_end = 7\<rparr>, \<lparr>token_kind = TEof, token_start = 7, token_end = 7\<rparr>]
     = Some (Inr (EBinary Multiply (EBinary Add (EName ''a'') (EName ''b'')) (EName ''c'')))"
  by (rule parse_unparse) (simp add: unparse_def wrap_def)

end
