(* ===== verification/Feel_Eval.thy ===== *)
theory Feel_Eval
  imports Feel_Syntax
begin

text \<open>
  The evaluator of FEEL expressions (\<open>flowable-dmn-engine/src/feel/evaluator.rs\<close>) over JSON values. The scope
  is one mutable map that evaluation threads through all subexpressions, as the source does; an error
  ends the evaluation. Case conversion and \<open>f64::powf\<close> are arguments, gathered in the record \<open>std_ops\<close>.
\<close>

section \<open>Operations of the standard library\<close>

record std_ops =
  powf :: "f64 \<Rightarrow> f64 \<Rightarrow> f64"
  to_uppercase :: "string \<Rightarrow> string"
  to_lowercase :: "string \<Rightarrow> string"

section \<open>Numbers\<close>

type_synonym feel_scope = "string \<rightharpoonup> json"

definition feel_number :: "json \<Rightarrow> dmn_error + f64" where
  "feel_number v = ok_or (DmnExecution ''FEEL arithmetic requires numeric values'') (as_f64 v)"

definition truthy :: "json \<Rightarrow> bool" where
  "truthy v = (case as_bool v of Some b \<Rightarrow> b | None \<Rightarrow> False)"

definition feel_compare :: "json \<Rightarrow> json \<Rightarrow> (f64 \<Rightarrow> f64 \<Rightarrow> bool) \<Rightarrow> dmn_error + json" where
  "feel_compare l r predicate =
     rbind (feel_number l) (\<lambda>a. rbind (feel_number r) (\<lambda>b. Inr (JsonBool (predicate a b))))"

definition numeric_value :: "f64 \<Rightarrow> json" where
  "numeric_value f =
     (if f64_is_integral f \<and> f64_le (f64_of_int (- (2 ^ 63))) f \<and> f64_le f (f64_of_int (2 ^ 63 - 1))
      then json_of_i64 (f64_to_i64 f) else json_of_f64 f)"

definition arithmetic_value :: "json \<Rightarrow> json \<Rightarrow> (f64 \<Rightarrow> f64 \<Rightarrow> f64) \<Rightarrow> dmn_error + json" where
  "arithmetic_value l r operation =
     rbind (feel_number l) (\<lambda>a. rbind (feel_number r) (\<lambda>b. Inr (numeric_value (operation a b))))"

section \<open>The evaluator\<close>

type_synonym 'a evaluated = "dmn_error + 'a \<times> feel_scope"
type_synonym 'a evaluator = "'a \<Rightarrow> feel_scope \<Rightarrow> json evaluated"

text \<open>The loops of \<open>evaluate_inner\<close>, over the evaluator of the subexpressions.\<close>

fun evaluate_items :: "'a evaluator \<Rightarrow> 'a list \<Rightarrow> feel_scope \<Rightarrow> json list evaluated" where
  "evaluate_items ev [] scope = Inr ([], scope)"
| "evaluate_items ev (e # es) scope =
     rbind (ev e scope) (\<lambda>(v, scope1).
     rbind (evaluate_items ev es scope1) (\<lambda>(vs, scope2). Inr (v # vs, scope2)))"

fun evaluate_entries :: "'a evaluator \<Rightarrow> (string \<times> 'a) list \<Rightarrow> (string \<times> json) list \<Rightarrow> feel_scope
    \<Rightarrow> (string \<times> json) list evaluated" where
  "evaluate_entries ev [] object scope = Inr (object, scope)"
| "evaluate_entries ev ((k, e) # entries) object scope =
     rbind (ev e scope) (\<lambda>(v, scope1). evaluate_entries ev entries (object_insert k v object) scope1)"

fun filter_loop :: "(feel_scope \<Rightarrow> json evaluated) \<Rightarrow> json list \<Rightarrow> feel_scope \<Rightarrow> json list evaluated" where
  "filter_loop predicate [] scope = Inr ([], scope)"
| "filter_loop predicate (v # vs) scope =
     rbind (predicate (scope(''item'' \<mapsto> v))) (\<lambda>(keep, scope1).
     rbind (filter_loop predicate vs scope1) (\<lambda>(result, scope2).
       Inr (if truthy keep then v # result else result, scope2)))"

fun for_loop :: "string \<Rightarrow> (feel_scope \<Rightarrow> json evaluated) \<Rightarrow> json list \<Rightarrow> feel_scope \<Rightarrow> json list evaluated" where
  "for_loop variable body [] scope = Inr ([], scope)"
| "for_loop variable body (v # vs) scope =
     rbind (body (scope(variable \<mapsto> v))) (\<lambda>(w, scope1).
     rbind (for_loop variable body vs scope1) (\<lambda>(result, scope2). Inr (w # result, scope2)))"

fun quantified_loop :: "bool \<Rightarrow> string \<Rightarrow> (feel_scope \<Rightarrow> json evaluated) \<Rightarrow> json list \<Rightarrow> feel_scope \<Rightarrow> bool evaluated" where
  "quantified_loop every variable predicate [] scope = Inr (every, scope)"
| "quantified_loop every variable predicate (v # vs) scope =
     rbind (predicate (scope(variable \<mapsto> v))) (\<lambda>(w, scope1).
       if (every \<and> \<not> truthy w) \<or> (\<not> every \<and> truthy w) then Inr (truthy w, scope1)
       else quantified_loop every variable predicate vs scope1)"

text \<open>The operators on two values; \<open>And\<close> and \<open>Or\<close>, which the source marks unreachable here, have no result of interest.\<close>

definition apply_binary :: "std_ops \<Rightarrow> binary_op \<Rightarrow> json \<Rightarrow> json \<Rightarrow> dmn_error + json" where
  "apply_binary lib op l r =
     (case op of
        Add \<Rightarrow> arithmetic_value l r f64_add
      | Subtract \<Rightarrow> arithmetic_value l r f64_sub
      | Multiply \<Rightarrow> arithmetic_value l r f64_mul
      | Divide \<Rightarrow>
          rbind (feel_number r) (\<lambda>divisor.
            if f64_eq divisor (f64_zero False) then Inl (DmnExecution ''division by zero'')
            else rbind (feel_number l) (\<lambda>a. Inr (json_of_f64 (f64_div a divisor))))
      | Power \<Rightarrow> rbind (feel_number l) (\<lambda>a. rbind (feel_number r) (\<lambda>b. Inr (json_of_f64 (powf lib a b))))
      | Equal \<Rightarrow> Inr (JsonBool (json_eq l r))
      | NotEqual \<Rightarrow> Inr (JsonBool (\<not> json_eq l r))
      | Less \<Rightarrow> feel_compare l r f64_less
      | LessEqual \<Rightarrow> feel_compare l r f64_le
      | Greater \<Rightarrow> feel_compare l r (\<lambda>a b. f64_less b a)
      | GreaterEqual \<Rightarrow> feel_compare l r (\<lambda>a b. f64_le b a)
      | In \<Rightarrow> Inr (JsonBool (case as_array r of Some items \<Rightarrow> json_contains items l | None \<Rightarrow> False))
      | And \<Rightarrow> Inr JsonNull
      | Or \<Rightarrow> Inr JsonNull)"

definition evaluate_binary :: "std_ops \<Rightarrow> 'a evaluator \<Rightarrow> binary_op \<Rightarrow> 'a \<Rightarrow> 'a \<Rightarrow> feel_scope \<Rightarrow> json evaluated" where
  "evaluate_binary lib ev op left right scope =
     (if op = And \<or> op = Or then
        rbind (ev left scope) (\<lambda>(l, scope1).
          if op = And \<and> \<not> truthy l then Inr (JsonBool False, scope1)
          else if op = Or \<and> truthy l then Inr (JsonBool True, scope1)
          else rbind (ev right scope1) (\<lambda>(r, scope2). Inr (JsonBool (truthy r), scope2)))
      else
        rbind (ev left scope) (\<lambda>(l, scope1).
        rbind (ev right scope1) (\<lambda>(r, scope2).
        rbind (apply_binary lib op l r) (\<lambda>v. Inr (v, scope2)))))"

definition str_or_empty :: "json option \<Rightarrow> string" where
  "str_or_empty v = (case v of Some (JsonString s) \<Rightarrow> s | _ \<Rightarrow> [])"

definition f64_sum :: "f64 list \<Rightarrow> f64" where
  "f64_sum fs = foldl f64_add (f64_zero True) fs"

definition apply_call :: "std_ops \<Rightarrow> string \<Rightarrow> json list \<Rightarrow> dmn_error + json" where
  "apply_call lib name values =
     (let first = (case values of v # _ \<Rightarrow> v | [] \<Rightarrow> JsonNull);
          second = (case values of _ # v # _ \<Rightarrow> Some v | _ \<Rightarrow> None);
          f = to_ascii_lowercase name
      in if f = ''contains'' then
           Inr (JsonBool (str_find_sub (str_or_empty second) (str_or_empty (Some first)) \<noteq> None))
         else if f = ''list contains'' then
           Inr (JsonBool (case as_array first of
                  Some items \<Rightarrow> (case second of Some needle \<Rightarrow> json_contains items needle | None \<Rightarrow> False)
                | None \<Rightarrow> False))
         else if f = ''string length'' then Inr (json_of_usize (length (str_or_empty (Some first))))
         else if f = ''upper case'' then Inr (JsonString (to_uppercase lib (str_or_empty (Some first))))
         else if f = ''lower case'' then Inr (JsonString (to_lowercase lib (str_or_empty (Some first))))
         else if f = ''abs'' then rbind (feel_number first) (\<lambda>a. Inr (json_of_f64 (f64_abs a)))
         else if f = ''floor'' then rbind (feel_number first) (\<lambda>a. Inr (json_of_f64 (f64_floor a)))
         else if f = ''ceiling'' \<or> f = ''ceil'' then rbind (feel_number first) (\<lambda>a. Inr (json_of_f64 (f64_ceil a)))
         else if f = ''count'' then
           Inr (json_of_usize (case as_array first of Some items \<Rightarrow> length items | None \<Rightarrow> length values))
         else if f = ''sum'' then
           Inr (json_of_f64 (case as_array first of
                  Some items \<Rightarrow> f64_sum (List.map_filter as_f64 items)
                | None \<Rightarrow> f64_zero False))
         else if f = ''append'' then
           Inr (JsonArray ((case as_array first of Some items \<Rightarrow> items | None \<Rightarrow> []) @ drop 1 values))
         else Inl (DmnUnsupportedModel ''FEEL function''
                (''unsupported FEEL function '' @ [CHR 0x27] @ name @ [CHR 0x27])))"

definition evaluate_call :: "std_ops \<Rightarrow> 'a evaluator \<Rightarrow> string \<Rightarrow> 'a list \<Rightarrow> feel_scope \<Rightarrow> json evaluated" where
  "evaluate_call lib ev name args scope =
     rbind (evaluate_items ev args scope) (\<lambda>(values, scope1).
     rbind (apply_call lib name values) (\<lambda>v. Inr (v, scope1)))"

lemma evaluate_items_cong [fundef_cong]:
  "es = es' \<Longrightarrow> scope = scope' \<Longrightarrow> (\<And>e. e \<in> set es' \<Longrightarrow> ev e = ev' e) \<Longrightarrow> evaluate_items ev es scope = evaluate_items ev' es' scope'"
  by (induction es arbitrary: es' scope scope') (auto intro!: rbind_cong split: prod.split)

lemma evaluate_entries_eq:
  "\<forall>(k, e) \<in> set es. ev e = ev' e \<Longrightarrow> evaluate_entries ev es object scope = evaluate_entries ev' es object scope"
  by (induction es arbitrary: object scope) (auto intro!: rbind_cong split: prod.split)

lemma evaluate_entries_cong [fundef_cong]:
  "es = es' \<Longrightarrow> object = object' \<Longrightarrow> scope = scope' \<Longrightarrow> (\<And>k e. (k, e) \<in> set es' \<Longrightarrow> ev e = ev' e)
   \<Longrightarrow> evaluate_entries ev es object scope = evaluate_entries ev' es' object' scope'"
  by (clarsimp intro!: evaluate_entries_eq)

lemma evaluate_call_cong [fundef_cong]:
  "lib = lib' \<Longrightarrow> name = name' \<Longrightarrow> args = args' \<Longrightarrow> scope = scope' \<Longrightarrow> (\<And>e. e \<in> set args' \<Longrightarrow> ev e = ev' e)
   \<Longrightarrow> evaluate_call lib ev name args scope = evaluate_call lib' ev' name' args' scope'"
  by (simp add: evaluate_call_def cong: evaluate_items_cong)

lemma evaluate_binary_cong [fundef_cong]:
  "lib = lib' \<Longrightarrow> op = op' \<Longrightarrow> left = left' \<Longrightarrow> right = right' \<Longrightarrow> scope = scope'
   \<Longrightarrow> ev left' = ev' left' \<Longrightarrow> ev right' = ev' right'
   \<Longrightarrow> evaluate_binary lib ev op left right scope = evaluate_binary lib' ev' op' left' right' scope'"
  by (simp add: evaluate_binary_def cong: if_cong)

definition array_or_empty :: "json \<Rightarrow> json list" where
  "array_or_empty v = (case as_array v of Some xs \<Rightarrow> xs | None \<Rightarrow> [])"

fun evaluate_inner :: "std_ops \<Rightarrow> expr \<Rightarrow> feel_scope \<Rightarrow> json evaluated" where
  "evaluate_inner lib ENull scope = Inr (JsonNull, scope)"
| "evaluate_inner lib (EBool b) scope = Inr (JsonBool b, scope)"
| "evaluate_inner lib (ENumber v) scope = Inr (numeric_value v, scope)"
| "evaluate_inner lib (EString s) scope = Inr (JsonString s, scope)"
| "evaluate_inner lib (EName n) scope = Inr (case scope n of Some v \<Rightarrow> v | None \<Rightarrow> JsonNull, scope)"
| "evaluate_inner lib (EList items) scope =
     rbind (evaluate_items (evaluate_inner lib) items scope) (\<lambda>(vs, scope1). Inr (JsonArray vs, scope1))"
| "evaluate_inner lib (EContext entries) scope =
     rbind (evaluate_entries (evaluate_inner lib) entries [] scope) (\<lambda>(object, scope1). Inr (JsonObject object, scope1))"
| "evaluate_inner lib (ERange start stop start_inclusive end_inclusive) scope =
     rbind (evaluate_inner lib start scope) (\<lambda>(a, scope1).
     rbind (evaluate_inner lib stop scope1) (\<lambda>(b, scope2).
       Inr (JsonObject [(''end'', b), (''endInclusive'', JsonBool end_inclusive),
              (''start'', a), (''startInclusive'', JsonBool start_inclusive)], scope2)))"
| "evaluate_inner lib (EUnary Negate e) scope =
     rbind (evaluate_inner lib e scope) (\<lambda>(v, scope1).
     rbind (feel_number v) (\<lambda>a. Inr (json_of_f64 (f64_neg a), scope1)))"
| "evaluate_inner lib (EUnary Not e) scope =
     rbind (evaluate_inner lib e scope) (\<lambda>(v, scope1). Inr (JsonBool (\<not> truthy v), scope1))"
| "evaluate_inner lib (EBinary op l r) scope = evaluate_binary lib (evaluate_inner lib) op l r scope"
| "evaluate_inner lib (EIf condition then_expr else_expr) scope =
     rbind (evaluate_inner lib condition scope) (\<lambda>(v, scope1).
       if truthy v then evaluate_inner lib then_expr scope1 else evaluate_inner lib else_expr scope1)"
| "evaluate_inner lib (EPath target key) scope =
     rbind (evaluate_inner lib target scope) (\<lambda>(v, scope1).
       Inr (case json_get key v of Some w \<Rightarrow> w | None \<Rightarrow> JsonNull, scope1))"
| "evaluate_inner lib (EFilter target predicate) scope =
     rbind (evaluate_inner lib target scope) (\<lambda>(v, scope1).
     rbind (filter_loop (evaluate_inner lib predicate) (array_or_empty v) scope1) (\<lambda>(result, scope2).
       Inr (JsonArray result, scope2)))"
| "evaluate_inner lib (ECall name args) scope = evaluate_call lib (evaluate_inner lib) name args scope"
| "evaluate_inner lib (EFor variable input body) scope =
     rbind (evaluate_inner lib input scope) (\<lambda>(v, scope1).
     rbind (for_loop variable (evaluate_inner lib body) (array_or_empty v) scope1) (\<lambda>(result, scope2).
       Inr (JsonArray result, scope2)))"
| "evaluate_inner lib (EQuantified every variable input predicate) scope =
     rbind (evaluate_inner lib input scope) (\<lambda>(v, scope1).
     rbind (quantified_loop every variable (evaluate_inner lib predicate) (array_or_empty v) scope1) (\<lambda>(result, scope2).
       Inr (JsonBool result, scope2)))"

text \<open>\<open>evaluator::evaluate\<close>: the scope is a copy of the context and is dropped afterwards.\<close>

definition evaluate :: "std_ops \<Rightarrow> expr \<Rightarrow> feel_scope \<Rightarrow> dmn_error + json" where
  "evaluate lib e context = rbind (evaluate_inner lib e context) (\<lambda>(v, _). Inr v)"

end
