(* ===== verification/Feel_Semantics.thy ===== *)
theory Feel_Semantics
  imports Feel_Roundtrip Feel_Eval
begin

text \<open>
  Correctness of the FEEL evaluator: \<open>evaluate\<close> refines a lexically scoped meaning, the result of an
  expression has the type its form announces, and whole numbers are exact within their bounds. The
  last section shows where the evaluator departs from the language. \<open>feel_evaluate\<close> is
  \<open>feel::evaluate\<close>, the composition of lexer, parser and evaluator.
\<close>

definition feel_evaluate :: "std_ops \<Rightarrow> string \<Rightarrow> feel_scope \<Rightarrow> (dmn_error + json) option" where
  "feel_evaluate lib source context =
     (case lex source of
        Inl e \<Rightarrow> Some (Inl e)
      | Inr ts \<Rightarrow>
          (case parse ts of
             None \<Rightarrow> None
           | Some (Inl e) \<Rightarrow> Some (Inl e)
           | Some (Inr e) \<Rightarrow> Some (evaluate lib e context)))"

definition example_ops :: std_ops where
  "example_ops = \<lparr>powf = (\<lambda>a b. a), to_uppercase = id, to_lowercase = id\<rparr>"

text \<open>
  The fuel of the parser is never exhausted: with enough stack for the nesting of the text, evaluation returns a value or
  an error.
\<close>

theorem feel_evaluate_returns: "\<exists>r. feel_evaluate lib source context = Some r"
proof (cases "lex source")
  case (Inr ts)
  then have "\<exists>source. lex source = Inr ts" by blast
  from lexer.parse_returns [OF this] obtain r where "parse ts = Some r" .
  with Inr show ?thesis by (cases r) (simp_all add: feel_evaluate_def)
qed (simp add: feel_evaluate_def)

section \<open>Lexically scoped meaning\<close>

fun values_of :: "('a \<Rightarrow> dmn_error + json) \<Rightarrow> 'a list \<Rightarrow> dmn_error + json list" where
  "values_of f [] = Inr []"
| "values_of f (x # xs) = rbind (f x) (\<lambda>v. rbind (values_of f xs) (\<lambda>vs. Inr (v # vs)))"

fun entries_of :: "('a \<Rightarrow> dmn_error + json) \<Rightarrow> (string \<times> 'a) list \<Rightarrow> (string \<times> json) list \<Rightarrow> dmn_error + (string \<times> json) list" where
  "entries_of f [] object = Inr object"
| "entries_of f ((k, x) # xs) object = rbind (f x) (\<lambda>v. entries_of f xs (object_insert k v object))"

fun filtered :: "(json \<Rightarrow> dmn_error + json) \<Rightarrow> json list \<Rightarrow> dmn_error + json list" where
  "filtered f [] = Inr []"
| "filtered f (v # vs) = rbind (f v) (\<lambda>keep. rbind (filtered f vs) (\<lambda>result. Inr (if truthy keep then v # result else result)))"

fun decided :: "bool \<Rightarrow> (json \<Rightarrow> dmn_error + json) \<Rightarrow> json list \<Rightarrow> dmn_error + bool" where
  "decided every f [] = Inr every"
| "decided every f (v # vs) = rbind (f v) (\<lambda>w. if truthy w = every then decided every f vs else Inr (truthy w))"

lemma values_of_cong [fundef_cong]:
  "xs = ys \<Longrightarrow> (\<And>x. x \<in> set ys \<Longrightarrow> f x = g x) \<Longrightarrow> values_of f xs = values_of g ys"
  by (induction xs arbitrary: ys) auto

lemma entries_of_eq: "\<forall>(k, x) \<in> set xs. f x = g x \<Longrightarrow> entries_of f xs object = entries_of g xs object"
  by (induction xs arbitrary: object) (auto intro!: rbind_cong)

lemma entries_of_cong [fundef_cong]:
  "xs = ys \<Longrightarrow> object = object' \<Longrightarrow> (\<And>k x. (k, x) \<in> set ys \<Longrightarrow> f x = g x) \<Longrightarrow> entries_of f xs object = entries_of g ys object'"
  by (clarsimp intro!: entries_of_eq)

fun feel_value :: "std_ops \<Rightarrow> expr \<Rightarrow> feel_scope \<Rightarrow> dmn_error + json" where
  "feel_value lib ENull env = Inr JsonNull"
| "feel_value lib (EBool b) env = Inr (JsonBool b)"
| "feel_value lib (ENumber v) env = Inr (numeric_value v)"
| "feel_value lib (EString s) env = Inr (JsonString s)"
| "feel_value lib (EName n) env = Inr (case env n of Some v \<Rightarrow> v | None \<Rightarrow> JsonNull)"
| "feel_value lib (EList items) env = rbind (values_of (\<lambda>e. feel_value lib e env) items) (\<lambda>vs. Inr (JsonArray vs))"
| "feel_value lib (EContext entries) env =
     rbind (entries_of (\<lambda>e. feel_value lib e env) entries []) (\<lambda>object. Inr (JsonObject object))"
| "feel_value lib (ERange start stop si ei) env =
     rbind (feel_value lib start env) (\<lambda>a. rbind (feel_value lib stop env) (\<lambda>b.
       Inr (JsonObject [(''end'', b), (''endInclusive'', JsonBool ei), (''start'', a), (''startInclusive'', JsonBool si)])))"
| "feel_value lib (EUnary op e) env =
     rbind (feel_value lib e env) (\<lambda>v. case op of
         Negate \<Rightarrow> rbind (feel_number v) (\<lambda>a. Inr (json_of_f64 (f64_neg a)))
       | Not \<Rightarrow> Inr (JsonBool (\<not> truthy v)))"
| "feel_value lib (EBinary op l r) env =
     rbind (feel_value lib l env) (\<lambda>a.
       if op = And \<and> \<not> truthy a then Inr (JsonBool False)
       else if op = Or \<and> truthy a then Inr (JsonBool True)
       else rbind (feel_value lib r env) (\<lambda>b.
         if op = And \<or> op = Or then Inr (JsonBool (truthy b)) else apply_binary lib op a b))"
| "feel_value lib (EIf c t e) env =
     rbind (feel_value lib c env) (\<lambda>v. if truthy v then feel_value lib t env else feel_value lib e env)"
| "feel_value lib (EPath target key) env =
     rbind (feel_value lib target env) (\<lambda>v. Inr (case json_get key v of Some w \<Rightarrow> w | None \<Rightarrow> JsonNull))"
| "feel_value lib (EFilter target predicate) env =
     rbind (feel_value lib target env) (\<lambda>v.
     rbind (filtered (\<lambda>x. feel_value lib predicate (env(''item'' \<mapsto> x))) (array_or_empty v)) (\<lambda>vs. Inr (JsonArray vs)))"
| "feel_value lib (ECall name args) env =
     rbind (values_of (\<lambda>e. feel_value lib e env) args) (apply_call lib name)"
| "feel_value lib (EFor variable input body) env =
     rbind (feel_value lib input env) (\<lambda>v.
     rbind (values_of (\<lambda>x. feel_value lib body (env(variable \<mapsto> x))) (array_or_empty v)) (\<lambda>vs. Inr (JsonArray vs)))"
| "feel_value lib (EQuantified every variable input predicate) env =
     rbind (feel_value lib input env) (\<lambda>v.
     rbind (decided every (\<lambda>x. feel_value lib predicate (env(variable \<mapsto> x))) (array_or_empty v)) (\<lambda>b. Inr (JsonBool b)))"

text \<open>The names an expression reads from its surroundings and those it binds anywhere inside.\<close>

fun free_names :: "expr \<Rightarrow> string set" where
  "free_names (EName n) = {n}"
| "free_names (EList es) = \<Union> (set (map free_names es))"
| "free_names (EContext entries) = \<Union> (set (map (\<lambda>(k, e). free_names e) entries))"
| "free_names (ERange a b si ei) = free_names a \<union> free_names b"
| "free_names (EUnary op e) = free_names e"
| "free_names (EBinary op l r) = free_names l \<union> free_names r"
| "free_names (EIf c t e) = free_names c \<union> free_names t \<union> free_names e"
| "free_names (EPath t k) = free_names t"
| "free_names (EFilter t p) = free_names t \<union> (free_names p - {''item''})"
| "free_names (ECall f args) = \<Union> (set (map free_names args))"
| "free_names (EFor v i b) = free_names i \<union> (free_names b - {v})"
| "free_names (EQuantified q v i p) = free_names i \<union> (free_names p - {v})"
| "free_names _ = {}"

fun bound_names :: "expr \<Rightarrow> string set" where
  "bound_names (EList es) = \<Union> (set (map bound_names es))"
| "bound_names (EContext entries) = \<Union> (set (map (\<lambda>(k, e). bound_names e) entries))"
| "bound_names (ERange a b si ei) = bound_names a \<union> bound_names b"
| "bound_names (EUnary op e) = bound_names e"
| "bound_names (EBinary op l r) = bound_names l \<union> bound_names r"
| "bound_names (EIf c t e) = bound_names c \<union> bound_names t \<union> bound_names e"
| "bound_names (EPath t k) = bound_names t"
| "bound_names (EFilter t p) = insert ''item'' (bound_names t \<union> bound_names p)"
| "bound_names (ECall f args) = \<Union> (set (map bound_names args))"
| "bound_names (EFor v i b) = insert v (bound_names i \<union> bound_names b)"
| "bound_names (EQuantified q v i p) = insert v (bound_names i \<union> bound_names p)"
| "bound_names _ = {}"

text \<open>In no subexpression is a bound name also read from outside.\<close>

fun well_scoped :: "expr \<Rightarrow> bool" where
  "well_scoped (EList es) = (list_all well_scoped es \<and> bound_names (EList es) \<inter> free_names (EList es) = {})"
| "well_scoped (EContext entries) = (list_all (\<lambda>(k, e). well_scoped e) entries
     \<and> bound_names (EContext entries) \<inter> free_names (EContext entries) = {})"
| "well_scoped (ERange a b si ei) = (well_scoped a \<and> well_scoped b
     \<and> bound_names (ERange a b si ei) \<inter> free_names (ERange a b si ei) = {})"
| "well_scoped (EUnary op e) = well_scoped e"
| "well_scoped (EBinary op l r) = (well_scoped l \<and> well_scoped r
     \<and> bound_names (EBinary op l r) \<inter> free_names (EBinary op l r) = {})"
| "well_scoped (EIf c t e) = (well_scoped c \<and> well_scoped t \<and> well_scoped e
     \<and> bound_names (EIf c t e) \<inter> free_names (EIf c t e) = {})"
| "well_scoped (EPath t k) = well_scoped t"
| "well_scoped (EFilter t p) = (well_scoped t \<and> well_scoped p \<and> bound_names (EFilter t p) \<inter> free_names (EFilter t p) = {})"
| "well_scoped (ECall f args) = (list_all well_scoped args \<and> bound_names (ECall f args) \<inter> free_names (ECall f args) = {})"
| "well_scoped (EFor v i b) = (well_scoped i \<and> well_scoped b \<and> bound_names (EFor v i b) \<inter> free_names (EFor v i b) = {})"
| "well_scoped (EQuantified q v i p) = (well_scoped i \<and> well_scoped p
     \<and> bound_names (EQuantified q v i p) \<inter> free_names (EQuantified q v i p) = {})"
| "well_scoped _ = True"

text \<open>A result with a scope that differs from the given one at most at the names of \<open>B\<close>.\<close>

definition matches :: "'a evaluated \<Rightarrow> dmn_error + 'a \<Rightarrow> feel_scope \<Rightarrow> string set \<Rightarrow> bool" where
  "matches r v scope B \<longleftrightarrow>
     (case r of Inl e \<Rightarrow> v = Inl e | Inr (w, scope') \<Rightarrow> v = Inr w \<and> (\<forall>x. x \<notin> B \<longrightarrow> scope' x = scope x))"

lemma matches_result [simp]: "matches (Inr (w, scope')) v scope B \<longleftrightarrow> v = Inr w \<and> (\<forall>x. x \<notin> B \<longrightarrow> scope' x = scope x)"
  "matches (Inl e) v scope B \<longleftrightarrow> v = Inl e"
  by (simp_all add: matches_def)

lemma matches_bind:
  assumes "matches m m' scope B" "B \<subseteq> C"
    and "\<And>w scope1. \<forall>x. x \<notin> B \<longrightarrow> scope1 x = scope x \<Longrightarrow> m' = Inr w \<Longrightarrow> matches (f (w, scope1)) (f' w) scope1 C"
  shows "matches (rbind m f) (rbind m' f') scope C"
proof (cases m)
  case (Inl e)
  with assms(1) show ?thesis by simp
next
  case (Inr r)
  obtain w scope1 where r: "r = (w, scope1)" by fastforce
  with Inr assms(1) have m': "m' = Inr w" "\<forall>x. x \<notin> B \<longrightarrow> scope1 x = scope x" by simp_all
  have "matches (f (w, scope1)) (f' w) scope1 C" using assms(3) m' by blast
  then have "matches (f (w, scope1)) (f' w) scope C"
    using m'(2) assms(2) unfolding matches_def by (auto split: sum.splits)
  then show ?thesis using Inr r m'(1) by simp
qed

lemma matches_pure: "matches (rbind r (\<lambda>v. Inr (v, scope))) r scope B"
  by (cases r) simp_all

definition agrees :: "string set \<Rightarrow> feel_scope \<Rightarrow> feel_scope \<Rightarrow> bool" where
  "agrees X scope env \<longleftrightarrow> (\<forall>x \<in> X. scope x = env x)"


lemma agrees_step:
  "agrees X scope env \<Longrightarrow> \<forall>x. x \<notin> B \<longrightarrow> scope1 x = scope x \<Longrightarrow> B \<inter> Y = {} \<Longrightarrow> Y \<subseteq> X \<Longrightarrow> agrees Y scope1 env"
  by (fastforce simp: agrees_def)

text \<open>What the induction establishes for an evaluator and a meaning of one expression.\<close>

definition tracks :: "(feel_scope \<Rightarrow> json evaluated) \<Rightarrow> (feel_scope \<Rightarrow> dmn_error + json) \<Rightarrow> string set \<Rightarrow> string set \<Rightarrow> bool" where
  "tracks ev f X B \<longleftrightarrow> (\<forall>scope env. agrees X scope env \<longrightarrow> matches (ev scope) (f env) scope B)"

lemma items_track:
  assumes "\<forall>e \<in> set es. tracks (ev e) (f e) (free_names e) (bound_names e)"
    and "agrees (\<Union> (free_names ` set es)) scope env"
    and "\<Union> (bound_names ` set es) \<inter> \<Union> (free_names ` set es) = {}"
  shows "matches (evaluate_items ev es scope) (values_of (\<lambda>e. f e env) es) scope (\<Union> (bound_names ` set es))"
  using assms
proof (induction es arbitrary: scope)
  case (Cons e es)
  show ?case unfolding evaluate_items.simps values_of.simps
  proof (rule matches_bind)
    show "matches (ev e scope) (f e env) scope (bound_names e)"
      using Cons.prems(1,2) by (auto simp: tracks_def agrees_def)
    fix w scope1 assume s1: "\<forall>x. x \<notin> bound_names e \<longrightarrow> scope1 x = scope x"
    have "agrees (\<Union> (free_names ` set es)) scope1 env"
      by (rule agrees_step [OF Cons.prems(2) s1]) (use Cons.prems(3) in auto)
    then have "matches (evaluate_items ev es scope1) (values_of (\<lambda>e. f e env) es) scope1 (\<Union> (bound_names ` set es))"
      using Cons.prems by (intro Cons.IH) auto
    then show "matches ((\<lambda>(v, scope1). rbind (evaluate_items ev es scope1) (\<lambda>(vs, scope2). Inr (v # vs, scope2))) (w, scope1))
        (rbind (values_of (\<lambda>e. f e env) es) (\<lambda>vs. Inr (w # vs))) scope1 (\<Union> (bound_names ` set (e # es)))"
      unfolding prod.case by (rule matches_bind) auto
  qed auto
qed simp

lemma entries_track:
  assumes "\<forall>(k, e) \<in> set es. tracks (ev e) (f e) (free_names e) (bound_names e)"
    and "agrees (\<Union> ((\<lambda>(k, e). free_names e) ` set es)) scope env"
    and "\<Union> ((\<lambda>(k, e). bound_names e) ` set es) \<inter> \<Union> ((\<lambda>(k, e). free_names e) ` set es) = {}"
  shows "matches (evaluate_entries ev es object scope) (entries_of (\<lambda>e. f e env) es object) scope
    (\<Union> ((\<lambda>(k, e). bound_names e) ` set es))"
  using assms
proof (induction es arbitrary: object scope)
  case (Cons entry es)
  obtain k e where entry: "entry = (k, e)" by fastforce
  show ?case unfolding entry evaluate_entries.simps entries_of.simps
  proof (rule matches_bind)
    show "matches (ev e scope) (f e env) scope (bound_names e)"
      using Cons.prems(1,2) entry by (auto simp: tracks_def agrees_def)
    fix w scope1 assume s1: "\<forall>x. x \<notin> bound_names e \<longrightarrow> scope1 x = scope x"
    have "agrees (\<Union> ((\<lambda>(k, e). free_names e) ` set es)) scope1 env"
      by (rule agrees_step [OF Cons.prems(2) s1]) (use Cons.prems(3) entry in auto)
    then have "matches (evaluate_entries ev es (object_insert k w object) scope1)
        (entries_of (\<lambda>e. f e env) es (object_insert k w object)) scope1 (\<Union> ((\<lambda>(k, e). bound_names e) ` set es))"
      using Cons.prems by (intro Cons.IH) auto
    then show "matches ((\<lambda>(v, scope1). evaluate_entries ev es (object_insert k v object) scope1) (w, scope1))
        (entries_of (\<lambda>e. f e env) es (object_insert k w object)) scope1 (\<Union> ((\<lambda>(k, e). bound_names e) ` set ((k, e) # es)))"
      unfolding matches_def by (auto split: sum.splits)
  qed auto
qed simp

text \<open>One round of a loop: the variable is set and the body evaluated.\<close>

lemma body_tracks:
  assumes "tracks ev f X B" "agrees (X - {v}) scope env"
  shows "matches (ev (scope(v \<mapsto> w))) (f (env(v \<mapsto> w))) (scope(v \<mapsto> w)) B"
  using assms by (auto simp: tracks_def agrees_def)

lemma matches_shift: "matches r w (scope(v \<mapsto> u)) B \<Longrightarrow> matches r w scope (insert v B)"
  unfolding matches_def by (auto split: sum.splits)

lemma for_tracks:
  assumes "tracks ev f X B" "agrees (X - {v}) scope env" "insert v B \<inter> (X - {v}) = {}"
  shows "matches (for_loop v ev vs scope) (values_of (\<lambda>x. f (env(v \<mapsto> x))) vs) scope (insert v B)"
  using assms(2)
proof (induction vs arbitrary: scope)
  case (Cons u vs)
  show ?case unfolding for_loop.simps values_of.simps
  proof (rule matches_bind [OF matches_shift [OF body_tracks [OF assms(1) Cons.prems]] order_refl])
    fix w scope1 assume s1: "\<forall>x. x \<notin> insert v B \<longrightarrow> scope1 x = scope x"
    have "agrees (X - {v}) scope1 env" by (rule agrees_step [OF Cons.prems s1]) (use assms(3) in auto)
    from Cons.IH [OF this] show "matches ((\<lambda>(w, scope1). rbind (for_loop v ev vs scope1) (\<lambda>(result, scope2). Inr (w # result, scope2))) (w, scope1))
        (rbind (values_of (\<lambda>x. f (env(v \<mapsto> x))) vs) (\<lambda>vs. Inr (w # vs))) scope1 (insert v B)"
      unfolding prod.case by (rule matches_bind) auto
  qed
qed simp

lemma filter_tracks:
  assumes "tracks ev f X B" "agrees (X - {''item''}) scope env" "insert ''item'' B \<inter> (X - {''item''}) = {}"
  shows "matches (filter_loop ev vs scope) (filtered (\<lambda>x. f (env(''item'' \<mapsto> x))) vs) scope (insert ''item'' B)"
  using assms(2)
proof (induction vs arbitrary: scope)
  case (Cons u vs)
  show ?case unfolding filter_loop.simps filtered.simps
  proof (rule matches_bind [OF matches_shift [OF body_tracks [OF assms(1) Cons.prems]] order_refl])
    fix w scope1 assume s1: "\<forall>x. x \<notin> insert ''item'' B \<longrightarrow> scope1 x = scope x"
    have "agrees (X - {''item''}) scope1 env" by (rule agrees_step [OF Cons.prems s1]) (use assms(3) in auto)
    from Cons.IH [OF this] show "matches ((\<lambda>(keep, scope1). rbind (filter_loop ev vs scope1) (\<lambda>(result, scope2).
         Inr (if truthy keep then u # result else result, scope2))) (w, scope1))
        (rbind (filtered (\<lambda>x. f (env(''item'' \<mapsto> x))) vs) (\<lambda>result. Inr (if truthy w then u # result else result))) scope1 (insert ''item'' B)"
      unfolding prod.case by (rule matches_bind) auto
  qed
qed simp

lemma quantified_tracks:
  assumes "tracks ev f X B" "agrees (X - {v}) scope env" "insert v B \<inter> (X - {v}) = {}"
  shows "matches (quantified_loop every v ev vs scope) (decided every (\<lambda>x. f (env(v \<mapsto> x))) vs) scope (insert v B)"
  using assms(2)
proof (induction vs arbitrary: scope)
  case (Cons u vs)
  show ?case unfolding quantified_loop.simps decided.simps
  proof (rule matches_bind [OF matches_shift [OF body_tracks [OF assms(1) Cons.prems]] order_refl])
    fix w scope1 assume s1: "\<forall>x. x \<notin> insert v B \<longrightarrow> scope1 x = scope x"
    have "agrees (X - {v}) scope1 env" by (rule agrees_step [OF Cons.prems s1]) (use assms(3) in auto)
    from Cons.IH [OF this] show "matches ((\<lambda>(w, scope1). if (every \<and> \<not> truthy w) \<or> (\<not> every \<and> truthy w) then Inr (truthy w, scope1)
         else quantified_loop every v ev vs scope1) (w, scope1))
        (if truthy w = every then decided every (\<lambda>x. f (env(v \<mapsto> x))) vs else Inr (truthy w)) scope1 (insert v B)"
      by (cases every; cases "truthy w") (simp_all del: fun_upd_apply)
  qed
qed simp


lemma well_scoped_disjoint: "well_scoped e \<Longrightarrow> bound_names e \<inter> free_names e = {}"
  by (induction e rule: well_scoped.induct) auto

lemma two_track:
  assumes "matches m m' scope B" "B \<inter> Y = {}" "agrees Y scope env" "tracks ev2 f2 Y C"
    and "\<And>w u scope2. h w (u, scope2) = Inr (g w u, scope2)"
  shows "matches (rbind m (\<lambda>(w, scope1). rbind (ev2 scope1) (h w))) (rbind m' (\<lambda>w. rbind (f2 env) (\<lambda>u. Inr (g w u)))) scope (B \<union> C)"
proof (rule matches_bind [OF assms(1)])
  fix w scope1 assume s1: "\<forall>x. x \<notin> B \<longrightarrow> scope1 x = scope x"
  have "agrees Y scope1 env" by (rule agrees_step [OF assms(3) s1]) (use assms(2) in auto)
  then have "matches (ev2 scope1) (f2 env) scope1 C" using assms(4) by (simp add: tracks_def)
  then show "matches ((\<lambda>(w, scope1). rbind (ev2 scope1) (h w)) (w, scope1)) (rbind (f2 env) (\<lambda>u. Inr (g w u))) scope1 (B \<union> C)"
    unfolding prod.case by (rule matches_bind) (auto simp: assms(5))
qed auto

lemma evaluate_tracks: "well_scoped e \<Longrightarrow> tracks (evaluate_inner lib e) (feel_value lib e) (free_names e) (bound_names e)"
proof (induction e)
  case (EList es)
  then have "\<forall>e \<in> set es. tracks (evaluate_inner lib e) (feel_value lib e) (free_names e) (bound_names e)"
    by (simp add: list_all_iff)
  note it = items_track [where ev = "evaluate_inner lib" and f = "feel_value lib", OF this]
  show ?case unfolding tracks_def
  proof (intro allI impI)
    fix scope env assume "agrees (free_names (EList es)) scope env"
    then have "matches (evaluate_items (evaluate_inner lib) es scope) (values_of (\<lambda>e. feel_value lib e env) es) scope (\<Union> (bound_names ` set es))"
      using EList.prems by (intro it) simp_all
    then show "matches (evaluate_inner lib (EList es) scope) (feel_value lib (EList es) env) scope (bound_names (EList es))"
      unfolding evaluate_inner.simps feel_value.simps by (rule matches_bind) auto
  qed
next
  case (EContext es)
  then have "\<forall>(k, e) \<in> set es. tracks (evaluate_inner lib e) (feel_value lib e) (free_names e) (bound_names e)"
    by (fastforce simp: list_all_iff)
  note it = entries_track [where ev = "evaluate_inner lib" and f = "feel_value lib", OF this]
  show ?case unfolding tracks_def
  proof (intro allI impI)
    fix scope env assume "agrees (free_names (EContext es)) scope env"
    then have "matches (evaluate_entries (evaluate_inner lib) es [] scope) (entries_of (\<lambda>e. feel_value lib e env) es []) scope
        (\<Union> ((\<lambda>(k, e). bound_names e) ` set es))"
      using EContext.prems by (intro it) simp_all
    then show "matches (evaluate_inner lib (EContext es) scope) (feel_value lib (EContext es) env) scope (bound_names (EContext es))"
      unfolding evaluate_inner.simps feel_value.simps by (rule matches_bind) auto
  qed
next
  case (ECall name args)
  then have "\<forall>e \<in> set args. tracks (evaluate_inner lib e) (feel_value lib e) (free_names e) (bound_names e)"
    by (simp add: list_all_iff)
  note it = items_track [where ev = "evaluate_inner lib" and f = "feel_value lib", OF this]
  show ?case unfolding tracks_def
  proof (intro allI impI)
    fix scope env assume "agrees (free_names (ECall name args)) scope env"
    then have "matches (evaluate_items (evaluate_inner lib) args scope) (values_of (\<lambda>e. feel_value lib e env) args) scope (\<Union> (bound_names ` set args))"
      using ECall.prems by (intro it) simp_all
    then show "matches (evaluate_inner lib (ECall name args) scope) (feel_value lib (ECall name args) env) scope (bound_names (ECall name args))"
      unfolding evaluate_inner.simps feel_value.simps evaluate_call_def
      by (rule matches_bind) (auto simp: matches_def rbind_Inl_iff split: sum.split)
  qed
next
  case (ERange a b si ei)
  show ?case unfolding tracks_def
  proof (intro allI impI)
    fix scope env assume ag: "agrees (free_names (ERange a b si ei)) scope env"
    have "matches (evaluate_inner lib a scope) (feel_value lib a env) scope (bound_names a)"
      using ERange ag by (auto simp: tracks_def agrees_def)
    then show "matches (evaluate_inner lib (ERange a b si ei) scope) (feel_value lib (ERange a b si ei) env) scope (bound_names (ERange a b si ei))"
      using ERange ag unfolding evaluate_inner.simps feel_value.simps bound_names.simps
      by (intro two_track [where Y = "free_names b"]) (auto simp: agrees_def)
  qed
next
  case (EBinary op l r)
  show ?case unfolding tracks_def
  proof (intro allI impI)
    fix scope env assume ag: "agrees (free_names (EBinary op l r)) scope env"
    have m: "matches (evaluate_inner lib l scope) (feel_value lib l env) scope (bound_names l)"
      using EBinary ag by (auto simp: tracks_def agrees_def)
    have r: "matches (evaluate_inner lib r scope1) (feel_value lib r env) scope1 (bound_names r)"
      if "\<forall>x. x \<notin> bound_names l \<longrightarrow> scope1 x = scope x" for scope1
    proof -
      have "agrees (free_names r) scope1 env" by (rule agrees_step [OF ag that]) (use EBinary.prems in auto)
      then show ?thesis using EBinary by (simp add: tracks_def)
    qed
    have e: "evaluate_inner lib (EBinary op l r) scope = rbind (evaluate_inner lib l scope) (\<lambda>(a, scope1).
        if op = And \<and> \<not> truthy a then Inr (JsonBool False, scope1)
        else if op = Or \<and> truthy a then Inr (JsonBool True, scope1)
        else rbind (evaluate_inner lib r scope1) (\<lambda>(b, scope2).
          rbind (if op = And \<or> op = Or then Inr (JsonBool (truthy b)) else apply_binary lib op a b) (\<lambda>v. Inr (v, scope2))))"
      by (cases "op = And"; cases "op = Or") (auto simp: evaluate_binary_def intro!: rbind_cong split: prod.split)
    have "matches (rbind (evaluate_inner lib r scope1) (\<lambda>(b, scope2).
          rbind (if op = And \<or> op = Or then Inr (JsonBool (truthy b)) else apply_binary lib op a b) (\<lambda>v. Inr (v, scope2))))
        (rbind (feel_value lib r env) (\<lambda>b. if op = And \<or> op = Or then Inr (JsonBool (truthy b)) else apply_binary lib op a b))
        scope1 (bound_names (EBinary op l r))"
      if "\<forall>x. x \<notin> bound_names l \<longrightarrow> scope1 x = scope x" for scope1 a
      by (rule matches_bind [OF r [OF that]]) (auto simp: matches_pure)
    then show "matches (evaluate_inner lib (EBinary op l r) scope) (feel_value lib (EBinary op l r) env) scope (bound_names (EBinary op l r))"
      unfolding e feel_value.simps by (intro matches_bind [OF m]) simp_all
  qed
next
  case (EIf c t e)
  show ?case unfolding tracks_def
  proof (intro allI impI)
    fix scope env assume ag: "agrees (free_names (EIf c t e)) scope env"
    have m: "matches (evaluate_inner lib c scope) (feel_value lib c env) scope (bound_names c)"
      using EIf ag by (auto simp: tracks_def agrees_def)
    have r: "matches (evaluate_inner lib x scope1) (feel_value lib x env) scope1 (bound_names (EIf c t e))"
      if s1: "\<forall>x. x \<notin> bound_names c \<longrightarrow> scope1 x = scope x" and x: "x = t \<or> x = e" for scope1 x
    proof -
      have "agrees (free_names x) scope1 env" by (rule agrees_step [OF ag s1]) (use EIf.prems x in auto)
      then have "matches (evaluate_inner lib x scope1) (feel_value lib x env) scope1 (bound_names x)"
        using EIf x by (auto simp: tracks_def)
      then show ?thesis using x unfolding matches_def by (auto split: sum.splits)
    qed
    show "matches (evaluate_inner lib (EIf c t e) scope) (feel_value lib (EIf c t e) env) scope (bound_names (EIf c t e))"
      unfolding evaluate_inner.simps feel_value.simps
      by (rule matches_bind [OF m]) (auto intro!: r [simplified bound_names.simps])
  qed
next
  case (EUnary op e)
  show ?case unfolding tracks_def
  proof (intro allI impI)
    fix scope env assume "agrees (free_names (EUnary op e)) scope env"
    then have m: "matches (evaluate_inner lib e scope) (feel_value lib e env) scope (bound_names e)"
      using EUnary by (simp add: tracks_def)
    have e: "evaluate_inner lib (EUnary op e) scope = rbind (evaluate_inner lib e scope) (\<lambda>(v, scope1).
        rbind (case op of Negate \<Rightarrow> rbind (feel_number v) (\<lambda>a. Inr (json_of_f64 (f64_neg a)))
          | Not \<Rightarrow> Inr (JsonBool (\<not> truthy v))) (\<lambda>w. Inr (w, scope1)))"
      by (cases op) (auto simp: rbind_assoc intro!: rbind_cong)
    show "matches (evaluate_inner lib (EUnary op e) scope) (feel_value lib (EUnary op e) env) scope (bound_names (EUnary op e))"
      unfolding e feel_value.simps bound_names.simps
      by (rule matches_bind [OF m order_refl]) (simp only: prod.case matches_pure)
  qed
next
  case (EPath t k)
  then show ?case unfolding tracks_def by (auto intro!: matches_bind)
next
  case (EFilter t p)
  show ?case unfolding tracks_def
  proof (intro allI impI)
    fix scope env assume ag: "agrees (free_names (EFilter t p)) scope env"
    have m: "matches (evaluate_inner lib t scope) (feel_value lib t env) scope (bound_names t)"
      using EFilter ag by (auto simp: tracks_def agrees_def)
    have l: "matches (filter_loop (evaluate_inner lib p) vs scope1) (filtered (\<lambda>x. feel_value lib p (env(''item'' \<mapsto> x))) vs)
        scope1 (insert ''item'' (bound_names p))"
      if "\<forall>x. x \<notin> bound_names t \<longrightarrow> scope1 x = scope x" for scope1 vs
      using EFilter agrees_step [OF ag that, of "free_names p - {''item''}"] by (intro filter_tracks [where X = "free_names p"]) auto
    show "matches (evaluate_inner lib (EFilter t p) scope) (feel_value lib (EFilter t p) env) scope (bound_names (EFilter t p))"
      unfolding evaluate_inner.simps feel_value.simps
      by (rule matches_bind [OF m]) (auto intro!: matches_bind [OF l])
  qed
next
  case (EFor v i b)
  show ?case unfolding tracks_def
  proof (intro allI impI)
    fix scope env assume ag: "agrees (free_names (EFor v i b)) scope env"
    have m: "matches (evaluate_inner lib i scope) (feel_value lib i env) scope (bound_names i)"
      using EFor ag by (auto simp: tracks_def agrees_def)
    have l: "matches (for_loop v (evaluate_inner lib b) vs scope1) (values_of (\<lambda>x. feel_value lib b (env(v \<mapsto> x))) vs)
        scope1 (insert v (bound_names b))"
      if "\<forall>x. x \<notin> bound_names i \<longrightarrow> scope1 x = scope x" for scope1 vs
      using EFor agrees_step [OF ag that, of "free_names b - {v}"] by (intro for_tracks [where X = "free_names b"]) auto
    show "matches (evaluate_inner lib (EFor v i b) scope) (feel_value lib (EFor v i b) env) scope (bound_names (EFor v i b))"
      unfolding evaluate_inner.simps feel_value.simps
      by (rule matches_bind [OF m]) (auto intro!: matches_bind [OF l])
  qed
next
  case (EQuantified q v i b)
  show ?case unfolding tracks_def
  proof (intro allI impI)
    fix scope env assume ag: "agrees (free_names (EQuantified q v i b)) scope env"
    have m: "matches (evaluate_inner lib i scope) (feel_value lib i env) scope (bound_names i)"
      using EQuantified ag by (auto simp: tracks_def agrees_def)
    have l: "matches (quantified_loop q v (evaluate_inner lib b) vs scope1) (decided q (\<lambda>x. feel_value lib b (env(v \<mapsto> x))) vs)
        scope1 (insert v (bound_names b))"
      if "\<forall>x. x \<notin> bound_names i \<longrightarrow> scope1 x = scope x" for scope1 vs
      using EQuantified agrees_step [OF ag that, of "free_names b - {v}"] by (intro quantified_tracks [where X = "free_names b"]) auto
    show "matches (evaluate_inner lib (EQuantified q v i b) scope) (feel_value lib (EQuantified q v i b) env) scope (bound_names (EQuantified q v i b))"
      unfolding evaluate_inner.simps feel_value.simps
      by (rule matches_bind [OF m]) (auto intro!: matches_bind [OF l])
  qed
qed (auto simp: tracks_def agrees_def)

text \<open>
  C12. The evaluator implements the lexically scoped meaning of FEEL: as long as no subexpression reads from
  outside a name that it also binds inside, threading one mutable scope through the evaluation gives the same
  value or error as evaluating every part in its own environment.
\<close>

theorem evaluate_refines_lexical:
  assumes "well_scoped e"
  shows "evaluate lib e context = feel_value lib e context"
proof -
  have "matches (evaluate_inner lib e context) (feel_value lib e context) context (bound_names e)"
    using evaluate_tracks [OF assms] by (simp add: tracks_def agrees_def)
  then show ?thesis by (auto simp: evaluate_def matches_def split: sum.splits)
qed

theorem evaluate_refines_lexical_witness:
  "evaluate example_ops (EFor ''x'' (EList [EBool True, EBool False]) (EUnary Not (EName ''x''))) Map.empty
   = feel_value example_ops (EFor ''x'' (EList [EBool True, EBool False]) (EUnary Not (EName ''x''))) Map.empty"
  by (rule evaluate_refines_lexical) simp

section \<open>Result types\<close>

datatype value_type = TyAny | TyBoolean | TyNumeric | TyString | TyList | TyObject

fun conforms :: "json \<Rightarrow> value_type \<Rightarrow> bool" where
  "conforms v TyAny = True"
| "conforms v TyBoolean = (case v of JsonBool _ \<Rightarrow> True | _ \<Rightarrow> False)"
| "conforms v TyNumeric = (case v of JsonNumber _ \<Rightarrow> True | JsonNull \<Rightarrow> True | _ \<Rightarrow> False)"
| "conforms v TyString = (case v of JsonString _ \<Rightarrow> True | _ \<Rightarrow> False)"
| "conforms v TyList = (case v of JsonArray _ \<Rightarrow> True | _ \<Rightarrow> False)"
| "conforms v TyObject = (case v of JsonObject _ \<Rightarrow> True | _ \<Rightarrow> False)"

definition call_type :: "string \<Rightarrow> value_type" where
  "call_type name =
     (let f = to_ascii_lowercase name in
      if f = ''contains'' \<or> f = ''list contains'' then TyBoolean
      else if f = ''upper case'' \<or> f = ''lower case'' then TyString
      else if f = ''append'' then TyList
      else TyNumeric)"

definition binary_type :: "binary_op \<Rightarrow> value_type" where
  "binary_type op = (if op \<in> {Add, Subtract, Multiply, Divide, Power} then TyNumeric else TyBoolean)"

fun result_type :: "expr \<Rightarrow> value_type" where
  "result_type (EBool b) = TyBoolean"
| "result_type (ENumber v) = TyNumeric"
| "result_type (EString s) = TyString"
| "result_type (EList es) = TyList"
| "result_type (EContext entries) = TyObject"
| "result_type (ERange a b si ei) = TyObject"
| "result_type (EUnary op e) = (if op = Negate then TyNumeric else TyBoolean)"
| "result_type (EBinary op l r) = binary_type op"
| "result_type (EIf c t e) = (if result_type t = result_type e then result_type t else TyAny)"
| "result_type (EFilter t p) = TyList"
| "result_type (ECall name args) = call_type name"
| "result_type (EFor v i b) = TyList"
| "result_type (EQuantified q v i p) = TyBoolean"
| "result_type _ = TyAny"

lemma numeric_conforms [simp]: "conforms (numeric_value f) TyNumeric" "conforms (json_of_f64 f) TyNumeric"
  "conforms (json_of_usize n) TyNumeric"
  by (simp_all add: numeric_value_def json_of_i64_def json_of_f64_def json_of_usize_def)

lemma apply_binary_conforms: "apply_binary lib op l r = Inr v \<Longrightarrow> op \<noteq> And \<Longrightarrow> op \<noteq> Or \<Longrightarrow> conforms v (binary_type op)"
  by (cases op) (auto simp: apply_binary_def binary_type_def arithmetic_value_def feel_compare_def
      simp del: conforms.simps(3) split: if_splits)

lemma apply_call_conforms: "apply_call lib name vs = Inr v \<Longrightarrow> conforms v (call_type name)"
  by (auto simp: apply_call_def call_type_def Let_def simp del: conforms.simps(3) split: if_splits)

lemma evaluate_inner_conforms: "evaluate_inner lib e scope = Inr (v, scope') \<Longrightarrow> conforms v (result_type e)"
proof (induction e arbitrary: scope v scope')
  case (EUnary op e)
  then show ?case by (cases op) (auto simp del: conforms.simps(3))
next
  case (EBinary op l r)
  then show ?case
    by (auto simp: evaluate_binary_def binary_type_def split: if_splits dest!: apply_binary_conforms)
next
  case (ECall name args)
  then show ?case by (auto simp: evaluate_call_def intro: apply_call_conforms)
qed (auto simp del: conforms.simps(3) split: if_splits)

text \<open>
  What an operator, literal or function returns has the type its form announces: comparisons, logic,
  membership and quantifiers return booleans, arithmetic returns numbers or null, lists, loops and filters
  return arrays, contexts and ranges objects.
\<close>

theorem evaluation_conforms:
  assumes "evaluate lib e context = Inr v"
  shows "conforms v (result_type e)"
  using assms by (auto simp: evaluate_def intro: evaluate_inner_conforms)

theorem evaluation_conforms_witness:
  "conforms (JsonBool False) (result_type (EQuantified True ''x'' (EList [EBool True, EBool False]) (EName ''x'')))"
  by (rule evaluation_conforms [of example_ops _ Map.empty]) (simp add: evaluate_def array_or_empty_def truthy_def)

section \<open>Numbers\<close>

lemma integral_value:
  assumes "f64_is_finite f" "f64_value f = of_int i"
  shows "f64_is_integral f" "f64_to_i64 f = max (- (2 ^ 63)) (min (2 ^ 63 - 1) i)"
  using assms by (simp_all add: f64_is_integral_def f64_to_i64_def trunc_rat_def f64_is_finite_def
      f64_is_nan_def f64_is_infinite_def)

lemma numeric_value_int:
  assumes "f64_is_finite f" "f64_value f = of_int i" "- (2 ^ 63) \<le> i" "i \<le> 2 ^ 63"
  shows "numeric_value f = json_of_i64 (if i = 2 ^ 63 then 2 ^ 63 - 1 else i)"
proof -
  have "(of_int (- (2 ^ 63)) :: rat) \<le> of_int i" "(of_int i :: rat) \<le> of_int (2 ^ 63)"
    using assms(3,4) by (simp_all only: of_int_le_iff)
  then have "f64_le (f64_of_int (- (2 ^ 63))) f" "f64_le f (f64_of_int (2 ^ 63 - 1))"
    using assms(1,2) lower_limit upper_limit by (simp_all add: f64_le_finite)
  then show ?thesis using integral_value [OF assms(1,2)] assms(3,4) by (auto simp: numeric_value_def)
qed

text \<open>
  A whole number becomes a JSON integer: for every float with a whole value from \<open>- 2 ^ 63\<close> up to but not
  including \<open>2 ^ 63\<close> the integer is exactly that value. At \<open>2 ^ 63\<close> itself, which the bound admits
  because \<open>i64::MAX\<close> rounds up to it, the cast saturates and the result is one less than the number.
\<close>

theorem numeric_value_exact:
  assumes "f64_is_finite f" "f64_value f = of_int i" "- (2 ^ 63) \<le> i" "i \<le> 2 ^ 63"
  shows "numeric_value f = json_of_i64 (if i = 2 ^ 63 then 2 ^ 63 - 1 else i)"
  using assms by (rule numeric_value_int)

theorem numeric_value_exact_witness:
  "numeric_value (f64_of_int (2 ^ 63 - 1)) = json_of_i64 (2 ^ 63 - 1) \<and> numeric_value (f64_of_int 3) = json_of_i64 3"
  using numeric_value_exact [of "f64_of_int (2 ^ 63 - 1)" "2 ^ 63"] upper_limit
    numeric_value_exact [of "f64_of_int 3" 3] by (simp add: f64_of_int_exact)

lemma as_f64_int:
  assumes "- (2 ^ 63) \<le> i" "i < 2 ^ 63"
  shows "as_f64 (json_of_i64 i) = Some (f64_of_int i)"
proof (cases "i < 0")
  case True
  have "sint (word_of_int i :: 64 word) = i"
    using assms by (simp add: signed_of_int signed_take_bit_int_eq_self)
  with True show ?thesis by (simp add: json_of_i64_def)
next
  case False
  have "uint (word_of_int i :: 64 word) = i" using assms False by (simp add: unsigned_of_int take_bit_int_eq_self)
  with False show ?thesis by (simp add: json_of_i64_def)
qed

text \<open>The integer result an arithmetic operator should have.\<close>

fun int_operation :: "binary_op \<Rightarrow> int \<Rightarrow> int \<Rightarrow> int" where
  "int_operation Add i j = i + j"
| "int_operation Subtract i j = i - j"
| "int_operation Multiply i j = i * j"
| "int_operation _ i j = 0"

text \<open>
  Addition, subtraction and multiplication of whole numbers are exact although they are computed in
  floating point, as long as the operands and the result stay within \<open>2 ^ 53\<close> in magnitude, and the
  result is again stored as an integer.
\<close>

theorem integer_arithmetic_exact:
  assumes "op \<in> {Add, Subtract, Multiply}" "\<bar>i\<bar> \<le> 2 ^ 53" "\<bar>j\<bar> \<le> 2 ^ 53" "\<bar>int_operation op i j\<bar> \<le> 2 ^ 53"
  shows "apply_binary lib op (json_of_i64 i) (json_of_i64 j) = Inr (json_of_i64 (int_operation op i j))"
proof -
  have a: "as_f64 (json_of_i64 i) = Some (f64_of_int i)" "as_f64 (json_of_i64 j) = Some (f64_of_int j)"
    using assms(2,3) by (auto intro!: as_f64_int)
  have num: "numeric_value f = json_of_i64 k" if "f64_is_finite f \<and> f64_value f = of_int k" "\<bar>k\<bar> \<le> 2 ^ 53" for f k
  proof -
    have "- (2 ^ 63) \<le> k" "k < 2 ^ 63" using that(2) by simp_all
    then show ?thesis using numeric_value_int [of f k] that(1) by simp
  qed
  from assms(1) consider "op = Add" | "op = Subtract" | "op = Multiply" by blast
  then show ?thesis
    by cases (use a assms(4) num [OF f64_int_arithmetic(1) [OF assms(2,3)]] num [OF f64_int_arithmetic(2) [OF assms(2,3)]]
        num [OF f64_int_arithmetic(3) [OF assms(2,3)]] in
      \<open>simp_all add: apply_binary_def arithmetic_value_def feel_number_def\<close>)
qed

theorem integer_arithmetic_exact_witness:
  "apply_binary example_ops Multiply (json_of_i64 (- 6)) (json_of_i64 7) = Inr (json_of_i64 (- 42))"
  using integer_arithmetic_exact [of Multiply "- 6" 7 example_ops] by simp

section \<open>Divergences\<close>

text \<open>
  Membership in a range of numbers is false for every number: a range evaluates to an object, and the
  membership operator knows only arrays.
\<close>

theorem range_membership_false:
  "evaluate lib (EBinary In (ENumber x) (ERange (ENumber a) (ENumber b) si ei)) context = Inr (JsonBool False)"
  by (simp add: evaluate_def evaluate_binary_def apply_binary_def)

text \<open>
  A quotient never equals a whole number literal: division returns a float and a whole literal an
  integer, which the equality of JSON numbers tells apart.
\<close>

theorem quotient_never_equals_integer:
  assumes "f64_is_finite f" "f64_value f = of_int i" "- (2 ^ 63) \<le> i" "i \<le> 2 ^ 63"
  shows "evaluate lib (EBinary Equal (EBinary Divide a b) (ENumber f)) context \<noteq> Inr (JsonBool True)"
  using numeric_value_int [OF assms]
  by (auto simp: evaluate_def evaluate_binary_def apply_binary_def json_of_f64_def json_of_i64_def split: if_splits)

theorem quotient_never_equals_integer_witness:
  "evaluate example_ops (EBinary Equal (EBinary Divide (ENumber (f64_of_int 6)) (ENumber (f64_of_int 2)))
     (ENumber (f64_of_int 3))) Map.empty \<noteq> Inr (JsonBool True)"
  by (rule quotient_never_equals_integer [of _ 3]) (simp_all add: f64_of_int_exact)

text \<open>
  The variable of a loop stays bound after the loop: a later part of the expression that names a
  variable of the context reads the last element of the loop instead.
\<close>

theorem loop_variable_leaks:
  assumes "context xs = Some (JsonArray (vs @ [v]))"
  shows "evaluate lib (EList [EFor x (EName xs) (EName x), EName x]) context = Inr (JsonArray [JsonArray (vs @ [v]), v])"
proof -
  have "for_loop x (evaluate_inner lib (EName x)) (vs @ [v]) scope = Inr (vs @ [v], scope(x \<mapsto> v))" for scope
    by (induction vs arbitrary: scope) auto
  then show ?thesis using assms by (simp add: evaluate_def array_or_empty_def)
qed

theorem loop_variable_leaks_witness:
  "evaluate example_ops (EList [EFor ''x'' (EName ''xs'') (EName ''x''), EName ''x''])
     [''xs'' \<mapsto> JsonArray [JsonBool True, JsonBool False], ''x'' \<mapsto> JsonNull]
   = Inr (JsonArray [JsonArray [JsonBool True, JsonBool False], JsonBool False])"
  using loop_variable_leaks [of "[''xs'' \<mapsto> JsonArray [JsonBool True, JsonBool False], ''x'' \<mapsto> JsonNull]" "''xs''"
      "[JsonBool True]" "JsonBool False" example_ops "''x''"] by simp

end
