(* ===== verification/Dmn_Model.thy ===== *)
theory Dmn_Model
  imports Feel_Semantics
begin

text \<open>
  The data of the DMN engine (\<open>flowable-dmn-engine/src/models.rs\<close>): decision tables with their hit policies,
  clauses, rules and unary tests, the execution request, its result and its history record.

  \<open>serde_json::Map\<close> is its entries in key order and \<open>HashMap\<close> a HOL map; a \<open>BTreeMap\<close> is an association
  list in key order. Labels, descriptions, annotations, knowledge sources and authority requirements, which no
  operation reads, are left out.
\<close>

type_synonym json_map = "(string \<times> json) list"

datatype collect_operator = CollectCount | CollectSum | CollectMin | CollectMax

datatype dmn_hit_policy =
    HitFirst | HitUnique | HitAny | HitRuleOrder | HitOutputOrder | HitPriority | HitCollect | HitComplete | HitBatch

datatype dmn_string_function = Contains | StartsWith | EndsWith | Matches

datatype dmn_string_transform = LowerCase | UpperCase | StringLength

datatype dmn_comparison_operator = CmpGreater | CmpGreaterEqual | CmpLess | CmpLessEqual

datatype dmn_deferred_operator =
    DeferEquals | DeferNotEquals | DeferGreater | DeferGreaterEqual | DeferLess | DeferLessEqual

datatype dmn_list_contains_needle = NeedleLiteral json | NeedleVariable string

datatype dmn_unary_test =
    TestAny
  | TestEquals json
  | TestNotEquals json
  | TestStringFunction dmn_string_function string
  | TestStringTransform dmn_string_transform string
  | TestStringTransformComparison dmn_string_transform dmn_comparison_operator json
  | TestGreaterThan json
  | TestGreaterThanOrEqual json
  | TestLessThan json
  | TestLessThanOrEqual json
  | TestRange json json bool bool
  | TestAnyOf "dmn_unary_test list"
  | TestNot dmn_unary_test
  | TestAnd "dmn_unary_test list"
  | TestOr "dmn_unary_test list"
  | TestInstanceOf string
  | TestSubstring "32 word" "32 word option" string
  | TestReplace string string "string option" string
  | TestListContains dmn_list_contains_needle
  | TestInList "json list"
  | TestDeferredComparison dmn_deferred_operator string
  | TestElCondition string
  | TestPropertyPath "string list" dmn_unary_test

record dmn_input_clause =
  input_clause_id :: string
  input_variable :: string
  input_type_ref :: "string option"

record dmn_output_clause =
  output_clause_id :: string
  output_name :: string
  output_type_ref :: "string option"
  output_values :: "json list"

record dmn_rule_input_entry =
  input_entry_id :: "string option"
  input_expression :: dmn_unary_test

record dmn_rule_output_entry =
  output_entry_id :: "string option"
  output_value :: json
  output_expression :: string

record dmn_rule =
  rule_id :: string
  input_entries :: "dmn_rule_input_entry list"
  output_entries :: "dmn_rule_output_entry list"

record dmn_decision =
  decision_id :: string
  dmn_decision_key :: string
  dmn_decision_name :: string
  decision_hit_policy :: dmn_hit_policy
  decision_collect_operator :: "collect_operator option"
  decision_inputs :: "dmn_input_clause list"
  decision_outputs :: "dmn_output_clause list"
  decision_rules :: "dmn_rule list"
  decision_required_decisions :: "string list"

record decision_service =
  service_id :: string
  service_name :: string
  service_required_decisions :: "string list"
  output_decisions :: "string list"

record dmn_model =
  model_id :: string
  model_name :: string
  model_decisions :: "dmn_decision list"
  decision_services :: "decision_service list"

record dmn_deployment_resource =
  resource_name :: string
  resource_model :: dmn_model
  resource_bytes :: "u8 list"

record dmn_deployment_request =
  deployment_request_name :: string
  deployment_request_category :: "string option"
  deployment_request_parent :: "string option"
  deployment_request_tenant :: "string option"
  resources :: "dmn_deployment_resource list"

record dmn_deployment =
  deployment_id :: string
  deployment_name :: string
  deployment_category :: "string option"
  deployment_parent :: "string option"
  deployment_tenant :: "string option"
  deployment_resource_names :: "string list"
  deployed_at :: int

record dmn_decision_definition =
  definition_id :: string
  definition_decision_id :: string
  definition_deployment_id :: string
  definition_key :: string
  definition_name :: string
  definition_version :: "32 word"
  definition_category :: "string option"
  definition_parent :: "string option"
  definition_tenant :: "string option"
  definition_resource_name :: string
  hit_policy :: dmn_hit_policy
  collect_operator :: "collect_operator option"
  definition_inputs :: "dmn_input_clause list"
  definition_outputs :: "dmn_output_clause list"
  rules :: "dmn_rule list"
  required_decisions :: "string list"

record dmn_execution_request =
  variables :: json
  business_key :: "string option"
  request_tenant_id :: "string option"
  request_parent_deployment_id :: "string option"
  disable_history :: bool
  fallback_to_default_tenant :: bool
  instance_id :: "string option"
  request_execution_id :: "string option"
  activity_id :: "string option"
  scope_type :: "string option"

record dmn_expression_execution =
  expression_execution_id :: string
  expression_result :: json

record dmn_rule_execution_audit =
  rule_number :: nat
  audit_rule_id :: string
  valid :: bool
  condition_results :: "dmn_expression_execution list"
  conclusion_results :: "dmn_expression_execution list"
  audit_validation_message :: "string option"
  audit_exception_message :: "string option"

record dmn_execution_result =
  result_execution_id :: string
  decision_definition_id :: string
  result_deployment_id :: string
  decision_key :: string
  decision_name :: string
  decision_version :: "32 word"
  result_hit_policy :: dmn_hit_policy
  matched_rule_id :: "string option"
  matched_rule_count :: nat
  rule_executions :: "dmn_rule_execution_audit list"
  result_business_key :: "string option"
  executed_at :: string
  result_inputs :: json_map
  decision_result :: "json_map list"
  multiple_results :: bool
  decision_service_result :: "(string \<times> json_map list) list option"
  validation_message :: "string option"

record historic_decision_execution = dmn_execution_result +
  historic_tenant_id :: "string option"
  historic_instance_id :: "string option"
  historic_scope_execution_id :: "string option"
  historic_activity_id :: "string option"
  historic_scope_type :: "string option"
  historic_failed :: bool

section \<open>Operations on the data\<close>

definition map_insert :: "string \<Rightarrow> json \<Rightarrow> json_map \<Rightarrow> json_map" where
  "map_insert k v m = object_insert k v m"

fun map_extend :: "json_map \<Rightarrow> json_map \<Rightarrow> json_map" where
  "map_extend m [] = m"
| "map_extend m ((k, v) # entries) = map_extend (map_insert k v m) entries"

definition first_result :: "dmn_execution_result \<Rightarrow> json_map option" where
  "first_result r = (case decision_result r of [] \<Rightarrow> None | row # _ \<Rightarrow> Some row)"

definition get_output :: "string \<Rightarrow> dmn_execution_result \<Rightarrow> json option" where
  "get_output name r = Option.bind (first_result r) (\<lambda>row. map_of row name)"

definition stack_variables_from_rows :: "json_map list \<Rightarrow> json_map" where
  "stack_variables_from_rows rows = foldl map_extend [] rows"

definition stack_variables :: "dmn_execution_result \<Rightarrow> json_map" where
  "stack_variables r = stack_variables_from_rows (decision_result r)"

text \<open>
  The history reader still accepts the columnar shape: \<open>columnar_outputs_to_rows\<close> turns a map from
  output names to a value or an array into rows. \<open>fill_column key index items rows\<close> writes the items
  from row \<open>index\<close> on; a row that does not exist is left out.
\<close>

fun fill_column :: "string \<Rightarrow> nat \<Rightarrow> json list \<Rightarrow> json_map list \<Rightarrow> json_map list" where
  "fill_column key i [] rows = rows"
| "fill_column key i (item # items) rows =
     fill_column key (Suc i) items
       (if i < length rows then rows[i := map_insert key item (rows ! i)] else rows)"

definition column_items :: "json \<Rightarrow> json list" where
  "column_items v = (case v of JsonArray items \<Rightarrow> items | other \<Rightarrow> [other])"

definition columnar_outputs_to_rows :: "json_map \<Rightarrow> json_map list" where
  "columnar_outputs_to_rows outputs =
     (if outputs = [] then []
      else
        let max_len = Max (set (map (\<lambda>(_, v). length (column_items v)) outputs)) in
        if max_len = 0 then []
        else fold (\<lambda>(key, v) rows. fill_column key 0 (column_items v) rows) outputs (replicate max_len []))"

section \<open>Maps in key order\<close>

lemma map_of_object_insert [simp]: "map_of (object_insert k v m) = (map_of m)(k \<mapsto> v)"
  by (induction k v m rule: object_insert.induct) (auto simp: fun_eq_iff)

lemma object_insert_not_Nil [simp]: "object_insert k v m \<noteq> []"
  by (induction k v m rule: object_insert.induct) auto

lemma map_of_map_insert [simp]: "map_of (map_insert k v m) = (map_of m)(k \<mapsto> v)"
  by (simp add: map_insert_def)

lemma map_insert_not_Nil [simp]: "map_insert k v m \<noteq> []"
  by (simp add: map_insert_def)

lemma map_of_map_extend: "map_of (map_extend m entries) = map_of m ++ map_of (rev entries)"
  by (induction m entries rule: map_extend.induct) (auto simp: map_add_def fun_eq_iff split: option.splits)

lemma map_of_map_extend_distinct:
  "distinct (map fst entries) \<Longrightarrow> map_of (map_extend m entries) = map_of m ++ map_of entries"
proof -
  assume d: "distinct (map fst entries)"
  have "map_of (rev entries) k = map_of entries k" for k
    using d map_of_eq_Some_iff [of entries k] map_of_eq_Some_iff [of "rev entries" k]
    by (cases "map_of entries k"; cases "map_of (rev entries) k") (auto simp: rev_map [symmetric])
  then show ?thesis by (simp add: map_of_map_extend map_add_def)
qed

end
