(* ===== verification/Dmn_Durations.thy ===== *)
theory Dmn_Durations
  imports Rust_Text "HOL-Library.Monad_Syntax"
begin

text \<open>
  The duration texts of the DMN engine (\<open>flowable-dmn-engine/src/models.rs\<close>): parsing a
  \<open>dayTimeDuration\<close> to nanoseconds and a \<open>yearMonthDuration\<close> to months in checked \<open>i128\<close>
  arithmetic, and formatting both. An \<open>i128\<close> is an \<open>int\<close> in its range; every checked operation
  is \<open>checked_i128\<close> of the exact result, \<open>None\<close> standing for an overflow. The cursor of the
  parser is the text that is left.
\<close>

section \<open>The code\<close>

definition checked_i128 :: "int \<Rightarrow> int option" where
  "checked_i128 i = (if - (2 ^ 127) \<le> i \<and> i < 2 ^ 127 then Some i else None)"

definition NANOS_PER_SECOND :: int where "NANOS_PER_SECOND = 1000000000"

definition NANOS_PER_MINUTE :: int where "NANOS_PER_MINUTE = 60 * NANOS_PER_SECOND"

definition NANOS_PER_HOUR :: int where "NANOS_PER_HOUR = 60 * NANOS_PER_MINUTE"

definition NANOS_PER_DAY :: int where "NANOS_PER_DAY = 24 * NANOS_PER_HOUR"

fun strip_prefix_char :: "char \<Rightarrow> string \<Rightarrow> string option" where
  "strip_prefix_char c [] = None"
| "strip_prefix_char c (d # s) = (if c = d then Some s else None)"

definition strip_time_marker :: "string \<Rightarrow> string option" where
  "strip_time_marker text = strip_prefix_char (CHR ''T'') text"

definition take_number_before :: "char \<Rightarrow> string \<Rightarrow> (int option \<times> string) option" where
  "take_number_before marker text =
     (case str_find (\<lambda>c. c = marker) text of
        None \<Rightarrow> Some (None, text)
      | Some marker_index \<Rightarrow>
          let number_text = take marker_index text in
          if number_text = [] \<or> \<not> list_all is_ascii_digit number_text then None
          else do { number \<leftarrow> checked_i128 (decimal_value number_text);
                    Some (Some number, drop (marker_index + 1) text) })"

text \<open>\<open>split_once('.')\<close> is the position of the first dot.\<close>

definition parse_seconds_nanos :: "string \<Rightarrow> int option" where
  "parse_seconds_nanos text =
     (let dot = str_find (\<lambda>c. c = CHR ''.'') text;
          whole_text = (case dot of Some i \<Rightarrow> take i text | None \<Rightarrow> text);
          fraction_text = (case dot of Some i \<Rightarrow> drop (i + 1) text | None \<Rightarrow> [])
      in if dot \<noteq> None \<and> fraction_text = [] then None
         else if whole_text = [] \<or> \<not> list_all is_ascii_digit whole_text then None
         else if fraction_text \<noteq> [] \<and> (9 < length fraction_text \<or> \<not> list_all is_ascii_digit fraction_text) then None
         else do {
           whole \<leftarrow> checked_i128 (decimal_value whole_text);
           fraction \<leftarrow> (if fraction_text = [] then Some 0
                       else checked_i128 (decimal_value (fraction_text @ replicate (9 - length fraction_text) (CHR ''0''))));
           product \<leftarrow> checked_i128 (whole * NANOS_PER_SECOND);
           checked_i128 (product + fraction) })"

definition take_seconds_before :: "char \<Rightarrow> string \<Rightarrow> (int option \<times> string) option" where
  "take_seconds_before marker text =
     (case str_find (\<lambda>c. c = marker) text of
        None \<Rightarrow> Some (None, text)
      | Some marker_index \<Rightarrow>
          do { seconds \<leftarrow> parse_seconds_nanos (take marker_index text);
               Some (Some seconds, drop (marker_index + 1) text) })"

definition signed_duration_nanos :: "int \<Rightarrow> bool \<Rightarrow> bool \<Rightarrow> int option" where
  "signed_duration_nanos nanos negative saw_component =
     (if \<not> saw_component then None
      else if negative then checked_i128 (- nanos) else Some nanos)"

definition parse_week_duration_nanos :: "string \<Rightarrow> int option" where
  "parse_week_duration_nanos text =
     do { (number, rest) \<leftarrow> take_number_before (CHR ''W'') text;
          weeks \<leftarrow> number;
          if rest \<noteq> [] then None
          else do { days \<leftarrow> checked_i128 (weeks * 7); checked_i128 (days * NANOS_PER_DAY) } }"

text \<open>
  One \<open>if let Some(x) = cursor.take...(marker)? { total = total.checked_add(x.checked_mul(unit)?)? }\<close>:
  the new total, whether a component was seen, and the rest of the text.
\<close>

definition add_component :: "int \<Rightarrow> int \<Rightarrow> (int option \<times> string) option \<Rightarrow> (int \<times> bool \<times> string) option" where
  "add_component unit total_nanos taken =
     do { (component, rest) \<leftarrow> taken;
          case component of
            None \<Rightarrow> Some (total_nanos, False, rest)
          | Some x \<Rightarrow> do { scaled \<leftarrow> checked_i128 (x * unit);
                           sum \<leftarrow> checked_i128 (total_nanos + scaled);
                           Some (sum, True, rest) } }"

text \<open>The components after the time marker: the total and whether one was seen.\<close>

definition parse_time :: "int \<Rightarrow> string \<Rightarrow> (int \<times> bool) option" where
  "parse_time total_nanos rest =
     do { (total_nanos, saw_hours, rest) \<leftarrow> add_component NANOS_PER_HOUR total_nanos (take_number_before (CHR ''H'') rest);
          (total_nanos, saw_minutes, rest) \<leftarrow> add_component NANOS_PER_MINUTE total_nanos (take_number_before (CHR ''M'') rest);
          (total_nanos, saw_seconds, rest) \<leftarrow> add_component 1 total_nanos (take_seconds_before (CHR ''S'') rest);
          if rest \<noteq> [] then None else Some (total_nanos, saw_hours \<or> saw_minutes \<or> saw_seconds) }"

definition parse_day_time_duration_nanos :: "string \<Rightarrow> int option" where
  "parse_day_time_duration_nanos input =
     (let text = str_trim input in
      if text = [] then None
      else
        let negative = (hd text = CHR ''-'');
            text = (if negative then tl text else text)
        in do {
          body \<leftarrow> strip_prefix_char (CHR ''P'') text;
          if CHR ''W'' \<in> set body then do {
            nanos \<leftarrow> parse_week_duration_nanos body;
            signed_duration_nanos nanos negative True }
          else do {
            (total_nanos, saw_days, rest) \<leftarrow> add_component NANOS_PER_DAY 0 (take_number_before (CHR ''D'') body);
            if rest = [] then signed_duration_nanos total_nanos negative saw_days
            else do {
              rest \<leftarrow> strip_time_marker rest;
              (total_nanos, saw_time_component) \<leftarrow> parse_time total_nanos rest;
              if \<not> saw_time_component then None
              else signed_duration_nanos total_nanos negative True } } })"

definition parse_year_month_duration_months :: "string \<Rightarrow> int option" where
  "parse_year_month_duration_months input =
     (let text = str_trim input in
      if text = [] then None
      else
        let negative = (hd text = CHR ''-'');
            text = (if negative then tl text else text)
        in do {
          body \<leftarrow> strip_prefix_char (CHR ''P'') text;
          (total_months, saw_years, rest) \<leftarrow> add_component 12 0 (take_number_before (CHR ''Y'') body);
          (total_months, saw_months, rest) \<leftarrow> add_component 1 total_months (take_number_before (CHR ''M'') rest);
          if rest \<noteq> [] \<or> \<not> (saw_years \<or> saw_months) then None
          else if negative then checked_i128 (- total_months) else Some total_months })"

definition show_int :: "int \<Rightarrow> string" where
  "show_int i = (if i < 0 then CHR ''-'' # show_nat (nat (- i)) else show_nat (nat i))"

text \<open>\<open>format!("{:09}")\<close> and the loop that pops the trailing zeros.\<close>

definition pad_left_zero :: "nat \<Rightarrow> string \<Rightarrow> string" where
  "pad_left_zero w s = replicate (w - length s) (CHR ''0'') @ s"

definition trim_trailing_zeros :: "string \<Rightarrow> string" where
  "trim_trailing_zeros s = rev (dropWhile (\<lambda>c. c = CHR ''0'') (rev s))"

definition format_duration_seconds :: "int \<Rightarrow> int \<Rightarrow> string" where
  "format_duration_seconds seconds fractional_nanos =
     (if fractional_nanos = 0 then show_int seconds @ ''S''
      else show_int seconds @ ''.'' @ trim_trailing_zeros (pad_left_zero 9 (show_int fractional_nanos)) @ ''S'')"

definition format_day_time_duration :: "int \<Rightarrow> string option" where
  "format_day_time_duration nanos =
     do {
       remaining \<leftarrow> checked_i128 (abs nanos);
       if remaining = 0 then Some ''PT0S''
       else
         let days = remaining div NANOS_PER_DAY;
             remaining = remaining mod NANOS_PER_DAY;
             hours = remaining div NANOS_PER_HOUR;
             remaining = remaining mod NANOS_PER_HOUR;
             minutes = remaining div NANOS_PER_MINUTE;
             remaining = remaining mod NANOS_PER_MINUTE;
             seconds = remaining div NANOS_PER_SECOND;
             fractional_nanos = remaining mod NANOS_PER_SECOND
         in Some ((if nanos < 0 then ''-'' else []) @ ''P''
               @ (if 0 < days then show_int days @ ''D'' else [])
               @ (if 0 < hours \<or> 0 < minutes \<or> 0 < seconds \<or> days = 0
                  then ''T''
                     @ (if 0 < hours then show_int hours @ ''H'' else [])
                     @ (if 0 < minutes then show_int minutes @ ''M'' else [])
                     @ (if 0 < seconds \<or> 0 < fractional_nanos
                        then format_duration_seconds seconds fractional_nanos else [])
                  else [])) }"

definition format_year_month_duration :: "int \<Rightarrow> string option" where
  "format_year_month_duration months =
     do { m \<leftarrow> checked_i128 (abs months);
          Some ((if months < 0 then ''-'' else []) @ ''P'' @ show_int m @ ''M'') }"

definition normalize_day_time_duration_text :: "string \<Rightarrow> string option" where
  "normalize_day_time_duration_text text =
     do { nanos \<leftarrow> parse_day_time_duration_nanos text; format_day_time_duration nanos }"

definition normalize_year_month_duration_text :: "string \<Rightarrow> string option" where
  "normalize_year_month_duration_text text =
     do { months \<leftarrow> parse_year_month_duration_months text; format_year_month_duration months }"

section \<open>Digits\<close>

lemma decimal_value_append:
  "decimal_value (xs @ ys) = decimal_value xs * 10 ^ length ys + decimal_value ys"
proof (induction ys rule: rev_induct)
  case (snoc c ys)
  then show ?case
    by (simp add: decimal_value_def algebra_simps flip: append_assoc)
qed (simp add: decimal_value_def)

lemma decimal_value_zeros [simp]: "decimal_value (replicate k (CHR ''0'')) = 0"
  by (induction k) (simp_all add: decimal_value_def digit_val_def)

lemma decimal_value_show_nat [simp]: "decimal_value (show_nat n) = int n"
proof (induction n rule: show_nat.induct)
  case (1 n)
  show ?case
  proof (cases "n < 10")
    case True
    then show ?thesis by (simp add: show_nat_lt_10 decimal_value_def digit_val_def)
  next
    case False
    then show ?thesis
      using 1 div_mult_mod_eq [of "int n" 10]
      by (simp add: show_nat_ge_10 decimal_value_append zdiv_int zmod_int)
        (simp add: decimal_value_def digit_val_def zmod_int)
  qed
qed

lemma show_nat_length: "n < 10 ^ k \<Longrightarrow> 0 < k \<Longrightarrow> length (show_nat n) \<le> k"
proof (induction k arbitrary: n)
  case (Suc k)
  show ?case
  proof (cases "n < 10")
    case False
    then have "n div 10 < 10 ^ k" and "0 < k" using Suc.prems by (auto simp: less_mult_imp_div_less mult.commute intro!: gr0I)
    with Suc.IH False show ?thesis by (simp add: show_nat_ge_10)
  qed (simp add: show_nat_lt_10)
qed simp

lemma show_int_nonneg [simp]: "0 \<le> i \<Longrightarrow> show_int i = show_nat (nat i)"
  by (simp add: show_int_def)

lemma show_nat_all_digits [simp]: "list_all is_ascii_digit (show_nat n)"
  using show_nat_digits by (simp add: list_all_iff)

lemma show_nat_char_digit: "c \<in> set (show_nat n) \<Longrightarrow> is_ascii_digit c"
  using show_nat_digits by simp

lemma checked_i128_le [simp]: "0 \<le> i \<Longrightarrow> i < 2 ^ 127 \<Longrightarrow> checked_i128 i = Some i"
  by (simp add: checked_i128_def)

lemma str_find_digits_then:
  "list_all is_ascii_digit ds \<Longrightarrow> \<not> is_ascii_digit m \<Longrightarrow> str_find (\<lambda>c. c = m) (ds @ m # rest) = Some (length ds)"
  by (subst str_find_append) (auto simp: list_all_iff)

section \<open>Reading a component back\<close>

lemma take_number_before_shown:
  assumes "0 \<le> k" "k < 2 ^ 127" "\<not> is_ascii_digit m"
  shows "take_number_before m (show_nat (nat k) @ m # rest) = Some (Some k, rest)"
  using assms by (simp add: take_number_before_def str_find_digits_then Let_def)

lemma take_number_before_absent: "m \<notin> set text \<Longrightarrow> take_number_before m text = Some (None, text)"
  using str_find_None_iff [of "\<lambda>c. c = m" "text"] by (auto simp: take_number_before_def)

lemma add_component_absent [simp]: "add_component u t (Some (None, rest)) = Some (t, False, rest)"
  by (simp add: add_component_def)

lemma add_component_present [simp]:
  assumes "0 \<le> t" "0 \<le> x" "0 < u" "t + x * u < 2 ^ 127"
  shows "add_component u t (Some (Some x, rest)) = Some (t + x * u, True, rest)"
proof -
  have "0 \<le> x * u" using assms by simp
  with assms show ?thesis by (simp add: add_component_def)
qed

definition number_part :: "int \<Rightarrow> char \<Rightarrow> string" where
  "number_part k m = (if 0 < k then show_int k @ [m] else [])"

lemma add_number_part:
  assumes "0 \<le> t" "0 \<le> k" "0 < u" "t + k * u < 2 ^ 127" "\<not> is_ascii_digit m" "m \<notin> set rest"
  shows "add_component u t (take_number_before m (number_part k m @ rest)) = Some (t + k * u, 0 < k, rest)"
proof (cases "0 < k")
  case True
  have "k * 1 \<le> k * u" by (rule mult_left_mono) (use assms in simp_all)
  with assms have "k < 2 ^ 127" by linarith
  with True assms show ?thesis by (simp add: number_part_def take_number_before_shown)
next
  case False
  with assms show ?thesis by (simp add: number_part_def take_number_before_absent)
qed

lemma trim_pad_restored:
  "length s \<le> w \<Longrightarrow>
   trim_trailing_zeros (pad_left_zero w s) @ replicate (w - length (trim_trailing_zeros (pad_left_zero w s))) (CHR ''0'')
     = pad_left_zero w s"
proof -
  have *: "trim_trailing_zeros t @ replicate (length t - length (trim_trailing_zeros t)) (CHR ''0'') = t" for t
  proof (induction t rule: rev_induct)
    case (snoc c t)
    have "length (trim_trailing_zeros t) \<le> length t"
      using length_dropWhile_le [of _ "rev t"] by (simp add: trim_trailing_zeros_def)
    with snoc show ?case
      by (simp add: trim_trailing_zeros_def Suc_diff_le flip: replicate_append_same append_assoc)
  qed (simp add: trim_trailing_zeros_def)
  assume "length s \<le> w"
  then have "length (pad_left_zero w s) = w" by (simp add: pad_left_zero_def)
  with * [of "pad_left_zero w s"] show ?thesis by simp
qed

lemma trim_trailing_zeros_subset: "set (trim_trailing_zeros s) \<subseteq> set s"
  by (auto simp: trim_trailing_zeros_def dest: set_dropWhileD)

lemma trim_trailing_zeros_Nil: "trim_trailing_zeros s = [] \<Longrightarrow> decimal_value s = 0"
proof -
  assume "trim_trailing_zeros s = []"
  then have "\<forall>c \<in> set s. c = CHR ''0''" by (simp add: trim_trailing_zeros_def)
  then have "s = replicate (length s) (CHR ''0'')" by (simp add: replicate_length_same)
  then show ?thesis using decimal_value_zeros by metis
qed
lemma fraction_text_read:
  assumes "0 < f" "f < NANOS_PER_SECOND"
  defines "ft \<equiv> trim_trailing_zeros (pad_left_zero 9 (show_nat (nat f)))"
  shows "ft \<noteq> []" "length ft \<le> 9" "list_all is_ascii_digit ft"
    "decimal_value (ft @ replicate (9 - length ft) (CHR ''0'')) = f"
proof -
  have len: "length (show_nat (nat f)) \<le> 9"
    using assms by (intro show_nat_length) (simp_all add: NANOS_PER_SECOND_def)
  have val: "decimal_value (pad_left_zero 9 (show_nat (nat f))) = f"
    using assms by (simp add: pad_left_zero_def decimal_value_append)
  show "ft \<noteq> []" using trim_trailing_zeros_Nil val assms by (auto simp: ft_def)
  have plen: "length (pad_left_zero 9 (show_nat (nat f))) = 9" using len by (simp add: pad_left_zero_def)
  show "length ft \<le> 9"
    using length_dropWhile_le [of _ "rev (pad_left_zero 9 (show_nat (nat f)))"] plen
    by (simp add: ft_def trim_trailing_zeros_def)
  have "list_all is_ascii_digit (pad_left_zero 9 (show_nat (nat f)))"
    using show_nat_all_digits [of "nat f"] by (auto simp: pad_left_zero_def list_all_iff is_ascii_digit_def)
  then show "list_all is_ascii_digit ft"
    using trim_trailing_zeros_subset unfolding ft_def list_all_iff by blast
  show "decimal_value (ft @ replicate (9 - length ft) (CHR ''0'')) = f"
    using trim_pad_restored [OF len] val unfolding ft_def by (simp del: decimal_value_append)
qed

lemma parse_seconds_nanos_whole:
  assumes "0 \<le> s" "s * NANOS_PER_SECOND < 2 ^ 127"
  shows "parse_seconds_nanos (show_nat (nat s)) = Some (s * NANOS_PER_SECOND)"
proof -
  have "str_find (\<lambda>c. c = CHR ''.'') (show_nat (nat s)) = None"
    by (auto simp: str_find_None_iff is_ascii_digit_def dest: show_nat_char_digit)
  moreover have "s < 2 ^ 127" using assms by (simp add: NANOS_PER_SECOND_def)
  moreover have "0 \<le> s * NANOS_PER_SECOND" using assms by (simp add: NANOS_PER_SECOND_def)
  ultimately show ?thesis using assms by (simp add: parse_seconds_nanos_def)
qed

lemma parse_seconds_nanos_fraction:
  assumes "0 \<le> s" "0 < f" "f < NANOS_PER_SECOND" "s * NANOS_PER_SECOND + f < 2 ^ 127"
  shows "parse_seconds_nanos (show_nat (nat s) @ ''.'' @ trim_trailing_zeros (pad_left_zero 9 (show_nat (nat f))))
         = Some (s * NANOS_PER_SECOND + f)"
proof -
  note ft = fraction_text_read [OF assms(2,3)]
  have "s < 2 ^ 127" "s * NANOS_PER_SECOND < 2 ^ 127" "0 \<le> s * NANOS_PER_SECOND" "f < 2 ^ 127"
    using assms by (simp_all add: NANOS_PER_SECOND_def)
  moreover have "str_find (\<lambda>c. c = CHR ''.'') (show_nat (nat s) @ CHR ''.'' # t) = Some (length (show_nat (nat s)))" for t
    by (rule str_find_digits_then) (simp_all add: is_ascii_digit_def)
  ultimately show ?thesis
    using ft assms by (simp add: parse_seconds_nanos_def Let_def)
qed

lemma take_seconds_before_shown:
  assumes "0 \<le> s" "0 \<le> f" "f < NANOS_PER_SECOND" "s * NANOS_PER_SECOND + f < 2 ^ 127"
  shows "take_seconds_before (CHR ''S'') (format_duration_seconds s f) = Some (Some (s * NANOS_PER_SECOND + f), [])"
proof -
  have find: "str_find (\<lambda>c. c = CHR ''S'') (t @ ''S'') = Some (length t)"
    if "\<forall>c \<in> set t. is_ascii_digit c \<or> c = CHR ''.''" for t
    using that by (subst str_find_append) (auto simp: is_ascii_digit_def)
  show ?thesis
  proof (cases "f = 0")
    case True
    then show ?thesis
      using assms find [of "show_nat (nat s)"]
      by (simp add: format_duration_seconds_def take_seconds_before_def parse_seconds_nanos_whole show_nat_char_digit)
  next
    case False
    then have "0 < f" using assms by simp
    note ft = fraction_text_read(3) [OF this assms(3)]
    let ?t = "show_nat (nat s) @ ''.'' @ trim_trailing_zeros (pad_left_zero 9 (show_nat (nat f)))"
    have "format_duration_seconds s f = ?t @ ''S''" using assms False by (simp add: format_duration_seconds_def)
    moreover have "str_find (\<lambda>c. c = CHR ''S'') (?t @ ''S'') = Some (length ?t)"
      by (rule find) (use ft in \<open>auto simp: list_all_iff show_nat_char_digit\<close>)
    moreover have "parse_seconds_nanos ?t = Some (s * NANOS_PER_SECOND + f)"
      using assms \<open>0 < f\<close> by (intro parse_seconds_nanos_fraction) auto
    ultimately show ?thesis unfolding take_seconds_before_def by simp
  qed
qed

definition seconds_part :: "int \<Rightarrow> int \<Rightarrow> string" where
  "seconds_part s f = (if 0 < s \<or> 0 < f then format_duration_seconds s f else [])"

lemma add_seconds_part:
  assumes "0 \<le> t" "0 \<le> s" "0 \<le> f" "f < NANOS_PER_SECOND" "t + s * NANOS_PER_SECOND + f < 2 ^ 127"
  shows "add_component 1 t (take_seconds_before (CHR ''S'') (seconds_part s f))
         = Some (t + s * NANOS_PER_SECOND + f, 0 < s \<or> 0 < f, [])"
proof (cases "0 < s \<or> 0 < f")
  case True
  have "0 \<le> s * NANOS_PER_SECOND" using assms by (simp add: NANOS_PER_SECOND_def)
  with True assms show ?thesis by (simp add: seconds_part_def take_seconds_before_shown add.assoc)
next
  case False
  with assms show ?thesis by (simp add: seconds_part_def take_seconds_before_def)
qed

lemma part_chars:
  "set (number_part k m) \<subseteq> {c. is_ascii_digit c} \<union> {m}"
  by (auto simp: number_part_def show_int_def dest: show_nat_char_digit)

lemma seconds_part_chars:
  assumes "0 \<le> s" "0 \<le> f" "f < NANOS_PER_SECOND"
  shows "set (seconds_part s f) \<subseteq> {c. is_ascii_digit c} \<union> {CHR ''.'', CHR ''S''}"
  using assms fraction_text_read(3) [of f]
  by (auto simp: seconds_part_def format_duration_seconds_def list_all_iff dest: show_nat_char_digit split: if_splits)

section \<open>The round trips\<close>

text \<open>The text after the sign, for a duration of days, hours, minutes, seconds and nanoseconds.\<close>

definition time_part :: "int \<Rightarrow> int \<Rightarrow> int \<Rightarrow> int \<Rightarrow> string" where
  "time_part h m s f = number_part h (CHR ''H'') @ number_part m (CHR ''M'') @ seconds_part s f"

lemma time_part_chars:
  assumes "0 \<le> s" "0 \<le> f" "f < NANOS_PER_SECOND"
  shows "set (time_part h m s f) \<subseteq> {c. is_ascii_digit c} \<union> set ''HM.S''"
  using seconds_part_chars [OF assms] part_chars [of h "CHR ''H''"] part_chars [of m "CHR ''M''"]
  by (auto simp: time_part_def)

lemma number_part_foreign: "c \<noteq> m \<Longrightarrow> \<not> is_ascii_digit c \<Longrightarrow> c \<notin> set (number_part k m)"
  using part_chars by blast

lemma seconds_part_foreign:
  "0 \<le> s \<Longrightarrow> 0 \<le> f \<Longrightarrow> f < NANOS_PER_SECOND \<Longrightarrow> c \<notin> set ''.S'' \<Longrightarrow> \<not> is_ascii_digit c
   \<Longrightarrow> c \<notin> set (seconds_part s f)"
  using seconds_part_chars by fastforce

lemmas foreign = number_part_foreign seconds_part_foreign

lemma units_pos [simp]: "0 < NANOS_PER_SECOND" "0 < NANOS_PER_MINUTE" "0 < NANOS_PER_HOUR" "0 < NANOS_PER_DAY"
  by (simp_all add: NANOS_PER_DAY_def NANOS_PER_HOUR_def NANOS_PER_MINUTE_def NANOS_PER_SECOND_def)

lemma parse_time_part:
  assumes "0 \<le> t" "0 \<le> h" "0 \<le> m" "0 \<le> s" "0 \<le> f" "f < NANOS_PER_SECOND"
    and bound: "t + h * NANOS_PER_HOUR + m * NANOS_PER_MINUTE + s * NANOS_PER_SECOND + f < 2 ^ 127"
  shows "parse_time t (time_part h m s f)
         = Some (t + h * NANOS_PER_HOUR + m * NANOS_PER_MINUTE + s * NANOS_PER_SECOND + f, 0 < h \<or> 0 < m \<or> 0 < s \<or> 0 < f)"
proof -
  have nn: "0 \<le> h * NANOS_PER_HOUR" "0 \<le> m * NANOS_PER_MINUTE" "0 \<le> s * NANOS_PER_SECOND"
    using assms units_pos by (simp_all add: less_imp_le)
  then have le: "t + h * NANOS_PER_HOUR < 2 ^ 127" "t + h * NANOS_PER_HOUR + m * NANOS_PER_MINUTE < 2 ^ 127"
    using assms by linarith+
  have 1: "add_component NANOS_PER_HOUR t (take_number_before (CHR ''H'') (time_part h m s f))
      = Some (t + h * NANOS_PER_HOUR, 0 < h, number_part m (CHR ''M'') @ seconds_part s f)"
    unfolding time_part_def
    by (rule add_number_part) (use assms nn le in \<open>auto simp: is_ascii_digit_def foreign\<close>)
  have 2: "add_component NANOS_PER_MINUTE (t + h * NANOS_PER_HOUR)
        (take_number_before (CHR ''M'') (number_part m (CHR ''M'') @ seconds_part s f))
      = Some (t + h * NANOS_PER_HOUR + m * NANOS_PER_MINUTE, 0 < m, seconds_part s f)"
    by (rule add_number_part) (use assms nn le in \<open>auto simp: is_ascii_digit_def foreign\<close>)
  have 3: "add_component 1 (t + h * NANOS_PER_HOUR + m * NANOS_PER_MINUTE)
        (take_seconds_before (CHR ''S'') (seconds_part s f))
      = Some (t + h * NANOS_PER_HOUR + m * NANOS_PER_MINUTE + s * NANOS_PER_SECOND + f, 0 < s \<or> 0 < f, [])"
    by (rule add_seconds_part) (use assms nn in auto)
  show ?thesis by (simp add: parse_time_def 1 2 3)
qed


text \<open>The text of a positive duration, as the formatter writes it after the sign.\<close>

definition duration_body :: "int \<Rightarrow> int \<Rightarrow> int \<Rightarrow> int \<Rightarrow> int \<Rightarrow> string" where
  "duration_body d h m s f =
     number_part d (CHR ''D'') @ (if 0 < h \<or> 0 < m \<or> 0 < s \<or> d = 0 then CHR ''T'' # time_part h m s f else [])"

lemma duration_body_not_Nil: "duration_body d h m s f \<noteq> [] \<or> d < 0"
  by (auto simp: duration_body_def number_part_def)

lemma time_part_foreign:
  assumes "0 \<le> s" "0 \<le> f" "f < NANOS_PER_SECOND" "c \<notin> set ''HM.S''" "\<not> is_ascii_digit c"
  shows "c \<notin> set (time_part h m s f)"
  using time_part_chars [OF assms(1-3)] assms(4,5) by blast

lemma signed_text_trim:
  assumes "t \<noteq> []" "\<not> is_whitespace (last t)"
  shows "str_trim ((if neg then ''-'' else []) @ CHR ''P'' # t) = (if neg then ''-'' else []) @ CHR ''P'' # t"
  using assms by (intro str_trim_id) (auto simp: is_whitespace_def Let_def)

lemma not_whitespace_chars:
  "is_ascii_digit c \<or> c \<in> set ''DTHM.SP'' \<Longrightarrow> \<not> is_whitespace c"
  by (auto simp: is_ascii_digit_def is_whitespace_def Let_def)

lemma duration_body_chars:
  assumes "0 \<le> s" "0 \<le> f" "f < NANOS_PER_SECOND"
  shows "set (duration_body d h m s f) \<subseteq> {c. is_ascii_digit c} \<union> set ''DTHM.S''"
  using time_part_chars [OF assms] part_chars [of d "CHR ''D''"] by (auto simp: duration_body_def)

lemma parse_duration_body:
  assumes nn: "0 \<le> d" "0 \<le> h" "0 \<le> m" "0 \<le> s" "0 \<le> f" and f: "f < NANOS_PER_SECOND"
    and bound: "d * NANOS_PER_DAY + h * NANOS_PER_HOUR + m * NANOS_PER_MINUTE + s * NANOS_PER_SECOND + f < 2 ^ 127"
    and pos: "0 < d \<or> 0 < h \<or> 0 < m \<or> 0 < s \<or> 0 < f"
  defines "v \<equiv> (if 0 < h \<or> 0 < m \<or> 0 < s \<or> d = 0
                 then d * NANOS_PER_DAY + h * NANOS_PER_HOUR + m * NANOS_PER_MINUTE + s * NANOS_PER_SECOND + f
                 else d * NANOS_PER_DAY)"
  shows "parse_day_time_duration_nanos ((if neg then ''-'' else []) @ CHR ''P'' # duration_body d h m s f)
         = Some (if neg then - v else v)"
proof -
  let ?b = "duration_body d h m s f"
  let ?t = "if 0 < h \<or> 0 < m \<or> 0 < s \<or> d = 0 then CHR ''T'' # time_part h m s f else []"
  have units: "0 \<le> d * NANOS_PER_DAY" "0 \<le> h * NANOS_PER_HOUR" "0 \<le> m * NANOS_PER_MINUTE" "0 \<le> s * NANOS_PER_SECOND"
    using nn units_pos by (simp_all add: less_imp_le)
  then have dbound: "d * NANOS_PER_DAY < 2 ^ 127" using bound nn by linarith
  have v: "0 \<le> v" "v < 2 ^ 127" using units nn bound dbound unfolding v_def by auto
  have ne: "?b \<noteq> []" using duration_body_not_Nil nn by force
  have chars: "set ?b \<subseteq> {c. is_ascii_digit c} \<union> set ''DTHM.S''" by (rule duration_body_chars [OF nn(4,5) f])
  then have "is_ascii_digit (last ?b) \<or> last ?b \<in> set ''DTHM.SP''" using last_in_set [OF ne] by fastforce
  then have trim: "str_trim ((if neg then ''-'' else []) @ CHR ''P'' # ?b) = (if neg then ''-'' else []) @ CHR ''P'' # ?b"
    by (intro signed_text_trim ne not_whitespace_chars)
  have no_week: "CHR ''W'' \<notin> set ?b" using chars by (auto simp: is_ascii_digit_def)
  have "CHR ''D'' \<notin> set (time_part h m s f)" by (rule time_part_foreign [OF nn(4,5) f]) (simp_all add: is_ascii_digit_def)
  then have "add_component NANOS_PER_DAY 0 (take_number_before (CHR ''D'') (number_part d (CHR ''D'') @ ?t))
      = Some (0 + d * NANOS_PER_DAY, 0 < d, ?t)"
    using nn dbound by (intro add_number_part) (auto simp: is_ascii_digit_def)
  then have days: "add_component NANOS_PER_DAY 0 (take_number_before (CHR ''D'') ?b) = Some (d * NANOS_PER_DAY, 0 < d, ?t)"
    by (simp add: duration_body_def)
  have time: "parse_time (d * NANOS_PER_DAY) (time_part h m s f)
      = Some (d * NANOS_PER_DAY + h * NANOS_PER_HOUR + m * NANOS_PER_MINUTE + s * NANOS_PER_SECOND + f,
              0 < h \<or> 0 < m \<or> 0 < s \<or> 0 < f)"
    by (rule parse_time_part) (use nn units f bound in auto)
  have sign: "signed_duration_nanos v neg True = Some (if neg then - v else v)"
    using v by (simp add: signed_duration_nanos_def checked_i128_def)
  show ?thesis
    unfolding parse_day_time_duration_nanos_def trim Let_def
    using no_week days time sign pos nn
    by (auto simp: v_def strip_time_marker_def)
qed

text \<open>
  The value the formatter keeps: below one day everything; from one day on it forgets the
  nanoseconds when no hour, minute or second is written.
\<close>

definition kept_nanos :: "int \<Rightarrow> int" where
  "kept_nanos n = (if NANOS_PER_DAY \<le> abs n \<and> abs n mod NANOS_PER_DAY < NANOS_PER_SECOND
                   then sgn n * (abs n div NANOS_PER_DAY * NANOS_PER_DAY) else n)"

lemma unit_split:
  fixes r :: int
  defines "d \<equiv> r div NANOS_PER_DAY" and "x \<equiv> r mod NANOS_PER_DAY"
  defines "h \<equiv> x div NANOS_PER_HOUR" and "y \<equiv> x mod NANOS_PER_HOUR"
  defines "m \<equiv> y div NANOS_PER_MINUTE" and "z \<equiv> y mod NANOS_PER_MINUTE"
  defines "s \<equiv> z div NANOS_PER_SECOND" and "f \<equiv> z mod NANOS_PER_SECOND"
  shows "r = d * NANOS_PER_DAY + h * NANOS_PER_HOUR + m * NANOS_PER_MINUTE + s * NANOS_PER_SECOND + f"
    and "x = h * NANOS_PER_HOUR + m * NANOS_PER_MINUTE + s * NANOS_PER_SECOND + f"
    and "0 \<le> f" "f < NANOS_PER_SECOND" "0 \<le> s" "0 \<le> m" "0 \<le> h"
    and "0 \<le> r \<Longrightarrow> 0 \<le> d"
proof -
  have "f = z - s * NANOS_PER_SECOND" "z = y - m * NANOS_PER_MINUTE" "y = x - h * NANOS_PER_HOUR" "x = r - d * NANOS_PER_DAY"
    by (simp_all add: assms minus_div_mult_eq_mod)
  then show "r = d * NANOS_PER_DAY + h * NANOS_PER_HOUR + m * NANOS_PER_MINUTE + s * NANOS_PER_SECOND + f"
    and "x = h * NANOS_PER_HOUR + m * NANOS_PER_MINUTE + s * NANOS_PER_SECOND + f" by linarith+
  show "0 \<le> f" "f < NANOS_PER_SECOND" "0 \<le> s" "0 \<le> m" "0 \<le> h"
    by (simp_all add: assms pos_imp_zdiv_nonneg_iff)
  show "0 \<le> r \<Longrightarrow> 0 \<le> d" by (simp add: assms pos_imp_zdiv_nonneg_iff)
qed


lemma format_as_body:
  assumes "n \<noteq> 0" "- (2 ^ 127) < n" "n < 2 ^ 127"
  defines "r \<equiv> abs n"
  shows "format_day_time_duration n = Some ((if n < 0 then ''-'' else []) @ CHR ''P'' #
    duration_body (r div NANOS_PER_DAY) (r mod NANOS_PER_DAY div NANOS_PER_HOUR)
      (r mod NANOS_PER_DAY mod NANOS_PER_HOUR div NANOS_PER_MINUTE)
      (r mod NANOS_PER_DAY mod NANOS_PER_HOUR mod NANOS_PER_MINUTE div NANOS_PER_SECOND)
      (r mod NANOS_PER_DAY mod NANOS_PER_HOUR mod NANOS_PER_MINUTE mod NANOS_PER_SECOND))"
proof -
  have "checked_i128 (abs n) = Some r" "r \<noteq> 0" using assms by (simp_all add: checked_i128_def r_def abs_if)
  then show ?thesis
    by (simp add: format_day_time_duration_def duration_body_def time_part_def number_part_def seconds_part_def Let_def)
qed

lemma kept_nanos_via_split:
  fixes r :: int
  assumes "0 < r"
  defines "d \<equiv> r div NANOS_PER_DAY" and "x \<equiv> r mod NANOS_PER_DAY"
  defines "h \<equiv> x div NANOS_PER_HOUR" and "y \<equiv> x mod NANOS_PER_HOUR"
  defines "m \<equiv> y div NANOS_PER_MINUTE" and "z \<equiv> y mod NANOS_PER_MINUTE"
  defines "s \<equiv> z div NANOS_PER_SECOND" and "f \<equiv> z mod NANOS_PER_SECOND"
  shows "kept_nanos r = (if 0 < h \<or> 0 < m \<or> 0 < s \<or> d = 0 then r else d * NANOS_PER_DAY)"
proof -
  note split = unit_split [of r, folded d_def x_def, folded h_def y_def, folded m_def z_def, folded s_def f_def]
  have big: "NANOS_PER_SECOND \<le> x" if "0 < h \<or> 0 < m \<or> 0 < s"
  proof -
    have "NANOS_PER_SECOND * 1 \<le> h * NANOS_PER_HOUR + m * NANOS_PER_MINUTE + s * NANOS_PER_SECOND"
      using that split(5-7) unfolding NANOS_PER_HOUR_def NANOS_PER_MINUTE_def NANOS_PER_SECOND_def by linarith
    with split show ?thesis by linarith
  qed
  have small: "x < NANOS_PER_SECOND" if "\<not> (0 < h \<or> 0 < m \<or> 0 < s)"
  proof -
    have "h = 0" "m = 0" "s = 0" using that split(5-7) by auto
    with split(2,4) show ?thesis by simp
  qed
  have "NANOS_PER_DAY \<le> r \<longleftrightarrow> d \<noteq> 0"
    using pos_imp_zdiv_pos_iff [OF units_pos(4), of r] split(8) assms(1) unfolding d_def by linarith
  then show ?thesis
    using assms(1) big small unfolding kept_nanos_def by (auto simp: x_def d_def)
qed

lemma parse_formatted:
  fixes r :: int
  assumes "0 < r" "r < 2 ^ 127"
  defines "d \<equiv> r div NANOS_PER_DAY" and "x \<equiv> r mod NANOS_PER_DAY"
  defines "h \<equiv> x div NANOS_PER_HOUR" and "y \<equiv> x mod NANOS_PER_HOUR"
  defines "m \<equiv> y div NANOS_PER_MINUTE" and "z \<equiv> y mod NANOS_PER_MINUTE"
  defines "s \<equiv> z div NANOS_PER_SECOND" and "f \<equiv> z mod NANOS_PER_SECOND"
  shows "parse_day_time_duration_nanos ((if neg then ''-'' else []) @ CHR ''P'' # duration_body d h m s f)
         = Some (if neg then - kept_nanos r else kept_nanos r)"
proof -
  note split = unit_split [of r, folded d_def x_def, folded h_def y_def, folded m_def z_def, folded s_def f_def]
  note kept = kept_nanos_via_split [OF assms(1), folded d_def x_def, folded h_def y_def, folded m_def z_def, folded s_def f_def]
  have "0 < d \<or> 0 < h \<or> 0 < m \<or> 0 < s \<or> 0 < f"
  proof (rule ccontr)
    assume "\<not> ?thesis"
    then have "d = 0" "h = 0" "m = 0" "s = 0" "f = 0" using split(3,5-8) assms(1) by linarith+
    then show False using split(1) assms(1) by simp
  qed
  then show ?thesis
    using parse_duration_body [of d h m s f neg] split(3-8) assms(1,2)
    unfolding split(1) [symmetric] kept by simp
qed

lemma day_time_reread:
  assumes "- (2 ^ 127) < n" "n < 2 ^ 127"
  shows "\<exists>text. format_day_time_duration n = Some text \<and> parse_day_time_duration_nanos text = Some (kept_nanos n)"
proof (cases "n = 0")
  case True
  then show ?thesis
    by (simp add: format_day_time_duration_def parse_day_time_duration_nanos_def kept_nanos_def checked_i128_def
        str_trim_def is_whitespace_def take_number_before_def take_seconds_before_def strip_time_marker_def
        parse_time_def parse_seconds_nanos_def add_component_def signed_duration_nanos_def is_ascii_digit_def
        decimal_value_def digit_val_def)
next
  case False
  have "abs n < 2 ^ 127" "0 < abs n" using assms False by auto
  then have "\<exists>text. format_day_time_duration n = Some text
      \<and> parse_day_time_duration_nanos text = Some (if n < 0 then - kept_nanos (abs n) else kept_nanos (abs n))"
    unfolding format_as_body [OF False assms] using parse_formatted [of "abs n" "n < 0"] by blast
  moreover have "(if n < 0 then - kept_nanos (abs n) else kept_nanos (abs n)) = kept_nanos n"
    by (simp add: kept_nanos_def sgn_if)
  ultimately show ?thesis by simp
qed

text \<open>
  Round trip of day-time durations: for every \<open>i128\<close> but the least one the formatter returns
  a text and the parser reads it back, exactly, except that from one day on a fraction of a second
  is lost when the hours, minutes and seconds are all zero.
\<close>

theorem day_time_duration_round_trip:
  assumes "- (2 ^ 127) < n" "n < 2 ^ 127"
  shows "\<exists>text. format_day_time_duration n = Some text \<and> parse_day_time_duration_nanos text = Some (kept_nanos n)"
  using assms by (rule day_time_reread)

theorem day_time_duration_round_trip_witness:
  "\<exists>text. format_day_time_duration (-90061500000000) = Some text
     \<and> parse_day_time_duration_nanos text = Some (kept_nanos (-90061500000000))"
  by (rule day_time_duration_round_trip) simp_all

text \<open>
  Round trip of year-month durations: for every \<open>i128\<close> but the least one the number of months
  that is formatted is the number that is read back.
\<close>

theorem year_month_duration_round_trip:
  assumes "- (2 ^ 127) < n" "n < 2 ^ 127"
  shows "\<exists>text. format_year_month_duration n = Some text \<and> parse_year_month_duration_months text = Some n"
proof -
  let ?t = "show_nat (nat (abs n)) @ ''M''"
  have bound: "0 \<le> abs n" "abs n < 2 ^ 127" using assms by auto
  have trim: "str_trim ((if n < 0 then ''-'' else []) @ CHR ''P'' # ?t) = (if n < 0 then ''-'' else []) @ CHR ''P'' # ?t"
    by (rule signed_text_trim) (simp_all add: is_whitespace_def)
  have years: "take_number_before (CHR ''Y'') ?t = Some (None, ?t)"
    by (rule take_number_before_absent) (auto simp: is_ascii_digit_def dest: show_nat_char_digit)
  have "take_number_before (CHR ''M'') ?t = Some (Some (abs n), [])"
    using bound by (intro take_number_before_shown) (simp_all add: is_ascii_digit_def)
  then have months: "add_component 1 0 (take_number_before (CHR ''M'') ?t) = Some (abs n, True, [])"
    using bound by simp
  have "format_year_month_duration n = Some ((if n < 0 then ''-'' else []) @ CHR ''P'' # ?t)"
    using bound by (simp add: format_year_month_duration_def)
  moreover have "parse_year_month_duration_months ((if n < 0 then ''-'' else []) @ CHR ''P'' # ?t) = Some n"
    unfolding parse_year_month_duration_months_def trim Let_def
    using years months assms by (auto simp: checked_i128_def)
  ultimately show ?thesis by blast
qed

theorem year_month_duration_round_trip_witness:
  "\<exists>text. format_year_month_duration (-14) = Some text \<and> parse_year_month_duration_months text = Some (-14)"
  by (rule year_month_duration_round_trip) simp_all

lemma format_days_and_fraction:
  assumes "0 < d" "0 \<le> f" "f < NANOS_PER_SECOND" "d * NANOS_PER_DAY + f < 2 ^ 127"
  shows "format_day_time_duration (d * NANOS_PER_DAY + f) = Some (CHR ''P'' # duration_body d 0 0 0 f)"
proof -
  have small: "f < NANOS_PER_MINUTE" "f < NANOS_PER_HOUR" "f < NANOS_PER_DAY"
    using assms by (simp_all add: NANOS_PER_DAY_def NANOS_PER_HOUR_def NANOS_PER_MINUTE_def NANOS_PER_SECOND_def)
  have "0 < d * NANOS_PER_DAY" using assms by simp
  then have r: "0 < d * NANOS_PER_DAY + f" using assms by linarith
  then have "d * NANOS_PER_DAY + f \<noteq> 0" "- (2 ^ 127) < d * NANOS_PER_DAY + f"
    using less_trans [of "- (2 ^ 127)" 0 "d * NANOS_PER_DAY + f"] by simp_all
  note format = format_as_body [OF this assms(4)]
  have "(d * NANOS_PER_DAY + f) div NANOS_PER_DAY = d" "(d * NANOS_PER_DAY + f) mod NANOS_PER_DAY = f"
    using assms small by simp_all
  then show ?thesis using format r assms small by simp
qed

lemma format_whole_days:
  assumes "0 < d" "0 \<le> f" "f < NANOS_PER_SECOND" "d * NANOS_PER_DAY + f < 2 ^ 127"
  shows "format_day_time_duration (d * NANOS_PER_DAY + f) = format_day_time_duration (d * NANOS_PER_DAY)"
  using format_days_and_fraction [OF assms] format_days_and_fraction [of d 0] assms
  by (simp add: duration_body_def)

text \<open>
  Two durations that differ get one normal form: whole days and the same days with a fraction of a
  second are formatted alike, so after normalisation \<open>P1DT0.5S\<close> equals \<open>P1D\<close>.
\<close>

theorem fraction_of_second_lost:
  assumes "0 < d" "0 \<le> f" "f < NANOS_PER_SECOND" "d * NANOS_PER_DAY + f < 2 ^ 127"
  shows "format_day_time_duration (d * NANOS_PER_DAY + f) = format_day_time_duration (d * NANOS_PER_DAY)"
  using assms by (rule format_whole_days)

theorem fraction_of_second_lost_witness:
  "format_day_time_duration (1 * NANOS_PER_DAY + 500000000) = format_day_time_duration (1 * NANOS_PER_DAY)"
  by (rule fraction_of_second_lost) (simp_all add: NANOS_PER_DAY_def NANOS_PER_HOUR_def NANOS_PER_MINUTE_def NANOS_PER_SECOND_def)

lemma format_uminus:
  "0 < r \<Longrightarrow> r < 2 ^ 127 \<Longrightarrow> format_day_time_duration (- r) = map_option (\<lambda>t. CHR ''-'' # t) (format_day_time_duration r)"
  using format_as_body [of r] format_as_body [of "- r"] by simp

lemma format_kept_nanos:
  assumes "- (2 ^ 127) < n" "n < 2 ^ 127"
  shows "format_day_time_duration (kept_nanos n) = format_day_time_duration n"
proof -
  have pos: "format_day_time_duration (kept_nanos r) = format_day_time_duration r" if "0 < r" "r < 2 ^ 127" for r
  proof (cases "NANOS_PER_DAY \<le> r \<and> r mod NANOS_PER_DAY < NANOS_PER_SECOND")
    case True
    then have "kept_nanos r = r div NANOS_PER_DAY * NANOS_PER_DAY" using that by (simp add: kept_nanos_def)
    moreover have "0 < r div NANOS_PER_DAY" using True by (simp add: pos_imp_zdiv_pos_iff)
    ultimately show ?thesis
      using format_whole_days [of "r div NANOS_PER_DAY" "r mod NANOS_PER_DAY"] True that by simp
  qed (use that in \<open>auto simp: kept_nanos_def\<close>)
  consider "n = 0" | "0 < n" | r where "n = - r" "0 < r" by (metis add.inverse_inverse linorder_cases neg_0_less_iff_less)
  then show ?thesis
  proof cases
    case 3
    moreover have "kept_nanos (- r) = - kept_nanos r" by (auto simp: kept_nanos_def sgn_if)
    moreover have "r div NANOS_PER_DAY * NANOS_PER_DAY \<le> r"
      using div_mult_mod_eq [of r NANOS_PER_DAY] pos_mod_sign [OF units_pos(4), of r] by linarith
    then have "0 < kept_nanos r" "kept_nanos r \<le> r"
      using 3 by (auto simp: kept_nanos_def pos_imp_zdiv_pos_iff)
    ultimately show ?thesis using assms pos [of r] format_uminus [of r] format_uminus [of "kept_nanos r"] by simp
  qed (use assms pos in \<open>simp_all add: kept_nanos_def\<close>)
qed

text \<open>
  A normal form is stable: normalising a normalised day-time duration text succeeds and changes nothing.
\<close>

theorem normalize_day_time_duration_stable:
  assumes "normalize_day_time_duration_text text = Some normal"
  shows "normalize_day_time_duration_text normal = Some normal"
proof -
  obtain n where n: "parse_day_time_duration_nanos text = Some n" "format_day_time_duration n = Some normal"
    using assms by (auto simp: normalize_day_time_duration_text_def bind_eq_Some_conv)
  then have "- (2 ^ 127) < n" "n < 2 ^ 127"
    by (auto simp: format_day_time_duration_def bind_eq_Some_conv checked_i128_def split: if_splits)
  with day_time_reread [of n] format_kept_nanos [of n] n show ?thesis
    by (simp add: normalize_day_time_duration_text_def)
qed

theorem normalize_day_time_duration_stable_witness:
  "normalize_day_time_duration_text ''PT36H'' = Some ''P1DT12H'' \<and> normalize_day_time_duration_text ''P1DT12H'' = Some ''P1DT12H''"
proof -
  have "normalize_day_time_duration_text ''PT36H'' = Some ''P1DT12H''" by code_simp
  with normalize_day_time_duration_stable [OF this] show ?thesis by simp
qed

end
