(* ===== verification/Dmn_Values.thy ===== *)
theory Dmn_Values
  imports Dmn_Model Dmn_Durations
begin

text \<open>
  Values and type references of the DMN engine: the normalisation of a \<open>typeRef\<close>, temporal values and their
  order (\<open>models.rs\<close>), numeric order, and the coercion of inputs and outputs to the declared type
  (\<open>runtime.rs\<close>).

  What the engine takes from other crates is gathered in records that are arguments of the operations:
  \<open>chrono_ops\<close> for the date types, which are represented by the integer that orders them, and \<open>dmn_lib\<close> for
  the JSON reader and printer, regular expressions, what the database says of a violated primary key and how it
  matches \<open>LIKE\<close>, the clock and the compatibility evaluator.
\<close>

record chrono_ops =
  date_parse :: "string \<Rightarrow> int option"
  date_format :: "int \<Rightarrow> string"
  time_parse :: "string \<Rightarrow> int option"
  time_format :: "int \<Rightarrow> string"
  rfc3339_parse :: "string \<Rightarrow> int option"
  rfc3339_format :: "int \<Rightarrow> string"
  datetime_parse_frac :: "string \<Rightarrow> int option"
  datetime_parse :: "string \<Rightarrow> int option"
  datetime_format_frac :: "int \<Rightarrow> string"
  datetime_format :: "int \<Rightarrow> string"
  datetime_nanosecond :: "int \<Rightarrow> nat"

record dmn_lib =
  std :: std_ops
  chrono :: chrono_ops
  parse_json :: "string \<Rightarrow> json option"
  show_json :: "json \<Rightarrow> string"
  regex_is_match :: "string \<Rightarrow> string \<Rightarrow> bool option"
  regex_replace_all :: "string \<Rightarrow> bool \<times> bool \<times> bool \<times> bool \<Rightarrow> string \<Rightarrow> string \<Rightarrow> string option"
  regex_error :: "string \<Rightarrow> bool \<times> bool \<times> bool \<times> bool \<Rightarrow> string"
  constraint_error :: "string \<Rightarrow> string"
  sql_like :: "string \<Rightarrow> string \<Rightarrow> bool"
  clock :: "dmn_rule \<Rightarrow> string \<Rightarrow> string"
  compatibility_evaluate :: "string \<Rightarrow> feel_scope \<Rightarrow> dmn_error + json"

section \<open>Type references and temporal values\<close>

datatype ordering = OrdLess | OrdEqual | OrdGreater

definition cmp_int :: "int \<Rightarrow> int \<Rightarrow> ordering" where
  "cmp_int a b = (if a < b then OrdLess else if a = b then OrdEqual else OrdGreater)"

definition normalized_type_ref :: "string \<Rightarrow> string" where
  "normalized_type_ref type_ref =
     (let normalized = to_ascii_lowercase (rev (takeWhile (\<lambda>c. c \<noteq> CHR '':'') (rev (str_trim type_ref)))) in
      if normalized = ''date and time'' then ''datetime''
      else if normalized = ''day time duration'' then ''daytimeduration''
      else if normalized = ''year month duration'' then ''yearmonthduration''
      else normalized)"

datatype temporal_type = TemporalDate | TemporalTime | TemporalDateTime | TemporalDuration | TemporalYearMonth

definition temporal_type_ref :: "string \<Rightarrow> temporal_type option" where
  "temporal_type_ref type_ref =
     (let t = normalized_type_ref type_ref in
      if t = ''date'' then Some TemporalDate
      else if t = ''time'' then Some TemporalTime
      else if t = ''datetime'' then Some TemporalDateTime
      else if t = ''duration'' \<or> t = ''daytimeduration'' then Some TemporalDuration
      else if t = ''yearmonthduration'' then Some TemporalYearMonth
      else None)"

definition has_datetime_offset :: "string \<Rightarrow> bool" where
  "has_datetime_offset text =
     (case str_find (\<lambda>c. c = CHR ''T'') text of
        None \<Rightarrow> False
      | Some i \<Rightarrow> let time = drop (i + 1) text in
                  (time \<noteq> [] \<and> last time = CHR ''Z'') \<or> CHR ''+'' \<in> set time \<or> CHR ''-'' \<in> set time)"

definition parse_local_datetime :: "chrono_ops \<Rightarrow> string \<Rightarrow> int option" where
  "parse_local_datetime ch text = datetime_parse_frac ch text"

definition format_local_datetime :: "chrono_ops \<Rightarrow> int \<Rightarrow> string" where
  "format_local_datetime ch t = (if datetime_nanosecond ch t = 0 then datetime_format ch t else datetime_format_frac ch t)"

definition normalize_datetime_text :: "chrono_ops \<Rightarrow> string \<Rightarrow> string option" where
  "normalize_datetime_text ch text =
     (if has_datetime_offset text then map_option (rfc3339_format ch) (rfc3339_parse ch text)
      else map_option (format_local_datetime ch) (parse_local_datetime ch text))"

datatype comparable_datetime = Local int | Instant int

definition parse_comparable_datetime :: "chrono_ops \<Rightarrow> string \<Rightarrow> comparable_datetime option" where
  "parse_comparable_datetime ch text =
     (if has_datetime_offset text then map_option Instant (rfc3339_parse ch text)
      else map_option Local (parse_local_datetime ch text))"

text \<open>An instant and a local date-time are ordered by the instant's UTC reading, the same integer.\<close>

definition compare_datetime_text :: "chrono_ops \<Rightarrow> string \<Rightarrow> string \<Rightarrow> ordering option" where
  "compare_datetime_text ch actual expected =
     do { a \<leftarrow> parse_comparable_datetime ch actual;
          e \<leftarrow> parse_comparable_datetime ch expected;
          case (a, e) of
            (Instant x, Instant y) \<Rightarrow> Some (cmp_int x y)
          | (Local x, Local y) \<Rightarrow> Some (cmp_int x y)
          | (Instant x, Local y) \<Rightarrow> Some (cmp_int x y)
          | (Local x, Instant y) \<Rightarrow> Some (cmp_int x y) }"

definition normalize_temporal_value :: "chrono_ops \<Rightarrow> string \<Rightarrow> json \<Rightarrow> json option" where
  "normalize_temporal_value ch type_ref v =
     (if v = JsonNull then Some JsonNull
      else do {
        temporal \<leftarrow> temporal_type_ref type_ref;
        raw \<leftarrow> as_str v;
        let text = str_trim raw in
        if text = [] then None
        else do {
          normalized \<leftarrow> (case temporal of
              TemporalDate \<Rightarrow> map_option (date_format ch) (date_parse ch text)
            | TemporalTime \<Rightarrow> map_option (time_format ch) (time_parse ch text)
            | TemporalDateTime \<Rightarrow> normalize_datetime_text ch text
            | TemporalDuration \<Rightarrow> normalize_day_time_duration_text text
            | TemporalYearMonth \<Rightarrow> normalize_year_month_duration_text text);
          Some (JsonString normalized) } })"

definition compare_temporal_values :: "chrono_ops \<Rightarrow> string \<Rightarrow> json \<Rightarrow> json \<Rightarrow> ordering option" where
  "compare_temporal_values ch type_ref actual expected =
     do {
       temporal \<leftarrow> temporal_type_ref type_ref;
       actual \<leftarrow> normalize_temporal_value ch type_ref actual;
       expected \<leftarrow> normalize_temporal_value ch type_ref expected;
       actual \<leftarrow> as_str actual;
       expected \<leftarrow> as_str expected;
       case temporal of
         TemporalDate \<Rightarrow> do { a \<leftarrow> date_parse ch actual; e \<leftarrow> date_parse ch expected; Some (cmp_int a e) }
       | TemporalTime \<Rightarrow> do { a \<leftarrow> time_parse ch actual; e \<leftarrow> time_parse ch expected; Some (cmp_int a e) }
       | TemporalDateTime \<Rightarrow> compare_datetime_text ch actual expected
       | TemporalDuration \<Rightarrow> do { a \<leftarrow> parse_day_time_duration_nanos actual;
                                 e \<leftarrow> parse_day_time_duration_nanos expected; Some (cmp_int a e) }
       | TemporalYearMonth \<Rightarrow> do { a \<leftarrow> parse_year_month_duration_months actual;
                                  e \<leftarrow> parse_year_month_duration_months expected; Some (cmp_int a e) } }"

section \<open>Numbers\<close>

definition partial_cmp :: "f64 \<Rightarrow> f64 \<Rightarrow> ordering option" where
  "partial_cmp a b = (if f64_less a b then Some OrdLess else if f64_eq a b then Some OrdEqual
                      else if f64_less b a then Some OrdGreater else None)"

definition compare_numbers :: "json \<Rightarrow> json \<Rightarrow> ordering option" where
  "compare_numbers actual expected =
     (case (actual, expected) of
        (JsonNumber a, JsonNumber e) \<Rightarrow>
          (case (number_as_i64 a, number_as_u64 a, number_as_i64 e, number_as_u64 e) of
             (Some x, _, Some y, _) \<Rightarrow> Some (cmp_int x y)
           | (Some x, _, _, Some y) \<Rightarrow> if x < 0 then Some OrdLess else Some (cmp_int x y)
           | (_, Some x, Some y, _) \<Rightarrow> if y < 0 then Some OrdGreater else Some (cmp_int x y)
           | (_, Some x, _, Some y) \<Rightarrow> Some (cmp_int x y)
           | _ \<Rightarrow> do { x \<leftarrow> as_f64 actual; y \<leftarrow> as_f64 expected; partial_cmp x y })
      | _ \<Rightarrow> None)"

definition compare_values :: "dmn_lib \<Rightarrow> json \<Rightarrow> json \<Rightarrow> string option \<Rightarrow> ordering option" where
  "compare_values lib actual expected type_ref =
     (case Option.bind type_ref (\<lambda>t. compare_temporal_values (chrono lib) t actual expected) of
        Some ord \<Rightarrow> Some ord
      | None \<Rightarrow> compare_numbers actual expected)"

definition numeric_value_of :: "dmn_lib \<Rightarrow> json \<Rightarrow> json option" where
  "numeric_value_of lib v =
     (if is_number v then Some v
      else do {
        raw \<leftarrow> as_str v;
        let text = str_trim raw in
        if text = [] then None
        else case parse_json lib text of Some w \<Rightarrow> (if is_number w then Some w else None) | None \<Rightarrow> None })"

definition number_to_i64 :: "json \<Rightarrow> int option" where
  "number_to_i64 v =
     (case v of
        JsonNumber n \<Rightarrow>
          (case number_as_i64 n of
             Some i \<Rightarrow> Some i
           | None \<Rightarrow> (case number_as_u64 n of Some u \<Rightarrow> (if u < 2 ^ 63 then Some u else None) | None \<Rightarrow> None))
      | _ \<Rightarrow> None)"

section \<open>Coercion to a type reference\<close>

definition incompatible_type_ref_error :: "dmn_lib \<Rightarrow> string \<Rightarrow> string \<Rightarrow> json \<Rightarrow> dmn_error" where
  "incompatible_type_ref_error lib variable type_ref v =
     DmnExecution (''DMN input '' @ in_quotes variable @ '' with typeRef '' @ in_quotes type_ref
                   @ '' received incompatible value '' @ show_json lib v)"

definition incompatible_output_type_ref_error :: "dmn_lib \<Rightarrow> dmn_decision_definition \<Rightarrow> dmn_output_clause \<Rightarrow> json \<Rightarrow> dmn_error" where
  "incompatible_output_type_ref_error lib def clause v =
     DmnExecution (''DMN decision '' @ in_quotes (definition_key def) @ '' output '' @ in_quotes (output_name clause)
                   @ '' with typeRef '' @ in_quotes (case output_type_ref clause of Some t \<Rightarrow> t | None \<Rightarrow> ''<none>'')
                   @ '' produced incompatible value '' @ show_json lib v)"

definition supported_type_refs :: string where
  "supported_type_refs = '' typeRefs are string, boolean, integer, long, double, number, date, time, dateTime, date and time, duration, dayTimeDuration, yearMonthDuration, context, and list''"

definition I32_MIN :: int where "I32_MIN = - (2 ^ 31)"

definition I32_MAX :: int where "I32_MAX = 2 ^ 31 - 1"

definition I64_MIN :: int where "I64_MIN = - (2 ^ 63)"

definition I64_MAX :: int where "I64_MAX = 2 ^ 63 - 1"

definition coerce_integer_value :: "dmn_lib \<Rightarrow> string \<Rightarrow> string \<Rightarrow> json \<Rightarrow> int \<Rightarrow> int \<Rightarrow> dmn_error + json" where
  "coerce_integer_value lib variable type_ref v mn mx =
     (case numeric_value_of lib v of
        None \<Rightarrow> Inl (incompatible_type_ref_error lib variable type_ref v)
      | Some number \<Rightarrow>
          (case number_to_i64 number of
             None \<Rightarrow> Inl (incompatible_type_ref_error lib variable type_ref v)
           | Some i \<Rightarrow> if i < mn \<or> mx < i then Inl (incompatible_type_ref_error lib variable type_ref v)
                       else Inr (json_of_i64 i)))"

definition coerce_number_value :: "dmn_lib \<Rightarrow> string \<Rightarrow> string \<Rightarrow> json \<Rightarrow> dmn_error + json" where
  "coerce_number_value lib variable type_ref v =
     ok_or (incompatible_type_ref_error lib variable type_ref v) (numeric_value_of lib v)"

fun as_object :: "json \<Rightarrow> json_map option" where
  "as_object (JsonObject m) = Some m"
| "as_object _ = None"

definition is_temporal_type_name :: "string \<Rightarrow> bool" where
  "is_temporal_type_name t \<longleftrightarrow> t \<in> set [''date'', ''time'', ''datetime'', ''duration'', ''daytimeduration'', ''yearmonthduration'']"

definition coerce_input_value :: "dmn_lib \<Rightarrow> string \<Rightarrow> string \<Rightarrow> json \<Rightarrow> dmn_error + json" where
  "coerce_input_value lib variable type_ref v =
     (let t = normalized_type_ref type_ref;
          err = incompatible_type_ref_error lib variable type_ref v
      in if v = JsonNull then Inr JsonNull
         else if t = ''string'' then ok_or err (map_option JsonString (as_str v))
         else if t = ''boolean'' then ok_or err (map_option JsonBool (as_bool v))
         else if t = ''integer'' then coerce_integer_value lib variable type_ref v I32_MIN I32_MAX
         else if t = ''long'' then coerce_integer_value lib variable type_ref v I64_MIN I64_MAX
         else if t = ''double'' \<or> t = ''number'' then coerce_number_value lib variable type_ref v
         else if is_temporal_type_name t then ok_or err (normalize_temporal_value (chrono lib) type_ref v)
         else if t = ''context'' then ok_or err (map_option JsonObject (as_object v))
         else if t = ''list'' then ok_or err (map_option JsonArray (as_array v))
         else Inl (DmnUnsupportedModel ''typeRef''
                (''unsupported input typeRef '' @ in_quotes type_ref @ '' for input '' @ in_quotes variable
                 @ ''; supported input'' @ supported_type_refs)))"

fun coerce_inputs_loop :: "dmn_lib \<Rightarrow> dmn_input_clause list \<Rightarrow> json_map \<Rightarrow> dmn_error + json_map" where
  "coerce_inputs_loop lib [] inputs = Inr inputs"
| "coerce_inputs_loop lib (clause # clauses) inputs =
     (case (input_type_ref clause, map_of inputs (input_variable clause)) of
        (Some type_ref, Some v) \<Rightarrow>
          rbind (coerce_input_value lib (input_variable clause) type_ref v)
            (\<lambda>coerced. coerce_inputs_loop lib clauses (map_insert (input_variable clause) coerced inputs))
      | _ \<Rightarrow> coerce_inputs_loop lib clauses inputs)"

definition coerce_inputs_for_type_refs :: "dmn_lib \<Rightarrow> dmn_decision_definition \<Rightarrow> json_map \<Rightarrow> dmn_error + json_map" where
  "coerce_inputs_for_type_refs lib def inputs = coerce_inputs_loop lib (definition_inputs def) inputs"

definition coerce_runtime_integer_output :: "dmn_lib \<Rightarrow> dmn_decision_definition \<Rightarrow> dmn_output_clause \<Rightarrow> json \<Rightarrow> int \<Rightarrow> int
    \<Rightarrow> dmn_error + json" where
  "coerce_runtime_integer_output lib def clause v mn mx =
     (case numeric_value_of lib v of
        None \<Rightarrow> Inl (incompatible_output_type_ref_error lib def clause v)
      | Some number \<Rightarrow>
          (case number_to_i64 number of
             None \<Rightarrow> Inl (incompatible_output_type_ref_error lib def clause v)
           | Some i \<Rightarrow> if i < mn \<or> mx < i then Inl (incompatible_output_type_ref_error lib def clause v)
                       else Inr (json_of_i64 i)))"

definition coerce_runtime_output_value :: "dmn_lib \<Rightarrow> dmn_decision_definition \<Rightarrow> dmn_output_clause \<Rightarrow> json \<Rightarrow> dmn_error + json" where
  "coerce_runtime_output_value lib def clause v =
     (case output_type_ref clause of
        None \<Rightarrow> Inr v
      | Some type_ref \<Rightarrow>
          let t = normalized_type_ref type_ref;
              err = incompatible_output_type_ref_error lib def clause v
          in if v = JsonNull then Inr JsonNull
             else if t = ''string'' then ok_or err (map_option JsonString (as_str v))
             else if t = ''boolean'' then ok_or err (map_option JsonBool (as_bool v))
             else if t = ''integer'' then coerce_runtime_integer_output lib def clause v I32_MIN I32_MAX
             else if t = ''long'' then coerce_runtime_integer_output lib def clause v I64_MIN I64_MAX
             else if t = ''double'' \<or> t = ''number'' then
               ok_or err (Option.bind (numeric_value_of lib v) (\<lambda>number. map_option json_of_f64 (as_f64 number)))
             else if is_temporal_type_name t then ok_or err (normalize_temporal_value (chrono lib) type_ref v)
             else if t = ''context'' then ok_or err (map_option JsonObject (as_object v))
             else if t = ''list'' then ok_or err (map_option JsonArray (as_array v))
             else Inl (DmnUnsupportedModel ''typeRef''
                    (''unsupported output typeRef '' @ in_quotes type_ref @ '' for decision '' @ in_quotes (definition_key def)
                     @ '' output '' @ in_quotes (output_name clause) @ ''; supported output'' @ supported_type_refs)))"

end
