(* ===== verification/Dmn_Rules.thy ===== *)
theory Dmn_Rules
  imports Dmn_Values
begin

text \<open>
  Rules of a decision table (\<open>flowable-dmn-engine/src/runtime.rs\<close>): the unary tests of the input entries, when a
  rule matches, the evaluation of its output entries and the cache of the outputs of the matching rules.

  The length of a text, cast to \<open>i32\<close> in the substring test, is exact for texts of fewer than \<open>2 ^ 31\<close>
  characters. \<open>clock lib rule output\<close> is the reading of the clock that fills the default of a date output.
\<close>

section \<open>The expression engine\<close>

definition strip_expression_shells :: "string \<Rightarrow> string" where
  "strip_expression_shells source =
     (let trimmed = str_trim source;
          shell = (\<lambda>prefix. Option.bind (strip_prefix_str prefix trimmed) (strip_suffix_str ''}''))
      in case shell ''#{'' of
           Some inner \<Rightarrow> str_trim inner
         | None \<Rightarrow> (case shell ''${'' of Some inner \<Rightarrow> str_trim inner | None \<Rightarrow> trimmed))"

text \<open>
  \<open>FeelExpressionEngine::evaluate\<close>: the typed evaluator first, the compatibility evaluator on its errors.
  \<open>feel_evaluate\<close> returns for every source, so \<open>the\<close> is applied to a value.
\<close>

definition engine_evaluate :: "dmn_lib \<Rightarrow> string \<Rightarrow> feel_scope \<Rightarrow> dmn_error + json" where
  "engine_evaluate lib source context =
     (let trimmed = str_trim source in
      if trimmed = [] then Inr JsonNull
      else case the (feel_evaluate (std lib) trimmed context) of
             Inr v \<Rightarrow> Inr v
           | Inl _ \<Rightarrow> compatibility_evaluate lib trimmed context)"

fun error_text :: "dmn_error \<Rightarrow> string" where
  "error_text (DmnUnsupportedModel feature message) = ''Unsupported DMN '' @ feature @ '': '' @ message"
| "error_text (DmnValidation message) = message"
| "error_text (DmnNotFound message) = message"
| "error_text (DmnExecution message) = message"
| "error_text (DmnStorage message) = message"
| "error_text (DmnPanic message) = message"

fun map_err :: "('e \<Rightarrow> 'f) \<Rightarrow> 'e + 'a \<Rightarrow> 'f + 'a" where
  "map_err f (Inl e) = Inl (f e)"
| "map_err f (Inr x) = Inr x"

section \<open>Unary tests\<close>

definition instance_of_matches :: "dmn_lib \<Rightarrow> string \<Rightarrow> json \<Rightarrow> bool" where
  "instance_of_matches lib type_name actual =
     (let t = to_lowercase (std lib) type_name;
          text_is = (\<lambda>P. case as_str actual of Some s \<Rightarrow> P s | None \<Rightarrow> False)
      in if t = ''string'' then as_str actual \<noteq> None
         else if t \<in> set [''number'', ''double'', ''long'', ''integer''] then is_number actual
         else if t = ''boolean'' then as_bool actual \<noteq> None
         else if t = ''null'' then actual = JsonNull
         else if t = ''date'' then text_is (\<lambda>s. date_parse (chrono lib) s \<noteq> None)
         else if t = ''time'' then text_is (\<lambda>s. time_parse (chrono lib) s \<noteq> None)
         else if t = ''datetime'' then
           text_is (\<lambda>s. rfc3339_parse (chrono lib) s \<noteq> None \<or> datetime_parse (chrono lib) s \<noteq> None)
         else if t = ''duration'' then text_is (str_starts_with ''P'')
         else if t = ''context'' then as_object actual \<noteq> None
         else if t = ''list'' then as_array actual \<noteq> None
         else False)"

definition string_function_matches :: "dmn_lib \<Rightarrow> dmn_string_function \<Rightarrow> json \<Rightarrow> string \<Rightarrow> bool" where
  "string_function_matches lib f actual needle =
     (case as_str actual of
        None \<Rightarrow> False
      | Some s \<Rightarrow>
          (case f of
             Contains \<Rightarrow> str_find_sub needle s \<noteq> None
           | StartsWith \<Rightarrow> str_starts_with needle s
           | EndsWith \<Rightarrow> str_starts_with (rev needle) (rev s)
           | Matches \<Rightarrow> regex_is_match lib needle s = Some True))"

definition string_transform_matches :: "dmn_lib \<Rightarrow> dmn_string_transform \<Rightarrow> json \<Rightarrow> string \<Rightarrow> bool" where
  "string_transform_matches lib f actual expected =
     (case as_str actual of
        None \<Rightarrow> False
      | Some s \<Rightarrow>
          (case f of
             LowerCase \<Rightarrow> to_lowercase (std lib) s = expected
           | UpperCase \<Rightarrow> to_uppercase (std lib) s = expected
           | StringLength \<Rightarrow> False))"

definition string_transform_comparison_value :: "dmn_string_transform \<Rightarrow> json \<Rightarrow> json option" where
  "string_transform_comparison_value f actual =
     (case as_str actual of
        None \<Rightarrow> None
      | Some s \<Rightarrow> (case f of StringLength \<Rightarrow> Some (json_of_usize (length s)) | LowerCase \<Rightarrow> None | UpperCase \<Rightarrow> None))"

fun comparison_matches :: "dmn_comparison_operator \<Rightarrow> ordering \<Rightarrow> bool" where
  "comparison_matches CmpGreater ord = (ord = OrdGreater)"
| "comparison_matches CmpGreaterEqual ord = (ord = OrdGreater \<or> ord = OrdEqual)"
| "comparison_matches CmpLess ord = (ord = OrdLess)"
| "comparison_matches CmpLessEqual ord = (ord = OrdLess \<or> ord = OrdEqual)"

definition is_some_and :: "('a \<Rightarrow> bool) \<Rightarrow> 'a option \<Rightarrow> bool" where
  "is_some_and P v = (case v of Some x \<Rightarrow> P x | None \<Rightarrow> False)"

definition string_transform_comparison_matches :: "dmn_string_transform \<Rightarrow> dmn_comparison_operator \<Rightarrow> json \<Rightarrow> json \<Rightarrow> bool" where
  "string_transform_comparison_matches f op actual expected =
     (case string_transform_comparison_value f actual of
        None \<Rightarrow> False
      | Some a \<Rightarrow> is_some_and (comparison_matches op) (compare_numbers a expected))"

definition range_matches :: "dmn_lib \<Rightarrow> json \<Rightarrow> json \<Rightarrow> json \<Rightarrow> bool \<Rightarrow> bool \<Rightarrow> string option \<Rightarrow> bool" where
  "range_matches lib actual start stop start_inclusive end_inclusive type_ref =
     (case compare_values lib actual start type_ref of
        None \<Rightarrow> False
      | Some start_ordering \<Rightarrow>
          (case compare_values lib actual stop type_ref of
             None \<Rightarrow> False
           | Some end_ordering \<Rightarrow>
               (case start_ordering of OrdGreater \<Rightarrow> True | OrdEqual \<Rightarrow> start_inclusive | OrdLess \<Rightarrow> False)
               \<and> (case end_ordering of OrdLess \<Rightarrow> True | OrdEqual \<Rightarrow> end_inclusive | OrdGreater \<Rightarrow> False)))"

definition substring_matches :: "json \<Rightarrow> 32 word \<Rightarrow> 32 word option \<Rightarrow> string \<Rightarrow> bool" where
  "substring_matches actual start len expected =
     (case as_str actual of
        None \<Rightarrow> False
      | Some chars \<Rightarrow>
          let char_len = int (length chars);
              start_idx = nat (if 0 < sint start then min (sint start - 1) char_len
                               else if sint start < 0 then max (char_len + sint start) 0 else 0);
              sub_chars = (case len of
                  Some l \<Rightarrow> if sint l \<le> 0 then []
                            else take (min (start_idx + nat (sint l)) (length chars) - start_idx) (drop start_idx chars)
                | None \<Rightarrow> drop start_idx chars)
          in sub_chars = expected)"

definition replace_matches :: "dmn_lib \<Rightarrow> json \<Rightarrow> string \<Rightarrow> string \<Rightarrow> string option \<Rightarrow> string \<Rightarrow> bool" where
  "replace_matches lib actual pat replacement flags expected =
     (case as_str actual of
        None \<Rightarrow> False
      | Some s \<Rightarrow>
          let flag = (\<lambda>c. is_some_and (\<lambda>f. c \<in> set f) flags) in
          (case regex_replace_all lib pat (flag (CHR ''i''), flag (CHR ''s''), flag (CHR ''m''), flag (CHR ''x'')) s replacement of
             Some result \<Rightarrow> result = expected
           | None \<Rightarrow> False))"

definition list_contains_matches :: "json \<Rightarrow> dmn_list_contains_needle \<Rightarrow> json_map \<Rightarrow> bool" where
  "list_contains_matches actual needle inputs =
     (case as_array actual of
        None \<Rightarrow> False
      | Some xs \<Rightarrow>
          json_contains xs
            (case needle of
               NeedleLiteral v \<Rightarrow> v
             | NeedleVariable name \<Rightarrow> (case map_of inputs name of Some v \<Rightarrow> v | None \<Rightarrow> JsonNull)))"

definition input_expression_error :: "string \<Rightarrow> dmn_error \<Rightarrow> dmn_error" where
  "input_expression_error source e =
     DmnExecution (''failed to evaluate input entry expression '' @ in_quotes source @ '': '' @ error_text e)"

definition deferred_comparison_matches :: "dmn_lib \<Rightarrow> dmn_deferred_operator \<Rightarrow> string \<Rightarrow> json \<Rightarrow> string option \<Rightarrow> json_map
    \<Rightarrow> dmn_error + bool" where
  "deferred_comparison_matches lib op source actual type_ref inputs =
     rbind (map_err (input_expression_error source) (engine_evaluate lib source (map_of inputs))) (\<lambda>expected.
       let compared = (\<lambda>c. is_some_and (comparison_matches c) (compare_values lib actual expected type_ref)) in
       Inr (case op of
              DeferEquals \<Rightarrow> json_eq actual expected
            | DeferNotEquals \<Rightarrow> \<not> json_eq actual expected
            | DeferGreater \<Rightarrow> compared CmpGreater
            | DeferGreaterEqual \<Rightarrow> compared CmpGreaterEqual
            | DeferLess \<Rightarrow> compared CmpLess
            | DeferLessEqual \<Rightarrow> compared CmpLessEqual))"

definition el_condition_matches :: "dmn_lib \<Rightarrow> string \<Rightarrow> json_map \<Rightarrow> dmn_error + bool" where
  "el_condition_matches lib source inputs =
     rbind (map_err (input_expression_error source) (engine_evaluate lib source (map_of inputs))) (\<lambda>evaluated.
       ok_or (DmnExecution (''input entry expression '' @ in_quotes source @ '' returned non-Boolean: '' @ show_json lib evaluated))
         (as_bool evaluated))"

text \<open>The loops over alternatives and conjuncts: they stop at the first decisive test or error.\<close>

fun some_test :: "('a \<Rightarrow> dmn_error + bool) \<Rightarrow> 'a list \<Rightarrow> dmn_error + bool" where
  "some_test f [] = Inr False"
| "some_test f (x # xs) = rbind (f x) (\<lambda>b. if b then Inr True else some_test f xs)"

fun every_test :: "('a \<Rightarrow> dmn_error + bool) \<Rightarrow> 'a list \<Rightarrow> dmn_error + bool" where
  "every_test f [] = Inr True"
| "every_test f (x # xs) = rbind (f x) (\<lambda>b. if \<not> b then Inr False else every_test f xs)"

lemma some_test_cong [fundef_cong]:
  "xs = ys \<Longrightarrow> (\<And>x. x \<in> set ys \<Longrightarrow> f x = g x) \<Longrightarrow> some_test f xs = some_test g ys"
proof (induction xs arbitrary: ys)
  case (Cons x xs)
  then show ?case by (cases ys) (auto intro!: rbind_cong)
qed simp

lemma every_test_cong [fundef_cong]:
  "xs = ys \<Longrightarrow> (\<And>x. x \<in> set ys \<Longrightarrow> f x = g x) \<Longrightarrow> every_test f xs = every_test g ys"
proof (induction xs arbitrary: ys)
  case (Cons x xs)
  then show ?case by (cases ys) (auto intro!: rbind_cong)
qed simp

fun json_path :: "string list \<Rightarrow> json \<Rightarrow> json option" where
  "json_path [] v = Some v"
| "json_path (key # keys) v = (case json_get key v of Some w \<Rightarrow> json_path keys w | None \<Rightarrow> None)"

definition is_date_or_number :: "string option \<Rightarrow> bool" where
  "is_date_or_number type_ref =
     is_some_and (\<lambda>t. normalized_type_ref t \<in> set [''date'', ''number'', ''double'', ''integer'', ''long'']) type_ref"

fun unary_test_matches :: "dmn_lib \<Rightarrow> json_map \<Rightarrow> dmn_unary_test \<Rightarrow> json \<Rightarrow> string option \<Rightarrow> dmn_error + bool" where
  "unary_test_matches lib inputs TestAny actual type_ref = Inr True"
| "unary_test_matches lib inputs (TestEquals expected) actual type_ref = Inr (json_eq actual expected)"
| "unary_test_matches lib inputs (TestNotEquals expected) actual type_ref = Inr (\<not> json_eq actual expected)"
| "unary_test_matches lib inputs (TestStringFunction f needle) actual type_ref = Inr (string_function_matches lib f actual needle)"
| "unary_test_matches lib inputs (TestStringTransform f expected) actual type_ref = Inr (string_transform_matches lib f actual expected)"
| "unary_test_matches lib inputs (TestStringTransformComparison f op expected) actual type_ref =
     Inr (string_transform_comparison_matches f op actual expected)"
| "unary_test_matches lib inputs (TestGreaterThan expected) actual type_ref =
     Inr (is_some_and (comparison_matches CmpGreater) (compare_values lib actual expected type_ref))"
| "unary_test_matches lib inputs (TestGreaterThanOrEqual expected) actual type_ref =
     Inr (is_some_and (comparison_matches CmpGreaterEqual) (compare_values lib actual expected type_ref))"
| "unary_test_matches lib inputs (TestLessThan expected) actual type_ref =
     Inr (is_some_and (comparison_matches CmpLess) (compare_values lib actual expected type_ref))"
| "unary_test_matches lib inputs (TestLessThanOrEqual expected) actual type_ref =
     Inr (is_some_and (comparison_matches CmpLessEqual) (compare_values lib actual expected type_ref))"
| "unary_test_matches lib inputs (TestRange start stop si ei) actual type_ref =
     Inr (range_matches lib actual start stop si ei type_ref)"
| "unary_test_matches lib inputs (TestAnyOf tests) actual type_ref =
     some_test (\<lambda>t. unary_test_matches lib inputs t actual type_ref) tests"
| "unary_test_matches lib inputs (TestNot t) actual type_ref =
     rbind (unary_test_matches lib inputs t actual type_ref) (\<lambda>b. Inr (\<not> b))"
| "unary_test_matches lib inputs (TestAnd tests) actual type_ref =
     every_test (\<lambda>t. unary_test_matches lib inputs t actual type_ref) tests"
| "unary_test_matches lib inputs (TestOr tests) actual type_ref =
     some_test (\<lambda>t. unary_test_matches lib inputs t actual type_ref) tests"
| "unary_test_matches lib inputs (TestInstanceOf type_name) actual type_ref = Inr (instance_of_matches lib type_name actual)"
| "unary_test_matches lib inputs (TestSubstring start len expected) actual type_ref = Inr (substring_matches actual start len expected)"
| "unary_test_matches lib inputs (TestReplace pat replacement flags expected) actual type_ref =
     Inr (replace_matches lib actual pat replacement flags expected)"
| "unary_test_matches lib inputs (TestListContains needle) actual type_ref = Inr (list_contains_matches actual needle inputs)"
| "unary_test_matches lib inputs (TestInList values) actual type_ref = Inr (list_ex (\<lambda>v. json_eq actual v) values)"
| "unary_test_matches lib inputs (TestDeferredComparison op source) actual type_ref =
     deferred_comparison_matches lib op source actual type_ref inputs"
| "unary_test_matches lib inputs (TestElCondition source) actual type_ref = el_condition_matches lib source inputs"
| "unary_test_matches lib inputs (TestPropertyPath path t) actual type_ref =
     (if is_date_or_number type_ref then Inr False
      else case json_path path actual of
             None \<Rightarrow> Inr False
           | Some v \<Rightarrow> unary_test_matches lib inputs t v None)"


section \<open>Rules\<close>

definition input_of :: "json_map \<Rightarrow> dmn_input_clause \<Rightarrow> json" where
  "input_of inputs clause = (case map_of inputs (input_variable clause) of Some v \<Rightarrow> v | None \<Rightarrow> JsonNull)"

definition entry_matches :: "dmn_lib \<Rightarrow> json_map \<Rightarrow> dmn_input_clause \<times> dmn_rule_input_entry \<Rightarrow> dmn_error + bool" where
  "entry_matches lib inputs = (\<lambda>(clause, entry).
     unary_test_matches lib inputs (input_expression entry) (input_of inputs clause) (input_type_ref clause))"

definition rule_matches :: "dmn_lib \<Rightarrow> dmn_decision_definition \<Rightarrow> json_map \<Rightarrow> dmn_rule \<Rightarrow> dmn_error + bool" where
  "rule_matches lib def inputs rule = every_test (entry_matches lib inputs) (zip (definition_inputs def) (input_entries rule))"

fun filter_rules :: "('a \<Rightarrow> dmn_error + bool) \<Rightarrow> 'a list \<Rightarrow> dmn_error + 'a list" where
  "filter_rules f [] = Inr []"
| "filter_rules f (x # xs) = rbind (f x) (\<lambda>b. rbind (filter_rules f xs) (\<lambda>ys. Inr (if b then x # ys else ys)))"

definition matching_rules :: "dmn_lib \<Rightarrow> dmn_decision_definition \<Rightarrow> json_map \<Rightarrow> dmn_error + dmn_rule list" where
  "matching_rules lib def inputs = filter_rules (rule_matches lib def inputs) (rules def)"

section \<open>Outputs\<close>

record evaluated_rule_outputs =
  output_row :: json_map
  conclusions :: "dmn_expression_execution list"

type_synonym rule_output_cache = "string \<rightharpoonup> evaluated_rule_outputs"

definition evaluate_single_output_entry :: "dmn_lib \<Rightarrow> dmn_decision_definition \<Rightarrow> dmn_output_clause \<Rightarrow> dmn_rule_output_entry
    \<Rightarrow> feel_scope \<Rightarrow> dmn_error + json option" where
  "evaluate_single_output_entry lib def clause entry scope =
     (let raw = str_trim (output_expression entry) in
      if raw = [] \<or> raw = ''-'' then
        (if output_value entry \<noteq> JsonNull
         then rbind (coerce_runtime_output_value lib def clause (output_value entry)) (\<lambda>v. Inr (Some v))
         else Inr None)
      else
        let expr = strip_expression_shells raw in
        if expr = [] then Inr None
        else
          rbind (map_err (\<lambda>e. DmnExecution (''failed to evaluate output expression for decision ''
                    @ in_quotes (definition_key def) @ '' output '' @ in_quotes (output_name clause) @ '': '' @ error_text e))
                   (engine_evaluate lib expr scope)) (\<lambda>evaluated.
          rbind (coerce_runtime_output_value lib def clause evaluated) (\<lambda>v. Inr (Some v))))"

definition boolean_defaults :: "dmn_input_clause list \<Rightarrow> feel_scope \<Rightarrow> feel_scope" where
  "boolean_defaults clauses scope =
     fold (\<lambda>clause scope.
        if is_some_and (\<lambda>t. normalized_type_ref t = ''boolean'') (input_type_ref clause) \<and> scope (input_variable clause) = None
        then scope(input_variable clause \<mapsto> JsonBool False) else scope) clauses scope"

definition default_output :: "dmn_lib \<Rightarrow> dmn_rule \<Rightarrow> dmn_output_clause \<Rightarrow> json" where
  "default_output lib rule clause =
     (case map_option normalized_type_ref (output_type_ref clause) of
        None \<Rightarrow> JsonString []
      | Some t \<Rightarrow> if t = ''number'' then json_of_f64 (f64_zero False)
                  else if t = ''date'' then JsonString (clock lib rule (output_name clause))
                  else JsonString [])"

definition output_defaults :: "dmn_lib \<Rightarrow> dmn_rule \<Rightarrow> dmn_output_clause list \<Rightarrow> feel_scope \<Rightarrow> feel_scope" where
  "output_defaults lib rule clauses scope =
     fold (\<lambda>clause scope.
        if scope (output_name clause) = None \<or> scope (output_name clause) = Some JsonNull
        then scope(output_name clause \<mapsto> default_output lib rule clause) else scope) clauses scope"

definition build_output_evaluation_scope :: "dmn_lib \<Rightarrow> dmn_decision_definition \<Rightarrow> dmn_rule \<Rightarrow> json_map \<Rightarrow> feel_scope" where
  "build_output_evaluation_scope lib def rule inputs =
     output_defaults lib rule (definition_outputs def) (boolean_defaults (definition_inputs def) (map_of inputs))"

fun evaluate_outputs_loop :: "dmn_lib \<Rightarrow> dmn_decision_definition \<Rightarrow> dmn_rule \<Rightarrow> nat \<Rightarrow> (dmn_output_clause \<times> dmn_rule_output_entry) list
    \<Rightarrow> feel_scope \<Rightarrow> evaluated_rule_outputs \<Rightarrow> dmn_error + evaluated_rule_outputs" where
  "evaluate_outputs_loop lib def rule i [] scope acc = Inr acc"
| "evaluate_outputs_loop lib def rule i ((clause, entry) # pairs) scope acc =
     (let conclusion_id = (case output_entry_id entry of
                Some n \<Rightarrow> n | None \<Rightarrow> rule_id rule @ '':output:'' @ show_nat (i + 1)) in
      rbind (evaluate_single_output_entry lib def clause entry scope) (\<lambda>r.
        case r of
          Some coerced \<Rightarrow>
            evaluate_outputs_loop lib def rule (Suc i) pairs (scope(output_name clause \<mapsto> coerced))
              (acc\<lparr>output_row := map_insert (output_name clause) coerced (output_row acc),
                   conclusions := conclusions acc @ [\<lparr>expression_execution_id = conclusion_id, expression_result = coerced\<rparr>]\<rparr>)
        | None \<Rightarrow>
            evaluate_outputs_loop lib def rule (Suc i) pairs scope
              (acc\<lparr>conclusions := conclusions acc @ [\<lparr>expression_execution_id = conclusion_id, expression_result = JsonNull\<rparr>]\<rparr>)))"

definition evaluate_rule_outputs :: "dmn_lib \<Rightarrow> dmn_decision_definition \<Rightarrow> dmn_rule \<Rightarrow> json_map \<Rightarrow> dmn_error + evaluated_rule_outputs" where
  "evaluate_rule_outputs lib def rule inputs =
     evaluate_outputs_loop lib def rule 0 (zip (definition_outputs def) (output_entries rule))
       (build_output_evaluation_scope lib def rule inputs) \<lparr>output_row = [], conclusions = []\<rparr>"

fun precompute_loop :: "dmn_lib \<Rightarrow> dmn_decision_definition \<Rightarrow> json_map \<Rightarrow> dmn_rule list \<Rightarrow> rule_output_cache
    \<Rightarrow> dmn_error + rule_output_cache" where
  "precompute_loop lib def inputs [] cache = Inr cache"
| "precompute_loop lib def inputs (rule # rest) cache =
     rbind (rule_matches lib def inputs rule) (\<lambda>b.
       if b then rbind (evaluate_rule_outputs lib def rule inputs) (\<lambda>outputs.
              precompute_loop lib def inputs rest (cache(rule_id rule \<mapsto> outputs)))
       else precompute_loop lib def inputs rest cache)"

definition precompute_matching_rule_outputs :: "dmn_lib \<Rightarrow> dmn_decision_definition \<Rightarrow> json_map \<Rightarrow> dmn_error + rule_output_cache" where
  "precompute_matching_rule_outputs lib def inputs = precompute_loop lib def inputs (rules def) Map.empty"

definition cached_outputs_for_rule :: "rule_output_cache \<Rightarrow> dmn_rule \<Rightarrow> dmn_error + json_map" where
  "cached_outputs_for_rule cache rule =
     (case cache (rule_id rule) of
        Some evaluated \<Rightarrow> Inr (output_row evaluated)
      | None \<Rightarrow> Inl (DmnExecution (''internal error: missing precomputed outputs for rule '' @ in_quotes (rule_id rule))))"

section \<open>The table as its hits\<close>

text \<open>
  Reference: the hits of a table are its matching rules in table order, each with its own outputs. They are
  computed rule by rule, without a cache.
\<close>

fun table_hits :: "dmn_lib \<Rightarrow> dmn_decision_definition \<Rightarrow> json_map \<Rightarrow> dmn_rule list \<Rightarrow> dmn_error + (dmn_rule \<times> evaluated_rule_outputs) list" where
  "table_hits lib def inputs [] = Inr []"
| "table_hits lib def inputs (rule # rest) =
     rbind (rule_matches lib def inputs rule) (\<lambda>b.
       if b then rbind (evaluate_rule_outputs lib def rule inputs) (\<lambda>outputs.
              rbind (table_hits lib def inputs rest) (\<lambda>hits. Inr ((rule, outputs) # hits)))
       else table_hits lib def inputs rest)"

fun cache_of :: "rule_output_cache \<Rightarrow> (dmn_rule \<times> evaluated_rule_outputs) list \<Rightarrow> rule_output_cache" where
  "cache_of cache [] = cache"
| "cache_of cache ((r, out) # hits) = cache_of (cache(rule_id r \<mapsto> out)) hits"

lemma precompute_loop_hits:
  "precompute_loop lib def inputs rs cache
   = rbind (table_hits lib def inputs rs) (\<lambda>hits. Inr (cache_of cache hits))"
proof (induction rs arbitrary: cache)
  case (Cons r rs)
  then show ?case
    by (auto simp: rbind_assoc fun_upd_def intro!: rbind_cong)
qed simp

lemma matching_rules_hits:
  "table_hits lib def inputs rs = Inr hits \<Longrightarrow> filter_rules (rule_matches lib def inputs) rs = Inr (map fst hits)"
  by (induction rs arbitrary: hits) (auto split: if_splits)

lemma table_hits_subset: "table_hits lib def inputs rs = Inr hits \<Longrightarrow> fst ` set hits \<subseteq> set rs"
  by (induction rs arbitrary: hits) (fastforce split: if_splits)+

lemma table_hits_distinct:
  "table_hits lib def inputs rs = Inr hits \<Longrightarrow> distinct (map rule_id rs) \<Longrightarrow> distinct (map (rule_id \<circ> fst) hits)"
proof (induction rs arbitrary: hits)
  case (Cons r rs)
  from Cons.prems(1) obtain hits' where h: "table_hits lib def inputs rs = Inr hits'" "hits = hits' \<or> (\<exists>out. hits = (r, out) # hits')"
    by (auto split: if_splits)
  moreover have "rule_id r \<notin> (rule_id \<circ> fst) ` set hits'"
    using table_hits_subset [OF h(1)] Cons.prems(2) by auto
  ultimately show ?case using Cons.IH Cons.prems(2) by auto
qed simp

lemma cache_of_foreign: "k \<notin> (rule_id \<circ> fst) ` set hits \<Longrightarrow> cache_of cache hits k = cache k"
  by (induction cache hits rule: cache_of.induct) auto

lemma cache_of_hit:
  "distinct (map (rule_id \<circ> fst) hits) \<Longrightarrow> (r, out) \<in> set hits \<Longrightarrow> cache_of cache hits (rule_id r) = Some out"
proof (induction cache hits rule: cache_of.induct)
  case (2 cache s sout hits)
  show ?case
  proof (cases "(r, out) = (s, sout)")
    case True
    then have "rule_id r \<notin> (rule_id \<circ> fst) ` set hits" using 2(2) by auto
    from cache_of_foreign [OF this] True show ?thesis by simp
  next
    case False
    with 2 show ?thesis by (auto simp: fun_upd_def)
  qed
qed simp

lemma cached_outputs_hit:
  "distinct (map (rule_id \<circ> fst) hits) \<Longrightarrow> (r, out) \<in> set hits \<Longrightarrow> cached_outputs_for_rule (cache_of cache hits) r = Inr (output_row out)"
  by (simp add: cached_outputs_for_rule_def cache_of_hit)

section \<open>Example tables\<close>

definition example_chrono :: chrono_ops where
  "example_chrono = \<lparr>date_parse = (\<lambda>_. None), date_format = (\<lambda>_. []), time_parse = (\<lambda>_. None), time_format = (\<lambda>_. []),
     rfc3339_parse = (\<lambda>_. None), rfc3339_format = (\<lambda>_. []), datetime_parse_frac = (\<lambda>_. None), datetime_parse = (\<lambda>_. None),
     datetime_format_frac = (\<lambda>_. []), datetime_format = (\<lambda>_. []), datetime_nanosecond = (\<lambda>_. 0)\<rparr>"

definition example_lib :: dmn_lib where
  "example_lib = \<lparr>std = example_ops, chrono = example_chrono, parse_json = (\<lambda>_. None), show_json = (\<lambda>_. []),
     regex_is_match = (\<lambda>_ _. None), regex_replace_all = (\<lambda>_ _ _ _. None), regex_error = (\<lambda>_ _. []),
     constraint_error = (\<lambda>_. []), sql_like = (\<lambda>_ _. False), clock = (\<lambda>_ _. []),
     compatibility_evaluate = (\<lambda>_ _. Inl (DmnExecution []))\<rparr>"

definition example_clause :: dmn_output_clause where
  "example_clause = \<lparr>output_clause_id = ''o'', output_name = ''grade'', output_type_ref = None,
     output_values = [JsonString ''high'', JsonString ''low'']\<rparr>"

definition example_rule :: "string \<Rightarrow> string \<Rightarrow> dmn_unary_test list \<Rightarrow> dmn_rule" where
  "example_rule i v tests = \<lparr>rule_id = i, input_entries = map (\<lambda>t. \<lparr>input_entry_id = None, input_expression = t\<rparr>) tests,
     output_entries = [\<lparr>output_entry_id = None, output_value = JsonString v, output_expression = []\<rparr>]\<rparr>"

definition example_table :: "dmn_hit_policy \<Rightarrow> dmn_rule list \<Rightarrow> dmn_decision_definition" where
  "example_table policy rs = \<lparr>definition_id = ''d:1'', definition_decision_id = ''d'', definition_deployment_id = ''dep'',
     definition_key = ''d'', definition_name = ''D'', definition_version = 1, definition_category = None, definition_parent = None,
     definition_tenant = None, definition_resource_name = ''d.dmn'', hit_policy = policy, collect_operator = None,
     definition_inputs = [\<lparr>input_clause_id = ''a'', input_variable = ''a'', input_type_ref = None\<rparr>,
                          \<lparr>input_clause_id = ''b'', input_variable = ''b'', input_type_ref = None\<rparr>],
     definition_outputs = [example_clause], rules = rs, required_decisions = []\<rparr>"

definition graded_table :: "dmn_hit_policy \<Rightarrow> dmn_decision_definition" where
  "graded_table policy = example_table policy
     [example_rule ''r1'' ''low'' [TestAny, TestAny], example_rule ''r2'' ''high'' [TestAny, TestAny]]"

lemma returned: "\<not> isl r \<Longrightarrow> \<exists>x. r = Inr x"
  by (cases r) auto

lemmas example_defs = example_chrono_def example_lib_def example_clause_def example_rule_def example_table_def example_ops_def

section \<open>Numeric tests are exact\<close>

text \<open>The integer a JSON number stands for, over the whole range of \<open>i64\<close> and \<open>u64\<close>.\<close>

fun json_int :: "json \<Rightarrow> int option" where
  "json_int (JsonNumber (PosInt n)) = Some (uint n)"
| "json_int (JsonNumber (NegInt n)) = Some (sint n)"
| "json_int _ = None"

lemma json_int_cases:
  assumes "json_int v = Some x"
  obtains n where "v = JsonNumber (PosInt n)" "x = uint n" | n where "v = JsonNumber (NegInt n)" "x = sint n"
  using assms by (cases v rule: json_int.cases) auto

lemma compare_numbers_int:
  assumes "json_int a = Some x" "json_int b = Some y"
  shows "compare_numbers a b = Some (cmp_int x y)"
proof -
  have "sint n < 2 ^ 63" for n :: "64 word" using sint_lt [of n] by simp
  then have neg: "\<not> uint m < 2 ^ 63 \<Longrightarrow> sint n < uint m" for m n :: "64 word" by (meson less_le_trans not_less)
  have pos: "0 \<le> uint m" for m :: "64 word" by simp
  show ?thesis
    by (rule json_int_cases [OF assms(1)]; rule json_int_cases [OF assms(2)])
      (auto simp: compare_numbers_def cmp_int_def dest!: neg)
qed

lemma compare_values_int:
  assumes "json_int a = Some x" "json_int b = Some y" "Option.bind type_ref temporal_type_ref = None"
  shows "compare_values lib a b type_ref = Some (cmp_int x y)"
  using assms by (cases type_ref) (simp_all add: compare_values_def compare_numbers_int compare_temporal_values_def)

text \<open>
  C30. A range test on integers is interval membership, over the full range of \<open>i64\<close> and \<open>u64\<close> and with the
  declared openness of each end; no rounding to a float takes place.
\<close>

theorem range_test_is_interval:
  assumes "json_int actual = Some x" "json_int start = Some lo" "json_int stop = Some hi"
    and "Option.bind type_ref temporal_type_ref = None"
  shows "unary_test_matches lib inputs (TestRange start stop si ei) actual type_ref
    = Inr ((if si then lo \<le> x else lo < x) \<and> (if ei then x \<le> hi else x < hi))"
  using assms by (simp add: range_matches_def compare_values_int) (auto simp: cmp_int_def)

theorem range_test_is_interval_witness:
  "unary_test_matches example_lib [] (TestRange (JsonNumber (NegInt (- 3))) (JsonNumber (PosInt 18446744073709551615)) False True)
     (JsonNumber (PosInt 18446744073709551615)) (Some ''number'') = Inr True"
  by (subst range_test_is_interval [where x = 18446744073709551615 and lo = "-3" and hi = 18446744073709551615])
    (simp_all add: temporal_type_ref_def normalized_type_ref_def str_trim_def is_whitespace_def to_ascii_lowercase_def to_ascii_lower_def)

text \<open>
  Equality tests see how a number is written: an input that arrives as a float never equals an integer
  literal, although the closed range from that literal to itself contains it.
\<close>

theorem equality_test_sees_representation:
  assumes "json_int literal = Some n" "abs n \<le> 2 ^ 53"
  shows "unary_test_matches lib inputs (TestEquals literal) (JsonNumber (JsonFloat (f64_of_int n))) None = Inr False
    \<and> unary_test_matches lib inputs (TestRange literal literal True True) (JsonNumber (JsonFloat (f64_of_int n))) None = Inr True"
proof -
  let ?f = "f64_of_int n"
  have finite: "f64_is_finite ?f" by (rule f64_of_int_exact(2) [OF assms(2)])
  then have "partial_cmp ?f ?f = Some OrdEqual"
    using finite_not_special by (simp add: partial_cmp_def f64_less_def f64_eq_def)
  then have "compare_values lib (JsonNumber (JsonFloat ?f)) literal None = Some OrdEqual"
    using assms(1) by (rule_tac json_int_cases [OF assms(1)]) (simp_all add: compare_values_def compare_numbers_def)
  moreover have "\<not> json_eq (JsonNumber (JsonFloat ?f)) literal"
    by (rule json_int_cases [OF assms(1)]) simp_all
  ultimately show ?thesis by (simp add: range_matches_def)
qed

theorem equality_test_sees_representation_witness:
  "unary_test_matches example_lib [] (TestEquals (JsonNumber (PosInt 5))) (JsonNumber (JsonFloat (f64_of_int 5))) None = Inr False
   \<and> unary_test_matches example_lib [] (TestRange (JsonNumber (PosInt 5)) (JsonNumber (PosInt 5)) True True)
       (JsonNumber (JsonFloat (f64_of_int 5))) None = Inr True"
  by (rule equality_test_sees_representation) simp_all

section \<open>Outputs have the declared type\<close>

definition has_type :: "string \<Rightarrow> json \<Rightarrow> bool" where
  "has_type t v =
     (if t = ''string'' then \<exists>s. v = JsonString s
      else if t = ''boolean'' then \<exists>b. v = JsonBool b
      else if t = ''integer'' then \<exists>i. v = json_of_i64 i \<and> I32_MIN \<le> i \<and> i \<le> I32_MAX
      else if t = ''long'' then \<exists>i. v = json_of_i64 i \<and> I64_MIN \<le> i \<and> i \<le> I64_MAX
      else if t = ''double'' \<or> t = ''number'' then \<exists>f. v = json_of_f64 f
      else if is_temporal_type_name t then \<exists>s. v = JsonString s
      else if t = ''context'' then \<exists>m. v = JsonObject m
      else t = ''list'' \<and> (\<exists>xs. v = JsonArray xs))"

lemma ok_or_Inr [simp]: "ok_or e m = Inr x \<longleftrightarrow> m = Some x"
  by (cases m) auto

lemma integer_output_type:
  "coerce_runtime_integer_output lib def clause v mn mx = Inr w \<Longrightarrow> \<exists>i. w = json_of_i64 i \<and> mn \<le> i \<and> i \<le> mx"
  by (auto simp: coerce_runtime_integer_output_def split: option.splits if_splits)

lemma temporal_value_string:
  "normalize_temporal_value ch t v = Some w \<Longrightarrow> v \<noteq> JsonNull \<Longrightarrow> \<exists>s. w = JsonString s"
  by (auto simp: normalize_temporal_value_def Let_def bind_eq_Some_conv split: if_splits)

lemma coerced_output_type:
  assumes "coerce_runtime_output_value lib def clause v = Inr w" "output_type_ref clause = Some t" "w \<noteq> JsonNull"
  shows "has_type (normalized_type_ref t) w"
proof (cases "v = JsonNull")
  case False
  then show ?thesis
    using assms integer_output_type [of lib def clause v] temporal_value_string [of "chrono lib" t v]
    unfolding coerce_runtime_output_value_def has_type_def Let_def
    by (auto simp: is_temporal_type_name_def bind_eq_Some_conv split: if_split_asm)
qed (use assms in \<open>simp add: coerce_runtime_output_value_def Let_def\<close>)

lemma set_object_insert: "set (object_insert k v m) \<subseteq> insert (k, v) (set m)"
  by (induction k v m rule: object_insert.induct) auto

lemma single_output_coerced:
  "evaluate_single_output_entry lib def clause entry scope = Inr (Some w) \<Longrightarrow> \<exists>v. coerce_runtime_output_value lib def clause v = Inr w"
  by (auto simp: evaluate_single_output_entry_def Let_def split: if_splits)

lemma evaluate_outputs_loop_row:
  assumes "evaluate_outputs_loop lib def rule i pairs scope acc = Inr out" "(k, w) \<in> set (output_row out)"
  shows "(k, w) \<in> set (output_row acc)
    \<or> (\<exists>clause entry v. (clause, entry) \<in> set pairs \<and> output_name clause = k \<and> coerce_runtime_output_value lib def clause v = Inr w)"
  using assms
proof (induction lib def rule i pairs scope acc rule: evaluate_outputs_loop.induct)
  case (2 lib def rule i clause entry pairs scope acc)
  then obtain r where r: "evaluate_single_output_entry lib def clause entry scope = Inr r" by (auto simp: Let_def)
  show ?case
  proof (cases r)
    case None
    with 2 r show ?thesis by (fastforce simp: Let_def)
  next
    case (Some c)
    with 2 r single_output_coerced [of lib def clause entry scope c] set_object_insert [of "output_name clause" c "output_row acc"]
    show ?thesis by (fastforce simp: Let_def map_insert_def)
  qed
qed simp

text \<open>
  Every value of an output row belongs to a declared output and has the type its \<open>typeRef\<close> names, or is null;
  an integer output is in the range of \<open>i32\<close>, a long in that of \<open>i64\<close>.
\<close>

theorem output_row_has_declared_types:
  assumes "evaluate_rule_outputs lib def rule inputs = Inr out" "(k, w) \<in> set (output_row out)"
  shows "\<exists>clause \<in> set (definition_outputs def). output_name clause = k
    \<and> (\<forall>t. output_type_ref clause = Some t \<longrightarrow> w = JsonNull \<or> has_type (normalized_type_ref t) w)"
proof -
  from evaluate_outputs_loop_row [OF assms(1) [unfolded evaluate_rule_outputs_def] assms(2)]
  obtain clause entry v where "(clause, entry) \<in> set (zip (definition_outputs def) (output_entries rule))" "output_name clause = k"
    "coerce_runtime_output_value lib def clause v = Inr w" by auto
  then show ?thesis using coerced_output_type by (metis set_zip_leftD)
qed


theorem output_row_has_declared_types_witness:
  "\<exists>out. evaluate_rule_outputs example_lib ((graded_table HitFirst)\<lparr>definition_outputs := [example_clause\<lparr>output_type_ref := Some ''string''\<rparr>]\<rparr>)
       (example_rule ''r1'' ''low'' []) [] = Inr out
     \<and> (''grade'', JsonString ''low'') \<in> set (output_row out) \<and> has_type (normalized_type_ref ''string'') (JsonString ''low'')"
proof -
  let ?d = "(graded_table HitFirst)\<lparr>definition_outputs := [example_clause\<lparr>output_type_ref := Some ''string''\<rparr>]\<rparr>"
  have "map_sum id output_row (evaluate_rule_outputs example_lib ?d (example_rule ''r1'' ''low'' []) []) = Inr [(''grade'', JsonString ''low'')]"
    by code_simp
  then obtain out where out: "evaluate_rule_outputs example_lib ?d (example_rule ''r1'' ''low'' []) [] = Inr out"
    "(''grade'', JsonString ''low'') \<in> set (output_row out)"
    by (cases "evaluate_rule_outputs example_lib ?d (example_rule ''r1'' ''low'' []) []") auto
  from output_row_has_declared_types [OF out] out show ?thesis by auto
qed

end
