(* ===== verification/Dmn_Hit_Policies.thy ===== *)
theory Dmn_Hit_Policies
  imports Dmn_Rules
begin

text \<open>
  The hit policies of a decision table (\<open>flowable-dmn-engine/src/runtime.rs\<close>): what the matching rules of a table
  become as a result, in strict mode and otherwise, the aggregation of COLLECT, the order of OUTPUT ORDER and
  PRIORITY, and the audit of the rules. The lemmas relate the evaluation over the output cache to a
  reference over the hits of the table.
\<close>

section \<open>Results\<close>

record rule_hit_policy_message =
  message_validation :: "string option"
  message_exception :: "string option"

record hit_policy_evaluation =
  hit_rule_id :: "string option"
  hit_rule_count :: nat
  hit_rows :: "json_map list"
  hit_multiple :: bool
  hit_validation :: "string option"
  rule_messages :: "string \<rightharpoonup> rule_hit_policy_message"

definition row_list :: "json_map \<Rightarrow> json_map list" where
  "row_list row = (if row = [] then [] else [row])"

definition single_row_result :: "string option \<Rightarrow> nat \<Rightarrow> json_map \<Rightarrow> hit_policy_evaluation" where
  "single_row_result rid n outputs =
     \<lparr>hit_rule_id = rid, hit_rule_count = n, hit_rows = row_list outputs, hit_multiple = False,
      hit_validation = None, rule_messages = Map.empty\<rparr>"

definition empty_hit_result :: hit_policy_evaluation where
  "empty_hit_result =
     \<lparr>hit_rule_id = None, hit_rule_count = 0, hit_rows = [], hit_multiple = False,
      hit_validation = None, rule_messages = Map.empty\<rparr>"

fun debug_hit_policy :: "dmn_hit_policy \<Rightarrow> string" where
  "debug_hit_policy HitFirst = ''First''" | "debug_hit_policy HitUnique = ''Unique''"
| "debug_hit_policy HitAny = ''Any''" | "debug_hit_policy HitRuleOrder = ''RuleOrder''"
| "debug_hit_policy HitOutputOrder = ''OutputOrder''" | "debug_hit_policy HitPriority = ''Priority''"
| "debug_hit_policy HitCollect = ''Collect''" | "debug_hit_policy HitComplete = ''Complete''"
| "debug_hit_policy HitBatch = ''Batch''"

fun joined_rule_ids :: "dmn_rule list \<Rightarrow> string" where
  "joined_rule_ids [] = []"
| "joined_rule_ids [r] = rule_id r"
| "joined_rule_ids (r # rs) = rule_id r @ '', '' @ joined_rule_ids rs"

fun collect_results :: "('a \<Rightarrow> 'e + 'b) \<Rightarrow> 'a list \<Rightarrow> 'e + 'b list" where
  "collect_results f [] = Inr []"
| "collect_results f (x # xs) = rbind (f x) (\<lambda>y. rbind (collect_results f xs) (\<lambda>ys. Inr (y # ys)))"

definition same_message :: "string \<Rightarrow> dmn_rule list \<Rightarrow> (string \<rightharpoonup> rule_hit_policy_message)" where
  "same_message message rs =
     fold (\<lambda>r m. m(rule_id r \<mapsto> \<lparr>message_validation = Some message, message_exception = None\<rparr>)) rs Map.empty"

section \<open>FIRST, UNIQUE and ANY\<close>

fun first_hit_loop :: "dmn_lib \<Rightarrow> dmn_decision_definition \<Rightarrow> json_map \<Rightarrow> rule_output_cache \<Rightarrow> dmn_rule list
    \<Rightarrow> dmn_error + hit_policy_evaluation" where
  "first_hit_loop lib def inputs cache [] = Inr empty_hit_result"
| "first_hit_loop lib def inputs cache (r # rs) =
     rbind (rule_matches lib def inputs r) (\<lambda>b.
       if b then rbind (cached_outputs_for_rule cache r) (\<lambda>row. Inr (single_row_result (Some (rule_id r)) 1 row))
       else first_hit_loop lib def inputs cache rs)"

definition evaluate_first_hit :: "dmn_lib \<Rightarrow> dmn_decision_definition \<Rightarrow> json_map \<Rightarrow> rule_output_cache \<Rightarrow> dmn_error + hit_policy_evaluation" where
  "evaluate_first_hit lib def inputs cache = first_hit_loop lib def inputs cache (rules def)"

text \<open>Later values that are not null overwrite earlier ones.\<close>

fun merge_row :: "json_map \<Rightarrow> json_map \<Rightarrow> json_map" where
  "merge_row merged [] = merged"
| "merge_row merged ((k, v) # entries) = merge_row (if v = JsonNull then merged else map_insert k v merged) entries"

fun merge_unique_loop :: "rule_output_cache \<Rightarrow> dmn_rule list \<Rightarrow> json_map \<Rightarrow> dmn_error + json_map" where
  "merge_unique_loop cache [] merged = Inr merged"
| "merge_unique_loop cache (r # rs) merged =
     rbind (cached_outputs_for_rule cache r) (\<lambda>row. merge_unique_loop cache rs (merge_row merged row))"

definition merge_unique_outputs_by_key :: "dmn_rule list \<Rightarrow> rule_output_cache \<Rightarrow> dmn_error + json_map" where
  "merge_unique_outputs_by_key rs cache = merge_unique_loop cache rs []"

definition unique_violation :: "dmn_decision_definition \<Rightarrow> dmn_rule list \<Rightarrow> dmn_error" where
  "unique_violation def rs =
     DmnExecution (''UNIQUE hit policy violation for decision '' @ in_quotes (definition_key def) @ '': matched rules '' @ joined_rule_ids rs)"

definition unique_message :: "dmn_rule list \<Rightarrow> string" where
  "unique_message rs = ''HitPolicy UNIQUE violated; multiple valid rules: '' @ joined_rule_ids rs @ ''.''"

definition unique_merged_result :: "dmn_rule list \<Rightarrow> json_map \<Rightarrow> hit_policy_evaluation" where
  "unique_merged_result rs merged =
     \<lparr>hit_rule_id = None, hit_rule_count = length rs, hit_rows = row_list merged, hit_multiple = False,
      hit_validation = Some ''HitPolicy UNIQUE violated; multiple valid rules. Setting last valid rule result as final result.'',
      rule_messages = same_message (unique_message rs) rs\<rparr>"

definition evaluate_unique_hit :: "dmn_lib \<Rightarrow> dmn_decision_definition \<Rightarrow> json_map \<Rightarrow> rule_output_cache \<Rightarrow> bool
    \<Rightarrow> dmn_error + hit_policy_evaluation" where
  "evaluate_unique_hit lib def inputs cache strict_mode =
     rbind (matching_rules lib def inputs) (\<lambda>rs.
       case rs of
         [] \<Rightarrow> Inr empty_hit_result
       | [r] \<Rightarrow> rbind (cached_outputs_for_rule cache r) (\<lambda>row. Inr (single_row_result (Some (rule_id r)) 1 row))
       | _ \<Rightarrow>
           if strict_mode then Inl (unique_violation def rs)
           else rbind (merge_unique_outputs_by_key rs cache) (\<lambda>merged. Inr (unique_merged_result rs merged)))"

text \<open>The first rule whose outputs differ from those of the first match; an error of the cache comes first.\<close>

fun find_conflict :: "rule_output_cache \<Rightarrow> json_map \<Rightarrow> dmn_rule list \<Rightarrow> dmn_error + dmn_rule option" where
  "find_conflict cache first_outputs [] = Inr None"
| "find_conflict cache first_outputs (r # rs) =
     rbind (cached_outputs_for_rule cache r) (\<lambda>outputs.
       if \<not> json_object_eq outputs first_outputs then Inr (Some r) else find_conflict cache first_outputs rs)"

definition any_violation :: "dmn_decision_definition \<Rightarrow> dmn_rule list \<Rightarrow> dmn_rule \<Rightarrow> dmn_error" where
  "any_violation def rs conflicting =
     DmnExecution (''ANY hit policy violation for decision '' @ in_quotes (definition_key def) @ '': matched rules ''
       @ joined_rule_ids rs @ '' produce different outputs; first conflicting rule '' @ in_quotes (rule_id conflicting))"

definition any_message :: "dmn_rule \<Rightarrow> dmn_rule \<Rightarrow> string" where
  "any_message first_rule conflicting =
     ''HitPolicy ANY violated; both rule '' @ in_quotes (rule_id first_rule) @ '' and '' @ in_quotes (rule_id conflicting)
     @ '' are valid but outputs differ.''"

definition any_conflict_result :: "dmn_rule list \<Rightarrow> dmn_rule \<Rightarrow> json_map \<Rightarrow> hit_policy_evaluation" where
  "any_conflict_result rs conflicting last_outputs =
     \<lparr>hit_rule_id = Some (rule_id (last rs)), hit_rule_count = length rs, hit_rows = row_list last_outputs, hit_multiple = False,
      hit_validation = Some ''HitPolicy ANY violated; multiple valid rules with different outcomes. Setting last valid rule result as final result.'',
      rule_messages = same_message (any_message (hd rs) conflicting) rs\<rparr>"

definition evaluate_any_hit :: "dmn_lib \<Rightarrow> dmn_decision_definition \<Rightarrow> json_map \<Rightarrow> rule_output_cache \<Rightarrow> bool
    \<Rightarrow> dmn_error + hit_policy_evaluation" where
  "evaluate_any_hit lib def inputs cache strict_mode =
     rbind (matching_rules lib def inputs) (\<lambda>rs.
       case rs of
         [] \<Rightarrow> Inr empty_hit_result
       | first_rule # others \<Rightarrow>
           rbind (cached_outputs_for_rule cache first_rule) (\<lambda>first_outputs.
           rbind (find_conflict cache first_outputs others) (\<lambda>conflict.
             case conflict of
               Some conflicting \<Rightarrow>
                 if strict_mode then Inl (any_violation def rs conflicting)
                 else rbind (cached_outputs_for_rule cache (last rs)) (\<lambda>last_outputs.
                        Inr (any_conflict_result rs conflicting last_outputs))
             | None \<Rightarrow> Inr (single_row_result (Some (rule_id first_rule)) (length rs) first_outputs))))"

section \<open>Multi-row policies\<close>

definition only_rule_id :: "dmn_rule list \<Rightarrow> string option" where
  "only_rule_id rs = (case rs of [r] \<Rightarrow> Some (rule_id r) | _ \<Rightarrow> None)"

definition rows_result :: "dmn_rule list \<Rightarrow> json_map list \<Rightarrow> hit_policy_evaluation" where
  "rows_result rs rows =
     \<lparr>hit_rule_id = only_rule_id rs, hit_rule_count = length rs, hit_rows = rows, hit_multiple = True,
      hit_validation = None, rule_messages = Map.empty\<rparr>"

definition evaluate_rule_order_matches :: "dmn_rule list \<Rightarrow> rule_output_cache \<Rightarrow> dmn_error + hit_policy_evaluation" where
  "evaluate_rule_order_matches rs cache =
     (if rs = [] then
        Inr \<lparr>hit_rule_id = None, hit_rule_count = 0, hit_rows = [], hit_multiple = True,
             hit_validation = None, rule_messages = Map.empty\<rparr>
      else rbind (collect_results (cached_outputs_for_rule cache) rs) (\<lambda>rows. Inr (rows_result rs rows)))"

definition evaluate_rule_order_hit :: "dmn_lib \<Rightarrow> dmn_decision_definition \<Rightarrow> json_map \<Rightarrow> rule_output_cache \<Rightarrow> dmn_error + hit_policy_evaluation" where
  "evaluate_rule_order_hit lib def inputs cache =
     rbind (matching_rules lib def inputs) (\<lambda>rs. evaluate_rule_order_matches rs cache)"

definition evaluate_batch_hit :: "dmn_lib \<Rightarrow> dmn_decision_definition \<Rightarrow> json_map \<Rightarrow> rule_output_cache \<Rightarrow> dmn_error + hit_policy_evaluation" where
  "evaluate_batch_hit lib def inputs cache =
     rbind (matching_rules lib def inputs) (\<lambda>rs. evaluate_rule_order_matches rs cache)"

section \<open>OUTPUT ORDER and PRIORITY\<close>

definition has_any_output_values :: "dmn_decision_definition \<Rightarrow> bool" where
  "has_any_output_values def = list_ex (\<lambda>out. output_values out \<noteq> []) (definition_outputs def)"

definition ensure_output_values_for_order_policy :: "dmn_decision_definition \<Rightarrow> dmn_rule list \<Rightarrow> bool \<Rightarrow> bool
    \<Rightarrow> dmn_error + string option" where
  "ensure_output_values_for_order_policy def rs strict_mode priority_style =
     (let policy = debug_hit_policy (hit_policy def) in
      if has_any_output_values def then Inr None
      else if priority_style \<and> length rs < 2 then Inr None
      else if strict_mode then Inl (DmnExecution (''HitPolicy '' @ policy @ '' violated; no output values present.''))
      else Inr (Some (if priority_style
             then ''HitPolicy '' @ policy @ '' violated; no output values present. Setting first valid result as final result.''
             else ''HitPolicy: '' @ policy @ '' violated; no output values present'')))"

fun position :: "('a \<Rightarrow> bool) \<Rightarrow> 'a list \<Rightarrow> nat option" where
  "position P [] = None"
| "position P (x # xs) = (if P x then Some 0 else map_option Suc (position P xs))"

text \<open>The rank from the value the cache holds for the first output, if any.\<close>

definition rank_from :: "dmn_lib \<Rightarrow> dmn_decision_definition \<Rightarrow> dmn_rule \<Rightarrow> (string \<Rightarrow> json option) \<Rightarrow> dmn_error + nat" where
  "rank_from lib def rule evaluated =
     (case definition_outputs def of
        [] \<Rightarrow> Inl (DmnExecution (debug_hit_policy (hit_policy def) @ '' hit policy for decision ''
                 @ in_quotes (definition_key def) @ '' requires one output''))
      | out # _ \<Rightarrow>
          rbind (ok_or (DmnExecution (debug_hit_policy (hit_policy def) @ '' hit policy for decision ''
                   @ in_quotes (definition_key def) @ '' requires one output entry per rule''))
                 (case evaluated (output_name out) of
                    Some v \<Rightarrow> Some v
                  | None \<Rightarrow> (case output_entries rule of entry # _ \<Rightarrow> Some (output_value entry) | [] \<Rightarrow> None)))
            (\<lambda>v. rbind (coerce_runtime_output_value lib def out v) (\<lambda>w.
               Inr (case position (\<lambda>candidate. json_eq candidate w) (output_values out) of
                      Some i \<Rightarrow> i + 1 | None \<Rightarrow> 0))))"

definition output_priority_rank :: "dmn_lib \<Rightarrow> dmn_decision_definition \<Rightarrow> rule_output_cache \<Rightarrow> dmn_rule \<Rightarrow> dmn_error + nat" where
  "output_priority_rank lib def cache rule =
     rank_from lib def rule (\<lambda>name. Option.bind (cache (rule_id rule)) (\<lambda>evaluated. map_of (output_row evaluated) name))"

definition unwrap_or :: "'a \<Rightarrow> 'e + 'a \<Rightarrow> 'a" where
  "unwrap_or d r = (case r of Inr x \<Rightarrow> x | Inl _ \<Rightarrow> d)"

definition sort_rules_by_output_priority :: "dmn_lib \<Rightarrow> dmn_decision_definition \<Rightarrow> rule_output_cache \<Rightarrow> dmn_rule list
    \<Rightarrow> dmn_error + dmn_rule list" where
  "sort_rules_by_output_priority lib def cache rs =
     rbind (collect_results (output_priority_rank lib def cache) rs) (\<lambda>_.
       Inr (sort_key (\<lambda>r. unwrap_or 0 (output_priority_rank lib def cache r)) rs))"

definition ordered_matches :: "dmn_lib \<Rightarrow> dmn_decision_definition \<Rightarrow> rule_output_cache \<Rightarrow> dmn_rule list \<Rightarrow> dmn_error + dmn_rule list" where
  "ordered_matches lib def cache rs =
     (if has_any_output_values def then sort_rules_by_output_priority lib def cache rs else Inr rs)"

definition evaluate_output_order_hit :: "dmn_lib \<Rightarrow> dmn_decision_definition \<Rightarrow> json_map \<Rightarrow> rule_output_cache \<Rightarrow> bool
    \<Rightarrow> dmn_error + hit_policy_evaluation" where
  "evaluate_output_order_hit lib def inputs cache strict_mode =
     rbind (matching_rules lib def inputs) (\<lambda>rs.
     rbind (ensure_output_values_for_order_policy def rs strict_mode False) (\<lambda>message.
     rbind (ordered_matches lib def cache rs) (\<lambda>ordered.
     rbind (evaluate_rule_order_matches ordered cache) (\<lambda>evaluation.
       Inr (evaluation\<lparr>hit_validation := message\<rparr>)))))"

definition evaluate_priority_hit :: "dmn_lib \<Rightarrow> dmn_decision_definition \<Rightarrow> json_map \<Rightarrow> rule_output_cache \<Rightarrow> bool
    \<Rightarrow> dmn_error + hit_policy_evaluation" where
  "evaluate_priority_hit lib def inputs cache strict_mode =
     rbind (matching_rules lib def inputs) (\<lambda>rs.
     rbind (ensure_output_values_for_order_policy def rs strict_mode True) (\<lambda>message.
     rbind (ordered_matches lib def cache rs) (\<lambda>ordered.
       case ordered of
         [] \<Rightarrow> Inr empty_hit_result
       | r # _ \<Rightarrow> rbind (cached_outputs_for_rule cache r) (\<lambda>row.
           Inr ((single_row_result (Some (rule_id r)) (length ordered) row)\<lparr>hit_validation := message\<rparr>)))))"

section \<open>COLLECT\<close>

text \<open>
  \<open>f64::min\<close> and \<open>f64::max\<close>: a number that is not NaN is preferred. For zeros of different sign Rust
  leaves the choice open; the model keeps the first.
\<close>

definition f64_min :: "f64 \<Rightarrow> f64 \<Rightarrow> f64" where
  "f64_min a b = (if f64_is_nan a then b else if f64_less b a then b else a)"

definition f64_max :: "f64 \<Rightarrow> f64 \<Rightarrow> f64" where
  "f64_max a b = (if f64_is_nan a then b else if f64_less a b then b else a)"

definition non_numeric_collect_error :: "dmn_decision_definition \<Rightarrow> dmn_rule \<Rightarrow> nat \<Rightarrow> dmn_error" where
  "non_numeric_collect_error def r i =
     DmnExecution (''COLLECT aggregation for decision '' @ in_quotes (definition_key def)
       @ '' requires numeric output values; rule '' @ in_quotes (rule_id r)
       @ '' produced non-numeric output at index '' @ show_nat i)"

definition numeric_collect_value :: "dmn_decision_definition \<Rightarrow> nat \<Rightarrow> rule_output_cache \<Rightarrow> dmn_rule \<Rightarrow> dmn_error + f64" where
  "numeric_collect_value def i cache r =
     (if i < length (definition_outputs def) then
        rbind (ok_or (non_numeric_collect_error def r i)
                (Option.bind (cache (rule_id r)) (\<lambda>e. map_of (output_row e) (output_name (definition_outputs def ! i)))))
          (\<lambda>v. ok_or (non_numeric_collect_error def r i) (as_f64 v))
      else Inl (DmnExecution ''COLLECT aggregation requires output at index''))"

definition numeric_collect_values_at_index :: "dmn_decision_definition \<Rightarrow> dmn_rule list \<Rightarrow> nat \<Rightarrow> rule_output_cache \<Rightarrow> dmn_error + f64 list" where
  "numeric_collect_values_at_index def rs i cache = collect_results (numeric_collect_value def i cache) rs"

definition sum_collect_values_at_index :: "dmn_decision_definition \<Rightarrow> dmn_rule list \<Rightarrow> nat \<Rightarrow> rule_output_cache \<Rightarrow> dmn_error + f64" where
  "sum_collect_values_at_index def rs i cache =
     rbind (numeric_collect_values_at_index def rs i cache) (\<lambda>values. Inr (f64_sum values))"

definition reduce_or_null :: "(f64 \<Rightarrow> f64 \<Rightarrow> f64) \<Rightarrow> f64 list \<Rightarrow> json" where
  "reduce_or_null f values = (case values of [] \<Rightarrow> JsonNull | v # vs \<Rightarrow> json_of_f64 (foldl f v vs))"

definition collect_aggregate :: "dmn_decision_definition \<Rightarrow> dmn_rule list \<Rightarrow> collect_operator \<Rightarrow> nat \<Rightarrow> rule_output_cache \<Rightarrow> dmn_error + json" where
  "collect_aggregate def rs op i cache =
     (case op of
        CollectSum \<Rightarrow> rbind (sum_collect_values_at_index def rs i cache) (\<lambda>s. Inr (json_of_f64 s))
      | CollectMin \<Rightarrow> rbind (numeric_collect_values_at_index def rs i cache) (\<lambda>values. Inr (reduce_or_null f64_min values))
      | CollectMax \<Rightarrow> rbind (numeric_collect_values_at_index def rs i cache) (\<lambda>values. Inr (reduce_or_null f64_max values))
      | CollectCount \<Rightarrow> Inl (DmnExecution ''CollectOperator::Count should be handled before this match''))"

fun aggregate_loop :: "dmn_lib \<Rightarrow> dmn_decision_definition \<Rightarrow> (nat \<Rightarrow> dmn_error + json) \<Rightarrow> (nat \<times> dmn_output_clause) list \<Rightarrow> json_map
    \<Rightarrow> dmn_error + json_map" where
  "aggregate_loop lib def aggregate [] outputs = Inr outputs"
| "aggregate_loop lib def aggregate ((i, clause) # clauses) outputs =
     rbind (aggregate i) (\<lambda>v.
     rbind (coerce_runtime_output_value lib def clause v) (\<lambda>coerced.
       aggregate_loop lib def aggregate clauses (map_insert (output_name clause) coerced outputs)))"

definition evaluate_collect_aggregation :: "dmn_lib \<Rightarrow> dmn_decision_definition \<Rightarrow> dmn_rule list \<Rightarrow> collect_operator \<Rightarrow> rule_output_cache
    \<Rightarrow> dmn_error + hit_policy_evaluation" where
  "evaluate_collect_aggregation lib def rs op cache =
     (if definition_outputs def = [] then Inl (DmnExecution ''COLLECT aggregation requires at least one output'')
      else
        rbind (if op = CollectCount
               then aggregate_loop lib def (\<lambda>_. Inr (json_of_usize (length rs))) (enumerate 0 (definition_outputs def)) []
               else aggregate_loop lib def (\<lambda>i. collect_aggregate def rs op i cache) (enumerate 0 (definition_outputs def)) [])
          (\<lambda>outputs. Inr (single_row_result (only_rule_id rs) (length rs) outputs)))"

definition evaluate_collect_hit :: "dmn_lib \<Rightarrow> dmn_decision_definition \<Rightarrow> json_map \<Rightarrow> rule_output_cache \<Rightarrow> dmn_error + hit_policy_evaluation" where
  "evaluate_collect_hit lib def inputs cache =
     rbind (matching_rules lib def inputs) (\<lambda>rs.
       case collect_operator def of
         Some op \<Rightarrow> evaluate_collect_aggregation lib def rs op cache
       | None \<Rightarrow> evaluate_rule_order_matches rs cache)"

section \<open>The policy of a table and the audit of its rules\<close>

definition evaluate_hit_policy :: "dmn_lib \<Rightarrow> dmn_decision_definition \<Rightarrow> json_map \<Rightarrow> rule_output_cache \<Rightarrow> bool
    \<Rightarrow> dmn_error + hit_policy_evaluation" where
  "evaluate_hit_policy lib def inputs cache strict_mode =
     (case hit_policy def of
        HitFirst \<Rightarrow> evaluate_first_hit lib def inputs cache
      | HitUnique \<Rightarrow> evaluate_unique_hit lib def inputs cache strict_mode
      | HitAny \<Rightarrow> evaluate_any_hit lib def inputs cache strict_mode
      | HitRuleOrder \<Rightarrow> evaluate_rule_order_hit lib def inputs cache
      | HitOutputOrder \<Rightarrow> evaluate_output_order_hit lib def inputs cache strict_mode
      | HitPriority \<Rightarrow> evaluate_priority_hit lib def inputs cache strict_mode
      | HitCollect \<Rightarrow> evaluate_collect_hit lib def inputs cache
      | HitComplete \<Rightarrow> rbind (matching_rules lib def inputs) (\<lambda>rs. evaluate_rule_order_matches rs cache)
      | HitBatch \<Rightarrow> evaluate_batch_hit lib def inputs cache)"

definition condition_audit :: "dmn_lib \<Rightarrow> json_map \<Rightarrow> dmn_rule \<Rightarrow> nat \<times> dmn_input_clause \<times> dmn_rule_input_entry
    \<Rightarrow> dmn_error + dmn_expression_execution" where
  "condition_audit lib inputs r = (\<lambda>(i, clause, entry).
     rbind (entry_matches lib inputs (clause, entry)) (\<lambda>b.
       Inr \<lparr>expression_execution_id = (case input_entry_id entry of
               Some n \<Rightarrow> n | None \<Rightarrow> rule_id r @ '':input:'' @ show_nat (i + 1)),
            expression_result = JsonBool b\<rparr>))"

definition rule_audit :: "dmn_lib \<Rightarrow> dmn_decision_definition \<Rightarrow> json_map \<Rightarrow> rule_output_cache \<Rightarrow> nat \<times> dmn_rule
    \<Rightarrow> dmn_error + dmn_rule_execution_audit" where
  "rule_audit lib def inputs cache = (\<lambda>(i, r).
     rbind (collect_results (condition_audit lib inputs r) (enumerate 0 (zip (definition_inputs def) (input_entries r)))) (\<lambda>conditions.
       let is_valid = list_all (\<lambda>c. json_eq (expression_result c) (JsonBool True)) conditions in
       Inr \<lparr>rule_number = i + 1, audit_rule_id = rule_id r, valid = is_valid, condition_results = conditions,
            conclusion_results = (if is_valid then (case cache (rule_id r) of Some e \<Rightarrow> conclusions e | None \<Rightarrow> []) else []),
            audit_validation_message = None, audit_exception_message = None\<rparr>))"

definition build_rule_execution_audit :: "dmn_lib \<Rightarrow> dmn_decision_definition \<Rightarrow> json_map \<Rightarrow> rule_output_cache
    \<Rightarrow> dmn_error + dmn_rule_execution_audit list" where
  "build_rule_execution_audit lib def inputs cache = collect_results (rule_audit lib def inputs cache) (enumerate 0 (rules def))"

definition apply_message :: "hit_policy_evaluation \<Rightarrow> dmn_rule_execution_audit \<Rightarrow> dmn_rule_execution_audit" where
  "apply_message evaluation audit =
     (case rule_messages evaluation (audit_rule_id audit) of
        None \<Rightarrow> audit
      | Some message \<Rightarrow>
          let a1 = (if message_validation message \<noteq> None then audit\<lparr>audit_validation_message := message_validation message\<rparr> else audit)
          in if message_exception message \<noteq> None then a1\<lparr>audit_exception_message := message_exception message\<rparr> else a1)"

definition apply_hit_policy_rule_messages :: "dmn_rule_execution_audit list \<Rightarrow> hit_policy_evaluation \<Rightarrow> dmn_rule_execution_audit list" where
  "apply_hit_policy_rule_messages audits evaluation = map (apply_message evaluation) audits"

text \<open>The region of \<open>execute_definition\<close> whose failure is recorded: outputs, hit policy, audit.\<close>

definition evaluate_decision_table :: "dmn_lib \<Rightarrow> bool \<Rightarrow> dmn_decision_definition \<Rightarrow> json_map
    \<Rightarrow> dmn_error + hit_policy_evaluation \<times> dmn_rule_execution_audit list" where
  "evaluate_decision_table lib strict_mode def inputs =
     rbind (precompute_matching_rule_outputs lib def inputs) (\<lambda>cache.
     rbind (evaluate_hit_policy lib def inputs cache strict_mode) (\<lambda>evaluation.
     rbind (build_rule_execution_audit lib def inputs cache) (\<lambda>audits.
       Inr (evaluation, apply_hit_policy_rule_messages audits evaluation))))"

end
