(* ===== verification/Dmn_Validation.thy ===== *)
theory Dmn_Validation
  imports Dmn_Hit_Policies
begin

text \<open>
  What a deployment goes through before anything is stored
  (\<open>flowable-dmn-engine/src/repository.rs\<close>, \<open>validate_and_normalize_deployment_request\<close>): the structure of
  \<open>COLLECT\<close> aggregations, the literals of the input and output entries brought to the declared type, and the
  checks on names, keys, outputs and rules. An operation that rewrites the request returns the rewritten one.
\<close>

section \<open>Rendering of unary tests\<close>

fun render_string_function :: "dmn_string_function \<Rightarrow> string" where
  "render_string_function Contains = ''contains''" | "render_string_function StartsWith = ''starts with''"
| "render_string_function EndsWith = ''ends with''" | "render_string_function Matches = ''matches''"

fun render_string_transform :: "dmn_string_transform \<Rightarrow> string" where
  "render_string_transform LowerCase = ''lower case''" | "render_string_transform UpperCase = ''upper case''"
| "render_string_transform StringLength = ''string length''"

fun render_comparison_operator :: "dmn_comparison_operator \<Rightarrow> string" where
  "render_comparison_operator CmpGreater = ''>''" | "render_comparison_operator CmpGreaterEqual = ''>=''"
| "render_comparison_operator CmpLess = ''<''" | "render_comparison_operator CmpLessEqual = ''<=''"

fun render_deferred_operator :: "dmn_deferred_operator \<Rightarrow> string" where
  "render_deferred_operator DeferEquals = ''==''" | "render_deferred_operator DeferNotEquals = ''!=''"
| "render_deferred_operator DeferGreater = ''>''" | "render_deferred_operator DeferGreaterEqual = ''>=''"
| "render_deferred_operator DeferLess = ''<''" | "render_deferred_operator DeferLessEqual = ''<=''"

definition render_literal :: "dmn_lib \<Rightarrow> json \<Rightarrow> string" where
  "render_literal lib v = (case v of JsonString s \<Rightarrow> in_quotes s | _ \<Rightarrow> show_json lib v)"

fun render_unary_test :: "dmn_lib \<Rightarrow> dmn_unary_test \<Rightarrow> string" where
  "render_unary_test lib TestAny = ''-''"
| "render_unary_test lib (TestDeferredComparison op source) = render_deferred_operator op @ '' '' @ source"
| "render_unary_test lib (TestElCondition source) = ''#{'' @ source @ ''}''"
| "render_unary_test lib (TestPropertyPath path t) = ''.'' @ join_with ''.'' path @ '' '' @ render_unary_test lib t"
| "render_unary_test lib (TestEquals v) = render_literal lib v"
| "render_unary_test lib (TestNotEquals v) = ''!= '' @ render_literal lib v"
| "render_unary_test lib (TestStringFunction f needle) = render_string_function f @ ''(?, '' @ in_quotes needle @ '')''"
| "render_unary_test lib (TestStringTransform f expected) = render_string_transform f @ ''(?) = '' @ in_quotes expected"
| "render_unary_test lib (TestStringTransformComparison f op expected) =
     render_string_transform f @ ''(?) '' @ render_comparison_operator op @ '' '' @ render_literal lib expected"
| "render_unary_test lib (TestGreaterThan v) = ''> '' @ render_literal lib v"
| "render_unary_test lib (TestGreaterThanOrEqual v) = ''>= '' @ render_literal lib v"
| "render_unary_test lib (TestLessThan v) = ''< '' @ render_literal lib v"
| "render_unary_test lib (TestLessThanOrEqual v) = ''<= '' @ render_literal lib v"
| "render_unary_test lib (TestRange start stop si ei) =
     (if si then ''['' else ''('') @ render_literal lib start @ ''..'' @ render_literal lib stop @ (if ei then '']'' else '')'')"
| "render_unary_test lib (TestAnyOf tests) = join_with '', '' (map (render_unary_test lib) tests)"
| "render_unary_test lib (TestNot t) = ''not('' @ render_unary_test lib t @ '')''"
| "render_unary_test lib (TestAnd tests) = join_with '' and '' (map (render_unary_test lib) tests)"
| "render_unary_test lib (TestOr tests) = join_with '' or '' (map (render_unary_test lib) tests)"
| "render_unary_test lib (TestInstanceOf type_name) = ''instance of('' @ type_name @ '')''"
| "render_unary_test lib (TestSubstring start len expected) =
     ''substring(?, '' @ show_int (sint start) @ (case len of Some l \<Rightarrow> '', '' @ show_int (sint l) | None \<Rightarrow> [])
     @ '') = '' @ in_quotes expected"
| "render_unary_test lib (TestReplace pat replacement flags expected) =
     ''replace(?, '' @ in_quotes pat @ '', '' @ in_quotes replacement
     @ (case flags of Some f \<Rightarrow> '', '' @ in_quotes f | None \<Rightarrow> []) @ '') = '' @ in_quotes expected"
| "render_unary_test lib (TestListContains needle) =
     ''list contains(?, '' @ (case needle of NeedleLiteral v \<Rightarrow> render_literal lib v | NeedleVariable name \<Rightarrow> name) @ '')''"
| "render_unary_test lib (TestInList values) = ''? in ('' @ join_with '', '' (map (render_literal lib) values) @ '')''"

section \<open>Static literals\<close>

definition eq_ignore_ascii_case :: "string \<Rightarrow> string \<Rightarrow> bool" where
  "eq_ignore_ascii_case a b \<longleftrightarrow> to_ascii_lowercase a = to_ascii_lowercase b"

definition quoted_text :: "string \<Rightarrow> string option" where
  "quoted_text s =
     (case s of
        [] \<Rightarrow> None
      | quote # _ \<Rightarrow>
          if quote \<noteq> CHR 0x22 \<and> quote \<noteq> CHR 0x27 then None
          else Option.bind (strip_prefix_str [quote] s) (\<lambda>rest.
               Option.bind (strip_suffix_str [quote] rest) (\<lambda>value.
                 if quote \<in> set value then None else Some value)))"

definition parse_feel_string_constructor_argument :: "string \<Rightarrow> string \<Rightarrow> string option" where
  "parse_feel_string_constructor_argument s function_name =
     Option.bind (strip_prefix_str function_name s) (\<lambda>r.
     Option.bind (strip_prefix_str ''('' r) (\<lambda>r.
     Option.bind (strip_suffix_str '')'' r) (\<lambda>argument. quoted_text (str_trim argument))))"

definition parse_feel_temporal_constructor :: "string \<Rightarrow> string option" where
  "parse_feel_temporal_constructor s =
     (case List.map_filter (parse_feel_string_constructor_argument s) [''date and time'', ''dateTime'', ''date'', ''time''] of
        [] \<Rightarrow> None | argument # _ \<Rightarrow> Some argument)"

definition parse_feel_duration_constructor :: "string \<Rightarrow> string option" where
  "parse_feel_duration_constructor s = parse_feel_string_constructor_argument s ''duration''"

definition parse_quoted_string_literal :: "string \<Rightarrow> string option" where
  "parse_quoted_string_literal s =
     (let trimmed = str_trim s in if length trimmed < 2 then None else quoted_text trimmed)"

definition is_static_output_literal :: "dmn_lib \<Rightarrow> string \<Rightarrow> bool" where
  "is_static_output_literal lib s =
     (let trimmed = strip_expression_shells (str_trim s) in
      trimmed = [] \<or> trimmed = ''-''
      \<or> eq_ignore_ascii_case trimmed ''null'' \<or> eq_ignore_ascii_case trimmed ''true'' \<or> eq_ignore_ascii_case trimmed ''false''
      \<or> parse_feel_temporal_constructor trimmed \<noteq> None \<or> parse_feel_duration_constructor trimmed \<noteq> None
      \<or> parse_quoted_string_literal trimmed \<noteq> None
      \<or> (case parse_json lib trimmed of
           Some v \<Rightarrow> is_number v \<or> as_array v \<noteq> None \<or> as_object v \<noteq> None
         | None \<Rightarrow> False))"

section \<open>Normalisation of the input entries\<close>

lemma collect_results_cong [fundef_cong]:
  "xs = ys \<Longrightarrow> (\<And>x. x \<in> set ys \<Longrightarrow> f x = g x) \<Longrightarrow> collect_results f xs = collect_results g ys"
  by (induction xs arbitrary: ys) auto

definition unsupported_input_unary_test_error :: "string \<Rightarrow> dmn_error" where
  "unsupported_input_unary_test_error source =
     DmnUnsupportedModel ''unary test'' (''unsupported unary test '' @ in_quotes source @ '' in owned M15 subset'')"

definition incompatible_deployed_input_error :: "dmn_lib \<Rightarrow> string \<Rightarrow> string \<Rightarrow> string \<Rightarrow> json \<Rightarrow> dmn_error" where
  "incompatible_deployed_input_error lib key variable type_ref v =
     DmnValidation (''DMN decision '' @ in_quotes key @ '' input '' @ in_quotes variable @ '' with typeRef ''
       @ in_quotes type_ref @ '' has incompatible value '' @ show_json lib v)"

definition incompatible_deployed_output_error :: "dmn_lib \<Rightarrow> string \<Rightarrow> string \<Rightarrow> string \<Rightarrow> json \<Rightarrow> dmn_error" where
  "incompatible_deployed_output_error lib key name type_ref v =
     DmnValidation (''DMN decision '' @ in_quotes key @ '' output '' @ in_quotes name @ '' with typeRef ''
       @ in_quotes type_ref @ '' has incompatible value '' @ show_json lib v)"

text \<open>The literals of a test, rewritten by \<open>f\<close>; the tests without a typed literal are rejected with \<open>e\<close>.\<close>

fun normalize_test :: "(json \<Rightarrow> dmn_unary_test \<Rightarrow> dmn_error + json) \<Rightarrow> (dmn_unary_test \<Rightarrow> dmn_error) \<Rightarrow> dmn_unary_test
    \<Rightarrow> dmn_error + dmn_unary_test" where
  "normalize_test f e TestAny = Inr TestAny"
| "normalize_test f e (TestDeferredComparison op source) = Inr (TestDeferredComparison op source)"
| "normalize_test f e (TestElCondition source) = Inr (TestElCondition source)"
| "normalize_test f e (TestPropertyPath path t) = Inr (TestPropertyPath path t)"
| "normalize_test f e (TestEquals v) = rbind (f v (TestEquals v)) (\<lambda>w. Inr (TestEquals w))"
| "normalize_test f e (TestNotEquals v) = rbind (f v (TestNotEquals v)) (\<lambda>w. Inr (TestNotEquals w))"
| "normalize_test f e (TestGreaterThan v) = rbind (f v (TestGreaterThan v)) (\<lambda>w. Inr (TestGreaterThan w))"
| "normalize_test f e (TestGreaterThanOrEqual v) = rbind (f v (TestGreaterThanOrEqual v)) (\<lambda>w. Inr (TestGreaterThanOrEqual w))"
| "normalize_test f e (TestLessThan v) = rbind (f v (TestLessThan v)) (\<lambda>w. Inr (TestLessThan w))"
| "normalize_test f e (TestLessThanOrEqual v) = rbind (f v (TestLessThanOrEqual v)) (\<lambda>w. Inr (TestLessThanOrEqual w))"
| "normalize_test f e (TestRange start stop si ei) =
     rbind (f start (TestRange start stop si ei)) (\<lambda>start'.
     rbind (f stop (TestRange start stop si ei)) (\<lambda>stop'. Inr (TestRange start' stop' si ei)))"
| "normalize_test f e (TestAnyOf tests) = rbind (collect_results (normalize_test f e) tests) (\<lambda>ts. Inr (TestAnyOf ts))"
| "normalize_test f e (TestAnd tests) = rbind (collect_results (normalize_test f e) tests) (\<lambda>ts. Inr (TestAnd ts))"
| "normalize_test f e (TestOr tests) = rbind (collect_results (normalize_test f e) tests) (\<lambda>ts. Inr (TestOr ts))"
| "normalize_test f e (TestNot t) = rbind (normalize_test f e t) (\<lambda>u. Inr (TestNot u))"
| "normalize_test f e (TestInList values) =
     rbind (collect_results (\<lambda>v. f v (TestInList values)) values) (\<lambda>ws. Inr (TestInList ws))"
| "normalize_test f e t = Inl (e t)"

definition unsupported_test :: "dmn_lib \<Rightarrow> dmn_unary_test \<Rightarrow> dmn_error" where
  "unsupported_test lib t = unsupported_input_unary_test_error (render_unary_test lib t)"

definition normalize_temporal_unary_test :: "dmn_lib \<Rightarrow> string \<Rightarrow> string \<Rightarrow> string \<Rightarrow> dmn_unary_test \<Rightarrow> dmn_error + dmn_unary_test" where
  "normalize_temporal_unary_test lib key variable type_ref =
     normalize_test (\<lambda>v _. ok_or (incompatible_deployed_input_error lib key variable type_ref v)
                             (normalize_temporal_value (chrono lib) type_ref v)) (unsupported_test lib)"

definition coerce_deployment_input_numeric_value :: "dmn_lib \<Rightarrow> string \<Rightarrow> json \<Rightarrow> (int \<times> int) option \<Rightarrow> json option" where
  "coerce_deployment_input_numeric_value lib type_ref v bounds =
     (if v = JsonNull then Some JsonNull
      else do {
        number \<leftarrow> numeric_value_of lib v;
        case bounds of
          Some (mn, mx) \<Rightarrow> do { i \<leftarrow> number_to_i64 number; if i < mn \<or> mx < i then None else Some (json_of_i64 i) }
        | None \<Rightarrow> let t = normalized_type_ref type_ref in if t = ''double'' \<or> t = ''number'' then Some number else None })"

definition normalize_numeric_unary_test :: "dmn_lib \<Rightarrow> string \<Rightarrow> (int \<times> int) option \<Rightarrow> dmn_unary_test \<Rightarrow> dmn_error + dmn_unary_test" where
  "normalize_numeric_unary_test lib type_ref bounds =
     normalize_test (\<lambda>v t. ok_or (unsupported_test lib t) (coerce_deployment_input_numeric_value lib type_ref v bounds))
       (unsupported_test lib)"

definition normalize_typed_input_unary_test :: "dmn_lib \<Rightarrow> string \<Rightarrow> string \<Rightarrow> string \<Rightarrow> dmn_unary_test \<Rightarrow> dmn_error + dmn_unary_test" where
  "normalize_typed_input_unary_test lib key variable type_ref t =
     (let n = normalized_type_ref type_ref in
      if temporal_type_ref type_ref \<noteq> None then normalize_temporal_unary_test lib key variable type_ref t
      else if n = ''integer'' then normalize_numeric_unary_test lib type_ref (Some (I32_MIN, I32_MAX)) t
      else if n = ''long'' then normalize_numeric_unary_test lib type_ref (Some (I64_MIN, I64_MAX)) t
      else if n = ''double'' \<or> n = ''number'' then normalize_numeric_unary_test lib type_ref None t
      else Inr t)"

definition normalize_rule_input :: "dmn_lib \<Rightarrow> string \<Rightarrow> string \<Rightarrow> string \<Rightarrow> nat \<Rightarrow> dmn_rule \<Rightarrow> dmn_error + dmn_rule" where
  "normalize_rule_input lib key variable type_ref i rule =
     (if i < length (input_entries rule) then
        let entry = input_entries rule ! i in
        rbind (normalize_typed_input_unary_test lib key variable type_ref (input_expression entry)) (\<lambda>t.
          Inr (rule\<lparr>input_entries := (input_entries rule)[i := entry\<lparr>input_expression := t\<rparr>]\<rparr>))
      else Inr rule)"

fun normalize_inputs_loop :: "dmn_lib \<Rightarrow> string \<Rightarrow> nat \<Rightarrow> dmn_input_clause list \<Rightarrow> dmn_rule list \<Rightarrow> dmn_error + dmn_rule list" where
  "normalize_inputs_loop lib key i [] rs = Inr rs"
| "normalize_inputs_loop lib key i (clause # clauses) rs =
     (case input_type_ref clause of
        None \<Rightarrow> normalize_inputs_loop lib key (Suc i) clauses rs
      | Some type_ref \<Rightarrow>
          rbind (collect_results (normalize_rule_input lib key (input_variable clause) type_ref i) rs)
            (normalize_inputs_loop lib key (Suc i) clauses))"

definition normalize_decision_inputs :: "dmn_lib \<Rightarrow> dmn_decision \<Rightarrow> dmn_error + dmn_decision" where
  "normalize_decision_inputs lib d =
     rbind (normalize_inputs_loop lib (dmn_decision_key d) 0 (decision_inputs d) (decision_rules d)) (\<lambda>rs. Inr (d\<lparr>decision_rules := rs\<rparr>))"

text \<open>\<open>for resource in &mut request.resources { for decision in &mut resource.model.decisions { ... } }\<close>\<close>

definition each_decision :: "(dmn_decision \<Rightarrow> dmn_error + dmn_decision) \<Rightarrow> dmn_deployment_request \<Rightarrow> dmn_error + dmn_deployment_request" where
  "each_decision f request =
     rbind (collect_results (\<lambda>resource.
              rbind (collect_results f (model_decisions (resource_model resource))) (\<lambda>ds.
                Inr (resource\<lparr>resource_model := (resource_model resource)\<lparr>model_decisions := ds\<rparr>\<rparr>))) (resources request))
       (\<lambda>rs. Inr (request\<lparr>resources := rs\<rparr>))"

definition normalize_input_type_refs :: "dmn_lib \<Rightarrow> dmn_deployment_request \<Rightarrow> dmn_error + dmn_deployment_request" where
  "normalize_input_type_refs lib request = each_decision (normalize_decision_inputs lib) request"

section \<open>Normalisation of the output entries\<close>

definition coerce_deployment_integer_output :: "dmn_lib \<Rightarrow> string \<Rightarrow> string \<Rightarrow> string \<Rightarrow> json \<Rightarrow> int \<Rightarrow> int \<Rightarrow> dmn_error + json" where
  "coerce_deployment_integer_output lib key name type_ref v mn mx =
     (case numeric_value_of lib v of
        None \<Rightarrow> Inl (incompatible_deployed_output_error lib key name type_ref v)
      | Some number \<Rightarrow>
          (case number_to_i64 number of
             None \<Rightarrow> Inl (incompatible_deployed_output_error lib key name type_ref v)
           | Some i \<Rightarrow> if i < mn \<or> mx < i then Inl (incompatible_deployed_output_error lib key name type_ref v)
                       else Inr (json_of_i64 i)))"

definition coerce_deployment_output_value :: "dmn_lib \<Rightarrow> string \<Rightarrow> string \<Rightarrow> string \<Rightarrow> json \<Rightarrow> dmn_error + json" where
  "coerce_deployment_output_value lib key name type_ref v =
     (let t = normalized_type_ref type_ref;
          err = incompatible_deployed_output_error lib key name type_ref v
      in if v = JsonNull then Inr JsonNull
         else if t = ''string'' then ok_or err (map_option JsonString (as_str v))
         else if t = ''boolean'' then ok_or err (map_option JsonBool (as_bool v))
         else if t = ''integer'' then coerce_deployment_integer_output lib key name type_ref v I32_MIN I32_MAX
         else if t = ''long'' then coerce_deployment_integer_output lib key name type_ref v I64_MIN I64_MAX
         else if t = ''double'' \<or> t = ''number'' then ok_or err (numeric_value_of lib v)
         else if is_temporal_type_name t then ok_or err (normalize_temporal_value (chrono lib) type_ref v)
         else if t = ''context'' then ok_or err (map_option JsonObject (as_object v))
         else if t = ''list'' then ok_or err (map_option JsonArray (as_array v))
         else Inl (DmnUnsupportedModel ''typeRef''
                (''unsupported output typeRef '' @ in_quotes type_ref @ '' for decision '' @ in_quotes key
                 @ '' output '' @ in_quotes name @ ''; supported output'' @ supported_type_refs)))"

text \<open>\<open>!entry.expression.trim().is_empty() && !is_static_output_literal(&entry.expression)\<close>\<close>

definition deferred_output :: "dmn_lib \<Rightarrow> dmn_rule_output_entry \<Rightarrow> bool" where
  "deferred_output lib entry \<longleftrightarrow>
     str_trim (output_expression entry) \<noteq> [] \<and> \<not> is_static_output_literal lib (output_expression entry)"

definition normalize_rule_output :: "dmn_lib \<Rightarrow> string \<Rightarrow> string \<Rightarrow> string \<Rightarrow> nat \<Rightarrow> dmn_rule \<Rightarrow> dmn_error + dmn_rule" where
  "normalize_rule_output lib key name type_ref i rule =
     (if i < length (output_entries rule) then
        let entry = output_entries rule ! i in
        if deferred_output lib entry then Inr rule
        else rbind (coerce_deployment_output_value lib key name type_ref (output_value entry)) (\<lambda>v.
          Inr (rule\<lparr>output_entries := (output_entries rule)[i := entry\<lparr>output_value := v\<rparr>]\<rparr>))
      else Inr rule)"

fun normalize_outputs_loop :: "dmn_lib \<Rightarrow> string \<Rightarrow> nat \<Rightarrow> dmn_output_clause list \<Rightarrow> dmn_rule list
    \<Rightarrow> dmn_error + dmn_output_clause list \<times> dmn_rule list" where
  "normalize_outputs_loop lib key i [] rs = Inr ([], rs)"
| "normalize_outputs_loop lib key i (clause # clauses) rs =
     (case output_type_ref clause of
        None \<Rightarrow> rbind (normalize_outputs_loop lib key (Suc i) clauses rs) (\<lambda>(cs, rs). Inr (clause # cs, rs))
      | Some type_ref \<Rightarrow>
          rbind (collect_results (coerce_deployment_output_value lib key (output_name clause) type_ref) (output_values clause)) (\<lambda>vs.
          rbind (collect_results (normalize_rule_output lib key (output_name clause) type_ref i) rs) (\<lambda>rs.
          rbind (normalize_outputs_loop lib key (Suc i) clauses rs) (\<lambda>(cs, rs). Inr (clause\<lparr>output_values := vs\<rparr> # cs, rs)))))"

definition normalize_decision_outputs :: "dmn_lib \<Rightarrow> dmn_decision \<Rightarrow> dmn_error + dmn_decision" where
  "normalize_decision_outputs lib d =
     rbind (normalize_outputs_loop lib (dmn_decision_key d) 0 (decision_outputs d) (decision_rules d))
       (\<lambda>(cs, rs). Inr (d\<lparr>decision_outputs := cs, decision_rules := rs\<rparr>))"

definition normalize_output_type_refs :: "dmn_lib \<Rightarrow> dmn_deployment_request \<Rightarrow> dmn_error + dmn_deployment_request" where
  "normalize_output_type_refs lib request = each_decision (normalize_decision_outputs lib) request"

section \<open>Validation\<close>

fun debug_collect_operator :: "collect_operator \<Rightarrow> string" where
  "debug_collect_operator CollectCount = ''Count''" | "debug_collect_operator CollectSum = ''Sum''"
| "debug_collect_operator CollectMin = ''Min''" | "debug_collect_operator CollectMax = ''Max''"

definition validation_error :: "string \<Rightarrow> string \<Rightarrow> dmn_error" where
  "validation_error key message = DmnValidation (''DMN decision '' @ in_quotes key @ message)"

definition validate_collect_operator_structure :: "dmn_decision \<Rightarrow> dmn_error + unit" where
  "validate_collect_operator_structure d =
     (case decision_collect_operator d of
        None \<Rightarrow> Inr ()
      | Some operator \<Rightarrow>
          if decision_hit_policy d \<noteq> HitCollect then
            Inl (validation_error (dmn_decision_key d) '' declares COLLECT aggregation for non-COLLECT hit policy'')
          else (case decision_outputs d of
             [] \<Rightarrow> Inl (validation_error (dmn_decision_key d) '' COLLECT aggregation requires at least one output'')
           | clause # others \<Rightarrow>
               if others \<noteq> [] then
                 Inl (DmnValidation (''HitPolicy: COLLECT has aggregation: '' @ debug_collect_operator operator
                        @ '' and multiple outputs. This is not supported''))
               else if normalized_type_ref (case output_type_ref clause of Some t \<Rightarrow> t | None \<Rightarrow> []) \<noteq> ''number'' then
                 Inl (DmnValidation (''HitPolicy: COLLECT has aggregation: '' @ debug_collect_operator operator
                        @ '' needs output type number''))
               else Inr ()))"

fun first_error :: "('a \<Rightarrow> 'e + unit) \<Rightarrow> 'a list \<Rightarrow> 'e + unit" where
  "first_error f [] = Inr ()"
| "first_error f (x # xs) = rbind (f x) (\<lambda>_. first_error f xs)"

definition validate_numeric_output :: "dmn_lib \<Rightarrow> string \<Rightarrow> collect_operator \<Rightarrow> dmn_rule \<Rightarrow> dmn_rule_output_entry \<Rightarrow> dmn_error + unit" where
  "validate_numeric_output lib key operator rule entry =
     (if deferred_output lib entry \<or> is_number (output_value entry) then Inr ()
      else Inl (validation_error key ('' COLLECT '' @ debug_collect_operator operator
             @ '' aggregation requires numeric output values; rule '' @ in_quotes (rule_id rule)
             @ '' produced '' @ show_json lib (output_value entry))))"

definition validate_collect_operator :: "dmn_lib \<Rightarrow> dmn_decision \<Rightarrow> dmn_error + unit" where
  "validate_collect_operator lib d =
     rbind (validate_collect_operator_structure d) (\<lambda>_.
       case decision_collect_operator d of
         None \<Rightarrow> Inr ()
       | Some operator \<Rightarrow>
           if operator = CollectCount then Inr ()
           else first_error (\<lambda>rule. first_error (validate_numeric_output lib (dmn_decision_key d) operator rule) (output_entries rule))
                  (decision_rules d))"

definition validate_output_priority_policy :: "dmn_decision \<Rightarrow> dmn_error + unit" where
  "validate_output_priority_policy d =
     (if decision_hit_policy d \<noteq> HitOutputOrder \<and> decision_hit_policy d \<noteq> HitPriority then Inr ()
      else if length (decision_outputs d) \<noteq> 1 then
        Inl (DmnUnsupportedModel ''hit policy''
          (''DMN decision '' @ in_quotes (dmn_decision_key d) @ '' '' @ debug_hit_policy (decision_hit_policy d)
           @ '' hit policy requires a single output in the supported subset''))
      else Inr ())"

text \<open>A pattern is valid when the library can match with it; no flag is set for \<open>matches\<close>.\<close>

lemma first_error_cong [fundef_cong]:
  "xs = ys \<Longrightarrow> (\<And>x. x \<in> set ys \<Longrightarrow> f x = g x) \<Longrightarrow> first_error f xs = first_error g ys"
  by (induction xs arbitrary: ys) auto

definition regex_flags :: "string option \<Rightarrow> bool \<times> bool \<times> bool \<times> bool" where
  "regex_flags flags =
     (case flags of
        None \<Rightarrow> (False, False, False, False)
      | Some f \<Rightarrow> (CHR ''i'' \<in> set f, CHR ''s'' \<in> set f, CHR ''m'' \<in> set f, CHR ''x'' \<in> set f))"

fun validate_unary_test :: "dmn_lib \<Rightarrow> dmn_unary_test \<Rightarrow> dmn_error + unit" where
  "validate_unary_test lib (TestStringFunction Matches needle) =
     (if regex_is_match lib needle [] \<noteq> None then Inr ()
      else Inl (DmnValidation (''invalid matches regex '' @ in_quotes needle @ '' in unary test ''
             @ in_quotes (render_unary_test lib (TestStringFunction Matches needle)) @ '': ''
             @ regex_error lib needle (False, False, False, False))))"
| "validate_unary_test lib (TestAnyOf tests) = first_error (validate_unary_test lib) tests"
| "validate_unary_test lib (TestAnd tests) = first_error (validate_unary_test lib) tests"
| "validate_unary_test lib (TestOr tests) = first_error (validate_unary_test lib) tests"
| "validate_unary_test lib (TestNot t) = validate_unary_test lib t"
| "validate_unary_test lib (TestReplace pat replacement flags expected) =
     (if regex_replace_all lib pat (regex_flags flags) [] [] \<noteq> None then Inr ()
      else Inl (DmnValidation (''invalid replace regex pattern '' @ in_quotes pat @ '' in unary test ''
             @ in_quotes (render_unary_test lib (TestReplace pat replacement flags expected)) @ '': ''
             @ regex_error lib pat (regex_flags flags))))"
| "validate_unary_test lib _ = Inr ()"

fun validate_output_names :: "string \<Rightarrow> string list \<Rightarrow> dmn_output_clause list \<Rightarrow> dmn_error + unit" where
  "validate_output_names key seen [] = Inr ()"
| "validate_output_names key seen (clause # clauses) =
     (if str_trim (output_name clause) = [] then Inl (validation_error key '' contains an output without name'')
      else if output_name clause \<in> set seen then
        Inl (validation_error key ('' contains duplicate output '' @ in_quotes (output_name clause)))
      else validate_output_names key (output_name clause # seen) clauses)"

definition validate_rule :: "dmn_lib \<Rightarrow> dmn_decision \<Rightarrow> dmn_rule \<Rightarrow> dmn_error + unit" where
  "validate_rule lib d rule =
     (if length (input_entries rule) \<noteq> length (decision_inputs d) then
        Inl (validation_error (dmn_decision_key d) ('' rule '' @ in_quotes (rule_id rule) @ '' declared ''
               @ show_nat (length (input_entries rule)) @ '' input entries but expected '' @ show_nat (length (decision_inputs d))))
      else if length (output_entries rule) \<noteq> length (decision_outputs d) then
        Inl (validation_error (dmn_decision_key d) ('' rule '' @ in_quotes (rule_id rule) @ '' declared ''
               @ show_nat (length (output_entries rule)) @ '' output entries but expected '' @ show_nat (length (decision_outputs d))))
      else first_error (\<lambda>entry. validate_unary_test lib (input_expression entry)) (input_entries rule))"

text \<open>The test on the hit policy lists every constructor of the enum and never rejects.\<close>

definition validate_decision :: "dmn_lib \<Rightarrow> dmn_decision \<Rightarrow> string \<Rightarrow> dmn_error + unit" where
  "validate_decision lib d resource =
     (let missing = (\<lambda>what. DmnValidation (''DMN resource '' @ in_quotes resource @ '' contains a decision without '' @ what))
      in if str_trim (decision_id d) = [] then Inl (missing ''id'')
         else if str_trim (dmn_decision_key d) = [] then Inl (missing ''key'')
         else if str_trim (dmn_decision_name d) = [] then Inl (missing ''name'')
         else rbind (validate_collect_operator lib d) (\<lambda>_.
           if decision_outputs d = [] then Inl (validation_error (dmn_decision_key d) '' must declare at least one output'')
           else if decision_rules d = [] then Inl (validation_error (dmn_decision_key d) '' must declare at least one rule'')
           else rbind (validate_output_names (dmn_decision_key d) [] (decision_outputs d)) (\<lambda>_.
             rbind (first_error (validate_rule lib d) (decision_rules d)) (\<lambda>_. validate_output_priority_policy d))))"

text \<open>\<open>seen_keys\<close> of the deployment is threaded through the resources.\<close>

fun validate_decisions :: "dmn_lib \<Rightarrow> string \<Rightarrow> string list \<Rightarrow> dmn_decision list \<Rightarrow> dmn_error + string list" where
  "validate_decisions lib resource seen [] = Inr seen"
| "validate_decisions lib resource seen (d # ds) =
     rbind (validate_decision lib d resource) (\<lambda>_.
       if dmn_decision_key d \<in> set seen then
         Inl (DmnValidation (''DMN decision key '' @ in_quotes (dmn_decision_key d) @ '' appears multiple times in one deployment''))
       else validate_decisions lib resource (dmn_decision_key d # seen) ds)"

fun validate_resources :: "dmn_lib \<Rightarrow> string list \<Rightarrow> dmn_deployment_resource list \<Rightarrow> dmn_error + unit" where
  "validate_resources lib seen [] = Inr ()"
| "validate_resources lib seen (r # rs) =
     (if str_trim (resource_name r) = [] then Inl (DmnValidation ''DMN deployment resource name is required'')
      else if strip_suffix_str ''.dmn'' (resource_name r) = None then
        Inl (DmnValidation (''Unsupported DMN resource '' @ in_quotes (resource_name r)))
      else if model_decisions (resource_model r) = [] then
        Inl (DmnValidation (''DMN resource '' @ in_quotes (resource_name r) @ '' does not contain decisions''))
      else rbind (validate_decisions lib (resource_name r) seen (model_decisions (resource_model r))) (\<lambda>seen.
        validate_resources lib seen rs))"

definition validate_deployment_request :: "dmn_lib \<Rightarrow> dmn_deployment_request \<Rightarrow> dmn_error + unit" where
  "validate_deployment_request lib request =
     (if str_trim (deployment_request_name request) = [] then Inl (DmnValidation ''DMN deployment name is required'')
      else if resources request = [] then Inl (DmnValidation ''DMN deployment resources are required'')
      else validate_resources lib [] (resources request))"

definition validate_and_normalize_deployment_request :: "dmn_lib \<Rightarrow> dmn_deployment_request \<Rightarrow> dmn_error + dmn_deployment_request" where
  "validate_and_normalize_deployment_request lib request =
     rbind (first_error (\<lambda>r. first_error validate_collect_operator_structure (model_decisions (resource_model r))) (resources request)) (\<lambda>_.
     rbind (normalize_input_type_refs lib request) (\<lambda>request.
     rbind (normalize_output_type_refs lib request) (\<lambda>request.
     rbind (validate_deployment_request lib request) (\<lambda>_. Inr request))))"

abbreviation resource_decisions :: "dmn_deployment_resource \<Rightarrow> dmn_decision list" where
  "resource_decisions r \<equiv> model_decisions (resource_model r)"

abbreviation request_decisions :: "dmn_deployment_request \<Rightarrow> dmn_decision list" where
  "request_decisions request \<equiv> concat (map resource_decisions (resources request))"

end
