(* ===== verification/Dmn_Repository.thy ===== *)
theory Dmn_Repository
  imports Dmn_Validation
begin

text \<open>
  The repository of decisions (\<open>flowable-dmn-engine/src/repository.rs\<close>): the rows a deployment leaves in the five
  tables of the DMN store, and the queries that find the decision or the decision service to execute.

  \<open>dmn_store\<close> has one list of rows per table, in insertion order; a query sorts what it selects as its
  \<open>ORDER BY\<close> says. A \<open>DATA_\<close> column, the JSON text of a value, is that value. The fresh id of a deployment and the
  time of deployment are arguments. An operation that fails leaves its transaction uncommitted: the store it
  started from is the store afterwards.
\<close>

section \<open>Rows\<close>

record dmn_deployment_entity =
  deployment_entity_id :: string
  deployment_entity_name :: string
  deployment_entity_category :: "string option"
  deployment_entity_parent :: "string option"
  deployment_entity_tenant :: "string option"
  deployment_entity_deployed_at :: string
  deployment_entity_data :: dmn_deployment

record dmn_deployment_resource_entity =
  resource_entity_deployment_id :: string
  resource_entity_name :: string
  resource_entity_type :: string
  resource_entity_content_type :: string
  resource_entity_bytes :: "u8 list"
  resource_entity_created_at :: int

record dmn_drd_entity =
  drd_entity_id :: string
  drd_entity_name :: string
  drd_entity_deployment_id :: string
  drd_entity_resource_name :: string
  drd_entity_data :: dmn_model

record dmn_decision_entity =
  decision_entity_id :: string
  decision_entity_key :: string
  decision_entity_deployment_id :: string
  decision_entity_tenant :: "string option"
  decision_entity_version :: "32 word"
  decision_entity_resource_name :: string
  decision_entity_data :: dmn_decision_definition

record dmn_history_entity =
  history_entity_execution_id :: string
  history_entity_decision_key :: string
  history_entity_definition_id :: string
  history_entity_deployment_id :: string
  history_entity_business_key :: "string option"
  history_entity_tenant :: "string option"
  history_entity_instance_id :: "string option"
  history_entity_scope_execution_id :: "string option"
  history_entity_activity_id :: "string option"
  history_entity_scope_type :: "string option"
  history_entity_executed_at :: string
  history_entity_data :: historic_decision_execution

record dmn_store =
  deployment_rows :: "dmn_deployment_entity list"
  resource_rows :: "dmn_deployment_resource_entity list"
  drd_rows :: "dmn_drd_entity list"
  decision_rows :: "dmn_decision_entity list"
  history_rows :: "dmn_history_entity list"

text \<open>An insert fails when the primary key is taken; the text after the prefix is the persistence layer's.\<close>

definition insert_unique :: "dmn_lib \<Rightarrow> string \<Rightarrow> ('r \<Rightarrow> 'k) \<Rightarrow> 'r \<Rightarrow> 'r list \<Rightarrow> dmn_error + 'r list" where
  "insert_unique lib table pk row rows =
     (if pk row \<in> set (map pk rows)
      then Inl (DmnStorage (''Persistence error: '' @ constraint_error lib table))
      else Inr (rows @ [row]))"

fun insert_ordered :: "('r \<Rightarrow> 'r \<Rightarrow> bool) \<Rightarrow> 'r \<Rightarrow> 'r list \<Rightarrow> 'r list" where
  "insert_ordered before row [] = [row]"
| "insert_ordered before row (r # rows) = (if before r row then r # insert_ordered before row rows else row # r # rows)"

definition order_rows :: "('r \<Rightarrow> 'r \<Rightarrow> bool) \<Rightarrow> 'r list \<Rightarrow> 'r list" where
  "order_rows before rows = foldr (insert_ordered before) rows []"

section \<open>Resources\<close>

definition str_ends_with :: "string \<Rightarrow> string \<Rightarrow> bool" where
  "str_ends_with pat s \<longleftrightarrow> str_starts_with (rev pat) (rev s)"

definition dmn_content_type_for_name :: "string \<Rightarrow> string" where
  "dmn_content_type_for_name name =
     (let lower_name = to_ascii_lowercase name in
      if str_ends_with ''.dmn'' lower_name \<or> str_ends_with ''.xml'' lower_name then ''application/xml''
      else if str_ends_with ''.json'' lower_name then ''application/json''
      else if str_ends_with ''.svg'' lower_name then ''image/svg+xml''
      else if str_ends_with ''.png'' lower_name then ''image/png''
      else if str_ends_with ''.jpg'' lower_name \<or> str_ends_with ''.jpeg'' lower_name then ''image/jpeg''
      else if str_ends_with ''.gif'' lower_name then ''image/gif''
      else if str_ends_with ''.txt'' lower_name then ''text/plain''
      else ''application/octet-stream'')"

definition dmn_resource_type_for_name :: "string \<Rightarrow> string" where
  "dmn_resource_type_for_name name =
     (if str_ends_with ''.dmn'' (to_ascii_lowercase name) then ''decisionDefinition'' else ''resource'')"

definition new_resource_entity :: "string \<Rightarrow> string \<Rightarrow> u8 list \<Rightarrow> int \<Rightarrow> dmn_deployment_resource_entity" where
  "new_resource_entity deployment name bytes created_at =
     \<lparr>resource_entity_deployment_id = deployment, resource_entity_name = name,
      resource_entity_type = dmn_resource_type_for_name name,
      resource_entity_content_type = dmn_content_type_for_name name,
      resource_entity_bytes = bytes, resource_entity_created_at = created_at\<rparr>"

section \<open>Deployment\<close>

text \<open>
  \<open>SELECT MAX(VERSION_)\<close> over the rows of the key and the tenant, where \<open>NULL\<close> matches \<open>NULL\<close>. The \<open>i32\<close>
  addition is checked: on the highest version it panics, which \<open>version_overflows\<close> tells and the deployment reports.
\<close>

definition version_rows :: "string \<Rightarrow> string option \<Rightarrow> dmn_store \<Rightarrow> dmn_decision_entity list" where
  "version_rows key tenant store =
     filter (\<lambda>r. decision_entity_key r = key \<and> decision_entity_tenant r = tenant) (decision_rows store)"

definition next_version :: "string \<Rightarrow> string option \<Rightarrow> dmn_store \<Rightarrow> 32 word" where
  "next_version key tenant store =
     (case map (\<lambda>r. sint (decision_entity_version r)) (version_rows key tenant store) of
        [] \<Rightarrow> 1
      | v # vs \<Rightarrow> word_of_int (foldl max v vs) + 1)"

definition version_overflows :: "string \<Rightarrow> string option \<Rightarrow> dmn_store \<Rightarrow> bool" where
  "version_overflows key tenant store =
     (case map (\<lambda>r. sint (decision_entity_version r)) (version_rows key tenant store) of
        [] \<Rightarrow> False
      | v # vs \<Rightarrow> foldl max v vs = 2 ^ 31 - 1)"

definition new_definition :: "string \<Rightarrow> dmn_deployment_request \<Rightarrow> string \<Rightarrow> 32 word \<Rightarrow> dmn_decision \<Rightarrow> dmn_decision_definition" where
  "new_definition deployment request resource version d =
     \<lparr>definition_id = ''dmn-decision:'' @ deployment @ '':'' @ dmn_decision_key d,
      definition_decision_id = decision_id d, definition_deployment_id = deployment,
      definition_key = dmn_decision_key d, definition_name = dmn_decision_name d, definition_version = version,
      definition_category = deployment_request_category request, definition_parent = deployment_request_parent request,
      definition_tenant = deployment_request_tenant request, definition_resource_name = resource,
      hit_policy = decision_hit_policy d, collect_operator = decision_collect_operator d,
      definition_inputs = decision_inputs d, definition_outputs = decision_outputs d, rules = decision_rules d,
      required_decisions = decision_required_decisions d\<rparr>"

definition new_decision_entity :: "dmn_decision_definition \<Rightarrow> dmn_decision_entity" where
  "new_decision_entity def =
     \<lparr>decision_entity_id = definition_id def, decision_entity_key = definition_key def,
      decision_entity_deployment_id = definition_deployment_id def, decision_entity_tenant = definition_tenant def,
      decision_entity_version = definition_version def, decision_entity_resource_name = definition_resource_name def,
      decision_entity_data = def\<rparr>"

fun deploy_decisions :: "dmn_lib \<Rightarrow> string \<Rightarrow> dmn_deployment_request \<Rightarrow> string \<Rightarrow> dmn_decision list \<Rightarrow> dmn_store
    \<Rightarrow> dmn_error + dmn_store" where
  "deploy_decisions lib deployment request resource [] store = Inr store"
| "deploy_decisions lib deployment request resource (d # ds) store =
     (let version = next_version (dmn_decision_key d) (deployment_request_tenant request) store;
          def = new_definition deployment request resource version d
      in if version_overflows (dmn_decision_key d) (deployment_request_tenant request) store
         then Inl (DmnPanic ''attempt to add with overflow'')
         else rbind (insert_unique lib ''ACT_DMN_DECISION'' decision_entity_id (new_decision_entity def) (decision_rows store)) (\<lambda>rows.
           deploy_decisions lib deployment request resource ds (store\<lparr>decision_rows := rows\<rparr>)))"

definition store_drd :: "dmn_lib \<Rightarrow> string \<Rightarrow> dmn_deployment_resource \<Rightarrow> dmn_store \<Rightarrow> dmn_error + dmn_store" where
  "store_drd lib deployment resource store =
     (let drd_model = (resource_model resource)\<lparr>model_id := deployment\<rparr>
      in rbind (insert_unique lib ''ACT_DMN_DRD'' drd_entity_id
                  \<lparr>drd_entity_id = deployment, drd_entity_name = model_name drd_model, drd_entity_deployment_id = deployment,
                   drd_entity_resource_name = resource_name resource, drd_entity_data = drd_model\<rparr> (drd_rows store)) (\<lambda>rows.
           Inr (store\<lparr>drd_rows := rows\<rparr>)))"

fun deploy_resources :: "dmn_lib \<Rightarrow> string \<Rightarrow> int \<Rightarrow> dmn_deployment_request \<Rightarrow> bool \<Rightarrow> dmn_deployment_resource list \<Rightarrow> dmn_store
    \<Rightarrow> dmn_error + dmn_store" where
  "deploy_resources lib deployment created_at request stored_drd [] store = Inr store"
| "deploy_resources lib deployment created_at request stored_drd (r # rs) store =
     rbind (insert_unique lib ''ACT_DMN_RESOURCE'' (\<lambda>e. (resource_entity_deployment_id e, resource_entity_name e))
              (new_resource_entity deployment (resource_name r) (resource_bytes r) created_at) (resource_rows store)) (\<lambda>rows.
     rbind (if stored_drd then Inr (store\<lparr>resource_rows := rows\<rparr>)
            else store_drd lib deployment r (store\<lparr>resource_rows := rows\<rparr>)) (\<lambda>store.
     rbind (deploy_decisions lib deployment request (resource_name r) (model_decisions (resource_model r)) store) (\<lambda>store.
       deploy_resources lib deployment created_at request True rs store)))"

text \<open>
  \<open>now\<close> is the time in nanoseconds that \<open>rfc3339_format\<close> prints; \<open>timestamp_millis\<close> is its floor in milliseconds.
\<close>

definition new_deployment :: "string \<Rightarrow> int \<Rightarrow> dmn_deployment_request \<Rightarrow> dmn_deployment" where
  "new_deployment uuid now request =
     \<lparr>deployment_id = ''dmn-deployment:'' @ uuid, deployment_name = deployment_request_name request,
      deployment_category = deployment_request_category request, deployment_parent = deployment_request_parent request,
      deployment_tenant = deployment_request_tenant request,
      deployment_resource_names = map resource_name (resources request), deployed_at = now\<rparr>"

definition new_deployment_entity :: "dmn_lib \<Rightarrow> dmn_deployment \<Rightarrow> dmn_deployment_entity" where
  "new_deployment_entity lib d =
     \<lparr>deployment_entity_id = deployment_id d, deployment_entity_name = deployment_name d,
      deployment_entity_category = deployment_category d, deployment_entity_parent = deployment_parent d,
      deployment_entity_tenant = deployment_tenant d, deployment_entity_deployed_at = rfc3339_format (chrono lib) (deployed_at d),
      deployment_entity_data = d\<rparr>"

definition deploy :: "dmn_lib \<Rightarrow> string \<Rightarrow> int \<Rightarrow> dmn_deployment_request \<Rightarrow> dmn_store \<Rightarrow> dmn_error + dmn_deployment \<times> dmn_store" where
  "deploy lib uuid now request store =
     rbind (validate_and_normalize_deployment_request lib request) (\<lambda>request.
       let deployment = new_deployment uuid now request in
       rbind (insert_unique lib ''ACT_DMN_DEPLOYMENT'' deployment_entity_id (new_deployment_entity lib deployment) (deployment_rows store)) (\<lambda>rows.
       rbind (deploy_resources lib (deployment_id deployment) (now div 1000000) request False (resources request)
                (store\<lparr>deployment_rows := rows\<rparr>)) (\<lambda>store.
         Inr (deployment, store))))"

section \<open>Reading and deleting\<close>

definition deployment_from_entity :: "dmn_deployment_entity \<Rightarrow> dmn_deployment" where
  "deployment_from_entity e =
     (deployment_entity_data e)\<lparr>deployment_id := deployment_entity_id e, deployment_name := deployment_entity_name e,
        deployment_category := deployment_entity_category e, deployment_parent := deployment_entity_parent e,
        deployment_tenant := deployment_entity_tenant e\<rparr>"

definition get_deployment :: "string \<Rightarrow> dmn_store \<Rightarrow> dmn_error + dmn_deployment" where
  "get_deployment i store =
     ok_or (DmnNotFound (''DMN deployment '' @ in_quotes i @ '' was not found''))
       (map_option deployment_from_entity (List.find (\<lambda>e. deployment_entity_id e = i) (deployment_rows store)))"

definition get_deployment_resource_data :: "string \<Rightarrow> string \<Rightarrow> dmn_store \<Rightarrow> dmn_error + dmn_deployment_resource_entity" where
  "get_deployment_resource_data i name store =
     ok_or (DmnNotFound (''DMN deployment resource '' @ in_quotes name @ '' was not found in deployment '' @ in_quotes i))
       (List.find (\<lambda>e. resource_entity_name e = name) (filter (\<lambda>e. resource_entity_deployment_id e = i) (resource_rows store)))"

definition get_deployment_resource_bytes :: "string \<Rightarrow> string \<Rightarrow> dmn_store \<Rightarrow> dmn_error + u8 list" where
  "get_deployment_resource_bytes i name store =
     rbind (get_deployment_resource_data i name store) (\<lambda>e. Inr (resource_entity_bytes e))"

definition get_deployment_resources :: "string \<Rightarrow> dmn_store \<Rightarrow> dmn_error + dmn_deployment_resource_entity list" where
  "get_deployment_resources i store =
     rbind (get_deployment i store) (\<lambda>_. Inr (filter (\<lambda>e. resource_entity_deployment_id e = i) (resource_rows store)))"

definition delete_deployment :: "string \<Rightarrow> bool \<Rightarrow> dmn_store \<Rightarrow> dmn_error + dmn_store" where
  "delete_deployment i cascade store =
     rbind (get_deployment i store) (\<lambda>_.
       Inr \<lparr>deployment_rows = filter (\<lambda>e. deployment_entity_id e \<noteq> i) (deployment_rows store),
            resource_rows = filter (\<lambda>e. resource_entity_deployment_id e \<noteq> i) (resource_rows store),
            drd_rows = filter (\<lambda>e. drd_entity_deployment_id e \<noteq> i) (drd_rows store),
            decision_rows = filter (\<lambda>e. decision_entity_deployment_id e \<noteq> i) (decision_rows store),
            history_rows = (if cascade then filter (\<lambda>e. history_entity_deployment_id e \<noteq> i) (history_rows store)
                            else history_rows store)\<rparr>)"

definition get_decision :: "string \<Rightarrow> dmn_store \<Rightarrow> dmn_error + dmn_decision_definition" where
  "get_decision i store =
     ok_or (DmnNotFound (''DMN decision definition '' @ in_quotes i @ '' was not found''))
       (map_option decision_entity_data (List.find (\<lambda>e. decision_entity_id e = i) (decision_rows store)))"

definition get_decision_resource_bytes :: "string \<Rightarrow> dmn_store \<Rightarrow> dmn_error + u8 list" where
  "get_decision_resource_bytes i store =
     rbind (get_decision i store) (\<lambda>def.
       get_deployment_resource_bytes (definition_deployment_id def) (definition_resource_name def) store)"

definition get_drd :: "string \<Rightarrow> dmn_store \<Rightarrow> dmn_error + dmn_model" where
  "get_drd i store =
     ok_or (DmnNotFound (''DMN DRD '' @ in_quotes i @ '' was not found''))
       (map_option drd_entity_data (List.find (\<lambda>e. drd_entity_id e = i) (drd_rows store)))"

text \<open>The rows of \<open>ACT_DMN_DRD\<close> joined with their deployments.\<close>

definition drd_join :: "dmn_store \<Rightarrow> (dmn_deployment_entity \<times> dmn_drd_entity) list" where
  "drd_join store =
     concat (map (\<lambda>drd. map (\<lambda>e. (e, drd)) (filter (\<lambda>e. deployment_entity_id e = drd_entity_deployment_id drd) (deployment_rows store)))
       (drd_rows store))"

definition get_drd_with_deployment_info :: "string \<Rightarrow> dmn_store \<Rightarrow> dmn_error + dmn_deployment \<times> dmn_model" where
  "get_drd_with_deployment_info i store =
     ok_or (DmnNotFound (''DMN DRD '' @ in_quotes i @ '' was not found''))
       (map_option (\<lambda>(e, drd). (deployment_entity_data e, drd_entity_data drd))
          (List.find (\<lambda>(e, drd). drd_entity_id drd = i) (drd_join store)))"

definition list_drds :: "dmn_store \<Rightarrow> dmn_model list" where
  "list_drds store = map drd_entity_data (order_rows (\<lambda>a b. string_less (drd_entity_id a) (drd_entity_id b)) (drd_rows store))"

section \<open>Queries\<close>

record dmn_deployment_query =
  deployment_query_id :: "string option"
  deployment_query_name :: "string option"
  deployment_query_name_like :: "string option"
  deployment_query_category :: "string option"
  deployment_query_category_not_equals :: "string option"
  deployment_query_parent :: "string option"
  deployment_query_parent_like :: "string option"
  deployment_query_tenant :: "string option"
  deployment_query_tenant_like :: "string option"
  without_tenant_id :: bool
  deployment_query_resource_name :: "string option"

definition new_deployment_query :: dmn_deployment_query where
  "new_deployment_query =
     \<lparr>deployment_query_id = None, deployment_query_name = None, deployment_query_name_like = None,
      deployment_query_category = None, deployment_query_category_not_equals = None, deployment_query_parent = None,
      deployment_query_parent_like = None, deployment_query_tenant = None, deployment_query_tenant_like = None,
      without_tenant_id = False, deployment_query_resource_name = None\<rparr>"

text \<open>A condition on a \<open>NULL\<close> column does not hold.\<close>

definition column_test :: "(string \<Rightarrow> string \<Rightarrow> bool) \<Rightarrow> string option \<Rightarrow> string option \<Rightarrow> bool" where
  "column_test P column parameter =
     (case parameter of None \<Rightarrow> True | Some p \<Rightarrow> (case column of None \<Rightarrow> False | Some c \<Rightarrow> P c p))"

definition deployment_matches :: "dmn_lib \<Rightarrow> dmn_store \<Rightarrow> dmn_deployment_query \<Rightarrow> dmn_deployment_entity \<Rightarrow> bool" where
  "deployment_matches lib store q e \<longleftrightarrow>
     column_test (=) (Some (deployment_entity_id e)) (deployment_query_id q)
     \<and> column_test (=) (Some (deployment_entity_name e)) (deployment_query_name q)
     \<and> column_test (sql_like lib) (Some (deployment_entity_name e)) (deployment_query_name_like q)
     \<and> column_test (=) (deployment_entity_category e) (deployment_query_category q)
     \<and> column_test (\<noteq>) (deployment_entity_category e) (deployment_query_category_not_equals q)
     \<and> column_test (=) (deployment_entity_parent e) (deployment_query_parent q)
     \<and> column_test (sql_like lib) (deployment_entity_parent e) (deployment_query_parent_like q)
     \<and> column_test (=) (deployment_entity_tenant e) (deployment_query_tenant q)
     \<and> column_test (sql_like lib) (deployment_entity_tenant e) (deployment_query_tenant_like q)
     \<and> (without_tenant_id q \<longrightarrow> deployment_entity_tenant e = None)
     \<and> (case deployment_query_resource_name q of
          None \<Rightarrow> True
        | Some name \<Rightarrow> list_ex (\<lambda>r. resource_entity_name r = name \<and> resource_entity_deployment_id r = deployment_entity_id e) (resource_rows store))"

definition deployment_row_less :: "dmn_deployment_entity \<Rightarrow> dmn_deployment_entity \<Rightarrow> bool" where
  "deployment_row_less a b \<longleftrightarrow>
     string_less (deployment_entity_deployed_at a) (deployment_entity_deployed_at b)
     \<or> (deployment_entity_deployed_at a = deployment_entity_deployed_at b \<and> string_less (deployment_entity_id a) (deployment_entity_id b))"

definition deployment_query_list :: "dmn_lib \<Rightarrow> dmn_store \<Rightarrow> dmn_deployment_query \<Rightarrow> dmn_deployment list" where
  "deployment_query_list lib store q =
     map deployment_from_entity (order_rows deployment_row_less (filter (deployment_matches lib store q) (deployment_rows store)))"

record dmn_decision_query =
  decision_query_id :: "string option"
  decision_query_key :: "string option"
  decision_query_deployment_id :: "string option"
  decision_query_tenant :: "string option"
  decision_query_resource_name :: "string option"
  decision_query_version :: "32 word option"

definition new_decision_query :: dmn_decision_query where
  "new_decision_query =
     \<lparr>decision_query_id = None, decision_query_key = None, decision_query_deployment_id = None, decision_query_tenant = None,
      decision_query_resource_name = None, decision_query_version = None\<rparr>"

definition matches_optional :: "string option \<Rightarrow> string \<Rightarrow> bool" where
  "matches_optional flt actual = (case flt of None \<Rightarrow> True | Some v \<Rightarrow> v = actual)"

definition matches_optional_option :: "string option \<Rightarrow> string option \<Rightarrow> bool" where
  "matches_optional_option flt actual = (case flt of None \<Rightarrow> True | Some v \<Rightarrow> actual = Some v)"

definition decision_matches :: "dmn_decision_query \<Rightarrow> dmn_decision_definition \<Rightarrow> bool" where
  "decision_matches q def \<longleftrightarrow>
     matches_optional (decision_query_id q) (definition_id def)
     \<and> matches_optional (decision_query_key q) (definition_key def)
     \<and> matches_optional (decision_query_deployment_id q) (definition_deployment_id def)
     \<and> matches_optional_option (decision_query_tenant q) (definition_tenant def)
     \<and> matches_optional (decision_query_resource_name q) (definition_resource_name def)
     \<and> (case decision_query_version q of None \<Rightarrow> True | Some v \<Rightarrow> definition_version def = v)"

text \<open>\<open>ORDER BY DECISION_KEY_ ASC, VERSION_ DESC, ID_ ASC\<close>\<close>

definition decision_row_less :: "dmn_decision_entity \<Rightarrow> dmn_decision_entity \<Rightarrow> bool" where
  "decision_row_less a b \<longleftrightarrow>
     string_less (decision_entity_key a) (decision_entity_key b)
     \<or> (decision_entity_key a = decision_entity_key b
        \<and> (sint (decision_entity_version b) < sint (decision_entity_version a)
           \<or> (decision_entity_version a = decision_entity_version b \<and> string_less (decision_entity_id a) (decision_entity_id b))))"

definition decision_query_list :: "dmn_store \<Rightarrow> dmn_decision_query \<Rightarrow> dmn_decision_definition list" where
  "decision_query_list store q =
     filter (decision_matches q) (map decision_entity_data (order_rows decision_row_less (decision_rows store)))"

definition first_of :: "'a list \<Rightarrow> 'a option" where
  "first_of xs = (case xs of [] \<Rightarrow> None | x # _ \<Rightarrow> Some x)"

definition decision_single_result :: "dmn_store \<Rightarrow> dmn_decision_query \<Rightarrow> dmn_decision_definition option" where
  "decision_single_result store q = first_of (decision_query_list store q)"

text \<open>\<open>PagedResult\<close> is \<open>(start, size, total, data)\<close>.\<close>

definition page_items :: "'a list \<Rightarrow> nat \<Rightarrow> nat option \<Rightarrow> nat \<times> nat \<times> nat \<times> 'a list" where
  "page_items items start limit =
     (let start = min start (length items);
          page_size = (case limit of Some s \<Rightarrow> s | None \<Rightarrow> length items - start);
          page = take page_size (drop start items)
      in (start, length page, length items, page))"

section \<open>The decision to execute\<close>

definition key_query :: "string \<Rightarrow> string option \<Rightarrow> dmn_decision_query" where
  "key_query key tenant = new_decision_query\<lparr>decision_query_key := Some key, decision_query_tenant := tenant\<rparr>"

definition parent_scoped_decision :: "dmn_lib \<Rightarrow> dmn_store \<Rightarrow> string \<Rightarrow> string option \<Rightarrow> string \<Rightarrow> dmn_decision_definition option" where
  "parent_scoped_decision lib store key tenant parent_id =
     (let ids = map deployment_id (deployment_query_list lib store (new_deployment_query\<lparr>deployment_query_parent := Some parent_id\<rparr>))
      in if ids = [] then None
         else List.find (\<lambda>d. definition_deployment_id d \<in> set ids) (decision_query_list store (key_query key tenant)))"

definition tenant_requested :: "string option \<Rightarrow> bool" where
  "tenant_requested tenant = (case tenant of None \<Rightarrow> False | Some t \<Rightarrow> t \<noteq> [])"

definition latest_decision_by_key_with_fallback :: "dmn_lib \<Rightarrow> dmn_store \<Rightarrow> string \<Rightarrow> string option \<Rightarrow> string option \<Rightarrow> bool
    \<Rightarrow> dmn_error + dmn_decision_definition" where
  "latest_decision_by_key_with_fallback lib store key tenant parent fallback =
     (case Option.bind parent (parent_scoped_decision lib store key tenant) of
        Some matched \<Rightarrow> Inr matched
      | None \<Rightarrow>
          (case decision_single_result store (key_query key tenant) of
             Some found \<Rightarrow> Inr found
           | None \<Rightarrow>
               if fallback \<and> tenant_requested tenant then
                 ok_or (DmnNotFound (''DMN decision '' @ in_quotes key
                          @ '' was not found. There was also no fall back decision found without tenant''))
                   (decision_single_result store (key_query key None))
               else Inl (DmnNotFound (''DMN decision '' @ in_quotes key @ '' was not found''))))"

definition latest_decision_by_key :: "dmn_lib \<Rightarrow> dmn_store \<Rightarrow> string \<Rightarrow> string option \<Rightarrow> string option \<Rightarrow> dmn_error + dmn_decision_definition" where
  "latest_decision_by_key lib store key tenant parent = latest_decision_by_key_with_fallback lib store key tenant parent False"

text \<open>The diagrams of the latest deployments first, \<open>ORDER BY DEPLOYED_AT_ DESC, ID_ DESC\<close>.\<close>

fun find_service :: "string \<Rightarrow> string option \<Rightarrow> string option \<Rightarrow> (dmn_deployment_entity \<times> dmn_drd_entity) list
    \<Rightarrow> (decision_service \<times> dmn_deployment) option" where
  "find_service key tenant parent [] = None"
| "find_service key tenant parent ((e, drd) # rows) =
     (let deployment = deployment_entity_data e in
      if (case tenant of None \<Rightarrow> False | Some t \<Rightarrow> deployment_tenant deployment \<noteq> Some t) then find_service key tenant parent rows
      else if (case parent of None \<Rightarrow> False | Some p \<Rightarrow> deployment_parent deployment \<noteq> Some p) then find_service key tenant parent rows
      else case List.find (\<lambda>s. service_id s = key \<or> service_name s = key) (decision_services (drd_entity_data drd)) of
             Some service \<Rightarrow> Some (service, deployment)
           | None \<Rightarrow> find_service key tenant parent rows)"

definition find_decision_service_by_key_filtered :: "dmn_store \<Rightarrow> string \<Rightarrow> string option \<Rightarrow> string option
    \<Rightarrow> (decision_service \<times> dmn_deployment) option" where
  "find_decision_service_by_key_filtered store key tenant parent =
     find_service key tenant parent (order_rows (\<lambda>a b. deployment_row_less (fst b) (fst a)) (drd_join store))"

definition latest_decision_service_by_key :: "dmn_store \<Rightarrow> string \<Rightarrow> string option \<Rightarrow> string option \<Rightarrow> bool
    \<Rightarrow> (decision_service \<times> dmn_deployment) option" where
  "latest_decision_service_by_key store key tenant parent fallback =
     (case Option.bind parent (\<lambda>p. find_decision_service_by_key_filtered store key tenant (Some p)) of
        Some found \<Rightarrow> Some found
      | None \<Rightarrow>
          (case find_decision_service_by_key_filtered store key tenant None of
             Some found \<Rightarrow> Some found
           | None \<Rightarrow> if fallback \<and> tenant_requested tenant then find_decision_service_by_key_filtered store key None None else None))"

end
