(* ===== verification/Dmn_Typing.thy ===== *)
theory Dmn_Typing
  imports Dmn_Validation
begin

text \<open>
  What validation guarantees of a deployment: the shape of every decision table, and that the static output values
  of a typed column are values the runtime coercion accepts.
\<close>

section \<open>Shape of the decision tables\<close>

definition table_shape_ok :: "dmn_decision \<Rightarrow> bool" where
  "table_shape_ok d \<longleftrightarrow>
     decision_outputs d \<noteq> [] \<and> decision_rules d \<noteq> [] \<and> distinct (map output_name (decision_outputs d))
     \<and> (\<forall>rule \<in> set (decision_rules d).
          length (input_entries rule) = length (decision_inputs d) \<and> length (output_entries rule) = length (decision_outputs d))
     \<and> (decision_collect_operator d \<noteq> None \<longrightarrow> decision_hit_policy d = HitCollect \<and> length (decision_outputs d) = 1)
     \<and> (decision_hit_policy d \<in> {HitOutputOrder, HitPriority} \<longrightarrow> length (decision_outputs d) = 1)"

lemma first_error_all: "first_error f xs = Inr () \<Longrightarrow> x \<in> set xs \<Longrightarrow> f x = Inr ()"
  by (induction xs) auto

lemma validate_output_names_distinct:
  "validate_output_names key seen cs = Inr () \<Longrightarrow> distinct (map output_name cs) \<and> output_name ` set cs \<inter> set seen = {}"
proof (induction cs arbitrary: seen)
  case (Cons c cs)
  then have "output_name c \<notin> set seen" "validate_output_names key (output_name c # seen) cs = Inr ()" by (auto split: if_splits)
  with Cons.IH show ?case by fastforce
qed simp

lemma validate_rule_shape:
  "validate_rule lib d rule = Inr () \<Longrightarrow>
     length (input_entries rule) = length (decision_inputs d) \<and> length (output_entries rule) = length (decision_outputs d)"
  by (simp add: validate_rule_def split: if_splits)

lemma validate_collect_shape:
  "validate_collect_operator_structure d = Inr () \<Longrightarrow> decision_collect_operator d \<noteq> None \<Longrightarrow>
     decision_hit_policy d = HitCollect \<and> length (decision_outputs d) = 1"
  by (auto simp: validate_collect_operator_structure_def split: if_splits list.splits)

lemma validate_decision_shape:
  assumes "validate_decision lib d resource = Inr ()"
  shows "table_shape_ok d"
proof -
  from assms have collect: "validate_collect_operator_structure d = Inr ()" and "decision_outputs d \<noteq> []" "decision_rules d \<noteq> []"
    and names: "validate_output_names (dmn_decision_key d) [] (decision_outputs d) = Inr ()"
    and rules: "first_error (validate_rule lib d) (decision_rules d) = Inr ()"
    and priority: "validate_output_priority_policy d = Inr ()"
    by (auto simp: validate_decision_def Let_def validate_collect_operator_def split: if_splits)
  moreover have "decision_hit_policy d \<in> {HitOutputOrder, HitPriority} \<longrightarrow> length (decision_outputs d) = 1"
    using priority by (auto simp: validate_output_priority_policy_def split: if_splits)
  ultimately show ?thesis
    unfolding table_shape_ok_def
    using validate_output_names_distinct [OF names] first_error_all [OF rules] validate_rule_shape validate_collect_shape [OF collect]
    by blast
qed

lemma validate_decisions_all:
  "validate_decisions lib resource seen ds = Inr seen' \<Longrightarrow> d \<in> set ds \<Longrightarrow> validate_decision lib d resource = Inr ()"
  by (induction ds arbitrary: seen) (auto split: if_splits)

lemma validate_resources_all:
  "validate_resources lib seen rs = Inr () \<Longrightarrow> r \<in> set rs \<Longrightarrow> d \<in> set (model_decisions (resource_model r)) \<Longrightarrow>
     validate_decision lib d (resource_name r) = Inr ()"
  by (induction rs arbitrary: seen) (auto split: if_splits dest: validate_decisions_all)

text \<open>
  An accepted deployment has well-shaped tables. Every decision of the normalised request has an output and a rule,
  distinct output names, and in every rule one entry per input and per output clause; an aggregation occurs with
  \<open>COLLECT\<close> and a single output only, and a ranking policy with a single output only.
\<close>

theorem accepted_tables_have_shape:
  assumes "validate_and_normalize_deployment_request lib request = Inr request'" "d \<in> set (request_decisions request')"
  shows "table_shape_ok d"
proof -
  from assms(1) have "validate_resources lib [] (resources request') = Inr ()"
    by (auto simp: validate_and_normalize_deployment_request_def validate_deployment_request_def split: if_splits)
  with assms(2) show ?thesis by (auto dest!: validate_resources_all validate_decision_shape)
qed

section \<open>Example deployments\<close>

definition example_decision :: "string \<Rightarrow> string list \<Rightarrow> dmn_decision" where
  "example_decision key required = \<lparr>decision_id = key, dmn_decision_key = key, dmn_decision_name = key,
     decision_hit_policy = HitFirst, decision_collect_operator = None, decision_inputs = [], decision_outputs = [example_clause],
     decision_rules = [example_rule ''r'' ''high'' []], decision_required_decisions = required\<rparr>"

definition example_resource :: "string \<Rightarrow> dmn_decision list \<Rightarrow> decision_service list \<Rightarrow> dmn_deployment_resource" where
  "example_resource name ds services = \<lparr>resource_name = name,
     resource_model = \<lparr>model_id = ''m'', model_name = ''M'', model_decisions = ds, decision_services = services\<rparr>, resource_bytes = []\<rparr>"

definition example_request :: "string option \<Rightarrow> dmn_deployment_resource list \<Rightarrow> dmn_deployment_request" where
  "example_request tenant rs = \<lparr>deployment_request_name = ''n'', deployment_request_category = None,
     deployment_request_parent = None, deployment_request_tenant = tenant, resources = rs\<rparr>"

definition grade_request :: "string option \<Rightarrow> dmn_deployment_request" where
  "grade_request tenant = example_request tenant [example_resource ''a.dmn'' [example_decision ''grade'' []] []]"

lemma grade_request_valid: "validate_and_normalize_deployment_request example_lib (grade_request tenant) = Inr (grade_request tenant)"
  by code_simp

theorem accepted_tables_have_shape_witness: "table_shape_ok (example_decision ''grade'' [])"
  using accepted_tables_have_shape [OF grade_request_valid, of "example_decision ''grade'' []" None]
  by (simp add: grade_request_def example_request_def example_resource_def)

section \<open>Static outputs\<close>

definition typed_at :: "dmn_lib \<Rightarrow> string \<Rightarrow> dmn_output_clause \<Rightarrow> nat \<Rightarrow> dmn_rule \<Rightarrow> bool" where
  "typed_at lib key clause i rule \<longleftrightarrow>
     (\<forall>t. output_type_ref clause = Some t \<longrightarrow> i < length (output_entries rule) \<longrightarrow>
        deferred_output lib (output_entries rule ! i)
        \<or> (\<exists>v. coerce_deployment_output_value lib key (output_name clause) t v = Inr (output_value (output_entries rule ! i))))"

lemma collect_results_in: "collect_results f xs = Inr ys \<Longrightarrow> y \<in> set ys \<Longrightarrow> \<exists>x \<in> set xs. f x = Inr y"
  by (induction xs arbitrary: ys) auto

lemma normalize_rule_output_typed:
  assumes "normalize_rule_output lib key (output_name clause) t i rule = Inr rule'" "output_type_ref clause = Some t"
  shows "typed_at lib key clause i rule'" "j \<noteq> i \<Longrightarrow> typed_at lib key' c j rule \<Longrightarrow> typed_at lib key' c j rule'"
proof -
  from assms have "rule' = rule \<and> (i < length (output_entries rule) \<longrightarrow> deferred_output lib (output_entries rule ! i))
    \<or> (\<exists>v. rule' = rule\<lparr>output_entries := (output_entries rule)[i := (output_entries rule ! i)\<lparr>output_value := v\<rparr>]\<rparr>
         \<and> coerce_deployment_output_value lib key (output_name clause) t (output_value (output_entries rule ! i)) = Inr v)"
    by (auto simp: normalize_rule_output_def Let_def split: if_splits)
  then show "typed_at lib key clause i rule'" "j \<noteq> i \<Longrightarrow> typed_at lib key' c j rule \<Longrightarrow> typed_at lib key' c j rule'"
    using assms(2) by (auto simp: typed_at_def)
qed

lemma normalize_outputs_loop_keeps:
  "normalize_outputs_loop lib key i cs rs = Inr (cs', rs') \<Longrightarrow> j < i \<Longrightarrow> (\<And>rule. rule \<in> set rs \<Longrightarrow> typed_at lib key' c j rule) \<Longrightarrow>
     rule \<in> set rs' \<Longrightarrow> typed_at lib key' c j rule"
proof (induction lib key i cs rs arbitrary: cs' rs' rule rule: normalize_outputs_loop.induct)
  case (2 lib key i clause clauses rs)
  show ?case
  proof (cases "output_type_ref clause")
    case None
    with 2 show ?thesis by fastforce
  next
    case (Some t)
    with "2.prems"(1) obtain rs1 vs cs1
      where vs: "collect_results (coerce_deployment_output_value lib key (output_name clause) t) (output_values clause) = Inr vs"
        and rs1: "collect_results (normalize_rule_output lib key (output_name clause) t i) rs = Inr rs1"
        and rest: "normalize_outputs_loop lib key (Suc i) clauses rs1 = Inr (cs1, rs')"
      by auto
    have "typed_at lib key' c j r" if "r \<in> set rs1" for r
      using collect_results_in [OF rs1 that] normalize_rule_output_typed(2) [OF _ Some] "2.prems"(2,3) less_imp_neq by blast
    then show ?thesis using "2.IH"(2) [OF Some vs rs1 rest _ _ "2.prems"(4)] "2.prems"(2) by simp
  qed
qed simp

lemma normalize_outputs_loop_typed:
  "normalize_outputs_loop lib key i cs rs = Inr (cs', rs') \<Longrightarrow> k < length cs' \<Longrightarrow> rule \<in> set rs' \<Longrightarrow> typed_at lib key (cs' ! k) (i + k) rule"
proof (induction lib key i cs rs arbitrary: cs' rs' k rule rule: normalize_outputs_loop.induct)
  case (2 lib key i clause clauses rs)
  show ?case
  proof (cases "output_type_ref clause")
    case None
    with "2.prems"(1) obtain cs1 where "cs' = clause # cs1" "normalize_outputs_loop lib key (Suc i) clauses rs = Inr (cs1, rs')"
      by auto
    with "2.IH"(1) [OF None] "2.prems"(2,3) None show ?thesis by (cases k) (auto simp: typed_at_def)
  next
    case (Some t)
    with "2.prems"(1) obtain rs1 vs cs1
      where vs: "collect_results (coerce_deployment_output_value lib key (output_name clause) t) (output_values clause) = Inr vs"
        and rs1: "collect_results (normalize_rule_output lib key (output_name clause) t i) rs = Inr rs1"
        and rest: "normalize_outputs_loop lib key (Suc i) clauses rs1 = Inr (cs1, rs')" and cs': "cs' = clause\<lparr>output_values := vs\<rparr> # cs1"
      by auto
    have "typed_at lib key clause i r" if "r \<in> set rs1" for r
      using collect_results_in [OF rs1 that] normalize_rule_output_typed(1) [OF _ Some] by blast
    then have "typed_at lib key clause i rule" using normalize_outputs_loop_keeps [OF rest _ _ "2.prems"(3)] by simp
    then show ?thesis using "2.IH"(2) [OF Some vs rs1 rest] "2.prems"(2,3) by (cases k) (auto simp: cs' typed_at_def)
  qed
qed simp

lemma json_of_i64_number:
  assumes "I64_MIN \<le> i" "i \<le> I64_MAX"
  shows "is_number (json_of_i64 i)" "number_to_i64 (json_of_i64 i) = Some i"
proof -
  have "sint (word_of_int i :: 64 word) = i"
    using assms sint_sbintrunc' [where 'a = 64, of i] by (simp add: I64_MIN_def I64_MAX_def signed_take_bit_int_eq_self)
  moreover have "\<not> i < 0 \<Longrightarrow> uint (word_of_int i :: 64 word) = i"
    using assms by (simp add: uint_word_of_int I64_MAX_def)
  ultimately show "is_number (json_of_i64 i)" "number_to_i64 (json_of_i64 i) = Some i"
    using assms by (auto simp: json_of_i64_def number_to_i64_def I64_MAX_def)
qed

lemma numeric_value_of_number: "numeric_value_of lib v = Some w \<Longrightarrow> is_number w"
  by (auto simp: numeric_value_of_def Let_def bind_eq_Some_conv split: if_splits option.splits)

lemma is_number_as_f64: "is_number w \<Longrightarrow> as_f64 w \<noteq> None"
  by (cases w rule: as_f64.cases) auto

lemma integer_output_accepted:
  assumes "coerce_deployment_integer_output lib key name t v mn mx = Inr w" "I64_MIN \<le> mn" "mx \<le> I64_MAX"
  shows "coerce_runtime_integer_output lib def clause w mn mx = Inr w"
proof -
  from assms(1) obtain i where i: "w = json_of_i64 i" "mn \<le> i" "i \<le> mx"
    by (auto simp: coerce_deployment_integer_output_def split: option.splits if_splits)
  with assms(2,3) json_of_i64_number [of i] show ?thesis
    by (auto simp: coerce_runtime_integer_output_def numeric_value_of_def)
qed

lemma deployed_value_accepted:
  assumes dep: "coerce_deployment_output_value lib key name t v = Inr w" and t: "temporal_type_ref t = None"
    and clause: "output_type_ref clause = Some t"
  shows "\<exists>u. coerce_runtime_output_value lib def clause w = Inr u"
proof (cases "v = JsonNull")
  case True
  with dep have "w = JsonNull" by (simp add: coerce_deployment_output_value_def Let_def)
  then show ?thesis by (simp add: coerce_runtime_output_value_def Let_def clause)
next
  case False
  let ?t = "normalized_type_ref t"
  have not_temporal: "\<not> is_temporal_type_name ?t" using t by (auto simp: temporal_type_ref_def is_temporal_type_name_def split: if_splits)
  have i32: "I64_MIN \<le> I32_MIN" "I32_MAX \<le> I64_MAX" by (simp_all add: I64_MIN_def I32_MIN_def I64_MAX_def I32_MAX_def)
  consider "?t = ''string''" | "?t = ''boolean''" | "?t = ''integer''" | "?t = ''long''" | "?t = ''double'' \<or> ?t = ''number''"
    | "?t = ''context''" | "?t = ''list''"
    using dep False not_temporal by (auto simp: coerce_deployment_output_value_def Let_def split: if_splits)
  then show ?thesis
  proof cases
    case 3
    with dep False have "coerce_deployment_integer_output lib key name t v I32_MIN I32_MAX = Inr w"
      by (simp add: coerce_deployment_output_value_def Let_def)
    from integer_output_accepted [OF this i32, of def clause] 3 show ?thesis by (auto simp: coerce_runtime_output_value_def Let_def clause)
  next
    case 4
    with dep False have "coerce_deployment_integer_output lib key name t v I64_MIN I64_MAX = Inr w"
      by (simp add: coerce_deployment_output_value_def Let_def)
    from integer_output_accepted [OF this, of def clause] 4 show ?thesis by (auto simp: coerce_runtime_output_value_def Let_def clause)
  next
    case 5
    with dep False have "numeric_value_of lib v = Some w"
      by (auto simp: coerce_deployment_output_value_def Let_def split: option.splits elim!: ok_or.elims)
    then have "is_number w" by (rule numeric_value_of_number)
    with is_number_as_f64 [OF this] 5 show ?thesis
      by (auto simp: coerce_runtime_output_value_def Let_def clause numeric_value_of_def)
  qed (use dep False not_temporal in \<open>auto simp: coerce_deployment_output_value_def coerce_runtime_output_value_def Let_def clause elim!: ok_or.elims\<close>)
qed

lemma each_decision_in:
  assumes "each_decision f request = Inr request'" "d \<in> set (request_decisions request')"
  shows "\<exists>d0. f d0 = Inr d"
proof -
  from assms(1) obtain rs where rs: "resources request' = rs"
    "collect_results (\<lambda>resource. rbind (collect_results f (model_decisions (resource_model resource))) (\<lambda>ds.
       Inr (resource\<lparr>resource_model := (resource_model resource)\<lparr>model_decisions := ds\<rparr>\<rparr>))) (resources request) = Inr rs"
    by (auto simp: each_decision_def)
  from assms(2) rs(1) obtain r where r: "r \<in> set rs" "d \<in> set (model_decisions (resource_model r))" by auto
  from collect_results_in [OF rs(2) r(1)] r(2) obtain r0 :: dmn_deployment_resource and ds
    where "collect_results f (model_decisions (resource_model r0)) = Inr ds" "d \<in> set ds"
    by fastforce
  then show ?thesis by (auto dest: collect_results_in)
qed

lemma static_value_accepted:
  assumes valid: "validate_and_normalize_deployment_request lib request = Inr request'" and d: "d \<in> set (request_decisions request')"
    and rule: "rule \<in> set (decision_rules d)" and i: "i < length (decision_outputs d)"
    and type_ref: "output_type_ref (decision_outputs d ! i) = Some t" "temporal_type_ref t = None"
    and static: "\<not> deferred_output lib (output_entries rule ! i)"
  shows "\<exists>v. coerce_runtime_output_value lib def (decision_outputs d ! i) (output_value (output_entries rule ! i)) = Inr v"
proof -
  from valid obtain request1 where "each_decision (normalize_decision_outputs lib) request1 = Inr request'"
    and shape: "validate_resources lib [] (resources request') = Inr ()"
    by (auto simp: validate_and_normalize_deployment_request_def normalize_output_type_refs_def validate_deployment_request_def split: if_splits)
  from each_decision_in [OF this(1) d] obtain d0 where "normalize_decision_outputs lib d0 = Inr d" ..
  then have "normalize_outputs_loop lib (dmn_decision_key d) 0 (decision_outputs d0) (decision_rules d0) = Inr (decision_outputs d, decision_rules d)"
    by (auto simp: normalize_decision_outputs_def)
  from normalize_outputs_loop_typed [OF this i rule] have "typed_at lib (dmn_decision_key d) (decision_outputs d ! i) i rule" by simp
  moreover have "table_shape_ok d"
    using shape d by (auto dest!: validate_resources_all validate_decision_shape)
  then have "i < length (output_entries rule)" using i rule by (simp add: table_shape_ok_def)
  ultimately obtain v where "coerce_deployment_output_value lib (dmn_decision_key d) (output_name (decision_outputs d ! i)) t v
      = Inr (output_value (output_entries rule ! i))"
    using type_ref(1) static by (auto simp: typed_at_def)
  then show ?thesis by (rule deployed_value_accepted [OF _ type_ref(2,1)])
qed

text \<open>
  C19. Deploy-time typing makes run-time typing succeed where the stored value is what the runtime coerces. In an accepted
  deployment, take a static output entry of a column with a declared, non-temporal type. If its expression is blank or
  a dash, or evaluates to the stored value, then the evaluation of the entry at run time succeeds, in every scope
  and for whatever definition the decision becomes.
\<close>

theorem static_outputs_never_fail_their_type:
  assumes "validate_and_normalize_deployment_request lib request = Inr request'" "d \<in> set (request_decisions request')"
    and "rule \<in> set (decision_rules d)" "i < length (decision_outputs d)"
    and "output_type_ref (decision_outputs d ! i) = Some t" "temporal_type_ref t = None"
    and "\<not> deferred_output lib (output_entries rule ! i)"
    and raw: "raw = str_trim (output_expression (output_entries rule ! i))"
      "raw = [] \<or> raw = ''-'' \<or> engine_evaluate lib (strip_expression_shells raw) scope = Inr (output_value (output_entries rule ! i))"
  shows "\<exists>r. evaluate_single_output_entry lib def (decision_outputs d ! i) (output_entries rule ! i) scope = Inr r"
proof -
  obtain v where "coerce_runtime_output_value lib def (decision_outputs d ! i) (output_value (output_entries rule ! i)) = Inr v"
    using static_value_accepted [OF assms(1-7)] by blast
  with raw show ?thesis by (auto simp: evaluate_single_output_entry_def Let_def)
qed

definition typed_decision :: dmn_decision where
  "typed_decision = (example_decision ''typed'' [])\<lparr>decision_outputs := [example_clause\<lparr>output_type_ref := Some ''integer'', output_values := []\<rparr>],
     decision_rules := [(example_rule ''r'' ''high'' [])\<lparr>output_entries :=
       [\<lparr>output_entry_id = None, output_value = JsonNumber (PosInt 7), output_expression = ''7''\<rparr>]\<rparr>]\<rparr>"

text \<open>The example parameters with a JSON reader that knows two numbers.\<close>

definition number_lib :: dmn_lib where
  "number_lib = example_lib\<lparr>parse_json := (\<lambda>s. if s = ''-5'' then Some (JsonNumber (NegInt (- 5)))
     else if s = ''7'' then Some (JsonNumber (PosInt 7)) else None)\<rparr>"

theorem static_outputs_never_fail_their_type_witness:
  "\<exists>r. evaluate_single_output_entry number_lib (graded_table HitFirst) (decision_outputs typed_decision ! 0)
     (output_entries (hd (decision_rules typed_decision)) ! 0) Map.empty = Inr r"
proof -
  let ?request = "example_request None [example_resource ''a.dmn'' [typed_decision] []]"
  have "validate_and_normalize_deployment_request number_lib ?request = Inr ?request" by code_simp
  moreover have "engine_evaluate number_lib (strip_expression_shells ''7'') Map.empty = Inr (JsonNumber (PosInt 7))" by code_simp
  moreover have "\<not> deferred_output number_lib (output_entries (hd (decision_rules typed_decision)) ! 0)" by code_simp
  moreover have "typed_decision \<in> set (request_decisions ?request)" "hd (decision_rules typed_decision) \<in> set (decision_rules typed_decision)"
    "0 < length (decision_outputs typed_decision)" "output_type_ref (decision_outputs typed_decision ! 0) = Some ''integer''"
    "temporal_type_ref ''integer'' = None" "''7'' = str_trim (output_expression (output_entries (hd (decision_rules typed_decision)) ! 0))"
    "output_value (output_entries (hd (decision_rules typed_decision)) ! 0) = JsonNumber (PosInt 7)"
    by (simp_all add: example_request_def example_resource_def typed_decision_def example_decision_def temporal_type_ref_def normalized_type_ref_def
        str_trim_def is_whitespace_def to_ascii_lowercase_def to_ascii_lower_def)
  ultimately show ?thesis using static_outputs_never_fail_their_type [of number_lib ?request ?request typed_decision] by metis
qed

definition minus_five :: dmn_rule_output_entry where
  "minus_five = \<lparr>output_entry_id = None, output_value = JsonNumber (NegInt (- 5)), output_expression = ''-5''\<rparr>"

lemma feel_minus_five: "feel_evaluate ops ''-5'' scope = Some (Inr (JsonNumber (JsonFloat 13840687554816376832)))"
  by code_simp

lemma minus_five_texts:
  "str_trim ''-5'' = ''-5''" "strip_expression_shells ''-5'' = ''-5''"
  by code_simp+

lemma minus_five_deployed: "coerce_deployment_output_value lib key name ''integer'' (JsonNumber (NegInt (- 5))) = Inr (JsonNumber (NegInt (- 5)))"
  by code_simp

lemma minus_five_refused:
  assumes "output_type_ref clause = Some ''integer''"
  shows "coerce_runtime_output_value lib def clause (JsonNumber (JsonFloat 13840687554816376832))
    = Inl (incompatible_output_type_ref_error lib def clause (JsonNumber (JsonFloat 13840687554816376832)))"
proof -
  have "normalized_type_ref ''integer'' = ''integer''"
    "Option.bind (numeric_value_of lib (JsonNumber (JsonFloat 13840687554816376832))) number_to_i64 = None" by code_simp+
  then show ?thesis using assms
    by (cases "numeric_value_of lib (JsonNumber (JsonFloat 13840687554816376832))")
       (simp_all add: coerce_runtime_output_value_def coerce_runtime_integer_output_def Let_def)
qed

text \<open>
  C20. Where the two differ: the literal \<open>-5\<close> in an integer column is static, so the deployment accepts it and stores the
  integer, but at run time its expression is a FEEL negation, which gives the float \<open>-5.0\<close>, and the evaluation of the
  entry fails its type in every scope.
\<close>

theorem negative_literal_fails_at_run_time:
  assumes "parse_json lib ''-5'' = Some (JsonNumber (NegInt (- 5)))" "output_type_ref clause = Some ''integer''"
  shows "\<not> deferred_output lib minus_five
    \<and> coerce_deployment_output_value lib key name ''integer'' (output_value minus_five) = Inr (output_value minus_five)
    \<and> (\<exists>err. evaluate_single_output_entry lib def clause minus_five scope = Inl err)"
proof (intro conjI)
  show "\<not> deferred_output lib minus_five"
    using assms(1) by (simp add: deferred_output_def minus_five_def minus_five_texts is_static_output_literal_def Let_def)
  show "coerce_deployment_output_value lib key name ''integer'' (output_value minus_five) = Inr (output_value minus_five)"
    by (simp add: minus_five_def minus_five_deployed)
  have "engine_evaluate lib ''-5'' scope = Inr (JsonNumber (JsonFloat 13840687554816376832))"
    by (simp add: engine_evaluate_def Let_def minus_five_texts feel_minus_five)
  then show "\<exists>err. evaluate_single_output_entry lib def clause minus_five scope = Inl err"
    by (simp add: evaluate_single_output_entry_def minus_five_def minus_five_texts minus_five_refused [OF assms(2)])
qed

theorem negative_literal_fails_at_run_time_witness:
  "\<exists>err. evaluate_single_output_entry number_lib (graded_table HitFirst) (example_clause\<lparr>output_type_ref := Some ''integer''\<rparr>) minus_five
     Map.empty = Inl err"
  using negative_literal_fails_at_run_time [of number_lib "example_clause\<lparr>output_type_ref := Some ''integer''\<rparr>"] by (simp add: number_lib_def)

end
