(* ===== verification/Dmn_Store.thy ===== *)
theory Dmn_Store
  imports Dmn_Repository Dmn_Typing
begin

text \<open>
  Laws of the DMN repository: what \<open>ORDER BY\<close> gives the queries (the locale \<open>row_order\<close>, interpreted on the three
  orders the queries use), the invariant of the store under deployments and deletions, what a deployment can be
  found by, and what its deletion restores.
\<close>

section \<open>Orders of rows\<close>

lemma string_less_irrefl [simp]: "\<not> string_less s s"
  by (induction s) auto

lemma string_less_asym: "string_less s t \<Longrightarrow> \<not> string_less t s"
  by (induction s t rule: string_less.induct) auto

lemma string_less_total: "s = t \<or> string_less s t \<or> string_less t s"
proof (induction s t rule: string_less.induct)
  case (4 c s d t)
  have "of_char c = (of_char d :: nat) \<Longrightarrow> c = d" by (simp add: of_char_eq_iff)
  then show ?case using 4 by (cases "c = d") (auto simp: not_less_iff_gr_or_eq)
qed auto

lemma string_less_trans: "string_less s t \<Longrightarrow> string_less t u \<Longrightarrow> string_less s u"
proof (induction s t arbitrary: u rule: string_less.induct)
  case (2 d t)
  then show ?case by (cases u) auto
next
  case (4 c s d t)
  then show ?case by (cases u) auto
qed auto

lemma string_less_split: "string_less s u \<Longrightarrow> string_less s t \<or> string_less t u"
  using string_less_total [of s t] string_less_trans [of t s u] by auto

lemma insert_ordered_members [simp]: "set (insert_ordered before row rows) = insert row (set rows)"
  by (induction rows) auto

lemma order_rows_members [simp]: "set (order_rows before rows) = set rows"
  by (induction rows) (auto simp: order_rows_def)

text \<open>A strict weak order, which is what an \<open>ORDER BY\<close> over columns gives.\<close>

locale row_order =
  fixes before :: "'r \<Rightarrow> 'r \<Rightarrow> bool"
  assumes asym: "before a b \<Longrightarrow> \<not> before b a"
    and split: "before a c \<Longrightarrow> before a b \<or> before b c"
begin

lemma insert_ordered_sorted:
  "sorted_wrt (\<lambda>a b. \<not> before b a) rows \<Longrightarrow> sorted_wrt (\<lambda>a b. \<not> before b a) (insert_ordered before row rows)"
  by (induction rows) (auto dest: asym split)

lemma order_rows_sorted: "sorted_wrt (\<lambda>a b. \<not> before b a) (order_rows before rows)"
  by (induction rows) (auto simp: order_rows_def insert_ordered_sorted)

text \<open>The first row that satisfies a condition is a least one.\<close>

lemma first_is_least:
  assumes "filter P (order_rows before rows) = row # others"
  shows "row \<in> set rows" "P row" "\<And>r. r \<in> set rows \<Longrightarrow> P r \<Longrightarrow> \<not> before r row"
proof -
  have "sorted_wrt (\<lambda>a b. \<not> before b a) (row # others)"
    using sorted_wrt_filter [OF order_rows_sorted, of P rows] assms by simp
  moreover have all: "set (row # others) = {r \<in> set rows. P r}"
    by (simp flip: assms)
  ultimately have "r \<in> {r \<in> set rows. P r} \<Longrightarrow> \<not> before r row" for r
    unfolding all [symmetric] by (auto dest: asym)
  with all show "row \<in> set rows" "P row" "\<And>r. r \<in> set rows \<Longrightarrow> P r \<Longrightarrow> \<not> before r row" by auto
qed

lemma some_first: "r \<in> set rows \<Longrightarrow> P r \<Longrightarrow> filter P (order_rows before rows) \<noteq> []"
  by (auto simp: filter_empty_conv)

end

lemma lexicographic_split:
  assumes "prec a c \<or> a = c \<and> m" "\<And>x y. x = y \<or> prec x y \<or> prec y x" "\<And>x y z. prec x y \<Longrightarrow> prec y z \<Longrightarrow> prec x z"
    and "m \<Longrightarrow> m1 \<or> m2"
  shows "(prec a b \<or> a = b \<and> m1) \<or> (prec b c \<or> b = c \<and> m2)"
  using assms by metis

lemma string_column_split:
  assumes "string_less a c \<or> a = c \<and> m" "m \<Longrightarrow> m1 \<or> m2"
  shows "(string_less a b \<or> a = b \<and> m1) \<or> (string_less b c \<or> b = c \<and> m2)"
  using assms(1) string_less_total string_less_trans assms(2) by (rule lexicographic_split)

lemma version_column_split:
  assumes "sint c < sint a \<or> a = c \<and> m" "m \<Longrightarrow> m1 \<or> m2"
  shows "(sint b < sint a \<or> a = b \<and> m1) \<or> (sint c < sint (b :: 32 word) \<or> b = c \<and> m2)"
proof (rule lexicographic_split [where prec = "\<lambda>x y. sint y < sint x", OF assms(1) _ _ assms(2)])
  show "x = y \<or> sint y < sint x \<or> sint x < sint y" for x y :: "32 word"
    by (cases "sint x = sint y") (auto intro: signed_word_eqI)
qed auto

lemma decision_row_less_split: "decision_row_less a c \<Longrightarrow> decision_row_less a b \<or> decision_row_less b c"
  unfolding decision_row_less_def
  by (erule string_column_split, erule version_column_split, erule string_less_split)

lemma deployment_row_less_split: "deployment_row_less a c \<Longrightarrow> deployment_row_less a b \<or> deployment_row_less b c"
  unfolding deployment_row_less_def by (erule string_column_split, erule string_less_split)

interpretation by_version: row_order decision_row_less
proof
  show "decision_row_less a b \<Longrightarrow> \<not> decision_row_less b a" for a b
    by (auto simp: decision_row_less_def dest: string_less_asym)
qed (rule decision_row_less_split)

interpretation by_deployment: row_order "\<lambda>a b. deployment_row_less (fst b) (fst (a :: dmn_deployment_entity \<times> dmn_drd_entity))"
proof
  fix a b c :: "dmn_deployment_entity \<times> dmn_drd_entity"
  show "deployment_row_less (fst b) (fst a) \<Longrightarrow> \<not> deployment_row_less (fst a) (fst b)"
    by (auto simp: deployment_row_less_def dest: string_less_asym)
  show "deployment_row_less (fst c) (fst a) \<Longrightarrow> deployment_row_less (fst b) (fst a) \<or> deployment_row_less (fst c) (fst b)"
    using deployment_row_less_split by blast
qed

section \<open>What a deployment adds\<close>

definition deployed_definition :: "string \<Rightarrow> dmn_deployment_request \<Rightarrow> dmn_store \<Rightarrow> string \<Rightarrow> dmn_decision \<Rightarrow> dmn_decision_definition" where
  "deployed_definition deployment request store resource d =
     new_definition deployment request resource (next_version (dmn_decision_key d) (deployment_request_tenant request) store) d"

definition deployed_definitions :: "string \<Rightarrow> dmn_deployment_request \<Rightarrow> dmn_store \<Rightarrow> dmn_deployment_resource list
    \<Rightarrow> dmn_decision_definition list" where
  "deployed_definitions deployment request store rs =
     concat (map (\<lambda>r. map (deployed_definition deployment request store (resource_name r)) (resource_decisions r)) rs)"

definition drd_of :: "string \<Rightarrow> dmn_deployment_resource \<Rightarrow> dmn_drd_entity" where
  "drd_of deployment r =
     \<lparr>drd_entity_id = deployment, drd_entity_name = model_name (resource_model r), drd_entity_deployment_id = deployment,
      drd_entity_resource_name = resource_name r, drd_entity_data = (resource_model r)\<lparr>model_id := deployment\<rparr>\<rparr>"

lemma insert_uniqueE:
  assumes "insert_unique lib table pk row rows = Inr rows'"
  obtains "rows' = rows @ [row]" "pk row \<notin> pk ` set rows"
  using assms by (auto simp: insert_unique_def split: if_splits)

lemma next_version_cong:
  "version_rows key tenant store = version_rows key tenant store' \<Longrightarrow> next_version key tenant store = next_version key tenant store'"
  by (simp add: next_version_def)

lemma version_rows_append:
  "version_rows key tenant (store\<lparr>decision_rows := decision_rows store @ rows\<rparr>)
     = version_rows key tenant store @ filter (\<lambda>r. decision_entity_key r = key \<and> decision_entity_tenant r = tenant) rows"
  by (simp add: version_rows_def)

lemma version_rows_resource_update [simp]:
  "version_rows key tenant (store\<lparr>resource_rows := a\<rparr>) = version_rows key tenant store"
  "version_rows key tenant (store\<lparr>drd_rows := b\<rparr>) = version_rows key tenant store"
  "version_rows key tenant (store\<lparr>deployment_rows := c\<rparr>) = version_rows key tenant store"
  by (simp_all add: version_rows_def)

lemma new_entity_simps [simp]:
  "decision_entity_key (new_decision_entity def) = definition_key def"
  "decision_entity_tenant (new_decision_entity def) = definition_tenant def"
  "decision_entity_version (new_decision_entity def) = definition_version def"
  "decision_entity_deployment_id (new_decision_entity def) = definition_deployment_id def"
  "decision_entity_id (new_decision_entity def) = definition_id def"
  "decision_entity_data (new_decision_entity def) = def"
  by (simp_all add: new_decision_entity_def)

lemma deployed_definition_simps [simp]:
  "definition_key (deployed_definition i request store resource d) = dmn_decision_key d"
  "definition_tenant (deployed_definition i request store resource d) = deployment_request_tenant request"
  "definition_deployment_id (deployed_definition i request store resource d) = i"
  "definition_version (deployed_definition i request store resource d)
     = next_version (dmn_decision_key d) (deployment_request_tenant request) store"
  by (simp_all add: deployed_definition_def new_definition_def)

text \<open>The keys of a deployment are distinct, so every version is counted from the store before the deployment.\<close>

lemma deploy_decisions_rows:
  assumes "deploy_decisions lib deployment request resource ds store = Inr store'"
    and "distinct (map dmn_decision_key ds)"
    and "\<And>d. d \<in> set ds \<Longrightarrow> version_rows (dmn_decision_key d) (deployment_request_tenant request) store
                              = version_rows (dmn_decision_key d) (deployment_request_tenant request) store0"
  shows "store' = store\<lparr>decision_rows := decision_rows store
                   @ map (\<lambda>d. new_decision_entity (deployed_definition deployment request store0 resource d)) ds\<rparr>"
  using assms
proof (induction ds arbitrary: store)
  case (Cons d ds)
  let ?row = "new_decision_entity (deployed_definition deployment request store0 resource d)"
  have version: "next_version (dmn_decision_key d) (deployment_request_tenant request) store
      = next_version (dmn_decision_key d) (deployment_request_tenant request) store0"
    by (rule next_version_cong) (simp add: Cons.prems(3))
  from Cons.prems(1) obtain rows
    where rows: "insert_unique lib ''ACT_DMN_DECISION'' decision_entity_id ?row (decision_rows store) = Inr rows"
      and rest: "deploy_decisions lib deployment request resource ds (store\<lparr>decision_rows := rows\<rparr>) = Inr store'"
    by (auto simp: Let_def version deployed_definition_def split: if_splits)
  from rows have rows: "rows = decision_rows store @ [?row]" by (rule insert_uniqueE)
  have "store' = store\<lparr>decision_rows := rows\<rparr>\<lparr>decision_rows := decision_rows (store\<lparr>decision_rows := rows\<rparr>)
          @ map (\<lambda>d. new_decision_entity (deployed_definition deployment request store0 resource d)) ds\<rparr>"
  proof (rule Cons.IH [OF rest])
    show "distinct (map dmn_decision_key ds)" using Cons.prems(2) by simp
    fix e assume e: "e \<in> set ds"
    then have "dmn_decision_key d \<noteq> dmn_decision_key e" using Cons.prems(2) by force
    then show "version_rows (dmn_decision_key e) (deployment_request_tenant request) (store\<lparr>decision_rows := rows\<rparr>)
        = version_rows (dmn_decision_key e) (deployment_request_tenant request) store0"
      using Cons.prems(3) [of e] e by (simp add: rows version_rows_append)
  qed
  then show ?case by (simp add: rows)
qed simp

lemma store_drd_Inr:
  assumes "store_drd lib deployment r store = Inr store'"
  shows "store' = store\<lparr>drd_rows := drd_rows store @ [drd_of deployment r]\<rparr>"
  using assms by (auto simp: store_drd_def drd_of_def Let_def elim!: insert_uniqueE)

lemma deploy_resources_rows:
  assumes "deploy_resources lib deployment created_at request stored rs store = Inr store'"
    and "distinct (map dmn_decision_key (concat (map resource_decisions rs)))"
    and "\<And>d. d \<in> set (concat (map resource_decisions rs)) \<Longrightarrow>
           version_rows (dmn_decision_key d) (deployment_request_tenant request) store
           = version_rows (dmn_decision_key d) (deployment_request_tenant request) store0"
  shows "store' = store\<lparr>
           resource_rows := resource_rows store
             @ map (\<lambda>r. new_resource_entity deployment (resource_name r) (resource_bytes r) created_at) rs,
           drd_rows := drd_rows store @ (if stored then [] else map (drd_of deployment) (take 1 rs)),
           decision_rows := decision_rows store @ map new_decision_entity (deployed_definitions deployment request store0 rs)\<rparr>"
  using assms
proof (induction rs arbitrary: stored store)
  case (Cons r rs)
  let ?t = "deployment_request_tenant request"
  let ?res = "new_resource_entity deployment (resource_name r) (resource_bytes r) created_at"
  let ?new = "\<lambda>ds. map (\<lambda>d. new_decision_entity (deployed_definition deployment request store0 (resource_name r) d)) ds"
  let ?store1 = "store\<lparr>resource_rows := resource_rows store @ [?res],
                   drd_rows := drd_rows store @ (if stored then [] else [drd_of deployment r])\<rparr>"
  from Cons.prems(1) obtain store2
    where ds: "deploy_decisions lib deployment request (resource_name r) (resource_decisions r) ?store1 = Inr store2"
      and rest: "deploy_resources lib deployment created_at request True rs store2 = Inr store'"
    by (cases stored) (auto dest!: store_drd_Inr elim!: insert_uniqueE)
  have store2: "store2 = ?store1\<lparr>decision_rows := decision_rows ?store1 @ ?new (resource_decisions r)\<rparr>"
    by (rule deploy_decisions_rows [OF ds]) (use Cons.prems(2,3) in \<open>auto simp: distinct_map\<close>)
  have "store' = store2\<lparr>
      resource_rows := resource_rows store2 @ map (\<lambda>r. new_resource_entity deployment (resource_name r) (resource_bytes r) created_at) rs,
      drd_rows := drd_rows store2 @ (if True then [] else map (drd_of deployment) (take 1 rs)),
      decision_rows := decision_rows store2 @ map new_decision_entity (deployed_definitions deployment request store0 rs)\<rparr>"
  proof (rule Cons.IH [OF rest])
    show "distinct (map dmn_decision_key (concat (map resource_decisions rs)))" using Cons.prems(2) by simp
    fix d assume d: "d \<in> set (concat (map resource_decisions rs))"
    have "dmn_decision_key e \<noteq> dmn_decision_key d" if "e \<in> set (resource_decisions r)" for e
      using Cons.prems(2) d that by (fastforce simp del: set_concat)
    moreover have "version_rows (dmn_decision_key d) ?t store2 = version_rows (dmn_decision_key d) ?t ?store1
        @ filter (\<lambda>r. decision_entity_key r = dmn_decision_key d \<and> decision_entity_tenant r = ?t) (?new (resource_decisions r))"
      unfolding store2 by (rule version_rows_append)
    ultimately show "version_rows (dmn_decision_key d) ?t store2 = version_rows (dmn_decision_key d) ?t store0"
      using Cons.prems(3) [of d] d by (simp add: filter_empty_conv del: set_concat)
  qed
  then show ?case by (simp add: store2 deployed_definitions_def o_def)
qed (simp add: deployed_definitions_def)

section \<open>Keys of a validated deployment\<close>

lemma validate_decisions_keys:
  "validate_decisions lib resource seen ds = Inr seen' \<Longrightarrow>
     distinct (map dmn_decision_key ds) \<and> set seen' = set seen \<union> dmn_decision_key ` set ds
     \<and> dmn_decision_key ` set ds \<inter> set seen = {}"
proof (induction ds arbitrary: seen)
  case (Cons d ds)
  then have "dmn_decision_key d \<notin> set seen" "validate_decisions lib resource (dmn_decision_key d # seen) ds = Inr seen'"
    by (auto split: if_splits)
  with Cons.IH show ?case by fastforce
qed simp

lemma validate_resources_keys:
  "validate_resources lib seen rs = Inr () \<Longrightarrow>
     distinct (map dmn_decision_key (concat (map resource_decisions rs)))
     \<and> dmn_decision_key ` set (concat (map resource_decisions rs)) \<inter> set seen = {}"
proof (induction rs arbitrary: seen)
  case (Cons r rs)
  then obtain seen' where *: "validate_decisions lib (resource_name r) seen (resource_decisions r) = Inr seen'"
    and rest: "validate_resources lib seen' rs = Inr ()"
    by (auto split: if_splits)
  from validate_decisions_keys [OF *] Cons.IH [OF rest] show ?case by (auto simp: disjoint_iff)
qed simp

lemma validated_keys_distinct:
  assumes "validate_and_normalize_deployment_request lib request = Inr request'"
  shows "distinct (map dmn_decision_key (request_decisions request'))"
proof -
  from assms have "validate_deployment_request lib request' = Inr ()"
    by (auto simp: validate_and_normalize_deployment_request_def)
  then have "validate_resources lib [] (resources request') = Inr ()"
    by (auto simp: validate_deployment_request_def split: if_splits)
  then show ?thesis by (rule validate_resources_keys [THEN conjunct1])
qed

section \<open>The store after a deployment\<close>

definition deployed_store :: "dmn_lib \<Rightarrow> dmn_deployment \<Rightarrow> dmn_deployment_request \<Rightarrow> dmn_store \<Rightarrow> dmn_store" where
  "deployed_store lib d request store = store\<lparr>
     deployment_rows := deployment_rows store @ [new_deployment_entity lib d],
     resource_rows := resource_rows store
       @ map (\<lambda>r. new_resource_entity (deployment_id d) (resource_name r) (resource_bytes r) (deployed_at d div 1000000)) (resources request),
     drd_rows := drd_rows store @ map (drd_of (deployment_id d)) (take 1 (resources request)),
     decision_rows := decision_rows store
       @ map new_decision_entity (deployed_definitions (deployment_id d) request store (resources request))\<rparr>"

lemma deployed_rows:
  "deployment_rows (deployed_store lib d request store) = deployment_rows store @ [new_deployment_entity lib d]"
  "resource_rows (deployed_store lib d request store) = resource_rows store
     @ map (\<lambda>r. new_resource_entity (deployment_id d) (resource_name r) (resource_bytes r) (deployed_at d div 1000000)) (resources request)"
  "drd_rows (deployed_store lib d request store) = drd_rows store @ map (drd_of (deployment_id d)) (take 1 (resources request))"
  "decision_rows (deployed_store lib d request store) = decision_rows store
     @ map new_decision_entity (deployed_definitions (deployment_id d) request store (resources request))"
  "history_rows (deployed_store lib d request store) = history_rows store"
  by (simp_all add: deployed_store_def)

lemma deployE:
  assumes "deploy lib uuid now request store = Inr (d, store')"
  obtains request' where "validate_and_normalize_deployment_request lib request = Inr request'"
    and "d = new_deployment uuid now request'" "deployment_id d \<notin> deployment_entity_id ` set (deployment_rows store)"
    and "store' = deployed_store lib d request' store"
proof -
  from assms obtain request' rows
    where valid: "validate_and_normalize_deployment_request lib request = Inr request'"
      and d: "d = new_deployment uuid now request'"
      and rows: "insert_unique lib ''ACT_DMN_DEPLOYMENT'' deployment_entity_id (new_deployment_entity lib d) (deployment_rows store) = Inr rows"
      and rest: "deploy_resources lib (deployment_id d) (now div 1000000) request' False (resources request')
                   (store\<lparr>deployment_rows := rows\<rparr>) = Inr store'"
    by (auto simp: deploy_def Let_def)
  have "deployed_at d = now" by (simp add: d new_deployment_def)
  moreover have "rows = deployment_rows store @ [new_deployment_entity lib d]" "deployment_id d \<notin> deployment_entity_id ` set (deployment_rows store)"
    using rows by (auto simp: new_deployment_entity_def elim!: insert_uniqueE)
  moreover note deploy_resources_rows [OF rest validated_keys_distinct [OF valid], of store]
  ultimately show ?thesis using that [OF valid d] by (simp add: deployed_store_def)
qed

definition owned_rows :: "dmn_store \<Rightarrow> bool" where
  "owned_rows store \<longleftrightarrow>
     (let ids = deployment_entity_id ` set (deployment_rows store) in
      resource_entity_deployment_id ` set (resource_rows store) \<subseteq> ids
      \<and> drd_entity_deployment_id ` set (drd_rows store) \<subseteq> ids
      \<and> decision_entity_deployment_id ` set (decision_rows store) \<subseteq> ids)"

lemma get_deployment_found:
  assumes "i \<in> deployment_entity_id ` set (deployment_rows store)"
  shows "\<exists>d. get_deployment i store = Inr d"
proof -
  from assms have "List.find (\<lambda>e. deployment_entity_id e = i) (deployment_rows store) \<noteq> None" by (auto simp: find_None_iff)
  then show ?thesis by (auto simp: get_deployment_def)
qed

lemma filter_owner:
  assumes "f ` set xs \<subseteq> ids" "i \<notin> ids" "f ` set ys \<subseteq> {i}"
  shows "filter (\<lambda>x. f x \<noteq> i) (xs @ ys) = xs"
proof -
  have "filter (\<lambda>x. f x \<noteq> i) ys = []" using assms(3) by (auto simp: filter_empty_conv)
  moreover have "filter (\<lambda>x. f x \<noteq> i) xs = xs" using assms(1,2) by (force simp: filter_id_conv)
  ultimately show ?thesis by simp
qed

lemma deployed_definitions_owner: "def \<in> set (deployed_definitions i request store rs) \<Longrightarrow> definition_deployment_id def = i"
  by (auto simp: deployed_definitions_def)

lemma delete_deployed_store:
  assumes owned: "owned_rows store" and fresh: "deployment_id d \<notin> deployment_entity_id ` set (deployment_rows store)"
  shows "delete_deployment (deployment_id d) False (deployed_store lib d request store) = Inr store"
proof -
  let ?s = "deployed_store lib d request store" and ?i = "deployment_id d"
  have "?i \<in> deployment_entity_id ` set (deployment_rows ?s)" by (simp add: deployed_rows new_deployment_entity_def)
  from get_deployment_found [OF this] obtain g where "get_deployment ?i ?s = Inr g" ..
  moreover have "filter (\<lambda>e. deployment_entity_id e \<noteq> ?i) (deployment_rows ?s) = deployment_rows store"
    unfolding deployed_rows by (rule filter_owner [OF order_refl fresh], simp add: new_deployment_entity_def)
  moreover have "filter (\<lambda>e. resource_entity_deployment_id e \<noteq> ?i) (resource_rows ?s) = resource_rows store"
    unfolding deployed_rows by (rule filter_owner [OF _ fresh], use owned in \<open>auto simp: owned_rows_def Let_def new_resource_entity_def\<close>)
  moreover have "filter (\<lambda>e. drd_entity_deployment_id e \<noteq> ?i) (drd_rows ?s) = drd_rows store"
    unfolding deployed_rows by (rule filter_owner [OF _ fresh], use owned in \<open>auto simp: owned_rows_def Let_def drd_of_def\<close>)
  moreover have "filter (\<lambda>e. decision_entity_deployment_id e \<noteq> ?i) (decision_rows ?s) = decision_rows store"
    unfolding deployed_rows
    by (rule filter_owner [OF _ fresh], use owned in \<open>auto simp: owned_rows_def Let_def deployed_definitions_owner\<close>)
  ultimately show ?thesis by (simp add: delete_deployment_def deployed_rows(5))
qed

section \<open>The invariant of the store\<close>

definition primary_keys :: "dmn_store \<Rightarrow> bool" where
  "primary_keys store \<longleftrightarrow>
     distinct (map deployment_entity_id (deployment_rows store))
     \<and> distinct (map (\<lambda>e. (resource_entity_deployment_id e, resource_entity_name e)) (resource_rows store))
     \<and> distinct (map drd_entity_id (drd_rows store))
     \<and> distinct (map decision_entity_id (decision_rows store))"

definition columns_ok :: "dmn_lib \<Rightarrow> dmn_store \<Rightarrow> bool" where
  "columns_ok lib store \<longleftrightarrow>
     (\<forall>e \<in> set (deployment_rows store). e = new_deployment_entity lib (deployment_entity_data e))
     \<and> (\<forall>r \<in> set (decision_rows store). r = new_decision_entity (decision_entity_data r))"

definition versions_ok :: "nat \<Rightarrow> dmn_decision_entity list \<Rightarrow> bool" where
  "versions_ok n rows \<longleftrightarrow>
     distinct (map (\<lambda>r. (decision_entity_key r, decision_entity_tenant r, decision_entity_version r)) rows)
     \<and> (\<forall>r \<in> set rows. 1 \<le> sint (decision_entity_version r) \<and> sint (decision_entity_version r) \<le> int n)"

definition repository_ok :: "dmn_lib \<Rightarrow> nat \<Rightarrow> dmn_store \<Rightarrow> bool" where
  "repository_ok lib n store \<longleftrightarrow>
     primary_keys store \<and> owned_rows store \<and> columns_ok lib store \<and> versions_ok n (decision_rows store)"

lemma insert_unique_distinct:
  "insert_unique lib table pk row rows = Inr rows' \<Longrightarrow> distinct (map pk rows) \<Longrightarrow> distinct (map pk rows')"
  by (erule insert_uniqueE) auto

lemma deploy_decisions_keys:
  "deploy_decisions lib i request resource ds store = Inr store' \<Longrightarrow> primary_keys store \<Longrightarrow> primary_keys store'"
proof (induction ds arbitrary: store)
  case (Cons d ds)
  then obtain rows def where *: "insert_unique lib ''ACT_DMN_DECISION'' decision_entity_id def (decision_rows store) = Inr rows"
    and rest: "deploy_decisions lib i request resource ds (store\<lparr>decision_rows := rows\<rparr>) = Inr store'"
    by (auto simp: Let_def split: if_splits)
  from insert_unique_distinct [OF *] Cons.prems(2) show ?case by (intro Cons.IH [OF rest]) (simp add: primary_keys_def)
qed simp

lemma store_drd_keys: "store_drd lib i r store = Inr store' \<Longrightarrow> primary_keys store \<Longrightarrow> primary_keys store'"
  by (auto simp: store_drd_def Let_def primary_keys_def elim!: insert_uniqueE)

lemma deploy_resources_keys:
  "deploy_resources lib i created_at request stored rs store = Inr store' \<Longrightarrow> primary_keys store \<Longrightarrow> primary_keys store'"
proof (induction rs arbitrary: stored store)
  case (Cons r rs)
  let ?pk = "\<lambda>e. (resource_entity_deployment_id e, resource_entity_name e)"
  from Cons.prems obtain rows store1 store2
    where rows: "insert_unique lib ''ACT_DMN_RESOURCE'' ?pk (new_resource_entity i (resource_name r) (resource_bytes r) created_at) (resource_rows store) = Inr rows"
      and drd: "(if stored then Inr (store\<lparr>resource_rows := rows\<rparr>) else store_drd lib i r (store\<lparr>resource_rows := rows\<rparr>)) = Inr store1"
      and ds: "deploy_decisions lib i request (resource_name r) (resource_decisions r) store1 = Inr store2"
      and rest: "deploy_resources lib i created_at request True rs store2 = Inr store'"
    by auto
  from insert_unique_distinct [OF rows] Cons.prems(2) have "primary_keys (store\<lparr>resource_rows := rows\<rparr>)"
    by (simp add: primary_keys_def)
  with drd have "primary_keys store1" by (auto split: if_splits dest: store_drd_keys)
  then show ?case by (intro Cons.IH [OF rest] deploy_decisions_keys [OF ds])
qed simp

lemma deploy_keys:
  assumes "deploy lib uuid now request store = Inr (d, store')" "primary_keys store"
  shows "primary_keys store'"
proof -
  from assms(1) obtain request' rows e
    where rows: "insert_unique lib ''ACT_DMN_DEPLOYMENT'' deployment_entity_id e (deployment_rows store) = Inr rows"
      and rest: "deploy_resources lib (deployment_id d) (now div 1000000) request' False (resources request')
                   (store\<lparr>deployment_rows := rows\<rparr>) = Inr store'"
    by (auto simp: deploy_def Let_def)
  from insert_unique_distinct [OF rows] assms(2) show ?thesis
    by (intro deploy_resources_keys [OF rest]) (simp add: primary_keys_def)
qed

text \<open>Versions: the next one is above all others of the key and tenant, as long as none has reached \<open>i32::MAX\<close>.\<close>

lemma foldl_max:
  "foldl max v vs \<in> set (v # vs)" "x \<in> set (v # vs) \<Longrightarrow> x \<le> foldl max v (vs :: int list)"
proof -
  show "foldl max v vs \<in> set (v # vs)" by (induction vs arbitrary: v) (auto simp: max_def)
  have "v \<le> foldl max v vs \<and> (\<forall>x \<in> set vs. x \<le> foldl max v vs)" for v
  proof (induction vs arbitrary: v)
    case (Cons a vs)
    from Cons.IH [of "max v a"] show ?case by auto
  qed simp
  then show "x \<in> set (v # vs) \<Longrightarrow> x \<le> foldl max v vs" by auto
qed

lemma sint_succ: "- (2 ^ 31) \<le> m \<Longrightarrow> m < 2 ^ 31 - 1 \<Longrightarrow> sint (word_of_int m + 1 :: 32 word) = m + 1"
proof -
  assume m: "- (2 ^ 31) \<le> m" "m < 2 ^ 31 - 1"
  have "(word_of_int m + 1 :: 32 word) = word_of_int (m + 1)" by simp
  then have "sint (word_of_int m + 1 :: 32 word) = sint (word_of_int (m + 1) :: 32 word)" by (rule arg_cong)
  also have "\<dots> = signed_take_bit 31 (m + 1)" using sint_sbintrunc' [where 'a = 32, of "m + 1"] by simp
  finally have "sint (word_of_int m + 1 :: 32 word) = signed_take_bit 31 (m + 1)" .
  with m show ?thesis by (simp add: signed_take_bit_int_eq_self)
qed

lemma next_version_above:
  assumes ok: "versions_ok n (decision_rows store)" and n: "int n < 2 ^ 31 - 1"
  shows "1 \<le> sint (next_version key tenant store)" "sint (next_version key tenant store) \<le> int n + 1"
    and "\<And>r. r \<in> set (version_rows key tenant store) \<Longrightarrow> sint (decision_entity_version r) < sint (next_version key tenant store)"
proof -
  let ?vs = "map (\<lambda>r. sint (decision_entity_version r)) (version_rows key tenant store)"
  have bounds: "1 \<le> v \<and> v \<le> int n" if "v \<in> set ?vs" for v
    using that ok by (auto simp: version_rows_def versions_ok_def)
  have "1 \<le> sint (next_version key tenant store) \<and> sint (next_version key tenant store) \<le> int n + 1
      \<and> (\<forall>v \<in> set ?vs. v < sint (next_version key tenant store))"
  proof (cases ?vs)
    case Nil
    then show ?thesis by (simp add: next_version_def del: map_is_Nil_conv)
  next
    case (Cons v vs)
    have "foldl max v vs \<in> set ?vs" unfolding Cons by (rule foldl_max)
    with bounds have m: "1 \<le> foldl max v vs" "foldl max v vs \<le> int n" by blast+
    with n have "sint (next_version key tenant store) = foldl max v vs + 1"
      unfolding next_version_def Cons by (simp add: sint_succ)
    moreover have "w \<le> foldl max v vs" if "w \<in> set ?vs" for w using that foldl_max(2) unfolding Cons by blast
    ultimately show ?thesis using m by fastforce
  qed
  then show "1 \<le> sint (next_version key tenant store)" "sint (next_version key tenant store) \<le> int n + 1"
    "\<And>r. r \<in> set (version_rows key tenant store) \<Longrightarrow> sint (decision_entity_version r) < sint (next_version key tenant store)"
    by auto
qed

lemma deployed_definitions_keys:
  "map definition_key (deployed_definitions i request store rs) = map dmn_decision_key (concat (map resource_decisions rs))"
  by (induction rs) (simp_all add: deployed_definitions_def o_def)

lemma in_deployed_definitions:
  assumes "def \<in> set (deployed_definitions i request store rs)"
  shows "definition_tenant def = deployment_request_tenant request"
    and "definition_version def = next_version (definition_key def) (deployment_request_tenant request) store"
  using assms by (auto simp: deployed_definitions_def)

lemma deployed_versions:
  assumes ok: "versions_ok n (decision_rows store)" and n: "int n < 2 ^ 31 - 1"
    and keys: "distinct (map dmn_decision_key (concat (map resource_decisions rs)))"
  shows "versions_ok (Suc n) (decision_rows store @ map new_decision_entity (deployed_definitions i request store rs))"
proof -
  let ?defs = "deployed_definitions i request store rs"
  let ?vk = "\<lambda>r. (decision_entity_key r, decision_entity_tenant r, decision_entity_version r)"
  have bounds: "1 \<le> sint (decision_entity_version r) \<and> sint (decision_entity_version r) \<le> int n" if "r \<in> set (decision_rows store)" for r
    using ok that by (simp add: versions_ok_def)
  note above = next_version_above [OF ok n]
  have "distinct (map fst (map ?vk (map new_decision_entity ?defs)))"
    using keys deployed_definitions_keys [of i request store rs] by (simp add: o_def)
  then have "distinct (map ?vk (map new_decision_entity ?defs))" unfolding distinct_map [where f = fst] by (rule conjunct1)
  moreover have "?vk r \<noteq> ?vk (new_decision_entity def)" if "r \<in> set (decision_rows store)" "def \<in> set ?defs" for r def
    using above(3) [where r = r and key = "decision_entity_key r" and tenant = "decision_entity_tenant r"] that
    by (auto simp: version_rows_def in_deployed_definitions)
  then have "set (map ?vk (decision_rows store)) \<inter> set (map ?vk (map new_decision_entity ?defs)) = {}" by force
  ultimately have "distinct (map ?vk (decision_rows store @ map new_decision_entity ?defs))"
    using ok unfolding versions_ok_def map_append distinct_append by blast
  moreover have "1 \<le> sint (definition_version def) \<and> sint (definition_version def) \<le> int (Suc n)" if "def \<in> set ?defs" for def
    using above(1,2) that by (simp add: in_deployed_definitions add.commute)
  moreover have "1 \<le> sint (decision_entity_version r) \<and> sint (decision_entity_version r) \<le> int (Suc n)" if "r \<in> set (decision_rows store)" for r
    using bounds [OF that] by simp
  ultimately show ?thesis unfolding versions_ok_def by auto
qed

lemma deploy_repository_ok:
  assumes deploy: "deploy lib uuid now request store = Inr (d, store')" and ok: "repository_ok lib n store" and n: "int n < 2 ^ 31 - 1"
  shows "repository_ok lib (Suc n) store'"
proof -
  from deploy obtain request' where valid: "validate_and_normalize_deployment_request lib request = Inr request'"
    and d: "d = new_deployment uuid now request'" and store': "store' = deployed_store lib d request' store"
    by (rule deployE)
  have "versions_ok (Suc n) (decision_rows store')"
    unfolding store' deployed_rows
    by (rule deployed_versions [OF _ n validated_keys_distinct [OF valid]]) (use ok in \<open>simp add: repository_ok_def\<close>)
  moreover have "owned_rows store'"
    using ok unfolding repository_ok_def owned_rows_def store' deployed_rows Let_def
    by (auto simp: new_deployment_entity_def new_resource_entity_def drd_of_def deployed_definitions_owner)
  moreover have "columns_ok lib store'"
    using ok unfolding repository_ok_def columns_ok_def store' deployed_rows by (auto simp: new_deployment_entity_def)
  moreover have "primary_keys store'" using deploy_keys [OF deploy] ok by (simp add: repository_ok_def)
  ultimately show ?thesis by (simp add: repository_ok_def)
qed

lemma distinct_map_filterI: "distinct (map f xs) \<Longrightarrow> distinct (map f (filter P xs))"
  by (induction xs) auto

lemma delete_repository_ok:
  assumes "delete_deployment i cascade store = Inr store'" "repository_ok lib n store"
  shows "repository_ok lib n store'"
proof -
  from assms(1) have store': "deployment_rows store' = filter (\<lambda>e. deployment_entity_id e \<noteq> i) (deployment_rows store)"
    "resource_rows store' = filter (\<lambda>e. resource_entity_deployment_id e \<noteq> i) (resource_rows store)"
    "drd_rows store' = filter (\<lambda>e. drd_entity_deployment_id e \<noteq> i) (drd_rows store)"
    "decision_rows store' = filter (\<lambda>e. decision_entity_deployment_id e \<noteq> i) (decision_rows store)"
    by (auto simp: delete_deployment_def)
  have "owned_rows store'"
    using assms(2) unfolding repository_ok_def owned_rows_def Let_def store' by (auto simp: image_iff subset_iff)
  then show ?thesis
    using assms(2) by (simp add: repository_ok_def primary_keys_def columns_ok_def versions_ok_def store' distinct_map_filterI)
qed

section \<open>Histories of the repository\<close>

datatype repository_op = Deploy string int dmn_deployment_request | Delete string bool

fun apply_op :: "dmn_lib \<Rightarrow> repository_op \<Rightarrow> dmn_store \<Rightarrow> dmn_store" where
  "apply_op lib (Deploy uuid now request) store = (case deploy lib uuid now request store of Inl _ \<Rightarrow> store | Inr (_, store') \<Rightarrow> store')"
| "apply_op lib (Delete i cascade) store = (case delete_deployment i cascade store of Inl _ \<Rightarrow> store | Inr store' \<Rightarrow> store')"

definition run_ops :: "dmn_lib \<Rightarrow> repository_op list \<Rightarrow> dmn_store \<Rightarrow> dmn_store" where
  "run_ops lib ops store = fold (apply_op lib) ops store"

definition empty_store :: dmn_store where
  "empty_store = \<lparr>deployment_rows = [], resource_rows = [], drd_rows = [], decision_rows = [], history_rows = []\<rparr>"

lemma repository_ok_mono: "repository_ok lib m store \<Longrightarrow> m \<le> n \<Longrightarrow> repository_ok lib n store"
  by (fastforce simp: repository_ok_def versions_ok_def)

lemma apply_op_repository_ok: "repository_ok lib n store \<Longrightarrow> int n < 2 ^ 31 - 1 \<Longrightarrow> repository_ok lib (Suc n) (apply_op lib op store)"
  by (cases "(lib, op, store)" rule: apply_op.cases)
    (auto split: sum.splits intro: deploy_repository_ok delete_repository_ok repository_ok_mono)

lemma run_ops_repository_ok:
  "repository_ok lib n store \<Longrightarrow> int (n + length ops) < 2 ^ 31 \<Longrightarrow> repository_ok lib (n + length ops) (run_ops lib ops store)"
proof (induction ops arbitrary: n store)
  case (Cons op ops)
  then have "repository_ok lib (Suc n + length ops) (run_ops lib ops (apply_op lib op store))"
    by (intro Cons.IH apply_op_repository_ok) auto
  then show ?case by (simp add: run_ops_def)
qed (simp add: run_ops_def)

text \<open>
  C16. The repository keeps its invariant. After any sequence of fewer than \<open>2^31\<close> deployments and deletions,
  accepted or rejected, every primary key is unique, every resource, diagram and decision belongs to a stored
  deployment, the columns agree with the stored document, and no two definitions of one key in one tenant have the
  same version, all of which lie between 1 and the number of operations. No freshness of the generated ids is
  needed: a repeated id is rejected as a whole.
\<close>

theorem repository_invariant:
  assumes "int (length ops) < 2 ^ 31"
  shows "repository_ok lib (length ops) (run_ops lib ops empty_store)"
proof -
  have "repository_ok lib 0 empty_store"
    by (simp add: repository_ok_def empty_store_def primary_keys_def owned_rows_def columns_ok_def versions_ok_def)
  from run_ops_repository_ok [OF this, of ops] assms show ?thesis by simp
qed

section \<open>The newest version\<close>

definition found_by :: "string \<Rightarrow> string option \<Rightarrow> dmn_decision_definition \<Rightarrow> bool" where
  "found_by key tenant def \<longleftrightarrow> definition_key def = key \<and> (case tenant of None \<Rightarrow> True | Some t \<Rightarrow> definition_tenant def = Some t)"

lemma key_query_list:
  "decision_query_list store (key_query key tenant)
     = map decision_entity_data (filter (found_by key tenant \<circ> decision_entity_data) (order_rows decision_row_less (decision_rows store)))"
proof -
  have "decision_matches (key_query key tenant) = found_by key tenant"
    by (auto simp: fun_eq_iff decision_matches_def key_query_def new_decision_query_def found_by_def matches_optional_def
        matches_optional_option_def split: option.splits)
  then show ?thesis by (simp add: decision_query_list_def filter_map)
qed

lemma newest_row:
  assumes "columns_ok lib store" "decision_single_result store (key_query key tenant) = Some def"
  obtains r where "r \<in> set (decision_rows store)" "decision_entity_data r = def" "found_by key tenant def"
    and "\<And>s. s \<in> set (decision_rows store) \<Longrightarrow> found_by key tenant (decision_entity_data s) \<Longrightarrow>
           sint (decision_entity_version s) \<le> sint (decision_entity_version r)"
proof -
  from assms(2) obtain r others
    where first: "filter (found_by key tenant \<circ> decision_entity_data) (order_rows decision_row_less (decision_rows store)) = r # others"
      and def: "decision_entity_data r = def"
    by (auto simp: decision_single_result_def first_of_def key_query_list split: list.splits)
  note least = by_version.first_is_least [OF first]
  have key: "decision_entity_key s = key" if "s \<in> set (decision_rows store)" "found_by key tenant (decision_entity_data s)" for s
    using assms(1) that unfolding columns_ok_def found_by_def by (metis new_entity_simps(1))
  show ?thesis
  proof
    fix s assume s: "s \<in> set (decision_rows store)" "found_by key tenant (decision_entity_data s)"
    have "\<not> decision_row_less s r" by (rule least(3)) (use s in simp_all)
    with key [OF s] key [OF least(1)] least(2) show "sint (decision_entity_version s) \<le> sint (decision_entity_version r)"
      by (auto simp: decision_row_less_def)
  qed (use least def in auto)
qed

lemma some_result:
  assumes "r \<in> set (decision_rows store)" "found_by key tenant (decision_entity_data r)"
  shows "\<exists>def. decision_single_result store (key_query key tenant) = Some def"
  using by_version.some_first [OF assms(1), of "found_by key tenant \<circ> decision_entity_data"] assms(2)
  by (auto simp: decision_single_result_def first_of_def key_query_list split: list.splits)

lemma latest_without_parent:
  "decision_single_result store (key_query key tenant) = Some def \<Longrightarrow>
     latest_decision_by_key_with_fallback lib store key tenant None fallback = Inr def"
  by (simp add: latest_decision_by_key_with_fallback_def)

lemma newest_is_deployed:
  assumes ok: "versions_ok n (decision_rows store)" and n: "int n < 2 ^ 31 - 1"
    and keys: "distinct (map dmn_decision_key (concat (map resource_decisions rs)))"
    and def: "def \<in> set (deployed_definitions i request store rs)"
    and s: "s \<in> set (decision_rows store @ map new_decision_entity (deployed_definitions i request store rs))"
    and same: "decision_entity_key s = definition_key def" "decision_entity_tenant s = definition_tenant def"
    and newest: "sint (definition_version def) \<le> sint (decision_entity_version s)"
  shows "s = new_decision_entity def"
proof (cases "s \<in> set (decision_rows store)")
  case True
  with same have "s \<in> set (version_rows (definition_key def) (definition_tenant def) store)" by (simp add: version_rows_def)
  from next_version_above(3) [OF ok n this] newest in_deployed_definitions [OF def] show ?thesis by simp
next
  case False
  with s obtain def' where s': "s = new_decision_entity def'" and def': "def' \<in> set (deployed_definitions i request store rs)" by auto
  have "distinct (map definition_key (deployed_definitions i request store rs))" using keys by (simp only: deployed_definitions_keys)
  then have "def' = def" using same(1) def def' by (auto simp: s' distinct_map dest: inj_onD)
  with s' show ?thesis by simp
qed

text \<open>
  C17. A deployed decision is what its key finds. In a store that keeps the invariant, after a successful deployment for
  a tenant, the lookup of any decision of the deployment by key and tenant returns the definition made from the
  normalised request, with a version above every earlier version of that key in that tenant.
\<close>

theorem deployed_decision_is_latest:
  assumes ok: "repository_ok lib n store" and n: "int n < 2 ^ 31 - 1"
    and deploy: "deploy lib uuid now request store = Inr (d, store')"
    and valid: "validate_and_normalize_deployment_request lib request = Inr request'"
    and r: "r \<in> set (resources request')" and dec: "dec \<in> set (model_decisions (resource_model r))"
    and tenant: "deployment_request_tenant request' = Some t"
  shows "latest_decision_by_key_with_fallback lib store' (dmn_decision_key dec) (Some t) None fallback
           = Inr (new_definition (deployment_id d) request' (resource_name r) (next_version (dmn_decision_key dec) (Some t) store) dec)
    \<and> (\<forall>e \<in> set (version_rows (dmn_decision_key dec) (Some t) store).
          sint (decision_entity_version e) < sint (next_version (dmn_decision_key dec) (Some t) store))"
proof -
  let ?k = "dmn_decision_key dec"
  let ?def = "new_definition (deployment_id d) request' (resource_name r) (next_version ?k (Some t) store) dec"
  from ok have versions: "versions_ok n (decision_rows store)" by (simp add: repository_ok_def)
  from deploy obtain request'' where "validate_and_normalize_deployment_request lib request = Inr request''"
    and "store' = deployed_store lib d request'' store" by (rule deployE)
  with valid have store': "store' = deployed_store lib d request' store" by simp
  have cols: "columns_ok lib store'" using deploy_repository_ok [OF deploy ok n] by (simp add: repository_ok_def)
  have in_defs: "?def \<in> set (deployed_definitions (deployment_id d) request' store (resources request'))"
    using r dec tenant by (auto simp: deployed_definitions_def deployed_definition_def)
  have found: "found_by ?k (Some t) ?def" by (simp add: found_by_def new_definition_def tenant)
  have row: "new_decision_entity ?def \<in> set (decision_rows store')" using in_defs by (simp add: store' deployed_rows)
  then obtain def where single: "decision_single_result store' (key_query ?k (Some t)) = Some def"
    using some_result [OF row] found by auto
  from newest_row [OF cols single] obtain s
    where s: "s \<in> set (decision_rows store')" "decision_entity_data s = def" "found_by ?k (Some t) def"
      and all: "\<And>s'. s' \<in> set (decision_rows store') \<Longrightarrow> found_by ?k (Some t) (decision_entity_data s') \<Longrightarrow>
                  sint (decision_entity_version s') \<le> sint (decision_entity_version s)"
    by blast
  have newest: "sint (definition_version ?def) \<le> sint (decision_entity_version s)" using all [OF row] found by simp
  from cols s(1,2) have "s = new_decision_entity def" by (auto simp: columns_ok_def)
  with s(3) have "decision_entity_key s = definition_key ?def" "decision_entity_tenant s = definition_tenant ?def"
    by (simp_all add: found_by_def new_definition_def tenant)
  from newest_is_deployed [OF versions n validated_keys_distinct [OF valid] in_defs _ this newest] s(1)
  have "s = new_decision_entity ?def" by (simp add: store' deployed_rows)
  with s(2) have "def = ?def" by simp
  with single next_version_above(3) [OF versions n] show ?thesis by (simp add: latest_without_parent)
qed

section \<open>Example stores\<close>

definition grade_store :: "string option \<Rightarrow> dmn_store" where
  "grade_store tenant = deployed_store example_lib (new_deployment ''u'' 0 (grade_request tenant)) (grade_request tenant) empty_store"

lemma grade_deployed:
  "deploy example_lib ''u'' 0 (grade_request tenant) empty_store = Inr (new_deployment ''u'' 0 (grade_request tenant), grade_store tenant)"
  by code_simp

lemma empty_repository_ok: "repository_ok lib 0 empty_store"
  by (simp add: repository_ok_def empty_store_def primary_keys_def owned_rows_def columns_ok_def versions_ok_def)

theorem repository_invariant_witness:
  "repository_ok example_lib 2 (run_ops example_lib [Deploy ''u'' 0 (grade_request None), Delete ''dmn-deployment:u'' True] empty_store)"
  using repository_invariant [of "[Deploy ''u'' 0 (grade_request None), Delete ''dmn-deployment:u'' True]" example_lib]
  by (simp add: numeral_2_eq_2)

theorem deployed_decision_is_latest_witness:
  "latest_decision_by_key_with_fallback example_lib (grade_store (Some ''t'')) ''grade'' (Some ''t'') None False
     = Inr (new_definition ''dmn-deployment:u'' (grade_request (Some ''t'')) ''a.dmn'' 1 (example_decision ''grade'' []))"
  using deployed_decision_is_latest [OF empty_repository_ok _ grade_deployed [of "Some ''t''"] grade_request_valid,
      where r = "example_resource ''a.dmn'' [example_decision ''grade'' []] []" and dec = "example_decision ''grade'' []"
        and t = "''t''" and fallback = False]
  by (simp add: grade_request_def example_request_def example_resource_def example_decision_def new_deployment_def
      next_version_def version_rows_def empty_store_def)

section \<open>Deployment and deletion\<close>

text \<open>
  C18. Deletion undoes a deployment. In a store that keeps the invariant, deleting a deployment right after it was made
  gives back exactly the store before it: no row of another deployment is touched and none of its own stays behind.
\<close>

theorem deploy_delete_restores:
  assumes "repository_ok lib n store" "deploy lib uuid now request store = Inr (d, store')"
  shows "delete_deployment (deployment_id d) False store' = Inr store"
proof -
  from assms(2) obtain request' where "deployment_id d \<notin> deployment_entity_id ` set (deployment_rows store)"
    and "store' = deployed_store lib d request' store" by (rule deployE)
  then show ?thesis using delete_deployed_store assms(1) by (simp add: repository_ok_def)
qed

theorem deploy_delete_restores_witness:
  "delete_deployment ''dmn-deployment:u'' False (grade_store None) = Inr empty_store"
  using deploy_delete_restores [OF empty_repository_ok grade_deployed] by (simp add: new_deployment_def)

section \<open>Lookups without a tenant\<close>

lemma columns_tenant: "columns_ok lib store \<Longrightarrow> r \<in> set (decision_rows store) \<Longrightarrow>
    definition_tenant (decision_entity_data r) = decision_entity_tenant r \<and> definition_key (decision_entity_data r) = decision_entity_key r"
  unfolding columns_ok_def by (metis new_entity_simps(1,2))

text \<open>
  C37. A lookup without a tenant does not stay with the definitions that have none: \<open>None\<close> filters nothing. When
  some tenant has a version of the key above every untenanted version, the lookup returns a tenant's definition, and an
  untenanted definition that was deployed is not what its key finds.
\<close>

theorem untenanted_lookup_crosses_tenants:
  assumes cols: "columns_ok lib store" and r: "r \<in> set (version_rows key (Some t) store)"
    and above: "\<forall>s \<in> set (version_rows key None store). sint (decision_entity_version s) < sint (decision_entity_version r)"
  shows "\<exists>def t'. latest_decision_by_key_with_fallback lib store key None None fallback = Inr def \<and> definition_tenant def = Some t'"
proof -
  from r have row: "r \<in> set (decision_rows store)" "decision_entity_key r = key" by (simp_all add: version_rows_def)
  then have "found_by key None (decision_entity_data r)" using columns_tenant [OF cols] by (simp add: found_by_def)
  with some_result [OF row(1)] obtain def where single: "decision_single_result store (key_query key None) = Some def" by blast
  from newest_row [OF cols this] obtain s where s: "s \<in> set (decision_rows store)" "decision_entity_data s = def" "found_by key None def"
    and newest: "\<And>s'. s' \<in> set (decision_rows store) \<Longrightarrow> found_by key None (decision_entity_data s') \<Longrightarrow>
           sint (decision_entity_version s') \<le> sint (decision_entity_version s)" by blast
  have "sint (decision_entity_version r) \<le> sint (decision_entity_version s)"
    using newest [OF row(1)] \<open>found_by key None (decision_entity_data r)\<close> by simp
  with above have "s \<notin> set (version_rows key None store)" by force
  with s columns_tenant [OF cols s(1)] have "definition_tenant def \<noteq> None" by (auto simp: version_rows_def found_by_def)
  with single show ?thesis by (auto simp: latest_without_parent)
qed

definition shared_key_store :: dmn_store where
  "shared_key_store = run_ops example_lib
     [Deploy ''u'' 0 (grade_request None), Deploy ''v'' 1 (grade_request (Some ''t'')), Deploy ''w'' 2 (grade_request (Some ''t''))] empty_store"

theorem untenanted_lookup_crosses_tenants_witness:
  "\<exists>def t'. latest_decision_by_key_with_fallback example_lib shared_key_store ''grade'' None None False = Inr def
     \<and> definition_tenant def = Some t'"
proof (rule untenanted_lookup_crosses_tenants)
  show "columns_ok example_lib shared_key_store"
    using run_ops_repository_ok [OF empty_repository_ok] unfolding shared_key_store_def by (simp add: repository_ok_def)
  show "last (decision_rows shared_key_store) \<in> set (version_rows ''grade'' (Some ''t'') shared_key_store)" by code_simp
  show "\<forall>s \<in> set (version_rows ''grade'' None shared_key_store).
      sint (decision_entity_version s) < sint (decision_entity_version (last (decision_rows shared_key_store)))" by code_simp
qed

section \<open>Decision services of a deployment\<close>

definition declares_service :: "dmn_model \<Rightarrow> string \<Rightarrow> bool" where
  "declares_service model key \<longleftrightarrow> list_ex (\<lambda>s. service_id s = key \<or> service_name s = key) (decision_services model)"

lemma in_drd_join [simp]:
  "(e, drd) \<in> set (drd_join store) \<longleftrightarrow>
     drd \<in> set (drd_rows store) \<and> e \<in> set (deployment_rows store) \<and> deployment_entity_id e = drd_entity_deployment_id drd"
  by (auto simp: drd_join_def)

lemma find_service_NoneI:
  "(\<And>e drd. (e, drd) \<in> set rows \<Longrightarrow> \<not> declares_service (drd_entity_data drd) key) \<Longrightarrow> find_service key tenant parent rows = None"
proof (induction rows)
  case (Cons row rows)
  obtain e drd where row: "row = (e, drd)" by (cases row)
  then have "\<not> declares_service (drd_entity_data drd) key" using Cons.prems by auto
  then have "List.find (\<lambda>s. service_id s = key \<or> service_name s = key) (decision_services (drd_entity_data drd)) = None"
    by (auto simp: declares_service_def find_None_iff list_ex_iff)
  moreover have "find_service key tenant parent rows = None" using Cons by (intro Cons.IH) auto
  ultimately show ?case by (simp add: row Let_def)
qed simp

lemma find_service_NoneD:
  "find_service key None None rows = None \<Longrightarrow> (e, drd) \<in> set rows \<Longrightarrow> \<not> declares_service (drd_entity_data drd) key"
proof (induction rows)
  case (Cons row rows)
  then show ?case by (cases row) (auto simp: Let_def declares_service_def find_None_iff list_ex_iff split: option.splits)
qed simp

lemma latest_service_NoneI:
  "(\<And>e drd. (e, drd) \<in> set (drd_join store) \<Longrightarrow> \<not> declares_service (drd_entity_data drd) key) \<Longrightarrow>
     latest_decision_service_by_key store key tenant parent fallback = None"
proof -
  assume "\<And>e drd. (e, drd) \<in> set (drd_join store) \<Longrightarrow> \<not> declares_service (drd_entity_data drd) key"
  then have "find_decision_service_by_key_filtered store key t p = None" for t p
    unfolding find_decision_service_by_key_filtered_def by (intro find_service_NoneI) simp
  then show ?thesis by (cases parent) (simp_all add: latest_decision_service_by_key_def)
qed

text \<open>
  Only the first diagram of a deployment is stored. A decision service that the first resource does not declare
  cannot be executed after the deployment, whatever the later resources of the deployment declare, while all their
  decisions are stored.
\<close>

theorem later_services_are_lost:
  assumes ok: "repository_ok lib n store" and deploy: "deploy lib uuid now request store = Inr (d, store')"
    and valid: "validate_and_normalize_deployment_request lib request = Inr request'"
    and rs: "resources request' = first # others" and first: "\<not> declares_service (resource_model first) key"
    and before: "find_decision_service_by_key_filtered store key None None = None"
  shows "latest_decision_service_by_key store' key tenant parent fallback = None
    \<and> (\<forall>r \<in> set others. \<forall>dec \<in> set (resource_decisions r).
          \<exists>e \<in> set (decision_rows store'). decision_entity_key e = dmn_decision_key dec \<and> decision_entity_resource_name e = resource_name r)"
proof
  from deploy obtain request'' where "validate_and_normalize_deployment_request lib request = Inr request''"
    and fresh: "deployment_id d \<notin> deployment_entity_id ` set (deployment_rows store)"
    and "store' = deployed_store lib d request'' store" by (rule deployE)
  with valid have store': "store' = deployed_store lib d request' store" by simp
  show "latest_decision_service_by_key store' key tenant parent fallback = None"
  proof (rule latest_service_NoneI)
    fix e drd assume pair: "(e, drd) \<in> set (drd_join store')"
    show "\<not> declares_service (drd_entity_data drd) key"
    proof (cases "drd \<in> set (drd_rows store)")
      case True
      with ok have "drd_entity_deployment_id drd \<in> deployment_entity_id ` set (deployment_rows store)"
        by (auto simp: repository_ok_def owned_rows_def Let_def)
      with fresh have "drd_entity_deployment_id drd \<noteq> deployment_id d" by metis
      with pair True have "(e, drd) \<in> set (drd_join store)" by (auto simp: store' deployed_rows new_deployment_entity_def)
      then show ?thesis using before find_service_NoneD unfolding find_decision_service_by_key_filtered_def by fastforce
    next
      case False
      with pair rs have "drd = drd_of (deployment_id d) first" by (auto simp: store' deployed_rows)
      then show ?thesis using first by (simp add: drd_of_def declares_service_def)
    qed
  qed
  show "\<forall>r \<in> set others. \<forall>dec \<in> set (resource_decisions r).
      \<exists>e \<in> set (decision_rows store'). decision_entity_key e = dmn_decision_key dec \<and> decision_entity_resource_name e = resource_name r"
  proof (intro ballI)
    fix r dec assume "r \<in> set others" "dec \<in> set (resource_decisions r)"
    then have "new_decision_entity (deployed_definition (deployment_id d) request' store (resource_name r) dec) \<in> set (decision_rows store')"
      using rs by (auto simp: store' deployed_rows deployed_definitions_def)
    then show "\<exists>e \<in> set (decision_rows store'). decision_entity_key e = dmn_decision_key dec \<and> decision_entity_resource_name e = resource_name r"
      by (rule rev_bexI) (simp add: new_decision_entity_def deployed_definition_def new_definition_def)
  qed
qed

definition service_request :: dmn_deployment_request where
  "service_request = example_request None
     [example_resource ''a.dmn'' [example_decision ''grade'' []] [],
      example_resource ''b.dmn'' [example_decision ''limit'' []]
        [\<lparr>service_id = ''s'', service_name = ''S'', service_required_decisions = [], output_decisions = [''limit'']\<rparr>]]"

theorem later_services_are_lost_witness:
  "latest_decision_service_by_key
     (deployed_store example_lib (new_deployment ''u'' 0 service_request) service_request empty_store) ''s'' None None False = None"
proof -
  have valid: "validate_and_normalize_deployment_request example_lib service_request = Inr service_request" by code_simp
  have "deploy example_lib ''u'' 0 service_request empty_store
      = Inr (new_deployment ''u'' 0 service_request, deployed_store example_lib (new_deployment ''u'' 0 service_request) service_request empty_store)"
    by code_simp
  from later_services_are_lost [OF empty_repository_ok this valid, of "hd (resources service_request)" "tl (resources service_request)" "''s''" None None False]
  show ?thesis by (simp add: service_request_def example_request_def example_resource_def declares_service_def
        find_decision_service_by_key_filtered_def drd_join_def empty_store_def order_rows_def)
qed

end
