(* ===== verification/Dmn_Tables.thy ===== *)
theory Dmn_Tables
  imports Dmn_Hit_Policies "HOL-Library.Multiset"
begin

text \<open>
  Correctness of decision tables. A table is seen as its hits, the matching rules with their own outputs in table
  order; \<open>hit_outcome\<close> says what each hit policy makes of them. The evaluation with the output cache
  agrees with it when rule ids are distinct. The further lemmas relate strict and lenient mode, describe the
  order of OUTPUT ORDER and the audit, and show what happens when ids are not distinct.
\<close>

section \<open>What the policies promise\<close>

type_synonym hit = "dmn_rule \<times> evaluated_rule_outputs"

definition hit_row :: "hit \<Rightarrow> json_map" where
  "hit_row h = output_row (snd h)"

definition hit_rank :: "dmn_lib \<Rightarrow> dmn_decision_definition \<Rightarrow> hit \<Rightarrow> dmn_error + nat" where
  "hit_rank lib def h = rank_from lib def (fst h) (map_of (hit_row h))"

definition ranked_hits :: "dmn_lib \<Rightarrow> dmn_decision_definition \<Rightarrow> hit list \<Rightarrow> dmn_error + hit list" where
  "ranked_hits lib def hits =
     (if has_any_output_values def then
        rbind (collect_results (hit_rank lib def) hits) (\<lambda>_. Inr (sort_key (\<lambda>h. unwrap_or 0 (hit_rank lib def h)) hits))
      else Inr hits)"

definition single_hit :: "nat \<Rightarrow> hit \<Rightarrow> hit_policy_evaluation" where
  "single_hit n h = single_row_result (Some (rule_id (fst h))) n (hit_row h)"

definition all_hits :: "hit list \<Rightarrow> hit_policy_evaluation" where
  "all_hits hits = rows_result (map fst hits) (map hit_row hits)"

definition hit_number :: "dmn_decision_definition \<Rightarrow> nat \<Rightarrow> hit \<Rightarrow> dmn_error + f64" where
  "hit_number def i h =
     (if i < length (definition_outputs def) then
        rbind (ok_or (non_numeric_collect_error def (fst h) i) (map_of (hit_row h) (output_name (definition_outputs def ! i))))
          (\<lambda>v. ok_or (non_numeric_collect_error def (fst h) i) (as_f64 v))
      else Inl (DmnExecution ''COLLECT aggregation requires output at index''))"

definition hits_aggregate :: "dmn_decision_definition \<Rightarrow> hit list \<Rightarrow> collect_operator \<Rightarrow> nat \<Rightarrow> dmn_error + json" where
  "hits_aggregate def hits op i =
     (if op = CollectCount then Inr (json_of_usize (length hits))
      else rbind (collect_results (hit_number def i) hits) (\<lambda>values.
             Inr (case op of CollectSum \<Rightarrow> json_of_f64 (f64_sum values) | CollectMin \<Rightarrow> reduce_or_null f64_min values
                  | _ \<Rightarrow> reduce_or_null f64_max values)))"

definition unique_outcome :: "bool \<Rightarrow> dmn_decision_definition \<Rightarrow> hit list \<Rightarrow> dmn_error + hit_policy_evaluation" where
  "unique_outcome strict def hits =
     (case hits of
        [] \<Rightarrow> Inr empty_hit_result
      | [h] \<Rightarrow> Inr (single_hit 1 h)
      | _ \<Rightarrow> if strict then Inl (unique_violation def (map fst hits))
             else Inr (unique_merged_result (map fst hits) (foldl merge_row [] (map hit_row hits))))"

definition any_outcome :: "bool \<Rightarrow> dmn_decision_definition \<Rightarrow> hit list \<Rightarrow> dmn_error + hit_policy_evaluation" where
  "any_outcome strict def hits =
     (case hits of
        [] \<Rightarrow> Inr empty_hit_result
      | h # others \<Rightarrow>
          (case find (\<lambda>h'. \<not> json_object_eq (hit_row h') (hit_row h)) others of
             None \<Rightarrow> Inr (single_hit (length hits) h)
           | Some conflicting \<Rightarrow>
               if strict then Inl (any_violation def (map fst hits) (fst conflicting))
               else Inr (any_conflict_result (map fst hits) (fst conflicting) (hit_row (last hits)))))"

definition priority_outcome :: "dmn_lib \<Rightarrow> bool \<Rightarrow> dmn_decision_definition \<Rightarrow> hit list \<Rightarrow> dmn_error + hit_policy_evaluation" where
  "priority_outcome lib strict def hits =
     rbind (ensure_output_values_for_order_policy def (map fst hits) strict True) (\<lambda>message.
     rbind (ranked_hits lib def hits) (\<lambda>ordered.
       Inr (case ordered of
              [] \<Rightarrow> empty_hit_result
            | h # _ \<Rightarrow> (single_hit (length hits) h)\<lparr>hit_validation := message\<rparr>)))"

definition output_order_outcome :: "dmn_lib \<Rightarrow> bool \<Rightarrow> dmn_decision_definition \<Rightarrow> hit list \<Rightarrow> dmn_error + hit_policy_evaluation" where
  "output_order_outcome lib strict def hits =
     rbind (ensure_output_values_for_order_policy def (map fst hits) strict False) (\<lambda>message.
     rbind (ranked_hits lib def hits) (\<lambda>ordered.
       Inr ((all_hits ordered)\<lparr>hit_validation := message\<rparr>)))"

definition collect_outcome :: "dmn_lib \<Rightarrow> dmn_decision_definition \<Rightarrow> hit list \<Rightarrow> dmn_error + hit_policy_evaluation" where
  "collect_outcome lib def hits =
     (case collect_operator def of
        None \<Rightarrow> Inr (all_hits hits)
      | Some op \<Rightarrow>
          if definition_outputs def = [] then Inl (DmnExecution ''COLLECT aggregation requires at least one output'')
          else rbind (aggregate_loop lib def (hits_aggregate def hits op) (enumerate 0 (definition_outputs def)) [])
                 (\<lambda>outputs. Inr (single_row_result (only_rule_id (map fst hits)) (length hits) outputs)))"

definition hit_outcome :: "dmn_lib \<Rightarrow> bool \<Rightarrow> dmn_decision_definition \<Rightarrow> hit list \<Rightarrow> dmn_error + hit_policy_evaluation" where
  "hit_outcome lib strict def hits =
     (case hit_policy def of
        HitFirst \<Rightarrow> Inr (case hits of [] \<Rightarrow> empty_hit_result | h # _ \<Rightarrow> single_hit 1 h)
      | HitUnique \<Rightarrow> unique_outcome strict def hits
      | HitAny \<Rightarrow> any_outcome strict def hits
      | HitOutputOrder \<Rightarrow> output_order_outcome lib strict def hits
      | HitPriority \<Rightarrow> priority_outcome lib strict def hits
      | HitCollect \<Rightarrow> collect_outcome lib def hits
      | _ \<Rightarrow> Inr (all_hits hits))"

section \<open>The cache answers for the hits\<close>

lemma insort_key_map: "insort_key f (g x) (map g xs) = map g (insort_key (f \<circ> g) x xs)"
  by (induction xs) simp_all

lemma sort_key_map: "sort_key f (map g xs) = map g (sort_key (f \<circ> g) xs)"
  by (induction xs) (simp_all add: insort_key_map comp_def)

lemma insort_key_eq: "(\<And>y. y \<in> insert x (set xs) \<Longrightarrow> f y = g y) \<Longrightarrow> insort_key f x xs = insort_key g x xs"
  by (induction xs) auto

lemma sort_key_eq: "(\<And>x. x \<in> set xs \<Longrightarrow> f x = g x) \<Longrightarrow> sort_key f xs = sort_key g xs"
proof (induction xs)
  case (Cons x xs)
  then have "sort_key f xs = sort_key g xs" by simp
  with Cons.prems show ?case by (auto intro: insort_key_eq)
qed simp

lemma collect_results_map: "collect_results f (map g xs) = collect_results (f \<circ> g) xs"
  by (induction xs) simp_all

lemma collect_results_eq: "(\<And>x. x \<in> set xs \<Longrightarrow> f x = g x) \<Longrightarrow> collect_results f xs = collect_results g xs"
  by (induction xs) auto

lemma aggregate_loop_eq:
  "(\<And>i. f i = g i) \<Longrightarrow> aggregate_loop lib def f clauses outputs = aggregate_loop lib def g clauses outputs"
  by (rule arg_cong [where f = "\<lambda>f. aggregate_loop lib def f clauses outputs"]) (rule ext)

text \<open>
  The interface of the output cache: whenever a cache was built for some hits, looking up the rule of a hit
  gives the outputs of that hit.
\<close>

locale output_cache =
  fixes built :: "rule_output_cache \<Rightarrow> hit list \<Rightarrow> bool"
  assumes lookup: "built cache hits \<Longrightarrow> h \<in> set hits \<Longrightarrow> cache (rule_id (fst h)) = Some (snd h)"
begin

lemma cached_row: "built cache hits \<Longrightarrow> h \<in> set hits \<Longrightarrow> cached_outputs_for_rule cache (fst h) = Inr (hit_row h)"
  by (simp add: cached_outputs_for_rule_def lookup hit_row_def)

lemma cached_rows:
  "built cache hits \<Longrightarrow> set hs \<subseteq> set hits \<Longrightarrow> collect_results (cached_outputs_for_rule cache) (map fst hs) = Inr (map hit_row hs)"
  by (induction hs) (auto simp: cached_row)

lemma cached_merge:
  "built cache hits \<Longrightarrow> set hs \<subseteq> set hits
   \<Longrightarrow> merge_unique_loop cache (map fst hs) merged = Inr (foldl merge_row merged (map hit_row hs))"
  by (induction hs arbitrary: merged) (auto simp: cached_row)

lemma cached_conflict:
  "built cache hits \<Longrightarrow> set hs \<subseteq> set hits \<Longrightarrow>
   find_conflict cache row (map fst hs) = Inr (map_option fst (find (\<lambda>h. \<not> json_object_eq (hit_row h) row) hs))"
  by (induction hs) (auto simp: cached_row)

lemma cached_rank: "built cache hits \<Longrightarrow> h \<in> set hits \<Longrightarrow> output_priority_rank lib def cache (fst h) = hit_rank lib def h"
  by (simp add: output_priority_rank_def hit_rank_def lookup hit_row_def)

lemma cached_numbers:
  "built cache hits \<Longrightarrow> numeric_collect_values_at_index def (map fst hits) i cache = collect_results (hit_number def i) hits"
  unfolding numeric_collect_values_at_index_def collect_results_map
  by (rule collect_results_eq) (simp add: numeric_collect_value_def hit_number_def lookup hit_row_def)

lemma cached_order:
  assumes "built cache hits"
  shows "ordered_matches lib def cache (map fst hits) = rbind (ranked_hits lib def hits) (\<lambda>ordered. Inr (map fst ordered))"
proof -
  have "collect_results (output_priority_rank lib def cache) (map fst hits) = collect_results (hit_rank lib def) hits"
    unfolding collect_results_map by (rule collect_results_eq) (simp add: cached_rank [OF assms])
  moreover have "sort_key (\<lambda>r. unwrap_or 0 (output_priority_rank lib def cache r)) (map fst hits)
      = map fst (sort_key (\<lambda>h. unwrap_or 0 (hit_rank lib def h)) hits)"
    unfolding sort_key_map by (intro arg_cong [where f = "map fst"] sort_key_eq) (simp add: cached_rank [OF assms])
  ultimately show ?thesis
    by (simp add: ordered_matches_def sort_rules_by_output_priority_def ranked_hits_def rbind_assoc)
qed

lemma ranked_subset: "ranked_hits lib def hits = Inr ordered \<Longrightarrow> set ordered = set hits \<and> length ordered = length hits"
  by (auto simp: ranked_hits_def split: if_splits)

lemma cached_rows_result:
  "built cache hits \<Longrightarrow> set hs \<subseteq> set hits \<Longrightarrow> evaluate_rule_order_matches (map fst hs) cache = Inr (all_hits hs)"
  by (simp add: evaluate_rule_order_matches_def cached_rows all_hits_def rows_result_def only_rule_id_def)

lemma unique_hit:
  assumes "built cache hits" "matching_rules lib def inputs = Inr (map fst hits)"
  shows "evaluate_unique_hit lib def inputs cache strict = unique_outcome strict def hits"
proof (cases hits rule: remdups_adj.cases)
  case (3 h h' others)
  have "merge_unique_outputs_by_key (map fst hits) cache = Inr (foldl merge_row [] (map hit_row hits))"
    unfolding merge_unique_outputs_by_key_def by (rule cached_merge [OF assms(1)]) simp
  with 3 assms show ?thesis by (simp add: evaluate_unique_hit_def unique_outcome_def)
qed (use assms in \<open>simp_all add: evaluate_unique_hit_def unique_outcome_def single_hit_def cached_row\<close>)

lemma any_hit:
  assumes "built cache hits" "matching_rules lib def inputs = Inr (map fst hits)"
  shows "evaluate_any_hit lib def inputs cache strict = any_outcome strict def hits"
proof (cases hits)
  case (Cons h others)
  have "find_conflict cache (hit_row h) (map fst others)
      = Inr (map_option fst (find (\<lambda>h'. \<not> json_object_eq (hit_row h') (hit_row h)) others))"
    by (rule cached_conflict [OF assms(1)]) (use Cons in auto)
  moreover have "cached_outputs_for_rule cache (last (map fst hits)) = Inr (hit_row (last hits))"
  proof -
    have "hits \<noteq> []" using Cons by simp
    then show ?thesis using cached_row [OF assms(1) last_in_set] by (simp add: last_map)
  qed
  ultimately show ?thesis
    using assms Cons cached_row [OF assms(1), of h]
    by (auto simp: evaluate_any_hit_def any_outcome_def single_hit_def last_map split: option.splits)
qed (use assms in \<open>simp add: evaluate_any_hit_def any_outcome_def\<close>)

lemma output_order_hit:
  assumes "built cache hits" "matching_rules lib def inputs = Inr (map fst hits)"
  shows "evaluate_output_order_hit lib def inputs cache strict = output_order_outcome lib strict def hits"
  using assms ranked_subset cached_rows_result [OF assms(1)]
  by (auto simp: evaluate_output_order_hit_def output_order_outcome_def cached_order rbind_assoc intro!: rbind_cong)

lemma priority_hit:
  assumes "built cache hits" "matching_rules lib def inputs = Inr (map fst hits)"
  shows "evaluate_priority_hit lib def inputs cache strict = priority_outcome lib strict def hits"
proof -
  have "(case map fst ordered of [] \<Rightarrow> Inr empty_hit_result
         | r # _ \<Rightarrow> rbind (cached_outputs_for_rule cache r) (\<lambda>row.
             Inr ((single_row_result (Some (rule_id r)) (length (map fst ordered)) row)\<lparr>hit_validation := message\<rparr>)))
      = Inr (case ordered of [] \<Rightarrow> empty_hit_result | h # _ \<Rightarrow> (single_hit (length hits) h)\<lparr>hit_validation := message\<rparr>)"
    if "ranked_hits lib def hits = Inr ordered" for ordered message
    using ranked_subset [OF that] cached_row [OF assms(1)] by (cases ordered) (auto simp: single_hit_def)
  with assms show ?thesis
    by (auto simp: evaluate_priority_hit_def priority_outcome_def cached_order rbind_assoc intro!: rbind_cong)
qed

lemma collect_hit:
  assumes "built cache hits" "matching_rules lib def inputs = Inr (map fst hits)"
  shows "evaluate_collect_hit lib def inputs cache = collect_outcome lib def hits"
proof (cases "collect_operator def")
  case None
  with assms show ?thesis by (simp add: evaluate_collect_hit_def collect_outcome_def cached_rows_result [OF assms(1)])
next
  case (Some op)
  have "(if op = CollectCount then Inr (json_of_usize (length (map fst hits))) else collect_aggregate def (map fst hits) op i cache)
      = hits_aggregate def hits op i" for i
    by (cases op) (simp_all add: hits_aggregate_def collect_aggregate_def sum_collect_values_at_index_def
        cached_numbers [OF assms(1)] rbind_assoc)
  then have "(if op = CollectCount
       then aggregate_loop lib def (\<lambda>_. Inr (json_of_usize (length (map fst hits)))) clauses []
       else aggregate_loop lib def (\<lambda>i. collect_aggregate def (map fst hits) op i cache) clauses [])
      = aggregate_loop lib def (hits_aggregate def hits op) clauses []" for clauses
    by (auto intro!: aggregate_loop_eq split: if_splits)
  with Some assms show ?thesis
    by (simp add: evaluate_collect_hit_def collect_outcome_def evaluate_collect_aggregation_def)
qed

end

interpretation table: output_cache "\<lambda>cache hits. cache = cache_of Map.empty hits \<and> distinct (map (rule_id \<circ> fst) hits)"
proof
  fix cache hits and h :: hit
  assume "cache = cache_of Map.empty hits \<and> distinct (map (rule_id \<circ> fst) hits)" "h \<in> set hits"
  then show "cache (rule_id (fst h)) = Some (snd h)" by (cases h) (simp add: cache_of_hit)
qed

section \<open>The evaluation of a table\<close>

lemma first_hit_loop_hits:
  assumes "table_hits lib def inputs rs = Inr hs" "set hs \<subseteq> set hits" "distinct (map (rule_id \<circ> fst) hits)"
  shows "first_hit_loop lib def inputs (cache_of Map.empty hits) rs
         = Inr (case hs of [] \<Rightarrow> empty_hit_result | h # _ \<Rightarrow> single_hit 1 h)"
  using assms(1,2)
proof (induction rs arbitrary: hs)
  case (Cons r rs)
  from Cons.prems(1) obtain b where b: "rule_matches lib def inputs r = Inr b" by auto
  show ?case
  proof (cases b)
    case True
    with b Cons.prems obtain out rest where hs: "hs = (r, out) # rest" by auto
    then have "cached_outputs_for_rule (cache_of Map.empty hits) r = Inr (output_row out)"
      using cached_outputs_hit [OF assms(3), of r out] Cons.prems(2) by simp
    with b True hs show ?thesis by (simp add: single_hit_def hit_row_def)
  next
    case False
    with b Cons show ?thesis by simp
  qed
qed simp

lemma hit_policy_hits:
  assumes hits: "table_hits lib def inputs (rules def) = Inr hits" and ids: "distinct (map rule_id (rules def))"
  shows "evaluate_hit_policy lib def inputs (cache_of Map.empty hits) strict = hit_outcome lib strict def hits"
proof -
  have built: "cache_of Map.empty hits = cache_of Map.empty hits \<and> distinct (map (rule_id \<circ> fst) hits)"
    using table_hits_distinct [OF hits ids] by simp
  have matching: "matching_rules lib def inputs = Inr (map fst hits)"
    unfolding matching_rules_def by (rule matching_rules_hits [OF hits])
  show ?thesis
    using first_hit_loop_hits [OF hits order_refl] built matching
      table.unique_hit [OF built matching] table.any_hit [OF built matching] table.output_order_hit [OF built matching]
      table.priority_hit [OF built matching] table.collect_hit [OF built matching]
      table.cached_rows_result [OF built order_refl]
    by (cases "hit_policy def")
      (simp_all add: evaluate_hit_policy_def hit_outcome_def evaluate_first_hit_def evaluate_rule_order_hit_def evaluate_batch_hit_def)
qed

definition decide :: "dmn_lib \<Rightarrow> bool \<Rightarrow> dmn_decision_definition \<Rightarrow> json_map \<Rightarrow> dmn_error + hit_policy_evaluation" where
  "decide lib strict def inputs = rbind (table_hits lib def inputs (rules def)) (hit_outcome lib strict def)"

lemma evaluate_decision_table_hits:
  assumes "distinct (map rule_id (rules def))"
  shows "evaluate_decision_table lib strict def inputs =
    rbind (table_hits lib def inputs (rules def)) (\<lambda>hits.
    rbind (hit_outcome lib strict def hits) (\<lambda>evaluation.
    rbind (build_rule_execution_audit lib def inputs (cache_of Map.empty hits)) (\<lambda>audits.
      Inr (evaluation, apply_hit_policy_rule_messages audits evaluation))))"
  using hit_policy_hits [OF _ assms]
  by (auto simp: evaluate_decision_table_def precompute_matching_rule_outputs_def precompute_loop_hits rbind_assoc intro!: rbind_cong)

text \<open>
  C13. A table with distinct rule ids refines the promise of its hit policy: a result it returns is the one the
  policy gives for the matching rules, each with its own outputs, in table order.
\<close>

theorem decision_table_refines_policy:
  assumes "distinct (map rule_id (rules def))"
    and "evaluate_decision_table lib strict def inputs = Inr (evaluation, audits)"
  shows "decide lib strict def inputs = Inr evaluation"
  using assms(2) by (auto simp: evaluate_decision_table_hits [OF assms(1)] decide_def)

theorem decision_table_refines_policy_witness:
  "\<exists>ev audits. evaluate_decision_table example_lib False (graded_table HitUnique) [] = Inr (ev, audits)
     \<and> decide example_lib False (graded_table HitUnique) [] = Inr ev"
proof -
  have "\<not> isl (evaluate_decision_table example_lib False (graded_table HitUnique) [])" by code_simp
  then obtain ev audits where ev: "evaluate_decision_table example_lib False (graded_table HitUnique) [] = Inr (ev, audits)"
    by (auto dest: returned)
  have "distinct (map rule_id (rules (graded_table HitUnique)))" by code_simp
  from decision_table_refines_policy [OF this ev] ev show ?thesis by blast
qed

section \<open>Strict and lenient mode\<close>

lemma ensure_strict:
  "ensure_output_values_for_order_policy def rs True style = Inr m
   \<longleftrightarrow> m = None \<and> ensure_output_values_for_order_policy def rs False style = Inr None"
  by (auto simp: ensure_output_values_for_order_policy_def Let_def)

lemma rows_no_validation: "evaluate_rule_order_matches rs cache = Inr ev \<Longrightarrow> hit_validation ev = None"
  by (auto simp: evaluate_rule_order_matches_def rows_result_def split: if_splits)

lemma rbind_strict:
  "(\<And>x. m = Inr x \<Longrightarrow> f x = Inr y \<longleftrightarrow> g x = Inr y \<and> P) \<Longrightarrow> rbind m f = Inr y \<longleftrightarrow> rbind m g = Inr y \<and> P"
  by (cases m) auto

lemmas plain_results = single_row_result_def empty_hit_result_def

lemma unique_strict:
  "evaluate_unique_hit lib def inputs cache True = Inr ev
   \<longleftrightarrow> evaluate_unique_hit lib def inputs cache False = Inr ev \<and> hit_validation ev = None"
  unfolding evaluate_unique_hit_def
proof (rule rbind_strict)
  fix rs
  show "(case rs of [] \<Rightarrow> Inr empty_hit_result
      | [r] \<Rightarrow> rbind (cached_outputs_for_rule cache r) (\<lambda>row. Inr (single_row_result (Some (rule_id r)) 1 row))
      | _ \<Rightarrow> if True then Inl (unique_violation def rs)
             else rbind (merge_unique_outputs_by_key rs cache) (\<lambda>merged. Inr (unique_merged_result rs merged))) = Inr ev
    \<longleftrightarrow> (case rs of [] \<Rightarrow> Inr empty_hit_result
      | [r] \<Rightarrow> rbind (cached_outputs_for_rule cache r) (\<lambda>row. Inr (single_row_result (Some (rule_id r)) 1 row))
      | _ \<Rightarrow> if False then Inl (unique_violation def rs)
             else rbind (merge_unique_outputs_by_key rs cache) (\<lambda>merged. Inr (unique_merged_result rs merged))) = Inr ev
      \<and> hit_validation ev = None"
    by (cases rs rule: remdups_adj.cases) (auto simp: plain_results unique_merged_result_def)
qed

lemma any_strict:
  "evaluate_any_hit lib def inputs cache True = Inr ev
   \<longleftrightarrow> evaluate_any_hit lib def inputs cache False = Inr ev \<and> hit_validation ev = None"
  unfolding evaluate_any_hit_def
  by (rule rbind_strict, rename_tac rs, case_tac rs)
    (auto simp: plain_results any_conflict_result_def split: option.split_asm)

lemma output_order_strict:
  "evaluate_output_order_hit lib def inputs cache True = Inr ev
   \<longleftrightarrow> evaluate_output_order_hit lib def inputs cache False = Inr ev \<and> hit_validation ev = None"
  by (auto simp: evaluate_output_order_hit_def ensure_strict)

lemma ensure_cases:
  obtains "ensure_output_values_for_order_policy def rs True style = Inr None"
      "ensure_output_values_for_order_policy def rs False style = Inr None"
  | e m where "ensure_output_values_for_order_policy def rs True style = Inl e"
      "ensure_output_values_for_order_policy def rs False style = Inr (Some m)" "style \<longrightarrow> rs \<noteq> []"
proof (cases "has_any_output_values def \<or> (style \<and> length rs < 2)")
  case False
  then have "\<exists>e. ensure_output_values_for_order_policy def rs True style = Inl e"
    "\<exists>m. ensure_output_values_for_order_policy def rs False style = Inr (Some m)" "style \<longrightarrow> rs \<noteq> []"
    by (auto simp: ensure_output_values_for_order_policy_def Let_def)
  then show thesis using that(2) by blast
next
  case True
  then have "ensure_output_values_for_order_policy def rs b style = Inr None" for b
    by (auto simp: ensure_output_values_for_order_policy_def Let_def)
  then show thesis using that(1) by blast
qed

lemma ordered_matches_length: "ordered_matches lib def cache rs = Inr ordered \<Longrightarrow> length ordered = length rs"
  by (auto simp: ordered_matches_def sort_rules_by_output_priority_def split: if_splits)

lemma priority_strict:
  "evaluate_priority_hit lib def inputs cache True = Inr ev
   \<longleftrightarrow> evaluate_priority_hit lib def inputs cache False = Inr ev \<and> hit_validation ev = None"
  unfolding evaluate_priority_hit_def
proof (rule rbind_strict)
  fix rs
  let ?rest = "\<lambda>message. rbind (ordered_matches lib def cache rs) (\<lambda>ordered.
     case ordered of [] \<Rightarrow> Inr empty_hit_result
     | r # _ \<Rightarrow> rbind (cached_outputs_for_rule cache r) (\<lambda>row.
         Inr ((single_row_result (Some (rule_id r)) (length ordered) row)\<lparr>hit_validation := message\<rparr>)))"
  have message: "hit_validation ev = (if rs = [] then None else m)" if rest: "?rest m = Inr ev" for m
  proof -
    obtain ordered where ord: "ordered_matches lib def cache rs = Inr ordered"
      using rest by (cases "ordered_matches lib def cache rs") simp_all
    from ordered_matches_length [OF ord] rest ord show ?thesis
      by (cases ordered) (auto simp: plain_results)
  qed
  show "rbind (ensure_output_values_for_order_policy def rs True True) ?rest = Inr ev
    \<longleftrightarrow> rbind (ensure_output_values_for_order_policy def rs False True) ?rest = Inr ev \<and> hit_validation ev = None"
  proof (cases rule: ensure_cases [of def rs True])
    case 1
    then show ?thesis using message [of None] by (simp del: rbind_Inr_iff cong: if_cong) blast
  next
    case (2 e m)
    then show ?thesis using message [of "Some m"] by (auto simp del: rbind_Inr_iff)
  qed
qed

lemma first_no_validation: "first_hit_loop lib def inputs cache rs = Inr ev \<Longrightarrow> hit_validation ev = None"
  by (induction rs) (auto simp: plain_results split: if_splits)

lemma collect_no_validation: "evaluate_collect_hit lib def inputs cache = Inr ev \<Longrightarrow> hit_validation ev = None"
proof (cases "collect_operator def")
  case (Some op)
  moreover assume "evaluate_collect_hit lib def inputs cache = Inr ev"
  ultimately obtain rs where "evaluate_collect_aggregation lib def rs op cache = Inr ev" by (auto simp: evaluate_collect_hit_def)
  then show ?thesis
    unfolding evaluate_collect_aggregation_def by (cases "definition_outputs def = []") (simp, auto simp: plain_results)
qed (auto simp: evaluate_collect_hit_def dest: rows_no_validation)

text \<open>
  Strict mode only refuses: a table returns a result in strict mode exactly when it returns the same result,
  with the same audit, in lenient mode without a validation message.
\<close>

theorem strict_mode_only_refuses:
  "evaluate_decision_table lib True def inputs = Inr r
   \<longleftrightarrow> evaluate_decision_table lib False def inputs = Inr r \<and> hit_validation (fst r) = None"
proof -
  have "evaluate_hit_policy lib def inputs cache True = Inr ev
      \<longleftrightarrow> evaluate_hit_policy lib def inputs cache False = Inr ev \<and> hit_validation ev = None" for cache ev
    by (cases "hit_policy def")
      (auto simp: evaluate_hit_policy_def unique_strict any_strict output_order_strict priority_strict evaluate_first_hit_def
        evaluate_rule_order_hit_def evaluate_batch_hit_def dest: rows_no_validation first_no_validation collect_no_validation)
  then show ?thesis by (auto simp: evaluate_decision_table_def)
qed

section \<open>The order of OUTPUT ORDER and PRIORITY\<close>

lemma hd_sort_key_least:
  assumes "sort_key f xs = x # ys"
  shows "\<exists>pre post. xs = pre @ x # post \<and> (\<forall>y \<in> set pre. f x < f y) \<and> (\<forall>y \<in> set post. f x \<le> f y)"
  using assms
proof (induction xs arbitrary: x ys)
  case (Cons a xs)
  show ?case
  proof (cases "sort_key f xs")
    case Nil
    then have "xs = []" by (metis length_0_conv length_sort)
    with Cons.prems show ?thesis by (intro exI [of _ "[]"]) simp
  next
    case (Cons b bs)
    from Cons.IH [OF this] obtain pre post where
      xs: "xs = pre @ b # post" "\<forall>y \<in> set pre. f b < f y" "\<forall>y \<in> set post. f b \<le> f y" by blast
    show ?thesis
    proof (cases "f a \<le> f b")
      case True
      with Cons.prems Cons have "x = a" by simp
      moreover have "\<forall>y \<in> set xs. f a \<le> f y" using True xs by (auto simp: less_imp_le intro: order_trans)
      ultimately show ?thesis by (intro exI [of _ "[]"] exI [of _ xs]) simp
    next
      case False
      with Cons.prems Cons have "x = b" by simp
      with False xs show ?thesis by (intro exI [of _ "a # pre"] exI [of _ post]) auto
    qed
  qed
qed simp

text \<open>
  PRIORITY returns the best hit: with declared output values, the result is the row of a matching rule whose
  rank none of the other matching rules beats, and of the matching rules with that rank the first in
  the table; the count is the number of matching rules.
\<close>

theorem priority_takes_best_hit:
  assumes ids: "distinct (map rule_id (rules def))" and policy: "hit_policy def = HitPriority" "has_any_output_values def"
    and returns: "evaluate_decision_table lib strict def inputs = Inr (ev, audits)"
    and hits: "table_hits lib def inputs (rules def) = Inr hits" "hits \<noteq> []"
  shows "\<exists>pre best post. hits = pre @ best # post
    \<and> (\<forall>h \<in> set pre. unwrap_or 0 (hit_rank lib def best) < unwrap_or 0 (hit_rank lib def h))
    \<and> (\<forall>h \<in> set post. unwrap_or 0 (hit_rank lib def best) \<le> unwrap_or 0 (hit_rank lib def h))
    \<and> hit_rule_id ev = Some (rule_id (fst best)) \<and> hit_rows ev = row_list (hit_row best) \<and> hit_rule_count ev = length hits"
proof -
  let ?f = "\<lambda>h. unwrap_or 0 (hit_rank lib def h)"
  have "hit_outcome lib strict def hits = Inr ev"
    using returns hits by (auto simp: evaluate_decision_table_hits [OF ids])
  then have ev: "Inr ev = (Inr (case sort_key ?f hits of [] \<Rightarrow> empty_hit_result
      | h # _ \<Rightarrow> (single_hit (length hits) h)\<lparr>hit_validation := None\<rparr>) :: dmn_error + hit_policy_evaluation)"
    using policy by (auto simp: hit_outcome_def priority_outcome_def ranked_hits_def ensure_output_values_for_order_policy_def Let_def)
  obtain best others where "sort_key ?f hits = best # others"
    using hits(2) by (cases "sort_key ?f hits") (auto dest: arg_cong [where f = length])
  moreover from hd_sort_key_least [OF this] obtain pre post where "hits = pre @ best # post"
    "\<forall>h \<in> set pre. ?f best < ?f h" "\<forall>h \<in> set post. ?f best \<le> ?f h" by blast
  ultimately show ?thesis using ev
    by (intro exI [of _ pre] exI [of _ best] exI [of _ post]) (simp add: single_hit_def single_row_result_def)
qed

theorem priority_takes_best_hit_witness:
  "\<exists>ev audits hits pre best post. evaluate_decision_table example_lib True (graded_table HitPriority) [] = Inr (ev, audits)
     \<and> table_hits example_lib (graded_table HitPriority) [] (rules (graded_table HitPriority)) = Inr hits
     \<and> hits = pre @ best # post \<and> hit_rule_id ev = Some (rule_id (fst best)) \<and> hit_rule_count ev = length hits"
proof -
  let ?t = "graded_table HitPriority"
  have "\<not> isl (evaluate_decision_table example_lib True ?t [])" by code_simp
  then obtain ev audits where ev: "evaluate_decision_table example_lib True ?t [] = Inr (ev, audits)" by (auto dest: returned)
  have "map_sum id length (table_hits example_lib ?t [] (rules ?t)) = Inr 2" by code_simp
  then obtain hits where hits: "table_hits example_lib ?t [] (rules ?t) = Inr hits" "hits \<noteq> []"
    by (cases "table_hits example_lib ?t [] (rules ?t)") fastforce+
  have facts: "distinct (map rule_id (rules ?t))" "hit_policy ?t = HitPriority" "has_any_output_values ?t" by code_simp+
  from priority_takes_best_hit [OF facts ev hits] ev hits(1) show ?thesis by blast
qed

text \<open>
  OUTPUT ORDER lists every matching rule, by ascending rank, and keeps the table order among equal ranks.
\<close>

theorem output_order_is_stable_sort:
  assumes ids: "distinct (map rule_id (rules def))" and policy: "hit_policy def = HitOutputOrder" "has_any_output_values def"
    and returns: "evaluate_decision_table lib strict def inputs = Inr (ev, audits)"
    and hits: "table_hits lib def inputs (rules def) = Inr hits"
  shows "\<exists>ordered. hit_rows ev = map hit_row ordered \<and> mset ordered = mset hits
    \<and> sorted (map (\<lambda>h. unwrap_or 0 (hit_rank lib def h)) ordered)
    \<and> (\<forall>k. filter (\<lambda>h. unwrap_or 0 (hit_rank lib def h) = k) ordered = filter (\<lambda>h. unwrap_or 0 (hit_rank lib def h) = k) hits)"
proof -
  have "hit_outcome lib strict def hits = Inr ev"
    using returns hits by (auto simp: evaluate_decision_table_hits [OF ids])
  then have "hit_rows ev = map hit_row (sort_key (\<lambda>h. unwrap_or 0 (hit_rank lib def h)) hits)"
    using policy by (auto simp: hit_outcome_def output_order_outcome_def ranked_hits_def all_hits_def rows_result_def)
  then show ?thesis by (intro exI [of _ "sort_key (\<lambda>h. unwrap_or 0 (hit_rank lib def h)) hits"]) (simp add: sort_key_stable)
qed

theorem output_order_is_stable_sort_witness:
  "\<exists>ev audits hits ordered. evaluate_decision_table example_lib True (graded_table HitOutputOrder) [] = Inr (ev, audits)
     \<and> table_hits example_lib (graded_table HitOutputOrder) [] (rules (graded_table HitOutputOrder)) = Inr hits
     \<and> hit_rows ev = map hit_row ordered \<and> mset ordered = mset hits"
proof -
  let ?t = "graded_table HitOutputOrder"
  have "\<not> isl (evaluate_decision_table example_lib True ?t [])" "\<not> isl (table_hits example_lib ?t [] (rules ?t))" by code_simp+
  then obtain ev audits hits where ev: "evaluate_decision_table example_lib True ?t [] = Inr (ev, audits)"
    and hits: "table_hits example_lib ?t [] (rules ?t) = Inr hits" by (auto dest!: returned)
  have facts: "distinct (map rule_id (rules ?t))" "hit_policy ?t = HitOutputOrder" "has_any_output_values ?t" by code_simp+
  from output_order_is_stable_sort [OF facts ev hits] ev hits show ?thesis by blast
qed

section \<open>The audit\<close>

lemma collect_results_nth:
  "collect_results f xs = Inr ys \<Longrightarrow> length ys = length xs \<and> (\<forall>i < length xs. f (xs ! i) = Inr (ys ! i))"
proof (induction xs arbitrary: ys)
  case (Cons x xs)
  then obtain y ys' where y: "f x = Inr y" "collect_results f xs = Inr ys'" "ys = y # ys'" by auto
  from Cons.IH [OF y(2)] y show ?case by (auto simp: less_Suc_eq_0_disj)
qed simp

lemma condition_audit_Inr:
  "condition_audit lib inputs r (i, p) = Inr c \<longleftrightarrow>
   (\<exists>b. entry_matches lib inputs p = Inr b \<and> expression_result c = JsonBool b
     \<and> expression_execution_id c = (case input_entry_id (snd p) of Some n \<Rightarrow> n | None \<Rightarrow> rule_id r @ '':input:'' @ show_nat (i + 1)))"
  by (cases p; cases c) (auto simp: condition_audit_def)

lemma conditions_all_true:
  "collect_results (condition_audit lib inputs r) (enumerate k pairs) = Inr conditions
   \<Longrightarrow> list_all (\<lambda>c. json_eq (expression_result c) (JsonBool True)) conditions
       \<longleftrightarrow> every_test (entry_matches lib inputs) pairs = Inr True"
proof (induction pairs arbitrary: k conditions)
  case (Cons p pairs)
  then obtain c cs where c: "condition_audit lib inputs r (k, p) = Inr c" "conditions = c # cs"
    and cs: "collect_results (condition_audit lib inputs r) (enumerate (Suc k) pairs) = Inr cs"
    by (simp only: enumerate_simps collect_results.simps rbind_Inr_iff) blast
  from c(1) obtain b where "entry_matches lib inputs p = Inr b" "expression_result c = JsonBool b"
    unfolding condition_audit_Inr by blast
  with Cons.IH [OF cs] c(2) show ?case by simp
qed simp

lemma audited_conditions_return:
  "collect_results (condition_audit lib inputs r) (enumerate k pairs) = Inr conditions
   \<Longrightarrow> p \<in> set pairs \<Longrightarrow> \<exists>b. entry_matches lib inputs p = Inr b"
proof (induction pairs arbitrary: k conditions)
  case (Cons q pairs)
  then obtain c cs where "condition_audit lib inputs r (k, q) = Inr c"
    "collect_results (condition_audit lib inputs r) (enumerate (Suc k) pairs) = Inr cs"
    by (simp only: enumerate_simps collect_results.simps rbind_Inr_iff) blast
  with Cons show ?case unfolding condition_audit_Inr by auto
qed simp

lemma rule_audit_valid:
  "rule_audit lib def inputs cache (i, r) = Inr a \<Longrightarrow> valid a \<longleftrightarrow> rule_matches lib def inputs r = Inr True"
  by (auto simp: rule_audit_def rule_matches_def Let_def dest: conditions_all_true)

lemma rule_audit_fields:
  "rule_audit lib def inputs cache (i, r) = Inr a \<Longrightarrow> audit_rule_id a = rule_id r \<and> rule_number a = i + 1
   \<and> conclusion_results a = (if valid a then (case cache (rule_id r) of Some e \<Rightarrow> conclusions e | None \<Rightarrow> []) else [])"
  by (auto simp: rule_audit_def Let_def)

lemma apply_message_fields [simp]:
  "valid (apply_message ev a) = valid a" "audit_rule_id (apply_message ev a) = audit_rule_id a"
  "rule_number (apply_message ev a) = rule_number a" "conclusion_results (apply_message ev a) = conclusion_results a"
  by (simp_all add: apply_message_def Let_def split: option.splits)

lemma hit_outcome_count:
  "hit_outcome lib strict def hits = Inr ev \<Longrightarrow> hit_rule_count ev = (if hit_policy def = HitFirst then min 1 (length hits) else length hits)"
proof -
  assume ev: "hit_outcome lib strict def hits = Inr ev"
  have ranked: "ranked_hits lib def hits = Inr ordered \<Longrightarrow> length ordered = length hits" for ordered
    by (auto simp: ranked_hits_def split: if_splits)
  show ?thesis
  proof (cases "hit_policy def")
    case HitUnique
    with ev show ?thesis
      by (cases hits rule: remdups_adj.cases)
        (auto simp: hit_outcome_def unique_outcome_def single_hit_def plain_results unique_merged_result_def split: if_splits)
  next
    case HitPriority
    with ev obtain ordered m where o: "ranked_hits lib def hits = Inr ordered"
      and "ev = (case ordered of [] \<Rightarrow> empty_hit_result | h # _ \<Rightarrow> (single_hit (length hits) h)\<lparr>hit_validation := m\<rparr>)"
      unfolding hit_outcome_def priority_outcome_def by simp blast
    with HitPriority ranked [OF o] show ?thesis by (cases ordered) (auto simp: single_hit_def plain_results)
  next
    case HitCollect
    with ev show ?thesis
      by (auto simp: hit_outcome_def collect_outcome_def all_hits_def rows_result_def plain_results split: option.split_asm if_splits)
  next
    case HitAny
    with ev show ?thesis
      by (cases hits)
        (auto simp: hit_outcome_def any_outcome_def single_hit_def plain_results any_conflict_result_def split: option.split_asm if_splits)
  next
    case HitOutputOrder
    with ev ranked show ?thesis by (auto simp: hit_outcome_def output_order_outcome_def all_hits_def rows_result_def)
  next
    case HitFirst
    with ev show ?thesis by (cases hits) (auto simp: hit_outcome_def single_hit_def plain_results)
  qed (use ev in \<open>auto simp: hit_outcome_def all_hits_def rows_result_def\<close>)
qed

lemma length_filter_map_eq: "map P xs = map Q ys \<Longrightarrow> length (filter P xs) = length (filter Q ys)"
proof -
  have "length (filter P xs) = length (filter (\<lambda>b. b) (map P xs))" for P :: "'c \<Rightarrow> bool" and xs
    by (simp add: filter_map comp_def)
  then show "map P xs = map Q ys \<Longrightarrow> length (filter P xs) = length (filter Q ys)" by metis
qed

lemma table_hits_length:
  "table_hits lib def inputs rs = Inr hits \<Longrightarrow> length hits = length (filter (\<lambda>r. rule_matches lib def inputs r = Inr True) rs)"
proof (induction rs arbitrary: hits)
  case (Cons r rs)
  then obtain b where "rule_matches lib def inputs r = Inr b" by auto
  with Cons show ?case by (cases b) auto
qed simp

text \<open>
  The audit is faithful: one record per rule in table order, marked valid exactly when the rule matches, with the
  conclusions of its own outputs; and the reported number of matches is the number of valid records,
  capped at one for FIRST.
\<close>

theorem audit_faithful:
  assumes ids: "distinct (map rule_id (rules def))"
    and returns: "evaluate_decision_table lib strict def inputs = Inr (ev, audits)"
  shows "map audit_rule_id audits = map rule_id (rules def)
    \<and> (\<forall>i < length (rules def). rule_number (audits ! i) = i + 1
         \<and> (valid (audits ! i) \<longleftrightarrow> rule_matches lib def inputs (rules def ! i) = Inr True))
    \<and> hit_rule_count ev = (if hit_policy def = HitFirst then min 1 (length (filter valid audits)) else length (filter valid audits))"
proof -
  obtain hits base where hits: "table_hits lib def inputs (rules def) = Inr hits"
    and ev: "hit_outcome lib strict def hits = Inr ev"
    and base: "build_rule_execution_audit lib def inputs (cache_of Map.empty hits) = Inr base"
    and audits: "audits = map (apply_message ev) base"
    using returns by (auto simp: evaluate_decision_table_hits [OF ids] apply_hit_policy_rule_messages_def)
  have nth: "length base = length (rules def)"
    "i < length (rules def) \<Longrightarrow> rule_audit lib def inputs (cache_of Map.empty hits) (i, rules def ! i) = Inr (base ! i)" for i
    using collect_results_nth [OF base [unfolded build_rule_execution_audit_def]] by (simp_all add: nth_enumerate_eq)
  have same: "map audit_rule_id audits = map rule_id (rules def)"
    using nth rule_audit_fields [OF nth(2)] by (auto simp: audits intro!: nth_equalityI)
  have each: "\<forall>i < length (rules def). rule_number (audits ! i) = i + 1
     \<and> (valid (audits ! i) \<longleftrightarrow> rule_matches lib def inputs (rules def ! i) = Inr True)"
    using nth rule_audit_fields [OF nth(2)] rule_audit_valid [OF nth(2)] by (simp add: audits)
  have "map valid audits = map (\<lambda>r. rule_matches lib def inputs r = Inr True) (rules def)"
    using each nth(1) by (auto simp: audits intro!: nth_equalityI)
  then have "length (filter valid audits) = length hits"
    unfolding table_hits_length [OF hits] by (rule length_filter_map_eq)
  with hit_outcome_count [OF ev] same each show ?thesis by simp
qed

theorem audit_faithful_witness:
  "\<exists>ev audits. evaluate_decision_table example_lib False (graded_table HitAny) [] = Inr (ev, audits)
     \<and> map audit_rule_id audits = [''r1'', ''r2''] \<and> hit_rule_count ev = length (filter valid audits)"
proof -
  let ?t = "graded_table HitAny"
  have "\<not> isl (evaluate_decision_table example_lib False ?t [])" by code_simp
  then obtain ev audits where ev: "evaluate_decision_table example_lib False ?t [] = Inr (ev, audits)" by (auto dest: returned)
  have facts: "distinct (map rule_id (rules ?t))" "hit_policy ?t = HitAny" "map rule_id (rules ?t) = [''r1'', ''r2'']" by code_simp+
  from audit_faithful [OF facts(1) ev] facts(2,3) ev show ?thesis by auto
qed

section \<open>Rules that share an id\<close>

definition last_with_id :: "string \<Rightarrow> hit list \<Rightarrow> hit" where
  "last_with_id k hits = last (filter (\<lambda>h. rule_id (fst h) = k) hits)"

lemma cache_of_last:
  "k \<in> (rule_id \<circ> fst) ` set hits \<Longrightarrow> cache_of cache hits k = Some (snd (last_with_id k hits))"
proof (induction cache hits rule: cache_of.induct)
  case (2 cache r out hits)
  show ?case
  proof (cases "k \<in> (rule_id \<circ> fst) ` set hits")
    case True
    then have "filter (\<lambda>h. rule_id (fst h) = k) hits \<noteq> []" by (auto simp: filter_empty_conv)
    with 2 True show ?thesis by (auto simp: last_with_id_def fun_upd_def)
  next
    case False
    then have "filter (\<lambda>h. rule_id (fst h) = k) hits = []" by (auto simp: filter_empty_conv)
    moreover have "rule_id r = k" using 2(2) False by auto
    ultimately show ?thesis using cache_of_foreign [OF False] by (simp add: last_with_id_def)
  qed
qed simp

lemma rows_of_last:
  "set hs \<subseteq> set hits \<Longrightarrow> collect_results (cached_outputs_for_rule (cache_of Map.empty hits)) (map fst hs)
     = Inr (map (\<lambda>h. hit_row (last_with_id (rule_id (fst h)) hits)) hs)"
proof (induction hs)
  case (Cons h hs)
  then have "cache_of Map.empty hits (rule_id (fst h)) = Some (snd (last_with_id (rule_id (fst h)) hits))"
    by (intro cache_of_last) auto
  with Cons show ?case by (simp add: cached_outputs_for_rule_def hit_row_def)
qed simp

text \<open>
  The cache is keyed by rule id, so rules with one id share their outputs: a RULE ORDER table reports, for
  every matching rule, the row of the last matching rule with the same id. Deployment does not check
  that ids differ.
\<close>

theorem shared_id_shares_outputs:
  assumes "hit_policy def = HitRuleOrder" "table_hits lib def inputs (rules def) = Inr hits"
    and "evaluate_decision_table lib strict def inputs = Inr (ev, audits)"
  shows "hit_rows ev = map (\<lambda>h. hit_row (last_with_id (rule_id (fst h)) hits)) hits"
proof -
  have "matching_rules lib def inputs = Inr (map fst hits)"
    unfolding matching_rules_def by (rule matching_rules_hits [OF assms(2)])
  moreover have "evaluate_hit_policy lib def inputs (cache_of Map.empty hits) strict = Inr ev"
    using assms(2,3) by (auto simp: evaluate_decision_table_def precompute_matching_rule_outputs_def precompute_loop_hits)
  ultimately show ?thesis
    using rows_of_last [OF order_refl, of hits] assms(1)
    by (auto simp: evaluate_hit_policy_def evaluate_rule_order_hit_def evaluate_rule_order_matches_def rows_result_def split: if_splits)
qed

theorem shared_id_shares_outputs_witness:
  "\<exists>ev audits hits. hit_rows ev = [[(''grade'', JsonString ''high'')], [(''grade'', JsonString ''high'')]]
     \<and> map hit_row hits = [[(''grade'', JsonString ''low'')], [(''grade'', JsonString ''high'')]]
     \<and> table_hits example_lib (example_table HitRuleOrder [example_rule ''r'' ''low'' [], example_rule ''r'' ''high'' []]) []
         [example_rule ''r'' ''low'' [], example_rule ''r'' ''high'' []] = Inr hits
     \<and> evaluate_decision_table example_lib True
         (example_table HitRuleOrder [example_rule ''r'' ''low'' [], example_rule ''r'' ''high'' []]) [] = Inr (ev, audits)"
proof -
  let ?rs = "[example_rule ''r'' ''low'' [], example_rule ''r'' ''high'' []]"
  let ?t = "example_table HitRuleOrder ?rs"
  have "\<not> isl (evaluate_decision_table example_lib True ?t [])" by code_simp
  then obtain ev audits where ev: "evaluate_decision_table example_lib True ?t [] = Inr (ev, audits)" by (auto dest: returned)
  have "map_sum id (\<lambda>hits. (map hit_row hits, map (\<lambda>h. hit_row (last_with_id (rule_id (fst h)) hits)) hits))
          (table_hits example_lib ?t [] (rules ?t))
      = Inr ([[(''grade'', JsonString ''low'')], [(''grade'', JsonString ''high'')]],
             [[(''grade'', JsonString ''high'')], [(''grade'', JsonString ''high'')]])" by code_simp
  then obtain hits where hits: "table_hits example_lib ?t [] (rules ?t) = Inr hits"
    "map hit_row hits = [[(''grade'', JsonString ''low'')], [(''grade'', JsonString ''high'')]]"
    "map (\<lambda>h. hit_row (last_with_id (rule_id (fst h)) hits)) hits = [[(''grade'', JsonString ''high'')], [(''grade'', JsonString ''high'')]]"
    by (cases "table_hits example_lib ?t [] (rules ?t)") auto
  have "hit_policy ?t = HitRuleOrder" "rules ?t = ?rs" by (simp_all add: example_table_def)
  with shared_id_shares_outputs [OF this(1) hits(1) ev] hits ev show ?thesis by metis
qed

section \<open>Errors of entries that are not needed\<close>

text \<open>
  The audit evaluates every input entry: when one entry of one rule fails, the decision fails, even where an
  earlier entry of that rule is false and the matching of the rule stops there.
\<close>

theorem skipped_entry_error_surfaces:
  assumes "r \<in> set (rules def)" "p \<in> set (zip (definition_inputs def) (input_entries r))" "entry_matches lib inputs p = Inl e"
  shows "\<exists>e'. evaluate_decision_table lib strict def inputs = Inl e'"
proof (cases "evaluate_decision_table lib strict def inputs")
  case (Inr res)
  then obtain cache base where base: "build_rule_execution_audit lib def inputs cache = Inr base"
    by (auto simp: evaluate_decision_table_def)
  from assms(1) obtain i where i: "i < length (rules def)" "r = rules def ! i" by (auto simp: in_set_conv_nth)
  then have "rule_audit lib def inputs cache (i, r) = Inr (base ! i)"
    using collect_results_nth [OF base [unfolded build_rule_execution_audit_def]] by (simp add: nth_enumerate_eq)
  then obtain conditions where
    "collect_results (condition_audit lib inputs r) (enumerate 0 (zip (definition_inputs def) (input_entries r))) = Inr conditions"
    by (auto simp: rule_audit_def)
  from audited_conditions_return [OF this assms(2)] assms(3) show ?thesis by simp
qed blast

theorem skipped_entry_error_surfaces_witness:
  "rule_matches example_lib (example_table HitFirst [example_rule ''r'' ''low'' [TestEquals (JsonBool True), TestElCondition ''+'']]) []
      (example_rule ''r'' ''low'' [TestEquals (JsonBool True), TestElCondition ''+'']) = Inr False
   \<and> (\<exists>e. evaluate_decision_table example_lib True
        (example_table HitFirst [example_rule ''r'' ''low'' [TestEquals (JsonBool True), TestElCondition ''+'']]) [] = Inl e)"
proof -
  let ?r = "example_rule ''r'' ''low'' [TestEquals (JsonBool True), TestElCondition ''+'']"
  let ?t = "example_table HitFirst [?r]"
  have r: "?r \<in> set (rules ?t)" by (simp add: example_table_def)
  have p: "zip (definition_inputs ?t) (input_entries ?r) ! 1 \<in> set (zip (definition_inputs ?t) (input_entries ?r))"
    by (simp add: example_table_def example_rule_def)
  have "isl (entry_matches example_lib [] (zip (definition_inputs ?t) (input_entries ?r) ! 1))" by code_simp
  then obtain e where "entry_matches example_lib [] (zip (definition_inputs ?t) (input_entries ?r) ! 1) = Inl e"
    by (auto simp: isl_def)
  from skipped_entry_error_surfaces [OF r p this, of True] show ?thesis
    by (simp add: rule_matches_def entry_matches_def example_table_def example_rule_def input_of_def)
qed

section \<open>Priorities of numbers\<close>

lemma sort_key_const: "sort_key (\<lambda>_. c) xs = xs"
proof (induction xs)
  case (Cons x xs)
  then show ?case by (cases xs) simp_all
qed simp

lemma integer_not_float: "json_int v \<noteq> None \<Longrightarrow> \<not> json_eq v (json_of_f64 f) \<and> \<not> json_eq v JsonNull"
  by (cases v rule: json_int.cases) (auto simp: json_of_f64_def)

lemma position_None: "\<forall>x \<in> set xs. \<not> P x \<Longrightarrow> position P xs = None"
  by (induction xs) auto

lemma number_rank_zero:
  assumes "definition_outputs def = out # outs" "output_type_ref out = Some t"
    and "normalized_type_ref t = ''number'' \<or> normalized_type_ref t = ''double''"
    and "\<forall>v \<in> set (output_values out). json_int v \<noteq> None" "hit_rank lib def h = Inr n"
  shows "n = 0"
proof -
  obtain v w where w: "coerce_runtime_output_value lib def out v = Inr w"
    and n: "n = (case position (\<lambda>candidate. json_eq candidate w) (output_values out) of Some i \<Rightarrow> i + 1 | None \<Rightarrow> 0)"
    using assms(1,5) by (auto simp: hit_rank_def rank_from_def)
  have "w = JsonNull \<or> (\<exists>f. w = json_of_f64 f)"
  proof (cases "w = JsonNull")
    case False
    from coerced_output_type [OF w assms(2) this] assms(3) show ?thesis by (auto simp: has_type_def)
  qed simp
  then have "position (\<lambda>candidate. json_eq candidate w) (output_values out) = None"
    using assms(4) integer_not_float by (intro position_None) blast
  with n show ?thesis by simp
qed

text \<open>
  Output values of type number do not order anything when they are written as integers: the runtime turns
  outputs into floats, the declared values stay integers, the two never compare equal, and PRIORITY
  returns the first matching rule whatever order the values declare.
\<close>

theorem integer_priorities_ignored:
  assumes ids: "distinct (map rule_id (rules def))" and policy: "hit_policy def = HitPriority"
    and out: "definition_outputs def = out # outs" "output_type_ref out = Some t"
      "normalized_type_ref t = ''number'' \<or> normalized_type_ref t = ''double''"
      "\<forall>v \<in> set (output_values out). json_int v \<noteq> None"
    and hits: "table_hits lib def inputs (rules def) = Inr (h # hs)"
    and returns: "evaluate_decision_table lib strict def inputs = Inr (ev, audits)"
  shows "hit_rule_id ev = Some (rule_id (fst h)) \<and> hit_rows ev = row_list (hit_row h)"
proof -
  have outcome: "priority_outcome lib strict def (h # hs) = Inr ev"
    using returns hits policy by (auto simp: evaluate_decision_table_hits [OF ids] hit_outcome_def)
  have zero: "unwrap_or 0 (hit_rank lib def g) = 0" for g
    using number_rank_zero [OF out] by (cases "hit_rank lib def g") (auto simp: unwrap_or_def)
  have "ranked_hits lib def (h # hs) = Inr ordered \<Longrightarrow> ordered = h # hs" for ordered
    unfolding ranked_hits_def zero sort_key_const by (auto split: if_splits)
  then have "rbind (ranked_hits lib def (h # hs)) f = Inr ev \<Longrightarrow> f (h # hs) = Inr ev" for f :: "hit list \<Rightarrow> dmn_error + hit_policy_evaluation"
    by auto
  with outcome show ?thesis
    unfolding priority_outcome_def by (fastforce simp: single_hit_def plain_results simp del: rbind_Inr_iff dest: rbind_Inr_iff [THEN iffD1])
qed

definition numbered_table :: dmn_decision_definition where
  "numbered_table = (example_table HitPriority
     (map (\<lambda>(i, n). (example_rule i [] [])\<lparr>output_entries := [\<lparr>output_entry_id = None, output_value = JsonNumber (PosInt n), output_expression = []\<rparr>]\<rparr>)
       [(''standard'', 1), (''urgent'', 2)]))
     \<lparr>definition_outputs := [example_clause\<lparr>output_type_ref := Some ''number'', output_values := [JsonNumber (PosInt 2), JsonNumber (PosInt 1)]\<rparr>]\<rparr>"

theorem integer_priorities_ignored_witness:
  "\<exists>ev audits. evaluate_decision_table example_lib True numbered_table [] = Inr (ev, audits) \<and> hit_rule_id ev = Some ''standard''"
proof -
  let ?t = numbered_table
  have "\<not> isl (evaluate_decision_table example_lib True ?t [])" by code_simp
  then obtain ev audits where ev: "evaluate_decision_table example_lib True ?t [] = Inr (ev, audits)" by (auto dest: returned)
  have "map_sum id (map (rule_id \<circ> fst)) (table_hits example_lib ?t [] (rules ?t)) = Inr [''standard'', ''urgent'']" by code_simp
  then obtain h hs where hits: "table_hits example_lib ?t [] (rules ?t) = Inr (h # hs)" "rule_id (fst h) = ''standard''"
    by (cases "table_hits example_lib ?t [] (rules ?t)") auto
  have facts: "distinct (map rule_id (rules ?t))" "hit_policy ?t = HitPriority"
    "definition_outputs ?t = hd (definition_outputs ?t) # []" "output_type_ref (hd (definition_outputs ?t)) = Some ''number''"
    "normalized_type_ref ''number'' = ''number'' \<or> normalized_type_ref ''number'' = ''double''"
    "\<forall>v \<in> set (output_values (hd (definition_outputs ?t))). json_int v \<noteq> None" by code_simp+
  from integer_priorities_ignored [OF facts hits(1) ev] hits(2) ev show ?thesis by auto
qed

end
