(* ===== verification/Dmn_Decisions.thy ===== *)
theory Dmn_Decisions
  imports Dmn_Store Dmn_Tables
begin

text \<open>
  Execution of decisions (\<open>flowable-dmn-engine/src/runtime.rs\<close>): a decision table on coerced inputs with its history
  row, the decisions it requires before it, and decision services.

  The state an execution threads through is \<open>decision_run\<close>: the variables (\<open>context\<close>), the sets \<open>resolved\<close> and
  \<open>visiting\<close> as lists with the last insertion first, and the store, where only history rows are added. Every history row is
  committed on its own, so an execution returns its state on an error too. \<open>decision_env\<close> holds the library, the
  strict mode, and the ids and times drawn by the executions, by their number. Recursion into required decisions is bounded by fuel;
  \<open>None\<close> is that the fuel did not suffice.
\<close>

section \<open>One decision\<close>

record decision_env =
  env_lib :: dmn_lib
  env_strict_mode :: bool
  env_uuid :: "nat \<Rightarrow> string"
  env_now :: "nat \<Rightarrow> string"

definition persist_history :: "dmn_lib \<Rightarrow> historic_decision_execution \<Rightarrow> dmn_store \<Rightarrow> dmn_error + dmn_store" where
  "persist_history lib historic store =
     rbind (insert_unique lib ''ACT_DMN_HI_EXECUTION'' history_entity_execution_id
              \<lparr>history_entity_execution_id = result_execution_id historic, history_entity_decision_key = decision_key historic,
               history_entity_definition_id = decision_definition_id historic, history_entity_deployment_id = result_deployment_id historic,
               history_entity_business_key = result_business_key historic, history_entity_tenant = historic_tenant_id historic,
               history_entity_instance_id = historic_instance_id historic,
               history_entity_scope_execution_id = historic_scope_execution_id historic,
               history_entity_activity_id = historic_activity_id historic, history_entity_scope_type = historic_scope_type historic,
               history_entity_executed_at = executed_at historic, history_entity_data = historic\<rparr> (history_rows store)) (\<lambda>rows.
       Inr (store\<lparr>history_rows := rows\<rparr>))"

definition failed_history_record :: "decision_env \<Rightarrow> nat \<Rightarrow> dmn_decision_definition \<Rightarrow> dmn_execution_request \<Rightarrow> json_map
    \<Rightarrow> historic_decision_execution" where
  "failed_history_record env n def request inputs =
     \<lparr>result_execution_id = ''dmn-execution:'' @ env_uuid env n, decision_definition_id = definition_id def,
      result_deployment_id = definition_deployment_id def, decision_key = definition_key def, decision_name = definition_name def,
      decision_version = definition_version def, result_hit_policy = hit_policy def, matched_rule_id = None,
      matched_rule_count = 0, rule_executions = [], result_business_key = business_key request, executed_at = env_now env n,
      result_inputs = inputs, decision_result = [], multiple_results = False, decision_service_result = None,
      validation_message = None, historic_tenant_id = request_tenant_id request, historic_instance_id = instance_id request,
      historic_scope_execution_id = request_execution_id request, historic_activity_id = activity_id request,
      historic_scope_type = scope_type request, historic_failed = True\<rparr>"

definition new_execution_result :: "decision_env \<Rightarrow> nat \<Rightarrow> dmn_decision_definition \<Rightarrow> dmn_execution_request \<Rightarrow> json_map
    \<Rightarrow> hit_policy_evaluation \<Rightarrow> dmn_rule_execution_audit list \<Rightarrow> dmn_execution_result" where
  "new_execution_result env n def request inputs evaluation audits =
     \<lparr>result_execution_id = ''dmn-execution:'' @ env_uuid env n, decision_definition_id = definition_id def,
      result_deployment_id = definition_deployment_id def, decision_key = definition_key def, decision_name = definition_name def,
      decision_version = definition_version def, result_hit_policy = hit_policy def, matched_rule_id = hit_rule_id evaluation,
      matched_rule_count = hit_rule_count evaluation, rule_executions = audits, result_business_key = business_key request,
      executed_at = env_now env n, result_inputs = inputs, decision_result = hit_rows evaluation,
      multiple_results = hit_multiple evaluation, decision_service_result = None, validation_message = hit_validation evaluation\<rparr>"

definition new_history_record :: "dmn_execution_result \<Rightarrow> dmn_execution_request \<Rightarrow> historic_decision_execution" where
  "new_history_record result request =
     dmn_execution_result.extend result
       (historic_decision_execution.fields (request_tenant_id request) (instance_id request) (request_execution_id request)
          (activity_id request) (scope_type request) False)"

definition not_an_object :: dmn_error where
  "not_an_object = DmnExecution ''DMN execution variables must be a JSON object''"

definition execute_definition :: "decision_env \<Rightarrow> dmn_decision_definition \<Rightarrow> dmn_execution_request \<Rightarrow> dmn_store \<Rightarrow> nat
    \<Rightarrow> (dmn_error + dmn_execution_result) \<times> dmn_store \<times> nat" where
  "execute_definition env def request store n =
     (case rbind (ok_or not_an_object (as_object (variables request))) (coerce_inputs_for_type_refs (env_lib env) def) of
        Inl e \<Rightarrow> (Inl e, store, n)
      | Inr inputs \<Rightarrow>
          (case evaluate_decision_table (env_lib env) (env_strict_mode env) def inputs of
             Inl e \<Rightarrow>
               if disable_history request then (Inl e, store, n)
               else (case persist_history (env_lib env) (failed_history_record env n def request inputs) store of
                       Inl e' \<Rightarrow> (Inl e', store, Suc n)
                     | Inr store \<Rightarrow> (Inl e, store, Suc n))
           | Inr (evaluation, audits) \<Rightarrow>
               let result = new_execution_result env n def request inputs evaluation audits in
               if disable_history request then (Inr result, store, Suc n)
               else (case persist_history (env_lib env) (new_history_record result request) store of
                       Inl e \<Rightarrow> (Inl e, store, Suc n)
                     | Inr store \<Rightarrow> (Inr result, store, Suc n))))"

section \<open>Required decisions\<close>

record decision_run =
  run_context :: json_map
  run_resolved :: "string list"
  run_visiting :: "string list"
  run_store :: dmn_store
  run_count :: nat

type_synonym 'a run_outcome = "((dmn_error + 'a) \<times> decision_run) option"

definition lookup_decision :: "decision_env \<Rightarrow> dmn_execution_request \<Rightarrow> dmn_store \<Rightarrow> string \<Rightarrow> dmn_error + dmn_decision_definition" where
  "lookup_decision env request store key =
     latest_decision_by_key_with_fallback (env_lib env) store key (request_tenant_id request)
       (request_parent_deployment_id request) (fallback_to_default_tenant request)"

fun required_loop :: "(dmn_decision_definition \<Rightarrow> decision_run \<Rightarrow> dmn_execution_result run_outcome)
    \<Rightarrow> (decision_run \<Rightarrow> string \<Rightarrow> dmn_error + dmn_decision_definition) \<Rightarrow> string list \<Rightarrow> decision_run \<Rightarrow> unit run_outcome" where
  "required_loop step lookup [] run = Some (Inr (), run)"
| "required_loop step lookup (key # keys) run =
     (if key \<in> set (run_resolved run) then required_loop step lookup keys run
      else case lookup run key of
             Inl e \<Rightarrow> Some (Inl e, run)
           | Inr def \<Rightarrow>
               (case step def run of
                  None \<Rightarrow> None
                | Some (Inl e, run) \<Rightarrow> Some (Inl e, run)
                | Some (Inr _, run) \<Rightarrow> required_loop step lookup keys run))"

definition cyclic_requirement :: "string \<Rightarrow> dmn_error" where
  "cyclic_requirement key = DmnExecution (''Cyclic DMN decision requirement detected at '' @ in_quotes key)"

definition run_definition :: "decision_env \<Rightarrow> dmn_decision_definition \<Rightarrow> dmn_execution_request \<Rightarrow> decision_run
    \<Rightarrow> (dmn_error + dmn_execution_result) \<times> decision_run" where
  "run_definition env def request run =
     (case execute_definition env def (request\<lparr>variables := JsonObject (run_context run)\<rparr>) (run_store run) (run_count run) of
        (Inl e, store, n) \<Rightarrow> (Inl e, run\<lparr>run_store := store, run_count := n\<rparr>)
      | (Inr result, store, n) \<Rightarrow>
          (Inr result, run\<lparr>run_context := map_extend (run_context run) (stack_variables result),
             run_resolved := definition_key def # run_resolved run,
             run_visiting := removeAll (definition_key def) (run_visiting run), run_store := store, run_count := n\<rparr>))"

fun execute_definition_with_dependencies :: "nat \<Rightarrow> decision_env \<Rightarrow> dmn_execution_request \<Rightarrow> dmn_decision_definition \<Rightarrow> decision_run
    \<Rightarrow> dmn_execution_result run_outcome" where
  "execute_definition_with_dependencies 0 env request def run = None"
| "execute_definition_with_dependencies (Suc fuel) env request def run =
     (if definition_key def \<in> set (run_visiting run) then Some (Inl (cyclic_requirement (definition_key def)), run)
      else case required_loop (execute_definition_with_dependencies fuel env request) (lookup_decision env request \<circ> run_store)
                  (required_decisions def) (run\<lparr>run_visiting := definition_key def # run_visiting run\<rparr>) of
             None \<Rightarrow> None
           | Some (Inl e, run) \<Rightarrow> Some (Inl e, run)
           | Some (Inr _, run) \<Rightarrow> Some (run_definition env def request run))"

section \<open>Decision services and the entry point\<close>

fun btree_insert :: "string \<Rightarrow> 'a \<Rightarrow> (string \<times> 'a) list \<Rightarrow> (string \<times> 'a) list" where
  "btree_insert k v [] = [(k, v)]"
| "btree_insert k v ((l, w) # entries) =
     (if k = l then (k, v) # entries
      else if string_less k l then (k, v) # (l, w) # entries
      else (l, w) # btree_insert k v entries)"

record service_outputs =
  output_result :: "dmn_execution_result option"
  service_matched :: nat
  service_audits :: "dmn_rule_execution_audit list"
  service_results :: "(string \<times> json_map list) list"
  service_multiple :: bool
  flattened_result :: "json_map list"

definition add_output :: "string \<Rightarrow> dmn_execution_result \<Rightarrow> service_outputs \<Rightarrow> service_outputs" where
  "add_output key result acc =
     \<lparr>output_result = Some result, service_matched = service_matched acc + matched_rule_count result,
      service_audits = service_audits acc @ rule_executions result,
      service_results = (if decision_result result = [] then service_results acc
                         else btree_insert key (decision_result result) (service_results acc)),
      service_multiple = service_multiple acc \<or> multiple_results result,
      flattened_result = flattened_result acc @ decision_result result\<rparr>"

fun output_loop :: "(dmn_decision_definition \<Rightarrow> decision_run \<Rightarrow> dmn_execution_result run_outcome)
    \<Rightarrow> (decision_run \<Rightarrow> string \<Rightarrow> dmn_error + dmn_decision_definition) \<Rightarrow> string list \<Rightarrow> service_outputs \<Rightarrow> decision_run
    \<Rightarrow> service_outputs run_outcome" where
  "output_loop step lookup [] acc run = Some (Inr acc, run)"
| "output_loop step lookup (key # keys) acc run =
     (if key \<in> set (run_resolved run) then output_loop step lookup keys acc run
      else case lookup run key of
             Inl e \<Rightarrow> Some (Inl e, run)
           | Inr def \<Rightarrow>
               (case step def run of
                  None \<Rightarrow> None
                | Some (Inl e, run) \<Rightarrow> Some (Inl e, run)
                | Some (Inr result, run) \<Rightarrow> output_loop step lookup keys (add_output key result acc) run))"

definition service_result :: "decision_service \<Rightarrow> dmn_deployment \<Rightarrow> dmn_execution_request \<Rightarrow> json_map \<Rightarrow> service_outputs
    \<Rightarrow> dmn_execution_result \<Rightarrow> dmn_execution_result" where
  "service_result service deployment request inputs acc last_output =
     \<lparr>result_execution_id = result_execution_id last_output,
      decision_definition_id = ''dmn-decision-service:'' @ deployment_id deployment @ '':'' @ service_id service,
      result_deployment_id = deployment_id deployment, decision_key = service_id service, decision_name = service_name service,
      decision_version = 1, result_hit_policy = result_hit_policy last_output,
      matched_rule_id = (if length (output_decisions service) = 1 then matched_rule_id last_output else None),
      matched_rule_count = service_matched acc, rule_executions = service_audits acc, result_business_key = business_key request,
      executed_at = executed_at last_output, result_inputs = inputs,
      decision_result = (if length (output_decisions service) = 1
                         then (case service_results acc of [] \<Rightarrow> [] | (_, rows) # _ \<Rightarrow> rows)
                         else flattened_result acc),
      multiple_results = service_multiple acc, decision_service_result = Some (service_results acc),
      validation_message = validation_message last_output\<rparr>"

definition execute_decision_service_by_key :: "nat \<Rightarrow> decision_env \<Rightarrow> string \<Rightarrow> dmn_execution_request \<Rightarrow> dmn_store \<Rightarrow> nat
    \<Rightarrow> dmn_execution_result run_outcome" where
  "execute_decision_service_by_key fuel env key request store n =
     (let run0 = \<lparr>run_context = [], run_resolved = [], run_visiting = [], run_store = store, run_count = n\<rparr>;
          step = execute_definition_with_dependencies fuel env request;
          lookup = lookup_decision env request \<circ> run_store
      in case latest_decision_service_by_key store key (request_tenant_id request) (request_parent_deployment_id request)
                (fallback_to_default_tenant request) of
           None \<Rightarrow> Some (Inl (DmnNotFound (''DMN decision or decision service '' @ in_quotes key @ '' was not found'')), run0)
         | Some (service, deployment) \<Rightarrow>
             (case as_object (variables request) of
                None \<Rightarrow> Some (Inl not_an_object, run0)
              | Some context \<Rightarrow>
                  (case required_loop step lookup (service_required_decisions service) (run0\<lparr>run_context := context\<rparr>) of
                     None \<Rightarrow> None
                   | Some (Inl e, run) \<Rightarrow> Some (Inl e, run)
                   | Some (Inr _, run) \<Rightarrow>
                       (case output_loop step lookup (output_decisions service)
                               \<lparr>output_result = None, service_matched = 0, service_audits = [], service_results = [],
                                service_multiple = length (output_decisions service) > 1, flattened_result = []\<rparr> run of
                          None \<Rightarrow> None
                        | Some (Inl e, run) \<Rightarrow> Some (Inl e, run)
                        | Some (Inr acc, run) \<Rightarrow>
                            (case output_result acc of
                               None \<Rightarrow> Some (Inl (DmnExecution (''DMN decision service '' @ in_quotes key
                                              @ '' did not declare executable decisions'')), run)
                             | Some last_output \<Rightarrow> Some (Inr (service_result service deployment request context acc last_output), run))))))"

definition execute_by_key :: "nat \<Rightarrow> decision_env \<Rightarrow> string \<Rightarrow> dmn_execution_request \<Rightarrow> dmn_store \<Rightarrow> nat
    \<Rightarrow> dmn_execution_result run_outcome" where
  "execute_by_key fuel env key request store n =
     (let run0 = \<lparr>run_context = [], run_resolved = [], run_visiting = [], run_store = store, run_count = n\<rparr>
      in case lookup_decision env request store key of
           Inr def \<Rightarrow>
             (case as_object (variables request) of
                None \<Rightarrow> Some (Inl not_an_object, run0)
              | Some context \<Rightarrow> execute_definition_with_dependencies fuel env request def (run0\<lparr>run_context := context\<rparr>))
         | Inl (DmnNotFound _) \<Rightarrow> execute_decision_service_by_key fuel env key request store n
         | Inl e \<Rightarrow> Some (Inl e, run0))"

end
