(* ===== verification/Dmn_Requirements.thy ===== *)
theory Dmn_Requirements
  imports Dmn_Decisions
begin

text \<open>
  The execution of required decisions: it ends, it runs every decision after the ones it requires and none twice, and a
  cycle of requirements is rejected. The locale \<open>decision_requirements\<close> states the requirement graph over a lookup of
  decisions by key; it is interpreted on the lookup of the repository.
\<close>

section \<open>The requirement graph\<close>

text \<open>\<open>(k, k')\<close> is in \<open>requires\<close> when the decision found for \<open>k\<close> requires \<open>k'\<close>.\<close>

definition requires :: "(string \<Rightarrow> dmn_error + dmn_decision_definition) \<Rightarrow> (string \<times> string) set" where
  "requires find_decision = {(k, k'). \<exists>d. find_decision k = Inr d \<and> k' \<in> set (required_decisions d)}"

text \<open>The keys of executed decisions, the last one first: distinct, and each after all it requires.\<close>

fun in_order :: "(string \<Rightarrow> dmn_error + dmn_decision_definition) \<Rightarrow> string list \<Rightarrow> bool" where
  "in_order find_decision [] = True"
| "in_order find_decision (k # ks) =
     (k \<notin> set ks \<and> (\<exists>d. find_decision k = Inr d \<and> set (required_decisions d) \<subseteq> set ks) \<and> in_order find_decision ks)"

locale decision_requirements =
  fixes find_decision :: "string \<Rightarrow> dmn_error + dmn_decision_definition"
  assumes found_key: "find_decision k = Inr d \<Longrightarrow> definition_key d = k"
begin

abbreviation "requirements \<equiv> requires find_decision"

abbreviation "ordered \<equiv> in_order find_decision"

lemma in_order_distinct: "ordered ks \<Longrightarrow> distinct ks"
  by (induction ks) auto

lemma in_order_step: "ordered ks \<Longrightarrow> k \<in> set ks \<Longrightarrow> (k, k') \<in> requirements \<Longrightarrow> \<exists>pre post. ks = pre @ k # post \<and> k' \<in> set post"
proof (induction ks)
  case (Cons l ks)
  show ?case
  proof (cases "k = l")
    case True
    with Cons.prems have "k' \<in> set ks" by (auto simp: requires_def)
    with True show ?thesis by (metis append_Nil)
  next
    case False
    with Cons obtain pre post where "ks = pre @ k # post" "k' \<in> set post" by auto
    then show ?thesis by (metis append_Cons)
  qed
qed simp

lemma in_order_suffix: "ordered (pre @ ks) \<Longrightarrow> ordered ks"
  by (induction pre) auto

lemma in_order_path:
  "(k, k') \<in> requirements\<^sup>+ \<Longrightarrow> ordered ks \<Longrightarrow> k \<in> set ks \<Longrightarrow> \<exists>pre post. ks = pre @ k # post \<and> k' \<in> set post"
proof (induction rule: trancl.induct)
  case (r_into_trancl a b)
  then show ?case by (rule in_order_step [rotated -1])
next
  case (trancl_into_trancl a b c)
  then obtain pre post where ks: "ks = pre @ a # post" "b \<in> set post" by blast
  then have "ordered post" using trancl_into_trancl.prems(1) in_order_suffix [of "pre @ [a]" post] by simp
  with in_order_step ks(2) trancl_into_trancl.hyps(2) have "c \<in> set post" by fastforce
  with ks(1) show ?case by blast
qed

lemma in_order_acyclic: "ordered ks \<Longrightarrow> k \<in> set ks \<Longrightarrow> (k, k) \<notin> requirements\<^sup>+"
proof
  assume ks: "ordered ks" "k \<in> set ks" and "(k, k) \<in> requirements\<^sup>+"
  then obtain pre post where "ks = pre @ k # post" "k \<in> set post" using in_order_path by blast
  with in_order_distinct [OF ks(1)] show False by simp
qed

lemma in_order_closed:
  assumes "(k, k') \<in> requirements\<^sup>*" "ordered ks" "k \<in> set ks"
  shows "k' \<in> set ks"
proof (cases "k = k'")
  case False
  with assms(1) have "(k, k') \<in> requirements\<^sup>+" by (auto simp: rtrancl_eq_or_trancl)
  from in_order_path [OF this assms(2,3)] show ?thesis by auto
qed (use assms in simp)

end

section \<open>The lookup of the repository\<close>

lemma single_result_key:
  assumes "decision_single_result store (key_query key tenant) = Some def"
  shows "definition_key def = key" "def \<in> decision_entity_data ` set (decision_rows store)"
proof -
  from assms have "def \<in> set (decision_query_list store (key_query key tenant))"
    by (auto simp: decision_single_result_def first_of_def split: list.splits)
  then show "definition_key def = key" "def \<in> decision_entity_data ` set (decision_rows store)"
    by (auto simp: key_query_list found_by_def)
qed

lemma parent_scoped_key:
  assumes "parent_scoped_decision lib store key tenant parent = Some def"
  shows "definition_key def = key" "def \<in> decision_entity_data ` set (decision_rows store)"
proof -
  from assms have "def \<in> set (decision_query_list store (key_query key tenant))"
    by (auto simp: parent_scoped_decision_def Let_def find_Some_iff split: if_splits)
  then show "definition_key def = key" "def \<in> decision_entity_data ` set (decision_rows store)"
    by (auto simp: key_query_list found_by_def)
qed

lemma lookup_decision_key:
  assumes "lookup_decision env request store key = Inr def"
  shows "definition_key def = key" "def \<in> decision_entity_data ` set (decision_rows store)"
proof -
  from assms have "(\<exists>p. parent_scoped_decision (env_lib env) store key (request_tenant_id request) p = Some def)
    \<or> decision_single_result store (key_query key (request_tenant_id request)) = Some def
    \<or> decision_single_result store (key_query key None) = Some def"
    by (auto simp: lookup_decision_def latest_decision_by_key_with_fallback_def bind_eq_Some_conv
        split: option.splits if_splits elim!: ok_or.elims)
  then show "definition_key def = key" "def \<in> decision_entity_data ` set (decision_rows store)"
    using parent_scoped_key single_result_key by metis+
qed

interpretation repo: decision_requirements "lookup_decision env request store" for env request store
  by unfold_locales (rule lookup_decision_key)

lemma lookup_decision_history [simp]: "lookup_decision env request (store\<lparr>history_rows := h\<rparr>) key = lookup_decision env request store key"
proof -
  have "decision_query_list (store\<lparr>history_rows := h\<rparr>) = decision_query_list store"
    by (simp add: decision_query_list_def fun_eq_iff)
  moreover have "deployment_matches (env_lib env) (store\<lparr>history_rows := h\<rparr>) = deployment_matches (env_lib env) store"
    by (simp add: deployment_matches_def fun_eq_iff split: option.split)
  then have "deployment_query_list (env_lib env) (store\<lparr>history_rows := h\<rparr>) = deployment_query_list (env_lib env) store"
    by (intro ext) (simp add: deployment_query_list_def)
  ultimately have "decision_single_result (store\<lparr>history_rows := h\<rparr>) = decision_single_result store"
    "parent_scoped_decision (env_lib env) (store\<lparr>history_rows := h\<rparr>) = parent_scoped_decision (env_lib env) store"
    by (intro ext, simp add: decision_single_result_def parent_scoped_decision_def)+
  then show ?thesis unfolding lookup_decision_def latest_decision_by_key_with_fallback_def by (simp only:)
qed

section \<open>What an execution changes\<close>

text \<open>The rows of \<open>store\<close> with history rows added.\<close>

definition extends_history :: "dmn_store \<Rightarrow> dmn_store \<Rightarrow> bool" where
  "extends_history store store' \<longleftrightarrow> (\<exists>rows. store' = store\<lparr>history_rows := history_rows store @ rows\<rparr>)"

lemma extends_history_refl [simp]: "extends_history store store"
  unfolding extends_history_def by (rule exI [of _ "[]"]) simp

lemma extends_history_trans: "extends_history a b \<Longrightarrow> extends_history b c \<Longrightarrow> extends_history a c"
  by (auto simp: extends_history_def)

lemma lookup_extends: "extends_history store store' \<Longrightarrow> lookup_decision env request store' = lookup_decision env request store"
  by (auto simp: extends_history_def fun_eq_iff)

lemma persist_historyE:
  assumes "persist_history lib historic store = Inr store'"
  obtains row where "store' = store\<lparr>history_rows := history_rows store @ [row]\<rparr>"
    "history_entity_decision_key row = decision_key historic" "history_entity_data row = historic"
  using assms by (auto simp: persist_history_def elim!: insert_uniqueE)

lemma execute_definition_extends:
  "execute_definition env def request store n = (out, store', n') \<Longrightarrow> extends_history store store'"
  by (auto simp: execute_definition_def Let_def extends_history_def elim!: persist_historyE
      split: sum.splits if_splits prod.splits intro: exI [of _ "[]"])

lemma run_definition_ok:
  assumes "run_definition env def request run = (Inr result, run')"
  shows "run_resolved run' = definition_key def # run_resolved run" "run_visiting run' = removeAll (definition_key def) (run_visiting run)"
    and "extends_history (run_store run) (run_store run')"
  using assms by (auto simp: run_definition_def split: prod.splits sum.splits dest: execute_definition_extends)

text \<open>On success the keys being visited are the ones from before, and the store has more history rows.\<close>

lemma required_loop_ConsE:
  assumes "required_loop step lookup (key # keys) run = Some (Inr u, run')"
  obtains "key \<in> set (run_resolved run)" "required_loop step lookup keys run = Some (Inr u, run')"
  | def r run1 where "key \<notin> set (run_resolved run)" "lookup run key = Inr def" "step def run = Some (Inr r, run1)"
      "required_loop step lookup keys run1 = Some (Inr u, run')"
  using assms by (auto split: if_splits sum.splits option.splits prod.splits)

lemma dependencies_SucE:
  assumes "execute_definition_with_dependencies (Suc fuel) env request def run = Some (Inr r, run')"
  obtains run1 where "definition_key def \<notin> set (run_visiting run)"
    "required_loop (execute_definition_with_dependencies fuel env request) (lookup_decision env request \<circ> run_store)
       (required_decisions def) (run\<lparr>run_visiting := definition_key def # run_visiting run\<rparr>) = Some (Inr (), run1)"
    "run_definition env def request run1 = (Inr r, run')"
  using assms by (auto split: if_splits option.splits sum.splits prod.splits)

lemma required_loop_frame:
  assumes "required_loop step lookup keys run = Some (Inr u, run')"
    and step: "\<And>def run r run'. step def run = Some (Inr r, run') \<Longrightarrow>
           run_visiting run' = run_visiting run \<and> extends_history (run_store run) (run_store run')"
  shows "run_visiting run' = run_visiting run \<and> extends_history (run_store run) (run_store run')"
  using assms(1)
proof (induction keys arbitrary: run)
  case (Cons key keys)
  from Cons.prems show ?case
  proof (cases rule: required_loop_ConsE)
    case (2 def r run1)
    with Cons.IH [of run1] step [of def run r run1] show ?thesis by (auto dest: extends_history_trans)
  qed (rule Cons.IH)
qed simp

lemma dependencies_frame:
  "execute_definition_with_dependencies fuel env request def run = Some (Inr r, run') \<Longrightarrow>
     run_visiting run' = run_visiting run \<and> extends_history (run_store run) (run_store run')"
proof (induction fuel arbitrary: def run r run')
  case (Suc fuel)
  from Suc.prems show ?case
  proof (cases rule: dependencies_SucE)
    case (1 run1)
    have "run_visiting run1 = definition_key def # run_visiting run \<and> extends_history (run_store run) (run_store run1)"
      using required_loop_frame [OF 1(2)] Suc.IH by fastforce
    with run_definition_ok [OF 1(3)] 1(1) show ?thesis by (auto dest: extends_history_trans)
  qed
qed simp

section \<open>Termination\<close>

text \<open>Every decision on the path being visited is another one of the stored keys, so the recursion is at most that deep.\<close>

lemma required_loop_returns:
  assumes "\<And>def run. (\<exists>key. lookup run key = Inr def) \<Longrightarrow> run_visiting run = v \<Longrightarrow> extends_history store (run_store run) \<Longrightarrow> step def run \<noteq> None"
    and "\<And>def run r run'. step def run = Some (Inr r, run') \<Longrightarrow>
           run_visiting run' = run_visiting run \<and> extends_history (run_store run) (run_store run')"
    and "run_visiting run = v" "extends_history store (run_store run)"
  shows "required_loop step lookup keys run \<noteq> None"
  using assms(3,4)
proof (induction keys arbitrary: run)
  case (Cons key keys)
  show ?case
  proof (cases "key \<in> set (run_resolved run) \<or> isl (lookup run key)")
    case True
    with Cons show ?thesis by (auto split: sum.splits)
  next
    case False
    then obtain def where def: "lookup run key = Inr def" by (cases "lookup run key") auto
    with assms(1) Cons.prems obtain out run1 where step: "step def run = Some (out, run1)" by fastforce
    show ?thesis
    proof (cases out)
      case (Inr r)
      with assms(2) [of def run r run1] step Cons.prems have "run_visiting run1 = v" "extends_history store (run_store run1)"
        by (auto intro: extends_history_trans)
      from Cons.IH [OF this] False def step Inr show ?thesis by simp
    qed (use False def step in simp)
  qed
qed simp

lemma dependencies_return:
  assumes "\<And>key def. lookup_decision env request store key = Inr def \<Longrightarrow> definition_key def \<in> K" and "finite K"
  shows "definition_key def \<in> K \<Longrightarrow> extends_history store (run_store run) \<Longrightarrow> card (K - set (run_visiting run)) < fuel \<Longrightarrow>
    execute_definition_with_dependencies fuel env request def run \<noteq> None"
proof (induction fuel arbitrary: def run)
  case (Suc fuel)
  show ?case
  proof (cases "definition_key def \<in> set (run_visiting run)")
    case False
    let ?v = "definition_key def # run_visiting run"
    have "K - set ?v = (K - set (run_visiting run)) - {definition_key def}" by auto
    moreover have "definition_key def \<in> K - set (run_visiting run)" using False Suc.prems(1) by simp
    ultimately have smaller: "card (K - set ?v) < fuel"
      using card_Diff1_less [of "K - set (run_visiting run)" "definition_key def"] \<open>finite K\<close> Suc.prems(3) by simp
    have "required_loop (execute_definition_with_dependencies fuel env request) (lookup_decision env request \<circ> run_store)
        (required_decisions def) (run\<lparr>run_visiting := ?v\<rparr>) \<noteq> None"
    proof (rule required_loop_returns [where v = ?v and store = store])
      fix d and r :: decision_run assume "\<exists>key. (lookup_decision env request \<circ> run_store) r key = Inr d" "run_visiting r = ?v" "extends_history store (run_store r)"
      then show "execute_definition_with_dependencies fuel env request d r \<noteq> None"
        using assms(1) smaller by (intro Suc.IH) (auto simp: lookup_extends)
    qed (use dependencies_frame Suc.prems(2) in simp_all)
    then obtain out run1 where "required_loop (execute_definition_with_dependencies fuel env request) (lookup_decision env request \<circ> run_store)
        (required_decisions def) (run\<lparr>run_visiting := ?v\<rparr>) = Some (out, run1)" by auto
    with False show ?thesis by (cases out) simp_all
  qed simp
qed simp

definition stored_keys :: "dmn_store \<Rightarrow> string set" where
  "stored_keys store = definition_key ` decision_entity_data ` set (decision_rows store)"

lemma stored_keys_finite [simp]: "finite (stored_keys store)"
  by (simp add: stored_keys_def)

lemma lookup_in_stored_keys: "lookup_decision env request store key = Inr def \<Longrightarrow> definition_key def \<in> stored_keys store"
  unfolding stored_keys_def by (rule imageI) (rule lookup_decision_key(2))

lemma stored_keys_card: "card (stored_keys store - A) \<le> length (decision_rows store)"
proof -
  have "card (stored_keys store - A) \<le> card (stored_keys store)" by (rule card_mono) auto
  also have "\<dots> \<le> card (set (decision_rows store))"
    unfolding stored_keys_def by (rule order_trans [OF card_image_le card_image_le]) auto
  also have "\<dots> \<le> length (decision_rows store)" by (rule card_length)
  finally show ?thesis .
qed

lemma stored_dependencies_return:
  assumes "lookup_decision env request store key = Inr def" "extends_history store (run_store run)" "length (decision_rows store) < fuel"
  shows "execute_definition_with_dependencies fuel env request def run \<noteq> None"
  using assms lookup_in_stored_keys stored_keys_card [of store "set (run_visiting run)"]
  by (intro dependencies_return [of env request store "stored_keys store"]) auto

section \<open>Order of execution\<close>

definition run_in_order :: "decision_env \<Rightarrow> dmn_execution_request \<Rightarrow> dmn_store \<Rightarrow> decision_run \<Rightarrow> bool" where
  "run_in_order env request store run \<longleftrightarrow>
     extends_history store (run_store run)
     \<and> in_order (lookup_decision env request store) (run_resolved run)
     \<and> set (run_visiting run) \<inter> set (run_resolved run) = {}
     \<and> (\<not> disable_history request \<longrightarrow>
          map history_entity_decision_key (history_rows (run_store run))
          = map history_entity_decision_key (history_rows store) @ rev (run_resolved run))"

lemma decision_key_of_new_record [simp]: "decision_key (new_history_record result request) = decision_key result"
  by (simp add: new_history_record_def dmn_execution_result.defs historic_decision_execution.defs)

lemma execute_definition_history:
  assumes "execute_definition env def request store n = (Inr result, store', n')" "\<not> disable_history request"
  shows "map history_entity_decision_key (history_rows store') = map history_entity_decision_key (history_rows store) @ [definition_key def]"
  using assms by (auto simp: execute_definition_def Let_def new_execution_result_def elim!: persist_historyE
      split: sum.splits if_splits prod.splits)

lemma run_definition_history:
  assumes "run_definition env def request run = (Inr result, run')" "\<not> disable_history request"
  shows "map history_entity_decision_key (history_rows (run_store run'))
    = map history_entity_decision_key (history_rows (run_store run)) @ [definition_key def]"
  using assms by (auto simp: run_definition_def split: prod.splits sum.splits dest: execute_definition_history)

lemma required_loop_in_order:
  assumes "required_loop step (lookup_decision env request \<circ> run_store) keys run = Some (Inr u, run')"
    and step: "\<And>def run r run'. step def run = Some (Inr r, run') \<Longrightarrow> run_in_order env request store run \<Longrightarrow>
           lookup_decision env request store (definition_key def) = Inr def \<Longrightarrow> definition_key def \<notin> set (run_resolved run) \<Longrightarrow>
           run_in_order env request store run' \<and> (\<exists>new. run_resolved run' = definition_key def # new @ run_resolved run)"
    and "run_in_order env request store run"
  shows "run_in_order env request store run' \<and> (\<exists>new. run_resolved run' = new @ run_resolved run) \<and> set keys \<subseteq> set (run_resolved run')"
  using assms(1,3)
proof (induction keys arbitrary: run)
  case (Cons key keys)
  from Cons.prems(1) show ?case
  proof (cases rule: required_loop_ConsE)
    case 1
    with Cons.IH [OF 1(2) Cons.prems(2)] show ?thesis by auto
  next
    case (2 def r run1)
    have lookup: "lookup_decision env request store key = Inr def"
      using 2(2) Cons.prems(2) lookup_extends [of store "run_store run" env request] by (simp add: run_in_order_def)
    then have "definition_key def = key" by (rule lookup_decision_key)
    with step [OF 2(3) Cons.prems(2)] lookup 2(1) obtain new where "run_in_order env request store run1" "run_resolved run1 = key # new @ run_resolved run"
      by auto
    with Cons.IH [OF 2(4)] show ?thesis by fastforce
  qed
qed simp

lemma dependencies_in_order:
  "execute_definition_with_dependencies fuel env request def run = Some (Inr r, run') \<Longrightarrow> run_in_order env request store run \<Longrightarrow>
     lookup_decision env request store (definition_key def) = Inr def \<Longrightarrow> definition_key def \<notin> set (run_resolved run) \<Longrightarrow>
     run_in_order env request store run' \<and> (\<exists>new. run_resolved run' = definition_key def # new @ run_resolved run)"
proof (induction fuel arbitrary: def run r run')
  case (Suc fuel)
  let ?key = "definition_key def"
  let ?run = "run\<lparr>run_visiting := ?key # run_visiting run\<rparr>"
  from Suc.prems(1) show ?case
  proof (cases rule: dependencies_SucE)
    case (1 run1)
    have start: "run_in_order env request store ?run" using Suc.prems(2,4) by (simp add: run_in_order_def)
    have "run_in_order env request store run1 \<and> (\<exists>new. run_resolved run1 = new @ run_resolved ?run)
        \<and> set (required_decisions def) \<subseteq> set (run_resolved run1)"
      by (rule required_loop_in_order [OF 1(2) _ start]) (rule Suc.IH)
    then obtain new where ok: "run_in_order env request store run1" and new: "run_resolved run1 = new @ run_resolved run"
        and deps: "set (required_decisions def) \<subseteq> set (run_resolved run1)" by auto
    have visiting: "run_visiting run1 = ?key # run_visiting run"
      using required_loop_frame [OF 1(2)] dependencies_frame by fastforce
    with ok have "?key \<notin> set (run_resolved run1)" by (auto simp: run_in_order_def)
    with run_definition_ok [OF 1(3)] ok deps visiting Suc.prems(3) 1(1) run_definition_history [OF 1(3)]
    have "run_in_order env request store run'" by (auto simp: run_in_order_def dest: extends_history_trans)
    with run_definition_ok(1) [OF 1(3)] new show ?thesis by auto
  qed
qed simp

section \<open>Executing by key\<close>

definition start_run :: "json_map \<Rightarrow> dmn_store \<Rightarrow> nat \<Rightarrow> decision_run" where
  "start_run vars store n = \<lparr>run_context = vars, run_resolved = [], run_visiting = [], run_store = store, run_count = n\<rparr>"

lemma start_run_in_order [simp]: "run_in_order env request store (start_run vars store n)"
  by (simp add: run_in_order_def start_run_def)

lemma execute_by_key_decision:
  "lookup_decision env request store key = Inr def \<Longrightarrow> as_object (variables request) = Some vars \<Longrightarrow>
     execute_by_key fuel env key request store n = execute_definition_with_dependencies fuel env request def (start_run vars store n)"
  by (simp add: execute_by_key_def start_run_def)

lemma output_loop_returns:
  assumes "\<And>def run. (\<exists>key. lookup run key = Inr def) \<Longrightarrow> extends_history store (run_store run) \<Longrightarrow> step def run \<noteq> None"
    and "\<And>def run r run'. step def run = Some (Inr r, run') \<Longrightarrow> extends_history (run_store run) (run_store run')"
    and "extends_history store (run_store run)"
  shows "output_loop step lookup keys acc run \<noteq> None"
  using assms(3)
proof (induction keys arbitrary: acc run)
  case (Cons key keys)
  show ?case
  proof (cases "key \<in> set (run_resolved run) \<or> isl (lookup run key)")
    case True
    with Cons show ?thesis by (auto split: sum.splits)
  next
    case False
    then obtain def where def: "lookup run key = Inr def" by (cases "lookup run key") auto
    with assms(1) Cons.prems obtain out run1 where step: "step def run = Some (out, run1)" by fastforce
    show ?thesis
    proof (cases out)
      case (Inr r)
      with assms(2) [of def run r run1] step Cons.prems have "extends_history store (run_store run1)"
        by (auto intro: extends_history_trans)
      from Cons.IH [OF this] False def step Inr show ?thesis by simp
    qed (use False def step in simp)
  qed
qed simp

lemma service_returns:
  assumes "length (decision_rows store) < fuel"
  shows "execute_decision_service_by_key fuel env key request store n \<noteq> None"
proof -
  let ?step = "execute_definition_with_dependencies fuel env request" and ?lookup = "lookup_decision env request \<circ> run_store"
  have returns: "?step def run \<noteq> None" if "\<exists>key. ?lookup run key = Inr def" "extends_history store (run_store run)" for def run
    using that stored_dependencies_return [OF _ that(2) assms, of env request _ def] lookup_extends [OF that(2), of env request] by auto
  let ?start = "\<lambda>vars. \<lparr>run_context = vars, run_resolved = [], run_visiting = [], run_store = store, run_count = n\<rparr>"
  have required: "required_loop ?step ?lookup keys (?start vars) \<noteq> None" for keys vars
    by (rule required_loop_returns [where v = "[]" and store = store]) (use returns dependencies_frame in auto)
  have outputs: "output_loop ?step ?lookup keys' acc run \<noteq> None"
    if "required_loop ?step ?lookup keys (?start vars) = Some (Inr u, run)" for keys keys' acc vars u run
  proof (rule output_loop_returns [where store = store])
    show "extends_history store (run_store run)" using required_loop_frame [OF that] dependencies_frame by fastforce
  qed (use returns dependencies_frame in auto)
  show ?thesis
    unfolding execute_decision_service_by_key_def Let_def
    by (auto simp del: not_None_eq simp: required outputs split: option.splits sum.splits prod.splits)
qed

text \<open>
  C15. Executing a decision or a decision service by key returns: with one unit of fuel more than there are stored
  decisions, the recursion into required decisions ends with a result or an error, whatever the stored requirements
  are, cycles included.
\<close>

theorem execution_returns:
  assumes "length (decision_rows store) < fuel"
  shows "\<exists>out run. execute_by_key fuel env key request store n = Some (out, run)"
proof -
  have "execute_by_key fuel env key request store n \<noteq> None"
  proof (cases "lookup_decision env request store key")
    case (Inl e)
    then show ?thesis using service_returns [OF assms] by (cases e) (simp_all add: execute_by_key_def)
  next
    case (Inr def)
    then show ?thesis
    proof (cases "as_object (variables request)")
      case (Some vars)
      have "extends_history store (run_store (start_run vars store n))" by (simp add: start_run_def)
      from stored_dependencies_return [OF Inr this assms] show ?thesis by (simp only: execute_by_key_decision [OF Inr Some] not_False_eq_True)
    qed (simp add: execute_by_key_def)
  qed
  then show ?thesis by auto
qed

text \<open>
  C14. Decisions run in dependency order. When executing a stored decision by key succeeds with history enabled, the history
  rows it adds are for distinct decisions, the requested one last, and each after every decision it requires.
\<close>

theorem decisions_run_in_dependency_order:
  assumes def: "lookup_decision env request store key = Inr def" and history: "\<not> disable_history request"
    and run: "execute_by_key fuel env key request store n = Some (Inr result, run)"
  shows "\<exists>ks. map history_entity_decision_key (history_rows (run_store run))
                = map history_entity_decision_key (history_rows store) @ rev (key # ks)
            \<and> in_order (lookup_decision env request store) (key # ks)"
proof -
  from run def obtain vars where vars: "as_object (variables request) = Some vars"
    by (auto simp: execute_by_key_def Let_def split: option.splits)
  have key: "definition_key def = key" using def by (rule lookup_decision_key)
  from run have "execute_definition_with_dependencies fuel env request def (start_run vars store n) = Some (Inr result, run)"
    by (simp only: execute_by_key_decision [OF def vars])
  from dependencies_in_order [OF this start_run_in_order] def key obtain new
    where "run_in_order env request store run" "run_resolved run = key # new" by (auto simp: start_run_def)
  with history show ?thesis by (auto simp: run_in_order_def)
qed

text \<open>
  A cycle of requirements is rejected. If the requested decision requires, directly or not, a decision that requires itself, the
  execution returns an error.
\<close>

theorem requirement_cycles_are_rejected:
  assumes path: "(key, k) \<in> (requires (lookup_decision env request store))\<^sup>*" and cycle: "(k, k) \<in> (requires (lookup_decision env request store))\<^sup>+"
    and fuel: "length (decision_rows store) < fuel"
  shows "\<exists>e run. execute_by_key fuel env key request store n = Some (Inl e, run)"
proof -
  from path cycle have "(key, k) \<in> (requires (lookup_decision env request store))\<^sup>+" by (auto simp: rtrancl_eq_or_trancl)
  then obtain l where "(key, l) \<in> requires (lookup_decision env request store)" by (meson tranclD)
  then obtain def where def: "lookup_decision env request store key = Inr def" by (auto simp: requires_def)
  then have key: "definition_key def = key" by (rule lookup_decision_key)
  from fuel obtain out run where out: "execute_by_key fuel env key request store n = Some (out, run)"
    using stored_dependencies_return [OF def] execute_by_key_decision [OF def]
    by (cases "as_object (variables request)") (fastforce simp: execute_by_key_def def start_run_def)+
  have False if "out = Inr result" for result
  proof -
    from out that def obtain vars where vars: "as_object (variables request) = Some vars"
      by (auto simp: execute_by_key_def Let_def split: option.splits)
    from out that have "execute_definition_with_dependencies fuel env request def (start_run vars store n) = Some (Inr result, run)"
      by (simp only: execute_by_key_decision [OF def vars])
    from dependencies_in_order [OF this start_run_in_order] def key
    have "in_order (lookup_decision env request store) (run_resolved run)" "key \<in> set (run_resolved run)"
      by (auto simp: start_run_def run_in_order_def)
    with repo.in_order_closed [OF path] repo.in_order_acyclic cycle show False by blast
  qed
  with out show ?thesis by (cases out) auto
qed

section \<open>Outputs of a decision service\<close>

lemma output_loop_append:
  "output_loop step lookup (xs @ ys) acc run =
     (case output_loop step lookup xs acc run of
        Some (Inr acc', run') \<Rightarrow> output_loop step lookup ys acc' run'
      | other \<Rightarrow> other)"
  by (induction xs arbitrary: acc run) (auto split: option.split sum.split prod.split)

lemma output_loop_ConsE:
  assumes "output_loop step lookup (key # keys) acc run = Some (Inr acc', run')"
  obtains "key \<in> set (run_resolved run)" "output_loop step lookup keys acc run = Some (Inr acc', run')"
  | def r run1 where "key \<notin> set (run_resolved run)" "lookup run key = Inr def" "step def run = Some (Inr r, run1)"
      "output_loop step lookup keys (add_output key r acc) run1 = Some (Inr acc', run')"
  using assms by (auto split: if_splits sum.splits option.splits prod.splits)

lemma btree_insert_keys [simp]: "fst ` set (btree_insert k v m) = insert k (fst ` set m)"
  by (induction k v m rule: btree_insert.induct) auto

lemma add_output_keys: "fst ` set (service_results (add_output key r acc)) \<subseteq> insert key (fst ` set (service_results acc))"
  by (auto simp: add_output_def)

lemma output_loop_in_order:
  assumes "output_loop (execute_definition_with_dependencies fuel env request) (lookup_decision env request \<circ> run_store) keys acc run
      = Some (Inr acc', run')"
    and "run_in_order env request store run"
  shows "run_in_order env request store run' \<and> set (run_resolved run) \<subseteq> set (run_resolved run') \<and> set keys \<subseteq> set (run_resolved run')
    \<and> fst ` set (service_results acc') \<subseteq> fst ` set (service_results acc) \<union> (set keys - set (run_resolved run))"
  using assms
proof (induction keys arbitrary: acc run)
  case (Cons key keys)
  from Cons.prems(1) show ?case
  proof (cases rule: output_loop_ConsE)
    case 1
    with Cons.IH [OF 1(2) Cons.prems(2)] show ?thesis by auto
  next
    case (2 def r run1)
    have lookup: "lookup_decision env request store key = Inr def"
      using 2(2) Cons.prems(2) lookup_extends [of store "run_store run" env request] by (simp add: run_in_order_def)
    then have key: "definition_key def = key" by (rule lookup_decision_key)
    from dependencies_in_order [OF 2(3) Cons.prems(2)] lookup key 2(1) obtain new
      where "run_in_order env request store run1" and new: "run_resolved run1 = key # new @ run_resolved run" by auto
    note rest = Cons.IH [OF 2(4) this(1)]
    have "fst ` set (service_results acc') \<subseteq> insert key (fst ` set (service_results acc)) \<union> (set keys - set (run_resolved run1))"
      using rest add_output_keys [of key r acc] Un_mono [OF _ order_refl] order_trans by meson
    also have "\<dots> \<subseteq> fst ` set (service_results acc) \<union> (set (key # keys) - set (run_resolved run))"
      using 2(1) by (auto simp: new)
    finally show ?thesis using rest by (auto simp: new)
  qed
qed simp

text \<open>
  A decision service loses an output decision that another output requires. When an output decision \<open>a\<close> requires an
  output decision \<open>b\<close> listed after it, a successful execution of the service has no rows for \<open>b\<close>: it was executed
  as a requirement and is skipped as an output.
\<close>

theorem service_loses_required_output:
  assumes service: "latest_decision_service_by_key store key (request_tenant_id request) (request_parent_deployment_id request)
      (fallback_to_default_tenant request) = Some (service, deployment)"
    and outputs: "output_decisions service = pre @ b # post" "a \<in> set pre" "b \<notin> set pre"
    and requires: "lookup_decision env request store a = Inr def" "b \<in> set (required_decisions def)"
    and run: "execute_decision_service_by_key fuel env key request store n = Some (Inr result, run)"
  shows "\<exists>rows. decision_service_result result = Some rows \<and> b \<notin> fst ` set rows"
proof -
  let ?step = "execute_definition_with_dependencies fuel env request" and ?lookup = "lookup_decision env request \<circ> run_store"
  from run service obtain vars run1 acc0 acc run2 last_output
    where loop: "required_loop ?step ?lookup (service_required_decisions service) (start_run vars store n) = Some (Inr (), run1)"
      and loop2: "output_loop ?step ?lookup (pre @ b # post) acc0 run1 = Some (Inr acc, run2)" and acc0: "service_results acc0 = []"
      and result: "result = service_result service deployment request vars acc last_output"
    by (auto simp: execute_decision_service_by_key_def Let_def start_run_def outputs(1) split: option.splits sum.splits prod.splits)
  have "run_in_order env request store run1"
    by (rule required_loop_in_order [OF loop _ start_run_in_order, THEN conjunct1]) (rule dependencies_in_order)
  moreover from loop2 obtain acc1 run3 where pre: "output_loop ?step ?lookup pre acc0 run1 = Some (Inr acc1, run3)"
    and post: "output_loop ?step ?lookup (b # post) acc1 run3 = Some (Inr acc, run2)"
    by (auto simp: output_loop_append simp del: output_loop.simps split: option.splits sum.splits prod.splits)
  ultimately have ok: "run_in_order env request store run3" and a: "a \<in> set (run_resolved run3)"
    and keys: "b \<notin> fst ` set (service_results acc1)"
    using output_loop_in_order [OF pre] outputs(2,3) acc0 by auto
  from ok a requires have "b \<in> set (run_resolved run3)"
    using repo.in_order_step [of env request store "run_resolved run3" a b] by (auto simp: run_in_order_def requires_def)
  with output_loop_in_order [OF post ok] keys have "b \<notin> fst ` set (service_results acc)" by blast
  then show ?thesis by (simp add: result service_result_def)
qed

section \<open>Example executions\<close>

definition example_env :: decision_env where
  "example_env = \<lparr>env_lib = example_lib, env_strict_mode = True, env_uuid = show_nat, env_now = (\<lambda>_. [])\<rparr>"

definition example_execution :: dmn_execution_request where
  "example_execution = \<lparr>variables = JsonObject [], business_key = None, request_tenant_id = None, request_parent_deployment_id = None,
     disable_history = False, fallback_to_default_tenant = False, instance_id = None, request_execution_id = None,
     activity_id = None, scope_type = None\<rparr>"

definition example_service :: decision_service where
  "example_service = \<lparr>service_id = ''s'', service_name = ''S'', service_required_decisions = [], output_decisions = [''a'', ''b'']\<rparr>"

definition two_decisions :: "string list \<Rightarrow> dmn_deployment_request" where
  "two_decisions required_by_b = example_request None
     [example_resource ''a.dmn'' [example_decision ''a'' [''b''], example_decision ''b'' required_by_b] [example_service]]"

definition two_decisions_store :: "string list \<Rightarrow> dmn_store" where
  "two_decisions_store required_by_b = apply_op example_lib (Deploy ''u'' 0 (two_decisions required_by_b)) empty_store"

lemma outcome_cases:
  "(case out of Some (Inr _, _) \<Rightarrow> True | _ \<Rightarrow> False) \<Longrightarrow> \<exists>result run. out = Some (Inr result, run)"
  by (auto split: option.splits sum.splits prod.splits)

lemma two_decisions_rows: "length (decision_rows (two_decisions_store [])) < 3" "length (decision_rows (two_decisions_store [''a''])) < 3"
  by code_simp+

theorem execution_returns_witness:
  "\<exists>out run. execute_by_key 3 example_env ''s'' example_execution (two_decisions_store [''a'']) 0 = Some (out, run)"
  by (rule execution_returns [OF two_decisions_rows(2)])

theorem decisions_run_in_dependency_order_witness:
  "\<exists>result run ks. execute_by_key 3 example_env ''a'' example_execution (two_decisions_store []) 0 = Some (Inr result, run)
     \<and> map history_entity_decision_key (history_rows (run_store run)) = rev (''a'' # ks)
     \<and> in_order (lookup_decision example_env example_execution (two_decisions_store [])) (''a'' # ks)"
proof -
  have "case execute_by_key 3 example_env ''a'' example_execution (two_decisions_store []) 0 of Some (Inr _, _) \<Rightarrow> True | _ \<Rightarrow> False"
    by code_simp
  from outcome_cases [OF this] obtain result run
    where run: "execute_by_key 3 example_env ''a'' example_execution (two_decisions_store []) 0 = Some (Inr result, run)" by blast
  have "\<not> isl (lookup_decision example_env example_execution (two_decisions_store []) ''a'')" by code_simp
  from returned [OF this] obtain def where def: "lookup_decision example_env example_execution (two_decisions_store []) ''a'' = Inr def" by blast
  have "\<not> disable_history example_execution" by (simp add: example_execution_def)
  from decisions_run_in_dependency_order [OF def this run] run show ?thesis
    by (fastforce simp: two_decisions_store_def deployed_store_def empty_store_def split: sum.splits prod.splits elim!: deployE)
qed

lemma two_decisions_edges:
  "(''a'', ''b'') \<in> requires (lookup_decision example_env example_execution (two_decisions_store [''a'']))"
  "(''b'', ''a'') \<in> requires (lookup_decision example_env example_execution (two_decisions_store [''a'']))"
proof -
  have "case lookup_decision example_env example_execution (two_decisions_store [''a'']) ''a'' of Inr d \<Rightarrow> ''b'' \<in> set (required_decisions d) | _ \<Rightarrow> False"
    "case lookup_decision example_env example_execution (two_decisions_store [''a'']) ''b'' of Inr d \<Rightarrow> ''a'' \<in> set (required_decisions d) | _ \<Rightarrow> False"
    by code_simp+
  then show "(''a'', ''b'') \<in> requires (lookup_decision example_env example_execution (two_decisions_store [''a'']))"
    "(''b'', ''a'') \<in> requires (lookup_decision example_env example_execution (two_decisions_store [''a'']))"
    by (auto simp: requires_def split: sum.splits)
qed

theorem requirement_cycles_are_rejected_witness:
  "\<exists>e run. execute_by_key 3 example_env ''a'' example_execution (two_decisions_store [''a'']) 0 = Some (Inl e, run)"
  by (rule requirement_cycles_are_rejected [OF rtrancl_refl _ two_decisions_rows(2)]) (use two_decisions_edges in \<open>blast intro: trancl_trans\<close>)

theorem service_loses_required_output_witness:
  "\<exists>result run rows. execute_decision_service_by_key 3 example_env ''s'' example_execution (two_decisions_store []) 0 = Some (Inr result, run)
     \<and> decision_service_result result = Some rows \<and> ''b'' \<notin> fst ` set rows"
proof -
  let ?s = "two_decisions_store []"
  have "case execute_decision_service_by_key 3 example_env ''s'' example_execution ?s 0 of Some (Inr _, _) \<Rightarrow> True | _ \<Rightarrow> False" by code_simp
  from outcome_cases [OF this] obtain result run
    where run: "execute_decision_service_by_key 3 example_env ''s'' example_execution ?s 0 = Some (Inr result, run)" by blast
  have "map_option fst (latest_decision_service_by_key ?s ''s'' (request_tenant_id example_execution)
      (request_parent_deployment_id example_execution) (fallback_to_default_tenant example_execution)) = Some example_service" by code_simp
  then obtain deployment where service: "latest_decision_service_by_key ?s ''s'' (request_tenant_id example_execution)
      (request_parent_deployment_id example_execution) (fallback_to_default_tenant example_execution) = Some (example_service, deployment)" by auto
  have "case lookup_decision example_env example_execution ?s ''a'' of Inr d \<Rightarrow> ''b'' \<in> set (required_decisions d) | _ \<Rightarrow> False" by code_simp
  then obtain def where "lookup_decision example_env example_execution ?s ''a'' = Inr def" "''b'' \<in> set (required_decisions def)"
    by (auto split: sum.splits)
  from service_loses_required_output [OF service _ _ _ this run, of "[''a'']" "[]"] run show ?thesis
    by (auto simp: example_service_def)
qed

end
