(* ===== verification/Dmn_History.thy ===== *)
theory Dmn_History
  imports Dmn_Store Sql_Like
begin

text \<open>
  Queries on the history of decision executions (\<open>flowable-dmn-engine/src/history.rs\<close>) and the deletion of its rows.
  The time of an execution is the UTC text that \<open>to_rfc3339\<close> writes, whose text order is the order of the times.
\<close>

datatype history_sort =
    SortExecutionTime | SortExecutionId | SortDecisionKey | SortDecisionDefinitionId | SortDeploymentId | SortBusinessKey | SortTenantId

record history_query =
  history_query_execution_id :: "string option"
  history_query_decision_key :: "string option"
  history_query_definition_id :: "string option"
  history_query_deployment_id :: "string option"
  history_query_business_key :: "string option"
  history_query_tenant :: "string option"
  history_query_tenant_like :: "string option"
  history_query_failed :: "bool option"
  history_query_sort :: history_sort
  history_query_descending :: bool

definition cmp_string :: "string \<Rightarrow> string \<Rightarrow> ordering" where
  "cmp_string a b = (if string_less a b then OrdLess else if a = b then OrdEqual else OrdGreater)"

fun cmp_option :: "string option \<Rightarrow> string option \<Rightarrow> ordering" where
  "cmp_option None None = OrdEqual"
| "cmp_option None (Some b) = OrdLess"
| "cmp_option (Some a) None = OrdGreater"
| "cmp_option (Some a) (Some b) = cmp_string a b"

fun ordering_reverse :: "ordering \<Rightarrow> ordering" where
  "ordering_reverse OrdLess = OrdGreater" | "ordering_reverse OrdEqual = OrdEqual" | "ordering_reverse OrdGreater = OrdLess"

definition apply_order :: "ordering \<Rightarrow> bool \<Rightarrow> ordering" where
  "apply_order ord descending = (if descending then ordering_reverse ord else ord)"

fun column_order :: "history_sort \<Rightarrow> historic_decision_execution \<Rightarrow> historic_decision_execution \<Rightarrow> ordering" where
  "column_order SortExecutionTime a b = cmp_string (executed_at a) (executed_at b)"
| "column_order SortExecutionId a b = cmp_string (result_execution_id a) (result_execution_id b)"
| "column_order SortDecisionKey a b = cmp_string (decision_key a) (decision_key b)"
| "column_order SortDecisionDefinitionId a b = cmp_string (decision_definition_id a) (decision_definition_id b)"
| "column_order SortDeploymentId a b = cmp_string (result_deployment_id a) (result_deployment_id b)"
| "column_order SortBusinessKey a b = cmp_option (result_business_key a) (result_business_key b)"
| "column_order SortTenantId a b = cmp_option (historic_tenant_id a) (historic_tenant_id b)"

definition history_order :: "history_sort \<Rightarrow> bool \<Rightarrow> historic_decision_execution \<Rightarrow> historic_decision_execution \<Rightarrow> ordering" where
  "history_order sort_by descending a b =
     (case apply_order (column_order sort_by a b) descending of
        OrdEqual \<Rightarrow> cmp_string (result_execution_id a) (result_execution_id b)
      | ord \<Rightarrow> ord)"

definition sort_history :: "history_sort \<Rightarrow> bool \<Rightarrow> historic_decision_execution list \<Rightarrow> historic_decision_execution list" where
  "sort_history sort_by descending hs = order_rows (\<lambda>a b. history_order sort_by descending a b = OrdLess) hs"

definition history_matches :: "history_query \<Rightarrow> historic_decision_execution \<Rightarrow> bool" where
  "history_matches q h \<longleftrightarrow>
     matches_optional (history_query_execution_id q) (result_execution_id h)
     \<and> matches_optional (history_query_decision_key q) (decision_key h)
     \<and> matches_optional (history_query_definition_id q) (decision_definition_id h)
     \<and> matches_optional (history_query_deployment_id q) (result_deployment_id h)
     \<and> matches_optional_option (history_query_business_key q) (result_business_key h)
     \<and> matches_optional_option (history_query_tenant q) (historic_tenant_id h)
     \<and> (case history_query_tenant_like q of
          None \<Rightarrow> True
        | Some pat \<Rightarrow> (case historic_tenant_id h of None \<Rightarrow> False | Some tenant \<Rightarrow> sql_like_matches pat tenant))
     \<and> (case history_query_failed q of None \<Rightarrow> True | Some failed \<Rightarrow> historic_failed h = failed)"

definition history_row_less :: "dmn_history_entity \<Rightarrow> dmn_history_entity \<Rightarrow> bool" where
  "history_row_less a b \<longleftrightarrow>
     string_less (history_entity_executed_at a) (history_entity_executed_at b)
     \<or> (history_entity_executed_at a = history_entity_executed_at b
        \<and> string_less (history_entity_execution_id a) (history_entity_execution_id b))"

definition history_query_list :: "history_query \<Rightarrow> dmn_store \<Rightarrow> historic_decision_execution list" where
  "history_query_list q store =
     sort_history (history_query_sort q) (history_query_descending q)
       (filter (history_matches q) (map history_entity_data (order_rows history_row_less (history_rows store))))"

definition history_single_result :: "history_query \<Rightarrow> dmn_store \<Rightarrow> historic_decision_execution option" where
  "history_single_result q store = first_of (history_query_list q store)"

definition delete_historic_decision_execution :: "string \<Rightarrow> dmn_store \<Rightarrow> dmn_error + dmn_store" where
  "delete_historic_decision_execution i store =
     (if i \<in> set (map history_entity_execution_id (history_rows store))
      then Inr (store\<lparr>history_rows := filter (\<lambda>e. history_entity_execution_id e \<noteq> i) (history_rows store)\<rparr>)
      else Inl (DmnNotFound (''Historic decision execution '' @ in_quotes i @ '' was not found'')))"

definition bulk_delete_historic_decision_executions :: "string list \<Rightarrow> dmn_store \<Rightarrow> dmn_store" where
  "bulk_delete_historic_decision_executions ids store =
     fold (\<lambda>i store. store\<lparr>history_rows := filter (\<lambda>e. history_entity_execution_id e \<noteq> i) (history_rows store)\<rparr>) ids store"

section \<open>The order of a query\<close>

lemma cmp_string_simps [simp]:
  "cmp_string a b = OrdLess \<longleftrightarrow> string_less a b" "cmp_string a b = OrdEqual \<longleftrightarrow> a = b" "cmp_string a b = OrdGreater \<longleftrightarrow> string_less b a"
  using string_less_total [of a b] string_less_asym [of a b] by (auto simp: cmp_string_def)

text \<open>Every column compares as a linear order on some key.\<close>

fun column_key :: "history_sort \<Rightarrow> historic_decision_execution \<Rightarrow> string option" where
  "column_key SortExecutionTime h = Some (executed_at h)" | "column_key SortExecutionId h = Some (result_execution_id h)"
| "column_key SortDecisionKey h = Some (decision_key h)" | "column_key SortDecisionDefinitionId h = Some (decision_definition_id h)"
| "column_key SortDeploymentId h = Some (result_deployment_id h)" | "column_key SortBusinessKey h = result_business_key h"
| "column_key SortTenantId h = historic_tenant_id h"

lemma column_order_key: "column_order sort_by a b = cmp_option (column_key sort_by a) (column_key sort_by b)"
  by (cases sort_by) simp_all

lemma cmp_option_refl [simp]: "cmp_option a a = OrdEqual"
  by (cases a) (simp_all add: cmp_string_def)

lemma cmp_option_equal [simp]: "cmp_option a b = OrdEqual \<longleftrightarrow> a = b"
  by (cases a; cases b; simp)

lemma cmp_string_flip: "cmp_string b a = ordering_reverse (cmp_string a b)"
  using string_less_total [of a b] string_less_asym [of a b] by (auto simp: cmp_string_def)

lemma cmp_option_flip: "cmp_option b a = ordering_reverse (cmp_option a b)"
proof (cases "(a, b)" rule: cmp_option.cases)
  case (4 x y)
  then show ?thesis using cmp_string_flip [of y x] by (simp del: cmp_string_simps)
qed simp_all

lemma cmp_option_asym: "cmp_option a b = OrdLess \<Longrightarrow> cmp_option b a \<noteq> OrdLess \<and> a \<noteq> b"
  using cmp_option_flip [of b a] cmp_option_equal [of a b] by auto

lemma cmp_option_trans: "cmp_option a b = OrdLess \<Longrightarrow> cmp_option b c = OrdLess \<Longrightarrow> cmp_option a c = OrdLess"
  by (cases a; cases b; cases c) (auto dest: string_less_trans)

lemma cmp_option_total: "a = b \<or> cmp_option a b = OrdLess \<or> cmp_option b a = OrdLess"
  using cmp_option_flip [of b a] cmp_option_equal [of a b] by (cases "cmp_option a b") auto

lemma history_order_less:
  "history_order sort_by descending a b = OrdLess \<longleftrightarrow>
     (let p = (if descending then column_key sort_by b else column_key sort_by a);
          q = (if descending then column_key sort_by a else column_key sort_by b)
      in cmp_option p q = OrdLess \<or> (p = q \<and> string_less (result_execution_id a) (result_execution_id b)))"
  using cmp_option_flip [of "column_key sort_by b" "column_key sort_by a"] cmp_option_equal [of "column_key sort_by a" "column_key sort_by b"]
  by (cases "cmp_option (column_key sort_by a) (column_key sort_by b)")
    (auto simp: history_order_def apply_order_def column_order_key Let_def simp del: cmp_option_equal)

interpretation by_column: row_order "\<lambda>a b. history_order sort_by descending a b = OrdLess" for sort_by descending
proof
  show "history_order sort_by descending a b = OrdLess \<Longrightarrow> \<not> history_order sort_by descending b a = OrdLess" for a b
    unfolding history_order_less Let_def by (auto dest: string_less_asym cmp_option_asym split: if_splits)
next
  fix a b c :: historic_decision_execution
  assume "history_order sort_by descending a c = OrdLess"
  then show "history_order sort_by descending a b = OrdLess \<or> history_order sort_by descending b c = OrdLess"
    using cmp_option_total [of "column_key sort_by a" "column_key sort_by b"] cmp_option_total [of "column_key sort_by b" "column_key sort_by c"]
      string_less_split [of "result_execution_id a" "result_execution_id c" "result_execution_id b"]
    unfolding history_order_less Let_def by (auto dest: cmp_option_trans)
qed

text \<open>
  A history query returns exactly the recorded executions that pass its filters, ordered by the chosen column in the
  chosen direction, with ties in ascending order of the execution id in both directions.
\<close>

theorem history_query_is_ordered:
  "set (history_query_list q store) = {h \<in> history_entity_data ` set (history_rows store). history_matches q h}
   \<and> sorted_wrt (\<lambda>a b. history_order (history_query_sort q) (history_query_descending q) b a \<noteq> OrdLess) (history_query_list q store)"
  using by_column.order_rows_sorted unfolding history_query_list_def sort_history_def by auto

end
