(* ===== verification/Dmn_Unary_Parser.thy ===== *)
theory Dmn_Unary_Parser
  imports Dmn_Validation
begin

text \<open>
  The reader of the texts in a decision table (\<open>flowable-dmn-engine/src/models.rs\<close>): literals, the comma
  separated list, and \<open>parse_unary_test\<close>, which turns the text of an input entry into a unary test. A \<open>&str\<close>
  that the code cuts out of the text is the list of its characters; \<open>closing_paren\<close> is the scan for the closing
  parenthesis that \<open>strip_function_argument\<close> and \<open>split_function_call_comparison\<close> share.
\<close>

section \<open>Cutting texts\<close>

definition is_quote :: "char \<Rightarrow> bool" where
  "is_quote c \<longleftrightarrow> c = CHR 0x27 \<or> c = CHR 0x22"

definition push_value :: "string \<Rightarrow> string list" where
  "push_value piece = (let value = str_trim piece in if value = [] then [] else [value])"

fun split_literals :: "char option \<Rightarrow> nat \<Rightarrow> string \<Rightarrow> string \<Rightarrow> string list" where
  "split_literals quote depth piece [] = push_value piece"
| "split_literals (Some active) depth piece (c # s) =
     split_literals (if c = active then None else Some active) depth (piece @ [c]) s"
| "split_literals None depth piece (c # s) =
     (if is_quote c then split_literals (Some c) depth (piece @ [c]) s
      else if c = CHR ''('' then split_literals None (depth + 1) (piece @ [c]) s
      else if c = CHR '')'' then split_literals None (depth - 1) (piece @ [c]) s
      else if c = CHR '','' \<and> depth = 0 then push_value piece @ split_literals None depth [] s
      else split_literals None depth (piece @ [c]) s)"

definition split_comma_separated_literals :: "string \<Rightarrow> string list" where
  "split_comma_separated_literals s = split_literals None 0 [] s"

definition keep :: "char \<Rightarrow> (string \<times> string) option \<Rightarrow> (string \<times> string) option" where
  "keep c = map_option (\<lambda>(before, after). (c # before, after))"

fun closing_paren :: "char option \<Rightarrow> nat \<Rightarrow> string \<Rightarrow> (string \<times> string) option" where
  "closing_paren quote depth [] = None"
| "closing_paren (Some active) depth (c # s) =
     keep c (closing_paren (if c = active then None else Some active) depth s)"
| "closing_paren None depth (c # s) =
     (if is_quote c then keep c (closing_paren (Some c) depth s)
      else if c = CHR ''('' then keep c (closing_paren None (depth + 1) s)
      else if c = CHR '')'' then
        (if depth - 1 = 0 then Some ([], s) else keep c (closing_paren None (depth - 1) s))
      else keep c (closing_paren None depth s))"

definition split_function_call_comparison :: "string \<Rightarrow> string \<Rightarrow> (string \<times> string) option" where
  "split_function_call_comparison s function_name =
     Option.bind (strip_prefix_str function_name s) (\<lambda>remaining.
     Option.bind (strip_prefix_str ''('' (str_trim_start remaining)) (closing_paren None 1))"

definition strip_function_argument :: "string \<Rightarrow> string \<Rightarrow> string option" where
  "strip_function_argument s function_name =
     Option.bind (strip_prefix_str function_name s) (\<lambda>remaining.
     Option.bind (strip_prefix_str ''('' (str_trim_start remaining)) (\<lambda>remaining.
     Option.bind (closing_paren None 1 remaining) (\<lambda>(argument, after).
       if after = [] then Some argument else None)))"

section \<open>Literals\<close>

definition normalize_bare_decimal_point :: "string \<Rightarrow> string" where
  "normalize_bare_decimal_point trimmed =
     (let (sign, digits) = (case strip_prefix_str ''-'' trimmed of Some digits \<Rightarrow> (''-'', digits) | None \<Rightarrow> ([], trimmed)) in
      case strip_prefix_str ''.'' digits of
        Some (d # ds) \<Rightarrow>
          if is_ascii_digit d then sign @ ''0.'' @ d # ds
          else (case strip_suffix_str ''.'' digits of
                  Some integer \<Rightarrow> if integer \<noteq> [] \<and> list_all is_ascii_digit integer then sign @ integer @ ''.0'' else trimmed
                | None \<Rightarrow> trimmed)
      | _ \<Rightarrow> (case strip_suffix_str ''.'' digits of
                Some integer \<Rightarrow> if integer \<noteq> [] \<and> list_all is_ascii_digit integer then sign @ integer @ ''.0'' else trimmed
              | None \<Rightarrow> trimmed))"

definition is_json_literal :: "json \<Rightarrow> bool" where
  "is_json_literal v \<longleftrightarrow> is_number v \<or> as_array v \<noteq> None \<or> as_object v \<noteq> None"

definition parse_literal_expression :: "dmn_lib \<Rightarrow> string \<Rightarrow> dmn_error + json" where
  "parse_literal_expression lib s =
     (let trimmed = str_trim s in
      if eq_ignore_ascii_case trimmed ''null'' then Inr JsonNull
      else if eq_ignore_ascii_case trimmed ''true'' then Inr (JsonBool True)
      else if eq_ignore_ascii_case trimmed ''false'' then Inr (JsonBool False)
      else case parse_feel_temporal_constructor trimmed of
        Some temporal \<Rightarrow> Inr (JsonString temporal)
      | None \<Rightarrow> (case parse_feel_duration_constructor trimmed of
          Some duration \<Rightarrow> Inr (JsonString duration)
        | None \<Rightarrow> (case parse_quoted_string_literal trimmed of
            Some value \<Rightarrow> Inr (JsonString value)
          | None \<Rightarrow> (case parse_json lib (normalize_bare_decimal_point trimmed) of
              Some v \<Rightarrow> Inr (if is_json_literal v then v else JsonString trimmed)
            | None \<Rightarrow> Inr (JsonString trimmed)))))"

definition parse_output_values :: "dmn_lib \<Rightarrow> string \<Rightarrow> dmn_error + json list" where
  "parse_output_values lib s = collect_results (parse_literal_expression lib) (split_comma_separated_literals s)"

text \<open>\<open>str::parse::<i32>\<close>: an optional sign, at least one digit, and the range of the type.\<close>

definition parse_i32 :: "string \<Rightarrow> 32 word option" where
  "parse_i32 s =
     (let (negative, digits) = (case s of c # ds \<Rightarrow> if c = CHR ''-'' then (True, ds) else if c = CHR ''+'' then (False, ds) else (False, s)
                                | [] \<Rightarrow> (False, []));
          value = (if negative then - decimal_value digits else decimal_value digits)
      in if digits = [] \<or> \<not> list_all is_ascii_digit digits then None
         else if I32_MIN \<le> value \<and> value \<le> I32_MAX then Some (word_of_int value) else None)"

section \<open>Errors\<close>

definition unary_test_error :: "string \<Rightarrow> dmn_error" where
  "unary_test_error message = DmnUnsupportedModel ''unary test'' message"

definition unsupported_string_function_unary_test :: "string \<Rightarrow> dmn_error" where
  "unsupported_string_function_unary_test s = unary_test_error
     (''unsupported string function unary test '' @ in_quotes s
      @ ''; only contains(?, \"literal\"), starts with(?, \"literal\"), ends with(?, \"literal\"), and matches(?, \"regex\") are supported'')"

definition unsupported_list_contains_unary_test :: "string \<Rightarrow> dmn_error" where
  "unsupported_list_contains_unary_test s = unary_test_error
     (''unsupported list contains unary test '' @ in_quotes s
      @ ''; only list contains(?, <literal or simple variable>) is supported'')"

definition unsupported_in_list_unary_test :: "string \<Rightarrow> dmn_error" where
  "unsupported_in_list_unary_test s = unary_test_error
     (''unsupported in-list unary test '' @ in_quotes s
      @ ''; only ? in (<literal>, ...) / in (<literal>, ...) are supported'')"

definition unsupported_string_transform_unary_test :: "string \<Rightarrow> dmn_error" where
  "unsupported_string_transform_unary_test s = unary_test_error
     (''unsupported string transform unary test '' @ in_quotes s
      @ ''; only lower case(?) = \"literal\", upper case(?) = \"literal\", and string length(?) <number comparison> are supported'')"

definition unsupported_not :: "string \<Rightarrow> dmn_error" where
  "unsupported_not s = unary_test_error
     (''unsupported unary test '' @ in_quotes s
      @ '' in owned M15 subset; only not(<single supported unary test>) is supported'')"

definition malformed_range_error :: "string \<Rightarrow> string \<Rightarrow> dmn_error" where
  "malformed_range_error s reason = DmnValidation (''malformed unary range '' @ in_quotes s @ '': '' @ reason)"

section \<open>The forms of a unary test\<close>

definition comparison_parts :: "string \<Rightarrow> (string \<times> string) option" where
  "comparison_parts s =
     (case filter (\<lambda>operator. str_starts_with operator s) [''>='', ''<='', ''>'', ''<''] of
        [] \<Rightarrow> None
      | operator # _ \<Rightarrow> Some (operator, str_trim (drop (length operator) s)))"

definition comparison_operator_error :: "string \<Rightarrow> string" where
  "comparison_operator_error other =
     ''comparison_parts returned unsupported operator '' @ in_quotes other
     @ ''; expected one of '' @ join_with '', '' (map in_quotes [''>'', ''>='', ''<'', ''<=''])"

definition parse_comparison_operator :: "string \<Rightarrow> dmn_error + dmn_comparison_operator" where
  "parse_comparison_operator operator =
     (if operator = ''>'' then Inr CmpGreater
      else if operator = ''>='' then Inr CmpGreaterEqual
      else if operator = ''<'' then Inr CmpLess
      else if operator = ''<='' then Inr CmpLessEqual
      else Inl (DmnUnsupportedModel ''comparison operator'' (comparison_operator_error operator)))"

definition is_range_like :: "string \<Rightarrow> bool" where
  "is_range_like s \<longleftrightarrow> str_contains ''..'' s \<or> str_starts_with ''['' s \<or> str_starts_with ''('' s"

definition parse_feel_range :: "dmn_lib \<Rightarrow> string \<Rightarrow> dmn_error + dmn_unary_test" where
  "parse_feel_range lib s =
     (if s = [] then Inl (malformed_range_error s ''missing start delimiter'')
      else if hd s \<noteq> CHR ''['' \<and> hd s \<noteq> CHR ''('' then Inl (malformed_range_error s (''expected '' @ in_quotes ''['' @ '' or '' @ in_quotes ''(''))
      else if last s \<noteq> CHR '']'' \<and> last s \<noteq> CHR '')'' then Inl (malformed_range_error s (''expected '' @ in_quotes '']'' @ '' or '' @ in_quotes '')''))
      else case split_once ''..'' (butlast (tl s)) of
        None \<Rightarrow> Inl (malformed_range_error s (''missing '' @ in_quotes ''..'' @ '' delimiter''))
      | Some (start_text, end_text) \<Rightarrow>
          if str_contains ''..'' end_text then Inl (malformed_range_error s (''multiple '' @ in_quotes ''..'' @ '' delimiters''))
          else if str_trim start_text = [] \<or> str_trim end_text = []
          then Inl (malformed_range_error s ''range endpoints are required'')
          else rbind (parse_literal_expression lib (str_trim start_text)) (\<lambda>start.
               rbind (parse_literal_expression lib (str_trim end_text)) (\<lambda>stop.
                 Inr (TestRange start stop (hd s = CHR ''['') (last s = CHR '']'')))))"

definition string_function_named :: "(string \<times> dmn_string_function) list" where
  "string_function_named = [(''ends with'', EndsWith), (''starts with'', StartsWith), (''contains'', Contains), (''matches'', Matches)]"

definition function_arguments :: "string \<Rightarrow> string \<Rightarrow> string option" where
  "function_arguments function_name s =
     Option.bind (strip_prefix_str function_name s) (\<lambda>remaining.
     Option.bind (strip_prefix_str ''('' remaining) (strip_suffix_str '')''))"

definition parse_string_function_arguments :: "dmn_lib \<Rightarrow> string \<Rightarrow> dmn_string_function \<Rightarrow> string \<Rightarrow> dmn_error + dmn_unary_test option" where
  "parse_string_function_arguments lib s function arguments =
     (case split_comma_separated_literals arguments of
        [first, second] \<Rightarrow>
          if first \<noteq> ''?'' then Inl (unsupported_string_function_unary_test s)
          else rbind (ok_or (unsupported_string_function_unary_test s) (parse_quoted_string_literal second)) (\<lambda>needle.
               if function = Matches \<and> regex_is_match lib needle [] = None
               then Inl (DmnValidation (''invalid matches regex '' @ in_quotes needle @ '' in unary test '' @ in_quotes s
                           @ '': '' @ regex_error lib needle (False, False, False, False)))
               else Inr (Some (TestStringFunction function needle)))
      | _ \<Rightarrow> Inl (unsupported_string_function_unary_test s))"

fun string_function_loop :: "dmn_lib \<Rightarrow> string \<Rightarrow> (string \<times> dmn_string_function) list \<Rightarrow> dmn_error + dmn_unary_test option" where
  "string_function_loop lib s [] =
     (if str_starts_with ''contains('' s \<or> str_starts_with ''starts with('' s
         \<or> str_starts_with ''ends with('' s \<or> str_starts_with ''matches('' s
      then Inl (unsupported_string_function_unary_test s) else Inr None)"
| "string_function_loop lib s ((function_name, function) # functions) =
     (case function_arguments function_name s of
        None \<Rightarrow> string_function_loop lib s functions
      | Some arguments \<Rightarrow> parse_string_function_arguments lib s function arguments)"

definition parse_string_function_unary_test :: "dmn_lib \<Rightarrow> string \<Rightarrow> dmn_error + dmn_unary_test option" where
  "parse_string_function_unary_test lib s = string_function_loop lib s string_function_named"

definition is_simple_feel_name :: "string \<Rightarrow> bool" where
  "is_simple_feel_name s =
     (case s of [] \<Rightarrow> False
      | first # chars \<Rightarrow> (is_ascii_alphabetic first \<or> first = CHR ''_'') \<and> list_all is_ascii_word chars)"

definition is_list_contains_literal_token :: "dmn_lib \<Rightarrow> string \<Rightarrow> bool" where
  "is_list_contains_literal_token lib s \<longleftrightarrow>
     parse_quoted_string_literal s \<noteq> None
     \<or> eq_ignore_ascii_case s ''null'' \<or> eq_ignore_ascii_case s ''true'' \<or> eq_ignore_ascii_case s ''false''
     \<or> parse_feel_temporal_constructor s \<noteq> None \<or> parse_feel_duration_constructor s \<noteq> None
     \<or> (case parse_json lib s of Some v \<Rightarrow> is_json_literal v | None \<Rightarrow> False)"

definition parse_list_contains_needle :: "dmn_lib \<Rightarrow> string \<Rightarrow> string \<Rightarrow> dmn_error + dmn_list_contains_needle" where
  "parse_list_contains_needle lib s full_expression =
     (let trimmed = str_trim s in
      if trimmed = [] \<or> trimmed = ''?'' then Inl (unsupported_list_contains_unary_test full_expression)
      else if is_list_contains_literal_token lib trimmed
      then rbind (parse_literal_expression lib trimmed) (\<lambda>v. Inr (NeedleLiteral v))
      else if is_simple_feel_name trimmed then Inr (NeedleVariable trimmed)
      else Inl (unsupported_list_contains_unary_test full_expression))"

definition parse_list_contains_unary_test :: "dmn_lib \<Rightarrow> string \<Rightarrow> dmn_error + dmn_unary_test option" where
  "parse_list_contains_unary_test lib s =
     (case Option.bind (strip_prefix_str ''list contains'' s) (\<lambda>remaining.
           Option.bind (strip_prefix_str ''('' (str_trim_start remaining)) (strip_suffix_str '')'')) of
        None \<Rightarrow> if str_starts_with ''list contains('' s \<or> str_starts_with ''list contains '' s
                then Inl (unsupported_list_contains_unary_test s) else Inr None
      | Some arguments \<Rightarrow>
          (case split_comma_separated_literals arguments of
             [first, second] \<Rightarrow>
               if str_trim first \<noteq> ''?'' then Inl (unsupported_list_contains_unary_test s)
               else rbind (parse_list_contains_needle lib (str_trim second) s) (\<lambda>needle. Inr (Some (TestListContains needle)))
           | _ \<Rightarrow> Inl (unsupported_list_contains_unary_test s)))"

text \<open>The text between the parentheses of a membership test.\<close>

definition in_list_body :: "string \<Rightarrow> dmn_error + string option" where
  "in_list_body s =
     (let trimmed = str_trim s;
          body = (\<lambda>r. Option.bind (strip_prefix_str ''('' r) (strip_suffix_str '')''))
      in case strip_prefix_str ''?'' trimmed of
           Some remaining \<Rightarrow>
             (case strip_prefix_str ''in'' (str_trim_start remaining) of
                None \<Rightarrow> Inr None
              | Some after_in \<Rightarrow> rbind (ok_or (unsupported_in_list_unary_test s) (body (str_trim_start after_in))) (\<lambda>b. Inr (Some b)))
         | None \<Rightarrow>
             (case strip_prefix_str ''in'' trimmed of
                None \<Rightarrow> Inr None
              | Some remaining \<Rightarrow>
                  if remaining \<noteq> [] \<and> is_ascii_word (hd remaining) then Inr None
                  else case body (str_trim_start remaining) of
                    Some b \<Rightarrow> Inr (Some b)
                  | None \<Rightarrow> if str_starts_with ''('' (str_trim_start remaining) then Inl (unsupported_in_list_unary_test s)
                            else Inr None))"

definition parse_in_list_unary_test :: "dmn_lib \<Rightarrow> string \<Rightarrow> dmn_error + dmn_unary_test option" where
  "parse_in_list_unary_test lib s =
     rbind (in_list_body s) (\<lambda>body.
       case body of
         None \<Rightarrow> Inr None
       | Some list_body \<Rightarrow>
           let members = split_comma_separated_literals list_body in
           if members = [] then Inl (unsupported_in_list_unary_test s)
           else rbind (collect_results (\<lambda>member. parse_literal_expression lib (str_trim member)) members) (\<lambda>values.
                  Inr (Some (TestInList values))))"

definition parse_transform_equals_literal :: "string \<Rightarrow> string \<Rightarrow> dmn_error + string" where
  "parse_transform_equals_literal s cmp_text =
     rbind (ok_or (unsupported_string_transform_unary_test s) (strip_prefix_str ''='' (str_trim_start cmp_text))) (\<lambda>expected.
       ok_or (unsupported_string_transform_unary_test s) (parse_quoted_string_literal expected))"

definition parse_string_length_transform_unary_test :: "dmn_lib \<Rightarrow> string \<Rightarrow> dmn_error + dmn_unary_test option" where
  "parse_string_length_transform_unary_test lib s =
     (let unsupported = unsupported_string_transform_unary_test s in
      case strip_prefix_str ''string length'' s of
        None \<Rightarrow> Inr None
      | Some remaining \<Rightarrow>
          rbind (ok_or unsupported (strip_prefix_str ''('' remaining)) (\<lambda>arguments.
          rbind (ok_or unsupported (split_once '')'' arguments)) (\<lambda>(argument, cmp_text).
          if str_trim argument \<noteq> ''?'' then Inl unsupported
          else rbind (ok_or unsupported (comparison_parts (str_trim cmp_text))) (\<lambda>(operator, expected).
               rbind (parse_literal_expression lib expected) (\<lambda>expected.
               if \<not> is_number expected then Inl unsupported
               else rbind (parse_comparison_operator operator) (\<lambda>operator.
                    Inr (Some (TestStringTransformComparison StringLength operator expected))))))))"

definition parse_substring_transform_unary_test :: "string \<Rightarrow> dmn_error + dmn_unary_test option" where
  "parse_substring_transform_unary_test s =
     (let unsupported = unsupported_string_transform_unary_test s in
      case split_function_call_comparison s ''substring'' of
        None \<Rightarrow> Inr None
      | Some (call_args, cmp_text) \<Rightarrow>
          let arguments = split_comma_separated_literals call_args in
          if \<not> (length arguments = 2 \<or> length arguments = 3) \<or> arguments ! 0 \<noteq> ''?'' then Inl unsupported
          else rbind (ok_or unsupported (parse_i32 (arguments ! 1))) (\<lambda>start.
               rbind (if length arguments = 3
                      then rbind (ok_or unsupported (parse_i32 (arguments ! 2))) (\<lambda>n. Inr (Some n)) else Inr None) (\<lambda>len.
               rbind (parse_transform_equals_literal s cmp_text) (\<lambda>expected.
                 Inr (Some (TestSubstring start len expected))))))"

definition parse_replace_transform_unary_test :: "string \<Rightarrow> dmn_error + dmn_unary_test option" where
  "parse_replace_transform_unary_test s =
     (let unsupported = unsupported_string_transform_unary_test s in
      case split_function_call_comparison s ''replace'' of
        None \<Rightarrow> Inr None
      | Some (call_args, cmp_text) \<Rightarrow>
          let arguments = split_comma_separated_literals call_args in
          if \<not> (length arguments = 3 \<or> length arguments = 4) \<or> arguments ! 0 \<noteq> ''?'' then Inl unsupported
          else rbind (ok_or unsupported (parse_quoted_string_literal (arguments ! 1))) (\<lambda>pat.
               rbind (ok_or unsupported (parse_quoted_string_literal (arguments ! 2))) (\<lambda>replacement.
               rbind (if length arguments = 4
                      then rbind (ok_or unsupported (parse_quoted_string_literal (arguments ! 3))) (\<lambda>f. Inr (Some f)) else Inr None) (\<lambda>flags.
               rbind (parse_transform_equals_literal s cmp_text) (\<lambda>expected.
                 Inr (Some (TestReplace pat replacement flags expected)))))))"

fun case_transform_loop :: "string \<Rightarrow> (string \<times> dmn_string_transform) list \<Rightarrow> dmn_error + dmn_unary_test option" where
  "case_transform_loop s [] =
     (if str_starts_with ''lower case'' s \<or> str_starts_with ''upper case'' s \<or> str_starts_with ''string length'' s
         \<or> str_starts_with ''substring'' s \<or> str_starts_with ''replace'' s
      then Inl (unsupported_string_transform_unary_test s) else Inr None)"
| "case_transform_loop s ((function_name, transform) # transforms) =
     (let unsupported = unsupported_string_transform_unary_test s in
      case strip_prefix_str function_name s of
        None \<Rightarrow> case_transform_loop s transforms
      | Some remaining \<Rightarrow>
          rbind (ok_or unsupported (strip_prefix_str ''('' remaining)) (\<lambda>arguments.
          rbind (ok_or unsupported (split_once '')'' arguments)) (\<lambda>(argument, cmp_text).
          if str_trim argument \<noteq> ''?'' then Inl unsupported
          else rbind (parse_transform_equals_literal s cmp_text) (\<lambda>expected.
                 Inr (Some (TestStringTransform transform expected))))))"

definition parse_string_transform_unary_test :: "dmn_lib \<Rightarrow> string \<Rightarrow> dmn_error + dmn_unary_test option" where
  "parse_string_transform_unary_test lib s =
     rbind (parse_string_length_transform_unary_test lib s) (\<lambda>len.
       if len \<noteq> None then Inr len
       else rbind (parse_substring_transform_unary_test s) (\<lambda>sub.
         if sub \<noteq> None then Inr sub
         else rbind (parse_replace_transform_unary_test s) (\<lambda>repl.
           if repl \<noteq> None then Inr repl
           else case_transform_loop s [(''lower case'', LowerCase), (''upper case'', UpperCase)])))"

definition DATE_ALIAS_FUNCTIONS :: "string list" where
  "DATE_ALIAS_FUNCTIONS = [''fn_date'', ''fn_now'', ''fn_addDate'', ''fn_subtractDate'']"

text \<open>No alias overlaps with itself, so \<open>match_indices\<close> yields every position where it occurs.\<close>

definition alias_call_at :: "string \<Rightarrow> string \<Rightarrow> nat \<Rightarrow> bool" where
  "alias_call_at alias s index \<longleftrightarrow>
     str_starts_with alias (drop index s)
     \<and> (index = 0 \<or> \<not> (s ! (index - 1) = CHR ''_'' \<or> s ! (index - 1) = CHR ''-'') \<and> \<not> is_alphanumeric (s ! (index - 1)))
     \<and> str_starts_with ''('' (str_trim_start (drop (index + length alias) s))"

definition contains_date_alias_call :: "string \<Rightarrow> bool" where
  "contains_date_alias_call s \<longleftrightarrow>
     list_ex (\<lambda>alias. list_ex (alias_call_at alias s) [0..<length s]) DATE_ALIAS_FUNCTIONS"

definition deferred_parts :: "string \<Rightarrow> dmn_deferred_operator \<times> string" where
  "deferred_parts s =
     (if str_starts_with ''>='' s then (DeferGreaterEqual, drop 2 s)
      else if str_starts_with ''<='' s then (DeferLessEqual, drop 2 s)
      else if str_starts_with ''!='' s then (DeferNotEquals, drop 2 s)
      else if str_starts_with ''=='' s then (DeferEquals, drop 2 s)
      else if str_starts_with ''>'' s then (DeferGreater, drop 1 s)
      else if str_starts_with ''<'' s then (DeferLess, drop 1 s)
      else if str_starts_with ''='' s then (DeferEquals, drop 1 s)
      else (DeferEquals, s))"

definition parse_deferred_date_unary_test :: "string \<Rightarrow> dmn_error + dmn_unary_test option" where
  "parse_deferred_date_unary_test s =
     (if \<not> contains_date_alias_call s then Inr None
      else let (operator, operand) = deferred_parts s; operand = str_trim operand in
        if operand = [] then Inl (unary_test_error (''date alias unary test '' @ in_quotes s @ '' has no operand''))
        else Inr (Some (TestDeferredComparison operator operand)))"

definition parse_el_condition_unary_test :: "string \<Rightarrow> dmn_error + dmn_unary_test option" where
  "parse_el_condition_unary_test s =
     (if \<not> (str_contains ''#{'' s \<or> str_contains ''${'' s) \<or> CHR ''}'' \<notin> set s then Inr None
      else
        let opened = (case strip_prefix_str ''#{'' s of Some r \<Rightarrow> Some r | None \<Rightarrow> strip_prefix_str ''${'' s);
            closed = map_option str_trim (Option.bind opened (strip_suffix_str ''}''));
            unsupported = unary_test_error (''input entry '' @ in_quotes s
              @ '' is not a single `#{...}` / `${...}` expression; embedded or templated EL is not supported by the FEEL subset'')
        in case closed of
             None \<Rightarrow> Inl unsupported
           | Some inner \<Rightarrow>
               if inner \<noteq> [] \<and> \<not> str_contains ''#{'' inner \<and> \<not> str_contains ''${'' inner
               then Inr (Some (TestElCondition inner)) else Inl unsupported)"

text \<open>\<open>str::split('.')\<close>, and the cut of \<open>.path rest\<close> into the path and the remaining text.\<close>

fun split_dots :: "string \<Rightarrow> string \<Rightarrow> string list" where
  "split_dots piece [] = [piece]"
| "split_dots piece (c # s) = (if c = CHR ''.'' then piece # split_dots [] s else split_dots (piece @ [c]) s)"

definition is_path_char :: "char \<Rightarrow> bool" where
  "is_path_char c \<longleftrightarrow> is_alphanumeric c \<or> c = CHR ''_'' \<or> c = CHR ''.''"

definition property_path_parts :: "string \<Rightarrow> dmn_error + (string list \<times> string) option" where
  "property_path_parts s =
     (case strip_prefix_str ''.'' s of
        None \<Rightarrow> Inr None
      | Some [] \<Rightarrow> Inr None
      | Some (c # rest) \<Rightarrow>
          if \<not> (is_alphabetic c \<or> c = CHR ''_'') then Inr None
          else let path = split_dots [] (takeWhile is_path_char (c # rest)) in
            if [] \<in> set path then Inl (unary_test_error (''malformed property path in unary test '' @ in_quotes s))
            else Inr (Some (path, str_trim (dropWhile is_path_char (c # rest)))))"

section \<open>The parser\<close>

definition is_not_unary_test_candidate :: "string \<Rightarrow> bool" where
  "is_not_unary_test_candidate s =
     (case strip_prefix_str ''not'' s of
        None \<Rightarrow> False
      | Some remaining \<Rightarrow> str_starts_with ''('' (str_trim_start remaining))"

text \<open>\<open>parse(..).ok().flatten().is_some()\<close>.\<close>

fun parsed :: "dmn_error + dmn_unary_test option \<Rightarrow> bool" where
  "parsed (Inr (Some t)) = True"
| "parsed _ = False"

definition is_unsupported_not_argument :: "dmn_lib \<Rightarrow> string \<Rightarrow> bool" where
  "is_unsupported_not_argument lib argument =
     (let trimmed = str_trim argument in
      if trimmed = ''-'' then True
      else if str_starts_with ''not'' trimmed then \<not> is_not_unary_test_candidate trimmed
      else \<not> (comparison_parts trimmed \<noteq> None
              \<or> is_range_like trimmed
              \<or> parsed (parse_string_function_unary_test lib trimmed)
              \<or> parsed (parse_string_transform_unary_test lib trimmed)
              \<or> parsed (parse_list_contains_unary_test lib trimmed)
              \<or> parsed (parse_in_list_unary_test lib trimmed)
              \<or> str_starts_with ''='' trimmed
              \<or> str_starts_with ''!='' trimmed
              \<or> parse_quoted_string_literal trimmed \<noteq> None
              \<or> eq_ignore_ascii_case trimmed ''null''
              \<or> eq_ignore_ascii_case trimmed ''true''
              \<or> eq_ignore_ascii_case trimmed ''false''
              \<or> parse_feel_temporal_constructor trimmed \<noteq> None
              \<or> parse_feel_duration_constructor trimmed \<noteq> None
              \<or> (case parse_json lib trimmed of Some v \<Rightarrow> is_number v | None \<Rightarrow> False)))"

definition parse_comparison_unary_test :: "dmn_lib \<Rightarrow> string \<Rightarrow> string \<Rightarrow> dmn_error + dmn_unary_test" where
  "parse_comparison_unary_test lib operator operand =
     rbind (parse_literal_expression lib operand) (\<lambda>expected.
       if operator = ''>'' then Inr (TestGreaterThan expected)
       else if operator = ''>='' then Inr (TestGreaterThanOrEqual expected)
       else if operator = ''<'' then Inr (TestLessThan expected)
       else if operator = ''<='' then Inr (TestLessThanOrEqual expected)
       else Inl (DmnUnsupportedModel ''unary test comparison operator'' (comparison_operator_error operator)))"

definition parse_equality_unary_test :: "dmn_lib \<Rightarrow> string \<Rightarrow> dmn_error + dmn_unary_test" where
  "parse_equality_unary_test lib s =
     (if str_starts_with ''=='' s
      then rbind (parse_literal_expression lib (str_trim (drop 2 s))) (\<lambda>v. Inr (TestEquals v))
      else if str_starts_with ''='' s
      then rbind (parse_literal_expression lib (str_trim (drop 1 s))) (\<lambda>v. Inr (TestEquals v))
      else if str_starts_with ''!='' s
      then rbind (parse_literal_expression lib (str_trim (drop 2 s))) (\<lambda>v. Inr (TestNotEquals v))
      else if str_contains ''..'' s \<or> CHR '','' \<in> set s \<or> str_starts_with ''['' s
      then Inl (unsupported_input_unary_test_error s)
      else rbind (parse_literal_expression lib s) (\<lambda>v. Inr (TestEquals v)))"

text \<open>
  \<open>parse_single_unary_test\<close> is the part of \<open>parse_unary_test\<close> after the comma separated alternatives: the
  forms that do not contain a further unary test, tried in the order of the code.
\<close>

definition parse_single_unary_test :: "dmn_lib \<Rightarrow> string \<Rightarrow> dmn_error + dmn_unary_test" where
  "parse_single_unary_test lib trimmed =
     rbind (parse_deferred_date_unary_test trimmed) (\<lambda>deferred.
     case deferred of Some t \<Rightarrow> Inr t | None \<Rightarrow>
     rbind (parse_string_function_unary_test lib trimmed) (\<lambda>string_function.
     case string_function of Some t \<Rightarrow> Inr t | None \<Rightarrow>
     rbind (parse_list_contains_unary_test lib trimmed) (\<lambda>list_contains.
     case list_contains of Some t \<Rightarrow> Inr t | None \<Rightarrow>
     rbind (parse_in_list_unary_test lib trimmed) (\<lambda>in_list.
     case in_list of Some t \<Rightarrow> Inr t | None \<Rightarrow>
     rbind (parse_string_transform_unary_test lib trimmed) (\<lambda>transform.
     case transform of Some t \<Rightarrow> Inr t | None \<Rightarrow>
     if is_range_like trimmed then parse_feel_range lib trimmed
     else case comparison_parts trimmed of
       Some (operator, operand) \<Rightarrow> parse_comparison_unary_test lib operator operand
     | None \<Rightarrow> parse_equality_unary_test lib trimmed)))))"

definition negated :: "string \<Rightarrow> dmn_unary_test \<Rightarrow> dmn_error + dmn_unary_test" where
  "negated s t = (case t of TestAny \<Rightarrow> Inl (unsupported_not s) | TestAnyOf _ \<Rightarrow> Inl (unsupported_not s) | _ \<Rightarrow> Inr (TestNot t))"

section \<open>Pieces are shorter than the text\<close>

lemma push_value_length: "sum_list (map length (push_value p)) + length (push_value p) \<le> length p + 1"
  using length_str_trim [of p] by (simp add: push_value_def Let_def)

lemma split_literals_length:
  "sum_list (map length (split_literals q d p s)) + length (split_literals q d p s) \<le> length p + length s + 1"
proof (induction q d p s rule: split_literals.induct)
  case (1 quote depth piece)
  show ?case using push_value_length [of piece] by simp
next
  case (2 active depth piece c s)
  then show ?case by simp
next
  case (3 depth piece c s)
  then show ?case using push_value_length [of piece] by (auto simp: is_quote_def)
qed

lemma split_piece_shorter:
  assumes "p \<in> set (split_comma_separated_literals s)" "1 < length (split_comma_separated_literals s)"
  shows "length p < length s"
proof -
  have "length p \<le> sum_list (map length (split_comma_separated_literals s))"
    using assms(1) by (intro member_le_sum_list) auto
  then show ?thesis
    using assms(2) split_literals_length [of None 0 "[]" s] by (simp add: split_comma_separated_literals_def)
qed

lemma closing_paren_length: "closing_paren q d s = Some (a, b) \<Longrightarrow> length a + length b < length s"
proof (induction q d s arbitrary: a b rule: closing_paren.induct)
  case (3 depth c s)
  then show ?case by (auto simp: keep_def split: if_splits)
qed (auto simp: keep_def)

lemma strip_function_argument_shorter:
  assumes "strip_function_argument s name = Some a"
  shows "length a < length s"
proof -
  obtain r rem where r: "strip_prefix_str name s = Some r" "strip_prefix_str ''('' (str_trim_start r) = Some rem"
    and c: "closing_paren None 1 rem = Some (a, [])"
    using assms by (auto simp: strip_function_argument_def bind_eq_Some_conv split: if_splits)
  have "length (str_trim_start r) \<le> length r" by (simp add: str_trim_start_def length_dropWhile_le)
  then show ?thesis
    using strip_prefix_length [OF r(1)] strip_prefix_length [OF r(2)] closing_paren_length [OF c] by simp
qed

lemma property_path_shorter:
  assumes "property_path_parts s = Inr (Some (path, rest))"
  shows "length rest < length s"
proof -
  obtain c r where p: "strip_prefix_str ''.'' s = Some (c # r)" and rest: "rest = str_trim (dropWhile is_path_char (c # r))"
    using assms by (auto simp: property_path_parts_def Let_def split: option.splits list.splits if_splits)
  have "length rest \<le> length (c # r)"
    unfolding rest using length_str_trim length_dropWhile_le order_trans by metis
  then show ?thesis using strip_prefix_length [OF p] by simp
qed

lemma trimmed_piece_shorter:
  assumes "p \<in> set (split_comma_separated_literals (str_trim s))" "Suc 0 < length (split_comma_separated_literals (str_trim s))"
  shows "length p < length s"
  using split_piece_shorter [OF assms(1)] assms(2) length_str_trim [of s] by simp

lemma not_argument_shorter:
  assumes "strip_function_argument s name = Some a"
  shows "length (str_trim a) < length s"
  using strip_function_argument_shorter [OF assms] length_str_trim [of a] by simp

lemma not_piece_shorter:
  assumes "strip_function_argument s name = Some a"
    "p \<in> set (split_comma_separated_literals (str_trim a))" "Suc 0 < length (split_comma_separated_literals (str_trim a))"
  shows "length p < length s"
  using trimmed_piece_shorter [OF assms(2,3)] strip_function_argument_shorter [OF assms(1)] by simp

function (sequential) parse_unary_test :: "dmn_lib \<Rightarrow> string \<Rightarrow> dmn_error + dmn_unary_test"
  and parse_not_unary_test :: "dmn_lib \<Rightarrow> string \<Rightarrow> dmn_error + dmn_unary_test"
  and parse_property_path_unary_test :: "dmn_lib \<Rightarrow> string \<Rightarrow> dmn_error + dmn_unary_test option"
where
  "parse_unary_test lib s =
     (let trimmed = str_trim s in
      if trimmed = [] \<or> trimmed = ''-'' then Inr TestAny
      else rbind (parse_el_condition_unary_test trimmed) (\<lambda>el.
           case el of Some t \<Rightarrow> Inr t | None \<Rightarrow>
           rbind (parse_property_path_unary_test lib trimmed) (\<lambda>property.
           case property of Some t \<Rightarrow> Inr t | None \<Rightarrow>
           if is_not_unary_test_candidate trimmed then parse_not_unary_test lib trimmed
           else let alternatives = split_comma_separated_literals trimmed in
             if 1 < length alternatives
             then rbind (collect_results (parse_unary_test lib) alternatives) (\<lambda>tests. Inr (TestAnyOf tests))
             else parse_single_unary_test lib trimmed)))"
| "parse_not_unary_test lib s =
     (case strip_function_argument s ''not'' of
        None \<Rightarrow> Inl (unsupported_not s)
      | Some inner \<Rightarrow>
          let argument = str_trim inner in
          if argument = [] then Inl (unsupported_not s)
          else let alternatives = split_comma_separated_literals argument in
            if 1 < length alternatives
            then rbind (collect_results (\<lambda>alt. rbind (parse_unary_test lib alt) (negated s)) alternatives) (\<lambda>tests.
                   Inr (TestAnd tests))
            else if is_unsupported_not_argument lib argument then Inl (unsupported_not s)
            else rbind (parse_unary_test lib argument) (negated s))"
| "parse_property_path_unary_test lib s =
     (case property_path_parts s of
        Inl e \<Rightarrow> Inl e
      | Inr None \<Rightarrow> Inr None
      | Inr (Some (path, remainder)) \<Rightarrow>
          if remainder = [] then Inr (Some (TestPropertyPath path (TestEquals (JsonBool True))))
          else rbind (parse_unary_test lib remainder) (\<lambda>t. Inr (Some (TestPropertyPath path t))))"
  by pat_completeness auto

termination
proof (relation "measure (\<lambda>x. case x of
    Inl (lib, s) \<Rightarrow> 2 * length s + 1 | Inr (Inl (lib, s)) \<Rightarrow> 2 * length s | Inr (Inr (lib, s)) \<Rightarrow> 2 * length s)")
qed (auto dest: property_path_shorter trimmed_piece_shorter not_argument_shorter not_piece_shorter
       simp: length_str_trim less_Suc_eq_le)

declare parse_unary_test.simps [simp del] parse_not_unary_test.simps [simp del] parse_property_path_unary_test.simps [simp del]

end
