(* ===== verification/Dmn_Unary_Texts.thy ===== *)
theory Dmn_Unary_Texts
  imports Dmn_Unary_Parser
begin

text \<open>
  Lemmas on the texts that the reader of unary tests cuts: texts that the scanners
  for commas and parentheses pass over, literals and their printed texts, and the parse of every form of the grammar.
\<close>

section \<open>Texts the scanners pass over\<close>

text \<open>
  \<open>flat_text k w\<close>: read at a depth of at least \<open>k\<close>, the text \<open>w\<close> is neither split at a comma nor closed by a
  parenthesis.
\<close>

definition flat_text :: "nat \<Rightarrow> string \<Rightarrow> bool" where
  "flat_text k w \<longleftrightarrow>
     (\<forall>d p s. k \<le> d \<longrightarrow> split_literals None d p (w @ s) = split_literals None d (p @ w) s)
     \<and> (\<forall>d s. k \<le> d \<longrightarrow> 0 < d \<longrightarrow> closing_paren None d (w @ s) = foldr keep w (closing_paren None d s))"

definition plain_char :: "char \<Rightarrow> bool" where
  "plain_char c \<longleftrightarrow> \<not> is_quote c \<and> c \<noteq> CHR ''('' \<and> c \<noteq> CHR '')'' \<and> c \<noteq> CHR '',''"

lemma flat_Nil [simp]: "flat_text k []"
  by (simp add: flat_text_def)

lemma flat_append [intro]: "flat_text k a \<Longrightarrow> flat_text k b \<Longrightarrow> flat_text k (a @ b)"
  unfolding flat_text_def by simp

lemma flat_mono: "flat_text k w \<Longrightarrow> k \<le> k' \<Longrightarrow> flat_text k' w"
  unfolding flat_text_def by (meson le_trans)

lemma flat_char: "plain_char c \<Longrightarrow> flat_text k [c]"
  by (auto simp: flat_text_def plain_char_def)

lemma flat_plain: "list_all plain_char w \<Longrightarrow> flat_text k w"
  by (induction w) (auto intro: flat_append [of k "[_]", simplified] flat_char)

lemma flat_comma: "flat_text (Suc k) '',''"
  by (auto simp: flat_text_def is_quote_def)

lemma quoted_scan:
  assumes "q \<notin> set w"
  shows "split_literals (Some q) d p (w @ q # s) = split_literals None d (p @ w @ [q]) s"
    and "closing_paren (Some q) d (w @ q # s) = foldr keep (w @ [q]) (closing_paren None d s)"
  using assms by (induction w arbitrary: p) auto

lemma flat_quoted: "CHR 0x27 \<notin> set w \<Longrightarrow> flat_text k (in_quotes w)"
  by (auto simp: flat_text_def in_quotes_def is_quote_def quoted_scan)

lemma flat_paren:
  assumes "flat_text (Suc k) w"
  shows "flat_text k (''('' @ w @ '')'')"
  using assms by (auto simp: flat_text_def is_quote_def)

lemma flat_split: "flat_text 0 w \<Longrightarrow> split_literals None d p w = push_value (p @ w)"
  unfolding flat_text_def by (metis append.right_neutral le0 split_literals.simps(1))

lemma flat_closing: "flat_text 1 w \<Longrightarrow> closing_paren None 1 (w @ CHR '')'' # s) = Some (w, s)"
proof -
  assume w: "flat_text 1 w"
  have "foldr keep w (Some ([], s)) = Some (w, s)" by (induction w) (auto simp: keep_def)
  then show ?thesis using w unfolding flat_text_def by (simp add: is_quote_def)
qed

section \<open>Trimmed texts\<close>

definition trimmed_text :: "string \<Rightarrow> bool" where
  "trimmed_text w \<longleftrightarrow> w \<noteq> [] \<and> \<not> is_whitespace (hd w) \<and> \<not> is_whitespace (last w)"

lemma trimmed_text_trim [simp]: "trimmed_text w \<Longrightarrow> str_trim w = w"
  by (simp add: trimmed_text_def str_trim_id)

lemma trimmed_text_not_Nil [dest]: "trimmed_text w \<Longrightarrow> w \<noteq> []"
  by (simp add: trimmed_text_def)

lemma str_trim_space [simp]: "str_trim (CHR '' '' # w) = str_trim w"
  by (simp add: str_trim_def is_whitespace_def)

lemma str_trim_start_id [simp]: "trimmed_text w \<Longrightarrow> str_trim_start w = w"
  by (cases w) (simp_all add: trimmed_text_def str_trim_start_def)

lemma push_value_trimmed [simp]: "trimmed_text w \<Longrightarrow> push_value w = [w]"
  by (auto simp: push_value_def)

lemma push_value_space [simp]: "push_value (CHR '' '' # w) = push_value w"
  by (simp add: push_value_def)

lemma split_single: "flat_text 0 w \<Longrightarrow> trimmed_text w \<Longrightarrow> split_comma_separated_literals w = [w]"
  by (simp add: split_comma_separated_literals_def flat_split)

lemma split_joined_from:
  "list_all (\<lambda>w. flat_text 0 w \<and> trimmed_text w) (w # ws) \<Longrightarrow> p = [] \<or> p = '' '' \<Longrightarrow>
   split_literals None 0 p (join_with '', '' (w # ws)) = w # ws"
proof (induction ws arbitrary: w p)
  case Nil
  then show ?case by (auto simp: flat_split)
next
  case (Cons v ws)
  have "split_literals None 0 p (w @ CHR '','' # s) = push_value (p @ w) @ split_literals None 0 [] s" for s
    using Cons.prems by (simp add: flat_text_def is_quote_def)
  moreover have "push_value (p @ w) = [w]" using Cons.prems by auto
  moreover have "split_literals None 0 '' '' (join_with '', '' (v # ws)) = v # ws"
    using Cons.IH [of v "'' ''"] Cons.prems by simp
  ultimately show ?case by (simp add: is_quote_def)
qed

lemma split_joined:
  "ws \<noteq> [] \<Longrightarrow> list_all (\<lambda>w. flat_text 0 w \<and> trimmed_text w) ws \<Longrightarrow> split_comma_separated_literals (join_with '', '' ws) = ws"
  by (cases ws) (auto simp: split_comma_separated_literals_def split_joined_from)

section \<open>Literals\<close>

text \<open>
  The literals that can be read back: \<open>null\<close> and booleans as \<open>serde_json\<close> prints them, numbers whose
  printed text is a JSON number that the JSON reader takes back, and texts without a single quote. A text with two
  dots in a row, an EL opening or the letters \<open>fn_\<close> is taken for a range, an EL condition or a date function,
  whether it is quoted or not.
\<close>

definition number_char :: "char \<Rightarrow> bool" where
  "number_char c \<longleftrightarrow> is_ascii_digit c \<or> c \<in> set ''-+.eE''"

definition number_text :: "string \<Rightarrow> bool" where
  "number_text w \<longleftrightarrow> w \<noteq> [] \<and> list_all number_char w \<and> \<not> str_contains ''..'' w \<and> is_ascii_digit (last w)
     \<and> (is_ascii_digit (hd w) \<or> (hd w = CHR ''-'' \<and> tl w \<noteq> [] \<and> is_ascii_digit (hd (tl w))))"

definition inert_text :: "string \<Rightarrow> bool" where
  "inert_text w \<longleftrightarrow> \<not> str_contains ''#{'' w \<and> \<not> str_contains ''${'' w \<and> \<not> str_contains ''fn_'' w"

definition quotable :: "string \<Rightarrow> bool" where
  "quotable s \<longleftrightarrow> CHR 0x27 \<notin> set s \<and> inert_text s \<and> \<not> str_contains ''..'' s"

fun literal_ok :: "dmn_lib \<Rightarrow> json \<Rightarrow> bool" where
  "literal_ok lib JsonNull \<longleftrightarrow> show_json lib JsonNull = ''null''"
| "literal_ok lib (JsonBool b) \<longleftrightarrow> show_json lib (JsonBool b) = (if b then ''true'' else ''false'')"
| "literal_ok lib (JsonNumber n) \<longleftrightarrow>
     number_text (show_json lib (JsonNumber n)) \<and> parse_json lib (show_json lib (JsonNumber n)) = Some (JsonNumber n)"
| "literal_ok lib (JsonString s) \<longleftrightarrow> quotable s"
| "literal_ok lib _ \<longleftrightarrow> False"

definition literal_lead :: "char \<Rightarrow> bool" where
  "literal_lead c \<longleftrightarrow> is_ascii_digit c \<or> c = CHR ''-'' \<or> c = CHR 0x27 \<or> c = CHR ''n'' \<or> c = CHR ''t'' \<or> c = CHR ''f''"

text \<open>What the proofs use of the text of a literal.\<close>

definition literal_text :: "string \<Rightarrow> bool" where
  "literal_text w \<longleftrightarrow> flat_text 0 w \<and> trimmed_text w \<and> literal_lead (hd w) \<and> last w \<noteq> CHR ''.'' \<and> w \<noteq> ''-''
     \<and> inert_text w \<and> \<not> str_contains ''..'' w \<and> \<not> str_starts_with ''not'' w"

lemma digit_facts: "is_ascii_digit c \<Longrightarrow> plain_char c \<and> \<not> is_whitespace c \<and> c \<noteq> CHR ''.'' \<and> c \<noteq> CHR ''-'' \<and> c \<noteq> CHR ''n''"
  by (auto simp: is_ascii_digit_def plain_char_def is_quote_def is_whitespace_def)

lemma number_char_plain: "number_char c \<Longrightarrow> plain_char c"
  by (auto simp: number_char_def plain_char_def is_quote_def is_ascii_digit_def)

lemma number_text_literal: "number_text w \<Longrightarrow> literal_text w"
proof -
  assume w: "number_text w"
  have chars: "CHR ''#'' \<notin> set w" "CHR ''$'' \<notin> set w" "CHR ''f'' \<notin> set w" "CHR ''n'' \<notin> set w"
    using w by (auto simp: number_text_def list_all_iff number_char_def is_ascii_digit_def)
  then have inert: "inert_text w" using w by (simp add: inert_text_def number_text_def str_contains_not_in)
  have "flat_text 0 w" using w by (auto intro!: flat_plain simp: number_text_def list_all_iff number_char_plain)
  moreover have "\<not> is_whitespace (CHR ''-'')" by (simp add: is_whitespace_def)
  then have "trimmed_text w" using w by (auto simp: number_text_def trimmed_text_def digit_facts)
  moreover have "\<not> str_starts_with ''not'' w" using chars(4) w by (cases w) (auto simp: number_text_def)
  moreover have "w \<noteq> ''-''" using w by (auto simp: number_text_def is_ascii_digit_def)
  ultimately show ?thesis using w inert by (auto simp: literal_text_def literal_lead_def number_text_def digit_facts)
qed

lemma in_quotes_contains:
  "CHR 0x27 \<notin> set pat \<Longrightarrow> pat \<noteq> [] \<Longrightarrow> str_contains pat (in_quotes s) \<longleftrightarrow> str_contains pat s"
  using str_contains_sep [of "CHR 0x27" pat "[]"] str_contains_sep [of "CHR 0x27" pat s "[]"]
  by (simp add: in_quotes_def)

lemma quotable_literal: "quotable s \<Longrightarrow> literal_text (in_quotes s)"
proof -
  assume s: "quotable s"
  then have "inert_text (in_quotes s)" "\<not> str_contains ''..'' (in_quotes s)"
    by (simp_all add: quotable_def inert_text_def in_quotes_contains)
  moreover have "flat_text 0 (in_quotes s)" using s by (simp add: quotable_def flat_quoted)
  ultimately show ?thesis
    by (simp add: literal_text_def trimmed_text_def literal_lead_def in_quotes_def is_whitespace_def)
qed

lemma constant_literal: "w \<in> {''null'', ''true'', ''false''} \<Longrightarrow> literal_text w"
  by (auto simp: literal_text_def trimmed_text_def literal_lead_def inert_text_def str_contains_def is_whitespace_def
      plain_char_def is_quote_def intro!: flat_plain)

lemma render_literal_text: "literal_ok lib v \<Longrightarrow> literal_text (render_literal lib v)"
  by (cases v) (auto simp: render_literal_def quotable_literal number_text_literal constant_literal)

section \<open>Reading a literal\<close>

lemma lowercase_Cons: "to_ascii_lowercase w = c # cs \<Longrightarrow> \<exists>d ds. w = d # ds \<and> to_ascii_lower d = c"
  by (cases w) (auto simp: to_ascii_lowercase_def)

lemma not_keyword:
  "\<not> is_alphabetic (hd w) \<Longrightarrow> w \<noteq> [] \<Longrightarrow> \<not> eq_ignore_ascii_case w ''null'' \<and> \<not> eq_ignore_ascii_case w ''true'' \<and> \<not> eq_ignore_ascii_case w ''false''"
  by (cases w) (auto simp: eq_ignore_ascii_case_def to_ascii_lowercase_def to_ascii_lower_def is_alphabetic_def split: if_splits)

lemma no_constructor:
  "w \<noteq> [] \<Longrightarrow> hd w \<noteq> CHR ''d'' \<Longrightarrow> hd w \<noteq> CHR ''t'' \<Longrightarrow>
   parse_feel_temporal_constructor w = None \<and> parse_feel_duration_constructor w = None"
  by (cases w) (auto simp: parse_feel_temporal_constructor_def parse_feel_duration_constructor_def
      parse_feel_string_constructor_argument_def strip_prefix_str_def map_filter_simps)

lemma quoted_text_in_quotes: "CHR 0x27 \<notin> set s \<Longrightarrow> quoted_text (in_quotes s) = Some s"
  by (simp add: quoted_text_def in_quotes_def strip_prefix_str_def strip_suffix_snoc)

lemma parse_quoted_in_quotes:
  "CHR 0x27 \<notin> set s \<Longrightarrow> parse_quoted_string_literal (in_quotes s) = Some s"
  "CHR 0x27 \<notin> set s \<Longrightarrow> parse_quoted_string_literal (CHR '' '' # in_quotes s) = Some s"
proof -
  have "trimmed_text (in_quotes s)" by (simp add: trimmed_text_def in_quotes_def is_whitespace_def)
  then show "CHR 0x27 \<notin> set s \<Longrightarrow> parse_quoted_string_literal (in_quotes s) = Some s"
    "CHR 0x27 \<notin> set s \<Longrightarrow> parse_quoted_string_literal (CHR '' '' # in_quotes s) = Some s"
    using quoted_text_in_quotes [of s] by (simp_all add: parse_quoted_string_literal_def Let_def) (simp_all add: in_quotes_def)
qed

lemma parse_literal_quoted: "CHR 0x27 \<notin> set s \<Longrightarrow> parse_literal_expression lib (in_quotes s) = Inr (JsonString s)"
proof -
  assume s: "CHR 0x27 \<notin> set s"
  have h: "hd (in_quotes s) = CHR 0x27" "in_quotes s \<noteq> []" by (simp_all add: in_quotes_def)
  then have "\<not> is_alphabetic (hd (in_quotes s))" by (simp add: is_alphabetic_def)
  moreover have "str_trim (in_quotes s) = in_quotes s"
    by (intro trimmed_text_trim) (simp add: trimmed_text_def in_quotes_def is_whitespace_def)
  ultimately show ?thesis
    using not_keyword [of "in_quotes s"] no_constructor [of "in_quotes s"] h parse_quoted_in_quotes(1) [OF s]
    by (simp add: parse_literal_expression_def Let_def)
qed

lemma normalize_number: "number_text w \<Longrightarrow> normalize_bare_decimal_point w = w"
proof -
  assume w: "number_text w"
  have last: "strip_suffix_str ''.'' v = None" if "v \<noteq> []" "last v = last w" for v
    using that w digit_facts [of "last w"] by (cases v rule: rev_cases) (auto simp: number_text_def strip_suffix_snoc)
  have dot: "strip_prefix_str ''.'' v = None" if "v \<noteq> []" "is_ascii_digit (hd v)" for v
    using that digit_facts [of "hd v"] by (cases v) (auto simp: strip_prefix_str_def)
  show ?thesis
  proof (cases "is_ascii_digit (hd w)")
    case True
    then have "strip_prefix_str ''-'' w = None" using digit_facts [of "hd w"] by (cases w) (auto simp: strip_prefix_str_def)
    then show ?thesis using w last [of w] dot [of w] True by (simp add: normalize_bare_decimal_point_def number_text_def)
  next
    case False
    then have m: "w = CHR ''-'' # tl w" "tl w \<noteq> []" "is_ascii_digit (hd (tl w))" using w by (cases w; auto simp: number_text_def)+
    then have "strip_prefix_str ''-'' w = Some (tl w)" by (cases w) (simp_all add: strip_prefix_str_def)
    then show ?thesis using last [of "tl w"] dot [of "tl w"] m by (simp add: normalize_bare_decimal_point_def last_tl)
  qed
qed

lemma number_lead: "number_text w \<Longrightarrow> \<not> is_alphabetic (hd w) \<and> hd w \<noteq> CHR ''d'' \<and> hd w \<noteq> CHR ''t'' \<and> \<not> is_quote (hd w)"
  by (auto simp: number_text_def is_ascii_digit_def is_alphabetic_def is_quote_def)

lemma parse_quoted_number: "number_text w \<Longrightarrow> parse_quoted_string_literal w = None"
  using number_lead [of w] number_text_literal [of w]
  by (cases w) (auto simp: parse_quoted_string_literal_def quoted_text_def literal_text_def is_quote_def Let_def)

lemma parse_literal_number:
  assumes "number_text w" "parse_json lib w = Some v" "is_number v"
  shows "parse_literal_expression lib w = Inr v"
proof -
  have "str_trim w = w" "w \<noteq> []" using number_text_literal [OF assms(1)] by (auto simp: literal_text_def)
  then show ?thesis
    using not_keyword [of w] no_constructor [of w] number_lead [OF assms(1)] parse_quoted_number [OF assms(1)]
      normalize_number [OF assms(1)] assms(2,3)
    by (simp add: parse_literal_expression_def Let_def is_json_literal_def)
qed

lemma parse_literal_render: "literal_ok lib v \<Longrightarrow> parse_literal_expression lib (render_literal lib v) = Inr v"
proof (cases v)
  case (JsonNumber n)
  then show "literal_ok lib v \<Longrightarrow> ?thesis" by (simp add: render_literal_def parse_literal_number)
next
  case (JsonString s)
  then show "literal_ok lib v \<Longrightarrow> ?thesis" by (simp add: render_literal_def quotable_def parse_literal_quoted)
qed (auto simp: render_literal_def parse_literal_expression_def eq_ignore_ascii_case_def to_ascii_lowercase_def to_ascii_lower_def
       str_trim_def is_whitespace_def)

section \<open>The order in which the forms are tried\<close>

lemma no_date_alias: "\<not> str_contains ''fn_'' w \<Longrightarrow> \<not> contains_date_alias_call w"
proof
  assume no: "\<not> str_contains ''fn_'' w" and "contains_date_alias_call w"
  then obtain fname i where a: "fname \<in> set DATE_ALIAS_FUNCTIONS" and "str_starts_with fname (drop i w)"
    by (auto simp: contains_date_alias_call_def alias_call_at_def list_ex_iff)
  then obtain r where r: "drop i w = fname @ r" by (auto simp: str_starts_with_iff)
  obtain rest where "fname = ''fn_'' @ rest" using a by (auto simp: DATE_ALIAS_FUNCTIONS_def)
  then have "w = take i w @ ''fn_'' @ (rest @ r)" using r append_take_drop_id [of i w] by simp
  then show False using no unfolding str_contains_iff by blast
qed

lemma no_el: "inert_text w \<Longrightarrow> parse_el_condition_unary_test w = Inr None"
  by (simp add: inert_text_def parse_el_condition_unary_test_def)

lemma no_property_path: "hd w \<noteq> CHR ''.'' \<Longrightarrow> parse_property_path_unary_test lib w = Inr None"
  by (cases w) (simp_all add: parse_property_path_unary_test.simps property_path_parts_def strip_prefix_str_def)

lemma no_deferred: "inert_text w \<Longrightarrow> parse_deferred_date_unary_test w = Inr None"
  by (simp add: inert_text_def parse_deferred_date_unary_test_def no_date_alias)

text \<open>A text that reaches the single forms, and one that none of the function forms takes.\<close>

definition shell_ok :: "string \<Rightarrow> bool" where
  "shell_ok w \<longleftrightarrow> trimmed_text w \<and> w \<noteq> ''-'' \<and> hd w \<noteq> CHR ''.'' \<and> parse_el_condition_unary_test w = Inr None
     \<and> \<not> str_starts_with ''not'' w \<and> split_comma_separated_literals w = [w]"

lemma parse_shell: "shell_ok w \<Longrightarrow> parse_unary_test lib w = parse_single_unary_test lib w"
  by (subst parse_unary_test.simps)
    (auto simp: shell_ok_def no_property_path is_not_unary_test_candidate_def strip_prefix_str_def trimmed_text_def)

definition no_function_lead :: "char \<Rightarrow> bool" where
  "no_function_lead c \<longleftrightarrow> c \<notin> set ''escml?iur''"

lemma no_prefix: "w \<noteq> [] \<Longrightarrow> hd w \<noteq> c \<Longrightarrow> strip_prefix_str (c # cs) w = None"
  by (simp add: strip_prefix_str_def str_starts_with_hd)

lemma no_function_forms:
  assumes "trimmed_text w" "no_function_lead (hd w)"
  shows "parse_string_function_unary_test lib w = Inr None" "parse_list_contains_unary_test lib w = Inr None"
    "parse_in_list_unary_test lib w = Inr None" "parse_string_transform_unary_test lib w = Inr None"
proof -
  have w: "w \<noteq> []" and lead: "hd w \<notin> set ''escml?iur''" using assms by (auto simp: no_function_lead_def)
  note simps = no_prefix [OF w] str_starts_with_hd [OF w]
  show "parse_string_function_unary_test lib w = Inr None" using lead
    by (simp add: simps parse_string_function_unary_test_def string_function_named_def function_arguments_def)
  show "parse_list_contains_unary_test lib w = Inr None" using lead
    by (simp add: simps parse_list_contains_unary_test_def)
  show "parse_in_list_unary_test lib w = Inr None" using lead assms
    by (simp add: simps parse_in_list_unary_test_def in_list_body_def)
  show "parse_string_transform_unary_test lib w = Inr None" using lead
    by (simp add: simps parse_string_transform_unary_test_def parse_string_length_transform_unary_test_def
        parse_substring_transform_unary_test_def parse_replace_transform_unary_test_def split_function_call_comparison_def)
qed

lemma parse_single_plain:
  assumes "trimmed_text w" "no_function_lead (hd w)" "inert_text w"
  shows "parse_single_unary_test lib w =
    (if is_range_like w then parse_feel_range lib w
     else case comparison_parts w of
       Some (operator, operand) \<Rightarrow> parse_comparison_unary_test lib operator operand
     | None \<Rightarrow> parse_equality_unary_test lib w)"
  using no_function_forms [OF assms(1,2)] no_deferred [OF assms(3)] by (simp add: parse_single_unary_test_def)

section \<open>Equality, comparison and range\<close>

lemma literal_lead_facts:
  "literal_lead c \<Longrightarrow> no_function_lead c \<and> c \<noteq> CHR ''['' \<and> c \<noteq> CHR ''('' \<and> c \<noteq> CHR ''.'' \<and> c \<noteq> CHR ''>'' \<and> c \<noteq> CHR ''<'' \<and> c \<noteq> CHR ''='' \<and> c \<noteq> CHR ''!''"
  by (auto simp: literal_lead_def no_function_lead_def is_ascii_digit_def)

lemma literal_text_shell: "literal_text w \<Longrightarrow> shell_ok w"
  by (auto simp: literal_text_def shell_ok_def no_el split_single literal_lead_facts)

lemma parse_single_equals:
  assumes "literal_text w" "CHR '','' \<notin> set w" "parse_literal_expression lib w = Inr v"
  shows "parse_single_unary_test lib w = Inr (TestEquals v)"
proof -
  have w: "trimmed_text w" "inert_text w" "w \<noteq> []" "\<not> str_contains ''..'' w" and lead: "literal_lead (hd w)"
    using assms(1) by (auto simp: literal_text_def)
  note heads = str_starts_with_hd [OF w(3)] literal_lead_facts [OF lead]
  have "\<not> is_range_like w" using w heads by (simp add: is_range_like_def inert_text_def)
  moreover have "comparison_parts w = None" using heads by (simp add: comparison_parts_def)
  moreover have "parse_equality_unary_test lib w = Inr (TestEquals v)"
    using w heads assms(2,3) by (simp add: parse_equality_unary_test_def inert_text_def)
  ultimately show ?thesis using parse_single_plain [OF w(1) _ w(2)] heads by simp
qed

lemma operator_text:
  assumes "literal_text w" "op \<in> {''!='', ''>'', ''>='', ''<'', ''<=''}"
  shows "shell_ok (op @ '' '' @ w)" "flat_text 0 (op @ '' '' @ w)" "inert_text (op @ '' '' @ w)" "trimmed_text (op @ '' '' @ w)"
    "no_function_lead (hd (op @ '' '' @ w))" "\<not> is_range_like (op @ '' '' @ w)"
proof -
  have w: "inert_text w" "flat_text 0 w" "w \<noteq> []" "\<not> is_whitespace (last w)" "\<not> str_contains ''..'' w" using assms(1) by (auto simp: literal_text_def trimmed_text_def)
  have "list_all plain_char (op @ '' '')" using assms(2) by (auto simp: plain_char_def is_quote_def)
  then show l: "flat_text 0 (op @ '' '' @ w)" using w(2) by (metis append.assoc flat_append flat_plain)
  show i: "inert_text (op @ '' '' @ w)" using w(1) assms(2) by (auto simp: inert_text_def str_contains_Cons)
  show t: "trimmed_text (op @ '' '' @ w)" using w assms(2) by (auto simp: trimmed_text_def is_whitespace_def)
  show "no_function_lead (hd (op @ '' '' @ w))" using assms(2) by (auto simp: no_function_lead_def)
  show "\<not> is_range_like (op @ '' '' @ w)" using w(5) assms(2) by (auto simp: is_range_like_def str_contains_Cons)
  show "shell_ok (op @ '' '' @ w)"
    using l i t assms(2) by (auto simp: shell_ok_def split_single no_el)
qed

lemma parse_single_operator:
  assumes "literal_text w" "parse_literal_expression lib w = Inr v"
  shows "parse_single_unary_test lib (''!= '' @ w) = Inr (TestNotEquals v)"
    "parse_single_unary_test lib (''> '' @ w) = Inr (TestGreaterThan v)"
    "parse_single_unary_test lib (''>= '' @ w) = Inr (TestGreaterThanOrEqual v)"
    "parse_single_unary_test lib (''< '' @ w) = Inr (TestLessThan v)"
    "parse_single_unary_test lib (''<= '' @ w) = Inr (TestLessThanOrEqual v)"
proof -
  have t: "str_trim w = w" using assms(1) by (simp add: literal_text_def)
  note plain = operator_text [OF assms(1)]
  show "parse_single_unary_test lib (''!= '' @ w) = Inr (TestNotEquals v)"
    using parse_single_plain [OF plain(4,5,3), of "''!=''" lib] plain(6) [of "''!=''"] assms(2) t
    by (simp add: comparison_parts_def parse_equality_unary_test_def)
  show "parse_single_unary_test lib (''> '' @ w) = Inr (TestGreaterThan v)"
    using parse_single_plain [OF plain(4,5,3), of "''>''" lib] plain(6) [of "''>''"] assms(2) t
    by (simp add: comparison_parts_def parse_comparison_unary_test_def)
  show "parse_single_unary_test lib (''>= '' @ w) = Inr (TestGreaterThanOrEqual v)"
    using parse_single_plain [OF plain(4,5,3), of "''>=''" lib] plain(6) [of "''>=''"] assms(2) t
    by (simp add: comparison_parts_def parse_comparison_unary_test_def)
  show "parse_single_unary_test lib (''< '' @ w) = Inr (TestLessThan v)"
    using parse_single_plain [OF plain(4,5,3), of "''<''" lib] plain(6) [of "''<''"] assms(2) t
    by (simp add: comparison_parts_def parse_comparison_unary_test_def)
  show "parse_single_unary_test lib (''<= '' @ w) = Inr (TestLessThanOrEqual v)"
    using parse_single_plain [OF plain(4,5,3), of "''<=''" lib] plain(6) [of "''<=''"] assms(2) t
    by (simp add: comparison_parts_def parse_comparison_unary_test_def)
qed

definition range_text :: "string \<Rightarrow> string \<Rightarrow> bool \<Rightarrow> bool \<Rightarrow> string" where
  "range_text a b si ei = (if si then ''['' else ''('') @ a @ ''..'' @ b @ (if ei then '']'' else '')'')"

lemma range_text_facts:
  assumes "literal_text a" "literal_text b"
  shows "shell_ok (range_text a b si ei)" "inert_text (range_text a b si ei)" "trimmed_text (range_text a b si ei)"
    "no_function_lead (hd (range_text a b si ei))" "is_range_like (range_text a b si ei)"
    "si = ei \<Longrightarrow> flat_text 0 (range_text a b si ei)"
proof -
  have ab: "inert_text a" "inert_text b" "flat_text 0 a" "flat_text 0 b" using assms by (auto simp: literal_text_def)
  then show i: "inert_text (range_text a b si ei)"
    by (auto simp: range_text_def inert_text_def str_contains_Cons str_contains_sep [of "CHR ''.''" _ a]
        str_contains_sep [of "CHR '']''" _ b] str_contains_sep [of "CHR '')''" _ b])
  show t: "trimmed_text (range_text a b si ei)"
    by (auto simp: range_text_def trimmed_text_def is_whitespace_def)
  show "no_function_lead (hd (range_text a b si ei))" by (simp add: range_text_def no_function_lead_def)
  show "is_range_like (range_text a b si ei)" by (simp add: range_text_def is_range_like_def)
  have dots: "flat_text k ''..''" "flat_text k ''[''" "flat_text k '']''" for k
    by (auto intro!: flat_plain simp: plain_char_def is_quote_def)
  have body: "flat_text 0 (a @ ''..'' @ b)" using ab dots by blast
  show "si = ei \<Longrightarrow> flat_text 0 (range_text a b si ei)"
    using flat_paren [OF flat_mono [OF body], of 0] flat_append [OF dots(2) flat_append [OF body dots(3)]]
    by (auto simp: range_text_def)
  have "split_literals None d p ((a @ ''..'' @ b) @ s) = split_literals None d (p @ a @ ''..'' @ b) s" for d p s
    using body unfolding flat_text_def by blast
  then have "split_comma_separated_literals (range_text a b si ei) = push_value (range_text a b si ei)"
    by (auto simp: split_comma_separated_literals_def range_text_def is_quote_def)
  then show "shell_ok (range_text a b si ei)"
    using t i by (cases si) (auto simp: shell_ok_def no_el range_text_def)
qed

lemma parse_range_text:
  assumes "literal_text a" "literal_text b" "parse_literal_expression lib a = Inr u" "parse_literal_expression lib b = Inr v"
  shows "parse_feel_range lib (range_text a b si ei) = Inr (TestRange u v si ei)"
proof -
  let ?w = "range_text a b si ei"
  have parts: "hd ?w = (if si then CHR ''['' else CHR ''('')" "last ?w = (if ei then CHR '']'' else CHR '')'')"
    "?w \<noteq> []" "butlast (tl ?w) = a @ CHR ''.'' # CHR ''.'' # b"
    by (auto simp: range_text_def butlast_append)
  have "split_once ''..'' (a @ CHR ''.'' # CHR ''.'' # b) = Some (a, b)"
    using assms(1) by (intro split_once_dots) (auto simp: literal_text_def)
  moreover have "str_trim a = a" "a \<noteq> []" "str_trim b = b" "b \<noteq> []" "\<not> str_contains ''..'' b"
    using assms(1,2) by (auto simp: literal_text_def)
  ultimately show ?thesis using assms(3,4) parts by (cases si; cases ei) (simp_all add: parse_feel_range_def)
qed

section \<open>Function forms\<close>

lemma flat_arguments: "list_all (\<lambda>c. plain_char c \<or> c = CHR '','') w \<Longrightarrow> flat_text (Suc k) w"
proof (induction w)
  case (Cons c w)
  then have "flat_text (Suc k) [c]" using flat_char flat_comma by auto
  then show ?case using Cons flat_append [of "Suc k" "[c]" w] by simp
qed simp

lemma flat_joined: "list_all (flat_text 0) ws \<Longrightarrow> flat_text (Suc k) (join_with '', '' ws)"
proof (induction "'', ''" ws rule: join_with.induct)
  case (2 x)
  then show ?case using flat_mono [of 0 x] by simp
next
  case (3 x v va)
  have "flat_text (Suc k) '', ''" by (rule flat_arguments) (simp add: plain_char_def is_quote_def)
  then show ?case
    using 3 flat_mono [of 0 x "Suc k"] flat_append [of "Suc k" "'', ''" "join_with '', '' (v # va)"]
      flat_append [of "Suc k" x "'', '' @ join_with '', '' (v # va)"] by simp
qed simp

text \<open>The text of a call, with the comparison after it.\<close>

definition call_text :: "string \<Rightarrow> string list \<Rightarrow> string \<Rightarrow> string" where
  "call_text name arguments rest = name @ ''('' @ join_with '', '' arguments @ '')'' @ rest"

lemma flat_call:
  assumes "list_all plain_char name" "list_all (flat_text 0) arguments" "flat_text 0 rest"
  shows "flat_text 0 (call_text name arguments rest)"
proof -
  have "flat_text 0 (name @ (''('' @ join_with '', '' arguments @ '')'') @ rest)"
    using assms flat_paren [OF flat_joined [OF assms(2)], of 0] flat_plain [OF assms(1)] by blast
  then show ?thesis by (simp add: call_text_def)
qed

lemma inert_join:
  "list_all inert_text ws \<Longrightarrow> inert_text (join_with '', '' ws)"
proof (induction "'', ''" ws rule: join_with.induct)
  case (3 x v va)
  then show ?case by (auto simp: inert_text_def str_contains_sep str_contains_Cons)
qed (auto simp: inert_text_def)

lemma inert_call:
  assumes "inert_text name" "list_all inert_text arguments" "inert_text rest"
  shows "inert_text (call_text name arguments rest)"
  using assms inert_join [OF assms(2)] by (auto simp: call_text_def inert_text_def str_contains_sep)

lemma question_flat: "flat_text 0 ''?''" "trimmed_text ''?''" "inert_text ''?''"
  by (auto intro!: flat_plain simp: plain_char_def is_quote_def trimmed_text_def is_whitespace_def inert_text_def str_contains_def)

lemma split_arguments:
  "list_all literal_text ws \<Longrightarrow> split_comma_separated_literals (join_with '', '' (''?'' # ws)) = ''?'' # ws"
  by (rule split_joined) (auto simp: list_all_iff literal_text_def question_flat)

lemma parse_string_function_call:
  assumes "quotable needle" "f = Matches \<longrightarrow> regex_is_match lib needle [] \<noteq> None"
  shows "parse_string_function_unary_test lib (call_text (render_string_function f) [''?'', in_quotes needle] [])
    = Inr (Some (TestStringFunction f needle))"
proof -
  have args: "split_comma_separated_literals (CHR ''?'' # CHR '','' # CHR '' '' # in_quotes needle) = [''?'', in_quotes needle]"
    using split_arguments [of "[in_quotes needle]"] quotable_literal [OF assms(1)] by simp
  have "CHR 0x27 \<notin> set needle" using assms(1) by (simp add: quotable_def)
  then show ?thesis using assms(2) args parse_quoted_in_quotes(1) [of needle]
    by (cases f) (simp_all add: parse_string_function_unary_test_def string_function_named_def call_text_def function_arguments_def
        strip_prefix_str_def parse_string_function_arguments_def)
qed

lemma parse_case_transform:
  assumes "quotable x" "f \<noteq> StringLength"
  shows "parse_string_transform_unary_test lib (call_text (render_string_transform f) [''?''] ('' = '' @ in_quotes x))
    = Inr (Some (TestStringTransform f x))"
proof -
  have "CHR 0x27 \<notin> set x" using assms(1) by (simp add: quotable_def)
  then show ?thesis using assms(2) parse_quoted_in_quotes(2) [of x]
    by (cases f) (simp_all add: parse_string_transform_unary_test_def call_text_def strip_prefix_str_def split_once_def
        parse_string_length_transform_unary_test_def parse_substring_transform_unary_test_def parse_replace_transform_unary_test_def
        split_function_call_comparison_def parse_transform_equals_literal_def str_trim_start_def str_trim_def is_whitespace_def)
qed

lemma comparison_parts_operator:
  "trimmed_text w \<Longrightarrow> comparison_parts (render_comparison_operator op @ '' '' @ w) = Some (render_comparison_operator op, w)"
  by (cases op) (simp_all add: comparison_parts_def)

lemma parse_comparison_operator_render: "parse_comparison_operator (render_comparison_operator op) = Inr op"
  by (cases op) (simp_all add: parse_comparison_operator_def)

lemma parse_string_length:
  assumes "literal_text w" "parse_literal_expression lib w = Inr v" "is_number v"
  shows "parse_string_transform_unary_test lib (call_text ''string length'' [''?''] ('' '' @ render_comparison_operator op @ '' '' @ w))
    = Inr (Some (TestStringTransformComparison StringLength op v))"
proof -
  have w: "trimmed_text w" using assms(1) by (simp add: literal_text_def)
  have "trimmed_text (render_comparison_operator op @ '' '' @ w)"
    using w by (cases op) (auto simp: trimmed_text_def is_whitespace_def)
  moreover have "str_trim ''?'' = ''?''" by (simp add: str_trim_def is_whitespace_def)
  ultimately have "parse_string_length_transform_unary_test lib
      (call_text ''string length'' [''?''] ('' '' @ render_comparison_operator op @ '' '' @ w))
    = Inr (Some (TestStringTransformComparison StringLength op v))"
    using assms comparison_parts_operator [OF w, of op] parse_comparison_operator_render [of op]
    by (simp add: parse_string_length_transform_unary_test_def call_text_def strip_prefix_str_def split_once_def)
  then show ?thesis by (simp add: parse_string_transform_unary_test_def)
qed

lemma show_nat_number: "number_text (show_nat n)" "number_text (CHR ''-'' # show_nat n)"
proof -
  have d: "c \<in> set (show_nat n) \<Longrightarrow> is_ascii_digit c" for c using show_nat_digits [of n] by blast
  have "CHR ''.'' \<notin> set (show_nat n)" using d [of "CHR ''.''"] by (auto simp: is_ascii_digit_def)
  then have "\<not> str_contains ''..'' (show_nat n)" "\<not> str_contains ''..'' (CHR ''-'' # show_nat n)"
    by (auto simp: str_contains_not_in)
  then show "number_text (show_nat n)" "number_text (CHR ''-'' # show_nat n)"
    using d by (auto simp: number_text_def list_all_iff number_char_def)
qed

lemma show_int_literal: "literal_text (show_int i)"
  using show_nat_number by (auto simp: show_int_def intro: number_text_literal)

lemma parse_i32_show: "parse_i32 (show_int (sint w)) = Some w"
proof -
  have bounds: "I32_MIN \<le> sint w" "sint w \<le> I32_MAX"
    using sint_ge [of w] sint_lt [of w] by (auto simp: I32_MIN_def I32_MAX_def)
  obtain c ds where s: "show_nat (nat \<bar>sint w\<bar>) = c # ds" by (cases "show_nat (nat \<bar>sint w\<bar>)") auto
  then have c: "c \<noteq> CHR ''-''" "c \<noteq> CHR ''+''" and d: "list_all is_ascii_digit (c # ds)"
    using show_nat_digits [of "nat \<bar>sint w\<bar>"] by (auto simp: list_all_iff is_ascii_digit_def)
  have v: "decimal_value (c # ds) = \<bar>sint w\<bar>" using decimal_value_show_nat [of "nat \<bar>sint w\<bar>"] s by simp
  show ?thesis
  proof (cases "sint w < 0")
    case True
    then have "show_int (sint w) = CHR ''-'' # c # ds" using s by (simp add: show_int_def)
    then show ?thesis using d v True bounds by (simp add: parse_i32_def)
  next
    case False
    then have "show_int (sint w) = c # ds" using s by (simp add: show_int_def)
    then show ?thesis using c d v False bounds by (simp add: parse_i32_def)
  qed
qed

lemma split_call:
  assumes "list_all literal_text ws"
  shows "split_function_call_comparison (call_text name (''?'' # ws) rest) name = Some (join_with '', '' (''?'' # ws), rest)"
proof -
  have "str_starts_with name (name @ r)" for r by (auto simp: str_starts_with_iff)
  moreover have "list_all (flat_text 0) (''?'' # ws)" using assms question_flat by (auto simp: list_all_iff literal_text_def)
  then have "closing_paren None 1 (join_with '', '' (''?'' # ws) @ CHR '')'' # rest) = Some (join_with '', '' (''?'' # ws), rest)"
    using flat_closing flat_joined [of "''?'' # ws" 0] by simp
  ultimately show ?thesis
    by (simp add: split_function_call_comparison_def call_text_def strip_prefix_str_def str_trim_start_def is_whitespace_def)
qed

lemma equals_literal: "quotable x \<Longrightarrow> parse_transform_equals_literal s ('' = '' @ in_quotes x) = Inr x"
  by (simp add: parse_transform_equals_literal_def strip_prefix_str_def str_trim_start_def is_whitespace_def quotable_def
      parse_quoted_in_quotes)

lemma parse_substring:
  assumes "quotable x"
  shows "parse_string_transform_unary_test lib
      (call_text ''substring'' (''?'' # show_int (sint start) # (case len of Some l \<Rightarrow> [show_int (sint l)] | None \<Rightarrow> [])) ('' = '' @ in_quotes x))
    = Inr (Some (TestSubstring start len x))" (is "parse_string_transform_unary_test lib ?w = _")
proof -
  let ?ws = "show_int (sint start) # (case len of Some l \<Rightarrow> [show_int (sint l)] | None \<Rightarrow> [])"
  have ws: "list_all literal_text ?ws" by (auto simp: show_int_literal split: option.splits)
  have "parse_substring_transform_unary_test ?w = Inr (Some (TestSubstring start len x))"
    unfolding parse_substring_transform_unary_test_def split_call [OF ws] Let_def
    by (auto simp: split_arguments [OF ws] parse_i32_show equals_literal [OF assms] simp del: join_with.simps append_Cons split: option.splits)
  moreover have "parse_string_length_transform_unary_test lib ?w = Inr None"
    by (simp add: parse_string_length_transform_unary_test_def call_text_def strip_prefix_str_def)
  ultimately show ?thesis by (simp add: parse_string_transform_unary_test_def)
qed

lemma parse_replace:
  assumes "quotable p" "quotable r" "quotable x" "case flags of Some f \<Rightarrow> quotable f | None \<Rightarrow> True"
  shows "parse_string_transform_unary_test lib
      (call_text ''replace'' (''?'' # in_quotes p # in_quotes r # (case flags of Some f \<Rightarrow> [in_quotes f] | None \<Rightarrow> [])) ('' = '' @ in_quotes x))
    = Inr (Some (TestReplace p r flags x))" (is "parse_string_transform_unary_test lib ?w = _")
proof -
  let ?ws = "in_quotes p # in_quotes r # (case flags of Some f \<Rightarrow> [in_quotes f] | None \<Rightarrow> [])"
  have ws: "list_all literal_text ?ws" using assms by (auto simp: quotable_literal split: option.splits)
  have q: "CHR 0x27 \<notin> set p" "CHR 0x27 \<notin> set r" "flags = Some f \<Longrightarrow> CHR 0x27 \<notin> set f" for f
    using assms by (auto simp: quotable_def)
  have "parse_replace_transform_unary_test ?w = Inr (Some (TestReplace p r flags x))"
    unfolding parse_replace_transform_unary_test_def split_call [OF ws] Let_def
    using q by (auto simp: split_arguments [OF ws] parse_quoted_in_quotes equals_literal [OF assms(3)]
        simp del: join_with.simps append_Cons split: option.splits)
  moreover have "parse_string_length_transform_unary_test lib ?w = Inr None" "parse_substring_transform_unary_test ?w = Inr None"
    by (simp_all add: parse_string_length_transform_unary_test_def parse_substring_transform_unary_test_def
        split_function_call_comparison_def call_text_def strip_prefix_str_def)
  ultimately show ?thesis by (simp add: parse_string_transform_unary_test_def)
qed

lemma collect_literals:
  "list_all (literal_ok lib) vs \<Longrightarrow>
   collect_results (\<lambda>w. parse_literal_expression lib (str_trim w)) (map (render_literal lib) vs) = Inr vs"
proof (induction vs)
  case (Cons v vs)
  then have "str_trim (render_literal lib v) = render_literal lib v" using render_literal_text [of lib v] by (simp add: literal_text_def)
  then show ?case using Cons by (simp add: parse_literal_render)
qed simp

lemma parse_in_list:
  assumes "vs \<noteq> []" "list_all (literal_ok lib) vs"
  shows "parse_in_list_unary_test lib (call_text ''? in '' (map (render_literal lib) vs) []) = Inr (Some (TestInList vs))"
proof -
  let ?ws = "map (render_literal lib) vs"
  have ws: "?ws \<noteq> []" "list_all (\<lambda>w. flat_text 0 w \<and> trimmed_text w) ?ws"
    using assms render_literal_text by (auto simp: list_all_iff literal_text_def)
  have "trimmed_text (call_text ''? in '' ?ws [])" by (simp add: call_text_def trimmed_text_def is_whitespace_def)
  then have "in_list_body (call_text ''? in '' ?ws []) = Inr (Some (join_with '', '' ?ws))"
    by (simp add: in_list_body_def call_text_def strip_prefix_str_def str_trim_start_def is_whitespace_def)
  then show ?thesis
    using ws split_joined [OF ws] collect_literals [OF assms(2)]
    by (simp add: parse_in_list_unary_test_def Let_def)
qed

lemma parse_list_contains:
  assumes "flat_text 0 w" "trimmed_text w" "parse_list_contains_needle lib w (call_text ''list contains'' [''?'', w] []) = Inr n"
  shows "parse_list_contains_unary_test lib (call_text ''list contains'' [''?'', w] []) = Inr (Some (TestListContains n))"
proof -
  have "split_comma_separated_literals (CHR ''?'' # CHR '','' # CHR '' '' # w) = [''?'', w]"
    using split_joined [of "[''?'', w]"] assms(1,2) question_flat by simp
  moreover have "str_trim ''?'' = ''?''" by (simp add: str_trim_def is_whitespace_def)
  ultimately show ?thesis using assms(2,3)
    by (simp add: parse_list_contains_unary_test_def call_text_def strip_prefix_str_def str_trim_start_def is_whitespace_def)
qed

end
