(* ===== verification/Dmn_Unary_Roundtrip.thy ===== *)
theory Dmn_Unary_Roundtrip
  imports Dmn_Unary_Texts
begin

text \<open>
  What the reader of unary tests makes of the texts the engine itself prints: the parse of the rendering of a test
  is that test, for every form the grammar has; the texts that the reader refuses although they render a test; and the
  form of every test it makes.
\<close>

section \<open>Tests that can be read back\<close>

fun comma_free :: "json \<Rightarrow> bool" where
  "comma_free (JsonString s) \<longleftrightarrow> CHR '','' \<notin> set s"
| "comma_free _ \<longleftrightarrow> True"

fun needle_ok :: "dmn_lib \<Rightarrow> dmn_list_contains_needle \<Rightarrow> bool" where
  "needle_ok lib (NeedleLiteral v) \<longleftrightarrow> literal_ok lib v"
| "needle_ok lib (NeedleVariable n) \<longleftrightarrow> is_simple_feel_name n \<and> inert_text n \<and> \<not> is_list_contains_literal_token lib n"

fun simple_ok :: "dmn_lib \<Rightarrow> dmn_unary_test \<Rightarrow> bool" where
  "simple_ok lib (TestEquals v) \<longleftrightarrow> literal_ok lib v \<and> comma_free v"
| "simple_ok lib (TestNotEquals v) \<longleftrightarrow> literal_ok lib v"
| "simple_ok lib (TestGreaterThan v) \<longleftrightarrow> literal_ok lib v"
| "simple_ok lib (TestGreaterThanOrEqual v) \<longleftrightarrow> literal_ok lib v"
| "simple_ok lib (TestLessThan v) \<longleftrightarrow> literal_ok lib v"
| "simple_ok lib (TestLessThanOrEqual v) \<longleftrightarrow> literal_ok lib v"
| "simple_ok lib (TestRange a b si ei) \<longleftrightarrow> literal_ok lib a \<and> literal_ok lib b \<and> si = ei"
| "simple_ok lib (TestStringFunction f needle) \<longleftrightarrow> quotable needle \<and> (f = Matches \<longrightarrow> regex_is_match lib needle [] \<noteq> None)"
| "simple_ok lib (TestStringTransform f x) \<longleftrightarrow> f \<noteq> StringLength \<and> quotable x"
| "simple_ok lib (TestStringTransformComparison f op v) \<longleftrightarrow> f = StringLength \<and> literal_ok lib v \<and> is_number v"
| "simple_ok lib (TestSubstring start len x) \<longleftrightarrow> quotable x"
| "simple_ok lib (TestReplace p r flags x) \<longleftrightarrow>
     quotable p \<and> quotable r \<and> quotable x \<and> (case flags of Some f \<Rightarrow> quotable f | None \<Rightarrow> True)"
| "simple_ok lib (TestListContains n) \<longleftrightarrow> needle_ok lib n"
| "simple_ok lib (TestInList vs) \<longleftrightarrow> vs \<noteq> [] \<and> list_all (literal_ok lib) vs"
| "simple_ok lib _ \<longleftrightarrow> False"

text \<open>The text of a simple test, as an operator or a call with its arguments.\<close>

fun simple_text :: "dmn_lib \<Rightarrow> dmn_unary_test \<Rightarrow> string" where
  "simple_text lib (TestRange a b si ei) = range_text (render_literal lib a) (render_literal lib b) si ei"
| "simple_text lib (TestStringFunction f needle) = call_text (render_string_function f) [''?'', in_quotes needle] []"
| "simple_text lib (TestStringTransform f x) = call_text (render_string_transform f) [''?''] ('' = '' @ in_quotes x)"
| "simple_text lib (TestStringTransformComparison f op v) =
     call_text (render_string_transform f) [''?''] ('' '' @ render_comparison_operator op @ '' '' @ render_literal lib v)"
| "simple_text lib (TestSubstring start len x) =
     call_text ''substring'' (''?'' # show_int (sint start) # (case len of Some l \<Rightarrow> [show_int (sint l)] | None \<Rightarrow> [])) ('' = '' @ in_quotes x)"
| "simple_text lib (TestReplace p r flags x) =
     call_text ''replace'' (''?'' # in_quotes p # in_quotes r # (case flags of Some f \<Rightarrow> [in_quotes f] | None \<Rightarrow> [])) ('' = '' @ in_quotes x)"
| "simple_text lib (TestListContains n) =
     call_text ''list contains'' [''?'', case n of NeedleLiteral v \<Rightarrow> render_literal lib v | NeedleVariable name \<Rightarrow> name] []"
| "simple_text lib (TestInList vs) = call_text ''? in '' (map (render_literal lib) vs) []"
| "simple_text lib t = render_unary_test lib t"

lemma render_simple: "render_unary_test lib t = simple_text lib t"
  by (cases "(lib, t)" rule: simple_text.cases) (auto simp: call_text_def range_text_def split: option.splits)

declare simple_text.simps [simp del]

text \<open>What is shown of the text of every simple test.\<close>

definition form_ok :: "dmn_lib \<Rightarrow> dmn_unary_test \<Rightarrow> string \<Rightarrow> bool" where
  "form_ok lib t w \<longleftrightarrow> flat_text 0 w \<and> shell_ok w \<and> inert_text w \<and> parse_single_unary_test lib w = Inr t
     \<and> \<not> is_unsupported_not_argument lib w"

lemma comma_free_text: "literal_ok lib v \<Longrightarrow> comma_free v \<Longrightarrow> CHR '','' \<notin> set (render_literal lib v)"
proof (cases v)
  case (JsonNumber n)
  show "literal_ok lib v \<Longrightarrow> ?thesis"
    using number_char_plain [of "CHR '',''"] by (auto simp: JsonNumber render_literal_def number_text_def list_all_iff plain_char_def)
qed (auto simp: render_literal_def in_quotes_def)

lemma literal_not_argument: "literal_ok lib v \<Longrightarrow> \<not> is_unsupported_not_argument lib (render_literal lib v)"
proof -
  assume v: "literal_ok lib v"
  have w: "literal_text (render_literal lib v)" by (rule render_literal_text [OF v])
  then have t: "str_trim (render_literal lib v) = render_literal lib v" "render_literal lib v \<noteq> ''-''"
    "\<not> str_starts_with ''not'' (render_literal lib v)" by (auto simp: literal_text_def)
  have "eq_ignore_ascii_case (render_literal lib v) ''null'' \<or> eq_ignore_ascii_case (render_literal lib v) ''true''
    \<or> eq_ignore_ascii_case (render_literal lib v) ''false'' \<or> parse_quoted_string_literal (render_literal lib v) \<noteq> None
    \<or> (case parse_json lib (render_literal lib v) of Some v \<Rightarrow> is_number v | None \<Rightarrow> False)"
    using v by (cases v) (auto simp: render_literal_def quotable_def parse_quoted_in_quotes eq_ignore_ascii_case_def)
  then show ?thesis using t by (auto simp: is_unsupported_not_argument_def Let_def)
qed

lemma form_equals: "literal_ok lib v \<Longrightarrow> comma_free v \<Longrightarrow> form_ok lib (TestEquals v) (render_literal lib v)"
  using render_literal_text [of lib v] comma_free_text [of lib v] parse_literal_render [of lib v] literal_not_argument [of lib v]
  by (auto simp: form_ok_def literal_text_shell parse_single_equals) (auto simp: literal_text_def)

lemma form_operator:
  assumes "literal_ok lib v" "op \<in> {''!='', ''>'', ''>='', ''<'', ''<=''}"
    "parse_single_unary_test lib (op @ '' '' @ render_literal lib v) = Inr t"
  shows "form_ok lib t (op @ '' '' @ render_literal lib v)"
proof -
  note w = operator_text [OF render_literal_text [OF assms(1)] assms(2)]
  have "\<not> is_unsupported_not_argument lib (op @ '' '' @ render_literal lib v)"
    using w(4) assms(2) by (auto simp: is_unsupported_not_argument_def Let_def comparison_parts_def)
  then show ?thesis using w assms(3) by (simp add: form_ok_def)
qed

lemma form_range:
  assumes "literal_ok lib a" "literal_ok lib b"
  shows "form_ok lib (TestRange a b s s) (range_text (render_literal lib a) (render_literal lib b) s s)"
proof -
  note texts = render_literal_text [OF assms(1)] render_literal_text [OF assms(2)]
  note w = range_text_facts [OF texts, of s s]
  have "\<not> is_unsupported_not_argument lib (range_text (render_literal lib a) (render_literal lib b) s s)"
    using w(3,5) by (auto simp: is_unsupported_not_argument_def Let_def) (auto simp: range_text_def split: if_splits)
  then show ?thesis
    using w parse_single_plain [OF w(3,4,2)] parse_range_text [OF texts parse_literal_render [OF assms(1)] parse_literal_render [OF assms(2)]]
    by (simp add: form_ok_def)
qed

definition function_names :: "string set" where
  "function_names = {''contains'', ''starts with'', ''ends with'', ''matches'', ''lower case'', ''upper case'', ''string length'',
     ''substring'', ''replace'', ''list contains'', ''? in ''}"

lemma call_text_facts:
  assumes name: "name \<in> function_names" and
    args: "list_all (\<lambda>w. flat_text 0 w \<and> inert_text w) arguments" "flat_text 0 rest" "inert_text rest" "rest \<noteq> [] \<longrightarrow> \<not> is_whitespace (last rest)"
  shows "flat_text 0 (call_text name arguments rest)" "shell_ok (call_text name arguments rest)" "inert_text (call_text name arguments rest)"
    "str_trim (call_text name arguments rest) = call_text name arguments rest"
    "call_text name arguments rest \<noteq> ''-''" "\<not> str_starts_with ''not'' (call_text name arguments rest)"
proof -
  have a: "list_all (flat_text 0) arguments" "list_all inert_text arguments" using args(1) by (auto simp: list_all_iff)
  have "list_all plain_char name" "inert_text name"
    using name by (auto simp: function_names_def plain_char_def is_quote_def inert_text_def str_contains_def)
  then show l: "flat_text 0 (call_text name arguments rest)" and i: "inert_text (call_text name arguments rest)"
    using flat_call [OF _ a(1) args(2)] inert_call [OF _ a(2) args(3)] by auto
  have "trimmed_text (call_text name arguments rest)"
    using name args(4) by (cases rest rule: rev_cases) (auto simp: function_names_def trimmed_text_def call_text_def is_whitespace_def)
  then show t: "str_trim (call_text name arguments rest) = call_text name arguments rest"
    "call_text name arguments rest \<noteq> ''-''" "\<not> str_starts_with ''not'' (call_text name arguments rest)"
    using name by (auto simp: call_text_def function_names_def)
  have "hd (call_text name arguments rest) \<noteq> CHR ''.''" using name by (auto simp: call_text_def function_names_def)
  then show "shell_ok (call_text name arguments rest)"
    using l i t \<open>trimmed_text _\<close> by (simp add: shell_ok_def split_single no_el)
qed

lemma form_function:
  assumes "flat_text 0 w" "shell_ok w" "inert_text w"
    and "parse_string_function_unary_test lib w = Inr (Some t)
      \<or> parse_string_function_unary_test lib w = Inr None
        \<and> (parse_list_contains_unary_test lib w = Inr (Some t)
          \<or> parse_list_contains_unary_test lib w = Inr None
            \<and> (parse_in_list_unary_test lib w = Inr (Some t)
              \<or> parse_in_list_unary_test lib w = Inr None \<and> parse_string_transform_unary_test lib w = Inr (Some t)))"
  shows "form_ok lib t w"
proof -
  have "parse_single_unary_test lib w = Inr t"
    using assms(4) no_deferred [OF assms(3)] by (auto simp: parse_single_unary_test_def)
  moreover have "str_trim w = w" "w \<noteq> ''-''" "\<not> str_starts_with ''not'' w" using assms(2) by (auto simp: shell_ok_def)
  then have "\<not> is_unsupported_not_argument lib w"
    using assms(4) by (auto simp: is_unsupported_not_argument_def Let_def)
  ultimately show ?thesis using assms by (simp add: form_ok_def)
qed

lemma quotable_facts: "quotable x \<Longrightarrow> flat_text 0 (in_quotes x)" "quotable x \<Longrightarrow> inert_text (in_quotes x)"
  using quotable_literal [of x] by (auto simp: literal_text_def)

lemma equals_facts: "quotable x \<Longrightarrow> flat_text 0 ('' = '' @ in_quotes x) \<and> inert_text ('' = '' @ in_quotes x) \<and> \<not> is_whitespace (last ('' = '' @ in_quotes x))"
proof -
  assume x: "quotable x"
  have "flat_text 0 '' = ''" by (rule flat_plain) (simp add: plain_char_def is_quote_def)
  then have "flat_text 0 ('' = '' @ in_quotes x)" using quotable_facts(1) [OF x] by (rule flat_append)
  moreover have "inert_text ('' = '' @ in_quotes x)" using quotable_facts(2) [OF x] by (simp add: inert_text_def str_contains_Cons)
  moreover have "\<not> is_whitespace (last ('' = '' @ in_quotes x))" by (simp add: in_quotes_def is_whitespace_def)
  ultimately show ?thesis by blast
qed

lemma comparison_facts:
  assumes "literal_text w"
  shows "flat_text 0 ('' '' @ render_comparison_operator op @ '' '' @ w) \<and> inert_text ('' '' @ render_comparison_operator op @ '' '' @ w)
    \<and> \<not> is_whitespace (last ('' '' @ render_comparison_operator op @ '' '' @ w))"
proof -
  have o: "render_comparison_operator op \<in> {''!='', ''>'', ''>='', ''<'', ''<=''}" by (cases op) auto
  have "flat_text 0 '' ''" by (rule flat_plain) (simp add: plain_char_def is_quote_def)
  then have "flat_text 0 ('' '' @ render_comparison_operator op @ '' '' @ w)" using operator_text(2) [OF assms o] by (rule flat_append)
  moreover have "inert_text ('' '' @ render_comparison_operator op @ '' '' @ w)"
    using operator_text(3) [OF assms o] by (simp add: inert_text_def str_contains_Cons)
  moreover have "\<not> is_whitespace (last ('' '' @ render_comparison_operator op @ '' '' @ w))"
    using operator_text(4) [OF assms o] assms by (auto simp: trimmed_text_def literal_text_def)
  ultimately show ?thesis by blast
qed

lemma inert_Nil: "inert_text []" by (simp add: inert_text_def)

lemma call_names: "render_string_function f \<in> function_names" "''list contains'' \<in> function_names" "''? in '' \<in> function_names"
  by (cases f) (simp_all add: function_names_def)

lemma no_rest: "flat_text 0 []" "inert_text []" "[] \<noteq> [] \<longrightarrow> \<not> is_whitespace (last [])"
  by (simp_all add: inert_Nil)

lemma form_string_function:
  assumes "quotable needle" "f = Matches \<longrightarrow> regex_is_match lib needle [] \<noteq> None"
  shows "form_ok lib (TestStringFunction f needle) (call_text (render_string_function f) [''?'', in_quotes needle] [])"
proof -
  have "list_all (\<lambda>w. flat_text 0 w \<and> inert_text w) [''?'', in_quotes needle]"
    using quotable_facts [OF assms(1)] question_flat by simp
  note facts = call_text_facts [OF call_names(1) this no_rest]
  show ?thesis using parse_string_function_call [OF assms] by (intro form_function facts) simp
qed

text \<open>None of the earlier forms takes a membership test or a transformation.\<close>

lemma earlier_forms_None:
  "parse_string_function_unary_test lib (call_text ''list contains'' ws rest) = Inr None"
  "parse_string_function_unary_test lib (call_text ''? in '' ws rest) = Inr None"
  "parse_list_contains_unary_test lib (call_text ''? in '' ws rest) = Inr None"
  by (simp_all add: parse_string_function_unary_test_def string_function_named_def function_arguments_def parse_list_contains_unary_test_def
      call_text_def strip_prefix_str_def)

lemma transform_name_None:
  assumes "name \<in> {''lower case'', ''upper case'', ''string length'', ''substring'', ''replace''}"
    "str_trim (call_text name ws rest) = call_text name ws rest"
  shows "parse_string_function_unary_test lib (call_text name ws rest) = Inr None"
    "parse_list_contains_unary_test lib (call_text name ws rest) = Inr None"
    "parse_in_list_unary_test lib (call_text name ws rest) = Inr None"
proof -
  have "\<not> str_starts_with p (call_text name ws rest)"
    if "p \<in> {''ends with'', ''starts with'', ''contains'', ''matches'', ''contains('', ''starts with('', ''ends with('', ''matches('',
      ''list contains'', ''list contains('', ''list contains '', ''?'', ''in''}" for p
    using that assms(1) by (elim insertE emptyE) (simp_all add: call_text_def)
  note no = this [simplified]
  show "parse_string_function_unary_test lib (call_text name ws rest) = Inr None"
    by (simp add: no parse_string_function_unary_test_def string_function_named_def function_arguments_def strip_prefix_str_def)
  show "parse_list_contains_unary_test lib (call_text name ws rest) = Inr None"
    by (simp add: no parse_list_contains_unary_test_def strip_prefix_str_def)
  show "parse_in_list_unary_test lib (call_text name ws rest) = Inr None"
    using assms(2) by (simp add: no parse_in_list_unary_test_def in_list_body_def strip_prefix_str_def)
qed

lemma form_transform:
  assumes "name \<in> {''lower case'', ''upper case'', ''string length'', ''substring'', ''replace''}"
    "list_all (\<lambda>w. flat_text 0 w \<and> inert_text w) ws" "flat_text 0 rest \<and> inert_text rest \<and> \<not> is_whitespace (last rest)"
    "parse_string_transform_unary_test lib (call_text name ws rest) = Inr (Some t)"
  shows "form_ok lib t (call_text name ws rest)"
proof -
  have n: "name \<in> function_names" using assms(1) by (elim insertE emptyE) (simp_all add: function_names_def)
  have r: "flat_text 0 rest" "inert_text rest" "rest \<noteq> [] \<longrightarrow> \<not> is_whitespace (last rest)" using assms(3) by auto
  note facts = call_text_facts [OF n assms(2) r]
  show ?thesis using facts transform_name_None [OF assms(1) facts(4)] assms(4) by (intro form_function) auto
qed

lemma name_text: "is_simple_feel_name n \<Longrightarrow> flat_text 0 n \<and> trimmed_text n \<and> n \<noteq> ''?''"
proof -
  assume n: "is_simple_feel_name n"
  have word: "c \<in> set n \<Longrightarrow> is_ascii_word c" for c using n by (cases n) (auto simp: is_simple_feel_name_def is_ascii_word_def list_all_iff)
  have "is_ascii_word c \<Longrightarrow> plain_char c \<and> \<not> is_whitespace c" for c
    by (auto simp: is_ascii_word_def is_ascii_alphabetic_def is_ascii_digit_def plain_char_def is_quote_def is_whitespace_def Let_def)
  moreover have "\<not> is_ascii_word (CHR ''?'')" by (simp add: is_ascii_word_def is_ascii_alphabetic_def is_ascii_digit_def)
  moreover have "n \<noteq> []" using n by (auto simp: is_simple_feel_name_def)
  ultimately show ?thesis using word by (auto intro!: flat_plain simp: list_all_iff trimmed_text_def)
qed

lemma parse_needle:
  assumes "needle_ok lib n"
  shows "parse_list_contains_needle lib (case n of NeedleLiteral v \<Rightarrow> render_literal lib v | NeedleVariable name \<Rightarrow> name) s = Inr n"
proof (cases n)
  case (NeedleLiteral v)
  then have v: "literal_ok lib v" using assms by simp
  have w: "trimmed_text (render_literal lib v)" "render_literal lib v \<noteq> ''?''"
    using render_literal_text [OF v] by (auto simp: literal_text_def literal_lead_def is_ascii_digit_def)
  have "is_list_contains_literal_token lib (render_literal lib v)"
    using v by (cases v) (auto simp: is_list_contains_literal_token_def render_literal_def quotable_def parse_quoted_in_quotes
        eq_ignore_ascii_case_def is_json_literal_def)
  then show ?thesis using w parse_literal_render [OF v] NeedleLiteral by (auto simp: parse_list_contains_needle_def)
next
  case (NeedleVariable name)
  then show ?thesis using assms name_text [of name] by (auto simp: parse_list_contains_needle_def)
qed

lemma form_list_contains:
  assumes "needle_ok lib n"
  shows "form_ok lib (TestListContains n) (simple_text lib (TestListContains n))"
proof -
  let ?w = "case n of NeedleLiteral v \<Rightarrow> render_literal lib v | NeedleVariable name \<Rightarrow> name"
  have w: "flat_text 0 ?w" "trimmed_text ?w" "inert_text ?w"
    using assms render_literal_text name_text by (auto simp: literal_text_def split: dmn_list_contains_needle.splits)
  have "list_all (\<lambda>w. flat_text 0 w \<and> inert_text w) [''?'', ?w]" using w question_flat by simp
  note facts = call_text_facts [OF call_names(2) this no_rest]
  have "parse_list_contains_unary_test lib (call_text ''list contains'' [''?'', ?w] []) = Inr (Some (TestListContains n))"
    by (rule parse_list_contains [OF w(1,2) parse_needle [OF assms]])
  then have "form_ok lib (TestListContains n) (call_text ''list contains'' [''?'', ?w] [])"
    using earlier_forms_None(1) by (intro form_function facts) simp
  then show ?thesis by (simp add: simple_text.simps)
qed

lemma form_in_list:
  assumes "vs \<noteq> []" "list_all (literal_ok lib) vs"
  shows "form_ok lib (TestInList vs) (call_text ''? in '' (map (render_literal lib) vs) [])"
proof -
  have "list_all (\<lambda>w. flat_text 0 w \<and> inert_text w) (map (render_literal lib) vs)"
    using assms(2) render_literal_text by (auto simp: list_all_iff literal_text_def)
  note facts = call_text_facts [OF call_names(3) this no_rest]
  show ?thesis using parse_in_list [OF assms] earlier_forms_None(2,3) by (intro form_function facts) simp
qed

lemma form_case_transform:
  assumes "f \<noteq> StringLength" "quotable x"
  shows "form_ok lib (TestStringTransform f x) (simple_text lib (TestStringTransform f x))"
proof -
  have "render_string_transform f \<in> {''lower case'', ''upper case'', ''string length'', ''substring'', ''replace''}" by (cases f) auto
  then show ?thesis
    unfolding simple_text.simps
    by (rule form_transform) (use question_flat equals_facts [OF assms(2)] parse_case_transform [OF assms(2,1)] in auto)
qed

lemma form_string_length:
  assumes "literal_ok lib v" "is_number v"
  shows "form_ok lib (TestStringTransformComparison StringLength op v) (simple_text lib (TestStringTransformComparison StringLength op v))"
  unfolding simple_text.simps render_string_transform.simps
proof (rule form_transform)
  show "list_all (\<lambda>w. flat_text 0 w \<and> inert_text w) [''?'']" using question_flat by simp
  show "parse_string_transform_unary_test lib (call_text ''string length'' [''?'']
      ('' '' @ render_comparison_operator op @ '' '' @ render_literal lib v)) = Inr (Some (TestStringTransformComparison StringLength op v))"
    by (rule parse_string_length [OF render_literal_text [OF assms(1)] parse_literal_render [OF assms(1)] assms(2)])
qed (simp, rule comparison_facts [OF render_literal_text [OF assms(1)]])

lemma form_substring:
  assumes "quotable x"
  shows "form_ok lib (TestSubstring start len x) (simple_text lib (TestSubstring start len x))"
  unfolding simple_text.simps
proof (rule form_transform)
  show "list_all (\<lambda>w. flat_text 0 w \<and> inert_text w)
     (''?'' # show_int (sint start) # (case len of Some l \<Rightarrow> [show_int (sint l)] | None \<Rightarrow> []))"
    using question_flat show_int_literal by (auto simp: literal_text_def split: option.splits)
qed (use equals_facts [OF assms] parse_substring [OF assms] in auto)

lemma form_replace:
  assumes "quotable p" "quotable r" "quotable x" "case flags of Some f \<Rightarrow> quotable f | None \<Rightarrow> True"
  shows "form_ok lib (TestReplace p r flags x) (simple_text lib (TestReplace p r flags x))"
  unfolding simple_text.simps
proof (rule form_transform)
  show "list_all (\<lambda>w. flat_text 0 w \<and> inert_text w)
     (''?'' # in_quotes p # in_quotes r # (case flags of Some f \<Rightarrow> [in_quotes f] | None \<Rightarrow> []))"
    using question_flat quotable_facts assms by (auto split: option.splits)
qed (use equals_facts [OF assms(3)] parse_replace [OF assms] in auto)

lemma form_comparison:
  assumes "literal_ok lib v" "t \<in> {TestNotEquals v, TestGreaterThan v, TestGreaterThanOrEqual v, TestLessThan v, TestLessThanOrEqual v}"
  shows "form_ok lib t (render_unary_test lib t)"
proof -
  note parse = parse_single_operator [OF render_literal_text [OF assms(1)] parse_literal_render [OF assms(1)]]
  have "form_ok lib (TestNotEquals v) (''!= '' @ render_literal lib v)" "form_ok lib (TestGreaterThan v) (''> '' @ render_literal lib v)"
    "form_ok lib (TestGreaterThanOrEqual v) (''>= '' @ render_literal lib v)" "form_ok lib (TestLessThan v) (''< '' @ render_literal lib v)"
    "form_ok lib (TestLessThanOrEqual v) (''<= '' @ render_literal lib v)"
    using form_operator [OF assms(1), of "''!=''" "TestNotEquals v"] form_operator [OF assms(1), of "''>''" "TestGreaterThan v"]
      form_operator [OF assms(1), of "''>=''" "TestGreaterThanOrEqual v"] form_operator [OF assms(1), of "''<''" "TestLessThan v"]
      form_operator [OF assms(1), of "''<=''" "TestLessThanOrEqual v"] parse by simp_all
  then show ?thesis using assms(2) by (elim insertE emptyE) simp_all
qed

lemma simple_form:
  assumes "simple_ok lib t"
  shows "form_ok lib t (render_unary_test lib t)"
proof (cases t)
  case (TestRange a b si ei)
  then show ?thesis using assms form_range [of lib a b si] unfolding render_simple by (simp add: simple_text.simps)
next
  case (TestStringFunction f x)
  then show ?thesis using assms form_string_function [of x f lib] unfolding render_simple by (simp add: simple_text.simps)
next
  case (TestStringTransform f x)
  then show ?thesis using assms form_case_transform [of f x lib] unfolding render_simple by simp
next
  case (TestStringTransformComparison f op v)
  then show ?thesis using assms form_string_length [of lib v op] unfolding render_simple by simp
next
  case (TestSubstring start len x)
  then show ?thesis using assms form_substring [of x] unfolding render_simple by simp
next
  case (TestReplace p r flags x)
  then show ?thesis using assms form_replace [of p r x flags] unfolding render_simple by simp
next
  case (TestListContains n)
  then show ?thesis using assms form_list_contains [of lib n] unfolding render_simple by simp
next
  case (TestInList vs)
  then show ?thesis using assms form_in_list [of vs lib] unfolding render_simple by (simp add: simple_text.simps)
next
  case (TestEquals v)
  then show ?thesis using assms form_equals [of lib v] by simp
qed (use assms form_comparison [of lib _ t] in auto)

section \<open>Nested tests\<close>

text \<open>
  \<open>not(..)\<close> and the comma separated alternatives: an argument or an alternative is a simple test, or again a
  negation; the first alternative is no negation, since a text that opens with \<open>not(\<close> is read as one.
\<close>

fun alternative_ok :: "dmn_lib \<Rightarrow> dmn_unary_test \<Rightarrow> bool" where
  "alternative_ok lib (TestNot t) = alternative_ok lib t"
| "alternative_ok lib t = simple_ok lib t"

definition path_ok :: "string list \<Rightarrow> bool" where
  "path_ok path \<longleftrightarrow> path \<noteq> [] \<and> list_all (\<lambda>p. p \<noteq> [] \<and> list_all (\<lambda>c. is_alphanumeric c \<or> c = CHR ''_'') p) path
     \<and> (is_alphabetic (hd (hd path)) \<or> hd (hd path) = CHR ''_'')"

fun el_free :: "dmn_unary_test \<Rightarrow> bool" where
  "el_free (TestElCondition source) = False"
| "el_free _ = True"

fun test_ok :: "dmn_lib \<Rightarrow> dmn_unary_test \<Rightarrow> bool" where
  "test_ok lib TestAny \<longleftrightarrow> True"
| "test_ok lib (TestRange a b si ei) \<longleftrightarrow> literal_ok lib a \<and> literal_ok lib b"
| "test_ok lib (TestAnyOf tests) \<longleftrightarrow>
     (case tests of t # u # us \<Rightarrow> simple_ok lib t \<and> list_all (alternative_ok lib) (u # us) | _ \<Rightarrow> False)"
| "test_ok lib (TestPropertyPath path t) \<longleftrightarrow> path_ok path \<and> el_free t \<and> test_ok lib t"
| "test_ok lib (TestElCondition source) \<longleftrightarrow>
     trimmed_text source \<and> \<not> str_contains ''#{'' source \<and> \<not> str_contains ''${'' source"
| "test_ok lib (TestDeferredComparison operator source) \<longleftrightarrow>
     trimmed_text source \<and> flat_text 0 source \<and> \<not> str_contains ''#{'' source \<and> \<not> str_contains ''${'' source
     \<and> contains_date_alias_call source"
| "test_ok lib t \<longleftrightarrow> alternative_ok lib t"

definition alternative_text :: "dmn_lib \<Rightarrow> dmn_unary_test \<Rightarrow> string \<Rightarrow> bool" where
  "alternative_text lib t w \<longleftrightarrow> flat_text 0 w \<and> trimmed_text w \<and> inert_text w \<and> parse_unary_test lib w = Inr t
     \<and> \<not> is_unsupported_not_argument lib w \<and> t \<noteq> TestAny \<and> (\<forall>ts. t \<noteq> TestAnyOf ts)"

lemma simple_alternative: "simple_ok lib t \<Longrightarrow> alternative_text lib t (render_unary_test lib t)"
  using simple_form [of lib t]
  by (auto simp: alternative_text_def form_ok_def shell_ok_def parse_shell simp del: render_unary_test.simps)

lemma negated_test: "t \<noteq> TestAny \<Longrightarrow> \<forall>ts. t \<noteq> TestAnyOf ts \<Longrightarrow> negated s t = Inr (TestNot t)"
  by (cases t) (auto simp: negated_def)

lemma not_alternative:
  assumes "alternative_text lib t w"
  shows "alternative_text lib (TestNot t) (''not('' @ w @ '')'')"
proof -
  let ?n = "''not('' @ w @ '')''"
  have w: "flat_text 0 w" "trimmed_text w" "inert_text w" "parse_unary_test lib w = Inr t" "\<not> is_unsupported_not_argument lib w"
    and t: "t \<noteq> TestAny" "\<forall>ts. t \<noteq> TestAnyOf ts" using assms by (auto simp: alternative_text_def)
  have "flat_text 0 ''not''" by (rule flat_plain) (simp add: plain_char_def is_quote_def)
  then have "flat_text 0 (''not'' @ (''('' @ w @ '')''))"
    using flat_append flat_paren [OF flat_mono [OF w(1)], of 0] by blast
  then have flat: "flat_text 0 ?n" by simp
  have inert: "inert_text ?n" using w(3) by (auto simp: inert_text_def str_contains_Cons str_contains_sep)
  have trimmed: "trimmed_text ?n" by (simp add: trimmed_text_def is_whitespace_def)
  have arg: "strip_function_argument ?n ''not'' = Some w"
    using flat_closing [OF flat_mono [OF w(1)], of "[]"]
    by (simp add: strip_function_argument_def strip_prefix_str_def str_trim_start_def is_whitespace_def)
  have "parse_not_unary_test lib ?n = Inr (TestNot t)"
    using arg w split_single [OF w(1,2)] negated_test [OF t] by (subst parse_not_unary_test.simps) auto
  moreover have "is_not_unary_test_candidate ?n"
    by (simp add: is_not_unary_test_candidate_def strip_prefix_str_def str_trim_start_def is_whitespace_def)
  ultimately have "parse_unary_test lib ?n = Inr (TestNot t)"
    using trimmed_text_trim [OF trimmed] no_el [OF inert] no_property_path [of ?n lib]
    by (subst parse_unary_test.simps) simp
  then show ?thesis
    using flat inert trimmed \<open>is_not_unary_test_candidate ?n\<close>
    by (simp add: alternative_text_def is_unsupported_not_argument_def Let_def trimmed_text_trim [OF trimmed, simplified])
qed

lemma alternative_render: "alternative_ok lib t \<Longrightarrow> alternative_text lib t (render_unary_test lib t)"
proof (induction lib t rule: alternative_ok.induct)
  case (1 lib t)
  then show ?case using not_alternative by simp
qed (simp_all only: alternative_ok.simps simple_alternative)

lemma collect_results_read_back:
  "(\<And>x. x \<in> set xs \<Longrightarrow> f (g x) = Inr x) \<Longrightarrow> collect_results f (map g xs) = Inr xs"
  by (induction xs) auto

lemma join_trimmed:
  "ws \<noteq> [] \<Longrightarrow> list_all trimmed_text ws \<Longrightarrow> trimmed_text (join_with '', '' ws) \<and> hd (join_with '', '' ws) = hd (hd ws)"
proof (induction "'', ''" ws rule: join_with.induct)
  case (3 x v va)
  then show ?case by (auto simp: trimmed_text_def)
qed auto

lemma not_prefix_append: "\<not> str_starts_with p w \<Longrightarrow> c \<notin> set p \<Longrightarrow> \<not> str_starts_with p (w @ c # r)"
  by (induction p w rule: str_starts_with.induct) auto

lemma parse_alternatives:
  assumes "simple_ok lib t" "list_all (alternative_ok lib) (u # us)"
  shows "parse_unary_test lib (join_with '', '' (map (render_unary_test lib) (t # u # us))) = Inr (TestAnyOf (t # u # us))"
proof -
  let ?ts = "t # u # us"
  define ws where "ws = map (render_unary_test lib) ?ts"
  have alt: "x \<in> set ?ts \<Longrightarrow> alternative_text lib x (render_unary_test lib x)" for x
    using assms alternative_render simple_alternative by (auto simp: list_all_iff)
  then have parts: "list_all (\<lambda>w. flat_text 0 w \<and> trimmed_text w) ws" "list_all inert_text ws" "list_all trimmed_text ws" "ws \<noteq> []"
    unfolding ws_def list_all_iff alternative_text_def by auto
  have first: "shell_ok (hd ws)" using simple_form [OF assms(1)] by (simp add: form_ok_def ws_def)
  obtain r where j: "join_with '', '' ws = hd ws @ CHR '','' # r" by (simp add: ws_def)
  have trim: "str_trim (join_with '', '' ws) = join_with '', '' ws" and dot: "hd (join_with '', '' ws) \<noteq> CHR ''.''"
    using join_trimmed [OF parts(4,3)] first by (auto simp: shell_ok_def)
  have no: "\<not> is_not_unary_test_candidate (join_with '', '' ws)" "join_with '', '' ws \<noteq> []" "join_with '', '' ws \<noteq> ''-''"
    using not_prefix_append [of "''not''" "hd ws" "CHR '',''" r] first
    by (auto simp: j is_not_unary_test_candidate_def strip_prefix_str_def shell_ok_def append_eq_Cons_conv)
  have "collect_results (parse_unary_test lib) ws = Inr ?ts"
    unfolding ws_def using alt by (intro collect_results_read_back) (auto simp: alternative_text_def)
  moreover have "1 < length ws" by (simp add: ws_def)
  ultimately have "parse_unary_test lib (join_with '', '' ws) = Inr (TestAnyOf ?ts)"
    using trim no split_joined [OF parts(4,1)] no_el [OF inert_join [OF parts(2)]] no_property_path [OF dot, of lib]
    by (subst parse_unary_test.simps) simp
  then show ?thesis by (simp only: ws_def)
qed

section \<open>Property paths, conditions and date functions\<close>

lemma split_dots_join:
  "list_all (\<lambda>p. CHR ''.'' \<notin> set p) (p # ps) \<Longrightarrow> split_dots q (join_with ''.'' (p # ps)) = (q @ p) # ps"
proof -
  have word: "CHR ''.'' \<notin> set p \<Longrightarrow> split_dots q (p @ s) = (case s of [] \<Rightarrow> [q @ p] | c # r \<Rightarrow> split_dots (q @ p) s)" for p q s
    by (induction p arbitrary: q) (auto split: list.splits)
  show "list_all (\<lambda>p. CHR ''.'' \<notin> set p) (p # ps) \<Longrightarrow> ?thesis"
  proof (induction ps arbitrary: p q)
    case Nil
    then show ?case using word [of p q "[]"] by simp
  next
    case (Cons v ps)
    then show ?case using word [of p q] Cons.IH [of v "[]"] by simp
  qed
qed

lemma path_char_not_dot: "is_alphanumeric c \<or> c = CHR ''_'' \<Longrightarrow> c \<noteq> CHR ''.'' \<and> c \<noteq> CHR ''#'' \<and> c \<noteq> CHR ''$''"
  by (auto simp: is_alphanumeric_def is_alphabetic_def is_ascii_digit_def)

lemma path_text:
  assumes "path_ok path"
  shows "list_all is_path_char (join_with ''.'' path)" "split_dots [] (join_with ''.'' path) = path" "[] \<notin> set path"
    "CHR ''#'' \<notin> set (join_with ''.'' path)" "CHR ''$'' \<notin> set (join_with ''.'' path)"
    "\<exists>c r. join_with ''.'' path = c # r \<and> (is_alphabetic c \<or> c = CHR ''_'')"
proof -
  have chars: "list_all (\<lambda>p. list_all (\<lambda>c. is_alphanumeric c \<or> c = CHR ''_'') p) path" and ne: "path \<noteq> []" "[] \<notin> set path"
    using assms by (auto simp: path_ok_def list_all_iff)
  have "c \<in> set (join_with ''.'' path) \<Longrightarrow> c = CHR ''.'' \<or> is_alphanumeric c \<or> c = CHR ''_''" for c
    using chars by (induction "''.''" path rule: join_with.induct) (auto simp: list_all_iff)
  then show "list_all is_path_char (join_with ''.'' path)" "CHR ''#'' \<notin> set (join_with ''.'' path)" "CHR ''$'' \<notin> set (join_with ''.'' path)"
    using path_char_not_dot by (auto simp: list_all_iff is_path_char_def)
  show "[] \<notin> set path" by (rule ne(2))
  obtain p ps where p: "path = p # ps" using ne by (cases path) auto
  have "list_all (\<lambda>p. CHR ''.'' \<notin> set p) path" using chars path_char_not_dot unfolding list_all_iff by blast
  then show "split_dots [] (join_with ''.'' path) = path" using split_dots_join [of p ps "[]"] by (simp add: p)
  obtain c q where "p = c # q" using ne p by (cases p) auto
  then show "\<exists>c r. join_with ''.'' path = c # r \<and> (is_alphabetic c \<or> c = CHR ''_'')"
    using assms p by (cases ps) (auto simp: path_ok_def)
qed

lemma parse_path:
  assumes "path_ok path" "trimmed_text w" "\<not> str_contains ''#{'' w" "\<not> str_contains ''${'' w" "parse_unary_test lib w = Inr t"
  shows "parse_unary_test lib (''.'' @ join_with ''.'' path @ '' '' @ w) = Inr (TestPropertyPath path t)"
    "trimmed_text (''.'' @ join_with ''.'' path @ '' '' @ w)"
    "\<not> str_contains ''#{'' (''.'' @ join_with ''.'' path @ '' '' @ w)" "\<not> str_contains ''${'' (''.'' @ join_with ''.'' path @ '' '' @ w)"
proof -
  let ?w = "''.'' @ join_with ''.'' path @ '' '' @ w"
  note path = path_text [OF assms(1)]
  obtain c r where cr: "join_with ''.'' path = c # r" "is_alphabetic c \<or> c = CHR ''_''" using path(6) by blast
  show free: "\<not> str_contains ''#{'' ?w" "\<not> str_contains ''${'' ?w"
    using path(4,5) assms(3,4) by (auto simp: str_contains_Cons str_contains_sep str_contains_not_in)
  show t: "trimmed_text ?w" using assms(2) by (auto simp: trimmed_text_def is_whitespace_def)
  have space: "\<not> is_path_char (CHR '' '')" by (simp add: is_path_char_def is_alphanumeric_def is_alphabetic_def is_ascii_digit_def)
  have "takeWhile is_path_char (join_with ''.'' path @ CHR '' '' # w) = join_with ''.'' path"
    "dropWhile is_path_char (join_with ''.'' path @ CHR '' '' # w) = CHR '' '' # w"
    using path(1) space by (simp_all add: list_all_iff)
  then have "property_path_parts ?w = Inr (Some (path, w))"
    using cr path(2,3) assms(2) by (auto simp: property_path_parts_def strip_prefix_str_def)
  then have "parse_property_path_unary_test lib ?w = Inr (Some (TestPropertyPath path t))"
    using assms(2,5) by (subst parse_property_path_unary_test.simps) auto
  moreover have "parse_el_condition_unary_test ?w = Inr None" using free by (simp add: parse_el_condition_unary_test_def)
  ultimately show "parse_unary_test lib ?w = Inr (TestPropertyPath path t)"
    using trimmed_text_trim [OF t] cr by (subst parse_unary_test.simps) simp
qed

lemma parse_el:
  assumes "trimmed_text source" "\<not> str_contains ''#{'' source" "\<not> str_contains ''${'' source"
  shows "parse_unary_test lib (''#{'' @ source @ ''}'') = Inr (TestElCondition source)"
proof -
  let ?w = "''#{'' @ source @ ''}''"
  have t: "trimmed_text ?w" by (simp add: trimmed_text_def is_whitespace_def)
  have "parse_el_condition_unary_test ?w = Inr (Some (TestElCondition source))"
    using assms by (auto simp: parse_el_condition_unary_test_def str_contains_Cons strip_prefix_str_def)
  then show ?thesis using trimmed_text_trim [OF t] by (subst parse_unary_test.simps) simp
qed

lemma deferred_operator_text:
  "list_all plain_char (render_deferred_operator op @ '' '') \<and> hd (render_deferred_operator op) \<in> set ''=!<>'' \<and> render_deferred_operator op \<noteq> []"
  by (cases op) (auto simp: plain_char_def is_quote_def)

lemma date_alias_after_space: "contains_date_alias_call s \<Longrightarrow> contains_date_alias_call (p @ CHR '' '' # s)"
proof -
  assume "contains_date_alias_call s"
  then obtain f i where f: "f \<in> set DATE_ALIAS_FUNCTIONS" "alias_call_at f s i" "i < length s"
    by (auto simp: contains_date_alias_call_def list_ex_iff)
  have "\<not> is_alphanumeric (CHR '' '')" by (simp add: is_alphanumeric_def is_alphabetic_def is_ascii_digit_def)
  then have "alias_call_at f (p @ CHR '' '' # s) (Suc (length p) + i)"
    using f(2) by (cases i) (auto simp: alias_call_at_def nth_append nth_Cons' split: if_splits)
  moreover have "Suc (length p) + i \<in> set [0..<length (p @ CHR '' '' # s)]" using f(3) by auto
  ultimately show ?thesis using f(1) unfolding contains_date_alias_call_def list_ex_iff by blast
qed

lemma parse_deferred:
  assumes "trimmed_text source" "flat_text 0 source" "\<not> str_contains ''#{'' source" "\<not> str_contains ''${'' source"
    "contains_date_alias_call source"
  shows "parse_unary_test lib (render_deferred_operator op @ '' '' @ source) = Inr (TestDeferredComparison op source)"
    "trimmed_text (render_deferred_operator op @ '' '' @ source)"
    "\<not> str_contains ''#{'' (render_deferred_operator op @ '' '' @ source)" "\<not> str_contains ''${'' (render_deferred_operator op @ '' '' @ source)"
proof -
  let ?w = "render_deferred_operator op @ '' '' @ source"
  show free: "\<not> str_contains ''#{'' ?w" "\<not> str_contains ''${'' ?w"
    using assms(3,4) by (cases op; simp add: str_contains_Cons)+
  show t: "trimmed_text ?w" using assms(1) by (cases op) (auto simp: trimmed_text_def is_whitespace_def)
  have "flat_text 0 ((render_deferred_operator op @ '' '') @ source)"
    using deferred_operator_text [of op] by (intro flat_append flat_plain assms(2)) simp
  then have "split_comma_separated_literals ?w = [?w]" using t by (intro split_single) simp_all
  moreover have "parse_el_condition_unary_test ?w = Inr None" using free by (simp add: parse_el_condition_unary_test_def)
  ultimately have "shell_ok ?w" using t assms(1) by (cases op) (auto simp: shell_ok_def trimmed_text_def)
  moreover have "deferred_parts ?w = (op, CHR '' '' # source)" by (cases op) (simp_all add: deferred_parts_def)
  then have "parse_deferred_date_unary_test ?w = Inr (Some (TestDeferredComparison op source))"
    using date_alias_after_space [OF assms(5), of "render_deferred_operator op"] assms(1)
    by (auto simp: parse_deferred_date_unary_test_def)
  then have "parse_single_unary_test lib ?w = Inr (TestDeferredComparison op source)" by (simp add: parse_single_unary_test_def)
  ultimately show "parse_unary_test lib ?w = Inr (TestDeferredComparison op source)" using parse_shell by simp
qed

section \<open>Reading back a rendered test\<close>

definition read_back :: "dmn_lib \<Rightarrow> dmn_unary_test \<Rightarrow> bool" where
  "read_back lib t \<longleftrightarrow>
     parse_unary_test lib (render_unary_test lib t) = Inr t
     \<and> trimmed_text (render_unary_test lib t)
     \<and> (el_free t \<longrightarrow> \<not> str_contains ''#{'' (render_unary_test lib t) \<and> \<not> str_contains ''${'' (render_unary_test lib t))"

lemma alternative_read_back: "alternative_ok lib t \<Longrightarrow> read_back lib t"
  using alternative_render [of lib t] by (simp add: read_back_def alternative_text_def inert_text_def)

lemma range_read_back: "literal_ok lib a \<Longrightarrow> literal_ok lib b \<Longrightarrow> read_back lib (TestRange a b si ei)"
proof -
  assume ab: "literal_ok lib a" "literal_ok lib b"
  note texts = render_literal_text [OF ab(1)] render_literal_text [OF ab(2)]
  note w = range_text_facts [OF texts, of si ei]
  have "parse_unary_test lib (range_text (render_literal lib a) (render_literal lib b) si ei) = Inr (TestRange a b si ei)"
    using parse_shell [OF w(1)] parse_single_plain [OF w(3,4,2)] w(5)
      parse_range_text [OF texts parse_literal_render [OF ab(1)] parse_literal_render [OF ab(2)]] by simp
  moreover have "render_unary_test lib (TestRange a b si ei) = range_text (render_literal lib a) (render_literal lib b) si ei"
    by (simp add: range_text_def)
  ultimately show ?thesis using w(2,3) by (simp only: read_back_def inert_text_def) blast
qed

lemma alternatives_read_back:
  assumes "simple_ok lib t" "list_all (alternative_ok lib) (u # us)"
  shows "read_back lib (TestAnyOf (t # u # us))"
proof -
  let ?ws = "map (render_unary_test lib) (t # u # us)"
  have "x \<in> set (t # u # us) \<Longrightarrow> alternative_text lib x (render_unary_test lib x)" for x
    using assms alternative_render simple_alternative by (auto simp: list_all_iff)
  then have "list_all trimmed_text ?ws" "list_all inert_text ?ws" unfolding list_all_iff alternative_text_def by auto
  then have "trimmed_text (join_with '', '' ?ws)" "inert_text (join_with '', '' ?ws)"
    using join_trimmed [of ?ws] inert_join [of ?ws] by blast+
  then show ?thesis using parse_alternatives [OF assms] unfolding read_back_def inert_text_def render_unary_test.simps by blast
qed

lemma read_back_test: "test_ok lib t \<Longrightarrow> read_back lib t"
proof (induction lib t rule: test_ok.induct)
  case (1 lib)
  have "str_trim ''-'' = ''-''" by (simp add: str_trim_def is_whitespace_def)
  then show ?case by (auto simp: read_back_def trimmed_text_def is_whitespace_def str_contains_def parse_unary_test.simps)
next
  case (2 lib a b si ei)
  then show ?case by (simp add: range_read_back)
next
  case (3 lib tests)
  then show ?case using alternatives_read_back by (auto split: list.splits)
next
  case (4 lib path t)
  then have "path_ok path" "read_back lib t" "el_free t" by auto
  then show ?case using parse_path [of path "render_unary_test lib t" lib t] by (simp add: read_back_def)
next
  case (5 lib source)
  then show ?case using parse_el [of source lib] by (simp add: read_back_def trimmed_text_def is_whitespace_def)
next
  case (6 lib operator source)
  then show ?case using parse_deferred(1) [of source lib operator] parse_deferred(2-4) [of source operator] by (simp add: read_back_def)
qed (simp_all only: test_ok.simps alternative_read_back)

text \<open>C21. Reading the text that the engine prints for a unary test gives the test back, for the tests of \<open>test_ok\<close>: the test
  that always holds, comparisons, ranges, string functions and transformations, membership, negations of these, two or more alternatives
  of them, property paths, EL conditions and comparisons with date functions. Excluded are conjunctions and disjunctions
  (as \<open>not("a","b")\<close> gives), type tests, half-open ranges and a negated first test among the alternatives, equality with a
  text that contains a comma, and the literals outside \<open>literal_ok\<close> (lists, objects, texts with a single quote, an
  expression shell, \<open>fn_\<close> or two dots).\<close>

theorem unary_test_round_trip: "test_ok lib t \<Longrightarrow> parse_unary_test lib (render_unary_test lib t) = Inr t"
  using read_back_test by (simp add: read_back_def)

definition round_trip_example :: dmn_unary_test where
  "round_trip_example = TestPropertyPath [''customer'', ''tier'']
     (TestAnyOf [TestEquals (JsonString ''gold''), TestNot (TestNot (TestStringFunction Contains ''a, b'')),
        TestRange (JsonString ''a'') (JsonString ''m'') False False, TestSubstring 1 (Some 2) ''go'',
        TestInList [JsonString ''x'', JsonString ''y, z'']])"

theorem unary_test_round_trip_witness:
  "test_ok example_lib round_trip_example \<and>
   parse_unary_test example_lib (render_unary_test example_lib round_trip_example) = Inr round_trip_example"
proof -
  have ok: "test_ok example_lib round_trip_example"
    by (simp add: round_trip_example_def path_ok_def quotable_def inert_text_def str_contains_def is_alphanumeric_def
        is_alphabetic_def)
  show ?thesis using ok unary_test_round_trip [OF ok] by blast
qed

section \<open>Quoted texts that are refused\<close>

text \<open>The list of alternatives is split with regard to quotes, but the check that follows is not: a quoted text with
  a comma is refused as an input entry, while the same text after an equals sign is accepted.\<close>

theorem quoted_comma_is_refused:
  assumes "quotable s" "CHR '','' \<in> set s"
  shows "parse_unary_test lib (in_quotes s) = Inl (unsupported_input_unary_test_error (in_quotes s))
    \<and> parse_unary_test lib (''= '' @ in_quotes s) = Inr (TestEquals (JsonString s))"
proof
  have w: "literal_text (in_quotes s)" by (rule quotable_literal [OF assms(1)])
  then have t: "trimmed_text (in_quotes s)" "inert_text (in_quotes s)" "in_quotes s \<noteq> []" "\<not> str_contains ''..'' (in_quotes s)"
    and lead: "literal_lead (hd (in_quotes s))" by (auto simp: literal_text_def)
  note heads = str_starts_with_hd [OF t(3)] literal_lead_facts [OF lead]
  have "\<not> is_range_like (in_quotes s)" "comparison_parts (in_quotes s) = None"
    using t heads by (simp_all add: is_range_like_def comparison_parts_def)
  moreover have "CHR '','' \<in> set (in_quotes s)" using assms(2) by (simp add: in_quotes_def)
  ultimately have "parse_single_unary_test lib (in_quotes s) = Inl (unsupported_input_unary_test_error (in_quotes s))"
    using parse_single_plain [OF t(1) _ t(2)] heads by (simp add: parse_equality_unary_test_def)
  then show "parse_unary_test lib (in_quotes s) = Inl (unsupported_input_unary_test_error (in_quotes s))"
    using parse_shell [OF literal_text_shell [OF w]] by simp
  have e: "trimmed_text (''= '' @ in_quotes s)" "inert_text (''= '' @ in_quotes s)" "\<not> is_range_like (''= '' @ in_quotes s)"
    using t by (auto simp: trimmed_text_def is_whitespace_def inert_text_def str_contains_Cons is_range_like_def)
  have "flat_text 0 (''= '' @ in_quotes s)"
    by (rule flat_append) (use w in \<open>auto intro!: flat_plain simp: plain_char_def is_quote_def literal_text_def\<close>)
  then have "shell_ok (''= '' @ in_quotes s)" using e split_single by (auto simp: shell_ok_def no_el)
  moreover have "CHR 0x27 \<notin> set s" using assms(1) by (simp add: quotable_def)
  then have "parse_single_unary_test lib (''= '' @ in_quotes s) = Inr (TestEquals (JsonString s))"
    using parse_single_plain [OF e(1) _ e(2), of lib] e(3) t(1) parse_literal_quoted [of s lib]
    by (simp add: no_function_lead_def comparison_parts_def parse_equality_unary_test_def)
  ultimately show "parse_unary_test lib (''= '' @ in_quotes s) = Inr (TestEquals (JsonString s))" using parse_shell by simp
qed

theorem quoted_comma_is_refused_witness:
  "quotable ''Doe, John'' \<and> CHR '','' \<in> set ''Doe, John'' \<and>
   parse_unary_test example_lib (in_quotes ''Doe, John'') = Inl (unsupported_input_unary_test_error (in_quotes ''Doe, John''))"
proof -
  have ok: "quotable ''Doe, John''" "CHR '','' \<in> set ''Doe, John''"
    by (simp_all add: quotable_def inert_text_def str_contains_def)
  show ?thesis using ok quoted_comma_is_refused [OF ok, of example_lib] by blast
qed

text \<open>The parenthesis that opens a half-open range hides the comma after it.\<close>

lemma hidden_comma:
  assumes "literal_text a" "literal_text b" "literal_text w"
  shows "split_comma_separated_literals (range_text a b False True @ '', '' @ w) = [range_text a b False True @ '', '' @ w]"
    "split_comma_separated_literals (range_text a b True False @ '', '' @ w) = [range_text a b True False, w]"
proof -
  have flat: "flat_text 0 a" "flat_text 0 b" "flat_text 0 w" using assms by (simp_all add: literal_text_def)
  have scan: "split_literals None d p (a @ s) = split_literals None d (p @ a) s"
    "split_literals None d p (b @ s) = split_literals None d (p @ b) s"
    "split_literals None d p w = push_value (p @ w)" for d p s
    using flat(1,2) flat_split [OF flat(3)] unfolding flat_text_def by simp_all
  have "trimmed_text (range_text a b False True @ '', '' @ w)"
    using assms(3) by (auto simp: range_text_def trimmed_text_def is_whitespace_def literal_text_def)
  then show "split_comma_separated_literals (range_text a b False True @ '', '' @ w) = [range_text a b False True @ '', '' @ w]"
    using scan by (simp add: split_comma_separated_literals_def range_text_def is_quote_def)
  have "trimmed_text (range_text a b True False)" "trimmed_text w"
    using assms(3) by (auto simp: range_text_def trimmed_text_def is_whitespace_def literal_text_def)
  then show "split_comma_separated_literals (range_text a b True False @ '', '' @ w) = [range_text a b True False, w]"
    using scan push_value_trimmed [of "range_text a b True False"]
    by (simp add: split_comma_separated_literals_def range_text_def is_quote_def)
qed

lemma literal_last: "literal_ok lib v \<Longrightarrow> last (render_literal lib v) \<noteq> CHR '']'' \<and> last (render_literal lib v) \<noteq> CHR '')''"
  by (cases v) (auto simp: render_literal_def in_quotes_def number_text_def is_ascii_digit_def)

text \<open>A range that is open at its start and closed at its end cannot be followed by an alternative: its opening
  parenthesis is never closed, the comma is taken to be inside it, and the whole text is refused. With the brackets the
  other way round the same list is read as it was printed.\<close>

theorem half_open_range_hides_alternatives:
  assumes "literal_ok lib a" "literal_ok lib b" "literal_ok lib v" "comma_free v"
  shows "parse_unary_test lib (render_unary_test lib (TestAnyOf [TestRange a b False True, TestEquals v]))
      = Inl (malformed_range_error (render_unary_test lib (TestAnyOf [TestRange a b False True, TestEquals v]))
               (''expected '' @ in_quotes '']'' @ '' or '' @ in_quotes '')''))
    \<and> parse_unary_test lib (render_unary_test lib (TestAnyOf [TestRange a b True False, TestEquals v]))
      = Inr (TestAnyOf [TestRange a b True False, TestEquals v])"
proof
  let ?a = "render_literal lib a" and ?b = "render_literal lib b" and ?w = "render_literal lib v"
  note texts = render_literal_text [OF assms(1)] render_literal_text [OF assms(2)] render_literal_text [OF assms(3)]
  note split = hidden_comma [OF texts]
  have render: "render_unary_test lib (TestAnyOf [TestRange a b si ei, TestEquals v]) = range_text ?a ?b si ei @ '', '' @ ?w" for si ei
    by (simp add: range_text_def)
  have wt: "inert_text ?w" "trimmed_text ?w" using texts(3) by (auto simp: literal_text_def)
  have common: "trimmed_text (range_text ?a ?b si ei @ '', '' @ ?w)" "inert_text (range_text ?a ?b si ei @ '', '' @ ?w)"
    "hd (range_text ?a ?b si ei @ '', '' @ ?w) \<in> {CHR ''['', CHR ''(''}" for si ei
    using wt range_text_facts(2,3) [OF texts(1,2), of si ei]
    by (simp_all add: trimmed_text_def inert_text_def str_contains_sep str_contains_Cons) (cases si; simp add: range_text_def)
  have shell: "shell_ok (range_text ?a ?b False True @ '', '' @ ?w)"
    using common [of False True] split(1) no_el by (auto simp: shell_ok_def range_text_def)
  have "parse_feel_range lib (range_text ?a ?b False True @ '', '' @ ?w)
      = Inl (malformed_range_error (range_text ?a ?b False True @ '', '' @ ?w) (''expected '' @ in_quotes '']'' @ '' or '' @ in_quotes '')''))"
    using literal_last [OF assms(3)] wt(2) by (auto simp: parse_feel_range_def range_text_def)
  moreover have "is_range_like (range_text ?a ?b False True @ '', '' @ ?w)" "no_function_lead (hd (range_text ?a ?b False True @ '', '' @ ?w))"
    by (simp_all add: is_range_like_def range_text_def no_function_lead_def)
  ultimately show "parse_unary_test lib (render_unary_test lib (TestAnyOf [TestRange a b False True, TestEquals v]))
      = Inl (malformed_range_error (render_unary_test lib (TestAnyOf [TestRange a b False True, TestEquals v]))
               (''expected '' @ in_quotes '']'' @ '' or '' @ in_quotes '')''))"
    unfolding render using parse_shell [OF shell] parse_single_plain [OF common(1) _ common(2), of False True] by simp
  have "parse_unary_test lib (range_text ?a ?b True False) = Inr (TestRange a b True False)"
    using range_read_back [OF assms(1,2), of True False] by (simp add: read_back_def range_text_def)
  moreover have "parse_unary_test lib ?w = Inr (TestEquals v)"
    using alternative_read_back [of lib "TestEquals v"] assms(3,4) by (simp add: read_back_def)
  moreover have "\<not> is_not_unary_test_candidate (range_text ?a ?b True False @ '', '' @ ?w)"
    by (simp add: is_not_unary_test_candidate_def strip_prefix_str_def range_text_def)
  ultimately show "parse_unary_test lib (render_unary_test lib (TestAnyOf [TestRange a b True False, TestEquals v]))
      = Inr (TestAnyOf [TestRange a b True False, TestEquals v])"
    unfolding render using common [of True False] split(2) no_el [OF common(2), of True False]
      no_property_path [of "range_text ?a ?b True False @ '', '' @ ?w" lib]
    by (subst parse_unary_test.simps) (auto simp: trimmed_text_def [of "[]"])
qed

theorem half_open_range_hides_alternatives_witness:
  "literal_ok example_lib (JsonString ''a'') \<and> comma_free (JsonString ''x'') \<and>
   parse_unary_test example_lib
     (render_unary_test example_lib (TestAnyOf [TestRange (JsonString ''a'') (JsonString ''m'') True False, TestEquals (JsonString ''x'')]))
     = Inr (TestAnyOf [TestRange (JsonString ''a'') (JsonString ''m'') True False, TestEquals (JsonString ''x'')])"
proof -
  have ok: "literal_ok example_lib (JsonString ''a'')" "literal_ok example_lib (JsonString ''m'')"
    "literal_ok example_lib (JsonString ''x'')" "comma_free (JsonString ''x'')"
    by (simp_all add: quotable_def inert_text_def str_contains_def)
  show ?thesis using ok half_open_range_hides_alternatives [OF ok] by blast
qed

section \<open>The tests the reader makes\<close>

fun parser_form :: "dmn_unary_test \<Rightarrow> bool" where
  "parser_form (TestAnyOf tests) \<longleftrightarrow> 2 \<le> length tests \<and> list_all parser_form tests"
| "parser_form (TestAnd tests) \<longleftrightarrow> 2 \<le> length tests \<and> list_all (\<lambda>t. (\<exists>u. t = TestNot u) \<and> parser_form t) tests"
| "parser_form (TestNot t) \<longleftrightarrow> t \<noteq> TestAny \<and> (\<forall>ts. t \<noteq> TestAnyOf ts) \<and> parser_form t"
| "parser_form (TestPropertyPath path t) \<longleftrightarrow> path \<noteq> [] \<and> [] \<notin> set path \<and> parser_form t"
| "parser_form (TestStringTransform f x) \<longleftrightarrow> f \<noteq> StringLength"
| "parser_form (TestStringTransformComparison f op v) \<longleftrightarrow> f = StringLength \<and> is_number v"
| "parser_form (TestInList vs) \<longleftrightarrow> vs \<noteq> []"
| "parser_form (TestListContains n) \<longleftrightarrow> (\<forall>name. n = NeedleVariable name \<longrightarrow> is_simple_feel_name name)"
| "parser_form (TestElCondition source) \<longleftrightarrow> source \<noteq> []"
| "parser_form (TestDeferredComparison op source) \<longleftrightarrow> source \<noteq> []"
| "parser_form (TestOr tests) \<longleftrightarrow> False"
| "parser_form (TestInstanceOf type_name) \<longleftrightarrow> False"
| "parser_form _ \<longleftrightarrow> True"

lemma collect_results_Inr:
  "collect_results f xs = Inr ys \<Longrightarrow> length ys = length xs \<and> (\<forall>y \<in> set ys. \<exists>x \<in> set xs. f x = Inr y)"
  by (induction xs arbitrary: ys) fastforce+

lemma string_function_form:
  "parse_string_function_unary_test lib s = Inr (Some t) \<Longrightarrow> parser_form t"
proof -
  have args: "parse_string_function_arguments lib s f a = Inr (Some t) \<Longrightarrow> parser_form t" for lib s f a
    by (auto simp: parse_string_function_arguments_def split: list.splits if_splits)
  have "string_function_loop lib s fs = Inr (Some t) \<Longrightarrow> parser_form t" for fs
    by (induction lib s fs rule: string_function_loop.induct) (auto dest: args split: if_splits option.splits)
  then show "parse_string_function_unary_test lib s = Inr (Some t) \<Longrightarrow> parser_form t"
    by (simp add: parse_string_function_unary_test_def)
qed

lemma list_contains_form: "parse_list_contains_unary_test lib s = Inr (Some t) \<Longrightarrow> parser_form t"
  by (auto simp: parse_list_contains_unary_test_def parse_list_contains_needle_def Let_def split: list.splits if_splits option.splits)

lemma in_list_form: "parse_in_list_unary_test lib s = Inr (Some t) \<Longrightarrow> parser_form t"
  by (cases "in_list_body s")
    (auto simp: parse_in_list_unary_test_def Let_def dest!: collect_results_Inr split: if_splits option.splits)

lemma transform_form: "parse_string_transform_unary_test lib s = Inr (Some t) \<Longrightarrow> parser_form t"
proof -
  have len: "parse_string_length_transform_unary_test lib s = Inr (Some t) \<Longrightarrow> parser_form t"
    by (auto simp: parse_string_length_transform_unary_test_def Let_def split: option.splits if_splits prod.splits)
  have sub: "parse_substring_transform_unary_test s = Inr (Some t) \<Longrightarrow> parser_form t"
    by (auto simp: parse_substring_transform_unary_test_def Let_def split: option.splits if_splits prod.splits)
  have repl: "parse_replace_transform_unary_test s = Inr (Some t) \<Longrightarrow> parser_form t"
    by (auto simp: parse_replace_transform_unary_test_def Let_def split: option.splits if_splits prod.splits)
  have loop: "StringLength \<notin> snd ` set fs \<Longrightarrow> case_transform_loop s fs = Inr (Some t) \<Longrightarrow> parser_form t" for fs
    by (induction s fs rule: case_transform_loop.induct) (auto simp: Let_def split: if_splits option.splits prod.splits)
  assume "parse_string_transform_unary_test lib s = Inr (Some t)"
  then show "parser_form t"
    using loop [of "[(''lower case'', LowerCase), (''upper case'', UpperCase)]"]
    by (auto simp: parse_string_transform_unary_test_def dest: len sub repl split: if_splits)
qed

lemma single_form: "parse_single_unary_test lib s = Inr t \<Longrightarrow> parser_form t"
proof -
  have deferred: "parse_deferred_date_unary_test s = Inr (Some t) \<Longrightarrow> parser_form t"
    by (auto simp: parse_deferred_date_unary_test_def Let_def split: if_splits prod.splits)
  have range: "parse_feel_range lib s = Inr t \<Longrightarrow> parser_form t"
    by (auto simp: parse_feel_range_def split: if_splits option.splits prod.splits)
  have eq: "parse_equality_unary_test lib s = Inr t \<Longrightarrow> parser_form t"
    by (auto simp: parse_equality_unary_test_def split: if_splits)
  have cmp: "parse_comparison_unary_test lib op x = Inr t \<Longrightarrow> parser_form t" for op x
    by (auto simp: parse_comparison_unary_test_def split: if_splits)
  assume "parse_single_unary_test lib s = Inr t"
  then show "parser_form t"
    by (auto simp: parse_single_unary_test_def split: option.splits prod.splits if_splits
        dest: deferred string_function_form list_contains_form in_list_form transform_form range eq cmp)
qed

lemma split_dots_not_Nil [simp]: "split_dots p s \<noteq> []"
  by (induction p s rule: split_dots.induct) auto

lemma path_form:
  "property_path_parts s = Inr (Some (path, rest)) \<Longrightarrow> path \<noteq> [] \<and> [] \<notin> set path"
  by (auto simp: property_path_parts_def Let_def split: option.splits list.splits if_splits)

lemma el_form: "parse_el_condition_unary_test s = Inr (Some t) \<Longrightarrow> parser_form t"
  by (auto simp: parse_el_condition_unary_test_def Let_def split: if_splits option.splits)

lemma negated_form: "negated s t = Inr u \<Longrightarrow> parser_form t \<Longrightarrow> parser_form u \<and> (\<exists>v. u = TestNot v)"
  by (cases t) (auto simp: negated_def)

lemma not_step:
  assumes IH: "\<And>p u. length p < length s \<Longrightarrow> parse_unary_test lib p = Inr u \<Longrightarrow> parser_form u"
    and "parse_not_unary_test lib s = Inr t"
  shows "parser_form t"
proof -
  obtain inner where a: "strip_function_argument s ''not'' = Some inner"
    using assms(2) by (subst (asm) parse_not_unary_test.simps) (auto split: option.splits)
  let ?ps = "split_comma_separated_literals (str_trim inner)"
  show ?thesis
  proof (cases "1 < length ?ps")
    case True
    then obtain tests where c: "collect_results (\<lambda>alt. rbind (parse_unary_test lib alt) (negated s)) ?ps = Inr tests" and t: "t = TestAnd tests"
      using assms(2) a by (subst (asm) parse_not_unary_test.simps) (auto simp: Let_def split: if_splits)
    have "parser_form u \<and> (\<exists>v. u = TestNot v)" if "u \<in> set tests" for u
    proof -
      obtain p where p: "p \<in> set ?ps" and "rbind (parse_unary_test lib p) (negated s) = Inr u"
        using collect_results_Inr [OF c] \<open>u \<in> set tests\<close> by blast
      then obtain v where "parse_unary_test lib p = Inr v" "negated s v = Inr u" by auto
      then show ?thesis using IH [OF not_piece_shorter [OF a p]] True negated_form by auto
    qed
    then show ?thesis using True collect_results_Inr [OF c] t by (auto simp: list_all_iff)
  next
    case False
    then obtain v where "parse_unary_test lib (str_trim inner) = Inr v" "negated s v = Inr t"
      using assms(2) a by (subst (asm) parse_not_unary_test.simps) (auto simp: Let_def split: if_splits)
    then show ?thesis using IH [OF not_argument_shorter [OF a]] negated_form by blast
  qed
qed

lemma property_step:
  assumes IH: "\<And>p u. length p < length s \<Longrightarrow> parse_unary_test lib p = Inr u \<Longrightarrow> parser_form u"
    and t: "parse_property_path_unary_test lib s = Inr (Some t)"
  shows "parser_form t"
proof -
  obtain path rest where p: "property_path_parts s = Inr (Some (path, rest))"
    using t by (subst (asm) parse_property_path_unary_test.simps) (auto split: sum.splits option.splits)
  then show ?thesis
    using t [unfolded parse_property_path_unary_test.simps [of lib s]] path_form [OF p] IH [OF property_path_shorter [OF p]]
    by (auto split: if_splits)
qed

lemma parse_unary_cases:
  assumes "parse_unary_test lib s = Inr t"
  obtains (any) "t = TestAny"
    | (el) "parse_el_condition_unary_test (str_trim s) = Inr (Some t)"
    | (property) "parse_property_path_unary_test lib (str_trim s) = Inr (Some t)"
    | (not_test) "parse_not_unary_test lib (str_trim s) = Inr t"
    | (alternatives) tests where "1 < length (split_comma_separated_literals (str_trim s))" "t = TestAnyOf tests"
        "collect_results (parse_unary_test lib) (split_comma_separated_literals (str_trim s)) = Inr tests"
    | (single) "parse_single_unary_test lib (str_trim s) = Inr t"
proof (cases "str_trim s = [] \<or> str_trim s = ''-''")
  case True
  then show ?thesis using assms any by (subst (asm) parse_unary_test.simps) simp
next
  case False
  note unfolded = assms [unfolded parse_unary_test.simps [of lib s] Let_def if_not_P [OF False]]
  then obtain e where e: "parse_el_condition_unary_test (str_trim s) = Inr e" by auto
  show ?thesis
  proof (cases e)
    case None
    then obtain p where p: "parse_property_path_unary_test lib (str_trim s) = Inr p" using unfolded e by auto
    then show ?thesis
      using unfolded e None property not_test alternatives single by (cases p) (auto split: if_splits)
  next
    case (Some u)
    then show ?thesis using unfolded e el by simp
  qed
qed

text \<open>Every test the reader makes is well formed: alternatives and conjunctions have at least two members, a
  conjunction has negations only, nothing is the negation of the empty test or of alternatives, a path has no empty
  step, and the forms that only a deployed model can contain (\<open>Or\<close>, \<open>InstanceOf\<close>) are never made.\<close>

theorem parsed_tests_have_form: "parse_unary_test lib s = Inr t \<Longrightarrow> parser_form t"
proof (induction s arbitrary: t rule: length_induct)
  case (1 s)
  then have IH: "\<And>p u. length p < length s \<Longrightarrow> parse_unary_test lib p = Inr u \<Longrightarrow> parser_form u" by blast
  let ?w = "str_trim s"
  have IHw: "\<And>p u. length p < length ?w \<Longrightarrow> parse_unary_test lib p = Inr u \<Longrightarrow> parser_form u"
    using IH length_str_trim [of s] by (meson less_le_trans)
  from "1.prems" show ?case
  proof (cases rule: parse_unary_cases)
    case (alternatives tests)
    have "parser_form u" if "u \<in> set tests" for u
    proof -
      obtain p where p: "p \<in> set (split_comma_separated_literals ?w)" "parse_unary_test lib p = Inr u"
        using collect_results_Inr [OF alternatives(3)] \<open>u \<in> set tests\<close> by blast
      then show ?thesis using IH [OF trimmed_piece_shorter [OF p(1)]] alternatives(1) by simp
    qed
    then show ?thesis using alternatives(1,2) collect_results_Inr [OF alternatives(3)] by (auto simp: list_all_iff)
  next
    case property
    show ?thesis by (rule property_step [OF _ property]) (rule IHw)
  next
    case not_test
    show ?thesis by (rule not_step [OF _ not_test]) (rule IHw)
  qed (auto dest: el_form single_form)
qed

theorem parsed_tests_have_form_witness:
  "parse_unary_test example_lib ''not(null, true)'' = Inr (TestAnd [TestNot (TestEquals JsonNull), TestNot (TestEquals (JsonBool True))]) \<and>
   parser_form (TestAnd [TestNot (TestEquals JsonNull), TestNot (TestEquals (JsonBool True))])"
proof -
  have parse: "parse_unary_test example_lib ''not(null, true)'' = Inr (TestAnd [TestNot (TestEquals JsonNull), TestNot (TestEquals (JsonBool True))])"
    by code_simp
  show ?thesis using parse parsed_tests_have_form [OF parse] by blast
qed

end
