(* ===== verification/Dmn_Conversion.thy ===== *)
theory Dmn_Conversion
  imports Dmn_Unary_Roundtrip
begin

text \<open>
  From the document model of \<open>flowable-dmn-model\<close>, whose cells are texts, to the executable model: the
  \<open>TryFrom\<close> conversions of \<open>flowable-dmn-engine/src/models.rs\<close>, which read every cell with the parser of unary
  tests and literals. \<open>fresh_id\<close> is the random identifier of a definition without one. Labels, namespaces,
  knowledge sources and authority requirements are copied by the code and are left out, as in \<open>Dmn_Model\<close>.
\<close>

section \<open>The document model\<close>

datatype hit_policy_text =
    DocFirst | DocUnique | DocAny | DocRuleOrder | DocOutputOrder | DocPriority | DocCollect | DocComplete

datatype collect_operator_text = DocCount | DocSum | DocMin | DocMax

record literal_expression =
  literal_id :: "string option"
  literal_type_ref :: "string option"
  literal_source :: "string option"

record unary_tests =
  unary_tests_id :: "string option"
  unary_tests_source :: "string option"

record input_clause =
  doc_input_id :: "string option"
  input_number :: nat
  doc_input_expression :: literal_expression

record output_clause =
  doc_output_id :: "string option"
  doc_output_name :: "string option"
  doc_output_type_ref :: "string option"
  doc_output_values :: "unary_tests option"
  output_number :: nat

record decision_rule =
  doc_rule_id :: "string option"
  doc_rule_number :: nat
  doc_input_entries :: "unary_tests list"
  doc_output_entries :: "literal_expression list"

record decision_table =
  doc_hit_policy :: hit_policy_text
  doc_collect_operator :: "collect_operator_text option"
  doc_inputs :: "input_clause list"
  doc_outputs :: "output_clause list"
  doc_rules :: "decision_rule list"

record decision =
  doc_decision_id :: string
  doc_decision_name :: "string option"
  doc_decision_table :: decision_table
  doc_required_decisions :: "string list"

record dmn_definition =
  doc_id :: "string option"
  doc_name :: "string option"
  doc_decisions :: "decision list"
  doc_services :: "decision_service list"

section \<open>The conversions\<close>

fun hit_policy_try_from :: "hit_policy_text \<Rightarrow> dmn_error + dmn_hit_policy" where
  "hit_policy_try_from DocFirst = Inr HitFirst" | "hit_policy_try_from DocUnique = Inr HitUnique"
| "hit_policy_try_from DocAny = Inr HitAny" | "hit_policy_try_from DocRuleOrder = Inr HitRuleOrder"
| "hit_policy_try_from DocOutputOrder = Inr HitOutputOrder" | "hit_policy_try_from DocPriority = Inr HitPriority"
| "hit_policy_try_from DocCollect = Inr HitCollect" | "hit_policy_try_from DocComplete = Inr HitComplete"

fun collect_operator_try_from :: "collect_operator_text \<Rightarrow> dmn_error + collect_operator" where
  "collect_operator_try_from DocCount = Inr CollectCount" | "collect_operator_try_from DocSum = Inr CollectSum"
| "collect_operator_try_from DocMin = Inr CollectMin" | "collect_operator_try_from DocMax = Inr CollectMax"

text \<open>\<open>Option::map(f).transpose()\<close>.\<close>

definition map_transpose :: "('a \<Rightarrow> 'e + 'b) \<Rightarrow> 'a option \<Rightarrow> 'e + 'b option" where
  "map_transpose f x = (case x of None \<Rightarrow> Inr None | Some y \<Rightarrow> rbind (f y) (\<lambda>z. Inr (Some z)))"

definition numbered :: "string \<Rightarrow> nat \<Rightarrow> string option \<Rightarrow> string" where
  "numbered prefix n name = (case name of Some i \<Rightarrow> i | None \<Rightarrow> prefix @ show_nat n)"

definition input_clause_try_from :: "input_clause \<Rightarrow> dmn_error + dmn_input_clause" where
  "input_clause_try_from c =
     (case literal_source (doc_input_expression c) of
        Some variable \<Rightarrow>
          if str_trim variable = [] then Inl (DmnValidation ''DMN inputExpression text is required in the owned M15 subset'')
          else Inr \<lparr>input_clause_id = numbered ''input-'' (input_number c) (doc_input_id c), input_variable = variable,
                     input_type_ref = literal_type_ref (doc_input_expression c)\<rparr>
      | None \<Rightarrow> Inl (DmnValidation ''DMN inputExpression text is required in the owned M15 subset''))"

definition output_clause_try_from :: "dmn_lib \<Rightarrow> output_clause \<Rightarrow> dmn_error + dmn_output_clause" where
  "output_clause_try_from lib c =
     rbind (map_transpose (\<lambda>v. parse_output_values lib (case unary_tests_source v of Some s \<Rightarrow> s | None \<Rightarrow> [])) (doc_output_values c)) (\<lambda>values.
       Inr \<lparr>output_clause_id = numbered ''output-'' (output_number c) (doc_output_id c),
            output_name = numbered ''output'' (output_number c) (doc_output_name c),
            output_type_ref = doc_output_type_ref c,
            output_values = (case values of Some vs \<Rightarrow> vs | None \<Rightarrow> [])\<rparr>)"

definition input_entry_try_from :: "dmn_lib \<Rightarrow> unary_tests \<Rightarrow> dmn_error + dmn_rule_input_entry" where
  "input_entry_try_from lib e =
     rbind (parse_unary_test lib (case unary_tests_source e of Some s \<Rightarrow> s | None \<Rightarrow> ''-'')) (\<lambda>t.
       Inr \<lparr>input_entry_id = unary_tests_id e, input_expression = t\<rparr>)"

definition output_entry_try_from :: "dmn_lib \<Rightarrow> literal_expression \<Rightarrow> dmn_error + dmn_rule_output_entry" where
  "output_entry_try_from lib e =
     (let expression = (case literal_source e of Some s \<Rightarrow> s | None \<Rightarrow> []) in
      rbind (if str_trim expression = [] \<or> str_trim expression = ''-'' then Inr JsonNull
             else parse_literal_expression lib expression) (\<lambda>v.
        Inr \<lparr>output_entry_id = literal_id e, output_value = v, output_expression = expression\<rparr>))"

definition rule_try_from :: "dmn_lib \<Rightarrow> decision_rule \<Rightarrow> dmn_error + dmn_rule" where
  "rule_try_from lib r =
     rbind (collect_results (input_entry_try_from lib) (doc_input_entries r)) (\<lambda>ins.
     rbind (collect_results (output_entry_try_from lib) (doc_output_entries r)) (\<lambda>outs.
       Inr \<lparr>rule_id = numbered ''rule-'' (doc_rule_number r) (doc_rule_id r), input_entries = ins, output_entries = outs\<rparr>))"

definition decision_try_from :: "dmn_lib \<Rightarrow> decision \<Rightarrow> dmn_error + dmn_decision" where
  "decision_try_from lib d =
     (let table = doc_decision_table d in
      rbind (hit_policy_try_from (doc_hit_policy table)) (\<lambda>policy.
      rbind (map_transpose collect_operator_try_from (doc_collect_operator table)) (\<lambda>operator.
      rbind (collect_results input_clause_try_from (doc_inputs table)) (\<lambda>ins.
      rbind (collect_results (output_clause_try_from lib) (doc_outputs table)) (\<lambda>outs.
      rbind (collect_results (rule_try_from lib) (doc_rules table)) (\<lambda>rs.
        Inr \<lparr>decision_id = doc_decision_id d, dmn_decision_key = doc_decision_id d,
             dmn_decision_name = (case doc_decision_name d of Some n \<Rightarrow> n | None \<Rightarrow> ''Unnamed decision''),
             decision_hit_policy = policy, decision_collect_operator = operator, decision_inputs = ins,
             decision_outputs = outs, decision_rules = rs, decision_required_decisions = doc_required_decisions d\<rparr>))))))"

definition model_try_from :: "dmn_lib \<Rightarrow> string \<Rightarrow> dmn_definition \<Rightarrow> dmn_error + dmn_model" where
  "model_try_from lib fresh_id d =
     rbind (collect_results (decision_try_from lib) (doc_decisions d)) (\<lambda>decisions.
       Inr \<lparr>model_id = (case doc_id d of Some i \<Rightarrow> i | None \<Rightarrow> ''drd-'' @ fresh_id),
            model_name = (case doc_name d of Some n \<Rightarrow> n | None \<Rightarrow> ''Unnamed DRD''),
            model_decisions = decisions, decision_services = doc_services d\<rparr>)"

section \<open>What a converted table keeps\<close>

lemma collect_results_list_all2: "collect_results f xs = Inr ys \<longleftrightarrow> list_all2 (\<lambda>x y. f x = Inr y) xs ys"
proof (induction xs arbitrary: ys)
  case Nil
  then show ?case by auto
next
  case (Cons x xs)
  then show ?case by (cases ys) auto
qed

text \<open>A cell of the document and the test or value it became.\<close>

definition entry_matches :: "dmn_lib \<Rightarrow> unary_tests \<Rightarrow> dmn_rule_input_entry \<Rightarrow> bool" where
  "entry_matches lib e e' \<longleftrightarrow> input_entry_id e' = unary_tests_id e
     \<and> parse_unary_test lib (case unary_tests_source e of Some s \<Rightarrow> s | None \<Rightarrow> ''-'') = Inr (input_expression e')
     \<and> parser_form (input_expression e')"

definition rule_matches_doc :: "dmn_lib \<Rightarrow> decision_rule \<Rightarrow> dmn_rule \<Rightarrow> bool" where
  "rule_matches_doc lib r r' \<longleftrightarrow>
     list_all2 (entry_matches lib) (doc_input_entries r) (input_entries r')
     \<and> list_all2 (\<lambda>e e'. output_expression e' = (case literal_source e of Some s \<Rightarrow> s | None \<Rightarrow> [])) (doc_output_entries r) (output_entries r')
     \<and> (\<forall>i. doc_rule_id r = Some i \<longrightarrow> rule_id r' = i)"

lemma input_entry_matches: "input_entry_try_from lib e = Inr e' \<Longrightarrow> entry_matches lib e e'"
  by (auto simp: input_entry_try_from_def entry_matches_def parsed_tests_have_form)

lemma rule_converts: "rule_try_from lib r = Inr r' \<Longrightarrow> rule_matches_doc lib r r'"
  by (auto simp: rule_try_from_def rule_matches_doc_def collect_results_list_all2 numbered_def output_entry_try_from_def Let_def
      intro: input_entry_matches elim!: list_all2_mono)

lemma literal_always_parses: "\<exists>v. parse_literal_expression lib s = Inr v"
  by (simp add: parse_literal_expression_def Let_def split: option.splits)

text \<open>The conversion of a decision keeps its key, its policy and its shape: clauses and rules stay in order, every
  rule has one test per input entry of the document, which is the parse of its text, and one output per output entry,
  which keeps its text; and no input variable is blank.\<close>

theorem conversion_keeps_the_table:
  assumes "decision_try_from lib d = Inr d'"
  shows "dmn_decision_key d' = doc_decision_id d \<and> decision_required_decisions d' = doc_required_decisions d
    \<and> hit_policy_try_from (doc_hit_policy (doc_decision_table d)) = Inr (decision_hit_policy d')
    \<and> length (decision_outputs d') = length (doc_outputs (doc_decision_table d))
    \<and> list_all2 (\<lambda>c c'. literal_source (doc_input_expression c) = Some (input_variable c') \<and> str_trim (input_variable c') \<noteq> [])
        (doc_inputs (doc_decision_table d)) (decision_inputs d')
    \<and> list_all2 (rule_matches_doc lib) (doc_rules (doc_decision_table d)) (decision_rules d')"
proof -
  obtain ins outs rs where
    ins: "list_all2 (\<lambda>x y. input_clause_try_from x = Inr y) (doc_inputs (doc_decision_table d)) ins" and
    outs: "list_all2 (\<lambda>x y. output_clause_try_from lib x = Inr y) (doc_outputs (doc_decision_table d)) outs" and
    rs: "list_all2 (\<lambda>x y. rule_try_from lib x = Inr y) (doc_rules (doc_decision_table d)) rs" and
    d': "decision_inputs d' = ins" "decision_outputs d' = outs" "decision_rules d' = rs"
      "dmn_decision_key d' = doc_decision_id d" "decision_required_decisions d' = doc_required_decisions d"
      "hit_policy_try_from (doc_hit_policy (doc_decision_table d)) = Inr (decision_hit_policy d')"
    using assms by (auto simp: decision_try_from_def Let_def collect_results_list_all2)
  have "list_all2 (\<lambda>c c'. literal_source (doc_input_expression c) = Some (input_variable c') \<and> str_trim (input_variable c') \<noteq> [])
      (doc_inputs (doc_decision_table d)) ins"
    using ins by (rule list_all2_mono) (auto simp: input_clause_try_from_def split: option.splits if_splits)
  moreover have "list_all2 (rule_matches_doc lib) (doc_rules (doc_decision_table d)) rs"
    using rs by (rule list_all2_mono) (rule rule_converts)
  moreover have "length outs = length (doc_outputs (doc_decision_table d))" using outs by (simp add: list_all2_lengthD)
  ultimately show ?thesis using d' by simp
qed

lemma collect_results_total: "(\<And>x. x \<in> set xs \<Longrightarrow> \<exists>y. f x = Inr y) \<Longrightarrow> \<exists>ys. collect_results f xs = Inr ys"
  by (induction xs) auto

lemma output_entry_converts: "\<exists>e'. output_entry_try_from lib e = Inr e'"
  using literal_always_parses by (auto simp: output_entry_try_from_def Let_def)

lemma output_clause_converts: "\<exists>c'. output_clause_try_from lib c = Inr c'"
  using collect_results_total [OF literal_always_parses] by (auto simp: output_clause_try_from_def map_transpose_def parse_output_values_def split: option.splits)

text \<open>The source of a cell, as the conversion reads it.\<close>

definition cell_text :: "unary_tests \<Rightarrow> string" where
  "cell_text e = (case unary_tests_source e of Some s \<Rightarrow> s | None \<Rightarrow> ''-'')"

text \<open>C22. A decision converts exactly when every input expression has a text and every input entry parses: outputs,
  output values and policies never fail.\<close>

theorem conversion_succeeds_iff:
  "(\<exists>d'. decision_try_from lib d = Inr d') \<longleftrightarrow>
   (\<forall>c \<in> set (doc_inputs (doc_decision_table d)). \<exists>v. literal_source (doc_input_expression c) = Some v \<and> str_trim v \<noteq> [])
   \<and> (\<forall>r \<in> set (doc_rules (doc_decision_table d)). \<forall>e \<in> set (doc_input_entries r). \<exists>t. parse_unary_test lib (cell_text e) = Inr t)"
  (is "?converts \<longleftrightarrow> ?inputs \<and> ?entries")
proof
  assume ?converts
  then obtain ins rs where ins: "list_all2 (\<lambda>x y. input_clause_try_from x = Inr y) (doc_inputs (doc_decision_table d)) ins"
    and rs: "list_all2 (\<lambda>x y. rule_try_from lib x = Inr y) (doc_rules (doc_decision_table d)) rs"
    by (auto simp: decision_try_from_def Let_def collect_results_list_all2)
  have ?inputs
  proof
    fix c assume "c \<in> set (doc_inputs (doc_decision_table d))"
    then obtain c' where "input_clause_try_from c = Inr c'" using ins by (auto simp: list_all2_conv_all_nth in_set_conv_nth)
    then show "\<exists>v. literal_source (doc_input_expression c) = Some v \<and> str_trim v \<noteq> []"
      by (auto simp: input_clause_try_from_def split: option.splits if_splits)
  qed
  moreover have ?entries
  proof (intro ballI)
    fix r e assume "r \<in> set (doc_rules (doc_decision_table d))" and e: "e \<in> set (doc_input_entries r)"
    then obtain r' where "rule_try_from lib r = Inr r'" using rs by (auto simp: list_all2_conv_all_nth in_set_conv_nth)
    then have "list_all2 (entry_matches lib) (doc_input_entries r) (input_entries r')" using rule_converts by (auto simp: rule_matches_doc_def)
    then show "\<exists>t. parse_unary_test lib (cell_text e) = Inr t"
      using e unfolding list_all2_conv_all_nth in_set_conv_nth entry_matches_def cell_text_def by blast
  qed
  ultimately show "?inputs \<and> ?entries" by blast
next
  assume ok: "?inputs \<and> ?entries"
  have "\<exists>ins. collect_results input_clause_try_from (doc_inputs (doc_decision_table d)) = Inr ins"
    using ok by (intro collect_results_total) (force simp: input_clause_try_from_def)
  moreover have "\<exists>rs. collect_results (rule_try_from lib) (doc_rules (doc_decision_table d)) = Inr rs"
  proof (rule collect_results_total)
    fix r assume "r \<in> set (doc_rules (doc_decision_table d))"
    then have "\<exists>ins. collect_results (input_entry_try_from lib) (doc_input_entries r) = Inr ins"
      using ok by (intro collect_results_total) (auto simp: input_entry_try_from_def cell_text_def)
    then show "\<exists>y. rule_try_from lib r = Inr y"
      using collect_results_total [OF output_entry_converts] by (auto simp: rule_try_from_def)
  qed
  moreover have "\<exists>p. hit_policy_try_from (doc_hit_policy (doc_decision_table d)) = Inr p"
    by (cases "doc_hit_policy (doc_decision_table d)") auto
  moreover have "\<exists>x. collect_operator_try_from y = Inr x" for y by (cases y) auto
  then have "\<exists>x. map_transpose collect_operator_try_from (doc_collect_operator (doc_decision_table d)) = Inr x"
    by (auto simp: map_transpose_def split: option.splits)
  ultimately show ?converts
    using collect_results_total [OF output_clause_converts] by (auto simp: decision_try_from_def Let_def)
qed

definition grade_document :: decision where
  "grade_document = \<lparr>doc_decision_id = ''grade'', doc_decision_name = None,
     doc_decision_table = \<lparr>doc_hit_policy = DocFirst, doc_collect_operator = None,
       doc_inputs = [\<lparr>doc_input_id = None, input_number = 1,
         doc_input_expression = \<lparr>literal_id = None, literal_type_ref = None, literal_source = Some ''tier''\<rparr>\<rparr>],
       doc_outputs = [\<lparr>doc_output_id = None, doc_output_name = Some ''grade'', doc_output_type_ref = None,
         doc_output_values = Some \<lparr>unary_tests_id = None, unary_tests_source = Some ''high, low''\<rparr>, output_number = 1\<rparr>],
       doc_rules = [\<lparr>doc_rule_id = None, doc_rule_number = 1,
         doc_input_entries = [\<lparr>unary_tests_id = None, unary_tests_source = Some ''gold, not(null)''\<rparr>],
         doc_output_entries = [\<lparr>literal_id = None, literal_type_ref = None, literal_source = Some ''high''\<rparr>]\<rparr>]\<rparr>,
     doc_required_decisions = []\<rparr>"

theorem conversion_keeps_the_table_witness:
  "\<exists>d'. decision_try_from example_lib grade_document = Inr d' \<and> dmn_decision_key d' = ''grade''
     \<and> list_all2 (rule_matches_doc example_lib) (doc_rules (doc_decision_table grade_document)) (decision_rules d')"
proof -
  have "\<not> isl (decision_try_from example_lib grade_document)" by code_simp
  then obtain d' where d: "decision_try_from example_lib grade_document = Inr d'" using returned by blast
  have "doc_decision_id grade_document = ''grade''" by (simp add: grade_document_def)
  then show ?thesis using d conversion_keeps_the_table [OF d] by auto
qed

theorem conversion_succeeds_iff_witness:
  "\<exists>t. parse_unary_test example_lib (cell_text \<lparr>unary_tests_id = None, unary_tests_source = Some ''gold, not(null)''\<rparr>) = Inr t"
proof -
  have "\<not> isl (decision_try_from example_lib grade_document)" by code_simp
  then have "\<exists>d'. decision_try_from example_lib grade_document = Inr d'" by (rule returned)
  from this [unfolded conversion_succeeds_iff [of example_lib grade_document]] show ?thesis by (simp add: grade_document_def)
qed

end
