(* ===== verification/Cmmn_If_Part.thy ===== *)
theory Cmmn_If_Part
  imports Json_Access
begin

text \<open>
  The conditions of CMMN sentries: the expressions of \<open>flowable-cmmn-model/src/lib.rs\<close>, their printed text and the
  tokenizer. The tokenizer works on the unread rest of the text where the code keeps a byte index. A character above
  U+007F is two bytes in the source, both outside every class the tokenizer tests, so its first byte decides.
\<close>

section \<open>Expressions\<close>

datatype sentry_if_part_operator = IfEqual | IfNotEqual | IfGreaterThan | IfGreaterThanOrEqual | IfLessThan | IfLessThanOrEqual

datatype sentry_if_part_logical_operator = IfAnd | IfOr

datatype sentry_if_part_literal = LitBoolean bool | LitString string | LitNumber string | LitNull | LitVariable string

datatype sentry_if_part_expression =
    PComparison string sentry_if_part_operator sentry_if_part_literal
  | PLogical sentry_if_part_logical_operator "sentry_if_part_expression list"
  | PNot sentry_if_part_expression
  | PEmpty string
  | PContains string sentry_if_part_literal bool
  | PStartsWith string string
  | PEndsWith string string
  | PMatches string string
  | PMethodCall "string option" string "sentry_if_part_expression list"
  | PArithmetic sentry_if_part_expression string sentry_if_part_expression
  | PTernary sentry_if_part_expression sentry_if_part_expression sentry_if_part_expression
  | PPropertyAccess sentry_if_part_expression string
  | PIndexAccess sentry_if_part_expression sentry_if_part_expression
  | PLiteral sentry_if_part_literal

datatype if_part_token =
    TkIdentifier string
  | TkLiteral sentry_if_part_literal
  | TkEqual | TkNotEqual | TkGreaterThan | TkGreaterThanOrEqual | TkLessThan | TkLessThanOrEqual
  | TkAnd | TkOr | TkNot | TkLeftParen | TkRightParen | TkComma
  | TkPlus | TkMinus | TkMultiply | TkDivide | TkModulo
  | TkQuestion | TkColon | TkLeftBracket | TkRightBracket | TkDot

section \<open>Character classes and paths\<close>

definition is_ascii_whitespace :: "char \<Rightarrow> bool" where
  "is_ascii_whitespace c \<longleftrightarrow> c \<in> {CHR 0x20, CHR 0x09, CHR 0x0A, CHR 0x0C, CHR 0x0D}"

definition is_identifier_start_byte :: "char \<Rightarrow> bool" where
  "is_identifier_start_byte c \<longleftrightarrow> is_ascii_alphabetic c \<or> c = CHR ''_''"

definition is_identifier_byte :: "char \<Rightarrow> bool" where
  "is_identifier_byte c \<longleftrightarrow> is_ascii_alphabetic c \<or> is_ascii_digit c \<or> c = CHR ''_''"

definition is_quote_byte :: "char \<Rightarrow> bool" where
  "is_quote_byte c \<longleftrightarrow> c = CHR 0x27 \<or> c = CHR 0x22"

definition key_byte :: "char \<Rightarrow> char \<Rightarrow> bool" where
  "key_byte quote c \<longleftrightarrow> c \<noteq> quote \<and> c \<noteq> CHR 0x5C"

text \<open>The loop of \<open>is_supported_if_part_variable_name\<close> after the first identifier.\<close>

function supported_name_tail :: "string \<Rightarrow> bool" where
  "supported_name_tail [] = True"
| "supported_name_tail (c # s) =
     (if c = CHR ''.'' then
        (case s of
           d # s' \<Rightarrow> is_identifier_start_byte d \<and> supported_name_tail (dropWhile is_identifier_byte s')
         | [] \<Rightarrow> False)
      else if c = CHR ''['' then
        (case s of
           d # s' \<Rightarrow>
             if is_ascii_digit d then
               (case dropWhile is_ascii_digit s' of
                  e # r \<Rightarrow> e = CHR '']'' \<and> supported_name_tail r
                | [] \<Rightarrow> False)
             else if is_quote_byte d then
               (case dropWhile (key_byte d) s' of
                  e # f # r \<Rightarrow> e = d \<and> f = CHR '']'' \<and> takeWhile (key_byte d) s' \<noteq> [] \<and> supported_name_tail r
                | _ \<Rightarrow> False)
             else False
         | [] \<Rightarrow> False)
      else False)"
  by pat_completeness auto
termination
proof (relation "measure length")
  fix c :: char and s d s'
  show "(dropWhile is_identifier_byte s', c # s) \<in> measure length" if "s = d # s'"
    using length_dropWhile_le [of is_identifier_byte s'] that by simp
next
  fix c :: char and s d s' e r
  show "(r, c # s) \<in> measure length" if "s = d # s'" "dropWhile is_ascii_digit s' = e # r"
    using length_dropWhile_le [of is_ascii_digit s'] that by simp
next
  fix c :: char and s d s' e x f r
  show "(r, c # s) \<in> measure length" if "s = d # s'" "dropWhile (key_byte d) s' = e # x" "x = f # r"
    using length_dropWhile_le [of "key_byte d" s'] that by simp
qed simp

declare supported_name_tail.simps(2) [simp del]

definition is_supported_if_part_variable_name :: "string \<Rightarrow> bool" where
  "is_supported_if_part_variable_name value =
     (case value of
        c # s \<Rightarrow> is_identifier_start_byte c \<and> supported_name_tail (dropWhile is_identifier_byte s)
      | [] \<Rightarrow> False)"

definition is_supported_number_literal :: "string \<Rightarrow> bool" where
  "is_supported_number_literal value =
     (let digits = (case value of c # s \<Rightarrow> if c = CHR ''-'' then s else value | [] \<Rightarrow> value)
      in takeWhile is_ascii_digit digits \<noteq> [] \<and>
         (case dropWhile is_ascii_digit digits of
            [] \<Rightarrow> True
          | c # fraction \<Rightarrow> c = CHR ''.'' \<and> fraction \<noteq> [] \<and> list_all is_ascii_digit fraction))"

section \<open>The tokenizer\<close>

text \<open>Each reader returns what it read and the unread rest.\<close>

definition after :: "string \<Rightarrow> string \<times> string \<Rightarrow> string \<times> string" where
  "after read r = (case r of (v, rest) \<Rightarrow> (read @ v, rest))"

text \<open>
  The loop of \<open>read_if_part_variable_reference\<close>. When an index or a key is not closed, the loop ends behind the
  characters it has passed.
\<close>

function reference_tail :: "string \<Rightarrow> string \<times> string" where
  "reference_tail [] = ([], [])"
| "reference_tail (c # s) =
     (case s of
        [] \<Rightarrow> ([], c # s)
      | d # s' \<Rightarrow>
          if c = CHR ''.'' \<and> is_identifier_start_byte d then
            after (c # d # takeWhile is_identifier_byte s') (reference_tail (dropWhile is_identifier_byte s'))
          else if c = CHR ''['' \<and> is_ascii_digit d then
            (let seen = c # d # takeWhile is_ascii_digit s' in
             case dropWhile is_ascii_digit s' of
               e # r \<Rightarrow> if e = CHR '']'' then after (seen @ [e]) (reference_tail r) else (seen, e # r)
             | [] \<Rightarrow> (seen, []))
          else if c = CHR ''['' \<and> is_quote_byte d then
            (let key = takeWhile (key_byte d) s'; seen = c # d # key in
             case dropWhile (key_byte d) s' of
               e # f # r \<Rightarrow>
                 if key \<noteq> [] \<and> e = d \<and> f = CHR '']'' then after (seen @ [e, f]) (reference_tail r) else (seen, e # f # r)
             | r \<Rightarrow> (seen, r))
          else ([], c # s))"
  by pat_completeness auto
termination
proof (relation "measure length")
  fix c :: char and s d s'
  show "(dropWhile is_identifier_byte s', c # s) \<in> measure length" if "s = d # s'"
    using length_dropWhile_le [of is_identifier_byte s'] that by simp
next
  fix c :: char and s d s' x e r
  show "(r, c # s) \<in> measure length" if "s = d # s'" "dropWhile is_ascii_digit s' = e # r"
    using length_dropWhile_le [of is_ascii_digit s'] that by simp
next
  fix c :: char and s d s' k x e y f r
  show "(r, c # s) \<in> measure length" if "s = d # s'" "dropWhile (key_byte d) s' = e # y" "y = f # r"
    using length_dropWhile_le [of "key_byte d" s'] that by simp
qed simp

declare reference_tail.simps(2) [simp del]

definition read_if_part_variable_reference :: "string \<Rightarrow> string \<times> string" where
  "read_if_part_variable_reference s =
     (let start = hd s # takeWhile is_identifier_byte (tl s)
      in after start (reference_tail (dropWhile is_identifier_byte (tl s))))"

fun read_quoted_if_part_string :: "char \<Rightarrow> string \<Rightarrow> string + string \<times> string" where
  "read_quoted_if_part_string quote [] = Inl ''quoted string literal must be terminated''"
| "read_quoted_if_part_string quote (c # s) =
     (if c = CHR 0x5C then Inl ''quoted string literals must not contain escapes''
      else if c = quote then Inr ([], s)
      else rbind (read_quoted_if_part_string quote s) (\<lambda>(v, rest). Inr (c # v, rest)))"

definition checked_number :: "string \<Rightarrow> string \<Rightarrow> string + string \<times> string" where
  "checked_number value rest =
     (if is_supported_number_literal value then Inr (value, rest)
      else Inl ''right side must be a boolean, quoted string, or number literal'')"

definition read_if_part_number :: "string \<Rightarrow> string + string \<times> string" where
  "read_if_part_number s =
     (let (sign, digits) = (case s of c # s' \<Rightarrow> if c = CHR ''-'' then ([c], s') else ([], s) | [] \<Rightarrow> ([], s));
          whole = takeWhile is_ascii_digit digits
      in if whole = [] then Inl ''number literal must contain digits''
         else case dropWhile is_ascii_digit digits of
           c # s' \<Rightarrow>
             if c = CHR ''.'' then
               (let fraction = takeWhile is_ascii_digit s' in
                if fraction = [] then Inl ''number literal must contain fractional digits after `.`''
                else checked_number (sign @ whole @ [c] @ fraction) (dropWhile is_ascii_digit s'))
             else checked_number (sign @ whole) (c # s')
         | [] \<Rightarrow> checked_number (sign @ whole) [])"

definition single_byte_tokens :: "(char \<times> if_part_token) list" where
  "single_byte_tokens =
     [(CHR ''('', TkLeftParen), (CHR '')'', TkRightParen), (CHR '','', TkComma), (CHR ''+'', TkPlus), (CHR ''*'', TkMultiply),
      (CHR ''/'', TkDivide), (CHR ''%'', TkModulo), (CHR ''?'', TkQuestion), (CHR '':'', TkColon),
      (CHR ''['', TkLeftBracket), (CHR '']'', TkRightBracket), (CHR ''.'', TkDot)]"

text \<open>A byte that may be doubled or followed by an equals sign: the second byte, the pair and the single byte.\<close>

definition paired_tokens :: "(char \<times> char \<times> if_part_token \<times> (string + if_part_token)) list" where
  "paired_tokens =
     [(CHR ''!'', CHR ''='', TkNotEqual, Inr TkNot),
      (CHR ''='', CHR ''='', TkEqual, Inl ''supported subset requires `==` for equality''),
      (CHR ''>'', CHR ''='', TkGreaterThanOrEqual, Inr TkGreaterThan),
      (CHR ''<'', CHR ''='', TkLessThanOrEqual, Inr TkLessThan),
      (CHR ''&'', CHR ''&'', TkAnd, Inl ''supported subset requires `&&` for logical and''),
      (CHR ''|'', CHR ''|'', TkOr, Inl ''supported subset requires `||` for logical or'')]"

definition word_token :: "string \<Rightarrow> if_part_token" where
  "word_token word =
     (if word = ''and'' then TkAnd
      else if word = ''or'' then TkOr
      else if word = ''not'' then TkNot
      else if word = ''true'' then TkLiteral (LitBoolean True)
      else if word = ''false'' then TkLiteral (LitBoolean False)
      else if word = ''null'' then TkLiteral LitNull
      else TkIdentifier word)"

definition ends_operand :: "if_part_token option \<Rightarrow> bool" where
  "ends_operand t = (case t of Some (TkIdentifier _) \<Rightarrow> True | Some (TkLiteral _) \<Rightarrow> True | Some TkRightParen \<Rightarrow> True | _ \<Rightarrow> False)"

definition first_byte :: "char \<Rightarrow> char" where
  "first_byte c = (let n = (of_char c :: nat) in if n < 128 then c else char_of (192 + n div 64))"

definition number_token :: "string \<Rightarrow> string + if_part_token option \<times> string" where
  "number_token s = rbind (read_if_part_number s) (\<lambda>(v, rest). Inr (Some (TkLiteral (LitNumber v)), rest))"

text \<open>One turn of the loop: the arms of the match, given the last token, and no token for white space.\<close>

definition next_token :: "if_part_token option \<Rightarrow> char \<Rightarrow> string \<Rightarrow> string + if_part_token option \<times> string" where
  "next_token previous c s =
     (if is_ascii_whitespace c then Inr (None, s)
      else case map_of single_byte_tokens c of
        Some t \<Rightarrow> Inr (Some t, s)
      | None \<Rightarrow>
      (case map_of paired_tokens c of
        Some (second, pair, single) \<Rightarrow>
          if s \<noteq> [] \<and> hd s = second then Inr (Some pair, tl s) else rbind single (\<lambda>t. Inr (Some t, s))
      | None \<Rightarrow>
          if c = CHR ''-'' then
            (if s \<noteq> [] \<and> is_ascii_digit (hd s) \<and> \<not> ends_operand previous then number_token (c # s)
             else Inr (Some TkMinus, s))
          else if is_quote_byte c then
            rbind (read_quoted_if_part_string c s) (\<lambda>(v, rest). Inr (Some (TkLiteral (LitString v)), rest))
          else if is_ascii_digit c then number_token (c # s)
          else if is_identifier_start_byte c then
            (case read_if_part_variable_reference (c # s) of (word, rest) \<Rightarrow> Inr (Some (word_token word), rest))
          else Inl (''unsupported token `'' @ [first_byte c] @ ''` in ifPart expression'')))"

section \<open>The tokenizer ends\<close>

lemma span_parts: "dropWhile P s = r \<Longrightarrow> takeWhile P s @ r = s"
  by auto

lemma after_parts [simp]: "fst (after v p) = v @ fst p" "snd (after v p) = snd p"
  by (simp_all add: after_def split: prod.splits)

lemma reference_tail_parts: "fst (reference_tail s) @ snd (reference_tail s) = s"
proof (induction s rule: reference_tail.induct)
  case (2 c s)
  show ?case
  proof (cases s)
    case (Cons d s')
    show ?thesis
    proof (cases "c = CHR ''.'' \<and> is_identifier_start_byte d")
      case True
      then show ?thesis using 2(1) [OF Cons] Cons by (subst (1 2) reference_tail.simps) simp
    next
      case dot: False
      show ?thesis
      proof (cases "c = CHR ''['' \<and> is_ascii_digit d")
        case True
        then show ?thesis
          using 2(2) [OF Cons dot True refl] Cons dot
          by (subst (1 2) reference_tail.simps) (auto simp: Let_def split: list.splits dest: span_parts)
      next
        case False
        then show ?thesis
          using 2(3) [OF Cons dot False] Cons dot
          by (subst (1 2) reference_tail.simps) (auto simp: Let_def split: list.splits dest: span_parts)
      qed
    qed
  qed (simp add: reference_tail.simps)
qed simp

lemma read_reference_parts:
  "fst (read_if_part_variable_reference (c # s)) @ snd (read_if_part_variable_reference (c # s)) = c # s"
  by (simp add: read_if_part_variable_reference_def Let_def reference_tail_parts)

lemma read_quoted_rest: "read_quoted_if_part_string q s = Inr (v, r) \<Longrightarrow> length r < length s"
  by (induction q s arbitrary: v r rule: read_quoted_if_part_string.induct) (fastforce split: if_splits)+

lemma read_number_parts: "read_if_part_number s = Inr (v, r) \<Longrightarrow> v @ r = s \<and> v \<noteq> []"
  by (auto simp: read_if_part_number_def checked_number_def Let_def split: if_splits list.splits dest: span_parts)

lemma next_token_rest:
  assumes "next_token previous c s = Inr (t, r)"
  shows "length r \<le> length s"
proof -
  have "length r \<le> length s" if "read_if_part_variable_reference (c # s) = (w, r)" for w
  proof -
    have "w @ r = c # s" "w \<noteq> []"
      using read_reference_parts [of c s] that by (simp_all add: read_if_part_variable_reference_def after_def split: prod.splits) auto
    then show ?thesis by (cases w) auto
  qed
  moreover have "length r \<le> length s" if "read_if_part_number (c # s) = Inr (v, r)" for v
    using read_number_parts [OF that] by (cases v) auto
  ultimately show ?thesis
    using assms
    by (auto simp: next_token_def number_token_def split: if_splits option.splits sum.splits prod.splits
        dest!: read_quoted_rest)
qed

function tokenize_loop :: "if_part_token list \<Rightarrow> string \<Rightarrow> string + if_part_token list" where
  "tokenize_loop tokens [] = Inr tokens"
| "tokenize_loop tokens (c # s) =
     rbind (next_token (if tokens = [] then None else Some (last tokens)) c s) (\<lambda>(t, rest).
       tokenize_loop (case t of Some token \<Rightarrow> tokens @ [token] | None \<Rightarrow> tokens) rest)"
  by pat_completeness auto
termination
  by (relation "measure (length \<circ> snd)") (auto dest: next_token_rest)

definition tokenize_if_part_expression :: "string \<Rightarrow> string + if_part_token list" where
  "tokenize_if_part_expression expression = tokenize_loop [] expression"

section \<open>Printed expressions\<close>

fun operator_str :: "sentry_if_part_operator \<Rightarrow> string" where
  "operator_str IfEqual = ''==''"
| "operator_str IfNotEqual = ''!=''"
| "operator_str IfGreaterThan = ''>''"
| "operator_str IfGreaterThanOrEqual = ''>=''"
| "operator_str IfLessThan = ''<''"
| "operator_str IfLessThanOrEqual = ''<=''"

definition bool_text :: "bool \<Rightarrow> string" where
  "bool_text b = (if b then ''true'' else ''false'')"

fun literal_str :: "sentry_if_part_literal \<Rightarrow> string" where
  "literal_str (LitBoolean b) = bool_text b"
| "literal_str (LitString s) = in_quotes s"
| "literal_str (LitNumber n) = n"
| "literal_str LitNull = ''null''"
| "literal_str (LitVariable v) = v"

fun expression_to_string :: "sentry_if_part_expression \<Rightarrow> string + string"
and expressions_to_strings :: "sentry_if_part_expression list \<Rightarrow> string + string list" where
  "expression_to_string (PLiteral lit) = Inr (literal_str lit)"
| "expression_to_string (PPropertyAccess obj property) =
     rbind (expression_to_string obj) (\<lambda>obj_str. Inr (obj_str @ ''.'' @ property))"
| "expression_to_string (PIndexAccess obj index) =
     rbind (expression_to_string obj) (\<lambda>obj_str.
     rbind (expression_to_string index) (\<lambda>idx_str. Inr (obj_str @ ''['' @ idx_str @ '']'')))"
| "expression_to_string (PMethodCall obj method args) =
     rbind (expressions_to_strings args) (\<lambda>arg_strs.
       let args_joined = join_with '', '' arg_strs in
       if (method = ''size'' \<or> method = ''length'') \<and> args = [] then
         (case obj of
            Some obj_str \<Rightarrow> Inr (method @ ''('' @ obj_str @ '')'')
          | None \<Rightarrow> Inr (method @ ''('' @ args_joined @ '')''))
       else
         (case obj of
            Some obj_str \<Rightarrow> Inr (obj_str @ ''.'' @ method @ ''('' @ args_joined @ '')'')
          | None \<Rightarrow> Inr (method @ ''('' @ args_joined @ '')'')))"
| "expression_to_string (PArithmetic left operator right) =
     rbind (expression_to_string left) (\<lambda>l. rbind (expression_to_string right) (\<lambda>r.
       Inr (l @ '' '' @ operator @ '' '' @ r)))"
| "expression_to_string (PComparison variable_name operator lit) =
     Inr (variable_name @ '' '' @ operator_str operator @ '' '' @ literal_str lit)"
| "expression_to_string (PLogical operator operands) =
     rbind (expressions_to_strings operands) (\<lambda>strs.
       Inr (join_with (case operator of IfAnd \<Rightarrow> '' && '' | IfOr \<Rightarrow> '' || '') (map (\<lambda>s. ''('' @ s @ '')'') strs)))"
| "expression_to_string (PNot operand) = rbind (expression_to_string operand) (\<lambda>s. Inr (''!('' @ s @ '')''))"
| "expression_to_string (PEmpty _) = Inl ''cannot serialize expression to string representation''"
| "expression_to_string (PContains _ _ _) = Inl ''cannot serialize expression to string representation''"
| "expression_to_string (PStartsWith _ _) = Inl ''cannot serialize expression to string representation''"
| "expression_to_string (PEndsWith _ _) = Inl ''cannot serialize expression to string representation''"
| "expression_to_string (PMatches _ _) = Inl ''cannot serialize expression to string representation''"
| "expression_to_string (PTernary _ _ _) = Inl ''cannot serialize expression to string representation''"
| "expressions_to_strings [] = Inr []"
| "expressions_to_strings (e # es) =
     rbind (expression_to_string e) (\<lambda>s. rbind (expressions_to_strings es) (\<lambda>strs. Inr (s # strs)))"

definition expression_to_literal :: "sentry_if_part_expression \<Rightarrow> string + sentry_if_part_literal" where
  "expression_to_literal e =
     (case e of PLiteral lit \<Rightarrow> Inr lit | _ \<Rightarrow> rbind (expression_to_string e) (\<lambda>s. Inr (LitVariable s)))"

end
