(* ===== verification/Cmmn_If_Part_Parser.thy ===== *)
theory Cmmn_If_Part_Parser
  imports Cmmn_If_Part
begin

text \<open>
  The recursive-descent parser \<open>IfPartParser\<close> of \<open>flowable-cmmn-model/src/lib.rs\<close>, one definition per method over the
  tokens that are left. The methods get \<open>self.parse_expression()\<close> at the current depth as the argument \<open>expr\<close>;
  \<open>parse_expression\<close> ties the knot by recursion on the depth that is left, as the code counts its depth up to the limit.
  Loops take the number of remaining tokens as fuel, \<open>None\<close> stands for its end, and every method is shown to return.
\<close>

section \<open>Results\<close>

type_synonym 'a part = "(string + 'a \<times> if_part_token list) option"

type_synonym expression_parser = "if_part_token list \<Rightarrow> sentry_if_part_expression part"

fun part_bind :: "'a part \<Rightarrow> ('a \<Rightarrow> if_part_token list \<Rightarrow> 'b part) \<Rightarrow> 'b part" where
  "part_bind None f = None"
| "part_bind (Some (Inl e)) f = Some (Inl e)"
| "part_bind (Some (Inr (x, ts))) f = f x ts"

definition refuse :: "string \<Rightarrow> 'a part" where
  "refuse message = Some (Inl message)"

definition accept :: "'a \<Rightarrow> if_part_token list \<Rightarrow> 'a part" where
  "accept x ts = Some (Inr (x, ts))"

text \<open>A result of a function on the expressions read so far.\<close>

definition lift_part :: "string + 'a \<Rightarrow> if_part_token list \<Rightarrow> 'a part" where
  "lift_part r ts = (case r of Inl e \<Rightarrow> Some (Inl e) | Inr x \<Rightarrow> Some (Inr (x, ts)))"

text \<open>\<open>if !self.consume(t) { return Err(message) }\<close>.\<close>

definition expect_token :: "if_part_token \<Rightarrow> string \<Rightarrow> if_part_token list \<Rightarrow> unit part" where
  "expect_token t message ts = (case ts of u # rest \<Rightarrow> if u = t then accept () rest else refuse message | [] \<Rightarrow> refuse message)"

section \<open>Helpers on expressions\<close>

definition boolean_variable_path_expression :: "string \<Rightarrow> sentry_if_part_expression" where
  "boolean_variable_path_expression variable_name = PComparison variable_name IfEqual (LitBoolean True)"

definition ensure_boolean_context :: "sentry_if_part_expression \<Rightarrow> sentry_if_part_expression" where
  "ensure_boolean_context e =
     (case e of
        PLiteral (LitVariable var_name) \<Rightarrow>
          if is_supported_if_part_variable_name var_name then boolean_variable_path_expression var_name else e
      | _ \<Rightarrow> e)"

definition logical_expression :: "sentry_if_part_logical_operator \<Rightarrow> sentry_if_part_expression list \<Rightarrow> sentry_if_part_expression" where
  "logical_expression operator operands = (case operands of [e] \<Rightarrow> e | _ \<Rightarrow> PLogical operator operands)"

definition split_method_call_identifier :: "string \<Rightarrow> string option \<times> string" where
  "split_method_call_identifier identifier =
     (if CHR ''.'' \<in> set identifier
      then (Some (butlast (rev (dropWhile (\<lambda>c. c \<noteq> CHR ''.'') (rev identifier)))), rev (takeWhile (\<lambda>c. c \<noteq> CHR ''.'') (rev identifier)))
      else (None, identifier))"

section \<open>Function arguments\<close>

text \<open>The tokens up to the first terminator or closing bracket outside all brackets.\<close>

fun argument_span :: "if_part_token list \<Rightarrow> nat \<Rightarrow> if_part_token list \<Rightarrow> if_part_token list" where
  "argument_span terminators depth [] = []"
| "argument_span terminators depth (t # ts) =
     (if depth = 0 \<and> t \<in> set terminators then []
      else if t = TkLeftParen \<or> t = TkLeftBracket then t # argument_span terminators (depth + 1) ts
      else if t = TkRightParen \<or> t = TkRightBracket then
        (if depth = 0 then [] else t # argument_span terminators (depth - 1) ts)
      else t # argument_span terminators depth ts)"

definition parse_expression_argument_until :: "expression_parser \<Rightarrow> if_part_token list \<Rightarrow> expression_parser" where
  "parse_expression_argument_until expr terminators ts =
     (let argument = argument_span terminators 0 ts in
      if argument = [] then refuse ''function argument must not be empty''
      else part_bind (expr argument) (\<lambda>e rest.
        if rest \<noteq> [] then refuse ''unexpected trailing tokens in function argument''
        else accept e (drop (length argument) ts)))"

text \<open>The loop \<open>while self.consume(Comma)\<close> over the further arguments of a call.\<close>

primrec argument_loop :: "nat \<Rightarrow> expression_parser \<Rightarrow> sentry_if_part_expression list \<Rightarrow> if_part_token list
    \<Rightarrow> sentry_if_part_expression list part" where
  "argument_loop 0 expr args ts = None"
| "argument_loop (Suc n) expr args ts =
     (case ts of
        TkComma # rest \<Rightarrow>
          part_bind (parse_expression_argument_until expr [TkComma, TkRightParen] rest) (\<lambda>e ts'. argument_loop n expr (args @ [e]) ts')
      | _ \<Rightarrow> accept args ts)"

text \<open>The arguments of a call behind its opening parenthesis, with the closing one.\<close>

definition parse_call_arguments :: "expression_parser \<Rightarrow> if_part_token list \<Rightarrow> sentry_if_part_expression list part" where
  "parse_call_arguments expr ts =
     part_bind
       (if ts \<noteq> [] \<and> hd ts = TkRightParen then accept [] ts
        else part_bind (parse_expression_argument_until expr [TkComma, TkRightParen] ts) (\<lambda>e ts'.
          argument_loop (Suc (length ts')) expr [e] ts'))
       (\<lambda>args ts'. part_bind (expect_token TkRightParen ''expected `)` after method arguments'' ts') (\<lambda>_ rest. accept args rest))"

section \<open>Named functions\<close>

definition advance_path :: "string \<Rightarrow> string \<Rightarrow> if_part_token list \<Rightarrow> string part" where
  "advance_path unsupported missing ts =
     (case ts of
        TkIdentifier value # rest \<Rightarrow>
          if is_supported_if_part_variable_name value then accept value rest else refuse unsupported
      | _ \<Rightarrow> refuse missing)"

text \<open>The tokens are those behind the name; every method begins with the parenthesis it saw there.\<close>

definition parse_empty_function :: "expression_parser" where
  "parse_empty_function ts =
     part_bind (expect_token TkLeftParen ''empty function requires `(`'' ts) (\<lambda>_ ts1.
     part_bind (advance_path ''empty function argument must be a case variable path''
                  ''empty function requires a case variable path argument'' ts1) (\<lambda>variable_name ts2.
     part_bind (expect_token TkRightParen ''empty function supports exactly one variable argument'' ts2) (\<lambda>_ ts3.
       accept (PEmpty variable_name) ts3)))"

definition parse_contains_expectation :: "if_part_token list \<Rightarrow> bool part" where
  "parse_contains_expectation ts =
     (case ts of
        TkEqual # TkLiteral (LitBoolean b) # rest \<Rightarrow> accept b rest
      | TkEqual # _ \<Rightarrow> refuse ''contains function comparison right side must be true or false''
      | TkNotEqual # TkLiteral (LitBoolean b) # rest \<Rightarrow> accept (\<not> b) rest
      | TkNotEqual # _ \<Rightarrow> refuse ''contains function comparison right side must be true or false''
      | _ \<Rightarrow> accept True ts)"

definition parse_contains_function_comparison :: "expression_parser \<Rightarrow> expression_parser" where
  "parse_contains_function_comparison expr ts =
     part_bind (expect_token TkLeftParen ''contains function requires `(`'' ts) (\<lambda>_ ts1.
     part_bind (parse_expression_argument_until expr [TkComma, TkRightParen] ts1) (\<lambda>collection ts2.
     part_bind (lift_part (expression_to_string collection) ts2) (\<lambda>collection_variable_name ts3.
     part_bind (expect_token TkComma ''contains function requires exactly two arguments'' ts3) (\<lambda>_ ts4.
     part_bind (parse_expression_argument_until expr [TkRightParen] ts4) (\<lambda>argument ts5.
     part_bind (lift_part (expression_to_literal argument) ts5) (\<lambda>value ts6.
     part_bind (expect_token TkRightParen ''contains function supports exactly two arguments'' ts6) (\<lambda>_ ts7.
     part_bind (parse_contains_expectation ts7) (\<lambda>expected ts8.
       accept (PContains collection_variable_name value expected) ts8))))))))"

text \<open>The three functions on a path and a quoted text differ in their name and in what they build.\<close>

definition parse_text_function :: "string \<Rightarrow> (string \<Rightarrow> string \<Rightarrow> sentry_if_part_expression) \<Rightarrow> expression_parser" where
  "parse_text_function name build ts =
     part_bind (expect_token TkLeftParen (name @ '' function requires `(`'') ts) (\<lambda>_ ts1.
     part_bind (advance_path (name @ '' first argument must be a case variable path'')
                  (name @ '' first argument must be a case variable path'') ts1) (\<lambda>variable_name ts2.
     part_bind (expect_token TkComma (name @ '' function requires exactly two arguments'') ts2) (\<lambda>_ ts3.
     case ts3 of
       TkLiteral (LitString value) # ts4 \<Rightarrow>
         part_bind (expect_token TkRightParen (name @ '' function supports exactly two arguments'') ts4) (\<lambda>_ ts5.
           accept (build variable_name value) ts5)
     | _ \<Rightarrow> refuse (name @ '' second argument must be a string literal''))))"

definition parse_starts_with_function :: "expression_parser" where
  "parse_starts_with_function = parse_text_function ''startsWith'' PStartsWith"

definition parse_ends_with_function :: "expression_parser" where
  "parse_ends_with_function = parse_text_function ''endsWith'' PEndsWith"

definition parse_matches_function :: "expression_parser" where
  "parse_matches_function = parse_text_function ''matches'' PMatches"

definition parse_sizing_function_operand :: "expression_parser \<Rightarrow> string \<Rightarrow> if_part_token list \<Rightarrow> string part" where
  "parse_sizing_function_operand expr function_name ts =
     part_bind (expect_token TkLeftParen (function_name @ '' function requires `(`'') ts) (\<lambda>_ ts1.
     part_bind (parse_expression_argument_until expr [TkRightParen] ts1) (\<lambda>operand ts2.
     part_bind (lift_part (expression_to_string operand) ts2) (\<lambda>variable_name ts3.
     part_bind (expect_token TkRightParen (function_name @ '' function supports exactly one variable argument'') ts3) (\<lambda>_ ts4.
       accept variable_name ts4))))"

section \<open>Primaries\<close>

text \<open>A name with an opening parenthesis behind it; \<open>ts\<close> begins with that parenthesis.\<close>

definition parse_named_call :: "expression_parser \<Rightarrow> string \<Rightarrow> expression_parser" where
  "parse_named_call expr name ts =
     (if name = ''empty'' then parse_empty_function ts
      else if name = ''contains'' then parse_contains_function_comparison expr ts
      else if name = ''startsWith'' then parse_starts_with_function ts
      else if name = ''endsWith'' then parse_ends_with_function ts
      else if name = ''matches'' then parse_matches_function ts
      else if name = ''size'' \<or> name = ''length'' then
        part_bind (parse_sizing_function_operand expr name ts) (\<lambda>operand rest. accept (PMethodCall (Some operand) name []) rest)
      else part_bind (parse_call_arguments expr (tl ts)) (\<lambda>args rest.
        let (obj, method) = split_method_call_identifier name in accept (PMethodCall obj method args) rest))"

definition parse_primary_base :: "expression_parser \<Rightarrow> expression_parser" where
  "parse_primary_base expr ts =
     (case ts of
        TkLeftParen # ts1 \<Rightarrow>
          part_bind (expr ts1) (\<lambda>e ts2.
          part_bind (expect_token TkRightParen ''parentheses must be balanced in supported ifPart expressions'' ts2) (\<lambda>_ ts3.
            accept e ts3))
      | TkIdentifier name # ts1 \<Rightarrow>
          if ts1 \<noteq> [] \<and> hd ts1 = TkLeftParen then parse_named_call expr name ts1
          else accept (PLiteral (LitVariable name)) ts1
      | TkLiteral lit # ts1 \<Rightarrow> accept (PLiteral lit) ts1
      | _ \<Rightarrow> refuse ''expected literal or identifier'')"

text \<open>The loop over the index, property and method suffixes.\<close>

primrec primary_loop :: "nat \<Rightarrow> expression_parser \<Rightarrow> sentry_if_part_expression \<Rightarrow> expression_parser" where
  "primary_loop 0 expr e ts = None"
| "primary_loop (Suc n) expr e ts =
     (case ts of
        TkLeftBracket # ts1 \<Rightarrow>
          part_bind (expr ts1) (\<lambda>index ts2.
          part_bind (expect_token TkRightBracket ''expected `]` after index expression'' ts2) (\<lambda>_ ts3.
            primary_loop n expr (PIndexAccess e index) ts3))
      | TkDot # TkIdentifier property # ts1 \<Rightarrow>
          if ts1 \<noteq> [] \<and> hd ts1 = TkLeftParen then
            part_bind (lift_part (expression_to_string e) (tl ts1)) (\<lambda>object_str ts2.
            part_bind (parse_call_arguments expr ts2) (\<lambda>args ts3.
              primary_loop n expr (PMethodCall (Some object_str) property args) ts3))
          else primary_loop n expr (PPropertyAccess e property) ts1
      | TkDot # _ \<Rightarrow> refuse ''expected identifier after `.`''
      | _ \<Rightarrow> accept e ts)"

definition parse_primary :: "expression_parser \<Rightarrow> expression_parser" where
  "parse_primary expr ts =
     part_bind (parse_primary_base expr ts) (\<lambda>e rest. primary_loop (Suc (length rest)) expr e rest)"

section \<open>Operators\<close>

definition next_tokens_are_parenthesized_variable_path :: "if_part_token list \<Rightarrow> bool" where
  "next_tokens_are_parenthesized_variable_path ts =
     (case ts of
        TkLeftParen # TkIdentifier variable_name # TkRightParen # _ \<Rightarrow> is_supported_if_part_variable_name variable_name
      | _ \<Rightarrow> False)"

definition parse_parenthesized_boolean_variable_path :: "expression_parser" where
  "parse_parenthesized_boolean_variable_path ts =
     part_bind (advance_path ''not function argument must be a case variable path''
                  ''not function requires a case variable path argument'' (tl ts)) (\<lambda>variable_name ts1.
     part_bind (expect_token TkRightParen ''not function boolean path wrapper supports one argument'' ts1) (\<lambda>_ ts2.
       accept (PComparison variable_name IfEqual (LitBoolean True)) ts2))"

fun parse_unary :: "expression_parser \<Rightarrow> expression_parser"
and parse_not_operand :: "expression_parser \<Rightarrow> expression_parser" where
  "parse_unary expr ts =
     (case ts of
        TkNot # ts' \<Rightarrow> part_bind (parse_not_operand expr ts') (\<lambda>e rest. accept (PNot e) rest)
      | _ \<Rightarrow> parse_primary expr ts)"
| "parse_not_operand expr ts =
     (if next_tokens_are_parenthesized_variable_path ts then parse_parenthesized_boolean_variable_path ts
      else part_bind (parse_unary expr ts) (\<lambda>e rest. accept (ensure_boolean_context e) rest))"

declare parse_unary.simps [simp del] parse_not_operand.simps [simp del]

text \<open>The two loops of left-associative operators: the operators of a level, and its operands.\<close>

fun multiplicative_text :: "if_part_token \<Rightarrow> string option" where
  "multiplicative_text TkMultiply = Some ''*''"
| "multiplicative_text TkDivide = Some ''/''"
| "multiplicative_text TkModulo = Some ''%''"
| "multiplicative_text _ = None"

fun additive_text :: "if_part_token \<Rightarrow> string option" where
  "additive_text TkPlus = Some ''+''"
| "additive_text TkMinus = Some ''-''"
| "additive_text _ = None"

primrec arithmetic_loop :: "nat \<Rightarrow> (if_part_token \<Rightarrow> string option) \<Rightarrow> expression_parser \<Rightarrow> sentry_if_part_expression
    \<Rightarrow> expression_parser" where
  "arithmetic_loop 0 operator operand left ts = None"
| "arithmetic_loop (Suc n) operator operand left ts =
     (case ts of
        t # rest \<Rightarrow>
          (case operator t of
             Some text \<Rightarrow>
               part_bind (operand rest) (\<lambda>right ts'. arithmetic_loop n operator operand (PArithmetic left text right) ts')
           | None \<Rightarrow> accept left ts)
      | [] \<Rightarrow> accept left ts)"

definition parse_multiplicative :: "expression_parser \<Rightarrow> expression_parser" where
  "parse_multiplicative expr ts =
     part_bind (parse_unary expr ts) (\<lambda>left rest.
       arithmetic_loop (Suc (length rest)) multiplicative_text (parse_unary expr) left rest)"

definition parse_additive :: "expression_parser \<Rightarrow> expression_parser" where
  "parse_additive expr ts =
     part_bind (parse_multiplicative expr ts) (\<lambda>left rest.
       arithmetic_loop (Suc (length rest)) additive_text (parse_multiplicative expr) left rest)"

fun comparison_operator_token :: "if_part_token \<Rightarrow> sentry_if_part_operator option" where
  "comparison_operator_token TkEqual = Some IfEqual"
| "comparison_operator_token TkNotEqual = Some IfNotEqual"
| "comparison_operator_token TkGreaterThan = Some IfGreaterThan"
| "comparison_operator_token TkGreaterThanOrEqual = Some IfGreaterThanOrEqual"
| "comparison_operator_token TkLessThan = Some IfLessThan"
| "comparison_operator_token TkLessThanOrEqual = Some IfLessThanOrEqual"
| "comparison_operator_token _ = None"

definition peek_comparison_operator :: "if_part_token list \<Rightarrow> sentry_if_part_operator option" where
  "peek_comparison_operator ts = (case ts of t # _ \<Rightarrow> comparison_operator_token t | [] \<Rightarrow> None)"

definition parse_comparison :: "expression_parser \<Rightarrow> expression_parser" where
  "parse_comparison expr ts =
     part_bind (parse_additive expr ts) (\<lambda>left ts1.
       case peek_comparison_operator ts1 of
         Some op \<Rightarrow>
           part_bind (parse_additive expr (tl ts1)) (\<lambda>right ts2.
           part_bind (lift_part (expression_to_string left) ts2) (\<lambda>var_name ts3.
           part_bind (lift_part (expression_to_literal right) ts3) (\<lambda>lit ts4.
             if lit = LitNull \<and> op \<noteq> IfEqual \<and> op \<noteq> IfNotEqual
             then refuse ''null literal supports only `==` and `!=` comparisons''
             else accept (PComparison var_name op lit) ts4)))
       | None \<Rightarrow> accept left ts1)"

text \<open>The loops of \<open>parse_and\<close> and \<open>parse_or\<close>, which differ in their token and operand.\<close>

primrec logical_loop :: "nat \<Rightarrow> if_part_token \<Rightarrow> expression_parser \<Rightarrow> sentry_if_part_expression list \<Rightarrow> if_part_token list
    \<Rightarrow> sentry_if_part_expression list part" where
  "logical_loop 0 token operand operands ts = None"
| "logical_loop (Suc n) token operand operands ts =
     (case ts of
        t # rest \<Rightarrow>
          if t = token then
            part_bind (operand rest) (\<lambda>e ts'. logical_loop n token operand (operands @ [ensure_boolean_context e]) ts')
          else accept operands ts
      | [] \<Rightarrow> accept operands ts)"

definition parse_logical :: "if_part_token \<Rightarrow> sentry_if_part_logical_operator \<Rightarrow> expression_parser \<Rightarrow> expression_parser" where
  "parse_logical token operator operand ts =
     part_bind (operand ts) (\<lambda>first ts1.
       if ts1 \<noteq> [] \<and> hd ts1 = token then
         part_bind (logical_loop (Suc (length ts1)) token operand [ensure_boolean_context first] ts1) (\<lambda>operands rest.
           accept (logical_expression operator operands) rest)
       else accept first ts1)"

definition parse_and :: "expression_parser \<Rightarrow> expression_parser" where
  "parse_and expr = parse_logical TkAnd IfAnd (parse_comparison expr)"

definition parse_or :: "expression_parser \<Rightarrow> expression_parser" where
  "parse_or expr = parse_logical TkOr IfOr (parse_and expr)"

primrec parse_ternary :: "nat \<Rightarrow> expression_parser \<Rightarrow> expression_parser" where
  "parse_ternary 0 expr ts = None"
| "parse_ternary (Suc n) expr ts =
     part_bind (parse_or expr ts) (\<lambda>condition ts1.
       case ts1 of
         TkQuestion # ts2 \<Rightarrow>
           part_bind (expr ts2) (\<lambda>true_expr ts3.
           part_bind (expect_token TkColon ''ternary expression missing `:`'' ts3) (\<lambda>_ ts4.
           part_bind (parse_ternary n expr ts4) (\<lambda>false_expr ts5.
             accept (PTernary (ensure_boolean_context condition) true_expr false_expr) ts5)))
       | _ \<Rightarrow> accept condition ts1)"

section \<open>Whole expressions\<close>

definition MAX_IF_PART_NESTING_DEPTH :: nat where "MAX_IF_PART_NESTING_DEPTH = 64"

text \<open>The first argument is \<open>MAX_IF_PART_NESTING_DEPTH - self.depth\<close>.\<close>

primrec parse_expression :: "nat \<Rightarrow> expression_parser" where
  "parse_expression 0 = (\<lambda>ts. refuse (''expression nesting exceeds maximum depth of '' @ show_nat MAX_IF_PART_NESTING_DEPTH))"
| "parse_expression (Suc d) = (\<lambda>ts. parse_ternary (Suc (length ts)) (parse_expression d) ts)"

definition parse_tokens :: "string \<Rightarrow> (sentry_if_part_expression \<Rightarrow> sentry_if_part_expression) \<Rightarrow> if_part_token list
    \<Rightarrow> (string + sentry_if_part_expression) option" where
  "parse_tokens trailing finish tokens =
     (case parse_expression MAX_IF_PART_NESTING_DEPTH tokens of
        None \<Rightarrow> None
      | Some (Inl e) \<Rightarrow> Some (Inl e)
      | Some (Inr (e, rest)) \<Rightarrow> if rest \<noteq> [] then Some (Inl trailing) else Some (Inr (finish e)))"

definition parse_supported_if_part_expression :: "string \<Rightarrow> (string + sentry_if_part_expression) option" where
  "parse_supported_if_part_expression expression =
     (case tokenize_if_part_expression expression of
        Inl e \<Rightarrow> Some (Inl e)
      | Inr tokens \<Rightarrow> parse_tokens ''unexpected trailing tokens in ifPart expression'' ensure_boolean_context tokens)"

text \<open>The text without a surrounding \<open>${...}\<close>.\<close>

definition unwrap_expression :: "string \<Rightarrow> string" where
  "unwrap_expression expression =
     (let trimmed = str_trim expression in
      str_trim (case Option.bind (strip_prefix_str ''${'' trimmed) (strip_suffix_str ''}'') of Some v \<Rightarrow> v | None \<Rightarrow> trimmed))"

definition parse_sentry_if_part_expression :: "string \<Rightarrow> (string + sentry_if_part_expression) option" where
  "parse_sentry_if_part_expression expression =
     (let e = unwrap_expression expression in
      map_option (\<lambda>r. case r of
          Inl message \<Rightarrow> Inl (''Unsupported CMMN ifPart condition '' @ in_quotes e @ '': '' @ message)
        | Inr parsed \<Rightarrow> Inr parsed)
        (parse_supported_if_part_expression e))"

definition parse_sentry_value_expression :: "string \<Rightarrow> (string + sentry_if_part_expression) option" where
  "parse_sentry_value_expression expression =
     (case tokenize_if_part_expression (unwrap_expression expression) of
        Inl e \<Rightarrow> Some (Inl e)
      | Inr tokens \<Rightarrow> parse_tokens ''unexpected trailing tokens in expression'' id tokens)"

declare argument_loop.simps(2) [simp del] primary_loop.simps(2) [simp del] arithmetic_loop.simps(2) [simp del]
  logical_loop.simps(2) [simp del] parse_ternary.simps(2) [simp del] parse_expression.simps(2) [simp del]

section \<open>The parser returns\<close>

text \<open>\<open>short n m\<close>: the method returns, and a success leaves fewer than \<open>n\<close> tokens.\<close>

definition short :: "nat \<Rightarrow> 'a part \<Rightarrow> bool" where
  "short n m \<longleftrightarrow> m \<noteq> None \<and> (\<forall>x rest. m = Some (Inr (x, rest)) \<longrightarrow> length rest < n)"

definition progress :: "expression_parser \<Rightarrow> bool" where
  "progress f \<longleftrightarrow> (\<forall>ts. short (length ts) (f ts))"

lemma short_simps [simp]:
  "short n (refuse message)" "short n (accept x ts) \<longleftrightarrow> length ts < n" "length ts < n \<Longrightarrow> short n (lift_part r ts)"
  by (auto simp: short_def refuse_def accept_def lift_part_def split: sum.splits)

lemma short_bind:
  assumes "short k m" "\<And>x rest. length rest < k \<Longrightarrow> short n (f x rest)"
  shows "short n (part_bind m f)"
  using assms by (cases "(m, f)" rule: part_bind.cases) (auto simp: short_def)

lemma short_mono: "short k m \<Longrightarrow> k \<le> n \<Longrightarrow> short n m"
  by (fastforce simp: short_def)

lemma progressD: "progress f \<Longrightarrow> short (length ts) (f ts)"
  by (simp add: progress_def)

lemma expect_short: "short (length ts) (expect_token t message ts)"
  by (cases ts) (simp_all add: expect_token_def)

lemma advance_path_short: "short (length ts) (advance_path unsupported missing ts)"
  by (auto simp: advance_path_def split: list.splits if_part_token.splits)

lemma lift_short: "short (Suc (length ts)) (lift_part r ts)"
  by simp

lemma length_argument_span: "length (argument_span terminators d ts) \<le> length ts"
  by (induction terminators d ts rule: argument_span.induct) auto

lemma argument_short:
  assumes "progress expr"
  shows "short (length ts) (parse_expression_argument_until expr terminators ts)"
proof (cases "argument_span terminators 0 ts = []")
  case False
  then have "0 < length (argument_span terminators 0 ts)" by blast
  moreover have "ts \<noteq> []" using False by (cases ts) auto
  ultimately show ?thesis
    by (auto simp: parse_expression_argument_until_def Let_def False intro!: short_bind [OF progressD [OF assms]])
qed (simp add: parse_expression_argument_until_def)

lemma argument_loop_short:
  assumes "progress expr"
  shows "length ts < n \<Longrightarrow> short (Suc (length ts)) (argument_loop n expr args ts)"
proof (induction n arbitrary: args ts)
  case (Suc n)
  have "short (Suc (length (t # rest))) (part_bind (parse_expression_argument_until expr terminators rest)
          (\<lambda>e. argument_loop n expr (args @ [e])))" if "length (t # rest) < Suc n" for terminators t rest
  proof (rule short_bind [OF argument_short [OF assms]])
    show "short (Suc (length (t # rest))) (argument_loop n expr (args @ [x]) r)" if "length r < length rest" for x r
      using that \<open>length (t # rest) < Suc n\<close> by (intro short_mono [OF Suc.IH]) auto
  qed
  with Suc.prems show ?case by (auto simp: argument_loop.simps split: list.splits if_part_token.splits)
qed simp

lemma call_arguments_short:
  assumes "progress expr"
  shows "short (length ts) (parse_call_arguments expr ts)"
proof -
  have "short (Suc (length ts)) (if ts \<noteq> [] \<and> hd ts = TkRightParen then accept [] ts
      else part_bind (parse_expression_argument_until expr [TkComma, TkRightParen] ts) (\<lambda>e ts'.
          argument_loop (Suc (length ts')) expr [e] ts'))"
    by (auto intro!: short_bind [OF argument_short [OF assms]] short_mono [OF argument_loop_short [OF assms]])
  then show ?thesis
    unfolding parse_call_arguments_def by (rule short_bind) (auto intro!: short_bind [OF expect_short])
qed

lemmas short_steps = short_bind [OF expect_short] short_bind [OF advance_path_short] short_bind [OF lift_short]

lemma expectation_short: "short (Suc (length ts)) (parse_contains_expectation ts)"
  by (auto simp: parse_contains_expectation_def split: list.splits if_part_token.splits sentry_if_part_literal.splits)

lemma named_call_short:
  assumes "progress expr"
  shows "short (length ts) (parse_named_call expr name ts)"
proof -
  have "short (length ts) (parse_empty_function ts)"
    by (auto simp: parse_empty_function_def intro!: short_steps)
  moreover have "short (length ts) (parse_contains_function_comparison expr ts)"
    by (auto simp: parse_contains_function_comparison_def
        intro!: short_steps short_bind [OF argument_short [OF assms]] short_bind [OF expectation_short])
  moreover have "short (length ts) (parse_text_function word build ts)" for word build
    by (auto simp: parse_text_function_def intro!: short_steps split: list.splits if_part_token.splits sentry_if_part_literal.splits)
  moreover have "short (length ts) (parse_sizing_function_operand expr name ts)"
    by (auto simp: parse_sizing_function_operand_def intro!: short_steps short_bind [OF argument_short [OF assms]])
  moreover have "short (length ts) (parse_call_arguments expr (tl ts))"
    by (rule short_mono [OF call_arguments_short [OF assms]]) simp
  ultimately show ?thesis
    by (auto simp: parse_named_call_def parse_starts_with_function_def parse_ends_with_function_def
        parse_matches_function_def Let_def split: prod.splits intro!: short_bind [where k = "length ts"])
qed

lemma primary_base_progress:
  assumes "progress expr"
  shows "progress (parse_primary_base expr)"
  unfolding progress_def parse_primary_base_def
  by (auto split: list.splits if_part_token.splits
      intro!: short_steps short_bind [OF progressD [OF assms]] short_mono [OF named_call_short [OF assms]])

lemma primary_loop_short:
  assumes "progress expr"
  shows "length ts < n \<Longrightarrow> short (Suc (length ts)) (primary_loop n expr e ts)"
proof (induction n arbitrary: e ts)
  case (Suc n)
  have rest: "short k (primary_loop n expr x r)" if "length r < length ts" "length r < k" for x r k
    using that Suc.prems by (intro short_mono [OF Suc.IH]) auto
  show ?case
    by (subst primary_loop.simps) (auto split: list.splits if_part_token.splits
        intro!: short_steps rest short_bind [OF progressD [OF assms]] short_bind [OF call_arguments_short [OF assms]])
qed simp

lemma primary_progress: "progress expr \<Longrightarrow> progress (parse_primary expr)"
  unfolding progress_def [of "parse_primary expr"] parse_primary_def
  by (auto intro!: short_bind [OF progressD [OF primary_base_progress]] short_mono [OF primary_loop_short])

lemma parenthesized_path_short: "short (length ts) (parse_parenthesized_boolean_variable_path ts)"
  by (auto simp: parse_parenthesized_boolean_variable_path_def intro!: short_steps short_mono [OF advance_path_short]
      short_bind [where k = "length ts"])

lemma unary_short:
  assumes "progress expr"
  shows "short (length ts) (parse_unary expr ts)" "short (length ts) (parse_not_operand expr ts)"
  using assms
proof (induction expr ts and expr ts rule: parse_unary_parse_not_operand.induct)
  case (1 expr ts)
  show ?case
  proof (cases "\<exists>rest. ts = TkNot # rest")
    case True
    then obtain rest where "ts = TkNot # rest" by blast
    with 1 show ?thesis by (subst parse_unary.simps) (auto intro!: short_bind [where k = "length rest"])
  next
    case False
    then have "parse_unary expr ts = parse_primary expr ts"
      by (subst parse_unary.simps) (auto split: list.splits if_part_token.splits)
    then show ?thesis using progressD [OF primary_progress [OF 1(2)]] by simp
  qed
next
  case (2 expr ts)
  then show ?case
    by (subst parse_not_operand.simps) (auto intro: parenthesized_path_short intro!: short_bind [where k = "length ts"])
qed

lemma unary_progress: "progress expr \<Longrightarrow> progress (parse_unary expr)"
  unfolding progress_def [of "parse_unary expr"] using unary_short by blast

lemma arithmetic_loop_short:
  assumes "progress operand"
  shows "length ts < n \<Longrightarrow> short (Suc (length ts)) (arithmetic_loop n operator operand left ts)"
proof (induction n arbitrary: left ts)
  case (Suc n)
  have "short k (arithmetic_loop n operator operand x r)" if "length r < length ts" "length r < k" for x r k
    using that Suc.prems by (intro short_mono [OF Suc.IH]) auto
  then show ?case
    by (subst arithmetic_loop.simps) (auto split: list.splits option.splits intro!: short_bind [OF progressD [OF assms]])
qed simp

lemma arithmetic_progress:
  assumes "progress operand"
  shows "progress (\<lambda>ts. part_bind (operand ts) (\<lambda>left rest. arithmetic_loop (Suc (length rest)) operator operand left rest))"
  unfolding progress_def
  by (auto intro!: short_bind [OF progressD [OF assms]] short_mono [OF arithmetic_loop_short [OF assms]])

lemma additive_progress: "progress expr \<Longrightarrow> progress (parse_additive expr)"
  unfolding parse_additive_def [abs_def] parse_multiplicative_def [abs_def]
  by (intro arithmetic_progress unary_progress)

lemma comparison_progress:
  assumes "progress expr"
  shows "progress (parse_comparison expr)"
proof -
  note additive = progressD [OF additive_progress [OF assms]]
  show ?thesis
    unfolding progress_def parse_comparison_def
    by (auto simp: peek_comparison_operator_def split: option.splits list.splits
        intro!: short_bind [OF additive] short_steps)
qed

lemma logical_loop_short:
  assumes "progress operand"
  shows "length ts < n \<Longrightarrow> short (Suc (length ts)) (logical_loop n token operand operands ts)"
proof (induction n arbitrary: operands ts)
  case (Suc n)
  have "short k (logical_loop n token operand xs r)" if "length r < length ts" "length r < k" for xs r k
    using that Suc.prems by (intro short_mono [OF Suc.IH]) auto
  then show ?case
    by (subst logical_loop.simps) (auto split: list.splits intro!: short_bind [OF progressD [OF assms]])
qed simp

lemma logical_progress:
  assumes "progress operand"
  shows "progress (parse_logical token operator operand)"
proof -
  have "short n (part_bind (logical_loop (Suc (length ts)) token operand xs ts)
      (\<lambda>operands rest. accept (logical_expression operator operands) rest))" if "length ts < n" for n xs ts
    using that by (intro short_bind [OF logical_loop_short [OF assms]]) auto
  then show ?thesis
    unfolding progress_def parse_logical_def by (auto intro!: short_bind [OF progressD [OF assms]])
qed

lemma or_progress: "progress expr \<Longrightarrow> progress (parse_or expr)"
  by (simp add: parse_or_def parse_and_def logical_progress comparison_progress)

lemma ternary_short:
  assumes "progress expr"
  shows "length ts < n \<Longrightarrow> short (length ts) (parse_ternary n expr ts)"
proof (induction n arbitrary: ts)
  case (Suc n)
  have rest: "short k (part_bind (parse_ternary n expr r) (\<lambda>e rest. accept (f e) rest))"
    if "length r < length ts" "length r \<le> k" for f r k
    using that Suc.prems by (intro short_bind [OF Suc.IH]) auto
  show ?case
    by (subst parse_ternary.simps) (auto split: list.splits if_part_token.splits
        intro!: short_bind [OF progressD [OF or_progress [OF assms]]] short_bind [OF progressD [OF assms]] short_steps rest)
qed simp

lemma expression_progress: "progress (parse_expression d)"
proof (induction d)
  case 0
  show ?case by (simp add: progress_def)
next
  case (Suc d)
  then show ?case by (simp add: parse_expression.simps progress_def ternary_short [unfolded progress_def])
qed

lemma parse_tokens_returns: "parse_tokens trailing finish tokens \<noteq> None"
  using progressD [OF expression_progress, of tokens MAX_IF_PART_NESTING_DEPTH]
  by (auto simp: parse_tokens_def short_def split: option.splits sum.splits)

text \<open>The fuel of both entry points suffices on every text: no loop or recursion of the parser runs out of it. (The stack of
  the machine is not modelled; chains of negations are not limited by the parser.)\<close>

theorem if_part_parser_returns:
  "(\<exists>r. parse_sentry_if_part_expression s = Some r) \<and> (\<exists>r. parse_sentry_value_expression s = Some r)"
  using parse_tokens_returns
  by (auto simp: parse_sentry_if_part_expression_def parse_sentry_value_expression_def
      parse_supported_if_part_expression_def Let_def split: sum.splits)

end
