(* ===== verification/Cmmn_If_Part_Eval.thy ===== *)
theory Cmmn_If_Part_Eval
  imports Cmmn_If_Part_Parser
begin

text \<open>
  Evaluation of sentry conditions: the expressions of the engine (\<open>flowable-cmmn-engine/src/models.rs\<close>) with their
  conversion from the shared ones, and the evaluator of \<open>runtime.rs\<close>. The engine's enums of operators and literals have
  the variants of the shared enums and are converted one to one; the model uses one type for both.

  An operand of a comparison is kept as text and parsed again when it is evaluated, with a fresh depth. The argument
  \<open>value_of\<close> stands for that evaluation, and \<open>resolve_if_part_value_expression\<close> ties the knot with fuel for the
  number of nested readings. The JSON number reader and printer of \<open>serde_json\<close>, the \<open>regex\<close> crate and the engine's
  \<open>SimpleExpression\<close> are arguments, collected in a record.
\<close>

section \<open>Expressions of the engine\<close>

datatype cmmn_error =
    CmmnValidation string
  | CmmnUnsupportedModel string string
  | CmmnNotFound string
  | CmmnExecution string
  | CmmnConflict string
  | CmmnStorage string
  | CmmnNonUniqueResult string nat

datatype cmmn_sentry_if_part_expression =
    CComparison string sentry_if_part_operator sentry_if_part_literal
  | CLogical sentry_if_part_logical_operator "cmmn_sentry_if_part_expression list"
  | CNot cmmn_sentry_if_part_expression
  | CEmpty string
  | CContains string sentry_if_part_literal bool
  | CStartsWith string string
  | CEndsWith string string
  | CMatches string string
  | CSize string sentry_if_part_operator sentry_if_part_literal
  | CLength string sentry_if_part_operator sentry_if_part_literal
  | CMethodCall "string option" string "cmmn_sentry_if_part_expression list"
  | CArithmetic cmmn_sentry_if_part_expression string cmmn_sentry_if_part_expression
  | CTernary cmmn_sentry_if_part_expression cmmn_sentry_if_part_expression cmmn_sentry_if_part_expression
  | CPropertyAccess cmmn_sentry_if_part_expression string
  | CIndexAccess cmmn_sentry_if_part_expression cmmn_sentry_if_part_expression
  | CLiteral sentry_if_part_literal

definition call_operand :: "string \<Rightarrow> string \<Rightarrow> string option" where
  "call_operand prefix text = Option.bind (strip_prefix_str prefix text) (strip_suffix_str '')'')"

definition lift_comparison :: "string \<Rightarrow> sentry_if_part_operator \<Rightarrow> sentry_if_part_literal \<Rightarrow> cmmn_sentry_if_part_expression" where
  "lift_comparison variable_name operator lit =
     (case call_operand ''size('' variable_name of
        Some stripped \<Rightarrow> CSize stripped operator lit
      | None \<Rightarrow>
     (case call_operand ''length('' variable_name of
        Some stripped \<Rightarrow> CLength stripped operator lit
      | None \<Rightarrow> CComparison variable_name operator lit))"

fun from_shared :: "sentry_if_part_expression \<Rightarrow> cmmn_sentry_if_part_expression" where
  "from_shared (PComparison variable_name operator lit) = lift_comparison variable_name operator lit"
| "from_shared (PLogical operator operands) = CLogical operator (map from_shared operands)"
| "from_shared (PNot operand) = CNot (from_shared operand)"
| "from_shared (PEmpty variable_name) = CEmpty variable_name"
| "from_shared (PContains collection value expected) = CContains collection value expected"
| "from_shared (PStartsWith variable_name prefix) = CStartsWith variable_name prefix"
| "from_shared (PEndsWith variable_name suffix) = CEndsWith variable_name suffix"
| "from_shared (PMatches variable_name regex) = CMatches variable_name regex"
| "from_shared (PMethodCall obj method args) = CMethodCall obj method (map from_shared args)"
| "from_shared (PArithmetic left operator right) = CArithmetic (from_shared left) operator (from_shared right)"
| "from_shared (PTernary condition true_expr false_expr) =
     CTernary (from_shared condition) (from_shared true_expr) (from_shared false_expr)"
| "from_shared (PPropertyAccess obj property) = CPropertyAccess (from_shared obj) property"
| "from_shared (PIndexAccess obj index) = CIndexAccess (from_shared obj) (from_shared index)"
| "from_shared (PLiteral lit) = CLiteral lit"

definition parse_cmmn_if_part :: "string \<Rightarrow> (string + cmmn_sentry_if_part_expression) option" where
  "parse_cmmn_if_part expression = map_option (map_sum id from_shared) (parse_sentry_if_part_expression expression)"

section \<open>Parameters and results\<close>

type_synonym case_variables = "(string \<times> json) list"

record cmmn_lib =
  number_from_text :: "string \<Rightarrow> json_number option"
  json_to_text :: "json \<Rightarrow> string"
  regex_matches :: "string \<Rightarrow> string \<Rightarrow> bool option"
  regex_error :: "string \<Rightarrow> string"
  simple_expression_value :: "string \<Rightarrow> case_variables \<Rightarrow> string option \<Rightarrow> string + json option"

type_synonym 'a outcome = "(cmmn_error + 'a) option"

fun out_bind :: "'a outcome \<Rightarrow> ('a \<Rightarrow> 'b outcome) \<Rightarrow> 'b outcome" where
  "out_bind None f = None"
| "out_bind (Some (Inl e)) f = Some (Inl e)"
| "out_bind (Some (Inr x)) f = f x"

definition out_ok :: "'a \<Rightarrow> 'a outcome" where
  "out_ok x = Some (Inr x)"

section \<open>Variable paths\<close>

definition usize_of_digits :: "string \<Rightarrow> nat option" where
  "usize_of_digits ds = (if decimal_value ds < 2 ^ 64 then Some (nat (decimal_value ds)) else None)"

definition array_get :: "nat \<Rightarrow> json \<Rightarrow> json option" where
  "array_get i v = (case v of JsonArray xs \<Rightarrow> if i < length xs then Some (xs ! i) else None | _ \<Rightarrow> None)"

function resolve_path_tail :: "json \<Rightarrow> string \<Rightarrow> json option" where
  "resolve_path_tail current [] = Some current"
| "resolve_path_tail current (c # s) =
     (if c = CHR ''.'' then
        (case s of
           d # s' \<Rightarrow>
             if is_identifier_start_byte d then
               Option.bind (json_get (d # takeWhile is_identifier_byte s') current) (\<lambda>v.
                 resolve_path_tail v (dropWhile is_identifier_byte s'))
             else None
         | [] \<Rightarrow> None)
      else if c = CHR ''['' then
        (case s of
           d # s' \<Rightarrow>
             if is_ascii_digit d then
               (case dropWhile is_ascii_digit s' of
                  e # r \<Rightarrow>
                    if e = CHR '']'' then
                      Option.bind (usize_of_digits (d # takeWhile is_ascii_digit s')) (\<lambda>i.
                      Option.bind (array_get i current) (\<lambda>v. resolve_path_tail v r))
                    else None
                | [] \<Rightarrow> None)
             else if is_quote_byte d then
               (case dropWhile (key_byte d) s' of
                  e # f # r \<Rightarrow>
                    if e = d \<and> f = CHR '']'' \<and> takeWhile (key_byte d) s' \<noteq> [] then
                      Option.bind (json_get (takeWhile (key_byte d) s') current) (\<lambda>v. resolve_path_tail v r)
                    else None
                | _ \<Rightarrow> None)
             else None
         | [] \<Rightarrow> None)
      else None)"
  by pat_completeness auto
termination
proof (relation "measure (length \<circ> snd)")
  fix current :: json and c :: char and s d s' v
  show "((v, dropWhile is_identifier_byte s'), current, c # s) \<in> measure (length \<circ> snd)" if "s = d # s'"
    using length_dropWhile_le [of is_identifier_byte s'] that by simp
next
  fix current :: json and c :: char and s d s' e r i v
  show "((v, r), current, c # s) \<in> measure (length \<circ> snd)" if "s = d # s'" "dropWhile is_ascii_digit s' = e # r"
    using length_dropWhile_le [of is_ascii_digit s'] that by simp
next
  fix current :: json and c :: char and s d s' e x f r v
  show "((v, r), current, c # s) \<in> measure (length \<circ> snd)"
    if "s = d # s'" "dropWhile (key_byte d) s' = e # x" "x = f # r"
    using length_dropWhile_le [of "key_byte d" s'] that by simp
qed simp

declare resolve_path_tail.simps(2) [simp del]

definition resolve_if_part_variable_path :: "case_variables \<Rightarrow> string \<Rightarrow> json option" where
  "resolve_if_part_variable_path variables variable_name =
     (case variable_name of
        c # s \<Rightarrow>
          if is_identifier_start_byte c then
            Option.bind (map_of variables (c # takeWhile is_identifier_byte s)) (\<lambda>v.
              resolve_path_tail v (dropWhile is_identifier_byte s))
          else None
      | [] \<Rightarrow> None)"

section \<open>Values\<close>

fun as_i64 :: "json \<Rightarrow> int option" where
  "as_i64 (JsonNumber n) = number_as_i64 n"
| "as_i64 _ = None"

fun as_u64 :: "json \<Rightarrow> int option" where
  "as_u64 (JsonNumber n) = number_as_u64 n"
| "as_u64 _ = None"

text \<open>\<open>str::parse::<f64>\<close>: a sign, then a special name or digits with a point and an exponent.\<close>

definition split_sign :: "string \<Rightarrow> bool \<times> string" where
  "split_sign s =
     (case s of
        c # r \<Rightarrow> if c = CHR ''-'' then (True, r) else if c = CHR ''+'' then (False, r) else (False, s)
      | [] \<Rightarrow> (False, s))"

definition parse_exponent :: "string \<Rightarrow> int option" where
  "parse_exponent s =
     (case s of
        [] \<Rightarrow> Some 0
      | c # r \<Rightarrow>
          (let (negative, ds) = split_sign r in
           if (c = CHR ''e'' \<or> c = CHR ''E'') \<and> ds \<noteq> [] \<and> list_all is_ascii_digit ds
           then Some (if negative then - decimal_value ds else decimal_value ds) else None))"

definition ten_to :: "int \<Rightarrow> rat" where
  "ten_to k = (if 0 \<le> k then 10 ^ nat k else 1 / 10 ^ nat (- k))"

definition parse_unsigned_f64 :: "bool \<Rightarrow> string \<Rightarrow> f64 option" where
  "parse_unsigned_f64 negative s =
     (let whole = takeWhile is_ascii_digit s; r = dropWhile is_ascii_digit s;
          (fraction, r') = (case r of
             c # t \<Rightarrow> if c = CHR ''.'' then (takeWhile is_ascii_digit t, dropWhile is_ascii_digit t) else ([], r)
           | [] \<Rightarrow> ([], r))
      in if whole = [] \<and> fraction = [] then None
         else map_option (\<lambda>k. let v = of_int (decimal_value (whole @ fraction)) * ten_to (k - int (length fraction))
                              in f64_round negative (if negative then - v else v)) (parse_exponent r'))"

definition parse_f64_text :: "string \<Rightarrow> f64 option" where
  "parse_f64_text s =
     (let (negative, r) = split_sign s; w = to_ascii_lowercase r in
      if w = ''inf'' \<or> w = ''infinity'' then Some (f64_infinity negative)
      else if w = ''nan'' then Some f64_nan
      else parse_unsigned_f64 negative r)"

definition parse_i64_text :: "string \<Rightarrow> int option" where
  "parse_i64_text s =
     (let (negative, ds) = split_sign s; v = (if negative then - decimal_value ds else decimal_value ds)
      in if ds \<noteq> [] \<and> list_all is_ascii_digit ds \<and> - (2 ^ 63) \<le> v \<and> v < 2 ^ 63 then Some v else None)"

datatype if_part_comparable_value = ComparableNull | ComparableBoolean bool | ComparableString string | ComparableNumber f64

text \<open>The derived equality, with the equality of floats.\<close>

fun comparable_eq :: "if_part_comparable_value option \<Rightarrow> if_part_comparable_value option \<Rightarrow> bool" where
  "comparable_eq (Some (ComparableNumber a)) (Some (ComparableNumber b)) = f64_eq a b"
| "comparable_eq a b = (a = b)"

fun json_value_to_if_part_comparable :: "json option \<Rightarrow> if_part_comparable_value option" where
  "json_value_to_if_part_comparable None = Some ComparableNull"
| "json_value_to_if_part_comparable (Some JsonNull) = Some ComparableNull"
| "json_value_to_if_part_comparable (Some (JsonBool b)) = Some (ComparableBoolean b)"
| "json_value_to_if_part_comparable (Some (JsonString s)) = Some (ComparableString s)"
| "json_value_to_if_part_comparable (Some (JsonNumber n)) = map_option ComparableNumber (as_f64 (JsonNumber n))"
| "json_value_to_if_part_comparable (Some _) = None"

definition json_value_to_string_operand :: "cmmn_lib \<Rightarrow> json \<Rightarrow> string" where
  "json_value_to_string_operand lib v =
     (case v of JsonNull \<Rightarrow> [] | JsonBool b \<Rightarrow> bool_text b | JsonString s \<Rightarrow> s | _ \<Rightarrow> json_to_text lib v)"

fun if_part_size :: "json \<Rightarrow> nat option" where
  "if_part_size (JsonString s) = Some (length s)"
| "if_part_size (JsonArray xs) = Some (length xs)"
| "if_part_size (JsonObject entries) = Some (length entries)"
| "if_part_size _ = None"

definition if_part_length :: "json \<Rightarrow> nat option" where
  "if_part_length v = if_part_size v"

fun is_truthy :: "json \<Rightarrow> bool" where
  "is_truthy JsonNull = False"
| "is_truthy (JsonBool b) = b"
| "is_truthy (JsonNumber n) =
     ((case as_f64 (JsonNumber n) of Some f \<Rightarrow> \<not> f64_eq f (f64_zero False) | None \<Rightarrow> False)
      \<or> (case number_as_i64 n of Some i \<Rightarrow> i \<noteq> 0 | None \<Rightarrow> False))"
| "is_truthy (JsonString s) = (s \<noteq> [])"
| "is_truthy (JsonArray xs) = (xs \<noteq> [])"
| "is_truthy (JsonObject entries) = (entries \<noteq> [])"

fun if_part_variable_is_empty :: "json option \<Rightarrow> bool" where
  "if_part_variable_is_empty None = True"
| "if_part_variable_is_empty (Some JsonNull) = True"
| "if_part_variable_is_empty (Some (JsonString s)) = (s = [])"
| "if_part_variable_is_empty (Some (JsonArray xs)) = (xs = [])"
| "if_part_variable_is_empty (Some (JsonObject entries)) = (entries = [])"
| "if_part_variable_is_empty (Some _) = False"

fun if_part_contains :: "json option \<Rightarrow> json option \<Rightarrow> bool" where
  "if_part_contains (Some (JsonString source)) (Some (JsonString needle)) = str_contains needle source"
| "if_part_contains (Some (JsonArray items)) (Some needle) = json_contains items needle"
| "if_part_contains (Some (JsonObject entries)) (Some (JsonString key)) = (key \<in> fst ` set entries)"
| "if_part_contains _ _ = False"

fun if_part_number_compare :: "if_part_comparable_value option \<Rightarrow> if_part_comparable_value option \<Rightarrow> int option" where
  "if_part_number_compare (Some (ComparableNumber a)) (Some (ComparableNumber b)) =
     Some (if f64_less a b then - 1 else if f64_less b a then 1 else 0)"
| "if_part_number_compare _ _ = None"

fun compare_numbers :: "int \<Rightarrow> sentry_if_part_operator \<Rightarrow> int \<Rightarrow> bool" where
  "compare_numbers actual IfEqual expected = (actual = expected)"
| "compare_numbers actual IfNotEqual expected = (actual \<noteq> expected)"
| "compare_numbers actual IfGreaterThan expected = (expected < actual)"
| "compare_numbers actual IfGreaterThanOrEqual expected = (expected \<le> actual)"
| "compare_numbers actual IfLessThan expected = (actual < expected)"
| "compare_numbers actual IfLessThanOrEqual expected = (actual \<le> expected)"

text \<open>The last step of \<open>evaluate_if_part_comparison\<close>.\<close>

definition compare_operands :: "if_part_comparable_value option \<Rightarrow> sentry_if_part_operator \<Rightarrow> if_part_comparable_value option \<Rightarrow> bool" where
  "compare_operands actual operator expected =
     (let ordering = if_part_number_compare actual expected in
      case operator of
        IfEqual \<Rightarrow> comparable_eq actual expected
      | IfNotEqual \<Rightarrow> \<not> comparable_eq actual expected
      | IfGreaterThan \<Rightarrow> (case ordering of Some i \<Rightarrow> 0 < i | None \<Rightarrow> False)
      | IfGreaterThanOrEqual \<Rightarrow> (case ordering of Some i \<Rightarrow> 0 \<le> i | None \<Rightarrow> False)
      | IfLessThan \<Rightarrow> (case ordering of Some i \<Rightarrow> i < 0 | None \<Rightarrow> False)
      | IfLessThanOrEqual \<Rightarrow> (case ordering of Some i \<Rightarrow> i \<le> 0 | None \<Rightarrow> False))"

definition f64_rem :: "f64 \<Rightarrow> f64 \<Rightarrow> f64" where
  "f64_rem a b =
     (if f64_is_nan a \<or> f64_is_nan b \<or> f64_is_infinite a \<or> (f64_is_finite b \<and> f64_value b = 0) then f64_nan
      else if f64_is_infinite b then a
      else f64_round (f64_sign a) (f64_value a - of_int (trunc_rat (f64_value a / f64_value b)) * f64_value b))"

definition numeric_operand :: "json \<Rightarrow> f64" where
  "numeric_operand v =
     (case as_f64 v of Some f \<Rightarrow> f | None \<Rightarrow> (case as_i64 v of Some i \<Rightarrow> f64_of_int i | None \<Rightarrow> f64_zero False))"

definition is_json_string :: "json \<Rightarrow> bool" where
  "is_json_string v = (case v of JsonString _ \<Rightarrow> True | _ \<Rightarrow> False)"

definition evaluate_arithmetic :: "cmmn_lib \<Rightarrow> string \<Rightarrow> json \<Rightarrow> json \<Rightarrow> json" where
  "evaluate_arithmetic lib operator l r =
     (if operator = ''+'' \<and> (is_json_string l \<or> is_json_string r)
      then JsonString (json_value_to_string_operand lib l @ json_value_to_string_operand lib r)
      else
        (let a = numeric_operand l; b = numeric_operand r;
             result = (if operator = ''+'' then f64_add a b
                       else if operator = ''-'' then f64_sub a b
                       else if operator = ''*'' then f64_mul a b
                       else if operator = ''/'' \<and> \<not> f64_eq b (f64_zero False) then f64_div a b
                       else if operator = ''%'' \<and> \<not> f64_eq b (f64_zero False) then f64_rem a b
                       else f64_zero False)
         in JsonNumber (if f64_is_finite result then JsonFloat result else PosInt 0)))"

definition json_index :: "json \<Rightarrow> json \<Rightarrow> json" where
  "json_index obj index =
     (case (case as_u64 index of
              Some i \<Rightarrow> array_get (nat i) obj
            | None \<Rightarrow>
            (case as_i64 index of
              Some i \<Rightarrow> if 0 \<le> i then array_get (nat i) obj else None
            | None \<Rightarrow> Option.bind (as_str index) (\<lambda>key. json_get key obj))) of
        Some v \<Rightarrow> v | None \<Rightarrow> JsonNull)"

section \<open>Operands\<close>

definition resolve_if_part_literal_value :: "cmmn_lib \<Rightarrow> case_variables \<Rightarrow> sentry_if_part_literal \<Rightarrow> json option" where
  "resolve_if_part_literal_value lib variables lit =
     (case lit of
        LitBoolean b \<Rightarrow> Some (JsonBool b)
      | LitString s \<Rightarrow> Some (JsonString s)
      | LitNumber n \<Rightarrow> map_option JsonNumber (number_from_text lib n)
      | LitNull \<Rightarrow> Some JsonNull
      | LitVariable name \<Rightarrow> resolve_if_part_variable_path variables name)"

definition resolve_if_part_literal_number :: "case_variables \<Rightarrow> sentry_if_part_literal \<Rightarrow> int" where
  "resolve_if_part_literal_number variables lit =
     (case (case lit of
              LitNumber n \<Rightarrow> parse_i64_text n
            | LitVariable name \<Rightarrow> Option.bind (resolve_if_part_variable_path variables name) as_i64
            | _ \<Rightarrow> None) of
        Some i \<Rightarrow> i | None \<Rightarrow> 0)"

type_synonym value_reader = "string \<Rightarrow> json outcome"

definition resolve_if_part_path_or_value_expression :: "value_reader \<Rightarrow> case_variables \<Rightarrow> value_reader" where
  "resolve_if_part_path_or_value_expression value_of variables expression =
     (case resolve_if_part_variable_path variables expression of
        Some v \<Rightarrow> out_ok v
      | None \<Rightarrow> value_of expression)"

definition resolve_if_part_literal_value_expression :: "value_reader \<Rightarrow> sentry_if_part_literal \<Rightarrow> json option outcome" where
  "resolve_if_part_literal_value_expression value_of lit =
     (case lit of LitVariable expression \<Rightarrow> out_bind (value_of expression) (\<lambda>v. out_ok (Some v)) | _ \<Rightarrow> out_ok None)"

definition resolve_if_part_comparison_operand :: "value_reader \<Rightarrow> case_variables \<Rightarrow> string \<Rightarrow> if_part_comparable_value option outcome" where
  "resolve_if_part_comparison_operand value_of variables operand =
     (case call_operand ''size('' operand of
        Some name \<Rightarrow>
          out_bind (resolve_if_part_path_or_value_expression value_of variables name) (\<lambda>v.
            out_ok (map_option (\<lambda>n. ComparableNumber (f64_of_int (int n))) (if_part_size v)))
      | None \<Rightarrow>
     (case call_operand ''length('' operand of
        Some name \<Rightarrow>
          out_bind (resolve_if_part_path_or_value_expression value_of variables name) (\<lambda>v.
            out_ok (map_option (\<lambda>n. ComparableNumber (f64_of_int (int n))) (if_part_length v)))
      | None \<Rightarrow>
     (case resolve_if_part_variable_path variables operand of
        Some v \<Rightarrow> out_ok (json_value_to_if_part_comparable (Some v))
      | None \<Rightarrow> out_bind (value_of operand) (\<lambda>v. out_ok (json_value_to_if_part_comparable (Some v))))))"

definition resolve_if_part_literal :: "value_reader \<Rightarrow> case_variables \<Rightarrow> sentry_if_part_literal \<Rightarrow> if_part_comparable_value option outcome" where
  "resolve_if_part_literal value_of variables lit =
     (case lit of
        LitBoolean b \<Rightarrow> out_ok (Some (ComparableBoolean b))
      | LitString s \<Rightarrow> out_ok (Some (ComparableString s))
      | LitNumber n \<Rightarrow> out_ok (map_option ComparableNumber (parse_f64_text n))
      | LitNull \<Rightarrow> out_ok (Some ComparableNull)
      | LitVariable name \<Rightarrow>
          (case resolve_if_part_variable_path variables name of
             Some v \<Rightarrow> out_ok (json_value_to_if_part_comparable (Some v))
           | None \<Rightarrow> out_bind (value_of name) (\<lambda>v. out_ok (json_value_to_if_part_comparable (Some v)))))"

definition evaluate_if_part_comparison :: "value_reader \<Rightarrow> case_variables \<Rightarrow> string \<Rightarrow> sentry_if_part_operator
    \<Rightarrow> sentry_if_part_literal \<Rightarrow> bool outcome" where
  "evaluate_if_part_comparison value_of variables variable_name operator lit =
     out_bind (resolve_if_part_comparison_operand value_of variables variable_name) (\<lambda>actual.
     out_bind (resolve_if_part_literal value_of variables lit) (\<lambda>expected.
       out_ok (compare_operands actual operator expected)))"

definition evaluate_sized :: "value_reader \<Rightarrow> case_variables \<Rightarrow> (json \<Rightarrow> nat option) \<Rightarrow> string \<Rightarrow> sentry_if_part_operator
    \<Rightarrow> sentry_if_part_literal \<Rightarrow> bool outcome" where
  "evaluate_sized value_of variables measure_of name operator lit =
     out_bind (resolve_if_part_path_or_value_expression value_of variables name) (\<lambda>v.
       out_ok (compare_numbers (int (case measure_of v of Some n \<Rightarrow> n | None \<Rightarrow> 0)) operator
               (resolve_if_part_literal_number variables lit)))"

definition evaluate_contains :: "value_reader \<Rightarrow> cmmn_lib \<Rightarrow> case_variables \<Rightarrow> string \<Rightarrow> sentry_if_part_literal \<Rightarrow> bool
    \<Rightarrow> bool outcome" where
  "evaluate_contains value_of lib variables collection value expected =
     out_bind (resolve_if_part_path_or_value_expression value_of variables collection) (\<lambda>c.
     out_bind (case resolve_if_part_literal_value lib variables value of
                 Some v \<Rightarrow> out_ok (Some v)
               | None \<Rightarrow> resolve_if_part_literal_value_expression value_of value) (\<lambda>v.
       out_ok (if_part_contains (Some c) v = expected)))"

definition evaluate_method_call :: "value_reader \<Rightarrow> case_variables \<Rightarrow> string option \<Rightarrow> string \<Rightarrow> json outcome" where
  "evaluate_method_call value_of variables obj method =
     (if method = ''size'' \<or> method = ''length'' then
        (case obj of
           Some name \<Rightarrow>
             out_bind (resolve_if_part_path_or_value_expression value_of variables name) (\<lambda>v.
               out_ok (json_of_usize (case if_part_size v of Some n \<Rightarrow> n | None \<Rightarrow> 0)))
         | None \<Rightarrow> out_ok (json_of_usize 0))
      else
        case resolve_if_part_variable_path variables (case obj of Some name \<Rightarrow> name @ ''.'' @ method | None \<Rightarrow> method) of
          Some v \<Rightarrow> out_ok v
        | None \<Rightarrow>
            (case Option.bind obj (\<lambda>name. Option.bind (resolve_if_part_variable_path variables name) (json_get method)) of
               Some v \<Rightarrow> out_ok v
             | None \<Rightarrow> out_ok JsonNull))"

definition on_string :: "json option \<Rightarrow> (string \<Rightarrow> bool) \<Rightarrow> bool" where
  "on_string v f = (case v of Some (JsonString s) \<Rightarrow> f s | _ \<Rightarrow> False)"

section \<open>The evaluator\<close>

definition MAX_IF_PART_EVAL_DEPTH :: nat where "MAX_IF_PART_EVAL_DEPTH = 64"

definition eval_depth_error :: cmmn_error where
  "eval_depth_error =
     CmmnExecution (''ifPart expression evaluation exceeds maximum depth of '' @ show_nat MAX_IF_PART_EVAL_DEPTH)"

primrec all_operands :: "('a \<Rightarrow> bool outcome) \<Rightarrow> 'a list \<Rightarrow> bool outcome" where
  "all_operands f [] = out_ok True"
| "all_operands f (e # es) = out_bind (f e) (\<lambda>b. if b then all_operands f es else out_ok False)"

primrec any_operand :: "('a \<Rightarrow> bool outcome) \<Rightarrow> 'a list \<Rightarrow> bool outcome" where
  "any_operand f [] = out_ok False"
| "any_operand f (e # es) = out_bind (f e) (\<lambda>b. if b then out_ok True else any_operand f es)"

text \<open>The depth argument is \<open>MAX_IF_PART_EVAL_DEPTH - depth\<close>.\<close>

fun evaluate_to_bool_depth :: "value_reader \<Rightarrow> cmmn_lib \<Rightarrow> case_variables \<Rightarrow> nat \<Rightarrow> cmmn_sentry_if_part_expression \<Rightarrow> bool outcome"
and evaluate_to_json_value_depth :: "value_reader \<Rightarrow> cmmn_lib \<Rightarrow> case_variables \<Rightarrow> nat \<Rightarrow> cmmn_sentry_if_part_expression
    \<Rightarrow> json outcome" where
  "evaluate_to_bool_depth value_of lib variables 0 expression = Some (Inl eval_depth_error)"
| "evaluate_to_bool_depth value_of lib variables (Suc d) expression =
     (case expression of
        CComparison variable_name operator lit \<Rightarrow> evaluate_if_part_comparison value_of variables variable_name operator lit
      | CLogical operator operands \<Rightarrow>
          (case operator of
             IfAnd \<Rightarrow> all_operands (evaluate_to_bool_depth value_of lib variables d) operands
           | IfOr \<Rightarrow> any_operand (evaluate_to_bool_depth value_of lib variables d) operands)
      | CNot operand \<Rightarrow> out_bind (evaluate_to_bool_depth value_of lib variables d operand) (\<lambda>b. out_ok (\<not> b))
      | CEmpty variable_name \<Rightarrow> out_ok (if_part_variable_is_empty (resolve_if_part_variable_path variables variable_name))
      | CContains collection value expected \<Rightarrow> evaluate_contains value_of lib variables collection value expected
      | CStartsWith variable_name prefix \<Rightarrow>
          out_ok (on_string (resolve_if_part_variable_path variables variable_name) (str_starts_with prefix))
      | CEndsWith variable_name suffix \<Rightarrow>
          out_ok (on_string (resolve_if_part_variable_path variables variable_name) (\<lambda>s. strip_suffix_str suffix s \<noteq> None))
      | CMatches variable_name regex \<Rightarrow>
          out_ok (on_string (resolve_if_part_variable_path variables variable_name) (\<lambda>s.
                  case regex_matches lib regex s of Some b \<Rightarrow> b | None \<Rightarrow> False))
      | CSize collection operator lit \<Rightarrow> evaluate_sized value_of variables if_part_size collection operator lit
      | CLength variable_name operator lit \<Rightarrow> evaluate_sized value_of variables if_part_length variable_name operator lit
      | _ \<Rightarrow> out_bind (evaluate_to_json_value_depth value_of lib variables d expression) (\<lambda>v. out_ok (is_truthy v)))"
| "evaluate_to_json_value_depth value_of lib variables 0 expression = Some (Inl eval_depth_error)"
| "evaluate_to_json_value_depth value_of lib variables (Suc d) expression =
     (case expression of
        CLiteral lit \<Rightarrow>
          out_ok (case resolve_if_part_literal_value lib variables lit of Some v \<Rightarrow> v | None \<Rightarrow> JsonNull)
      | CMethodCall obj method args \<Rightarrow> evaluate_method_call value_of variables obj method
      | CArithmetic left operator right \<Rightarrow>
          out_bind (evaluate_to_json_value_depth value_of lib variables d left) (\<lambda>l.
          out_bind (evaluate_to_json_value_depth value_of lib variables d right) (\<lambda>r.
            out_ok (evaluate_arithmetic lib operator l r)))
      | CTernary condition true_expr false_expr \<Rightarrow>
          out_bind (evaluate_to_bool_depth value_of lib variables d condition) (\<lambda>cond.
            evaluate_to_json_value_depth value_of lib variables d (if cond then true_expr else false_expr))
      | CPropertyAccess obj property \<Rightarrow>
          out_bind (evaluate_to_json_value_depth value_of lib variables d obj) (\<lambda>v.
            out_ok (case json_get property v of Some w \<Rightarrow> w | None \<Rightarrow> JsonNull))
      | CIndexAccess obj index \<Rightarrow>
          out_bind (evaluate_to_json_value_depth value_of lib variables d obj) (\<lambda>v.
          out_bind (evaluate_to_json_value_depth value_of lib variables d index) (\<lambda>i. out_ok (json_index v i)))
      | _ \<Rightarrow> out_bind (evaluate_to_bool_depth value_of lib variables d expression) (\<lambda>b. out_ok (JsonBool b)))"

declare evaluate_to_bool_depth.simps(2) [simp del] evaluate_to_json_value_depth.simps(2) [simp del]

text \<open>The first argument bounds the number of nested readings.\<close>

primrec resolve_if_part_value_expression :: "nat \<Rightarrow> cmmn_lib \<Rightarrow> case_variables \<Rightarrow> value_reader" where
  "resolve_if_part_value_expression 0 lib variables = (\<lambda>expression. None)"
| "resolve_if_part_value_expression (Suc n) lib variables = (\<lambda>expression.
     (case parse_sentry_value_expression expression of
        None \<Rightarrow> None
      | Some (Inl message) \<Rightarrow> Some (Inl (CmmnExecution message))
      | Some (Inr parsed) \<Rightarrow>
          evaluate_to_json_value_depth (resolve_if_part_value_expression n lib variables) lib variables
            MAX_IF_PART_EVAL_DEPTH (from_shared parsed)))"

declare resolve_if_part_value_expression.simps(2) [simp del]

definition evaluate_to_json_value :: "nat \<Rightarrow> cmmn_lib \<Rightarrow> case_variables \<Rightarrow> cmmn_sentry_if_part_expression \<Rightarrow> json outcome" where
  "evaluate_to_json_value n lib variables expression =
     evaluate_to_json_value_depth (resolve_if_part_value_expression n lib variables) lib variables MAX_IF_PART_EVAL_DEPTH expression"

definition evaluate_to_bool :: "nat \<Rightarrow> cmmn_lib \<Rightarrow> case_variables \<Rightarrow> cmmn_sentry_if_part_expression \<Rightarrow> bool outcome" where
  "evaluate_to_bool n lib variables expression =
     evaluate_to_bool_depth (resolve_if_part_value_expression n lib variables) lib variables MAX_IF_PART_EVAL_DEPTH expression"

definition evaluate_if_part_condition :: "nat \<Rightarrow> cmmn_lib \<Rightarrow> cmmn_sentry_if_part_expression \<Rightarrow> case_variables \<Rightarrow> bool outcome" where
  "evaluate_if_part_condition n lib expression variables = evaluate_to_bool n lib variables expression"

section \<open>Raw expressions of plan items\<close>

definition is_uel_expression :: "string \<Rightarrow> bool" where
  "is_uel_expression expression =
     (let trimmed = str_trim expression in str_starts_with ''${'' trimmed \<and> strip_suffix_str ''}'' trimmed \<noteq> None)"

definition evaluate_available_condition_expression :: "nat \<Rightarrow> cmmn_lib \<Rightarrow> string \<Rightarrow> case_variables \<Rightarrow> string option \<Rightarrow> bool outcome" where
  "evaluate_available_condition_expression n lib expression variables tenant_id =
     (let trimmed = str_trim expression in
      if is_uel_expression trimmed then
        (case simple_expression_value lib trimmed variables tenant_id of
           Inl e \<Rightarrow> Some (Inl (CmmnExecution (''availableCondition '' @ in_quotes trimmed @ '' failed: '' @ e)))
         | Inr v \<Rightarrow> out_ok (v = Some (JsonBool True)))
      else
        (case parse_cmmn_if_part trimmed of
           None \<Rightarrow> None
         | Some (Inl _) \<Rightarrow> out_ok False
         | Some (Inr parsed) \<Rightarrow>
             (case evaluate_if_part_condition n lib parsed variables of
                None \<Rightarrow> None
              | Some r \<Rightarrow> out_ok (r = Inr True))))"

definition resolve_el_or_literal_string :: "cmmn_lib \<Rightarrow> string option \<Rightarrow> case_variables \<Rightarrow> string option \<Rightarrow> cmmn_error + string option" where
  "resolve_el_or_literal_string lib raw variables tenant_id =
     (case raw of
        None \<Rightarrow> Inr None
      | Some text \<Rightarrow>
          (let r = str_trim text in
           if r = [] then Inr None
           else if \<not> is_uel_expression r then Inr (Some r)
           else case simple_expression_value lib r variables tenant_id of
             Inl e \<Rightarrow> Inl (CmmnExecution (''Expression '' @ in_quotes r @ '' failed: '' @ e))
           | Inr v \<Rightarrow>
               Inr (case v of
                 Some (JsonString s) \<Rightarrow> Some s
               | Some (JsonBool b) \<Rightarrow> Some (bool_text b)
               | Some JsonNull \<Rightarrow> None
               | None \<Rightarrow> None
               | Some w \<Rightarrow> Some (json_to_text lib w))))"

fun split_commas :: "string \<Rightarrow> string \<Rightarrow> string list" where
  "split_commas piece [] = [piece]"
| "split_commas piece (c # s) = (if c = CHR '','' then piece # split_commas [] s else split_commas (piece @ [c]) s)"

fun resolve_candidate_list :: "cmmn_lib \<Rightarrow> string list \<Rightarrow> case_variables \<Rightarrow> string option \<Rightarrow> cmmn_error + string list" where
  "resolve_candidate_list lib [] variables tenant_id = Inr []"
| "resolve_candidate_list lib (entry # entries) variables tenant_id =
     (let trimmed = str_trim entry in
      if trimmed = [] then resolve_candidate_list lib entries variables tenant_id
      else
        rbind (if is_uel_expression trimmed then
                 rbind (resolve_el_or_literal_string lib (Some trimmed) variables tenant_id) (\<lambda>v.
                   Inr (case v of
                          Some value \<Rightarrow> filter (\<lambda>part. part \<noteq> []) (map str_trim (split_commas [] value))
                        | None \<Rightarrow> []))
               else Inr [trimmed]) (\<lambda>parts.
        rbind (resolve_candidate_list lib entries variables tenant_id) (\<lambda>rest. Inr (parts @ rest))))"

end
