(* ===== verification/Cmmn_If_Part_Texts.thy ===== *)
theory Cmmn_If_Part_Texts
  imports Cmmn_If_Part_Eval
begin

text \<open>
  The texts of sentry conditions: variable paths as a base name with steps, against which the three scanners of the code
  (the name check, the tokenizer and the lookup) are proved, and the tokens of printed operands.
\<close>

section \<open>Paths\<close>

datatype path_step = StepProperty string | StepIndex string | StepKey char string

definition identifier_text :: "string \<Rightarrow> bool" where
  "identifier_text s \<longleftrightarrow> (case s of c # r \<Rightarrow> is_identifier_start_byte c \<and> list_all is_identifier_byte r | [] \<Rightarrow> False)"

fun step_ok :: "path_step \<Rightarrow> bool" where
  "step_ok (StepProperty p) = identifier_text p"
| "step_ok (StepIndex ds) = (ds \<noteq> [] \<and> list_all is_ascii_digit ds)"
| "step_ok (StepKey q k) = (is_quote_byte q \<and> k \<noteq> [] \<and> list_all (key_byte q) k)"

fun render_step :: "path_step \<Rightarrow> string" where
  "render_step (StepProperty p) = ''.'' @ p"
| "render_step (StepIndex ds) = ''['' @ ds @ '']''"
| "render_step (StepKey q k) = ''['' @ [q] @ k @ [q] @ '']''"

definition render_steps :: "path_step list \<Rightarrow> string" where
  "render_steps steps = concat (map render_step steps)"

definition variable_path_ok :: "string \<Rightarrow> path_step list \<Rightarrow> bool" where
  "variable_path_ok base steps \<longleftrightarrow> identifier_text base \<and> list_all step_ok steps"

text \<open>What a step selects.\<close>

fun follow_step :: "path_step \<Rightarrow> json \<Rightarrow> json option" where
  "follow_step (StepProperty p) v = json_get p v"
| "follow_step (StepIndex ds) v = Option.bind (usize_of_digits ds) (\<lambda>i. array_get i v)"
| "follow_step (StepKey q k) v = json_get k v"

fun follow_steps :: "path_step list \<Rightarrow> json \<Rightarrow> json option" where
  "follow_steps [] v = Some v"
| "follow_steps (step # steps) v = Option.bind (follow_step step v) (follow_steps steps)"

section \<open>Scanning\<close>

definition ends_with :: "(char \<Rightarrow> bool) \<Rightarrow> string \<Rightarrow> bool" where
  "ends_with P rest \<longleftrightarrow> rest = [] \<or> \<not> P (hd rest)"

lemma span_ends:
  assumes "list_all P s" "ends_with P rest"
  shows "takeWhile P (s @ rest) = s" "dropWhile P (s @ rest) = rest"
proof -
  have "\<And>x. x \<in> set s \<Longrightarrow> P x" using assms(1) by (simp add: list_all_iff)
  with assms(2) show "takeWhile P (s @ rest) = s" "dropWhile P (s @ rest) = rest"
    by (cases rest; simp add: ends_with_def)+
qed

lemma identifier_bytes [simp]:
  "\<not> is_identifier_byte (CHR ''.'')" "\<not> is_identifier_byte (CHR ''['')" "\<not> is_identifier_byte (CHR '' '')"
  "\<not> is_identifier_byte (CHR '')'')" "\<not> is_identifier_byte (CHR ''('')" "\<not> is_identifier_start_byte (CHR ''['')" "\<not> is_identifier_start_byte (CHR ''.'')"
  "\<not> is_ascii_digit (CHR '']'')" "\<not> is_ascii_digit (CHR 0x27)" "\<not> is_ascii_digit (CHR 0x22)"
  by (simp_all add: is_identifier_byte_def is_identifier_start_byte_def is_ascii_alphabetic_def is_ascii_digit_def)

lemma quote_not_digit: "is_quote_byte q \<Longrightarrow> \<not> is_ascii_digit q"
  by (auto simp: is_quote_byte_def)

lemma quote_ends_key: "ends_with (key_byte q) (q # rest)"
  by (simp add: ends_with_def key_byte_def)

lemma render_steps_ends: "ends_with is_identifier_byte rest \<Longrightarrow> ends_with is_identifier_byte (render_steps steps @ rest)"
  by (cases steps rule: list.exhaust; cases "hd steps") (auto simp: render_steps_def ends_with_def)

lemma ends_Nil [simp]: "ends_with P []"
  by (simp add: ends_with_def)

lemma render_steps_ends_end [simp]: "ends_with is_identifier_byte (render_steps steps)"
  using render_steps_ends [of "[]" steps] by simp

lemma identifier_textE:
  assumes "identifier_text s"
  obtains c r where "s = c # r" "is_identifier_start_byte c" "list_all is_identifier_byte r"
  using assms by (auto simp: identifier_text_def split: list.splits)

lemma digitsE:
  assumes "ds \<noteq> []" "list_all is_ascii_digit ds"
  obtains d r where "ds = d # r" "is_ascii_digit d" "list_all is_ascii_digit r"
  using assms by (cases ds) auto

text \<open>One step of each of the three scanners.\<close>

lemma supported_step:
  assumes "step_ok step" "ends_with is_identifier_byte rest"
  shows "supported_name_tail (render_step step @ rest) = supported_name_tail rest"
proof (cases step)
  case (StepProperty p)
  then obtain c r where "p = c # r" "is_identifier_start_byte c" "list_all is_identifier_byte r"
    using assms(1) by (auto elim: identifier_textE)
  then show ?thesis using StepProperty assms(2) by (simp add: supported_name_tail.simps span_ends)
next
  case (StepIndex ds)
  then obtain d r where "ds = d # r" "is_ascii_digit d" "list_all is_ascii_digit r"
    using assms(1) by (auto elim: digitsE)
  then show ?thesis using StepIndex by (simp add: supported_name_tail.simps(2) span_ends ends_with_def)
next
  case (StepKey q k)
  then have "\<not> is_ascii_digit q" "is_quote_byte q" "k \<noteq> []" "list_all (key_byte q) k"
    using assms(1) by (auto dest: quote_not_digit)
  then show ?thesis using StepKey by (simp add: supported_name_tail.simps(2) span_ends quote_ends_key)
qed

lemma resolve_step:
  assumes "step_ok step" "ends_with is_identifier_byte rest"
  shows "resolve_path_tail v (render_step step @ rest) = Option.bind (follow_step step v) (\<lambda>w. resolve_path_tail w rest)"
proof (cases step)
  case (StepProperty p)
  then obtain c r where "p = c # r" "is_identifier_start_byte c" "list_all is_identifier_byte r"
    using assms(1) by (auto elim: identifier_textE)
  then show ?thesis using StepProperty assms(2) by (simp add: resolve_path_tail.simps span_ends)
next
  case (StepIndex ds)
  then obtain d r where "ds = d # r" "is_ascii_digit d" "list_all is_ascii_digit r"
    using assms(1) by (auto elim: digitsE)
  then show ?thesis using StepIndex by (simp add: resolve_path_tail.simps(2) span_ends ends_with_def Option.bind_assoc)
next
  case (StepKey q k)
  then have "\<not> is_ascii_digit q" "is_quote_byte q" "k \<noteq> []" "list_all (key_byte q) k"
    using assms(1) by (auto dest: quote_not_digit)
  then show ?thesis using StepKey by (simp add: resolve_path_tail.simps(2) span_ends quote_ends_key)
qed

lemma reference_step:
  assumes "step_ok step" "ends_with is_identifier_byte rest"
  shows "reference_tail (render_step step @ rest) = after (render_step step) (reference_tail rest)"
proof (cases step)
  case (StepProperty p)
  then obtain c r where "p = c # r" "is_identifier_start_byte c" "list_all is_identifier_byte r"
    using assms(1) by (auto elim: identifier_textE)
  then show ?thesis using StepProperty assms(2) by (simp add: reference_tail.simps span_ends)
next
  case (StepIndex ds)
  then obtain d r where "ds = d # r" "is_ascii_digit d" "list_all is_ascii_digit r"
    using assms(1) by (auto elim: digitsE)
  then show ?thesis using StepIndex by (simp add: reference_tail.simps(2) span_ends ends_with_def)
next
  case (StepKey q k)
  then have "\<not> is_ascii_digit q" "is_quote_byte q" "k \<noteq> []" "list_all (key_byte q) k"
    using assms(1) by (auto dest: quote_not_digit)
  then show ?thesis using StepKey by (simp add: reference_tail.simps(2) span_ends quote_ends_key)
qed

lemma render_steps_simps [simp]: "render_steps [] = []" "render_steps (step # steps) = render_step step @ render_steps steps"
  by (simp_all add: render_steps_def)

lemma supported_steps:
  assumes "ends_with is_identifier_byte rest"
  shows "list_all step_ok steps \<Longrightarrow> supported_name_tail (render_steps steps @ rest) = supported_name_tail rest"
  by (induction steps) (simp_all add: supported_step render_steps_ends [OF assms])

lemma resolve_steps:
  assumes "ends_with is_identifier_byte rest"
  shows "list_all step_ok steps \<Longrightarrow>
    resolve_path_tail v (render_steps steps @ rest) = Option.bind (follow_steps steps v) (\<lambda>w. resolve_path_tail w rest)"
  by (induction steps arbitrary: v) (simp_all add: resolve_step render_steps_ends [OF assms] Option.bind_assoc)

lemma reference_steps:
  assumes "ends_with is_identifier_byte rest"
  shows "list_all step_ok steps \<Longrightarrow>
    reference_tail (render_steps steps @ rest) = after (render_steps steps) (reference_tail rest)"
  by (induction steps) (simp_all add: reference_step render_steps_ends [OF assms] after_def split: prod.splits)

text \<open>Every text the name check accepts is the text of steps.\<close>

lemma supported_tail_steps: "supported_name_tail s \<Longrightarrow> \<exists>steps. list_all step_ok steps \<and> s = render_steps steps"
proof (induction s rule: supported_name_tail.induct)
  case 1
  show ?case by (intro exI [of _ "[]"]) simp
next
  case (2 c s)
  from 2(4) obtain d s' where s: "s = d # s'" and c: "c = CHR ''.'' \<or> c = CHR ''[''"
    by (auto simp: supported_name_tail.simps split: if_splits list.splits)
  have extend: ?case if "step_ok step" "c # s = render_step step @ r" "\<exists>steps. list_all step_ok steps \<and> r = render_steps steps" for step r
    using that by (metis list.pred_inject(2) render_steps_simps(2))
  show ?case
  proof (cases "c = CHR ''.''")
    case True
    with 2(4) s have "is_identifier_start_byte d" "supported_name_tail (dropWhile is_identifier_byte s')"
      by (auto simp: supported_name_tail.simps)
    then show ?thesis using True s 2(1) [OF True s]
      by (intro extend [of "StepProperty (d # takeWhile is_identifier_byte s')" "dropWhile is_identifier_byte s'"])
        (auto simp: identifier_text_def list_all_iff dest: set_takeWhileD)
  next
    case False
    with c have c: "c = CHR ''[''" by simp
    show ?thesis
    proof (cases "is_ascii_digit d")
      case True
      with 2(4) s c obtain r where r: "dropWhile is_ascii_digit s' = CHR '']'' # r" "supported_name_tail r"
        by (auto simp: supported_name_tail.simps split: list.splits)
      show ?thesis
      proof (rule extend [of "StepIndex (d # takeWhile is_ascii_digit s')" r])
        show "c # s = render_step (StepIndex (d # takeWhile is_ascii_digit s')) @ r"
          using span_parts [OF r(1)] c s by simp
        show "\<exists>steps. list_all step_ok steps \<and> r = render_steps steps" using 2(2) [OF False c s True r(1)] r by simp
      qed (use True in \<open>auto simp: list_all_iff dest: set_takeWhileD\<close>)
    next
      case digit: False
      with 2(4) s c obtain r where r: "dropWhile (key_byte d) s' = d # CHR '']'' # r" "supported_name_tail r"
          "takeWhile (key_byte d) s' \<noteq> []" "is_quote_byte d"
        by (auto simp: supported_name_tail.simps split: list.splits if_splits)
      show ?thesis
      proof (rule extend [of "StepKey d (takeWhile (key_byte d) s')" r])
        show "c # s = render_step (StepKey d (takeWhile (key_byte d) s')) @ r"
          using span_parts [OF r(1)] c s by simp
        show "\<exists>steps. list_all step_ok steps \<and> r = render_steps steps"
          using 2(3) [OF False c s digit r(4,1) refl] r by simp
      qed (use r in \<open>auto simp: list_all_iff dest: set_takeWhileD\<close>)
    qed
  qed
qed

lemma supported_name_iff: "is_supported_if_part_variable_name s \<longleftrightarrow> (\<exists>base steps. variable_path_ok base steps \<and> s = base @ render_steps steps)"
proof
  assume "is_supported_if_part_variable_name s"
  then obtain c r where s: "s = c # r" "is_identifier_start_byte c" "supported_name_tail (dropWhile is_identifier_byte r)"
    by (auto simp: is_supported_if_part_variable_name_def split: list.splits)
  then obtain steps where steps: "list_all step_ok steps" "dropWhile is_identifier_byte r = render_steps steps"
    using supported_tail_steps by blast
  have "identifier_text (c # takeWhile is_identifier_byte r)"
    using s by (auto simp: identifier_text_def list_all_iff dest: set_takeWhileD)
  moreover have "s = (c # takeWhile is_identifier_byte r) @ render_steps steps"
    using s span_parts [OF steps(2)] by simp
  ultimately show "\<exists>base steps. variable_path_ok base steps \<and> s = base @ render_steps steps"
    using steps(1) unfolding variable_path_ok_def by blast
next
  assume "\<exists>base steps. variable_path_ok base steps \<and> s = base @ render_steps steps"
  then obtain base steps where p: "variable_path_ok base steps" "s = base @ render_steps steps" by blast
  then obtain c r where "base = c # r" "is_identifier_start_byte c" "list_all is_identifier_byte r"
    by (auto simp: variable_path_ok_def elim: identifier_textE)
  then show "is_supported_if_part_variable_name s"
    using p supported_steps [of "[]" steps] by (simp add: is_supported_if_part_variable_name_def span_ends variable_path_ok_def)
qed

lemma resolve_path:
  assumes "variable_path_ok base steps"
  shows "resolve_if_part_variable_path variables (base @ render_steps steps) =
    Option.bind (map_of variables base) (follow_steps steps)"
proof -
  obtain c r where "base = c # r" "is_identifier_start_byte c" "list_all is_identifier_byte r"
    using assms by (auto simp: variable_path_ok_def elim: identifier_textE)
  then show ?thesis
    using assms resolve_steps [of "[]" steps] by (simp add: resolve_if_part_variable_path_def span_ends variable_path_ok_def)
qed

section \<open>Tokens of literals\<close>

definition text_end :: "string \<Rightarrow> bool" where
  "text_end rest \<longleftrightarrow> rest = [] \<or> hd rest = CHR '' '' \<or> hd rest = CHR ''('' \<or> hd rest = CHR '')''"

lemma text_end_ends: "text_end rest \<Longrightarrow> ends_with is_identifier_byte rest"
  by (auto simp: text_end_def ends_with_def)

lemma reference_tail_end: "text_end rest \<Longrightarrow> reference_tail rest = ([], rest)"
  by (cases rest) (auto simp: text_end_def reference_tail.simps split: list.splits)

lemma read_reference_path:
  assumes "variable_path_ok base steps" "text_end rest"
  shows "read_if_part_variable_reference (base @ render_steps steps @ rest) = (base @ render_steps steps, rest)"
proof -
  obtain c r where base: "base = c # r" "is_identifier_start_byte c" "list_all is_identifier_byte r"
    using assms by (auto simp: variable_path_ok_def elim: identifier_textE)
  have ends: "ends_with is_identifier_byte (render_steps steps @ rest)"
    using assms(2) by (intro render_steps_ends text_end_ends)
  show ?thesis
    using base assms span_ends [OF base(3) ends] reference_steps [OF text_end_ends [OF assms(2)], of steps]
    by (simp add: read_if_part_variable_reference_def variable_path_ok_def reference_tail_end after_def Let_def)
qed

lemma start_byte_classes:
  assumes "is_identifier_start_byte c"
  shows "\<not> is_ascii_whitespace c" "map_of single_byte_tokens c = None" "map_of paired_tokens c = None"
    "c \<noteq> CHR ''-''" "\<not> is_quote_byte c" "\<not> is_ascii_digit c"
proof -
  have "\<forall>c \<in> fst ` set single_byte_tokens. \<not> is_identifier_start_byte c"
    by (simp add: single_byte_tokens_def is_identifier_start_byte_def is_ascii_alphabetic_def)
  then show "map_of single_byte_tokens c = None" using assms by (auto simp: map_of_eq_None_iff)
  have "\<forall>c \<in> fst ` set paired_tokens. \<not> is_identifier_start_byte c"
    by (simp add: paired_tokens_def is_identifier_start_byte_def is_ascii_alphabetic_def)
  then show "map_of paired_tokens c = None" using assms by (auto simp: map_of_eq_None_iff)
qed (use assms in \<open>auto simp: is_ascii_whitespace_def is_quote_byte_def is_identifier_start_byte_def is_ascii_alphabetic_def
    is_ascii_digit_def Let_def\<close>)

lemma digit_classes:
  assumes "is_ascii_digit c"
  shows "\<not> is_ascii_whitespace c" "map_of single_byte_tokens c = None" "map_of paired_tokens c = None"
    "c \<noteq> CHR ''-''" "\<not> is_quote_byte c"
proof -
  have "\<forall>c \<in> fst ` set single_byte_tokens. \<not> is_ascii_digit c" by (simp add: single_byte_tokens_def is_ascii_digit_def)
  then show "map_of single_byte_tokens c = None" using assms by (auto simp: map_of_eq_None_iff)
  have "\<forall>c \<in> fst ` set paired_tokens. \<not> is_ascii_digit c" by (simp add: paired_tokens_def is_ascii_digit_def)
  then show "map_of paired_tokens c = None" using assms by (auto simp: map_of_eq_None_iff)
qed (use assms in \<open>auto simp: is_ascii_whitespace_def is_quote_byte_def is_ascii_digit_def\<close>)

lemma tokenize_step:
  "next_token (if ts = [] then None else Some (last ts)) c s = Inr (Some t, r) \<Longrightarrow>
    tokenize_loop ts (c # s) = tokenize_loop (ts @ [t]) r"
  by simp

declare tokenize_loop.simps(2) [simp del]

lemma tokenize_path:
  assumes "variable_path_ok base steps" "text_end rest"
  shows "tokenize_loop ts (base @ render_steps steps @ rest) = tokenize_loop (ts @ [word_token (base @ render_steps steps)]) rest"
proof -
  obtain c r where "base = c # r" "is_identifier_start_byte c" using assms by (auto simp: variable_path_ok_def elim: identifier_textE)
  then show ?thesis
    using read_reference_path [OF assms] by (auto intro!: tokenize_step simp: next_token_def start_byte_classes)
qed

lemma supported_number_parts:
  assumes "is_supported_number_literal n"
  obtains sign whole fraction where "n = sign @ whole @ fraction" "sign = [] \<or> sign = ''-''" "whole \<noteq> []"
    "list_all is_ascii_digit whole" "fraction = [] \<or> (\<exists>ds. fraction = CHR ''.'' # ds \<and> ds \<noteq> [] \<and> list_all is_ascii_digit ds)"
proof -
  define sign where "sign = (if n \<noteq> [] \<and> hd n = CHR ''-'' then ''-'' else [])"
  define digits where "digits = (if n \<noteq> [] \<and> hd n = CHR ''-'' then tl n else n)"
  have "n = sign @ digits" by (cases n) (simp_all add: sign_def digits_def)
  moreover have "takeWhile is_ascii_digit digits \<noteq> []"
    "dropWhile is_ascii_digit digits = [] \<or> (\<exists>ds. dropWhile is_ascii_digit digits = CHR ''.'' # ds \<and> ds \<noteq> [] \<and> list_all is_ascii_digit ds)"
    using assms by (auto simp: is_supported_number_literal_def digits_def Let_def split: list.splits if_splits)
  moreover have "sign = [] \<or> sign = ''-''" by (simp add: sign_def)
  moreover have "list_all is_ascii_digit (takeWhile is_ascii_digit digits)"
    by (auto simp: list_all_iff dest: set_takeWhileD)
  ultimately show ?thesis
    by (intro that [of sign "takeWhile is_ascii_digit digits" "dropWhile is_ascii_digit digits"]) simp_all
qed

lemma text_end_digit: "text_end rest \<Longrightarrow> ends_with is_ascii_digit rest"
  by (auto simp: text_end_def ends_with_def is_ascii_digit_def)

lemma read_number:
  assumes "is_supported_number_literal n" "text_end rest"
  shows "read_if_part_number (n @ rest) = Inr (n, rest)"
proof -
  obtain sign whole fraction where n: "n = sign @ whole @ fraction" and sign: "sign = [] \<or> sign = ''-''"
    and whole: "whole \<noteq> []" "list_all is_ascii_digit whole"
    and fraction: "fraction = [] \<or> (\<exists>ds. fraction = CHR ''.'' # ds \<and> ds \<noteq> [] \<and> list_all is_ascii_digit ds)"
    using assms(1) by (rule supported_number_parts)
  have "hd whole \<noteq> CHR ''-''" using whole by (cases whole) (auto simp: is_ascii_digit_def)
  then have start: "(case n @ rest of c # s' \<Rightarrow> if c = CHR ''-'' then ([c], s') else ([], n @ rest) | [] \<Rightarrow> ([], n @ rest))
      = (sign, whole @ fraction @ rest)"
    using sign whole(1) n by (cases whole) auto
  have ends: "ends_with is_ascii_digit (fraction @ rest)"
    using fraction text_end_digit [OF assms(2)] by (auto simp: ends_with_def is_ascii_digit_def)
  have spans: "takeWhile is_ascii_digit (whole @ fraction @ rest) = whole" "dropWhile is_ascii_digit (whole @ fraction @ rest) = fraction @ rest"
    using span_ends [OF whole(2) ends] by simp_all
  have number: "checked_number (sign @ whole @ fraction) rest = Inr (n, rest)"
    using assms(1) n by (simp add: checked_number_def)
  from fraction show ?thesis
  proof
    assume "fraction = []"
    moreover have "rest = [] \<or> hd rest \<noteq> CHR ''.''" using assms(2) by (auto simp: text_end_def)
    ultimately show ?thesis
      unfolding read_if_part_number_def start prod.case Let_def spans
      using number whole(1) by (cases rest) simp_all
  next
    assume "\<exists>ds. fraction = CHR ''.'' # ds \<and> ds \<noteq> [] \<and> list_all is_ascii_digit ds"
    then obtain ds where ds: "fraction = CHR ''.'' # ds" "ds \<noteq> []" "list_all is_ascii_digit ds" by blast
    show ?thesis
      unfolding read_if_part_number_def start prod.case Let_def spans
      using number whole(1) ds span_ends [OF ds(3) text_end_digit [OF assms(2)]] by simp
  qed
qed

definition after_operand :: "if_part_token list \<Rightarrow> bool" where
  "after_operand ts \<longleftrightarrow> ts \<noteq> [] \<and> ends_operand (Some (last ts))"

lemma tokenize_number:
  assumes "is_supported_number_literal n" "text_end rest" "\<not> after_operand ts"
  shows "tokenize_loop ts (n @ rest) = tokenize_loop (ts @ [TkLiteral (LitNumber n)]) rest"
proof -
  obtain sign whole fraction where n: "n = sign @ whole @ fraction" and sign: "sign = [] \<or> sign = ''-''"
    and whole: "whole \<noteq> []" "list_all is_ascii_digit whole"
    using assms(1) by (rule supported_number_parts)
  then obtain d r where d: "whole = d # r" "is_ascii_digit d" by (cases whole) auto
  show ?thesis
  proof (cases "sign = []")
    case True
    then show ?thesis using read_number [OF assms(1,2)] n d
      by (auto intro!: tokenize_step simp: next_token_def number_token_def digit_classes)
  next
    case False
    then have "n = CHR ''-'' # d # r @ fraction" using sign n d by simp
    moreover have "\<not> ends_operand (if ts = [] then None else Some (last ts))"
      using assms(3) by (auto simp: after_operand_def ends_operand_def)
    ultimately show ?thesis using read_number [OF assms(1,2)] d
      by (auto intro!: tokenize_step simp: next_token_def number_token_def is_ascii_whitespace_def
          single_byte_tokens_def paired_tokens_def)
  qed
qed

definition plain_string :: "string \<Rightarrow> bool" where
  "plain_string s \<longleftrightarrow> list_all (\<lambda>c. c \<noteq> CHR 0x27 \<and> c \<noteq> CHR 0x5C) s"

lemma read_quoted_plain: "plain_string s \<Longrightarrow> read_quoted_if_part_string (CHR 0x27) (s @ [CHR 0x27] @ rest) = Inr (s, rest)"
  by (induction s) (simp_all add: plain_string_def)

lemma tokenize_string:
  assumes "plain_string s"
  shows "tokenize_loop ts (in_quotes s @ rest) = tokenize_loop (ts @ [TkLiteral (LitString s)]) rest"
  using read_quoted_plain [OF assms, of rest]
  by (auto intro!: tokenize_step simp: in_quotes_def next_token_def is_ascii_whitespace_def single_byte_tokens_def paired_tokens_def is_quote_byte_def)

lemma tokenize_space [simp]: "tokenize_loop ts (CHR '' '' # s) = tokenize_loop ts s"
  by (simp add: tokenize_loop.simps next_token_def is_ascii_whitespace_def)

lemma tokenize_single:
  "map_of single_byte_tokens c = Some t \<Longrightarrow> \<not> is_ascii_whitespace c \<Longrightarrow> tokenize_loop ts (c # s) = tokenize_loop (ts @ [t]) s"
  by (auto intro!: tokenize_step simp: next_token_def)

end
