(* ===== verification/Cmmn_If_Part_Semantics.thy ===== *)
theory Cmmn_If_Part_Semantics
  imports Cmmn_If_Part_Texts
begin

text \<open>
  What sentry conditions mean. A sum of products of paths, numbers and quoted texts prints to a text that reads back, so a
  comparison of two such sums holds exactly when their values compare; variable paths mean the lookup along their steps.
  The further theorems show where the text between parsing and evaluation loses the expression.
\<close>

section \<open>Sums of products\<close>

definition plain_variable :: "string \<Rightarrow> bool" where
  "plain_variable v \<longleftrightarrow> is_supported_if_part_variable_name v \<and> word_token v = TkIdentifier v"

fun plain_literal :: "sentry_if_part_literal \<Rightarrow> bool" where
  "plain_literal (LitVariable v) = plain_variable v"
| "plain_literal (LitNumber n) = is_supported_number_literal n"
| "plain_literal (LitString s) = plain_string s"
| "plain_literal _ = True"

definition arithmetic_tokens :: "(string \<times> if_part_token) list" where
  "arithmetic_tokens = [(''+'', TkPlus), (''-'', TkMinus), (''*'', TkMultiply), (''/'', TkDivide), (''%'', TkModulo)]"

fun plain_tree :: "sentry_if_part_expression \<Rightarrow> bool" where
  "plain_tree (PLiteral lit) = plain_literal lit"
| "plain_tree (PArithmetic l op r) = (op \<in> fst ` set arithmetic_tokens \<and> plain_tree l \<and> plain_tree r)"
| "plain_tree _ = False"

text \<open>The trees the grammar builds without parentheses: operators associate to the left, products bind tighter.\<close>

fun plain_product :: "sentry_if_part_expression \<Rightarrow> bool" where
  "plain_product (PLiteral lit) = plain_literal lit"
| "plain_product (PArithmetic l op (PLiteral lit)) = (op \<in> {''*'', ''/'', ''%''} \<and> plain_product l \<and> plain_literal lit)"
| "plain_product _ = False"

fun plain_sum :: "sentry_if_part_expression \<Rightarrow> bool" where
  "plain_sum (PArithmetic l op r) =
     (if op = ''+'' \<or> op = ''-'' then plain_sum l \<and> plain_product r else plain_product (PArithmetic l op r))"
| "plain_sum e = plain_product e"

fun operand_text :: "sentry_if_part_expression \<Rightarrow> string" where
  "operand_text (PLiteral lit) = literal_str lit"
| "operand_text (PArithmetic l op r) = operand_text l @ '' '' @ op @ '' '' @ operand_text r"
| "operand_text _ = []"

fun literal_token :: "sentry_if_part_literal \<Rightarrow> if_part_token" where
  "literal_token (LitVariable v) = TkIdentifier v"
| "literal_token lit = TkLiteral lit"

fun operand_tokens :: "sentry_if_part_expression \<Rightarrow> if_part_token list" where
  "operand_tokens (PLiteral lit) = [literal_token lit]"
| "operand_tokens (PArithmetic l op r) = operand_tokens l @ the (map_of arithmetic_tokens op) # operand_tokens r"
| "operand_tokens _ = []"

lemma product_tree: "plain_product e \<Longrightarrow> plain_tree e"
  by (induction e rule: plain_product.induct) (auto simp: arithmetic_tokens_def)

lemma sum_tree: "plain_sum e \<Longrightarrow> plain_tree e"
  by (induction e rule: plain_sum.induct) (auto simp: arithmetic_tokens_def product_tree split: if_splits dest: product_tree)

lemma printed_tree: "plain_tree e \<Longrightarrow> expression_to_string e = Inr (operand_text e)"
  by (induction e rule: plain_tree.induct) auto

section \<open>Reading a printed tree\<close>

lemma keyword_path: "variable_path_ok ''true'' []" "variable_path_ok ''false'' []" "variable_path_ok ''null'' []"
  by (simp_all add: variable_path_ok_def identifier_text_def is_identifier_start_byte_def is_identifier_byte_def is_ascii_alphabetic_def)

lemma tokenize_literal:
  assumes "plain_literal lit" "text_end rest" "\<not> after_operand ts"
  shows "tokenize_loop ts (literal_str lit @ rest) = tokenize_loop (ts @ [literal_token lit]) rest"
proof (cases lit)
  case (LitVariable v)
  then obtain base steps where "variable_path_ok base steps" "v = base @ render_steps steps" "word_token v = TkIdentifier v"
    using assms(1) by (auto simp: plain_variable_def supported_name_iff)
  then show ?thesis using LitVariable tokenize_path [of base steps rest ts] assms(2) by simp
next
  case (LitBoolean b)
  then show ?thesis
    using tokenize_path [OF keyword_path(1) assms(2)] tokenize_path [OF keyword_path(2) assms(2)]
    by (simp add: bool_text_def word_token_def)
next
  case LitNull
  then show ?thesis using tokenize_path [OF keyword_path(3) assms(2)] by (simp add: word_token_def)
qed (use assms in \<open>simp_all add: tokenize_number tokenize_string\<close>)

lemma tokenize_operator:
  assumes "op \<in> fst ` set arithmetic_tokens"
  shows "tokenize_loop ts (op @ CHR '' '' # s) = tokenize_loop (ts @ [the (map_of arithmetic_tokens op)]) s"
proof -
  have "next_token previous (CHR ''-'') (CHR '' '' # s) = Inr (Some TkMinus, CHR '' '' # s)" for previous
    by (simp add: next_token_def is_ascii_whitespace_def single_byte_tokens_def paired_tokens_def is_ascii_digit_def)
  from tokenize_step [OF this] have minus: "tokenize_loop ts (CHR ''-'' # CHR '' '' # s) = tokenize_loop (ts @ [TkMinus]) s"
    by simp
  from assms show ?thesis
    using minus by (auto simp: arithmetic_tokens_def tokenize_single single_byte_tokens_def is_ascii_whitespace_def)
qed

lemma operator_not_after: "op \<in> fst ` set arithmetic_tokens \<Longrightarrow> \<not> after_operand (ts @ [the (map_of arithmetic_tokens op)])"
  by (auto simp: arithmetic_tokens_def after_operand_def ends_operand_def)

lemma tokenize_tree:
  assumes "plain_tree e" "text_end rest" "\<not> after_operand ts"
  shows "tokenize_loop ts (operand_text e @ rest) = tokenize_loop (ts @ operand_tokens e) rest"
  using assms
proof (induction e arbitrary: rest ts rule: plain_tree.induct)
  case (2 l op r)
  define token where "token = the (map_of arithmetic_tokens op)"
  have "tokenize_loop ts (operand_text l @ '' '' @ op @ '' '' @ operand_text r @ rest)
      = tokenize_loop (ts @ operand_tokens l) ('' '' @ op @ '' '' @ operand_text r @ rest)"
    using 2 by (intro 2(1)) (simp_all add: text_end_def)
  also have "\<dots> = tokenize_loop ((ts @ operand_tokens l) @ [token]) (operand_text r @ rest)"
    using 2(3) tokenize_operator [of op "ts @ operand_tokens l" "operand_text r @ rest"] by (simp add: token_def)
  also have "\<dots> = tokenize_loop (((ts @ operand_tokens l) @ [token]) @ operand_tokens r) rest"
    using 2(3,4) operator_not_after [of op "ts @ operand_tokens l"] unfolding token_def by (intro 2(2)) simp_all
  finally show ?case by (simp add: token_def)
qed (simp_all add: tokenize_literal)

text \<open>A literal is a primary with nothing behind it.\<close>

definition operand_end :: "if_part_token list \<Rightarrow> bool" where
  "operand_end rest \<longleftrightarrow> rest = [] \<or> hd rest \<notin> {TkLeftParen, TkLeftBracket, TkDot}"

lemma primary_loop_end: "operand_end rest \<Longrightarrow> primary_loop (Suc n) expr e rest = accept e rest"
  by (subst primary_loop.simps) (auto simp: operand_end_def split: list.splits if_part_token.splits)

lemma primary_literal:
  assumes "operand_end rest"
  shows "parse_primary expr (literal_token lit # rest) = accept (PLiteral lit) rest"
proof -
  have "parse_primary_base expr (literal_token lit # rest) = accept (PLiteral lit) rest"
    using assms by (cases lit) (auto simp: parse_primary_base_def operand_end_def)
  then show ?thesis
    unfolding parse_primary_def using primary_loop_end [OF assms] by (simp add: accept_def)
qed

lemma unary_literal: "operand_end rest \<Longrightarrow> parse_unary expr (literal_token lit # rest) = accept (PLiteral lit) rest"
  using primary_literal [of rest expr lit] by (subst parse_unary.simps) (cases lit; simp)

lemma part_bind_cong_on:
  assumes "short k m" "\<And>x rest. length rest < k \<Longrightarrow> f x rest = g x rest"
  shows "part_bind m f = part_bind m g"
  using assms by (cases "(m, f)" rule: part_bind.cases) (auto simp: short_def)

text \<open>The loop of a level with as much fuel as it has tokens.\<close>

definition operator_loop :: "(if_part_token \<Rightarrow> string option) \<Rightarrow> expression_parser \<Rightarrow> sentry_if_part_expression \<Rightarrow> expression_parser" where
  "operator_loop operator operand left ts = arithmetic_loop (Suc (length ts)) operator operand left ts"

lemma arithmetic_loop_fuel:
  assumes "progress operand"
  shows "length ts < n \<Longrightarrow> length ts < m \<Longrightarrow> arithmetic_loop n operator operand left ts = arithmetic_loop m operator operand left ts"
proof (induction n arbitrary: m left ts)
  case (Suc n)
  obtain m' where m: "m = Suc m'" using Suc.prems by (cases m) auto
  have "part_bind (operand rest) (\<lambda>r. arithmetic_loop n operator operand (PArithmetic left x r))
      = part_bind (operand rest) (\<lambda>r. arithmetic_loop m' operator operand (PArithmetic left x r))"
    if "ts = t # rest" for t rest x
    using Suc.prems m that by (intro part_bind_cong_on [OF progressD [OF assms]] Suc.IH) simp_all
  then show ?case by (simp add: m arithmetic_loop.simps split: list.splits option.splits)
qed simp

lemma operator_loop_step:
  assumes "progress operand" "operator t = Some x"
  shows "operator_loop operator operand left (t # rest) =
    part_bind (operand rest) (\<lambda>right ts. operator_loop operator operand (PArithmetic left x right) ts)"
proof -
  have "operator_loop operator operand left (t # rest)
      = part_bind (operand rest) (\<lambda>right. arithmetic_loop (Suc (length rest)) operator operand (PArithmetic left x right))"
    unfolding operator_loop_def using assms(2) by (subst arithmetic_loop.simps) simp
  also have "\<dots> = part_bind (operand rest) (\<lambda>right ts. operator_loop operator operand (PArithmetic left x right) ts)"
    unfolding operator_loop_def
    by (intro part_bind_cong_on [OF progressD [OF assms(1)]] arithmetic_loop_fuel [OF assms(1)]) simp_all
  finally show ?thesis .
qed

definition level_end :: "(if_part_token \<Rightarrow> string option) \<Rightarrow> if_part_token list \<Rightarrow> bool" where
  "level_end operator rest \<longleftrightarrow> rest = [] \<or> operator (hd rest) = None"

lemma operator_loop_end: "level_end operator rest \<Longrightarrow> operator_loop operator operand left rest = accept left rest"
  unfolding operator_loop_def by (subst arithmetic_loop.simps) (auto simp: level_end_def split: list.splits)

lemma multiplicative_loop:
  "parse_multiplicative expr ts = part_bind (parse_unary expr ts) (operator_loop multiplicative_text (parse_unary expr))"
  by (simp add: parse_multiplicative_def operator_loop_def [abs_def])

lemma additive_loop:
  "parse_additive expr ts = part_bind (parse_multiplicative expr ts) (operator_loop additive_text (parse_multiplicative expr))"
  by (simp add: parse_additive_def operator_loop_def [abs_def])

lemma accept_bind [simp]: "part_bind (accept x ts) f = f x ts"
  by (simp add: accept_def)

lemma product_operator_token:
  "op \<in> {''*'', ''/'', ''%''} \<Longrightarrow> multiplicative_text (the (map_of arithmetic_tokens op)) = Some op
    \<and> operand_end (the (map_of arithmetic_tokens op) # rest)"
  by (auto simp: arithmetic_tokens_def operand_end_def)

lemma sum_operator_token:
  "op = ''+'' \<or> op = ''-'' \<Longrightarrow> additive_text (the (map_of arithmetic_tokens op)) = Some op
    \<and> operand_end (the (map_of arithmetic_tokens op) # rest)
    \<and> level_end multiplicative_text (the (map_of arithmetic_tokens op) # rest)"
  by (auto simp: arithmetic_tokens_def operand_end_def level_end_def)

lemma product_read:
  assumes "progress expr"
  shows "plain_product e \<Longrightarrow> operand_end rest \<Longrightarrow>
    parse_multiplicative expr (operand_tokens e @ rest) = operator_loop multiplicative_text (parse_unary expr) e rest"
proof (induction e arbitrary: rest rule: plain_product.induct)
  case (1 lit)
  then show ?case by (simp add: multiplicative_loop unary_literal)
next
  case (2 l op lit)
  then have "parse_multiplicative expr (operand_tokens (PArithmetic l op (PLiteral lit)) @ rest)
      = operator_loop multiplicative_text (parse_unary expr) l (the (map_of arithmetic_tokens op) # literal_token lit # rest)"
    using product_operator_token [of op] by simp
  also have "\<dots> = operator_loop multiplicative_text (parse_unary expr) (PArithmetic l op (PLiteral lit)) rest"
    using 2 product_operator_token [of op]
    by (simp add: operator_loop_step [OF unary_progress [OF assms]] unary_literal)
  finally show ?case .
qed simp_all

lemma product_read_end:
  assumes "progress expr" "plain_product e" "operand_end rest" "level_end multiplicative_text rest"
  shows "parse_multiplicative expr (operand_tokens e @ rest) = accept e rest"
  using product_read [OF assms(1-3)] operator_loop_end [OF assms(4)] by simp

lemma multiplicative_progress: "progress expr \<Longrightarrow> progress (parse_multiplicative expr)"
  unfolding parse_multiplicative_def [abs_def] by (intro arithmetic_progress unary_progress)

lemma sum_read:
  assumes "progress expr"
  shows "plain_sum e \<Longrightarrow> operand_end rest \<Longrightarrow> level_end multiplicative_text rest \<Longrightarrow>
    parse_additive expr (operand_tokens e @ rest) = operator_loop additive_text (parse_multiplicative expr) e rest"
proof (induction e arbitrary: rest rule: plain_sum.induct)
  case (1 l op r)
  show ?case
  proof (cases "op = ''+'' \<or> op = ''-''")
    case True
    then have "parse_additive expr (operand_tokens (PArithmetic l op r) @ rest)
        = operator_loop additive_text (parse_multiplicative expr) l (the (map_of arithmetic_tokens op) # operand_tokens r @ rest)"
      using 1 sum_operator_token [of op] by simp
    also have "\<dots> = operator_loop additive_text (parse_multiplicative expr) (PArithmetic l op r) rest"
      using True 1 sum_operator_token [of op]
      by (simp add: operator_loop_step [OF multiplicative_progress [OF assms]] product_read_end [OF assms])
    finally show ?thesis .
  next
    case False
    then show ?thesis using 1 product_read_end [OF assms, of "PArithmetic l op r" rest] by (simp add: additive_loop)
  qed
qed (simp_all add: additive_loop product_read_end [OF assms, where e = "PLiteral _", simplified])

definition sum_end :: "if_part_token list \<Rightarrow> bool" where
  "sum_end rest \<longleftrightarrow> operand_end rest \<and> level_end multiplicative_text rest \<and> level_end additive_text rest"

lemma sum_read_end: "progress expr \<Longrightarrow> plain_sum e \<Longrightarrow> sum_end rest \<Longrightarrow> parse_additive expr (operand_tokens e @ rest) = accept e rest"
  by (simp add: sum_end_def sum_read operator_loop_end)

lemma comparison_pass:
  assumes "progress expr" "plain_sum e" "sum_end rest" "peek_comparison_operator rest = None"
  shows "parse_comparison expr (operand_tokens e @ rest) = accept e rest"
  using assms by (simp add: parse_comparison_def sum_read_end)

lemma logical_pass:
  "operand ts = accept e rest \<Longrightarrow> rest = [] \<or> hd rest \<noteq> token \<Longrightarrow> parse_logical token operator operand ts = accept e rest"
  by (auto simp: parse_logical_def)

definition expression_end :: "if_part_token list \<Rightarrow> bool" where
  "expression_end rest \<longleftrightarrow> rest = [] \<or> hd rest = TkRightParen"

lemma expression_end_sum: "expression_end rest \<Longrightarrow> sum_end rest \<and> peek_comparison_operator rest = None"
  by (auto simp: expression_end_def sum_end_def operand_end_def level_end_def peek_comparison_operator_def split: list.splits)

lemma expression_pass:
  assumes "parse_comparison (parse_expression d) ts = accept e rest" "expression_end rest"
  shows "parse_expression (Suc d) ts = accept e rest"
proof -
  have "parse_or (parse_expression d) ts = accept e rest"
    using assms unfolding parse_or_def parse_and_def by (intro logical_pass) (auto simp: expression_end_def)
  then show ?thesis
    using assms(2) by (auto simp: parse_expression.simps parse_ternary.simps expression_end_def split: list.splits)
qed

lemma sum_expression:
  assumes "plain_sum e" "expression_end rest"
  shows "parse_expression (Suc d) (operand_tokens e @ rest) = accept e rest"
  using assms expression_end_sum by (intro expression_pass comparison_pass expression_progress) auto

section \<open>Texts without surrounding space\<close>

definition solid :: "string \<Rightarrow> bool" where
  "solid s \<longleftrightarrow> s \<noteq> [] \<and> \<not> is_whitespace (hd s) \<and> \<not> is_whitespace (last s) \<and> hd s \<noteq> CHR ''$''"

lemma unwrap_solid: "solid s \<Longrightarrow> unwrap_expression s = s"
  by (cases s) (auto simp: solid_def unwrap_expression_def str_trim_id strip_prefix_str_def)

lemma byte_not_space:
  "is_identifier_byte c \<Longrightarrow> \<not> is_whitespace c" "is_identifier_start_byte c \<Longrightarrow> is_identifier_byte c"
  "is_ascii_digit c \<Longrightarrow> is_identifier_byte c"
  by (auto simp: is_identifier_byte_def is_identifier_start_byte_def is_ascii_alphabetic_def is_ascii_digit_def is_whitespace_def Let_def)

lemma bracket_not_space: "\<not> is_whitespace (CHR '']'')"
  by (simp add: is_whitespace_def)

lemma last_step: "step_ok step \<Longrightarrow> \<not> is_whitespace (last (render_step step)) \<and> render_step step \<noteq> []"
  by (cases step)
    (auto simp: bracket_not_space list_all_iff byte_not_space elim!: identifier_textE dest: last_in_set split: if_splits)

lemma solid_path:
  assumes "variable_path_ok base steps"
  shows "solid (base @ render_steps steps)"
proof -
  obtain c r where base: "base = c # r" "is_identifier_start_byte c" "list_all is_identifier_byte r"
    using assms by (auto simp: variable_path_ok_def elim: identifier_textE)
  have "\<not> is_whitespace (last base)" using base by (cases r rule: rev_cases) (auto simp: byte_not_space)
  moreover have "\<not> is_whitespace (last (render_steps steps))" if "steps \<noteq> []"
    using assms that last_step
    by (cases steps rule: rev_cases) (auto simp: variable_path_ok_def render_steps_def last_append)
  moreover have "render_steps steps \<noteq> []" if "steps \<noteq> []"
    using assms that last_step by (cases steps) (auto simp: variable_path_ok_def)
  moreover have "c \<noteq> CHR ''$''" using base(2) by (auto simp: is_identifier_start_byte_def is_ascii_alphabetic_def)
  ultimately show ?thesis using base by (cases "steps = []") (auto simp: solid_def byte_not_space last_append)
qed

lemma solid_number:
  assumes "is_supported_number_literal n"
  shows "solid n"
proof -
  obtain sign whole fraction where n: "n = sign @ whole @ fraction" and sign: "sign = [] \<or> sign = ''-''"
    and whole: "whole \<noteq> []" "list_all is_ascii_digit whole"
    and fraction: "fraction = [] \<or> (\<exists>ds. fraction = CHR ''.'' # ds \<and> ds \<noteq> [] \<and> list_all is_ascii_digit ds)"
    using assms by (rule supported_number_parts)
  have "is_ascii_digit (last n)" using n whole fraction by (auto simp: last_append list_all_iff)
  moreover have "hd n = CHR ''-'' \<or> is_ascii_digit (hd n)" using n sign whole by (cases whole) auto
  moreover have "n \<noteq> []" using n whole by simp
  ultimately show ?thesis by (auto simp: solid_def byte_not_space is_whitespace_def is_ascii_digit_def)
qed

lemma solid_literal: "plain_literal lit \<Longrightarrow> solid (literal_str lit)"
proof (cases lit)
  case (LitVariable v)
  assume "plain_literal lit"
  with LitVariable show ?thesis by (auto simp: plain_variable_def supported_name_iff solid_path)
next
  case (LitNumber n)
  assume "plain_literal lit"
  with LitNumber show ?thesis by (simp add: solid_number)
qed (auto simp: bool_text_def solid_def in_quotes_def is_whitespace_def)

lemma solid_append: "solid s \<Longrightarrow> solid t \<Longrightarrow> solid (s @ u @ t)"
  by (auto simp: solid_def last_append)

lemma solid_tree: "plain_tree e \<Longrightarrow> solid (operand_text e)"
proof (induction e rule: plain_tree.induct)
  case (2 l op r)
  then show ?case using solid_append [of "operand_text l" "operand_text r" "'' '' @ op @ '' ''"] by simp
qed (simp_all add: solid_literal)

lemma parse_tokens_accept:
  assumes "\<And>d. parse_expression (Suc d) ts = accept e []"
  shows "parse_tokens trailing finish ts = Some (Inr (finish e))"
  using assms [of 63] by (simp add: parse_tokens_def MAX_IF_PART_NESTING_DEPTH_def accept_def numeral_eq_Suc)

text \<open>The text of a sum of products of paths, numbers, quoted texts and constants reads back as that sum.\<close>

theorem operand_text_round_trip:
  assumes "plain_sum e"
  shows "expression_to_string e = Inr (operand_text e) \<and> parse_sentry_value_expression (operand_text e) = Some (Inr e)"
proof -
  have tree: "plain_tree e" using assms by (rule sum_tree)
  have "tokenize_if_part_expression (operand_text e) = Inr (operand_tokens e)"
    using tokenize_tree [OF tree, of "[]" "[]"]
    by (simp add: tokenize_if_part_expression_def text_end_def after_operand_def)
  moreover have "parse_tokens trailing finish (operand_tokens e) = Some (Inr (finish e))" for trailing finish
    using sum_expression [OF assms, of "[]"] by (intro parse_tokens_accept) (simp add: expression_end_def)
  ultimately show ?thesis
    using printed_tree [OF tree] unwrap_solid [OF solid_tree [OF tree]] by (simp add: parse_sentry_value_expression_def)
qed

theorem operand_text_round_trip_witness:
  "parse_sentry_value_expression ''a + b[0] * 2''
    = Some (Inr (PArithmetic (PLiteral (LitVariable ''a'')) ''+'' (PArithmetic (PLiteral (LitVariable ''b[0]'')) ''*'' (PLiteral (LitNumber ''2'')))))"
proof -
  have "plain_sum (PArithmetic (PLiteral (LitVariable ''a'')) ''+'' (PArithmetic (PLiteral (LitVariable ''b[0]'')) ''*'' (PLiteral (LitNumber ''2''))))"
    by code_simp
  from operand_text_round_trip [OF this] show ?thesis by simp
qed

section \<open>Values of sums\<close>

fun operand_value :: "cmmn_lib \<Rightarrow> case_variables \<Rightarrow> sentry_if_part_expression \<Rightarrow> json" where
  "operand_value lib variables (PLiteral lit) =
     (case resolve_if_part_literal_value lib variables lit of Some v \<Rightarrow> v | None \<Rightarrow> JsonNull)"
| "operand_value lib variables (PArithmetic l op r) =
     evaluate_arithmetic lib op (operand_value lib variables l) (operand_value lib variables r)"
| "operand_value lib variables _ = JsonNull"

fun operand_height :: "sentry_if_part_expression \<Rightarrow> nat" where
  "operand_height (PArithmetic l op r) = Suc (max (operand_height l) (operand_height r))"
| "operand_height _ = 1"

lemma out_bind_ok [simp]: "out_bind (out_ok x) f = f x"
  by (simp add: out_ok_def)

lemma out_bind_assoc: "out_bind (out_bind m f) g = out_bind m (\<lambda>x. out_bind (f x) g)"
  by (cases "(m, f)" rule: out_bind.cases) simp_all

lemma out_bind_unit: "out_bind m out_ok = m"
  by (cases "(m, out_ok :: 'a \<Rightarrow> 'a outcome)" rule: out_bind.cases) (simp_all add: out_ok_def)

lemma evaluate_tree:
  "plain_tree e \<Longrightarrow> operand_height e \<le> d \<Longrightarrow>
    evaluate_to_json_value_depth value_of lib variables d (from_shared e) = out_ok (operand_value lib variables e)"
proof (induction e arbitrary: d rule: plain_tree.induct)
  case (1 lit)
  then obtain d' where "d = Suc d'" by (cases d) auto
  then show ?case by (simp add: evaluate_to_json_value_depth.simps)
next
  case (2 l op r)
  then obtain d' where "d = Suc d'" by (cases d) auto
  with 2 show ?case by (simp add: evaluate_to_json_value_depth.simps)
qed simp_all

lemma value_expression_sum:
  assumes "plain_sum e" "operand_height e \<le> MAX_IF_PART_EVAL_DEPTH"
  shows "resolve_if_part_value_expression (Suc n) lib variables (operand_text e) = out_ok (operand_value lib variables e)"
  using operand_text_round_trip [OF assms(1)] evaluate_tree [OF sum_tree [OF assms(1)] assms(2)]
  by (simp add: resolve_if_part_value_expression.simps)

text \<open>The text of a tree begins with a literal.\<close>

lemma leading_literal:
  "plain_tree e \<Longrightarrow> \<exists>lit rest. plain_literal lit \<and> operand_text e = literal_str lit @ rest
    \<and> (case e of PLiteral l \<Rightarrow> lit = l \<and> rest = [] | _ \<Rightarrow> \<exists>s. rest = '' '' @ s)"
proof (induction e rule: plain_tree.induct)
  case (2 l op r)
  then obtain lit rest where "plain_literal lit" "operand_text l = literal_str lit @ rest"
      "case l of PLiteral l \<Rightarrow> lit = l \<and> rest = [] | _ \<Rightarrow> \<exists>s. rest = '' '' @ s" by auto
  then show ?case
    by (intro exI [of _ lit] exI [of _ "rest @ '' '' @ op @ '' '' @ operand_text r"])
      (auto split: sentry_if_part_expression.splits)
qed auto

lemma text_end_space [simp]: "text_end []" "text_end (CHR '' '' # s)"
  by (simp_all add: text_end_def)

lemma not_start_byte [simp]: "\<not> is_identifier_start_byte (CHR 0x27)" "\<not> is_identifier_start_byte (CHR ''-'')"
  "is_ascii_digit c \<Longrightarrow> \<not> is_identifier_start_byte c"
  by (auto simp: is_identifier_start_byte_def is_ascii_alphabetic_def is_ascii_digit_def)

lemma number_start:
  assumes "is_supported_number_literal n"
  shows "\<exists>c s. n = c # s \<and> \<not> is_identifier_start_byte c"
proof -
  obtain sign whole fraction where n: "n = sign @ whole @ fraction" "sign = [] \<or> sign = ''-''"
    "whole \<noteq> []" "list_all is_ascii_digit whole" using assms by (rule supported_number_parts)
  then show ?thesis by (cases whole) auto
qed

text \<open>A plain literal is a path, or does not begin like an identifier.\<close>

lemma literal_shape:
  assumes "plain_literal lit"
  shows "(\<exists>base steps. variable_path_ok base steps \<and> literal_str lit = base @ render_steps steps)
    \<or> (\<exists>c s. literal_str lit = c # s \<and> \<not> is_identifier_start_byte c)"
proof (cases lit)
  case (LitNumber n)
  then show ?thesis using assms number_start [of n] by simp
next
  case (LitBoolean b)
  then have "literal_str lit = (if b then ''true'' else ''false'') @ render_steps []" by (simp add: bool_text_def)
  moreover have "variable_path_ok (if b then ''true'' else ''false'') []" using keyword_path by simp
  ultimately show ?thesis by blast
next
  case LitNull
  then have "literal_str lit = ''null'' @ render_steps []" by simp
  then show ?thesis using keyword_path by blast
qed (use assms in \<open>auto simp: plain_variable_def supported_name_iff in_quotes_def\<close>)

lemma resolve_path_stuck:
  assumes "variable_path_ok base steps" "\<not> is_identifier_byte x" "x \<noteq> CHR ''.''" "x \<noteq> CHR ''[''"
  shows "resolve_if_part_variable_path variables (base @ render_steps steps @ x # s) = None"
proof -
  obtain c r where base: "base = c # r" "is_identifier_start_byte c" "list_all is_identifier_byte r"
    using assms by (auto simp: variable_path_ok_def elim: identifier_textE)
  have ends: "ends_with is_identifier_byte (x # s)" using assms(2) by (simp add: ends_with_def)
  show ?thesis
    using base assms span_ends [OF base(3) render_steps_ends [OF ends]] resolve_steps [OF ends, of steps]
    by (simp add: resolve_if_part_variable_path_def variable_path_ok_def resolve_path_tail.simps Option.bind_eq_None_conv)
qed

lemma resolve_not_path: "\<not> is_identifier_start_byte c \<Longrightarrow> resolve_if_part_variable_path variables (c # s) = None"
  by (simp add: resolve_if_part_variable_path_def)

lemma resolve_operand_text:
  assumes "plain_tree e" "\<forall>b. e \<noteq> PLiteral (LitBoolean b)" "e \<noteq> PLiteral LitNull"
  shows "resolve_if_part_variable_path variables (operand_text e) =
    (case e of PLiteral (LitVariable v) \<Rightarrow> resolve_if_part_variable_path variables v | _ \<Rightarrow> None)"
proof (cases "\<exists>lit. e = PLiteral lit")
  case True
  then obtain lit where lit: "e = PLiteral lit" "plain_literal lit" using assms(1) by auto
  then show ?thesis
    using assms(2,3) by (cases lit) (auto simp: resolve_not_path in_quotes_def dest!: number_start)
next
  case False
  obtain lit rest where lit: "plain_literal lit" "operand_text e = literal_str lit @ rest"
      "case e of PLiteral l \<Rightarrow> lit = l \<and> rest = [] | _ \<Rightarrow> \<exists>s. rest = '' '' @ s"
    using leading_literal [OF assms(1)] by blast
  moreover obtain s where "rest = CHR '' '' # s" using False lit(3) by (cases e) auto
  ultimately have "plain_literal lit" "operand_text e = literal_str lit @ CHR '' '' # s" by simp_all
  then have "resolve_if_part_variable_path variables (operand_text e) = None"
    using literal_shape [of lit] by (auto simp: resolve_path_stuck resolve_not_path)
  then show ?thesis using False by (auto split: sentry_if_part_expression.splits)
qed

lemma not_a_call:
  assumes "plain_tree e" "list_all is_identifier_byte word" "word \<noteq> []" "is_identifier_start_byte (hd word)"
  shows "call_operand (word @ ''('') (operand_text e) = None"
proof -
  have "\<not> str_starts_with (word @ ''('') (operand_text e)"
  proof
    assume "str_starts_with (word @ ''('') (operand_text e)"
    then obtain z where z: "operand_text e = word @ CHR ''('' # z" by (auto simp: str_starts_with_iff)
    obtain lit rest where lit: "plain_literal lit" "operand_text e = literal_str lit @ rest"
        "case e of PLiteral l \<Rightarrow> lit = l \<and> rest = [] | _ \<Rightarrow> \<exists>s. rest = '' '' @ s"
      using leading_literal [OF assms(1)] by blast
    from lit(3) have end_rest: "text_end rest" "rest = [] \<or> hd rest = CHR '' ''" by (cases e; auto)+
    have paren: "ends_with is_identifier_byte (CHR ''('' # z)"
      by (simp add: ends_with_def is_identifier_byte_def is_ascii_alphabetic_def is_ascii_digit_def)
    from literal_shape [OF lit(1)] show False
    proof (elim disjE exE conjE)
      fix base steps assume p: "variable_path_ok base steps" "literal_str lit = base @ render_steps steps"
      then obtain c r where base: "base = c # r" "list_all is_identifier_byte base"
        by (auto simp: variable_path_ok_def byte_not_space elim: identifier_textE)
      have "dropWhile is_identifier_byte (operand_text e) = render_steps steps @ rest"
        using lit(2) p(2) span_ends(2) [OF base(2) render_steps_ends [OF text_end_ends [OF end_rest(1)]]] by simp
      moreover have "dropWhile is_identifier_byte (operand_text e) = CHR ''('' # z"
        using z span_ends(2) [OF assms(2) paren] by simp
      ultimately have "render_steps steps @ rest = CHR ''('' # z" by simp
      then show False using end_rest(2) by (cases steps; cases "hd steps") auto
    next
      fix c s assume "literal_str lit = c # s" "\<not> is_identifier_start_byte c"
      then show False using z lit(2) assms(3,4) by (cases word) auto
    qed
  qed
  then show ?thesis by (simp add: call_operand_def strip_prefix_str_def)
qed

lemma not_sized:
  assumes "plain_tree e"
  shows "call_operand ''size('' (operand_text e) = None" "call_operand ''length('' (operand_text e) = None"
  using not_a_call [OF assms, of "''size''"] not_a_call [OF assms, of "''length''"]
  by (simp_all add: is_identifier_byte_def is_identifier_start_byte_def is_ascii_alphabetic_def)

section \<open>Comparisons\<close>

fun comparison_token :: "sentry_if_part_operator \<Rightarrow> if_part_token" where
  "comparison_token IfEqual = TkEqual"
| "comparison_token IfNotEqual = TkNotEqual"
| "comparison_token IfGreaterThan = TkGreaterThan"
| "comparison_token IfGreaterThanOrEqual = TkGreaterThanOrEqual"
| "comparison_token IfLessThan = TkLessThan"
| "comparison_token IfLessThanOrEqual = TkLessThanOrEqual"

lemma tokenize_comparison:
  "tokenize_loop ts (operator_str op @ CHR '' '' # s) = tokenize_loop (ts @ [comparison_token op]) s"
proof -
  have "next_token previous (hd (operator_str op)) (tl (operator_str op) @ CHR '' '' # s) = Inr (Some (comparison_token op), CHR '' '' # s)"
    for previous
    by (cases op) (simp_all add: next_token_def is_ascii_whitespace_def single_byte_tokens_def paired_tokens_def)
  from tokenize_step [OF this] show ?thesis by (cases op) simp_all
qed

lemma comparison_token_facts:
  "comparison_operator_token (comparison_token op) = Some op" "sum_end (comparison_token op # rest)"
  by (cases op; simp add: sum_end_def operand_end_def level_end_def)+

lemma comparison_not_after: "\<not> after_operand (ts @ [comparison_token op])"
  by (cases op) (simp_all add: after_operand_def ends_operand_def)

definition right_literal :: "sentry_if_part_expression \<Rightarrow> sentry_if_part_literal" where
  "right_literal r = (case r of PLiteral lit \<Rightarrow> lit | _ \<Rightarrow> LitVariable (operand_text r))"

lemma right_literal: "plain_tree r \<Longrightarrow> expression_to_literal r = Inr (right_literal r)"
  by (cases r) (simp_all add: expression_to_literal_def right_literal_def printed_tree)

lemma lift_accept [simp]: "lift_part (Inr x) ts = accept x ts"
  by (simp add: lift_part_def accept_def)

lemma comparison_read:
  assumes "progress expr" "plain_sum l" "plain_sum r" "right_literal r = LitNull \<longrightarrow> op = IfEqual \<or> op = IfNotEqual" "sum_end rest"
  shows "parse_comparison expr (operand_tokens l @ comparison_token op # operand_tokens r @ rest)
    = accept (PComparison (operand_text l) op (right_literal r)) rest"
  using assms comparison_token_facts [of op]
  by (auto simp: parse_comparison_def sum_read_end peek_comparison_operator_def printed_tree sum_tree right_literal)

lemma parse_comparison_text:
  assumes "plain_sum l" "plain_sum r" "right_literal r = LitNull \<longrightarrow> op = IfEqual \<or> op = IfNotEqual"
  shows "parse_sentry_if_part_expression (operand_text l @ '' '' @ operator_str op @ '' '' @ operand_text r)
    = Some (Inr (PComparison (operand_text l) op (right_literal r)))"
proof -
  let ?text = "operand_text l @ '' '' @ operator_str op @ '' '' @ operand_text r"
  have trees: "plain_tree l" "plain_tree r" using assms(1,2) by (simp_all add: sum_tree)
  have "tokenize_loop [] ?text = tokenize_loop (operand_tokens l) (CHR '' '' # operator_str op @ CHR '' '' # operand_text r)"
    using tokenize_tree [OF trees(1), of "CHR '' '' # operator_str op @ CHR '' '' # operand_text r" "[]"] by (simp add: after_operand_def)
  also have "\<dots> = tokenize_loop (operand_tokens l @ [comparison_token op]) (operand_text r)" by (simp add: tokenize_comparison)
  also have "\<dots> = Inr (operand_tokens l @ comparison_token op # operand_tokens r)"
    using tokenize_tree [OF trees(2), of "[]"] comparison_not_after [of "operand_tokens l" op] by simp
  finally have tokens: "tokenize_if_part_expression ?text = Inr (operand_tokens l @ comparison_token op # operand_tokens r)"
    by (simp add: tokenize_if_part_expression_def)
  have "parse_expression (Suc d) (operand_tokens l @ comparison_token op # operand_tokens r)
      = accept (PComparison (operand_text l) op (right_literal r)) []" for d
    using comparison_read [OF expression_progress assms(1,2,3), of "[]"] expression_end_sum [of "[]"]
    by (intro expression_pass) (simp_all add: expression_end_def)
  from parse_tokens_accept [OF this] have "parse_tokens trailing ensure_boolean_context (operand_tokens l @ comparison_token op # operand_tokens r)
      = Some (Inr (PComparison (operand_text l) op (right_literal r)))" for trailing
    by (simp add: ensure_boolean_context_def)
  moreover have "unwrap_expression ?text = ?text"
    using solid_append [OF solid_tree [OF trees(1)] solid_tree [OF trees(2)], of "'' '' @ operator_str op @ '' ''"]
    by (simp add: unwrap_solid)
  ultimately show ?thesis
    using tokens by (simp add: parse_sentry_if_part_expression_def parse_supported_if_part_expression_def)
qed

text \<open>The value of a right operand: a number is read as a float directly.\<close>

definition right_value :: "cmmn_lib \<Rightarrow> case_variables \<Rightarrow> sentry_if_part_expression \<Rightarrow> if_part_comparable_value option" where
  "right_value lib variables r =
     (case r of
        PLiteral (LitNumber n) \<Rightarrow> map_option ComparableNumber (parse_f64_text n)
      | _ \<Rightarrow> json_value_to_if_part_comparable (Some (operand_value lib variables r)))"

definition left_value :: "cmmn_lib \<Rightarrow> case_variables \<Rightarrow> sentry_if_part_expression \<Rightarrow> if_part_comparable_value option" where
  "left_value lib variables l = json_value_to_if_part_comparable (Some (operand_value lib variables l))"

lemma left_operand:
  assumes "plain_sum l" "operand_height l \<le> MAX_IF_PART_EVAL_DEPTH" "\<forall>b. l \<noteq> PLiteral (LitBoolean b)" "l \<noteq> PLiteral LitNull"
  shows "resolve_if_part_comparison_operand (resolve_if_part_value_expression (Suc n) lib variables) variables (operand_text l)
    = out_ok (left_value lib variables l)"
proof -
  have tree: "plain_tree l" using assms(1) by (rule sum_tree)
  have "resolve_if_part_variable_path variables (operand_text l) = Some v \<Longrightarrow> operand_value lib variables l = v" for v
    using resolve_operand_text [OF tree assms(3,4), of variables]
    by (auto simp: resolve_if_part_literal_value_def split: sentry_if_part_expression.splits sentry_if_part_literal.splits)
  then show ?thesis
    using value_expression_sum [OF assms(1,2)] not_sized [OF tree]
    by (auto simp: resolve_if_part_comparison_operand_def left_value_def split: option.splits)
qed

lemma right_operand:
  assumes "plain_sum r" "operand_height r \<le> MAX_IF_PART_EVAL_DEPTH"
  shows "resolve_if_part_literal (resolve_if_part_value_expression (Suc n) lib variables) variables (right_literal r)
    = out_ok (right_value lib variables r)"
proof (cases "\<exists>lit. r = PLiteral lit")
  case True
  then obtain lit where r: "r = PLiteral lit" by blast
  then show ?thesis
    using value_expression_sum [OF assms]
    by (cases lit) (auto simp: right_literal_def right_value_def resolve_if_part_literal_def resolve_if_part_literal_value_def
        split: option.splits)
next
  case False
  then have "right_literal r = LitVariable (operand_text r)" "right_value lib variables r = left_value lib variables r"
    by (auto simp: right_literal_def right_value_def left_value_def split: sentry_if_part_expression.splits)
  moreover have "resolve_if_part_variable_path variables (operand_text r) = None"
    using resolve_operand_text [OF sum_tree [OF assms(1)]] False by (cases r) auto
  ultimately show ?thesis
    using value_expression_sum [OF assms] by (simp add: resolve_if_part_literal_def left_value_def)
qed

text \<open>A library for the examples: unsigned numbers, no printed values, no regular expressions.\<close>

definition cmmn_example_lib :: cmmn_lib where
  "cmmn_example_lib = \<lparr>number_from_text = (\<lambda>s. Some (PosInt (word_of_int (decimal_value s)))), json_to_text = (\<lambda>_. []),
     regex_matches = (\<lambda>_ _. None), regex_error = (\<lambda>_. []), simple_expression_value = (\<lambda>_ _ _. Inr None)\<rparr>"

text \<open>C27. A condition that compares two sums of products is accepted, and evaluates to the comparison of their values: paths
  mean what the case variables hold, a missing variable is null, and the operands are read in full before they are compared.\<close>

theorem comparison_compares_values:
  assumes "plain_sum l" "plain_sum r" "operand_height l \<le> MAX_IF_PART_EVAL_DEPTH" "operand_height r \<le> MAX_IF_PART_EVAL_DEPTH"
    "\<forall>b. l \<noteq> PLiteral (LitBoolean b)" "l \<noteq> PLiteral LitNull" "r = PLiteral LitNull \<longrightarrow> op = IfEqual \<or> op = IfNotEqual"
  shows "\<exists>c. parse_cmmn_if_part (operand_text l @ '' '' @ operator_str op @ '' '' @ operand_text r) = Some (Inr c)
    \<and> (\<forall>n. evaluate_to_bool (Suc n) lib variables c = Some (Inr (compare_operands (left_value lib variables l) op (right_value lib variables r))))"
proof (intro exI conjI allI)
  have "right_literal r = LitNull \<longrightarrow> op = IfEqual \<or> op = IfNotEqual"
    using assms(7) by (auto simp: right_literal_def split: sentry_if_part_expression.splits)
  then show "parse_cmmn_if_part (operand_text l @ '' '' @ operator_str op @ '' '' @ operand_text r)
      = Some (Inr (CComparison (operand_text l) op (right_literal r)))"
    using parse_comparison_text [OF assms(1,2)] not_sized [OF sum_tree [OF assms(1)]]
    by (simp add: parse_cmmn_if_part_def lift_comparison_def)
  show "evaluate_to_bool (Suc n) lib variables (CComparison (operand_text l) op (right_literal r))
      = Some (Inr (compare_operands (left_value lib variables l) op (right_value lib variables r)))" for n
    using left_operand [OF assms(1,3,5,6)] right_operand [OF assms(2,4)]
    by (simp add: evaluate_to_bool_def MAX_IF_PART_EVAL_DEPTH_def numeral_eq_Suc evaluate_to_bool_depth.simps
        evaluate_if_part_comparison_def) (simp add: out_ok_def)
qed

theorem comparison_compares_values_witness:
  "\<exists>c. parse_cmmn_if_part ''total + 1 > 10'' = Some (Inr c)
    \<and> (\<forall>n. evaluate_to_bool (Suc n) cmmn_example_lib [(''total'', JsonNumber (PosInt 12))] c = Some (Inr True))"
proof -
  let ?l = "PArithmetic (PLiteral (LitVariable ''total'')) ''+'' (PLiteral (LitNumber ''1''))" and ?r = "PLiteral (LitNumber ''10'')"
  let ?vars = "[(''total'', JsonNumber (PosInt 12))]"
  have "plain_sum ?l" "plain_sum ?r" by code_simp+
  moreover have "operand_height ?l \<le> MAX_IF_PART_EVAL_DEPTH" "operand_height ?r \<le> MAX_IF_PART_EVAL_DEPTH"
    by (simp_all add: MAX_IF_PART_EVAL_DEPTH_def)
  moreover have "compare_operands (left_value cmmn_example_lib ?vars ?l) IfGreaterThan (right_value cmmn_example_lib ?vars ?r) = True"
    by code_simp
  ultimately show ?thesis
    using comparison_compares_values [of ?l ?r IfGreaterThan cmmn_example_lib ?vars] by simp
qed

text \<open>A name is accepted as a variable path exactly when it is a base name with property, index and quoted key steps,
  and its value is the variable of the base name followed along the steps.\<close>

theorem variable_paths_follow_steps:
  "(is_supported_if_part_variable_name s \<longleftrightarrow> (\<exists>base steps. variable_path_ok base steps \<and> s = base @ render_steps steps))
    \<and> (variable_path_ok base steps \<longrightarrow>
        resolve_if_part_variable_path variables (base @ render_steps steps) = Option.bind (map_of variables base) (follow_steps steps))"
  using supported_name_iff resolve_path by blast

theorem variable_paths_follow_steps_witness:
  "resolve_if_part_variable_path [(''order'', JsonObject [(''lines'', JsonArray [JsonBool False, JsonBool True])])] ''order.lines[1]''
    = Some (JsonBool True)"
proof -
  have "variable_path_ok ''order'' [StepProperty ''lines'', StepIndex ''1'']" by code_simp
  then have "resolve_if_part_variable_path variables ''order.lines[1]''
      = Option.bind (map_of variables ''order'') (follow_steps [StepProperty ''lines'', StepIndex ''1''])" for variables
    using variable_paths_follow_steps [of "[]" "''order''" "[StepProperty ''lines'', StepIndex ''1'']" variables] by simp
  then show ?thesis
    by (simp add: array_get_def usize_of_digits_def decimal_value_def digit_val_def)
qed

section \<open>Where the text loses the expression\<close>

lemma parse_text_tokens:
  assumes "solid s" "tokenize_loop [] s = Inr ts" "parse_expression (Suc (Suc d)) ts = accept e []" "d = 62"
    "ensure_boolean_context e = e"
  shows "parse_sentry_if_part_expression s = Some (Inr e)"
  using assms
  by (simp add: parse_sentry_if_part_expression_def parse_supported_if_part_expression_def unwrap_solid
      tokenize_if_part_expression_def parse_tokens_def MAX_IF_PART_NESTING_DEPTH_def accept_def numeral_eq_Suc)

lemma unary_parenthesized:
  assumes "expr (ts @ TkRightParen # rest) = accept e (TkRightParen # rest)" "operand_end rest"
  shows "parse_unary expr (TkLeftParen # ts @ TkRightParen # rest) = accept e rest"
  using assms primary_loop_end [OF assms(2)]
  by (simp add: parse_unary.simps parse_primary_def parse_primary_base_def expect_token_def)

lemma tokenize_parenthesized_product:
  assumes "plain_tree e" "plain_literal c" "plain_tree r"
  shows "tokenize_loop [] (''('' @ operand_text e @ '') * '' @ literal_str c @ '' == '' @ operand_text r)
    = Inr (TkLeftParen # operand_tokens e @ [TkRightParen, TkMultiply, literal_token c, TkEqual] @ operand_tokens r)"
proof -
  let ?ts = "TkLeftParen # operand_tokens e"
  let ?rest = "literal_str c @ '' == '' @ operand_text r"
  have single: "tokenize_loop ts (x # s) = tokenize_loop (ts @ [t]) s"
    if "(x, t) \<in> {(CHR ''('', TkLeftParen), (CHR '')'', TkRightParen), (CHR ''*'', TkMultiply)}" for ts x t s
    using that by (auto simp: tokenize_single single_byte_tokens_def is_ascii_whitespace_def)
  have "tokenize_loop [] (''('' @ operand_text e @ '') * '' @ ?rest) = tokenize_loop [TkLeftParen] (operand_text e @ '') * '' @ ?rest)"
    by (simp add: single)
  also have "\<dots> = tokenize_loop ?ts ('') * '' @ ?rest)"
    using tokenize_tree [OF assms(1), of "'') * '' @ ?rest" "[TkLeftParen]"] by (simp add: text_end_def after_operand_def ends_operand_def)
  also have "\<dots> = tokenize_loop (?ts @ [TkRightParen, TkMultiply]) ?rest"
    by (simp add: single)
  also have "\<dots> = tokenize_loop (?ts @ [TkRightParen, TkMultiply, literal_token c]) ('' == '' @ operand_text r)"
    using tokenize_literal [OF assms(2), of "'' == '' @ operand_text r" "?ts @ [TkRightParen, TkMultiply]"]
    by (simp add: after_operand_def ends_operand_def)
  also have "\<dots> = tokenize_loop (?ts @ [TkRightParen, TkMultiply, literal_token c, TkEqual]) (operand_text r)"
    using tokenize_comparison [of _ IfEqual] by simp
  also have "\<dots> = Inr (?ts @ [TkRightParen, TkMultiply, literal_token c, TkEqual] @ operand_tokens r)"
    using tokenize_tree [OF assms(3), of "[]" "?ts @ [TkRightParen, TkMultiply, literal_token c, TkEqual]"]
    by (simp add: after_operand_def ends_operand_def)
  finally show ?thesis by simp
qed

lemma additive_parenthesized:
  assumes "plain_sum e" "sum_end rest"
  shows "parse_additive (parse_expression (Suc d)) (TkLeftParen # operand_tokens e @ TkRightParen # TkMultiply # literal_token c # rest)
    = accept (PArithmetic e ''*'' (PLiteral c)) rest"
proof -
  let ?expr = "parse_expression (Suc d)"
  have "parse_unary ?expr (TkLeftParen # operand_tokens e @ TkRightParen # TkMultiply # literal_token c # rest)
      = accept e (TkMultiply # literal_token c # rest)"
    by (intro unary_parenthesized sum_expression assms(1)) (simp_all add: expression_end_def operand_end_def)
  moreover have "operator_loop multiplicative_text (parse_unary ?expr) e (TkMultiply # literal_token c # rest)
      = accept (PArithmetic e ''*'' (PLiteral c)) rest"
    using assms(2) by (simp add: operator_loop_step [OF unary_progress [OF expression_progress]] unary_literal sum_end_def
        operator_loop_end)
  ultimately show ?thesis
    using assms(2) by (simp add: additive_loop multiplicative_loop sum_end_def operator_loop_end)
qed

text \<open>C39. Parentheses around a sum do not survive a comparison: the operand is kept as its text, which has none, so the condition
  \<open>(a + b) * c == r\<close> is the very expression that \<open>a + b * c == r\<close> is.\<close>

theorem comparison_forgets_parentheses:
  assumes "plain_literal a" "plain_literal b" "plain_literal c" "plain_sum r"
  shows "parse_sentry_if_part_expression
      (''('' @ literal_str a @ '' + '' @ literal_str b @ '') * '' @ literal_str c @ '' == '' @ operand_text r)
    = parse_sentry_if_part_expression
      (literal_str a @ '' + '' @ literal_str b @ '' * '' @ literal_str c @ '' == '' @ operand_text r)"
proof -
  define e where "e = PArithmetic (PLiteral a) ''+'' (PLiteral b)"
  define e' where "e' = PArithmetic (PLiteral a) ''+'' (PArithmetic (PLiteral b) ''*'' (PLiteral c))"
  have plain: "plain_sum e" "plain_sum e'" "plain_tree e" "plain_tree r"
    using assms by (simp_all add: e_def e'_def sum_tree arithmetic_tokens_def)
  have printed: "expression_to_string e = Inr (operand_text e)" "operand_text e' = operand_text e @ '' * '' @ literal_str c"
    by (simp_all add: e_def e'_def)
  have "parse_comparison (parse_expression (Suc 62))
      (TkLeftParen # operand_tokens e @ [TkRightParen, TkMultiply, literal_token c, TkEqual] @ operand_tokens r)
      = accept (PComparison (operand_text e') IfEqual (right_literal r)) []"
    using additive_parenthesized [OF plain(1) comparison_token_facts(2) [of IfEqual "operand_tokens r"], of 62 c]
      sum_read_end [OF expression_progress assms(4), of "[]" "Suc 62"] expression_end_sum [of "[]"] printed
    by (simp add: parse_comparison_def peek_comparison_operator_def right_literal plain expression_end_def)
  then have "parse_sentry_if_part_expression (''('' @ operand_text e @ '') * '' @ literal_str c @ '' == '' @ operand_text r)
      = Some (Inr (PComparison (operand_text e') IfEqual (right_literal r)))"
    using solid_append [of "''(''" "operand_text r" "operand_text e @ '') * '' @ literal_str c @ '' == ''"] solid_tree [OF plain(4)]
    by (intro parse_text_tokens [OF _ tokenize_parenthesized_product [OF plain(3) assms(3) plain(4)]] expression_pass)
      (simp_all add: solid_def is_whitespace_def ensure_boolean_context_def expression_end_def)
  moreover have "parse_sentry_if_part_expression (operand_text e' @ '' '' @ operator_str IfEqual @ '' '' @ operand_text r)
      = Some (Inr (PComparison (operand_text e') IfEqual (right_literal r)))"
    by (rule parse_comparison_text [OF plain(2) assms(4)]) simp
  ultimately show ?thesis by (simp add: e_def e'_def)
qed

theorem comparison_forgets_parentheses_witness:
  "parse_sentry_if_part_expression ''(a + b) * 2 == 6'' = parse_sentry_if_part_expression ''a + b * 2 == 6''"
proof -
  have "plain_literal (LitVariable ''a'')" "plain_literal (LitVariable ''b'')" "plain_literal (LitNumber ''2'')" "plain_sum (PLiteral (LitNumber ''6''))"
    by code_simp+
  from comparison_forgets_parentheses [OF this] show ?thesis by simp
qed

section \<open>Negations\<close>

lemma start_not_equals: "plain_variable v \<Longrightarrow> \<exists>c s. v = c # s \<and> c \<noteq> CHR ''='' \<and> is_identifier_start_byte c"
  by (auto simp: plain_variable_def is_supported_if_part_variable_name_def is_identifier_start_byte_def is_ascii_alphabetic_def
      split: list.splits)

lemma tokenize_negations:
  assumes "plain_variable v"
  shows "tokenize_loop ts (replicate n (CHR ''!'') @ v) = Inr (ts @ replicate n TkNot @ [TkIdentifier v])"
proof (induction n arbitrary: ts)
  case 0
  obtain base steps where "variable_path_ok base steps" "v = base @ render_steps steps" "word_token v = TkIdentifier v"
    using assms by (auto simp: plain_variable_def supported_name_iff)
  then show ?case using tokenize_path [of base steps "[]" ts] by simp
next
  case (Suc n)
  have "hd (replicate n (CHR ''!'') @ v) \<noteq> CHR ''=''" using start_not_equals [OF assms] by (cases n) auto
  then have "next_token previous (CHR ''!'') (replicate n (CHR ''!'') @ v) = Inr (Some TkNot, replicate n (CHR ''!'') @ v)" for previous
    by (simp add: next_token_def is_ascii_whitespace_def single_byte_tokens_def paired_tokens_def)
  from tokenize_step [OF this] Suc show ?case by (simp add: replicate_append_same)
qed

lemma unary_negations:
  assumes "plain_variable v"
  shows "parse_unary expr (replicate (Suc n) TkNot @ [TkIdentifier v]) = accept ((PNot ^^ Suc n) (boolean_variable_path_expression v)) []"
proof (induction n)
  case 0
  have "parse_unary expr [TkIdentifier v] = accept (PLiteral (LitVariable v)) []"
    using unary_literal [of "[]" expr "LitVariable v"] by (simp add: operand_end_def)
  then show ?case
    using assms by (simp add: parse_unary.simps [of _ "TkNot # _"] parse_not_operand.simps next_tokens_are_parenthesized_variable_path_def
        ensure_boolean_context_def plain_variable_def)
next
  case (Suc n)
  have "ensure_boolean_context ((PNot ^^ Suc n) e) = (PNot ^^ Suc n) e" for n e by (simp add: ensure_boolean_context_def)
  with Suc show ?case
    by (simp add: parse_unary.simps [of _ "TkNot # TkNot # _"] parse_not_operand.simps next_tokens_are_parenthesized_variable_path_def)
qed

lemma solid_negations: "plain_variable v \<Longrightarrow> solid (replicate n (CHR ''!'') @ v)"
proof -
  assume "plain_variable v"
  then have "solid v" using solid_literal [of "LitVariable v"] by simp
  then show ?thesis by (cases n) (auto simp: solid_def is_whitespace_def last_append)
qed

lemma parse_negations:
  assumes "plain_variable v" "0 < n"
  shows "parse_sentry_if_part_expression (replicate n (CHR ''!'') @ v) = Some (Inr ((PNot ^^ n) (boolean_variable_path_expression v)))"
proof -
  obtain m where n: "n = Suc m" using assms(2) by (cases n) auto
  let ?ts = "replicate n TkNot @ [TkIdentifier v]" and ?e = "(PNot ^^ n) (boolean_variable_path_expression v)"
  have "parse_additive expr ?ts = accept ?e []" for expr
    using unary_negations [OF assms(1), of expr m]
    by (simp add: n additive_loop multiplicative_loop operator_loop_end level_end_def)
  then have "parse_comparison expr ?ts = accept ?e []" for expr
    by (simp add: parse_comparison_def peek_comparison_operator_def)
  then show ?thesis
    using tokenize_negations [OF assms(1), of "[]" n]
    by (intro parse_text_tokens [OF solid_negations [OF assms(1)]] expression_pass)
      (simp_all add: expression_end_def ensure_boolean_context_def n)
qed

lemma from_negations: "from_shared ((PNot ^^ n) e) = (CNot ^^ n) (from_shared e)"
  by (induction n) simp_all

lemma evaluate_negations:
  "evaluate_to_bool_depth value_of lib variables d ((CNot ^^ n) c) =
    (if n < d then out_bind (evaluate_to_bool_depth value_of lib variables (d - n) c) (\<lambda>b. out_ok (even n = b))
     else Some (Inl eval_depth_error))"
proof (induction n arbitrary: d)
  case 0
  show ?case by (cases d) (simp_all add: out_bind_unit)
next
  case (Suc n)
  show ?case
  proof (cases d)
    case d: (Suc d')
    then show ?thesis
      using Suc.IH [of d'] by (cases "even n") (simp_all add: evaluate_to_bool_depth.simps out_bind_assoc)
  qed simp
qed

lemma comparison_true:
  assumes "plain_variable v" "0 < d"
  shows "evaluate_to_bool_depth (resolve_if_part_value_expression (Suc k) lib variables) lib variables d (CComparison v IfEqual (LitBoolean True))
    = out_ok (comparable_eq (left_value lib variables (PLiteral (LitVariable v))) (Some (ComparableBoolean True)))"
proof -
  obtain d' where d: "d = Suc d'" using assms(2) by (cases d) auto
  have "resolve_if_part_comparison_operand (resolve_if_part_value_expression (Suc k) lib variables) variables v
      = out_ok (left_value lib variables (PLiteral (LitVariable v)))"
    using left_operand [of "PLiteral (LitVariable v)" k lib variables] assms(1) by (simp add: MAX_IF_PART_EVAL_DEPTH_def)
  then show ?thesis
    by (simp add: d evaluate_to_bool_depth.simps evaluate_if_part_comparison_def resolve_if_part_literal_def compare_operands_def Let_def)
qed

text \<open>The depth limit of 64 does not bound negations: any number of exclamation marks before a path is accepted (as far as the stack goes), and a
  condition with 64 or more of them fails at every evaluation; below that it is the parity.\<close>

theorem negations_evade_the_depth_limit:
  assumes "plain_variable v" "0 < n"
  shows "\<exists>c. parse_cmmn_if_part (replicate n (CHR ''!'') @ v) = Some (Inr c)
    \<and> (\<forall>k. evaluate_to_bool (Suc k) lib variables c =
        (if n < 64 then Some (Inr (even n = comparable_eq (left_value lib variables (PLiteral (LitVariable v))) (Some (ComparableBoolean True))))
         else Some (Inl eval_depth_error)))"
proof (intro exI conjI allI)
  let ?c = "CComparison v IfEqual (LitBoolean True)"
  have lit: "plain_sum (PLiteral (LitVariable v))" using assms by simp
  show "parse_cmmn_if_part (replicate n (CHR ''!'') @ v) = Some (Inr ((CNot ^^ n) ?c))"
    using parse_negations [OF assms] not_sized [OF sum_tree [OF lit]]
    by (simp add: parse_cmmn_if_part_def from_negations lift_comparison_def boolean_variable_path_expression_def)
  show "evaluate_to_bool (Suc k) lib variables ((CNot ^^ n) ?c) =
      (if n < 64 then Some (Inr (even n = comparable_eq (left_value lib variables (PLiteral (LitVariable v))) (Some (ComparableBoolean True))))
       else Some (Inl eval_depth_error))" for k
    using evaluate_negations [where d = 64 and n = n] comparison_true [OF assms(1)]
    by (simp add: evaluate_to_bool_def MAX_IF_PART_EVAL_DEPTH_def out_ok_def)
qed

theorem negations_evade_the_depth_limit_witness:
  "\<exists>c. parse_cmmn_if_part (replicate 64 (CHR ''!'') @ ''done'') = Some (Inr c)
    \<and> (\<forall>k. evaluate_to_bool (Suc k) cmmn_example_lib [(''done'', JsonBool True)] c = Some (Inl eval_depth_error))"
proof -
  have "plain_variable ''done''" "(0::nat) < 64" by code_simp+
  from negations_evade_the_depth_limit [OF this] show ?thesis by (simp only: less_irrefl if_False)
qed

section \<open>Sums of sizes\<close>

definition sized_call :: "string \<Rightarrow> string" where
  "sized_call v = ''size('' @ v @ '')''"

definition sized_tokens :: "string \<Rightarrow> if_part_token list" where
  "sized_tokens v = [TkIdentifier ''size'', TkLeftParen, TkIdentifier v, TkRightParen]"

lemma size_path: "variable_path_ok ''size'' []"
  by (simp add: variable_path_ok_def identifier_text_def is_identifier_start_byte_def is_identifier_byte_def is_ascii_alphabetic_def)

lemma tokenize_paren:
  "tokenize_loop ts (CHR ''('' # s) = tokenize_loop (ts @ [TkLeftParen]) s"
  "tokenize_loop ts (CHR '')'' # s) = tokenize_loop (ts @ [TkRightParen]) s"
  by (simp_all add: tokenize_single single_byte_tokens_def is_ascii_whitespace_def)

lemma tokenize_variable:
  "plain_variable v \<Longrightarrow> text_end rest \<Longrightarrow> tokenize_loop ts (v @ rest) = tokenize_loop (ts @ [TkIdentifier v]) rest"
  using tokenize_path [of _ _ rest ts] by (auto simp: plain_variable_def supported_name_iff)

lemma tokenize_size: "tokenize_loop ts (CHR ''s'' # CHR ''i'' # CHR ''z'' # CHR ''e'' # CHR ''('' # s) = tokenize_loop (ts @ [TkIdentifier ''size'', TkLeftParen]) s"
  using tokenize_path [OF size_path, of "CHR ''('' # s" ts] by (simp add: text_end_def word_token_def tokenize_paren)

lemma tokenize_sized:
  assumes "plain_variable v"
  shows "tokenize_loop ts (sized_call v @ rest) = tokenize_loop (ts @ sized_tokens v) rest"
  using tokenize_variable [OF assms, of "CHR '')'' # rest"]
  by (simp add: sized_call_def sized_tokens_def tokenize_size tokenize_paren text_end_def)

lemma unary_sized:
  assumes "plain_variable v" "operand_end rest"
  shows "parse_unary (parse_expression (Suc d)) (sized_tokens v @ rest) = accept (PMethodCall (Some v) ''size'' []) rest"
proof -
  have "parse_expression (Suc d) [TkIdentifier v] = accept (PLiteral (LitVariable v)) []"
    using sum_expression [of "PLiteral (LitVariable v)" "[]" d] assms(1) by (simp add: expression_end_def)
  then have "parse_expression_argument_until (parse_expression (Suc d)) [TkRightParen] (TkIdentifier v # TkRightParen # rest)
      = accept (PLiteral (LitVariable v)) (TkRightParen # rest)"
    by (simp add: parse_expression_argument_until_def)
  then have "parse_named_call (parse_expression (Suc d)) ''size'' (TkLeftParen # TkIdentifier v # TkRightParen # rest)
      = accept (PMethodCall (Some v) ''size'' []) rest"
    by (simp add: parse_named_call_def parse_sizing_function_operand_def expect_token_def)
  then show ?thesis
    using primary_loop_end [OF assms(2)]
    by (simp add: parse_unary.simps parse_primary_def parse_primary_base_def sized_tokens_def)
qed

lemma additive_sized:
  assumes "plain_variable a" "plain_variable b" "sum_end rest"
  shows "parse_additive (parse_expression (Suc d)) (sized_tokens a @ TkPlus # sized_tokens b @ rest)
    = accept (PArithmetic (PMethodCall (Some a) ''size'' []) ''+'' (PMethodCall (Some b) ''size'' [])) rest"
proof -
  have product: "parse_multiplicative (parse_expression (Suc d)) (sized_tokens v @ ts) = accept (PMethodCall (Some v) ''size'' []) ts"
    if "plain_variable v" "operand_end ts" "level_end multiplicative_text ts" for v ts
    using that by (simp add: multiplicative_loop unary_sized operator_loop_end)
  have "operand_end (TkPlus # sized_tokens b @ rest)" "level_end multiplicative_text (TkPlus # sized_tokens b @ rest)"
    by (simp_all add: operand_end_def level_end_def)
  then show ?thesis
    using assms by (simp add: additive_loop product operator_loop_step [OF multiplicative_progress [OF expression_progress]]
        sum_end_def operator_loop_end)
qed

lemma parse_sized_sum:
  assumes "plain_variable a" "plain_variable b" "plain_sum r"
  shows "parse_sentry_if_part_expression (sized_call a @ '' + '' @ sized_call b @ '' == '' @ operand_text r)
    = Some (Inr (PComparison (sized_call a @ '' + '' @ sized_call b) IfEqual (right_literal r)))"
proof -
  let ?text = "sized_call a @ '' + '' @ sized_call b @ '' == '' @ operand_text r"
  let ?ts = "sized_tokens a @ TkPlus # sized_tokens b @ TkEqual # operand_tokens r"
  have plus: "tokenize_loop ts (CHR ''+'' # s) = tokenize_loop (ts @ [TkPlus]) s" for ts s
    by (simp add: tokenize_single single_byte_tokens_def is_ascii_whitespace_def)
  have "tokenize_loop [] ?text = tokenize_loop (sized_tokens a @ TkPlus # sized_tokens b) (CHR '' '' # operator_str IfEqual @ CHR '' '' # operand_text r)"
    by (simp add: tokenize_sized [OF assms(1)] tokenize_sized [OF assms(2)] plus)
  also have "\<dots> = Inr ?ts"
    using tokenize_comparison [of _ IfEqual] tokenize_tree [OF sum_tree [OF assms(3)], of "[]" "sized_tokens a @ TkPlus # sized_tokens b @ [TkEqual]"]
    by (simp add: after_operand_def ends_operand_def)
  finally have tokens: "tokenize_loop [] ?text = Inr ?ts" .
  have "parse_comparison (parse_expression (Suc 62)) ?ts = accept (PComparison (sized_call a @ '' + '' @ sized_call b) IfEqual (right_literal r)) []"
    using additive_sized [OF assms(1,2) comparison_token_facts(2) [of IfEqual "operand_tokens r"], of 62]
      sum_read_end [OF expression_progress assms(3), of "[]" "Suc 62"] expression_end_sum [of "[]"]
    by (simp add: parse_comparison_def peek_comparison_operator_def right_literal sum_tree assms(3) expression_end_def sized_call_def)
  then show ?thesis
    using solid_append [of "''size''" "operand_text r" "''('' @ a @ '') + '' @ sized_call b @ '' == ''"] solid_tree [OF sum_tree [OF assms(3)]]
    by (intro parse_text_tokens [OF _ tokens] expression_pass)
      (simp_all add: solid_def is_whitespace_def ensure_boolean_context_def expression_end_def sized_call_def)
qed

lemma sized_operand_text:
  assumes "plain_variable a" "plain_variable b"
  shows "resolve_if_part_path_or_value_expression (resolve_if_part_value_expression (Suc n) lib variables) variables
      (a @ '') + size('' @ b) = Some (Inl (CmmnExecution ''unexpected trailing tokens in expression''))"
proof -
  let ?text = "a @ '') + size('' @ b"
  have plus: "tokenize_loop ts (CHR ''+'' # s) = tokenize_loop (ts @ [TkPlus]) s" for ts s
    by (simp add: tokenize_single single_byte_tokens_def is_ascii_whitespace_def)
  have "tokenize_loop [] ?text = Inr (TkIdentifier a # TkRightParen # TkPlus # TkIdentifier ''size'' # TkLeftParen # [TkIdentifier b])"
    using tokenize_variable [OF assms(1), of "'') + size('' @ b" "[]"] tokenize_variable [OF assms(2), of "[]"]
    by (simp add: text_end_def tokenize_paren plus tokenize_size)
  moreover have "parse_expression (Suc d) (TkIdentifier a # TkRightParen # rest) = accept (PLiteral (LitVariable a)) (TkRightParen # rest)" for d rest
    using sum_expression [of "PLiteral (LitVariable a)" "TkRightParen # rest" d] assms(1) by (simp add: expression_end_def)
  moreover have "solid ?text"
    using solid_append [of a b "'') + size(''"] solid_literal [of "LitVariable a"] solid_literal [of "LitVariable b"] assms by simp
  ultimately have "parse_sentry_value_expression ?text = Some (Inl ''unexpected trailing tokens in expression'')"
    by (simp add: parse_sentry_value_expression_def unwrap_solid tokenize_if_part_expression_def parse_tokens_def
        MAX_IF_PART_NESTING_DEPTH_def numeral_eq_Suc accept_def)
  moreover have "resolve_if_part_variable_path variables ?text = None"
    using assms(1) resolve_path_stuck [of _ _ "CHR '')''" variables "'' + size('' @ b"]
    by (auto simp: plain_variable_def supported_name_iff)
  ultimately show ?thesis by (simp add: resolve_if_part_path_or_value_expression_def resolve_if_part_value_expression.simps)
qed

lemma sized_sum_unreadable:
  assumes "plain_variable a" "plain_variable b" "plain_sum r"
  shows "\<exists>c. parse_cmmn_if_part (''size('' @ a @ '') + size('' @ b @ '') == '' @ operand_text r) = Some (Inr c)
    \<and> (\<forall>n lib variables. evaluate_to_bool (Suc n) lib variables c
        = Some (Inl (CmmnExecution ''unexpected trailing tokens in expression'')))"
proof (intro exI conjI allI)
  have "call_operand ''size('' (sized_call a @ '' + '' @ sized_call b) = Some (a @ '') + size('' @ b)"
    by (simp add: call_operand_def sized_call_def strip_prefix_str_def)
  then show "parse_cmmn_if_part (''size('' @ a @ '') + size('' @ b @ '') == '' @ operand_text r)
      = Some (Inr (CSize (a @ '') + size('' @ b) IfEqual (right_literal r)))"
    using parse_sized_sum [OF assms] by (simp add: parse_cmmn_if_part_def lift_comparison_def sized_call_def)
  show "evaluate_to_bool (Suc n) lib variables (CSize (a @ '') + size('' @ b) IfEqual (right_literal r))
      = Some (Inl (CmmnExecution ''unexpected trailing tokens in expression''))" for n lib variables
    using sized_operand_text [OF assms(1,2), of n lib variables]
    by (simp add: evaluate_to_bool_def MAX_IF_PART_EVAL_DEPTH_def numeral_eq_Suc evaluate_to_bool_depth.simps evaluate_sized_def)
qed

text \<open>A condition on a sum of two sizes is accepted at deployment and fails at every evaluation: the conversion takes the
  whole operand for one call of \<open>size\<close>, because it begins and ends like one.\<close>

theorem sized_sum_never_evaluates:
  assumes "plain_variable a" "plain_variable b" "plain_sum r"
  shows "\<exists>c. parse_cmmn_if_part (''size('' @ a @ '') + size('' @ b @ '') == '' @ operand_text r) = Some (Inr c)
    \<and> (\<forall>n lib variables. evaluate_to_bool (Suc n) lib variables c
        = Some (Inl (CmmnExecution ''unexpected trailing tokens in expression'')))"
  using assms by (rule sized_sum_unreadable)

theorem sized_sum_never_evaluates_witness:
  "\<exists>c. parse_cmmn_if_part ''size(a) + size(b) == 4'' = Some (Inr c)
    \<and> (\<forall>n lib variables. evaluate_to_bool (Suc n) lib variables c
        = Some (Inl (CmmnExecution ''unexpected trailing tokens in expression'')))"
proof -
  have "plain_variable ''a''" "plain_variable ''b''" "plain_sum (PLiteral (LitNumber ''4''))" by code_simp+
  from sized_sum_never_evaluates [OF this] show ?thesis by simp
qed

end
