(* ===== verification/Cmmn_Sentries.thy ===== *)
theory Cmmn_Sentries
  imports Cmmn_If_Part_Semantics
begin

text \<open>
  Sentries of a case at run time (\<open>flowable-cmmn-engine/src/models.rs\<close>, \<open>runtime.rs\<close>): their trigger modes, the log of plan item
  events, the events of the current command, and the marks that keep a condition satisfied once it has held. The session
  is the tables the code reads and writes; a statement that cannot fail on the modelled tables has no error.
  The case plan model and a stage are both seen as the container of their plan items, stages and sentries.
\<close>

section \<open>Sentries\<close>

record cmmn_plan_item_on_part =
  on_part_id :: string
  on_part_source_ref :: string
  on_part_standard_event :: string

record cmmn_case_file_item_on_part =
  file_part_id :: string
  file_part_item_ref :: string
  file_part_standard_event :: string

record cmmn_sentry =
  sentry_id :: string
  plan_item_on_parts :: "cmmn_plan_item_on_part list"
  case_file_item_on_parts :: "cmmn_case_file_item_on_part list"
  sentry_if_part :: "cmmn_sentry_if_part_expression option"
  trigger_mode :: "string option"

definition new_sentry :: "string \<Rightarrow> cmmn_plan_item_on_part \<Rightarrow> cmmn_sentry" where
  "new_sentry i on_part = \<lparr>sentry_id = i, plan_item_on_parts = [on_part], case_file_item_on_parts = [], sentry_if_part = None, trigger_mode = None\<rparr>"

definition with_plan_item_on_part :: "cmmn_plan_item_on_part \<Rightarrow> cmmn_sentry \<Rightarrow> cmmn_sentry" where
  "with_plan_item_on_part on_part s = s\<lparr>plan_item_on_parts := plan_item_on_parts s @ [on_part]\<rparr>"

definition with_trigger_mode :: "string \<Rightarrow> cmmn_sentry \<Rightarrow> cmmn_sentry" where
  "with_trigger_mode mode s = s\<lparr>trigger_mode := Some mode\<rparr>"

definition with_case_file_item_on_part :: "cmmn_case_file_item_on_part \<Rightarrow> cmmn_sentry \<Rightarrow> cmmn_sentry" where
  "with_case_file_item_on_part on_part s = s\<lparr>case_file_item_on_parts := case_file_item_on_parts s @ [on_part]\<rparr>"

text \<open>A condition that does not parse is dropped; the parser returns on every text, so the last case does not occur.\<close>

definition with_if_part :: "string \<Rightarrow> cmmn_sentry \<Rightarrow> cmmn_sentry" where
  "with_if_part expression s =
     s\<lparr>sentry_if_part := (case parse_cmmn_if_part expression of Some (Inr e) \<Rightarrow> Some e | Some (Inl _) \<Rightarrow> None | None \<Rightarrow> None)\<rparr>"

definition is_default_trigger_mode :: "cmmn_sentry \<Rightarrow> bool" where
  "is_default_trigger_mode s = (case trigger_mode s of None \<Rightarrow> True | Some mode \<Rightarrow> mode = ''default'')"

definition is_on_event_trigger_mode :: "cmmn_sentry \<Rightarrow> bool" where
  "is_on_event_trigger_mode s \<longleftrightarrow> trigger_mode s = Some ''onEvent''"

definition is_multi_part :: "cmmn_sentry \<Rightarrow> bool" where
  "is_multi_part s =
     (let on_part_count = length (plan_item_on_parts s) + length (case_file_item_on_parts s) in
      1 < on_part_count \<or> (on_part_count = 1 \<and> sentry_if_part s \<noteq> None))"

definition has_parts :: "cmmn_sentry \<Rightarrow> bool" where
  "has_parts s \<longleftrightarrow> plan_item_on_parts s \<noteq> [] \<or> case_file_item_on_parts s \<noteq> [] \<or> sentry_if_part s \<noteq> None"

record cmmn_plan_item =
  plan_item_id :: string
  plan_item_definition_ref :: string
  plan_item_name :: "string option"
  entry_criterion_ids :: "string list"
  exit_criterion_ids :: "string list"
  manual_activation_rule :: "cmmn_sentry_if_part_expression option"
  repetition_rule :: "cmmn_sentry_if_part_expression option"
  required_rule :: "cmmn_sentry_if_part_expression option"
  parent_completion_rule :: "string option"
  completion_neutral_rule :: "cmmn_sentry_if_part_expression option"

datatype cmmn_container = Container "cmmn_plan_item list" "cmmn_container list" "cmmn_sentry list"

section \<open>The session\<close>

datatype cmmn_human_task_state = TaskAvailable | TaskEnabled | TaskActive | TaskDisabled | TaskCompleted | TaskTerminated

record plan_item_event =
  event_case_instance_id :: string
  event_plan_item_id :: string
  event_standard_event :: string

record human_task_row =
  task_case_instance_id :: string
  task_stage_instance_id :: "string option"
  task_plan_item_id :: string
  task_state :: cmmn_human_task_state

record cmmn_session =
  event_rows :: "plan_item_event list"
  human_task_rows :: "human_task_row list"
  historic_task_rows :: "human_task_row list"
  command_events :: "(string \<times> string) set"

definition reset_command_event_scope :: "cmmn_session \<Rightarrow> cmmn_session" where
  "reset_command_event_scope t = t\<lparr>command_events := {}\<rparr>"

definition record_command_event :: "string \<Rightarrow> string \<Rightarrow> cmmn_session \<Rightarrow> cmmn_session" where
  "record_command_event item event t = t\<lparr>command_events := insert (item, event) (command_events t)\<rparr>"

definition command_event_recorded :: "string \<Rightarrow> string \<Rightarrow> cmmn_session \<Rightarrow> bool" where
  "command_event_recorded item event t \<longleftrightarrow> (item, event) \<in> command_events t"

definition is_event_row :: "string \<Rightarrow> string \<Rightarrow> string \<Rightarrow> plan_item_event \<Rightarrow> bool" where
  "is_event_row case_instance_id item event row \<longleftrightarrow>
     event_case_instance_id row = case_instance_id \<and> event_plan_item_id row = item \<and> event_standard_event row = event"

definition plan_item_standard_event_occurred :: "string \<Rightarrow> string \<Rightarrow> string \<Rightarrow> cmmn_session \<Rightarrow> bool" where
  "plan_item_standard_event_occurred case_instance_id item event t \<longleftrightarrow>
     0 < length (filter (is_event_row case_instance_id item event) (event_rows t))"

definition record_plan_item_standard_event_session :: "string \<Rightarrow> string \<Rightarrow> string \<Rightarrow> cmmn_session \<Rightarrow> cmmn_session" where
  "record_plan_item_standard_event_session case_instance_id item event t =
     t\<lparr>event_rows := event_rows t @ [\<lparr>event_case_instance_id = case_instance_id, event_plan_item_id = item, event_standard_event = event\<rparr>]\<rparr>"

definition task_in_state :: "string \<Rightarrow> string \<Rightarrow> cmmn_human_task_state \<Rightarrow> human_task_row \<Rightarrow> bool" where
  "task_in_state case_instance_id item state row \<longleftrightarrow>
     task_case_instance_id row = case_instance_id \<and> task_plan_item_id row = item \<and> task_state row = state"

definition human_task_plan_item_reached_standard_event :: "string \<Rightarrow> string \<Rightarrow> string \<Rightarrow> cmmn_session \<Rightarrow> bool" where
  "human_task_plan_item_reached_standard_event case_instance_id item event t =
     (case (if event = ''complete'' then Some TaskCompleted else if event = ''terminate'' then Some TaskTerminated else None) of
        None \<Rightarrow> False
      | Some expected_state \<Rightarrow>
          list_ex (task_in_state case_instance_id item expected_state) (human_task_rows t)
          \<or> list_ex (task_in_state case_instance_id item expected_state) (historic_task_rows t))"

section \<open>Parts of a sentry\<close>

definition SENTRY_IF_PART_SATISFIED_EVENT :: string where "SENTRY_IF_PART_SATISFIED_EVENT = ''ifPartSatisfied''"

fun on_parts_loop :: "bool \<Rightarrow> string \<Rightarrow> cmmn_session \<Rightarrow> cmmn_plan_item_on_part list \<Rightarrow> bool" where
  "on_parts_loop on_event case_instance_id t [] = True"
| "on_parts_loop on_event case_instance_id t (p # ps) =
     (if on_event then
        (if command_event_recorded (on_part_source_ref p) (on_part_standard_event p) t
         then on_parts_loop on_event case_instance_id t ps else False)
      else if plan_item_standard_event_occurred case_instance_id (on_part_source_ref p) (on_part_standard_event p) t
      then on_parts_loop on_event case_instance_id t ps
      else if \<not> human_task_plan_item_reached_standard_event case_instance_id (on_part_source_ref p) (on_part_standard_event p) t
      then False
      else on_parts_loop on_event case_instance_id t ps)"

definition sentry_plan_item_on_parts_satisfied :: "string \<Rightarrow> cmmn_sentry \<Rightarrow> cmmn_session \<Rightarrow> bool" where
  "sentry_plan_item_on_parts_satisfied case_instance_id s t =
     on_parts_loop (is_on_event_trigger_mode s) case_instance_id t (plan_item_on_parts s)"

definition sentry_if_part_matches :: "nat \<Rightarrow> cmmn_lib \<Rightarrow> cmmn_sentry \<Rightarrow> case_variables \<Rightarrow> bool outcome" where
  "sentry_if_part_matches n lib s variables =
     (case sentry_if_part s of None \<Rightarrow> out_ok True | Some e \<Rightarrow> evaluate_if_part_condition n lib e variables)"

definition record_sentry_if_part_satisfied :: "string \<Rightarrow> string \<Rightarrow> cmmn_session \<Rightarrow> cmmn_session" where
  "record_sentry_if_part_satisfied case_instance_id i t =
     record_plan_item_standard_event_session case_instance_id i SENTRY_IF_PART_SATISFIED_EVENT t"

definition delete_sentry_if_part_satisfied :: "string \<Rightarrow> string \<Rightarrow> cmmn_session \<Rightarrow> cmmn_session" where
  "delete_sentry_if_part_satisfied case_instance_id i t =
     t\<lparr>event_rows := filter (\<lambda>row. \<not> is_event_row case_instance_id i SENTRY_IF_PART_SATISFIED_EVENT row) (event_rows t)\<rparr>"

definition sentry_if_part_satisfied :: "nat \<Rightarrow> cmmn_lib \<Rightarrow> string \<Rightarrow> case_variables \<Rightarrow> cmmn_sentry \<Rightarrow> cmmn_session
    \<Rightarrow> (bool \<times> cmmn_session) outcome" where
  "sentry_if_part_satisfied n lib case_instance_id variables s t =
     (if sentry_if_part s = None then out_ok (True, t)
      else if is_multi_part s \<and> is_default_trigger_mode s then
        (if plan_item_standard_event_occurred case_instance_id (sentry_id s) SENTRY_IF_PART_SATISFIED_EVENT t then out_ok (True, t)
         else out_bind (sentry_if_part_matches n lib s variables) (\<lambda>b.
           if b then out_ok (True, record_sentry_if_part_satisfied case_instance_id (sentry_id s) t) else out_ok (False, t)))
      else out_bind (sentry_if_part_matches n lib s variables) (\<lambda>b. out_ok (b, t)))"

fun record_sentries_loop :: "nat \<Rightarrow> cmmn_lib \<Rightarrow> string \<Rightarrow> case_variables \<Rightarrow> cmmn_sentry list \<Rightarrow> cmmn_session \<Rightarrow> cmmn_session outcome" where
  "record_sentries_loop n lib case_instance_id variables [] t = out_ok t"
| "record_sentries_loop n lib case_instance_id variables (s # ss) t =
     (if sentry_if_part s = None \<or> \<not> is_multi_part s \<or> \<not> is_default_trigger_mode s
      then record_sentries_loop n lib case_instance_id variables ss t
      else if plan_item_standard_event_occurred case_instance_id (sentry_id s) SENTRY_IF_PART_SATISFIED_EVENT t
      then record_sentries_loop n lib case_instance_id variables ss t
      else out_bind (sentry_if_part_matches n lib s variables) (\<lambda>b.
        record_sentries_loop n lib case_instance_id variables ss
          (if b then record_sentry_if_part_satisfied case_instance_id (sentry_id s) t else t)))"

fun record_satisfied_sentry_if_parts_in_container :: "nat \<Rightarrow> cmmn_lib \<Rightarrow> string \<Rightarrow> case_variables \<Rightarrow> cmmn_container \<Rightarrow> cmmn_session
    \<Rightarrow> cmmn_session outcome"
and record_satisfied_in_stages :: "nat \<Rightarrow> cmmn_lib \<Rightarrow> string \<Rightarrow> case_variables \<Rightarrow> cmmn_container list \<Rightarrow> cmmn_session
    \<Rightarrow> cmmn_session outcome" where
  "record_satisfied_sentry_if_parts_in_container n lib case_instance_id variables (Container items stages sentries) t =
     out_bind (record_sentries_loop n lib case_instance_id variables sentries t) (\<lambda>t'.
       record_satisfied_in_stages n lib case_instance_id variables stages t')"
| "record_satisfied_in_stages n lib case_instance_id variables [] t = out_ok t"
| "record_satisfied_in_stages n lib case_instance_id variables (stage # stages) t =
     out_bind (record_satisfied_sentry_if_parts_in_container n lib case_instance_id variables stage t) (\<lambda>t'.
       record_satisfied_in_stages n lib case_instance_id variables stages t')"

definition record_satisfied_sentry_if_parts :: "nat \<Rightarrow> cmmn_lib \<Rightarrow> string \<Rightarrow> case_variables \<Rightarrow> cmmn_container \<Rightarrow> cmmn_session
    \<Rightarrow> cmmn_session outcome" where
  "record_satisfied_sentry_if_parts n lib case_instance_id variables case_plan_model t =
     record_satisfied_sentry_if_parts_in_container n lib case_instance_id variables case_plan_model t"

section \<open>Sentries that a lifecycle event completes\<close>

fun find_container_with_direct_plan_item :: "string \<Rightarrow> cmmn_container \<Rightarrow> cmmn_container option"
and find_in_stages :: "string \<Rightarrow> cmmn_container list \<Rightarrow> cmmn_container option" where
  "find_container_with_direct_plan_item i (Container items stages sentries) =
     (if list_ex (\<lambda>p. plan_item_id p = i) items then Some (Container items stages sentries) else find_in_stages i stages)"
| "find_in_stages i [] = None"
| "find_in_stages i (stage # stages) =
     (case find_container_with_direct_plan_item i stage of Some c \<Rightarrow> Some c | None \<Rightarrow> find_in_stages i stages)"

text \<open>
  The first loop of \<open>terminate_exit_criterion_dependents\<close> and of \<open>activate_entry_criterion_dependents\<close>, which differ in the
  criterion they read.
\<close>

fun matching_sentry_ids :: "(cmmn_plan_item \<Rightarrow> string list) \<Rightarrow> nat \<Rightarrow> cmmn_lib \<Rightarrow> string \<Rightarrow> case_variables \<Rightarrow> string \<Rightarrow> string
    \<Rightarrow> cmmn_plan_item list \<Rightarrow> cmmn_sentry list \<Rightarrow> cmmn_session \<Rightarrow> (string list \<times> cmmn_session) outcome" where
  "matching_sentry_ids criterion n lib case_instance_id variables source event items [] t = out_ok ([], t)"
| "matching_sentry_ids criterion n lib case_instance_id variables source event items (s # ss) t =
     (if \<not> list_ex (\<lambda>p. sentry_id s \<in> set (criterion p)) items
      then matching_sentry_ids criterion n lib case_instance_id variables source event items ss t
      else if list_ex (\<lambda>p. on_part_source_ref p = source \<and> on_part_standard_event p = event) (plan_item_on_parts s)
        \<and> sentry_plan_item_on_parts_satisfied case_instance_id s t
      then out_bind (sentry_if_part_satisfied n lib case_instance_id variables s t) (\<lambda>(b, t1).
           out_bind (matching_sentry_ids criterion n lib case_instance_id variables source event items ss t1) (\<lambda>(ids, t2).
             out_ok (if b then sentry_id s # ids else ids, t2)))
      else matching_sentry_ids criterion n lib case_instance_id variables source event items ss t)"

section \<open>A mark lasts from the first time the condition holds until the sentry fires\<close>

definition marked :: "string \<Rightarrow> cmmn_sentry \<Rightarrow> cmmn_session \<Rightarrow> bool" where
  "marked case_instance_id s t \<longleftrightarrow> plan_item_standard_event_occurred case_instance_id (sentry_id s) SENTRY_IF_PART_SATISFIED_EVENT t"

text \<open>A sentry whose condition sticks, and the condition under given variables.\<close>

definition sticky :: "cmmn_sentry \<Rightarrow> bool" where
  "sticky s \<longleftrightarrow> sentry_if_part s \<noteq> None \<and> is_multi_part s \<and> is_default_trigger_mode s"

definition holds :: "nat \<Rightarrow> cmmn_lib \<Rightarrow> case_variables \<Rightarrow> cmmn_sentry \<Rightarrow> bool" where
  "holds n lib variables s \<longleftrightarrow> sentry_if_part_matches n lib s variables = Some (Inr True)"

fun all_sentries :: "cmmn_container \<Rightarrow> cmmn_sentry list" where
  "all_sentries (Container items stages sentries) = sentries @ concat (map all_sentries stages)"

datatype sentry_step = Sweep case_variables | Look cmmn_sentry case_variables | Fire string | Happen string string

fun run_sentry_step :: "nat \<Rightarrow> cmmn_lib \<Rightarrow> string \<Rightarrow> cmmn_container \<Rightarrow> sentry_step \<Rightarrow> cmmn_session \<Rightarrow> cmmn_session outcome" where
  "run_sentry_step n lib c model (Sweep variables) t = record_satisfied_sentry_if_parts n lib c variables model t"
| "run_sentry_step n lib c model (Look s variables) t = out_bind (sentry_if_part_satisfied n lib c variables s t) (\<lambda>(b, t'). out_ok t')"
| "run_sentry_step n lib c model (Fire i) t = out_ok (delete_sentry_if_part_satisfied c i t)"
| "run_sentry_step n lib c model (Happen item event) t = out_ok (record_plan_item_standard_event_session c item event (record_command_event item event t))"

primrec run_sentry_steps :: "nat \<Rightarrow> cmmn_lib \<Rightarrow> string \<Rightarrow> cmmn_container \<Rightarrow> sentry_step list \<Rightarrow> cmmn_session \<Rightarrow> cmmn_session outcome" where
  "run_sentry_steps n lib c model [] t = out_ok t"
| "run_sentry_steps n lib c model (x # xs) t = out_bind (run_sentry_step n lib c model x t) (run_sentry_steps n lib c model xs)"

text \<open>The promise: one truth value for the sentry.\<close>

fun satisfied_step :: "nat \<Rightarrow> cmmn_lib \<Rightarrow> cmmn_sentry \<Rightarrow> sentry_step \<Rightarrow> bool \<Rightarrow> bool" where
  "satisfied_step n lib s (Sweep variables) b = (b \<or> holds n lib variables s)"
| "satisfied_step n lib s (Look s' variables) b = (b \<or> (s' = s \<and> holds n lib variables s))"
| "satisfied_step n lib s (Fire i) b = (b \<and> i \<noteq> sentry_id s)"
| "satisfied_step n lib s (Happen item event) b = b"

fun proper_step :: "cmmn_container \<Rightarrow> sentry_step \<Rightarrow> bool" where
  "proper_step model (Look s variables) \<longleftrightarrow> s \<in> set (all_sentries model)"
| "proper_step model (Happen item event) \<longleftrightarrow> event \<noteq> SENTRY_IF_PART_SATISFIED_EVENT"
| "proper_step model _ \<longleftrightarrow> True"

lemma occurred_record [simp]:
  "plan_item_standard_event_occurred c i e (record_plan_item_standard_event_session c' i' e' t) \<longleftrightarrow>
    (c' = c \<and> i' = i \<and> e' = e) \<or> plan_item_standard_event_occurred c i e t"
  by (auto simp: plan_item_standard_event_occurred_def record_plan_item_standard_event_session_def is_event_row_def)

lemma marked_record [simp]:
  "marked c s (record_sentry_if_part_satisfied c i t) \<longleftrightarrow> i = sentry_id s \<or> marked c s t"
  by (auto simp: marked_def record_sentry_if_part_satisfied_def)

lemma marked_delete [simp]: "marked c s (delete_sentry_if_part_satisfied c i t) \<longleftrightarrow> i \<noteq> sentry_id s \<and> marked c s t"
  by (auto simp: marked_def delete_sentry_if_part_satisfied_def plan_item_standard_event_occurred_def is_event_row_def filter_empty_conv)

lemma marked_command [simp]: "marked c s (record_command_event i e t) = marked c s t"
  by (simp add: marked_def record_command_event_def plan_item_standard_event_occurred_def)

lemma out_bind_okD: "out_bind m f = Some (Inr y) \<Longrightarrow> \<exists>x. m = Some (Inr x) \<and> f x = Some (Inr y)"
  by (cases "(m, f)" rule: out_bind.cases) auto

lemma out_ok_iff [simp]: "out_ok x = Some (Inr y) \<longleftrightarrow> x = y"
  by (simp add: out_ok_def)

text \<open>A sentry is known by its id among those of the model.\<close>

definition known_by_id :: "cmmn_sentry set \<Rightarrow> bool" where
  "known_by_id S \<longleftrightarrow> inj_on sentry_id S"

lemma record_loop_marks:
  assumes "record_sentries_loop n lib c variables ss t = Some (Inr t')" "known_by_id (insert s (set ss))" "sticky s"
  shows "marked c s t' \<longleftrightarrow> marked c s t \<or> (s \<in> set ss \<and> holds n lib variables s)"
  using assms
proof (induction ss arbitrary: t)
  case (Cons x ss)
  have ids: "known_by_id (insert s (set ss))" "sentry_id x = sentry_id s \<longleftrightarrow> x = s"
    using Cons.prems(2) by (auto simp: known_by_id_def inj_on_def)
  show ?case
  proof (cases "sticky x \<and> \<not> marked c x t")
    case True
    then obtain b where b: "sentry_if_part_matches n lib x variables = Some (Inr b)"
        "record_sentries_loop n lib c variables ss (if b then record_sentry_if_part_satisfied c (sentry_id x) t else t) = Some (Inr t')"
      using Cons.prems(1) by (auto simp: sticky_def marked_def dest!: out_bind_okD)
    from Cons.IH [OF b(2) ids(1) assms(3)] show ?thesis
      using b(1) ids(2) by (cases b) (auto simp: holds_def)
  next
    case False
    then have "record_sentries_loop n lib c variables ss t = Some (Inr t')"
      using Cons.prems(1) by (auto simp: sticky_def marked_def split: if_splits)
    from Cons.IH [OF this ids(1) assms(3)] show ?thesis using False assms(3) by auto
  qed
qed simp

lemma known_subset: "known_by_id S \<Longrightarrow> S' \<subseteq> S \<Longrightarrow> known_by_id S'"
  by (auto simp: known_by_id_def inj_on_def)

lemma sweep_marks:
  assumes "sticky s"
  shows "record_satisfied_sentry_if_parts_in_container n lib c variables model t = Some (Inr t') \<Longrightarrow>
      known_by_id (insert s (set (all_sentries model))) \<Longrightarrow>
      marked c s t' \<longleftrightarrow> marked c s t \<or> (s \<in> set (all_sentries model) \<and> holds n lib variables s)"
    and "record_satisfied_in_stages n lib c variables stages t = Some (Inr t') \<Longrightarrow>
      known_by_id (insert s (set (concat (map all_sentries stages)))) \<Longrightarrow>
      marked c s t' \<longleftrightarrow> marked c s t \<or> (s \<in> set (concat (map all_sentries stages)) \<and> holds n lib variables s)"
proof (induction n lib c variables model t and n lib c variables stages t arbitrary: t' and t'
    rule: record_satisfied_sentry_if_parts_in_container_record_satisfied_in_stages.induct)
  case (1 n lib c variables items stages sentries t)
  from 1(2) obtain t1 where t1: "record_sentries_loop n lib c variables sentries t = Some (Inr t1)"
      "record_satisfied_in_stages n lib c variables stages t1 = Some (Inr t')" by (auto dest!: out_bind_okD)
  have "known_by_id (insert s (set sentries))" "known_by_id (insert s (set (concat (map all_sentries stages))))"
    using 1(3) by (auto elim!: known_subset)
  then show ?case using 1(1) [OF t1(2)] record_loop_marks [OF t1(1) _ assms] by auto
next
  case (3 n lib c variables stage stages t)
  from 3(3) obtain t1 where t1: "record_satisfied_sentry_if_parts_in_container n lib c variables stage t = Some (Inr t1)"
      "record_satisfied_in_stages n lib c variables stages t1 = Some (Inr t')" by (auto dest!: out_bind_okD)
  have "known_by_id (insert s (set (all_sentries stage)))" "known_by_id (insert s (set (concat (map all_sentries stages))))"
    using 3(4) by (auto elim!: known_subset)
  then show ?case using 3(1) [OF t1(1)] 3(2) [OF t1(2)] by auto
qed simp

lemma step_marks:
  assumes "run_sentry_step n lib c model x t = Some (Inr t')" "sticky s" "s \<in> set (all_sentries model)"
    "known_by_id (set (all_sentries model))" "proper_step model x"
  shows "marked c s t' = satisfied_step n lib s x (marked c s t)"
proof (cases x)
  case (Sweep variables)
  then show ?thesis
    using assms sweep_marks(1) [OF assms(2), of n lib c variables model t t']
    by (simp add: record_satisfied_sentry_if_parts_def insert_absorb)
next
  case (Look s' variables)
  then have same: "sentry_id s' = sentry_id s \<longleftrightarrow> s' = s"
    using assms(3-5) by (auto simp: known_by_id_def inj_on_def)
  from assms(1) Look obtain b where "sentry_if_part_satisfied n lib c variables s' t = Some (Inr (b, t'))"
    by (auto dest!: out_bind_okD)
  then show ?thesis
    using Look same assms(2)
    by (auto simp: sentry_if_part_satisfied_def sticky_def holds_def marked_def [symmetric] split: if_splits dest!: out_bind_okD)
qed (use assms in \<open>auto simp: marked_def [of c s "record_plan_item_standard_event_session _ _ _ _"] marked_def [symmetric]\<close>)

text \<open>C26. The marks of the event table implement one truth value per sentry: over any sequence of evaluation cycles, checks, lifecycle
  events and firings, a sentry whose condition sticks (a default-mode sentry with an on-part and a condition) is marked exactly when its condition held at some evaluation since it
  last fired, whatever the variables became afterwards.\<close>

theorem if_part_marks_refine_memory:
  assumes "run_sentry_steps n lib c model steps t = Some (Inr t')" "sticky s" "s \<in> set (all_sentries model)"
    "known_by_id (set (all_sentries model))" "list_all (proper_step model) steps"
  shows "marked c s t' = fold (satisfied_step n lib s) steps (marked c s t)"
  using assms(1,5)
proof (induction steps arbitrary: t)
  case (Cons x steps)
  then obtain t1 where t1: "run_sentry_step n lib c model x t = Some (Inr t1)" "run_sentry_steps n lib c model steps t1 = Some (Inr t')"
    by (auto dest!: out_bind_okD)
  from Cons.IH [OF t1(2)] step_marks [OF t1(1) assms(2-4)] Cons.prems show ?case by simp
qed simp

text \<open>An example: a condition that held once counts although the variable has changed.\<close>

definition approved_sentry :: cmmn_sentry where
  "approved_sentry = \<lparr>sentry_id = ''s'', plan_item_on_parts = [\<lparr>on_part_id = ''p'', on_part_source_ref = ''task'', on_part_standard_event = ''complete''\<rparr>],
     case_file_item_on_parts = [], sentry_if_part = Some (CComparison ''approved'' IfEqual (LitBoolean True)), trigger_mode = None\<rparr>"

definition approval_model :: cmmn_container where
  "approval_model = Container [] [Container [] [] [approved_sentry]] []"

definition empty_session :: cmmn_session where
  "empty_session = \<lparr>event_rows = [], human_task_rows = [], historic_task_rows = [], command_events = {}\<rparr>"

definition approved :: "bool \<Rightarrow> case_variables" where
  "approved b = [(''approved'', JsonBool b)]"

lemma approval_facts:
  "sticky approved_sentry" "all_sentries approval_model = [approved_sentry]" "known_by_id {approved_sentry}"
  by (simp_all add: sticky_def approved_sentry_def is_multi_part_def is_default_trigger_mode_def approval_model_def known_by_id_def)

theorem if_part_marks_refine_memory_witness:
  "\<exists>t. run_sentry_steps 1 cmmn_example_lib ''c'' approval_model [Sweep (approved True), Sweep (approved False)] empty_session = Some (Inr t)
    \<and> marked ''c'' approved_sentry t"
proof -
  have run: "run_sentry_steps 1 cmmn_example_lib ''c'' approval_model [Sweep (approved True), Sweep (approved False)] empty_session
      = Some (Inr (empty_session\<lparr>event_rows := [\<lparr>event_case_instance_id = ''c'', event_plan_item_id = ''s'', event_standard_event = ''ifPartSatisfied''\<rparr>]\<rparr>))"
    by code_simp
  have "holds 1 cmmn_example_lib (approved True) approved_sentry" by code_simp
  then show ?thesis
    using run if_part_marks_refine_memory [OF run, of approved_sentry] approval_facts by (simp add: list_all_iff)
qed

section \<open>The sentries an event completes\<close>

definition on_part_satisfied :: "string \<Rightarrow> bool \<Rightarrow> cmmn_session \<Rightarrow> cmmn_plan_item_on_part \<Rightarrow> bool" where
  "on_part_satisfied c on_event t p \<longleftrightarrow>
     (if on_event then (on_part_source_ref p, on_part_standard_event p) \<in> command_events t
      else plan_item_standard_event_occurred c (on_part_source_ref p) (on_part_standard_event p) t
        \<or> human_task_plan_item_reached_standard_event c (on_part_source_ref p) (on_part_standard_event p) t)"

lemma on_parts_satisfied_iff:
  "sentry_plan_item_on_parts_satisfied c s t \<longleftrightarrow> list_all (on_part_satisfied c (is_on_event_trigger_mode s) t) (plan_item_on_parts s)"
proof -
  have "on_parts_loop b c t ps \<longleftrightarrow> list_all (on_part_satisfied c b t) ps" for b ps
    by (induction ps) (auto simp: on_part_satisfied_def command_event_recorded_def)
  then show ?thesis by (simp add: sentry_plan_item_on_parts_satisfied_def)
qed

text \<open>When the condition of a sentry counts as satisfied.\<close>

definition condition_satisfied :: "nat \<Rightarrow> cmmn_lib \<Rightarrow> string \<Rightarrow> case_variables \<Rightarrow> cmmn_session \<Rightarrow> cmmn_sentry \<Rightarrow> bool" where
  "condition_satisfied n lib c variables t s \<longleftrightarrow>
     sentry_if_part s = None \<or> (sticky s \<and> marked c s t) \<or> holds n lib variables s"

lemma if_part_satisfied_result:
  assumes "sentry_if_part_satisfied n lib c variables s t = Some (Inr (b, t'))"
  shows "b = condition_satisfied n lib c variables t s" "t' = (if b \<and> sticky s \<and> \<not> marked c s t then record_sentry_if_part_satisfied c (sentry_id s) t else t)"
  using assms
  by (auto simp: sentry_if_part_satisfied_def condition_satisfied_def sticky_def holds_def marked_def
      split: if_splits dest!: out_bind_okD)

definition fires :: "(cmmn_plan_item \<Rightarrow> string list) \<Rightarrow> nat \<Rightarrow> cmmn_lib \<Rightarrow> string \<Rightarrow> case_variables \<Rightarrow> string \<Rightarrow> string
    \<Rightarrow> cmmn_plan_item list \<Rightarrow> cmmn_session \<Rightarrow> cmmn_sentry \<Rightarrow> bool" where
  "fires criterion n lib c variables source event items t s \<longleftrightarrow>
     (\<exists>p \<in> set items. sentry_id s \<in> set (criterion p))
     \<and> (\<exists>p \<in> set (plan_item_on_parts s). on_part_source_ref p = source \<and> on_part_standard_event p = event)
     \<and> list_all (on_part_satisfied c (is_on_event_trigger_mode s) t) (plan_item_on_parts s)
     \<and> condition_satisfied n lib c variables t s"

text \<open>On-parts name lifecycle events, not the mark.\<close>

definition lifecycle_sentry :: "cmmn_sentry \<Rightarrow> bool" where
  "lifecycle_sentry s \<longleftrightarrow> list_all (\<lambda>p. on_part_standard_event p \<noteq> SENTRY_IF_PART_SATISFIED_EVENT) (plan_item_on_parts s)"

lemma on_part_record:
  "on_part_standard_event p \<noteq> SENTRY_IF_PART_SATISFIED_EVENT \<Longrightarrow>
    on_part_satisfied c b (record_sentry_if_part_satisfied c' i t) p = on_part_satisfied c b t p"
  by (auto simp: on_part_satisfied_def record_sentry_if_part_satisfied_def human_task_plan_item_reached_standard_event_def)
    (auto simp: record_plan_item_standard_event_session_def)

lemma fires_record:
  assumes "lifecycle_sentry s" "i \<noteq> sentry_id s"
  shows "fires criterion n lib c variables source event items (record_sentry_if_part_satisfied c i t) s
    = fires criterion n lib c variables source event items t s"
  using assms by (auto simp: fires_def lifecycle_sentry_def condition_satisfied_def list_all_iff on_part_record)

text \<open>A sentry that fires and whose condition is noted for the first time.\<close>

definition newly_marked :: "(cmmn_plan_item \<Rightarrow> string list) \<Rightarrow> nat \<Rightarrow> cmmn_lib \<Rightarrow> string \<Rightarrow> case_variables \<Rightarrow> string \<Rightarrow> string
    \<Rightarrow> cmmn_plan_item list \<Rightarrow> cmmn_session \<Rightarrow> cmmn_sentry \<Rightarrow> bool" where
  "newly_marked criterion n lib c variables source event items t s \<longleftrightarrow>
     fires criterion n lib c variables source event items t s \<and> sticky s \<and> \<not> marked c s t"

lemma matching_ids_exact:
  assumes "matching_sentry_ids criterion n lib c variables source event items ss t = Some (Inr (ids, t'))"
    "list_all lifecycle_sentry ss" "distinct (map sentry_id ss)"
  shows "ids = map sentry_id (filter (fires criterion n lib c variables source event items t) ss)
    \<and> t' = fold (\<lambda>s. record_sentry_if_part_satisfied c (sentry_id s)) (filter (newly_marked criterion n lib c variables source event items t) ss) t"
  using assms
proof (induction ss arbitrary: t ids)
  case (Cons s ss)
  let ?fires = "fires criterion n lib c variables source event items" and ?newly = "newly_marked criterion n lib c variables source event items"
  have unchanged: "filter (?fires t1) ss = filter (?fires t) ss" "filter (?newly t1) ss = filter (?newly t) ss"
    if "t1 = t \<or> t1 = record_sentry_if_part_satisfied c (sentry_id s) t" for t1
    using that Cons.prems(2,3)
    by (auto intro!: filter_cong [OF refl] simp: list_all_iff newly_marked_def fires_record image_iff)
  show ?case
  proof (cases "list_ex (\<lambda>p. sentry_id s \<in> set (criterion p)) items
      \<and> list_ex (\<lambda>p. on_part_source_ref p = source \<and> on_part_standard_event p = event) (plan_item_on_parts s)
      \<and> sentry_plan_item_on_parts_satisfied c s t")
    case True
    then obtain b t1 ids1 where parts: "sentry_if_part_satisfied n lib c variables s t = Some (Inr (b, t1))"
        "matching_sentry_ids criterion n lib c variables source event items ss t1 = Some (Inr (ids1, t'))"
        "ids = (if b then sentry_id s # ids1 else ids1)"
      using Cons.prems(1) by (auto dest!: out_bind_okD split: if_splits)
    note result = if_part_satisfied_result [OF parts(1)]
    have t1: "t1 = t \<or> t1 = record_sentry_if_part_satisfied c (sentry_id s) t" using result(2) by simp
    have "ids1 = map sentry_id (filter (?fires t1) ss) \<and> t' = fold (\<lambda>s. record_sentry_if_part_satisfied c (sentry_id s)) (filter (?newly t1) ss) t1"
      using Cons.IH [OF parts(2)] Cons.prems(2,3) by simp
    moreover have fires: "?fires t s = b"
      using True result(1) by (auto simp: fires_def list_ex_iff on_parts_satisfied_iff)
    moreover have "t1 = (if ?newly t s then record_sentry_if_part_satisfied c (sentry_id s) t else t)"
      using result(2) fires by (simp add: newly_marked_def)
    ultimately show ?thesis using parts(3) unchanged [OF t1] by simp
  next
    case False
    then have "matching_sentry_ids criterion n lib c variables source event items ss t = Some (Inr (ids, t'))"
      using Cons.prems(1) by (auto split: if_splits)
    moreover have "\<not> ?fires t s" "\<not> ?newly t s"
      using False by (auto simp: newly_marked_def fires_def list_ex_iff on_parts_satisfied_iff)
    ultimately show ?thesis using Cons.IH Cons.prems(2,3) by simp
  qed
qed simp

text \<open>C28. The sentries that a lifecycle event fires are, in the order of the container, those that a plan item of the container has as
  criterion, that wait for this event, whose on-parts have all happened (in this command for the mode \<open>onEvent\<close>, ever
  otherwise) and whose condition is satisfied. The session afterwards is the one before with one mark added for each fired
  default-mode sentry with an on-part and a condition that was not marked yet; nothing else is written. The on-parts name
  lifecycle events, and the sentry ids are distinct.\<close>

theorem fired_sentries_exact:
  assumes "matching_sentry_ids criterion n lib c variables source event items ss t = Some (Inr (ids, t'))"
    "list_all lifecycle_sentry ss" "distinct (map sentry_id ss)"
  shows "ids = map sentry_id (filter (fires criterion n lib c variables source event items t) ss)
    \<and> t' = fold (\<lambda>s. record_sentry_if_part_satisfied c (sentry_id s)) (filter (newly_marked criterion n lib c variables source event items t) ss) t"
  using assms by (rule matching_ids_exact)

definition stage_item :: cmmn_plan_item where
  "stage_item = \<lparr>plan_item_id = ''stage'', plan_item_definition_ref = ''d'', plan_item_name = None, entry_criterion_ids = [],
     exit_criterion_ids = [''s''], manual_activation_rule = None, repetition_rule = None, required_rule = None,
     parent_completion_rule = None, completion_neutral_rule = None\<rparr>"

definition completed_session :: cmmn_session where
  "completed_session = record_plan_item_standard_event_session ''c'' ''task'' ''complete'' empty_session"

theorem fired_sentries_exact_witness:
  "\<exists>t. matching_sentry_ids exit_criterion_ids 1 cmmn_example_lib ''c'' (approved True) ''task'' ''complete'' [stage_item] [approved_sentry]
      completed_session = Some (Inr ([''s''], t))
    \<and> [''s''] = map sentry_id (filter (fires exit_criterion_ids 1 cmmn_example_lib ''c'' (approved True) ''task'' ''complete'' [stage_item]
      completed_session) [approved_sentry])
    \<and> t = fold (\<lambda>s. record_sentry_if_part_satisfied ''c'' (sentry_id s))
        (filter (newly_marked exit_criterion_ids 1 cmmn_example_lib ''c'' (approved True) ''task'' ''complete'' [stage_item] completed_session)
          [approved_sentry]) completed_session
    \<and> marked ''c'' approved_sentry t"
proof -
  have run: "matching_sentry_ids exit_criterion_ids 1 cmmn_example_lib ''c'' (approved True) ''task'' ''complete'' [stage_item] [approved_sentry]
      completed_session = Some (Inr ([''s''], record_sentry_if_part_satisfied ''c'' ''s'' completed_session))"
    by code_simp
  moreover have "list_all lifecycle_sentry [approved_sentry]" "distinct (map sentry_id [approved_sentry])" by code_simp+
  moreover have "marked ''c'' approved_sentry (record_sentry_if_part_satisfied ''c'' ''s'' completed_session)" by code_simp
  ultimately show ?thesis using fired_sentries_exact [OF run] by (intro exI conjI) simp_all
qed

text \<open>The events of the current command are kept without their case: a sentry in the mode \<open>onEvent\<close> has the same on-parts
  satisfied in every case instance, so an event of one case satisfies the sentry of another that the command touches.\<close>

theorem command_events_cross_cases:
  assumes "is_on_event_trigger_mode s" "plan_item_on_parts s = ps @ [p]"
    "\<forall>q \<in> set ps. (on_part_source_ref q, on_part_standard_event q) \<in> command_events t"
  shows "sentry_plan_item_on_parts_satisfied other_case s (record_command_event (on_part_source_ref p) (on_part_standard_event p) t)"
  using assms by (auto simp: on_parts_satisfied_iff on_part_satisfied_def record_command_event_def list_all_iff)

theorem command_events_cross_cases_witness:
  "sentry_plan_item_on_parts_satisfied ''another case'' (with_trigger_mode ''onEvent'' approved_sentry)
    (record_command_event ''task'' ''complete'' empty_session)"
  using command_events_cross_cases [of "with_trigger_mode ''onEvent'' approved_sentry" "[]"
      "\<lparr>on_part_id = ''p'', on_part_source_ref = ''task'', on_part_standard_event = ''complete''\<rparr>" empty_session "''another case''"]
  by (simp add: is_on_event_trigger_mode_def with_trigger_mode_def approved_sentry_def)

section \<open>A condition that cannot be evaluated\<close>

lemma record_loop_step:
  assumes "record_sentries_loop n lib c variables (x # ss) t = Some (Inr t')"
  obtains t1 where "record_sentries_loop n lib c variables ss t1 = Some (Inr t')"
    "t1 = t \<or> t1 = record_sentry_if_part_satisfied c (sentry_id x) t"
proof (cases "sticky x \<and> \<not> marked c x t")
  case True
  then obtain b where "record_sentries_loop n lib c variables ss (if b then record_sentry_if_part_satisfied c (sentry_id x) t else t) = Some (Inr t')"
    using assms by (auto simp: sticky_def marked_def dest!: out_bind_okD)
  then show ?thesis by (cases b) (auto intro: that)
next
  case False
  then have "record_sentries_loop n lib c variables ss t = Some (Inr t')"
    using assms by (auto simp: sticky_def marked_def split: if_splits)
  then show ?thesis by (rule that) simp
qed

lemma record_loop_evaluates:
  assumes "record_sentries_loop n lib c variables ss t = Some (Inr t')" "known_by_id (insert s (set ss))" "sticky s" "\<not> marked c s t"
    "s \<in> set ss"
  shows "\<exists>b. sentry_if_part_matches n lib s variables = Some (Inr b)"
  using assms(1,2,4,5)
proof (induction ss arbitrary: t)
  case (Cons x ss)
  have ids: "known_by_id (insert s (set ss))" "sentry_id x = sentry_id s \<longleftrightarrow> x = s"
    using Cons.prems(2) by (auto simp: known_by_id_def inj_on_def)
  show ?case
  proof (cases "x = s")
    case True
    then show ?thesis using Cons.prems(1,3) assms(3) by (auto simp: sticky_def marked_def dest!: out_bind_okD)
  next
    case False
    then have "s \<in> set ss" "sentry_id x \<noteq> sentry_id s" using Cons.prems(4) ids(2) by auto
    moreover obtain t1 where "record_sentries_loop n lib c variables ss t1 = Some (Inr t')"
        "t1 = t \<or> t1 = record_sentry_if_part_satisfied c (sentry_id x) t"
      using Cons.prems(1) by (rule record_loop_step)
    moreover from this have "\<not> marked c s t1" using Cons.prems(3) \<open>sentry_id x \<noteq> sentry_id s\<close> by auto
    ultimately show ?thesis using Cons.IH ids(1) by blast
  qed
qed simp

lemma sweep_evaluates:
  assumes "sticky s"
  shows "record_satisfied_sentry_if_parts_in_container n lib c variables model t = Some (Inr t') \<Longrightarrow>
      known_by_id (insert s (set (all_sentries model))) \<Longrightarrow> \<not> marked c s t \<Longrightarrow> s \<in> set (all_sentries model) \<Longrightarrow>
      \<exists>b. sentry_if_part_matches n lib s variables = Some (Inr b)"
    and "record_satisfied_in_stages n lib c variables stages t = Some (Inr t') \<Longrightarrow>
      known_by_id (insert s (set (concat (map all_sentries stages)))) \<Longrightarrow> \<not> marked c s t \<Longrightarrow>
      s \<in> set (concat (map all_sentries stages)) \<Longrightarrow> \<exists>b. sentry_if_part_matches n lib s variables = Some (Inr b)"
proof (induction n lib c variables model t and n lib c variables stages t arbitrary: t' and t'
    rule: record_satisfied_sentry_if_parts_in_container_record_satisfied_in_stages.induct)
  case (1 n lib c variables items stages sentries t)
  from 1(2) obtain t1 where t1: "record_sentries_loop n lib c variables sentries t = Some (Inr t1)"
      "record_satisfied_in_stages n lib c variables stages t1 = Some (Inr t')" by (auto dest!: out_bind_okD)
  have known: "known_by_id (insert s (set sentries))" "known_by_id (insert s (set (concat (map all_sentries stages))))"
    using 1(3) by (auto elim!: known_subset)
  show ?case
  proof (cases "s \<in> set sentries")
    case True
    then show ?thesis using record_loop_evaluates [OF t1(1) known(1) assms 1(4)] by blast
  next
    case False
    then have "\<not> marked c s t1" using record_loop_marks [OF t1(1) known(1) assms] 1(4) by simp
    then show ?thesis using 1(1) [OF t1(2) known(2)] 1(5) False by simp
  qed
next
  case (3 n lib c variables stage stages t)
  from 3(3) obtain t1 where t1: "record_satisfied_sentry_if_parts_in_container n lib c variables stage t = Some (Inr t1)"
      "record_satisfied_in_stages n lib c variables stages t1 = Some (Inr t')" by (auto dest!: out_bind_okD)
  have known: "known_by_id (insert s (set (all_sentries stage)))" "known_by_id (insert s (set (concat (map all_sentries stages))))"
    using 3(4) by (auto elim!: known_subset)
  show ?case
  proof (cases "s \<in> set (all_sentries stage)")
    case True
    then show ?thesis using 3(1) [OF t1(1) known(1) 3(5)] by blast
  next
    case False
    then have "\<not> marked c s t1" using sweep_marks(1) [OF assms t1(1) known(1)] 3(5) by simp
    then show ?thesis using 3(2) [OF t1(2) known(2)] 3(6) False by simp
  qed
qed simp

text \<open>When no condition runs out of fuel, neither does the sweep.\<close>

lemma record_loop_returns:
  assumes "\<forall>x \<in> set ss. sentry_if_part_matches n lib x variables \<noteq> None"
  shows "record_sentries_loop n lib c variables ss t \<noteq> None"
  using assms
proof (induction ss arbitrary: t)
  case (Cons x ss)
  then have rest: "record_sentries_loop n lib c variables ss t1 \<noteq> None" for t1 by simp
  from Cons.prems obtain r where r: "sentry_if_part_matches n lib x variables = Some r" by auto
  then show ?case using rest by (cases r) (simp_all add: r)
qed (simp add: out_ok_def)

lemma sweep_returns:
  "\<forall>x \<in> set (all_sentries model). sentry_if_part_matches n lib x variables \<noteq> None \<Longrightarrow>
     record_satisfied_sentry_if_parts_in_container n lib c variables model t \<noteq> None"
  "\<forall>x \<in> set (concat (map all_sentries stages)). sentry_if_part_matches n lib x variables \<noteq> None \<Longrightarrow>
     record_satisfied_in_stages n lib c variables stages t \<noteq> None"
proof (induction n lib c variables model t and n lib c variables stages t
    rule: record_satisfied_sentry_if_parts_in_container_record_satisfied_in_stages.induct)
  case (1 n lib c variables items stages sentries t)
  obtain r where r: "record_sentries_loop n lib c variables sentries t = Some r"
    using record_loop_returns [of sentries n lib variables c t] 1(2) by auto
  then show ?case using 1 by (cases r) auto
next
  case (3 n lib c variables stage stages t)
  then obtain r where r: "record_satisfied_sentry_if_parts_in_container n lib c variables stage t = Some r" by auto
  then show ?case using 3 by (cases r) auto
qed (simp add: out_ok_def)

lemma sized_sum_sentry:
  assumes "plain_variable a" "plain_variable b" "plain_sum r"
    "s = with_if_part (''size('' @ a @ '') + size('' @ b @ '') == '' @ operand_text r) (new_sentry i p)"
  shows "sticky s" "sentry_if_part_matches (Suc n) lib s variables = Some (Inl (CmmnExecution ''unexpected trailing tokens in expression''))"
proof -
  obtain e where e: "parse_cmmn_if_part (''size('' @ a @ '') + size('' @ b @ '') == '' @ operand_text r) = Some (Inr e)"
      "evaluate_to_bool (Suc n) lib variables e = Some (Inl (CmmnExecution ''unexpected trailing tokens in expression''))"
    using sized_sum_unreadable [OF assms(1-3)] by blast
  show "sticky s" "sentry_if_part_matches (Suc n) lib s variables = Some (Inl (CmmnExecution ''unexpected trailing tokens in expression''))"
    using e assms(4)
    by (simp_all add: with_if_part_def new_sentry_def sticky_def is_multi_part_def is_default_trigger_mode_def
        sentry_if_part_matches_def evaluate_if_part_condition_def)
qed

text \<open>C40. A default-mode sentry with one on-part, deployed with a condition of the form \<open>size(a) + size(b) == r\<close> and not marked yet,
  makes every sweep over the sentries of its case fail with an error, whatever the variables are (when no condition of
  the case exhausts the fuel of its evaluation), so every command of the case that sweeps its sentries fails.\<close>

theorem unreadable_condition_blocks_the_case:
  assumes "plain_variable a" "plain_variable b" "plain_sum r"
    "s = with_if_part (''size('' @ a @ '') + size('' @ b @ '') == '' @ operand_text r) (new_sentry i p)"
    "s \<in> set (all_sentries model)" "known_by_id (set (all_sentries model))" "\<not> marked c s t"
    "\<forall>x \<in> set (all_sentries model). sentry_if_part_matches (Suc n) lib x variables \<noteq> None"
  shows "\<exists>err. record_satisfied_sentry_if_parts (Suc n) lib c variables model t = Some (Inl err)"
proof -
  note s = sized_sum_sentry [OF assms(1-4)]
  obtain out where out: "record_satisfied_sentry_if_parts (Suc n) lib c variables model t = Some out"
    using sweep_returns(1) [OF assms(8)] by (auto simp: record_satisfied_sentry_if_parts_def)
  show ?thesis
  proof (cases out)
    case (Inr t')
    then obtain b where "sentry_if_part_matches (Suc n) lib s variables = Some (Inr b)"
      using sweep_evaluates(1) [OF s(1)] assms(5-7) out by (fastforce simp: record_satisfied_sentry_if_parts_def insert_absorb)
    then show ?thesis by (simp add: s(2))
  qed (use out in simp)
qed

definition sizes_sentry :: cmmn_sentry where
  "sizes_sentry = with_if_part ''size(a) + size(b) == 4''
     (new_sentry ''s'' \<lparr>on_part_id = ''p'', on_part_source_ref = ''task'', on_part_standard_event = ''complete''\<rparr>)"

theorem unreadable_condition_blocks_the_case_witness:
  "\<exists>err. record_satisfied_sentry_if_parts 1 cmmn_example_lib ''c'' [] (Container [] [] [sizes_sentry]) empty_session = Some (Inl err)"
proof -
  have plain: "plain_variable ''a''" "plain_variable ''b''" "plain_sum (PLiteral (LitNumber ''4''))" by code_simp+
  have s: "sizes_sentry = with_if_part (''size('' @ ''a'' @ '') + size('' @ ''b'' @ '') == '' @ operand_text (PLiteral (LitNumber ''4'')))
     (new_sentry ''s'' \<lparr>on_part_id = ''p'', on_part_source_ref = ''task'', on_part_standard_event = ''complete''\<rparr>)"
    by (simp add: sizes_sentry_def)
  have "sizes_sentry \<in> set (all_sentries (Container [] [] [sizes_sentry]))" "known_by_id (set (all_sentries (Container [] [] [sizes_sentry])))"
    "\<not> marked ''c'' sizes_sentry empty_session"
    by (simp_all add: known_by_id_def marked_def plan_item_standard_event_occurred_def empty_session_def)
  moreover have "\<forall>x \<in> set (all_sentries (Container [] [] [sizes_sentry])). sentry_if_part_matches (Suc 0) cmmn_example_lib x [] \<noteq> None"
    by (simp add: sized_sum_sentry(2) [OF plain s])
  ultimately have "\<exists>err. record_satisfied_sentry_if_parts (Suc 0) cmmn_example_lib ''c'' [] (Container [] [] [sizes_sentry]) empty_session = Some (Inl err)"
    by (rule unreadable_condition_blocks_the_case [OF plain s])
  then show ?thesis by simp
qed

end
