(* ===== verification/Cmmn_Sentry_Api.thy ===== *)
theory Cmmn_Sentry_Api
  imports Cmmn_Sentries
begin

text \<open>
  The evaluator that the crate exports with its model (\<open>CmmnSentry::evaluate_for_event\<close> and what it calls in
  \<open>flowable-cmmn-engine/src/models.rs\<close>), a second evaluator of the conditions besides that of \<open>runtime.rs\<close>. A variable
  context is the lookup of a name. The two evaluators agree on a class of conditions and differ outside it.
\<close>

section \<open>Literals\<close>

type_synonym variable_context = "string \<Rightarrow> json option"

definition parse_number_literal :: "string \<Rightarrow> json option" where
  "parse_number_literal value =
     (case parse_i64_text value of
        Some i \<Rightarrow> Some (json_of_i64 i)
      | None \<Rightarrow>
          (case parse_f64_text value of
             Some f \<Rightarrow> if f64_is_finite f then Some (JsonNumber (JsonFloat f)) else None
           | None \<Rightarrow> None))"

definition resolve_literal :: "variable_context \<Rightarrow> sentry_if_part_literal \<Rightarrow> json option" where
  "resolve_literal ctx lit =
     (case lit of
        LitBoolean b \<Rightarrow> Some (JsonBool b)
      | LitString s \<Rightarrow> Some (JsonString s)
      | LitNumber n \<Rightarrow> (case parse_number_literal n of Some v \<Rightarrow> Some v | None \<Rightarrow> Some JsonNull)
      | LitNull \<Rightarrow> Some JsonNull
      | LitVariable name \<Rightarrow> ctx name)"

fun resolved_truthy :: "json \<Rightarrow> bool" where
  "resolved_truthy JsonNull = False"
| "resolved_truthy (JsonBool b) = b"
| "resolved_truthy (JsonString s) = (s \<noteq> [])"
| "resolved_truthy (JsonArray xs) = (xs \<noteq> [])"
| "resolved_truthy (JsonObject entries) = (entries \<noteq> [])"
| "resolved_truthy (JsonNumber n) = (case as_f64 (JsonNumber n) of Some f \<Rightarrow> \<not> f64_eq f (f64_zero False) | None \<Rightarrow> False)"

definition both_equal :: "f64 option \<Rightarrow> f64 option \<Rightarrow> bool" where
  "both_equal a b = (case (a, b) of (Some x, Some y) \<Rightarrow> f64_eq x y | _ \<Rightarrow> False)"

definition resolved_equals :: "json \<Rightarrow> json \<Rightarrow> bool" where
  "resolved_equals lhs other =
     (if json_eq lhs other then True
      else case (lhs, other) of
        (JsonNumber a, JsonNumber b) \<Rightarrow> both_equal (as_f64 lhs) (as_f64 other)
      | (JsonString s, JsonNumber n) \<Rightarrow> both_equal (parse_f64_text s) (as_f64 other)
      | (JsonNumber n, JsonString s) \<Rightarrow> both_equal (as_f64 lhs) (parse_f64_text s)
      | _ \<Rightarrow> False)"

definition value_as_f64 :: "json \<Rightarrow> f64 option" where
  "value_as_f64 v =
     (case v of
        JsonNumber n \<Rightarrow> as_f64 v
      | JsonString s \<Rightarrow> parse_f64_text s
      | JsonBool b \<Rightarrow> Some (f64_of_int (if b then 1 else 0))
      | _ \<Rightarrow> None)"

definition literal_truthy :: "variable_context \<Rightarrow> sentry_if_part_literal \<Rightarrow> bool" where
  "literal_truthy ctx lit = (case resolve_literal ctx lit of Some v \<Rightarrow> resolved_truthy v | None \<Rightarrow> False)"

definition equals_value :: "variable_context \<Rightarrow> sentry_if_part_literal \<Rightarrow> json \<Rightarrow> bool" where
  "equals_value ctx lit candidate = (case resolve_literal ctx lit of Some v \<Rightarrow> resolved_equals v candidate | None \<Rightarrow> False)"

definition literal_as_string :: "cmmn_lib \<Rightarrow> variable_context \<Rightarrow> sentry_if_part_literal \<Rightarrow> string option" where
  "literal_as_string lib ctx lit =
     map_option (\<lambda>v. case v of JsonString s \<Rightarrow> s | _ \<Rightarrow> json_to_text lib v) (resolve_literal ctx lit)"

definition apply_numeric :: "sentry_if_part_literal \<Rightarrow> sentry_if_part_operator \<Rightarrow> int \<Rightarrow> string + bool" where
  "apply_numeric lit operator actual =
     (case lit of
        LitNumber value \<Rightarrow>
          (case parse_i64_text value of
             Some expected \<Rightarrow> Inr (compare_numbers actual operator expected)
           | None \<Rightarrow> Inl (''Size/Length literal must be a number, got '' @ in_quotes value))
      | _ \<Rightarrow> Inl ''Size/Length literal must be a numeric literal'')"

definition ordering_error :: string where
  "ordering_error = ''ordering comparisons require comparable numeric values''"

definition apply_literal :: "variable_context \<Rightarrow> sentry_if_part_literal \<Rightarrow> json option \<Rightarrow> sentry_if_part_operator \<Rightarrow> string + bool" where
  "apply_literal ctx lit actual operator =
     (let resolved = resolve_literal ctx lit;
          cmp = (case (resolved, actual) of
                   (Some l, Some r) \<Rightarrow> resolved_equals l r
                 | (Some l, None) \<Rightarrow> resolved_equals l JsonNull
                 | (None, Some _) \<Rightarrow> False
                 | (None, None) \<Rightarrow> True);
          ordered = (\<lambda>test. rbind (ok_or ordering_error (Option.bind actual value_as_f64)) (\<lambda>l.
                            rbind (ok_or ordering_error (Option.bind resolved value_as_f64)) (\<lambda>r. Inr (test l r))))
      in case operator of
           IfEqual \<Rightarrow> Inr cmp
         | IfNotEqual \<Rightarrow> Inr (\<not> cmp)
         | IfGreaterThan \<Rightarrow> ordered (\<lambda>l r. f64_less r l)
         | IfGreaterThanOrEqual \<Rightarrow> ordered (\<lambda>l r. f64_le r l)
         | IfLessThan \<Rightarrow> ordered f64_less
         | IfLessThanOrEqual \<Rightarrow> ordered f64_le)"

section \<open>The exported evaluator\<close>

fun sized_value :: "json option \<Rightarrow> int option" where
  "sized_value (Some (JsonArray xs)) = Some (int (length xs))"
| "sized_value (Some (JsonString s)) = Some (int (length s))"
| "sized_value (Some (JsonObject entries)) = Some (int (length entries))"
| "sized_value _ = None"

fun length_value :: "json option \<Rightarrow> int option" where
  "length_value (Some (JsonString s)) = Some (int (length s))"
| "length_value (Some (JsonArray xs)) = Some (int (length xs))"
| "length_value _ = None"

definition contains_matched :: "cmmn_lib \<Rightarrow> variable_context \<Rightarrow> json option \<Rightarrow> sentry_if_part_literal \<Rightarrow> bool" where
  "contains_matched lib ctx collection lit =
     (case collection of
        Some (JsonArray items) \<Rightarrow> list_ex (equals_value ctx lit) items
      | Some (JsonString s) \<Rightarrow> (case literal_as_string lib ctx lit of Some needle \<Rightarrow> str_contains needle s | None \<Rightarrow> False)
      | _ \<Rightarrow> False)"

definition apply_sized :: "int option \<Rightarrow> sentry_if_part_literal \<Rightarrow> sentry_if_part_operator \<Rightarrow> string + bool" where
  "apply_sized size_of lit operator = (case size_of of Some k \<Rightarrow> apply_numeric lit operator k | None \<Rightarrow> Inr False)"

fun exported_evaluate :: "cmmn_lib \<Rightarrow> variable_context \<Rightarrow> cmmn_sentry_if_part_expression \<Rightarrow> string + bool"
and exported_fold :: "cmmn_lib \<Rightarrow> variable_context \<Rightarrow> sentry_if_part_logical_operator \<Rightarrow> bool \<Rightarrow> cmmn_sentry_if_part_expression list \<Rightarrow> string + bool" where
  "exported_evaluate lib ctx (CLiteral lit) = Inr (literal_truthy ctx lit)"
| "exported_evaluate lib ctx (CComparison name operator lit) = apply_literal ctx lit (ctx name) operator"
| "exported_evaluate lib ctx (CLogical operator operands) =
     (case operands of
        [] \<Rightarrow> Inr False
      | first # rest \<Rightarrow> rbind (exported_evaluate lib ctx first) (\<lambda>acc. exported_fold lib ctx operator acc rest))"
| "exported_evaluate lib ctx (CNot operand) = rbind (exported_evaluate lib ctx operand) (\<lambda>b. Inr (\<not> b))"
| "exported_evaluate lib ctx (CEmpty name) = Inr (if_part_variable_is_empty (ctx name))"
| "exported_evaluate lib ctx (CContains name lit expected) = Inr (contains_matched lib ctx (ctx name) lit = expected)"
| "exported_evaluate lib ctx (CStartsWith name prefix) = Inr (on_string (ctx name) (str_starts_with prefix))"
| "exported_evaluate lib ctx (CEndsWith name suffix) = Inr (on_string (ctx name) (\<lambda>s. strip_suffix_str suffix s \<noteq> None))"
| "exported_evaluate lib ctx (CMatches name regex) =
     (case regex_matches lib regex [] of
        None \<Rightarrow> Inl (''invalid regex in sentry ifPart: '' @ regex_error lib regex)
      | Some _ \<Rightarrow> Inr (on_string (ctx name) (\<lambda>s. regex_matches lib regex s = Some True)))"
| "exported_evaluate lib ctx (CSize name operator lit) = apply_sized (sized_value (ctx name)) lit operator"
| "exported_evaluate lib ctx (CLength name operator lit) = apply_sized (length_value (ctx name)) lit operator"
| "exported_evaluate lib ctx (CMethodCall obj method args) = Inl ''C1 sentry ifPart does not yet support method calls''"
| "exported_evaluate lib ctx (CArithmetic left operator right) = Inl ''C1 sentry ifPart does not yet support arithmetic expressions''"
| "exported_evaluate lib ctx (CTernary condition true_expr false_expr) = Inl ''C1 sentry ifPart does not yet support ternary expressions''"
| "exported_evaluate lib ctx (CPropertyAccess obj property) = Inl ''C1 sentry ifPart does not yet support property/index access''"
| "exported_evaluate lib ctx (CIndexAccess obj index) = Inl ''C1 sentry ifPart does not yet support property/index access''"
| "exported_fold lib ctx operator acc [] = Inr acc"
| "exported_fold lib ctx operator acc (e # es) =
     rbind (exported_evaluate lib ctx e) (\<lambda>b.
       exported_fold lib ctx operator (case operator of IfAnd \<Rightarrow> acc \<and> b | IfOr \<Rightarrow> acc \<or> b) es)"

record sentry_lifecycle_event =
  lifecycle_source_id :: string
  lifecycle_standard_event :: string

definition evaluate_for_event :: "cmmn_lib \<Rightarrow> variable_context \<Rightarrow> sentry_lifecycle_event \<Rightarrow> cmmn_sentry \<Rightarrow> bool" where
  "evaluate_for_event lib ctx event s =
     (if \<not> list_all (\<lambda>p. on_part_source_ref p = lifecycle_source_id event \<and> on_part_standard_event p = lifecycle_standard_event event)
            (plan_item_on_parts s) then False
      else if \<not> list_all (\<lambda>p. file_part_item_ref p = lifecycle_source_id event \<and> file_part_standard_event p = lifecycle_standard_event event)
            (case_file_item_on_parts s) then False
      else case sentry_if_part s of
        Some e \<Rightarrow> (case exported_evaluate lib ctx e of Inr b \<Rightarrow> b | Inl _ \<Rightarrow> False)
      | None \<Rightarrow> True)"

section \<open>Agreement of the two evaluators\<close>

definition simple_name :: "string \<Rightarrow> bool" where
  "simple_name x \<longleftrightarrow> identifier_text x \<and> word_token x = TkIdentifier x"

definition simple_literal :: "sentry_if_part_literal \<Rightarrow> bool" where
  "simple_literal lit \<longleftrightarrow> (case lit of LitBoolean _ \<Rightarrow> True | LitNull \<Rightarrow> True | LitString s \<Rightarrow> parse_f64_text s = None | _ \<Rightarrow> False)"

fun simple_condition :: "cmmn_sentry_if_part_expression \<Rightarrow> bool" where
  "simple_condition (CComparison x operator lit) = (simple_name x \<and> (operator = IfEqual \<or> operator = IfNotEqual) \<and> simple_literal lit)"
| "simple_condition (CEmpty x) = simple_name x"
| "simple_condition (CStartsWith x prefix) = simple_name x"
| "simple_condition (CEndsWith x suffix) = simple_name x"
| "simple_condition (CNot e) = simple_condition e"
| "simple_condition (CLogical operator es) = (es \<noteq> [] \<and> list_all simple_condition es)"
| "simple_condition _ = False"

fun condition_depth :: "cmmn_sentry_if_part_expression \<Rightarrow> nat" where
  "condition_depth (CNot e) = Suc (condition_depth e)"
| "condition_depth (CLogical operator es) = Suc (Max (insert 0 (condition_depth ` set es)))"
| "condition_depth _ = 1"

lemma simple_name_path:
  assumes "simple_name x"
  shows "variable_path_ok x []" "plain_variable x" "resolve_if_part_variable_path variables x = map_of variables x"
proof -
  show ok: "variable_path_ok x []" using assms by (simp add: simple_name_def variable_path_ok_def)
  then have "is_supported_if_part_variable_name x" unfolding supported_name_iff by (metis append_Nil2 render_steps_simps(1))
  then show "plain_variable x" using assms by (simp add: simple_name_def plain_variable_def)
  have "Option.bind m (follow_steps []) = m" for m by (cases m) simp_all
  with resolve_path [OF ok, of variables] show "resolve_if_part_variable_path variables x = map_of variables x" by simp
qed

lemma comparison_left:
  assumes "simple_name x"
  shows "resolve_if_part_comparison_operand (resolve_if_part_value_expression (Suc n) lib variables) variables x
    = out_ok (json_value_to_if_part_comparable (map_of variables x))"
proof -
  have "left_value lib variables (PLiteral (LitVariable x)) = json_value_to_if_part_comparable (map_of variables x)"
    by (simp add: left_value_def resolve_if_part_literal_value_def simple_name_path [OF assms] split: option.splits)
  then show ?thesis
    using left_operand [of "PLiteral (LitVariable x)" n lib variables] simple_name_path(2) [OF assms]
    by (simp add: MAX_IF_PART_EVAL_DEPTH_def)
qed

lemma simple_equality:
  assumes "simple_literal lit"
  shows "\<exists>v. resolve_literal ctx lit = Some v \<and> resolve_if_part_literal value_of variables lit = out_ok (json_value_to_if_part_comparable (Some v))
    \<and> comparable_eq (json_value_to_if_part_comparable actual) (json_value_to_if_part_comparable (Some v))
        = resolved_equals v (case actual of Some a \<Rightarrow> a | None \<Rightarrow> JsonNull)"
proof (cases lit)
  case (LitString s)
  then have "parse_f64_text s = None" using assms by (simp add: simple_literal_def)
  then show ?thesis using LitString
    by (cases actual; cases "the actual")
      (auto simp: resolve_literal_def resolve_if_part_literal_def resolved_equals_def both_equal_def split: option.splits)
next
  case (LitBoolean b)
  then show ?thesis
    by (cases actual; cases "the actual")
      (auto simp: resolve_literal_def resolve_if_part_literal_def resolved_equals_def split: option.splits)
next
  case LitNull
  then show ?thesis
    by (cases actual; cases "the actual")
      (auto simp: resolve_literal_def resolve_if_part_literal_def resolved_equals_def split: option.splits)
qed (use assms in \<open>simp_all add: simple_literal_def\<close>)

lemma comparison_agrees:
  assumes "simple_condition (CComparison x operator lit)"
  shows "\<exists>b. exported_evaluate lib (map_of variables) (CComparison x operator lit) = Inr b
    \<and> evaluate_to_bool_depth (resolve_if_part_value_expression (Suc n) lib variables) lib variables (Suc d) (CComparison x operator lit) = out_ok b"
proof -
  let ?reader = "resolve_if_part_value_expression (Suc n) lib variables"
  have parts: "simple_name x" "operator = IfEqual \<or> operator = IfNotEqual" "simple_literal lit" using assms by auto
  obtain v where v: "resolve_literal (map_of variables) lit = Some v"
      "resolve_if_part_literal ?reader variables lit = out_ok (json_value_to_if_part_comparable (Some v))"
      "comparable_eq (json_value_to_if_part_comparable (map_of variables x)) (json_value_to_if_part_comparable (Some v))
        = resolved_equals v (case map_of variables x of Some a \<Rightarrow> a | None \<Rightarrow> JsonNull)"
    using simple_equality [OF parts(3), of "map_of variables" ?reader variables "map_of variables x"] by blast
  have "evaluate_to_bool_depth ?reader lib variables (Suc d) (CComparison x operator lit)
      = out_ok (compare_operands (json_value_to_if_part_comparable (map_of variables x)) operator (json_value_to_if_part_comparable (Some v)))"
    unfolding evaluate_to_bool_depth.simps
    using v(2) comparison_left [OF parts(1), of n lib variables]
    by (simp add: evaluate_if_part_comparison_def)
  then have "evaluate_to_bool_depth ?reader lib variables (Suc d) (CComparison x operator lit)
      = out_ok ((operator = IfEqual) = resolved_equals v (case map_of variables x of Some a \<Rightarrow> a | None \<Rightarrow> JsonNull))"
    using parts(2) unfolding v(3) [symmetric] by (elim disjE) (simp_all add: compare_operands_def)
  moreover have "exported_evaluate lib (map_of variables) (CComparison x operator lit)
      = Inr ((operator = IfEqual) = resolved_equals v (case map_of variables x of Some a \<Rightarrow> a | None \<Rightarrow> JsonNull))"
    using parts(2) v(1) by (elim disjE) (simp_all add: apply_literal_def split: option.splits)
  ultimately show ?thesis by blast
qed

text \<open>Both loops over the operands of a logical condition, when every operand has a value.\<close>

lemma fold_values:
  assumes "\<And>e. e \<in> set es \<Longrightarrow> exported_evaluate lib ctx e = Inr (truth e)"
  shows "exported_fold lib ctx operator acc es = Inr (case operator of IfAnd \<Rightarrow> acc \<and> list_all truth es | IfOr \<Rightarrow> acc \<or> list_ex truth es)"
  using assms by (induction es arbitrary: acc) (auto split: sentry_if_part_logical_operator.splits)

lemma operand_values:
  assumes "\<And>e. e \<in> set es \<Longrightarrow> f e = out_ok (truth e)"
  shows "all_operands f es = out_ok (list_all truth es)" "any_operand f es = out_ok (list_ex truth es)"
  using assms by (induction es) auto

lemma evaluators_agree_depth:
  "simple_condition e \<Longrightarrow> condition_depth e \<le> d \<Longrightarrow>
    \<exists>b. exported_evaluate lib (map_of variables) e = Inr b
      \<and> evaluate_to_bool_depth (resolve_if_part_value_expression (Suc n) lib variables) lib variables d e = out_ok b"
proof (induction e arbitrary: d)
  case (CComparison x operator lit)
  then obtain d' where "d = Suc d'" by (cases d) auto
  then show ?case using comparison_agrees CComparison.prems by blast
next
  case (CLogical operator es)
  let ?reader = "resolve_if_part_value_expression (Suc n) lib variables"
  obtain d' where d: "d = Suc d'" using CLogical.prems by (cases d) auto
  have "\<exists>b. exported_evaluate lib (map_of variables) e = Inr b \<and> evaluate_to_bool_depth ?reader lib variables d' e = out_ok b"
    if "e \<in> set es" for e
    using that CLogical.prems d by (intro CLogical.IH) (auto simp: list_all_iff)
  then obtain truth where truth: "\<And>e. e \<in> set es \<Longrightarrow> exported_evaluate lib (map_of variables) e = Inr (truth e)"
      "\<And>e. e \<in> set es \<Longrightarrow> evaluate_to_bool_depth ?reader lib variables d' e = out_ok (truth e)" by metis
  obtain first rest where es: "es = first # rest" using CLogical.prems by (cases es) auto
  have exported: "exported_evaluate lib (map_of variables) (CLogical operator es)
      = Inr (case operator of IfAnd \<Rightarrow> list_all truth es | IfOr \<Rightarrow> list_ex truth es)"
    using truth(1) fold_values [of rest lib "map_of variables" truth operator "truth first"]
    by (simp add: es split: sentry_if_part_logical_operator.splits)
  have "evaluate_to_bool_depth ?reader lib variables d (CLogical operator es)
      = out_ok (case operator of IfAnd \<Rightarrow> list_all truth es | IfOr \<Rightarrow> list_ex truth es)"
    unfolding d evaluate_to_bool_depth.simps
    using operand_values [of es "evaluate_to_bool_depth ?reader lib variables d'" truth, OF truth(2)]
    by (simp split: sentry_if_part_logical_operator.splits)
  with exported show ?case by blast
next
  case (CNot e)
  obtain d' where d: "d = Suc d'" using CNot.prems by (cases d) auto
  obtain b where "exported_evaluate lib (map_of variables) e = Inr b"
      "evaluate_to_bool_depth (resolve_if_part_value_expression (Suc n) lib variables) lib variables d' e = out_ok b"
    using CNot.IH [of d'] CNot.prems d by auto
  then show ?case unfolding d by (simp add: evaluate_to_bool_depth.simps)
next
  case (CEmpty x)
  then obtain d' where "d = Suc d'" by (cases d) auto
  then show ?case using CEmpty.prems by (simp add: evaluate_to_bool_depth.simps simple_name_path)
next
  case (CStartsWith x prefix)
  then obtain d' where "d = Suc d'" by (cases d) auto
  then show ?case using CStartsWith.prems by (simp add: evaluate_to_bool_depth.simps simple_name_path)
next
  case (CEndsWith x suffix)
  then obtain d' where "d = Suc d'" by (cases d) auto
  then show ?case using CEndsWith.prems by (simp add: evaluate_to_bool_depth.simps simple_name_path)
qed simp_all

text \<open>C29. The evaluator of the run time and the one the crate exports with its model agree on every condition of depth at most 64 that is built
  with negations, conjunctions and disjunctions from emptiness, prefix and suffix tests and from equalities of a variable
  (a plain name) with a truth value, null or a text that is not a number; both give a value for every such condition.
  Outside this class they may differ: on numeric text they do.\<close>

theorem evaluators_agree:
  assumes "simple_condition e" "condition_depth e \<le> MAX_IF_PART_EVAL_DEPTH"
  shows "\<exists>b. exported_evaluate lib (map_of variables) e = Inr b \<and> evaluate_to_bool (Suc n) lib variables e = Some (Inr b)"
  using evaluators_agree_depth [OF assms, of lib variables n] by (simp add: evaluate_to_bool_def out_ok_def)

theorem evaluators_agree_witness:
  "\<exists>b. exported_evaluate cmmn_example_lib (map_of [(''state'', JsonString ''open'')])
      (CLogical IfAnd [CComparison ''state'' IfEqual (LitString ''open''), CNot (CEmpty ''owner'')]) = Inr b
    \<and> evaluate_to_bool 1 cmmn_example_lib [(''state'', JsonString ''open'')]
      (CLogical IfAnd [CComparison ''state'' IfEqual (LitString ''open''), CNot (CEmpty ''owner'')]) = Some (Inr b)"
proof -
  have "simple_condition (CLogical IfAnd [CComparison ''state'' IfEqual (LitString ''open''), CNot (CEmpty ''owner'')])"
    "condition_depth (CLogical IfAnd [CComparison ''state'' IfEqual (LitString ''open''), CNot (CEmpty ''owner'')]) \<le> MAX_IF_PART_EVAL_DEPTH"
    by code_simp+
  from evaluators_agree [OF this, of cmmn_example_lib "[(''state'', JsonString ''open'')]" 0] show ?thesis by simp
qed

text \<open>A variable that holds a text of digits equals the number for the exported evaluator and never for the one of the run time.\<close>

theorem evaluators_differ_on_numeric_text:
  assumes "simple_name x"
  shows "exported_evaluate lib (map_of [(x, JsonString ''5'')]) (CComparison x IfEqual (LitNumber ''5'')) = Inr True
    \<and> evaluate_to_bool (Suc n) lib [(x, JsonString ''5'')] (CComparison x IfEqual (LitNumber ''5'')) = Some (Inr False)"
proof
  have "resolved_equals (the (parse_number_literal ''5'')) (JsonString ''5'')" "parse_number_literal ''5'' \<noteq> None" by code_simp+
  then show "exported_evaluate lib (map_of [(x, JsonString ''5'')]) (CComparison x IfEqual (LitNumber ''5'')) = Inr True"
    by (auto simp: apply_literal_def resolve_literal_def split: option.splits)
  have "resolve_if_part_literal value_of variables (LitNumber ''5'') = out_ok (map_option ComparableNumber (parse_f64_text ''5''))"
    for value_of variables by (simp add: resolve_if_part_literal_def)
  moreover have "\<not> comparable_eq (Some (ComparableString ''5'')) (map_option ComparableNumber (parse_f64_text ''5''))" by code_simp
  ultimately show "evaluate_to_bool (Suc n) lib [(x, JsonString ''5'')] (CComparison x IfEqual (LitNumber ''5'')) = Some (Inr False)"
    using comparison_left [OF assms, of n lib "[(x, JsonString ''5'')]"]
    by (simp add: evaluate_to_bool_def MAX_IF_PART_EVAL_DEPTH_def numeral_eq_Suc evaluate_to_bool_depth.simps evaluate_if_part_comparison_def
        compare_operands_def)
qed

theorem evaluators_differ_on_numeric_text_witness:
  "exported_evaluate cmmn_example_lib (map_of [(''count'', JsonString ''5'')]) (CComparison ''count'' IfEqual (LitNumber ''5'')) = Inr True
    \<and> evaluate_to_bool 1 cmmn_example_lib [(''count'', JsonString ''5'')] (CComparison ''count'' IfEqual (LitNumber ''5'')) = Some (Inr False)"
proof -
  have "simple_name ''count''" by code_simp
  from evaluators_differ_on_numeric_text [OF this, of cmmn_example_lib 0] show ?thesis by simp
qed

end
