(* ===== verification/Cmmn_Completion.thy ===== *)
theory Cmmn_Completion
  imports Cmmn_Sentries
begin

text \<open>
  When a stage or a case is complete (\<open>flowable-cmmn-engine/src/runtime.rs\<close>): the rules of plan items, the rows that are still
  open below the container, the rows a rule excuses, and the required plan items. Modelled is the decision of
  \<open>maybe_complete_stage\<close> and \<open>maybe_complete_case\<close> up to the test that leads to completion. A count of the database is
  the length of the selected rows; \<open>saturating_sub\<close> keeps its width.
\<close>

section \<open>Rules of plan items\<close>

definition plan_item_rule_matches :: "nat \<Rightarrow> cmmn_lib \<Rightarrow> case_variables \<Rightarrow> cmmn_sentry_if_part_expression option \<Rightarrow> bool outcome" where
  "plan_item_rule_matches n lib variables rule =
     (case rule of Some e \<Rightarrow> evaluate_if_part_condition n lib e variables | None \<Rightarrow> out_ok False)"

definition manual_activation_rule_matches :: "nat \<Rightarrow> cmmn_lib \<Rightarrow> case_variables \<Rightarrow> cmmn_plan_item \<Rightarrow> bool outcome" where
  "manual_activation_rule_matches n lib variables p = plan_item_rule_matches n lib variables (manual_activation_rule p)"

definition repetition_rule_matches :: "nat \<Rightarrow> cmmn_lib \<Rightarrow> case_variables \<Rightarrow> cmmn_plan_item \<Rightarrow> bool outcome" where
  "repetition_rule_matches n lib variables p = plan_item_rule_matches n lib variables (repetition_rule p)"

definition required_rule_matches :: "nat \<Rightarrow> cmmn_lib \<Rightarrow> case_variables \<Rightarrow> cmmn_plan_item \<Rightarrow> bool outcome" where
  "required_rule_matches n lib variables p = plan_item_rule_matches n lib variables (required_rule p)"

text \<open>A condition that fails counts as false here.\<close>

definition evaluate_auto_complete :: "nat \<Rightarrow> cmmn_lib \<Rightarrow> case_variables \<Rightarrow> bool \<Rightarrow> cmmn_sentry_if_part_expression option \<Rightarrow> bool outcome" where
  "evaluate_auto_complete n lib variables auto_complete condition =
     (case condition of
        Some e \<Rightarrow>
          (case evaluate_if_part_condition n lib e variables of
             None \<Rightarrow> None
           | Some (Inl _) \<Rightarrow> out_ok False
           | Some (Inr b) \<Rightarrow> out_ok b)
      | None \<Rightarrow> out_ok auto_complete)"

datatype plan_item_completion_state = CompletionActive | CompletionAvailable | CompletionEnabled

definition plan_item_ignored_for_completion :: "string option \<Rightarrow> bool \<Rightarrow> plan_item_completion_state \<Rightarrow> bool \<Rightarrow> bool \<Rightarrow> bool" where
  "plan_item_ignored_for_completion parent_rule completion_neutral state already_completed repeatable =
     (let available_or_enabled = (state = CompletionAvailable \<or> state = CompletionEnabled) in
      if (case parent_rule of
            Some rule \<Rightarrow>
              rule = ''ignore''
              \<or> (rule = ''ignoreIfAvailableOrEnabled'' \<and> available_or_enabled)
              \<or> (rule = ''ignoreIfAvailable'' \<and> state = CompletionAvailable)
              \<or> (rule = ''ignoreAfterFirstCompletion'' \<and> already_completed \<and> (state = CompletionActive \<or> repeatable))
              \<or> (rule = ''ignoreAfterFirstCompletionIfAvailableOrEnabled'' \<and> already_completed \<and> repeatable \<and> available_or_enabled)
          | None \<Rightarrow> False)
      then True else completion_neutral \<and> state = CompletionAvailable)"

definition rule_needs_already_completed :: "string option \<Rightarrow> bool" where
  "rule_needs_already_completed rule \<longleftrightarrow>
     rule = Some ''ignoreAfterFirstCompletion'' \<or> rule = Some ''ignoreAfterFirstCompletionIfAvailableOrEnabled''"

definition rule_bearing :: "cmmn_plan_item \<Rightarrow> bool" where
  "rule_bearing p \<longleftrightarrow> parent_completion_rule p \<noteq> None \<or> completion_neutral_rule p \<noteq> None"

fun collect_rule_bearing_plan_items :: "cmmn_container \<Rightarrow> cmmn_plan_item list" where
  "collect_rule_bearing_plan_items (Container items stages sentries) =
     filter rule_bearing items @ concat (map collect_rule_bearing_plan_items stages)"

definition find_rule_plan_item :: "cmmn_plan_item list \<Rightarrow> string \<Rightarrow> cmmn_plan_item option" where
  "find_rule_plan_item rule_items i = List.find (\<lambda>p. plan_item_id p = i) rule_items"

fun collect_container_plan_item_ids :: "cmmn_container \<Rightarrow> string list" where
  "collect_container_plan_item_ids (Container items stages sentries) =
     map plan_item_id items @ concat (map collect_container_plan_item_ids stages)"

section \<open>The rows of a case\<close>

datatype cmmn_stage_instance_state = StageAvailable | StageEnabled | StageActive | StageCompleted | StageTerminated

datatype cmmn_task_association_state = AssociationActive | AssociationCompleted | AssociationFailed

record stage_row =
  stage_case_instance_id :: string
  stage_parent_instance_id :: "string option"
  stage_plan_item_id :: string
  stage_state :: cmmn_stage_instance_state

record subscription_row =
  subscription_case_instance_id :: "string option"
  subscription_plan_item_instance_id :: "string option"

record association_row =
  association_case_instance_id :: string
  association_plan_item_id :: string
  association_state :: cmmn_task_association_state

record mirror_row =
  mirror_case_instance_id :: string
  mirror_stage_instance_id :: "string option"
  mirror_plan_item_id :: string
  mirror_definition_type :: string
  mirror_state :: string
  mirror_ended_at :: "int option"

record case_session =
  case_log :: cmmn_session
  stage_rows :: "stage_row list"
  subscription_rows :: "subscription_row list"
  association_rows :: "association_row list"
  mirror_rows :: "mirror_row list"

text \<open>The container whose completion is tested: a stage instance, or the case with the rows of all its stages.\<close>

datatype completion_scope = StageScope string | CaseScope

definition task_open :: "bool \<Rightarrow> human_task_row \<Rightarrow> bool" where
  "task_open active_only r = (if active_only then task_state r = TaskActive else task_state r \<noteq> TaskCompleted)"

definition open_tasks :: "completion_scope \<Rightarrow> string \<Rightarrow> bool \<Rightarrow> case_session \<Rightarrow> human_task_row list" where
  "open_tasks scope case_instance_id active_only t =
     filter (\<lambda>r. (case scope of StageScope i \<Rightarrow> task_stage_instance_id r = Some i | CaseScope \<Rightarrow> task_case_instance_id r = case_instance_id)
                 \<and> task_open active_only r) (human_task_rows (case_log t))"

definition stage_open :: "bool \<Rightarrow> stage_row \<Rightarrow> bool" where
  "stage_open active_only r = (if active_only then stage_state r = StageActive else stage_state r \<noteq> StageCompleted)"

definition open_stages :: "completion_scope \<Rightarrow> string \<Rightarrow> bool \<Rightarrow> case_session \<Rightarrow> stage_row list" where
  "open_stages scope case_instance_id active_only t =
     filter (\<lambda>r. (case scope of StageScope i \<Rightarrow> stage_parent_instance_id r = Some i | CaseScope \<Rightarrow> stage_case_instance_id r = case_instance_id)
                 \<and> stage_open active_only r) (stage_rows t)"

definition case_subscriptions :: "string \<Rightarrow> case_session \<Rightarrow> subscription_row list" where
  "case_subscriptions case_instance_id t =
     filter (\<lambda>r. subscription_case_instance_id r = Some case_instance_id) (subscription_rows t)"

definition subscribed_plan_items :: "string \<Rightarrow> case_session \<Rightarrow> string list" where
  "subscribed_plan_items case_instance_id t =
     List.map_filter subscription_plan_item_instance_id (case_subscriptions case_instance_id t)"

definition open_event_subscription_count_for_container :: "string \<Rightarrow> cmmn_container \<Rightarrow> case_session \<Rightarrow> nat" where
  "open_event_subscription_count_for_container case_instance_id container t =
     (let plan_item_ids = collect_container_plan_item_ids container in
      if plan_item_ids = [] then 0
      else length (filter (\<lambda>i. i \<in> set plan_item_ids) (subscribed_plan_items case_instance_id t)))"

definition active_associations :: "string \<Rightarrow> case_session \<Rightarrow> association_row list" where
  "active_associations case_instance_id t =
     filter (\<lambda>r. association_case_instance_id r = case_instance_id \<and> association_state r = AssociationActive) (association_rows t)"

definition PLAN_ITEM_DEFINITION_TYPE_EVENT_LISTENER :: string where
  "PLAN_ITEM_DEFINITION_TYPE_EVENT_LISTENER = ''eventlistener''"

definition PLAN_ITEM_DEFINITION_TYPE_TIMER_EVENT_LISTENER :: string where
  "PLAN_ITEM_DEFINITION_TYPE_TIMER_EVENT_LISTENER = ''timereventlistener''"

definition mirror_state_blocks_non_autocomplete :: "string \<Rightarrow> string \<Rightarrow> bool" where
  "mirror_state_blocks_non_autocomplete state definition_type =
     (if state = ''ENABLED'' then True
      else if state = ''AVAILABLE'' then
        definition_type = PLAN_ITEM_DEFINITION_TYPE_TIMER_EVENT_LISTENER \<or> definition_type = PLAN_ITEM_DEFINITION_TYPE_EVENT_LISTENER
      else False)"

definition mirror_in_scope :: "completion_scope \<Rightarrow> mirror_row \<Rightarrow> bool" where
  "mirror_in_scope scope m =
     (case scope of StageScope i \<Rightarrow> mirror_stage_instance_id m = Some i | CaseScope \<Rightarrow> mirror_stage_instance_id m = None)"

definition blocking_mirrors :: "completion_scope \<Rightarrow> string \<Rightarrow> case_session \<Rightarrow> mirror_row list" where
  "blocking_mirrors scope case_instance_id t =
     filter (\<lambda>m. mirror_case_instance_id m = case_instance_id \<and> mirror_definition_type m \<noteq> ''stage'' \<and> mirror_ended_at m = None
                 \<and> mirror_state_blocks_non_autocomplete (mirror_state m) (mirror_definition_type m) \<and> mirror_in_scope scope m)
       (mirror_rows t)"

definition count_blocking_mirror_plan_items :: "completion_scope \<Rightarrow> string \<Rightarrow> case_session \<Rightarrow> int" where
  "count_blocking_mirror_plan_items scope case_instance_id t = int (length (blocking_mirrors scope case_instance_id t))"

text \<open>The rows that \<open>ignored_open_mirror_plan_items\<close> looks at.\<close>

definition examined_mirrors :: "completion_scope \<Rightarrow> string \<Rightarrow> case_session \<Rightarrow> mirror_row list" where
  "examined_mirrors scope case_instance_id t =
     filter (\<lambda>m. mirror_case_instance_id m = case_instance_id
                 \<and> (mirror_state m = ''ENABLED''
                    \<or> (mirror_state m = ''AVAILABLE''
                       \<and> mirror_definition_type m \<in> {''milestone'', PLAN_ITEM_DEFINITION_TYPE_TIMER_EVENT_LISTENER,
                                                     PLAN_ITEM_DEFINITION_TYPE_EVENT_LISTENER}))
                 \<and> mirror_ended_at m = None \<and> mirror_in_scope scope m)
       (mirror_rows t)"

section \<open>Rows that a rule excuses\<close>

definition plan_item_state_is_ignored :: "nat \<Rightarrow> cmmn_lib \<Rightarrow> string \<Rightarrow> case_variables \<Rightarrow> case_session \<Rightarrow> cmmn_plan_item
    \<Rightarrow> plan_item_completion_state \<Rightarrow> bool outcome" where
  "plan_item_state_is_ignored n lib case_instance_id variables t p state =
     out_bind (plan_item_rule_matches n lib variables (completion_neutral_rule p)) (\<lambda>completion_neutral.
     out_bind (plan_item_rule_matches n lib variables (repetition_rule p)) (\<lambda>repeatable.
       out_ok (plan_item_ignored_for_completion (parent_completion_rule p) completion_neutral state
         (if rule_needs_already_completed (parent_completion_rule p)
          then plan_item_standard_event_occurred case_instance_id (plan_item_id p) ''complete'' (case_log t) else False)
         repeatable)))"

definition rule_ignores :: "nat \<Rightarrow> cmmn_lib \<Rightarrow> string \<Rightarrow> case_variables \<Rightarrow> cmmn_plan_item list \<Rightarrow> case_session \<Rightarrow> string
    \<Rightarrow> plan_item_completion_state \<Rightarrow> bool outcome" where
  "rule_ignores n lib case_instance_id variables rule_items t i state =
     (case find_rule_plan_item rule_items i of
        Some p \<Rightarrow> plan_item_state_is_ignored n lib case_instance_id variables t p state
      | None \<Rightarrow> out_ok False)"

text \<open>
  The loop of the five functions \<open>ignored_open_*\<close>: how many of the rows are excused, and the plan items of those. A row
  that is not counted still adds its plan item.
\<close>

fun ignored_loop :: "(string \<Rightarrow> plan_item_completion_state \<Rightarrow> bool outcome) \<Rightarrow> ('r \<Rightarrow> string) \<Rightarrow> ('r \<Rightarrow> plan_item_completion_state)
    \<Rightarrow> ('r \<Rightarrow> bool) \<Rightarrow> 'r list \<Rightarrow> int \<Rightarrow> string set \<Rightarrow> (int \<times> string set) outcome" where
  "ignored_loop ignores item state_of counts [] ignored ids = out_ok (ignored, ids)"
| "ignored_loop ignores item state_of counts (r # rs) ignored ids =
     out_bind (ignores (item r) (state_of r)) (\<lambda>b.
       if b then ignored_loop ignores item state_of counts rs (if counts r then ignored + 1 else ignored) (insert (item r) ids)
       else ignored_loop ignores item state_of counts rs ignored ids)"

definition task_completion_state :: "human_task_row \<Rightarrow> plan_item_completion_state" where
  "task_completion_state r =
     (case task_state r of TaskActive \<Rightarrow> CompletionActive | TaskEnabled \<Rightarrow> CompletionEnabled | _ \<Rightarrow> CompletionAvailable)"

definition stage_completion_state :: "stage_row \<Rightarrow> plan_item_completion_state" where
  "stage_completion_state r =
     (case stage_state r of StageActive \<Rightarrow> CompletionActive | StageEnabled \<Rightarrow> CompletionEnabled | _ \<Rightarrow> CompletionAvailable)"

definition mirror_completion_state :: "mirror_row \<Rightarrow> plan_item_completion_state" where
  "mirror_completion_state m = (if mirror_state m = ''ENABLED'' then CompletionEnabled else CompletionAvailable)"

type_synonym ignore_test = "string \<Rightarrow> plan_item_completion_state \<Rightarrow> bool outcome"

definition ignored_open_human_tasks :: "ignore_test \<Rightarrow> completion_scope \<Rightarrow> string \<Rightarrow> bool \<Rightarrow> case_session \<Rightarrow> string set \<Rightarrow> (int \<times> string set) outcome" where
  "ignored_open_human_tasks ignores scope case_instance_id active_only t ids =
     ignored_loop ignores task_plan_item_id task_completion_state (\<lambda>_. True) (open_tasks scope case_instance_id active_only t) 0 ids"

definition ignored_open_stage_instances :: "ignore_test \<Rightarrow> completion_scope \<Rightarrow> string \<Rightarrow> bool \<Rightarrow> case_session \<Rightarrow> string set \<Rightarrow> (int \<times> string set) outcome" where
  "ignored_open_stage_instances ignores scope case_instance_id active_only t ids =
     ignored_loop ignores stage_plan_item_id stage_completion_state (\<lambda>_. True) (open_stages scope case_instance_id active_only t) 0 ids"

definition ignored_open_event_subscriptions :: "ignore_test \<Rightarrow> string \<Rightarrow> case_session \<Rightarrow> string set \<Rightarrow> (int \<times> string set) outcome" where
  "ignored_open_event_subscriptions ignores case_instance_id t ids =
     ignored_loop ignores (\<lambda>i. i) (\<lambda>_. CompletionAvailable) (\<lambda>_. True) (subscribed_plan_items case_instance_id t) 0 ids"

definition ignored_open_task_associations :: "ignore_test \<Rightarrow> string \<Rightarrow> case_session \<Rightarrow> string set \<Rightarrow> (int \<times> string set) outcome" where
  "ignored_open_task_associations ignores case_instance_id t ids =
     ignored_loop ignores association_plan_item_id (\<lambda>_. CompletionActive) (\<lambda>_. True) (active_associations case_instance_id t) 0 ids"

definition ignored_open_mirror_plan_items :: "ignore_test \<Rightarrow> completion_scope \<Rightarrow> string \<Rightarrow> case_session \<Rightarrow> string set \<Rightarrow> (int \<times> string set) outcome" where
  "ignored_open_mirror_plan_items ignores scope case_instance_id t ids =
     ignored_loop ignores mirror_plan_item_id mirror_completion_state
       (\<lambda>m. mirror_state_blocks_non_autocomplete (mirror_state m) (mirror_definition_type m))
       (examined_mirrors scope case_instance_id t) 0 ids"

section \<open>Required plan items\<close>

definition plan_item_completed :: "string \<Rightarrow> case_session \<Rightarrow> cmmn_plan_item \<Rightarrow> bool" where
  "plan_item_completed case_instance_id t p \<longleftrightarrow>
     plan_item_standard_event_occurred case_instance_id (plan_item_id p) ''complete'' (case_log t)
     \<or> list_ex (\<lambda>m. mirror_case_instance_id m = case_instance_id \<and> mirror_plan_item_id m = plan_item_id p \<and> mirror_state m = ''COMPLETED'')
         (mirror_rows t)"

fun incomplete_required_loop :: "nat \<Rightarrow> cmmn_lib \<Rightarrow> string \<Rightarrow> case_variables \<Rightarrow> case_session \<Rightarrow> string set \<Rightarrow> cmmn_plan_item list \<Rightarrow> bool outcome" where
  "incomplete_required_loop n lib case_instance_id variables t ignored [] = out_ok False"
| "incomplete_required_loop n lib case_instance_id variables t ignored (p # ps) =
     (if plan_item_id p \<in> ignored then incomplete_required_loop n lib case_instance_id variables t ignored ps
      else out_bind (required_rule_matches n lib variables p) (\<lambda>b.
        if b \<and> \<not> plan_item_completed case_instance_id t p then out_ok True
        else incomplete_required_loop n lib case_instance_id variables t ignored ps))"

fun has_incomplete_required_plan_items :: "nat \<Rightarrow> cmmn_lib \<Rightarrow> string \<Rightarrow> case_variables \<Rightarrow> case_session \<Rightarrow> string set \<Rightarrow> cmmn_container \<Rightarrow> bool outcome"
and incomplete_required_in_stages :: "nat \<Rightarrow> cmmn_lib \<Rightarrow> string \<Rightarrow> case_variables \<Rightarrow> case_session \<Rightarrow> string set \<Rightarrow> cmmn_container list \<Rightarrow> bool outcome" where
  "has_incomplete_required_plan_items n lib case_instance_id variables t ignored (Container items stages sentries) =
     out_bind (incomplete_required_loop n lib case_instance_id variables t ignored items) (\<lambda>b.
       if b then out_ok True else incomplete_required_in_stages n lib case_instance_id variables t ignored stages)"
| "incomplete_required_in_stages n lib case_instance_id variables t ignored [] = out_ok False"
| "incomplete_required_in_stages n lib case_instance_id variables t ignored (stage # stages) =
     out_bind (has_incomplete_required_plan_items n lib case_instance_id variables t ignored stage) (\<lambda>b.
       if b then out_ok True else incomplete_required_in_stages n lib case_instance_id variables t ignored stages)"

section \<open>The decision\<close>

definition i64_saturating_sub :: "int \<Rightarrow> int \<Rightarrow> int" where
  "i64_saturating_sub a b = max (- (2 ^ 63)) (min (2 ^ 63 - 1) (a - b))"

text \<open>The children that keep a stage instance open, less those a rule excuses, and the plan items of the excused ones.\<close>

definition stage_open_counts :: "nat \<Rightarrow> cmmn_lib \<Rightarrow> string \<Rightarrow> case_variables \<Rightarrow> cmmn_container \<Rightarrow> string \<Rightarrow> case_session \<Rightarrow> bool
    \<Rightarrow> ((int \<times> int \<times> nat \<times> int) \<times> string set) outcome" where
  "stage_open_counts n lib case_instance_id variables stage stage_instance_id t auto_complete =
     (let scope = StageScope stage_instance_id;
          tasks = int (length (open_tasks scope case_instance_id auto_complete t));
          stages = int (length (open_stages scope case_instance_id auto_complete t));
          subscriptions = (if auto_complete then 0 else open_event_subscription_count_for_container case_instance_id stage t);
          mirrors = (if auto_complete then 0 else count_blocking_mirror_plan_items scope case_instance_id t);
          rule_items = collect_rule_bearing_plan_items stage;
          ignores = rule_ignores n lib case_instance_id variables rule_items t
      in if rule_items = [] then out_ok ((tasks, stages, subscriptions, mirrors), {})
         else
           out_bind (ignored_open_human_tasks ignores scope case_instance_id auto_complete t {}) (\<lambda>(task_ignored, ids1).
           out_bind (ignored_open_stage_instances ignores scope case_instance_id auto_complete t ids1) (\<lambda>(stage_ignored, ids2).
           out_bind (if auto_complete then out_ok (0, ids2) else ignored_open_event_subscriptions ignores case_instance_id t ids2) (\<lambda>(event_ignored, ids3).
           out_bind (if auto_complete then out_ok (0, ids3) else ignored_open_mirror_plan_items ignores scope case_instance_id t ids3) (\<lambda>(mirror_ignored, ids4).
             out_ok ((i64_saturating_sub tasks task_ignored, i64_saturating_sub stages stage_ignored,
                      subscriptions - nat event_ignored, i64_saturating_sub mirrors mirror_ignored), ids4))))))"

text \<open>The test of \<open>maybe_complete_stage\<close> on an active stage instance of the given definition.\<close>

definition stage_completes :: "nat \<Rightarrow> cmmn_lib \<Rightarrow> string \<Rightarrow> case_variables \<Rightarrow> bool \<Rightarrow> cmmn_sentry_if_part_expression option \<Rightarrow> cmmn_container
    \<Rightarrow> string \<Rightarrow> case_session \<Rightarrow> bool outcome" where
  "stage_completes n lib case_instance_id variables auto_flag auto_condition stage stage_instance_id t =
     out_bind (evaluate_auto_complete n lib variables auto_flag auto_condition) (\<lambda>auto_complete.
     out_bind (stage_open_counts n lib case_instance_id variables stage stage_instance_id t auto_complete)
       (\<lambda>((tasks, stages, subscriptions, mirrors), ignored_ids).
     out_bind (has_incomplete_required_plan_items n lib case_instance_id variables t ignored_ids stage) (\<lambda>incomplete_required.
       out_ok (tasks = 0 \<and> stages = 0 \<and> subscriptions = 0 \<and> mirrors = 0 \<and> \<not> incomplete_required))))"

definition human_task_instance_exists :: "string \<Rightarrow> string \<Rightarrow> string option \<Rightarrow> case_session \<Rightarrow> bool" where
  "human_task_instance_exists case_instance_id item stage_instance t =
     list_ex (\<lambda>r. task_plan_item_id r = item \<and> task_stage_instance_id r = stage_instance)
       (filter (\<lambda>r. task_case_instance_id r = case_instance_id) (human_task_rows (case_log t)))"

text \<open>The discretionary items of a planning table, by their ids.\<close>

definition pending_case_level_discretionary_item_count :: "string \<Rightarrow> string list list \<Rightarrow> case_session \<Rightarrow> nat" where
  "pending_case_level_discretionary_item_count case_instance_id planning_tables t =
     length (filter (\<lambda>i. \<not> human_task_instance_exists case_instance_id i None t) (concat planning_tables))"

text \<open>The same counts for a case, with the process and case tasks it waits for.\<close>

definition case_open_counts :: "nat \<Rightarrow> cmmn_lib \<Rightarrow> string \<Rightarrow> case_variables \<Rightarrow> cmmn_container \<Rightarrow> case_session \<Rightarrow> bool
    \<Rightarrow> ((int \<times> int \<times> int \<times> int \<times> int) \<times> string set) outcome" where
  "case_open_counts n lib case_instance_id variables model t auto_complete =
     (let tasks = int (length (open_tasks CaseScope case_instance_id auto_complete t));
          stages = int (length (open_stages CaseScope case_instance_id auto_complete t));
          subscriptions = (if auto_complete then 0 else int (length (case_subscriptions case_instance_id t)));
          associations = int (length (active_associations case_instance_id t));
          mirrors = (if auto_complete then 0 else count_blocking_mirror_plan_items CaseScope case_instance_id t);
          rule_items = collect_rule_bearing_plan_items model;
          ignores = rule_ignores n lib case_instance_id variables rule_items t
      in if rule_items = [] then out_ok ((tasks, stages, subscriptions, associations, mirrors), {})
         else
           out_bind (ignored_open_human_tasks ignores CaseScope case_instance_id auto_complete t {}) (\<lambda>(task_ignored, ids1).
           out_bind (ignored_open_stage_instances ignores CaseScope case_instance_id auto_complete t ids1) (\<lambda>(stage_ignored, ids2).
           out_bind (if auto_complete then out_ok (0, ids2) else ignored_open_event_subscriptions ignores case_instance_id t ids2) (\<lambda>(event_ignored, ids3).
           out_bind (ignored_open_task_associations ignores case_instance_id t ids3) (\<lambda>(association_ignored, ids4).
           out_bind (if auto_complete then out_ok (0, ids4) else ignored_open_mirror_plan_items ignores CaseScope case_instance_id t ids4) (\<lambda>(mirror_ignored, ids5).
             out_ok ((i64_saturating_sub tasks task_ignored, i64_saturating_sub stages stage_ignored,
                      i64_saturating_sub subscriptions event_ignored, i64_saturating_sub associations association_ignored,
                      i64_saturating_sub mirrors mirror_ignored), ids5)))))))"

text \<open>The test of \<open>maybe_complete_case\<close> on an active case.\<close>

definition case_completes :: "nat \<Rightarrow> cmmn_lib \<Rightarrow> string \<Rightarrow> case_variables \<Rightarrow> bool \<Rightarrow> cmmn_sentry_if_part_expression option \<Rightarrow> cmmn_container
    \<Rightarrow> string list list \<Rightarrow> case_session \<Rightarrow> bool outcome" where
  "case_completes n lib case_instance_id variables auto_flag auto_condition model planning_tables t =
     out_bind (evaluate_auto_complete n lib variables auto_flag auto_condition) (\<lambda>auto_complete.
     let pending = (if auto_complete then 0 else pending_case_level_discretionary_item_count case_instance_id planning_tables t)
     in out_bind (case_open_counts n lib case_instance_id variables model t auto_complete)
          (\<lambda>((tasks, stages, subscriptions, associations, mirrors), ignored_ids).
        out_bind (has_incomplete_required_plan_items n lib case_instance_id variables t ignored_ids model) (\<lambda>incomplete_required.
          out_ok (tasks = 0 \<and> stages = 0 \<and> subscriptions = 0 \<and> associations = 0 \<and> mirrors = 0 \<and> pending = 0
                  \<and> \<not> incomplete_required))))"

end
