(* ===== verification/Cmmn_Completion_Decides.thy ===== *)
theory Cmmn_Completion_Decides
  imports Cmmn_Completion
begin

text \<open>
  What the completion test of \<open>Cmmn_Completion\<close> decides: the counts that are compared with zero are related to the children
  that are still open and to the rules that excuse them. An excused stage that waits for its manual start is
  subtracted without having been counted.
\<close>

section \<open>What the loops compute\<close>

definition says_yes :: "bool outcome \<Rightarrow> bool" where
  "says_yes r \<longleftrightarrow> r = Some (Inr True)"

lemma out_bind_eq_ok: "out_bind r f = Some (Inr y) \<longleftrightarrow> (\<exists>x. r = Some (Inr x) \<and> f x = Some (Inr y))"
  by (cases "(r, f)" rule: out_bind.cases) simp_all

lemma out_bind_eq_ok_pair:
  "out_bind r (\<lambda>(x, y). f x y) = Some (Inr z) \<longleftrightarrow> (\<exists>x y. r = Some (Inr (x, y)) \<and> f x y = Some (Inr z))"
  by (auto simp: out_bind_eq_ok)

lemma out_ok_eq [simp]: "out_ok x = Some (Inr y) \<longleftrightarrow> x = y"
  by (simp add: out_ok_def)

lemma ignored_loop_result:
  "ignored_loop ignores item state_of counts rs k ids = Some (Inr (k', ids')) \<Longrightarrow>
    k' = k + int (length (filter (\<lambda>r. says_yes (ignores (item r) (state_of r)) \<and> counts r) rs))
    \<and> ids' = ids \<union> item ` {r \<in> set rs. says_yes (ignores (item r) (state_of r))}"
proof (induction rs arbitrary: k ids)
  case Nil
  then show ?case by simp
next
  case (Cons r rs)
  then obtain b where b: "ignores (item r) (state_of r) = Some (Inr b)"
    and rest: "ignored_loop ignores item state_of counts rs (if b \<and> counts r then k + 1 else k) (if b then insert (item r) ids else ids)
      = Some (Inr (k', ids'))"
    by (auto simp: out_bind_eq_ok split: if_splits)
  have "{x \<in> set (r # rs). says_yes (ignores (item x) (state_of x))}
      = (if b then insert r else id) {x \<in> set rs. says_yes (ignores (item x) (state_of x))}"
    using b by (auto simp: says_yes_def)
  then show ?case using Cons.IH [OF rest] b by (auto simp: says_yes_def)
qed

text \<open>A count is used up exactly when every counted row is excused.\<close>

lemma all_excused: "int (length rs) - int (length (filter P rs)) = 0 \<longleftrightarrow> (\<forall>r \<in> set rs. P r)"
  using length_filter_less [of _ rs P] by (metis filter_True linorder_neq_iff of_nat_less_iff right_minus_eq)

lemma i64_saturating_sub_zero [simp]: "i64_saturating_sub a b = 0 \<longleftrightarrow> a = b"
  by (auto simp: i64_saturating_sub_def)

fun all_plan_items :: "cmmn_container \<Rightarrow> cmmn_plan_item list" where
  "all_plan_items (Container items stages sentries) = items @ concat (map all_plan_items stages)"

definition required_done :: "nat \<Rightarrow> cmmn_lib \<Rightarrow> string \<Rightarrow> case_variables \<Rightarrow> case_session \<Rightarrow> string set \<Rightarrow> cmmn_plan_item list \<Rightarrow> bool" where
  "required_done n lib case_instance_id variables t excused_ids items \<longleftrightarrow>
     (\<forall>p \<in> set items. plan_item_id p \<notin> excused_ids \<and> says_yes (required_rule_matches n lib variables p)
        \<longrightarrow> plan_item_completed case_instance_id t p)"

lemma required_done_append [simp]:
  "required_done n lib c variables t ids (ps @ qs) \<longleftrightarrow> required_done n lib c variables t ids ps \<and> required_done n lib c variables t ids qs"
  by (auto simp: required_done_def)

lemma incomplete_required_loop_iff:
  "incomplete_required_loop n lib c variables t ids ps = Some (Inr b) \<Longrightarrow> b \<longleftrightarrow> \<not> required_done n lib c variables t ids ps"
proof (induction ps)
  case Nil
  then show ?case by (simp add: required_done_def)
next
  case (Cons p ps)
  show ?case
  proof (cases "plan_item_id p \<in> ids")
    case True
    with Cons show ?thesis by (simp add: required_done_def)
  next
    case False
    with Cons.prems obtain x where x: "required_rule_matches n lib variables p = Some (Inr x)"
      and rest: "(if x \<and> \<not> plan_item_completed c t p then out_ok True else incomplete_required_loop n lib c variables t ids ps) = Some (Inr b)"
      by (auto simp: out_bind_eq_ok)
    have "required_done n lib c variables t ids (p # ps) \<longleftrightarrow> (x \<longrightarrow> plan_item_completed c t p) \<and> required_done n lib c variables t ids ps"
      using False x by (simp add: required_done_def says_yes_def)
    with rest Cons.IH show ?thesis by (cases "x \<and> \<not> plan_item_completed c t p") simp_all
  qed
qed

lemma has_incomplete_required_iff:
  "has_incomplete_required_plan_items n lib c variables t ids container = Some (Inr b) \<Longrightarrow>
    b \<longleftrightarrow> \<not> required_done n lib c variables t ids (all_plan_items container)"
  "incomplete_required_in_stages n lib c variables t ids stages = Some (Inr b) \<Longrightarrow>
    b \<longleftrightarrow> \<not> required_done n lib c variables t ids (concat (map all_plan_items stages))"
proof (induction n lib c variables t ids container and n lib c variables t ids stages arbitrary: b and b
    rule: has_incomplete_required_plan_items_incomplete_required_in_stages.induct)
  case (1 n lib c variables t ids items stages sentries)
  then obtain x where x: "incomplete_required_loop n lib c variables t ids items = Some (Inr x)"
    and rest: "(if x then out_ok True else incomplete_required_in_stages n lib c variables t ids stages) = Some (Inr b)"
    by (auto simp: out_bind_eq_ok)
  show ?case using incomplete_required_loop_iff [OF x] rest "1.IH" [of x b] by (auto split: if_splits)
next
  case (2 n lib c variables t ids)
  then show ?case by (simp add: required_done_def)
next
  case (3 n lib c variables t ids stage stages)
  then obtain x where x: "has_incomplete_required_plan_items n lib c variables t ids stage = Some (Inr x)"
    and rest: "(if x then out_ok True else incomplete_required_in_stages n lib c variables t ids stages) = Some (Inr b)"
    by (auto simp: out_bind_eq_ok)
  show ?case using "3.IH"(1) [OF x] rest "3.IH"(2) [of x b] by (auto split: if_splits)
qed

section \<open>The children that keep a container open\<close>

text \<open>
  The open children that the completion test of a container counts. A case counts its running process and case tasks
  (the active task associations); the test of a stage does not look at them.
\<close>

definition counted_children :: "completion_scope \<Rightarrow> bool \<Rightarrow> string \<Rightarrow> cmmn_container \<Rightarrow> case_session \<Rightarrow> (string option \<times> plan_item_completion_state) list" where
  "counted_children scope auto_complete c container t =
     map (\<lambda>r. (Some (task_plan_item_id r), task_completion_state r)) (open_tasks scope c auto_complete t)
     @ map (\<lambda>r. (Some (stage_plan_item_id r), stage_completion_state r)) (open_stages scope c auto_complete t)
     @ (if auto_complete then []
        else map (\<lambda>i. (i, CompletionAvailable))
               (case scope of
                  StageScope _ \<Rightarrow> map Some (filter (\<lambda>i. i \<in> set (collect_container_plan_item_ids container)) (subscribed_plan_items c t))
                | CaseScope \<Rightarrow> map subscription_plan_item_instance_id (case_subscriptions c t))
             @ map (\<lambda>m. (Some (mirror_plan_item_id m), mirror_completion_state m)) (blocking_mirrors scope c t))
     @ (case scope of
          StageScope _ \<Rightarrow> []
        | CaseScope \<Rightarrow> map (\<lambda>r. (Some (association_plan_item_id r), CompletionActive)) (active_associations c t))"

definition excused :: "ignore_test \<Rightarrow> string option \<times> plan_item_completion_state \<Rightarrow> bool" where
  "excused ignores child \<longleftrightarrow> (\<exists>i. fst child = Some i \<and> says_yes (ignores i (snd child)))"

text \<open>The plan items of excused rows; available milestones are looked at although they do not keep a container open.\<close>

definition excused_items :: "ignore_test \<Rightarrow> completion_scope \<Rightarrow> bool \<Rightarrow> string \<Rightarrow> case_session \<Rightarrow> string set" where
  "excused_items ignores scope auto_complete c t =
     task_plan_item_id ` {r \<in> set (open_tasks scope c auto_complete t). says_yes (ignores (task_plan_item_id r) (task_completion_state r))}
     \<union> stage_plan_item_id ` {r \<in> set (open_stages scope c auto_complete t). says_yes (ignores (stage_plan_item_id r) (stage_completion_state r))}
     \<union> (if auto_complete then {}
        else {i \<in> set (subscribed_plan_items c t). says_yes (ignores i CompletionAvailable)}
          \<union> mirror_plan_item_id ` {m \<in> set (examined_mirrors scope c t). says_yes (ignores (mirror_plan_item_id m) (mirror_completion_state m))})
     \<union> (case scope of StageScope _ \<Rightarrow> {}
        | CaseScope \<Rightarrow> association_plan_item_id ` {r \<in> set (active_associations c t). says_yes (ignores (association_plan_item_id r) CompletionActive)})"

section \<open>Counts and open children\<close>

lemma length_filter_partition: "length (filter P xs) = length (filter (\<lambda>x. P x \<and> Q x) xs) + length (filter (\<lambda>x. P x \<and> \<not> Q x) xs)"
  by (induction xs) auto

lemma all_excused_eq: "int (length rs) = int (length (filter P rs)) \<longleftrightarrow> (\<forall>r \<in> set rs. P r)"
  using all_excused [of rs P] by simp

lemma rule_items_are_children:
  "set (collect_rule_bearing_plan_items container) \<subseteq> set (all_plan_items container)"
  "plan_item_id ` set (all_plan_items container) = set (collect_container_plan_item_ids container)"
  by (induction container) (auto simp: image_Un image_UN, blast)

lemma ignored_items_are_children:
  "says_yes (rule_ignores n lib c variables (collect_rule_bearing_plan_items container) t i s) \<Longrightarrow>
    i \<in> set (collect_container_plan_item_ids container)"
  using rule_items_are_children [of container]
  by (auto simp: rule_ignores_def says_yes_def find_rule_plan_item_def find_Some_iff split: option.splits) (metis image_eqI nth_mem subsetD)

lemma no_rules_no_excuse [simp]: "says_yes (rule_ignores n lib c variables [] t i s) = False"
  by (simp add: rule_ignores_def says_yes_def find_rule_plan_item_def)

lemma counted_mirrors:
  "filter (\<lambda>m. mirror_state_blocks_non_autocomplete (mirror_state m) (mirror_definition_type m) \<and> mirror_definition_type m \<noteq> ''stage'')
     (examined_mirrors scope c t) = blocking_mirrors scope c t"
  unfolding examined_mirrors_def blocking_mirrors_def filter_filter
  by (rule filter_cong) (auto simp: mirror_state_blocks_non_autocomplete_def split: if_splits)

lemma excused_subscriptions:
  "length (filter (\<lambda>i. says_yes (ignores i CompletionAvailable)) (subscribed_plan_items c t))
    = length (filter (\<lambda>r. excused ignores (subscription_plan_item_instance_id r, CompletionAvailable)) (case_subscriptions c t))"
proof -
  have "length (filter (\<lambda>i. says_yes (ignores i CompletionAvailable)) (List.map_filter subscription_plan_item_instance_id rs))
      = length (filter (\<lambda>r. excused ignores (subscription_plan_item_instance_id r, CompletionAvailable)) rs)" for rs
    by (induction rs) (auto simp: excused_def List.map_filter_simps split: option.splits)
  then show ?thesis by (simp add: subscribed_plan_items_def)
qed

section \<open>Completion is the absence of blocking children\<close>

text \<open>The test that the rules of a container apply to a row.\<close>

definition container_ignores :: "nat \<Rightarrow> cmmn_lib \<Rightarrow> string \<Rightarrow> case_variables \<Rightarrow> cmmn_container \<Rightarrow> case_session \<Rightarrow> ignore_test" where
  "container_ignores n lib c variables container t = rule_ignores n lib c variables (collect_rule_bearing_plan_items container) t"

lemma ignored_all:
  assumes "ignored_loop ignores item state_of (\<lambda>_. True) rs 0 ids = Some (Inr (k, ids'))"
  shows "int (length rs) = k \<longleftrightarrow> (\<forall>r \<in> set rs. says_yes (ignores (item r) (state_of r)))"
    and "ids' = ids \<union> item ` {r \<in> set rs. says_yes (ignores (item r) (state_of r))}"
    and "k = int (length (filter (\<lambda>r. says_yes (ignores (item r) (state_of r))) rs))"
  using ignored_loop_result [OF assms] all_excused_eq [of rs "\<lambda>r. says_yes (ignores (item r) (state_of r))"] by simp_all

lemma ignored_mirrors:
  assumes "ignored_open_mirror_plan_items ignores scope c t ids = Some (Inr (k, ids'))"
  defines "yes \<equiv> \<lambda>m. says_yes (ignores (mirror_plan_item_id m) (mirror_completion_state m))"
  shows "k = int (length (filter yes (blocking_mirrors scope c t)))
      + int (length (filter (\<lambda>m. yes m \<and> mirror_definition_type m = ''stage'') (examined_mirrors scope c t)))"
    and "ids' = ids \<union> mirror_plan_item_id ` {m \<in> set (examined_mirrors scope c t). yes m}"
proof -
  let ?blocks = "\<lambda>m. mirror_state_blocks_non_autocomplete (mirror_state m) (mirror_definition_type m)"
  let ?ms = "examined_mirrors scope c t"
  have k: "k = int (length (filter (\<lambda>m. yes m \<and> ?blocks m) ?ms))"
    and ids: "ids' = ids \<union> mirror_plan_item_id ` {m \<in> set ?ms. yes m}"
    using ignored_loop_result [OF assms(1) [unfolded ignored_open_mirror_plan_items_def]] by (simp_all add: yes_def)
  have "filter (\<lambda>m. (yes m \<and> ?blocks m) \<and> mirror_definition_type m \<noteq> ''stage'') ?ms = filter yes (blocking_mirrors scope c t)"
    by (simp add: counted_mirrors [symmetric] conj_ac)
  moreover have "filter (\<lambda>m. (yes m \<and> ?blocks m) \<and> \<not> mirror_definition_type m \<noteq> ''stage'') ?ms
      = filter (\<lambda>m. yes m \<and> mirror_definition_type m = ''stage'') ?ms"
    by (rule filter_cong) (auto simp: examined_mirrors_def mirror_state_blocks_non_autocomplete_def
        PLAN_ITEM_DEFINITION_TYPE_TIMER_EVENT_LISTENER_def PLAN_ITEM_DEFINITION_TYPE_EVENT_LISTENER_def)
  ultimately show "k = int (length (filter yes (blocking_mirrors scope c t)))
      + int (length (filter (\<lambda>m. yes m \<and> mirror_definition_type m = ''stage'') ?ms))"
    using k length_filter_partition [of "\<lambda>m. yes m \<and> ?blocks m" ?ms "\<lambda>m. mirror_definition_type m \<noteq> ''stage''"] by simp
  show "ids' = ids \<union> mirror_plan_item_id ` {m \<in> set ?ms. yes m}" by (rule ids)
qed

lemma no_stage_mirrors:
  assumes "\<forall>m \<in> set (mirror_rows t). mirror_definition_type m = ''stage'' \<longrightarrow> mirror_stage_instance_id m = None"
  shows "filter (\<lambda>m. P m \<and> mirror_definition_type m = ''stage'') (examined_mirrors (StageScope i) c t) = []"
  using assms by (auto simp: filter_empty_conv examined_mirrors_def mirror_in_scope_def)

lemma stage_subscriptions:
  fixes n lib c variables container t
  defines "ignores \<equiv> container_ignores n lib c variables container t"
  defines "ids \<equiv> set (collect_container_plan_item_ids container)"
  shows "open_event_subscription_count_for_container c container t
      - length (filter (\<lambda>i. says_yes (ignores i CompletionAvailable)) (subscribed_plan_items c t)) = 0
    \<longleftrightarrow> (\<forall>i \<in> set (filter (\<lambda>i. i \<in> ids) (subscribed_plan_items c t)). says_yes (ignores i CompletionAvailable))"
proof -
  let ?subs = "subscribed_plan_items c t"
  let ?yes = "\<lambda>i. says_yes (ignores i CompletionAvailable)"
  have mem: "?yes i \<Longrightarrow> i \<in> ids" for i
    using ignored_items_are_children by (simp add: ignores_def ids_def container_ignores_def)
  have "filter ?yes ?subs = filter ?yes (filter (\<lambda>i. i \<in> ids) ?subs)"
    using mem by (auto intro: filter_cong)
  moreover have "open_event_subscription_count_for_container c container t = length (filter (\<lambda>i. i \<in> ids) ?subs)"
    by (simp add: open_event_subscription_count_for_container_def ids_def Let_def)
  ultimately show ?thesis
    using all_excused_eq [of "filter (\<lambda>i. i \<in> ids) ?subs" ?yes] length_filter_le [of ?yes "filter (\<lambda>i. i \<in> ids) ?subs"]
    by (metis diff_is_0_eq le_antisym le_refl of_nat_eq_iff)
qed

lemmas stage_children = counted_children_def excused_items_def excused_def completion_scope.case

lemma stage_counts_no_rules:
  assumes "stage_open_counts n lib c variables stage sid t a = Some (Inr ((ta, st, su, mi), ids))"
    and "collect_rule_bearing_plan_items stage = []"
  defines "ignores \<equiv> container_ignores n lib c variables stage t"
  shows "ta = 0 \<and> st = 0 \<and> su = 0 \<and> mi = 0 \<longleftrightarrow> (\<forall>child \<in> set (counted_children (StageScope sid) a c stage t). excused ignores child)"
    and "ids = excused_items ignores (StageScope sid) a c t"
proof -
  have no: "says_yes (ignores i s) = False" for i s using assms(2) by (simp add: ignores_def container_ignores_def)
  have "ids = {}" using assms(1,2) by (auto simp: stage_open_counts_def Let_def)
  have "ta = int (length (open_tasks (StageScope sid) c a t))" "st = int (length (open_stages (StageScope sid) c a t))"
    "su = (if a then 0 else open_event_subscription_count_for_container c stage t)"
    "mi = (if a then 0 else count_blocking_mirror_plan_items (StageScope sid) c t)"
    using assms(1,2) by (auto simp: stage_open_counts_def Let_def)
  moreover have "(\<forall>child \<in> set (counted_children (StageScope sid) a c stage t). excused ignores child)
      \<longleftrightarrow> counted_children (StageScope sid) a c stage t = []"
    by (cases "counted_children (StageScope sid) a c stage t") (auto simp: excused_def no)
  ultimately show "ta = 0 \<and> st = 0 \<and> su = 0 \<and> mi = 0 \<longleftrightarrow> (\<forall>child \<in> set (counted_children (StageScope sid) a c stage t). excused ignores child)"
    by (cases a) (auto simp: counted_children_def count_blocking_mirror_plan_items_def open_event_subscription_count_for_container_def Let_def)
  show "ids = excused_items ignores (StageScope sid) a c t" using \<open>ids = {}\<close> by (simp add: excused_items_def no)
qed

lemma stage_counts_rules:
  assumes "stage_open_counts n lib c variables stage sid t a = Some (Inr ((ta, st, su, mi), ids))"
    and "collect_rule_bearing_plan_items stage \<noteq> []"
    and mirrors: "\<forall>m \<in> set (mirror_rows t). mirror_definition_type m = ''stage'' \<longrightarrow> mirror_stage_instance_id m = None"
  defines "ignores \<equiv> container_ignores n lib c variables stage t"
  shows "ta = 0 \<and> st = 0 \<and> su = 0 \<and> mi = 0 \<longleftrightarrow> (\<forall>child \<in> set (counted_children (StageScope sid) a c stage t). excused ignores child)"
    and "ids = excused_items ignores (StageScope sid) a c t"
proof -
  let ?scope = "StageScope sid"
  have ignores: "rule_ignores n lib c variables (collect_rule_bearing_plan_items stage) t = ignores"
    by (simp add: ignores_def container_ignores_def)
  from assms(1,2) obtain k1 k2 k3 k4 ids1 ids2 ids3 where
    k1: "ignored_open_human_tasks ignores ?scope c a t {} = Some (Inr (k1, ids1))"
    and k2: "ignored_open_stage_instances ignores ?scope c a t ids1 = Some (Inr (k2, ids2))"
    and k3: "(if a then out_ok (0, ids2) else ignored_open_event_subscriptions ignores c t ids2) = Some (Inr (k3, ids3))"
    and k4: "(if a then out_ok (0, ids3) else ignored_open_mirror_plan_items ignores ?scope c t ids3) = Some (Inr (k4, ids))"
    and counts: "ta = i64_saturating_sub (int (length (open_tasks ?scope c a t))) k1"
      "st = i64_saturating_sub (int (length (open_stages ?scope c a t))) k2"
      "su = (if a then 0 else open_event_subscription_count_for_container c stage t) - nat k3"
      "mi = i64_saturating_sub (if a then 0 else count_blocking_mirror_plan_items ?scope c t) k4"
    by (simp add: stage_open_counts_def Let_def out_bind_eq_ok_pair ignores cong: if_cong)
      (elim exE conjE, rule that, assumption+, simp_all)
  note tasks = ignored_all [OF k1 [unfolded ignored_open_human_tasks_def]]
  note stages = ignored_all [OF k2 [unfolded ignored_open_stage_instances_def]]
  have subs: "su = 0 \<longleftrightarrow> a \<or> (\<forall>i \<in> set (filter (\<lambda>i. i \<in> set (collect_container_plan_item_ids stage)) (subscribed_plan_items c t)).
      says_yes (ignores i CompletionAvailable))"
    and ids3: "ids3 = ids2 \<union> (if a then {} else {i \<in> set (subscribed_plan_items c t). says_yes (ignores i CompletionAvailable)})"
    using k3 counts(3) ignored_all(2,3) [of ignores "\<lambda>i. i" "\<lambda>_. CompletionAvailable" "subscribed_plan_items c t" ids2 k3 ids3]
      stage_subscriptions [of c stage t n lib variables]
    by (auto simp: ignored_open_event_subscriptions_def ignores_def [symmetric] split: if_splits)
  have mis: "mi = 0 \<longleftrightarrow> a \<or> (\<forall>m \<in> set (blocking_mirrors ?scope c t). says_yes (ignores (mirror_plan_item_id m) (mirror_completion_state m)))"
    and ids4: "ids = ids3 \<union> (if a then {} else mirror_plan_item_id ` {m \<in> set (examined_mirrors ?scope c t).
      says_yes (ignores (mirror_plan_item_id m) (mirror_completion_state m))})"
    using k4 counts(4) ignored_mirrors [of ignores ?scope c t ids3 k4 ids] all_excused_eq [of "blocking_mirrors ?scope c t"]
    by (auto simp: count_blocking_mirror_plan_items_def no_stage_mirrors [OF mirrors] split: if_splits)
  show "ta = 0 \<and> st = 0 \<and> su = 0 \<and> mi = 0 \<longleftrightarrow> (\<forall>child \<in> set (counted_children ?scope a c stage t). excused ignores child)"
    using counts(1,2) tasks(1) stages(1) subs mis by (auto simp: stage_children ball_Un)
  show "ids = excused_items ignores ?scope a c t"
    using tasks(2) stages(2) ids3 ids4 by (auto simp: stage_children)
qed

lemma case_counts_no_rules:
  assumes "case_open_counts n lib c variables model t a = Some (Inr ((ta, st, su, asc, mi), ids))"
    and "collect_rule_bearing_plan_items model = []"
  defines "ignores \<equiv> container_ignores n lib c variables model t"
  shows "ta = 0 \<and> st = 0 \<and> su = 0 \<and> asc = 0 \<and> mi = 0 \<longleftrightarrow> (\<forall>child \<in> set (counted_children CaseScope a c model t). excused ignores child)"
    and "ids = excused_items ignores CaseScope a c t"
proof -
  have no: "says_yes (ignores i s) = False" for i s using assms(2) by (simp add: ignores_def container_ignores_def)
  have "ids = {}" using assms(1,2) by (auto simp: case_open_counts_def Let_def)
  have "ta = int (length (open_tasks CaseScope c a t))" "st = int (length (open_stages CaseScope c a t))"
    "su = (if a then 0 else int (length (case_subscriptions c t)))" "asc = int (length (active_associations c t))"
    "mi = (if a then 0 else count_blocking_mirror_plan_items CaseScope c t)"
    using assms(1,2) by (auto simp: case_open_counts_def Let_def)
  moreover have "(\<forall>child \<in> set (counted_children CaseScope a c model t). excused ignores child) \<longleftrightarrow> counted_children CaseScope a c model t = []"
    by (cases "counted_children CaseScope a c model t") (auto simp: excused_def no)
  ultimately show "ta = 0 \<and> st = 0 \<and> su = 0 \<and> asc = 0 \<and> mi = 0 \<longleftrightarrow> (\<forall>child \<in> set (counted_children CaseScope a c model t). excused ignores child)"
    by (cases a) (auto simp: counted_children_def count_blocking_mirror_plan_items_def)
  show "ids = excused_items ignores CaseScope a c t" using \<open>ids = {}\<close> by (simp add: excused_items_def no)
qed

text \<open>The parts of the counts of a case whose model has rules.\<close>

lemma case_counts_parts:
  fixes n lib c variables model t
  assumes "case_open_counts n lib c variables model t a = Some (Inr ((ta, st, su, asc, mi), ids))"
    and "collect_rule_bearing_plan_items model \<noteq> []"
  defines "ignores \<equiv> container_ignores n lib c variables model t"
  obtains k1 k2 k3 k4 k5 ids1 ids2 ids3 ids4 where
    "ignored_open_human_tasks ignores CaseScope c a t {} = Some (Inr (k1, ids1))"
    "ignored_open_stage_instances ignores CaseScope c a t ids1 = Some (Inr (k2, ids2))"
    "(if a then out_ok (0, ids2) else ignored_open_event_subscriptions ignores c t ids2) = Some (Inr (k3, ids3))"
    "ignored_open_task_associations ignores c t ids3 = Some (Inr (k4, ids4))"
    "(if a then out_ok (0, ids4) else ignored_open_mirror_plan_items ignores CaseScope c t ids4) = Some (Inr (k5, ids))"
    "ta = i64_saturating_sub (int (length (open_tasks CaseScope c a t))) k1"
    "st = i64_saturating_sub (int (length (open_stages CaseScope c a t))) k2"
    "su = i64_saturating_sub (if a then 0 else int (length (case_subscriptions c t))) k3"
    "asc = i64_saturating_sub (int (length (active_associations c t))) k4"
    "mi = i64_saturating_sub (if a then 0 else count_blocking_mirror_plan_items CaseScope c t) k5"
proof -
  have ignores: "rule_ignores n lib c variables (collect_rule_bearing_plan_items model) t = ignores"
    by (simp add: ignores_def container_ignores_def)
  from assms(1,2) show thesis
    by (simp add: case_open_counts_def Let_def out_bind_eq_ok_pair ignores cong: if_cong)
      (elim exE conjE, rule that, assumption+, simp_all)
qed

lemma case_counts_rules:
  assumes counts: "case_open_counts n lib c variables model t a = Some (Inr ((ta, st, su, asc, mi), ids))"
    and rules: "collect_rule_bearing_plan_items model \<noteq> []"
  defines "ignores \<equiv> container_ignores n lib c variables model t"
  assumes stages: "\<forall>m \<in> set (examined_mirrors CaseScope c t). mirror_definition_type m = ''stage''
      \<longrightarrow> \<not> says_yes (ignores (mirror_plan_item_id m) (mirror_completion_state m))"
  shows "ta = 0 \<and> st = 0 \<and> su = 0 \<and> asc = 0 \<and> mi = 0 \<longleftrightarrow> (\<forall>child \<in> set (counted_children CaseScope a c model t). excused ignores child)"
    and "ids = excused_items ignores CaseScope a c t"
proof -
  let ?yes = "\<lambda>m. says_yes (ignores (mirror_plan_item_id m) (mirror_completion_state m))"
  obtain k1 k2 k3 k4 k5 ids1 ids2 ids3 ids4 where
    k1: "ignored_open_human_tasks ignores CaseScope c a t {} = Some (Inr (k1, ids1))"
    and k2: "ignored_open_stage_instances ignores CaseScope c a t ids1 = Some (Inr (k2, ids2))"
    and k3: "(if a then out_ok (0, ids2) else ignored_open_event_subscriptions ignores c t ids2) = Some (Inr (k3, ids3))"
    and k4: "ignored_open_task_associations ignores c t ids3 = Some (Inr (k4, ids4))"
    and k5: "(if a then out_ok (0, ids4) else ignored_open_mirror_plan_items ignores CaseScope c t ids4) = Some (Inr (k5, ids))"
    and eqs: "ta = i64_saturating_sub (int (length (open_tasks CaseScope c a t))) k1"
      "st = i64_saturating_sub (int (length (open_stages CaseScope c a t))) k2"
      "su = i64_saturating_sub (if a then 0 else int (length (case_subscriptions c t))) k3"
      "asc = i64_saturating_sub (int (length (active_associations c t))) k4"
      "mi = i64_saturating_sub (if a then 0 else count_blocking_mirror_plan_items CaseScope c t) k5"
    unfolding ignores_def by (rule case_counts_parts [OF counts rules])
  note tasks = ignored_all [OF k1 [unfolded ignored_open_human_tasks_def]]
  note stgs = ignored_all [OF k2 [unfolded ignored_open_stage_instances_def]]
  note assocs = ignored_all [OF k4 [unfolded ignored_open_task_associations_def]]
  have subs: "su = 0 \<longleftrightarrow> a \<or> (\<forall>r \<in> set (case_subscriptions c t). excused ignores (subscription_plan_item_instance_id r, CompletionAvailable))"
    and ids3: "ids3 = ids2 \<union> (if a then {} else {i \<in> set (subscribed_plan_items c t). says_yes (ignores i CompletionAvailable)})"
    using k3 eqs(3) ignored_all(2,3) [of ignores "\<lambda>i. i" "\<lambda>_. CompletionAvailable" "subscribed_plan_items c t" ids2 k3 ids3]
      excused_subscriptions [of ignores c t] all_excused_eq [of "case_subscriptions c t"]
    by (auto simp: ignored_open_event_subscriptions_def split: if_splits)
  have none: "filter (\<lambda>m. ?yes m \<and> mirror_definition_type m = ''stage'') (examined_mirrors CaseScope c t) = []"
    using stages by (auto simp: filter_empty_conv)
  have mis: "mi = 0 \<longleftrightarrow> a \<or> (\<forall>m \<in> set (blocking_mirrors CaseScope c t). ?yes m)"
    and ids5: "ids = ids4 \<union> (if a then {} else mirror_plan_item_id ` {m \<in> set (examined_mirrors CaseScope c t). ?yes m})"
    using k5 eqs(5) ignored_mirrors [of ignores CaseScope c t ids4 k5 ids] all_excused_eq [of "blocking_mirrors CaseScope c t" ?yes]
    by (auto simp: count_blocking_mirror_plan_items_def none split: if_splits)
  have a1: "(\<forall>child \<in> set (counted_children CaseScope a c model t). excused ignores child) \<longleftrightarrow> ta = 0 \<and> st = 0 \<and> su = 0 \<and> mi = 0 \<and> asc = 0"
    using eqs(1,2,4) tasks(1) stgs(1) assocs(1) subs mis by (auto simp: counted_children_def excused_def ball_Un)
  then show "ta = 0 \<and> st = 0 \<and> su = 0 \<and> asc = 0 \<and> mi = 0 \<longleftrightarrow> (\<forall>child \<in> set (counted_children CaseScope a c model t). excused ignores child)"
    by blast
  show "ids = excused_items ignores CaseScope a c t"
    using tasks(2) stgs(2) assocs(2) ids3 ids5 by (auto simp: excused_items_def)
qed

lemma case_completes_parts:
  assumes "evaluate_auto_complete n lib variables auto_flag auto_condition = Some (Inr a)"
    and "case_completes n lib c variables auto_flag auto_condition model planning_tables t = Some (Inr b)"
  obtains ta st su asc mi ids r where
    "case_open_counts n lib c variables model t a = Some (Inr ((ta, st, su, asc, mi), ids))"
    "has_incomplete_required_plan_items n lib c variables t ids model = Some (Inr r)"
    "b \<longleftrightarrow> (ta = 0 \<and> st = 0 \<and> su = 0 \<and> asc = 0 \<and> mi = 0)
      \<and> (a \<or> pending_case_level_discretionary_item_count c planning_tables t = 0) \<and> \<not> r"
proof -
  obtain x where x: "case_open_counts n lib c variables model t a = Some (Inr x)"
    and y: "(case x of ((tasks, stages, subscriptions, associations, mirrors), ignored_ids) \<Rightarrow>
      out_bind (has_incomplete_required_plan_items n lib c variables t ignored_ids model) (\<lambda>incomplete_required.
        out_ok (tasks = 0 \<and> stages = 0 \<and> subscriptions = 0 \<and> associations = 0 \<and> mirrors = 0
          \<and> (if a then 0 else pending_case_level_discretionary_item_count c planning_tables t) = 0 \<and> \<not> incomplete_required)))
      = Some (Inr b)"
    using assms unfolding case_completes_def Let_def out_bind_eq_ok by force
  obtain ta st su asc mi ids where pair: "x = ((ta, st, su, asc, mi), ids)" by (metis surj_pair)
  obtain r where r: "has_incomplete_required_plan_items n lib c variables t ids model = Some (Inr r)"
    and b: "b \<longleftrightarrow> ta = 0 \<and> st = 0 \<and> su = 0 \<and> asc = 0 \<and> mi = 0
      \<and> (if a then 0 else pending_case_level_discretionary_item_count c planning_tables t) = 0 \<and> \<not> r"
    using y unfolding pair prod.case out_bind_eq_ok out_ok_eq by blast
  show thesis by (rule that [OF x [unfolded pair] r]) (use b in \<open>auto split: if_splits\<close>)
qed

lemma completed_unseen: "plan_item_completed c (t\<lparr>association_rows := rows\<rparr>) p = plan_item_completed c t p"
  by (simp add: plan_item_completed_def)

lemma incomplete_loop_unseen:
  "incomplete_required_loop n lib c variables (t\<lparr>association_rows := rows\<rparr>) ids ps = incomplete_required_loop n lib c variables t ids ps"
  by (induction ps) (simp_all add: completed_unseen cong: if_cong)

lemma incomplete_required_unseen:
  "has_incomplete_required_plan_items n lib c variables (t\<lparr>association_rows := rows\<rparr>) ids container
     = has_incomplete_required_plan_items n lib c variables t ids container"
  "incomplete_required_in_stages n lib c variables (t\<lparr>association_rows := rows\<rparr>) ids stages
     = incomplete_required_in_stages n lib c variables t ids stages"
  by (induction n lib c variables t ids container and n lib c variables t ids stages
      rule: has_incomplete_required_plan_items_incomplete_required_in_stages.induct)
     (simp_all add: incomplete_loop_unseen cong: if_cong)

text \<open>What the test of a stage reads is the same whatever task associations there are.\<close>

lemma associations_unseen:
  "open_tasks scope c a (t\<lparr>association_rows := rows\<rparr>) = open_tasks scope c a t"
  "open_stages scope c a (t\<lparr>association_rows := rows\<rparr>) = open_stages scope c a t"
  "open_event_subscription_count_for_container c stage (t\<lparr>association_rows := rows\<rparr>) = open_event_subscription_count_for_container c stage t"
  "count_blocking_mirror_plan_items scope c (t\<lparr>association_rows := rows\<rparr>) = count_blocking_mirror_plan_items scope c t"
  "rule_ignores n lib c variables items (t\<lparr>association_rows := rows\<rparr>) = rule_ignores n lib c variables items t"
  "ignored_open_human_tasks g scope c a (t\<lparr>association_rows := rows\<rparr>) = ignored_open_human_tasks g scope c a t"
  "ignored_open_stage_instances g scope c a (t\<lparr>association_rows := rows\<rparr>) = ignored_open_stage_instances g scope c a t"
  "ignored_open_event_subscriptions g c (t\<lparr>association_rows := rows\<rparr>) = ignored_open_event_subscriptions g c t"
  "ignored_open_mirror_plan_items g scope c (t\<lparr>association_rows := rows\<rparr>) = ignored_open_mirror_plan_items g scope c t"
  "has_incomplete_required_plan_items n lib c variables (t\<lparr>association_rows := rows\<rparr>) ids stage
     = has_incomplete_required_plan_items n lib c variables t ids stage"
  by (auto simp: open_tasks_def open_stages_def open_event_subscription_count_for_container_def subscribed_plan_items_def
      case_subscriptions_def count_blocking_mirror_plan_items_def blocking_mirrors_def rule_ignores_def plan_item_state_is_ignored_def
      ignored_open_human_tasks_def ignored_open_stage_instances_def ignored_open_event_subscriptions_def ignored_open_mirror_plan_items_def
      examined_mirrors_def incomplete_required_unseen fun_eq_iff Let_def split: option.split)

section \<open>Examples\<close>

definition item_with_rule :: "string \<Rightarrow> string option \<Rightarrow> cmmn_plan_item" where
  "item_with_rule i rule = \<lparr>plan_item_id = i, plan_item_definition_ref = ''d'', plan_item_name = None, entry_criterion_ids = [],
     exit_criterion_ids = [], manual_activation_rule = None, repetition_rule = None, required_rule = None,
     parent_completion_rule = rule, completion_neutral_rule = None\<rparr>"

definition waiting_session :: case_session where
  "waiting_session = \<lparr>case_log = empty_session\<lparr>human_task_rows :=
       [\<lparr>task_case_instance_id = ''c'', task_stage_instance_id = Some ''s'', task_plan_item_id = ''t'', task_state = TaskAvailable\<rparr>]\<rparr>,
     stage_rows = [], subscription_rows = [], association_rows = [], mirror_rows = []\<rparr>"

definition waiting_model :: cmmn_container where
  "waiting_model = Container [item_with_rule ''t'' (Some ''ignoreIfAvailable'')] [] []"

definition mirror_of :: "string \<Rightarrow> string \<Rightarrow> mirror_row" where
  "mirror_of i definition_type = \<lparr>mirror_case_instance_id = ''c'', mirror_stage_instance_id = None, mirror_plan_item_id = i,
     mirror_definition_type = definition_type, mirror_state = ''ENABLED'', mirror_ended_at = None\<rparr>"

text \<open>A stage that waits for its manual start and may be ignored, and a process task that waits too and may not.\<close>

definition manual_model :: cmmn_container where
  "manual_model = Container [item_with_rule ''s'' (Some ''ignore''), item_with_rule ''p'' None] [Container [] [] []] []"

definition manual_session :: "mirror_row list \<Rightarrow> case_session" where
  "manual_session others = \<lparr>case_log = empty_session,
     stage_rows = [\<lparr>stage_case_instance_id = ''c'', stage_parent_instance_id = None, stage_plan_item_id = ''s'', stage_state = StageEnabled\<rparr>],
     subscription_rows = [], association_rows = [], mirror_rows = mirror_of ''s'' ''stage'' # others\<rparr>"

text \<open>C24. The completion test of a stage instance, as the code makes it: the stage completes exactly when every child that
  the test counts is excused by a rule, and every required plan item below it that is not excused has completed. Counted
  are the open human tasks and child stages and, without auto-completion, the event subscriptions and the enabled or
  listening plan items; running process and case tasks are not.\<close>

theorem stage_completes_iff:
  assumes "evaluate_auto_complete n lib variables auto_flag auto_condition = Some (Inr a)"
    and "\<forall>m \<in> set (mirror_rows t). mirror_definition_type m = ''stage'' \<longrightarrow> mirror_stage_instance_id m = None"
    and "stage_completes n lib c variables auto_flag auto_condition stage sid t = Some (Inr b)"
  shows "b \<longleftrightarrow> (\<forall>child \<in> set (counted_children (StageScope sid) a c stage t). excused (container_ignores n lib c variables stage t) child)
    \<and> required_done n lib c variables t (excused_items (container_ignores n lib c variables stage t) (StageScope sid) a c t) (all_plan_items stage)"
proof -
  obtain x where x: "stage_open_counts n lib c variables stage sid t a = Some (Inr x)"
    and y: "(case x of ((tasks, stages, subscriptions, mirrors), ignored_ids) \<Rightarrow>
      out_bind (has_incomplete_required_plan_items n lib c variables t ignored_ids stage) (\<lambda>incomplete_required.
        out_ok (tasks = 0 \<and> stages = 0 \<and> subscriptions = 0 \<and> mirrors = 0 \<and> \<not> incomplete_required))) = Some (Inr b)"
    using assms(1,3) unfolding stage_completes_def out_bind_eq_ok by force
  obtain ta st su mi ids where pair: "x = ((ta, st, su, mi), ids)" by (metis surj_pair)
  note counts = x [unfolded pair]
  obtain r where r: "has_incomplete_required_plan_items n lib c variables t ids stage = Some (Inr r)"
    and b: "b \<longleftrightarrow> (ta = 0 \<and> st = 0 \<and> su = 0 \<and> mi = 0) \<and> \<not> r"
    using y unfolding pair prod.case out_bind_eq_ok out_ok_eq by blast
  show ?thesis
    using b has_incomplete_required_iff(1) [OF r] stage_counts_no_rules [OF counts] stage_counts_rules [OF counts _ assms(2)]
    by (cases "collect_rule_bearing_plan_items stage = []") simp_all
qed

theorem stage_completes_iff_witness:
  "stage_completes 1 cmmn_example_lib ''c'' [] False None waiting_model ''s'' waiting_session = Some (Inr True)
    \<and> list_all (excused (container_ignores 1 cmmn_example_lib ''c'' [] waiting_model waiting_session))
        (counted_children (StageScope ''s'') False ''c'' waiting_model waiting_session)"
proof -
  have "evaluate_auto_complete 1 cmmn_example_lib [] False None = Some (Inr False)" by code_simp
  moreover have "\<forall>m \<in> set (mirror_rows waiting_session). mirror_definition_type m = ''stage'' \<longrightarrow> mirror_stage_instance_id m = None"
    by code_simp
  moreover have "stage_completes 1 cmmn_example_lib ''c'' [] False None waiting_model ''s'' waiting_session = Some (Inr True)" by code_simp
  ultimately show ?thesis
    using stage_completes_iff [of 1 cmmn_example_lib "[]" False None False waiting_session "''c''" waiting_model "''s''" True] by (simp add: list_all_iff)
qed

text \<open>
  C25. The completion test of a stage does not see running process and case tasks. Whatever task associations are active, the
  answer is the same; so a stage completes over a running process task that nothing excuses.
\<close>

theorem stage_completion_ignores_running_tasks:
  "stage_completes n lib c variables auto_flag auto_condition stage sid (t\<lparr>association_rows := rows\<rparr>)
     = stage_completes n lib c variables auto_flag auto_condition stage sid t"
  by (simp add: stage_completes_def stage_open_counts_def associations_unseen Let_def cong: if_cong)

text \<open>C23. A case completes exactly when every open child is excused, it auto-completes or has no discretionary item pending, and
  every required plan item that is not excused has completed, provided that no stage waiting for its manual start is excused.\<close>

theorem case_completes_iff:
  assumes "evaluate_auto_complete n lib variables auto_flag auto_condition = Some (Inr a)"
    and "\<forall>m \<in> set (examined_mirrors CaseScope c t). mirror_definition_type m = ''stage''
      \<longrightarrow> \<not> says_yes (container_ignores n lib c variables model t (mirror_plan_item_id m) (mirror_completion_state m))"
    and "case_completes n lib c variables auto_flag auto_condition model planning_tables t = Some (Inr b)"
  shows "b \<longleftrightarrow> (\<forall>child \<in> set (counted_children CaseScope a c model t). excused (container_ignores n lib c variables model t) child)
    \<and> (a \<or> pending_case_level_discretionary_item_count c planning_tables t = 0)
    \<and> required_done n lib c variables t (excused_items (container_ignores n lib c variables model t) CaseScope a c t) (all_plan_items model)"
proof -
  obtain ta st su asc mi ids r where
    counts: "case_open_counts n lib c variables model t a = Some (Inr ((ta, st, su, asc, mi), ids))"
    and r: "has_incomplete_required_plan_items n lib c variables t ids model = Some (Inr r)"
    and b: "b \<longleftrightarrow> (ta = 0 \<and> st = 0 \<and> su = 0 \<and> asc = 0 \<and> mi = 0)
      \<and> (a \<or> pending_case_level_discretionary_item_count c planning_tables t = 0) \<and> \<not> r"
    by (rule case_completes_parts [OF assms(1,3)])
  show ?thesis
    using b has_incomplete_required_iff(1) [OF r] case_counts_no_rules [OF counts] case_counts_rules [OF counts _ assms(2)]
    by (cases "collect_rule_bearing_plan_items model = []") simp_all
qed

theorem case_completes_iff_witness:
  "case_completes 1 cmmn_example_lib ''c'' [] False None waiting_model [] waiting_session = Some (Inr True)
    \<and> list_all (excused (container_ignores 1 cmmn_example_lib ''c'' [] waiting_model waiting_session))
        (counted_children CaseScope False ''c'' waiting_model waiting_session)"
proof -
  have "evaluate_auto_complete 1 cmmn_example_lib [] False None = Some (Inr False)" by code_simp
  moreover have "examined_mirrors CaseScope ''c'' waiting_session = []" by code_simp
  moreover have "case_completes 1 cmmn_example_lib ''c'' [] False None waiting_model [] waiting_session = Some (Inr True)" by code_simp
  ultimately show ?thesis
    using case_completes_iff [of 1 cmmn_example_lib "[]" False None False "''c''" waiting_session waiting_model "[]" True] by (simp add: list_all_iff)
qed

text \<open>C38. A rule that excuses a stage waiting for its manual start disturbs the count of the other plan items: a case without
  auto-completion completes only when exactly as many unexcused plan items block it as such stages are excused. So one
  excused stage keeps the case open for ever, or lets it complete over a plan item that should block it.\<close>

theorem excused_stage_offsets_blocker:
  assumes "evaluate_auto_complete n lib variables auto_flag auto_condition = Some (Inr False)"
    and "case_completes n lib c variables auto_flag auto_condition model planning_tables t = Some (Inr True)"
  shows "length (filter (\<lambda>m. \<not> excused (container_ignores n lib c variables model t) (Some (mirror_plan_item_id m), mirror_completion_state m))
           (blocking_mirrors CaseScope c t))
    = length (filter (\<lambda>m. excused (container_ignores n lib c variables model t) (Some (mirror_plan_item_id m), mirror_completion_state m)
           \<and> mirror_definition_type m = ''stage'') (examined_mirrors CaseScope c t))"
proof -
  let ?ignores = "container_ignores n lib c variables model t"
  let ?yes = "\<lambda>m. says_yes (?ignores (mirror_plan_item_id m) (mirror_completion_state m))"
  obtain ta st su asc mi ids r where
    counts: "case_open_counts n lib c variables model t False = Some (Inr ((ta, st, su, asc, mi), ids))" and "mi = 0"
    by (rule case_completes_parts [OF assms]) blast
  have excused: "excused ?ignores (Some i, s) \<longleftrightarrow> says_yes (?ignores i s)" for i s by (simp add: excused_def)
  show ?thesis
  proof (cases "collect_rule_bearing_plan_items model = []")
    case True
    then have "blocking_mirrors CaseScope c t = []"
      using counts \<open>mi = 0\<close> by (auto simp: case_open_counts_def Let_def count_blocking_mirror_plan_items_def)
    then show ?thesis using True by (simp add: excused_def container_ignores_def)
  next
    case False
    obtain k ids' where
      k: "ignored_open_mirror_plan_items ?ignores CaseScope c t ids' = Some (Inr (k, ids))"
      "i64_saturating_sub (int (length (blocking_mirrors CaseScope c t))) k = 0"
      by (rule case_counts_parts [OF counts False]) (simp add: \<open>mi = 0\<close> count_blocking_mirror_plan_items_def)
    from k(2) ignored_mirrors(1) [OF k(1)] have "int (length (blocking_mirrors CaseScope c t))
        = int (length (filter ?yes (blocking_mirrors CaseScope c t)))
          + int (length (filter (\<lambda>m. ?yes m \<and> mirror_definition_type m = ''stage'') (examined_mirrors CaseScope c t)))"
      by simp
    moreover have "length (blocking_mirrors CaseScope c t)
        = length (filter ?yes (blocking_mirrors CaseScope c t)) + length (filter (\<lambda>m. \<not> ?yes m) (blocking_mirrors CaseScope c t))"
      using sum_length_filter_compl [of ?yes "blocking_mirrors CaseScope c t"] by simp
    ultimately show ?thesis by (simp add: excused)
  qed
qed

theorem excused_stage_offsets_blocker_witness:
  "case_completes 1 cmmn_example_lib ''c'' [] False None manual_model [] (manual_session []) = Some (Inr False)
    \<and> case_completes 1 cmmn_example_lib ''c'' [] False None manual_model [] (manual_session [mirror_of ''p'' ''processtask'']) = Some (Inr True)
    \<and> length (filter (\<lambda>m. \<not> excused (container_ignores 1 cmmn_example_lib ''c'' [] manual_model (manual_session [mirror_of ''p'' ''processtask'']))
          (Some (mirror_plan_item_id m), mirror_completion_state m))
          (blocking_mirrors CaseScope ''c'' (manual_session [mirror_of ''p'' ''processtask''])))
      = length (filter (\<lambda>m. excused (container_ignores 1 cmmn_example_lib ''c'' [] manual_model (manual_session [mirror_of ''p'' ''processtask'']))
          (Some (mirror_plan_item_id m), mirror_completion_state m) \<and> mirror_definition_type m = ''stage'')
          (examined_mirrors CaseScope ''c'' (manual_session [mirror_of ''p'' ''processtask''])))"
proof -
  have "evaluate_auto_complete 1 cmmn_example_lib [] False None = Some (Inr False)" by code_simp
  moreover have both: "case_completes 1 cmmn_example_lib ''c'' [] False None manual_model [] (manual_session []) = Some (Inr False)"
    "case_completes 1 cmmn_example_lib ''c'' [] False None manual_model [] (manual_session [mirror_of ''p'' ''processtask'']) = Some (Inr True)"
    by code_simp+
  ultimately show ?thesis
    using excused_stage_offsets_blocker [of 1 cmmn_example_lib "[]" False None "''c''" manual_model "[]" "manual_session [mirror_of ''p'' ''processtask'']"]
    by simp
qed

end
