(* ===== verification/Spec2Isabelle.thy ===== *)
theory Spec2Isabelle
  imports Sql_Like Rate_Limiter Ssrf_Guard Job_Locks Joins Dmn_Requirements Dmn_History Dmn_Conversion Cmmn_Sentry_Api Cmmn_Completion_Decides
begin

text \<open>
  \<^bold>\<open>Verification of the Flowable engine in Rust.\<close>

  The repository is a process engine: BPMN processes are deployed as models, run as trees of executions in a
  store, and moved on by operations of an agenda; jobs wait in a table that several nodes poll; decisions are
  DMN tables with FEEL expressions; an HTTP layer stands in front. This development models the parts that
  carry the engine's own logic, in the terms of the code, and proves what makes them correct. All paths below
  are under \<open>src/modules\<close>.

  \<^bold>\<open>Parts and theories.\<close>

  \<^item> \<open>Prelude\<close>, \<open>Rust_Text\<close>, \<open>Json_Value\<close>, \<open>Json_Access\<close>: results (\<open>'e + 'a\<close>, with \<open>rbind\<close> for Rust's \<open>?\<close>), string operations of the standard
    library, JSON values as \<open>serde_json\<close> stores them.
  \<^item> \<open>Bpmn_Model\<close> (\<open>flowable-bpmn-model/src/model.rs\<close>): every struct and enum of the model, with the defaults and
    methods. \<open>Flow_Elements\<close>: the element accessors of the two agenda operations.
  \<^item> \<open>Execution_Graph\<close>, \<open>Reachability\<close> (\<open>flowable-engine/src/bpmn/execution_graph_util.rs\<close>, and the element map of
    \<open>flowable-bpmn-converter\<close>): the search that decides whether an element can still be reached. It decides
    an inductively defined relation on every well-formed process whose nested subprocesses have an outgoing flow wherever a
    flow leads to them (without that condition it can miss a path), and its loops end.
  \<^item> \<open>Job_Store\<close>, \<open>Lease\<close>, \<open>Job_Locks\<close> (\<open>flowable-engine/src/persistence/runtime_store.rs\<close>, \<open>db_session.rs\<close>,
    \<open>engine/reset_expired_jobs.rs\<close>): the job table with its denormalised columns, acquisition by compare-and-set,
    release, guarded replacement, external fetch and the reset cycle. No job is granted twice, acquisition
    locks exactly the candidates it returns, a reset cycle ends and clears exactly the expired leases.
    The locale \<open>lease_table\<close> of the theory \<open>Lease\<close> is the contract the races are proved from.
  \<^item> \<open>Execution_Store\<close>, \<open>Token_Store\<close> (\<open>runtime/execution.rs\<close>, \<open>persistence/execution_entity_manager.rs\<close>,
    \<open>engine/variable_service.rs\<close>): executions, their rows, the projected variable table and the per-command sets.
    Writes keep the projection, transients are never committed, scope lookup follows the parent chain.
  \<^item> \<open>Sequence_Flows\<close>, \<open>Gateways\<close>, \<open>Joins\<close> (\<open>agenda/\<close>, \<open>bpmn/behavior/\<close>, \<open>bpmn/skip_expression.rs\<close>,
    \<open>interceptor/command_executor.rs\<close>): the choice of outgoing flows, parallel, inclusive and exclusive gateways
    with their joins, and the agenda loop. Exact behaviour of both joins (of the parallel one outside
    multi-instance scopes) and of the scan that ends a command: it fires nothing exactly when the parked joins are blocked.
  \<^item> \<open>Float64\<close>, \<open>Feel_Syntax\<close>, \<open>Feel_Parser\<close>, \<open>Feel_Roundtrip\<close>, \<open>Feel_Eval\<close>, \<open>Feel_Semantics\<close>
    (\<open>flowable-dmn-engine/src/feel\<close>): IEEE doubles on 64-bit words, the lexer, the recursive descent parser and the
    evaluator. Printed expressions parse back, evaluation refines a lexically scoped meaning and
    has the type of the expression.
  \<^item> \<open>Dmn_Durations\<close>, \<open>Dmn_Model\<close>, \<open>Dmn_Values\<close>, \<open>Dmn_Rules\<close>, \<open>Dmn_Hit_Policies\<close>, \<open>Dmn_Tables\<close>
    (\<open>flowable-dmn-engine/src/models.rs\<close>, \<open>runtime.rs\<close>): duration texts, type references and coercion, unary tests,
    rules and their outputs, the nine hit policies and the audit. A table refines the promise of its policy,
    strict mode only refuses, outputs have their declared types.
  \<^item> \<open>Dmn_Validation\<close>, \<open>Dmn_Typing\<close>, \<open>Dmn_Repository\<close>, \<open>Dmn_Store\<close> (\<open>flowable-dmn-engine/src/repository.rs\<close>): the checks and
    rewritings of a deployment, the five tables with their primary keys, deployment, deletion and the lookups. The store
    keeps its invariant, a deployed decision is what its key finds, deletion undoes a deployment, and a static output
    that evaluates to its stored value never fails its type at run time; the literal \<open>-5\<close> does not evaluate to it, and fails.
  \<^item> \<open>Dmn_Unary_Parser\<close>, \<open>Dmn_Unary_Texts\<close>, \<open>Dmn_Unary_Roundtrip\<close>, \<open>Dmn_Conversion\<close> (\<open>flowable-dmn-engine/src/models.rs\<close>, \<open>flowable-dmn-model/src/lib.rs\<close>):
    the reader of unary tests and literals, and the conversion of the document model into the executable one. Printed
    tests of the class \<open>test_ok\<close> read back, every test that is read is well formed, and a decision converts exactly when its parts do.
  \<^item> \<open>Dmn_Decisions\<close>, \<open>Dmn_Requirements\<close>, \<open>Dmn_History\<close> (\<open>runtime.rs\<close>, \<open>history.rs\<close>): decisions with the decisions they require,
    decision services, history rows and history queries. Execution returns, runs every decision after its
    requirements and rejects cycles.
  \<^item> \<open>Cmmn_If_Part\<close>, \<open>Cmmn_If_Part_Parser\<close>, \<open>Cmmn_If_Part_Eval\<close>, \<open>Cmmn_If_Part_Texts\<close>, \<open>Cmmn_If_Part_Semantics\<close>
    (\<open>flowable-cmmn-model/src/lib.rs\<close>, \<open>flowable-cmmn-engine/src/models.rs\<close>, \<open>runtime.rs\<close>): the conditions of sentries, from their text to
    their value. Printed operands read back, a comparison compares the values of its
    operands although its left side is kept as text, paths follow their steps; parentheses of a compared sum are lost.
  \<^item> \<open>Cmmn_Sentries\<close>, \<open>Cmmn_Sentry_Api\<close> (\<open>flowable-cmmn-engine/src/models.rs\<close>, \<open>runtime.rs\<close>): sentries, the event log, the marks of satisfied
    conditions, and the exported evaluator. The marks implement a memory that lasts until the sentry fires, an event
    fires exactly the sentries it completes, and both evaluators agree on a class of conditions without numbers.
  \<^item> \<open>Cmmn_Completion\<close>, \<open>Cmmn_Completion_Decides\<close> (\<open>flowable-cmmn-engine/src/runtime.rs\<close>): the test whether a stage or a case is complete, by
    counts of open rows less the rows that a rule excuses. It holds exactly when every counted child is excused and the required
    plan items are done, except that an excused stage waiting for its manual start upsets the count of a case; a stage does not count
    its running process and case tasks.
  \<^item> \<open>Sql_Like\<close>, \<open>Rate_Limiter\<close>, \<open>Ssrf_Guard\<close> (\<open>flowable-engine-common/src/like.rs\<close>, \<open>service/rate_limit.rs\<close>,
    \<open>flowable-http-service/src/ssrf_guard.rs\<close>): the LIKE matcher equals the declarative relation, the limiter admits, in every interleaving
    of concurrent attempts, exactly while fewer failures than the threshold are recorded, the URL guard accepts exactly the described URLs.

  \<^bold>\<open>How the parts interact.\<close> A command fills the agenda (the loop of \<open>execute_terminal\<close> in \<open>Gateways\<close>); its operations select flows
  (\<open>Sequence_Flows\<close>), run gateways (\<open>Gateways\<close>) on the store (\<open>Execution_Store\<close>) and ask the graph (\<open>Reachability\<close>) whether
  a join must wait. A decision evaluates its unary tests and outputs (\<open>Dmn_Rules\<close>) through the expression engine, which
  is the FEEL evaluator (\<open>Feel_Semantics.feel_evaluate\<close>) with a fallback. An execution by key looks the decision up
  (\<open>Dmn_Repository\<close>), runs what it requires, evaluates its table (\<open>Dmn_Hit_Policies\<close>) and adds a history row. An event of a plan
  item is logged and its container is searched for the sentries it completes (\<open>Cmmn_Sentries\<close>), whose conditions are
  evaluated on the variables of the case (\<open>Cmmn_If_Part_Eval\<close>).

  \<^bold>\<open>Interfaces.\<close> Each locale is interpreted on the model: \<open>lease_table\<close> on the job table, \<open>process_graph\<close> on well-formed
  processes, \<open>token_table\<close> on the store of executions, \<open>token_vectors\<close> on the output of the lexer, \<open>output_cache\<close> on the cache that a decision table
  builds, \<open>row_order\<close> on the orders of the DMN queries, \<open>decision_requirements\<close> on the lookup of the DMN repository.

  \<^bold>\<open>State and errors.\<close> A stateful operation takes the state as a record and returns it; several nodes are a list of
  operations in the order of their database steps. Every error of the code is a value on the left of a sum.
  Machine integers are words or integers with the range check written out.

  \<^bold>\<open>Fuel.\<close> The graph search and the climbing loops take fuel; the number of elements of the process is enough
  (\<open>Reachability\<close>). The FEEL parser takes fuel; a bound linear in the number of tokens is enough for every token
  vector the lexer makes (\<open>lexer.parse_returns\<close>). The reset cycle and the agenda loop take fuel where the source
  loops until nothing is left; the theorems say when they return. The recursion into required decisions takes fuel; one
  more than the number of stored decisions is enough (\<open>Dmn_Requirements.execution_returns\<close>). The loops of the condition parser
  take the number of remaining tokens (\<open>Cmmn_If_Part_Parser.if_part_parser_returns\<close>, which says that this fuel suffices); the fuel of the condition evaluator is the
  number of nested readings of operands, and its theorems hold for every positive fuel.

  \<^bold>\<open>Parameters.\<close> What the code takes from elsewhere is an argument: values of UEL expressions and listeners, random ids,
  clock readings, DNS answers, \<open>f64::powf\<close> and Unicode case conversion, and for decisions the date types of
  \<open>chrono\<close>, regular expressions, the reading and printing of JSON text and the compatibility evaluator of
  \<open>models.rs\<close>, for conditions the numbers and texts of \<open>serde_json\<close>, regular expressions and \<open>SimpleExpression\<close>, how the database matches \<open>LIKE\<close> and words a violated key. The theorems hold for every value of these arguments.

  \<^bold>\<open>Limits of the model.\<close> A character is one of the 256 HOL characters, so texts are those up to U+00FF. SQL statements
  are modelled by what they select and change. Texts are kept as they are: that \<open>db_session.rs\<close> binds a text that reads as an \<open>i64\<close>
  as an integer, so that the column of a lock owner \<open>007\<close> holds \<open>7\<close>, is not represented (\<open>Job_Store\<close>). An overflowing plain
  addition panics in the release profile; where the model has one (\<open>fetch_and_lock_external_worker_timer_jobs\<close>, \<open>next_version\<close>), the panic
  is an outcome of its own. The compatibility evaluator of decision tables reads the clock at each call; the model takes it
  as one function, that is, with the clock standing still during one execution. The depth of recursion is not bounded: where the
  recursive descent parsers would overflow the stack on a deeply nested text (the condition parser has no limit on a chain
  of exclamation marks), the model gives the result of a machine with enough stack. The log, metrics and event dispatch (\<open>dispatch_sequenceflow_taken\<close> and
  the like) have no effect on the modelled state and are left out, as is the second copy of an execution in
  \<open>ACT_RU_EXECUTION\<close>.

  \<^bold>\<open>Not modelled.\<close> The CMMN engine apart from sentries and the test for completion (life cycles of plan items, case files, jobs, storage); activity behaviours other than gateways, the continue operation and the commands of the
  services; the process history, forms, content, identity and mail services, whose logic is storage; scripting; the XML converters,
  which are built on \<open>quick-xml\<close>; layout and image output; HTTP routing and start-up.
\<close>

end
